(* ===== verification/Prelude.thy ===== *)
theory Prelude
  imports Main "HOL-Library.Word"
begin

text \<open>
  The prelude of the development: the machine-integer types, the result type of fallible
  Rust code, the state-passing combinators that render \<^verbatim>\<open>&mut\<close> arguments and the
  \<^verbatim>\<open>?\<close> operator, the big-endian and little-endian integer encodings, the in-memory
  \<^verbatim>\<open>std::io::Cursor\<close> and \<^verbatim>\<open>Vec<u8>\<close> writer, and the interface locale
  \<open>byte_codec\<close> that every decoder/encoder pair of the components satisfies.
\<close>

unbundle bit_operations_syntax

section \<open>Types\<close>

type_synonym u8 = "8 word"
type_synonym u16 = "16 word"
type_synonym u32 = "32 word"
type_synonym u64 = "64 word"
type_synonym i16 = "16 word"
type_synonym i32 = "32 word"
type_synonym i64 = "64 word"

text \<open>A double is represented by its IEEE-754 bit pattern, a \<^verbatim>\<open>[u8; 4]\<close> by a list.\<close>

type_synonym f64 = "64 word"
type_synonym bytes = "8 word list"

text \<open>
  The outcome of fallible code. \<open>Panic\<close> is a Rust panic (a failed slice, an \<open>unwrap\<close> of
  \<open>None\<close>, an arithmetic overflow in a build with overflow checks). \<open>OutOfFuel\<close> stands for
  code that does not return: it is produced by loops that are modelled with fuel, when the fuel runs
  out, and by an \<^verbatim>\<open>await\<close> without a timeout that is never answered.
\<close>

datatype ('e, 'a) result = Ok 'a | Err 'e | Panic | OutOfFuel

text \<open>\<^verbatim>\<open>std::io::ErrorKind\<close>, as far as the sources use it; message texts are dropped.\<close>

datatype io_error = UnexpectedEof | InvalidData | InvalidInput

type_synonym 'a io_result = "(io_error, 'a) result"

type_synonym ('s, 'e, 'a) prog = "'s \<Rightarrow> ('e, 'a) result \<times> 's"

fun is_ok :: "('e, 'a) result \<Rightarrow> bool" where
  "is_ok (Ok _) = True"
| "is_ok _ = False"

named_theorems codec_simps \<open>length and decoding facts of the byte encodings\<close>
named_theorems run_simps \<open>how the combinators and the primitive reads and writes run\<close>

section \<open>State-passing combinators\<close>

definition ret :: "'a \<Rightarrow> ('s, 'e, 'a) prog" where
  "ret x = (\<lambda>s. (Ok x, s))"

definition fail :: "'e \<Rightarrow> ('s, 'e, 'a) prog" where
  "fail e = (\<lambda>s. (Err e, s))"

definition panic :: "('s, 'e, 'a) prog" where
  "panic = (\<lambda>s. (Panic, s))"

definition out_of_fuel :: "('s, 'e, 'a) prog" where
  "out_of_fuel = (\<lambda>s. (OutOfFuel, s))"

text \<open>\<open>bindE m f\<close> runs \<open>m\<close> and hands its value to \<open>f\<close>; any other outcome is returned as
  it is, with the state reached: the \<^verbatim>\<open>?\<close> operator on a \<^verbatim>\<open>&mut\<close> state.\<close>

definition bindE :: "('s, 'e, 'a) prog \<Rightarrow> ('a \<Rightarrow> ('s, 'e, 'b) prog) \<Rightarrow> ('s, 'e, 'b) prog" where
  "bindE m f = (\<lambda>s. case m s of
       (Ok x, s') \<Rightarrow> f x s'
     | (Err e, s') \<Rightarrow> (Err e, s')
     | (Panic, s') \<Rightarrow> (Panic, s')
     | (OutOfFuel, s') \<Rightarrow> (OutOfFuel, s'))"

text \<open>The same on results without a state.\<close>

fun rbind :: "('e, 'a) result \<Rightarrow> ('a \<Rightarrow> ('e, 'b) result) \<Rightarrow> ('e, 'b) result" where
  "rbind (Ok x) f = f x"
| "rbind (Err e) f = Err e"
| "rbind Panic f = Panic"
| "rbind OutOfFuel f = OutOfFuel"

text \<open>\<open>lift_result\<close> runs a pure fallible computation, \<open>map_errE\<close> renders \<^verbatim>\<open>map_err\<close>.\<close>

definition lift_result :: "('e, 'a) result \<Rightarrow> ('s, 'e, 'a) prog" where
  "lift_result r = (\<lambda>s. (r, s))"

fun map_err :: "('e \<Rightarrow> 'f) \<Rightarrow> ('e, 'a) result \<Rightarrow> ('f, 'a) result" where
  "map_err f (Ok x) = Ok x"
| "map_err f (Err e) = Err (f e)"
| "map_err f Panic = Panic"
| "map_err f OutOfFuel = OutOfFuel"

definition map_errE :: "('e \<Rightarrow> 'f) \<Rightarrow> ('s, 'e, 'a) prog \<Rightarrow> ('s, 'f, 'a) prog" where
  "map_errE f m = (\<lambda>s. case m s of (r, s') \<Rightarrow> (map_err f r, s'))"

text \<open>\<open>repeat_m n m\<close> is \<^verbatim>\<open>for _ in 0..n\<close> pushing each value on a vector, \<open>for_m xs f\<close> is
  \<^verbatim>\<open>for x in xs\<close>, \<open>map_m\<close> collects the values of one call per element.\<close>

fun repeat_m :: "nat \<Rightarrow> ('s, 'e, 'a) prog \<Rightarrow> ('s, 'e, 'a list) prog" where
  "repeat_m 0 m = ret []"
| "repeat_m (Suc n) m = bindE m (\<lambda>x. bindE (repeat_m n m) (\<lambda>xs. ret (x # xs)))"

fun for_m :: "'a list \<Rightarrow> ('a \<Rightarrow> ('s, 'e, unit) prog) \<Rightarrow> ('s, 'e, unit) prog" where
  "for_m [] f = ret ()"
| "for_m (x # xs) f = bindE (f x) (\<lambda>_. for_m xs f)"

fun map_m :: "('a \<Rightarrow> ('s, 'e, 'b) prog) \<Rightarrow> 'a list \<Rightarrow> ('s, 'e, 'b list) prog" where
  "map_m f [] = ret []"
| "map_m f (x # xs) = bindE (f x) (\<lambda>y. bindE (map_m f xs) (\<lambda>ys. ret (y # ys)))"

lemma bindE_Ok [run_simps]: "m s = (Ok x, s') \<Longrightarrow> bindE m f s = f x s'"
  by (simp add: bindE_def)

lemma bindE_Err [run_simps]: "m s = (Err e, s') \<Longrightarrow> bindE m f s = (Err e, s')"
  by (simp add: bindE_def)

lemma bindE_Panic [run_simps]: "m s = (Panic, s') \<Longrightarrow> bindE m f s = (Panic, s')"
  by (simp add: bindE_def)

lemma bindE_OutOfFuel [run_simps]: "m s = (OutOfFuel, s') \<Longrightarrow> bindE m f s = (OutOfFuel, s')"
  by (simp add: bindE_def)

lemma ret_run [run_simps]: "ret x s = (Ok x, s)"
  by (simp add: ret_def)

lemma fail_run [run_simps]: "fail e s = (Err e, s)"
  by (simp add: fail_def)

lemma panic_run [run_simps]: "panic s = (Panic, s)"
  by (simp add: panic_def)

lemma out_of_fuel_run [run_simps]: "out_of_fuel s = (OutOfFuel, s)"
  by (simp add: out_of_fuel_def)

lemma lift_result_run [run_simps]: "lift_result r s = (r, s)"
  by (simp add: lift_result_def)

lemma map_errE_run [run_simps]:
  "m s = (Ok x, s') \<Longrightarrow> map_errE g m s = (Ok x, s')"
  "m s = (Err e, s') \<Longrightarrow> map_errE g m s = (Err (g e), s')"
  "m s = (Panic, s') \<Longrightarrow> map_errE g m s = (Panic, s')"
  "m s = (OutOfFuel, s') \<Longrightarrow> map_errE g m s = (OutOfFuel, s')"
  by (simp_all add: map_errE_def)

lemma for_m_cong [fundef_cong]:
  "xs = ys \<Longrightarrow> (\<And>x. x \<in> set ys \<Longrightarrow> f x = g x) \<Longrightarrow> for_m xs f = for_m ys g"
  by (induction xs arbitrary: ys) auto

lemma bindE_assoc: "bindE (bindE m f) g = bindE m (\<lambda>x. bindE (f x) g)"
  by (rule ext) (simp add: bindE_def split: prod.splits result.splits)

lemma bindE_OkE:
  assumes "bindE m f s = (Ok y, t)"
  obtains x s' where "m s = (Ok x, s')" and "f x s' = (Ok y, t)"
  using assms by (auto simp: bindE_def split: prod.splits result.splits)

lemma bindE_eq_Ok_iff:
  "bindE m f s = (Ok y, t) \<longleftrightarrow> (\<exists>x s'. m s = (Ok x, s') \<and> f x s' = (Ok y, t))"
  by (auto simp: bindE_def split: prod.splits result.splits)

lemma repeat_m_length: "repeat_m n m s = (Ok xs, t) \<Longrightarrow> length xs = n"
  by (induction n arbitrary: s xs) (auto simp: run_simps elim!: bindE_OkE)

section \<open>Total-correctness triples\<close>

text \<open>\<open>runs H P m Q E\<close>: from a state in \<open>P\<close>, \<open>Q\<close> holds of the value and the state on success, \<open>E\<close> of the state
  on an error or a panic, and \<open>H\<close> of the state in which the program hangs; with an \<open>H\<close> that is false it
  always returns.\<close>

definition runs :: "('s \<Rightarrow> bool) \<Rightarrow> ('s \<Rightarrow> bool) \<Rightarrow> ('s, 'e, 'a) prog \<Rightarrow> ('a \<Rightarrow> 's \<Rightarrow> bool) \<Rightarrow> ('s \<Rightarrow> bool) \<Rightarrow> bool" where
  "runs H P m Q E \<longleftrightarrow> (\<forall>s. P s \<longrightarrow> (case m s of (Ok x, s') \<Rightarrow> Q x s' | (Err _, s') \<Rightarrow> E s'
     | (Panic, s') \<Rightarrow> E s' | (OutOfFuel, s') \<Rightarrow> H s'))"

lemma runs_bind:
  assumes "runs H P m R E" "\<And>x. runs H (R x) (f x) Q E"
  shows "runs H P (bindE m f) Q E"
  using assms by (fastforce simp: runs_def bindE_def split: prod.splits result.splits)

lemma runs_pre: "runs H P m Q E \<Longrightarrow> (\<And>s. P' s \<Longrightarrow> P s) \<Longrightarrow> runs H P' m Q E"
  by (simp add: runs_def)

lemma runs_ret: "(\<And>s. P s \<Longrightarrow> Q x s) \<Longrightarrow> runs H P (ret x) Q E"
  by (simp add: runs_def ret_def)

lemma runs_lift:
  "r \<noteq> OutOfFuel \<Longrightarrow> (\<And>s. P s \<Longrightarrow> E s) \<Longrightarrow> runs H P (lift_result r) (\<lambda>_. P) E"
  by (cases r) (simp_all add: runs_def lift_result_def)

text \<open>The special case of an invariant, kept on every outcome but a hang.\<close>

abbreviation keeps :: "('s \<Rightarrow> bool) \<Rightarrow> ('s \<Rightarrow> bool) \<Rightarrow> ('s, 'e, 'a) prog \<Rightarrow> bool" where
  "keeps H I m \<equiv> runs H I m (\<lambda>_. I) I"

lemma keeps_pure: "keeps H I (ret x)" "keeps H I (fail e)" "keeps H I panic"
  by (simp_all add: runs_def ret_def fail_def panic_def)

lemma keeps_bind: "keeps H I m \<Longrightarrow> (\<And>x. keeps H I (f x)) \<Longrightarrow> keeps H I (bindE m f)"
  by (rule runs_bind)

section \<open>Programs that return\<close>

text \<open>\<open>halts m\<close> says that \<open>m\<close> never runs out of the fuel its loops are given, whatever the state.\<close>

named_theorems halts_intros \<open>rules that show that a program returns\<close>

definition halts :: "('s, 'e, 'a) prog \<Rightarrow> bool" where
  "halts m \<longleftrightarrow> (\<forall>s. fst (m s) \<noteq> OutOfFuel)"

lemma haltsI: "(\<And>s. fst (m s) \<noteq> OutOfFuel) \<Longrightarrow> halts m"
  by (simp add: halts_def)

lemma haltsD: "halts m \<Longrightarrow> fst (m s) \<noteq> OutOfFuel"
  by (simp add: halts_def)

lemma halts_bind [halts_intros]: "halts m \<Longrightarrow> (\<And>x. halts (f x)) \<Longrightarrow> halts (bindE m f)"
proof (rule haltsI)
  fix s assume m: "halts m" and f: "\<And>x. halts (f x)"
  show "fst (bindE m f s) \<noteq> OutOfFuel"
    using haltsD [OF m, of s] haltsD [OF f] by (cases "m s"; cases "fst (m s)") (auto simp: bindE_def)
qed

lemma halts_pure [halts_intros]: "halts (ret x)" "halts (fail e)" "halts panic"
  by (simp_all add: halts_def run_simps)

lemma halts_if [halts_intros]: "(b \<Longrightarrow> halts m) \<Longrightarrow> (\<not> b \<Longrightarrow> halts m') \<Longrightarrow> halts (if b then m else m')"
  by simp

lemma halts_repeat [halts_intros]: "halts m \<Longrightarrow> halts (repeat_m n m)"
  by (induction n) (auto intro!: halts_intros)

lemma halts_lift [halts_intros]: "r \<noteq> OutOfFuel \<Longrightarrow> halts (lift_result r)"
  by (simp add: halts_def lift_result_def)

lemma halts_map_err [halts_intros]: "halts m \<Longrightarrow> halts (map_errE g m)"
proof (rule haltsI)
  fix s assume m: "halts m"
  show "fst (map_errE g m s) \<noteq> OutOfFuel"
    using haltsD [OF m, of s] by (cases "m s"; cases "fst (m s)") (auto simp: map_errE_def)
qed

section \<open>Integers as bytes\<close>

text \<open>Big-endian bytes of a word, most significant first (\<^verbatim>\<open>to_be_bytes\<close>), and back
  (\<^verbatim>\<open>from_be_bytes\<close>).\<close>

fun be_bytes :: "nat \<Rightarrow> 'a::len word \<Rightarrow> bytes" where
  "be_bytes 0 w = []"
| "be_bytes (Suc n) w = be_bytes n (drop_bit 8 w) @ [ucast w]"

definition of_be :: "bytes \<Rightarrow> 'a::len word" where
  "of_be bs = foldl (\<lambda>acc b. push_bit 8 acc OR ucast b) 0 bs"

lemma length_be_bytes [simp]: "length (be_bytes n w) = n"
  by (induction n arbitrary: w) auto

lemma of_be_Nil [simp]: "of_be [] = 0"
  by (simp add: of_be_def)

lemma of_be_snoc [simp]: "of_be (bs @ [b]) = push_bit 8 (of_be bs) OR ucast b"
  by (simp add: of_be_def)

lemma of_be_be_bytes: "of_be (be_bytes n w) = take_bit (8 * n) (w :: 'a::len word)"
proof (induction n arbitrary: w)
  case 0
  then show ?case by simp
next
  case (Suc n)
  have "push_bit 8 (take_bit (8 * n) (drop_bit 8 w)) OR ucast (ucast w :: u8)
      = take_bit (8 * Suc n) w"
    by (rule bit_word_eqI) (auto simp: bit_simps)
  with Suc show ?case by simp
qed

text \<open>The other direction: a byte list read and written again is itself, as long as the word
  is wide enough to hold it.\<close>

lemma of_be_bound: "bit (of_be bs :: 'a::len word) i \<Longrightarrow> i < 8 * length bs"
proof (induction bs arbitrary: i rule: rev_induct)
  case Nil
  then show ?case by simp
next
  case (snoc b bs)
  show ?case
  proof (cases "i < 8")
    case False
    with snoc.prems have "bit (of_be bs :: 'a word) (i - 8)"
      by (auto simp: bit_simps dest: bit_imp_le_length)
    with snoc.IH False show ?thesis by fastforce
  qed simp
qed

lemma be_bytes_of_be:
  "8 * length bs \<le> LENGTH('a) \<Longrightarrow> be_bytes (length bs) (of_be bs :: 'a::len word) = bs"
proof (induction bs rule: rev_induct)
  case Nil
  then show ?case by simp
next
  case (snoc b bs)
  have "drop_bit 8 (push_bit 8 (of_be bs) OR ucast b) = (of_be bs :: 'a word)"
    using snoc.prems by (intro bit_word_eqI)
      (auto simp: bit_simps dest: bit_imp_le_length of_be_bound)
  moreover have "(ucast (push_bit 8 (of_be bs) OR ucast b :: 'a word) :: u8) = b"
    using snoc.prems by (intro bit_word_eqI) (auto simp: bit_simps)
  ultimately show ?case using snoc by simp
qed

lemma ucast_ucast_id [simp]:
  "LENGTH('a) \<le> LENGTH('b) \<Longrightarrow> (ucast (ucast (x :: 'a::len word) :: 'b::len word) :: 'a word) = x"
  by (rule bit_word_eqI) (auto simp: bit_simps)

lemma unat_ucast_up:
  assumes "LENGTH('a) \<le> LENGTH('b)"
  shows "unat (ucast (x :: 'a::len word) :: 'b::len word) = unat x"
proof -
  have "unat x < 2 ^ LENGTH('b)"
    using power_increasing [OF assms, of "2 :: nat"]
    by (intro order_less_le_trans [OF unsigned_less]) auto
  then show ?thesis by (simp add: unsigned_ucast_eq take_bit_nat_eq_self)
qed

lemma unat_ucast_small: "unat x < 2 ^ LENGTH('b) \<Longrightarrow> unat (ucast (x :: 'a::len word) :: 'b::len word) = unat x"
  by (simp add: unsigned_ucast_eq take_bit_nat_eq_self)

lemma bit_small: "x < 2 ^ k \<Longrightarrow> bit (x :: 'a::len word) i \<Longrightarrow> i < k"
  using less_mask_eq [of x k] by (metis bit_take_bit_iff take_bit_eq_mask)

section \<open>Fixed-width integers\<close>

definition be16 :: "u16 \<Rightarrow> bytes" where "be16 = be_bytes 2"

definition be24 :: "u32 \<Rightarrow> bytes" where "be24 = be_bytes 3"

definition be32 :: "u32 \<Rightarrow> bytes" where "be32 = be_bytes 4"

definition be64 :: "u64 \<Rightarrow> bytes" where "be64 = be_bytes 8"

definition le32 :: "u32 \<Rightarrow> bytes" where "le32 w = rev (be_bytes 4 w)"

lemma length_be [simp, codec_simps]:
  "length (be16 a) = 2" "length (be24 b) = 3" "length (be32 b) = 4" "length (be64 d) = 8"
  "length (le32 b) = 4"
  by (simp_all add: be16_def be24_def be32_def be64_def le32_def)

lemma of_be_be [simp]:
  "of_be (be16 a) = a" "of_be (be32 b) = b" "of_be (be64 d) = d" "of_be (rev (le32 b)) = b"
  by (simp_all add: be16_def be32_def be64_def le32_def of_be_be_bytes take_bit_word_eq_self)

lemma of_be_be24 [simp]: "of_be (be24 b) = take_bit 24 b"
  by (simp add: be24_def of_be_be_bytes)

lemma be_eval [code]:
  "be16 a = [ucast (drop_bit 8 a), ucast a]"
  "be24 b = [ucast (drop_bit 16 b), ucast (drop_bit 8 b), ucast b]"
  "be32 b = [ucast (drop_bit 24 b), ucast (drop_bit 16 b), ucast (drop_bit 8 b), ucast b]"
  "le32 b = [ucast b, ucast (drop_bit 8 b), ucast (drop_bit 16 b), ucast (drop_bit 24 b)]"
  by (simp_all add: be16_def be24_def be32_def le32_def numeral_eq_Suc drop_bit_drop_bit)

text \<open>\<^verbatim>\<open>Bytes::slice\<close> and indexing with a range, which panic on a bad range.\<close>

definition slice :: "bytes \<Rightarrow> nat \<Rightarrow> nat \<Rightarrow> ('e, bytes) result" where
  "slice bs a b = (if a \<le> b \<and> b \<le> length bs then Ok (take (b - a) (drop a bs)) else Panic)"

section \<open>The in-memory cursor\<close>

text \<open>\<^verbatim>\<open>std::io::Cursor<Bytes>\<close>: a buffer and a position, which may lie past the end.\<close>

record cursor =
  cur_data :: bytes
  cur_pos :: nat

definition cursor_new :: "bytes \<Rightarrow> cursor" where
  "cursor_new bs = \<lparr>cur_data = bs, cur_pos = 0\<rparr>"

definition cur_rest :: "cursor \<Rightarrow> bytes" where
  "cur_rest c = drop (cur_pos c) (cur_data c)"

definition has_remaining :: "cursor \<Rightarrow> bool" where
  "has_remaining c \<longleftrightarrow> cur_pos c < length (cur_data c)"

text \<open>\<^verbatim>\<open>Read::read_exact\<close> on a cursor; on failure the position is left at the end of the data.\<close>

definition read_exact :: "nat \<Rightarrow> (cursor, io_error, bytes) prog" where
  "read_exact n c =
     (if n \<le> length (cur_data c) - cur_pos c
      then (Ok (take n (cur_rest c)), c\<lparr>cur_pos := cur_pos c + n\<rparr>)
      else (Err UnexpectedEof, c\<lparr>cur_pos := length (cur_data c)\<rparr>))"

definition read_u8 :: "(cursor, io_error, u8) prog" where
  "read_u8 = bindE (read_exact 1) (\<lambda>bs. ret (hd bs))"

definition read_u16 :: "(cursor, io_error, u16) prog" where
  "read_u16 = bindE (read_exact 2) (\<lambda>bs. ret (of_be bs))"

definition read_u24 :: "(cursor, io_error, u32) prog" where
  "read_u24 = bindE (read_exact 3) (\<lambda>bs. ret (of_be bs))"

definition read_u32 :: "(cursor, io_error, u32) prog" where
  "read_u32 = bindE (read_exact 4) (\<lambda>bs. ret (of_be bs))"

definition read_u64 :: "(cursor, io_error, u64) prog" where
  "read_u64 = bindE (read_exact 8) (\<lambda>bs. ret (of_be bs))"

definition read_u32_le :: "(cursor, io_error, u32) prog" where
  "read_u32_le = bindE (read_exact 4) (\<lambda>bs. ret (of_be (rev bs)))"

text \<open>\<open>curs pre post\<close> is the cursor that has read \<open>pre\<close> and still has \<open>post\<close> before it: the
  normal form in which decoding proofs run.\<close>

definition curs :: "bytes \<Rightarrow> bytes \<Rightarrow> cursor" where
  "curs pre post = \<lparr>cur_data = pre @ post, cur_pos = length pre\<rparr>"

lemma cursor_new_curs: "cursor_new bs = curs [] bs"
  by (simp add: cursor_new_def curs_def)

lemma curs_sel [simp]:
  "cur_data (curs pre post) = pre @ post" "cur_pos (curs pre post) = length pre"
  "cur_rest (curs pre post) = post"
  by (simp_all add: curs_def cur_rest_def)

lemma has_remaining_curs [simp]: "has_remaining (curs pre post) \<longleftrightarrow> post \<noteq> []"
  by (simp add: has_remaining_def)

lemma curs_ex: "cur_pos c \<le> length (cur_data c) \<Longrightarrow>
    c = curs (take (cur_pos c) (cur_data c)) (cur_rest c)"
  by (simp add: curs_def cur_rest_def)

lemma read_exact_curs: "length xs = n \<Longrightarrow>
    read_exact n (curs pre (xs @ post)) = (Ok xs, curs (pre @ xs) post)"
  by (simp add: read_exact_def curs_def cur_rest_def)

lemma read_exact_eof: "length xs < n \<Longrightarrow>
    read_exact n (curs pre xs) = (Err UnexpectedEof, curs (pre @ xs) [])"
  by (simp add: read_exact_def curs_def cur_rest_def)

lemma read_u8_curs [run_simps]: "read_u8 (curs pre (x # post)) = (Ok x, curs (pre @ [x]) post)"
  using read_exact_curs [of "[x]" 1 pre post] by (simp add: read_u8_def run_simps)

lemma read_u16_curs [run_simps]:
  "read_u16 (curs pre (be16 x @ post)) = (Ok x, curs (pre @ be16 x) post)"
  by (simp add: read_u16_def read_exact_curs run_simps)

lemma read_u24_curs [run_simps]:
  "read_u24 (curs pre (be24 x @ post)) = (Ok (take_bit 24 x), curs (pre @ be24 x) post)"
  by (simp add: read_u24_def read_exact_curs run_simps)

lemma read_u32_curs [run_simps]:
  "read_u32 (curs pre (be32 x @ post)) = (Ok x, curs (pre @ be32 x) post)"
  by (simp add: read_u32_def read_exact_curs run_simps)

lemma read_u64_curs [run_simps]:
  "read_u64 (curs pre (be64 x @ post)) = (Ok x, curs (pre @ be64 x) post)"
  by (simp add: read_u64_def read_exact_curs run_simps)

lemma read_u32_le_curs [run_simps]:
  "read_u32_le (curs pre (le32 x @ post)) = (Ok x, curs (pre @ le32 x) post)"
  by (simp add: read_u32_le_def read_exact_curs run_simps)

section \<open>Progress of a decoder\<close>

text \<open>\<open>advances k c c'\<close>: the same buffer, the position moved by at least \<open>k\<close> and still inside.
  \<open>consumes k m c\<close>: if \<open>m\<close> succeeds on \<open>c\<close> it advances by \<open>k\<close>, if it fails it stays
  inside the buffer, and it does not run out of fuel.
  Loops with fuel are shown to return by adding up what each round consumes.\<close>

definition advances :: "nat \<Rightarrow> cursor \<Rightarrow> cursor \<Rightarrow> bool" where
  "advances k c c' \<longleftrightarrow> cur_data c' = cur_data c \<and> cur_pos c + k \<le> cur_pos c'
     \<and> cur_pos c' \<le> length (cur_data c)"

definition cur_ok :: "cursor \<Rightarrow> bool" where
  "cur_ok c \<longleftrightarrow> cur_pos c \<le> length (cur_data c)"

definition consumes :: "nat \<Rightarrow> (cursor, 'e, 'a) prog \<Rightarrow> cursor \<Rightarrow> bool" where
  "consumes k m c \<longleftrightarrow> (case m c of (Ok _, c') \<Rightarrow> advances k c c' | (Err _, c') \<Rightarrow> advances 0 c c'
     | (Panic, _) \<Rightarrow> True | (OutOfFuel, _) \<Rightarrow> False)"

lemma advances_cur_ok: "advances k c c' \<Longrightarrow> cur_ok c'"
  by (simp add: advances_def cur_ok_def)

lemma consumes_bind:
  assumes "consumes j m c"
    and "\<And>x c'. m c = (Ok x, c') \<Longrightarrow> advances j c c' \<Longrightarrow> consumes k (f x) c'"
  shows "consumes (j + k) (bindE m f) c"
  using assms by (fastforce simp: consumes_def bindE_def advances_def split: prod.splits result.splits)

lemma consumes_mono: "consumes k m c \<Longrightarrow> j \<le> k \<Longrightarrow> consumes j m c"
  by (auto simp: consumes_def advances_def split: prod.splits result.splits)

lemma consumes_bindI:
  assumes "consumes j m c" "n \<le> j + k"
    and "\<And>x c'. cur_ok c' \<Longrightarrow> advances j c c' \<Longrightarrow> consumes k (f x) c'"
  shows "consumes n (bindE m f) c"
  using assms by (blast intro: consumes_mono consumes_bind advances_cur_ok)

lemma consumes_ret: "cur_ok c \<Longrightarrow> consumes 0 (ret x) c"
  by (simp add: consumes_def ret_def advances_def cur_ok_def)

lemma consumes_stop: "cur_ok c \<Longrightarrow> consumes k (fail e) c" "consumes k panic c"
  by (simp_all add: consumes_def fail_def panic_def advances_def cur_ok_def)

lemma consumes_lift: "cur_ok c \<Longrightarrow> r \<noteq> OutOfFuel \<Longrightarrow> consumes 0 (lift_result r) c"
  by (cases r) (auto simp: consumes_def lift_result_def advances_def cur_ok_def)

lemma consumes_map_errE: "consumes k m c \<Longrightarrow> consumes k (map_errE g m) c"
  by (auto simp: consumes_def map_errE_def split: prod.splits result.splits)

lemma consumes_read_exact: "cur_ok c \<Longrightarrow> consumes n (read_exact n) c"
  by (auto simp: consumes_def read_exact_def advances_def cur_ok_def split: prod.splits)

lemma consumes_map:
  "consumes k m c \<Longrightarrow> consumes k (bindE m (\<lambda>x. ret (g x))) c"
  using consumes_bind [of k m c 0 "\<lambda>x. ret (g x)"] by (auto intro: consumes_ret advances_cur_ok)

lemma consumes_reads:
  "cur_ok c \<Longrightarrow> consumes 1 read_u8 c" "cur_ok c \<Longrightarrow> consumes 2 read_u16 c"
  "cur_ok c \<Longrightarrow> consumes 3 read_u24 c" "cur_ok c \<Longrightarrow> consumes 4 read_u32 c"
  "cur_ok c \<Longrightarrow> consumes 8 read_u64 c"
  unfolding read_u8_def read_u16_def read_u24_def read_u32_def read_u64_def
  by (rule consumes_map, erule consumes_read_exact)+

section \<open>The in-memory writer\<close>

text \<open>\<^verbatim>\<open>Vec<u8>\<close> as \<^verbatim>\<open>std::io::Write\<close>: writes append and never fail. \<^verbatim>\<open>write_u24\<close> asserts that
  its argument fits 24 bits.\<close>

definition write_all :: "bytes \<Rightarrow> (bytes, 'e, unit) prog" where
  "write_all bs = (\<lambda>out. (Ok (), out @ bs))"

definition write_u8 :: "u8 \<Rightarrow> (bytes, 'e, unit) prog" where
  "write_u8 x = write_all [x]"

definition write_u16 :: "u16 \<Rightarrow> (bytes, 'e, unit) prog" where
  "write_u16 x = write_all (be16 x)"

definition write_u24 :: "u32 \<Rightarrow> (bytes, 'e, unit) prog" where
  "write_u24 x = (if x < 0x1000000 then write_all (be24 x) else panic)"

definition write_u32 :: "u32 \<Rightarrow> (bytes, 'e, unit) prog" where
  "write_u32 x = write_all (be32 x)"

definition write_u64 :: "u64 \<Rightarrow> (bytes, 'e, unit) prog" where
  "write_u64 x = write_all (be64 x)"

definition write_u32_le :: "u32 \<Rightarrow> (bytes, 'e, unit) prog" where
  "write_u32_le x = write_all (le32 x)"

lemma write_run [run_simps]:
  "write_all bs out = (Ok (), out @ bs)"
  "write_u8 a out = (Ok (), out @ [a])"
  "write_u16 b out = (Ok (), out @ be16 b)"
  "write_u32 c out = (Ok (), out @ be32 c)"
  "write_u64 d out = (Ok (), out @ be64 d)"
  "write_u32_le c out = (Ok (), out @ le32 c)"
  by (simp_all add: write_all_def write_u8_def write_u16_def write_u32_def write_u64_def
      write_u32_le_def)

lemma write_u24_run [run_simps]:
  "x < 0x1000000 \<Longrightarrow> write_u24 x out = (Ok (), out @ be24 x)"
  "\<not> x < 0x1000000 \<Longrightarrow> write_u24 x out = (Panic, out)"
  by (simp_all add: write_u24_def write_all_def panic_def)

lemma for_m_write:
  "(\<And>x out. x \<in> set xs \<Longrightarrow> f x out = (Ok (), out @ enc x)) \<Longrightarrow>
   for_m xs f out = (Ok (), out @ concat (map enc xs))"
  by (induction xs arbitrary: out) (auto simp: run_simps)

lemma take_bit_24_id: "x < 0x1000000 \<Longrightarrow> take_bit 24 (x :: u32) = x"
  by (rule word_unat_eq_iff [THEN iffD2])
     (simp add: word_less_nat_alt unsigned_take_bit_eq take_bit_nat_eq_self)

section \<open>The codec interface\<close>

text \<open>
  What a client of a decoder relies on: on a cursor that stands before an encoding it returns
  the encoded value and stops right behind it. Vectors of encoded values, and the fact that
  the encoding is prefix-free, follow once and for all.
\<close>

locale byte_codec =
  fixes wf :: "'a \<Rightarrow> bool"
    and enc :: "'a \<Rightarrow> bytes"
    and dec :: "(cursor, 'e, 'a) prog"
  assumes dec_enc: "wf x \<Longrightarrow> dec (curs pre (enc x @ post)) = (Ok x, curs (pre @ enc x) post)"
begin

lemma dec_enc_last: "wf x \<Longrightarrow> dec (curs pre (enc x)) = (Ok x, curs (pre @ enc x) [])"
  using dec_enc [of x pre "[]"] by simp

lemma dec_repeat:
  assumes "\<forall>x \<in> set xs. wf x"
  shows "repeat_m (length xs) dec (curs pre (concat (map enc xs) @ post))
       = (Ok xs, curs (pre @ concat (map enc xs)) post)"
  using assms by (induction xs arbitrary: pre) (auto simp: run_simps dec_enc)

lemma dec_repeat_last:
  "\<forall>x \<in> set xs. wf x \<Longrightarrow> repeat_m (length xs) dec (curs pre (concat (map enc xs)))
     = (Ok xs, curs (pre @ concat (map enc xs)) [])"
  using dec_repeat [of xs pre "[]"] by simp

lemma enc_prefix_free:
  assumes "wf x" "wf y" and eq: "enc x @ r = enc y @ r'"
  shows "x = y \<and> r = r'"
proof -
  have "dec (curs [] (enc x @ r)) = dec (curs [] (enc y @ r'))"
    using eq by simp
  then have "x = y"
    using dec_enc [OF assms(1), of "[]" r] dec_enc [OF assms(2), of "[]" r'] by simp
  then show ?thesis using eq by simp
qed

end

text \<open>A codec whose encoding has a length announced in advance (the \<^verbatim>\<open>size\<close> methods).\<close>

locale sized_codec = byte_codec +
  fixes enc_size :: "'a \<Rightarrow> nat"
  assumes length_enc: "wf x \<Longrightarrow> length (enc x) = enc_size x"
begin

lemma length_concat_enc:
  "\<forall>x \<in> set xs. wf x \<Longrightarrow> length (concat (map enc xs)) = sum_list (map enc_size xs)"
  by (induction xs) (auto simp: length_enc)

end

interpretation u8c: sized_codec "\<lambda>_. True" "\<lambda>x. [x]" read_u8 "\<lambda>_. 1"
  by unfold_locales (auto simp: run_simps)

interpretation u16c: sized_codec "\<lambda>_. True" be16 read_u16 "\<lambda>_. 2"
  by unfold_locales (auto simp: run_simps)

interpretation u24c: sized_codec "\<lambda>x. x < 0x1000000" be24 read_u24 "\<lambda>_. 3"
  by unfold_locales (auto simp: run_simps take_bit_24_id)

interpretation u32c: sized_codec "\<lambda>_. True" be32 read_u32 "\<lambda>_. 4"
  by unfold_locales (auto simp: run_simps)

interpretation u64c: sized_codec "\<lambda>_. True" be64 read_u64 "\<lambda>_. 8"
  by unfold_locales (auto simp: run_simps)

interpretation u32lec: sized_codec "\<lambda>_. True" le32 read_u32_le "\<lambda>_. 4"
  by unfold_locales (auto simp: run_simps)

text \<open>The same decoding rules when the value is the last thing in the buffer.\<close>

lemmas read_last [run_simps] =
  u16c.dec_enc_last [OF TrueI] u32c.dec_enc_last [OF TrueI] u64c.dec_enc_last [OF TrueI]
  u24c.dec_enc_last u32lec.dec_enc_last [OF TrueI]

lemmas read_repeat [run_simps] =
  u8c.dec_repeat [simplified] u16c.dec_repeat [simplified] u32c.dec_repeat [simplified]

end
