(* ===== verification/Bytes_Util.thy ===== *)
theory Bytes_Util
  imports Prelude
begin

text \<open>
  The crate \<^verbatim>\<open>scuffle-bytes-util\<close> (\<^verbatim>\<open>crates/bytes-util/src\<close>): the zero-copy cursor extension
  \<^verbatim>\<open>BytesCursorExt\<close>, the \<^verbatim>\<open>BitReader\<close> over a cursor and the \<^verbatim>\<open>BitWriter\<close> over a byte vector.
  The abstract view of a reader is the list of bits it has still to deliver, that of a writer
  the list of bits it has taken; the locales \<open>bit_source\<close> and \<open>bit_sink\<close> state that view as
  the interface on which the bit-level formats rely, and both are interpreted on the model of
  the code.
\<close>

section \<open>BytesCursorExt\<close>

definition cur_remaining :: "cursor \<Rightarrow> nat" where
  "cur_remaining c = length (cur_data c) - cur_pos c"

definition extract_bytes :: "nat \<Rightarrow> (cursor, io_error, bytes) prog" where
  "extract_bytes n c =
     (if n = 0 then (Ok [], c)
      else if n > cur_remaining c then (Err UnexpectedEof, c)
      else (Ok (take n (drop (cur_pos c) (cur_data c))),
            c\<lparr>cur_pos := cur_pos c + n\<rparr>))"

definition extract_remaining :: "(cursor, 'e, bytes) prog" where
  "extract_remaining c =
     (case extract_bytes (cur_remaining c) c of
        (Ok bs, c') \<Rightarrow> (Ok bs, c')
      | (_, c') \<Rightarrow> (Ok [], c'))"

lemma cur_remaining_curs [simp]: "cur_remaining (curs pre post) = length post"
  by (simp add: cur_remaining_def)

lemma extract_bytes_curs [run_simps]:
  "length xs = n \<Longrightarrow> extract_bytes n (curs pre (xs @ post)) = (Ok xs, curs (pre @ xs) post)"
  by (auto simp: extract_bytes_def curs_def cur_remaining_def)

lemma extract_bytes_curs_last [run_simps]:
  "length xs = n \<Longrightarrow> extract_bytes n (curs pre xs) = (Ok xs, curs (pre @ xs) [])"
  using extract_bytes_curs [of xs n pre "[]"] by simp

lemma extract_bytes_curs_eof [run_simps]:
  "length xs < n \<Longrightarrow> extract_bytes n (curs pre xs) = (Err UnexpectedEof, curs pre xs)"
  by (auto simp: extract_bytes_def)

lemma extract_remaining_curs [run_simps]:
  "extract_remaining (curs pre post) = (Ok post, curs (pre @ post) [])"
  by (auto simp: extract_remaining_def extract_bytes_def curs_def cur_remaining_def)

section \<open>BitReader\<close>

record bit_reader =
  br_data :: cursor
  br_bit_pos :: nat
  br_current_byte :: u8

definition br_new :: "cursor \<Rightarrow> bit_reader" where
  "br_new c = \<lparr>br_data = c, br_bit_pos = 0, br_current_byte = 0\<rparr>"

definition br_new_from_slice :: "bytes \<Rightarrow> bit_reader" where
  "br_new_from_slice bs = br_new (cursor_new bs)"

definition br_is_aligned :: "bit_reader \<Rightarrow> bool" where
  "br_is_aligned r \<longleftrightarrow> br_bit_pos r = 0"

text \<open>Run a cursor operation on the underlying reader.\<close>

definition on_br_data :: "(cursor, 'e, 'a) prog \<Rightarrow> (bit_reader, 'e, 'a) prog" where
  "on_br_data m r = (case m (br_data r) of (x, c) \<Rightarrow> (x, r\<lparr>br_data := c\<rparr>))"

definition update_byte :: "(bit_reader, io_error, unit) prog" where
  "update_byte = bindE (on_br_data (read_exact 1))
     (\<lambda>buf r. (Ok (), r\<lparr>br_current_byte := hd buf\<rparr>))"

definition read_bit :: "(bit_reader, io_error, bool) prog" where
  "read_bit = bindE (\<lambda>r. if br_is_aligned r then update_byte r else (Ok (), r))
     (\<lambda>_ r. (Ok (drop_bit (7 - br_bit_pos r) (br_current_byte r) AND 1 = 1),
             r\<lparr>br_bit_pos := (br_bit_pos r + 1) mod 8\<rparr>))"

text \<open>The loop of \<^verbatim>\<open>read_bits\<close>, over any way of reading one bit.\<close>

fun read_bits_loop :: "('s, 'e, bool) prog \<Rightarrow> nat \<Rightarrow> 'w::len word \<Rightarrow> ('s, 'e, 'w word) prog" where
  "read_bits_loop rd 0 bits = ret bits"
| "read_bits_loop rd (Suc n) bits =
     bindE rd (\<lambda>b. read_bits_loop rd n (push_bit 1 bits OR (if b then 1 else 0)))"

definition read_bits :: "nat \<Rightarrow> (bit_reader, io_error, u64) prog" where
  "read_bits count = read_bits_loop read_bit (min count 64) 0"

definition br_align :: "(bit_reader, io_error, unit) prog" where
  "br_align r = (Ok (), r\<lparr>br_bit_pos := 0\<rparr>)"

text \<open>\<^verbatim>\<open>io::Read::read\<close> with a buffer of \<open>n\<close> bytes: the bytes placed in the buffer. On an
  aligned reader the cursor hands over what it has, up to \<open>n\<close> bytes.\<close>

definition cursor_read :: "nat \<Rightarrow> (cursor, io_error, bytes) prog" where
  "cursor_read n c =
     (let xs = take n (cur_rest c) in (Ok xs, c\<lparr>cur_pos := cur_pos c + length xs\<rparr>))"

definition br_read :: "nat \<Rightarrow> (bit_reader, io_error, bytes) prog" where
  "br_read n r =
     (if br_is_aligned r then on_br_data (cursor_read n) r
      else repeat_m n (read_bits_loop read_bit 8 0) r)"

text \<open>\<^verbatim>\<open>Cursor::seek\<close>: a negative target is an error.\<close>

datatype seek_from = SeekStart nat | SeekEnd int | SeekCurrent int

definition cursor_seek :: "seek_from \<Rightarrow> (cursor, io_error, nat) prog" where
  "cursor_seek w c =
     (let target = (case w of SeekStart n \<Rightarrow> int n
                      | SeekEnd k \<Rightarrow> int (length (cur_data c)) + k
                      | SeekCurrent k \<Rightarrow> int (cur_pos c) + k)
      in if target < 0 then (Err InvalidInput, c)
         else (Ok (nat target), c\<lparr>cur_pos := nat target\<rparr>))"

text \<open>Rust's \<^verbatim>\<open>/\<close> and \<^verbatim>\<open>%\<close> truncate towards zero.\<close>

definition rust_div :: "int \<Rightarrow> int \<Rightarrow> int" where
  "rust_div a b = sgn a * sgn b * (\<bar>a\<bar> div \<bar>b\<bar>)"

definition rust_rem :: "int \<Rightarrow> int \<Rightarrow> int" where
  "rust_rem a b = a - b * rust_div a b"

definition bit_stream_position :: "(bit_reader, io_error, nat) prog" where
  "bit_stream_position r =
     (let total = cur_pos (br_data r) * 8 + (if br_is_aligned r then 8 else br_bit_pos r)
      in if total < 8 then (Panic, r) else (Ok (total - 8), r))"

definition seek_bits :: "int \<Rightarrow> (bit_reader, io_error, nat) prog" where
  "seek_bits count =
     (if count = 0 then bit_stream_position
      else (\<lambda>r.
        let count' = int (br_bit_pos r) + count;
            bit_move = rust_rem count' 8;
            byte_move = rust_div count' 8 - (if br_is_aligned r then 0 else 1)
                          - (if bit_move < 0 then 1 else 0)
        in bindE (on_br_data (cursor_seek (SeekCurrent byte_move)))
             (\<lambda>pos. bindE (\<lambda>r. (Ok (), r\<lparr>br_bit_pos := nat (rust_rem (8 + bit_move) 8)\<rparr>))
             (\<lambda>_ r. if br_is_aligned r then (Ok (pos * 8), r)
                    else bindE update_byte (\<lambda>_ r'. (Ok (pos * 8 + br_bit_pos r'), r')) r)) r))"

definition br_seek :: "seek_from \<Rightarrow> (bit_reader, io_error, nat) prog" where
  "br_seek w r =
     (case w of
        SeekCurrent offset \<Rightarrow>
          (if \<not> br_is_aligned r
           then bindE (seek_bits (offset * 8)) (\<lambda>p. ret ((p + 7) div 8)) r
           else on_br_data (cursor_seek w) (r\<lparr>br_bit_pos := 0\<rparr>))
      | _ \<Rightarrow> on_br_data (cursor_seek w) (r\<lparr>br_bit_pos := 0\<rparr>))"

section \<open>BitWriter\<close>

record bit_writer =
  bw_bit_pos :: nat
  bw_current_byte :: u8
  bw_writer :: bytes

definition bw_new :: "bytes \<Rightarrow> bit_writer" where
  "bw_new out = \<lparr>bw_bit_pos = 0, bw_current_byte = 0, bw_writer = out\<rparr>"

definition bw_is_aligned :: "bit_writer \<Rightarrow> bool" where
  "bw_is_aligned w \<longleftrightarrow> bw_bit_pos w mod 8 = 0"

definition write_bit :: "bool \<Rightarrow> (bit_writer, io_error, unit) prog" where
  "write_bit b w =
     (let m = push_bit (7 - bw_bit_pos w) 1;
          w1 = w\<lparr>bw_current_byte := (if b then bw_current_byte w OR m
                                    else bw_current_byte w AND NOT m),
                 bw_bit_pos := bw_bit_pos w + 1\<rparr>
      in if bw_bit_pos w1 = 8
         then (Ok (), w1\<lparr>bw_writer := bw_writer w1 @ [bw_current_byte w1],
                         bw_current_byte := 0, bw_bit_pos := 0\<rparr>)
         else (Ok (), w1))"

definition write_bits :: "u64 \<Rightarrow> nat \<Rightarrow> (bit_writer, io_error, unit) prog" where
  "write_bits bits count0 =
     (let count = min count0 64
      in if count \<noteq> 64 \<and> bits > push_bit count 1 - 1 then fail InvalidData
         else for_m [0..<count] (\<lambda>i. write_bit (drop_bit (count - i - 1) bits AND 1 = 1)))"

definition bw_align :: "(bit_writer, io_error, unit) prog" where
  "bw_align w = (if \<not> bw_is_aligned w then write_bits 0 (8 - bw_bit_pos w mod 8) w else (Ok (), w))"

definition bw_finish :: "bit_writer \<Rightarrow> bytes io_result" where
  "bw_finish w = fst (bindE bw_align (\<lambda>_ w. (Ok (bw_writer w), w)) w)"

text \<open>\<^verbatim>\<open>io::Write\<close>: an aligned writer hands the bytes to the vector, an unaligned one writes
  them bit by bit. \<^verbatim>\<open>write_all\<close> needs one call, since all bytes are accepted.\<close>

definition bw_write :: "bytes \<Rightarrow> (bit_writer, io_error, unit) prog" where
  "bw_write buf w =
     (if bw_is_aligned w then (Ok (), w\<lparr>bw_writer := bw_writer w @ buf\<rparr>)
      else for_m buf (\<lambda>b. write_bits (ucast b) 8) w)"

section \<open>Bit lists\<close>

definition byte_bits :: "u8 \<Rightarrow> bool list" where
  "byte_bits b = map (\<lambda>i. bit b (7 - i)) [0..<8]"

definition bits_of :: "bytes \<Rightarrow> bool list" where
  "bits_of bs = concat (map byte_bits bs)"

text \<open>The \<open>n\<close> low bits of a word, most significant first, and back.\<close>

fun to_bits :: "nat \<Rightarrow> 'w::len word \<Rightarrow> bool list" where
  "to_bits 0 v = []"
| "to_bits (Suc n) v = to_bits n (drop_bit 1 v) @ [bit v 0]"

definition of_bits :: "'w::len word \<Rightarrow> bool list \<Rightarrow> 'w word" where
  "of_bits = foldl (\<lambda>a b. push_bit 1 a OR (if b then 1 else 0))"

lemma length_byte_bits [simp]: "length (byte_bits b) = 8"
  by (simp add: byte_bits_def)

lemma nth_byte_bits [simp]: "i < 8 \<Longrightarrow> byte_bits b ! i = bit b (7 - i)"
  by (simp add: byte_bits_def)

lemma byte_bits_eq_to_bits: "byte_bits b = to_bits 8 b"
  by (simp add: byte_bits_def upt_rec numeral_eq_Suc bit_drop_bit_eq)

lemma bits_of_simps [simp]:
  "bits_of [] = []" "bits_of (b # bs) = byte_bits b @ bits_of bs"
  "bits_of (xs @ ys) = bits_of xs @ bits_of ys"
  by (simp_all add: bits_of_def)

lemma length_bits_of [simp]: "length (bits_of bs) = 8 * length bs"
  by (induction bs) auto

lemma bits_of_eq_Nil [simp]: "bits_of bs = [] \<longleftrightarrow> bs = []"
  using length_bits_of [of bs] by (metis length_0_conv mult_eq_0_iff zero_neq_numeral)

lemma byte_bits_Cons: "byte_bits b = bit b 7 # drop 1 (byte_bits b)"
  by (simp add: byte_bits_def upt_rec)

lemma drop_bits_of: "drop (8 * n) (bits_of bs) = bits_of (drop n bs)"
proof (induction n arbitrary: bs)
  case (Suc n)
  then show ?case by (cases bs) auto
qed simp

lemma length_to_bits [simp]: "length (to_bits n v) = n"
  by (induction n arbitrary: v) auto

lemma to_bits_nth: "i < n \<Longrightarrow> to_bits n v ! i = bit v (n - 1 - i)"
proof (induction n arbitrary: v i)
  case (Suc n)
  show ?case
  proof (cases "i = n")
    case False
    with Suc.prems have "i < n" "Suc (n - 1 - i) = n - i" by auto
    with Suc.IH show ?thesis by (simp add: nth_append bit_drop_bit_eq)
  qed (simp add: nth_append)
qed simp

lemma to_bits_map: "to_bits n v = map (\<lambda>i. bit v (n - i - 1)) [0..<n]"
  by (rule nth_equalityI) (auto simp: to_bits_nth)

lemma to_bits_Suc: "to_bits (Suc n) v = bit v n # to_bits n v"
  by (rule nth_equalityI) (auto simp: to_bits_nth nth_Cons' simp del: to_bits.simps)

lemma of_bits_append: "of_bits a (xs @ ys) = of_bits (of_bits a xs) ys"
  by (simp add: of_bits_def)

lemma of_bits_snoc [simp]: "of_bits a (xs @ [b]) = push_bit 1 (of_bits a xs) OR (if b then 1 else 0)"
  by (simp add: of_bits_def)

lemma of_bits_to_bits: "of_bits 0 (to_bits n v) = take_bit n (v :: 'w::len word)"
proof (induction n arbitrary: v)
  case 0
  then show ?case by (simp add: of_bits_def)
next
  case (Suc n)
  have "push_bit 1 (take_bit n (drop_bit 1 v)) OR (if bit v 0 then 1 else 0) = take_bit (Suc n) v"
  proof (rule bit_word_eqI)
    fix i assume "i < LENGTH('w)"
    then show "bit (push_bit 1 (take_bit n (drop_bit 1 v)) OR (if bit v 0 then 1 else 0)) i
        = bit (take_bit (Suc n) v) i"
      by (cases i) (auto simp: bit_simps bit_1_iff simp del: push_bit_Suc)
  qed
  with Suc show ?case by simp
qed

section \<open>The bit-stream interfaces\<close>

locale bit_source =
  fixes rd :: "('s, io_error, bool) prog"
    and abs :: "'s \<Rightarrow> bool list"
    and inv :: "'s \<Rightarrow> bool"
  assumes rd_Cons: "inv s \<Longrightarrow> abs s = b # bs \<Longrightarrow> \<exists>s'. rd s = (Ok b, s') \<and> inv s' \<and> abs s' = bs"
    and rd_Nil: "inv s \<Longrightarrow> abs s = [] \<Longrightarrow> \<exists>s'. rd s = (Err UnexpectedEof, s')"
begin

lemma read_loop:
  "inv s \<Longrightarrow> abs s = bs @ rest \<Longrightarrow>
   \<exists>s'. read_bits_loop rd (length bs) acc s = (Ok (of_bits acc bs), s') \<and> inv s' \<and> abs s' = rest"
proof (induction bs arbitrary: s acc)
  case Nil
  then show ?case by (simp add: run_simps of_bits_def)
next
  case (Cons b bs)
  then obtain s1 where s1: "rd s = (Ok b, s1)" "inv s1" "abs s1 = bs @ rest"
    using rd_Cons [of s b "bs @ rest"] by auto
  from Cons.IH [OF s1(2,3), of "push_bit 1 acc OR (if b then 1 else 0)"] s1(1)
  show ?case by (simp add: run_simps of_bits_def)
qed

lemma read_loop_eof:
  "inv s \<Longrightarrow> length (abs s) < n \<Longrightarrow> \<exists>s'. read_bits_loop rd n acc s = (Err UnexpectedEof, s')"
proof (induction n arbitrary: s acc)
  case 0
  then show ?case by simp
next
  case (Suc n)
  show ?case
  proof (cases "abs s")
    case Nil
    with rd_Nil [OF Suc.prems(1)] show ?thesis by (auto simp: run_simps)
  next
    case (Cons b bs)
    then obtain s1 where "rd s = (Ok b, s1)" "inv s1" "abs s1 = bs"
      using rd_Cons [OF Suc.prems(1)] by blast
    with Suc Cons show ?thesis by (simp add: run_simps)
  qed
qed

end

locale bit_sink =
  fixes wr :: "bool \<Rightarrow> ('s, 'e, unit) prog"
    and abs :: "'s \<Rightarrow> bool list"
    and inv :: "'s \<Rightarrow> bool"
  assumes wr_run: "inv s \<Longrightarrow> \<exists>s'. wr b s = (Ok (), s') \<and> inv s' \<and> abs s' = abs s @ [b]"
begin

lemma write_list:
  "inv s \<Longrightarrow> \<exists>s'. for_m xs (\<lambda>x. wr (f x)) s = (Ok (), s') \<and> inv s' \<and> abs s' = abs s @ map f xs"
proof (induction xs arbitrary: s)
  case Nil
  then show ?case by (simp add: run_simps)
next
  case (Cons x xs)
  then obtain s1 where "wr (f x) s = (Ok (), s1)" "inv s1" "abs s1 = abs s @ [f x]"
    using wr_run by blast
  with Cons.IH [of s1] show ?case by (auto simp: run_simps)
qed

end

section \<open>The reader and the writer implement them\<close>

definition br_wf :: "bit_reader \<Rightarrow> bool" where
  "br_wf r \<longleftrightarrow> br_bit_pos r < 8 \<and> cur_pos (br_data r) \<le> length (cur_data (br_data r))
     \<and> (br_bit_pos r \<noteq> 0 \<longrightarrow> 0 < cur_pos (br_data r)
          \<and> br_current_byte r = cur_data (br_data r) ! (cur_pos (br_data r) - 1))"

definition br_bits :: "bit_reader \<Rightarrow> bool list" where
  "br_bits r = (if br_bit_pos r = 0 then [] else drop (br_bit_pos r) (byte_bits (br_current_byte r)))
     @ bits_of (cur_rest (br_data r))"

text \<open>The logical position of a reader in bits.\<close>

definition br_position :: "bit_reader \<Rightarrow> nat" where
  "br_position r = (if br_bit_pos r = 0 then 8 * cur_pos (br_data r)
     else 8 * (cur_pos (br_data r) - 1) + br_bit_pos r)"

definition bw_wf :: "bit_writer \<Rightarrow> bool" where
  "bw_wf w \<longleftrightarrow> bw_bit_pos w < 8"

definition bw_bits :: "bit_writer \<Rightarrow> bool list" where
  "bw_bits w = bits_of (bw_writer w) @ take (bw_bit_pos w) (byte_bits (bw_current_byte w))"

lemma drop_byte_bits: "p < 8 \<Longrightarrow> drop p (byte_bits b) = bit b (7 - p) # drop (Suc p) (byte_bits b)"
  by (simp add: Cons_nth_drop_Suc [symmetric])

lemma current_bit: "(drop_bit n (w :: u8) AND 1 = 1) = bit w n"
  by (simp add: bit_iff_and_drop_bit_eq_1)

lemma update_byte_Cons:
  assumes "cur_rest (br_data r) = x # xs"
  shows "\<exists>r'. update_byte r = (Ok (), r') \<and> br_bit_pos r' = br_bit_pos r \<and> br_current_byte r' = x
     \<and> cur_data (br_data r') = cur_data (br_data r)
     \<and> cur_pos (br_data r') = Suc (cur_pos (br_data r)) \<and> cur_rest (br_data r') = xs
     \<and> x = cur_data (br_data r) ! cur_pos (br_data r) \<and> cur_pos (br_data r) < length (cur_data (br_data r))"
proof -
  from assms have lt: "cur_pos (br_data r) < length (cur_data (br_data r))"
    by (cases "cur_pos (br_data r) < length (cur_data (br_data r))") (auto simp: cur_rest_def)
  with assms have "x = cur_data (br_data r) ! cur_pos (br_data r)"
    "drop (Suc (cur_pos (br_data r))) (cur_data (br_data r)) = xs"
    by (auto simp: cur_rest_def Cons_nth_drop_Suc [symmetric])
  with assms lt show ?thesis
    by (simp add: update_byte_def on_br_data_def bindE_def read_exact_def cur_rest_def)
qed

lemma read_bit_Cons:
  assumes wf: "br_wf r" and bits: "br_bits r = b # bs"
  shows "\<exists>r'. read_bit r = (Ok b, r') \<and> br_wf r' \<and> br_bits r' = bs"
proof (cases "br_bit_pos r = 0")
  case True
  with bits obtain x xs where rest: "cur_rest (br_data r) = x # xs"
    by (cases "cur_rest (br_data r)") (auto simp: br_bits_def)
  from update_byte_Cons [OF rest] obtain r1 where r1: "update_byte r = (Ok (), r1)"
    "br_bit_pos r1 = br_bit_pos r" "br_current_byte r1 = x" "cur_data (br_data r1) = cur_data (br_data r)"
    "cur_pos (br_data r1) = Suc (cur_pos (br_data r))" "cur_rest (br_data r1) = xs"
    "x = cur_data (br_data r) ! cur_pos (br_data r)" "cur_pos (br_data r) < length (cur_data (br_data r))"
    by blast
  from True bits rest have "byte_bits x @ bits_of xs = b # bs"
    by (simp add: br_bits_def)
  then have "bit x 7 # drop 1 (byte_bits x) @ bits_of xs = b # bs"
    by (subst (asm) byte_bits_Cons) simp
  then have "b = bit x 7" "bs = drop 1 (byte_bits x) @ bits_of xs" by simp_all
  with True r1 wf show ?thesis
    by (simp add: read_bit_def bindE_def br_is_aligned_def current_bit br_wf_def br_bits_def)
next
  case False
  define p where "p = br_bit_pos r"
  from wf False have p: "p < 8" "0 < p" by (auto simp: br_wf_def p_def)
  from bits False p have "b = bit (br_current_byte r) (7 - p)"
    "bs = drop (Suc p) (byte_bits (br_current_byte r)) @ bits_of (cur_rest (br_data r))"
    by (auto simp: br_bits_def p_def [symmetric] drop_byte_bits)
  moreover have "(p + 1) mod 8 = (if p = 7 then 0 else Suc p)"
    using p by simp
  ultimately show ?thesis using False p wf
    by (auto simp: read_bit_def bindE_def br_is_aligned_def current_bit br_wf_def br_bits_def p_def)
qed

lemma read_bit_Nil:
  assumes "br_wf r" and "br_bits r = []"
  shows "\<exists>r'. read_bit r = (Err UnexpectedEof, r')"
proof -
  from assms have "br_bit_pos r = 0" "cur_rest (br_data r) = []"
    by (auto simp: br_bits_def br_wf_def split: if_splits)
  then show ?thesis
    by (simp add: read_bit_def update_byte_def on_br_data_def bindE_def br_is_aligned_def
        read_exact_def cur_rest_def)
qed

interpretation br: bit_source read_bit br_bits br_wf
  by unfold_locales (fact read_bit_Cons read_bit_Nil)+

lemma byte_bits_set:
  "p < 8 \<Longrightarrow> byte_bits (if b then c OR push_bit (7 - p) 1 else c AND NOT (push_bit (7 - p) 1))
     = (byte_bits c)[p := b]"
  by (rule nth_equalityI) (auto simp: nth_list_update bit_simps bit_1_iff bit_not_iff)

lemma write_bit_run:
  assumes wf: "bw_wf w"
  shows "\<exists>w'. write_bit b w = (Ok (), w') \<and> bw_wf w' \<and> bw_bits w' = bw_bits w @ [b]"
proof -
  define p where "p = bw_bit_pos w"
  define c where "c = (if b then bw_current_byte w OR push_bit (7 - p) 1
      else bw_current_byte w AND NOT (push_bit (7 - p) 1))"
  from wf have p: "p < 8" by (simp add: bw_wf_def p_def)
  then have c: "byte_bits c = (byte_bits (bw_current_byte w))[p := b]"
    by (simp add: c_def byte_bits_set)
  have tk: "take (Suc p) (byte_bits c) = take p (byte_bits (bw_current_byte w)) @ [b]"
    using p c by (simp add: take_Suc_conv_app_nth)
  have eq: "write_bit b w = (if Suc p = 8
      then (Ok (), w\<lparr>bw_writer := bw_writer w @ [c], bw_current_byte := 0, bw_bit_pos := 0\<rparr>)
      else (Ok (), w\<lparr>bw_current_byte := c, bw_bit_pos := Suc p\<rparr>))"
    by (simp add: write_bit_def Let_def p_def c_def)
  show ?thesis
  proof (cases "p = 7")
    case True
    with tk have "byte_bits c = take p (byte_bits (bw_current_byte w)) @ [b]" by simp
    with True show ?thesis by (simp add: eq bw_wf_def bw_bits_def p_def [symmetric])
  next
    case False
    with tk p show ?thesis by (simp add: eq bw_wf_def bw_bits_def p_def [symmetric])
  qed
qed

interpretation bw: bit_sink write_bit bw_bits bw_wf
  by unfold_locales (fact write_bit_run)

section \<open>Fields, alignment and whole bytes\<close>

lemma fits_mask: "n < 64 \<Longrightarrow> \<not> v > push_bit n (1 :: u64) - 1 \<longleftrightarrow> take_bit n v = v"
proof -
  assume n: "n < 64"
  have "unat (push_bit n (1 :: u64) - 1) = 2 ^ n - 1"
  proof -
    have "(2 :: nat) ^ n < 2 ^ 64" using n by (rule power_strict_increasing) simp
    then have "unat (word_of_nat (2 ^ n) :: u64) = 2 ^ n" by (simp only: unat_of_nat) simp
    then have "unat (2 ^ n :: u64) = 2 ^ n" by simp
    then show ?thesis by (simp add: push_bit_of_1 unat_sub word_le_nat_alt)
  qed
  then have "\<not> v > push_bit n (1 :: u64) - 1 \<longleftrightarrow> unat v < 2 ^ n"
    unfolding word_less_nat_alt not_less using zero_less_power [of "2 :: nat" n] by linarith
  also have "\<dots> \<longleftrightarrow> take_bit n v = v"
    by (simp add: word_unat_eq_iff unsigned_take_bit_eq take_bit_nat_eq_self_iff)
  finally show ?thesis .
qed

lemma write_bits_run:
  assumes "bw_wf w" "n \<le> 64" "take_bit n v = v"
  shows "\<exists>w'. write_bits v n w = (Ok (), w') \<and> bw_wf w' \<and> bw_bits w' = bw_bits w @ to_bits n v"
proof -
  have "\<not> (min n 64 \<noteq> 64 \<and> v > push_bit (min n 64) 1 - 1)"
    using assms(2,3) fits_mask [of n v] by (auto simp: min_def)
  with bw.write_list [OF assms(1), of "[0..<n]" "\<lambda>i. drop_bit (n - i - 1) v AND 1 = 1"] assms(2)
  show ?thesis
    by (auto simp: write_bits_def Let_def min_def to_bits_map bit_iff_and_drop_bit_eq_1)
qed

lemma write_bits_too_large:
  assumes "n < 64" "take_bit n v \<noteq> v"
  shows "write_bits v n w = (Err InvalidData, w)"
  using assms fits_mask [of n v] by (simp add: write_bits_def Let_def min_def run_simps)

lemma to_bits_0: "to_bits n (0 :: 'w::len word) = replicate n False"
  by (rule nth_equalityI) (auto simp: to_bits_nth)

lemma bw_align_run:
  assumes "bw_wf w"
  shows "\<exists>w'. bw_align w = (Ok (), w') \<and> bw_bit_pos w' = 0
     \<and> bw_bits w' = bw_bits w @ replicate ((8 - bw_bit_pos w) mod 8) False"
proof (cases "bw_bit_pos w = 0")
  case True
  then show ?thesis by (simp add: bw_align_def bw_is_aligned_def)
next
  case False
  with assms have p: "0 < bw_bit_pos w" "bw_bit_pos w < 8" by (auto simp: bw_wf_def)
  obtain w' where w': "write_bits 0 (8 - bw_bit_pos w) w = (Ok (), w')" "bw_wf w'"
    "bw_bits w' = bw_bits w @ replicate (8 - bw_bit_pos w) False"
    using write_bits_run [OF assms le_trans [OF diff_le_self], of 8 "bw_bit_pos w" 0]
    by (auto simp: to_bits_0)
  have "length (bw_bits w') mod 8 = 0"
    using w'(3) p by (simp add: bw_bits_def)
  with w'(2) have "bw_bit_pos w' = 0" by (simp add: bw_bits_def bw_wf_def)
  with w' p show ?thesis by (auto simp: bw_align_def bw_is_aligned_def)
qed

lemma bw_finish_run:
  assumes "bw_wf w"
  shows "\<exists>out. bw_finish w = Ok out
     \<and> bits_of out = bw_bits w @ replicate ((8 - bw_bit_pos w) mod 8) False"
  using bw_align_run [OF assms] by (auto simp: bw_finish_def bindE_def bw_bits_def)

lemma bw_write_run:
  assumes "bw_wf w"
  shows "\<exists>w'. bw_write bs w = (Ok (), w') \<and> bw_wf w' \<and> bw_bits w' = bw_bits w @ bits_of bs"
proof (cases "bw_is_aligned w")
  case True
  with assms have "bw_bit_pos w = 0" by (simp add: bw_is_aligned_def bw_wf_def)
  with True show ?thesis by (simp add: bw_write_def bw_bits_def bw_wf_def)
next
  case False
  have "\<exists>w'. for_m bs (\<lambda>b. write_bits (ucast b) 8) w = (Ok (), w') \<and> bw_wf w'
      \<and> bw_bits w' = bw_bits w @ bits_of bs"
    using assms
  proof (induction bs arbitrary: w)
    case (Cons b bs)
    have "take_bit 8 (ucast b :: u64) = ucast b" "to_bits 8 (ucast b :: u64) = byte_bits b"
      using bit_imp_le_length [of b] by (auto intro!: bit_word_eqI nth_equalityI
          simp: bit_simps byte_bits_eq_to_bits to_bits_nth)
    with write_bits_run [OF Cons.prems, of 8 "ucast b"] obtain w1 where
      "write_bits (ucast b) 8 w = (Ok (), w1)" "bw_wf w1" "bw_bits w1 = bw_bits w @ byte_bits b"
      by auto
    with Cons.IH [of w1] show ?case by (auto simp: run_simps)
  qed (simp add: run_simps)
  with False show ?thesis by (simp add: bw_write_def)
qed

lemma read_bits_run:
  assumes "br_wf r" "n \<le> 64" "br_bits r = to_bits n v @ rest"
  shows "\<exists>r'. read_bits n r = (Ok (take_bit n v), r') \<and> br_wf r' \<and> br_bits r' = rest"
  using br.read_loop [OF assms(1,3), of "0 :: u64"] assms(2)
  by (simp add: read_bits_def min_def of_bits_to_bits)

text \<open>The same as a rule for a read in the middle of a longer program.\<close>

lemma read_bits_bindI:
  assumes "br_wf r" "br_bits r = to_bits n v @ rest" "n \<le> 64"
    and "\<And>r'. br_wf r' \<Longrightarrow> br_bits r' = rest \<Longrightarrow> P (f (take_bit n v) r')"
  shows "P (bindE (read_bits n) f r)"
  using read_bits_run [OF assms(1,3,2)] assms(4) by (auto simp: bindE_def)

lemma take_bit_ucast_small:
  assumes "unat (x :: 'a::len word) < 2 ^ n" "LENGTH('a) \<le> LENGTH('b)"
  shows "take_bit n (ucast x :: 'b::len word) = ucast x"
proof -
  note unat_ucast_up [OF assms(2), of x]
  with assms(1) show ?thesis
    by (simp add: word_unat_eq_iff unsigned_take_bit_eq take_bit_nat_eq_self)
qed

lemma br_new_from_slice_wf [simp]:
  "br_wf (br_new_from_slice bs)" "br_bits (br_new_from_slice bs) = bits_of bs"
  by (simp_all add: br_new_from_slice_def br_new_def br_wf_def br_bits_def cursor_new_curs)

lemma bw_new_wf [simp]: "bw_wf (bw_new out)" "bw_bits (bw_new out) = bits_of out"
  by (simp_all add: bw_new_def bw_wf_def bw_bits_def)

section \<open>Positions and seeking\<close>

lemma br_bits_position:
  assumes "br_wf r"
  shows "br_bits r = drop (br_position r) (bits_of (cur_data (br_data r)))"
proof (cases "br_bit_pos r = 0")
  case True
  then show ?thesis by (simp add: br_bits_def br_position_def drop_bits_of cur_rest_def)
next
  case False
  define q where "q = cur_pos (br_data r) - 1"
  from assms False have q: "cur_pos (br_data r) = Suc q" "q < length (cur_data (br_data r))"
    "br_current_byte r = cur_data (br_data r) ! q" "br_bit_pos r < 8"
    by (auto simp: br_wf_def q_def)
  have "drop (br_position r) (bits_of (cur_data (br_data r)))
      = drop (br_bit_pos r) (drop (8 * q) (bits_of (cur_data (br_data r))))"
    using False q(1) by (simp add: br_position_def add.commute)
  also have "\<dots> = drop (br_bit_pos r) (bits_of (cur_data (br_data r) ! q # cur_rest (br_data r)))"
    using q by (simp add: drop_bits_of Cons_nth_drop_Suc cur_rest_def)
  finally show ?thesis using False q by (simp add: br_bits_def)
qed

lemma bit_stream_position_run: "br_wf r \<Longrightarrow> bit_stream_position r = (Ok (br_position r), r)"
  by (auto simp: bit_stream_position_def br_position_def br_is_aligned_def br_wf_def Let_def)

lemma rust_div_nonneg: "0 \<le> a \<Longrightarrow> rust_div a 8 = a div 8" "0 \<le> a \<Longrightarrow> rust_rem a 8 = a mod 8"
  by (auto simp: rust_rem_def rust_div_def sgn_if minus_mult_div_eq_mod)

lemma rust_div_neg:
  "a < 0 \<Longrightarrow> rust_div a 8 = - (- a div 8)" "a < 0 \<Longrightarrow> rust_rem a 8 = - (- a mod 8)"
  by (simp_all add: rust_rem_def rust_div_def minus_mult_div_eq_mod [symmetric])

lemma rust_div_rem_8:
  "rust_div c 8 - (if rust_rem c 8 < 0 then 1 else 0) = c div 8"
  "rust_rem (8 + rust_rem c 8) 8 = c mod 8"
proof -
  have "rust_div c 8 - (if rust_rem c 8 < 0 then 1 else 0) = c div 8
      \<and> rust_rem (8 + rust_rem c 8) 8 = c mod 8"
  proof (cases "0 \<le> c")
    case True
    then show ?thesis by (simp add: rust_div_nonneg not_less)
  next
    case False
    define d where "d = - c"
    have c: "c = - d" and neg: "- d < 0" using False by (simp_all add: d_def)
    have m: "0 \<le> d mod 8" "d mod 8 < 8" by simp_all
    note q = rust_div_neg [OF neg]
    have "rust_rem (8 - d mod 8) 8 = (8 - d mod 8) mod 8"
      using m by (intro rust_div_nonneg) linarith
    moreover have "d mod 8 \<noteq> 0 \<Longrightarrow> (8 - d mod 8) mod 8 = 8 - d mod 8"
      using m by (intro mod_pos_pos_trivial) linarith+
    moreover have "d mod 8 = 0 \<or> 0 < d mod 8" using m by linarith
    ultimately show ?thesis
      using zdiv_zminus1_eq_if [of 8 d] zmod_zminus1_eq_if [of d 8]
      by (elim disjE) (simp_all add: c q)
  qed
  then show "rust_div c 8 - (if rust_rem c 8 < 0 then 1 else 0) = c div 8"
    "rust_rem (8 + rust_rem c 8) 8 = c mod 8" by auto
qed

text \<open>The state in which \<^verbatim>\<open>seek_bits\<close> looks at the alignment again: the cursor stands at byte
  \<open>T div 8\<close> of the target position \<open>T\<close>.\<close>

definition seek_mid :: "int \<Rightarrow> bit_reader \<Rightarrow> bit_reader" where
  "seek_mid T r = r\<lparr>br_data := (br_data r)\<lparr>cur_pos := nat (T div 8)\<rparr>, br_bit_pos := nat (T mod 8)\<rparr>"

lemma seek_mid_sel:
  "br_bit_pos (seek_mid T r) = nat (T mod 8)" "cur_pos (br_data (seek_mid T r)) = nat (T div 8)"
  "cur_data (br_data (seek_mid T r)) = cur_data (br_data r)"
  by (simp_all add: seek_mid_def)

lemma seek_bits_step:
  assumes wf: "br_wf r" and T: "T = int (br_position r) + k" and lo: "0 \<le> T" and k: "k \<noteq> 0"
  shows "seek_bits k r = (if br_is_aligned (seek_mid T r) then (Ok (nat (T div 8) * 8), seek_mid T r)
      else bindE update_byte (\<lambda>_ r'. (Ok (nat (T div 8) * 8 + br_bit_pos r'), r')) (seek_mid T r))"
proof -
  define c where "c = int (br_bit_pos r) + k"
  define al where "al = (if br_is_aligned r then 0 else 1 :: int)"
  have Tc: "T = c + 8 * (int (cur_pos (br_data r)) - al)"
    using T wf by (auto simp: c_def al_def br_position_def br_wf_def br_is_aligned_def of_nat_diff)
  have q: "T div 8 = c div 8 + (int (cur_pos (br_data r)) - al)" and m: "T mod 8 = c mod 8"
    unfolding Tc by (simp_all only: div_mult_self2 mod_mult_self2)
  have tgt: "int (cur_pos (br_data r)) + (rust_div c 8 - al - (if rust_rem c 8 < 0 then 1 else 0)) = T div 8"
    using q rust_div_rem_8(1) [of c] by linarith
  have ge: "\<not> T div 8 < 0" using lo by (simp add: pos_imp_zdiv_neg_iff)
  have seek: "on_br_data (cursor_seek (SeekCurrent
      (rust_div c 8 - al - (if rust_rem c 8 < 0 then 1 else 0)))) r
      = (Ok (nat (T div 8)), r\<lparr>br_data := (br_data r)\<lparr>cur_pos := nat (T div 8)\<rparr>\<rparr>)"
    using ge by (simp only: on_br_data_def cursor_seek_def Let_def seek_from.case tgt if_False prod.case)
  show ?thesis
    by (simp only: seek_bits_def k if_False Let_def c_def [symmetric] al_def [symmetric]
        bindE_def seek prod.case result.case rust_div_rem_8(2) m [symmetric] seek_mid_def
        bit_reader.simps)
qed

lemma seek_bits_run:
  assumes wf: "br_wf r" and T: "T = int (br_position r) + k"
    and lo: "0 \<le> T" and hi: "T \<le> 8 * int (length (cur_data (br_data r)))"
  shows "\<exists>r'. seek_bits k r = (Ok (nat T), r') \<and> br_wf r' \<and> br_position r' = nat T
     \<and> cur_data (br_data r') = cur_data (br_data r)"
proof (cases "k = 0")
  case True
  with assms show ?thesis by (simp add: seek_bits_def bit_stream_position_run)
next
  case k: False
  note step = seek_bits_step [OF wf T lo k]
  from lo obtain n where n: "T = int n" by (metis nonneg_int_cases)
  then have nd: "nat (T div 8) = n div 8" "nat (T mod 8) = n mod 8" "nat T = n"
    by (auto simp: nat_div_distrib nat_mod_distrib)
  from n hi have hn: "n \<le> 8 * length (cur_data (br_data r))" by linarith
  have split: "n div 8 * 8 + n mod 8 = n" by simp
  show ?thesis
  proof (cases "n mod 8 = 0")
    case True
    from True have "n div 8 \<le> length (cur_data (br_data r))" "n div 8 * 8 = n" using hn by auto
    with True show ?thesis
      by (simp add: step br_is_aligned_def br_wf_def br_position_def seek_mid_sel nd mult.commute)
  next
    case False
    have lt: "n div 8 < length (cur_data (br_data r))" using hn False by presburger
    then have "cur_rest (br_data (seek_mid T r)) = cur_data (br_data r) ! (n div 8)
        # drop (Suc (n div 8)) (cur_data (br_data r))"
      by (simp add: cur_rest_def Cons_nth_drop_Suc seek_mid_sel nd)
    from update_byte_Cons [OF this] obtain r2 where r2: "update_byte (seek_mid T r) = (Ok (), r2)"
      "br_bit_pos r2 = n mod 8" "br_current_byte r2 = cur_data (br_data r) ! (n div 8)"
      "cur_data (br_data r2) = cur_data (br_data r)" "cur_pos (br_data r2) = Suc (n div 8)"
      by (auto simp: seek_mid_sel nd)
    have "seek_bits k r = (Ok (n div 8 * 8 + n mod 8), r2)"
      using False r2(1,2) by (simp add: step br_is_aligned_def bindE_def seek_mid_sel nd)
    moreover have "br_position r2 = n"
      unfolding br_position_def r2 using False split by (simp add: mult.commute)
    moreover have "br_wf r2"
      using lt by (simp add: br_wf_def r2 Suc_le_eq)
    ultimately show ?thesis using r2(4) by (simp only: nd split) blast
  qed
qed

section \<open>Properties\<close>

lemma of_bits_byte_bits: "of_bits 0 (byte_bits b) = b"
  by (simp add: byte_bits_eq_to_bits of_bits_to_bits take_bit_word_eq_self)

lemma byte_bits_inj: "byte_bits a = byte_bits b \<longleftrightarrow> a = b"
  by (metis of_bits_byte_bits)

lemma bits_of_append_eq:
  "bits_of xs = bits_of ys @ rest \<Longrightarrow> take (length ys) xs = ys \<and> rest = bits_of (drop (length ys) xs)"
proof (induction ys arbitrary: xs)
  case (Cons y ys)
  from Cons.prems obtain x xs' where xs: "xs = x # xs'"
    by (cases xs) (auto simp: byte_bits_def)
  with Cons.prems have "byte_bits x @ bits_of xs' = byte_bits y @ (bits_of ys @ rest)" by simp
  then have "x = y" "bits_of xs' = bits_of ys @ rest"
    by (auto simp: byte_bits_inj append_eq_append_conv)
  with Cons.IH [of xs'] xs show ?case by simp
qed simp

lemma write_fields_run:
  assumes "bw_wf w" "\<forall>(n, v) \<in> set fs. n \<le> 64 \<and> take_bit n v = v"
  shows "\<exists>w'. for_m fs (\<lambda>(n, v). write_bits v n) w = (Ok (), w') \<and> bw_wf w'
     \<and> bw_bits w' = bw_bits w @ concat (map (\<lambda>(n, v). to_bits n v) fs)"
  using assms
proof (induction fs arbitrary: w)
  case (Cons f fs)
  obtain n v where f: "f = (n, v)" by (cases f)
  with Cons.prems write_bits_run [of w n v] obtain w1 where
    "write_bits v n w = (Ok (), w1)" "bw_wf w1" "bw_bits w1 = bw_bits w @ to_bits n v" by auto
  with Cons.IH [of w1] Cons.prems f show ?case by (auto simp: run_simps)
qed (simp add: run_simps)

lemma read_fields_run:
  assumes "br_wf r" "\<forall>(n, v) \<in> set fs. n \<le> 64 \<and> take_bit n v = v"
    "br_bits r = concat (map (\<lambda>(n, v). to_bits n v) fs) @ rest"
  shows "\<exists>r'. map_m read_bits (map fst fs) r = (Ok (map snd fs), r') \<and> br_wf r' \<and> br_bits r' = rest"
  using assms
proof (induction fs arbitrary: r)
  case (Cons f fs)
  obtain n v where f: "f = (n, v)" by (cases f)
  with Cons.prems read_bits_run [of r n v "concat (map (\<lambda>(n, v). to_bits n v) fs) @ rest"]
  obtain r1 where "read_bits n r = (Ok v, r1)" "br_wf r1"
    "br_bits r1 = concat (map (\<lambda>(n, v). to_bits n v) fs) @ rest" by auto
  with Cons.IH [of r1] Cons.prems f show ?case by (auto simp: run_simps)
qed (simp add: run_simps)

text \<open>C1: bit fields written one after the other with \<^verbatim>\<open>BitWriter::write_bits\<close> and finished
  with \<^verbatim>\<open>BitWriter::finish\<close> are read back, field by field, by \<^verbatim>\<open>BitReader::read_bits\<close> on the
  bytes produced, for every list of widths up to 64 and of values that fit them.\<close>

theorem bit_fields_roundtrip:
  assumes "\<forall>(n, v) \<in> set fs. n \<le> 64 \<and> take_bit n v = v"
  shows "\<exists>w out r. for_m fs (\<lambda>(n, v). write_bits v n) (bw_new []) = (Ok (), w)
     \<and> bw_finish w = Ok out
     \<and> map_m read_bits (map fst fs) (br_new_from_slice out) = (Ok (map snd fs), r)"
proof -
  from write_fields_run [OF _ assms, of "bw_new []"] obtain w where
    w: "for_m fs (\<lambda>(n, v). write_bits v n) (bw_new []) = (Ok (), w)" "bw_wf w"
       "bw_bits w = concat (map (\<lambda>(n, v). to_bits n v) fs)" by auto
  from bw_finish_run [OF w(2)] obtain out where out: "bw_finish w = Ok out"
    "bits_of out = concat (map (\<lambda>(n, v). to_bits n v) fs)
       @ replicate ((8 - bw_bit_pos w) mod 8) False"
    using w(3) by auto
  from read_fields_run [OF _ assms, of "br_new_from_slice out"] out(2) w(1) out(1)
  show ?thesis by auto
qed

theorem bit_fields_roundtrip_witness:
  "\<exists>w out r. for_m [(3, 5), (13, 4097), (64, 18446744073709551615)]
        (\<lambda>(n, v). write_bits v n) (bw_new []) = (Ok (), w)
     \<and> bw_finish w = Ok out
     \<and> map_m read_bits [3, 13, 64] (br_new_from_slice out)
         = (Ok [5, 4097, 18446744073709551615], r)"
  using bit_fields_roundtrip [of "[(3, 5), (13, 4097), (64, 18446744073709551615)]"]
  by (simp add: take_bit_word_eq_self)

text \<open>\<^verbatim>\<open>BitReader::seek_bits\<close>, forwards and backwards across byte boundaries, lands on the bit
  position asked for, reports it, and delivers from there exactly the bits of the buffer that
  follow it, as long as the target lies in the buffer.\<close>

theorem seek_bits_delivers:
  assumes "br_wf r" "T = int (br_position r) + k" "0 \<le> T"
    "T \<le> 8 * int (length (cur_data (br_data r)))"
  shows "\<exists>r'. seek_bits k r = (Ok (nat T), r') \<and> br_wf r'
     \<and> br_bits r' = drop (nat T) (bits_of (cur_data (br_data r)))"
  using seek_bits_run [OF assms] by (metis br_bits_position)

theorem seek_bits_delivers_witness:
  "\<exists>r'. seek_bits (- 5) \<lparr>br_data = \<lparr>cur_data = [0xA5, 0x3C], cur_pos = 2\<rparr>,
        br_bit_pos = 2, br_current_byte = 0x3C\<rparr> = (Ok 5, r') \<and> br_wf r'
     \<and> br_bits r' = drop 5 (bits_of [0xA5, 0x3C])"
  using seek_bits_delivers [of "\<lparr>br_data = \<lparr>cur_data = [0xA5, 0x3C], cur_pos = 2\<rparr>,
        br_bit_pos = 2, br_current_byte = 0x3C\<rparr>" 5 "- 5"]
  by (simp add: br_wf_def br_position_def)

lemma read_bytes_run:
  assumes "br_wf r" "br_bits r = bits_of xs @ rest"
  shows "\<exists>r'. repeat_m (length xs) (read_bits_loop read_bit 8 0) r = (Ok xs, r')
     \<and> br_wf r' \<and> br_bits r' = rest"
  using assms
proof (induction xs arbitrary: r)
  case (Cons x xs)
  with br.read_loop [of r "byte_bits x" "bits_of xs @ rest" "0 :: u8"] obtain r1 where
    "read_bits_loop read_bit 8 0 r = (Ok x, r1)" "br_wf r1" "br_bits r1 = bits_of xs @ rest"
    by (auto simp: of_bits_byte_bits)
  with Cons.IH [of r1] show ?case by (auto simp: run_simps)
qed (simp add: run_simps)

lemma br_read_run:
  assumes "br_wf r" "br_bits r = bits_of xs @ rest"
  shows "\<exists>r'. br_read (length xs) r = (Ok xs, r') \<and> br_wf r' \<and> br_bits r' = rest"
proof (cases "br_bit_pos r = 0")
  case True
  with assms(2) have "bits_of (cur_rest (br_data r)) = bits_of xs @ rest"
    by (simp add: br_bits_def)
  from bits_of_append_eq [OF this] have t: "take (length xs) (cur_rest (br_data r)) = xs"
    and rest: "rest = bits_of (drop (length xs) (cur_rest (br_data r)))" by auto
  from t have "length xs \<le> length (cur_rest (br_data r))"
    by (metis length_take min.cobounded1)
  with assms(1) have "cur_pos (br_data r) + length xs \<le> length (cur_data (br_data r))"
    unfolding cur_rest_def br_wf_def length_drop by arith
  with True t rest show ?thesis
    by (simp add: br_read_def br_is_aligned_def on_br_data_def cursor_read_def Let_def
        br_wf_def br_bits_def cur_rest_def add.commute)
next
  case False
  with read_bytes_run [OF assms] show ?thesis by (simp add: br_read_def br_is_aligned_def)
qed

end
