(* ===== verification/Exp_Golomb.thy ===== *)
theory Exp_Golomb
  imports Bytes_Util
begin

text \<open>
  The crate \<^verbatim>\<open>scuffle-expgolomb\<close> (\<^verbatim>\<open>crates/expgolomb/src/lib.rs\<close>): unsigned and signed
  Exp-Golomb codes on top of the bit reader and the bit writer. The loop that counts leading
  zeros has no bound of its own in the code; it is modelled with as much fuel as the buffer has
  bits, and the refinement theorem shows that the fuel never runs out. The counter is an \<^verbatim>\<open>i32\<close> (the
  type Rust infers for it), so the zero bit number \<open>2 ^ 31\<close> makes \<^verbatim>\<open>leading_zeros += 1\<close> panic. The locale
  \<open>bit_codec\<close> is the bit-level counterpart of \<open>byte_codec\<close>.
\<close>

section \<open>Reading\<close>

fun leading_zeros_loop :: "nat \<Rightarrow> nat \<Rightarrow> (bit_reader, io_error, nat) prog" where
  "leading_zeros_loop 0 z = out_of_fuel"
| "leading_zeros_loop (Suc fuel) z =
     bindE read_bit (\<lambda>b. if b then ret z
       else if z + 1 \<ge> 2 ^ 31 then panic else leading_zeros_loop fuel (z + 1))"

definition eg_fuel :: "bit_reader \<Rightarrow> nat" where
  "eg_fuel r = 8 * length (cur_data (br_data r)) + 8"

definition read_exp_golomb :: "(bit_reader, io_error, u64) prog" where
  "read_exp_golomb r =
     bindE (leading_zeros_loop (eg_fuel r) 0)
       (\<lambda>leading_zeros. bindE (read_bits_loop read_bit leading_zeros 1)
       (\<lambda>result. if result = 0 then panic else ret (result - 1))) r"

definition read_signed_exp_golomb :: "(bit_reader, io_error, i64) prog" where
  "read_signed_exp_golomb =
     bindE read_exp_golomb
       (\<lambda>exp_glob. if exp_glob mod 2 = 0 then ret (- (exp_glob div 2))
          else if exp_glob div 2 = 0x7FFFFFFFFFFFFFFF then panic
          else ret (exp_glob div 2 + 1))"

section \<open>Writing\<close>

function eg_log :: "u64 \<Rightarrow> nat" where
  "eg_log number = (if number > 1 then eg_log (drop_bit 1 number) + 1 else 0)"
  by auto

lemma unat_drop_bit_1: "unat (drop_bit (Suc 0) (n :: u64)) = unat n div 2"
  unfolding unat_drop_bit_eq by (simp add: drop_bit_Suc)

termination eg_log
  by (relation "measure unat") (simp_all add: unat_drop_bit_1 word_less_nat_alt)

declare eg_log.simps [simp del]

definition write_exp_golomb :: "u64 \<Rightarrow> (bit_writer, io_error, unit) prog" where
  "write_exp_golomb input =
     (if input = 0xFFFFFFFFFFFFFFFF then panic
      else let leading_zeros = eg_log (input + 1)
           in bindE (for_m [0..<leading_zeros] (\<lambda>_. write_bit False))
                (\<lambda>_. write_bits (input + 1) (leading_zeros + 1)))"

definition write_signed_exp_golomb :: "i64 \<Rightarrow> (bit_writer, io_error, unit) prog" where
  "write_signed_exp_golomb number =
     (if sint number \<le> 0
      then if number = 0x8000000000000000 then panic else write_exp_golomb (- number * 2)
      else write_exp_golomb (number * 2 - 1))"

section \<open>The code as bits\<close>

definition eg_bits :: "u64 \<Rightarrow> bool list" where
  "eg_bits v = replicate (eg_log (v + 1)) False @ to_bits (eg_log (v + 1) + 1) (v + 1)"

text \<open>What the reader should do on a list of bits: too many zeros are the overflow of the counter,
  a missing terminator or a missing bit is an unexpected end, and a code whose value has been
  shifted out of the 64 bits is the underflow of \<^verbatim>\<open>result - 1\<close>.\<close>

definition eg_spec :: "bool list \<Rightarrow> u64 io_result" where
  "eg_spec bs =
     (let z = length (takeWhile Not bs)
      in if 2 ^ 31 \<le> z then Panic
         else if length bs \<le> 2 * z then Err UnexpectedEof
         else let n = of_bits 1 (take z (drop (z + 1) bs))
              in if n = 0 then Panic else Ok (n - 1))"

lemma eg_log_bit: "n \<noteq> 0 \<Longrightarrow> bit n (eg_log n) \<and> (\<forall>i. bit n i \<longrightarrow> i \<le> eg_log n)"
proof (induction n rule: eg_log.induct)
  case (1 n)
  show ?case
  proof (cases "n > 1")
    case True
    then have "drop_bit 1 n \<noteq> 0"
      by (simp add: word_less_nat_alt word_unat_eq_iff unat_drop_bit_1 div_greater_zero_iff)
    with 1 True have IH: "bit (drop_bit 1 n) (eg_log (drop_bit 1 n))"
      "\<And>i. bit (drop_bit 1 n) i \<Longrightarrow> i \<le> eg_log (drop_bit 1 n)" by auto
    have "i \<le> Suc (eg_log (drop_bit 1 n))" if "bit n i" for i
      using that IH(2) [of "i - 1"] by (cases i) (auto simp: bit_drop_bit_eq)
    with IH(1) True show ?thesis
      by (subst (1 2) eg_log.simps) (auto simp: bit_drop_bit_eq)
  next
    case False
    with 1(2) have "n = 1" by (metis not_less_iff_gr_or_eq word_less_1)
    then show ?thesis by (simp add: eg_log.simps bit_1_iff)
  qed
qed

lemma eg_log_less_64: "n \<noteq> 0 \<Longrightarrow> eg_log n < 64"
  using eg_log_bit [of n] by (auto dest: bit_imp_le_length)

lemma take_bit_eg_log: "n \<noteq> 0 \<Longrightarrow> take_bit (Suc (eg_log n)) n = n"
  using eg_log_bit [of n] by (intro bit_word_eqI) (auto simp: bit_take_bit_iff less_Suc_eq_le)

lemma to_bits_eg_log: "n \<noteq> 0 \<Longrightarrow> to_bits (Suc (eg_log n)) n = True # to_bits (eg_log n) n"
  using eg_log_bit [of n] by (simp add: to_bits_Suc del: to_bits.simps)

lemma of_bits_eg_log: "n \<noteq> 0 \<Longrightarrow> of_bits 1 (to_bits (eg_log n) n) = n"
proof -
  assume n: "n \<noteq> 0"
  have "of_bits 1 (to_bits (eg_log n) n) = of_bits 0 (True # to_bits (eg_log n) n)"
    by (simp add: of_bits_def)
  also have "\<dots> = of_bits 0 (to_bits (Suc (eg_log n)) n)" by (simp only: to_bits_eg_log [OF n])
  also have "\<dots> = n" by (simp only: of_bits_to_bits take_bit_eg_log [OF n])
  finally show ?thesis .
qed

lemma leading_zeros_loop_run:
  "br_wf r \<Longrightarrow> br_bits r = replicate k False @ True # rest \<Longrightarrow> k < fuel \<Longrightarrow> z + k < 2 ^ 31 \<Longrightarrow>
   \<exists>r'. leading_zeros_loop fuel z r = (Ok (z + k), r') \<and> br_wf r' \<and> br_bits r' = rest"
proof (induction k arbitrary: r fuel z)
  case 0
  then obtain f where "fuel = Suc f" by (cases fuel) auto
  with 0 read_bit_Cons [of r True rest] show ?case by (auto simp: run_simps)
next
  case (Suc k)
  then obtain f where f: "fuel = Suc f" by (cases fuel) auto
  from Suc.prems read_bit_Cons [of r False "replicate k False @ True # rest"] obtain r1 where
    "read_bit r = (Ok False, r1)" "br_wf r1" "br_bits r1 = replicate k False @ True # rest" by auto
  with Suc.IH [of r1 f "z + 1"] Suc.prems f show ?case by (auto simp: bindE_def)
qed

lemma leading_zeros_loop_eof:
  "br_wf r \<Longrightarrow> br_bits r = replicate k False \<Longrightarrow> k < fuel \<Longrightarrow> z + k < 2 ^ 31 \<Longrightarrow>
   \<exists>r'. leading_zeros_loop fuel z r = (Err UnexpectedEof, r')"
proof (induction k arbitrary: r fuel z)
  case 0
  then obtain f where "fuel = Suc f" by (cases fuel) auto
  with 0 read_bit_Nil [of r] show ?case by (auto simp: run_simps)
next
  case (Suc k)
  then obtain f where f: "fuel = Suc f" by (cases fuel) auto
  from Suc.prems read_bit_Cons [of r False "replicate k False"] obtain r1 where
    "read_bit r = (Ok False, r1)" "br_wf r1" "br_bits r1 = replicate k False" by auto
  with Suc.IH [of r1 f "z + 1"] Suc.prems f show ?case by (auto simp: bindE_def)
qed

lemma leading_zeros_loop_overflow:
  "br_wf r \<Longrightarrow> br_bits r = replicate k False @ rest \<Longrightarrow> k < fuel \<Longrightarrow> z < 2 ^ 31 \<Longrightarrow> 2 ^ 31 \<le> z + k \<Longrightarrow>
   \<exists>r'. leading_zeros_loop fuel z r = (Panic, r')"
proof (induction k arbitrary: r fuel z)
  case (Suc k)
  then obtain f where f: "fuel = Suc f" by (cases fuel) auto
  from Suc.prems read_bit_Cons [of r False "replicate k False @ rest"] obtain r1 where
    r1: "read_bit r = (Ok False, r1)" "br_wf r1" "br_bits r1 = replicate k False @ rest" by auto
  show ?case
  proof (cases "z + 1 \<ge> 2 ^ 31")
    case True
    with r1(1) f show ?thesis by (simp add: bindE_def run_simps)
  next
    case False
    with Suc.IH [of r1 f "z + 1"] Suc.prems r1 f show ?thesis by (auto simp: bindE_def)
  qed
qed simp

lemma eg_fuel_enough: "br_wf r \<Longrightarrow> length (br_bits r) < eg_fuel r"
  by (auto simp: br_bits_def eg_fuel_def br_wf_def cur_rest_def)

lemma read_exp_golomb_run:
  assumes wf: "br_wf r" and bits: "br_bits r = replicate (length body) False @ True # body @ rest"
    and short: "length body < 2 ^ 31"
  shows "\<exists>r'. read_exp_golomb r =
     (if of_bits 1 body = (0 :: u64) then Panic else Ok (of_bits 1 body - 1), r')
     \<and> br_wf r' \<and> br_bits r' = rest"
proof -
  from eg_fuel_enough [OF wf] bits have "length body < eg_fuel r" by simp
  from leading_zeros_loop_run [OF wf bits this, of 0] short obtain r1 where
    r1: "leading_zeros_loop (eg_fuel r) 0 r = (Ok (length body), r1)" "br_wf r1"
    "br_bits r1 = body @ rest" by auto
  from br.read_loop [OF r1(2,3), of "1 :: u64"] r1(1) show ?thesis
    by (auto simp: read_exp_golomb_def run_simps)
qed

text \<open>Every list of bits is a run of zeros, followed by nothing or by a one.\<close>

lemma takeWhile_Not: "takeWhile Not bs = replicate (length (takeWhile Not bs)) False"
  by (metis (full_types) replicate_length_same set_takeWhileD)

lemma bits_split:
  fixes bs :: "bool list" and z :: nat
  defines "z \<equiv> length (takeWhile Not bs)"
  shows "bs = replicate z False \<or> bs = replicate z False @ True # drop (z + 1) bs"
proof (cases "dropWhile Not bs")
  case Nil
  then have "bs = takeWhile Not bs" by (metis append_Nil2 takeWhile_dropWhile_id)
  then show ?thesis using takeWhile_Not [of bs] by (simp add: z_def)
next
  case (Cons b t)
  then have "b" by (metis (full_types) dropWhile_eq_Cons_conv)
  have "bs = replicate z False @ b # t"
    using takeWhile_Not [of bs] takeWhile_dropWhile_id [of Not bs] Cons by (simp add: z_def)
  then have "bs = replicate z False @ b # t" "drop (z + 1) bs = t" by auto
  with \<open>b\<close> show ?thesis by metis
qed

lemma read_exp_golomb_eof:
  assumes wf: "br_wf r" and bits: "br_bits r = replicate z False @ True # body" "length body < z" "z < 2 ^ 31"
  shows "\<exists>r'. read_exp_golomb r = (Err UnexpectedEof, r')"
proof -
  from eg_fuel_enough [OF wf] bits have "z < eg_fuel r" by simp
  from leading_zeros_loop_run [OF wf bits(1) this, of 0] bits(3) obtain r1 where
    r1: "leading_zeros_loop (eg_fuel r) 0 r = (Ok z, r1)" "br_wf r1" "br_bits r1 = body" by auto
  with br.read_loop_eof [of r1 z "1 :: u64"] bits(2) show ?thesis
    by (auto simp: read_exp_golomb_def run_simps)
qed

section \<open>Codes as values of a bit codec\<close>

locale bit_codec =
  fixes wf :: "'a \<Rightarrow> bool"
    and bits :: "'a \<Rightarrow> bool list"
    and rd :: "(bit_reader, io_error, 'a) prog"
    and wr :: "'a \<Rightarrow> (bit_writer, io_error, unit) prog"
  assumes rd_bits: "wf x \<Longrightarrow> br_wf r \<Longrightarrow> br_bits r = bits x @ rest \<Longrightarrow>
      \<exists>r'. rd r = (Ok x, r') \<and> br_wf r' \<and> br_bits r' = rest"
    and wr_bits: "wf x \<Longrightarrow> bw_wf w \<Longrightarrow>
      \<exists>w'. wr x w = (Ok (), w') \<and> bw_wf w' \<and> bw_bits w' = bw_bits w @ bits x"
begin

lemma rd_list:
  "\<forall>x \<in> set xs. wf x \<Longrightarrow> br_wf r \<Longrightarrow> br_bits r = concat (map bits xs) @ rest \<Longrightarrow>
   \<exists>r'. repeat_m (length xs) rd r = (Ok xs, r') \<and> br_wf r' \<and> br_bits r' = rest"
proof (induction xs arbitrary: r)
  case (Cons x xs)
  then obtain r1 where "rd r = (Ok x, r1)" "br_wf r1" "br_bits r1 = concat (map bits xs) @ rest"
    using rd_bits [of x r "concat (map bits xs) @ rest"] by auto
  with Cons.IH [of r1] Cons.prems show ?case by (auto simp: bindE_def ret_def)
qed (simp add: run_simps)

lemma wr_list:
  "\<forall>x \<in> set xs. wf x \<Longrightarrow> bw_wf w \<Longrightarrow>
   \<exists>w'. for_m xs wr w = (Ok (), w') \<and> bw_wf w' \<and> bw_bits w' = bw_bits w @ concat (map bits xs)"
proof (induction xs arbitrary: w)
  case (Cons x xs)
  then obtain w1 where "wr x w = (Ok (), w1)" "bw_wf w1" "bw_bits w1 = bw_bits w @ bits x"
    using wr_bits [of x w] by auto
  with Cons.IH [of w1] Cons.prems show ?case by (auto simp: run_simps)
qed (simp add: run_simps)

lemma list_roundtrip:
  assumes "\<forall>x \<in> set xs. wf x"
  shows "\<exists>w out r. for_m xs wr (bw_new []) = (Ok (), w) \<and> bw_finish w = Ok out
     \<and> repeat_m (length xs) rd (br_new_from_slice out) = (Ok xs, r)"
proof -
  from wr_list [OF assms, of "bw_new []"] obtain w where
    w: "for_m xs wr (bw_new []) = (Ok (), w)" "bw_wf w" "bw_bits w = concat (map bits xs)" by auto
  from bw_finish_run [OF w(2)] w(3) obtain out pad where
    out: "bw_finish w = Ok out" "bits_of out = concat (map bits xs) @ pad" by auto
  from rd_list [OF assms, of "br_new_from_slice out" pad] out w(1) show ?thesis by auto
qed

end

lemma u64_succ_neq_0: "v \<noteq> 0xFFFFFFFFFFFFFFFF \<Longrightarrow> v + 1 \<noteq> (0 :: u64)"
proof
  assume "v \<noteq> 0xFFFFFFFFFFFFFFFF" "v + 1 = 0"
  then have "v = - 1" by (simp add: eq_neg_iff_add_eq_0)
  with \<open>v \<noteq> 0xFFFFFFFFFFFFFFFF\<close> show False by simp
qed

lemma write_exp_golomb_run:
  assumes "v \<noteq> 0xFFFFFFFFFFFFFFFF" "bw_wf w"
  shows "\<exists>w'. write_exp_golomb v w = (Ok (), w') \<and> bw_wf w' \<and> bw_bits w' = bw_bits w @ eg_bits v"
proof -
  note n = u64_succ_neq_0 [OF assms(1)]
  from bw.write_list [OF assms(2), of "[0..<eg_log (v + 1)]" "\<lambda>_. False"] obtain w1 where
    w1: "for_m [0..<eg_log (v + 1)] (\<lambda>_. write_bit False) w = (Ok (), w1)" "bw_wf w1"
    "bw_bits w1 = bw_bits w @ replicate (eg_log (v + 1)) False"
    by (auto simp: map_replicate_const)
  with write_bits_run [OF w1(2), of "eg_log (v + 1) + 1" "v + 1"] eg_log_less_64 [OF n]
    take_bit_eg_log [OF n] assms(1)
  show ?thesis by (auto simp: write_exp_golomb_def eg_bits_def Let_def bindE_def Suc_le_eq)
qed

lemma read_exp_golomb_bits:
  assumes "v \<noteq> 0xFFFFFFFFFFFFFFFF" "br_wf r" "br_bits r = eg_bits v @ rest"
  shows "\<exists>r'. read_exp_golomb r = (Ok v, r') \<and> br_wf r' \<and> br_bits r' = rest"
proof -
  note n = u64_succ_neq_0 [OF assms(1)]
  have "br_bits r = replicate (length (to_bits (eg_log (v + 1)) (v + 1))) False
      @ True # to_bits (eg_log (v + 1)) (v + 1) @ rest"
    using assms(3) to_bits_eg_log [OF n] by (simp add: eg_bits_def del: to_bits.simps)
  moreover have "eg_log (v + 1) < 2 ^ 31" using eg_log_less_64 [OF n] by simp
  ultimately show ?thesis using read_exp_golomb_run [OF assms(2), of "to_bits (eg_log (v + 1)) (v + 1)" rest] n
    by (simp add: of_bits_eg_log)
qed

interpretation eg: bit_codec "\<lambda>v. v \<noteq> 0xFFFFFFFFFFFFFFFF" eg_bits read_exp_golomb write_exp_golomb
  by unfold_locales (fact read_exp_golomb_bits write_exp_golomb_run)+

text \<open>The zig-zag numbering of the signed code.\<close>

definition zigzag :: "i64 \<Rightarrow> u64" where
  "zigzag v = (if sint v \<le> 0 then - v * 2 else v * 2 - 1)"

lemma sint_le_0_cases:
  fixes v :: i64
  assumes "v \<noteq> 0x8000000000000000"
  obtains (nonpos) a where "sint v \<le> 0" "v = - word_of_nat a" "a < 2 ^ 63"
    | (pos) a where "\<not> sint v \<le> 0" "v = word_of_nat a" "0 < a" "a < 2 ^ 63"
proof (cases "sint v \<le> 0")
  case True
  have "- (2 ^ 63) \<le> sint v" using sint_greater_eq [of v] by simp
  moreover have "sint v \<noteq> - (2 ^ 63)"
  proof
    assume "sint v = - (2 ^ 63)"
    then have "v = word_of_int (- (2 ^ 63))" by (metis of_int_sint scast_id)
    with assms show False by simp
  qed
  ultimately have "- sint v < 2 ^ 63" by linarith
  then have "nat (- sint v) < 2 ^ 63" by simp
  moreover have "v = - word_of_nat (nat (- sint v))" using True by simp
  ultimately show thesis using nonpos True by blast
next
  case False
  have "nat (sint v) < 2 ^ 63" using sint_less [of v] False by simp
  moreover have "v = word_of_nat (nat (sint v))" using False by simp
  ultimately show thesis using pos [of "nat (sint v)"] False by simp
qed

lemma u64_even:
  fixes z :: u64
  assumes "unat z = 2 * a" "a < 2 ^ 63"
  shows "z \<noteq> 0xFFFFFFFFFFFFFFFF" "z mod 2 = 0" "z div 2 = word_of_nat a"
proof -
  have "unat z \<noteq> unat (0xFFFFFFFFFFFFFFFF :: u64)" using assms(1) by simp arith
  then show "z \<noteq> 0xFFFFFFFFFFFFFFFF" by blast
  show "z mod 2 = 0" using assms(1) by (simp add: word_unat_eq_iff unat_mod)
  show "z div 2 = word_of_nat a"
    using assms by (simp add: word_unat_eq_iff unat_div unat_of_nat)
qed

lemma u64_odd:
  fixes z :: u64
  assumes "unat z = 2 * a + 1" "a < 2 ^ 63 - 1"
  shows "z \<noteq> 0xFFFFFFFFFFFFFFFF" "z mod 2 \<noteq> 0" "z div 2 = word_of_nat a"
    "z div 2 \<noteq> 0x7FFFFFFFFFFFFFFF"
proof -
  have "unat z \<noteq> unat (0xFFFFFFFFFFFFFFFF :: u64)" using assms by simp
  then show "z \<noteq> 0xFFFFFFFFFFFFFFFF" by blast
  show "z mod 2 \<noteq> 0" using assms(1) by (simp add: word_unat_eq_iff unat_mod)
  show z2: "z div 2 = word_of_nat a"
    using assms by (simp add: word_unat_eq_iff unat_div unat_of_nat)
  show "z div 2 \<noteq> 0x7FFFFFFFFFFFFFFF"
    using assms(2) by (simp add: z2 word_unat_eq_iff unat_of_nat)
qed

lemma write_signed_run:
  "v \<noteq> 0x8000000000000000 \<Longrightarrow> write_signed_exp_golomb v = write_exp_golomb (zigzag v)"
  by (simp add: write_signed_exp_golomb_def zigzag_def)

lemma zigzag_neq_max:
  assumes "v \<noteq> 0x8000000000000000"
  shows "zigzag v \<noteq> 0xFFFFFFFFFFFFFFFF"
  using assms
proof (cases v rule: sint_le_0_cases)
  case (nonpos a)
  then have "unat (zigzag v) = 2 * a"
    by (simp add: zigzag_def unat_word_ariths unat_of_nat)
  with nonpos(3) show ?thesis by (rule u64_even(1) [rotated])
next
  case (pos a)
  then have "unat (zigzag v) = 2 * (a - 1) + 1"
    by (simp add: zigzag_def unat_word_ariths unat_of_nat unat_sub word_le_nat_alt)
  with pos show ?thesis by (intro u64_odd(1) [of _ "a - 1"]) auto
qed

lemma signed_of_zigzag:
  assumes "v \<noteq> 0x8000000000000000" and "read_exp_golomb r = (Ok (zigzag v), r')"
  shows "read_signed_exp_golomb r = (Ok v, r')"
  using assms(1)
proof (cases v rule: sint_le_0_cases)
  case (nonpos a)
  then have "unat (zigzag v) = 2 * a"
    by (simp add: zigzag_def unat_word_ariths unat_of_nat)
  with nonpos u64_even [OF this] assms(2) show ?thesis
    by (simp add: read_signed_exp_golomb_def run_simps)
next
  case (pos a)
  then have "unat (zigzag v) = 2 * (a - 1) + 1"
    by (simp add: zigzag_def unat_word_ariths unat_of_nat unat_sub word_le_nat_alt)
  with pos u64_odd [OF this] assms(2) show ?thesis
    by (simp add: read_signed_exp_golomb_def run_simps of_nat_diff)
qed

interpretation seg: bit_codec "\<lambda>v. v \<noteq> 0x8000000000000000" "\<lambda>v. eg_bits (zigzag v)"
    read_signed_exp_golomb write_signed_exp_golomb
proof unfold_locales
  fix x r rest
  assume x: "(x :: i64) \<noteq> 0x8000000000000000" and r: "br_wf r" "br_bits r = eg_bits (zigzag x) @ rest"
  from read_exp_golomb_bits [OF zigzag_neq_max [OF x] r] signed_of_zigzag [OF x]
  show "\<exists>r'. read_signed_exp_golomb r = (Ok x, r') \<and> br_wf r' \<and> br_bits r' = rest" by metis
next
  fix x w
  assume x: "(x :: i64) \<noteq> 0x8000000000000000" and "bw_wf w"
  with write_exp_golomb_run [OF zigzag_neq_max [OF x]] write_signed_run [OF x]
  show "\<exists>w'. write_signed_exp_golomb x w = (Ok (), w') \<and> bw_wf w'
      \<and> bw_bits w' = bw_bits w @ eg_bits (zigzag x)" by simp
qed

section \<open>Properties\<close>

text \<open>C2: \<^verbatim>\<open>read_exp_golomb\<close> implements its specification on the bits still to be read, on every
  branch: it panics when \<open>2 ^ 31\<close> zero bits come first (the \<^verbatim>\<open>i32\<close> counter overflows, whatever follows
  them), fails with an unexpected-end error when the terminating one or a suffix bit is missing,
  panics when the 64-bit accumulator has been shifted to zero, and gives the value of the code
  otherwise; it never runs for ever.\<close>

theorem read_exp_golomb_refines:
  assumes wf: "br_wf r"
  shows "fst (read_exp_golomb r) = eg_spec (br_bits r)"
proof -
  define z where "z = length (takeWhile Not (br_bits r))"
  define t where "t = drop (z + 1) (br_bits r)"
  note spec = eg_spec_def [of "br_bits r", unfolded Let_def, folded z_def, folded t_def]
  have split: "br_bits r = replicate z False \<or> br_bits r = replicate z False @ True # t"
    using bits_split [of "br_bits r"] unfolding z_def [symmetric] t_def [symmetric] .
  have fuel: "z < eg_fuel r" using eg_fuel_enough [OF wf] split by auto
  consider (many) "2 ^ 31 \<le> z"
    | (zeros) "br_bits r = replicate z False" "z < 2 ^ 31"
    | (short) "br_bits r = replicate z False @ True # t" "length t < z" "z < 2 ^ 31"
    | (code) "br_bits r = replicate z False @ True # t" "z \<le> length t" "z < 2 ^ 31"
    using split by linarith
  then show ?thesis
  proof cases
    case many
    obtain rest where "br_bits r = replicate z False @ rest" using split by (metis append_Nil2)
    from leading_zeros_loop_overflow [OF wf this fuel, of 0] many show ?thesis
      by (auto simp: read_exp_golomb_def run_simps spec)
  next
    case zeros
    from leading_zeros_loop_eof [OF wf zeros(1) fuel, of 0] zeros(2) show ?thesis
      using arg_cong [OF zeros(1), of length] by (auto simp: read_exp_golomb_def run_simps spec)
  next
    case short
    from read_exp_golomb_eof [OF wf short] short(2,3) show ?thesis
      using arg_cong [OF short(1), of length] by (auto simp: spec)
  next
    case code
    then have "br_bits r = replicate (length (take z t)) False @ True # take z t @ drop z t" by simp
    from read_exp_golomb_run [OF wf this] code(2,3) show ?thesis
      using arg_cong [OF code(1), of length] by (auto simp: spec)
  qed
qed

theorem read_exp_golomb_refines_witness:
  "fst (read_exp_golomb (br_new_from_slice [0x28])) = Ok 4"
  using read_exp_golomb_refines [of "br_new_from_slice [0x28]"]
  by (simp add: eg_spec_def byte_bits_def upt_rec of_bits_def)

text \<open>C3: a sequence of numbers written with \<^verbatim>\<open>write_exp_golomb\<close> and finished is read back by the
  same number of calls of \<^verbatim>\<open>read_exp_golomb\<close>, for all numbers but \<^verbatim>\<open>u64::MAX\<close>.\<close>

theorem exp_golomb_roundtrip:
  "\<forall>v \<in> set vs. v \<noteq> 0xFFFFFFFFFFFFFFFF \<Longrightarrow>
   \<exists>w out r. for_m vs write_exp_golomb (bw_new []) = (Ok (), w) \<and> bw_finish w = Ok out
     \<and> repeat_m (length vs) read_exp_golomb (br_new_from_slice out) = (Ok vs, r)"
  by (rule eg.list_roundtrip)

theorem exp_golomb_roundtrip_witness:
  "\<exists>w out r. for_m [0, 7, 18446744073709551614] write_exp_golomb (bw_new []) = (Ok (), w)
     \<and> bw_finish w = Ok out
     \<and> repeat_m 3 read_exp_golomb (br_new_from_slice out) = (Ok [0, 7, 18446744073709551614], r)"
  using exp_golomb_roundtrip [of "[0, 7, 18446744073709551614]"] by (simp add: numeral_3_eq_3)

text \<open>The same for the signed code, for all numbers but \<^verbatim>\<open>i64::MIN\<close>.\<close>

theorem signed_exp_golomb_roundtrip:
  "\<forall>v \<in> set vs. v \<noteq> 0x8000000000000000 \<Longrightarrow>
   \<exists>w out r. for_m vs write_signed_exp_golomb (bw_new []) = (Ok (), w) \<and> bw_finish w = Ok out
     \<and> repeat_m (length vs) read_signed_exp_golomb (br_new_from_slice out) = (Ok vs, r)"
  by (rule seg.list_roundtrip)

theorem signed_exp_golomb_roundtrip_witness:
  "\<exists>w out r. for_m [0, - 3, 5] write_signed_exp_golomb (bw_new []) = (Ok (), w)
     \<and> bw_finish w = Ok out
     \<and> repeat_m 3 read_signed_exp_golomb (br_new_from_slice out) = (Ok [0, - 3, 5], r)"
  using signed_exp_golomb_roundtrip [of "[0, - 3, 5]"] by (simp add: numeral_3_eq_3)

end
