(* ===== verification/Aac.thy ===== *)
theory Aac
  imports Bytes_Util
begin

text \<open>
  The crate \<^verbatim>\<open>scuffle-aac\<close> (\<^verbatim>\<open>crates/aac/src/lib.rs\<close>): the head of the MPEG-4
  \<^verbatim>\<open>AudioSpecificConfig\<close>. The parser is related to the bit layout of the standard, escapes of
  the object type and of the sampling frequency included.
\<close>

datatype AudioObjectType = AacMain | AacLowComplexity | UnknownAot u16

fun aot_as_u16 :: "AudioObjectType \<Rightarrow> u16" where
  "aot_as_u16 AacMain = 1"
| "aot_as_u16 AacLowComplexity = 2"
| "aot_as_u16 (UnknownAot value) = value"

definition aot_from_u16 :: "u16 \<Rightarrow> AudioObjectType" where
  "aot_from_u16 value = (if value = 1 then AacMain else if value = 2 then AacLowComplexity
     else UnknownAot value)"

record PartialAudioSpecificConfig =
  asc_audio_object_type :: AudioObjectType
  asc_sampling_frequency :: u32
  asc_channel_configuration :: u8

datatype SampleFrequencyIndex =
    Freq96000 | Freq88200 | Freq64000 | Freq48000 | Freq44100 | Freq32000 | Freq24000 | Freq22050
  | Freq16000 | Freq12000 | Freq11025 | Freq8000 | Freq7350 | FreqReserved | FreqReserved2
  | FreqEscape

text \<open>The variants in the order of their discriminants, 0 to 15; \<^verbatim>\<open>FromPrimitive::from_u8\<close>
  finds the variant of a discriminant.\<close>

definition sfi_variants :: "SampleFrequencyIndex list" where
  "sfi_variants = [Freq96000, Freq88200, Freq64000, Freq48000, Freq44100, Freq32000, Freq24000,
     Freq22050, Freq16000, Freq12000, Freq11025, Freq8000, Freq7350, FreqReserved, FreqReserved2,
     FreqEscape]"

definition sfi_from_u8 :: "u8 \<Rightarrow> SampleFrequencyIndex option" where
  "sfi_from_u8 v = (if unat v < length sfi_variants then Some (sfi_variants ! unat v) else None)"

fun to_freq :: "SampleFrequencyIndex \<Rightarrow> u32 option" where
  "to_freq Freq96000 = Some 96000"
| "to_freq Freq88200 = Some 88200"
| "to_freq Freq64000 = Some 64000"
| "to_freq Freq48000 = Some 48000"
| "to_freq Freq44100 = Some 44100"
| "to_freq Freq32000 = Some 32000"
| "to_freq Freq24000 = Some 24000"
| "to_freq Freq22050 = Some 22050"
| "to_freq Freq16000 = Some 16000"
| "to_freq Freq12000 = Some 12000"
| "to_freq Freq11025 = Some 11025"
| "to_freq Freq8000 = Some 8000"
| "to_freq Freq7350 = Some 7350"
| "to_freq FreqReserved = None"
| "to_freq FreqReserved2 = None"
| "to_freq FreqEscape = None"

definition ok_or :: "'e \<Rightarrow> 'a option \<Rightarrow> ('e, 'a) result" where
  "ok_or e x = (case x of Some v \<Rightarrow> Ok v | None \<Rightarrow> Err e)"

definition asc_parse_bits :: "(bit_reader, io_error, PartialAudioSpecificConfig) prog" where
  "asc_parse_bits =
     bindE (read_bits 5) (\<lambda>aot5.
     bindE (if (ucast aot5 :: u16) = 31 then bindE (read_bits 6) (\<lambda>x. ret (32 + (ucast x :: u16)))
            else ret (ucast aot5)) (\<lambda>audio_object_type.
     bindE (read_bits 4) (\<lambda>i.
     bindE (lift_result (ok_or InvalidData (sfi_from_u8 (ucast i)))) (\<lambda>sampling_frequency_index.
     bindE (if sampling_frequency_index = FreqEscape then bindE (read_bits 24) (\<lambda>x. ret (ucast x :: u32))
            else lift_result (ok_or InvalidData (to_freq sampling_frequency_index)))
       (\<lambda>sampling_frequency.
     bindE (read_bits 4) (\<lambda>channel_configuration.
     ret \<lparr>asc_audio_object_type = aot_from_u16 audio_object_type,
          asc_sampling_frequency = sampling_frequency,
          asc_channel_configuration = ucast channel_configuration\<rparr>))))))"

definition asc_parse :: "bytes \<Rightarrow> PartialAudioSpecificConfig io_result" where
  "asc_parse data = fst (asc_parse_bits (br_new_from_slice data))"

section \<open>The layout of the standard\<close>

text \<open>The bits of a header: the object type in five bits, or 31 and six more bits for the types
  from 32 on; the index of the frequency, or 15 and the frequency in 24 bits.\<close>

definition aot_bits :: "u16 \<Rightarrow> bool list" where
  "aot_bits t = (if t < 31 then to_bits 5 (ucast t :: u64)
     else to_bits 5 (31 :: u64) @ to_bits 6 (ucast (t - 32) :: u64))"

fun freq_bits :: "u8 + u32 \<Rightarrow> bool list" where
  "freq_bits (Inl i) = to_bits 4 (ucast i :: u64)"
| "freq_bits (Inr f) = to_bits 4 (15 :: u64) @ to_bits 24 (ucast f :: u64)"

definition asc_bits :: "u16 \<Rightarrow> u8 + u32 \<Rightarrow> u8 \<Rightarrow> bool list" where
  "asc_bits t f ch = aot_bits t @ freq_bits f @ to_bits 4 (ucast ch :: u64)"

text \<open>The frequency a header stands for: an index below 13 names a table entry.\<close>

fun freq_of :: "u8 + u32 \<Rightarrow> u32 option" where
  "freq_of (Inl i) = (if i < 13 then to_freq (sfi_variants ! unat i) else None)"
| "freq_of (Inr f) = (if f < 0x1000000 then Some f else None)"

lemma parse_aot:
  assumes "br_wf r" "br_bits r = aot_bits t @ rest" "t < 31 \<or> 32 \<le> t \<and> t < 96"
    and "\<And>r'. br_wf r' \<Longrightarrow> br_bits r' = rest \<Longrightarrow> P (f t r')"
  shows "P (bindE (read_bits 5) (\<lambda>aot5.
     bindE (if (ucast aot5 :: u16) = 31 then bindE (read_bits 6) (\<lambda>x. ret (32 + (ucast x :: u16)))
            else ret (ucast aot5)) f) r)"
proof (cases "t < 31")
  case True
  then have "unat t < 31" by (simp add: word_less_nat_alt)
  then have tb: "take_bit 5 (ucast t :: u64) = ucast t" by (intro take_bit_ucast_small) auto
  from True have "t \<noteq> 31" by auto
  obtain r' where r': "read_bits 5 r = (Ok (ucast t), r')" "br_wf r'" "br_bits r' = rest"
    using read_bits_run [OF assms(1), of 5 "ucast t" rest] assms(2) True tb
    by (auto simp: aot_bits_def)
  from assms(4) [OF r'(2,3)] \<open>t \<noteq> 31\<close> show ?thesis by (simp add: r'(1) bindE_def ret_def)
next
  case False
  with assms(3) have t: "32 \<le> t" "t < 96" by auto
  then have "unat (t - 32) < 2 ^ 6" by (simp add: unat_sub word_less_nat_alt word_le_nat_alt)
  then have tb: "take_bit 6 (ucast (t - 32) :: u64) = ucast (t - 32)"
    by (intro take_bit_ucast_small) auto
  have t31: "take_bit 5 (31 :: u64) = 31" by simp
  have "P (bindE (bindE (read_bits 6) (\<lambda>x. ret (32 + (ucast x :: u16)))) f r')"
    if "br_wf r'" "br_bits r' = to_bits 6 (ucast (t - 32) :: u64) @ rest" for r'
    unfolding bindE_assoc
  proof (rule read_bits_bindI [OF that])
    show "P (bindE (ret (32 + (ucast (take_bit 6 (ucast (t - 32) :: u64)) :: u16))) f r'')"
      if "br_wf r''" "br_bits r'' = rest" for r''
      using assms(4) [OF that] by (simp add: tb bindE_def ret_def)
  qed simp
  note six = this
  have "br_bits r = to_bits 5 (31 :: u64) @ to_bits 6 (ucast (t - 32) :: u64) @ rest"
    using assms(2) False by (simp add: aot_bits_def del: to_bits.simps)
  then show ?thesis
  proof (rule read_bits_bindI [OF assms(1)])
    show "P (bindE (if (ucast (take_bit 5 (31 :: u64)) :: u16) = 31
          then bindE (read_bits 6) (\<lambda>x. ret (32 + (ucast x :: u16)))
          else ret (ucast (take_bit 5 (31 :: u64)))) f r'')"
      if "br_wf r''" "br_bits r'' = to_bits 6 (ucast (t - 32) :: u64) @ rest" for r''
      using six [OF that] by (simp add: t31)
  qed simp
qed

lemma parse_freq:
  assumes "br_wf r" "br_bits r = freq_bits f @ rest" "freq_of f = Some freq"
    and "\<And>r'. br_wf r' \<Longrightarrow> br_bits r' = rest \<Longrightarrow> P (g freq r')"
  shows "P (bindE (read_bits 4) (\<lambda>i.
     bindE (lift_result (ok_or InvalidData (sfi_from_u8 (ucast i)))) (\<lambda>ix.
     bindE (if ix = FreqEscape then bindE (read_bits 24) (\<lambda>x. ret (ucast x :: u32))
            else lift_result (ok_or InvalidData (to_freq ix))) g)) r)"
proof (cases f)
  case (Inl i)
  with assms(3) have i: "i < 13" "to_freq (sfi_variants ! unat i) = Some freq"
    by (auto split: if_splits)
  then have "unat i < 13" by (simp add: word_less_nat_alt)
  then have tb: "take_bit 4 (ucast i :: u64) = ucast i" by (intro take_bit_ucast_small) auto
  have sf: "sfi_from_u8 i = Some (sfi_variants ! unat i)"
    using \<open>unat i < 13\<close> by (simp add: sfi_from_u8_def sfi_variants_def)
  have ne: "sfi_variants ! unat i \<noteq> FreqEscape" using i(2) by auto
  obtain r' where r': "read_bits 4 r = (Ok (ucast i), r')" "br_wf r'" "br_bits r' = rest"
    using read_bits_run [OF assms(1), of 4 "ucast i" rest] assms(2) Inl tb by auto
  from assms(4) [OF r'(2,3)] show ?thesis
    by (simp add: r'(1) bindE_def lift_result_def ok_or_def sf ne i)
next
  case (Inr f')
  with assms(3) have f': "f' < 0x1000000" "freq = f'" by (auto split: if_splits)
  then have "unat f' < 2 ^ 24" by (simp add: word_less_nat_alt)
  then have tb: "take_bit 24 (ucast f' :: u64) = ucast f'" by (intro take_bit_ucast_small) auto
  have t15: "take_bit 4 (15 :: u64) = 15" "sfi_from_u8 15 = Some FreqEscape"
    by (simp_all add: sfi_from_u8_def sfi_variants_def)
  have "P (bindE (bindE (read_bits 24) (\<lambda>x. ret (ucast x :: u32))) g r')"
    if "br_wf r'" "br_bits r' = to_bits 24 (ucast f' :: u64) @ rest" for r'
    unfolding bindE_assoc
  proof (rule read_bits_bindI [OF that])
    show "P (bindE (ret (ucast (take_bit 24 (ucast f' :: u64)) :: u32)) g r'')"
      if "br_wf r''" "br_bits r'' = rest" for r''
      using assms(4) [OF that] f'(2) by (simp add: tb bindE_def ret_def)
  qed simp
  note escape = this
  have "br_bits r = to_bits 4 (15 :: u64) @ to_bits 24 (ucast f' :: u64) @ rest"
    using assms(2) Inr by simp
  then show ?thesis
  proof (rule read_bits_bindI [OF assms(1)])
    show "P (bindE (lift_result (ok_or InvalidData (sfi_from_u8 (ucast (take_bit 4 (15 :: u64))))))
          (\<lambda>ix. bindE (if ix = FreqEscape then bindE (read_bits 24) (\<lambda>x. ret (ucast x :: u32))
            else lift_result (ok_or InvalidData (to_freq ix))) g) r'')"
      if "br_wf r''" "br_bits r'' = to_bits 24 (ucast f' :: u64) @ rest" for r''
      using escape [OF that] by (simp add: t15 ok_or_def run_simps)
  qed simp
qed

section \<open>Properties\<close>

text \<open>C21: \<^verbatim>\<open>PartialAudioSpecificConfig::parse\<close> returns the object type, the frequency and the
  channel configuration of every header laid out as in ISO/IEC 14496-3, whichever of the escape
  codes it uses and whatever follows it: object types up to 95 with 31 as the escape, table
  frequencies and explicit 24-bit ones.\<close>

theorem asc_parse_layout:
  assumes bits: "bits_of data = asc_bits t f ch @ rest"
    and t: "t < 31 \<or> 32 \<le> t \<and> t < 96" and f: "freq_of f = Some freq" and ch: "ch < 16"
  shows "asc_parse data = Ok \<lparr>asc_audio_object_type = aot_from_u16 t,
           asc_sampling_frequency = freq, asc_channel_configuration = ch\<rparr>"
proof -
  from ch have "unat ch < 2 ^ 4" by (simp add: word_less_nat_alt)
  then have tb: "take_bit 4 (ucast ch :: u64) = ucast ch" by (intro take_bit_ucast_small) auto
  show ?thesis
    unfolding asc_parse_def asc_parse_bits_def
    by (rule parse_aot [where t = t and P = "\<lambda>p. fst p = _"
          and rest = "freq_bits f @ to_bits 4 (ucast ch :: u64) @ rest"])
       (use bits t f tb in \<open>auto simp: asc_bits_def ret_def
          intro!: parse_freq [where P = "\<lambda>p. fst p = _", OF _ _ f]
            read_bits_bindI [where P = "\<lambda>p. fst p = _" and v = "ucast ch" and n = 4]\<close>)
qed

theorem asc_parse_layout_witness:
  "asc_parse [0x12, 0x10] = Ok \<lparr>asc_audio_object_type = AacLowComplexity,
     asc_sampling_frequency = 44100, asc_channel_configuration = 2\<rparr>"
proof -
  have "bits_of [0x12, 0x10] = asc_bits 2 (Inl 4) 2 @ [False, False, False]"
    by code_simp
  from asc_parse_layout [OF this, of 44100] show ?thesis
    by (simp add: aot_from_u16_def sfi_variants_def)
qed

end
