(* ===== verification/Amf0.thy ===== *)
theory Amf0
  imports Bytes_Util
begin

text \<open>
  The crate \<^verbatim>\<open>scuffle-amf0\<close> (\<^verbatim>\<open>crates/amf0/src\<close>): the AMF0 value type, its markers and errors, the
  decoder over a byte cursor and the encoder into a byte vector. Strings are their UTF-8 bytes;
  \<open>utf8_valid\<close> is the check of \<^verbatim>\<open>std::str::from_utf8\<close>. The mutually recursive decoder carries fuel,
  one unit per nested call; \<open>amf0_decode_consumes\<close> shows that one unit per remaining byte and one
  more are enough.
\<close>

section \<open>Values, markers and errors\<close>

datatype Amf0Marker = MNumber | MBoolean | MString | MObject | MMovieClipMarker | MNull | MUndefined
  | MReference | MEcmaArray | MObjectEnd | MStrictArray | MDate | MLongString | MUnsupported
  | MRecordset | MXmlDocument | MTypedObject | MAVMPlusObject

text \<open>The variants by discriminant, from 0 to 0x11.\<close>

definition marker_variants :: "Amf0Marker list" where
  "marker_variants = [MNumber, MBoolean, MString, MObject, MMovieClipMarker, MNull, MUndefined,
     MReference, MEcmaArray, MObjectEnd, MStrictArray, MDate, MLongString, MUnsupported, MRecordset,
     MXmlDocument, MTypedObject, MAVMPlusObject]"

definition marker_from :: "nat \<Rightarrow> Amf0Marker option" where
  "marker_from n = (if n < length marker_variants then Some (marker_variants ! n) else None)"

fun marker_code :: "Amf0Marker \<Rightarrow> nat" where
  "marker_code MNumber = 0" | "marker_code MBoolean = 1" | "marker_code MString = 2"
| "marker_code MObject = 3" | "marker_code MMovieClipMarker = 4" | "marker_code MNull = 5"
| "marker_code MUndefined = 6" | "marker_code MReference = 7" | "marker_code MEcmaArray = 8"
| "marker_code MObjectEnd = 9" | "marker_code MStrictArray = 10" | "marker_code MDate = 11"
| "marker_code MLongString = 12" | "marker_code MUnsupported = 13" | "marker_code MRecordset = 14"
| "marker_code MXmlDocument = 15" | "marker_code MTypedObject = 16"
| "marker_code MAVMPlusObject = 17"

datatype Amf0Value =
    Amf0Number f64
  | Amf0Boolean bool
  | Amf0String bytes
  | Amf0Object "(bytes \<times> Amf0Value) list"
  | Amf0Null
  | Amf0ObjectEnd
  | Amf0LongString bytes

fun amf0_marker :: "Amf0Value \<Rightarrow> Amf0Marker" where
  "amf0_marker (Amf0Boolean _) = MBoolean"
| "amf0_marker (Amf0Number _) = MNumber"
| "amf0_marker (Amf0String _) = MString"
| "amf0_marker (Amf0Object _) = MObject"
| "amf0_marker Amf0Null = MNull"
| "amf0_marker Amf0ObjectEnd = MObjectEnd"
| "amf0_marker (Amf0LongString _) = MLongString"

datatype Amf0ReadError = UnknownMarker u8 | UnsupportedType Amf0Marker | StringParseError
  | Amf0ReadIo io_error | WrongType Amf0Marker Amf0Marker

datatype Amf0WriteError = NormalStringTooLong | Amf0WriteIo io_error
  | WriteUnsupportedType Amf0Marker

section \<open>UTF-8\<close>

definition utf8_cont :: "u8 \<Rightarrow> bool" where
  "utf8_cont b \<longleftrightarrow> 0x80 \<le> b \<and> b \<le> 0xBF"

text \<open>The admissible second bytes after a three- or four-byte lead (no overlong forms, no
  surrogates, nothing above U+10FFFF).\<close>

definition utf8_second :: "u8 \<Rightarrow> u8 \<Rightarrow> bool" where
  "utf8_second a b \<longleftrightarrow> utf8_cont b \<and> (a = 0xE0 \<longrightarrow> 0xA0 \<le> b) \<and> (a = 0xED \<longrightarrow> b \<le> 0x9F)
     \<and> (a = 0xF0 \<longrightarrow> 0x90 \<le> b) \<and> (a = 0xF4 \<longrightarrow> b \<le> 0x8F)"

fun utf8_valid :: "bytes \<Rightarrow> bool" where
  "utf8_valid [] \<longleftrightarrow> True"
| "utf8_valid (a # bs) \<longleftrightarrow>
     (if a < 0x80 then utf8_valid bs
      else if 0xC2 \<le> a \<and> a \<le> 0xDF then
        (case bs of b # bs' \<Rightarrow> utf8_cont b \<and> utf8_valid bs' | _ \<Rightarrow> False)
      else if 0xE0 \<le> a \<and> a \<le> 0xEF then
        (case bs of b # c # bs' \<Rightarrow> utf8_second a b \<and> utf8_cont c \<and> utf8_valid bs' | _ \<Rightarrow> False)
      else if 0xF0 \<le> a \<and> a \<le> 0xF4 then
        (case bs of b # c # d # bs' \<Rightarrow>
           utf8_second a b \<and> utf8_cont c \<and> utf8_cont d \<and> utf8_valid bs' | _ \<Rightarrow> False)
      else False)"

definition from_utf8 :: "bytes \<Rightarrow> (Amf0ReadError, bytes) result" where
  "from_utf8 bs = (if utf8_valid bs then Ok bs else Err StringParseError)"

section \<open>Decoder\<close>

definition amf0_is_empty :: "cursor \<Rightarrow> bool" where
  "amf0_is_empty c \<longleftrightarrow> length (cur_data c) = cur_pos c"

text \<open>\<^verbatim>\<open>read_bytes\<close> moves the cursor first and slices afterwards: a length past the end is an
  out-of-range slice.\<close>

definition amf0_read_bytes :: "nat \<Rightarrow> (cursor, Amf0ReadError, bytes) prog" where
  "amf0_read_bytes len c =
     (let pos = cur_pos c in
      bindE (map_errE Amf0ReadIo (cursor_seek (SeekCurrent (int len))))
        (\<lambda>_ c'. if pos + len \<le> length (cur_data c')
                then (Ok (take len (drop pos (cur_data c'))), c') else (Panic, c')) c)"

definition amf0_read_number :: "(cursor, Amf0ReadError, f64) prog" where
  "amf0_read_number = map_errE Amf0ReadIo read_u64"

definition amf0_read_bool :: "(cursor, Amf0ReadError, bool) prog" where
  "amf0_read_bool = bindE (map_errE Amf0ReadIo read_u8) (\<lambda>b. ret (b > 0))"

definition amf0_read_string :: "(cursor, Amf0ReadError, bytes) prog" where
  "amf0_read_string =
     bindE (map_errE Amf0ReadIo read_u16) (\<lambda>l.
     bindE (amf0_read_bytes (unat l)) (\<lambda>bs. lift_result (from_utf8 bs)))"

definition amf0_read_long_string :: "(cursor, Amf0ReadError, bytes) prog" where
  "amf0_read_long_string =
     bindE (map_errE Amf0ReadIo read_u32) (\<lambda>l.
     bindE (amf0_read_bytes (unat l)) (\<lambda>bs. lift_result (from_utf8 bs)))"

definition is_read_object_eof :: "(cursor, Amf0ReadError, bool) prog" where
  "is_read_object_eof c =
     (let pos = cur_pos c in
      case read_u24 c of (r, c') \<Rightarrow>
        if (case r of Ok m \<Rightarrow> marker_from (unat m) = Some MObjectEnd | _ \<Rightarrow> False)
        then (Ok True, c')
        else bindE (map_errE Amf0ReadIo (cursor_seek (SeekStart pos))) (\<lambda>_. ret False) c')"

text \<open>\<^verbatim>\<open>read_ecma_array\<close> around its loop, and the match of \<^verbatim>\<open>decode\<close> on the marker, given the readers
  of objects and of array entries.\<close>

definition read_ecma_array ::
    "(nat \<Rightarrow> (cursor, Amf0ReadError, (bytes \<times> Amf0Value) list) prog)
     \<Rightarrow> (cursor, Amf0ReadError, (bytes \<times> Amf0Value) list) prog" where
  "read_ecma_array entries =
     bindE (map_errE Amf0ReadIo read_u32) (\<lambda>len.
     bindE (entries (unat len)) (\<lambda>properties.
     bindE (\<lambda>c. (Ok (), snd (is_read_object_eof c))) (\<lambda>_. ret properties)))"

fun amf0_read_marked ::
    "(cursor, Amf0ReadError, (bytes \<times> Amf0Value) list) prog
     \<Rightarrow> (nat \<Rightarrow> (cursor, Amf0ReadError, (bytes \<times> Amf0Value) list) prog)
     \<Rightarrow> Amf0Marker \<Rightarrow> (cursor, Amf0ReadError, Amf0Value) prog" where
  "amf0_read_marked obj entries MNumber = bindE amf0_read_number (\<lambda>x. ret (Amf0Number x))"
| "amf0_read_marked obj entries MBoolean = bindE amf0_read_bool (\<lambda>x. ret (Amf0Boolean x))"
| "amf0_read_marked obj entries MString = bindE amf0_read_string (\<lambda>x. ret (Amf0String x))"
| "amf0_read_marked obj entries MObject = bindE obj (\<lambda>x. ret (Amf0Object x))"
| "amf0_read_marked obj entries MNull = ret Amf0Null"
| "amf0_read_marked obj entries MEcmaArray =
     bindE (read_ecma_array entries) (\<lambda>x. ret (Amf0Object x))"
| "amf0_read_marked obj entries MLongString =
     bindE amf0_read_long_string (\<lambda>x. ret (Amf0LongString x))"
| "amf0_read_marked obj entries m = fail (UnsupportedType m)"

fun amf0_decode_fuel :: "nat \<Rightarrow> (cursor, Amf0ReadError, Amf0Value) prog"
  and read_object_loop :: "nat \<Rightarrow> (cursor, Amf0ReadError, (bytes \<times> Amf0Value) list) prog"
  and read_ecma_loop :: "nat \<Rightarrow> nat \<Rightarrow> (cursor, Amf0ReadError, (bytes \<times> Amf0Value) list) prog"
where
  "amf0_decode_fuel 0 = out_of_fuel"
| "amf0_decode_fuel (Suc fuel) =
     bindE (map_errE Amf0ReadIo read_u8) (\<lambda>marker.
       case marker_from (unat marker) of
         None \<Rightarrow> fail (UnknownMarker marker)
       | Some m \<Rightarrow> amf0_read_marked (read_object_loop fuel) (read_ecma_loop fuel) m)"
| "read_object_loop 0 = out_of_fuel"
| "read_object_loop (Suc fuel) =
     bindE is_read_object_eof (\<lambda>is_eof.
       if is_eof then ret []
       else bindE amf0_read_string (\<lambda>key.
            bindE (amf0_decode_fuel fuel) (\<lambda>val.
            bindE (read_object_loop fuel) (\<lambda>properties. ret ((key, val) # properties)))))"
| "read_ecma_loop 0 n = out_of_fuel"
| "read_ecma_loop (Suc fuel) n =
     (if n = 0 then ret []
      else bindE amf0_read_string (\<lambda>key.
           bindE (amf0_decode_fuel fuel) (\<lambda>val.
           bindE (read_ecma_loop fuel (n - 1)) (\<lambda>properties. ret ((key, val) # properties)))))"

definition amf0_decode :: "(cursor, Amf0ReadError, Amf0Value) prog" where
  "amf0_decode c = amf0_decode_fuel (cur_remaining c + 1) c"

fun decode_all_loop :: "nat \<Rightarrow> (cursor, Amf0ReadError, Amf0Value list) prog" where
  "decode_all_loop 0 = out_of_fuel"
| "decode_all_loop (Suc fuel) = (\<lambda>c.
     if amf0_is_empty c then (Ok [], c)
     else bindE amf0_decode (\<lambda>v. bindE (decode_all_loop fuel) (\<lambda>vs. ret (v # vs))) c)"

definition amf0_decode_all :: "(cursor, Amf0ReadError, Amf0Value list) prog" where
  "amf0_decode_all c = decode_all_loop (cur_remaining c + 1) c"

definition amf0_decode_with_type :: "Amf0Marker \<Rightarrow> (cursor, Amf0ReadError, Amf0Value) prog" where
  "amf0_decode_with_type specified_marker =
     bindE (map_errE Amf0ReadIo read_u8) (\<lambda>marker.
     bindE (map_errE Amf0ReadIo (cursor_seek (SeekCurrent (- 1)))) (\<lambda>_.
       case marker_from (unat marker) of
         None \<Rightarrow> fail (UnknownMarker marker)
       | Some m \<Rightarrow> if m \<noteq> specified_marker then fail (WrongType specified_marker m)
                   else amf0_decode))"

definition amf0_next :: "cursor \<Rightarrow> (Amf0ReadError, Amf0Value) result option \<times> cursor" where
  "amf0_next c = (if amf0_is_empty c then (None, c)
     else case amf0_decode c of (r, c') \<Rightarrow> (Some r, c'))"

section \<open>Encoder\<close>

definition marker_byte :: "Amf0Marker \<Rightarrow> u8" where
  "marker_byte m = word_of_nat (marker_code m)"

definition object_eof :: "(bytes, Amf0WriteError, unit) prog" where
  "object_eof = write_u24 (word_of_nat (marker_code MObjectEnd))"

definition encode_number :: "f64 \<Rightarrow> (bytes, Amf0WriteError, unit) prog" where
  "encode_number x = bindE (write_u8 (marker_byte MNumber)) (\<lambda>_. write_u64 x)"

definition encode_bool :: "bool \<Rightarrow> (bytes, Amf0WriteError, unit) prog" where
  "encode_bool b = bindE (write_u8 (marker_byte MBoolean)) (\<lambda>_. write_u8 (if b then 1 else 0))"

definition encode_string :: "bytes \<Rightarrow> (bytes, Amf0WriteError, unit) prog" where
  "encode_string s =
     (if length s > 65535 then fail NormalStringTooLong
      else bindE (write_u8 (marker_byte MString)) (\<lambda>_.
           bindE (write_u16 (word_of_nat (length s))) (\<lambda>_. write_all s)))"

definition encode_null :: "(bytes, Amf0WriteError, unit) prog" where
  "encode_null = write_u8 (marker_byte MNull)"

fun amf0_encode :: "Amf0Value \<Rightarrow> (bytes, Amf0WriteError, unit) prog" where
  "amf0_encode (Amf0Boolean b) = encode_bool b"
| "amf0_encode Amf0Null = encode_null"
| "amf0_encode (Amf0Number x) = encode_number x"
| "amf0_encode (Amf0String s) = encode_string s"
| "amf0_encode (Amf0Object properties) =
     bindE (write_u8 (marker_byte MObject)) (\<lambda>_.
     bindE (for_m properties (\<lambda>(key, v).
       bindE (write_u16 (word_of_nat (length key))) (\<lambda>_.
       bindE (write_all key) (\<lambda>_. amf0_encode v)))) (\<lambda>_. object_eof))"
| "amf0_encode v = fail (WriteUnsupportedType (amf0_marker v))"

definition encode_object :: "(bytes \<times> Amf0Value) list \<Rightarrow> (bytes, Amf0WriteError, unit) prog" where
  "encode_object properties = amf0_encode (Amf0Object properties)"

section \<open>The decoder makes progress\<close>

lemma consumes_read_bytes: "cur_ok c \<Longrightarrow> consumes n (amf0_read_bytes n) c"
  by (auto simp: consumes_def amf0_read_bytes_def bindE_def map_errE_def cursor_seek_def Let_def
      advances_def cur_ok_def nat_add_distrib)

lemma from_utf8_returns: "from_utf8 bs \<noteq> OutOfFuel"
  by (simp add: from_utf8_def)

lemma consumes_sliced:
  "cur_ok c \<Longrightarrow> consumes 0 (bindE (amf0_read_bytes n) (\<lambda>bs. lift_result (from_utf8 bs))) c"
  by (rule consumes_bindI [OF consumes_read_bytes, where k = 0])
     (simp_all add: consumes_lift from_utf8_returns)

lemma consumes_read_string: "cur_ok c \<Longrightarrow> consumes 2 amf0_read_string c"
  unfolding amf0_read_string_def
  by (rule consumes_bindI [where j = 2 and k = 0])
     (auto intro!: consumes_map_errE consumes_reads consumes_sliced)

lemma consumes_read_long_string: "cur_ok c \<Longrightarrow> consumes 4 amf0_read_long_string c"
  unfolding amf0_read_long_string_def
  by (rule consumes_bindI [where j = 4 and k = 0])
     (auto intro!: consumes_map_errE consumes_reads consumes_sliced)

lemma consumes_object_eof: "cur_ok c \<Longrightarrow> consumes 0 is_read_object_eof c"
  using consumes_reads(3) [of c]
  by (auto simp: consumes_def is_read_object_eof_def Let_def bindE_def map_errE_def cursor_seek_def
      ret_def advances_def cur_ok_def read_u24_def read_exact_def split: prod.splits result.splits)

lemma advances_remaining: "advances k c c' \<Longrightarrow> cur_remaining c' + k \<le> cur_remaining c"
  by (auto simp: advances_def cur_remaining_def)

lemma consumes_eof_ignored: "cur_ok c \<Longrightarrow> consumes 0 (\<lambda>c. (Ok (), snd (is_read_object_eof c))) c"
  by (auto simp: consumes_def is_read_object_eof_def Let_def bindE_def map_errE_def cursor_seek_def
      ret_def advances_def cur_ok_def read_u24_def read_exact_def split: prod.splits result.splits)

lemma consumes_ecma_array:
  assumes "cur_ok c" and "\<And>n c'. advances 0 c c' \<Longrightarrow> consumes 0 (entries n) c'"
  shows "consumes 0 (read_ecma_array entries) c"
  unfolding read_ecma_array_def
proof (rule consumes_bindI [where j = 4 and k = 0])
  show "consumes 4 (map_errE Amf0ReadIo read_u32) c"
    using assms(1) by (intro consumes_map_errE consumes_reads)
next
  fix x c' assume c': "cur_ok c'" "advances 4 c c'"
  show "consumes 0 (bindE (entries (unat x)) (\<lambda>properties.
     bindE (\<lambda>c. (Ok (), snd (is_read_object_eof c))) (\<lambda>_. ret properties))) c'"
    by (rule consumes_bindI [where j = 0 and k = 0])
       (use c' assms(2) in \<open>auto simp: advances_def intro!: consumes_map consumes_eof_ignored\<close>)
qed simp

lemma consumes_read_marked:
  assumes "cur_ok c" "consumes 0 obj c" and "\<And>n c'. advances 0 c c' \<Longrightarrow> consumes 0 (entries n) c'"
  shows "consumes 0 (amf0_read_marked obj entries m) c"
proof -
  note k0 = consumes_mono [where j = 0, OF _ le0]
  have "consumes 0 amf0_read_number c" "consumes 0 amf0_read_bool c"
    unfolding amf0_read_number_def amf0_read_bool_def
    using k0 [OF consumes_map_errE [OF consumes_reads(5) [OF assms(1)]]]
      k0 [OF consumes_map [OF consumes_map_errE [OF consumes_reads(1) [OF assms(1)]]]] by blast+
  moreover have "consumes 0 amf0_read_string c" "consumes 0 amf0_read_long_string c"
    using k0 consumes_read_string consumes_read_long_string assms(1) by blast+
  ultimately show ?thesis
    using assms consumes_ecma_array [OF assms(1,3)]
    by (cases m) (auto intro: consumes_map consumes_ret consumes_stop)
qed

lemma consumes_entry:
  assumes "cur_ok c" "cur_remaining c < Suc fuel"
    and "\<And>c. cur_ok c \<Longrightarrow> cur_remaining c < fuel \<Longrightarrow> consumes 1 (amf0_decode_fuel fuel) c"
    and "\<And>c. cur_ok c \<Longrightarrow> cur_remaining c < fuel \<Longrightarrow> consumes 0 rest c"
  shows "consumes 0 (bindE amf0_read_string (\<lambda>key. bindE (amf0_decode_fuel fuel) (\<lambda>val.
      bindE rest (\<lambda>properties. ret ((key, val) # properties))))) c"
proof (rule consumes_bindI [where j = 2 and k = 0, OF consumes_read_string [OF assms(1)]])
  fix key c' assume c': "cur_ok c'" "advances 2 c c'"
  then have rem: "cur_remaining c' < fuel" using advances_remaining [OF c'(2)] assms(2) by simp
  show "consumes 0 (bindE (amf0_decode_fuel fuel) (\<lambda>val.
      bindE rest (\<lambda>properties. ret ((key, val) # properties)))) c'"
  proof (rule consumes_bindI [where j = 1 and k = 0, OF assms(3) [OF c'(1) rem]])
    fix val c'' assume c'': "cur_ok c''" "advances 1 c' c''"
    then have "cur_remaining c'' < fuel" using advances_remaining [OF c''(2)] rem by simp
    with assms(4) c'' show "consumes 0 (bindE rest (\<lambda>properties. ret ((key, val) # properties))) c''"
      by (intro consumes_map) auto
  qed simp
qed simp

lemma amf0_decode_consumes:
  "\<forall>c. cur_ok c \<longrightarrow> cur_remaining c < fuel \<longrightarrow> consumes 1 (amf0_decode_fuel fuel) c
     \<and> consumes 0 (read_object_loop fuel) c \<and> (\<forall>n. consumes 0 (read_ecma_loop fuel n) c)"
proof (induction fuel)
  case (Suc fuel)
  show ?case
  proof (intro allI impI conjI)
    fix c assume c: "cur_ok c" "cur_remaining c < Suc fuel"
    show "consumes 1 (amf0_decode_fuel (Suc fuel)) c" unfolding amf0_decode_fuel.simps
    proof (rule consumes_bindI [where j = 1 and k = 0])
      fix x c' assume c': "cur_ok c'" "advances 1 c c'"
      then have rem: "cur_remaining c' < fuel" using advances_remaining [OF c'(2)] c(2) by simp
      have ecma: "consumes 0 (read_ecma_loop fuel n) c''" if "advances 0 c' c''" for n c''
        using Suc.IH rem advances_remaining [OF that] advances_cur_ok [OF that] by simp
      from c' rem Suc.IH show "consumes 0 (case marker_from (unat x) of None \<Rightarrow> fail (UnknownMarker x)
        | Some m \<Rightarrow> amf0_read_marked (read_object_loop fuel) (read_ecma_loop fuel) m) c'"
        by (auto intro!: consumes_stop consumes_read_marked ecma split: option.split)
    qed (use c in \<open>simp_all add: consumes_map_errE consumes_reads(1) [simplified]\<close>)
    show "consumes 0 (read_object_loop (Suc fuel)) c" unfolding read_object_loop.simps
    proof (rule consumes_bindI [where j = 0 and k = 0, OF consumes_object_eof [OF c(1)]])
      fix x c' assume c': "cur_ok c'" "advances 0 c c'"
      then have "cur_remaining c' < Suc fuel" using advances_remaining [OF c'(2)] c(2) by simp
      with c' Suc.IH show "consumes 0 (if x then ret [] else bindE amf0_read_string (\<lambda>key.
            bindE (amf0_decode_fuel fuel) (\<lambda>val.
            bindE (read_object_loop fuel) (\<lambda>properties. ret ((key, val) # properties))))) c'"
        by (auto intro!: consumes_ret consumes_entry)
    qed simp
    show "consumes 0 (read_ecma_loop (Suc fuel) n) c" for n
      using c Suc.IH by (auto intro!: consumes_ret consumes_entry)
  qed
qed simp

section \<open>The wire format\<close>

fun amf0_enc :: "Amf0Value \<Rightarrow> bytes" where
  "amf0_enc (Amf0Number x) = 0 # be64 x"
| "amf0_enc (Amf0Boolean b) = [1, if b then 1 else 0]"
| "amf0_enc (Amf0String s) = 2 # be16 (word_of_nat (length s)) @ s"
| "amf0_enc (Amf0Object ps) =
     3 # concat (map (\<lambda>(k, v). be16 (word_of_nat (length k)) @ k @ amf0_enc v) ps) @ [0, 0, 9]"
| "amf0_enc Amf0Null = [5]"
| "amf0_enc _ = []"

abbreviation entry_enc :: "bytes \<times> Amf0Value \<Rightarrow> bytes" where
  "entry_enc \<equiv> \<lambda>(k, v). be16 (word_of_nat (length k)) @ k @ amf0_enc v"

text \<open>The values the encoder accepts: no long string and no end marker anywhere, and no plain
  string above the limit of the format. \<open>amf0_wf\<close> adds that object keys respect the limit too and
  that all strings are UTF-8, which \<^verbatim>\<open>str\<close> guarantees.\<close>

fun amf0_supported :: "Amf0Value \<Rightarrow> bool" where
  "amf0_supported (Amf0String s) \<longleftrightarrow> length s \<le> 65535"
| "amf0_supported (Amf0Object ps) \<longleftrightarrow> (\<forall>(k, v) \<in> set ps. amf0_supported v)"
| "amf0_supported Amf0ObjectEnd \<longleftrightarrow> False"
| "amf0_supported (Amf0LongString _) \<longleftrightarrow> False"
| "amf0_supported _ \<longleftrightarrow> True"

fun amf0_wf :: "Amf0Value \<Rightarrow> bool" where
  "amf0_wf (Amf0String s) \<longleftrightarrow> length s \<le> 65535 \<and> utf8_valid s"
| "amf0_wf (Amf0Object ps) \<longleftrightarrow> (\<forall>(k, v) \<in> set ps. length k \<le> 65535 \<and> utf8_valid k \<and> amf0_wf v)"
| "amf0_wf Amf0ObjectEnd \<longleftrightarrow> False"
| "amf0_wf (Amf0LongString _) \<longleftrightarrow> False"
| "amf0_wf _ \<longleftrightarrow> True"

lemma amf0_wf_supported: "amf0_wf v \<Longrightarrow> amf0_supported v"
  by (induction v rule: amf0_supported.induct) auto

lemmas encode_defs = encode_bool_def encode_null_def encode_number_def encode_string_def
  marker_byte_def object_eof_def

lemma be24_9: "be24 9 = [0, 0, 9]"
  by (simp add: be_eval)

lemma amf0_encode_supported: "amf0_supported v \<Longrightarrow> amf0_encode v out = (Ok (), out @ amf0_enc v)"
proof (induction v arbitrary: out rule: amf0_encode.induct)
  case (5 ps)
  have "for_m ps (\<lambda>(key, v). bindE (write_u16 (word_of_nat (length key))) (\<lambda>_.
       bindE (write_all key) (\<lambda>_. amf0_encode v))) o' = (Ok (), o' @ concat (map entry_enc ps))" for o'
    using 5 by (intro for_m_write) (auto simp: run_simps)
  then show ?case by (simp add: run_simps encode_defs be24_9)
qed (auto simp: run_simps encode_defs)

lemma for_m_err:
  assumes "x \<in> set xs" "\<And>y out. y \<in> set xs \<Longrightarrow> (\<exists>out'. f y out = (Ok (), out')) \<or> (\<exists>e out'. f y out = (Err e, out'))"
    and "\<And>out. \<exists>e out'. f x out = (Err e, out')"
  shows "\<exists>e out'. for_m xs f out = (Err e, out')"
  using assms
proof (induction xs arbitrary: out)
  case (Cons y ys)
  from Cons.prems(2) [of y out] consider out' where "f y out = (Ok (), out')"
    | e out' where "f y out = (Err e, out')" by auto
  then show ?case
  proof cases
    case 1
    with Cons show ?thesis by (cases "y = x") (auto simp: bindE_def, metis Pair_inject result.distinct(1))
  qed (auto simp: run_simps)
qed simp

lemma amf0_encode_unsupported: "\<not> amf0_supported v \<Longrightarrow> \<exists>e out'. amf0_encode v out = (Err e, out')"
proof (induction v arbitrary: out rule: amf0_encode.induct)
  case (5 ps)
  let ?f = "\<lambda>(key, v). bindE (write_u16 (word_of_nat (length key))) (\<lambda>_.
       bindE (write_all key) (\<lambda>_. amf0_encode v))"
  from 5(2) obtain k v where kv: "(k, v) \<in> set ps" "\<not> amf0_supported v" by auto
  have ok: "?f (k', v') o' = amf0_encode v' (o' @ be16 (word_of_nat (length k')) @ k')" for k' v' o'
    by (simp add: run_simps)
  have "\<exists>e o''. for_m ps ?f o' = (Err e, o'')" for o'
  proof (rule for_m_err [OF kv(1)])
    show "(\<exists>out'. ?f y o'' = (Ok (), out')) \<or> (\<exists>e out'. ?f y o'' = (Err e, out'))"
      if y: "y \<in> set ps" for y o''
    proof -
      obtain k' v' where y': "y = (k', v')" by (cases y)
      show ?thesis
        using 5(1) [OF y y' [symmetric]] amf0_encode_supported [of v'] unfolding y' ok by blast
    qed
    show "\<exists>e out'. ?f (k, v) o'' = (Err e, out')" for o''
      using 5(1) [OF kv(1) refl kv(2)] ok by simp
  qed
  then obtain e o'' where "for_m ps ?f (out @ [3]) = (Err e, o'')" by blast
  then show ?case by (simp add: run_simps encode_defs)
qed (auto simp: run_simps encode_defs)

section \<open>Decoding an encoding\<close>

lemma amf0_read_string_curs [run_simps]:
  assumes "length s \<le> 65535" "utf8_valid s"
  shows "amf0_read_string (curs pre (be16 (word_of_nat (length s)) @ s @ post))
       = (Ok s, curs (pre @ be16 (word_of_nat (length s)) @ s) post)"
proof -
  have "unat (word_of_nat (length s) :: u16) = length s"
    using assms(1) by (simp add: unat_of_nat)
  moreover have "amf0_read_bytes (length s) (curs p (s @ post)) = (Ok s, curs (p @ s) post)" for p
    by (simp add: amf0_read_bytes_def bindE_def map_errE_def cursor_seek_def Let_def curs_def
        nat_add_distrib)
  ultimately show ?thesis
    using assms(2) by (simp add: amf0_read_string_def run_simps from_utf8_def)
qed

lemma marker_from_eof: "marker_from n = Some MObjectEnd \<longleftrightarrow> n = 9"
proof
  assume a: "marker_from n = Some MObjectEnd"
  then have "n < 18" by (auto simp: marker_from_def marker_variants_def split: if_splits)
  then have "n \<in> set [0..<18]" by simp
  with a show "n = 9" by (auto simp: upt_rec marker_from_def marker_variants_def)
qed (simp add: marker_from_def marker_variants_def)

lemma of_be_eq_9: "(of_be [a, b, x] :: u32) = 9 \<longleftrightarrow> a = 0 \<and> b = 0 \<and> x = 9"
proof
  assume "(of_be [a, b, x] :: u32) = 9"
  then show "a = 0 \<and> b = 0 \<and> x = 9" using be_bytes_of_be [of "[a, b, x]", where 'a = 32] by simp
qed (simp add: of_be_def)

lemma is_read_object_eof_curs:
  "is_read_object_eof (curs pre (a # b # x # rest))
   = (if a = 0 \<and> b = 0 \<and> x = 9 then (Ok True, curs (pre @ [a, b, x]) rest)
      else (Ok False, curs pre (a # b # x # rest)))"
proof -
  have "read_u24 (curs pre (a # b # x # rest)) = (Ok (of_be [a, b, x]), curs (pre @ [a, b, x]) rest)"
    using read_exact_curs [of "[a, b, x]" 3 pre rest] by (simp add: read_u24_def run_simps)
  moreover have "unat (of_be [a, b, x] :: u32) = 9 \<longleftrightarrow> a = 0 \<and> b = 0 \<and> x = 9"
    unfolding of_be_eq_9 [symmetric] by (simp add: word_unat_eq_iff)
  ultimately show ?thesis
    by (auto simp: is_read_object_eof_def marker_from_eof bindE_def map_errE_def cursor_seek_def
        ret_def curs_def)
qed

lemma entry_not_eof:
  assumes "length k \<le> 65535" "amf0_wf v"
  shows "is_read_object_eof (curs pre (entry_enc (k, v) @ rest))
       = (Ok False, curs pre (entry_enc (k, v) @ rest))"
proof -
  obtain a b where ab: "be16 (word_of_nat (length k)) = [a, b]" by (simp add: be_eval)
  obtain x xs where x: "k @ amf0_enc v = x # xs" "k = [] \<Longrightarrow> x \<noteq> 9"
    using assms(2) by (cases k; cases v) auto
  have "a \<noteq> 0 \<or> b \<noteq> 0" if "k \<noteq> []"
  proof (rule ccontr)
    assume "\<not> ?thesis"
    then have "be16 (word_of_nat (length k)) = be16 0" using ab by (simp add: be_eval)
    then have "(word_of_nat (length k) :: u16) = 0" by (metis of_be_be(1))
    then have "unat (word_of_nat (length k) :: u16) = 0" by simp
    with that assms(1) show False by (simp add: unat_of_nat)
  qed
  with x(2) have "\<not> (a = 0 \<and> b = 0 \<and> x = 9)" by blast
  then show ?thesis using ab x(1) is_read_object_eof_curs [of pre a b x "xs @ rest"] by simp
qed

lemma read_object_enc:
  assumes "\<And>k v pre post fuel. (k, v) \<in> set ps \<Longrightarrow> length (amf0_enc v) \<le> fuel \<Longrightarrow>
      amf0_decode_fuel fuel (curs pre (amf0_enc v @ post)) = (Ok v, curs (pre @ amf0_enc v) post)"
    and "\<forall>(k, v) \<in> set ps. length k \<le> 65535 \<and> utf8_valid k \<and> amf0_wf v"
    and "length (concat (map entry_enc ps)) < fuel"
  shows "read_object_loop fuel (curs pre (concat (map entry_enc ps) @ [0, 0, 9] @ post))
       = (Ok ps, curs (pre @ concat (map entry_enc ps) @ [0, 0, 9]) post)"
  using assms
proof (induction ps arbitrary: fuel pre)
  case Nil
  then obtain f where "fuel = Suc f" by (cases fuel) auto
  then show ?case by (simp add: run_simps is_read_object_eof_curs)
next
  case (Cons p ps)
  then obtain f where f: "fuel = Suc f" by (cases fuel) auto
  obtain k v where p: "p = (k, v)" by (cases p)
  let ?rest = "concat (map entry_enc ps) @ [0, 0, 9] @ post"
  from Cons.prems(2) p have kv: "length k \<le> 65535" "utf8_valid k" "amf0_wf v" by auto
  from Cons.prems(3) f p have len: "length (amf0_enc v) \<le> f" "length (concat (map entry_enc ps)) < f"
    by auto
  have dec: "amf0_decode_fuel f (curs pr (amf0_enc v @ ?rest)) = (Ok v, curs (pr @ amf0_enc v) ?rest)" for pr
    using Cons.prems(1) [of k v f pr ?rest] p len(1) by simp
  have IH: "read_object_loop f (curs pr ?rest)
      = (Ok ps, curs (pr @ concat (map entry_enc ps) @ [0, 0, 9]) post)" for pr
  proof (rule Cons.IH)
    show "\<And>k v pre post fuel. (k, v) \<in> set ps \<Longrightarrow> length (amf0_enc v) \<le> fuel \<Longrightarrow>
      amf0_decode_fuel fuel (curs pre (amf0_enc v @ post)) = (Ok v, curs (pre @ amf0_enc v) post)"
      by (rule Cons.prems(1)) auto
  qed (use Cons.prems(2) len(2) in auto)
  show ?case
    using entry_not_eof [OF kv(1,3), of pre ?rest] kv dec IH
    by (simp add: f p bindE_def amf0_read_string_curs ret_def)
qed

lemma amf0_decode_enc:
  "amf0_wf v \<Longrightarrow> length (amf0_enc v) \<le> fuel \<Longrightarrow>
   amf0_decode_fuel fuel (curs pre (amf0_enc v @ post)) = (Ok v, curs (pre @ amf0_enc v) post)"
proof (induction v arbitrary: fuel pre post rule: amf0_enc.induct)
  case (4 ps)
  then obtain f where f: "fuel = Suc f" by (cases fuel) auto
  have "read_object_loop f (curs (pre @ [3]) (concat (map entry_enc ps) @ [0, 0, 9] @ post))
       = (Ok ps, curs ((pre @ [3]) @ concat (map entry_enc ps) @ [0, 0, 9]) post)"
    using 4 f by (intro read_object_enc) auto
  then show ?case by (simp add: f run_simps marker_from_def marker_variants_def)
next
  case (1 x)
  then obtain f where "fuel = Suc f" by (cases fuel) auto
  then show ?case by (simp add: run_simps marker_from_def marker_variants_def amf0_read_number_def)
next
  case (2 b)
  then obtain f where "fuel = Suc f" by (cases fuel) auto
  then show ?case by (simp add: run_simps marker_from_def marker_variants_def amf0_read_bool_def)
next
  case (3 s)
  then obtain f where "fuel = Suc f" by (cases fuel) auto
  with 3 show ?case by (simp add: run_simps marker_from_def marker_variants_def)
next
  case 5
  then obtain f where "fuel = Suc f" by (cases fuel) auto
  then show ?case by (simp add: run_simps marker_from_def marker_variants_def)
qed auto

interpretation amf0: byte_codec amf0_wf amf0_enc amf0_decode
  by unfold_locales (simp add: amf0_decode_def amf0_decode_enc del: amf0_decode_fuel.simps)

lemma marker_enc:
  "amf0_wf v \<Longrightarrow> \<exists>b bs. amf0_enc v = b # bs \<and> marker_from (unat b) = Some (amf0_marker v)"
  by (cases v) (simp_all add: marker_from_def marker_variants_def)

lemma amf0_decode_with_type_enc:
  assumes "amf0_wf v"
  shows "amf0_decode_with_type m (curs pre (amf0_enc v @ post))
       = (if m = amf0_marker v then (Ok v, curs (pre @ amf0_enc v) post)
          else (Err (WrongType m (amf0_marker v)), curs pre (amf0_enc v @ post)))"
proof -
  from marker_enc [OF assms] obtain b bs where b: "amf0_enc v = b # bs" "marker_from (unat b) = Some (amf0_marker v)"
    by blast
  have "cursor_seek (SeekCurrent (- 1)) (curs (pre @ [b]) (bs @ post)) = (Ok (length pre), curs pre (amf0_enc v @ post))"
    by (simp add: cursor_seek_def curs_def b)
  then have "amf0_decode_with_type m (curs pre (amf0_enc v @ post))
      = (if amf0_marker v \<noteq> m then fail (WrongType m (amf0_marker v)) else amf0_decode) (curs pre (amf0_enc v @ post))"
    by (simp add: amf0_decode_with_type_def run_simps b)
  then show ?thesis using amf0.dec_enc [OF assms] by (auto simp: run_simps)
qed

section \<open>Properties\<close>

lemma decode_all_enc:
  "\<forall>v \<in> set vs. amf0_wf v \<Longrightarrow> length (concat (map amf0_enc vs)) < fuel \<Longrightarrow>
   decode_all_loop fuel (curs pre (concat (map amf0_enc vs))) = (Ok vs, curs (pre @ concat (map amf0_enc vs)) [])"
proof (induction vs arbitrary: fuel pre)
  case Nil
  then obtain f where "fuel = Suc f" by (cases fuel) auto
  then show ?case by (simp add: amf0_is_empty_def)
next
  case (Cons v vs)
  then obtain f where f: "fuel = Suc f" by (cases fuel) auto
  from Cons.prems have "amf0_enc v \<noteq> []" by (cases v) auto
  with f Cons.prems Cons.IH [of f "pre @ amf0_enc v"] show ?case
    by (simp add: amf0_is_empty_def bindE_def amf0.dec_enc ret_def length_greater_0_conv [symmetric]
        del: length_greater_0_conv)
qed

text \<open>C18: values written one after the other by \<^verbatim>\<open>Amf0Encoder::encode\<close> into a buffer are read back,
  in order and completely, by \<^verbatim>\<open>Amf0Decoder::decode_all\<close>: numbers (bit for bit), booleans, strings,
  nulls and objects nested to any depth, empty keys included.\<close>

theorem amf0_roundtrip:
  assumes "\<forall>v \<in> set vs. amf0_wf v"
  shows "\<exists>out c. for_m vs amf0_encode [] = (Ok (), out) \<and> amf0_decode_all (cursor_new out) = (Ok vs, c)"
proof -
  have "for_m vs amf0_encode [] = (Ok (), [] @ concat (map amf0_enc vs))"
    using assms by (intro for_m_write) (auto intro: amf0_encode_supported amf0_wf_supported)
  then show ?thesis
    using decode_all_enc [OF assms, of _ "[]"] by (simp add: amf0_decode_all_def cursor_new_curs del: decode_all_loop.simps)
qed

theorem amf0_roundtrip_witness:
  "\<exists>out c. for_m [Amf0String [0x63], Amf0Object [([0x61], Amf0Boolean True), ([], Amf0Null)]]
      amf0_encode [] = (Ok (), out)
    \<and> amf0_decode_all (cursor_new out)
      = (Ok [Amf0String [0x63], Amf0Object [([0x61], Amf0Boolean True), ([], Amf0Null)]], c)"
  using amf0_roundtrip [of "[Amf0String [0x63], Amf0Object [([0x61], Amf0Boolean True), ([], Amf0Null)]]"]
  by simp

text \<open>C19: the encoder accepts exactly the supported values, never panics, and on a supported value
  appends its wire format to the buffer; every other value is refused with an error.\<close>

theorem amf0_encode_outcome:
  "(amf0_supported v \<longrightarrow> amf0_encode v out = (Ok (), out @ amf0_enc v))
   \<and> (\<not> amf0_supported v \<longrightarrow> (\<exists>e out'. amf0_encode v out = (Err e, out')))"
  using amf0_encode_supported amf0_encode_unsupported by blast

theorem amf0_encode_outcome_witness:
  "amf0_encode (Amf0Object [([0x61], Amf0Null)]) [] = (Ok (), [3, 0, 1, 0x61, 5, 0, 0, 9])
   \<and> (\<exists>e out'. amf0_encode (Amf0LongString [0x61]) [] = (Err e, out'))"
  using amf0_encode_outcome [of "Amf0Object [([0x61], Amf0Null)]" "[]"]
    amf0_encode_outcome [of "Amf0LongString [0x61]" "[]"]
  by (simp add: be_eval)

lemma consumes_decode: "cur_ok c \<Longrightarrow> consumes 1 amf0_decode c"
  using amf0_decode_consumes [of "cur_remaining c + 1"]
  by (simp add: consumes_def amf0_decode_def del: amf0_decode_fuel.simps)

lemma consumes_decode_all: "cur_ok c \<Longrightarrow> consumes 0 amf0_decode_all c"
proof -
  have "consumes 0 (decode_all_loop fuel) c" if "cur_ok c" "cur_remaining c < fuel" for fuel c
    using that
  proof (induction fuel arbitrary: c)
    case (Suc fuel)
    have "consumes 0 (bindE amf0_decode (\<lambda>v. bindE (decode_all_loop fuel) (\<lambda>vs. ret (v # vs)))) c"
    proof (rule consumes_bindI [where j = 1 and k = 0, OF consumes_decode [OF Suc.prems(1)]])
      fix v c' assume c': "cur_ok c'" "advances 1 c c'"
      with Suc advances_remaining [OF c'(2)] show
        "consumes 0 (bindE (decode_all_loop fuel) (\<lambda>vs. ret (v # vs))) c'" by (intro consumes_map) auto
    qed simp
    then show ?case using Suc.prems by (auto simp: consumes_def advances_def cur_ok_def)
  qed simp
  from this [of c "cur_remaining c + 1"] show "cur_ok c \<Longrightarrow> consumes 0 amf0_decode_all c"
    by (simp add: consumes_def amf0_decode_all_def del: decode_all_loop.simps)
qed

lemma consumes_decode_with_type: "cur_ok c \<Longrightarrow> consumes 0 (amf0_decode_with_type m) c"
proof -
  assume c: "cur_ok c"
  show ?thesis
  proof (cases "has_remaining c")
    case False
    with c have "cur_pos c = length (cur_data c)" by (simp add: cur_ok_def has_remaining_def)
    then show ?thesis
      by (simp add: consumes_def amf0_decode_with_type_def read_u8_def read_exact_def bindE_def map_errE_def
          advances_def)
  next
    case True
    then have "read_u8 c = (Ok (cur_data c ! cur_pos c), c\<lparr>cur_pos := cur_pos c + 1\<rparr>)"
      by (simp add: read_u8_def read_exact_def bindE_def ret_def has_remaining_def cur_rest_def
          Suc_le_eq take_Suc_conv_app_nth hd_drop_conv_nth)
    then have "amf0_decode_with_type m c = (case marker_from (unat (cur_data c ! cur_pos c)) of
         None \<Rightarrow> fail (UnknownMarker (cur_data c ! cur_pos c))
       | Some m' \<Rightarrow> if m' \<noteq> m then fail (WrongType m m') else amf0_decode) c"
      by (simp add: amf0_decode_with_type_def bindE_def map_errE_def cursor_seek_def)
    then have "consumes 0 (amf0_decode_with_type m) c \<longleftrightarrow>
       consumes 0 (case marker_from (unat (cur_data c ! cur_pos c)) of
         None \<Rightarrow> fail (UnknownMarker (cur_data c ! cur_pos c))
       | Some m' \<Rightarrow> if m' \<noteq> m then fail (WrongType m m') else amf0_decode) c"
      by (simp add: consumes_def)
    also have "\<dots>" using c consumes_mono [OF consumes_decode [OF c], of 0]
      by (auto intro: consumes_stop split: option.split)
    finally show ?thesis .
  qed
qed

text \<open>A string whose announced length exceeds the bytes left makes the decoder panic: the
  cursor is moved first and the slice is taken out of range, where an error was meant.\<close>

lemma amf0_truncated_string_panics:
  assumes "length s < unat n"
  shows "fst (amf0_decode (curs pre (2 # be16 n @ s))) = Panic"
proof -
  have "amf0_read_bytes m (curs p s) = (Panic, (curs p s)\<lparr>cur_pos := length p + m\<rparr>)"
    if "length s < m" for p m
    using that by (simp add: amf0_read_bytes_def bindE_def map_errE_def cursor_seek_def Let_def
        curs_def nat_add_distrib)
  from this [OF assms] show ?thesis
    by (simp add: amf0_decode_def run_simps marker_from_def marker_variants_def
        amf0_read_string_def)
qed

lemma amf0_truncated_string_with_type:
  assumes "length s < unat n"
  shows "fst (amf0_decode_with_type MString (curs pre (2 # be16 n @ s))) = Panic"
proof -
  have "cursor_seek (SeekCurrent (- 1)) (curs (pre @ [2]) (be16 n @ s)) = (Ok (length pre), curs pre (2 # be16 n @ s))"
    by (simp add: cursor_seek_def curs_def)
  then have "amf0_decode_with_type MString (curs pre (2 # be16 n @ s)) = amf0_decode (curs pre (2 # be16 n @ s))"
    by (simp add: amf0_decode_with_type_def run_simps marker_from_def marker_variants_def)
  with amf0_truncated_string_panics [OF assms] show ?thesis by simp
qed

text \<open>C20: on every buffer, however malformed, \<^verbatim>\<open>decode\<close> and \<^verbatim>\<open>decode_all\<close> end after finitely many
  steps, with a value, an error or a panic; a successful \<^verbatim>\<open>decode\<close> has moved the cursor forward by at least
  one byte and not past the end. They do not always return a result: a string whose announced length exceeds the bytes
  left makes \<^verbatim>\<open>decode\<close> panic.\<close>

theorem amf0_decode_ends:
  assumes "cur_pos c \<le> length (cur_data c)"
  shows "fst (amf0_decode c) \<noteq> OutOfFuel \<and> fst (amf0_decode_all c) \<noteq> OutOfFuel
     \<and> (\<forall>v c'. amf0_decode c = (Ok v, c') \<longrightarrow> cur_data c' = cur_data c
          \<and> cur_pos c < cur_pos c' \<and> cur_pos c' \<le> length (cur_data c))
     \<and> (\<forall>n s. length s < unat n \<longrightarrow> fst (amf0_decode (cursor_new (2 # be16 n @ s))) = Panic)"
proof (intro conjI)
  show "\<forall>n s. length s < unat n \<longrightarrow> fst (amf0_decode (cursor_new (2 # be16 n @ s))) = Panic"
    using amf0_truncated_string_panics [of _ _ "[]"] by (simp add: cursor_new_curs)
qed (use consumes_decode [of c] consumes_decode_all [of c] assms
  in \<open>auto simp: consumes_def cur_ok_def advances_def split: prod.splits result.splits\<close>)

theorem amf0_decode_ends_witness:
  "fst (amf0_decode (cursor_new [3, 0, 0])) \<noteq> OutOfFuel
   \<and> fst (amf0_decode_all (cursor_new [3, 0, 0])) \<noteq> OutOfFuel
   \<and> fst (amf0_decode (cursor_new (2 # be16 5 @ [0x61]))) = Panic"
proof -
  have "length [0x61 :: u8] < unat (5 :: u16)" by simp
  with amf0_decode_ends [of "cursor_new [3, 0, 0]"] show ?thesis by (auto simp: cursor_new_def)
qed

end
