(* ===== verification/Rtmp_Chunk.thy ===== *)
theory Rtmp_Chunk
  imports Bytes_Util "HOL-Library.AList"
begin

text \<open>
  The RTMP chunk layer (\<^verbatim>\<open>crates/rtmp/src/chunk\<close>): the chunk headers, the stateful decoder that
  reassembles messages from interleaved chunk streams, and the encoder that splits a message into
  chunks. The two hash maps of the decoder are association lists with distinct keys. The reading
  loop terminates because every round that continues has removed at least the basic header from the
  buffer.
\<close>

section \<open>Headers and chunks\<close>

datatype MessageTypeID = SetChunkSizeId | AbortId | AcknowledgementId | UserControlEventId
  | WindowAcknowledgementSizeId | SetPeerBandwidthId | AudioId | VideoId | DataAMF3Id
  | SharedObjAMF3Id | CommandAMF3Id | DataAMF0Id | SharedObjAMF0Id | CommandAMF0Id | AggregateId

definition message_type_ids :: "(u8 \<times> MessageTypeID) list" where
  "message_type_ids = [(1, SetChunkSizeId), (2, AbortId), (3, AcknowledgementId),
     (4, UserControlEventId), (5, WindowAcknowledgementSizeId), (6, SetPeerBandwidthId),
     (8, AudioId), (9, VideoId), (15, DataAMF3Id), (16, SharedObjAMF3Id), (17, CommandAMF3Id),
     (18, DataAMF0Id), (19, SharedObjAMF0Id), (20, CommandAMF0Id), (22, AggregateId)]"

definition message_type_from_u8 :: "u8 \<Rightarrow> MessageTypeID option" where
  "message_type_from_u8 = map_of message_type_ids"

fun message_type_as_u8 :: "MessageTypeID \<Rightarrow> u8" where
  "message_type_as_u8 SetChunkSizeId = 1" | "message_type_as_u8 AbortId = 2"
| "message_type_as_u8 AcknowledgementId = 3" | "message_type_as_u8 UserControlEventId = 4"
| "message_type_as_u8 WindowAcknowledgementSizeId = 5" | "message_type_as_u8 SetPeerBandwidthId = 6"
| "message_type_as_u8 AudioId = 8" | "message_type_as_u8 VideoId = 9"
| "message_type_as_u8 DataAMF3Id = 15" | "message_type_as_u8 SharedObjAMF3Id = 16"
| "message_type_as_u8 CommandAMF3Id = 17" | "message_type_as_u8 DataAMF0Id = 18"
| "message_type_as_u8 SharedObjAMF0Id = 19" | "message_type_as_u8 CommandAMF0Id = 20"
| "message_type_as_u8 AggregateId = 22"

datatype ChunkType = Type0 | Type1 | Type2 | Type3

definition chunk_type_from_u8 :: "u8 \<Rightarrow> ChunkType option" where
  "chunk_type_from_u8 v = (if v = 0 then Some Type0 else if v = 1 then Some Type1
     else if v = 2 then Some Type2 else if v = 3 then Some Type3 else None)"

fun chunk_type_as_u8 :: "ChunkType \<Rightarrow> u8" where
  "chunk_type_as_u8 Type0 = 0" | "chunk_type_as_u8 Type1 = 1"
| "chunk_type_as_u8 Type2 = 2" | "chunk_type_as_u8 Type3 = 3"

record ChunkBasicHeader =
  cb_format :: ChunkType
  cb_chunk_stream_id :: u32

record ChunkMessageHeader =
  cm_timestamp :: u32
  cm_msg_length :: u32
  cm_msg_type_id :: MessageTypeID
  cm_msg_stream_id :: u32
  cm_was_extended_timestamp :: bool

definition is_extended_timestamp :: "ChunkMessageHeader \<Rightarrow> bool" where
  "is_extended_timestamp h \<longleftrightarrow> cm_timestamp h \<ge> 0xFFFFFF"

record Chunk =
  ck_basic_header :: ChunkBasicHeader
  ck_message_header :: ChunkMessageHeader
  ck_payload :: bytes

definition chunk_new :: "u32 \<Rightarrow> u32 \<Rightarrow> MessageTypeID \<Rightarrow> u32 \<Rightarrow> bytes \<Rightarrow> Chunk" where
  "chunk_new chunk_stream_id timestamp msg_type_id msg_stream_id payload =
     \<lparr>ck_basic_header = \<lparr>cb_format = Type0, cb_chunk_stream_id = chunk_stream_id\<rparr>,
      ck_message_header = \<lparr>cm_timestamp = timestamp, cm_msg_length = word_of_nat (length payload),
        cm_msg_type_id = msg_type_id, cm_msg_stream_id = msg_stream_id,
        cm_was_extended_timestamp = False\<rparr>,
      ck_payload = payload\<rparr>"

definition CHUNK_SIZE :: nat where "CHUNK_SIZE = 4096"
definition MAX_CHUNK_SIZE :: nat where "MAX_CHUNK_SIZE = 4096 * 16"
definition INIT_CHUNK_SIZE :: nat where "INIT_CHUNK_SIZE = 128"
definition MAX_PARTIAL_CHUNK_SIZE :: nat where "MAX_PARTIAL_CHUNK_SIZE = 10 * 1024 * 1024"
definition MAX_PREVIOUS_CHUNK_HEADERS :: nat where "MAX_PREVIOUS_CHUNK_HEADERS = 100"
definition MAX_PARTIAL_CHUNK_COUNT :: nat where "MAX_PARTIAL_CHUNK_COUNT = 4"

lemmas chunk_limits = MAX_CHUNK_SIZE_def INIT_CHUNK_SIZE_def MAX_PARTIAL_CHUNK_SIZE_def
  MAX_PREVIOUS_CHUNK_HEADERS_def MAX_PARTIAL_CHUNK_COUNT_def

datatype ChunkDecodeError = ChunkDecodeIO io_error | InvalidChunkType u8 | InvalidMessageTypeID u8
  | MissingPreviousChunkHeader u32 | TooManyPartialChunks | TooManyPreviousChunkHeaders
  | PartialChunkTooLarge nat | TimestampOverflow u32 u32

datatype ChunkEncodeError = UnknownReadState | ChunkEncodeIO io_error

section \<open>Decoder\<close>

record chunk_decoder =
  previous_chunk_headers :: "(u32 \<times> ChunkMessageHeader) list"
  partial_chunks :: "((u32 \<times> u32) \<times> bytes) list"
  max_chunk_size :: nat

definition chunk_decoder_default :: chunk_decoder where
  "chunk_decoder_default = \<lparr>previous_chunk_headers = [], partial_chunks = [],
     max_chunk_size = INIT_CHUNK_SIZE\<rparr>"

definition update_max_chunk_size :: "nat \<Rightarrow> chunk_decoder \<Rightarrow> bool \<times> chunk_decoder" where
  "update_max_chunk_size chunk_size d =
     (if \<not> (INIT_CHUNK_SIZE \<le> chunk_size \<and> chunk_size \<le> MAX_CHUNK_SIZE) then (False, d)
      else (True, d\<lparr>max_chunk_size := chunk_size\<rparr>))"

text \<open>The header readers fail with \<open>None\<close> when the buffer is too short and with \<open>Some e\<close> on a
  real error.\<close>

type_synonym 'a header_prog = "(cursor, ChunkDecodeError option, 'a) prog"

definition or_none :: "(cursor, io_error, 'a) prog \<Rightarrow> 'a header_prog" where
  "or_none = map_errE (\<lambda>_. None)"

definition ok_or_some :: "ChunkDecodeError \<Rightarrow> 'a option \<Rightarrow> 'a header_prog" where
  "ok_or_some e x = (case x of Some v \<Rightarrow> ret v | None \<Rightarrow> fail (Some e))"

definition read_header :: "ChunkBasicHeader header_prog" where
  "read_header =
     bindE (or_none read_u8) (\<lambda>byte.
     let format0 = drop_bit 6 byte AND 3 in
     bindE (ok_or_some (InvalidChunkType format0) (chunk_type_from_u8 format0)) (\<lambda>format.
     let csid0 = (ucast (byte AND 0x3F) :: u32) in
     bindE (if csid0 = 0 then bindE (or_none read_u8) (\<lambda>b. ret (64 + ucast b))
            else if csid0 = 1 then
              bindE (or_none read_u8) (\<lambda>b. bindE (or_none read_u8) (\<lambda>b'. ret (64 + ucast b + ucast b' * 256)))
            else ret csid0) (\<lambda>chunk_stream_id.
     ret \<lparr>cb_format = format, cb_chunk_stream_id = chunk_stream_id\<rparr>)))"

text \<open>The parts the header formats share: the extended timestamp, the length and type fields and
  the lookup of the previous header.\<close>

definition read_extended :: "u32 \<Rightarrow> (u32 \<times> bool) header_prog" where
  "read_extended t = (if t = 0xFFFFFF then bindE (or_none read_u32) (\<lambda>t'. ret (t', True)) else ret (t, False))"

definition read_msg_length :: "u32 header_prog" where
  "read_msg_length = bindE (or_none read_u24) (\<lambda>msg_length.
     if unat msg_length > MAX_PARTIAL_CHUNK_SIZE then fail (Some (PartialChunkTooLarge (unat msg_length)))
     else ret msg_length)"

definition read_msg_type_id :: "MessageTypeID header_prog" where
  "read_msg_type_id = bindE (or_none read_u8) (\<lambda>b.
     ok_or_some (InvalidMessageTypeID b) (message_type_from_u8 b))"

definition previous_header :: "chunk_decoder \<Rightarrow> ChunkBasicHeader \<Rightarrow> ChunkMessageHeader header_prog" where
  "previous_header d h = ok_or_some (MissingPreviousChunkHeader (cb_chunk_stream_id h))
     (map_of (previous_chunk_headers d) (cb_chunk_stream_id h))"

fun read_message_header_fmt ::
    "ChunkType \<Rightarrow> chunk_decoder \<Rightarrow> ChunkBasicHeader \<Rightarrow> ChunkMessageHeader header_prog" where
  "read_message_header_fmt Type0 d h =
     bindE (or_none read_u24) (\<lambda>timestamp.
     bindE read_msg_length (\<lambda>msg_length.
     bindE read_msg_type_id (\<lambda>msg_type_id.
     bindE (or_none read_u32_le) (\<lambda>msg_stream_id.
     bindE (read_extended timestamp) (\<lambda>(timestamp, was_extended_timestamp).
     ret \<lparr>cm_timestamp = timestamp, cm_msg_length = msg_length, cm_msg_type_id = msg_type_id,
          cm_msg_stream_id = msg_stream_id, cm_was_extended_timestamp = was_extended_timestamp\<rparr>)))))"
| "read_message_header_fmt Type1 d h =
     bindE (or_none read_u24) (\<lambda>timestamp_delta.
     bindE read_msg_length (\<lambda>msg_length.
     bindE read_msg_type_id (\<lambda>msg_type_id.
     bindE (read_extended timestamp_delta) (\<lambda>(timestamp_delta, was_extended_timestamp).
     bindE (previous_header d h) (\<lambda>prev.
     ret \<lparr>cm_timestamp = (if unat (cm_timestamp prev) + unat timestamp_delta < 2 ^ 32
            then cm_timestamp prev + timestamp_delta else cm_timestamp prev),
          cm_msg_length = msg_length, cm_msg_type_id = msg_type_id,
          cm_msg_stream_id = cm_msg_stream_id prev,
          cm_was_extended_timestamp = was_extended_timestamp\<rparr>)))))"
| "read_message_header_fmt Type2 d h =
     bindE (or_none read_u24) (\<lambda>timestamp_delta.
     bindE (read_extended timestamp_delta) (\<lambda>(timestamp_delta, was_extended_timestamp).
     bindE (previous_header d h) (\<lambda>prev.
     if unat (cm_timestamp prev) + unat timestamp_delta \<ge> 2 ^ 32 then panic
     else ret \<lparr>cm_timestamp = cm_timestamp prev + timestamp_delta,
          cm_msg_length = cm_msg_length prev, cm_msg_type_id = cm_msg_type_id prev,
          cm_msg_stream_id = cm_msg_stream_id prev,
          cm_was_extended_timestamp = was_extended_timestamp\<rparr>)))"
| "read_message_header_fmt Type3 d h =
     bindE (previous_header d h) (\<lambda>prev.
     bindE (if cm_was_extended_timestamp prev then bindE (or_none read_u32) (\<lambda>_. ret ()) else ret ())
       (\<lambda>_. ret prev))"

definition read_message_header :: "chunk_decoder \<Rightarrow> ChunkBasicHeader \<Rightarrow> ChunkMessageHeader header_prog" where
  "read_message_header d h = read_message_header_fmt (cb_format h) d h"

definition partial_len :: "chunk_decoder \<Rightarrow> u32 \<times> u32 \<Rightarrow> nat" where
  "partial_len d key = (case map_of (partial_chunks d) key of Some data \<Rightarrow> length data | None \<Rightarrow> 0)"

definition get_payload_range ::
    "chunk_decoder \<Rightarrow> ChunkBasicHeader \<Rightarrow> ChunkMessageHeader \<Rightarrow> (nat \<times> nat) header_prog" where
  "get_payload_range d header message_header =
     (let key = (cb_chunk_stream_id header, cm_msg_stream_id message_header)
      in if unat (cm_msg_length message_header) < partial_len d key then panic
         else let remaining_read_length = unat (cm_msg_length message_header) - partial_len d key;
                  need_read_length = min remaining_read_length (max_chunk_size d)
              in (\<lambda>c. let pos = cur_pos c in
                   bindE (or_none (cursor_seek (SeekCurrent (int need_read_length))))
                     (\<lambda>_. ret (pos, pos + need_read_length)) c))"

text \<open>The three header stages of a round of \<^verbatim>\<open>read_chunk\<close>.\<close>

definition read_chunk_headers ::
    "chunk_decoder \<Rightarrow> (ChunkBasicHeader \<times> ChunkMessageHeader \<times> nat \<times> nat) header_prog" where
  "read_chunk_headers d =
     bindE read_header (\<lambda>header.
     bindE (read_message_header d header) (\<lambda>message_header.
     bindE (get_payload_range d header message_header) (\<lambda>range.
     ret (header, message_header, range))))"

text \<open>What a round does with a payload: store the header, then return the chunk, collect it, or
  go on (\<open>None\<close>).\<close>

type_synonym chunk_outcome = "(ChunkDecodeError, Chunk option) result"

definition store_payload ::
    "ChunkBasicHeader \<Rightarrow> ChunkMessageHeader \<Rightarrow> bytes \<Rightarrow> chunk_decoder \<Rightarrow> chunk_outcome option \<times> chunk_decoder" where
  "store_payload header message_header payload d =
     (let key = (cb_chunk_stream_id header, cm_msg_stream_id message_header);
          entry = map_of (partial_chunks d) key
      in if entry = None \<and> length (partial_chunks d) \<ge> MAX_PARTIAL_CHUNK_COUNT
         then (Some (Err TooManyPartialChunks), d)
         else let partial_chunk = (case entry of Some p \<Rightarrow> p | None \<Rightarrow> []);
                  d1 = d\<lparr>partial_chunks := AList.update key partial_chunk (partial_chunks d)\<rparr>
              in if length partial_chunk + length payload > MAX_PARTIAL_CHUNK_SIZE
                 then (Some (Err (PartialChunkTooLarge (length partial_chunk + length payload))), d1)
                 else let partial_chunk' = partial_chunk @ payload
                      in if length partial_chunk' = unat (cm_msg_length message_header)
                         then (Some (Ok (Some \<lparr>ck_basic_header = header,
                                 ck_message_header = message_header, ck_payload = partial_chunk'\<rparr>)),
                               d1\<lparr>partial_chunks := AList.delete key (partial_chunks d1)\<rparr>)
                         else (None, d1\<lparr>partial_chunks :=
                                 AList.update key partial_chunk' (partial_chunks d1)\<rparr>))"

definition accept_payload ::
    "ChunkBasicHeader \<Rightarrow> ChunkMessageHeader \<Rightarrow> bytes \<Rightarrow> chunk_decoder \<Rightarrow> chunk_outcome option \<times> chunk_decoder" where
  "accept_payload header message_header payload d =
     (let csid = cb_chunk_stream_id header;
          count = (if map_of (previous_chunk_headers d) csid \<noteq> None
                   then length (previous_chunk_headers d) else length (previous_chunk_headers d) + 1)
      in if count > MAX_PREVIOUS_CHUNK_HEADERS then (Some (Err TooManyPreviousChunkHeaders), d)
         else let d1 = d\<lparr>previous_chunk_headers :=
                          AList.update csid message_header (previous_chunk_headers d)\<rparr>
              in if length payload = unat (cm_msg_length message_header)
                 then (Some (Ok (Some \<lparr>ck_basic_header = header, ck_message_header = message_header,
                         ck_payload = payload\<rparr>)), d1)
                 else store_payload header message_header payload d1)"

text \<open>One round of the loop of \<^verbatim>\<open>read_chunk\<close> on the decoder and the receive buffer.\<close>

definition read_chunk_round ::
    "chunk_decoder \<Rightarrow> bytes \<Rightarrow> chunk_outcome option \<times> chunk_decoder \<times> bytes" where
  "read_chunk_round d buffer =
     (case read_chunk_headers d (cursor_new buffer) of
        (Err None, _) \<Rightarrow> (Some (Ok None), d, buffer)
      | (Err (Some e), _) \<Rightarrow> (Some (Err e), d, buffer)
      | (Panic, _) \<Rightarrow> (Some Panic, d, buffer)
      | (OutOfFuel, _) \<Rightarrow> (Some OutOfFuel, d, buffer)
      | (Ok (header, message_header, start, end), cursor) \<Rightarrow>
          let position = cur_pos cursor
          in if position > length buffer then (Some (Ok None), d, buffer)
             else let data = take position buffer; buffer' = drop position buffer;
                      payload = take (end - start) (drop start data)
                  in case accept_payload header message_header payload d of (r, d') \<Rightarrow> (r, d', buffer'))"

section \<open>Readers on a growing buffer\<close>

text \<open>\<open>buf_stable m\<close>: an outcome of \<open>m\<close> other than "not enough data" is the same, and leaves the cursor at
  the same place, when more bytes are appended to the buffer. \<open>forward k m\<close>: a success moves the
  position by at least \<open>k\<close>.\<close>

definition buf_stable :: "'a header_prog \<Rightarrow> bool" where
  "buf_stable m \<longleftrightarrow> (\<forall>data pos more r c'. m \<lparr>cur_data = data, cur_pos = pos\<rparr> = (r, c') \<longrightarrow> r \<noteq> Err None \<longrightarrow>
     cur_data c' = data \<and> m \<lparr>cur_data = data @ more, cur_pos = pos\<rparr>
       = (r, \<lparr>cur_data = data @ more, cur_pos = cur_pos c'\<rparr>))"

definition forward :: "nat \<Rightarrow> 'a header_prog \<Rightarrow> bool" where
  "forward k m \<longleftrightarrow> (\<forall>c x c'. m c = (Ok x, c') \<longrightarrow> cur_pos c + k \<le> cur_pos c')"

lemma stable_pure [intro]: "buf_stable (ret x)" "buf_stable (fail e)" "buf_stable panic"
  by (auto simp: buf_stable_def ret_def fail_def panic_def)

lemma stable_bind [intro]:
  assumes "buf_stable m" "\<And>x. buf_stable (f x)"
  shows "buf_stable (bindE m f)"
  unfolding buf_stable_def
proof (intro allI impI)
  fix data pos more r c'
  assume run: "bindE m f \<lparr>cur_data = data, cur_pos = pos\<rparr> = (r, c')" and r: "r \<noteq> Err None"
  obtain r1 c1 where m: "m \<lparr>cur_data = data, cur_pos = pos\<rparr> = (r1, c1)" by fastforce
  have r1: "r1 \<noteq> Err None" using run r m by (auto simp: bindE_def)
  from assms(1) m r1 have c1: "c1 = \<lparr>cur_data = data, cur_pos = cur_pos c1\<rparr>"
    and m': "m \<lparr>cur_data = data @ more, cur_pos = pos\<rparr> = (r1, \<lparr>cur_data = data @ more, cur_pos = cur_pos c1\<rparr>)"
    by (auto simp: buf_stable_def)
  show "cur_data c' = data \<and> bindE m f \<lparr>cur_data = data @ more, cur_pos = pos\<rparr>
      = (r, \<lparr>cur_data = data @ more, cur_pos = cur_pos c'\<rparr>)"
  proof (cases r1)
    case (Ok x)
    with run m c1 have "f x \<lparr>cur_data = data, cur_pos = cur_pos c1\<rparr> = (r, c')" by (simp add: bindE_def)
    with assms(2) [of x] r Ok m' show ?thesis by (auto simp: buf_stable_def bindE_def)
  qed (use run m m' arg_cong [OF c1, of cur_data] in \<open>auto simp: bindE_def\<close>)
qed

lemma or_none_map: "or_none (bindE m (\<lambda>x. ret (g x))) = bindE (or_none m) (\<lambda>x. ret (g x))"
  by (rule ext) (simp add: or_none_def map_errE_def bindE_def ret_def split: prod.splits result.splits)

lemma stable_read_exact [intro]: "buf_stable (or_none (read_exact n))"
  by (auto simp: buf_stable_def or_none_def map_errE_def read_exact_def cur_rest_def)

lemma forward_pure [intro]: "forward 0 (ret x)" "forward k (fail e)" "forward k panic"
  by (auto simp: forward_def ret_def fail_def panic_def)

lemma forward_bind:
  assumes "forward j m" "\<And>x. forward k (f x)"
  shows "forward (j + k) (bindE m f)"
  unfolding forward_def
proof (intro allI impI)
  fix c y c'' assume "bindE m f c = (Ok y, c'')"
  then obtain x c' where "m c = (Ok x, c')" "f x c' = (Ok y, c'')" by (rule bindE_OkE)
  with assms have "cur_pos c + j \<le> cur_pos c'" "cur_pos c' + k \<le> cur_pos c''"
    unfolding forward_def by blast+
  then show "cur_pos c + (j + k) \<le> cur_pos c''" by linarith
qed

lemma forward_bind_0 [intro]: "forward 0 m \<Longrightarrow> (\<And>x. forward 0 (f x)) \<Longrightarrow> forward 0 (bindE m f)"
  using forward_bind [of 0 m 0 f] by simp

lemma forward_read_exact: "forward n (or_none (read_exact n))"
  by (auto simp: forward_def or_none_def map_errE_def read_exact_def split: if_splits)

lemma forward_mono: "forward k m \<Longrightarrow> j \<le> k \<Longrightarrow> forward j m"
  unfolding forward_def by (meson add_le_mono le_refl le_trans)

lemma or_none_reads:
  "buf_stable (or_none read_u8)" "buf_stable (or_none read_u24)" "buf_stable (or_none read_u32)"
  "buf_stable (or_none read_u32_le)" "forward 1 (or_none read_u8)"
  "forward 0 (or_none read_u8)" "forward 0 (or_none read_u24)" "forward 0 (or_none read_u32)"
  "forward 0 (or_none read_u32_le)"
proof -
  have fw: "forward k (bindE (or_none (read_exact n)) (\<lambda>x. ret (g x)))" if "k \<le> n"
    for k n and g :: "bytes \<Rightarrow> 'b"
    using forward_mono [OF forward_bind [OF forward_read_exact [of n] forward_pure(1)]] that by simp
  show "buf_stable (or_none read_u8)" "buf_stable (or_none read_u24)" "buf_stable (or_none read_u32)"
    "buf_stable (or_none read_u32_le)" "forward 1 (or_none read_u8)"
    "forward 0 (or_none read_u8)" "forward 0 (or_none read_u24)" "forward 0 (or_none read_u32)"
    "forward 0 (or_none read_u32_le)"
    unfolding read_u8_def read_u24_def read_u32_def read_u32_le_def or_none_map
    by (auto intro: fw)
qed

lemma ok_or_some_reads [intro]: "buf_stable (ok_or_some e x)" "forward 0 (ok_or_some e x)"
  by (auto simp: ok_or_some_def split: option.split)

lemma reads_branch [intro]:
  "buf_stable a \<Longrightarrow> buf_stable b \<Longrightarrow> buf_stable (if P then a else b)"
  "forward k c \<Longrightarrow> forward k d \<Longrightarrow> forward k (if P then c else d)"
  "(\<And>x y. buf_stable (f x y)) \<Longrightarrow> buf_stable (case p of (x, y) \<Rightarrow> f x y)"
  "(\<And>x y. forward k (g x y)) \<Longrightarrow> forward k (case p of (x, y) \<Rightarrow> g x y)"
  by (auto split: prod.split)

lemmas stable_intros = stable_pure stable_bind or_none_reads(1-4) ok_or_some_reads(1) reads_branch(1,3)

lemmas forward_intros = forward_pure forward_bind_0 or_none_reads(6-9) ok_or_some_reads(2)
  reads_branch(2,4)

lemma read_header_reads: "buf_stable read_header" "forward (1 + 0) read_header"
  unfolding read_header_def Let_def
  by (intro stable_intros, rule forward_bind [OF or_none_reads(5)], intro forward_intros)

lemma header_fields_reads:
  "buf_stable (read_extended t)" "buf_stable read_msg_length" "buf_stable read_msg_type_id"
  "buf_stable (previous_header d h)"
  "forward 0 (read_extended t)" "forward 0 read_msg_length" "forward 0 read_msg_type_id"
  "forward 0 (previous_header d h)"
  unfolding read_extended_def read_msg_length_def read_msg_type_id_def previous_header_def
  by (intro stable_intros)+ (intro forward_intros)+

lemma read_message_header_reads:
  "buf_stable (read_message_header d h)" "forward 0 (read_message_header d h)"
  unfolding read_message_header_def
  by (cases "cb_format h"; simp only: read_message_header_fmt.simps;
      intro stable_intros forward_intros header_fields_reads)+

lemma get_payload_range_reads:
  "buf_stable (get_payload_range d h m)" "forward 0 (get_payload_range d h m)"
  by (auto simp: buf_stable_def forward_def get_payload_range_def Let_def bindE_def or_none_def map_errE_def
      cursor_seek_def ret_def panic_def split: if_splits)

lemma read_chunk_headers_reads: "buf_stable (read_chunk_headers d)" "forward (1 + 0) (read_chunk_headers d)"
  unfolding read_chunk_headers_def
  by (intro stable_intros read_header_reads read_message_header_reads get_payload_range_reads,
      rule forward_bind [OF read_header_reads(2) [unfolded add_0_right]],
      intro forward_intros read_message_header_reads get_payload_range_reads)

section \<open>The reading loop\<close>

lemma accept_payload_not_waiting: "accept_payload h m payload d = (r, d') \<Longrightarrow> r \<noteq> Some (Ok None)"
  by (auto simp: accept_payload_def store_payload_def Let_def split: if_splits)

lemma round_progress:
  assumes "read_chunk_round d buffer = (None, d', buffer')"
  shows "length buffer' < length buffer"
proof -
  obtain r c where run: "read_chunk_headers d (cursor_new buffer) = (r, c)" by fastforce
  from assms obtain x where x: "r = Ok x" "cur_pos c \<le> length buffer" "buffer' = drop (cur_pos c) buffer"
    unfolding read_chunk_round_def run
    by (auto simp: Let_def split: result.splits option.splits if_splits prod.splits)
  from read_chunk_headers_reads(2) run x(1) have "0 < cur_pos c"
    unfolding forward_def by (fastforce simp: cursor_new_def)
  with x(2,3) show ?thesis by simp
qed

function read_chunk :: "chunk_decoder \<Rightarrow> bytes \<Rightarrow> chunk_outcome \<times> chunk_decoder \<times> bytes" where
  "read_chunk d buffer =
     (case read_chunk_round d buffer of
        (Some r, d', buffer') \<Rightarrow> (r, d', buffer')
      | (None, d', buffer') \<Rightarrow> read_chunk d' buffer')"
  by pat_completeness auto

termination read_chunk
  by (relation "measure (\<lambda>(d, buffer). length buffer)") (auto dest: round_progress [OF sym])

declare read_chunk.simps [simp del]

text \<open>The loop never fails for lack of fuel, and a returned message has shortened the buffer.\<close>

lemma halts_chunk_reads [halts_intros]: "halts (or_none (read_exact n))" "halts (ok_or_some e' v)"
  by (auto simp: halts_def or_none_def map_errE_def read_exact_def ok_or_some_def ret_def fail_def split: option.splits)

lemma halts_split [halts_intros]: "(\<And>x y. halts (f x y)) \<Longrightarrow> halts (case p of (x, y) \<Rightarrow> f x y)"
  by (simp split: prod.split)

lemma read_chunk_headers_halts: "halts (read_chunk_headers d)"
proof -
  have reads: "halts (or_none read_u8)" "halts (or_none read_u24)" "halts (or_none read_u32)"
    "halts (or_none read_u32_le)"
    unfolding read_u8_def read_u24_def read_u32_def read_u32_le_def or_none_map
    by (intro halts_intros)+
  have "halts read_header"
    unfolding read_header_def Let_def by (intro halts_intros reads)
  moreover have "halts (read_message_header d h)" for h
    unfolding read_message_header_def by (cases "cb_format h"; simp only: read_message_header_fmt.simps
      read_extended_def read_msg_length_def read_msg_type_id_def previous_header_def;
      intro halts_intros reads)
  moreover have "halts (get_payload_range d h m)" for h m
    by (simp add: halts_def get_payload_range_def Let_def bindE_def or_none_def map_errE_def
        cursor_seek_def ret_def panic_def)
  ultimately show ?thesis
    unfolding read_chunk_headers_def by (intro halts_intros)
qed

lemma round_shrinks:
  assumes "read_chunk_round d buffer = (r, d', buffer')"
  shows "r \<noteq> Some OutOfFuel \<and> length buffer' \<le> length buffer
     \<and> (\<forall>c. r = Some (Ok (Some c)) \<longrightarrow> length buffer' < length buffer)"
proof -
  obtain q c where run: "read_chunk_headers d (cursor_new buffer) = (q, c)" by fastforce
  have q: "q \<noteq> OutOfFuel" using read_chunk_headers_halts [of d] run by (metis halts_def fst_conv)
  have pos: "0 < cur_pos c" if "q = Ok x" for x
    using read_chunk_headers_reads(2) run that unfolding forward_def by (fastforce simp: cursor_new_def)
  have acc: "fst (accept_payload h m p d) \<noteq> Some OutOfFuel" for h m p
    by (auto simp: accept_payload_def store_payload_def Let_def)
  show ?thesis
  proof (cases q)
    case (Ok x)
    obtain h m a b where x: "x = (h, m, a, b)" by (metis prod_cases4)
    let ?p = "take (b - a) (drop a (take (cur_pos c) buffer))"
    obtain r2 d2 where a2: "accept_payload h m ?p d = (r2, d2)" by fastforce
    with acc [of h m ?p] have "r2 \<noteq> Some OutOfFuel" by simp
    moreover from assms a2 have "(r, buffer') = (if cur_pos c > length buffer then (Some (Ok None), buffer)
        else (r2, drop (cur_pos c) buffer))"
      by (auto simp: read_chunk_round_def run Ok x Let_def split: if_splits)
    ultimately show ?thesis using pos [OF Ok] by (auto split: if_splits)
  qed (use assms q in \<open>auto simp: read_chunk_round_def run split: option.splits\<close>)
qed

lemma read_chunk_shrinks:
  "read_chunk d buffer = (r, d', buffer') \<Longrightarrow>
   r \<noteq> OutOfFuel \<and> length buffer' \<le> length buffer \<and> (\<forall>c. r = Ok (Some c) \<longrightarrow> length buffer' < length buffer)"
proof (induction d buffer rule: read_chunk.induct)
  case (1 d buffer)
  obtain o1 d1 b1 where rd: "read_chunk_round d buffer = (o1, d1, b1)" by (metis prod_cases3)
  note sh = round_shrinks [OF rd]
  show ?case
  proof (cases o1)
    case None
    with rd 1(2) have "read_chunk d1 b1 = (r, d', buffer')" by (simp add: read_chunk.simps [of d])
    from 1(1) [OF rd [symmetric] None refl this] sh show ?thesis by auto
  next
    case (Some r1)
    with rd 1(2) have "r1 = r" "d1 = d'" "b1 = buffer'" by (auto simp: read_chunk.simps [of d])
    with sh Some show ?thesis by auto
  qed
qed

section \<open>Encoder\<close>

record chunk_encoder =
  ce_chunk_size :: nat

definition chunk_encoder_default :: chunk_encoder where
  "chunk_encoder_default = \<lparr>ce_chunk_size = INIT_CHUNK_SIZE\<rparr>"

definition set_chunk_size :: "nat \<Rightarrow> chunk_encoder \<Rightarrow> chunk_encoder" where
  "set_chunk_size chunk_size e = e\<lparr>ce_chunk_size := chunk_size\<rparr>"

type_synonym chunk_writer = "(bytes, ChunkEncodeError, unit) prog"

definition write_basic_header :: "ChunkType \<Rightarrow> u32 \<Rightarrow> chunk_writer" where
  "write_basic_header format csid =
     (let fmt = chunk_type_as_u8 format
      in if csid \<ge> 64 + 255 then
           bindE (write_u8 (push_bit 6 fmt OR 1)) (\<lambda>_.
           let csid' = csid - 64; div' = csid' div 256; rem' = csid' mod 256
           in bindE (write_u8 (ucast rem')) (\<lambda>_. write_u8 (ucast div')))
         else if csid \<ge> 64 then
           bindE (write_u8 (push_bit 6 fmt)) (\<lambda>_. write_u8 (ucast (csid - 64)))
         else write_u8 (push_bit 6 fmt OR ucast csid))"

definition write_extended_timestamp :: "u32 \<Rightarrow> chunk_writer" where
  "write_extended_timestamp timestamp = write_u32 timestamp"

definition write_message_header :: "ChunkMessageHeader \<Rightarrow> chunk_writer" where
  "write_message_header h =
     (let timestamp = (if cm_timestamp h \<ge> 0xFFFFFF then 0xFFFFFF else cm_timestamp h)
      in bindE (write_u24 timestamp) (\<lambda>_.
         bindE (write_u24 (cm_msg_length h)) (\<lambda>_.
         bindE (write_u8 (message_type_as_u8 (cm_msg_type_id h))) (\<lambda>_.
         bindE (write_u32_le (cm_msg_stream_id h)) (\<lambda>_.
         if is_extended_timestamp h then write_extended_timestamp (cm_timestamp h) else ret ())))))"

text \<open>The loop of \<^verbatim>\<open>write_chunk\<close>; it would not end for a chunk size of zero, hence the fuel.\<close>

fun write_payload_loop :: "nat \<Rightarrow> nat \<Rightarrow> u32 \<Rightarrow> ChunkMessageHeader \<Rightarrow> bytes \<Rightarrow> chunk_writer" where
  "write_payload_loop 0 chunk_size csid h payload = out_of_fuel"
| "write_payload_loop (Suc fuel) chunk_size csid h payload =
     (if payload = [] then ret ()
      else let cur_payload_size = (if length payload > chunk_size then chunk_size else length payload);
               payload_bytes = take cur_payload_size payload;
               payload' = drop cur_payload_size payload
           in bindE (write_all payload_bytes) (\<lambda>_.
              bindE (if payload' \<noteq> [] then
                       bindE (write_basic_header Type3 csid) (\<lambda>_.
                       if is_extended_timestamp h then write_extended_timestamp (cm_timestamp h) else ret ())
                     else ret ()) (\<lambda>_.
              write_payload_loop fuel chunk_size csid h payload')))"

definition write_chunk :: "chunk_encoder \<Rightarrow> Chunk \<Rightarrow> chunk_writer" where
  "write_chunk e chunk_info =
     (let csid = cb_chunk_stream_id (ck_basic_header chunk_info); h = ck_message_header chunk_info
      in bindE (write_basic_header Type0 csid) (\<lambda>_.
         bindE (write_message_header h) (\<lambda>_.
         write_payload_loop (length (ck_payload chunk_info) + 1) (ce_chunk_size e) csid h
           (ck_payload chunk_info))))"

section \<open>Reading from a stream\<close>

lemma round_waiting:
  "read_chunk_round d buffer = (Some (Ok None), d', buffer') \<Longrightarrow> d' = d \<and> buffer' = buffer"
  using accept_payload_not_waiting
  by (fastforce simp: read_chunk_round_def Let_def split: prod.splits result.splits option.splits if_splits)

lemma round_append:
  assumes "read_chunk_round d buffer = (r, d', buffer')" "r \<noteq> Some (Ok None)"
  shows "read_chunk_round d (buffer @ extra) = (r, d', buffer' @ extra)"
proof -
  obtain r1 c where run: "read_chunk_headers d (cursor_new buffer) = (r1, c)" by fastforce
  have "r1 \<noteq> Err None" using assms by (auto simp: read_chunk_round_def run)
  with read_chunk_headers_reads(1) [of d] run
  have "read_chunk_headers d (cursor_new (buffer @ extra)) = (r1, \<lparr>cur_data = buffer @ extra, cur_pos = cur_pos c\<rparr>)"
    by (simp add: buf_stable_def cursor_new_def)
  with assms show ?thesis
    by (auto simp: read_chunk_round_def run Let_def split: result.splits option.splits prod.splits if_splits)
qed

text \<open>C14: the decoder does not depend on how the byte stream is cut into packets. If it asks for more
  data, then reading after more bytes have arrived gives what reading everything at once would have
  given; and a chunk, an error or a panic it has produced is the same whatever follows in the
  buffer, which keeps exactly the bytes after it.\<close>

theorem read_chunk_append:
  assumes "read_chunk d buffer = (r, d', buffer')"
  shows "read_chunk d (buffer @ extra) = (if r = Ok None then read_chunk d' (buffer' @ extra)
           else (r, d', buffer' @ extra))"
  using assms
proof (induction d buffer rule: read_chunk.induct)
  case (1 d buffer)
  obtain o1 d1 b1 where rd: "read_chunk_round d buffer = (o1, d1, b1)" by (metis prod_cases3)
  show ?case
  proof (cases o1)
    case None
    with rd 1 have "read_chunk d1 b1 = (r, d', buffer')" by (simp add: read_chunk.simps [of d])
    with 1(1) [OF rd [symmetric] None refl]
    have "read_chunk d1 (b1 @ extra) = (if r = Ok None then read_chunk d' (buffer' @ extra)
           else (r, d', buffer' @ extra))" by blast
    moreover have "read_chunk d (buffer @ extra) = read_chunk d1 (b1 @ extra)"
      using round_append [OF rd, of extra] None by (subst read_chunk.simps) simp
    ultimately show ?thesis by simp
  next
    case (Some r1)
    with rd 1(2) have r1: "r1 = r" "d1 = d'" "b1 = buffer'" by (auto simp: read_chunk.simps [of d])
    show ?thesis
    proof (cases "r = Ok None")
      case True
      with rd Some r1 round_waiting [of d buffer d1 b1] show ?thesis by simp
    next
      case False
      with round_append [OF rd, of extra] Some r1 show ?thesis by (subst read_chunk.simps) simp
    qed
  qed
qed

section \<open>Bounded state\<close>

lemma sum_list_le_bound: "\<forall>x \<in> set xs. x \<le> b \<Longrightarrow> sum_list xs \<le> length xs * (b :: nat)"
  by (induction xs) auto

definition chunk_decoder_inv :: "chunk_decoder \<Rightarrow> bool" where
  "chunk_decoder_inv d \<longleftrightarrow>
     distinct (map fst (previous_chunk_headers d)) \<and> distinct (map fst (partial_chunks d))
     \<and> length (previous_chunk_headers d) \<le> MAX_PREVIOUS_CHUNK_HEADERS
     \<and> length (partial_chunks d) \<le> MAX_PARTIAL_CHUNK_COUNT
     \<and> (\<forall>(key, p) \<in> set (partial_chunks d). length p \<le> MAX_PARTIAL_CHUNK_SIZE)
     \<and> INIT_CHUNK_SIZE \<le> max_chunk_size d \<and> max_chunk_size d \<le> MAX_CHUNK_SIZE"

lemma update_length:
  "length (AList.update k v al) = (if map_of al k = None then length al + 1 else length al)"
  by (induction al) auto

lemma update_set_cases: "(k', v') \<in> set (AList.update k v al) \<Longrightarrow> (k', v') = (k, v) \<or> (k', v') \<in> set al"
  by (induction al) (auto split: if_splits)

lemma delete_subset: "set (AList.delete k al) \<subseteq> set al" "length (AList.delete k al) \<le> length al"
  by (auto simp: AList.delete_eq)

lemma inv_update_partial:
  assumes "chunk_decoder_inv d" "length p \<le> MAX_PARTIAL_CHUNK_SIZE"
    "map_of (partial_chunks d) key \<noteq> None \<or> length (partial_chunks d) < MAX_PARTIAL_CHUNK_COUNT"
  shows "chunk_decoder_inv (d\<lparr>partial_chunks := AList.update key p (partial_chunks d)\<rparr>)"
  using assms by (auto simp: chunk_decoder_inv_def update_length distinct_update dest!: update_set_cases)

lemma inv_delete_partial:
  assumes "chunk_decoder_inv d"
  shows "chunk_decoder_inv (d\<lparr>partial_chunks := AList.delete key (partial_chunks d)\<rparr>)"
  using assms delete_subset [of key "partial_chunks d"]
  by (auto simp: chunk_decoder_inv_def distinct_delete dest: order_trans)

lemma partial_entry:
  assumes "chunk_decoder_inv d" "map_of (partial_chunks d) key = Some p"
  shows "length p \<le> MAX_PARTIAL_CHUNK_SIZE"
  using assms by (auto simp: chunk_decoder_inv_def dest!: map_of_SomeD)

lemma store_payload_inv:
  assumes inv: "chunk_decoder_inv d" and run: "store_payload h m payload d = (r, d')"
  shows "chunk_decoder_inv d'"
proof -
  define key where "key = (cb_chunk_stream_id h, cm_msg_stream_id m)"
  define p where "p = (case map_of (partial_chunks d) key of Some p \<Rightarrow> p | None \<Rightarrow> [])"
  define d1 where "d1 = d\<lparr>partial_chunks := AList.update key p (partial_chunks d)\<rparr>"
  show ?thesis
  proof (cases "map_of (partial_chunks d) key = None \<and> length (partial_chunks d) \<ge> MAX_PARTIAL_CHUNK_COUNT")
    case True
    with run inv show ?thesis by (auto simp: store_payload_def Let_def key_def)
  next
    case False
    then have room: "map_of (partial_chunks d) key \<noteq> None \<or> length (partial_chunks d) < MAX_PARTIAL_CHUNK_COUNT"
      by auto
    have "length p \<le> MAX_PARTIAL_CHUNK_SIZE"
      using partial_entry [OF inv] by (auto simp: p_def split: option.split)
    from inv_update_partial [OF inv this room] have inv1: "chunk_decoder_inv d1" by (simp add: d1_def)
    have key1: "map_of (partial_chunks d1) key \<noteq> None" by (simp add: d1_def update_conv')
    have "d' = d1 \<or> d' = d1\<lparr>partial_chunks := AList.delete key (partial_chunks d1)\<rparr>
        \<or> d' = d1\<lparr>partial_chunks := AList.update key (p @ payload) (partial_chunks d1)\<rparr>
          \<and> length (p @ payload) \<le> MAX_PARTIAL_CHUNK_SIZE"
      using run False unfolding store_payload_def Let_def key_def [symmetric] p_def [symmetric] d1_def [symmetric]
      by (auto split: if_splits)
    then show ?thesis
      using inv1 inv_delete_partial [OF inv1] inv_update_partial [OF inv1 _ disjI1 [OF key1]] by blast
  qed
qed

lemma accept_payload_inv:
  assumes inv: "chunk_decoder_inv d" and run: "accept_payload h m payload d = (r, d')"
  shows "chunk_decoder_inv d'"
proof -
  define csid where "csid = cb_chunk_stream_id h"
  define d1 where "d1 = d\<lparr>previous_chunk_headers := AList.update csid m (previous_chunk_headers d)\<rparr>"
  define count where "count = (if map_of (previous_chunk_headers d) csid \<noteq> None
      then length (previous_chunk_headers d) else length (previous_chunk_headers d) + 1)"
  note unfold = accept_payload_def [of h m payload d, unfolded Let_def,
      folded csid_def, folded d1_def count_def]
  show ?thesis
  proof (cases "count > MAX_PREVIOUS_CHUNK_HEADERS")
    case True
    with run inv show ?thesis by (simp add: unfold)
  next
    case False
    with inv have inv1: "chunk_decoder_inv d1"
      by (auto simp: chunk_decoder_inv_def d1_def count_def update_length distinct_update split: if_splits)
    from run False have "d' = d1 \<or> store_payload h m payload d1 = (r, d')"
      by (auto simp: unfold split: if_splits)
    with inv1 store_payload_inv show ?thesis by blast
  qed
qed

lemma round_inv:
  "chunk_decoder_inv d \<Longrightarrow> read_chunk_round d buffer = (r, d', buffer') \<Longrightarrow> chunk_decoder_inv d'"
  by (auto simp: read_chunk_round_def Let_def dest: accept_payload_inv
      split: prod.splits result.splits option.splits if_splits)

lemma read_chunk_inv:
  "chunk_decoder_inv d \<Longrightarrow> read_chunk d buffer = (r, d', buffer') \<Longrightarrow> chunk_decoder_inv d'"
proof (induction d buffer rule: read_chunk.induct)
  case (1 d buffer)
  obtain o1 d1 b1 where rd: "read_chunk_round d buffer = (o1, d1, b1)" by (metis prod_cases3)
  with round_inv [OF 1(2) rd] 1 show ?case
    by (cases o1) (auto simp: read_chunk.simps [of d])
qed

text \<open>C13: the memory of the decoder is bounded whatever the peer sends: starting from any state
  within the limits (the initial state is one), reading any bytes keeps at most 100 remembered
  headers and at most 4 partial messages, each of at most 10 MiB, under distinct keys, hence at
  most 40 MiB of payload, and so does changing the chunk size.\<close>

theorem chunk_decoder_bounded:
  "chunk_decoder_inv chunk_decoder_default
   \<and> (chunk_decoder_inv d \<longrightarrow> chunk_decoder_inv (fst (snd (read_chunk d buffer)))
        \<and> chunk_decoder_inv (snd (update_max_chunk_size n d))
        \<and> sum_list (map (length \<circ> snd) (partial_chunks d)) \<le> 4 * (10 * 1024 * 1024))"
proof (intro conjI impI)
  show "chunk_decoder_inv chunk_decoder_default"
    by (simp add: chunk_decoder_inv_def chunk_decoder_default_def chunk_limits)
next
  assume inv: "chunk_decoder_inv d"
  then show "chunk_decoder_inv (fst (snd (read_chunk d buffer)))"
    by (metis prod.collapse read_chunk_inv)
  from inv show "chunk_decoder_inv (snd (update_max_chunk_size n d))"
    by (simp add: update_max_chunk_size_def chunk_decoder_inv_def)
  from inv have "\<forall>x \<in> set (map (length \<circ> snd) (partial_chunks d)). x \<le> MAX_PARTIAL_CHUNK_SIZE"
    "length (partial_chunks d) \<le> MAX_PARTIAL_CHUNK_COUNT"
    by (auto simp: chunk_decoder_inv_def)
  then show "sum_list (map (length \<circ> snd) (partial_chunks d)) \<le> 4 * (10 * 1024 * 1024)"
    using sum_list_le_bound [of "map (length \<circ> snd) (partial_chunks d)" MAX_PARTIAL_CHUNK_SIZE]
    by (simp add: chunk_limits)
qed

theorem chunk_decoder_bounded_witness:
  "chunk_decoder_inv (fst (snd (read_chunk chunk_decoder_default [3, 0, 0, 0])))"
  using chunk_decoder_bounded [of chunk_decoder_default "[3, 0, 0, 0]" 0] by blast

section \<open>Reading what the encoder writes\<close>

definition basic_enc :: "ChunkType \<Rightarrow> u32 \<Rightarrow> bytes" where
  "basic_enc format csid =
     (if csid \<ge> 319 then [push_bit 6 (chunk_type_as_u8 format) OR 1, ucast ((csid - 64) mod 256),
                          ucast ((csid - 64) div 256)]
      else if csid \<ge> 64 then [push_bit 6 (chunk_type_as_u8 format), ucast (csid - 64)]
      else [push_bit 6 (chunk_type_as_u8 format) OR ucast csid])"

definition ext_enc :: "u32 \<Rightarrow> bytes" where
  "ext_enc timestamp = (if timestamp \<ge> 0xFFFFFF then be32 timestamp else [])"

definition message_enc :: "ChunkMessageHeader \<Rightarrow> bytes" where
  "message_enc h = be24 (if cm_timestamp h \<ge> 0xFFFFFF then 0xFFFFFF else cm_timestamp h)
     @ be24 (cm_msg_length h) @ [message_type_as_u8 (cm_msg_type_id h)] @ le32 (cm_msg_stream_id h)
     @ ext_enc (cm_timestamp h)"

lemma write_basic_header_run [run_simps]:
  "write_basic_header format csid out = (Ok (), out @ basic_enc format csid)"
  by (simp add: write_basic_header_def basic_enc_def run_simps Let_def)

lemma write_ext_run [run_simps]:
  "(if is_extended_timestamp h then write_extended_timestamp (cm_timestamp h) else ret ()) out
   = (Ok (), out @ ext_enc (cm_timestamp h))"
  by (simp add: is_extended_timestamp_def write_extended_timestamp_def ext_enc_def run_simps)

lemma write_message_header_run [run_simps]:
  assumes "cm_msg_length h < 0x1000000"
  shows "write_message_header h out = (Ok (), out @ message_enc h)"
proof -
  have "(if 0xFFFFFF \<le> cm_timestamp h then 0xFFFFFF else cm_timestamp h) < 0x1000000"
    by (auto simp: word_less_nat_alt word_le_nat_alt)
  with assms show ?thesis
    by (simp add: write_message_header_def message_enc_def Let_def run_simps)
qed

text \<open>The bytes of a message: the payload cut into pieces of the chunk size, with a type-3 header
  before every piece but the first.\<close>

function pieces_enc :: "nat \<Rightarrow> u32 \<Rightarrow> u32 \<Rightarrow> bytes \<Rightarrow> bytes" where
  "pieces_enc cs csid timestamp payload =
     (if cs = 0 \<or> length payload \<le> cs then payload
      else take cs payload @ basic_enc Type3 csid @ ext_enc timestamp
           @ pieces_enc cs csid timestamp (drop cs payload))"
  by pat_completeness auto

termination pieces_enc
  by (relation "measure (\<lambda>(cs, csid, timestamp, payload). length payload)") auto

declare pieces_enc.simps [simp del]

lemma write_payload_loop_run:
  assumes "0 < cs" "length payload < fuel"
  shows "write_payload_loop fuel cs csid h payload out
       = (Ok (), out @ pieces_enc cs csid (cm_timestamp h) payload)"
  using assms
proof (induction fuel arbitrary: payload out)
  case (Suc fuel)
  show ?case
  proof (cases "length payload \<le> cs")
    case True
    with Suc.prems obtain f where "payload = [] \<or> fuel = Suc f" by (cases fuel) auto
    with True show ?thesis by (auto simp: pieces_enc.simps run_simps Let_def)
  next
    case False
    with Suc.prems Suc.IH [of "drop cs payload"] show ?thesis
      by (subst pieces_enc.simps) (auto simp: run_simps Let_def)
  qed
qed simp

lemma write_chunk_run:
  assumes "0 < ce_chunk_size e" "cm_msg_length (ck_message_header ck) < 0x1000000"
  shows "write_chunk e ck out = (Ok (), out
     @ basic_enc Type0 (cb_chunk_stream_id (ck_basic_header ck)) @ message_enc (ck_message_header ck)
     @ pieces_enc (ce_chunk_size e) (cb_chunk_stream_id (ck_basic_header ck))
         (cm_timestamp (ck_message_header ck)) (ck_payload ck))"
  using assms by (simp add: write_chunk_def Let_def run_simps write_payload_loop_run
      del: write_payload_loop.simps)

lemma or_none_run [run_simps]:
  "m c = (Ok x, c') \<Longrightarrow> or_none m c = (Ok x, c')"
  "m c = (Err e, c') \<Longrightarrow> or_none m c = (Err None, c')"
  by (simp_all add: or_none_def run_simps)

lemma header_byte_word:
  fixes f c :: u8
  assumes "take_bit 2 f = f" "take_bit 6 c = c"
  shows "drop_bit 6 (push_bit 6 f OR c) AND mask 2 = f" "(push_bit 6 f OR c) AND mask 6 = c"
proof -
  have f: "i < 2" if "bit f i" for i using that assms(1) by (metis bit_take_bit_iff)
  have c: "i < 6" if "bit c i" for i using that assms(2) by (metis bit_take_bit_iff)
  show "drop_bit 6 (push_bit 6 f OR c) AND mask 2 = f"
    by (rule bit_word_eqI) (auto simp: bit_simps dest: f c)
  show "(push_bit 6 f OR c) AND mask 6 = c"
    by (rule bit_word_eqI) (auto simp: bit_simps dest: f c)
qed

lemma header_byte:
  assumes "take_bit 6 c = c"
  shows "drop_bit 6 (push_bit 6 (chunk_type_as_u8 f) OR c) AND 3 = chunk_type_as_u8 f"
    "(push_bit 6 (chunk_type_as_u8 f) OR c) AND 0x3F = c"
proof -
  have m: "(3 :: u8) = mask 2" "(0x3F :: u8) = mask 6" by (simp_all add: mask_eq_decr_exp)
  have "take_bit 2 (chunk_type_as_u8 f) = chunk_type_as_u8 f" by (cases f) simp_all
  from header_byte_word [OF this assms]
  show "drop_bit 6 (push_bit 6 (chunk_type_as_u8 f) OR c) AND 3 = chunk_type_as_u8 f"
    "(push_bit 6 (chunk_type_as_u8 f) OR c) AND 0x3F = c" unfolding m .
qed

lemma chunk_type_roundtrip [simp]: "chunk_type_from_u8 (chunk_type_as_u8 f) = Some f"
  by (cases f) (simp_all add: chunk_type_from_u8_def)

lemma message_type_roundtrip [simp]: "message_type_from_u8 (message_type_as_u8 t) = Some t"
  by (cases t) (simp_all add: message_type_from_u8_def message_type_ids_def)

lemma ok_or_some_run [run_simps]:
  "ok_or_some e (Some x) c = (Ok x, c)" "ok_or_some e None c = (Err (Some e), c)"
  by (simp_all add: ok_or_some_def run_simps)

lemma csid_split:
  assumes "319 \<le> csid" "csid \<le> (65599 :: u32)"
  shows "64 + ucast (ucast ((csid - 64) mod 256) :: u8)
       + ucast (ucast ((csid - 64) div 256) :: u8) * 256 = csid"
proof -
  define n where "n = unat csid - 64"
  have n: "n < 65536" "unat csid = 64 + n" using assms by (auto simp: n_def word_le_nat_alt)
  have sub: "unat (csid - 64) = n" using assms by (simp add: n_def unat_sub word_le_nat_alt)
  define a b where "a = (ucast ((csid - 64) mod 256) :: u8)" and "b = (ucast ((csid - 64) div 256) :: u8)"
  have a: "unat a = n mod 256" and b: "unat b = n div 256"
    using n unfolding a_def b_def by (subst unat_ucast_small; simp add: unat_mod unat_div sub)+
  have ab: "unat a + 256 * unat b = n" unfolding a b by simp
  have "64 + ucast a + ucast b * 256 = (word_of_nat (64 + unat a + 256 * unat b) :: u32)"
    by (simp add: mult.commute)
  also have "\<dots> = word_of_nat (unat csid)" using n ab by (simp add: add.assoc)
  finally show ?thesis unfolding a_def b_def by simp
qed

lemma csid_mid:
  assumes "64 \<le> csid" "csid < (319 :: u32)"
  shows "64 + ucast (ucast (csid - 64) :: u8) = csid"
proof -
  have "unat (csid - 64) < 2 ^ LENGTH(8)"
    using assms by (simp add: unat_sub word_le_nat_alt word_less_nat_alt)
  then have "unat (ucast (csid - 64) :: u8) = unat (csid - 64)" by (rule unat_ucast_small)
  then have "unat (ucast (ucast (csid - 64) :: u8) :: u32) = unat (csid - 64)"
    by (subst unat_ucast_up) simp_all
  then have "ucast (ucast (csid - 64) :: u8) = csid - 64" by (simp only: word_unat_eq_iff)
  then show ?thesis by simp
qed

lemma csid_small:
  assumes "2 \<le> csid" "csid < (64 :: u32)"
  shows "take_bit 6 (ucast csid :: u8) = ucast csid" "ucast (ucast csid :: u8) = csid"
    "csid \<noteq> 0" "csid \<noteq> 1"
proof -
  have u: "unat (ucast csid :: u8) = unat csid"
    using assms(2) by (intro unat_ucast_small) (simp add: word_less_nat_alt)
  with assms(2) show "take_bit 6 (ucast csid :: u8) = ucast csid"
    by (simp add: word_unat_eq_iff unsigned_take_bit_eq take_bit_nat_eq_self word_less_nat_alt)
  have "unat (ucast (ucast csid :: u8) :: u32) = unat csid" using u by (subst unat_ucast_up) simp_all
  then show "ucast (ucast csid :: u8) = csid" by (simp only: word_unat_eq_iff)
  show "csid \<noteq> 0" "csid \<noteq> 1" using assms(1) by (auto simp: word_le_nat_alt)
qed

lemma read_header_enc [run_simps]:
  assumes "2 \<le> csid" "csid \<le> 65599"
  shows "read_header (curs pre (basic_enc f csid @ post))
       = (Ok \<lparr>cb_format = f, cb_chunk_stream_id = csid\<rparr>, curs (pre @ basic_enc f csid) post)"
proof -
  note runs = read_header_def basic_enc_def Let_def bindE_def or_none_def map_errE_def read_u8_curs
    ok_or_some_run ret_run
  consider "319 \<le> csid" | "64 \<le> csid" "csid < 319" | "csid < 64" by fastforce
  then show ?thesis
  proof cases
    case 1
    with csid_split [OF 1 assms(2)] header_byte [of 1 f] show ?thesis by (simp add: runs)
  next
    case 2
    then have "\<not> 319 \<le> csid" by simp
    with 2 csid_mid [OF 2] header_byte [of 0 f] show ?thesis by (simp add: runs)
  next
    case 3
    then have "\<not> 319 \<le> csid" "\<not> 64 \<le> csid" by (auto simp: word_less_nat_alt word_le_nat_alt)
    with csid_small [OF assms(1) 3] header_byte [of "ucast csid" f] show ?thesis by (simp add: runs)
  qed
qed

text \<open>A message header as the decoder remembers it.\<close>

definition decoded_header :: "ChunkMessageHeader \<Rightarrow> ChunkMessageHeader" where
  "decoded_header h = h\<lparr>cm_was_extended_timestamp := cm_timestamp h \<ge> 0xFFFFFF\<rparr>"

lemma decoded_header_sel [simp]:
  "cm_msg_length (decoded_header h) = cm_msg_length h"
  "cm_msg_stream_id (decoded_header h) = cm_msg_stream_id h"
  by (simp_all add: decoded_header_def)

lemma read_msg_length_run:
  assumes "unat n \<le> MAX_PARTIAL_CHUNK_SIZE"
  shows "read_msg_length (curs pre (be24 n @ post)) = (Ok n, curs (pre @ be24 n) post)"
proof -
  have "n < 0x1000000" using assms by (simp add: word_less_nat_alt chunk_limits)
  with assms show ?thesis by (simp add: read_msg_length_def run_simps take_bit_24_id)
qed

lemma read_extended_run:
  "read_extended (if t \<ge> 0xFFFFFF then 0xFFFFFF else t) (curs pre (ext_enc t @ post))
   = (Ok (t, t \<ge> 0xFFFFFF), curs (pre @ ext_enc t) post)"
  by (auto simp: read_extended_def ext_enc_def run_simps)

lemma read_message_header_enc [run_simps]:
  assumes "unat (cm_msg_length h) \<le> MAX_PARTIAL_CHUNK_SIZE"
  shows "read_message_header d \<lparr>cb_format = Type0, cb_chunk_stream_id = csid\<rparr> (curs pre (message_enc h @ post))
       = (Ok (decoded_header h), curs (pre @ message_enc h) post)"
proof -
  define t where "t = (if cm_timestamp h \<ge> 0xFFFFFF then 0xFFFFFF else cm_timestamp h)"
  have "t < 0x1000000" by (auto simp: t_def word_less_nat_alt word_le_nat_alt)
  then have t24: "or_none read_u24 (curs pre (be24 t @ post)) = (Ok t, curs (pre @ be24 t) post)" for pre post
    by (simp add: run_simps take_bit_24_id)
  have ext: "read_extended t (curs pre (ext_enc (cm_timestamp h) @ post))
      = (Ok (cm_timestamp h, cm_timestamp h \<ge> 0xFFFFFF), curs (pre @ ext_enc (cm_timestamp h)) post)" for pre post
    unfolding t_def by (rule read_extended_run)
  have enc: "message_enc h = be24 t @ be24 (cm_msg_length h) @ [message_type_as_u8 (cm_msg_type_id h)]
     @ le32 (cm_msg_stream_id h) @ ext_enc (cm_timestamp h)"
    by (simp add: message_enc_def t_def)
  show ?thesis
    unfolding enc read_message_header_def using assms
    by (simp add: bindE_def t24 read_msg_length_run ext run_simps read_msg_type_id_def decoded_header_def)
qed

lemma read_type3_enc [run_simps]:
  assumes "map_of (previous_chunk_headers d) csid = Some (decoded_header h)"
  shows "read_message_header d \<lparr>cb_format = Type3, cb_chunk_stream_id = csid\<rparr>
           (curs pre (ext_enc (cm_timestamp h) @ post))
       = (Ok (decoded_header h), curs (pre @ ext_enc (cm_timestamp h)) post)"
  using assms by (auto simp: read_message_header_def previous_header_def run_simps decoded_header_def ext_enc_def)

lemma get_payload_range_run:
  assumes "partial_len d (cb_chunk_stream_id bh, cm_msg_stream_id m) \<le> unat (cm_msg_length m)"
    and "n = min (unat (cm_msg_length m) - partial_len d (cb_chunk_stream_id bh, cm_msg_stream_id m))
              (max_chunk_size d)"
  shows "get_payload_range d bh m (curs pre post)
       = (Ok (length pre, length pre + n), (curs pre post)\<lparr>cur_pos := length pre + n\<rparr>)"
  using assms by (simp add: get_payload_range_def Let_def bindE_def or_none_def map_errE_def
      cursor_seek_def ret_def nat_add_distrib)

text \<open>A round whose headers are complete and whose payload piece is in the buffer.\<close>

lemma round_piece:
  assumes hdr: "read_header (curs [] (hb @ mb @ piece @ post)) = (Ok bh, curs hb (mb @ piece @ post))"
    and msg: "read_message_header d bh (curs hb (mb @ piece @ post)) = (Ok m, curs (hb @ mb) (piece @ post))"
    and part: "partial_len d (cb_chunk_stream_id bh, cm_msg_stream_id m) \<le> unat (cm_msg_length m)"
    and len: "length piece = min (unat (cm_msg_length m)
        - partial_len d (cb_chunk_stream_id bh, cm_msg_stream_id m)) (max_chunk_size d)"
    and acc: "accept_payload bh m piece d = (r, d')"
  shows "read_chunk_round d (hb @ mb @ piece @ post) = (r, d', post)"
proof -
  define p where "p = length (hb @ mb)"
  have "read_chunk_headers d (cursor_new (hb @ mb @ piece @ post))
      = (Ok (bh, m, p, p + length piece), (curs (hb @ mb) (piece @ post))\<lparr>cur_pos := p + length piece\<rparr>)"
    using get_payload_range_run [OF part len, of "hb @ mb" "piece @ post"]
    by (simp add: read_chunk_headers_def bindE_def cursor_new_curs hdr msg ret_def p_def)
  moreover have "take (p + length piece) (hb @ mb @ piece @ post) = hb @ mb @ piece"
    "drop (p + length piece) (hb @ mb @ piece @ post) = post" "drop p (hb @ mb @ piece) = piece"
    "p + length piece \<le> length (hb @ mb @ piece @ post)"
    by (simp_all add: p_def)
  ultimately show ?thesis
    unfolding read_chunk_round_def using acc by (simp add: Let_def)
qed

definition room_for :: "chunk_decoder \<Rightarrow> u32 \<Rightarrow> bool" where
  "room_for d csid \<longleftrightarrow> map_of (previous_chunk_headers d) csid \<noteq> None
       \<and> length (previous_chunk_headers d) \<le> MAX_PREVIOUS_CHUNK_HEADERS
     \<or> length (previous_chunk_headers d) < MAX_PREVIOUS_CHUNK_HEADERS"

lemma accept_whole:
  assumes "room_for d (cb_chunk_stream_id bh)" "length payload = unat (cm_msg_length m)"
  shows "accept_payload bh m payload d =
     (Some (Ok (Some \<lparr>ck_basic_header = bh, ck_message_header = m, ck_payload = payload\<rparr>)),
      d\<lparr>previous_chunk_headers := AList.update (cb_chunk_stream_id bh) m (previous_chunk_headers d)\<rparr>)"
  using assms by (auto simp: accept_payload_def Let_def room_for_def)

lemma accept_first:
  assumes "room_for d (cb_chunk_stream_id bh)" "length piece < unat (cm_msg_length m)"
    "unat (cm_msg_length m) \<le> MAX_PARTIAL_CHUNK_SIZE" "partial_chunks d = []"
  shows "accept_payload bh m piece d = (None,
      d\<lparr>previous_chunk_headers := AList.update (cb_chunk_stream_id bh) m (previous_chunk_headers d),
        partial_chunks := [((cb_chunk_stream_id bh, cm_msg_stream_id m), piece)]\<rparr>)"
  using assms by (auto simp: accept_payload_def store_payload_def Let_def room_for_def chunk_limits)

lemma accept_next:
  assumes "map_of (previous_chunk_headers d) (cb_chunk_stream_id bh) = Some m"
    "length (previous_chunk_headers d) \<le> MAX_PREVIOUS_CHUNK_HEADERS"
    "partial_chunks d = [((cb_chunk_stream_id bh, cm_msg_stream_id m), got)]"
    "got \<noteq> []" "length got + length piece \<le> unat (cm_msg_length m)"
    "unat (cm_msg_length m) \<le> MAX_PARTIAL_CHUNK_SIZE"
  shows "accept_payload bh m piece d =
     (if length got + length piece = unat (cm_msg_length m)
      then (Some (Ok (Some \<lparr>ck_basic_header = bh, ck_message_header = m, ck_payload = got @ piece\<rparr>)),
            d\<lparr>partial_chunks := []\<rparr>)
      else (None, d\<lparr>partial_chunks := [((cb_chunk_stream_id bh, cm_msg_stream_id m), got @ piece)]\<rparr>))"
proof -
  have "AList.update (cb_chunk_stream_id bh) m (previous_chunk_headers d) = previous_chunk_headers d"
    using assms(1) by (rule update_triv)
  moreover have "length piece \<noteq> unat (cm_msg_length m)" using assms(4,5) by auto
  ultimately show ?thesis
    using assms by (simp add: accept_payload_def store_payload_def Let_def)
qed

lemma read_pieces:
  assumes csid: "2 \<le> csid" "csid \<le> 65599"
    and m: "m = decoded_header h" "unat (cm_msg_length h) \<le> MAX_PARTIAL_CHUNK_SIZE"
    and cs: "0 < max_chunk_size d"
    and prev: "map_of (previous_chunk_headers d) csid = Some m"
      "length (previous_chunk_headers d) \<le> MAX_PREVIOUS_CHUNK_HEADERS"
    and got: "partial_chunks d = [((csid, cm_msg_stream_id m), got)]" "got \<noteq> []" "payload \<noteq> []"
      "length got + length payload = unat (cm_msg_length m)"
  shows "read_chunk d (basic_enc Type3 csid @ ext_enc (cm_timestamp h)
           @ pieces_enc (max_chunk_size d) csid (cm_timestamp h) payload @ post)
     = (Ok (Some \<lparr>ck_basic_header = \<lparr>cb_format = Type3, cb_chunk_stream_id = csid\<rparr>,
                  ck_message_header = m, ck_payload = got @ payload\<rparr>), d\<lparr>partial_chunks := []\<rparr>, post)"
  using cs prev got
proof (induction "length payload" arbitrary: d got payload rule: less_induct)
  case less
  let ?cs = "max_chunk_size d" and ?bh = "\<lparr>cb_format = Type3, cb_chunk_stream_id = csid\<rparr>"
  define piece where "piece = take ?cs payload"
  define tail where "tail = (if length payload \<le> ?cs then post
     else basic_enc Type3 csid @ ext_enc (cm_timestamp h)
       @ pieces_enc ?cs csid (cm_timestamp h) (drop ?cs payload) @ post)"
  have buf: "pieces_enc ?cs csid (cm_timestamp h) payload @ post = piece @ tail"
    using less.prems(1) by (subst pieces_enc.simps) (simp add: piece_def tail_def)
  have len_m: "cm_msg_length m = cm_msg_length h" by (simp add: m decoded_header_def)
  have plen: "partial_len d (csid, cm_msg_stream_id m) = length got"
    using less.prems(4) by (simp add: partial_len_def)
  have rem: "unat (cm_msg_length m) - length got = length payload" "length got \<le> unat (cm_msg_length m)"
    using less.prems(7) by linarith+
  have acc: "accept_payload ?bh m piece d = (if length payload \<le> ?cs
      then (Some (Ok (Some \<lparr>ck_basic_header = ?bh, ck_message_header = m, ck_payload = got @ payload\<rparr>)),
            d\<lparr>partial_chunks := []\<rparr>)
      else (None, d\<lparr>partial_chunks := [((csid, cm_msg_stream_id m), got @ piece)]\<rparr>))"
    using less.prems m(2) len_m by (subst accept_next [where got = got]) (auto simp: piece_def)
  have round: "read_chunk_round d (basic_enc Type3 csid @ ext_enc (cm_timestamp h) @ piece @ tail)
      = (fst (accept_payload ?bh m piece d), snd (accept_payload ?bh m piece d), tail)"
  proof (rule round_piece [where bh = ?bh and m = m])
    show "read_message_header d ?bh (curs (basic_enc Type3 csid) (ext_enc (cm_timestamp h) @ piece @ tail))
        = (Ok m, curs (basic_enc Type3 csid @ ext_enc (cm_timestamp h)) (piece @ tail))"
      using less.prems(2) m(1) by (simp add: read_type3_enc)
  qed (use csid read_header_enc [where pre = "[]"] in \<open>simp_all add: piece_def min.commute plen rem\<close>)
  show ?case
  proof (cases "length payload \<le> ?cs")
    case True
    with round acc show ?thesis by (subst read_chunk.simps) (simp add: buf tail_def)
  next
    case False
    let ?d' = "d\<lparr>partial_chunks := [((csid, cm_msg_stream_id m), got @ piece)]\<rparr>"
    from False round acc have "read_chunk d (basic_enc Type3 csid @ ext_enc (cm_timestamp h) @ piece @ tail)
        = read_chunk ?d' tail" by (subst read_chunk.simps) simp
    also have "\<dots> = (Ok (Some \<lparr>ck_basic_header = ?bh, ck_message_header = m,
        ck_payload = (got @ piece) @ drop ?cs payload\<rparr>), ?d'\<lparr>partial_chunks := []\<rparr>, post)"
      using less.hyps [of "drop ?cs payload" ?d' "got @ piece"] less.prems False
      by (simp add: tail_def piece_def)
    finally show ?thesis by (simp add: buf piece_def)
  qed
qed

text \<open>What the decoder returns for a message: the format of its last chunk, and the header as it
  has read it.\<close>

definition received :: "nat \<Rightarrow> Chunk \<Rightarrow> Chunk" where
  "received cs ck = \<lparr>ck_basic_header = \<lparr>cb_format = (if length (ck_payload ck) \<le> cs then Type0 else Type3),
        cb_chunk_stream_id = cb_chunk_stream_id (ck_basic_header ck)\<rparr>,
     ck_message_header = decoded_header (ck_message_header ck), ck_payload = ck_payload ck\<rparr>"

definition chunk_ok :: "Chunk \<Rightarrow> bool" where
  "chunk_ok ck \<longleftrightarrow> 2 \<le> cb_chunk_stream_id (ck_basic_header ck) \<and> cb_chunk_stream_id (ck_basic_header ck) \<le> 65599
     \<and> length (ck_payload ck) \<le> MAX_PARTIAL_CHUNK_SIZE
     \<and> cm_msg_length (ck_message_header ck) = word_of_nat (length (ck_payload ck))"

definition remembered :: "Chunk \<Rightarrow> chunk_decoder \<Rightarrow> chunk_decoder" where
  "remembered ck d = d\<lparr>previous_chunk_headers := AList.update (cb_chunk_stream_id (ck_basic_header ck))
     (decoded_header (ck_message_header ck)) (previous_chunk_headers d)\<rparr>"

lemma chunk_ok_length:
  "chunk_ok ck \<Longrightarrow> unat (cm_msg_length (ck_message_header ck)) = length (ck_payload ck)"
  by (simp add: chunk_ok_def unat_of_nat chunk_limits)

lemma read_written:
  assumes ok: "chunk_ok ck" and e: "ce_chunk_size e = max_chunk_size d" "0 < max_chunk_size d"
    and d: "room_for d (cb_chunk_stream_id (ck_basic_header ck))" "partial_chunks d = []"
  shows "\<exists>bs. (\<forall>out. write_chunk e ck out = (Ok (), out @ bs))
     \<and> (\<forall>post. read_chunk d (bs @ post) = (Ok (Some (received (max_chunk_size d) ck)), remembered ck d, post))"
proof -
  define csid where "csid = cb_chunk_stream_id (ck_basic_header ck)"
  define h where "h = ck_message_header ck"
  define payload where "payload = ck_payload ck"
  note defs = csid_def h_def payload_def
  let ?cs = "max_chunk_size d" and ?bh = "\<lparr>cb_format = Type0, cb_chunk_stream_id = csid\<rparr>" and ?m = "decoded_header h"
  let ?bs = "basic_enc Type0 csid @ message_enc h @ pieces_enc ?cs csid (cm_timestamp h) payload"
  have csid: "2 \<le> csid" "csid \<le> 65599" using ok by (simp_all add: chunk_ok_def defs)
  have len: "unat (cm_msg_length h) = length payload" using chunk_ok_length [OF ok] by (simp add: defs)
  have lim: "unat (cm_msg_length h) \<le> MAX_PARTIAL_CHUNK_SIZE" using ok len by (simp add: chunk_ok_def defs)
  have "cm_msg_length h < 0x1000000" using lim by (simp add: word_less_nat_alt chunk_limits)
  then have written: "write_chunk e ck out = (Ok (), out @ ?bs)" for out
    using write_chunk_run [of e ck out] e by (simp add: defs)
  have round: "read_chunk_round d (basic_enc Type0 csid @ message_enc h @ take ?cs payload @ tail)
      = (fst (accept_payload ?bh ?m (take ?cs payload) d), snd (accept_payload ?bh ?m (take ?cs payload) d), tail)"
    for tail
  proof (rule round_piece [where bh = ?bh and m = ?m])
    show "read_message_header d ?bh (curs (basic_enc Type0 csid) (message_enc h @ take ?cs payload @ tail))
        = (Ok ?m, curs (basic_enc Type0 csid @ message_enc h) (take ?cs payload @ tail))"
      using lim by (simp add: read_message_header_enc)
  qed (use csid d(2) len read_header_enc [where pre = "[]"] in \<open>simp_all add: partial_len_def min.commute\<close>)
  have read: "read_chunk d (?bs @ post) = (Ok (Some (received ?cs ck)), remembered ck d, post)" for post
  proof (cases "length payload \<le> ?cs")
    case True
    then have "accept_payload ?bh ?m (take ?cs payload) d = (Some (Ok (Some (received ?cs ck))), remembered ck d)"
      using d(1) len by (subst accept_whole) (simp_all add: received_def remembered_def defs)
    with True round [of post] show ?thesis by (subst read_chunk.simps) (simp add: pieces_enc.simps)
  next
    case False
    let ?d1 = "(remembered ck d)\<lparr>partial_chunks := [((csid, cm_msg_stream_id ?m), take ?cs payload)]\<rparr>"
    let ?tail = "basic_enc Type3 csid @ ext_enc (cm_timestamp h)
        @ pieces_enc ?cs csid (cm_timestamp h) (drop ?cs payload) @ post"
    have "accept_payload ?bh ?m (take ?cs payload) d = (None, ?d1)"
      using False d len lim by (subst accept_first) (simp_all add: remembered_def defs)
    moreover have "?bs @ post = basic_enc Type0 csid @ message_enc h @ take ?cs payload @ ?tail"
      using False e by (subst pieces_enc.simps) simp
    ultimately have "read_chunk d (?bs @ post) = read_chunk ?d1 ?tail"
      using round [of ?tail] by (subst read_chunk.simps) simp
    also have "\<dots> = (Ok (Some (received ?cs ck)), remembered ck d, post)"
    proof -
      have prev: "map_of (previous_chunk_headers ?d1) csid = Some ?m"
        "length (previous_chunk_headers ?d1) \<le> MAX_PREVIOUS_CHUNK_HEADERS"
        using d(1) by (auto simp: remembered_def update_conv' update_length room_for_def defs)
      have cs: "max_chunk_size ?d1 = ?cs" by (simp add: remembered_def)
      have pl: "take ?cs payload \<noteq> []" "drop ?cs payload \<noteq> []"
        "length (take ?cs payload) + length (drop ?cs payload) = unat (cm_msg_length ?m)"
        using False e len by auto
      have "?d1\<lparr>partial_chunks := []\<rparr> = remembered ck d" using d(2) by (simp add: remembered_def)
      moreover have "received ?cs ck = \<lparr>ck_basic_header = \<lparr>cb_format = Type3, cb_chunk_stream_id = csid\<rparr>,
          ck_message_header = ?m, ck_payload = payload\<rparr>"
        using False by (simp add: received_def defs)
      ultimately show ?thesis
        using read_pieces [OF csid refl lim _ prev _ pl, of post] e(2) unfolding cs by simp
    qed
    finally show ?thesis .
  qed
  show ?thesis using written read by blast
qed

section \<open>Whole streams\<close>

text \<open>\<^verbatim>\<open>read_chunk\<close> as a program on the decoder and the receive buffer.\<close>

definition read_chunk_m :: "(chunk_decoder \<times> bytes, ChunkDecodeError, Chunk option) prog" where
  "read_chunk_m = (\<lambda>(d, buffer). case read_chunk d buffer of (r, d', buffer') \<Rightarrow> (r, (d', buffer')))"

definition headers_within :: "u32 set \<Rightarrow> chunk_decoder \<Rightarrow> bool" where
  "headers_within S d \<longleftrightarrow> fst ` set (previous_chunk_headers d) \<subseteq> S \<and> distinct (map fst (previous_chunk_headers d))"

lemma headers_within_room:
  assumes "headers_within S d" "finite S" "card S \<le> MAX_PREVIOUS_CHUNK_HEADERS" "csid \<in> S"
  shows "room_for d csid"
proof -
  have len: "length (previous_chunk_headers d) = card (fst ` set (previous_chunk_headers d))"
    using assms(1) distinct_card [of "map fst (previous_chunk_headers d)"] by (simp add: headers_within_def)
  show ?thesis
  proof (cases "csid \<in> fst ` set (previous_chunk_headers d)")
    case True
    then have "map_of (previous_chunk_headers d) csid \<noteq> None" by (simp add: map_of_eq_None_iff)
    moreover have "length (previous_chunk_headers d) \<le> card S"
      unfolding len using assms(1,2) by (intro card_mono) (auto simp: headers_within_def)
    ultimately show ?thesis using assms(3) by (simp add: room_for_def)
  next
    case False
    then have "fst ` set (previous_chunk_headers d) \<subset> S" using assms(1,4) by (auto simp: headers_within_def)
    then have "length (previous_chunk_headers d) < card S" unfolding len by (intro psubset_card_mono assms(2))
    with assms(3) show ?thesis by (simp add: room_for_def)
  qed
qed

lemma headers_within_remembered:
  assumes "headers_within S d" "cb_chunk_stream_id (ck_basic_header ck) \<in> S"
  shows "headers_within S (remembered ck d)"
  using assms by (auto simp: headers_within_def remembered_def distinct_update dom_update
      dest!: update_set_cases)

lemma remembered_sel [simp]:
  "max_chunk_size (remembered ck d) = max_chunk_size d" "partial_chunks (remembered ck d) = partial_chunks d"
  by (simp_all add: remembered_def)

lemma stream_roundtrip:
  assumes "\<forall>ck \<in> set cks. chunk_ok ck \<and> cb_chunk_stream_id (ck_basic_header ck) \<in> S"
    and "headers_within S d" "finite S" "card S \<le> MAX_PREVIOUS_CHUNK_HEADERS"
    and "ce_chunk_size e = max_chunk_size d" "0 < max_chunk_size d" "partial_chunks d = []"
  shows "\<exists>bs d'. (\<forall>out. for_m cks (write_chunk e) out = (Ok (), out @ bs))
     \<and> (\<forall>post. repeat_m (length cks) read_chunk_m (d, bs @ post)
          = (Ok (map (\<lambda>ck. Some (received (max_chunk_size d) ck)) cks), (d', post)))"
  using assms
proof (induction cks arbitrary: d)
  case Nil
  then show ?case by (auto simp: run_simps)
next
  case (Cons ck cks)
  let ?csid = "cb_chunk_stream_id (ck_basic_header ck)"
  have ck: "chunk_ok ck" "?csid \<in> S" using Cons.prems(1) by auto
  have "room_for d ?csid" using headers_within_room [OF Cons.prems(2-4)] ck(2) by simp
  from read_written [OF ck(1) Cons.prems(5,6) this Cons.prems(7)] obtain bs1 where
    w1: "\<And>out. write_chunk e ck out = (Ok (), out @ bs1)" and
    r1: "\<And>post. read_chunk d (bs1 @ post) = (Ok (Some (received (max_chunk_size d) ck)), remembered ck d, post)"
    by blast
  have "headers_within S (remembered ck d)"
    using headers_within_remembered [OF Cons.prems(2) ck(2)] .
  with Cons.IH [of "remembered ck d"] Cons.prems obtain bs2 d' where
    w2: "\<And>out. for_m cks (write_chunk e) out = (Ok (), out @ bs2)" and
    r2: "\<And>post. repeat_m (length cks) read_chunk_m (remembered ck d, bs2 @ post)
          = (Ok (map (\<lambda>ck. Some (received (max_chunk_size d) ck)) cks), (d', post))"
    by auto
  have "for_m (ck # cks) (write_chunk e) out = (Ok (), out @ (bs1 @ bs2))" for out
    by (simp add: bindE_def w1 w2)
  moreover have "repeat_m (length (ck # cks)) read_chunk_m (d, (bs1 @ bs2) @ post)
      = (Ok (map (\<lambda>ck. Some (received (max_chunk_size d) ck)) (ck # cks)), (d', post))" for post
    using r1 [of "bs2 @ post"] r2 [of post] by (simp add: bindE_def read_chunk_m_def ret_def)
  ultimately show ?case by blast
qed

text \<open>C12: any sequence of messages written by the chunk encoder is read back, message by message and
  with nothing left over, by a fresh chunk decoder that uses the same chunk size: payloads,
  timestamps (extended ones included), types and stream ids are preserved, for chunk stream ids
  from 2 to 65599, payloads up to the 10 MiB limit and at most 100 different chunk streams.\<close>

theorem chunk_stream_roundtrip:
  assumes "\<forall>ck \<in> set cks. chunk_ok ck"
    and "card ((\<lambda>ck. cb_chunk_stream_id (ck_basic_header ck)) ` set cks) \<le> MAX_PREVIOUS_CHUNK_HEADERS"
    and "INIT_CHUNK_SIZE \<le> cs" "cs \<le> MAX_CHUNK_SIZE"
  shows "\<exists>bs d'. for_m cks (write_chunk (set_chunk_size cs chunk_encoder_default)) [] = (Ok (), bs)
     \<and> repeat_m (length cks) read_chunk_m (snd (update_max_chunk_size cs chunk_decoder_default), bs)
          = (Ok (map (\<lambda>ck. Some (received cs ck)) cks), (d', []))"
proof -
  define d where "d = snd (update_max_chunk_size cs chunk_decoder_default)"
  have d: "max_chunk_size d = cs" "partial_chunks d = []" "previous_chunk_headers d = []"
    using assms(3,4) by (simp_all add: d_def update_max_chunk_size_def chunk_decoder_default_def)
  have "\<exists>bs d'. (\<forall>out. for_m cks (write_chunk (set_chunk_size cs chunk_encoder_default)) out = (Ok (), out @ bs))
     \<and> (\<forall>post. repeat_m (length cks) read_chunk_m (d, bs @ post)
          = (Ok (map (\<lambda>ck. Some (received (max_chunk_size d) ck)) cks), (d', post)))"
    using assms by (intro stream_roundtrip [where
          S = "(\<lambda>ck. cb_chunk_stream_id (ck_basic_header ck)) ` set cks"])
      (auto simp: d headers_within_def set_chunk_size_def chunk_limits)
  then show ?thesis unfolding d d_def [symmetric] by (metis append_Nil append_Nil2)
qed

theorem chunk_stream_roundtrip_witness:
  "\<exists>bs d'. for_m [chunk_new 3 0x1000000 AudioId 1 [7, 8], chunk_new 400 5 VideoId 1 []]
        (write_chunk (set_chunk_size 128 chunk_encoder_default)) [] = (Ok (), bs)
     \<and> repeat_m (Suc (Suc 0)) read_chunk_m (snd (update_max_chunk_size 128 chunk_decoder_default), bs)
          = (Ok (map (\<lambda>ck. Some (received 128 ck))
              [chunk_new 3 0x1000000 AudioId 1 [7, 8], chunk_new 400 5 VideoId 1 []]), (d', []))"
proof -
  let ?cks = "[chunk_new 3 0x1000000 AudioId 1 [7, 8], chunk_new 400 5 VideoId 1 []]"
  have ok: "\<forall>ck \<in> set ?cks. chunk_ok ck"
    by (simp add: chunk_ok_def chunk_new_def chunk_limits)
  have few: "card ((\<lambda>ck. cb_chunk_stream_id (ck_basic_header ck)) ` set ?cks) \<le> MAX_PREVIOUS_CHUNK_HEADERS"
    by (simp add: chunk_new_def chunk_limits card_insert_if)
  have len: "length ?cks = Suc (Suc 0)" by simp
  show ?thesis
    using chunk_stream_roundtrip [OF ok few, of 128] unfolding len by (simp add: chunk_limits del: repeat_m.simps)
qed

text \<open>A header for the examples below.\<close>

definition sample_message_header :: ChunkMessageHeader where
  "sample_message_header = \<lparr>cm_timestamp = 0, cm_msg_length = 1, cm_msg_type_id = AudioId,
     cm_msg_stream_id = 1, cm_was_extended_timestamp = False\<rparr>"

text \<open>Two malformed inputs make the decoder panic instead of returning an error: a type-2 header
  whose delta overflows the 32-bit timestamp, and a header that announces a message shorter than what
  has already been collected for its stream.\<close>

theorem chunk_decoder_panics:
  fixes d :: chunk_decoder and h :: ChunkBasicHeader and prev m :: ChunkMessageHeader
  shows "(map_of (previous_chunk_headers d) (cb_chunk_stream_id h) = Some prev \<and> cb_format h = Type2
        \<and> 2 ^ 32 \<le> unat (cm_timestamp prev) + unat delta \<and> delta < 0xFFFFFF
      \<longrightarrow> fst (read_message_header d h (curs pre (be24 delta @ post))) = Panic)
    \<and> (unat (cm_msg_length m) < partial_len d (cb_chunk_stream_id h, cm_msg_stream_id m)
      \<longrightarrow> fst (get_payload_range d h m c) = Panic)"
proof (intro conjI impI)
  assume a: "map_of (previous_chunk_headers d) (cb_chunk_stream_id h) = Some prev \<and> cb_format h = Type2
        \<and> 2 ^ 32 \<le> unat (cm_timestamp prev) + unat delta \<and> delta < 0xFFFFFF"
  then have "take_bit 24 delta = delta" "delta \<noteq> 0xFFFFFF"
    by (auto intro!: take_bit_24_id simp: word_less_nat_alt)
  with a show "fst (read_message_header d h (curs pre (be24 delta @ post))) = Panic"
    by (simp add: read_message_header_def read_extended_def previous_header_def run_simps)
next
  assume "unat (cm_msg_length m) < partial_len d (cb_chunk_stream_id h, cm_msg_stream_id m)"
  then show "fst (get_payload_range d h m c) = Panic"
    by (simp add: get_payload_range_def Let_def panic_def)
qed

theorem chunk_decoder_panics_witness:
  "fst (read_message_header
     (chunk_decoder_default\<lparr>previous_chunk_headers := [(3, sample_message_header\<lparr>cm_timestamp := 0xFFFFFFFF\<rparr>)]\<rparr>)
     \<lparr>cb_format = Type2, cb_chunk_stream_id = 3\<rparr> (curs [] (be24 1 @ []))) = Panic
   \<and> fst (get_payload_range (chunk_decoder_default\<lparr>partial_chunks := [((3, 1), [0, 0])]\<rparr>)
     \<lparr>cb_format = Type1, cb_chunk_stream_id = 3\<rparr> sample_message_header (cursor_new [])) = Panic"
  using chunk_decoder_panics [of "chunk_decoder_default\<lparr>previous_chunk_headers :=
        [(3, sample_message_header\<lparr>cm_timestamp := 0xFFFFFFFF\<rparr>)]\<rparr>"
      "\<lparr>cb_format = Type2, cb_chunk_stream_id = 3\<rparr>" "sample_message_header\<lparr>cm_timestamp := 0xFFFFFFFF\<rparr>" 1 "[]" "[]"]
    chunk_decoder_panics [of "chunk_decoder_default\<lparr>partial_chunks := [((3, 1), [0, 0])]\<rparr>"
      "\<lparr>cb_format = Type1, cb_chunk_stream_id = 3\<rparr>" _ _ _ _ sample_message_header "cursor_new []"]
  by (simp add: sample_message_header_def partial_len_def chunk_decoder_default_def)

text \<open>An instance of C12: the message above, followed by other bytes.\<close>

theorem read_chunk_append_witness:
  "\<exists>bs d'. write_chunk chunk_encoder_default (chunk_new 3 0 AudioId 1 [7]) [] = (Ok (), bs)
     \<and> read_chunk chunk_decoder_default (bs @ [0xC3, 9])
       = (Ok (Some (received 128 (chunk_new 3 0 AudioId 1 [7]))), d', [0xC3, 9])"
proof -
  obtain bs where bs: "\<And>out. write_chunk chunk_encoder_default (chunk_new 3 0 AudioId 1 [7]) out = (Ok (), out @ bs)"
    "\<And>post. read_chunk chunk_decoder_default (bs @ post)
      = (Ok (Some (received 128 (chunk_new 3 0 AudioId 1 [7]))), remembered (chunk_new 3 0 AudioId 1 [7]) chunk_decoder_default, post)"
    using read_written [of "chunk_new 3 0 AudioId 1 [7]" chunk_encoder_default chunk_decoder_default]
    by (auto simp: chunk_ok_def chunk_new_def chunk_limits chunk_encoder_default_def
        chunk_decoder_default_def room_for_def)
  from read_chunk_append [OF bs(2) [of "[]", simplified], of "[0xC3, 9]"] bs(1) [of "[]"] show ?thesis
    by simp
qed

end
