(* ===== verification/Rtmp_Messages.thy ===== *)
theory Rtmp_Messages
  imports Amf0 Rtmp_Chunk
begin

text \<open>
  The RTMP messages: the message parser (\<^verbatim>\<open>crates/rtmp/src/messages\<close>), the protocol control messages
  and user control messages, and the command replies of \<^verbatim>\<open>netconnection\<close> and \<^verbatim>\<open>netstream\<close>. All
  writers put one chunk-layer message on a byte vector.
\<close>

section \<open>Errors\<close>

datatype ProtocolControlMessageError = PcmIO io_error | PcmChunkEncode ChunkEncodeError
datatype EventMessagesError = EvChunkEncode ChunkEncodeError
datatype NetConnectionError = NcAmf0Write Amf0WriteError | NcChunkEncode ChunkEncodeError
datatype NetStreamError = NsAmf0Write Amf0WriteError | NsChunkEncode ChunkEncodeError
datatype MessageError = MeAmf0Read Amf0ReadError | MeProtocolControl ProtocolControlMessageError

section \<open>Protocol control and user control messages\<close>

definition read_set_chunk_size :: "bytes \<Rightarrow> (ProtocolControlMessageError, u32) result" where
  "read_set_chunk_size data = map_err PcmIO (fst (read_u32 (cursor_new data)))"

definition write_set_chunk_size ::
    "chunk_encoder \<Rightarrow> u32 \<Rightarrow> (bytes, ProtocolControlMessageError, unit) prog" where
  "write_set_chunk_size encoder chunk_size =
     (let chunk_size' = chunk_size AND 0x7FFFFFFF
      in map_errE PcmChunkEncode (write_chunk encoder (chunk_new 2 0 SetChunkSizeId 0 (be32 chunk_size'))))"

definition write_window_acknowledgement_size ::
    "chunk_encoder \<Rightarrow> u32 \<Rightarrow> (bytes, ProtocolControlMessageError, unit) prog" where
  "write_window_acknowledgement_size encoder window_size =
     map_errE PcmChunkEncode
       (write_chunk encoder (chunk_new 2 0 WindowAcknowledgementSizeId 0 (be32 window_size)))"

definition write_set_peer_bandwidth ::
    "chunk_encoder \<Rightarrow> u32 \<Rightarrow> u8 \<Rightarrow> (bytes, ProtocolControlMessageError, unit) prog" where
  "write_set_peer_bandwidth encoder window_size limit_type =
     map_errE PcmChunkEncode
       (write_chunk encoder (chunk_new 2 0 SetPeerBandwidthId 0 (be32 window_size @ [limit_type])))"

definition RTMP_EVENT_STREAM_BEGIN :: u16 where "RTMP_EVENT_STREAM_BEGIN = 0"

definition write_stream_begin :: "chunk_encoder \<Rightarrow> u32 \<Rightarrow> (bytes, EventMessagesError, unit) prog" where
  "write_stream_begin encoder stream_id =
     map_errE EvChunkEncode (write_chunk encoder
       (chunk_new 2 0 UserControlEventId 0 (be16 RTMP_EVENT_STREAM_BEGIN @ be32 stream_id)))"

section \<open>Command replies\<close>

definition str :: "string \<Rightarrow> bytes" where
  "str s = map of_char s"

text \<open>Encode AMF0 into a fresh vector and go on with it.\<close>

definition with_amf0 ::
    "(Amf0WriteError \<Rightarrow> 'e) \<Rightarrow> (bytes, Amf0WriteError, unit) prog
     \<Rightarrow> (bytes \<Rightarrow> (bytes, 'e, unit) prog) \<Rightarrow> (bytes, 'e, unit) prog" where
  "with_amf0 err m k = (\<lambda>out. case m [] of
       (Ok _, amf0_writer) \<Rightarrow> k amf0_writer out
     | (Err e, _) \<Rightarrow> (Err (err e), out)
     | (Panic, _) \<Rightarrow> (Panic, out)
     | (OutOfFuel, _) \<Rightarrow> (OutOfFuel, out))"

definition COMMAND_CSID :: u32 where "COMMAND_CSID = 3"

definition netconnection_write_chunk :: "chunk_encoder \<Rightarrow> bytes \<Rightarrow> (bytes, NetConnectionError, unit) prog" where
  "netconnection_write_chunk encoder amf0 =
     map_errE NcChunkEncode (write_chunk encoder (chunk_new COMMAND_CSID 0 CommandAMF0Id 0 amf0))"

definition write_connect_response ::
    "chunk_encoder \<Rightarrow> f64 \<Rightarrow> bytes \<Rightarrow> f64 \<Rightarrow> bytes \<Rightarrow> bytes \<Rightarrow> bytes \<Rightarrow> f64 \<Rightarrow> (bytes, NetConnectionError, unit) prog" where
  "write_connect_response encoder transaction_id fmsver capabilities code level description encoding =
     with_amf0 NcAmf0Write
       (bindE (encode_string (str ''_result'')) (\<lambda>_.
        bindE (encode_number transaction_id) (\<lambda>_.
        bindE (encode_object [(str ''fmsVer'', Amf0String fmsver),
                              (str ''capabilities'', Amf0Number capabilities)]) (\<lambda>_.
        encode_object [(str ''level'', Amf0String level), (str ''code'', Amf0String code),
                       (str ''description'', Amf0String description),
                       (str ''objectEncoding'', Amf0Number encoding)]))))
       (netconnection_write_chunk encoder)"

definition write_create_stream_response ::
    "chunk_encoder \<Rightarrow> f64 \<Rightarrow> f64 \<Rightarrow> (bytes, NetConnectionError, unit) prog" where
  "write_create_stream_response encoder transaction_id stream_id =
     with_amf0 NcAmf0Write
       (bindE (encode_string (str ''_result'')) (\<lambda>_.
        bindE (encode_number transaction_id) (\<lambda>_.
        bindE encode_null (\<lambda>_. encode_number stream_id))))
       (netconnection_write_chunk encoder)"

definition netstream_write_chunk :: "chunk_encoder \<Rightarrow> bytes \<Rightarrow> (bytes, NetStreamError, unit) prog" where
  "netstream_write_chunk encoder amf0 =
     map_errE NsChunkEncode (write_chunk encoder (chunk_new COMMAND_CSID 0 CommandAMF0Id 0 amf0))"

definition write_on_status ::
    "chunk_encoder \<Rightarrow> f64 \<Rightarrow> bytes \<Rightarrow> bytes \<Rightarrow> bytes \<Rightarrow> (bytes, NetStreamError, unit) prog" where
  "write_on_status encoder transaction_id level code description =
     with_amf0 NsAmf0Write
       (bindE (encode_string (str ''onStatus'')) (\<lambda>_.
        bindE (encode_number transaction_id) (\<lambda>_.
        bindE encode_null (\<lambda>_.
        encode_object [(str ''level'', Amf0String level), (str ''code'', Amf0String code),
                       (str ''description'', Amf0String description)]))))
       (netstream_write_chunk encoder)"

section \<open>The message parser\<close>

datatype RtmpMessageData =
    Amf0Command Amf0Value Amf0Value Amf0Value "Amf0Value list"
  | AmfData bytes
  | SetChunkSize u32
  | AudioData bytes
  | VideoData bytes

text \<open>An object, or else a null at the place where the object reader has stopped.\<close>

definition decode_command_object :: "(cursor, Amf0ReadError, Amf0Value) prog" where
  "decode_command_object c = (case amf0_decode_with_type MObject c of
       (Err _, c') \<Rightarrow> amf0_decode_with_type MNull c'
     | (r, c') \<Rightarrow> (r, c'))"

definition decode_command :: "(cursor, Amf0ReadError, RtmpMessageData) prog" where
  "decode_command =
     bindE (amf0_decode_with_type MString) (\<lambda>command_name.
     bindE (amf0_decode_with_type MNumber) (\<lambda>transaction_id.
     bindE decode_command_object (\<lambda>command_object.
     bindE amf0_decode_all (\<lambda>others.
     ret (Amf0Command command_name transaction_id command_object others)))))"

definition message_parse :: "Chunk \<Rightarrow> (MessageError, RtmpMessageData option) result" where
  "message_parse chunk =
     (case cm_msg_type_id (ck_message_header chunk) of
        CommandAMF0Id \<Rightarrow>
          rbind (map_err MeAmf0Read (fst (decode_command (cursor_new (ck_payload chunk))))) (\<lambda>m. Ok (Some m))
      | AudioId \<Rightarrow> Ok (Some (AudioData (ck_payload chunk)))
      | VideoId \<Rightarrow> Ok (Some (VideoData (ck_payload chunk)))
      | SetChunkSizeId \<Rightarrow>
          rbind (map_err MeProtocolControl (read_set_chunk_size (ck_payload chunk))) (\<lambda>n. Ok (Some (SetChunkSize n)))
      | DataAMF0Id \<Rightarrow> Ok (Some (AmfData (ck_payload chunk)))
      | DataAMF3Id \<Rightarrow> Ok (Some (AmfData (ck_payload chunk)))
      | _ \<Rightarrow> Ok None)"

section \<open>Reading the replies\<close>

text \<open>What a client decodes from the bytes of a message writer: one message of the given type on the
  given chunk stream, and nothing else.\<close>

lemma write_message_run:
  assumes "0 < ce_chunk_size e" "length payload \<le> MAX_PARTIAL_CHUNK_SIZE" "2 \<le> csid" "csid \<le> 65599"
  shows "\<exists>bs. (\<forall>out. write_chunk e (chunk_new csid 0 t sid payload) out = (Ok (), out @ bs))
     \<and> (\<forall>d post. max_chunk_size d = ce_chunk_size e \<longrightarrow> room_for d csid \<longrightarrow> partial_chunks d = [] \<longrightarrow>
          read_chunk d (bs @ post) = (Ok (Some (received (ce_chunk_size e) (chunk_new csid 0 t sid payload))),
            remembered (chunk_new csid 0 t sid payload) d, post))"
proof -
  let ?ck = "chunk_new csid 0 t sid payload"
  have ok: "chunk_ok ?ck" using assms by (simp add: chunk_ok_def chunk_new_def)
  have csid: "cb_chunk_stream_id (ck_basic_header ?ck) = csid" by (simp add: chunk_new_def)
  have "cm_msg_length (ck_message_header ?ck) < 0x1000000"
    using chunk_ok_length [OF ok] assms(2) by (simp add: word_less_nat_alt chunk_limits chunk_new_def)
  note w = write_chunk_run [OF assms(1) this]
  show ?thesis
  proof (intro exI conjI allI impI)
    fix d post assume d: "max_chunk_size d = ce_chunk_size e" "room_for d csid" "partial_chunks d = []"
    from read_written [OF ok, of e d] d assms(1) csid obtain bs where
      bs: "\<And>out. write_chunk e ?ck out = (Ok (), out @ bs)"
      "\<And>post. read_chunk d (bs @ post) = (Ok (Some (received (max_chunk_size d) ?ck)), remembered ?ck d, post)"
      by auto
    from bs(1) [of "[]"] w [of "[]"] have "bs = basic_enc Type0 (cb_chunk_stream_id (ck_basic_header ?ck))
        @ message_enc (ck_message_header ?ck) @ pieces_enc (ce_chunk_size e)
         (cb_chunk_stream_id (ck_basic_header ?ck)) (cm_timestamp (ck_message_header ?ck)) (ck_payload ?ck)"
      by simp
    with bs(2) [of post] d(1) show "read_chunk d ((basic_enc Type0 (cb_chunk_stream_id (ck_basic_header ?ck))
        @ message_enc (ck_message_header ?ck) @ pieces_enc (ce_chunk_size e)
         (cb_chunk_stream_id (ck_basic_header ?ck)) (cm_timestamp (ck_message_header ?ck)) (ck_payload ?ck)) @ post)
      = (Ok (Some (received (ce_chunk_size e) ?ck)), remembered ?ck d, post)" by simp
  qed (simp add: w)
qed

section \<open>Everything returns\<close>

lemma halts_write: "halts (write_u8 a)" "halts (write_u24 b)" "halts (write_u32 b)" "halts (write_u32_le b)"
    "halts (write_all xs)"
  by (simp_all add: halts_def write_all_def write_u8_def write_u24_def write_u32_def write_u32_le_def panic_def)

lemma halts_write_chunk:
  assumes "0 < ce_chunk_size e"
  shows "halts (write_chunk e ck)"
proof -
  have "halts (write_basic_header f csid)" for f csid
    by (simp add: halts_def write_basic_header_run)
  moreover have "halts (write_message_header h)" for h
    unfolding write_message_header_def Let_def write_extended_timestamp_def
    by (intro halts_intros halts_write)
  moreover have "halts (write_payload_loop (length p + 1) (ce_chunk_size e) csid h p)" for csid h p
    using assms by (simp add: halts_def write_payload_loop_run del: write_payload_loop.simps)
  ultimately show ?thesis
    unfolding write_chunk_def Let_def by (intro halts_bind)
qed

lemma halts_amf0_encode: "halts (amf0_encode v)"
  unfolding halts_def
proof
  fix out
  show "fst (amf0_encode v out) \<noteq> OutOfFuel"
    using amf0_encode_supported [of v out] amf0_encode_unsupported [of v out]
    by (cases "amf0_supported v") auto
qed

lemma halts_encoders:
  "halts (encode_string s)" "halts (encode_number x)" "halts encode_null" "halts (encode_object ps)"
  using halts_amf0_encode [of "Amf0String s"] halts_amf0_encode [of "Amf0Number x"] halts_amf0_encode [of Amf0Null]
    halts_amf0_encode [of "Amf0Object ps"]
  by (simp_all add: encode_object_def del: amf0_encode.simps(5))

lemma halts_with_amf0: "halts m \<Longrightarrow> (\<And>b. halts (k b)) \<Longrightarrow> halts (with_amf0 err m k)"
  unfolding halts_def with_amf0_def
  by (cases "m []"; cases "fst (m [])") (auto dest: spec [of _ "[]"])

lemma halts_writers:
  assumes "0 < ce_chunk_size e"
  shows "halts (write_set_chunk_size e n)" "halts (write_window_acknowledgement_size e n)"
    "halts (write_set_peer_bandwidth e n l)" "halts (write_stream_begin e n)"
    "halts (write_connect_response e t f c co le de en)" "halts (write_create_stream_response e t x)"
    "halts (write_on_status e t le co de)"
  unfolding write_set_chunk_size_def write_window_acknowledgement_size_def write_set_peer_bandwidth_def
    write_stream_begin_def write_connect_response_def write_create_stream_response_def write_on_status_def
    netconnection_write_chunk_def netstream_write_chunk_def Let_def
  by (intro halts_map_err halts_write_chunk halts_with_amf0 halts_bind halts_encoders assms)+

lemma rbind_map_err_fuel:
  "rbind (map_err f r) (\<lambda>x. Ok (g x)) = OutOfFuel \<longleftrightarrow> r = OutOfFuel"
  "map_err f' r = OutOfFuel \<longleftrightarrow> r = OutOfFuel"
  by (cases r; simp)+

lemma message_parse_returns: "message_parse ck \<noteq> OutOfFuel"
proof -
  have obj: "consumes 0 decode_command_object c" if "cur_ok c" for c
  proof -
    obtain r c' where run: "amf0_decode_with_type MObject c = (r, c')" by fastforce
    note first = consumes_decode_with_type [OF that, of MObject]
    show ?thesis
    proof (cases r)
      case (Err e)
      with first run have adv: "advances 0 c c'" by (simp add: consumes_def)
      from consumes_decode_with_type [OF advances_cur_ok [OF adv], of MNull]
      show ?thesis using adv run Err
        by (auto simp: consumes_def decode_command_object_def advances_def split: prod.splits result.splits)
    qed (use first run in \<open>simp_all add: consumes_def decode_command_object_def\<close>)
  qed
  have "consumes 0 decode_command c" if c: "cur_ok c" for c
    unfolding decode_command_def
  proof (rule consumes_bindI [where j = 0 and k = 0, OF consumes_decode_with_type [OF c]])
    fix x1 c1 assume c1: "cur_ok c1" "advances 0 c c1"
    show "consumes 0 (bindE (amf0_decode_with_type MNumber) (\<lambda>transaction_id.
       bindE decode_command_object (\<lambda>command_object. bindE amf0_decode_all (\<lambda>others.
       ret (Amf0Command x1 transaction_id command_object others))))) c1"
    proof (rule consumes_bindI [where j = 0 and k = 0, OF consumes_decode_with_type [OF c1(1)]])
      fix x2 c2 assume c2: "cur_ok c2" "advances 0 c1 c2"
      show "consumes 0 (bindE decode_command_object (\<lambda>command_object. bindE amf0_decode_all (\<lambda>others.
         ret (Amf0Command x1 x2 command_object others)))) c2"
        by (rule consumes_bindI [where j = 0 and k = 0, OF obj [OF c2(1)]])
           (simp_all add: consumes_map consumes_decode_all)
    qed simp
  qed simp
  from this [of "cursor_new (ck_payload ck)"] have "fst (decode_command (cursor_new (ck_payload ck))) \<noteq> OutOfFuel"
    by (auto simp: consumes_def cur_ok_def cursor_new_def split: prod.splits)
  moreover have "fst (read_u32 (cursor_new (ck_payload ck))) \<noteq> OutOfFuel"
    using consumes_reads(4) [of "cursor_new (ck_payload ck)"]
    by (auto simp: consumes_def cur_ok_def cursor_new_def split: prod.splits)
  ultimately show ?thesis
    by (simp add: message_parse_def read_set_chunk_size_def rbind_map_err_fuel split: MessageTypeID.split)
qed

section \<open>Commands reach the peer\<close>

lemma decode_command_enc:
  assumes "amf0_wf (Amf0String name)" "amf0_wf obj" "amf0_marker obj \<in> {MObject, MNull}" "\<forall>v \<in> set others. amf0_wf v"
  shows "fst (decode_command (cursor_new (concat (map amf0_enc (Amf0String name # Amf0Number t # obj # others)))))
     = Ok (Amf0Command (Amf0String name) (Amf0Number t) obj others)"
proof -
  note dec = amf0_decode_with_type_enc [OF assms(1)] amf0_decode_with_type_enc [of "Amf0Number t"]
  have obj: "decode_command_object (curs pre (amf0_enc obj @ post)) = (Ok obj, curs (pre @ amf0_enc obj) post)" for pre post
    using assms(3) by (auto simp: decode_command_object_def amf0_decode_with_type_enc [OF assms(2)])
  have all: "amf0_decode_all (curs pre (concat (map amf0_enc others)))
      = (Ok others, curs (pre @ concat (map amf0_enc others)) [])" for pre
    by (simp add: amf0_decode_all_def cur_remaining_def decode_all_enc [OF assms(4)] del: decode_all_loop.simps)
  show ?thesis
    unfolding decode_command_def cursor_new_curs list.map concat.simps
    by (simp add: bindE_def dec obj all ret_def del: amf0_enc.simps)
qed

text \<open>A writer sends a command: it appends bytes to its buffer that the chunk decoder of a client with
  the same chunk size turns, whatever follows them, into one message that parses as the command.\<close>

definition sends_command :: "chunk_encoder \<Rightarrow> (bytes, 'e, unit) prog \<Rightarrow> RtmpMessageData \<Rightarrow> bool" where
  "sends_command e w msg \<longleftrightarrow> (\<exists>bs. (\<forall>out. w out = (Ok (), out @ bs))
     \<and> (\<forall>d post. max_chunk_size d = ce_chunk_size e \<and> room_for d COMMAND_CSID \<and> partial_chunks d = [] \<longrightarrow>
          (\<exists>ck d'. read_chunk d (bs @ post) = (Ok (Some ck), d', post) \<and> message_parse ck = Ok (Some msg))))"

lemma sends_commandI:
  fixes w :: "(bytes, 'e, unit) prog"
  assumes e: "0 < ce_chunk_size e"
    and wf: "amf0_wf (Amf0String name)" "amf0_wf obj" "amf0_marker obj \<in> {MObject, MNull}" "\<forall>v \<in> set others. amf0_wf v"
    and size: "length (concat (map amf0_enc (Amf0String name # Amf0Number t # obj # others))) \<le> MAX_PARTIAL_CHUNK_SIZE"
    and w: "\<And>out. w out = map_errE f (write_chunk e (chunk_new COMMAND_CSID 0 CommandAMF0Id 0
         (concat (map amf0_enc (Amf0String name # Amf0Number t # obj # others))))) out"
  shows "sends_command e w (Amf0Command (Amf0String name) (Amf0Number t) obj others)"
proof -
  let ?p = "concat (map amf0_enc (Amf0String name # Amf0Number t # obj # others))"
  let ?ck = "chunk_new COMMAND_CSID 0 CommandAMF0Id 0 ?p"
  have parse: "message_parse (received n ?ck) = Ok (Some (Amf0Command (Amf0String name) (Amf0Number t) obj others))" for n
    using decode_command_enc [OF wf] by (simp add: message_parse_def received_def decoded_header_def chunk_new_def)
  have csid: "2 \<le> COMMAND_CSID" "COMMAND_CSID \<le> 65599" by (simp_all add: COMMAND_CSID_def)
  from write_message_run [OF e size csid] obtain bs where
    "\<And>out. write_chunk e ?ck out = (Ok (), out @ bs)"
    "\<And>d post. \<lbrakk>max_chunk_size d = ce_chunk_size e; room_for d COMMAND_CSID; partial_chunks d = []\<rbrakk> \<Longrightarrow>
       read_chunk d (bs @ post) = (Ok (Some (received (ce_chunk_size e) ?ck)), remembered ?ck d, post)"
    by blast
  then show ?thesis
    unfolding sends_command_def using parse w by (intro exI [of _ bs]) (auto simp: map_errE_def)
qed

lemma encoder_runs [run_simps]:
  "length s \<le> 65535 \<Longrightarrow> encode_string s out = (Ok (), out @ amf0_enc (Amf0String s))"
  "encode_number x out = (Ok (), out @ amf0_enc (Amf0Number x))"
  "encode_null out = (Ok (), out @ amf0_enc Amf0Null)"
  "amf0_supported (Amf0Object ps) \<Longrightarrow> encode_object ps out = (Ok (), out @ amf0_enc (Amf0Object ps))"
  using amf0_encode_supported [of "Amf0String s" out] amf0_encode_supported [of "Amf0Number x" out]
    amf0_encode_supported [of Amf0Null out] amf0_encode_supported [of "Amf0Object ps" out]
  by (simp_all add: encode_object_def del: amf0_encode.simps(5))

lemma utf8_str: "\<forall>c \<in> set s. of_char c < (128 :: u8) \<Longrightarrow> utf8_valid (str s)"
  by (induction s) (simp_all add: str_def)

lemma wf_ascii:
  "\<lbrakk>\<forall>c \<in> set s. of_char c < (128 :: u8); length s \<le> 65535\<rbrakk> \<Longrightarrow> amf0_wf (Amf0String (str s))"
  by (simp add: utf8_str) (simp add: str_def)

lemma length_str [simp]: "length (str s) = length s"
  by (simp add: str_def)

lemma connect_sends:
  assumes e: "0 < ce_chunk_size e"
    and wf: "\<forall>s \<in> {fmsver, code, level, description}. amf0_wf (Amf0String s)"
  shows "sends_command e (write_connect_response e t fmsver capabilities code level description encoding)
      (Amf0Command (Amf0String (str ''_result'')) (Amf0Number t)
         (Amf0Object [(str ''fmsVer'', Amf0String fmsver), (str ''capabilities'', Amf0Number capabilities)])
         [Amf0Object [(str ''level'', Amf0String level), (str ''code'', Amf0String code),
            (str ''description'', Amf0String description), (str ''objectEncoding'', Amf0Number encoding)]])"
proof (rule sends_commandI [OF e, where f = NcChunkEncode])
  have len: "length fmsver \<le> 65535" "length code \<le> 65535" "length level \<le> 65535" "length description \<le> 65535"
    using wf by auto
  let ?o1 = "Amf0Object [(str ''fmsVer'', Amf0String fmsver), (str ''capabilities'', Amf0Number capabilities)]"
  let ?o2 = "Amf0Object [(str ''level'', Amf0String level), (str ''code'', Amf0String code),
      (str ''description'', Amf0String description), (str ''objectEncoding'', Amf0Number encoding)]"
  show "length (concat (map amf0_enc [Amf0String (str ''_result''), Amf0Number t, ?o1, ?o2])) \<le> MAX_PARTIAL_CHUNK_SIZE"
    using len by (simp add: chunk_limits)
  show "write_connect_response e t fmsver capabilities code level description encoding out
      = map_errE NcChunkEncode (write_chunk e (chunk_new COMMAND_CSID 0 CommandAMF0Id 0
         (concat (map amf0_enc [Amf0String (str ''_result''), Amf0Number t, ?o1, ?o2])))) out" for out
    using len by (simp add: write_connect_response_def with_amf0_def netconnection_write_chunk_def run_simps
        del: amf0_enc.simps)
qed (use wf in \<open>simp_all add: utf8_str\<close>)

lemma create_stream_sends:
  assumes e: "0 < ce_chunk_size e"
  shows "sends_command e (write_create_stream_response e t sid)
      (Amf0Command (Amf0String (str ''_result'')) (Amf0Number t) Amf0Null [Amf0Number sid])"
  by (intro sends_commandI [OF e, where f = NcChunkEncode])
    (simp_all add: utf8_str chunk_limits write_create_stream_response_def with_amf0_def netconnection_write_chunk_def
         run_simps)

lemma on_status_sends:
  assumes e: "0 < ce_chunk_size e"
    and wf: "\<forall>s \<in> {code, level, description}. amf0_wf (Amf0String s)"
  shows "sends_command e (write_on_status e t level code description)
      (Amf0Command (Amf0String (str ''onStatus'')) (Amf0Number t) Amf0Null
         [Amf0Object [(str ''level'', Amf0String level), (str ''code'', Amf0String code),
            (str ''description'', Amf0String description)]])"
  using wf by (intro sends_commandI [OF e, where f = NsChunkEncode])
      (auto simp: utf8_str chunk_limits write_on_status_def with_amf0_def netstream_write_chunk_def
         run_simps)

text \<open>C17: the replies of the server reach the client as the commands they stand for, at any chunk size
  and split into any number of chunks: the answer to \<^verbatim>\<open>connect\<close> with both of its objects, the answer to
  \<^verbatim>\<open>createStream\<close> with the stream id, and the status message of a stream.\<close>

theorem replies_reach_client:
  assumes e: "0 < ce_chunk_size e"
    and wf: "\<forall>s \<in> {fmsver, code, level, description}. amf0_wf (Amf0String s)"
  shows "sends_command e (write_connect_response e t fmsver capabilities code level description encoding)
      (Amf0Command (Amf0String (str ''_result'')) (Amf0Number t)
         (Amf0Object [(str ''fmsVer'', Amf0String fmsver), (str ''capabilities'', Amf0Number capabilities)])
         [Amf0Object [(str ''level'', Amf0String level), (str ''code'', Amf0String code),
            (str ''description'', Amf0String description), (str ''objectEncoding'', Amf0Number encoding)]])
    \<and> sends_command e (write_create_stream_response e t sid)
      (Amf0Command (Amf0String (str ''_result'')) (Amf0Number t) Amf0Null [Amf0Number sid])
    \<and> sends_command e (write_on_status e t level code description)
      (Amf0Command (Amf0String (str ''onStatus'')) (Amf0Number t) Amf0Null
         [Amf0Object [(str ''level'', Amf0String level), (str ''code'', Amf0String code),
            (str ''description'', Amf0String description)]])"
  using wf by (intro conjI connect_sends create_stream_sends on_status_sends e) auto

theorem replies_reach_client_witness:
  "sends_command (set_chunk_size 9 chunk_encoder_default)
      (write_on_status (set_chunk_size 9 chunk_encoder_default) 0x4000000000000000 (str ''status'')
         (str ''NetStream.Publish.Start'') [])
      (Amf0Command (Amf0String (str ''onStatus'')) (Amf0Number 0x4000000000000000) Amf0Null
         [Amf0Object [(str ''level'', Amf0String (str ''status'')), (str ''code'', Amf0String (str ''NetStream.Publish.Start'')),
            (str ''description'', Amf0String [])]])"
proof -
  have wf: "\<forall>s \<in> {[], str ''NetStream.Publish.Start'', str ''status'', []}. amf0_wf (Amf0String s)"
    by (simp add: utf8_str)
  have e: "0 < ce_chunk_size (set_chunk_size 9 chunk_encoder_default)" by (simp add: set_chunk_size_def)
  show ?thesis by (rule replies_reach_client [OF e wf, THEN conjunct2, THEN conjunct2])
qed

end
