(* ===== verification/Rtmp_Handshake.thy ===== *)
theory Rtmp_Handshake
  imports Bytes_Util
begin

text \<open>
  The RTMP handshake (\<^verbatim>\<open>crates/rtmp/src/handshake\<close>): the digest processor of the complex handshake,
  the simple and the complex server state machines and the server that falls back from the second
  to the first. HMAC-SHA256, the random bytes and the clock are parameters, collected in
  \<open>hs_env\<close>; all that is assumed of them, where it is needed, is that a MAC has 32 bytes.
\<close>

section \<open>Constants and states\<close>

datatype SchemaVersion = Schema0 | Schema1

datatype RtmpVersion = UnknownVersion | Version3

fun rtmp_version_as_u8 :: "RtmpVersion \<Rightarrow> u8" where
  "rtmp_version_as_u8 UnknownVersion = 0" | "rtmp_version_as_u8 Version3 = 3"

datatype ServerHandshakeState = ReadC0C1 | WriteS0S1S2 | ReadC2 | Finish

definition RTMP_HANDSHAKE_SIZE :: nat where "RTMP_HANDSHAKE_SIZE = 1536"
definition RTMP_SERVER_VERSION :: u32 where "RTMP_SERVER_VERSION = 0x04050001"
definition RTMP_DIGEST_LENGTH :: nat where "RTMP_DIGEST_LENGTH = 32"
definition TIME_VERSION_LENGTH :: nat where "TIME_VERSION_LENGTH = 8"
definition CHUNK_LENGTH :: nat where "CHUNK_LENGTH = (RTMP_HANDSHAKE_SIZE - TIME_VERSION_LENGTH) div 2"

lemmas hs_sizes = RTMP_HANDSHAKE_SIZE_def RTMP_DIGEST_LENGTH_def TIME_VERSION_LENGTH_def CHUNK_LENGTH_def

definition RTMP_SERVER_KEY_FIRST_HALF :: bytes where
  "RTMP_SERVER_KEY_FIRST_HALF = map of_char ''Genuine Adobe Flash Media Server 001''"

definition RTMP_CLIENT_KEY_FIRST_HALF :: bytes where
  "RTMP_CLIENT_KEY_FIRST_HALF = map of_char ''Genuine Adobe Flash Player 001''"

definition RTMP_SERVER_KEY :: bytes where
  "RTMP_SERVER_KEY = [
    0x47, 0x65, 0x6e, 0x75, 0x69, 0x6e, 0x65, 0x20, 0x41, 0x64, 0x6f, 0x62, 0x65, 0x20, 0x46, 0x6c, 0x61, 0x73, 0x68, 0x20,
    0x4d, 0x65, 0x64, 0x69, 0x61, 0x20, 0x53, 0x65, 0x72, 0x76, 0x65, 0x72, 0x20, 0x30, 0x30, 0x31, 0xf0, 0xee, 0xc2, 0x4a,
    0x80, 0x68, 0xbe, 0xe8, 0x2e, 0x00, 0xd0, 0xd1, 0x02, 0x9e, 0x7e, 0x57, 0x6e, 0xec, 0x5d, 0x2d, 0x29, 0x80, 0x6f, 0xab,
    0x93, 0xb8, 0xe6, 0x36, 0xcf, 0xeb, 0x31, 0xae]"

datatype DigestError = NotEnoughData | DigestLengthNotCorrect | CannotGenerate | UnknownSchema

datatype HandshakeError = HsDigest DigestError | HsIO io_error

text \<open>The outside world of one handshake: the MAC, the two clock readings and the random bytes of
  S1 and of S2.\<close>

record hs_env =
  env_hmac :: "bytes \<Rightarrow> bytes \<Rightarrow> bytes"
  env_time_s1 :: u32
  env_time_s2 :: u32
  env_rand_s1 :: "nat \<Rightarrow> u8"
  env_rand_s2 :: "nat \<Rightarrow> u8"

section \<open>Digest processor\<close>

record digest_processor =
  dp_data :: bytes
  dp_key :: bytes

definition digest_new :: "bytes \<Rightarrow> bytes \<Rightarrow> digest_processor" where
  "digest_new data key = \<lparr>dp_data = data, dp_key = key\<rparr>"

text \<open>\<^verbatim>\<open>get(i).unwrap()\<close>.\<close>

definition get_unwrap :: "bytes \<Rightarrow> nat \<Rightarrow> ('e, u8) result" where
  "get_unwrap bs i = (if i < length bs then Ok (bs ! i) else Panic)"

fun schema_offset :: "SchemaVersion \<Rightarrow> nat" where
  "schema_offset Schema0 = CHUNK_LENGTH + TIME_VERSION_LENGTH"
| "schema_offset Schema1 = TIME_VERSION_LENGTH"

definition find_digest_offset :: "digest_processor \<Rightarrow> SchemaVersion \<Rightarrow> (DigestError, nat) result" where
  "find_digest_offset dp version =
     (let so = schema_offset version in
      rbind (get_unwrap (dp_data dp) so) (\<lambda>b0.
      rbind (get_unwrap (dp_data dp) (so + 1)) (\<lambda>b1.
      rbind (get_unwrap (dp_data dp) (so + 2)) (\<lambda>b2.
      rbind (get_unwrap (dp_data dp) (so + 3)) (\<lambda>b3.
      Ok ((unat b0 + unat b1 + unat b2 + unat b3) mod (CHUNK_LENGTH - RTMP_DIGEST_LENGTH - 4) + so + 4))))))"

definition cook_raw_message ::
    "digest_processor \<Rightarrow> SchemaVersion \<Rightarrow> (DigestError, bytes \<times> bytes \<times> bytes) result" where
  "cook_raw_message dp version =
     rbind (find_digest_offset dp version) (\<lambda>digest_offset.
     rbind (slice (dp_data dp) 0 digest_offset) (\<lambda>left_part.
     rbind (slice (dp_data dp) digest_offset (digest_offset + RTMP_DIGEST_LENGTH)) (\<lambda>digest_data.
     rbind (slice (dp_data dp) (digest_offset + RTMP_DIGEST_LENGTH) (length (dp_data dp))) (\<lambda>right_part.
     Ok (left_part, digest_data, right_part)))))"

definition make_digest :: "hs_env \<Rightarrow> digest_processor \<Rightarrow> bytes \<Rightarrow> bytes \<Rightarrow> (DigestError, bytes) result" where
  "make_digest env dp left right =
     (let result = env_hmac env (dp_key dp) (left @ right)
      in if length result \<noteq> RTMP_DIGEST_LENGTH then Err DigestLengthNotCorrect else Ok result)"

definition generate_and_validate ::
    "hs_env \<Rightarrow> digest_processor \<Rightarrow> SchemaVersion \<Rightarrow> (DigestError, bytes) result" where
  "generate_and_validate env dp version =
     rbind (cook_raw_message dp version) (\<lambda>(left_part, digest_data, right_part).
     rbind (make_digest env dp left_part right_part) (\<lambda>digest.
     if digest_data = digest then Ok digest_data else Err CannotGenerate))"

definition read_digest ::
    "hs_env \<Rightarrow> digest_processor \<Rightarrow> (DigestError, bytes \<times> SchemaVersion) result" where
  "read_digest env dp =
     (case generate_and_validate env dp Schema0 of
        Ok digest \<Rightarrow> Ok (digest, Schema0)
      | Panic \<Rightarrow> Panic
      | OutOfFuel \<Rightarrow> OutOfFuel
      | Err _ \<Rightarrow> rbind (generate_and_validate env dp Schema1) (\<lambda>digest. Ok (digest, Schema1)))"

definition generate_and_fill_digest ::
    "hs_env \<Rightarrow> digest_processor \<Rightarrow> SchemaVersion \<Rightarrow> (DigestError, bytes \<times> bytes \<times> bytes) result" where
  "generate_and_fill_digest env dp version =
     rbind (cook_raw_message dp version) (\<lambda>(left_part, _, right_part).
     rbind (make_digest env dp left_part right_part) (\<lambda>computed_digest.
     Ok (left_part, computed_digest, right_part)))"

section \<open>The two servers\<close>

record simple_hs =
  sh_version :: RtmpVersion
  sh_requested_version :: RtmpVersion
  sh_state :: ServerHandshakeState
  sh_c1_bytes :: bytes
  sh_c1_timestamp :: u32

definition simple_default :: simple_hs where
  "simple_default = \<lparr>sh_version = UnknownVersion, sh_requested_version = UnknownVersion,
     sh_state = ReadC0C1, sh_c1_bytes = [], sh_c1_timestamp = 0\<rparr>"

record complex_hs =
  ch_version :: RtmpVersion
  ch_requested_version :: RtmpVersion
  ch_state :: ServerHandshakeState
  ch_schema_version :: SchemaVersion
  ch_c1_digest :: bytes
  ch_c1_timestamp :: u32
  ch_c1_version :: u32

definition complex_default :: complex_hs where
  "complex_default = \<lparr>ch_version = UnknownVersion, ch_requested_version = UnknownVersion,
     ch_state = ReadC0C1, ch_schema_version = Schema0, ch_c1_digest = [], ch_c1_timestamp = 0,
     ch_c1_version = 0\<rparr>"

text \<open>A handshake runs on the server, the input cursor and the output vector.\<close>

type_synonym ('h, 'a) hs_prog = "('h \<times> cursor \<times> bytes, HandshakeError, 'a) prog"

definition hs_in :: "(cursor, io_error, 'a) prog \<Rightarrow> ('h, 'a) hs_prog" where
  "hs_in m = (\<lambda>(h, c, out). case m c of (r, c') \<Rightarrow> (map_err HsIO r, (h, c', out)))"

definition hs_out :: "(bytes, io_error, 'a) prog \<Rightarrow> ('h, 'a) hs_prog" where
  "hs_out m = (\<lambda>(h, c, out). case m out of (r, out') \<Rightarrow> (map_err HsIO r, (h, c, out')))"

definition hs_upd :: "('h \<Rightarrow> 'h) \<Rightarrow> ('h, unit) hs_prog" where
  "hs_upd f = (\<lambda>(h, c, out). (Ok (), (f h, c, out)))"

definition hs_get :: "('h, 'h) hs_prog" where
  "hs_get = (\<lambda>(h, c, out). (Ok h, (h, c, out)))"

definition hs_digest :: "(DigestError, 'a) result \<Rightarrow> ('h, 'a) hs_prog" where
  "hs_digest r = lift_result (map_err HsDigest r)"

definition requested :: "u8 \<Rightarrow> RtmpVersion" where
  "requested b = (if b = 3 then Version3 else UnknownVersion)"

definition simple_read_c0 :: "(simple_hs, unit) hs_prog" where
  "simple_read_c0 = bindE (hs_in read_u8) (\<lambda>b.
     hs_upd (\<lambda>h. h\<lparr>sh_requested_version := requested b, sh_version := Version3\<rparr>))"

definition simple_read_c1 :: "(simple_hs, unit) hs_prog" where
  "simple_read_c1 =
     bindE (hs_in read_u32) (\<lambda>t.
     bindE (hs_upd (\<lambda>h. h\<lparr>sh_c1_timestamp := t\<rparr>)) (\<lambda>_.
     bindE (hs_in read_u32) (\<lambda>_.
     bindE (hs_in (extract_bytes (RTMP_HANDSHAKE_SIZE - TIME_VERSION_LENGTH))) (\<lambda>bs.
     hs_upd (\<lambda>h. h\<lparr>sh_c1_bytes := bs\<rparr>)))))"

definition hs_read_c2 :: "('h, unit) hs_prog" where
  "hs_read_c2 = bindE (hs_in (cursor_seek (SeekCurrent (int RTMP_HANDSHAKE_SIZE)))) (\<lambda>_. ret ())"

definition simple_write_s0 :: "(simple_hs, unit) hs_prog" where
  "simple_write_s0 = bindE hs_get (\<lambda>h. hs_out (write_u8 (rtmp_version_as_u8 (sh_version h))))"

definition simple_write_s1 :: "hs_env \<Rightarrow> (simple_hs, unit) hs_prog" where
  "simple_write_s1 env =
     bindE (hs_out (write_u32 (env_time_s1 env))) (\<lambda>_.
     bindE (hs_out (write_u32 0)) (\<lambda>_.
     hs_out (for_m [0..<1528] (\<lambda>i. write_u8 (env_rand_s1 env i)))))"

definition simple_write_s2 :: "hs_env \<Rightarrow> (simple_hs, unit) hs_prog" where
  "simple_write_s2 env =
     bindE hs_get (\<lambda>h.
     bindE (hs_out (write_u32 (sh_c1_timestamp h))) (\<lambda>_.
     bindE (hs_out (write_u32 (env_time_s2 env))) (\<lambda>_.
     hs_out (write_all (sh_c1_bytes h)))))"

definition complex_read_c0 :: "(complex_hs, unit) hs_prog" where
  "complex_read_c0 = bindE (hs_in read_u8) (\<lambda>b.
     hs_upd (\<lambda>h. h\<lparr>ch_requested_version := requested b, ch_version := Version3\<rparr>))"

definition complex_read_c1 :: "hs_env \<Rightarrow> (complex_hs, unit) hs_prog" where
  "complex_read_c1 env =
     bindE (hs_in (extract_bytes RTMP_HANDSHAKE_SIZE)) (\<lambda>c1_bytes.
     bindE (hs_upd (\<lambda>h. h\<lparr>ch_c1_timestamp := of_be (take 4 c1_bytes)\<rparr>)) (\<lambda>_.
     bindE (hs_upd (\<lambda>h. h\<lparr>ch_c1_version := of_be (take 4 (drop 4 c1_bytes))\<rparr>)) (\<lambda>_.
     bindE (hs_digest (read_digest env (digest_new c1_bytes RTMP_CLIENT_KEY_FIRST_HALF)))
       (\<lambda>(c1_digest_data, schema_version).
     hs_upd (\<lambda>h. h\<lparr>ch_c1_digest := c1_digest_data, ch_schema_version := schema_version\<rparr>)))))"

definition complex_write_s0 :: "(complex_hs, unit) hs_prog" where
  "complex_write_s0 = bindE hs_get (\<lambda>h. hs_out (write_u8 (rtmp_version_as_u8 (ch_version h))))"

definition s1_random :: "hs_env \<Rightarrow> bytes" where
  "s1_random env = be32 (env_time_s1 env) @ be32 RTMP_SERVER_VERSION
     @ map (env_rand_s1 env) [0..<RTMP_HANDSHAKE_SIZE - TIME_VERSION_LENGTH]"

definition complex_write_s1 :: "hs_env \<Rightarrow> (complex_hs, unit) hs_prog" where
  "complex_write_s1 env =
     bindE hs_get (\<lambda>h.
     bindE (hs_digest (generate_and_fill_digest env (digest_new (s1_random env) RTMP_SERVER_KEY_FIRST_HALF)
              (ch_schema_version h))) (\<lambda>(first, second, third).
     bindE (hs_out (write_all first)) (\<lambda>_.
     bindE (hs_out (write_all second)) (\<lambda>_.
     hs_out (write_all third)))))"

definition complex_write_s2 :: "hs_env \<Rightarrow> (complex_hs, unit) hs_prog" where
  "complex_write_s2 env =
     (\<lambda>(h0, c0, out0). let start = length out0 in
     bindE hs_get (\<lambda>h.
     bindE (hs_out (write_u32 (env_time_s2 env))) (\<lambda>_.
     bindE (hs_out (write_u32 (ch_c1_timestamp h))) (\<lambda>_.
     bindE (hs_out (for_m [0..<RTMP_HANDSHAKE_SIZE - RTMP_DIGEST_LENGTH - TIME_VERSION_LENGTH]
              (\<lambda>i. write_u8 (env_rand_s2 env i)))) (\<lambda>_.
     bindE (hs_digest (make_digest env (digest_new [] RTMP_SERVER_KEY) (ch_c1_digest h) [])) (\<lambda>key.
     bindE (\<lambda>(h, c, out). (slice out start (start + RTMP_HANDSHAKE_SIZE - RTMP_DIGEST_LENGTH), (h, c, out))) (\<lambda>part.
     bindE (hs_digest (make_digest env (digest_new [] key) part [])) (\<lambda>digest.
     hs_out (write_all digest)))))))) (h0, c0, out0))"

text \<open>The loops over the states; three rounds are enough, and \<open>OutOfFuel\<close> is shown not to occur.\<close>

fun simple_loop :: "nat \<Rightarrow> hs_env \<Rightarrow> (simple_hs, unit) hs_prog" where
  "simple_loop 0 env = out_of_fuel"
| "simple_loop (Suc fuel) env =
     bindE hs_get (\<lambda>h. case sh_state h of
       ReadC0C1 \<Rightarrow> bindE simple_read_c0 (\<lambda>_. bindE simple_read_c1 (\<lambda>_.
         bindE (hs_upd (\<lambda>h. h\<lparr>sh_state := WriteS0S1S2\<rparr>)) (\<lambda>_. simple_loop fuel env)))
     | WriteS0S1S2 \<Rightarrow> bindE simple_write_s0 (\<lambda>_. bindE (simple_write_s1 env) (\<lambda>_.
         bindE (simple_write_s2 env) (\<lambda>_. hs_upd (\<lambda>h. h\<lparr>sh_state := ReadC2\<rparr>))))
     | ReadC2 \<Rightarrow> bindE hs_read_c2 (\<lambda>_. bindE (hs_upd (\<lambda>h. h\<lparr>sh_state := Finish\<rparr>)) (\<lambda>_. simple_loop fuel env))
     | Finish \<Rightarrow> ret ())"

fun complex_loop :: "nat \<Rightarrow> hs_env \<Rightarrow> (complex_hs, unit) hs_prog" where
  "complex_loop 0 env = out_of_fuel"
| "complex_loop (Suc fuel) env =
     bindE hs_get (\<lambda>h. case ch_state h of
       ReadC0C1 \<Rightarrow> bindE complex_read_c0 (\<lambda>_. bindE (complex_read_c1 env) (\<lambda>_.
         bindE (hs_upd (\<lambda>h. h\<lparr>ch_state := WriteS0S1S2\<rparr>)) (\<lambda>_. complex_loop fuel env)))
     | WriteS0S1S2 \<Rightarrow> bindE complex_write_s0 (\<lambda>_. bindE (complex_write_s1 env) (\<lambda>_.
         bindE (complex_write_s2 env) (\<lambda>_. hs_upd (\<lambda>h. h\<lparr>ch_state := ReadC2\<rparr>))))
     | ReadC2 \<Rightarrow> bindE hs_read_c2 (\<lambda>_. bindE (hs_upd (\<lambda>h. h\<lparr>ch_state := Finish\<rparr>)) (\<lambda>_. complex_loop fuel env))
     | Finish \<Rightarrow> ret ())"

definition simple_handshake :: "hs_env \<Rightarrow> (simple_hs, unit) hs_prog" where
  "simple_handshake env = simple_loop 3 env"

definition complex_handshake :: "hs_env \<Rightarrow> (complex_hs, unit) hs_prog" where
  "complex_handshake env = complex_loop 3 env"

section \<open>The server with fallback\<close>

datatype HandshakeServer = SimpleServer simple_hs | ComplexServer complex_hs

definition handshake_default :: HandshakeServer where
  "handshake_default = ComplexServer complex_default"

fun handshake_state :: "HandshakeServer \<Rightarrow> ServerHandshakeState" where
  "handshake_state (SimpleServer h) = sh_state h"
| "handshake_state (ComplexServer h) = ch_state h"

text \<open>When the simple handshake fails after the complex one has failed, the server keeps the complex
  variant.\<close>

definition handshake :: "hs_env \<Rightarrow> (HandshakeServer, unit) hs_prog" where
  "handshake env = (\<lambda>(server, input, out). case server of
     ComplexServer h \<Rightarrow>
       (case complex_handshake env (h, input, out) of
          (Err _, (h', input', out')) \<Rightarrow>
            (case hs_in (cursor_seek (SeekStart (cur_pos input))) (simple_default, input', out') of
               (Ok _, s) \<Rightarrow>
                 (case simple_handshake env s of
                    (Ok _, (simple, input'', out'')) \<Rightarrow> (Ok (), (SimpleServer simple, input'', out''))
                  | (r, (simple, input'', out'')) \<Rightarrow> (r, (ComplexServer h', input'', out'')))
             | (r, (simple, input'', out'')) \<Rightarrow> (map_err id (rbind r (\<lambda>_. Ok ())), (ComplexServer h', input'', out'')))
        | (r, (h', input', out')) \<Rightarrow> (r, (ComplexServer h', input', out')))
   | SimpleServer h \<Rightarrow>
       (case simple_handshake env (h, input, out) of
          (r, (h', input', out')) \<Rightarrow> (r, (SimpleServer h', input', out'))))"

section \<open>Digests\<close>

lemma find_digest_offset_ok:
  assumes "length (dp_data dp) = RTMP_HANDSHAKE_SIZE"
  obtains off where "find_digest_offset dp v = Ok off" "schema_offset v + 4 \<le> off"
    "off + RTMP_DIGEST_LENGTH \<le> RTMP_HANDSHAKE_SIZE"
    "off = (unat (dp_data dp ! schema_offset v) + unat (dp_data dp ! (schema_offset v + 1))
        + unat (dp_data dp ! (schema_offset v + 2)) + unat (dp_data dp ! (schema_offset v + 3)))
      mod (CHUNK_LENGTH - RTMP_DIGEST_LENGTH - 4) + schema_offset v + 4"
proof -
  have so: "schema_offset v + 764 \<le> 1536" by (cases v) (simp_all add: hs_sizes)
  let ?off = "(unat (dp_data dp ! schema_offset v) + unat (dp_data dp ! (schema_offset v + 1))
        + unat (dp_data dp ! (schema_offset v + 2)) + unat (dp_data dp ! (schema_offset v + 3)))
      mod (CHUNK_LENGTH - RTMP_DIGEST_LENGTH - 4) + schema_offset v + 4"
  have "(unat (dp_data dp ! schema_offset v) + unat (dp_data dp ! (schema_offset v + 1))
        + unat (dp_data dp ! (schema_offset v + 2)) + unat (dp_data dp ! (schema_offset v + 3)))
      mod (CHUNK_LENGTH - RTMP_DIGEST_LENGTH - 4) < 728"
    by (simp add: hs_sizes)
  with so have "?off + RTMP_DIGEST_LENGTH \<le> RTMP_HANDSHAKE_SIZE" by (simp add: RTMP_DIGEST_LENGTH_def RTMP_HANDSHAKE_SIZE_def)
  moreover have "find_digest_offset dp v = Ok ?off"
    using assms so by (simp add: find_digest_offset_def get_unwrap_def Let_def RTMP_HANDSHAKE_SIZE_def)
  ultimately show thesis by (intro that [of ?off]) simp_all
qed

lemma cook_raw_message_ok:
  assumes "length (dp_data dp) = RTMP_HANDSHAKE_SIZE"
  obtains off where "find_digest_offset dp v = Ok off" "schema_offset v + 4 \<le> off"
    "off + RTMP_DIGEST_LENGTH \<le> RTMP_HANDSHAKE_SIZE"
    "cook_raw_message dp v = Ok (take off (dp_data dp), take RTMP_DIGEST_LENGTH (drop off (dp_data dp)),
       drop (off + RTMP_DIGEST_LENGTH) (dp_data dp))"
proof -
  from find_digest_offset_ok [OF assms, of v] obtain off where off: "find_digest_offset dp v = Ok off"
    "schema_offset v + 4 \<le> off" "off + RTMP_DIGEST_LENGTH \<le> RTMP_HANDSHAKE_SIZE" by metis
  then have "cook_raw_message dp v = Ok (take off (dp_data dp), take RTMP_DIGEST_LENGTH (drop off (dp_data dp)),
       drop (off + RTMP_DIGEST_LENGTH) (dp_data dp))"
    using assms by (simp add: cook_raw_message_def slice_def)
  with off show thesis by (rule that)
qed

text \<open>Replacing the digest does not move it: its offset is computed from bytes in front of it.\<close>

lemma find_digest_offset_cong:
  assumes "length data = RTMP_HANDSHAKE_SIZE" "length data' = RTMP_HANDSHAKE_SIZE"
    and "\<And>i. i < schema_offset v + 4 \<Longrightarrow> data' ! i = data ! i"
  shows "find_digest_offset \<lparr>dp_data = data', dp_key = k'\<rparr> v = find_digest_offset \<lparr>dp_data = data, dp_key = k\<rparr> v"
proof -
  have so: "schema_offset v + 764 \<le> 1536" by (cases v) (simp_all add: hs_sizes)
  have "get_unwrap data' (schema_offset v + i) = (get_unwrap data (schema_offset v + i) :: (DigestError, u8) result)"
    if "i < 4" for i using that so assms by (simp add: get_unwrap_def)
  from this [of 0] this [of 1] this [of 2] this [of 3] show ?thesis
    by (simp only: find_digest_offset_def Let_def digest_processor.simps add_0_right)
qed

lemma cook_filled:
  assumes len: "length data = RTMP_HANDSHAKE_SIZE" and dig: "length dig = RTMP_DIGEST_LENGTH"
    and cook: "cook_raw_message \<lparr>dp_data = data, dp_key = k\<rparr> v = Ok (l, d, r)"
  shows "cook_raw_message \<lparr>dp_data = l @ dig @ r, dp_key = k'\<rparr> v = Ok (l, dig, r)
       \<and> length (l @ dig @ r) = RTMP_HANDSHAKE_SIZE"
proof -
  obtain off where off: "find_digest_offset \<lparr>dp_data = data, dp_key = k\<rparr> v = Ok off" "schema_offset v + 4 \<le> off"
    "off + RTMP_DIGEST_LENGTH \<le> RTMP_HANDSHAKE_SIZE"
    and ck: "cook_raw_message \<lparr>dp_data = data, dp_key = k\<rparr> v = Ok (take off data,
       take RTMP_DIGEST_LENGTH (drop off data), drop (off + RTMP_DIGEST_LENGTH) data)"
    using cook_raw_message_ok [of "\<lparr>dp_data = data, dp_key = k\<rparr>" v] len
    by (metis digest_processor.select_convs(1))
  from cook ck have lr: "l = take off data" "r = drop (off + RTMP_DIGEST_LENGTH) data" by simp_all
  have ll: "length l = off" and len': "length (l @ dig @ r) = RTMP_HANDSHAKE_SIZE"
    using off len dig by (simp_all add: lr)
  have same: "(l @ dig @ r) ! i = data ! i" if "i < schema_offset v + 4" for i
    using that off(2) ll by (simp add: nth_append lr(1))
  have "find_digest_offset \<lparr>dp_data = l @ dig @ r, dp_key = k'\<rparr> v = Ok off"
    using find_digest_offset_cong [OF len len' same, where k' = k' and k = k] off(1) by simp
  moreover have "slice (l @ dig @ r) 0 off = (Ok l :: (DigestError, bytes) result)"
    "slice (l @ dig @ r) off (off + RTMP_DIGEST_LENGTH) = (Ok dig :: (DigestError, bytes) result)"
    "slice (l @ dig @ r) (off + RTMP_DIGEST_LENGTH) (length (l @ dig @ r)) = (Ok r :: (DigestError, bytes) result)"
    using ll dig by (simp_all add: slice_def)
  ultimately show ?thesis
    using len' unfolding cook_raw_message_def digest_processor.simps by simp
qed

lemma digest_fill_ok:
  assumes hmac: "\<forall>k m. length (env_hmac env k m) = 32" and len: "length data = RTMP_HANDSHAKE_SIZE"
  shows "\<exists>l d r. generate_and_fill_digest env (digest_new data key) v = Ok (l, d, r)
     \<and> length (l @ d @ r) = RTMP_HANDSHAKE_SIZE
     \<and> generate_and_validate env (digest_new (l @ d @ r) key) v = Ok d"
proof -
  obtain l d r where cook: "cook_raw_message \<lparr>dp_data = data, dp_key = key\<rparr> v = Ok (l, d, r)"
    using len by (metis cook_raw_message_ok digest_processor.select_convs(1))
  define dig where "dig = env_hmac env key (l @ r)"
  have dig: "length dig = RTMP_DIGEST_LENGTH" using hmac by (simp add: dig_def RTMP_DIGEST_LENGTH_def)
  note filled = conjunct1 [OF cook_filled [OF len dig cook, of key]] conjunct2 [OF cook_filled [OF len dig cook, of key]]
  have "generate_and_fill_digest env (digest_new data key) v = Ok (l, dig, r)"
    using dig by (simp add: generate_and_fill_digest_def digest_new_def cook make_digest_def dig_def [symmetric])
  moreover have "generate_and_validate env (digest_new (l @ dig @ r) key) v = Ok dig"
    using dig by (simp add: generate_and_validate_def digest_new_def filled make_digest_def dig_def [symmetric])
  ultimately show ?thesis using filled(2) by blast
qed

text \<open>C15: the digest the server places in S1 is found and confirmed by the check that is applied to
  C1: whatever 1536 bytes of random data S1 starts from and whichever schema is used, filling in the
  digest neither moves its place nor changes the bytes it covers.\<close>

theorem digest_filled_validates:
  assumes hmac: "\<forall>k m. length (env_hmac env k m) = 32" and len: "length data = RTMP_HANDSHAKE_SIZE"
  shows "\<exists>l d r. generate_and_fill_digest env (digest_new data key) v = Ok (l, d, r)
     \<and> length (l @ d @ r) = RTMP_HANDSHAKE_SIZE
     \<and> generate_and_validate env (digest_new (l @ d @ r) key) v = Ok d"
  by (rule digest_fill_ok [OF assms])

definition sample_env :: hs_env where
  "sample_env = \<lparr>env_hmac = (\<lambda>k m. take 32 (k @ m @ replicate 32 0)), env_time_s1 = 1, env_time_s2 = 2,
     env_rand_s1 = (\<lambda>i. word_of_nat i), env_rand_s2 = (\<lambda>i. word_of_nat (i + 1))\<rparr>"

lemma sample_env_hmac: "\<forall>k m. length (env_hmac sample_env k m) = 32"
  by (auto simp: sample_env_def min_def)

theorem digest_filled_validates_witness:
  "\<exists>l d r. generate_and_fill_digest sample_env (digest_new (replicate 1536 7) RTMP_SERVER_KEY_FIRST_HALF) Schema0
       = Ok (l, d, r)
     \<and> length (l @ d @ r) = RTMP_HANDSHAKE_SIZE
     \<and> generate_and_validate sample_env (digest_new (l @ d @ r) RTMP_SERVER_KEY_FIRST_HALF) Schema0 = Ok d"
  using digest_filled_validates [OF sample_env_hmac] by (simp add: RTMP_HANDSHAKE_SIZE_def)

section \<open>The server\<close>

lemma hs_run [run_simps]:
  "m c = (Ok x, c') \<Longrightarrow> hs_in m (h, c, out) = (Ok x, (h, c', out))"
  "m c = (Err e, c') \<Longrightarrow> hs_in m (h, c, out) = (Err (HsIO e), (h, c', out))"
  "w out = (Ok y, out') \<Longrightarrow> hs_out w (h, c, out) = (Ok y, (h, c, out'))"
  "hs_upd f (h, c, out) = (Ok (), (f h, c, out))"
  "hs_get (h, c, out) = (Ok h, (h, c, out))"
  by (simp_all add: hs_in_def hs_out_def hs_upd_def hs_get_def)

lemma hs_digest_run [run_simps]:
  "hs_digest (Ok z) s = (Ok z, s)" "hs_digest (Err e) s = (Err (HsDigest e), s)"
  by (simp_all add: hs_digest_def lift_result_def)

lemma write_each_run: "for_m is (\<lambda>i. write_u8 (f i)) out = (Ok (), out @ map f is)"
  by (induction "is" arbitrary: out) (simp_all add: run_simps)

lemma read_digest_cases:
  assumes hmac: "\<forall>k m. length (env_hmac env k m) = 32" and len: "length data = RTMP_HANDSHAKE_SIZE"
  obtains dig v where "read_digest env (digest_new data key) = Ok (dig, v)"
    | e where "read_digest env (digest_new data key) = Err e"
proof -
  have "(\<exists>d. generate_and_validate env (digest_new data key) v = Ok d)
      \<or> (\<exists>e. generate_and_validate env (digest_new data key) v = Err e)" for v
  proof -
    obtain l d r where "cook_raw_message (digest_new data key) v = Ok (l, d, r)"
      using len cook_raw_message_ok [of "digest_new data key" v]
      by (metis digest_new_def digest_processor.select_convs(1))
    then show ?thesis using hmac
      by (simp add: generate_and_validate_def make_digest_def RTMP_DIGEST_LENGTH_def)
  qed
  from this [of Schema0] this [of Schema1] that show thesis
    by (auto simp: read_digest_def)
qed

text \<open>The two packets of the simple server for a C1 that is \<open>be32 t @ be32 z @ body\<close>.\<close>

definition simple_reply :: "hs_env \<Rightarrow> u32 \<Rightarrow> bytes \<Rightarrow> bytes" where
  "simple_reply env t body = 3 # be32 (env_time_s1 env) @ be32 0 @ map (env_rand_s1 env) [0..<1528]
     @ be32 t @ be32 (env_time_s2 env) @ body"

lemma simple_first_run:
  assumes "length body = 1528"
  shows "\<exists>h. simple_handshake env (simple_default, curs pre (c0 # be32 t @ be32 z @ body @ rest), out)
     = (Ok (), (h, curs (pre @ c0 # be32 t @ be32 z @ body) rest, out @ simple_reply env t body))
     \<and> sh_state h = ReadC2"
proof -
  have ex: "extract_bytes 1528 (curs p (body @ rest)) = (Ok body, curs (p @ body) rest)" for p
    using assms by (intro extract_bytes_curs)
  show ?thesis
    by (simp add: simple_handshake_def numeral_3_eq_3 simple_default_def simple_read_c0_def simple_read_c1_def
        simple_write_s0_def simple_write_s1_def simple_write_s2_def run_simps ex hs_sizes
        write_each_run simple_reply_def del: upt_Suc)
qed

lemma complex_s1_run:
  assumes hmac: "\<forall>k m. length (env_hmac env k m) = 32"
  shows "\<exists>s1. length s1 = RTMP_HANDSHAKE_SIZE
     \<and> (\<forall>h c out. ch_schema_version h = v \<longrightarrow> complex_write_s1 env (h, c, out) = (Ok (), (h, c, out @ s1)))"
proof -
  have "length (s1_random env) = RTMP_HANDSHAKE_SIZE" by (simp add: s1_random_def hs_sizes)
  from digest_fill_ok [OF hmac this, of RTMP_SERVER_KEY_FIRST_HALF v] obtain l d r where
    g: "generate_and_fill_digest env (digest_new (s1_random env) RTMP_SERVER_KEY_FIRST_HALF) v = Ok (l, d, r)"
    "length (l @ d @ r) = RTMP_HANDSHAKE_SIZE" by blast
  then show ?thesis
    by (intro exI [of _ "l @ d @ r"]) (simp add: complex_write_s1_def run_simps)
qed

lemma complex_s2_run:
  assumes hmac: "\<forall>k m. length (env_hmac env k m) = 32"
  shows "\<exists>s2. length s2 = RTMP_HANDSHAKE_SIZE \<and> complex_write_s2 env (h, c, out) = (Ok (), (h, c, out @ s2))"
proof -
  define body where "body = be32 (env_time_s2 env) @ be32 (ch_c1_timestamp h) @ map (env_rand_s2 env) [0..<1496]"
  define key where "key = env_hmac env RTMP_SERVER_KEY (ch_c1_digest h)"
  have body: "length body = 1504" by (simp add: body_def)
  have sl: "slice (out @ body) (length out) (length out + 1536 - 32) = (Ok body :: (HandshakeError, bytes) result)"
    using body by (simp add: slice_def)
  have "complex_write_s2 env (h, c, out) = (Ok (), (h, c, out @ body @ env_hmac env key body))"
    using hmac sl by (simp add: complex_write_s2_def run_simps write_each_run hs_sizes make_digest_def
        digest_new_def body_def key_def Let_def del: upt_Suc)
  moreover have "length (body @ env_hmac env key body) = RTMP_HANDSHAKE_SIZE"
    using hmac body by (simp add: hs_sizes)
  ultimately show ?thesis by blast
qed

lemma complex_first_run:
  assumes hmac: "\<forall>k m. length (env_hmac env k m) = 32" and len: "length c1 = RTMP_HANDSHAKE_SIZE"
  shows "(\<exists>h reply. complex_handshake env (complex_default, curs pre (c0 # c1 @ rest), out)
        = (Ok (), (h, curs (pre @ c0 # c1) rest, out @ 3 # reply))
        \<and> length reply = 2 * RTMP_HANDSHAKE_SIZE \<and> ch_state h = ReadC2)
   \<or> (\<exists>e h c. complex_handshake env (complex_default, curs pre (c0 # c1 @ rest), out) = (Err e, (h, c, out))
        \<and> cur_data c = pre @ c0 # c1 @ rest)"
proof -
  have ex: "extract_bytes RTMP_HANDSHAKE_SIZE (curs p (c1 @ rest)) = (Ok c1, curs (p @ c1) rest)" for p
    using len by (intro extract_bytes_curs)
  note start = complex_handshake_def numeral_3_eq_3 complex_default_def complex_read_c0_def complex_read_c1_def
    complex_write_s0_def
  from read_digest_cases [OF hmac len, of RTMP_CLIENT_KEY_FIRST_HALF] show ?thesis
  proof cases
    case (1 dig v)
    let ?h = "\<lparr>ch_version = Version3, ch_requested_version = requested c0, ch_state = WriteS0S1S2,
       ch_schema_version = v, ch_c1_digest = dig, ch_c1_timestamp = of_be (take 4 c1),
       ch_c1_version = of_be (take 4 (drop 4 c1))\<rparr>"
    from complex_s1_run [OF hmac, of v] obtain s1 where s1: "length s1 = RTMP_HANDSHAKE_SIZE"
      "\<And>c out. complex_write_s1 env (?h, c, out) = (Ok (), (?h, c, out @ s1))" by auto
    from complex_s2_run [OF hmac, of ?h "curs (pre @ c0 # c1) rest" "out @ 3 # s1"] obtain s2 where
      s2: "length s2 = RTMP_HANDSHAKE_SIZE" "complex_write_s2 env (?h, curs (pre @ c0 # c1) rest, out @ 3 # s1)
        = (Ok (), (?h, curs (pre @ c0 # c1) rest, (out @ 3 # s1) @ s2))" by blast
    have "complex_handshake env (complex_default, curs pre (c0 # c1 @ rest), out)
        = (Ok (), (?h\<lparr>ch_state := ReadC2\<rparr>, curs (pre @ c0 # c1) rest, out @ 3 # s1 @ s2))"
      using s2(2) by (simp add: start run_simps ex 1 s1(2))
    moreover have "length (s1 @ s2) = 2 * RTMP_HANDSHAKE_SIZE" using s1 s2 by simp
    moreover have "ch_state (?h\<lparr>ch_state := ReadC2\<rparr>) = ReadC2" by simp
    ultimately show ?thesis by blast
  next
    case (2 e)
    then show ?thesis by (simp add: start run_simps ex)
  qed
qed

lemma simple_first_run':
  assumes "length c1 = RTMP_HANDSHAKE_SIZE"
  shows "\<exists>h reply. simple_handshake env (simple_default, curs pre (c0 # c1 @ rest), out)
     = (Ok (), (h, curs (pre @ c0 # c1) rest, out @ 3 # reply)) \<and> sh_state h = ReadC2
     \<and> length reply = 2 * RTMP_HANDSHAKE_SIZE \<and> drop (RTMP_HANDSHAKE_SIZE + 8) reply = drop 8 c1
     \<and> take 4 (drop RTMP_HANDSHAKE_SIZE reply) = take 4 c1"
proof -
  define t z body where "t = (of_be (take 4 c1) :: u32)" and "z = (of_be (take 4 (drop 4 c1)) :: u32)"
    and "body = drop 8 c1"
  have "be32 t = take 4 c1" "be32 z = take 4 (drop 4 c1)"
    using be_bytes_of_be [of "take 4 c1", where 'a = 32] be_bytes_of_be [of "take 4 (drop 4 c1)", where 'a = 32] assms
    by (simp_all add: be32_def t_def z_def RTMP_HANDSHAKE_SIZE_def)
  then have c1: "c1 = be32 t @ be32 z @ body"
    by (simp add: body_def) (metis append_take_drop_id drop_drop numeral_Bit0)
  have "length body = 1528" using assms by (simp add: body_def RTMP_HANDSHAKE_SIZE_def)
  from simple_first_run [OF this, of env pre c0 t z rest out] obtain h where
    "simple_handshake env (simple_default, curs pre (c0 # c1 @ rest), out)
     = (Ok (), (h, curs (pre @ c0 # c1) rest, out @ simple_reply env t body))" "sh_state h = ReadC2"
    by (auto simp: c1)
  then show ?thesis using \<open>length body = 1528\<close>
    by (intro exI [of _ h] exI [of _ "tl (simple_reply env t body)"])
       (simp add: simple_reply_def RTMP_HANDSHAKE_SIZE_def c1 del: upt_Suc)
qed

lemma hs_read_c2_run:
  "length c2 = RTMP_HANDSHAKE_SIZE \<Longrightarrow>
   hs_read_c2 (h, curs pre (c2 @ rest), out) = (Ok (), (h, curs (pre @ c2) rest, out))"
  by (simp add: hs_read_c2_def hs_in_def bindE_def cursor_seek_def ret_def curs_def nat_add_distrib)

lemma handshake_first_run:
  assumes hmac: "\<forall>k m. length (env_hmac env k m) = 32" and len: "length c1 = RTMP_HANDSHAKE_SIZE"
  shows "\<exists>server reply. handshake env (handshake_default, cursor_new (c0 # c1 @ rest), out)
       = (Ok (), (server, curs (c0 # c1) rest, out @ 3 # reply))
     \<and> length reply = 2 * RTMP_HANDSHAKE_SIZE \<and> handshake_state server = ReadC2
     \<and> (\<forall>h. server = SimpleServer h \<longrightarrow> take 4 (drop RTMP_HANDSHAKE_SIZE reply) = take 4 c1
          \<and> drop (RTMP_HANDSHAKE_SIZE + 8) reply = drop 8 c1)"
  using complex_first_run [OF hmac len, of "[]" c0 rest out]
proof (elim disjE exE conjE)
  fix h reply
  assume "complex_handshake env (complex_default, curs [] (c0 # c1 @ rest), out)
        = (Ok (), (h, curs ([] @ c0 # c1) rest, out @ 3 # reply))"
    "length reply = 2 * RTMP_HANDSHAKE_SIZE" "ch_state h = ReadC2"
  then show ?thesis
    by (intro exI [of _ "ComplexServer h"] exI [of _ reply])
       (simp add: handshake_def handshake_default_def cursor_new_curs)
next
  fix e h c
  assume fail: "complex_handshake env (complex_default, curs [] (c0 # c1 @ rest), out) = (Err e, (h, c, out))"
    and c: "cur_data c = [] @ c0 # c1 @ rest"
  have rewound: "hs_in (cursor_seek (SeekStart 0)) (simple_default, c, out)
      = (Ok 0, (simple_default, curs [] (c0 # c1 @ rest), out))"
    using c by (simp add: hs_in_def cursor_seek_def curs_def)
  from simple_first_run' [OF len, of env "[]" c0 rest out] obtain h' reply where
    "simple_handshake env (simple_default, curs [] (c0 # c1 @ rest), out)
       = (Ok (), (h', curs (c0 # c1) rest, out @ 3 # reply))" "sh_state h' = ReadC2"
    "length reply = 2 * RTMP_HANDSHAKE_SIZE" "drop (RTMP_HANDSHAKE_SIZE + 8) reply = drop 8 c1"
    "take 4 (drop RTMP_HANDSHAKE_SIZE reply) = take 4 c1" by auto
  then show ?thesis
    by (intro exI [of _ "SimpleServer h'"] exI [of _ reply])
       (simp add: handshake_def handshake_default_def cursor_new_curs fail rewound)
qed

text \<open>C16: the first stage of the handshake succeeds for every C0 and every C1 of 1536 bytes: the
  server consumes exactly C0 and C1, answers with the version byte 3 and the 3072 bytes of S1 and S2
  (also when the complex handshake fails and the simple one takes over: nothing of the failed attempt
  is left in the output), and waits for C2. In the simple case S2 carries the time and echoes the
  random bytes of C1.\<close>

theorem handshake_first_stage:
  assumes hmac: "\<forall>k m. length (env_hmac env k m) = 32" and len: "length c1 = RTMP_HANDSHAKE_SIZE"
  shows "\<exists>server reply. handshake env (handshake_default, cursor_new (c0 # c1 @ rest), out)
       = (Ok (), (server, curs (c0 # c1) rest, out @ 3 # reply))
     \<and> length reply = 2 * RTMP_HANDSHAKE_SIZE \<and> handshake_state server = ReadC2
     \<and> (\<forall>h. server = SimpleServer h \<longrightarrow> take 4 (drop RTMP_HANDSHAKE_SIZE reply) = take 4 c1
          \<and> drop (RTMP_HANDSHAKE_SIZE + 8) reply = drop 8 c1)"
  by (rule handshake_first_run [OF assms])

theorem handshake_first_stage_witness:
  "\<exists>server reply. handshake sample_env (handshake_default, cursor_new (3 # replicate 1536 0 @ [9]), [])
       = (Ok (), (server, curs (3 # replicate 1536 0) [9], [] @ 3 # reply))
     \<and> length reply = 2 * RTMP_HANDSHAKE_SIZE \<and> handshake_state server = ReadC2"
proof -
  have "length (replicate 1536 (0 :: u8)) = RTMP_HANDSHAKE_SIZE" by (simp only: length_replicate RTMP_HANDSHAKE_SIZE_def)
  from handshake_first_stage [OF sample_env_hmac this, of 3 "[9]" "[]"] show ?thesis by blast
qed

lemma handshake_second_run:
  assumes "handshake_state server = ReadC2" "length c2 = RTMP_HANDSHAKE_SIZE"
  shows "\<exists>server'. handshake env (server, cursor_new (c2 @ rest), out) = (Ok (), (server', curs c2 rest, out))
     \<and> handshake_state server' = Finish"
  using assms(1)
  by (cases server) (simp_all add: handshake_def simple_handshake_def complex_handshake_def numeral_3_eq_3
      cursor_new_curs run_simps hs_read_c2_run [OF assms(2)])

end
