(* ===== verification/Rtmp_Session.thy ===== *)
theory Rtmp_Session
  imports Rtmp_Messages Rtmp_Handshake
begin

text \<open>
  The RTMP server session (\<^verbatim>\<open>crates/rtmp/src/session\<close>): handshake, chunk parsing, dispatch of
  messages and the command handlers. The socket and the two channels to the application are outside
  the program. What arrives on the socket is a list of events (data, end of stream, an error, a
  silence longer than the timeout); what the application answers to a publish request or to a data
  item, and whether a write succeeds, is given by functions of what has been sent so far, so that any
  reactive behaviour is covered. Reads, writes and the delivery of data have timeouts in the code, and failing
  by timeout is one of the answers; a publish request has none, so that the application may also leave the session waiting
  for ever, before it takes the request or before it answers it. The session logs what it sends.
\<close>

section \<open>Session state and environment\<close>

type_synonym unique_id = "128 word"

datatype ChannelData = ChVideo u32 bytes | ChAudio u32 bytes | ChMetadata u32 bytes

fun channel_timestamp :: "ChannelData \<Rightarrow> u32" where
  "channel_timestamp (ChVideo t _) = t" | "channel_timestamp (ChAudio t _) = t"
| "channel_timestamp (ChMetadata t _) = t"

fun channel_data :: "ChannelData \<Rightarrow> bytes" where
  "channel_data (ChVideo _ d) = d" | "channel_data (ChAudio _ d) = d" | "channel_data (ChMetadata _ d) = d"

datatype net_error = ConnectionAborted | ConnectionReset | NetUnexpectedEof | OtherNetError

datatype SessionError = SeHandshake HandshakeError | SeMessage MessageError
  | SeChunkDecode ChunkDecodeError | SeProtocolControl ProtocolControlMessageError
  | SeNetStream NetStreamError | SeNetConnection NetConnectionError | SeEventMessages EventMessagesError
  | UnknownStreamID u32 | PublisherDisconnected unique_id | SeIo net_error | SeTimeout | NoAppName
  | NoStreamName | PublishRequestDenied | ConnectRequestDenied | PlayNotSupported | PublisherDropped
  | InvalidChunkSize nat

fun is_client_closed :: "SessionError \<Rightarrow> bool" where
  "is_client_closed (SeIo e) \<longleftrightarrow> e = ConnectionAborted \<or> e = ConnectionReset \<or> e = NetUnexpectedEof"
| "is_client_closed SeTimeout \<longleftrightarrow> True"
| "is_client_closed _ \<longleftrightarrow> False"

datatype io_event = IoBytes bytes | IoEof | IoError net_error | IoStall

text \<open>How the application reacts to a publish request: the channel is closed, or full for ever; the request is
  dropped, answered with an id, or kept without an answer.\<close>

datatype publish_answer = NotSent | SendBlocks | Refused | Granted unique_id | Unanswered

record session_env =
  se_hs :: hs_env
  se_publish :: "(bytes \<times> bytes) list \<Rightarrow> bytes \<times> bytes \<Rightarrow> publish_answer"
  se_data_ok :: "ChannelData list \<Rightarrow> ChannelData \<Rightarrow> bool"
  se_write :: "bytes \<Rightarrow> bytes \<Rightarrow> SessionError option"

record session =
  s_app_name :: "bytes option"
  s_uid :: "unique_id option"
  s_read_buf :: bytes
  s_write_buf :: bytes
  s_skip_read :: bool
  s_chunk_decoder :: chunk_decoder
  s_chunk_encoder :: chunk_encoder
  s_stream_id :: u32
  s_is_publishing :: bool
  s_input :: "io_event list"
  s_sent :: bytes
  s_delivered :: "ChannelData list"
  s_requests :: "(bytes \<times> bytes) list"

definition session_new :: "io_event list \<Rightarrow> session" where
  "session_new input = \<lparr>s_app_name = None, s_uid = None, s_read_buf = [], s_write_buf = [],
     s_skip_read = False, s_chunk_decoder = chunk_decoder_default,
     s_chunk_encoder = chunk_encoder_default, s_stream_id = 0, s_is_publishing = False,
     s_input = input, s_sent = [], s_delivered = [], s_requests = []\<rparr>"

type_synonym 'a session_prog = "(session, SessionError, 'a) prog"

definition s_get :: "session session_prog" where
  "s_get s = (Ok s, s)"

definition s_upd :: "(session \<Rightarrow> session) \<Rightarrow> unit session_prog" where
  "s_upd f s = (Ok (), f s)"

text \<open>Run a message writer on the write buffer.\<close>

definition s_write :: "('e \<Rightarrow> SessionError) \<Rightarrow> (chunk_encoder \<Rightarrow> (bytes, 'e, unit) prog) \<Rightarrow> unit session_prog" where
  "s_write err w s = (case w (s_chunk_encoder s) (s_write_buf s) of
     (r, out) \<Rightarrow> (map_err err r, s\<lparr>s_write_buf := out\<rparr>))"

text \<open>One read from the socket into the read buffer. The end of the stream stays; with no further
  event the timeout fires.\<close>

definition io_read :: "nat session_prog" where
  "io_read s = (case s_input s of
       [] \<Rightarrow> (Err SeTimeout, s)
     | IoBytes bs # rest \<Rightarrow> (Ok (length bs), s\<lparr>s_input := rest, s_read_buf := s_read_buf s @ bs\<rparr>)
     | IoEof # rest \<Rightarrow> (Ok 0, s)
     | IoError e # rest \<Rightarrow> (Err (SeIo e), s\<lparr>s_input := rest\<rparr>)
     | IoStall # rest \<Rightarrow> (Err SeTimeout, s\<lparr>s_input := rest\<rparr>))"

definition flush :: "session_env \<Rightarrow> unit session_prog" where
  "flush env s =
     (if s_write_buf s \<noteq> [] then
        (case se_write env (s_sent s) (s_write_buf s) of
           Some e \<Rightarrow> (Err e, s)
         | None \<Rightarrow> (Ok (), s\<lparr>s_sent := s_sent s @ s_write_buf s, s_write_buf := []\<rparr>))
      else (Ok (), s))"

section \<open>Command handlers\<close>

datatype RtmpCommand = Connect | CreateStream | Publish | Play | DeleteStream | CloseStream
  | ReleaseStream | UnknownCommand bytes

definition rtmp_command_from :: "bytes \<Rightarrow> RtmpCommand" where
  "rtmp_command_from command =
     (if command = str ''connect'' then Connect
      else if command = str ''createStream'' then CreateStream
      else if command = str ''deleteStream'' then DeleteStream
      else if command = str ''publish'' then Publish
      else if command = str ''play'' then Play
      else if command = str ''closeStream'' then CloseStream
      else if command = str ''releaseStream'' then ReleaseStream
      else UnknownCommand command)"

text \<open>The cast \<^verbatim>\<open>f64 as u32\<close> on the bit pattern of the double: towards zero, saturating, and 0 for NaN.\<close>

definition f64_as_u32 :: "f64 \<Rightarrow> u32" where
  "f64_as_u32 x =
     (let sign = bit x 63; expo = unat (take_bit 11 (drop_bit 52 x)); mant = unat (take_bit 52 x)
      in if expo = 2047 \<and> mant \<noteq> 0 then 0
         else if sign \<or> expo < 1023 then 0
         else if expo - 1023 \<ge> 32 then 0xFFFFFFFF
         else word_of_nat ((2 ^ 52 + mant) div 2 ^ (52 - (expo - 1023))))"

definition CHUNK_SIZE_u32 :: u32 where "CHUNK_SIZE_u32 = word_of_nat CHUNK_SIZE"

definition on_command_connect :: "f64 \<Rightarrow> (bytes \<times> Amf0Value) list \<Rightarrow> unit session_prog" where
  "on_command_connect transaction_id command_obj =
     bindE (s_write SeProtocolControl (\<lambda>e. write_window_acknowledgement_size e CHUNK_SIZE_u32)) (\<lambda>_.
     bindE (s_write SeProtocolControl (\<lambda>e. write_set_peer_bandwidth e CHUNK_SIZE_u32 2)) (\<lambda>_.
     case find (\<lambda>(key, _). key = str ''app'') command_obj of
       Some (_, Amf0String app) \<Rightarrow>
         bindE (s_upd (\<lambda>s. s\<lparr>s_app_name := Some app\<rparr>)) (\<lambda>_.
         s_write SeNetConnection (\<lambda>e. write_connect_response e transaction_id (str ''FMS/3,0,1,123'')
           0x403F000000000000 (str ''NetConnection.Connect.Success'') (str ''status'')
           (str ''Connection Succeeded.'') 0))
     | _ \<Rightarrow> fail NoAppName))"

definition on_command_create_stream :: "f64 \<Rightarrow> unit session_prog" where
  "on_command_create_stream transaction_id =
     s_write SeNetConnection (\<lambda>e. write_create_stream_response e transaction_id 0x3FF0000000000000)"

definition on_command_delete_stream :: "f64 \<Rightarrow> Amf0Value list \<Rightarrow> unit session_prog" where
  "on_command_delete_stream transaction_id others =
     (let stream_id = f64_as_u32 (case others of Amf0Number n # _ \<Rightarrow> n | _ \<Rightarrow> 0)
      in bindE (s_upd (\<lambda>s. if s_stream_id s = stream_id \<and> s_is_publishing s
                            then s\<lparr>s_stream_id := 0, s_is_publishing := False\<rparr> else s)) (\<lambda>_.
         s_write SeNetStream (\<lambda>e. write_on_status e transaction_id (str ''status'')
           (str ''NetStream.DeleteStream.Suceess'') [])))"

text \<open>The two awaits of \<^verbatim>\<open>on_command_publish\<close>: the request is sent, and its answer waited for, without a timeout.\<close>

definition request_publish :: "session_env \<Rightarrow> bytes \<times> bytes \<Rightarrow> unique_id session_prog" where
  "request_publish env request s =
     (case se_publish env (s_requests s) request of
        NotSent \<Rightarrow> (Err PublishRequestDenied, s)
      | SendBlocks \<Rightarrow> (OutOfFuel, s)
      | Refused \<Rightarrow> (Err PublishRequestDenied, s\<lparr>s_requests := s_requests s @ [request]\<rparr>)
      | Granted uid \<Rightarrow> (Ok uid, s\<lparr>s_requests := s_requests s @ [request]\<rparr>)
      | Unanswered \<Rightarrow> (OutOfFuel, s\<lparr>s_requests := s_requests s @ [request]\<rparr>))"

definition on_command_publish :: "session_env \<Rightarrow> f64 \<Rightarrow> u32 \<Rightarrow> Amf0Value list \<Rightarrow> unit session_prog" where
  "on_command_publish env transaction_id stream_id others =
     (case others of
        Amf0String stream_name # _ \<Rightarrow>
          bindE s_get (\<lambda>s. case s_app_name s of
            None \<Rightarrow> fail NoAppName
          | Some app_name \<Rightarrow>
              bindE (request_publish env (app_name, stream_name)) (\<lambda>uid.
              bindE (s_upd (\<lambda>s. s\<lparr>s_uid := Some uid, s_is_publishing := True, s_stream_id := stream_id\<rparr>)) (\<lambda>_.
              bindE (s_write SeEventMessages (\<lambda>e. write_stream_begin e stream_id)) (\<lambda>_.
              s_write SeNetStream (\<lambda>e. write_on_status e transaction_id (str ''status'')
                (str ''NetStream.Publish.Start'') [])))))
      | _ \<Rightarrow> fail NoStreamName)"

definition on_amf0_command_message ::
    "session_env \<Rightarrow> u32 \<Rightarrow> Amf0Value \<Rightarrow> Amf0Value \<Rightarrow> Amf0Value \<Rightarrow> Amf0Value list \<Rightarrow> unit session_prog" where
  "on_amf0_command_message env stream_id command_name transaction_id command_object others =
     (let cmd = rtmp_command_from (case command_name of Amf0String s \<Rightarrow> s | _ \<Rightarrow> []);
          tid = (case transaction_id of Amf0Number n \<Rightarrow> n | _ \<Rightarrow> 0);
          obj = (case command_object of Amf0Object o' \<Rightarrow> o' | _ \<Rightarrow> [])
      in case cmd of
           Connect \<Rightarrow> on_command_connect tid obj
         | CreateStream \<Rightarrow> on_command_create_stream tid
         | DeleteStream \<Rightarrow> on_command_delete_stream tid others
         | Play \<Rightarrow> fail PlayNotSupported
         | Publish \<Rightarrow> on_command_publish env tid stream_id others
         | CloseStream \<Rightarrow> ret ()
         | ReleaseStream \<Rightarrow> ret ()
         | UnknownCommand _ \<Rightarrow> ret ())"

definition on_set_chunk_size :: "nat \<Rightarrow> unit session_prog" where
  "on_set_chunk_size chunk_size s =
     (case update_max_chunk_size chunk_size (s_chunk_decoder s) of
        (True, d) \<Rightarrow> (Ok (), s\<lparr>s_chunk_decoder := d\<rparr>)
      | (False, d) \<Rightarrow> (Err (InvalidChunkSize chunk_size), s\<lparr>s_chunk_decoder := d\<rparr>))"

definition on_data :: "session_env \<Rightarrow> u32 \<Rightarrow> ChannelData \<Rightarrow> unit session_prog" where
  "on_data env stream_id data s =
     (if stream_id \<noteq> s_stream_id s \<or> \<not> s_is_publishing s then (Err (UnknownStreamID stream_id), s)
      else if \<not> se_data_ok env (s_delivered s) data then (Err PublisherDropped, s)
      else (Ok (), s\<lparr>s_delivered := s_delivered s @ [data]\<rparr>))"

section \<open>The stages of a session\<close>

fun process_messages :: "session_env \<Rightarrow> RtmpMessageData \<Rightarrow> u32 \<Rightarrow> u32 \<Rightarrow> unit session_prog" where
  "process_messages env (Amf0Command command_name transaction_id command_object others) stream_id timestamp =
     on_amf0_command_message env stream_id command_name transaction_id command_object others"
| "process_messages env (SetChunkSize chunk_size) stream_id timestamp = on_set_chunk_size (unat chunk_size)"
| "process_messages env (AudioData data) stream_id timestamp = on_data env stream_id (ChAudio timestamp data)"
| "process_messages env (VideoData data) stream_id timestamp = on_data env stream_id (ChVideo timestamp data)"
| "process_messages env (AmfData data) stream_id timestamp = on_data env stream_id (ChMetadata timestamp data)"

definition session_read_chunk :: "(Chunk option) session_prog" where
  "session_read_chunk s = (case read_chunk (s_chunk_decoder s) (s_read_buf s) of
     (r, d, buf) \<Rightarrow> (map_err SeChunkDecode r, s\<lparr>s_chunk_decoder := d, s_read_buf := buf\<rparr>))"

fun parse_chunks_loop :: "nat \<Rightarrow> session_env \<Rightarrow> unit session_prog" where
  "parse_chunks_loop 0 env = out_of_fuel"
| "parse_chunks_loop (Suc fuel) env =
     bindE session_read_chunk (\<lambda>c. case c of
       None \<Rightarrow> ret ()
     | Some chunk \<Rightarrow>
         bindE (lift_result (map_err SeMessage (message_parse chunk))) (\<lambda>m.
         bindE (case m of
                  Some msg \<Rightarrow> process_messages env msg (cm_msg_stream_id (ck_message_header chunk))
                                (cm_timestamp (ck_message_header chunk))
                | None \<Rightarrow> ret ()) (\<lambda>_. parse_chunks_loop fuel env)))"

definition parse_chunks :: "session_env \<Rightarrow> unit session_prog" where
  "parse_chunks env s = parse_chunks_loop (length (s_read_buf s) + 1) env s"

definition do_ready :: "session_env \<Rightarrow> bool session_prog" where
  "do_ready env =
     bindE s_get (\<lambda>s.
       if s_skip_read s then
         bindE (s_upd (\<lambda>s. s\<lparr>s_skip_read := False\<rparr>)) (\<lambda>_. bindE (parse_chunks env) (\<lambda>_. ret True))
       else bindE io_read (\<lambda>n. if n = 0 then ret False else bindE (parse_chunks env) (\<lambda>_. ret True)))"

definition send_set_chunk_size :: "unit session_prog" where
  "send_set_chunk_size =
     bindE (s_write SeProtocolControl (\<lambda>e. write_set_chunk_size e CHUNK_SIZE_u32)) (\<lambda>_.
     s_upd (\<lambda>s. s\<lparr>s_chunk_encoder := set_chunk_size CHUNK_SIZE (s_chunk_encoder s)\<rparr>))"

definition READ_SIZE :: nat where "READ_SIZE = RTMP_HANDSHAKE_SIZE + 1"

fun handshake_read_loop :: "nat \<Rightarrow> nat \<Rightarrow> unit session_prog" where
  "handshake_read_loop 0 bytes_read = out_of_fuel"
| "handshake_read_loop (Suc fuel) bytes_read =
     (if bytes_read < READ_SIZE
      then bindE io_read (\<lambda>n. handshake_read_loop fuel (bytes_read + n))
      else ret ())"

definition do_handshake :: "session_env \<Rightarrow> HandshakeServer \<Rightarrow> (bool \<times> HandshakeServer) session_prog" where
  "do_handshake env handshaker =
     bindE s_get (\<lambda>s0.
     bindE (handshake_read_loop (length (s_input s0) + READ_SIZE + 1) 0) (\<lambda>_.
     bindE s_get (\<lambda>s.
     case handshake (se_hs env) (handshaker, cursor_new (s_read_buf s), s_write_buf s) of
       (r, (handshaker', cursor, out)) \<Rightarrow>
         bindE (s_upd (\<lambda>s. s\<lparr>s_read_buf := [], s_write_buf := out\<rparr>)) (\<lambda>_.
         bindE (lift_result (map_err SeHandshake r)) (\<lambda>_.
         if handshake_state handshaker' = Finish then
           let over_read = drop (cur_pos cursor) (cur_data cursor) in
           bindE (s_upd (\<lambda>s. if over_read \<noteq> [] then s\<lparr>s_skip_read := True, s_read_buf := over_read\<rparr> else s)) (\<lambda>_.
           bindE send_set_chunk_size (\<lambda>_. ret (True, handshaker')))
         else ret (False, handshaker'))))))"

fun handshake_loop :: "nat \<Rightarrow> session_env \<Rightarrow> HandshakeServer \<Rightarrow> unit session_prog" where
  "handshake_loop 0 env handshaker = out_of_fuel"
| "handshake_loop (Suc fuel) env handshaker =
     bindE (do_handshake env handshaker) (\<lambda>(fin, handshaker').
       if fin then ret () else bindE (flush env) (\<lambda>_. handshake_loop fuel env handshaker'))"

text \<open>An error of a closed client ends the loop like an orderly end.\<close>

definition ready_or_closed :: "session_env \<Rightarrow> bool session_prog" where
  "ready_or_closed env s = (case do_ready env s of
       (Err e, s') \<Rightarrow> if is_client_closed e then (Ok False, s') else (Err e, s')
     | (r, s') \<Rightarrow> (r, s'))"

fun ready_loop :: "nat \<Rightarrow> session_env \<Rightarrow> unit session_prog" where
  "ready_loop 0 env = out_of_fuel"
| "ready_loop (Suc fuel) env =
     bindE (ready_or_closed env) (\<lambda>go. if go then bindE (flush env) (\<lambda>_. ready_loop fuel env) else ret ())"

definition session_run :: "session_env \<Rightarrow> bool session_prog" where
  "session_run env =
     bindE s_get (\<lambda>s0.
     bindE (handshake_loop 3 env handshake_default) (\<lambda>_.
     bindE (ready_loop (length (s_input s0) + 3) env) (\<lambda>_.
     bindE s_get (\<lambda>s. ret (\<not> s_is_publishing s)))))"

section \<open>The session invariant\<close>

text \<open>The application has granted one of the publish requests it was sent.\<close>

definition authorised :: "session_env \<Rightarrow> (bytes \<times> bytes) list \<Rightarrow> bool" where
  "authorised env reqs \<longleftrightarrow> (\<exists>before r after uid. reqs = before @ r # after \<and> se_publish env before r = Granted uid)"

definition session_inv :: "session_env \<Rightarrow> session \<Rightarrow> bool" where
  "session_inv env s \<longleftrightarrow>
     (s_is_publishing s \<or> s_delivered s \<noteq> [] \<longrightarrow> authorised env (s_requests s) \<and> s_uid s \<noteq> None)
     \<and> chunk_decoder_inv (s_chunk_decoder s) \<and> 0 < ce_chunk_size (s_chunk_encoder s)"

text \<open>The session waits for the application: for room in the channel of publish requests, or for the answer to the last
  request it has sent.\<close>

definition blocked :: "session_env \<Rightarrow> session \<Rightarrow> bool" where
  "blocked env s \<longleftrightarrow> (\<exists>request. se_publish env (s_requests s) request = SendBlocks)
     \<or> (\<exists>before request. s_requests s = before @ [request] \<and> se_publish env before request = Unanswered)"

abbreviation waits :: "session_env \<Rightarrow> session \<Rightarrow> bool" where
  "waits env s \<equiv> session_inv env s \<and> blocked env s"

text \<open>What the handlers do not touch.\<close>

definition frame :: "session \<Rightarrow> bytes \<times> io_event list \<times> bool" where
  "frame s = (s_read_buf s, s_input s, s_skip_read s)"

abbreviation inv_frame :: "session_env \<Rightarrow> (bytes \<times> io_event list \<times> bool) \<Rightarrow> session \<Rightarrow> bool" where
  "inv_frame env F \<equiv> \<lambda>s. session_inv env s \<and> frame s = F"

lemma authorised_snoc: "authorised env reqs \<Longrightarrow> authorised env (reqs @ [r])"
  by (fastforce simp: authorised_def)

lemma authorised_granted: "se_publish env reqs r = Granted uid \<Longrightarrow> authorised env (reqs @ [r])"
  unfolding authorised_def by blast

lemma blocked_send: "se_publish env (s_requests s) request = SendBlocks \<Longrightarrow> blocked env s"
  unfolding blocked_def by blast

lemma blocked_answer:
  assumes "se_publish env (s_requests s) request = Unanswered"
  shows "blocked env (s\<lparr>s_requests := s_requests s @ [request]\<rparr>)"
  unfolding blocked_def using assms by (intro disjI2 exI [of _ "s_requests s"] exI [of _ request]) simp

lemma keeps_s_get: "keeps H I s_get"
  by (simp add: runs_def s_get_def)

lemma keeps_s_upd: "(\<And>s. I s \<Longrightarrow> I (f s)) \<Longrightarrow> keeps H I (s_upd f)"
  by (simp add: runs_def s_upd_def)

lemma keeps_s_write:
  assumes "\<And>e. 0 < ce_chunk_size e \<Longrightarrow> halts (w e)"
  shows "keeps H (inv_frame env F) (s_write err w)"
  unfolding runs_def
proof (intro allI impI)
  fix s assume s: "session_inv env s \<and> frame s = F"
  obtain r out where run: "w (s_chunk_encoder s) (s_write_buf s) = (r, out)" by fastforce
  have "r \<noteq> OutOfFuel" using assms [of "s_chunk_encoder s"] s run
    by (metis fst_conv halts_def session_inv_def)
  with s show "case s_write err w s of (Ok x, s') \<Rightarrow> session_inv env s' \<and> frame s' = F
      | (Err _, s') \<Rightarrow> session_inv env s' \<and> frame s' = F | (Panic, s') \<Rightarrow> session_inv env s' \<and> frame s' = F
      | (OutOfFuel, s') \<Rightarrow> H s'"
    by (cases r) (auto simp: s_write_def run session_inv_def frame_def)
qed

lemmas keeps_writers = keeps_s_write [OF halts_writers(1)] keeps_s_write [OF halts_writers(2)]
  keeps_s_write [OF halts_writers(3)] keeps_s_write [OF halts_writers(4)] keeps_s_write [OF halts_writers(5)]
  keeps_s_write [OF halts_writers(6)] keeps_s_write [OF halts_writers(7)]

lemma keeps_app_name: "keeps H (inv_frame env F) (s_upd (\<lambda>s. s\<lparr>s_app_name := Some app\<rparr>))"
  by (rule keeps_s_upd) (auto simp: session_inv_def frame_def)

lemma keeps_connect: "keeps H (inv_frame env F) (on_command_connect t obj)"
proof -
  have "keeps H (inv_frame env F) (case find (\<lambda>(key, _). key = str ''app'') obj of
       Some (_, Amf0String app) \<Rightarrow>
         bindE (s_upd (\<lambda>s. s\<lparr>s_app_name := Some app\<rparr>)) (\<lambda>_.
         s_write SeNetConnection (\<lambda>e. write_connect_response e t (str ''FMS/3,0,1,123'')
           0x403F000000000000 (str ''NetConnection.Connect.Success'') (str ''status'')
           (str ''Connection Succeeded.'') 0))
     | _ \<Rightarrow> fail NoAppName)"
    by (auto split: option.split prod.split Amf0Value.split
        intro!: keeps_pure keeps_bind keeps_app_name keeps_writers)
  then show ?thesis
    unfolding on_command_connect_def by (intro keeps_bind keeps_writers)
qed

lemma keeps_delete: "keeps H (inv_frame env F) (on_command_delete_stream t others)"
  unfolding on_command_delete_stream_def Let_def
  by (intro keeps_bind keeps_writers keeps_s_upd) (auto simp: session_inv_def frame_def)

lemma keeps_publish: "keeps (waits env) (inv_frame env F) (on_command_publish env t sid others)"
proof -
  have granted: "keeps (waits env) (inv_frame env F) (bindE (request_publish env req) (\<lambda>uid.
      bindE (s_upd (\<lambda>s. s\<lparr>s_uid := Some uid, s_is_publishing := True, s_stream_id := sid\<rparr>)) (\<lambda>_.
      bindE (s_write SeEventMessages (\<lambda>e. write_stream_begin e sid)) (\<lambda>_.
      s_write SeNetStream (\<lambda>e. write_on_status e t (str ''status'') (str ''NetStream.Publish.Start'') [])))))" for req
  proof (rule runs_bind [where R = "\<lambda>uid s. inv_frame env F s \<and> authorised env (s_requests s)"])
    show "runs (waits env) (inv_frame env F) (request_publish env req)
        (\<lambda>uid s. inv_frame env F s \<and> authorised env (s_requests s)) (inv_frame env F)"
      by (auto simp: runs_def request_publish_def session_inv_def frame_def authorised_snoc authorised_granted blocked_send blocked_answer
          split: publish_answer.split)
    show "runs (waits env) (\<lambda>s. inv_frame env F s \<and> authorised env (s_requests s))
        (bindE (s_upd (\<lambda>s. s\<lparr>s_uid := Some uid, s_is_publishing := True, s_stream_id := sid\<rparr>)) (\<lambda>_.
         bindE (s_write SeEventMessages (\<lambda>e. write_stream_begin e sid)) (\<lambda>_.
         s_write SeNetStream (\<lambda>e. write_on_status e t (str ''status'') (str ''NetStream.Publish.Start'') []))))
        (\<lambda>_. inv_frame env F) (inv_frame env F)" for uid
    proof (rule runs_bind [where R = "\<lambda>_. inv_frame env F"])
      show "runs (waits env) (\<lambda>s. inv_frame env F s \<and> authorised env (s_requests s))
          (s_upd (\<lambda>s. s\<lparr>s_uid := Some uid, s_is_publishing := True, s_stream_id := sid\<rparr>))
          (\<lambda>_. inv_frame env F) (inv_frame env F)"
        by (auto simp: runs_def s_upd_def session_inv_def frame_def)
    qed (intro keeps_bind keeps_writers)
  qed
  have "keeps (waits env) (inv_frame env F) (bindE s_get (\<lambda>s. case s_app_name s of None \<Rightarrow> fail NoAppName
          | Some app_name \<Rightarrow>
              bindE (request_publish env (app_name, name)) (\<lambda>uid.
              bindE (s_upd (\<lambda>s. s\<lparr>s_uid := Some uid, s_is_publishing := True, s_stream_id := sid\<rparr>)) (\<lambda>_.
              bindE (s_write SeEventMessages (\<lambda>e. write_stream_begin e sid)) (\<lambda>_.
              s_write SeNetStream (\<lambda>e. write_on_status e t (str ''status'')
                (str ''NetStream.Publish.Start'') []))))))" for name
    by (rule keeps_bind [OF keeps_s_get]) (auto intro: keeps_pure granted split: option.split)
  then show ?thesis
    unfolding on_command_publish_def
    by (auto split: list.split Amf0Value.split intro: keeps_pure)
qed

lemma keeps_command:
  "keeps (waits env) (inv_frame env F) (on_amf0_command_message env sid name tid obj others)"
  unfolding on_amf0_command_message_def Let_def on_command_create_stream_def
  by (auto split: RtmpCommand.split
      intro: keeps_connect keeps_delete keeps_publish keeps_writers keeps_pure)

lemma keeps_process: "keeps (waits env) (inv_frame env F) (process_messages env msg sid ts)"
proof -
  have "keeps (waits env) (inv_frame env F) (on_data env sid d)" for d
    by (auto simp: runs_def on_data_def session_inv_def frame_def)
  moreover have "keeps (waits env) (inv_frame env F) (on_set_chunk_size n)" for n
    by (auto simp: runs_def on_set_chunk_size_def session_inv_def frame_def update_max_chunk_size_def
        chunk_decoder_inv_def split: prod.splits)
  ultimately show ?thesis by (cases msg) (auto intro: keeps_command)
qed

text \<open>Parsing: the invariant, a shorter buffer and an untouched socket.\<close>

abbreviation inv_sock :: "session_env \<Rightarrow> io_event list \<times> bool \<Rightarrow> session \<Rightarrow> bool" where
  "inv_sock env G \<equiv> \<lambda>s. session_inv env s \<and> (s_input s, s_skip_read s) = G"

lemma runs_read_chunk:
  "runs (waits env) (\<lambda>s. inv_sock env G s \<and> length (s_read_buf s) < Suc n) session_read_chunk
     (\<lambda>c s. inv_sock env G s \<and> (c \<noteq> None \<longrightarrow> length (s_read_buf s) < n)) (inv_sock env G)"
  unfolding runs_def
proof (intro allI impI)
  fix s assume s: "inv_sock env G s \<and> length (s_read_buf s) < Suc n"
  obtain r d buf where run: "read_chunk (s_chunk_decoder s) (s_read_buf s) = (r, d, buf)" by (metis prod_cases3)
  from read_chunk_shrinks [OF run] read_chunk_inv [OF _ run] s
  show "case session_read_chunk s of (Ok c, s') \<Rightarrow> inv_sock env G s' \<and> (c \<noteq> None \<longrightarrow> length (s_read_buf s') < n)
      | (Err _, s') \<Rightarrow> inv_sock env G s' | (Panic, s') \<Rightarrow> inv_sock env G s' | (OutOfFuel, s') \<Rightarrow> waits env s'"
    by (cases r) (auto simp: session_read_chunk_def run session_inv_def)
qed

lemma runs_process_sock:
  "runs (waits env) (\<lambda>s. inv_sock env G s \<and> length (s_read_buf s) < n) (process_messages env msg sid ts)
     (\<lambda>_ s. inv_sock env G s \<and> length (s_read_buf s) < n) (inv_sock env G)"
  unfolding runs_def
proof (intro allI impI)
  fix s assume s: "inv_sock env G s \<and> length (s_read_buf s) < n"
  obtain r s' where run: "process_messages env msg sid ts s = (r, s')" by fastforce
  from keeps_process [of env "frame s" msg sid ts, unfolded runs_def, rule_format, of s] s run
  have "if r = OutOfFuel then waits env s' else session_inv env s' \<and> frame s' = frame s" by (cases r) auto
  with s show "case process_messages env msg sid ts s of
        (Ok x, s') \<Rightarrow> inv_sock env G s' \<and> length (s_read_buf s') < n
      | (Err _, s') \<Rightarrow> inv_sock env G s' | (Panic, s') \<Rightarrow> inv_sock env G s' | (OutOfFuel, s') \<Rightarrow> waits env s'"
    by (cases r) (simp_all add: run frame_def)
qed

lemma runs_parse_loop:
  "runs (waits env) (\<lambda>s. inv_sock env G s \<and> length (s_read_buf s) < fuel) (parse_chunks_loop fuel env)
     (\<lambda>_. inv_sock env G) (inv_sock env G)"
proof (induction fuel)
  case 0
  then show ?case by (simp add: runs_def)
next
  case (Suc fuel)
  let ?P = "\<lambda>s. inv_sock env G s \<and> length (s_read_buf s) < fuel"
  have handle: "runs (waits env) ?P (bindE (lift_result (map_err SeMessage (message_parse chunk))) (\<lambda>m.
         bindE (case m of Some msg \<Rightarrow> process_messages env msg (cm_msg_stream_id (ck_message_header chunk))
                                (cm_timestamp (ck_message_header chunk)) | None \<Rightarrow> ret ())
           (\<lambda>_. parse_chunks_loop fuel env))) (\<lambda>_. inv_sock env G) (inv_sock env G)" for chunk
  proof (rule runs_bind [where R = "\<lambda>_. ?P"])
    show "runs (waits env) ?P (lift_result (map_err SeMessage (message_parse chunk))) (\<lambda>_. ?P) (inv_sock env G)"
      by (rule runs_lift) (auto simp: rbind_map_err_fuel message_parse_returns)
    show "runs (waits env) ?P (bindE (case m of Some msg \<Rightarrow> process_messages env msg (cm_msg_stream_id (ck_message_header chunk))
                                (cm_timestamp (ck_message_header chunk)) | None \<Rightarrow> ret ())
           (\<lambda>_. parse_chunks_loop fuel env)) (\<lambda>_. inv_sock env G) (inv_sock env G)" for m
    proof (rule runs_bind [OF _ Suc.IH])
      show "runs (waits env) ?P (case m of Some msg \<Rightarrow> process_messages env msg (cm_msg_stream_id (ck_message_header chunk))
                                (cm_timestamp (ck_message_header chunk)) | None \<Rightarrow> ret ()) (\<lambda>_. ?P) (inv_sock env G)"
        by (cases m) (simp_all only: option.case runs_process_sock runs_ret)
    qed
  qed
  show ?case unfolding parse_chunks_loop.simps
  proof (rule runs_bind [OF runs_read_chunk])
    fix c
    show "runs (waits env) (\<lambda>s. inv_sock env G s \<and> (c \<noteq> None \<longrightarrow> length (s_read_buf s) < fuel))
       (case c of None \<Rightarrow> ret () | Some chunk \<Rightarrow>
         bindE (lift_result (map_err SeMessage (message_parse chunk))) (\<lambda>m.
         bindE (case m of Some msg \<Rightarrow> process_messages env msg (cm_msg_stream_id (ck_message_header chunk))
                                (cm_timestamp (ck_message_header chunk)) | None \<Rightarrow> ret ())
           (\<lambda>_. parse_chunks_loop fuel env))) (\<lambda>_. inv_sock env G) (inv_sock env G)"
    proof (cases c)
      case (Some chunk)
      show ?thesis unfolding Some option.case by (rule runs_pre [OF handle]) (simp add: Some)
    qed (simp add: runs_ret)
  qed
qed

lemma keeps_parse: "keeps (waits env) (inv_sock env G) (parse_chunks env)"
  unfolding runs_def parse_chunks_def
proof (intro allI impI)
  fix s assume "inv_sock env G s"
  then show "case parse_chunks_loop (length (s_read_buf s) + 1) env s of (Ok x, s') \<Rightarrow> inv_sock env G s'
      | (Err _, s') \<Rightarrow> inv_sock env G s' | (Panic, s') \<Rightarrow> inv_sock env G s' | (OutOfFuel, s') \<Rightarrow> waits env s'"
    using runs_parse_loop [of env G "length (s_read_buf s) + 1", unfolded runs_def, rule_format, of s] by simp
qed

section \<open>The handshake stage\<close>

lemma io_read_frame:
  "\<exists>inp bs. snd (io_read s) = s\<lparr>s_input := inp, s_read_buf := s_read_buf s @ bs\<rparr>
     \<and> length inp \<le> length (s_input s) \<and> (\<forall>n. fst (io_read s) = Ok n \<longrightarrow> n = length bs)"
proof (cases "s_input s")
  case Nil
  then show ?thesis by (intro exI [of _ "s_input s"] exI [of _ "[]"]) (simp add: io_read_def)
next
  case (Cons ev rest)
  show ?thesis
  proof (cases ev)
    case (IoBytes b)
    with Cons show ?thesis by (intro exI [of _ rest] exI [of _ b]) (simp add: io_read_def)
  next
    case IoEof
    with Cons show ?thesis by (intro exI [of _ "s_input s"] exI [of _ "[]"]) (simp add: io_read_def)
  qed (use Cons in \<open>intro exI [of _ rest] exI [of _ "[]"], simp add: io_read_def\<close>)+
qed

lemma handshake_read_loop_frame:
  assumes "handshake_read_loop fuel b s = (r, s')"
  obtains bs :: bytes and inp where "s' = s\<lparr>s_input := inp, s_read_buf := s_read_buf s @ bs\<rparr>"
    "length inp \<le> length (s_input s)" "r = Ok () \<longrightarrow> READ_SIZE \<le> b + length bs"
  using assms
proof (induction fuel arbitrary: b s thesis)
  case 0
  then show ?case by (auto intro: "0.prems"(1) [of "[]" "s_input s"] simp: out_of_fuel_def)
next
  case (Suc fuel)
  show ?case
  proof (cases "b < READ_SIZE")
    case False
    with Suc.prems show ?thesis by (auto intro: Suc.prems(1) [of "[]" "s_input s"] simp: ret_def)
  next
    case True
    obtain r0 s0 where io: "io_read s = (r0, s0)" by fastforce
    obtain inp0 bs0 where s0: "s0 = s\<lparr>s_input := inp0, s_read_buf := s_read_buf s @ bs0\<rparr>"
      "length inp0 \<le> length (s_input s)" and r0: "\<And>n. r0 = Ok n \<Longrightarrow> n = length bs0"
      using io_read_frame [of s] io by auto
    show ?thesis
    proof (cases r0)
      case (Ok n)
      with Suc.prems(2) io True have "handshake_read_loop fuel (b + n) s0 = (r, s')"
        by (simp add: bindE_def)
      from Suc.IH [OF _ this] obtain bs inp where
        "s' = s0\<lparr>s_input := inp, s_read_buf := s_read_buf s0 @ bs\<rparr>"
        "length inp \<le> length (s_input s0)" "r = Ok () \<longrightarrow> READ_SIZE \<le> b + n + length bs" by metis
      with s0 r0 [OF Ok] show ?thesis
        by (intro Suc.prems(1) [of "bs0 @ bs" inp]) (simp_all add: add.assoc)
    qed (use Suc.prems io True s0 in \<open>auto simp: bindE_def intro: Suc.prems(1) [of bs0 inp0]\<close>)
  qed
qed

lemma handshake_read_loop_returns:
  "\<lbrakk>IoEof \<notin> set (s_input s); length (s_input s) < fuel\<rbrakk> \<Longrightarrow>
   fst (handshake_read_loop fuel b s) \<noteq> OutOfFuel
   \<and> IoEof \<notin> set (s_input (snd (handshake_read_loop fuel b s)))"
proof (induction fuel arbitrary: b s)
  case (Suc fuel)
  show ?case
  proof (cases "s_input s")
    case Nil
    then show ?thesis by (simp add: bindE_def io_read_def ret_def)
  next
    case (Cons ev rest)
    with Suc show ?thesis by (cases ev) (auto simp: bindE_def io_read_def ret_def)
  qed
qed simp

lemma keeps_send_chunk_size: "keeps H (inv_frame env F) send_set_chunk_size"
  unfolding send_set_chunk_size_def
  by (intro keeps_bind keeps_writers keeps_s_upd)
     (auto simp: session_inv_def frame_def set_chunk_size_def CHUNK_SIZE_def)

lemma keepsD:
  "\<lbrakk>keeps H I m; I s; m s = (r, s')\<rbrakk> \<Longrightarrow> if r = OutOfFuel then H s' else I s'"
  unfolding runs_def by (drule spec [of _ s]) (cases r; simp)

lemma take_drop_of_le: "n \<le> length xs \<Longrightarrow> \<exists>ys zs. xs = ys @ zs \<and> length ys = n"
  by (rule exI [of _ "take n xs"], rule exI [of _ "drop n xs"]) simp

text \<open>What one round of the handshake stage guarantees.\<close>

definition hs_round_ok :: "session_env \<Rightarrow> session \<Rightarrow> (SessionError, bool \<times> HandshakeServer) result \<Rightarrow> session \<Rightarrow> bool" where
  "hs_round_ok env s r s' \<longleftrightarrow> session_inv env s' \<and> length (s_input s') \<le> length (s_input s)
     \<and> (IoEof \<notin> set (s_input s) \<longrightarrow> r \<noteq> OutOfFuel \<and> IoEof \<notin> set (s_input s'))"

lemma do_handshake_cases:
  assumes inv: "session_inv env s" and buf: "s_read_buf s = []" and run: "do_handshake env server s = (r, s')"
  obtains (read) bs inp where "READ_SIZE \<le> length bs" "length inp \<le> length (s_input s)"
      "IoEof \<notin> set (s_input s) \<longrightarrow> IoEof \<notin> set inp"
      "(case handshake (se_hs env) (server, cursor_new bs, s_write_buf s) of
       (r, (handshaker', cursor, out)) \<Rightarrow>
         bindE (s_upd (\<lambda>s. s\<lparr>s_read_buf := [], s_write_buf := out\<rparr>)) (\<lambda>_.
         bindE (lift_result (map_err SeHandshake r)) (\<lambda>_.
         if handshake_state handshaker' = Finish then
           let over_read = drop (cur_pos cursor) (cur_data cursor) in
           bindE (s_upd (\<lambda>s. if over_read \<noteq> [] then s\<lparr>s_skip_read := True, s_read_buf := over_read\<rparr> else s)) (\<lambda>_.
           bindE send_set_chunk_size (\<lambda>_. ret (True, handshaker')))
         else ret (False, handshaker')))) (s\<lparr>s_input := inp, s_read_buf := bs\<rparr>) = (r, s')"
    | (failed) "\<forall>x. r \<noteq> Ok x" "hs_round_ok env s r s'"
proof -
  let ?fuel = "length (s_input s) + READ_SIZE + 1"
  obtain r0 s0 where loop: "handshake_read_loop ?fuel 0 s = (r0, s0)" by fastforce
  from handshake_read_loop_frame [OF this] obtain bs inp where
    s0: "s0 = s\<lparr>s_input := inp, s_read_buf := bs\<rparr>" "length inp \<le> length (s_input s)"
      "r0 = Ok () \<longrightarrow> READ_SIZE \<le> length bs" by (auto simp: buf)
  have eof: "IoEof \<notin> set (s_input s) \<longrightarrow> r0 \<noteq> OutOfFuel \<and> IoEof \<notin> set inp"
    using handshake_read_loop_returns [of s ?fuel 0] loop s0(1) by auto
  have inv0: "session_inv env s0" using inv by (simp add: session_inv_def s0(1))
  show thesis
  proof (cases r0)
    case (Ok x)
    then show ?thesis using run loop s0 eof
      by (intro read [of bs inp]) (simp_all add: do_handshake_def bindE_def s_get_def del: handshake_read_loop.simps)
  qed (use run loop s0 eof inv0 in \<open>auto intro!: failed simp: hs_round_ok_def do_handshake_def bindE_def s_get_def
        simp del: handshake_read_loop.simps\<close>)
qed

lemma do_handshake_first:
  assumes hmac: "\<forall>k m. length (env_hmac (se_hs env) k m) = 32"
    and inv: "session_inv env s" and buf: "s_read_buf s = []" and run: "do_handshake env handshake_default s = (r, s')"
  shows "hs_round_ok env s r s' \<and> (\<forall>x. r = Ok x \<longrightarrow> \<not> fst x \<and> handshake_state (snd x) = ReadC2 \<and> s_read_buf s' = [])"
  using inv buf run
proof (cases rule: do_handshake_cases)
  case (read bs inp)
  from read(1) obtain c0 c1 rest where bs: "bs = c0 # c1 @ rest" and c1: "length c1 = RTMP_HANDSHAKE_SIZE"
    by (cases bs) (auto simp: READ_SIZE_def dest: take_drop_of_le)
  from handshake_first_run [OF hmac c1, of c0 rest "s_write_buf s"] obtain server reply where
    "handshake (se_hs env) (handshake_default, cursor_new bs, s_write_buf s)
       = (Ok (), (server, curs (c0 # c1) rest, s_write_buf s @ 3 # reply))" "handshake_state server = ReadC2"
    by (auto simp: bs)
  with read inv show ?thesis
    by (auto simp: bindE_def s_upd_def lift_result_def ret_def hs_round_ok_def session_inv_def)
qed simp

lemma do_handshake_second:
  assumes inv: "session_inv env s" and buf: "s_read_buf s = []" and st: "handshake_state server = ReadC2"
    and run: "do_handshake env server s = (r, s')"
  shows "hs_round_ok env s r s' \<and> (\<forall>x. r = Ok x \<longrightarrow> fst x)"
  using inv buf run
proof (cases rule: do_handshake_cases)
  case (read bs inp)
  from read(1) obtain c2 rest where bs: "bs = c2 @ rest" and c2: "length c2 = RTMP_HANDSHAKE_SIZE"
    using take_drop_of_le [of RTMP_HANDSHAKE_SIZE bs] by (auto simp: READ_SIZE_def)
  from handshake_second_run [OF st c2, of "se_hs env" rest "s_write_buf s"] obtain server' where
    hs: "handshake (se_hs env) (server, cursor_new bs, s_write_buf s) = (Ok (), (server', curs c2 rest, s_write_buf s))"
    "handshake_state server' = Finish" by (auto simp: bs)
  define s1 where "s1 = (if rest \<noteq> [] then s\<lparr>s_input := inp, s_skip_read := True, s_read_buf := rest\<rparr>
     else s\<lparr>s_input := inp, s_read_buf := []\<rparr>)"
  obtain r1 s2 where send: "send_set_chunk_size s1 = (r1, s2)" by fastforce
  have "session_inv env s1" using inv by (simp add: s1_def session_inv_def)
  with keepsD [OF keeps_send_chunk_size [of "\<lambda>_. False" env "frame s1"] _ send]
  have "r1 \<noteq> OutOfFuel" "session_inv env s2" "s_input s2 = inp" by (auto simp: frame_def s1_def split: if_splits)
  moreover have "bindE send_set_chunk_size (\<lambda>_. ret (True, server')) s1 = (r, s')"
    using read(4) hs by (simp add: bindE_def s_upd_def lift_result_def s1_def curs_def split: if_splits)
  ultimately show ?thesis using send read(2,3)
    by (cases r1) (auto simp: bindE_def ret_def hs_round_ok_def)
qed simp

lemma flush_frame:
  "\<exists>w o'. snd (flush env s) = s\<lparr>s_write_buf := w, s_sent := o'\<rparr> \<and> fst (flush env s) \<noteq> OutOfFuel"
proof (cases "s_write_buf s = [] \<or> se_write env (s_sent s) (s_write_buf s) \<noteq> None")
  case True
  then show ?thesis
    by (intro exI [of _ "s_write_buf s"] exI [of _ "s_sent s"]) (auto simp: flush_def)
next
  case False
  then show ?thesis
    by (intro exI [of _ "[]"] exI [of _ "s_sent s @ s_write_buf s"]) (auto simp: flush_def)
qed

lemma flush_keeps:
  assumes "flush env s = (r, s')"
  shows "r \<noteq> OutOfFuel" "session_inv env s \<Longrightarrow> session_inv env s'" "frame s' = frame s"
    "s_delivered s' = s_delivered s"
  using flush_frame [of env s] assms by (auto simp: session_inv_def frame_def)

text \<open>After the handshake stage the invariant holds; it runs forever only on an ended stream.\<close>

lemma handshake_stage:
  assumes hmac: "\<forall>k m. length (env_hmac (se_hs env) k m) = 32"
    and inv: "session_inv env s" and buf: "s_read_buf s = []"
    and run: "handshake_loop 3 env handshake_default s = (r, s')"
  shows "session_inv env s' \<and> length (s_input s') \<le> length (s_input s)
     \<and> (IoEof \<notin> set (s_input s) \<longrightarrow> r \<noteq> OutOfFuel \<and> IoEof \<notin> set (s_input s'))"
proof -
  obtain r1 s1 where one: "do_handshake env handshake_default s = (r1, s1)" by fastforce
  note first = do_handshake_first [OF hmac inv buf one]
  show ?thesis
  proof (cases r1)
    case (Ok x)
    obtain server where x: "x = (False, server)" using first Ok by (cases x) auto
    with first Ok have st: "handshake_state server = ReadC2" "s_read_buf s1 = []" "session_inv env s1"
      by (auto simp: hs_round_ok_def)
    obtain r2 s2 where fl: "flush env s1 = (r2, s2)" by fastforce
    note fk = flush_keeps [OF fl]
    have s2: "session_inv env s2" "s_read_buf s2 = []" "s_input s2 = s_input s1"
      using fk st by (auto simp: frame_def)
    show ?thesis
    proof (cases r2)
      case (Ok y)
      obtain r3 s3 where two: "do_handshake env server s2 = (r3, s3)" by fastforce
      from do_handshake_second [OF s2(1,2) st(1) two] have "hs_round_ok env s2 r3 s3" "\<forall>x. r3 = Ok x \<longrightarrow> fst x" by auto
      moreover have "(case r3 of Ok z \<Rightarrow> Ok () | Err e \<Rightarrow> Err e | Panic \<Rightarrow> Panic | OutOfFuel \<Rightarrow> OutOfFuel) = r \<and> s3 = s'"
        using run one fl two \<open>r1 = Ok x\<close> x Ok calculation(2)
        by (cases r3) (auto simp: numeral_3_eq_3 bindE_def ret_def split: prod.splits)
      ultimately show ?thesis using first s2(3) by (cases r3) (auto simp: hs_round_ok_def)
    qed (use run one fl \<open>r1 = Ok x\<close> x fk first s2 in \<open>auto simp: numeral_3_eq_3 bindE_def hs_round_ok_def\<close>)
  qed (use run one first in \<open>auto simp: numeral_3_eq_3 bindE_def hs_round_ok_def\<close>)
qed

section \<open>The message stage\<close>

text \<open>A round that goes on has used up an event of the socket or the data the handshake read ahead.\<close>

definition rounds_left :: "session \<Rightarrow> nat" where
  "rounds_left s = length (s_input s) + (if s_skip_read s then 1 else 0)"

lemma do_ready_round:
  assumes inv: "session_inv env s" and run: "do_ready env s = (r, s')"
  shows "session_inv env s' \<and> (r = OutOfFuel \<longrightarrow> blocked env s') \<and> (r = Ok True \<longrightarrow> rounds_left s' < rounds_left s)"
proof (cases "s_skip_read s")
  case True
  obtain r1 s1 where p: "parse_chunks env (s\<lparr>s_skip_read := False\<rparr>) = (r1, s1)" by fastforce
  have "inv_sock env (s_input s, False) (s\<lparr>s_skip_read := False\<rparr>)" using inv by (simp add: session_inv_def)
  from keepsD [OF keeps_parse this p] True run p show ?thesis
    by (cases r1) (auto simp: do_ready_def bindE_def s_get_def s_upd_def ret_def rounds_left_def)
next
  case False
  obtain r0 s0 where io: "io_read s = (r0, s0)" by fastforce
  obtain inp bs where s0: "s0 = s\<lparr>s_input := inp, s_read_buf := s_read_buf s @ bs\<rparr>"
    using io_read_frame [of s] io by auto
  have inv0: "inv_sock env (inp, False) s0" using inv False by (simp add: session_inv_def s0)
  have io': "r0 \<noteq> OutOfFuel \<and> r0 \<noteq> Panic \<and> (\<forall>n. r0 = Ok n \<longrightarrow> 0 < n \<longrightarrow> length inp < length (s_input s))"
    using io unfolding s0 io_read_def by (cases "s_input s") (auto split: io_event.splits dest: arg_cong [where f = s_input])
  show ?thesis
  proof (cases "\<exists>n. r0 = Ok (Suc n)")
    case True
    obtain r1 s1 where p: "parse_chunks env s0 = (r1, s1)" by fastforce
    from keepsD [OF keeps_parse inv0 p] True False run p io io' show ?thesis
      by (cases r1) (auto simp: do_ready_def bindE_def s_get_def ret_def rounds_left_def)
  next
    case no_data: False
    then have zero: "n = 0" if "r0 = Ok n" for n using that by (cases n) auto
    from run io io' inv0 False zero show ?thesis
      by (cases r0) (auto simp: do_ready_def bindE_def s_get_def ret_def)
  qed
qed

lemma ready_loop_runs:
  "\<lbrakk>session_inv env s; rounds_left s < fuel; ready_loop fuel env s = (r, s')\<rbrakk> \<Longrightarrow>
   session_inv env s' \<and> (r = OutOfFuel \<longrightarrow> blocked env s')"
proof (induction fuel arbitrary: s)
  case (Suc fuel)
  obtain r0 s0 where one: "do_ready env s = (r0, s0)" by fastforce
  note d = do_ready_round [OF Suc.prems(1) one]
  have ready: "ready_or_closed env s = ((case r0 of Err e \<Rightarrow> if is_client_closed e then Ok False else Err e | _ \<Rightarrow> r0), s0)"
    by (simp add: ready_or_closed_def one split: result.split)
  show ?case
  proof (cases "r0 = Ok True")
    case True
    obtain r1 s1 where fl: "flush env s0 = (r1, s1)" by fastforce
    note fk = flush_keeps [OF fl]
    have "rounds_left s1 < fuel" using d True fk(3) Suc.prems(2) by (simp add: rounds_left_def frame_def)
    with Suc.IH [of s1] Suc.prems(3) True ready fl fk d show ?thesis
      by (cases r1) (auto simp: bindE_def)
  next
    case False
    with Suc.prems(3) ready d show ?thesis
      by (cases r0) (auto simp: bindE_def ret_def split: if_splits)
  qed
qed simp

lemma session_inv_new: "session_inv env (session_new input)"
  by (simp add: session_inv_def session_new_def chunk_decoder_inv_def chunk_decoder_default_def chunk_encoder_default_def
      chunk_limits)

lemma session_run_inv:
  assumes hmac: "\<forall>k m. length (env_hmac (se_hs env) k m) = 32"
    and run: "session_run env (session_new input) = (r, s)"
  shows "session_inv env s \<and> (IoEof \<notin> set input \<and> r = OutOfFuel \<longrightarrow> blocked env s)"
proof -
  obtain r1 s1 where one: "handshake_loop 3 env handshake_default (session_new input) = (r1, s1)" by fastforce
  from handshake_stage [OF hmac session_inv_new _ one] have hs: "session_inv env s1"
    "length (s_input s1) \<le> length input" "IoEof \<notin> set input \<longrightarrow> r1 \<noteq> OutOfFuel"
    by (auto simp: session_new_def)
  show ?thesis
  proof (cases r1)
    case (Ok x)
    obtain r2 s2 where two: "ready_loop (length input + 3) env s1 = (r2, s2)" by fastforce
    from hs(2) have "rounds_left s1 < length input + 3" by (simp add: rounds_left_def)
    from ready_loop_runs [OF hs(1) this two] run one two Ok show ?thesis
      by (cases r2) (auto simp: session_run_def bindE_def s_get_def session_new_def ret_def)
  qed (use run one hs in \<open>auto simp: session_run_def bindE_def s_get_def\<close>)
qed

section \<open>Media reach the application\<close>

definition is_media :: "Chunk \<Rightarrow> bool" where
  "is_media ck \<longleftrightarrow> cm_msg_type_id (ck_message_header ck) \<in> {AudioId, VideoId, DataAMF0Id, DataAMF3Id}"

definition media_of :: "Chunk \<Rightarrow> ChannelData" where
  "media_of ck = (case cm_msg_type_id (ck_message_header ck) of
       AudioId \<Rightarrow> ChAudio (cm_timestamp (ck_message_header ck)) (ck_payload ck)
     | VideoId \<Rightarrow> ChVideo (cm_timestamp (ck_message_header ck)) (ck_payload ck)
     | _ \<Rightarrow> ChMetadata (cm_timestamp (ck_message_header ck)) (ck_payload ck))"

lemma read_chunk_Nil: "read_chunk d [] = (Ok None, d, [])"
proof -
  have "or_none read_u8 (cursor_new []) = (Err None, cursor_new [])"
    by (simp add: or_none_def map_errE_def read_u8_def read_exact_def bindE_def cursor_new_def)
  then show ?thesis
    by (subst read_chunk.simps) (simp add: read_chunk_round_def read_chunk_headers_def read_header_def bindE_def)
qed

lemma received_sel:
  "cm_msg_type_id (ck_message_header (received cs ck)) = cm_msg_type_id (ck_message_header ck)"
  "cm_timestamp (ck_message_header (received cs ck)) = cm_timestamp (ck_message_header ck)"
  "cm_msg_stream_id (ck_message_header (received cs ck)) = cm_msg_stream_id (ck_message_header ck)"
  "ck_payload (received cs ck) = ck_payload ck"
  by (simp_all add: received_def decoded_header_def)

lemma process_media:
  assumes "is_media ck" "cm_msg_stream_id (ck_message_header ck) = s_stream_id s" "s_is_publishing s"
    and "se_data_ok env (s_delivered s) (media_of ck)"
  obtains msg where "message_parse (received cs ck) = Ok (Some msg)"
    "process_messages env msg (cm_msg_stream_id (ck_message_header (received cs ck)))
       (cm_timestamp (ck_message_header (received cs ck))) s
     = (Ok (), s\<lparr>s_delivered := s_delivered s @ [media_of ck]\<rparr>)"
  using assms unfolding is_media_def
  by (auto simp: message_parse_def received_sel on_data_def media_of_def)

lemma media_loop:
  assumes "\<forall>ck \<in> set cks. chunk_ok ck \<and> is_media ck \<and> cm_msg_stream_id (ck_message_header ck) = s_stream_id s
       \<and> cb_chunk_stream_id (ck_basic_header ck) \<in> S"
    and "s_is_publishing s" "\<forall>l x. se_data_ok env l x"
    and "headers_within S (s_chunk_decoder s)" "finite S" "card S \<le> MAX_PREVIOUS_CHUNK_HEADERS"
    and "ce_chunk_size e = max_chunk_size (s_chunk_decoder s)" "0 < max_chunk_size (s_chunk_decoder s)"
      "partial_chunks (s_chunk_decoder s) = []"
  shows "\<exists>bs d'. (\<forall>out. for_m cks (write_chunk e) out = (Ok (), out @ bs))
     \<and> (\<forall>fuel. length bs < fuel \<longrightarrow> parse_chunks_loop fuel env (s\<lparr>s_read_buf := bs\<rparr>)
          = (Ok (), s\<lparr>s_chunk_decoder := d', s_read_buf := [], s_delivered := s_delivered s @ map media_of cks\<rparr>))"
  using assms
proof (induction cks arbitrary: s)
  case Nil
  have "parse_chunks_loop (Suc n) env (s\<lparr>s_read_buf := []\<rparr>) = (Ok (), s\<lparr>s_chunk_decoder := s_chunk_decoder s,
      s_read_buf := [], s_delivered := s_delivered s @ map media_of []\<rparr>)" for n
    by (simp add: bindE_def session_read_chunk_def read_chunk_Nil ret_def)
  then show ?case by (intro exI [of _ "[]"] exI [of _ "s_chunk_decoder s"])
      (auto simp: ret_def gr0_conv_Suc simp del: parse_chunks_loop.simps)
next
  case (Cons ck cks)
  let ?d = "s_chunk_decoder s"
  let ?cs = "max_chunk_size ?d"
  let ?s1 = "s\<lparr>s_chunk_decoder := remembered ck ?d, s_delivered := s_delivered s @ [media_of ck]\<rparr>"
  have ck: "chunk_ok ck" "is_media ck" "cm_msg_stream_id (ck_message_header ck) = s_stream_id s"
    "cb_chunk_stream_id (ck_basic_header ck) \<in> S" using Cons.prems(1) by auto
  have room: "room_for ?d (cb_chunk_stream_id (ck_basic_header ck))"
    by (rule headers_within_room [OF Cons.prems(4-6) ck(4)])
  from read_written [OF ck(1) Cons.prems(7,8) room Cons.prems(9)] obtain bs1 where
    w1: "\<And>out. write_chunk e ck out = (Ok (), out @ bs1)" and
    r1: "\<And>post. read_chunk ?d (bs1 @ post) = (Ok (Some (received ?cs ck)), remembered ck ?d, post)"
    by blast
  from read_chunk_shrinks [OF r1 [of "[]"]] have "bs1 \<noteq> []" by auto
  have "headers_within S (remembered ck ?d)" by (rule headers_within_remembered [OF Cons.prems(4) ck(4)])
  with Cons.IH [of ?s1] Cons.prems obtain bs2 d' where
    w2: "\<And>out. for_m cks (write_chunk e) out = (Ok (), out @ bs2)" and
    r2: "\<And>fuel. length bs2 < fuel \<Longrightarrow> parse_chunks_loop fuel env (?s1\<lparr>s_read_buf := bs2\<rparr>)
          = (Ok (), ?s1\<lparr>s_chunk_decoder := d', s_read_buf := [], s_delivered := s_delivered ?s1 @ map media_of cks\<rparr>)"
    by auto
  have wr: "for_m (ck # cks) (write_chunk e) out = (Ok (), out @ (bs1 @ bs2))" for out
    by (simp add: bindE_def w1 w2)
  have "parse_chunks_loop fuel env (s\<lparr>s_read_buf := bs1 @ bs2\<rparr>)
     = (Ok (), s\<lparr>s_chunk_decoder := d', s_read_buf := [], s_delivered := s_delivered s @ map media_of (ck # cks)\<rparr>)"
    if fuel: "length (bs1 @ bs2) < fuel" for fuel
  proof -
    from fuel obtain n where n: "fuel = Suc n" "length bs2 < n"
      using \<open>bs1 \<noteq> []\<close> by (cases fuel) (auto simp: neq_Nil_conv)
    let ?s0 = "s\<lparr>s_read_buf := bs2, s_chunk_decoder := remembered ck ?d\<rparr>"
    obtain msg where msg: "message_parse (received ?cs ck) = Ok (Some msg)"
      "process_messages env msg (cm_msg_stream_id (ck_message_header (received ?cs ck)))
         (cm_timestamp (ck_message_header (received ?cs ck))) ?s0
       = (Ok (), ?s0\<lparr>s_delivered := s_delivered ?s0 @ [media_of ck]\<rparr>)"
      using process_media [of ck ?s0 env ?cs] ck Cons.prems(2,3) by auto
    have "session_read_chunk (s\<lparr>s_read_buf := bs1 @ bs2\<rparr>) = (Ok (Some (received ?cs ck)), ?s0)"
      by (simp add: session_read_chunk_def r1)
    moreover have same: "?s0\<lparr>s_delivered := s_delivered s @ [media_of ck]\<rparr> = ?s1\<lparr>s_read_buf := bs2\<rparr>"
      by (cases s) simp
    have "parse_chunks_loop n env (?s0\<lparr>s_delivered := s_delivered s @ [media_of ck]\<rparr>)
        = (Ok (), s\<lparr>s_chunk_decoder := d', s_read_buf := [], s_delivered := s_delivered s @ map media_of (ck # cks)\<rparr>)"
      unfolding same by (rule trans [OF r2 [OF n(2)]]) simp
    ultimately show ?thesis using msg by (simp add: n(1) bindE_def lift_result_def)
  qed
  with wr show ?case by blast
qed

section \<open>Properties of the session\<close>

text \<open>C4: nothing a client sends makes a session hand media to the application before the application
  has granted one of its publish requests, and the memory the chunk layer holds for the client stays
  within its limits: in the state a run from a fresh session ends in, on whatever socket events,
  application answers and write failures, either nothing was delivered or a request was granted.\<close>

theorem session_delivers_after_grant:
  fixes env :: session_env and input :: "io_event list"
  defines "s \<equiv> snd (session_run env (session_new input))"
  assumes hmac: "\<forall>k m. length (env_hmac (se_hs env) k m) = 32"
  shows "(s_delivered s = [] \<and> \<not> s_is_publishing s
       \<or> (\<exists>before req after uid. s_requests s = before @ req # after \<and> se_publish env before req = Granted uid))
     \<and> chunk_decoder_inv (s_chunk_decoder s)"
  using session_run_inv [OF hmac, of input] unfolding s_def session_inv_def authorised_def
  by (metis prod.collapse)

definition sample_session_env :: session_env where
  "sample_session_env = \<lparr>se_hs = sample_env, se_publish = (\<lambda>reqs req. if reqs = [] then Refused else Granted 7),
     se_data_ok = (\<lambda>_ _. True), se_write = (\<lambda>_ _. None)\<rparr>"

lemma sample_session_hmac: "\<forall>k m. length (env_hmac (se_hs sample_session_env) k m) = 32"
  using sample_env_hmac by (simp add: sample_session_env_def)

theorem session_delivers_after_grant_witness:
  "let s = snd (session_run sample_session_env (session_new [IoBytes (3 # replicate 1536 0), IoBytes (replicate 1536 0 @ [3]), IoEof]))
   in (s_delivered s = [] \<and> \<not> s_is_publishing s
       \<or> (\<exists>before req after uid. s_requests s = before @ req # after \<and> se_publish sample_session_env before req = Granted uid))
     \<and> chunk_decoder_inv (s_chunk_decoder s)"
  unfolding Let_def by (rule session_delivers_after_grant [OF sample_session_hmac])

text \<open>C5: on every finite sequence of socket events without an end of stream, whatever bytes it is sent, a session
  ends (with success, an error or a panic), or it waits for the application at a publish request: the channel of
  publish requests never has room, or the last request sent is never answered. Both awaits have no timeout in the code. The loops over
  reads, handshake rounds, chunks and messages all end; with an application that answers every request, so does the session.\<close>

theorem session_terminates:
  fixes env :: session_env and input :: "io_event list"
  defines "s \<equiv> snd (session_run env (session_new input))"
  assumes hmac: "\<forall>k m. length (env_hmac (se_hs env) k m) = 32" and eof: "IoEof \<notin> set input"
  shows "(fst (session_run env (session_new input)) = OutOfFuel \<longrightarrow>
        (\<exists>request. se_publish env (s_requests s) request = SendBlocks)
        \<or> (\<exists>before request. s_requests s = before @ [request] \<and> se_publish env before request = Unanswered))
     \<and> ((\<forall>reqs request. se_publish env reqs request \<notin> {SendBlocks, Unanswered}) \<longrightarrow>
        fst (session_run env (session_new input)) \<noteq> OutOfFuel)"
proof -
  have "fst (session_run env (session_new input)) = OutOfFuel \<longrightarrow> blocked env s"
    using session_run_inv [OF hmac, of input] eof unfolding s_def by (metis prod.collapse)
  then show ?thesis unfolding blocked_def by auto
qed

theorem session_terminates_witness:
  "fst (session_run sample_session_env (session_new [IoBytes (3 # replicate 1536 0), IoStall])) \<noteq> OutOfFuel"
  using session_terminates [OF sample_session_hmac, of "[IoBytes (3 # replicate 1536 0), IoStall]"]
  by (simp add: sample_session_env_def)

text \<open>C11: a client that closes the connection before it has sent 1537 bytes keeps the handshake stage
  busy forever: a read at the end of the stream yields 0 bytes, and the loop goes on whatever number of
  rounds it is given.\<close>

theorem handshake_spins_at_eof:
  assumes "s_input s = IoEof # rest" "bytes_read < READ_SIZE"
  shows "handshake_read_loop fuel bytes_read s = (OutOfFuel, s)"
  using assms by (induction fuel) (simp_all add: bindE_def io_read_def out_of_fuel_def)

theorem handshake_spins_at_eof_witness:
  "handshake_read_loop 1000 20 (session_new [IoEof]) = (OutOfFuel, session_new [IoEof])"
  by (rule handshake_spins_at_eof) (simp_all add: session_new_def READ_SIZE_def RTMP_HANDSHAKE_SIZE_def)

text \<open>C6: once a client publishes, the audio, video and metadata messages it encodes on its stream
  arrive at the application, every one of them, in order, with timestamp and payload unchanged, and
  the session keeps nothing of them in its buffer.\<close>

theorem session_forwards_media:
  assumes chunks: "\<forall>ck \<in> set cks. chunk_ok ck \<and> is_media ck
       \<and> cm_msg_stream_id (ck_message_header ck) = s_stream_id s
       \<and> cb_chunk_stream_id (ck_basic_header ck) \<in> S"
    and pub: "s_is_publishing s" and app: "\<forall>l x. se_data_ok env l x"
    and room: "headers_within S (s_chunk_decoder s)" "finite S" "card S \<le> MAX_PREVIOUS_CHUNK_HEADERS"
    and size: "ce_chunk_size e = max_chunk_size (s_chunk_decoder s)" "0 < max_chunk_size (s_chunk_decoder s)"
    and fresh: "partial_chunks (s_chunk_decoder s) = []"
  shows "\<exists>bs d'. for_m cks (write_chunk e) [] = (Ok (), bs)
     \<and> parse_chunks env (s\<lparr>s_read_buf := bs\<rparr>)
        = (Ok (), s\<lparr>s_chunk_decoder := d', s_read_buf := [], s_delivered := s_delivered s @ map media_of cks\<rparr>)"
proof -
  from media_loop [OF assms] obtain bs d' where "\<And>out. for_m cks (write_chunk e) out = (Ok (), out @ bs)"
    "\<And>fuel. length bs < fuel \<Longrightarrow> parse_chunks_loop fuel env (s\<lparr>s_read_buf := bs\<rparr>)
          = (Ok (), s\<lparr>s_chunk_decoder := d', s_read_buf := [], s_delivered := s_delivered s @ map media_of cks\<rparr>)"
    by blast
  from this(1) [of "[]"] this(2) [of "length bs + 1"] show ?thesis
    by (intro exI [of _ bs] exI [of _ d']) (simp add: parse_chunks_def del: parse_chunks_loop.simps)
qed

theorem session_forwards_media_witness:
  "\<exists>bs d'. for_m [chunk_new 4 40 AudioId 1 [0xAF, 1], chunk_new 6 0x1000000 VideoId 1 (replicate 300 7)]
        (write_chunk chunk_encoder_default) [] = (Ok (), bs)
     \<and> parse_chunks sample_session_env (session_new []\<lparr>s_is_publishing := True, s_stream_id := 1, s_read_buf := bs\<rparr>)
        = (Ok (), session_new []\<lparr>s_is_publishing := True, s_stream_id := 1, s_chunk_decoder := d', s_read_buf := [],
            s_delivered := [ChAudio 40 [0xAF, 1], ChVideo 0x1000000 (replicate 300 7)]\<rparr>)"
proof -
  let ?cks = "[chunk_new 4 40 AudioId 1 [0xAF, 1], chunk_new 6 0x1000000 VideoId 1 (replicate 300 7)]"
  let ?s = "session_new []\<lparr>s_is_publishing := True, s_stream_id := 1\<rparr>"
  have "\<forall>ck \<in> set ?cks. chunk_ok ck \<and> is_media ck \<and> cm_msg_stream_id (ck_message_header ck) = s_stream_id ?s
       \<and> cb_chunk_stream_id (ck_basic_header ck) \<in> {4, 6}"
    by (simp add: chunk_ok_def chunk_new_def is_media_def chunk_limits)
  then have "\<exists>bs d'. for_m ?cks (write_chunk chunk_encoder_default) [] = (Ok (), bs)
     \<and> parse_chunks sample_session_env (?s\<lparr>s_read_buf := bs\<rparr>)
        = (Ok (), ?s\<lparr>s_chunk_decoder := d', s_read_buf := [], s_delivered := s_delivered ?s @ map media_of ?cks\<rparr>)"
    by (rule session_forwards_media)
       (simp_all add: sample_session_env_def session_new_def chunk_decoder_default_def headers_within_def
          chunk_limits chunk_encoder_default_def)
  moreover have "s_delivered ?s @ map media_of ?cks = [ChAudio 40 [0xAF, 1], ChVideo 0x1000000 (replicate 300 7)]"
    by (simp add: session_new_def media_of_def chunk_new_def)
  ultimately show ?thesis by (simp only:)
qed

text \<open>C10: a publish command succeeds exactly when it names a stream, the client has connected to an
  application and the application grants the request; then the session publishes on the stream of the
  command under the granted id and answers with a stream-begin event and a status message. When the application
  never takes or never answers the request, the session waits for ever. In every
  other case the session is refused with the matching error; its publishing state is untouched in both.\<close>

theorem publish_outcome:
  assumes e: "0 < ce_chunk_size (s_chunk_encoder s)"
  shows "case on_command_publish env t sid others s of
      (Ok _, s') \<Rightarrow> \<exists>name rest app uid. others = Amf0String name # rest \<and> s_app_name s = Some app
          \<and> se_publish env (s_requests s) (app, name) = Granted uid
          \<and> s_is_publishing s' \<and> s_stream_id s' = sid \<and> s_uid s' = Some uid
          \<and> s_requests s' = s_requests s @ [(app, name)] \<and> s_delivered s' = s_delivered s
          \<and> (\<exists>reply. s_write_buf s' = s_write_buf s @ reply)
    | (Err err, s') \<Rightarrow> err = (case others of
            Amf0String name # _ \<Rightarrow> (if s_app_name s = None then NoAppName else PublishRequestDenied)
          | _ \<Rightarrow> NoStreamName)
        \<and> \<not> (\<exists>name rest app uid. others = Amf0String name # rest \<and> s_app_name s = Some app
          \<and> se_publish env (s_requests s) (app, name) = Granted uid)
        \<and> s_is_publishing s' = s_is_publishing s \<and> s_stream_id s' = s_stream_id s \<and> s_write_buf s' = s_write_buf s
    | (OutOfFuel, s') \<Rightarrow> \<exists>name rest app. others = Amf0String name # rest \<and> s_app_name s = Some app
          \<and> se_publish env (s_requests s) (app, name) \<in> {SendBlocks, Unanswered}
          \<and> s_is_publishing s' = s_is_publishing s \<and> s_stream_id s' = s_stream_id s \<and> s_write_buf s' = s_write_buf s
    | (Panic, s') \<Rightarrow> False"
proof (cases "\<exists>name rest app uid. others = Amf0String name # rest \<and> s_app_name s = Some app
          \<and> se_publish env (s_requests s) (app, name) = Granted uid")
  case True
  then obtain name rest app uid where g: "others = Amf0String name # rest" "s_app_name s = Some app"
    "se_publish env (s_requests s) (app, name) = Granted uid" by blast
  let ?e = "s_chunk_encoder s" and ?code = "str ''NetStream.Publish.Start''" and ?level = "str ''status''"
  have "\<forall>x \<in> {?code, ?level, []}. amf0_wf (Amf0String x)" by (simp add: utf8_str)
  from on_status_sends [OF e this, of t] obtain bs2 where
    w2: "\<And>out. write_on_status ?e t ?level ?code [] out = (Ok (), out @ bs2)" by (auto simp: sends_command_def)
  have "length (be16 RTMP_EVENT_STREAM_BEGIN @ be32 sid) \<le> MAX_PARTIAL_CHUNK_SIZE" by (simp add: chunk_limits)
  from write_message_run [OF e this, of 2 UserControlEventId 0] obtain bs1 where
    w1: "\<And>out. write_stream_begin ?e sid out = (Ok (), out @ bs1)"
    by (auto simp: write_stream_begin_def map_errE_def)
  show ?thesis
    by (simp add: on_command_publish_def g request_publish_def bindE_def s_get_def s_upd_def s_write_def w1 w2)
next
  case False
  then show ?thesis
    by (auto simp: on_command_publish_def request_publish_def bindE_def s_get_def fail_def
        split: list.split Amf0Value.split option.split publish_answer.split)
qed

theorem publish_outcome_witness:
  "case on_command_publish sample_session_env 0 1 [Amf0String (str ''key'')]
       (session_new []\<lparr>s_app_name := Some (str ''live''), s_requests := [([], [])]\<rparr>) of
      (Ok _, s') \<Rightarrow> s_is_publishing s' \<and> s_uid s' = Some 7 | _ \<Rightarrow> False"
  using publish_outcome [of "session_new []\<lparr>s_app_name := Some (str ''live''), s_requests := [([], [])]\<rparr>"
      "[Amf0String (str ''key'')]" sample_session_env 1 0]
  by (auto simp: session_new_def chunk_encoder_default_def chunk_limits sample_session_env_def
      split: prod.splits result.splits)

end
