(* ===== verification/Mp4_Box.thy ===== *)
theory Mp4_Box
  imports Bytes_Util
begin

text \<open>
  The frame of the MP4 library (\<^verbatim>\<open>crates/mp4/src/boxes/header.rs\<close> and \<^verbatim>\<open>traits.rs\<close>): box headers, full
  box headers and the trait \<^verbatim>\<open>BoxType\<close> as a record of its operations, with its provided methods
  \<^verbatim>\<open>size\<close> and \<^verbatim>\<open>mux\<close>. The locale \<open>box_codec\<close> states what a box type promises; that a written box is found
  again, with its size, behind any bytes and in front of any bytes, is proved once inside it.
  Sizes, which the code computes in \<^verbatim>\<open>u64\<close>, are natural numbers.
\<close>

named_theorems box_simps \<open>definitions and rules that evaluate the operations of a box type\<close>

section \<open>Headers\<close>

record box_header =
  bh_box_type :: bytes

definition box_header_new :: "bytes \<Rightarrow> box_header" where
  "box_header_new box_type = \<lparr>bh_box_type = box_type\<rparr>"

definition box_header_demux :: "(cursor, io_error, box_header \<times> bytes) prog" where
  "box_header_demux =
     bindE read_u32 (\<lambda>size32.
     bindE (read_exact 4) (\<lambda>box_type.
     let offset = (if size32 = 1 then 16 else 8) in
     bindE (if size32 = 1 then bindE read_u64 (\<lambda>n. ret (unat n)) else ret (unat size32)) (\<lambda>size.
     bindE (if size = 0 then extract_remaining
            else if size < offset then panic
            else extract_bytes (size - offset)) (\<lambda>data.
     ret (\<lparr>bh_box_type = box_type\<rparr>, data)))))"

record full_box_header =
  fh_header :: box_header
  fh_version :: u8
  fh_flags :: u32

definition full_header_new :: "bytes \<Rightarrow> u8 \<Rightarrow> u32 \<Rightarrow> full_box_header" where
  "full_header_new box_type version flags =
     \<lparr>fh_header = box_header_new box_type, fh_version = version, fh_flags = flags\<rparr>"

definition full_header_demux :: "box_header \<Rightarrow> (cursor, io_error, full_box_header) prog" where
  "full_header_demux header =
     bindE read_u8 (\<lambda>version.
     bindE read_u24 (\<lambda>flags.
     ret \<lparr>fh_header = header, fh_version = version, fh_flags = flags\<rparr>))"

definition full_header_mux :: "full_box_header \<Rightarrow> (bytes, io_error, unit) prog" where
  "full_header_mux h = bindE (write_u8 (fh_version h)) (\<lambda>_. write_u24 (fh_flags h))"

definition full_header_size :: "full_box_header \<Rightarrow> nat" where
  "full_header_size h = 1 + 3"

section \<open>The trait\<close>

record 'b box_type =
  bt_name :: bytes
  bt_demux :: "box_header \<Rightarrow> bytes \<Rightarrow> 'b io_result"
  bt_primitive_size :: "'b \<Rightarrow> nat"
  bt_primitive_mux :: "'b \<Rightarrow> (bytes, io_error, unit) prog"
  bt_validate :: "'b \<Rightarrow> unit io_result"

definition u32_max :: nat where "u32_max = 0xFFFFFFFF"

definition box_size :: "'b box_type \<Rightarrow> 'b \<Rightarrow> nat" where
  "box_size bt b =
     (let primitive_size = bt_primitive_size bt b + 8
      in if primitive_size > u32_max then primitive_size + 8 else primitive_size)"

text \<open>The header that \<^verbatim>\<open>mux\<close> writes in front of a body.\<close>

definition write_box_header :: "nat \<Rightarrow> bytes \<Rightarrow> (bytes, io_error, unit) prog" where
  "write_box_header n name =
     bindE (if n > u32_max then write_u32 1 else write_u32 (word_of_nat n)) (\<lambda>_.
     bindE (write_all name) (\<lambda>_.
     if n > u32_max then write_u64 (word_of_nat n) else ret ()))"

definition box_mux :: "'b box_type \<Rightarrow> 'b \<Rightarrow> (bytes, io_error, unit) prog" where
  "box_mux bt b =
     bindE (lift_result (bt_validate bt b)) (\<lambda>_.
     bindE (write_box_header (box_size bt b) (bt_name bt)) (\<lambda>_.
     bt_primitive_mux bt b))"

text \<open>The checks of a \<^verbatim>\<open>validate\<close> method: the first one that fails is reported.\<close>

definition require :: "bool \<Rightarrow> unit io_result \<Rightarrow> unit io_result" where
  "require ok k = (if ok then k else Err InvalidData)"

lemma require_iff [simp]: "require ok k = Ok () \<longleftrightarrow> ok \<and> k = Ok ()"
  by (simp add: require_def)

definition no_validate :: "'b \<Rightarrow> unit io_result" where
  "no_validate b = Ok ()"

lemma no_validate_ok [simp]: "no_validate b = Ok ()"
  by (simp add: no_validate_def)

text \<open>Reading a whole body with a reader of its own.\<close>

definition with_reader :: "(cursor, io_error, 'b) prog \<Rightarrow> bytes \<Rightarrow> 'b io_result" where
  "with_reader m data = fst (m (cursor_new data))"

lemmas reader_simps [box_simps] = with_reader_def cursor_new_curs

section \<open>The wire format of a box\<close>

definition box_bytes :: "bytes \<Rightarrow> bytes \<Rightarrow> bytes" where
  "box_bytes name body =
     (let n = length body + 8
      in if n > u32_max then be32 1 @ name @ be64 (word_of_nat (n + 8)) @ body
         else be32 (word_of_nat n) @ name @ body)"

text \<open>Bodies are far smaller than \<open>2 ^ 64\<close>.\<close>

abbreviation body_fits :: "bytes \<Rightarrow> bool" where
  "body_fits body \<equiv> length body + 16 < 2 ^ 64"

lemma box_bytes_demux:
  assumes name: "length name = 4" and fits: "body_fits body"
  shows "box_header_demux (curs pre (box_bytes name body @ post))
     = (Ok (\<lparr>bh_box_type = name\<rparr>, body), curs (pre @ box_bytes name body) post)"
proof -
  have rd: "read_exact 4 (curs p (name @ r)) = (Ok name, curs (p @ name) r)" for p r
    using name by (rule read_exact_curs)
  show ?thesis
  proof (cases "length body + 8 > u32_max")
    case True
    define w :: u64 where "w = word_of_nat (length body + 16)"
    have w: "unat w = length body + 16" using fits by (simp add: w_def unat_of_nat del: of_nat_add)
    have "box_bytes name body = be32 1 @ name @ be64 w @ body"
      using True by (simp add: box_bytes_def Let_def w_def add.commute [of 16])
    with w show ?thesis by (simp add: box_header_demux_def run_simps rd)
  next
    case False
    define w :: u32 where "w = word_of_nat (length body + 8)"
    have w: "unat w = length body + 8" using False by (simp add: w_def unat_of_nat u32_max_def del: of_nat_add)
    then have "w \<noteq> 1" by auto
    moreover have "box_bytes name body = be32 w @ name @ body"
      using False by (simp add: box_bytes_def Let_def w_def)
    ultimately show ?thesis using w by (simp add: box_header_demux_def run_simps rd)
  qed
qed

lemma write_box_header_bytes:
  assumes "n = (if length body + 8 > u32_max then length body + 16 else length body + 8)"
  shows "\<exists>h. write_box_header n name out = (Ok (), out @ h) \<and> h @ body = box_bytes name body"
  using assms by (auto simp: write_box_header_def box_bytes_def Let_def run_simps add.commute [of 16])

section \<open>What a box type promises\<close>

text \<open>\<open>box_ok bt b bs\<close>: the box passes its validation, its body is written as \<open>bs\<close>, has the announced
  size, and is parsed again to the same box.\<close>

definition box_ok :: "'b box_type \<Rightarrow> 'b \<Rightarrow> bytes \<Rightarrow> bool" where
  "box_ok bt b bs \<longleftrightarrow> bt_validate bt b = Ok ()
     \<and> (\<forall>out. bt_primitive_mux bt b out = (Ok (), out @ bs))
     \<and> length bs = bt_primitive_size bt b
     \<and> bt_demux bt \<lparr>bh_box_type = bt_name bt\<rparr> bs = Ok b"

lemma box_ok_mux:
  assumes "box_ok bt b bs"
  shows "box_mux bt b out = (Ok (), out @ box_bytes (bt_name bt) bs)"
proof -
  note ok = assms [unfolded box_ok_def]
  have "box_size bt b = (if length bs + 8 > u32_max then length bs + 16 else length bs + 8)"
    using ok by (simp add: box_size_def Let_def)
  from write_box_header_bytes [OF this, of "bt_name bt" out] obtain h where
    "write_box_header (box_size bt b) (bt_name bt) out = (Ok (), out @ h)"
    "h @ bs = box_bytes (bt_name bt) bs" by blast
  with ok show ?thesis by (simp add: box_mux_def run_simps)
qed

lemma box_ok_size:
  "box_ok bt b bs \<Longrightarrow> length (bt_name bt) = 4 \<Longrightarrow> length (box_bytes (bt_name bt) bs) = box_size bt b"
  by (auto simp: box_ok_def box_bytes_def box_size_def Let_def)

lemma box_ok_fits: "box_ok bt b bs \<Longrightarrow> box_size bt b < 2 ^ 64 \<Longrightarrow> body_fits bs"
  by (auto simp: box_ok_def box_size_def Let_def u32_max_def split: if_splits)

locale box_codec =
  fixes bt :: "'b box_type" and wf :: "'b \<Rightarrow> bool"
  assumes name_length: "length (bt_name bt) = 4"
    and wf_ok: "wf b \<Longrightarrow> \<exists>bs. box_ok bt b bs"
begin

definition body :: "'b \<Rightarrow> bytes" where
  "body b = snd (bt_primitive_mux bt b [])"

lemma body_ok: "wf b \<Longrightarrow> box_ok bt b (body b)"
  using wf_ok [of b] by (auto simp: body_def box_ok_def)

lemma mux_bytes: "wf b \<Longrightarrow> box_mux bt b out = (Ok (), out @ box_bytes (bt_name bt) (body b))"
  by (rule box_ok_mux [OF body_ok])

lemma mux_size: "wf b \<Longrightarrow> length (box_bytes (bt_name bt) (body b)) = box_size bt b"
  by (rule box_ok_size [OF body_ok name_length])

text \<open>The round trip of a box through its header and body.\<close>

lemma mux_demux:
  assumes "wf b" "box_size bt b < 2 ^ 64"
  shows "\<exists>bs hdr data. (\<forall>out. box_mux bt b out = (Ok (), out @ bs)) \<and> length bs = box_size bt b
     \<and> (\<forall>pre post. box_header_demux (curs pre (bs @ post)) = (Ok (hdr, data), curs (pre @ bs) post))
     \<and> bh_box_type hdr = bt_name bt \<and> bt_demux bt hdr data = Ok b"
proof -
  note ok = body_ok [OF assms(1), unfolded box_ok_def]
  have "body_fits (body b)" by (rule box_ok_fits [OF body_ok [OF assms(1)] assms(2)])
  from box_bytes_demux [OF name_length this] mux_bytes [OF assms(1)] mux_size [OF assms(1)] ok
  show ?thesis
    by (intro exI [of _ "box_bytes (bt_name bt) (body b)"] exI [of _ "\<lparr>bh_box_type = bt_name bt\<rparr>"]
        exI [of _ "body b"]) auto
qed

end

section \<open>Building blocks of box types\<close>

definition fourcc :: "string \<Rightarrow> bytes" where
  "fourcc s = map of_char s"

lemma length_fourcc [simp]: "length (fourcc s) = length s"
  by (simp add: fourcc_def)

definition full_header_bytes :: "full_box_header \<Rightarrow> bytes" where
  "full_header_bytes h = fh_version h # be24 (fh_flags h)"

text \<open>The full header a box of the given name has, with flags that fit their 24 bits.\<close>

definition full_header_ok :: "bytes \<Rightarrow> full_box_header \<Rightarrow> bool" where
  "full_header_ok name h \<longleftrightarrow> fh_header h = \<lparr>bh_box_type = name\<rparr> \<and> fh_flags h < 0x1000000"

lemma full_header_run [box_simps]:
  "full_header_ok name h \<Longrightarrow> full_header_mux h out = (Ok (), out @ full_header_bytes h)"
  "full_header_ok name h \<Longrightarrow> full_header_demux \<lparr>bh_box_type = name\<rparr> (curs pre (full_header_bytes h @ post))
     = (Ok h, curs (pre @ full_header_bytes h) post)"
  "full_header_ok name h \<Longrightarrow> full_header_demux \<lparr>bh_box_type = name\<rparr> (curs pre (full_header_bytes h))
     = (Ok h, curs (pre @ full_header_bytes h) [])"
  by (cases h; simp add: full_header_ok_def full_header_mux_def full_header_demux_def full_header_bytes_def
      run_simps take_bit_24_id)+

lemma length_full_header_bytes [box_simps]: "length (full_header_bytes h) = full_header_size h"
  by (simp add: full_header_bytes_def full_header_size_def)

lemma full_header_size_eq [box_simps]: "full_header_size h = 4"
  by (simp add: full_header_size_def)

text \<open>A \<^verbatim>\<open>u64\<close> field stored in 32 bits.\<close>

lemma u64_in_u32 [box_simps]: "x \<le> 0xFFFFFFFF \<Longrightarrow> ucast (ucast (x :: u64) :: u32) = x"
  by (rule word_unat_eq_iff [THEN iffD2])
     (simp add: unat_ucast_up unat_ucast_small word_le_nat_alt)

lemma version_01: "(v :: u8) \<le> 1 \<longleftrightarrow> v = 0 \<or> v = 1"
  by (auto simp: word_le_nat_alt word_unat_eq_iff)

text \<open>Vectors with a 32-bit count.\<close>

definition write_count :: "'a list \<Rightarrow> (bytes, io_error, unit) prog" where
  "write_count xs = write_u32 (word_of_nat (length xs))"

lemma write_count_run [box_simps]: "write_count xs out = (Ok (), out @ be32 (word_of_nat (length xs)))"
  by (simp add: write_count_def run_simps)

lemma unat_count [box_simps]: "length xs \<le> u32_max \<Longrightarrow> unat (word_of_nat (length xs) :: u32) = length xs"
  by (simp add: unat_of_nat u32_max_def)

text \<open>\<^verbatim>\<open>while reader.remaining() > k\<close>.\<close>

fun while_remaining :: "nat \<Rightarrow> nat \<Rightarrow> (cursor, 'e, 'a) prog \<Rightarrow> (cursor, 'e, 'a list) prog" where
  "while_remaining 0 k m = out_of_fuel"
| "while_remaining (Suc fuel) k m = (\<lambda>c.
     if cur_remaining c > k
     then bindE m (\<lambda>x. bindE (while_remaining fuel k m) (\<lambda>xs. ret (x # xs))) c
     else (Ok [], c))"

definition read_while :: "nat \<Rightarrow> (cursor, 'e, 'a) prog \<Rightarrow> (cursor, 'e, 'a list) prog" where
  "read_while k m c = while_remaining (cur_remaining c + 1) k m c"

lemma while_remaining_codec:
  assumes "\<And>x pre post. x \<in> set xs \<Longrightarrow> m (curs pre (enc x @ post)) = (Ok x, curs (pre @ enc x) post)"
    and "\<And>x. x \<in> set xs \<Longrightarrow> k < length (enc x)" "length (concat (map enc xs)) < fuel"
  shows "while_remaining fuel k m (curs pre (concat (map enc xs)))
     = (Ok xs, curs (pre @ concat (map enc xs)) [])"
  using assms
proof (induction xs arbitrary: fuel pre)
  case Nil
  then obtain f where "fuel = Suc f" by (cases fuel) auto
  then show ?case by simp
next
  case (Cons x xs)
  then obtain f where f: "fuel = Suc f" by (cases fuel) auto
  have "k < length (enc x)" using Cons.prems(2) by simp
  moreover from this have "length (concat (map enc xs)) < f" using Cons.prems(3) f by simp
  moreover from this have "while_remaining f k m (curs (pre @ enc x) (concat (map enc xs)))
      = (Ok xs, curs ((pre @ enc x) @ concat (map enc xs)) [])"
    using Cons.prems by (intro Cons.IH) auto
  ultimately show ?case using Cons.prems(1) by (simp add: f bindE_def ret_def)
qed

lemma read_while_codec:
  assumes "\<And>x pre post. x \<in> set xs \<Longrightarrow> m (curs pre (enc x @ post)) = (Ok x, curs (pre @ enc x) post)"
    and "\<And>x. x \<in> set xs \<Longrightarrow> k < length (enc x)"
  shows "read_while k m (curs pre (concat (map enc xs))) = (Ok xs, curs (pre @ concat (map enc xs)) [])"
  unfolding read_while_def by (rule while_remaining_codec) (use assms in auto)

text \<open>Reading \<open>length xs\<close> encoded values.\<close>

lemma repeat_m_codec:
  assumes "\<And>x pre post. x \<in> set xs \<Longrightarrow> m (curs pre (enc x @ post)) = (Ok x, curs (pre @ enc x) post)"
  shows "repeat_m (length xs) m (curs pre (concat (map enc xs) @ post))
     = (Ok xs, curs (pre @ concat (map enc xs)) post)"
    "repeat_m (length xs) m (curs pre (concat (map enc xs))) = (Ok xs, curs (pre @ concat (map enc xs)) [])"
proof -
  show gen: "repeat_m (length xs) m (curs pre (concat (map enc xs) @ post))
     = (Ok xs, curs (pre @ concat (map enc xs)) post)" for post
    using assms by (induction xs arbitrary: pre) (auto simp: bindE_def ret_def)
  show "repeat_m (length xs) m (curs pre (concat (map enc xs))) = (Ok xs, curs (pre @ concat (map enc xs)) [])"
    using gen [of "[]"] by simp
qed

lemma length_concat_const:
  "(\<And>x. x \<in> set xs \<Longrightarrow> length (enc x) = n) \<Longrightarrow> length (concat (map enc xs)) = n * length xs"
  by (induction xs) auto

text \<open>Fixed-length arrays of integers.\<close>

definition read_u32s :: "nat \<Rightarrow> (cursor, io_error, u32 list) prog" where
  "read_u32s n = repeat_m n read_u32"

definition write_u32s :: "u32 list \<Rightarrow> (bytes, io_error, unit) prog" where
  "write_u32s xs = for_m xs write_u32"

definition be32s :: "u32 list \<Rightarrow> bytes" where
  "be32s xs = concat (map be32 xs)"

lemma u32s_run [box_simps]:
  "write_u32s xs out = (Ok (), out @ be32s xs)"
  "length xs = n \<Longrightarrow> read_u32s n (curs pre (be32s xs @ post)) = (Ok xs, curs (pre @ be32s xs) post)"
  "length xs = n \<Longrightarrow> read_u32s n (curs pre (be32s xs)) = (Ok xs, curs (pre @ be32s xs) [])"
  using repeat_m_codec [of xs read_u32 be32] for_m_write [of xs write_u32 be32]
  by (auto simp: read_u32s_def write_u32s_def be32s_def run_simps)

lemma length_be32s [box_simps]: "length (be32s xs) = 4 * length xs"
  unfolding be32s_def by (rule length_concat_const) simp

text \<open>Zero-terminated strings: bytes are pushed as characters, that is, as UTF-8 of the code points
  0 to 255.\<close>

definition char_utf8 :: "u8 \<Rightarrow> bytes" where
  "char_utf8 c = (if c < 0x80 then [c] else [0xC0 OR drop_bit 6 c, 0x80 OR (c AND 0x3F)])"

fun read_cstring_loop :: "nat \<Rightarrow> (cursor, io_error, bytes) prog" where
  "read_cstring_loop 0 = out_of_fuel"
| "read_cstring_loop (Suc fuel) = bindE read_u8 (\<lambda>c.
     if c = 0 then ret [] else bindE (read_cstring_loop fuel) (\<lambda>s. ret (char_utf8 c @ s)))"

definition read_cstring :: "(cursor, io_error, bytes) prog" where
  "read_cstring c = read_cstring_loop (cur_remaining c + 1) c"

definition ascii :: "bytes \<Rightarrow> bool" where
  "ascii s \<longleftrightarrow> (\<forall>c \<in> set s. 0 < c \<and> c < 0x80)"

lemma read_cstring_loop_run:
  "\<lbrakk>ascii s; length s < fuel\<rbrakk> \<Longrightarrow>
   read_cstring_loop fuel (curs pre (s @ 0 # post)) = (Ok s, curs (pre @ s @ [0]) post)"
proof (induction s arbitrary: fuel pre)
  case Nil
  then obtain f where "fuel = Suc f" by (cases fuel) auto
  then show ?case by (simp add: run_simps)
next
  case (Cons c s)
  then obtain f where f: "fuel = Suc f" by (cases fuel) auto
  from Cons.prems have "c \<noteq> 0" "char_utf8 c = [c]" "ascii s" by (auto simp: ascii_def char_utf8_def)
  with Cons.IH [of f "pre @ [c]"] Cons.prems f show ?case by (simp add: run_simps)
qed

lemma read_cstring_run [box_simps]:
  "ascii s \<Longrightarrow> read_cstring (curs pre (s @ 0 # post)) = (Ok s, curs (pre @ s @ [0]) post)"
  by (simp add: read_cstring_def read_cstring_loop_run del: read_cstring_loop.simps)

lemma for_m_be16: "for_m xs write_u16 out = (Ok (), out @ concat (map be16 xs))"
  by (rule for_m_write) (simp add: run_simps)

lemma read_be16s:
  "length xs = n \<Longrightarrow> repeat_m n read_u16 (curs pre (concat (map be16 xs))) = (Ok xs, curs (pre @ concat (map be16 xs)) [])"
  using repeat_m_codec(2) [of xs read_u16 be16] by (auto simp: run_simps)

lemma length_be16s [box_simps]: "length (concat (map be16 xs)) = 2 * length xs"
  by (rule length_concat_const) simp

lemma for_m_write_all: "for_m xs (\<lambda>x. write_all (f x)) out = (Ok (), out @ concat (map f xs))"
  by (rule for_m_write) (simp add: run_simps)

end
