(* ===== verification/Mp4_Headers.thy ===== *)
theory Mp4_Headers
  imports Mp4_Box
begin

text \<open>
  The MP4 boxes with fixed fields (\<^verbatim>\<open>crates/mp4/src/boxes/types\<close>): file type, movie, track and media
  headers, handler, media information headers, fragment headers, sample description details. For each box
  its record, constructor where the code has one, \<^verbatim>\<open>demux\<close>, \<^verbatim>\<open>primitive_size\<close>, \<^verbatim>\<open>primitive_mux\<close> and
  \<^verbatim>\<open>validate\<close>, the box type built from them, and the interpretation of \<open>box_codec\<close>: a box that passes its
  own validation (and holds strings and arrays its wire format can hold) is read back from what it writes.
\<close>

section \<open>Movie and media headers\<close>

text \<open>The four times \<^verbatim>\<open>mvhd\<close> and \<^verbatim>\<open>mdhd\<close> start with, in 64 or 32 bits.\<close>

definition read_times :: "u8 \<Rightarrow> (cursor, io_error, u64 \<times> u64 \<times> u32 \<times> u64) prog" where
  "read_times version =
     (if version = 1 then
        bindE read_u64 (\<lambda>creation_time.
        bindE read_u64 (\<lambda>modification_time.
        bindE read_u32 (\<lambda>timescale.
        bindE read_u64 (\<lambda>duration.
        ret (creation_time, modification_time, timescale, duration)))))
      else
        bindE read_u32 (\<lambda>creation_time.
        bindE read_u32 (\<lambda>modification_time.
        bindE read_u32 (\<lambda>timescale.
        bindE read_u32 (\<lambda>duration.
        ret (ucast creation_time, ucast modification_time, timescale, ucast duration))))))"

definition write_times :: "u8 \<Rightarrow> u64 \<Rightarrow> u64 \<Rightarrow> u32 \<Rightarrow> u64 \<Rightarrow> (bytes, io_error, unit) prog" where
  "write_times version creation_time modification_time timescale duration =
     (if version = 1 then
        bindE (write_u64 creation_time) (\<lambda>_.
        bindE (write_u64 modification_time) (\<lambda>_.
        bindE (write_u32 timescale) (\<lambda>_.
        write_u64 duration)))
      else
        bindE (write_u32 (ucast creation_time)) (\<lambda>_.
        bindE (write_u32 (ucast modification_time)) (\<lambda>_.
        bindE (write_u32 timescale) (\<lambda>_.
        write_u32 (ucast duration)))))"

definition times_bytes :: "u8 \<Rightarrow> u64 \<Rightarrow> u64 \<Rightarrow> u32 \<Rightarrow> u64 \<Rightarrow> bytes" where
  "times_bytes v c m t d =
     (if v = 1 then be64 c @ be64 m @ be32 t @ be64 d
      else be32 (ucast c) @ be32 (ucast m) @ be32 t @ be32 (ucast d))"

lemma times_run [box_simps]:
  "write_times v c m t d out = (Ok (), out @ times_bytes v c m t d)"
  "v \<le> 1 \<Longrightarrow> v = 0 \<longrightarrow> c \<le> 0xFFFFFFFF \<and> m \<le> 0xFFFFFFFF \<and> d \<le> 0xFFFFFFFF \<Longrightarrow>
   read_times v (curs pre (times_bytes v c m t d @ post)) = (Ok (c, m, t, d), curs (pre @ times_bytes v c m t d) post)"
  by (cases "v = 1"; simp add: write_times_def read_times_def times_bytes_def run_simps u64_in_u32 version_01)+

lemma length_times_bytes [box_simps]: "length (times_bytes v c m t d) = (if v = 1 then 28 else 16)"
  by (simp add: times_bytes_def)

record Mdhd =
  mdhd_header :: full_box_header
  mdhd_creation_time :: u64
  mdhd_modification_time :: u64
  mdhd_timescale :: u32
  mdhd_duration :: u64
  mdhd_language :: u16
  mdhd_pre_defined :: u16

definition mdhd_new :: "u64 \<Rightarrow> u64 \<Rightarrow> u32 \<Rightarrow> u64 \<Rightarrow> Mdhd" where
  "mdhd_new creation_time modification_time timescale duration =
     (let version = (if creation_time > 0xFFFFFFFF \<or> modification_time > 0xFFFFFFFF \<or> duration > 0xFFFFFFFF
                     then 1 else 0)
      in \<lparr>mdhd_header = full_header_new (fourcc ''mdhd'') version 0, mdhd_creation_time = creation_time,
          mdhd_modification_time = modification_time, mdhd_timescale = timescale, mdhd_duration = duration,
          mdhd_language = 0x55c4, mdhd_pre_defined = 0\<rparr>)"

definition mdhd_demux :: "box_header \<Rightarrow> bytes \<Rightarrow> Mdhd io_result" where
  "mdhd_demux header = with_reader (
     bindE (full_header_demux header) (\<lambda>h.
     bindE (read_times (fh_version h)) (\<lambda>(creation_time, modification_time, timescale, duration).
     bindE read_u16 (\<lambda>language.
     bindE read_u16 (\<lambda>pre_defined.
     ret \<lparr>mdhd_header = h, mdhd_creation_time = creation_time, mdhd_modification_time = modification_time,
          mdhd_timescale = timescale, mdhd_duration = duration, mdhd_language = language,
          mdhd_pre_defined = pre_defined\<rparr>)))))"

definition mdhd_primitive_size :: "Mdhd \<Rightarrow> nat" where
  "mdhd_primitive_size b = full_header_size (mdhd_header b)
     + (if fh_version (mdhd_header b) = 1 then 8 + 8 + 4 + 8 else 4 + 4 + 4 + 4) + 2 + 2"

definition mdhd_primitive_mux :: "Mdhd \<Rightarrow> (bytes, io_error, unit) prog" where
  "mdhd_primitive_mux b =
     bindE (full_header_mux (mdhd_header b)) (\<lambda>_.
     bindE (write_times (fh_version (mdhd_header b)) (mdhd_creation_time b) (mdhd_modification_time b)
              (mdhd_timescale b) (mdhd_duration b)) (\<lambda>_.
     bindE (write_u16 (mdhd_language b)) (\<lambda>_.
     write_u16 (mdhd_pre_defined b))))"

definition mdhd_validate :: "Mdhd \<Rightarrow> unit io_result" where
  "mdhd_validate b =
     require (fh_flags (mdhd_header b) = 0) (
     require (fh_version (mdhd_header b) \<le> 1) (
     require (fh_version (mdhd_header b) = 0 \<longrightarrow> mdhd_creation_time b \<le> 0xFFFFFFFF) (
     require (fh_version (mdhd_header b) = 0 \<longrightarrow> mdhd_modification_time b \<le> 0xFFFFFFFF) (
     require (fh_version (mdhd_header b) = 0 \<longrightarrow> mdhd_duration b \<le> 0xFFFFFFFF) (
     require (mdhd_pre_defined b = 0) (Ok ()))))))"

definition mdhd_box :: "Mdhd box_type" where
  "mdhd_box = \<lparr>bt_name = fourcc ''mdhd'', bt_demux = mdhd_demux, bt_primitive_size = mdhd_primitive_size,
     bt_primitive_mux = mdhd_primitive_mux, bt_validate = mdhd_validate\<rparr>"

definition mdhd_wf :: "Mdhd \<Rightarrow> bool" where
  "mdhd_wf b \<longleftrightarrow> mdhd_validate b = Ok () \<and> full_header_ok (fourcc ''mdhd'') (mdhd_header b)"

lemmas mdhd_defs = mdhd_box_def mdhd_wf_def mdhd_validate_def mdhd_demux_def mdhd_primitive_size_def
  mdhd_primitive_mux_def

interpretation mdhd: box_codec mdhd_box mdhd_wf
proof
  fix b assume "mdhd_wf b"
  then show "\<exists>bs. box_ok mdhd_box b bs"
    by (cases b) (auto simp: box_ok_def mdhd_defs run_simps box_simps)
qed (simp add: mdhd_defs)

text \<open>Fixed-point fields (\<^verbatim>\<open>FixedI32\<close>, \<^verbatim>\<open>FixedI16\<close>) are represented by their bits. The transformation matrix of
  \<^verbatim>\<open>mvhd\<close> and \<^verbatim>\<open>tkhd\<close>:\<close>

definition MATRIX :: "u32 list" where
  "MATRIX = [0x00010000, 0, 0, 0, 0x00010000, 0, 0, 0, 0x40000000]"

record Mvhd =
  mvhd_header :: full_box_header
  mvhd_creation_time :: u64
  mvhd_modification_time :: u64
  mvhd_timescale :: u32
  mvhd_duration :: u64
  mvhd_rate :: i32
  mvhd_volume :: i16
  mvhd_reserved :: u16
  mvhd_reserved2 :: "u32 list"
  mvhd_matrix :: "u32 list"
  mvhd_pre_defined :: "u32 list"
  mvhd_next_track_id :: u32

definition mvhd_demux :: "box_header \<Rightarrow> bytes \<Rightarrow> Mvhd io_result" where
  "mvhd_demux header = with_reader (
     bindE (full_header_demux header) (\<lambda>h.
     bindE (read_times (fh_version h)) (\<lambda>(creation_time, modification_time, timescale, duration).
     bindE read_u32 (\<lambda>rate.
     bindE read_u16 (\<lambda>volume.
     bindE read_u16 (\<lambda>reserved.
     bindE (read_u32s 2) (\<lambda>reserved2.
     bindE (read_u32s 9) (\<lambda>matrix.
     bindE (read_u32s 6) (\<lambda>pre_defined.
     bindE read_u32 (\<lambda>next_track_id.
     ret \<lparr>mvhd_header = h, mvhd_creation_time = creation_time, mvhd_modification_time = modification_time, mvhd_timescale = timescale, mvhd_duration = duration, mvhd_rate = rate, mvhd_volume = volume, mvhd_reserved = reserved, mvhd_reserved2 = reserved2, mvhd_matrix = matrix, mvhd_pre_defined = pre_defined, mvhd_next_track_id = next_track_id\<rparr>))))))))))"

definition mvhd_primitive_size :: "Mvhd \<Rightarrow> nat" where
  "mvhd_primitive_size b = full_header_size (mvhd_header b) + (if fh_version (mvhd_header b) = 1 then 8 + 8 + 4 + 8 else 4 + 4 + 4 + 4) + (4 + 2 + 2) + 4 * 2 + 4 * 9 + 4 * 6 + 4"

definition mvhd_primitive_mux :: "Mvhd \<Rightarrow> (bytes, io_error, unit) prog" where
  "mvhd_primitive_mux b =
     bindE (full_header_mux (mvhd_header b)) (\<lambda>_.
     bindE (write_times (fh_version (mvhd_header b)) (mvhd_creation_time b) (mvhd_modification_time b) (mvhd_timescale b) (mvhd_duration b)) (\<lambda>_.
     bindE (write_u32 (mvhd_rate b)) (\<lambda>_.
     bindE (write_u16 (mvhd_volume b)) (\<lambda>_.
     bindE (write_u16 (mvhd_reserved b)) (\<lambda>_.
     bindE (write_u32s (mvhd_reserved2 b)) (\<lambda>_.
     bindE (write_u32s (mvhd_matrix b)) (\<lambda>_.
     bindE (write_u32s (mvhd_pre_defined b)) (\<lambda>_.
     write_u32 (mvhd_next_track_id b)))))))))"

definition mvhd_validate :: "Mvhd \<Rightarrow> unit io_result" where
  "mvhd_validate b =
     require (fh_flags (mvhd_header b) = 0) (
     require (fh_version (mvhd_header b) \<le> 1) (
     require (fh_version (mvhd_header b) = 0 \<longrightarrow> (mvhd_creation_time b) \<le> 0xFFFFFFFF) (
     require (fh_version (mvhd_header b) = 0 \<longrightarrow> (mvhd_modification_time b) \<le> 0xFFFFFFFF) (
     require (fh_version (mvhd_header b) = 0 \<longrightarrow> (mvhd_duration b) \<le> 0xFFFFFFFF) (
     require ((mvhd_reserved b) = 0) (
     require ((mvhd_reserved2 b) = replicate 2 0) (
     require ((mvhd_pre_defined b) = replicate 6 0) (Ok ()))))))))"

definition mvhd_box :: "Mvhd box_type" where
  "mvhd_box = \<lparr>bt_name = fourcc ''mvhd'', bt_demux = mvhd_demux, bt_primitive_size = mvhd_primitive_size,
     bt_primitive_mux = mvhd_primitive_mux, bt_validate = mvhd_validate\<rparr>"

definition mvhd_wf :: "Mvhd \<Rightarrow> bool" where
  "mvhd_wf b \<longleftrightarrow> mvhd_validate b = Ok () \<and> full_header_ok (fourcc ''mvhd'') (mvhd_header b) \<and> length (mvhd_matrix b) = 9"

lemmas mvhd_defs = mvhd_box_def mvhd_wf_def mvhd_demux_def mvhd_primitive_size_def mvhd_primitive_mux_def mvhd_validate_def

interpretation mvhd: box_codec mvhd_box mvhd_wf
proof
  fix b assume "mvhd_wf b"
  then show "\<exists>bs. box_ok mvhd_box b bs"
    by (cases b) (auto simp: box_ok_def mvhd_defs run_simps box_simps)
qed (simp add: mvhd_defs)

record Tkhd =
  tkhd_header :: full_box_header
  tkhd_creation_time :: u64
  tkhd_modification_time :: u64
  tkhd_track_id :: u32
  tkhd_reserved :: u32
  tkhd_duration :: u64
  tkhd_reserved2 :: "u32 list"
  tkhd_layer :: u16
  tkhd_alternate_group :: u16
  tkhd_volume :: i16
  tkhd_reserved3 :: u16
  tkhd_matrix :: "u32 list"
  tkhd_width :: i32
  tkhd_height :: i32

definition tkhd_demux :: "box_header \<Rightarrow> bytes \<Rightarrow> Tkhd io_result" where
  "tkhd_demux header = with_reader (
     bindE (full_header_demux header) (\<lambda>h.
     bindE (if fh_version h = 1 then
        bindE read_u64 (\<lambda>creation_time.
        bindE read_u64 (\<lambda>modification_time.
        bindE read_u32 (\<lambda>track_id.
        bindE read_u32 (\<lambda>reserved.
        bindE read_u64 (\<lambda>duration.
        ret (creation_time, modification_time, track_id, reserved, duration))))))
      else
        bindE read_u32 (\<lambda>creation_time.
        bindE read_u32 (\<lambda>modification_time.
        bindE read_u32 (\<lambda>track_id.
        bindE read_u32 (\<lambda>reserved.
        bindE read_u32 (\<lambda>duration.
        ret (ucast creation_time, ucast modification_time, track_id, reserved, ucast duration))))))) (\<lambda>(creation_time, modification_time, track_id, reserved, duration).
     bindE (read_u32s 2) (\<lambda>reserved2.
     bindE read_u16 (\<lambda>layer.
     bindE read_u16 (\<lambda>alternate_group.
     bindE read_u16 (\<lambda>volume.
     bindE read_u16 (\<lambda>reserved3.
     bindE (read_u32s 9) (\<lambda>matrix.
     bindE read_u32 (\<lambda>width.
     bindE read_u32 (\<lambda>height.
     ret \<lparr>tkhd_header = h, tkhd_creation_time = creation_time, tkhd_modification_time = modification_time, tkhd_track_id = track_id, tkhd_reserved = reserved, tkhd_duration = duration, tkhd_reserved2 = reserved2, tkhd_layer = layer, tkhd_alternate_group = alternate_group, tkhd_volume = volume, tkhd_reserved3 = reserved3, tkhd_matrix = matrix, tkhd_width = width, tkhd_height = height\<rparr>)))))))))))"

definition tkhd_primitive_size :: "Tkhd \<Rightarrow> nat" where
  "tkhd_primitive_size b = full_header_size (tkhd_header b) + (if fh_version (tkhd_header b) = 1 then 8 + 8 + 4 + 4 + 8 else 4 + 4 + 4 + 4 + 4) + 4 * 2 + 2 + 2 + 2 + 2 + 4 * 9 + 4 + 4"

definition tkhd_primitive_mux :: "Tkhd \<Rightarrow> (bytes, io_error, unit) prog" where
  "tkhd_primitive_mux b =
     bindE (full_header_mux (tkhd_header b)) (\<lambda>_.
     bindE (if fh_version (tkhd_header b) = 1 then
        bindE (write_u64 (tkhd_creation_time b)) (\<lambda>_.
        bindE (write_u64 (tkhd_modification_time b)) (\<lambda>_.
        bindE (write_u32 (tkhd_track_id b)) (\<lambda>_.
        bindE (write_u32 (tkhd_reserved b)) (\<lambda>_.
        write_u64 (tkhd_duration b)))))
      else
        bindE (write_u32 (ucast (tkhd_creation_time b))) (\<lambda>_.
        bindE (write_u32 (ucast (tkhd_modification_time b))) (\<lambda>_.
        bindE (write_u32 (tkhd_track_id b)) (\<lambda>_.
        bindE (write_u32 (tkhd_reserved b)) (\<lambda>_.
        write_u32 (ucast (tkhd_duration b))))))) (\<lambda>_.
     bindE (write_u32s (tkhd_reserved2 b)) (\<lambda>_.
     bindE (write_u16 (tkhd_layer b)) (\<lambda>_.
     bindE (write_u16 (tkhd_alternate_group b)) (\<lambda>_.
     bindE (write_u16 (tkhd_volume b)) (\<lambda>_.
     bindE (write_u16 (tkhd_reserved3 b)) (\<lambda>_.
     bindE (write_u32s (tkhd_matrix b)) (\<lambda>_.
     bindE (write_u32 (tkhd_width b)) (\<lambda>_.
     write_u32 (tkhd_height b))))))))))"

definition tkhd_validate :: "Tkhd \<Rightarrow> unit io_result" where
  "tkhd_validate b =
     require (fh_version (tkhd_header b) \<le> 1) (
     require ((tkhd_track_id b) \<noteq> 0) (
     require ((tkhd_reserved b) = 0) (
     require ((tkhd_reserved2 b) = replicate 2 0) (
     require ((tkhd_reserved3 b) = 0) (
     require (fh_version (tkhd_header b) = 0 \<longrightarrow> (tkhd_creation_time b) \<le> 0xFFFFFFFF) (
     require (fh_version (tkhd_header b) = 0 \<longrightarrow> (tkhd_modification_time b) \<le> 0xFFFFFFFF) (
     require (fh_version (tkhd_header b) = 0 \<longrightarrow> (tkhd_duration b) \<le> 0xFFFFFFFF) (Ok ()))))))))"

definition tkhd_box :: "Tkhd box_type" where
  "tkhd_box = \<lparr>bt_name = fourcc ''tkhd'', bt_demux = tkhd_demux, bt_primitive_size = tkhd_primitive_size,
     bt_primitive_mux = tkhd_primitive_mux, bt_validate = tkhd_validate\<rparr>"

definition tkhd_wf :: "Tkhd \<Rightarrow> bool" where
  "tkhd_wf b \<longleftrightarrow> tkhd_validate b = Ok () \<and> full_header_ok (fourcc ''tkhd'') (tkhd_header b) \<and> length (tkhd_matrix b) = 9"

lemmas tkhd_defs = tkhd_box_def tkhd_wf_def tkhd_demux_def tkhd_primitive_size_def tkhd_primitive_mux_def tkhd_validate_def

interpretation tkhd: box_codec tkhd_box tkhd_wf
proof
  fix b assume "tkhd_wf b"
  then show "\<exists>bs. box_ok tkhd_box b bs"
    by (cases b; cases "fh_version (tkhd_header b) = 1") (auto simp: box_ok_def tkhd_defs run_simps box_simps version_01)
qed (simp add: tkhd_defs)

text \<open>The constructors convert integers to fixed-point numbers with \<^verbatim>\<open>from_num\<close> of the crate \<^verbatim>\<open>fixed\<close>, a parameter of the
  model. It gives the bits of the number, or a panic where the number does not fit; \<open>fixed_env_ok\<close> is what its documentation
  promises for the numbers that fit.\<close>

record fixed_env =
  from_num_i32 :: "int \<Rightarrow> i32 io_result"
  from_num_i16 :: "int \<Rightarrow> i16 io_result"

definition fixed_env_ok :: "fixed_env \<Rightarrow> bool" where
  "fixed_env_ok fx \<longleftrightarrow> (\<forall>n. 0 \<le> n \<and> n < 2 ^ 15 \<longrightarrow> from_num_i32 fx n = Ok (word_of_int (n * 2 ^ 16)))
     \<and> (\<forall>n. 0 \<le> n \<and> n < 2 ^ 7 \<longrightarrow> from_num_i16 fx n = Ok (word_of_int (n * 2 ^ 8)))"

definition mvhd_new :: "fixed_env \<Rightarrow> u64 \<Rightarrow> u64 \<Rightarrow> u32 \<Rightarrow> u64 \<Rightarrow> u32 \<Rightarrow> Mvhd io_result" where
  "mvhd_new fx creation_time modification_time timescale duration next_track_id =
     rbind (from_num_i32 fx 1) (\<lambda>rate.
     rbind (from_num_i16 fx 1) (\<lambda>volume.
     Ok \<lparr>mvhd_header = full_header_new (fourcc ''mvhd'') 0 0, mvhd_creation_time = creation_time,
        mvhd_modification_time = modification_time, mvhd_timescale = timescale, mvhd_duration = duration, mvhd_rate = rate,
        mvhd_volume = volume, mvhd_reserved = 0, mvhd_reserved2 = replicate 2 0, mvhd_matrix = MATRIX,
        mvhd_pre_defined = replicate 6 0, mvhd_next_track_id = next_track_id\<rparr>))"

definition TRACK_ENABLED_FLAG :: u32 where "TRACK_ENABLED_FLAG = 0x000001"
definition TRACK_IN_MOVIE_FLAG :: u32 where "TRACK_IN_MOVIE_FLAG = 0x000002"

definition tkhd_new :: "fixed_env \<Rightarrow> u64 \<Rightarrow> u64 \<Rightarrow> u32 \<Rightarrow> u64 \<Rightarrow> (u32 \<times> u32) option \<Rightarrow> Tkhd io_result" where
  "tkhd_new fx creation_time modification_time track_id duration width_height =
     (let version = (if creation_time > 0xFFFFFFFF \<or> modification_time > 0xFFFFFFFF \<or> duration > 0xFFFFFFFF then 1 else 0);
          (width, height) = (case width_height of Some wh \<Rightarrow> wh | None \<Rightarrow> (0, 0))
      in rbind (if width_height \<noteq> None then from_num_i16 fx 0 else from_num_i16 fx 1) (\<lambda>volume.
         rbind (from_num_i32 fx (uint width)) (\<lambda>w.
         rbind (from_num_i32 fx (uint height)) (\<lambda>h.
         Ok \<lparr>tkhd_header = full_header_new (fourcc ''tkhd'') version (TRACK_ENABLED_FLAG OR TRACK_IN_MOVIE_FLAG),
            tkhd_creation_time = creation_time, tkhd_modification_time = modification_time, tkhd_track_id = track_id,
            tkhd_reserved = 0, tkhd_duration = duration, tkhd_reserved2 = replicate 2 0, tkhd_layer = 0, tkhd_alternate_group = 0,
            tkhd_volume = volume, tkhd_reserved3 = 0, tkhd_matrix = MATRIX, tkhd_width = w, tkhd_height = h\<rparr>))))"

lemma fixed_nums:
  assumes "fixed_env_ok fx"
  shows "from_num_i32 fx 0 = Ok 0" "from_num_i32 fx 1 = Ok 0x10000" "from_num_i16 fx 0 = Ok 0" "from_num_i16 fx 1 = Ok 0x100"
    "unat (w :: u32) < 2 ^ 15 \<Longrightarrow> from_num_i32 fx (uint w) = Ok (word_of_int (uint w * 2 ^ 16))"
proof -
  have a: "from_num_i32 fx n = Ok (word_of_int (n * 2 ^ 16))" if "0 \<le> n" "n < 2 ^ 15" for n
    using assms that unfolding fixed_env_ok_def by blast
  have b: "from_num_i16 fx n = Ok (word_of_int (n * 2 ^ 8))" if "0 \<le> n" "n < 2 ^ 7" for n
    using assms that unfolding fixed_env_ok_def by blast
  show "from_num_i32 fx 0 = Ok 0" "from_num_i32 fx 1 = Ok 0x10000" "from_num_i16 fx 0 = Ok 0" "from_num_i16 fx 1 = Ok 0x100"
    using a [of 0] a [of 1] b [of 0] b [of 1] by simp_all
  assume "unat w < 2 ^ 15"
  then have "int (unat w) < int (2 ^ 15)" by (simp only: of_nat_less_iff)
  then have "uint w < 2 ^ 15" by simp
  then show "from_num_i32 fx (uint w) = Ok (word_of_int (uint w * 2 ^ 16))" by (intro a) simp_all
qed

lemma mvhd_new_wf:
  assumes "fixed_env_ok fx" "c \<le> 0xFFFFFFFF" "m \<le> 0xFFFFFFFF" "d \<le> 0xFFFFFFFF"
  shows "\<exists>b. mvhd_new fx c m t d n = Ok b \<and> mvhd_wf b \<and> mvhd_timescale b = t \<and> mvhd_next_track_id b = n"
  using assms(2-4) by (simp add: fixed_nums [OF assms(1)] mvhd_new_def mvhd_wf_def mvhd_validate_def full_header_ok_def
      full_header_new_def box_header_new_def MATRIX_def)

lemma tkhd_new_wf:
  assumes "fixed_env_ok fx" "t \<noteq> 0" "\<And>w h. wh = Some (w, h) \<Longrightarrow> unat w < 2 ^ 15 \<and> unat h < 2 ^ 15"
  shows "\<exists>b. tkhd_new fx c m t d wh = Ok b \<and> tkhd_wf b \<and> tkhd_track_id b = t"
proof (cases wh)
  case None
  then show ?thesis using assms(2)
    by (simp add: tkhd_new_def fixed_nums [OF assms(1)] Let_def tkhd_wf_def tkhd_validate_def full_header_ok_def
        full_header_new_def box_header_new_def MATRIX_def TRACK_ENABLED_FLAG_def TRACK_IN_MOVIE_FLAG_def not_less)
next
  case (Some p)
  then obtain w h where p: "wh = Some (w, h)" by (cases p) auto
  from fixed_nums(5) [OF assms(1)] assms(3) [OF p]
  obtain w' h' where "from_num_i32 fx (uint w) = Ok w'" "from_num_i32 fx (uint h) = Ok h'" by blast
  with p assms(2) show ?thesis
    by (simp add: tkhd_new_def fixed_nums [OF assms(1)] Let_def tkhd_wf_def tkhd_validate_def full_header_ok_def
        full_header_new_def box_header_new_def MATRIX_def TRACK_ENABLED_FLAG_def TRACK_IN_MOVIE_FLAG_def not_less)
qed

section \<open>Fragment headers\<close>

record Mehd =
  mehd_header :: full_box_header
  mehd_fragment_duration :: u64

definition mehd_demux :: "box_header \<Rightarrow> bytes \<Rightarrow> Mehd io_result" where
  "mehd_demux header = with_reader (
     bindE (full_header_demux header) (\<lambda>h.
     bindE (if fh_version h = 1 then read_u64 else bindE read_u32 (\<lambda>d. ret (ucast d))) (\<lambda>fragment_duration.
     ret \<lparr>mehd_header = h, mehd_fragment_duration = fragment_duration\<rparr>)))"

definition mehd_primitive_size :: "Mehd \<Rightarrow> nat" where
  "mehd_primitive_size b = full_header_size (mehd_header b) + (if fh_version (mehd_header b) = 1 then 8 else 4)"

definition mehd_primitive_mux :: "Mehd \<Rightarrow> (bytes, io_error, unit) prog" where
  "mehd_primitive_mux b =
     bindE (full_header_mux (mehd_header b)) (\<lambda>_.
     (if fh_version (mehd_header b) = 1 then write_u64 (mehd_fragment_duration b) else write_u32 (ucast (mehd_fragment_duration b))))"

definition mehd_validate :: "Mehd \<Rightarrow> unit io_result" where
  "mehd_validate b =
     require (fh_version (mehd_header b) \<le> 1) (
     require (\<not> (fh_version (mehd_header b) = 0 \<and> (mehd_fragment_duration b) > 0xFFFFFFFF)) (Ok ()))"

definition mehd_box :: "Mehd box_type" where
  "mehd_box = \<lparr>bt_name = fourcc ''mehd'', bt_demux = mehd_demux, bt_primitive_size = mehd_primitive_size,
     bt_primitive_mux = mehd_primitive_mux, bt_validate = mehd_validate\<rparr>"

definition mehd_wf :: "Mehd \<Rightarrow> bool" where
  "mehd_wf b \<longleftrightarrow> mehd_validate b = Ok () \<and> full_header_ok (fourcc ''mehd'') (mehd_header b)"

lemmas mehd_defs = mehd_box_def mehd_wf_def mehd_demux_def mehd_primitive_size_def mehd_primitive_mux_def mehd_validate_def

interpretation mehd: box_codec mehd_box mehd_wf
proof
  fix b assume "mehd_wf b"
  then show "\<exists>bs. box_ok mehd_box b bs"
    by (cases b; cases "fh_version (mehd_header b) = 1") (auto simp: box_ok_def mehd_defs run_simps box_simps version_01)
qed (simp add: mehd_defs)

record Mfhd =
  mfhd_header :: full_box_header
  mfhd_sequence_number :: u32

definition mfhd_new :: "u32 \<Rightarrow> Mfhd" where
  "mfhd_new sequence_number = \<lparr>mfhd_header = full_header_new (fourcc ''mfhd'') 0 0, mfhd_sequence_number = sequence_number\<rparr>"

definition mfhd_demux :: "box_header \<Rightarrow> bytes \<Rightarrow> Mfhd io_result" where
  "mfhd_demux header = with_reader (
     bindE (full_header_demux header) (\<lambda>h.
     bindE read_u32 (\<lambda>sequence_number.
     ret \<lparr>mfhd_header = h, mfhd_sequence_number = sequence_number\<rparr>)))"

definition mfhd_primitive_size :: "Mfhd \<Rightarrow> nat" where
  "mfhd_primitive_size b = full_header_size (mfhd_header b) + 4"

definition mfhd_primitive_mux :: "Mfhd \<Rightarrow> (bytes, io_error, unit) prog" where
  "mfhd_primitive_mux b =
     bindE (full_header_mux (mfhd_header b)) (\<lambda>_.
     write_u32 (mfhd_sequence_number b))"

definition mfhd_validate :: "Mfhd \<Rightarrow> unit io_result" where
  "mfhd_validate b =
     require (fh_version (mfhd_header b) = 0) (
     require (fh_flags (mfhd_header b) = 0) (Ok ()))"

definition mfhd_box :: "Mfhd box_type" where
  "mfhd_box = \<lparr>bt_name = fourcc ''mfhd'', bt_demux = mfhd_demux, bt_primitive_size = mfhd_primitive_size,
     bt_primitive_mux = mfhd_primitive_mux, bt_validate = mfhd_validate\<rparr>"

definition mfhd_wf :: "Mfhd \<Rightarrow> bool" where
  "mfhd_wf b \<longleftrightarrow> mfhd_validate b = Ok () \<and> full_header_ok (fourcc ''mfhd'') (mfhd_header b)"

lemmas mfhd_defs = mfhd_box_def mfhd_wf_def mfhd_demux_def mfhd_primitive_size_def mfhd_primitive_mux_def mfhd_validate_def

interpretation mfhd: box_codec mfhd_box mfhd_wf
proof
  fix b assume "mfhd_wf b"
  then show "\<exists>bs. box_ok mfhd_box b bs"
    by (cases b) (auto simp: box_ok_def mfhd_defs run_simps box_simps)
qed (simp add: mfhd_defs)

record Trex =
  trex_header :: full_box_header
  trex_track_id :: u32
  trex_default_sample_description_index :: u32
  trex_default_sample_duration :: u32
  trex_default_sample_size :: u32
  trex_default_sample_flags :: u32

definition trex_new :: "u32 \<Rightarrow> Trex" where
  "trex_new track_id = \<lparr>trex_header = full_header_new (fourcc ''trex'') 0 0, trex_track_id = track_id,
     trex_default_sample_description_index = 1, trex_default_sample_duration = 0, trex_default_sample_size = 0,
     trex_default_sample_flags = 0\<rparr>"

definition trex_demux :: "box_header \<Rightarrow> bytes \<Rightarrow> Trex io_result" where
  "trex_demux header = with_reader (
     bindE (full_header_demux header) (\<lambda>h.
     bindE read_u32 (\<lambda>track_id.
     bindE read_u32 (\<lambda>default_sample_description_index.
     bindE read_u32 (\<lambda>default_sample_duration.
     bindE read_u32 (\<lambda>default_sample_size.
     bindE read_u32 (\<lambda>default_sample_flags.
     ret \<lparr>trex_header = h, trex_track_id = track_id, trex_default_sample_description_index = default_sample_description_index, trex_default_sample_duration = default_sample_duration, trex_default_sample_size = default_sample_size, trex_default_sample_flags = default_sample_flags\<rparr>)))))))"

definition trex_primitive_size :: "Trex \<Rightarrow> nat" where
  "trex_primitive_size b = full_header_size (trex_header b) + 4 + 4 + 4 + 4 + 4"

definition trex_primitive_mux :: "Trex \<Rightarrow> (bytes, io_error, unit) prog" where
  "trex_primitive_mux b =
     bindE (full_header_mux (trex_header b)) (\<lambda>_.
     bindE (write_u32 (trex_track_id b)) (\<lambda>_.
     bindE (write_u32 (trex_default_sample_description_index b)) (\<lambda>_.
     bindE (write_u32 (trex_default_sample_duration b)) (\<lambda>_.
     bindE (write_u32 (trex_default_sample_size b)) (\<lambda>_.
     write_u32 (trex_default_sample_flags b))))))"

definition trex_validate :: "Trex \<Rightarrow> unit io_result" where
  "trex_validate b =
     require (fh_version (trex_header b) = 0) (
     require (fh_flags (trex_header b) = 0) (Ok ()))"

definition trex_box :: "Trex box_type" where
  "trex_box = \<lparr>bt_name = fourcc ''trex'', bt_demux = trex_demux, bt_primitive_size = trex_primitive_size,
     bt_primitive_mux = trex_primitive_mux, bt_validate = trex_validate\<rparr>"

definition trex_wf :: "Trex \<Rightarrow> bool" where
  "trex_wf b \<longleftrightarrow> trex_validate b = Ok () \<and> full_header_ok (fourcc ''trex'') (trex_header b)"

lemmas trex_defs = trex_box_def trex_wf_def trex_demux_def trex_primitive_size_def trex_primitive_mux_def trex_validate_def

interpretation trex: box_codec trex_box trex_wf
proof
  fix b assume "trex_wf b"
  then show "\<exists>bs. box_ok trex_box b bs"
    by (cases b) (auto simp: box_ok_def trex_defs run_simps box_simps)
qed (simp add: trex_defs)

record Tfdt =
  tfdt_header :: full_box_header
  tfdt_base_media_decode_time :: u64

definition tfdt_new :: "u64 \<Rightarrow> Tfdt" where
  "tfdt_new base_media_decode_time = \<lparr>tfdt_header = full_header_new (fourcc ''tfdt'') (if base_media_decode_time > 0xFFFFFFFF then 1 else 0) 0,
     tfdt_base_media_decode_time = base_media_decode_time\<rparr>"

definition tfdt_demux :: "box_header \<Rightarrow> bytes \<Rightarrow> Tfdt io_result" where
  "tfdt_demux header = with_reader (
     bindE (full_header_demux header) (\<lambda>h.
     bindE (if fh_version h = 1 then read_u64 else bindE read_u32 (\<lambda>d. ret (ucast d))) (\<lambda>base_media_decode_time.
     ret \<lparr>tfdt_header = h, tfdt_base_media_decode_time = base_media_decode_time\<rparr>)))"

definition tfdt_primitive_size :: "Tfdt \<Rightarrow> nat" where
  "tfdt_primitive_size b = full_header_size (tfdt_header b) + (if fh_version (tfdt_header b) = 1 then 8 else 4)"

definition tfdt_primitive_mux :: "Tfdt \<Rightarrow> (bytes, io_error, unit) prog" where
  "tfdt_primitive_mux b =
     bindE (full_header_mux (tfdt_header b)) (\<lambda>_.
     (if fh_version (tfdt_header b) = 1 then write_u64 (tfdt_base_media_decode_time b) else write_u32 (ucast (tfdt_base_media_decode_time b))))"

definition tfdt_validate :: "Tfdt \<Rightarrow> unit io_result" where
  "tfdt_validate b =
     require (fh_version (tfdt_header b) \<le> 1) (
     require (fh_flags (tfdt_header b) = 0) (
     require (\<not> (fh_version (tfdt_header b) = 0 \<and> (tfdt_base_media_decode_time b) > 0xFFFFFFFF)) (Ok ())))"

definition tfdt_box :: "Tfdt box_type" where
  "tfdt_box = \<lparr>bt_name = fourcc ''tfdt'', bt_demux = tfdt_demux, bt_primitive_size = tfdt_primitive_size,
     bt_primitive_mux = tfdt_primitive_mux, bt_validate = tfdt_validate\<rparr>"

definition tfdt_wf :: "Tfdt \<Rightarrow> bool" where
  "tfdt_wf b \<longleftrightarrow> tfdt_validate b = Ok () \<and> full_header_ok (fourcc ''tfdt'') (tfdt_header b)"

lemmas tfdt_defs = tfdt_box_def tfdt_wf_def tfdt_demux_def tfdt_primitive_size_def tfdt_primitive_mux_def tfdt_validate_def

interpretation tfdt: box_codec tfdt_box tfdt_wf
proof
  fix b assume "tfdt_wf b"
  then show "\<exists>bs. box_ok tfdt_box b bs"
    by (cases b; cases "fh_version (tfdt_header b) = 1") (auto simp: box_ok_def tfdt_defs run_simps box_simps version_01)
qed (simp add: tfdt_defs)

section \<open>Media information headers\<close>

record Hmhd =
  hmhd_header :: full_box_header
  hmhd_max_pdu_size :: u16
  hmhd_avg_pdu_size :: u16
  hmhd_max_bitrate :: u32
  hmhd_avg_bitrate :: u32
  hmhd_reserved :: u32

definition hmhd_demux :: "box_header \<Rightarrow> bytes \<Rightarrow> Hmhd io_result" where
  "hmhd_demux header = with_reader (
     bindE (full_header_demux header) (\<lambda>h.
     bindE read_u16 (\<lambda>max_pdu_size.
     bindE read_u16 (\<lambda>avg_pdu_size.
     bindE read_u32 (\<lambda>max_bitrate.
     bindE read_u32 (\<lambda>avg_bitrate.
     bindE read_u32 (\<lambda>reserved.
     ret \<lparr>hmhd_header = h, hmhd_max_pdu_size = max_pdu_size, hmhd_avg_pdu_size = avg_pdu_size, hmhd_max_bitrate = max_bitrate, hmhd_avg_bitrate = avg_bitrate, hmhd_reserved = reserved\<rparr>)))))))"

definition hmhd_primitive_size :: "Hmhd \<Rightarrow> nat" where
  "hmhd_primitive_size b = full_header_size (hmhd_header b) + 2 + 2 + 4 + 4 + 4"

definition hmhd_primitive_mux :: "Hmhd \<Rightarrow> (bytes, io_error, unit) prog" where
  "hmhd_primitive_mux b =
     bindE (full_header_mux (hmhd_header b)) (\<lambda>_.
     bindE (write_u16 (hmhd_max_pdu_size b)) (\<lambda>_.
     bindE (write_u16 (hmhd_avg_pdu_size b)) (\<lambda>_.
     bindE (write_u32 (hmhd_max_bitrate b)) (\<lambda>_.
     bindE (write_u32 (hmhd_avg_bitrate b)) (\<lambda>_.
     write_u32 (hmhd_reserved b))))))"

definition hmhd_validate :: "Hmhd \<Rightarrow> unit io_result" where
  "hmhd_validate b =
     require (fh_version (hmhd_header b) = 0) (
     require (fh_flags (hmhd_header b) = 0) (
     require ((hmhd_reserved b) = 0) (Ok ())))"

definition hmhd_box :: "Hmhd box_type" where
  "hmhd_box = \<lparr>bt_name = fourcc ''hmhd'', bt_demux = hmhd_demux, bt_primitive_size = hmhd_primitive_size,
     bt_primitive_mux = hmhd_primitive_mux, bt_validate = hmhd_validate\<rparr>"

definition hmhd_wf :: "Hmhd \<Rightarrow> bool" where
  "hmhd_wf b \<longleftrightarrow> hmhd_validate b = Ok () \<and> full_header_ok (fourcc ''hmhd'') (hmhd_header b)"

lemmas hmhd_defs = hmhd_box_def hmhd_wf_def hmhd_demux_def hmhd_primitive_size_def hmhd_primitive_mux_def hmhd_validate_def

interpretation hmhd: box_codec hmhd_box hmhd_wf
proof
  fix b assume "hmhd_wf b"
  then show "\<exists>bs. box_ok hmhd_box b bs"
    by (cases b) (auto simp: box_ok_def hmhd_defs run_simps box_simps)
qed (simp add: hmhd_defs)

record Nmhd =
  nmhd_header :: full_box_header

definition nmhd_demux :: "box_header \<Rightarrow> bytes \<Rightarrow> Nmhd io_result" where
  "nmhd_demux header = with_reader (
     bindE (full_header_demux header) (\<lambda>h.
     ret \<lparr>nmhd_header = h\<rparr>))"

definition nmhd_primitive_size :: "Nmhd \<Rightarrow> nat" where
  "nmhd_primitive_size b = full_header_size (nmhd_header b)"

definition nmhd_primitive_mux :: "Nmhd \<Rightarrow> (bytes, io_error, unit) prog" where
  "nmhd_primitive_mux b =
     full_header_mux (nmhd_header b)"

definition nmhd_validate :: "Nmhd \<Rightarrow> unit io_result" where
  "nmhd_validate b =
     require (fh_version (nmhd_header b) = 0) (Ok ())"

definition nmhd_box :: "Nmhd box_type" where
  "nmhd_box = \<lparr>bt_name = fourcc ''nmhd'', bt_demux = nmhd_demux, bt_primitive_size = nmhd_primitive_size,
     bt_primitive_mux = nmhd_primitive_mux, bt_validate = nmhd_validate\<rparr>"

definition nmhd_wf :: "Nmhd \<Rightarrow> bool" where
  "nmhd_wf b \<longleftrightarrow> nmhd_validate b = Ok () \<and> full_header_ok (fourcc ''nmhd'') (nmhd_header b)"

lemmas nmhd_defs = nmhd_box_def nmhd_wf_def nmhd_demux_def nmhd_primitive_size_def nmhd_primitive_mux_def nmhd_validate_def

interpretation nmhd: box_codec nmhd_box nmhd_wf
proof
  fix b assume "nmhd_wf b"
  then show "\<exists>bs. box_ok nmhd_box b bs"
    by (cases b) (auto simp: box_ok_def nmhd_defs run_simps box_simps)
qed (simp add: nmhd_defs)

record Smhd =
  smhd_header :: full_box_header
  smhd_balance :: i16
  smhd_reserved :: u16

definition smhd_new :: "Smhd" where
  "smhd_new = \<lparr>smhd_header = full_header_new (fourcc ''smhd'') 0 0, smhd_balance = 0, smhd_reserved = 0\<rparr>"

definition smhd_demux :: "box_header \<Rightarrow> bytes \<Rightarrow> Smhd io_result" where
  "smhd_demux header = with_reader (
     bindE (full_header_demux header) (\<lambda>h.
     bindE read_u16 (\<lambda>balance.
     bindE read_u16 (\<lambda>reserved.
     ret \<lparr>smhd_header = h, smhd_balance = balance, smhd_reserved = reserved\<rparr>))))"

definition smhd_primitive_size :: "Smhd \<Rightarrow> nat" where
  "smhd_primitive_size b = full_header_size (smhd_header b) + 2 + 2"

definition smhd_primitive_mux :: "Smhd \<Rightarrow> (bytes, io_error, unit) prog" where
  "smhd_primitive_mux b =
     bindE (full_header_mux (smhd_header b)) (\<lambda>_.
     bindE (write_u16 (smhd_balance b)) (\<lambda>_.
     write_u16 (smhd_reserved b)))"

definition smhd_validate :: "Smhd \<Rightarrow> unit io_result" where
  "smhd_validate b =
     require (fh_version (smhd_header b) = 0) (
     require (fh_flags (smhd_header b) = 0) (
     require ((smhd_reserved b) = 0) (Ok ())))"

definition smhd_box :: "Smhd box_type" where
  "smhd_box = \<lparr>bt_name = fourcc ''smhd'', bt_demux = smhd_demux, bt_primitive_size = smhd_primitive_size,
     bt_primitive_mux = smhd_primitive_mux, bt_validate = smhd_validate\<rparr>"

definition smhd_wf :: "Smhd \<Rightarrow> bool" where
  "smhd_wf b \<longleftrightarrow> smhd_validate b = Ok () \<and> full_header_ok (fourcc ''smhd'') (smhd_header b)"

lemmas smhd_defs = smhd_box_def smhd_wf_def smhd_demux_def smhd_primitive_size_def smhd_primitive_mux_def smhd_validate_def

interpretation smhd: box_codec smhd_box smhd_wf
proof
  fix b assume "smhd_wf b"
  then show "\<exists>bs. box_ok smhd_box b bs"
    by (cases b) (auto simp: box_ok_def smhd_defs run_simps box_simps)
qed (simp add: smhd_defs)

definition OP_COLOR_SIZE :: nat where "OP_COLOR_SIZE = 3"

record Vmhd =
  vmhd_header :: full_box_header
  vmhd_graphics_mode :: u16
  vmhd_opcolor :: "u16 list"

definition vmhd_new :: "Vmhd" where
  "vmhd_new = \<lparr>vmhd_header = full_header_new (fourcc ''vmhd'') 0 1, vmhd_graphics_mode = 0,
     vmhd_opcolor = replicate OP_COLOR_SIZE 0\<rparr>"

definition vmhd_demux :: "box_header \<Rightarrow> bytes \<Rightarrow> Vmhd io_result" where
  "vmhd_demux header = with_reader (
     bindE (full_header_demux header) (\<lambda>h.
     bindE read_u16 (\<lambda>graphics_mode.
     bindE (repeat_m OP_COLOR_SIZE read_u16) (\<lambda>opcolor.
     ret \<lparr>vmhd_header = h, vmhd_graphics_mode = graphics_mode, vmhd_opcolor = opcolor\<rparr>))))"

definition vmhd_primitive_size :: "Vmhd \<Rightarrow> nat" where
  "vmhd_primitive_size b = full_header_size (vmhd_header b) + 2 + 2 * OP_COLOR_SIZE"

definition vmhd_primitive_mux :: "Vmhd \<Rightarrow> (bytes, io_error, unit) prog" where
  "vmhd_primitive_mux b =
     bindE (full_header_mux (vmhd_header b)) (\<lambda>_.
     bindE (write_u16 (vmhd_graphics_mode b)) (\<lambda>_.
     for_m (vmhd_opcolor b) write_u16))"

definition vmhd_box :: "Vmhd box_type" where
  "vmhd_box = \<lparr>bt_name = fourcc ''vmhd'', bt_demux = vmhd_demux, bt_primitive_size = vmhd_primitive_size,
     bt_primitive_mux = vmhd_primitive_mux, bt_validate = no_validate\<rparr>"

definition vmhd_wf :: "Vmhd \<Rightarrow> bool" where
  "vmhd_wf b \<longleftrightarrow> full_header_ok (fourcc ''vmhd'') (vmhd_header b) \<and> length (vmhd_opcolor b) = OP_COLOR_SIZE"

lemmas vmhd_defs = vmhd_box_def vmhd_wf_def vmhd_demux_def vmhd_primitive_size_def vmhd_primitive_mux_def

interpretation vmhd: box_codec vmhd_box vmhd_wf
proof
  fix b assume "vmhd_wf b"
  then show "\<exists>bs. box_ok vmhd_box b bs"
    by (cases b) (auto simp: box_ok_def vmhd_defs run_simps box_simps OP_COLOR_SIZE_def for_m_be16 read_be16s)
qed (simp add: vmhd_defs)
section \<open>Handler, data references and file type\<close>

datatype HandlerType = Vide | Soun | Hint | Meta | UnknownHandler bytes

fun handler_to_bytes :: "HandlerType \<Rightarrow> bytes" where
  "handler_to_bytes Vide = fourcc ''vide''"
| "handler_to_bytes Soun = fourcc ''soun''"
| "handler_to_bytes Hint = fourcc ''hint''"
| "handler_to_bytes Meta = fourcc ''meta''"
| "handler_to_bytes (UnknownHandler b) = b"

definition handler_from :: "bytes \<Rightarrow> HandlerType" where
  "handler_from v = (if v = fourcc ''vide'' then Vide else if v = fourcc ''soun'' then Soun
     else if v = fourcc ''hint'' then Hint else if v = fourcc ''meta'' then Meta else UnknownHandler v)"

text \<open>A handler type that is not spelled as unknown although it is known.\<close>

definition handler_ok :: "HandlerType \<Rightarrow> bool" where
  "handler_ok t \<longleftrightarrow> length (handler_to_bytes t) = 4 \<and> handler_from (handler_to_bytes t) = t"

record Hdlr =
  hdlr_header :: full_box_header
  hdlr_pre_defined :: u32
  hdlr_handler_type :: HandlerType
  hdlr_reserved :: "u32 list"
  hdlr_name :: bytes

definition hdlr_new :: "HandlerType \<Rightarrow> bytes \<Rightarrow> Hdlr" where
  "hdlr_new handler_type name = \<lparr>hdlr_header = full_header_new (fourcc ''hdlr'') 0 0, hdlr_pre_defined = 0,
     hdlr_handler_type = handler_type, hdlr_reserved = replicate 3 0, hdlr_name = name\<rparr>"

definition hdlr_demux :: "box_header \<Rightarrow> bytes \<Rightarrow> Hdlr io_result" where
  "hdlr_demux header = with_reader (
     bindE (full_header_demux header) (\<lambda>h.
     bindE read_u32 (\<lambda>pre_defined.
     bindE (read_exact 4) (\<lambda>handler_type.
     bindE (read_u32s 3) (\<lambda>reserved.
     bindE read_cstring (\<lambda>name.
     ret \<lparr>hdlr_header = h, hdlr_pre_defined = pre_defined, hdlr_handler_type = handler_from handler_type, hdlr_reserved = reserved, hdlr_name = name\<rparr>))))))"

definition hdlr_primitive_size :: "Hdlr \<Rightarrow> nat" where
  "hdlr_primitive_size b = full_header_size (hdlr_header b) + 4 + 4 + 3 * 4 + length (hdlr_name b) + 1"

definition hdlr_primitive_mux :: "Hdlr \<Rightarrow> (bytes, io_error, unit) prog" where
  "hdlr_primitive_mux b =
     bindE (full_header_mux (hdlr_header b)) (\<lambda>_.
     bindE (write_u32 (hdlr_pre_defined b)) (\<lambda>_.
     bindE (write_all (handler_to_bytes (hdlr_handler_type b))) (\<lambda>_.
     bindE (write_u32s (hdlr_reserved b)) (\<lambda>_.
     bindE (write_all (hdlr_name b)) (\<lambda>_.
     write_u8 0)))))"

definition hdlr_validate :: "Hdlr \<Rightarrow> unit io_result" where
  "hdlr_validate b =
     require (fh_version (hdlr_header b) = 0) (
     require (fh_flags (hdlr_header b) = 0) (
     require ((hdlr_reserved b) = replicate 3 0) (
     require ((hdlr_pre_defined b) = 0) (Ok ()))))"

definition hdlr_box :: "Hdlr box_type" where
  "hdlr_box = \<lparr>bt_name = fourcc ''hdlr'', bt_demux = hdlr_demux, bt_primitive_size = hdlr_primitive_size,
     bt_primitive_mux = hdlr_primitive_mux, bt_validate = hdlr_validate\<rparr>"

definition hdlr_wf :: "Hdlr \<Rightarrow> bool" where
  "hdlr_wf b \<longleftrightarrow> hdlr_validate b = Ok () \<and> full_header_ok (fourcc ''hdlr'') (hdlr_header b) \<and> handler_ok (hdlr_handler_type b) \<and> ascii (hdlr_name b)"

lemmas hdlr_defs = hdlr_box_def hdlr_wf_def hdlr_demux_def hdlr_primitive_size_def hdlr_primitive_mux_def hdlr_validate_def

interpretation hdlr: box_codec hdlr_box hdlr_wf
proof
  fix b assume "hdlr_wf b"
  then show "\<exists>bs. box_ok hdlr_box b bs"
    by (cases b) (auto simp: box_ok_def hdlr_defs run_simps box_simps handler_ok_def read_exact_curs)
qed (simp add: hdlr_defs)

record Url =
  url_header :: full_box_header
  url_location :: "bytes option"

definition url_new :: "Url" where
  "url_new = \<lparr>url_header = full_header_new (fourcc ''url '') 0 1, url_location = None\<rparr>"

definition url_demux :: "box_header \<Rightarrow> bytes \<Rightarrow> Url io_result" where
  "url_demux header = with_reader (
     bindE (full_header_demux header) (\<lambda>h.
     bindE (if fh_flags h = 0 then bindE read_cstring (\<lambda>s. ret (Some s)) else ret None) (\<lambda>location.
     ret \<lparr>url_header = h, url_location = location\<rparr>)))"

definition url_primitive_size :: "Url \<Rightarrow> nat" where
  "url_primitive_size b = full_header_size (url_header b) + (case (url_location b) of Some s \<Rightarrow> length s + 1 | None \<Rightarrow> 0)"

definition url_primitive_mux :: "Url \<Rightarrow> (bytes, io_error, unit) prog" where
  "url_primitive_mux b =
     bindE (full_header_mux (url_header b)) (\<lambda>_.
     (case (url_location b) of Some s \<Rightarrow> bindE (write_all s) (\<lambda>_. write_u8 0) | None \<Rightarrow> ret ()))"

definition url_validate :: "Url \<Rightarrow> unit io_result" where
  "url_validate b =
     require (fh_version (url_header b) = 0) (
     require (\<not> (fh_flags (url_header b) \<noteq> 0 \<and> (url_location b) \<noteq> None)) (
     require (\<not> (fh_flags (url_header b) = 0 \<and> (url_location b) = None)) (Ok ())))"

definition url_box :: "Url box_type" where
  "url_box = \<lparr>bt_name = fourcc ''url '', bt_demux = url_demux, bt_primitive_size = url_primitive_size,
     bt_primitive_mux = url_primitive_mux, bt_validate = url_validate\<rparr>"

definition url_wf :: "Url \<Rightarrow> bool" where
  "url_wf b \<longleftrightarrow> url_validate b = Ok () \<and> full_header_ok (fourcc ''url '') (url_header b) \<and> case_option True ascii (url_location b)"

lemmas url_defs = url_box_def url_wf_def url_demux_def url_primitive_size_def url_primitive_mux_def url_validate_def

interpretation url: box_codec url_box url_wf
proof
  fix b assume "url_wf b"
  then show "\<exists>bs. box_ok url_box b bs"
    by (cases b; cases "url_location b") (auto simp: box_ok_def url_defs run_simps box_simps)
qed (simp add: url_defs)

datatype FourCC = Iso5 | Iso6 | Mp41 | FccAvc1 | FccAv01 | FccHev1 | UnknownFourCC bytes

fun fourcc_to_bytes :: "FourCC \<Rightarrow> bytes" where
  "fourcc_to_bytes Iso5 = fourcc ''iso5''"
| "fourcc_to_bytes Iso6 = fourcc ''iso6''"
| "fourcc_to_bytes Mp41 = fourcc ''mp41''"
| "fourcc_to_bytes FccAvc1 = fourcc ''avc1''"
| "fourcc_to_bytes FccAv01 = fourcc ''av01''"
| "fourcc_to_bytes FccHev1 = fourcc ''hev1''"
| "fourcc_to_bytes (UnknownFourCC b) = b"

definition fourcc_from :: "bytes \<Rightarrow> FourCC" where
  "fourcc_from v = (if v = fourcc ''iso5'' then Iso5 else if v = fourcc ''iso6'' then Iso6
     else if v = fourcc ''mp41'' then Mp41 else if v = fourcc ''avc1'' then FccAvc1
     else if v = fourcc ''av01'' then FccAv01 else if v = fourcc ''hev1'' then FccHev1 else UnknownFourCC v)"

definition fourcc_ok :: "FourCC \<Rightarrow> bool" where
  "fourcc_ok t \<longleftrightarrow> length (fourcc_to_bytes t) = 4 \<and> fourcc_from (fourcc_to_bytes t) = t"

fun read_brands :: "bytes \<Rightarrow> FourCC list" where
  "read_brands (a # b # c # d # rest) = fourcc_from [a, b, c, d] # read_brands rest"
| "read_brands _ = []"

lemma read_brands_bytes:
  "\<forall>x \<in> set xs. fourcc_ok x \<Longrightarrow> read_brands (concat (map fourcc_to_bytes xs)) = xs"
proof (induction xs)
  case (Cons x xs)
  then obtain a b c d where "fourcc_to_bytes x = [a, b, c, d]" "fourcc_from [a, b, c, d] = x"
    by (auto simp: fourcc_ok_def length_Suc_conv numeral_eq_Suc)
  with Cons show ?case by simp
qed simp

lemma major_brand_ok: "fourcc_ok t \<Longrightarrow> length (fourcc_to_bytes t) = 4" "fourcc_ok t \<Longrightarrow> fourcc_from (fourcc_to_bytes t) = t"
  by (simp_all add: fourcc_ok_def)

lemma brands_length: "\<forall>x \<in> set xs. fourcc_ok x \<Longrightarrow> length (concat (map fourcc_to_bytes xs)) = 4 * length xs"
  by (rule length_concat_const) (simp add: fourcc_ok_def)

record Ftyp =
  ftyp_header :: box_header
  ftyp_major_brand :: FourCC
  ftyp_minor_version :: u32
  ftyp_compatible_brands :: "FourCC list"

definition ftyp_new :: "FourCC \<Rightarrow> u32 \<Rightarrow> FourCC list \<Rightarrow> Ftyp" where
  "ftyp_new major_brand minor_version compatible_brands = \<lparr>ftyp_header = box_header_new (fourcc ''ftyp''), ftyp_major_brand = major_brand,
     ftyp_minor_version = minor_version, ftyp_compatible_brands = compatible_brands\<rparr>"

definition ftyp_demux :: "box_header \<Rightarrow> bytes \<Rightarrow> Ftyp io_result" where
  "ftyp_demux header = (\<lambda>data.
     rbind (slice data 0 4) (\<lambda>major_brand.
     rbind (slice data 4 8) (\<lambda>version.
     rbind (fst (read_u32 (cursor_new version))) (\<lambda>minor_version.
     rbind (slice data 8 (length data)) (\<lambda>rest.
     Ok \<lparr>ftyp_header = header, ftyp_major_brand = fourcc_from major_brand, ftyp_minor_version = minor_version,
         ftyp_compatible_brands = read_brands rest\<rparr>)))))"

definition ftyp_primitive_size :: "Ftyp \<Rightarrow> nat" where
  "ftyp_primitive_size b = 4 + 4 + length (ftyp_compatible_brands b) * 4"

definition ftyp_primitive_mux :: "Ftyp \<Rightarrow> (bytes, io_error, unit) prog" where
  "ftyp_primitive_mux b =
     bindE (write_all (fourcc_to_bytes (ftyp_major_brand b))) (\<lambda>_.
     bindE (write_u32 (ftyp_minor_version b)) (\<lambda>_.
     for_m (ftyp_compatible_brands b) (\<lambda>x. write_all (fourcc_to_bytes x))))"

definition ftyp_box :: "Ftyp box_type" where
  "ftyp_box = \<lparr>bt_name = fourcc ''ftyp'', bt_demux = ftyp_demux, bt_primitive_size = ftyp_primitive_size,
     bt_primitive_mux = ftyp_primitive_mux, bt_validate = no_validate\<rparr>"

definition ftyp_wf :: "Ftyp \<Rightarrow> bool" where
  "ftyp_wf b \<longleftrightarrow> ftyp_header b = \<lparr>bh_box_type = fourcc ''ftyp''\<rparr> \<and> fourcc_ok (ftyp_major_brand b) \<and> (\<forall>x \<in> set (ftyp_compatible_brands b). fourcc_ok x)"

lemmas ftyp_defs = ftyp_box_def ftyp_wf_def ftyp_demux_def ftyp_primitive_size_def ftyp_primitive_mux_def

interpretation ftyp: box_codec ftyp_box ftyp_wf
proof
  fix b assume "ftyp_wf b"
  then show "\<exists>bs. box_ok ftyp_box b bs"
    by (cases b) (auto simp: box_ok_def ftyp_defs run_simps box_simps for_m_write_all brands_length slice_def major_brand_ok read_brands_bytes)
qed (simp add: ftyp_defs)

section \<open>Media data and sample description details\<close>

record Mdat =
  mdat_header :: box_header
  mdat_data :: "bytes list"

definition mdat_new :: "bytes list \<Rightarrow> Mdat" where
  "mdat_new data = \<lparr>mdat_header = box_header_new (fourcc ''mdat''), mdat_data = data\<rparr>"

definition mdat_demux :: "box_header \<Rightarrow> bytes \<Rightarrow> Mdat io_result" where
  "mdat_demux header = (\<lambda>data. Ok \<lparr>mdat_header = header, mdat_data = [data]\<rparr>)"

definition mdat_primitive_size :: "Mdat \<Rightarrow> nat" where
  "mdat_primitive_size b = sum_list (map length (mdat_data b))"

definition mdat_primitive_mux :: "Mdat \<Rightarrow> (bytes, io_error, unit) prog" where
  "mdat_primitive_mux b =
     for_m (mdat_data b) write_all"

definition mdat_box :: "Mdat box_type" where
  "mdat_box = \<lparr>bt_name = fourcc ''mdat'', bt_demux = mdat_demux, bt_primitive_size = mdat_primitive_size,
     bt_primitive_mux = mdat_primitive_mux, bt_validate = no_validate\<rparr>"

definition mdat_wf :: "Mdat \<Rightarrow> bool" where
  "mdat_wf b \<longleftrightarrow> mdat_header b = \<lparr>bh_box_type = fourcc ''mdat''\<rparr> \<and> length (mdat_data b) = 1"

lemmas mdat_defs = mdat_box_def mdat_wf_def mdat_demux_def mdat_primitive_size_def mdat_primitive_mux_def

interpretation mdat: box_codec mdat_box mdat_wf
proof
  fix b assume "mdat_wf b"
  then show "\<exists>bs. box_ok mdat_box b bs"
    by (cases b) (auto simp: box_ok_def mdat_defs run_simps box_simps length_Suc_conv)
qed (simp add: mdat_defs)

record Btrt =
  btrt_header :: box_header
  btrt_buffer_size_db :: u32
  btrt_max_bitrate :: u32
  btrt_avg_bitrate :: u32

definition btrt_demux :: "box_header \<Rightarrow> bytes \<Rightarrow> Btrt io_result" where
  "btrt_demux header = with_reader (
     bindE read_u32 (\<lambda>buffer_size_db.
     bindE read_u32 (\<lambda>max_bitrate.
     bindE read_u32 (\<lambda>avg_bitrate.
     ret \<lparr>btrt_header = header, btrt_buffer_size_db = buffer_size_db, btrt_max_bitrate = max_bitrate, btrt_avg_bitrate = avg_bitrate\<rparr>))))"

definition btrt_primitive_size :: "Btrt \<Rightarrow> nat" where
  "btrt_primitive_size b = 4 + 4 + 4"

definition btrt_primitive_mux :: "Btrt \<Rightarrow> (bytes, io_error, unit) prog" where
  "btrt_primitive_mux b =
     bindE (write_u32 (btrt_buffer_size_db b)) (\<lambda>_.
     bindE (write_u32 (btrt_max_bitrate b)) (\<lambda>_.
     write_u32 (btrt_avg_bitrate b)))"

definition btrt_box :: "Btrt box_type" where
  "btrt_box = \<lparr>bt_name = fourcc ''btrt'', bt_demux = btrt_demux, bt_primitive_size = btrt_primitive_size,
     bt_primitive_mux = btrt_primitive_mux, bt_validate = no_validate\<rparr>"

definition btrt_wf :: "Btrt \<Rightarrow> bool" where
  "btrt_wf b \<longleftrightarrow> btrt_header b = \<lparr>bh_box_type = fourcc ''btrt''\<rparr>"

lemmas btrt_defs = btrt_box_def btrt_wf_def btrt_demux_def btrt_primitive_size_def btrt_primitive_mux_def

interpretation btrt: box_codec btrt_box btrt_wf
proof
  fix b assume "btrt_wf b"
  then show "\<exists>bs. box_ok btrt_box b bs"
    by (cases b) (auto simp: box_ok_def btrt_defs run_simps box_simps)
qed (simp add: btrt_defs)

record Clap =
  clap_header :: box_header
  clap_clean_aperture_width_n :: u32
  clap_clean_aperture_width_d :: u32
  clap_clean_aperture_height_n :: u32
  clap_clean_aperture_height_d :: u32
  clap_horiz_off_n :: u32
  clap_horiz_off_d :: u32
  clap_vert_off_n :: u32
  clap_vert_off_d :: u32

definition clap_demux :: "box_header \<Rightarrow> bytes \<Rightarrow> Clap io_result" where
  "clap_demux header = with_reader (
     bindE read_u32 (\<lambda>clean_aperture_width_n.
     bindE read_u32 (\<lambda>clean_aperture_width_d.
     bindE read_u32 (\<lambda>clean_aperture_height_n.
     bindE read_u32 (\<lambda>clean_aperture_height_d.
     bindE read_u32 (\<lambda>horiz_off_n.
     bindE read_u32 (\<lambda>horiz_off_d.
     bindE read_u32 (\<lambda>vert_off_n.
     bindE read_u32 (\<lambda>vert_off_d.
     ret \<lparr>clap_header = header, clap_clean_aperture_width_n = clean_aperture_width_n, clap_clean_aperture_width_d = clean_aperture_width_d, clap_clean_aperture_height_n = clean_aperture_height_n, clap_clean_aperture_height_d = clean_aperture_height_d, clap_horiz_off_n = horiz_off_n, clap_horiz_off_d = horiz_off_d, clap_vert_off_n = vert_off_n, clap_vert_off_d = vert_off_d\<rparr>)))))))))"

definition clap_primitive_size :: "Clap \<Rightarrow> nat" where
  "clap_primitive_size b = 4 + 4 + 4 + 4 + 4 + 4 + 4 + 4"

definition clap_primitive_mux :: "Clap \<Rightarrow> (bytes, io_error, unit) prog" where
  "clap_primitive_mux b =
     bindE (write_u32 (clap_clean_aperture_width_n b)) (\<lambda>_.
     bindE (write_u32 (clap_clean_aperture_width_d b)) (\<lambda>_.
     bindE (write_u32 (clap_clean_aperture_height_n b)) (\<lambda>_.
     bindE (write_u32 (clap_clean_aperture_height_d b)) (\<lambda>_.
     bindE (write_u32 (clap_horiz_off_n b)) (\<lambda>_.
     bindE (write_u32 (clap_horiz_off_d b)) (\<lambda>_.
     bindE (write_u32 (clap_vert_off_n b)) (\<lambda>_.
     write_u32 (clap_vert_off_d b))))))))"

definition clap_box :: "Clap box_type" where
  "clap_box = \<lparr>bt_name = fourcc ''clap'', bt_demux = clap_demux, bt_primitive_size = clap_primitive_size,
     bt_primitive_mux = clap_primitive_mux, bt_validate = no_validate\<rparr>"

definition clap_wf :: "Clap \<Rightarrow> bool" where
  "clap_wf b \<longleftrightarrow> clap_header b = \<lparr>bh_box_type = fourcc ''clap''\<rparr>"

lemmas clap_defs = clap_box_def clap_wf_def clap_demux_def clap_primitive_size_def clap_primitive_mux_def

interpretation clap: box_codec clap_box clap_wf
proof
  fix b assume "clap_wf b"
  then show "\<exists>bs. box_ok clap_box b bs"
    by (cases b) (auto simp: box_ok_def clap_defs run_simps box_simps)
qed (simp add: clap_defs)

record Pasp =
  pasp_header :: box_header
  pasp_h_spacing :: u32
  pasp_v_spacing :: u32

definition pasp_new :: "Pasp" where
  "pasp_new = \<lparr>pasp_header = box_header_new (fourcc ''pasp''), pasp_h_spacing = 1, pasp_v_spacing = 1\<rparr>"

definition pasp_demux :: "box_header \<Rightarrow> bytes \<Rightarrow> Pasp io_result" where
  "pasp_demux header = with_reader (
     bindE read_u32 (\<lambda>h_spacing.
     bindE read_u32 (\<lambda>v_spacing.
     ret \<lparr>pasp_header = header, pasp_h_spacing = h_spacing, pasp_v_spacing = v_spacing\<rparr>)))"

definition pasp_primitive_size :: "Pasp \<Rightarrow> nat" where
  "pasp_primitive_size b = 4 + 4"

definition pasp_primitive_mux :: "Pasp \<Rightarrow> (bytes, io_error, unit) prog" where
  "pasp_primitive_mux b =
     bindE (write_u32 (pasp_h_spacing b)) (\<lambda>_.
     write_u32 (pasp_v_spacing b))"

definition pasp_box :: "Pasp box_type" where
  "pasp_box = \<lparr>bt_name = fourcc ''pasp'', bt_demux = pasp_demux, bt_primitive_size = pasp_primitive_size,
     bt_primitive_mux = pasp_primitive_mux, bt_validate = no_validate\<rparr>"

definition pasp_wf :: "Pasp \<Rightarrow> bool" where
  "pasp_wf b \<longleftrightarrow> pasp_header b = \<lparr>bh_box_type = fourcc ''pasp''\<rparr>"

lemmas pasp_defs = pasp_box_def pasp_wf_def pasp_demux_def pasp_primitive_size_def pasp_primitive_mux_def

interpretation pasp: box_codec pasp_box pasp_wf
proof
  fix b assume "pasp_wf b"
  then show "\<exists>bs. box_ok pasp_box b bs"
    by (cases b) (auto simp: box_ok_def pasp_defs run_simps box_simps)
qed (simp add: pasp_defs)

datatype ColorType = Nclx u16 u16 u16 bool | UnknownColor bytes bytes

record Colr =
  colr_header :: box_header
  colr_color_type :: ColorType

definition colr_new :: "ColorType \<Rightarrow> Colr" where
  "colr_new color_type = \<lparr>colr_header = box_header_new (fourcc ''colr''), colr_color_type = color_type\<rparr>"

definition colr_demux :: "box_header \<Rightarrow> bytes \<Rightarrow> Colr io_result" where
  "colr_demux header = with_reader (
     bindE (read_exact 4) (\<lambda>tag.
     bindE (if tag = fourcc ''nclx'' then
        bindE read_u16 (\<lambda>color_primaries.
        bindE read_u16 (\<lambda>transfer_characteristics.
        bindE read_u16 (\<lambda>matrix_coefficients.
        bindE read_u8 (\<lambda>b.
        ret (Nclx color_primaries transfer_characteristics matrix_coefficients (drop_bit 7 b = 1))))))
      else (\<lambda>c. (Ok (UnknownColor tag (cur_rest c)), c))) (\<lambda>color_type.
     ret \<lparr>colr_header = header, colr_color_type = color_type\<rparr>)))"

definition colr_primitive_size :: "Colr \<Rightarrow> nat" where
  "colr_primitive_size b = (case (colr_color_type b) of Nclx _ _ _ _ \<Rightarrow> 2 + 2 + 2 + 1 | UnknownColor _ data \<Rightarrow> length data) + 4"

definition colr_primitive_mux :: "Colr \<Rightarrow> (bytes, io_error, unit) prog" where
  "colr_primitive_mux b =
     (case (colr_color_type b) of
        Nclx color_primaries transfer_characteristics matrix_coefficients full_range_flag \<Rightarrow>
          bindE (write_all (fourcc ''nclx'')) (\<lambda>_.
          bindE (write_u16 color_primaries) (\<lambda>_.
          bindE (write_u16 transfer_characteristics) (\<lambda>_.
          bindE (write_u16 matrix_coefficients) (\<lambda>_.
          write_u8 (if full_range_flag then 0x80 else 0)))))
      | UnknownColor color_type data \<Rightarrow> bindE (write_all color_type) (\<lambda>_. write_all data))"

definition colr_box :: "Colr box_type" where
  "colr_box = \<lparr>bt_name = fourcc ''colr'', bt_demux = colr_demux, bt_primitive_size = colr_primitive_size,
     bt_primitive_mux = colr_primitive_mux, bt_validate = no_validate\<rparr>"

definition colr_wf :: "Colr \<Rightarrow> bool" where
  "colr_wf b \<longleftrightarrow> colr_header b = \<lparr>bh_box_type = fourcc ''colr''\<rparr> \<and> (\<forall>tag data. (colr_color_type b) = UnknownColor tag data \<longrightarrow> length tag = 4 \<and> tag \<noteq> fourcc ''nclx'')"

lemmas colr_defs = colr_box_def colr_wf_def colr_demux_def colr_primitive_size_def colr_primitive_mux_def

interpretation colr: box_codec colr_box colr_wf
proof
  fix b assume "colr_wf b"
  then show "\<exists>bs. box_ok colr_box b bs"
    by (cases b; cases "colr_color_type b") (auto simp: box_ok_def colr_defs run_simps box_simps read_exact_curs)
qed (simp add: colr_defs)

end
