(* ===== verification/Mp4_Tables.thy ===== *)
theory Mp4_Tables
  imports Mp4_Box
begin

text \<open>
  The MP4 boxes that are tables (\<^verbatim>\<open>crates/mp4/src/boxes/types\<close>): sample tables, edit lists, sample groups,
  sub-samples. Entries are records with a reader and a writer of their own; each box type interprets
  \<open>box_codec\<close>. The two boxes whose announced size is wrong, \<^verbatim>\<open>sbgp\<close> and \<^verbatim>\<open>stz2\<close>, do so only for the boxes
  whose size is right; what happens for the others is stated at the end.
\<close>

section \<open>Chunk offsets, sync samples and sizes\<close>

record Stco =
  stco_header :: full_box_header
  stco_entries :: "u32 list"

definition stco_new :: "u32 list \<Rightarrow> Stco" where
  "stco_new entries = \<lparr>stco_header = full_header_new (fourcc ''stco'') 0 0, stco_entries = entries\<rparr>"

definition stco_demux :: "box_header \<Rightarrow> bytes \<Rightarrow> Stco io_result" where
  "stco_demux header = with_reader (
     bindE (full_header_demux header) (\<lambda>h.
     bindE read_u32 (\<lambda>entry_count.
     bindE (read_u32s (unat entry_count)) (\<lambda>entries.
     ret \<lparr>stco_header = h, stco_entries = entries\<rparr>))))"

definition stco_primitive_size :: "Stco \<Rightarrow> nat" where
  "stco_primitive_size b = full_header_size (stco_header b) + 4 + length (stco_entries b) * 4"

definition stco_primitive_mux :: "Stco \<Rightarrow> (bytes, io_error, unit) prog" where
  "stco_primitive_mux b =
     bindE (full_header_mux (stco_header b)) (\<lambda>_.
     bindE (write_count (stco_entries b)) (\<lambda>_.
     write_u32s (stco_entries b)))"

definition stco_validate :: "Stco \<Rightarrow> unit io_result" where
  "stco_validate b =
     require (fh_version (stco_header b) = 0) (
     require (fh_flags (stco_header b) = 0) (Ok ()))"

definition stco_box :: "Stco box_type" where
  "stco_box = \<lparr>bt_name = fourcc ''stco'', bt_demux = stco_demux, bt_primitive_size = stco_primitive_size,
     bt_primitive_mux = stco_primitive_mux, bt_validate = stco_validate\<rparr>"

definition stco_wf :: "Stco \<Rightarrow> bool" where
  "stco_wf b \<longleftrightarrow> stco_validate b = Ok () \<and> full_header_ok (fourcc ''stco'') (stco_header b) \<and> length (stco_entries b) \<le> u32_max"

lemmas stco_defs = stco_box_def stco_wf_def stco_demux_def stco_primitive_size_def stco_primitive_mux_def stco_validate_def

interpretation stco: box_codec stco_box stco_wf
proof
  fix b assume "stco_wf b"
  then show "\<exists>bs. box_ok stco_box b bs"
    by (cases b) (auto simp: box_ok_def stco_defs run_simps box_simps)
qed (simp add: stco_defs)

record Stss =
  stss_header :: full_box_header
  stss_entries :: "u32 list"

definition stss_demux :: "box_header \<Rightarrow> bytes \<Rightarrow> Stss io_result" where
  "stss_demux header = with_reader (
     bindE (full_header_demux header) (\<lambda>h.
     bindE read_u32 (\<lambda>entry_count.
     bindE (read_u32s (unat entry_count)) (\<lambda>entries.
     ret \<lparr>stss_header = h, stss_entries = entries\<rparr>))))"

definition stss_primitive_size :: "Stss \<Rightarrow> nat" where
  "stss_primitive_size b = full_header_size (stss_header b) + 4 + length (stss_entries b) * 4"

definition stss_primitive_mux :: "Stss \<Rightarrow> (bytes, io_error, unit) prog" where
  "stss_primitive_mux b =
     bindE (full_header_mux (stss_header b)) (\<lambda>_.
     bindE (write_count (stss_entries b)) (\<lambda>_.
     write_u32s (stss_entries b)))"

definition stss_validate :: "Stss \<Rightarrow> unit io_result" where
  "stss_validate b =
     require (fh_version (stss_header b) = 0) (
     require (fh_flags (stss_header b) = 0) (Ok ()))"

definition stss_box :: "Stss box_type" where
  "stss_box = \<lparr>bt_name = fourcc ''stss'', bt_demux = stss_demux, bt_primitive_size = stss_primitive_size,
     bt_primitive_mux = stss_primitive_mux, bt_validate = stss_validate\<rparr>"

definition stss_wf :: "Stss \<Rightarrow> bool" where
  "stss_wf b \<longleftrightarrow> stss_validate b = Ok () \<and> full_header_ok (fourcc ''stss'') (stss_header b) \<and> length (stss_entries b) \<le> u32_max"

lemmas stss_defs = stss_box_def stss_wf_def stss_demux_def stss_primitive_size_def stss_primitive_mux_def stss_validate_def

interpretation stss: box_codec stss_box stss_wf
proof
  fix b assume "stss_wf b"
  then show "\<exists>bs. box_ok stss_box b bs"
    by (cases b) (auto simp: box_ok_def stss_defs run_simps box_simps)
qed (simp add: stss_defs)

record Co64 =
  co64_header :: full_box_header
  co64_chunk_offset :: "u32 list"

definition co64_demux :: "box_header \<Rightarrow> bytes \<Rightarrow> Co64 io_result" where
  "co64_demux header = with_reader (
     bindE (full_header_demux header) (\<lambda>h.
     bindE read_u32 (\<lambda>entry_count.
     bindE (read_u32s (unat entry_count)) (\<lambda>chunk_offset.
     ret \<lparr>co64_header = h, co64_chunk_offset = chunk_offset\<rparr>))))"

definition co64_primitive_size :: "Co64 \<Rightarrow> nat" where
  "co64_primitive_size b = full_header_size (co64_header b) + 4 + length (co64_chunk_offset b) * 4"

definition co64_primitive_mux :: "Co64 \<Rightarrow> (bytes, io_error, unit) prog" where
  "co64_primitive_mux b =
     bindE (full_header_mux (co64_header b)) (\<lambda>_.
     bindE (write_count (co64_chunk_offset b)) (\<lambda>_.
     write_u32s (co64_chunk_offset b)))"

definition co64_validate :: "Co64 \<Rightarrow> unit io_result" where
  "co64_validate b =
     require (fh_flags (co64_header b) = 0) (
     require (fh_version (co64_header b) = 0) (Ok ()))"

definition co64_box :: "Co64 box_type" where
  "co64_box = \<lparr>bt_name = fourcc ''co64'', bt_demux = co64_demux, bt_primitive_size = co64_primitive_size,
     bt_primitive_mux = co64_primitive_mux, bt_validate = co64_validate\<rparr>"

definition co64_wf :: "Co64 \<Rightarrow> bool" where
  "co64_wf b \<longleftrightarrow> co64_validate b = Ok () \<and> full_header_ok (fourcc ''co64'') (co64_header b) \<and> length (co64_chunk_offset b) \<le> u32_max"

lemmas co64_defs = co64_box_def co64_wf_def co64_demux_def co64_primitive_size_def co64_primitive_mux_def co64_validate_def

interpretation co64: box_codec co64_box co64_wf
proof
  fix b assume "co64_wf b"
  then show "\<exists>bs. box_ok co64_box b bs"
    by (cases b) (auto simp: box_ok_def co64_defs run_simps box_simps)
qed (simp add: co64_defs)

record Stsz =
  stsz_header :: full_box_header
  stsz_sample_size :: u32
  stsz_samples :: "u32 list"

definition stsz_new :: "u32 \<Rightarrow> u32 list \<Rightarrow> Stsz" where
  "stsz_new sample_size samples = \<lparr>stsz_header = full_header_new (fourcc ''stsz'') 0 0, stsz_sample_size = sample_size,
     stsz_samples = samples\<rparr>"

definition stsz_demux :: "box_header \<Rightarrow> bytes \<Rightarrow> Stsz io_result" where
  "stsz_demux header = with_reader (
     bindE (full_header_demux header) (\<lambda>h.
     bindE read_u32 (\<lambda>sample_size.
     bindE read_u32 (\<lambda>sample_count.
     bindE (if sample_size = 0 then read_u32s (unat sample_count) else ret []) (\<lambda>samples.
     ret \<lparr>stsz_header = h, stsz_sample_size = sample_size, stsz_samples = samples\<rparr>)))))"

definition stsz_primitive_size :: "Stsz \<Rightarrow> nat" where
  "stsz_primitive_size b = full_header_size (stsz_header b) + 8 + (if (stsz_sample_size b) = 0 then length (stsz_samples b) * 4 else 0)"

definition stsz_primitive_mux :: "Stsz \<Rightarrow> (bytes, io_error, unit) prog" where
  "stsz_primitive_mux b =
     bindE (full_header_mux (stsz_header b)) (\<lambda>_.
     bindE (write_u32 (stsz_sample_size b)) (\<lambda>_.
     bindE (write_count (stsz_samples b)) (\<lambda>_.
     (if (stsz_sample_size b) = 0 then write_u32s (stsz_samples b) else ret ()))))"

definition stsz_validate :: "Stsz \<Rightarrow> unit io_result" where
  "stsz_validate b =
     require (\<not> ((stsz_sample_size b) \<noteq> 0 \<and> (stsz_samples b) \<noteq> [])) (
     require (fh_version (stsz_header b) = 0) (
     require (fh_flags (stsz_header b) = 0) (Ok ())))"

definition stsz_box :: "Stsz box_type" where
  "stsz_box = \<lparr>bt_name = fourcc ''stsz'', bt_demux = stsz_demux, bt_primitive_size = stsz_primitive_size,
     bt_primitive_mux = stsz_primitive_mux, bt_validate = stsz_validate\<rparr>"

definition stsz_wf :: "Stsz \<Rightarrow> bool" where
  "stsz_wf b \<longleftrightarrow> stsz_validate b = Ok () \<and> full_header_ok (fourcc ''stsz'') (stsz_header b) \<and> length (stsz_samples b) \<le> u32_max"

lemmas stsz_defs = stsz_box_def stsz_wf_def stsz_demux_def stsz_primitive_size_def stsz_primitive_mux_def stsz_validate_def

interpretation stsz: box_codec stsz_box stsz_wf
proof
  fix b assume "stsz_wf b"
  then show "\<exists>bs. box_ok stsz_box b bs"
    by (cases b; cases "stsz_sample_size b = 0") (auto simp: box_ok_def stsz_defs run_simps box_simps)
qed (simp add: stsz_defs)

section \<open>Tables of records\<close>

record SttsEntry =
  stts_entry_sample_count :: u32
  stts_entry_sample_delta :: u32

definition read_stts_entry :: "(cursor, io_error, SttsEntry) prog" where
  "read_stts_entry =
     bindE read_u32 (\<lambda>sample_count.
     bindE read_u32 (\<lambda>sample_delta.
     ret \<lparr>stts_entry_sample_count = sample_count, stts_entry_sample_delta = sample_delta\<rparr>))"

definition write_stts_entry :: "SttsEntry \<Rightarrow> (bytes, io_error, unit) prog" where
  "write_stts_entry e =
     bindE (write_u32 (stts_entry_sample_count e)) (\<lambda>_.
     write_u32 (stts_entry_sample_delta e))"

definition stts_entry_bytes :: "SttsEntry \<Rightarrow> bytes" where
  "stts_entry_bytes e = be32 (stts_entry_sample_count e) @ be32 (stts_entry_sample_delta e)"

interpretation stts_entry: sized_codec "\<lambda>_. True" stts_entry_bytes read_stts_entry "\<lambda>_. 8"
  by unfold_locales (auto simp: stts_entry_bytes_def read_stts_entry_def run_simps)

lemma write_stts_entry_all: "for_m xs write_stts_entry out = (Ok (), out @ concat (map stts_entry_bytes xs))"
  by (rule for_m_write) (simp add: write_stts_entry_def stts_entry_bytes_def run_simps)

lemmas stts_entry_simps = write_stts_entry_all stts_entry.dec_repeat_last [simplified] stts_entry.length_concat_enc [simplified]

record Stts =
  stts_header :: full_box_header
  stts_entries :: "SttsEntry list"

definition stts_new :: "SttsEntry list \<Rightarrow> Stts" where
  "stts_new entries = \<lparr>stts_header = full_header_new (fourcc ''stts'') 0 0, stts_entries = entries\<rparr>"

definition stts_demux :: "box_header \<Rightarrow> bytes \<Rightarrow> Stts io_result" where
  "stts_demux header = with_reader (
     bindE (full_header_demux header) (\<lambda>h.
     bindE read_u32 (\<lambda>entry_count.
     bindE (repeat_m (unat entry_count) read_stts_entry) (\<lambda>entries.
     ret \<lparr>stts_header = h, stts_entries = entries\<rparr>))))"

definition stts_primitive_size :: "Stts \<Rightarrow> nat" where
  "stts_primitive_size b = full_header_size (stts_header b) + 4 + length (stts_entries b) * 8"

definition stts_primitive_mux :: "Stts \<Rightarrow> (bytes, io_error, unit) prog" where
  "stts_primitive_mux b =
     bindE (full_header_mux (stts_header b)) (\<lambda>_.
     bindE (write_count (stts_entries b)) (\<lambda>_.
     for_m (stts_entries b) write_stts_entry))"

definition stts_validate :: "Stts \<Rightarrow> unit io_result" where
  "stts_validate b =
     require (fh_version (stts_header b) = 0) (
     require (fh_flags (stts_header b) = 0) (Ok ()))"

definition stts_box :: "Stts box_type" where
  "stts_box = \<lparr>bt_name = fourcc ''stts'', bt_demux = stts_demux, bt_primitive_size = stts_primitive_size,
     bt_primitive_mux = stts_primitive_mux, bt_validate = stts_validate\<rparr>"

definition stts_wf :: "Stts \<Rightarrow> bool" where
  "stts_wf b \<longleftrightarrow> stts_validate b = Ok () \<and> full_header_ok (fourcc ''stts'') (stts_header b) \<and> length (stts_entries b) \<le> u32_max"

lemmas stts_defs = stts_box_def stts_wf_def stts_demux_def stts_primitive_size_def stts_primitive_mux_def stts_validate_def

interpretation stts: box_codec stts_box stts_wf
proof
  fix b assume "stts_wf b"
  then show "\<exists>bs. box_ok stts_box b bs"
    by (cases b) (auto simp: box_ok_def stts_defs run_simps box_simps stts_entry_simps sum_list_triv)
qed (simp add: stts_defs)

record StscEntry =
  stsc_entry_first_chunk :: u32
  stsc_entry_samples_per_chunk :: u32
  stsc_entry_sample_description_index :: u32

definition read_stsc_entry :: "(cursor, io_error, StscEntry) prog" where
  "read_stsc_entry =
     bindE read_u32 (\<lambda>first_chunk.
     bindE read_u32 (\<lambda>samples_per_chunk.
     bindE read_u32 (\<lambda>sample_description_index.
     ret \<lparr>stsc_entry_first_chunk = first_chunk, stsc_entry_samples_per_chunk = samples_per_chunk, stsc_entry_sample_description_index = sample_description_index\<rparr>)))"

definition write_stsc_entry :: "StscEntry \<Rightarrow> (bytes, io_error, unit) prog" where
  "write_stsc_entry e =
     bindE (write_u32 (stsc_entry_first_chunk e)) (\<lambda>_.
     bindE (write_u32 (stsc_entry_samples_per_chunk e)) (\<lambda>_.
     write_u32 (stsc_entry_sample_description_index e)))"

definition stsc_entry_bytes :: "StscEntry \<Rightarrow> bytes" where
  "stsc_entry_bytes e = be32 (stsc_entry_first_chunk e) @ be32 (stsc_entry_samples_per_chunk e) @ be32 (stsc_entry_sample_description_index e)"

interpretation stsc_entry: sized_codec "\<lambda>_. True" stsc_entry_bytes read_stsc_entry "\<lambda>_. 12"
  by unfold_locales (auto simp: stsc_entry_bytes_def read_stsc_entry_def run_simps)

lemma write_stsc_entry_all: "for_m xs write_stsc_entry out = (Ok (), out @ concat (map stsc_entry_bytes xs))"
  by (rule for_m_write) (simp add: write_stsc_entry_def stsc_entry_bytes_def run_simps)

lemmas stsc_entry_simps = write_stsc_entry_all stsc_entry.dec_repeat_last [simplified] stsc_entry.length_concat_enc [simplified]

record Stsc =
  stsc_header :: full_box_header
  stsc_entries :: "StscEntry list"

definition stsc_new :: "StscEntry list \<Rightarrow> Stsc" where
  "stsc_new entries = \<lparr>stsc_header = full_header_new (fourcc ''stsc'') 0 0, stsc_entries = entries\<rparr>"

definition stsc_demux :: "box_header \<Rightarrow> bytes \<Rightarrow> Stsc io_result" where
  "stsc_demux header = with_reader (
     bindE (full_header_demux header) (\<lambda>h.
     bindE read_u32 (\<lambda>entry_count.
     bindE (repeat_m (unat entry_count) read_stsc_entry) (\<lambda>entries.
     ret \<lparr>stsc_header = h, stsc_entries = entries\<rparr>))))"

definition stsc_primitive_size :: "Stsc \<Rightarrow> nat" where
  "stsc_primitive_size b = full_header_size (stsc_header b) + 4 + length (stsc_entries b) * 12"

definition stsc_primitive_mux :: "Stsc \<Rightarrow> (bytes, io_error, unit) prog" where
  "stsc_primitive_mux b =
     bindE (full_header_mux (stsc_header b)) (\<lambda>_.
     bindE (write_count (stsc_entries b)) (\<lambda>_.
     for_m (stsc_entries b) write_stsc_entry))"

definition stsc_validate :: "Stsc \<Rightarrow> unit io_result" where
  "stsc_validate b =
     require (fh_version (stsc_header b) = 0) (
     require (fh_flags (stsc_header b) = 0) (Ok ()))"

definition stsc_box :: "Stsc box_type" where
  "stsc_box = \<lparr>bt_name = fourcc ''stsc'', bt_demux = stsc_demux, bt_primitive_size = stsc_primitive_size,
     bt_primitive_mux = stsc_primitive_mux, bt_validate = stsc_validate\<rparr>"

definition stsc_wf :: "Stsc \<Rightarrow> bool" where
  "stsc_wf b \<longleftrightarrow> stsc_validate b = Ok () \<and> full_header_ok (fourcc ''stsc'') (stsc_header b) \<and> length (stsc_entries b) \<le> u32_max"

lemmas stsc_defs = stsc_box_def stsc_wf_def stsc_demux_def stsc_primitive_size_def stsc_primitive_mux_def stsc_validate_def

interpretation stsc: box_codec stsc_box stsc_wf
proof
  fix b assume "stsc_wf b"
  then show "\<exists>bs. box_ok stsc_box b bs"
    by (cases b) (auto simp: box_ok_def stsc_defs run_simps box_simps stsc_entry_simps sum_list_triv)
qed (simp add: stsc_defs)

record StshEntry =
  stsh_entry_shadowed_sample_count :: u32
  stsh_entry_sync_sample_number :: u32

definition read_stsh_entry :: "(cursor, io_error, StshEntry) prog" where
  "read_stsh_entry =
     bindE read_u32 (\<lambda>shadowed_sample_count.
     bindE read_u32 (\<lambda>sync_sample_number.
     ret \<lparr>stsh_entry_shadowed_sample_count = shadowed_sample_count, stsh_entry_sync_sample_number = sync_sample_number\<rparr>))"

definition write_stsh_entry :: "StshEntry \<Rightarrow> (bytes, io_error, unit) prog" where
  "write_stsh_entry e =
     bindE (write_u32 (stsh_entry_shadowed_sample_count e)) (\<lambda>_.
     write_u32 (stsh_entry_sync_sample_number e))"

definition stsh_entry_bytes :: "StshEntry \<Rightarrow> bytes" where
  "stsh_entry_bytes e = be32 (stsh_entry_shadowed_sample_count e) @ be32 (stsh_entry_sync_sample_number e)"

interpretation stsh_entry: sized_codec "\<lambda>_. True" stsh_entry_bytes read_stsh_entry "\<lambda>_. 8"
  by unfold_locales (auto simp: stsh_entry_bytes_def read_stsh_entry_def run_simps)

lemma write_stsh_entry_all: "for_m xs write_stsh_entry out = (Ok (), out @ concat (map stsh_entry_bytes xs))"
  by (rule for_m_write) (simp add: write_stsh_entry_def stsh_entry_bytes_def run_simps)

lemmas stsh_entry_simps = write_stsh_entry_all stsh_entry.dec_repeat_last [simplified] stsh_entry.length_concat_enc [simplified]

record Stsh =
  stsh_header :: full_box_header
  stsh_entries :: "StshEntry list"

definition stsh_demux :: "box_header \<Rightarrow> bytes \<Rightarrow> Stsh io_result" where
  "stsh_demux header = with_reader (
     bindE (full_header_demux header) (\<lambda>h.
     bindE read_u32 (\<lambda>entry_count.
     bindE (repeat_m (unat entry_count) read_stsh_entry) (\<lambda>entries.
     ret \<lparr>stsh_header = h, stsh_entries = entries\<rparr>))))"

definition stsh_primitive_size :: "Stsh \<Rightarrow> nat" where
  "stsh_primitive_size b = full_header_size (stsh_header b) + 4 + length (stsh_entries b) * 8"

definition stsh_primitive_mux :: "Stsh \<Rightarrow> (bytes, io_error, unit) prog" where
  "stsh_primitive_mux b =
     bindE (full_header_mux (stsh_header b)) (\<lambda>_.
     bindE (write_count (stsh_entries b)) (\<lambda>_.
     for_m (stsh_entries b) write_stsh_entry))"

definition stsh_validate :: "Stsh \<Rightarrow> unit io_result" where
  "stsh_validate b =
     require (fh_version (stsh_header b) = 0) (
     require (fh_flags (stsh_header b) = 0) (Ok ()))"

definition stsh_box :: "Stsh box_type" where
  "stsh_box = \<lparr>bt_name = fourcc ''stsh'', bt_demux = stsh_demux, bt_primitive_size = stsh_primitive_size,
     bt_primitive_mux = stsh_primitive_mux, bt_validate = stsh_validate\<rparr>"

definition stsh_wf :: "Stsh \<Rightarrow> bool" where
  "stsh_wf b \<longleftrightarrow> stsh_validate b = Ok () \<and> full_header_ok (fourcc ''stsh'') (stsh_header b) \<and> length (stsh_entries b) \<le> u32_max"

lemmas stsh_defs = stsh_box_def stsh_wf_def stsh_demux_def stsh_primitive_size_def stsh_primitive_mux_def stsh_validate_def

interpretation stsh: box_codec stsh_box stsh_wf
proof
  fix b assume "stsh_wf b"
  then show "\<exists>bs. box_ok stsh_box b bs"
    by (cases b) (auto simp: box_ok_def stsh_defs run_simps box_simps stsh_entry_simps sum_list_triv)
qed (simp add: stsh_defs)

section \<open>Composition offsets and edit lists\<close>

text \<open>A signed 64-bit field stored in 32 bits: sign-extended when it is read as \<^verbatim>\<open>i32\<close>, zero-extended as \<^verbatim>\<open>u32\<close>.\<close>

definition i64_of_i32 :: "i32 \<Rightarrow> i64" where
  "i64_of_i32 x = scast x"

record CttsEntry =
  ctts_entry_sample_count :: u32
  ctts_entry_sample_offset :: i64

definition read_ctts_entry :: "u8 \<Rightarrow> (cursor, io_error, CttsEntry) prog" where
  "read_ctts_entry version =
     bindE read_u32 (\<lambda>sample_count.
     bindE (if version = 1 then bindE read_u32 (\<lambda>x. ret (i64_of_i32 x))
            else bindE read_u32 (\<lambda>x. ret (ucast x))) (\<lambda>sample_offset.
     ret \<lparr>ctts_entry_sample_count = sample_count, ctts_entry_sample_offset = sample_offset\<rparr>))"

definition write_ctts_entry :: "u8 \<Rightarrow> CttsEntry \<Rightarrow> (bytes, io_error, unit) prog" where
  "write_ctts_entry version e =
     bindE (write_u32 (ctts_entry_sample_count e)) (\<lambda>_.
     if version = 1 then write_u32 (ucast (ctts_entry_sample_offset e))
     else write_u32 (ucast (ctts_entry_sample_offset e)))"

definition ctts_entry_bytes :: "CttsEntry \<Rightarrow> bytes" where
  "ctts_entry_bytes e = be32 (ctts_entry_sample_count e) @ be32 (ucast (ctts_entry_sample_offset e))"

definition ctts_entry_ok :: "u8 \<Rightarrow> CttsEntry \<Rightarrow> bool" where
  "ctts_entry_ok version e \<longleftrightarrow>
     (if version = 1 then i64_of_i32 (ucast (ctts_entry_sample_offset e)) = ctts_entry_sample_offset e
      else ctts_entry_sample_offset e \<le> 0xFFFFFFFF)"

interpretation ctts_entry: sized_codec "ctts_entry_ok version" ctts_entry_bytes "read_ctts_entry version" "\<lambda>_. 8"
  for version
  by unfold_locales (auto simp: ctts_entry_bytes_def read_ctts_entry_def ctts_entry_ok_def run_simps box_simps)

lemma write_ctts_entry_all: "for_m xs (write_ctts_entry v) out = (Ok (), out @ concat (map ctts_entry_bytes xs))"
  by (rule for_m_write) (simp add: write_ctts_entry_def ctts_entry_bytes_def run_simps)

lemma length_ctts_entries: "length (concat (map ctts_entry_bytes xs)) = 8 * length xs"
  by (rule length_concat_const) (simp add: ctts_entry_bytes_def)

lemmas ctts_entry_simps = write_ctts_entry_all ctts_entry.dec_repeat_last length_ctts_entries


record Ctts =
  ctts_header :: full_box_header
  ctts_entries :: "CttsEntry list"

definition ctts_demux :: "box_header \<Rightarrow> bytes \<Rightarrow> Ctts io_result" where
  "ctts_demux header = with_reader (
     bindE (full_header_demux header) (\<lambda>h.
     bindE read_u32 (\<lambda>entry_count.
     bindE (repeat_m (unat entry_count) (read_ctts_entry (fh_version h))) (\<lambda>entries.
     ret \<lparr>ctts_header = h, ctts_entries = entries\<rparr>))))"

definition ctts_primitive_size :: "Ctts \<Rightarrow> nat" where
  "ctts_primitive_size b = full_header_size (ctts_header b) + 4 + length (ctts_entries b) * 8"

definition ctts_primitive_mux :: "Ctts \<Rightarrow> (bytes, io_error, unit) prog" where
  "ctts_primitive_mux b =
     bindE (full_header_mux (ctts_header b)) (\<lambda>_.
     bindE (write_count (ctts_entries b)) (\<lambda>_.
     for_m (ctts_entries b) (write_ctts_entry (fh_version (ctts_header b)))))"

definition ctts_validate :: "Ctts \<Rightarrow> unit io_result" where
  "ctts_validate b =
     require (fh_flags (ctts_header b) = 0) (
     require (fh_version (ctts_header b) \<le> 1) (Ok ()))"

definition ctts_box :: "Ctts box_type" where
  "ctts_box = \<lparr>bt_name = fourcc ''ctts'', bt_demux = ctts_demux, bt_primitive_size = ctts_primitive_size,
     bt_primitive_mux = ctts_primitive_mux, bt_validate = ctts_validate\<rparr>"

definition ctts_wf :: "Ctts \<Rightarrow> bool" where
  "ctts_wf b \<longleftrightarrow> ctts_validate b = Ok () \<and> full_header_ok (fourcc ''ctts'') (ctts_header b) \<and> length (ctts_entries b) \<le> u32_max \<and> (\<forall>e \<in> set (ctts_entries b). ctts_entry_ok (fh_version (ctts_header b)) e)"

lemmas ctts_defs = ctts_box_def ctts_wf_def ctts_demux_def ctts_primitive_size_def ctts_primitive_mux_def ctts_validate_def

interpretation ctts: box_codec ctts_box ctts_wf
proof
  fix b assume "ctts_wf b"
  then show "\<exists>bs. box_ok ctts_box b bs"
    by (cases b) (auto simp: box_ok_def ctts_defs run_simps box_simps ctts_entry_simps)
qed (simp add: ctts_defs)

record ElstEntry =
  elst_entry_segment_duration :: u64
  elst_entry_media_time :: i64
  elst_entry_media_rate_integer :: i16
  elst_entry_media_rate_fraction :: i16

definition read_elst_entry :: "u8 \<Rightarrow> (cursor, io_error, ElstEntry) prog" where
  "read_elst_entry version =
     bindE (if version = 1 then bindE read_u64 (\<lambda>d. bindE read_u64 (\<lambda>t. ret (d, t)))
            else bindE read_u32 (\<lambda>d. bindE read_u32 (\<lambda>t. ret (ucast d, i64_of_i32 t)))) (\<lambda>(segment_duration, media_time).
     bindE read_u16 (\<lambda>media_rate_integer.
     bindE read_u16 (\<lambda>media_rate_fraction.
     ret \<lparr>elst_entry_segment_duration = segment_duration, elst_entry_media_time = media_time,
          elst_entry_media_rate_integer = media_rate_integer, elst_entry_media_rate_fraction = media_rate_fraction\<rparr>)))"

definition write_elst_entry :: "u8 \<Rightarrow> ElstEntry \<Rightarrow> (bytes, io_error, unit) prog" where
  "write_elst_entry version e =
     bindE (if version = 1
            then bindE (write_u64 (elst_entry_segment_duration e)) (\<lambda>_. write_u64 (elst_entry_media_time e))
            else bindE (write_u32 (ucast (elst_entry_segment_duration e))) (\<lambda>_.
                 write_u32 (ucast (elst_entry_media_time e)))) (\<lambda>_.
     bindE (write_u16 (elst_entry_media_rate_integer e)) (\<lambda>_.
     write_u16 (elst_entry_media_rate_fraction e)))"

definition elst_entry_bytes :: "u8 \<Rightarrow> ElstEntry \<Rightarrow> bytes" where
  "elst_entry_bytes v e =
     (if v = 1 then be64 (elst_entry_segment_duration e) @ be64 (elst_entry_media_time e)
      else be32 (ucast (elst_entry_segment_duration e)) @ be32 (ucast (elst_entry_media_time e)))
     @ be16 (elst_entry_media_rate_integer e) @ be16 (elst_entry_media_rate_fraction e)"

text \<open>In version 0 the two times have 32 bits; \<^verbatim>\<open>validate\<close> makes this check for version 1 instead.\<close>

definition elst_entry_ok :: "u8 \<Rightarrow> ElstEntry \<Rightarrow> bool" where
  "elst_entry_ok version e \<longleftrightarrow> (version \<noteq> 1 \<longrightarrow> elst_entry_segment_duration e \<le> 0xFFFFFFFF
     \<and> i64_of_i32 (ucast (elst_entry_media_time e)) = elst_entry_media_time e)"

interpretation elst_entry: sized_codec "elst_entry_ok version" "elst_entry_bytes version" "read_elst_entry version"
  "\<lambda>_. if version = 1 then 20 else 12" for version
  by unfold_locales (auto simp: elst_entry_bytes_def read_elst_entry_def elst_entry_ok_def run_simps box_simps)

lemma write_elst_entry_all: "for_m xs (write_elst_entry v) out = (Ok (), out @ concat (map (elst_entry_bytes v) xs))"
  by (rule for_m_write) (simp add: write_elst_entry_def elst_entry_bytes_def run_simps)

lemma length_elst_entries: "length (concat (map (elst_entry_bytes v) xs)) = (if v = 1 then 20 else 12) * length xs"
  by (rule length_concat_const) (simp add: elst_entry_bytes_def)

lemmas elst_entry_simps = write_elst_entry_all elst_entry.dec_repeat_last length_elst_entries


record Elst =
  elst_header :: full_box_header
  elst_entries :: "ElstEntry list"

definition elst_new :: "ElstEntry list \<Rightarrow> Elst" where
  "elst_new entries = \<lparr>elst_header = full_header_new (fourcc ''elst'') 0 0, elst_entries = entries\<rparr>"

definition elst_demux :: "box_header \<Rightarrow> bytes \<Rightarrow> Elst io_result" where
  "elst_demux header = with_reader (
     bindE (full_header_demux header) (\<lambda>h.
     bindE read_u32 (\<lambda>entry_count.
     bindE (repeat_m (unat entry_count) (read_elst_entry (fh_version h))) (\<lambda>entries.
     ret \<lparr>elst_header = h, elst_entries = entries\<rparr>))))"

definition elst_primitive_size :: "Elst \<Rightarrow> nat" where
  "elst_primitive_size b = full_header_size (elst_header b) + 4 + length (elst_entries b) * (if fh_version (elst_header b) = 1 then 8 + 8 + 2 + 2 else 4 + 4 + 2 + 2)"

definition elst_primitive_mux :: "Elst \<Rightarrow> (bytes, io_error, unit) prog" where
  "elst_primitive_mux b =
     bindE (full_header_mux (elst_header b)) (\<lambda>_.
     bindE (write_count (elst_entries b)) (\<lambda>_.
     for_m (elst_entries b) (write_elst_entry (fh_version (elst_header b)))))"

definition elst_validate :: "Elst \<Rightarrow> unit io_result" where
  "elst_validate b =
     require (fh_flags (elst_header b) = 0) (
     require (fh_version (elst_header b) \<le> 1) (
     require (fh_version (elst_header b) = 1 \<longrightarrow> (\<forall>e \<in> set (elst_entries b). elst_entry_segment_duration e \<le> 0xFFFFFFFF
       \<and> sint (elst_entry_media_time e) \<le> 0x7FFFFFFF)) (Ok ())))"

definition elst_box :: "Elst box_type" where
  "elst_box = \<lparr>bt_name = fourcc ''elst'', bt_demux = elst_demux, bt_primitive_size = elst_primitive_size,
     bt_primitive_mux = elst_primitive_mux, bt_validate = elst_validate\<rparr>"

definition elst_wf :: "Elst \<Rightarrow> bool" where
  "elst_wf b \<longleftrightarrow> elst_validate b = Ok () \<and> full_header_ok (fourcc ''elst'') (elst_header b) \<and> length (elst_entries b) \<le> u32_max \<and> (\<forall>e \<in> set (elst_entries b). elst_entry_ok (fh_version (elst_header b)) e)"

lemmas elst_defs = elst_box_def elst_wf_def elst_demux_def elst_primitive_size_def elst_primitive_mux_def elst_validate_def

interpretation elst: box_codec elst_box elst_wf
proof
  fix b assume "elst_wf b"
  then show "\<exists>bs. box_ok elst_box b bs"
    by (cases b) (auto simp: box_ok_def elst_defs run_simps box_simps elst_entry_simps)
qed (simp add: elst_defs)

section \<open>Priorities, dependencies and padding\<close>

lemma read_while_u16:
  "read_while (Suc 0) read_u16 (curs pre (concat (map be16 xs))) = (Ok xs, curs (pre @ concat (map be16 xs)) [])"
  by (rule read_while_codec) (auto simp: run_simps)

record Stdp =
  stdp_header :: full_box_header
  stdp_samples :: "u16 list"

definition stdp_demux :: "box_header \<Rightarrow> bytes \<Rightarrow> Stdp io_result" where
  "stdp_demux header = with_reader (
     bindE (full_header_demux header) (\<lambda>h.
     bindE (read_while 1 read_u16) (\<lambda>samples.
     ret \<lparr>stdp_header = h, stdp_samples = samples\<rparr>)))"

definition stdp_primitive_size :: "Stdp \<Rightarrow> nat" where
  "stdp_primitive_size b = full_header_size (stdp_header b) + length (stdp_samples b) * 2"

definition stdp_primitive_mux :: "Stdp \<Rightarrow> (bytes, io_error, unit) prog" where
  "stdp_primitive_mux b =
     bindE (full_header_mux (stdp_header b)) (\<lambda>_.
     for_m (stdp_samples b) write_u16)"

definition stdp_validate :: "Stdp \<Rightarrow> unit io_result" where
  "stdp_validate b =
     require (fh_version (stdp_header b) = 0) (
     require (fh_flags (stdp_header b) = 0) (Ok ()))"

definition stdp_box :: "Stdp box_type" where
  "stdp_box = \<lparr>bt_name = fourcc ''stdp'', bt_demux = stdp_demux, bt_primitive_size = stdp_primitive_size,
     bt_primitive_mux = stdp_primitive_mux, bt_validate = stdp_validate\<rparr>"

definition stdp_wf :: "Stdp \<Rightarrow> bool" where
  "stdp_wf b \<longleftrightarrow> stdp_validate b = Ok () \<and> full_header_ok (fourcc ''stdp'') (stdp_header b)"

lemmas stdp_defs = stdp_box_def stdp_wf_def stdp_demux_def stdp_primitive_size_def stdp_primitive_mux_def stdp_validate_def

interpretation stdp: box_codec stdp_box stdp_wf
proof
  fix b assume "stdp_wf b"
  then show "\<exists>bs. box_ok stdp_box b bs"
    by (cases b) (auto simp: box_ok_def stdp_defs run_simps box_simps for_m_be16 read_while_u16)
qed (simp add: stdp_defs)

record SdtpEntry =
  sdtp_entry_sample_is_leading :: u8
  sdtp_entry_sample_depends_on :: u8
  sdtp_entry_sample_is_depended_on :: u8
  sdtp_entry_sample_has_redundancy :: u8

definition sdtp_entry_of :: "u8 \<Rightarrow> SdtpEntry" where
  "sdtp_entry_of byte = \<lparr>sdtp_entry_sample_is_leading = drop_bit 6 (byte AND 0b11000000),
     sdtp_entry_sample_depends_on = drop_bit 4 (byte AND 0b00110000),
     sdtp_entry_sample_is_depended_on = drop_bit 2 (byte AND 0b00001100),
     sdtp_entry_sample_has_redundancy = byte AND 0b00000011\<rparr>"

definition sdtp_entry_byte :: "SdtpEntry \<Rightarrow> u8" where
  "sdtp_entry_byte e = push_bit 6 (sdtp_entry_sample_is_leading e) OR push_bit 4 (sdtp_entry_sample_depends_on e)
     OR push_bit 2 (sdtp_entry_sample_is_depended_on e) OR sdtp_entry_sample_has_redundancy e"

text \<open>The four fields have two bits each.\<close>

definition sdtp_entry_ok :: "SdtpEntry \<Rightarrow> bool" where
  "sdtp_entry_ok e \<longleftrightarrow> sdtp_entry_sample_is_leading e < 4 \<and> sdtp_entry_sample_depends_on e < 4
     \<and> sdtp_entry_sample_is_depended_on e < 4 \<and> sdtp_entry_sample_has_redundancy e < 4"

lemma sdtp_masks: "(0b11000000 :: u8) = push_bit 6 (mask 2)" "(0b00110000 :: u8) = push_bit 4 (mask 2)"
    "(0b00001100 :: u8) = push_bit 2 (mask 2)" "(0b00000011 :: u8) = mask 2"
  by (simp_all add: mask_eq_exp_minus_1)

lemma sdtp_fields:
  assumes "a < 4" "b < 4" "c < 4" "d < (4 :: u8)"
  defines "x \<equiv> push_bit 6 a OR push_bit 4 b OR push_bit 2 c OR d"
  shows "drop_bit 6 (x AND 0b11000000) = a" "drop_bit 4 (x AND 0b00110000) = b"
    "drop_bit 2 (x AND 0b00001100) = c" "x AND 0b00000011 = d"
  unfolding x_def sdtp_masks
  by (rule bit_word_eqI; use assms(1-4) in \<open>auto simp: bit_simps dest: bit_small [where k = 2, simplified]\<close>)+

lemma sdtp_entry_roundtrip: "sdtp_entry_ok e \<Longrightarrow> sdtp_entry_of (sdtp_entry_byte e) = e"
  by (cases e) (simp only: sdtp_entry_ok_def sdtp_entry_of_def sdtp_entry_byte_def SdtpEntry.simps sdtp_fields)

lemma read_sdtp:
  assumes "\<forall>e \<in> set xs. sdtp_entry_ok e"
  shows "read_while 0 (bindE read_u8 (\<lambda>byte. ret (sdtp_entry_of byte))) (curs pre (map sdtp_entry_byte xs))
     = (Ok xs, curs (pre @ map sdtp_entry_byte xs) [])"
  using read_while_codec [of xs "bindE read_u8 (\<lambda>byte. ret (sdtp_entry_of byte))" "\<lambda>e. [sdtp_entry_byte e]" 0 pre] assms
  by (simp add: run_simps sdtp_entry_roundtrip)

lemma write_sdtp: "for_m xs (\<lambda>e. write_u8 (sdtp_entry_byte e)) out = (Ok (), out @ map sdtp_entry_byte xs)"
  using for_m_write [of xs "\<lambda>e. write_u8 (sdtp_entry_byte e)" "\<lambda>e. [sdtp_entry_byte e]" out] by (simp add: run_simps)


record Sdtp =
  sdtp_header :: full_box_header
  sdtp_entries :: "SdtpEntry list"

definition sdtp_demux :: "box_header \<Rightarrow> bytes \<Rightarrow> Sdtp io_result" where
  "sdtp_demux header = with_reader (
     bindE (full_header_demux header) (\<lambda>h.
     bindE (read_while 0 (bindE read_u8 (\<lambda>byte. ret (sdtp_entry_of byte)))) (\<lambda>entries.
     ret \<lparr>sdtp_header = h, sdtp_entries = entries\<rparr>)))"

definition sdtp_primitive_size :: "Sdtp \<Rightarrow> nat" where
  "sdtp_primitive_size b = full_header_size (sdtp_header b) + length (sdtp_entries b)"

definition sdtp_primitive_mux :: "Sdtp \<Rightarrow> (bytes, io_error, unit) prog" where
  "sdtp_primitive_mux b =
     bindE (full_header_mux (sdtp_header b)) (\<lambda>_.
     for_m (sdtp_entries b) (\<lambda>e. write_u8 (sdtp_entry_byte e)))"

definition sdtp_validate :: "Sdtp \<Rightarrow> unit io_result" where
  "sdtp_validate b =
     require (fh_version (sdtp_header b) = 0) (
     require (fh_flags (sdtp_header b) = 0) (Ok ()))"

definition sdtp_box :: "Sdtp box_type" where
  "sdtp_box = \<lparr>bt_name = fourcc ''sdtp'', bt_demux = sdtp_demux, bt_primitive_size = sdtp_primitive_size,
     bt_primitive_mux = sdtp_primitive_mux, bt_validate = sdtp_validate\<rparr>"

definition sdtp_wf :: "Sdtp \<Rightarrow> bool" where
  "sdtp_wf b \<longleftrightarrow> sdtp_validate b = Ok () \<and> full_header_ok (fourcc ''sdtp'') (sdtp_header b) \<and> (\<forall>e \<in> set (sdtp_entries b). sdtp_entry_ok e)"

lemmas sdtp_defs = sdtp_box_def sdtp_wf_def sdtp_demux_def sdtp_primitive_size_def sdtp_primitive_mux_def sdtp_validate_def

interpretation sdtp: box_codec sdtp_box sdtp_wf
proof
  fix b assume "sdtp_wf b"
  then show "\<exists>bs. box_ok sdtp_box b bs"
    by (cases b) (auto simp: box_ok_def sdtp_defs run_simps box_simps read_sdtp write_sdtp)
qed (simp add: sdtp_defs)

lemma for_m_u8: "for_m xs write_u8 out = (Ok (), out @ xs)"
  using for_m_write [of xs write_u8 "\<lambda>x. [x]" out] by (simp add: run_simps)

lemma read_u8s: "length xs = n \<Longrightarrow> repeat_m n read_u8 (curs pre xs) = (Ok xs, curs (pre @ xs) [])"
  using u8c.dec_repeat_last [of xs pre] by auto

text \<open>The count of \<^verbatim>\<open>padb\<close> is computed in \<^verbatim>\<open>u32\<close> and underflows for an empty table.\<close>

lemma padb_count:
  assumes "Suc 0 \<le> n" "n < 2147483648"
  shows "Suc (unat (word_of_nat (2 * n - Suc 0) :: u32)) div 2 = n"
proof -
  have "unat (word_of_nat (2 * n - Suc 0) :: u32) = 2 * n - Suc 0"
    using assms by (subst unat_of_nat) (auto intro: mod_less)
  with assms show ?thesis by simp
qed


record Padb =
  padb_header :: full_box_header
  padb_samples :: "u8 list"

definition padb_demux :: "box_header \<Rightarrow> bytes \<Rightarrow> Padb io_result" where
  "padb_demux header = with_reader (
     bindE (full_header_demux header) (\<lambda>h.
     bindE read_u32 (\<lambda>sample_count.
     bindE (repeat_m ((unat sample_count + 1) div 2) read_u8) (\<lambda>samples.
     ret \<lparr>padb_header = h, padb_samples = samples\<rparr>))))"

definition padb_primitive_size :: "Padb \<Rightarrow> nat" where
  "padb_primitive_size b = full_header_size (padb_header b) + 4 + length (padb_samples b)"

definition padb_primitive_mux :: "Padb \<Rightarrow> (bytes, io_error, unit) prog" where
  "padb_primitive_mux b =
     bindE (full_header_mux (padb_header b)) (\<lambda>_.
     bindE (if length (padb_samples b) = 0 \<or> 2 ^ 32 \<le> 2 * length (padb_samples b) then panic else write_u32 (word_of_nat (2 * length (padb_samples b) - 1))) (\<lambda>_.
     for_m (padb_samples b) write_u8))"

definition padb_validate :: "Padb \<Rightarrow> unit io_result" where
  "padb_validate b =
     require (fh_version (padb_header b) = 0) (
     require (fh_flags (padb_header b) = 0) (Ok ()))"

definition padb_box :: "Padb box_type" where
  "padb_box = \<lparr>bt_name = fourcc ''padb'', bt_demux = padb_demux, bt_primitive_size = padb_primitive_size,
     bt_primitive_mux = padb_primitive_mux, bt_validate = padb_validate\<rparr>"

definition padb_wf :: "Padb \<Rightarrow> bool" where
  "padb_wf b \<longleftrightarrow> padb_validate b = Ok () \<and> full_header_ok (fourcc ''padb'') (padb_header b) \<and> 1 \<le> length (padb_samples b) \<and> length (padb_samples b) < 2 ^ 31"

lemmas padb_defs = padb_box_def padb_wf_def padb_demux_def padb_primitive_size_def padb_primitive_mux_def padb_validate_def

interpretation padb: box_codec padb_box padb_wf
proof
  fix b assume "padb_wf b"
  then show "\<exists>bs. box_ok padb_box b bs"
    by (cases b) (auto simp: box_ok_def padb_defs run_simps box_simps for_m_u8 read_u8s padb_count simp del: of_nat_diff of_nat_mult)
qed (simp add: padb_defs)

section \<open>Sample groups\<close>

record SbgpEntry =
  sbgp_entry_sample_count :: u32
  sbgp_entry_group_description_index :: u32

definition read_sbgp_entry :: "(cursor, io_error, SbgpEntry) prog" where
  "read_sbgp_entry =
     bindE read_u32 (\<lambda>sample_count.
     bindE read_u32 (\<lambda>group_description_index.
     ret \<lparr>sbgp_entry_sample_count = sample_count, sbgp_entry_group_description_index = group_description_index\<rparr>))"

definition write_sbgp_entry :: "SbgpEntry \<Rightarrow> (bytes, io_error, unit) prog" where
  "write_sbgp_entry e =
     bindE (write_u32 (sbgp_entry_sample_count e)) (\<lambda>_.
     write_u32 (sbgp_entry_group_description_index e))"

definition sbgp_entry_bytes :: "SbgpEntry \<Rightarrow> bytes" where
  "sbgp_entry_bytes e = be32 (sbgp_entry_sample_count e) @ be32 (sbgp_entry_group_description_index e)"

interpretation sbgp_entry: sized_codec "\<lambda>_. True" sbgp_entry_bytes read_sbgp_entry "\<lambda>_. 8"
  by unfold_locales (auto simp: sbgp_entry_bytes_def read_sbgp_entry_def run_simps)

lemma write_sbgp_entry_all: "for_m xs write_sbgp_entry out = (Ok (), out @ concat (map sbgp_entry_bytes xs))"
  by (rule for_m_write) (simp add: write_sbgp_entry_def sbgp_entry_bytes_def run_simps)

lemmas sbgp_entry_simps = write_sbgp_entry_all sbgp_entry.dec_repeat_last [simplified] sbgp_entry.length_concat_enc [simplified]

record Sbgp =
  sbgp_header :: full_box_header
  sbgp_grouping_type :: "u32 option"
  sbgp_entries :: "SbgpEntry list"

definition sbgp_demux :: "box_header \<Rightarrow> bytes \<Rightarrow> Sbgp io_result" where
  "sbgp_demux header = with_reader (
     bindE (full_header_demux header) (\<lambda>h.
     bindE (if fh_version h = 1 then bindE read_u32 (\<lambda>t. ret (Some t)) else ret None) (\<lambda>grouping_type.
     bindE read_u32 (\<lambda>entry_count.
     bindE (repeat_m (unat entry_count) read_sbgp_entry) (\<lambda>entries.
     ret \<lparr>sbgp_header = h, sbgp_grouping_type = grouping_type, sbgp_entries = entries\<rparr>)))))"

definition sbgp_primitive_size :: "Sbgp \<Rightarrow> nat" where
  "sbgp_primitive_size b = full_header_size (sbgp_header b) + 4 + 4 + length (sbgp_entries b) * 8"

definition sbgp_primitive_mux :: "Sbgp \<Rightarrow> (bytes, io_error, unit) prog" where
  "sbgp_primitive_mux b =
     bindE (full_header_mux (sbgp_header b)) (\<lambda>_.
     bindE (case (sbgp_grouping_type b) of Some t \<Rightarrow> write_u32 t | None \<Rightarrow> ret ()) (\<lambda>_.
     bindE (write_count (sbgp_entries b)) (\<lambda>_.
     for_m (sbgp_entries b) write_sbgp_entry)))"

definition sbgp_validate :: "Sbgp \<Rightarrow> unit io_result" where
  "sbgp_validate b =
     require (fh_version (sbgp_header b) \<le> 1) (
     require (fh_flags (sbgp_header b) = 0) (
     require (\<not> (fh_version (sbgp_header b) = 1 \<and> (sbgp_grouping_type b) = None)) (
     require (\<not> (fh_version (sbgp_header b) = 0 \<and> (sbgp_grouping_type b) \<noteq> None)) (Ok ()))))"

definition sbgp_box :: "Sbgp box_type" where
  "sbgp_box = \<lparr>bt_name = fourcc ''sbgp'', bt_demux = sbgp_demux, bt_primitive_size = sbgp_primitive_size,
     bt_primitive_mux = sbgp_primitive_mux, bt_validate = sbgp_validate\<rparr>"

definition sbgp_wf :: "Sbgp \<Rightarrow> bool" where
  "sbgp_wf b \<longleftrightarrow> sbgp_validate b = Ok () \<and> full_header_ok (fourcc ''sbgp'') (sbgp_header b) \<and> length (sbgp_entries b) \<le> u32_max \<and> fh_version (sbgp_header b) = 1"

lemmas sbgp_defs = sbgp_box_def sbgp_wf_def sbgp_demux_def sbgp_primitive_size_def sbgp_primitive_mux_def sbgp_validate_def

interpretation sbgp: box_codec sbgp_box sbgp_wf
proof
  fix b assume "sbgp_wf b"
  then show "\<exists>bs. box_ok sbgp_box b bs"
    by (cases b) (auto simp: box_ok_def sbgp_defs run_simps box_simps sbgp_entry_simps sum_list_triv)
qed (simp add: sbgp_defs)

section \<open>Sub-samples\<close>

record SubSampleEntry =
  subsample_size :: u32
  subsample_priority :: u8
  subsample_discardable :: u8
  subsample_codec_specific_parameters :: u32

definition read_subsample :: "u8 \<Rightarrow> (cursor, io_error, SubSampleEntry) prog" where
  "read_subsample version =
     bindE (if version = 1 then read_u32 else bindE read_u16 (\<lambda>x. ret (ucast x))) (\<lambda>sz.
     bindE read_u8 (\<lambda>priority.
     bindE read_u8 (\<lambda>discardable.
     bindE read_u32 (\<lambda>parameters.
     ret \<lparr>subsample_size = sz, subsample_priority = priority, subsample_discardable = discardable,
          subsample_codec_specific_parameters = parameters\<rparr>))))"

definition write_subsample :: "u8 \<Rightarrow> SubSampleEntry \<Rightarrow> (bytes, io_error, unit) prog" where
  "write_subsample version e =
     bindE (if version = 1 then write_u32 (subsample_size e) else write_u16 (ucast (subsample_size e))) (\<lambda>_.
     bindE (write_u8 (subsample_priority e)) (\<lambda>_.
     bindE (write_u8 (subsample_discardable e)) (\<lambda>_.
     write_u32 (subsample_codec_specific_parameters e))))"

definition subsample_bytes :: "u8 \<Rightarrow> SubSampleEntry \<Rightarrow> bytes" where
  "subsample_bytes v e = (if v = 1 then be32 (subsample_size e) else be16 (ucast (subsample_size e)))
     @ [subsample_priority e, subsample_discardable e] @ be32 (subsample_codec_specific_parameters e)"

definition subsample_ok :: "u8 \<Rightarrow> SubSampleEntry \<Rightarrow> bool" where
  "subsample_ok v e \<longleftrightarrow> (v = 0 \<longrightarrow> subsample_size e \<le> 0xFFFF)"

lemma u32_in_u16: "x \<le> 0xFFFF \<Longrightarrow> ucast (ucast (x :: u32) :: u16) = x"
  by (rule word_unat_eq_iff [THEN iffD2]) (simp add: unat_ucast_up unat_ucast_small word_le_nat_alt)

interpretation subsample: sized_codec "\<lambda>e. v \<le> 1 \<and> subsample_ok v e" "subsample_bytes v" "read_subsample v"
  "\<lambda>_. if v = 1 then 10 else 8" for v
  by unfold_locales (auto simp: subsample_bytes_def read_subsample_def subsample_ok_def run_simps u32_in_u16 version_01)

record SubsEntry =
  subs_entry_sample_delta :: u32
  subs_entry_subsamples :: "SubSampleEntry list"

definition read_subs_entry :: "u8 \<Rightarrow> (cursor, io_error, SubsEntry) prog" where
  "read_subs_entry version =
     bindE read_u32 (\<lambda>sample_delta.
     bindE read_u16 (\<lambda>subsample_count.
     bindE (repeat_m (unat subsample_count) (read_subsample version)) (\<lambda>subsamples.
     ret \<lparr>subs_entry_sample_delta = sample_delta, subs_entry_subsamples = subsamples\<rparr>)))"

definition write_subs_entry :: "u8 \<Rightarrow> SubsEntry \<Rightarrow> (bytes, io_error, unit) prog" where
  "write_subs_entry version e =
     bindE (write_u32 (subs_entry_sample_delta e)) (\<lambda>_.
     bindE (write_u16 (word_of_nat (length (subs_entry_subsamples e)))) (\<lambda>_.
     for_m (subs_entry_subsamples e) (write_subsample version)))"

definition subs_entry_size :: "u8 \<Rightarrow> SubsEntry \<Rightarrow> nat" where
  "subs_entry_size version e =
     4 + 2 + length (subs_entry_subsamples e) * (if version = 1 then 4 + 1 + 1 + 4 else 2 + 1 + 1 + 4)"

definition subs_entry_bytes :: "u8 \<Rightarrow> SubsEntry \<Rightarrow> bytes" where
  "subs_entry_bytes v e = be32 (subs_entry_sample_delta e) @ be16 (word_of_nat (length (subs_entry_subsamples e)))
     @ concat (map (subsample_bytes v) (subs_entry_subsamples e))"

definition subs_entry_ok :: "u8 \<Rightarrow> SubsEntry \<Rightarrow> bool" where
  "subs_entry_ok v e \<longleftrightarrow> v \<le> 1 \<and> length (subs_entry_subsamples e) \<le> 0xFFFF
     \<and> (\<forall>s \<in> set (subs_entry_subsamples e). subsample_ok v s)"

lemma length_subsamples: "length (concat (map (subsample_bytes v) xs)) = (if v = 1 then 10 else 8) * length xs"
  by (rule length_concat_const) (simp add: subsample_bytes_def)

interpretation subs_entry: sized_codec "subs_entry_ok v" "subs_entry_bytes v" "read_subs_entry v" "subs_entry_size v" for v
proof
  fix e pre post assume e: "subs_entry_ok v e"
  then have "unat (word_of_nat (length (subs_entry_subsamples e)) :: u16) = length (subs_entry_subsamples e)"
    by (simp add: subs_entry_ok_def unat_of_nat)
  with e show "read_subs_entry v (curs pre (subs_entry_bytes v e @ post)) = (Ok e, curs (pre @ subs_entry_bytes v e) post)"
    by (simp add: read_subs_entry_def subs_entry_bytes_def subs_entry_ok_def run_simps subsample.dec_repeat)
qed (simp add: subs_entry_bytes_def subs_entry_size_def length_subsamples)

lemma write_subs_entries: "for_m xs (write_subs_entry v) out = (Ok (), out @ concat (map (subs_entry_bytes v) xs))"
proof (rule for_m_write)
  fix e :: SubsEntry and out
  have "for_m (subs_entry_subsamples e) (write_subsample v) o'
      = (Ok (), o' @ concat (map (subsample_bytes v) (subs_entry_subsamples e)))" for o'
    by (rule for_m_write) (simp add: write_subsample_def subsample_bytes_def run_simps)
  then show "write_subs_entry v e out = (Ok (), out @ subs_entry_bytes v e)"
    by (simp add: write_subs_entry_def subs_entry_bytes_def run_simps)
qed


record Subs =
  subs_header :: full_box_header
  subs_entries :: "SubsEntry list"

definition subs_demux :: "box_header \<Rightarrow> bytes \<Rightarrow> Subs io_result" where
  "subs_demux header = with_reader (
     bindE (full_header_demux header) (\<lambda>h.
     bindE read_u32 (\<lambda>entry_count.
     bindE (repeat_m (unat entry_count) (read_subs_entry (fh_version h))) (\<lambda>entries.
     ret \<lparr>subs_header = h, subs_entries = entries\<rparr>))))"

definition subs_primitive_size :: "Subs \<Rightarrow> nat" where
  "subs_primitive_size b = full_header_size (subs_header b) + 4 + sum_list (map (subs_entry_size (fh_version (subs_header b))) (subs_entries b))"

definition subs_primitive_mux :: "Subs \<Rightarrow> (bytes, io_error, unit) prog" where
  "subs_primitive_mux b =
     bindE (full_header_mux (subs_header b)) (\<lambda>_.
     bindE (write_count (subs_entries b)) (\<lambda>_.
     for_m (subs_entries b) (write_subs_entry (fh_version (subs_header b)))))"

definition subs_validate :: "Subs \<Rightarrow> unit io_result" where
  "subs_validate b =
     require (fh_version (subs_header b) \<le> 1) (
     require (fh_version (subs_header b) = 0 \<longrightarrow> (\<forall>e \<in> set (subs_entries b). \<forall>s \<in> set (subs_entry_subsamples e). subsample_size s \<le> 0xFFFF)) (Ok ()))"

definition subs_box :: "Subs box_type" where
  "subs_box = \<lparr>bt_name = fourcc ''subs'', bt_demux = subs_demux, bt_primitive_size = subs_primitive_size,
     bt_primitive_mux = subs_primitive_mux, bt_validate = subs_validate\<rparr>"

definition subs_wf :: "Subs \<Rightarrow> bool" where
  "subs_wf b \<longleftrightarrow> subs_validate b = Ok () \<and> full_header_ok (fourcc ''subs'') (subs_header b) \<and> length (subs_entries b) \<le> u32_max \<and> (\<forall>e \<in> set (subs_entries b). length (subs_entry_subsamples e) \<le> 0xFFFF)"

lemmas subs_defs = subs_box_def subs_wf_def subs_demux_def subs_primitive_size_def subs_primitive_mux_def subs_validate_def

lemma subs_ok: "subs_wf b \<Longrightarrow> \<exists>bs. box_ok subs_box b bs"
proof -
  assume b: "subs_wf b"
  then have "\<forall>e \<in> set (subs_entries b). subs_entry_ok (fh_version (subs_header b)) e"
    by (auto simp: subs_defs subs_entry_ok_def subsample_ok_def)
  note run = subs_entry.dec_repeat_last [OF this] subs_entry.length_concat_enc [OF this]
  from b run show ?thesis
    by (cases b) (auto simp: box_ok_def subs_defs run_simps box_simps write_subs_entries)
qed

interpretation subs: box_codec subs_box subs_wf
proof
  fix b assume "subs_wf b"
  then show "\<exists>bs. box_ok subs_box b bs"
    by (rule subs_ok)
qed (simp add: subs_defs)

section \<open>Compact sample sizes\<close>

fun stz2_read :: "u8 \<Rightarrow> nat \<Rightarrow> (cursor, io_error, u16 list) prog" where
  "stz2_read field_size 0 = ret []"
| "stz2_read field_size (Suc n) =
     (if field_size = 4 then
        bindE read_u8 (\<lambda>byte.
        if n = 0 then ret [ucast (drop_bit 4 byte)]
        else bindE (stz2_read field_size (n - 1)) (\<lambda>samples.
             ret (ucast (drop_bit 4 byte) # ucast (byte AND 0x0F) # samples)))
      else if field_size = 8 then
        bindE read_u8 (\<lambda>byte. bindE (stz2_read field_size n) (\<lambda>samples. ret (ucast byte # samples)))
      else if field_size = 16 then
        bindE read_u16 (\<lambda>sample. bindE (stz2_read field_size n) (\<lambda>samples. ret (sample # samples)))
      else fail InvalidData)"

fun stz2_write :: "u8 \<Rightarrow> u16 list \<Rightarrow> (bytes, io_error, unit) prog" where
  "stz2_write field_size [] = ret ()"
| "stz2_write field_size (sample # samples) =
     (if field_size = 4 then
        let byte = ucast (push_bit 4 sample) in
        (case samples of
           [] \<Rightarrow> write_u8 byte
         | sample' # rest \<Rightarrow> bindE (write_u8 (byte OR ucast (sample' AND 0x0F))) (\<lambda>_. stz2_write field_size rest))
      else if field_size = 8 then bindE (write_u8 (ucast sample)) (\<lambda>_. stz2_write field_size samples)
      else if field_size = 16 then bindE (write_u16 sample) (\<lambda>_. stz2_write field_size samples)
      else fail InvalidData)"


record Stz2 =
  stz2_header :: full_box_header
  stz2_reserved :: u32
  stz2_field_size :: u8
  stz2_samples :: "u16 list"

definition stz2_demux :: "box_header \<Rightarrow> bytes \<Rightarrow> Stz2 io_result" where
  "stz2_demux header = with_reader (
     bindE (full_header_demux header) (\<lambda>h.
     bindE read_u24 (\<lambda>reserved.
     bindE read_u8 (\<lambda>field_size.
     bindE read_u32 (\<lambda>sample_count.
     bindE (stz2_read field_size (unat sample_count)) (\<lambda>samples.
     ret \<lparr>stz2_header = h, stz2_reserved = reserved, stz2_field_size = field_size, stz2_samples = samples\<rparr>))))))"

definition stz2_primitive_size :: "Stz2 \<Rightarrow> nat" where
  "stz2_primitive_size b = full_header_size (stz2_header b) + 8 + length (stz2_samples b) * unat (stz2_field_size b)"

definition stz2_primitive_mux :: "Stz2 \<Rightarrow> (bytes, io_error, unit) prog" where
  "stz2_primitive_mux b =
     bindE (full_header_mux (stz2_header b)) (\<lambda>_.
     bindE (write_u24 (stz2_reserved b)) (\<lambda>_.
     bindE (write_u8 (stz2_field_size b)) (\<lambda>_.
     bindE (write_count (stz2_samples b)) (\<lambda>_.
     stz2_write (stz2_field_size b) (stz2_samples b)))))"

definition stz2_validate :: "Stz2 \<Rightarrow> unit io_result" where
  "stz2_validate b =
     require (fh_version (stz2_header b) = 0) (
     require ((stz2_reserved b) = 0) (
     require ((stz2_field_size b) = 4 \<or> (stz2_field_size b) = 8 \<or> (stz2_field_size b) = 16) (
     require ((stz2_field_size b) = 4 \<longrightarrow> (\<forall>x \<in> set (stz2_samples b). x \<le> 0x0F)) (
     require ((stz2_field_size b) = 8 \<longrightarrow> (\<forall>x \<in> set (stz2_samples b). x \<le> 0xFF)) (Ok ())))))"

definition stz2_box :: "Stz2 box_type" where
  "stz2_box = \<lparr>bt_name = fourcc ''stz2'', bt_demux = stz2_demux, bt_primitive_size = stz2_primitive_size,
     bt_primitive_mux = stz2_primitive_mux, bt_validate = stz2_validate\<rparr>"

definition stz2_wf :: "Stz2 \<Rightarrow> bool" where
  "stz2_wf b \<longleftrightarrow> stz2_validate b = Ok () \<and> full_header_ok (fourcc ''stz2'') (stz2_header b) \<and> (stz2_samples b) = []"

lemmas stz2_defs = stz2_box_def stz2_wf_def stz2_demux_def stz2_primitive_size_def stz2_primitive_mux_def stz2_validate_def

interpretation stz2: box_codec stz2_box stz2_wf
proof
  fix b assume "stz2_wf b"
  then show "\<exists>bs. box_ok stz2_box b bs"
    by (cases b) (auto simp: box_ok_def stz2_defs run_simps box_simps)
qed (simp add: stz2_defs)

section \<open>Sizes that are not what is written\<close>

lemma nibbles:
  assumes "x \<le> (0x0F :: u16)" "y \<le> (0x0F :: u16)"
  defines "b \<equiv> (ucast (push_bit 4 x) OR ucast (y AND 0x0F) :: u8)"
  shows "ucast (drop_bit 4 b) = x" "ucast (b AND 0x0F) = y" "ucast (drop_bit 4 (ucast (push_bit 4 x) :: u8)) = x"
proof -
  have m: "(0x0F :: u8) = mask 4" "(0x0F :: u16) = mask 4" by (simp_all add: mask_eq_exp_minus_1)
  from assms(1,2) have "x < 2 ^ 4" "y < 2 ^ 4" by (simp_all add: word_le_nat_alt word_less_nat_alt)
  note small = bit_small [OF this(1)] bit_small [OF this(2)]
  show "ucast (drop_bit 4 b) = x" "ucast (b AND 0x0F) = y" "ucast (drop_bit 4 (ucast (push_bit 4 x) :: u8)) = x"
    unfolding b_def m by (rule bit_word_eqI; auto simp: bit_simps dest: small)+
qed

lemma u16_in_u8: "x \<le> 0xFF \<Longrightarrow> ucast (ucast (x :: u16) :: u8) = x"
  by (rule word_unat_eq_iff [THEN iffD2]) (simp add: unat_ucast_up unat_ucast_small word_le_nat_alt)

definition stz2_length :: "u8 \<Rightarrow> nat \<Rightarrow> nat" where
  "stz2_length field_size n = (if field_size = 4 then (n + 1) div 2 else if field_size = 8 then n else 2 * n)"

lemma stz2_samples_roundtrip:
  "\<lbrakk>fs = 4 \<or> fs = 8 \<or> fs = 16; fs = 4 \<longrightarrow> (\<forall>x \<in> set xs. x \<le> 0x0F); fs = 8 \<longrightarrow> (\<forall>x \<in> set xs. x \<le> 0xFF)\<rbrakk> \<Longrightarrow>
   \<exists>bs. (\<forall>out. stz2_write fs xs out = (Ok (), out @ bs)) \<and> length bs = stz2_length fs (length xs)
     \<and> (\<forall>pre post. stz2_read fs (length xs) (curs pre (bs @ post)) = (Ok xs, curs (pre @ bs) post))"
proof (induction fs xs rule: stz2_write.induct)
  case (1 fs)
  then show ?case by (auto simp: run_simps stz2_length_def)
next
  case (2 fs x xs)
  consider "fs = 4" | "fs = 8" | "fs = 16" using "2.prems"(1) by blast
  then show ?case
  proof cases
    case 1
    show ?thesis
    proof (cases xs)
      case Nil
      with 1 "2.prems"(2) show ?thesis
        by (intro exI [of _ "[ucast (push_bit 4 x)]"]) (simp add: run_simps stz2_length_def nibbles [of x 0])
    next
      case (Cons y ys)
      with "2.IH"(1) [of _ y ys] 1 "2.prems" obtain bs where
        bs: "\<And>out. stz2_write fs ys out = (Ok (), out @ bs)" "length bs = stz2_length fs (length ys)"
        "\<And>pre post. stz2_read fs (length ys) (curs pre (bs @ post)) = (Ok ys, curs (pre @ bs) post)" by fastforce
      let ?b = "ucast (push_bit 4 x) OR ucast (y AND 0x0F) :: u8"
      have "ucast (drop_bit 4 ?b) = x" "ucast (?b AND 0x0F) = y" using nibbles [of x y] "2.prems"(2) 1 Cons by auto
      with bs show ?thesis using 1 Cons
        by (intro exI [of _ "?b # bs"]) (simp add: bindE_def ret_def write_run read_u8_curs stz2_length_def)
    qed
  next
    case 2
    with "2.IH"(2) "2.prems" obtain bs where
      "\<And>out. stz2_write fs xs out = (Ok (), out @ bs)" "length bs = stz2_length fs (length xs)"
      "\<And>pre post. stz2_read fs (length xs) (curs pre (bs @ post)) = (Ok xs, curs (pre @ bs) post)" by fastforce
    with 2 "2.prems"(3) show ?thesis
      by (intro exI [of _ "ucast x # bs"]) (simp add: bindE_def ret_def write_run read_u8_curs stz2_length_def u16_in_u8)
  next
    case 3
    with "2.IH"(3) "2.prems" obtain bs where
      "\<And>out. stz2_write fs xs out = (Ok (), out @ bs)" "length bs = stz2_length fs (length xs)"
      "\<And>pre post. stz2_read fs (length xs) (curs pre (bs @ post)) = (Ok xs, curs (pre @ bs) post)" by fastforce
    with 3 show ?thesis
      by (intro exI [of _ "be16 x @ bs"]) (simp add: bindE_def ret_def write_run read_u16_curs stz2_length_def)
  qed
qed

text \<open>C22: two box types announce sizes that do not agree with what they write, so that everything
  behind such a box is misread: a valid \<^verbatim>\<open>sbgp\<close> box of version 0 writes 4 bytes less than it announces, and
  a valid \<^verbatim>\<open>stz2\<close> box with samples announces the number of sample bits (instead of bytes) in its size.\<close>

theorem announced_sizes_wrong:
  "(sbgp_validate b = Ok () \<and> full_header_ok (fourcc ''sbgp'') (sbgp_header b) \<and> fh_version (sbgp_header b) = 0
      \<longrightarrow> (\<exists>bs. sbgp_primitive_mux b [] = (Ok (), bs) \<and> length bs + 4 = sbgp_primitive_size b))
   \<and> (stz2_validate c = Ok () \<and> full_header_ok (fourcc ''stz2'') (stz2_header c) \<and> stz2_samples c \<noteq> []
      \<longrightarrow> (\<exists>bs. stz2_primitive_mux c [] = (Ok (), bs) \<and> length bs < stz2_primitive_size c))"
proof (intro conjI impI)
  assume "sbgp_validate b = Ok () \<and> full_header_ok (fourcc ''sbgp'') (sbgp_header b) \<and> fh_version (sbgp_header b) = 0"
  then show "\<exists>bs. sbgp_primitive_mux b [] = (Ok (), bs) \<and> length bs + 4 = sbgp_primitive_size b"
    by (auto simp: sbgp_defs run_simps box_simps sbgp_entry_simps sum_list_triv)
next
  assume c: "stz2_validate c = Ok () \<and> full_header_ok (fourcc ''stz2'') (stz2_header c) \<and> stz2_samples c \<noteq> []"
  then obtain bs where bs: "\<And>out. stz2_write (stz2_field_size c) (stz2_samples c) out = (Ok (), out @ bs)"
    "length bs = stz2_length (stz2_field_size c) (length (stz2_samples c))"
    using stz2_samples_roundtrip [of "stz2_field_size c" "stz2_samples c"] by (auto simp: stz2_validate_def)
  have "stz2_length (stz2_field_size c) (length (stz2_samples c)) < length (stz2_samples c) * unat (stz2_field_size c)"
    using c by (cases "stz2_samples c") (auto simp: stz2_validate_def stz2_length_def)
  with c bs show "\<exists>bs. stz2_primitive_mux c [] = (Ok (), bs) \<and> length bs < stz2_primitive_size c"
    by (auto simp: stz2_defs run_simps box_simps)
qed

theorem announced_sizes_wrong_witness:
  "(\<exists>bs. sbgp_primitive_mux \<lparr>sbgp_header = full_header_new (fourcc ''sbgp'') 0 0, sbgp_grouping_type = None,
        sbgp_entries = []\<rparr> [] = (Ok (), bs) \<and> length bs + 4 = 12)
   \<and> (\<exists>bs. stz2_primitive_mux \<lparr>stz2_header = full_header_new (fourcc ''stz2'') 0 0, stz2_reserved = 0,
        stz2_field_size = 8, stz2_samples = [5, 6]\<rparr> [] = (Ok (), bs) \<and> length bs < 28)"
  using announced_sizes_wrong [of "\<lparr>sbgp_header = full_header_new (fourcc ''sbgp'') 0 0, sbgp_grouping_type = None,
        sbgp_entries = []\<rparr>" "\<lparr>stz2_header = full_header_new (fourcc ''stz2'') 0 0, stz2_reserved = 0,
        stz2_field_size = 8, stz2_samples = [5, 6]\<rparr>"]
  by (simp add: sbgp_validate_def sbgp_primitive_size_def stz2_validate_def stz2_primitive_size_def
      full_header_new_def full_header_ok_def box_header_new_def full_header_size_def)


end
