(* ===== verification/Mp4_Fragment.thy ===== *)
theory Mp4_Fragment
  imports Mp4_Tables
begin

text \<open>
  The two boxes of a movie fragment whose fields are present or absent according to the flags of their
  header (\<^verbatim>\<open>tfhd.rs\<close>, \<^verbatim>\<open>trun.rs\<close>), with the packed sample flags.
\<close>

section \<open>Optional fields\<close>

definition has_flag :: "full_box_header \<Rightarrow> u32 \<Rightarrow> bool" where
  "has_flag h flag \<longleftrightarrow> fh_flags h AND flag \<noteq> 0"

definition read_if :: "bool \<Rightarrow> (cursor, io_error, 'a) prog \<Rightarrow> (cursor, io_error, 'a option) prog" where
  "read_if present m = (if present then bindE m (\<lambda>x. ret (Some x)) else ret None)"

definition write_opt :: "('a \<Rightarrow> (bytes, io_error, unit) prog) \<Rightarrow> 'a option \<Rightarrow> (bytes, io_error, unit) prog" where
  "write_opt w x = (case x of Some v \<Rightarrow> w v | None \<Rightarrow> ret ())"

definition opt_bytes :: "('a \<Rightarrow> bytes) \<Rightarrow> 'a option \<Rightarrow> bytes" where
  "opt_bytes enc x = (case x of Some v \<Rightarrow> enc v | None \<Rightarrow> [])"

lemma write_opt_run:
  "(\<And>v out. w v out = (Ok (), out @ enc v)) \<Longrightarrow> write_opt w x out = (Ok (), out @ opt_bytes enc x)"
  by (cases x) (simp_all add: write_opt_def opt_bytes_def run_simps)

lemma read_if_run:
  assumes "\<And>v pre post. x = Some v \<Longrightarrow> m (curs pre (enc v @ post)) = (Ok v, curs (pre @ enc v) post)"
    and "present \<longleftrightarrow> x \<noteq> None"
  shows "read_if present m (curs pre (opt_bytes enc x @ post)) = (Ok x, curs (pre @ opt_bytes enc x) post)"
    "read_if present m (curs pre (opt_bytes enc x)) = (Ok x, curs (pre @ opt_bytes enc x) [])"
proof -
  show gen: "read_if present m (curs pre (opt_bytes enc x @ post)) = (Ok x, curs (pre @ opt_bytes enc x) post)" for post
    using assms by (cases x) (auto simp: read_if_def opt_bytes_def run_simps)
  show "read_if present m (curs pre (opt_bytes enc x)) = (Ok x, curs (pre @ opt_bytes enc x) [])"
    using gen [of "[]"] by simp
qed

lemma length_opt_bytes: "(\<And>v. length (enc v) = n) \<Longrightarrow> length (opt_bytes enc x) = (if x = None then 0 else n)"
  by (cases x) (simp_all add: opt_bytes_def)

section \<open>Sample flags\<close>

record TrunSampleFlag =
  tsf_reserved :: u8
  tsf_is_leading :: u8
  tsf_sample_depends_on :: u8
  tsf_sample_is_depended_on :: u8
  tsf_sample_has_redundancy :: u8
  tsf_sample_padding_value :: u8
  tsf_sample_is_non_sync_sample :: bool
  tsf_sample_degradation_priority :: u16

definition tsf_validate :: "TrunSampleFlag \<Rightarrow> unit io_result" where
  "tsf_validate f =
     require (tsf_reserved f = 0) (
     require (tsf_is_leading f \<le> 2) (
     require (tsf_sample_depends_on f \<le> 2) (
     require (tsf_sample_is_depended_on f \<le> 2) (
     require (tsf_sample_has_redundancy f \<le> 2) (
     require (tsf_sample_padding_value f \<le> 7) (Ok ()))))))"

definition tsf_from :: "u32 \<Rightarrow> TrunSampleFlag" where
  "tsf_from value = \<lparr>tsf_reserved = ucast (drop_bit 28 value),
     tsf_is_leading = ucast (drop_bit 26 value AND 0b11),
     tsf_sample_depends_on = ucast (drop_bit 24 value AND 0b11),
     tsf_sample_is_depended_on = ucast (drop_bit 22 value AND 0b11),
     tsf_sample_has_redundancy = ucast (drop_bit 20 value AND 0b11),
     tsf_sample_padding_value = ucast (drop_bit 17 value AND 0b111),
     tsf_sample_is_non_sync_sample = (drop_bit 16 value AND 0b1 \<noteq> 0),
     tsf_sample_degradation_priority = ucast (value AND 0xFFFF)\<rparr>"

definition tsf_into :: "TrunSampleFlag \<Rightarrow> u32" where
  "tsf_into f = push_bit 28 (ucast (tsf_reserved f)) OR push_bit 26 (ucast (tsf_is_leading f))
     OR push_bit 24 (ucast (tsf_sample_depends_on f)) OR push_bit 22 (ucast (tsf_sample_is_depended_on f))
     OR push_bit 20 (ucast (tsf_sample_has_redundancy f)) OR push_bit 17 (ucast (tsf_sample_padding_value f))
     OR push_bit 16 (of_bool (tsf_sample_is_non_sync_sample f)) OR ucast (tsf_sample_degradation_priority f)"

lemma flag_masks: "(0b11 :: u32) = mask 2" "(0b111 :: u32) = mask 3" "(0xFFFF :: u32) = mask 16"
  by (simp_all add: mask_eq_exp_minus_1)

lemma tsf_fields:
  fixes r a b c d p :: u8 and n :: bool and g :: u16
  assumes "r < 2 ^ 4" "a < 2 ^ 2" "b < 2 ^ 2" "c < 2 ^ 2" "d < 2 ^ 2" "p < 2 ^ 3"
  defines "w \<equiv> (push_bit 28 (ucast r) OR push_bit 26 (ucast a) OR push_bit 24 (ucast b) OR push_bit 22 (ucast c)
     OR push_bit 20 (ucast d) OR push_bit 17 (ucast p) OR push_bit 16 (of_bool n) OR ucast g :: u32)"
  shows "ucast (drop_bit 28 w) = r" "ucast (drop_bit 26 w AND 0b11) = a" "ucast (drop_bit 24 w AND 0b11) = b"
    "ucast (drop_bit 22 w AND 0b11) = c" "ucast (drop_bit 20 w AND 0b11) = d" "ucast (drop_bit 17 w AND 0b111) = p"
    "(drop_bit 16 w AND 0b1 \<noteq> 0) = n" "ucast (w AND 0xFFFF) = g"
proof -
  note small = bit_small [OF assms(1)] bit_small [OF assms(2)] bit_small [OF assms(3)] bit_small [OF assms(4)]
    bit_small [OF assms(5)] bit_small [OF assms(6)] bit_imp_le_length [of g]
  show "ucast (drop_bit 28 w) = r" "ucast (drop_bit 26 w AND 0b11) = a" "ucast (drop_bit 24 w AND 0b11) = b"
    "ucast (drop_bit 22 w AND 0b11) = c" "ucast (drop_bit 20 w AND 0b11) = d" "ucast (drop_bit 17 w AND 0b111) = p"
    "ucast (w AND 0xFFFF) = g"
    unfolding w_def flag_masks by (rule bit_word_eqI; auto simp: bit_simps dest: small)+
  have "drop_bit 16 w AND 0b1 \<noteq> 0 \<longleftrightarrow> bit w 16"
    by (simp add: and_one_eq odd_iff_mod_2_eq_one bit_iff_odd_drop_bit)
  also have "bit w 16 \<longleftrightarrow> n" unfolding w_def by (auto simp: bit_simps dest: small)
  finally show "(drop_bit 16 w AND 0b1 \<noteq> 0) = n" .
qed

lemma tsf_roundtrip:
  assumes "tsf_validate f = Ok ()"
  shows "tsf_from (tsf_into f) = f"
proof -
  have "tsf_reserved f < 2 ^ 4" "tsf_is_leading f < 2 ^ 2" "tsf_sample_depends_on f < 2 ^ 2"
    "tsf_sample_is_depended_on f < 2 ^ 2" "tsf_sample_has_redundancy f < 2 ^ 2" "tsf_sample_padding_value f < 2 ^ 3"
    using assms by (auto simp: tsf_validate_def word_le_nat_alt word_less_nat_alt)
  note fields = tsf_fields [OF this, where n = "tsf_sample_is_non_sync_sample f"
      and g = "tsf_sample_degradation_priority f"]
  show ?thesis unfolding tsf_from_def tsf_into_def by (simp only: fields) simp
qed


section \<open>Track fragment header\<close>

definition BASE_DATA_OFFSET_FLAG :: u32 where "BASE_DATA_OFFSET_FLAG = 0x000001"
definition SAMPLE_DESCRIPTION_INDEX_FLAG :: u32 where "SAMPLE_DESCRIPTION_INDEX_FLAG = 0x000002"
definition DEFAULT_SAMPLE_DURATION_FLAG :: u32 where "DEFAULT_SAMPLE_DURATION_FLAG = 0x000008"
definition DEFAULT_SAMPLE_SIZE_FLAG :: u32 where "DEFAULT_SAMPLE_SIZE_FLAG = 0x000010"
definition DEFAULT_SAMPLE_FLAGS_FLAG :: u32 where "DEFAULT_SAMPLE_FLAGS_FLAG = 0x000020"
definition DEFAULT_BASE_IS_MOOF_FLAG :: u32 where "DEFAULT_BASE_IS_MOOF_FLAG = 0x020000"

definition flag_if :: "'a option \<Rightarrow> u32 \<Rightarrow> u32" where
  "flag_if x flag = (if x \<noteq> None then flag else 0)"


record Tfhd =
  tfhd_header :: full_box_header
  tfhd_track_id :: u32
  tfhd_base_data_offset :: "u64 option"
  tfhd_sample_description_index :: "u32 option"
  tfhd_default_sample_duration :: "u32 option"
  tfhd_default_sample_size :: "u32 option"
  tfhd_default_sample_flags :: "TrunSampleFlag option"

definition tfhd_new :: "u32 \<Rightarrow> u64 option \<Rightarrow> u32 option \<Rightarrow> u32 option \<Rightarrow> u32 option \<Rightarrow> TrunSampleFlag option \<Rightarrow> Tfhd" where
  "tfhd_new track_id base_data_offset sample_description_index
     default_sample_duration default_sample_size default_sample_flags = 
     (let flags = flag_if base_data_offset BASE_DATA_OFFSET_FLAG
        OR flag_if sample_description_index SAMPLE_DESCRIPTION_INDEX_FLAG
        OR flag_if default_sample_duration DEFAULT_SAMPLE_DURATION_FLAG
        OR flag_if default_sample_size DEFAULT_SAMPLE_SIZE_FLAG
        OR flag_if default_sample_flags DEFAULT_SAMPLE_FLAGS_FLAG OR DEFAULT_BASE_IS_MOOF_FLAG
      in \<lparr>tfhd_header = full_header_new (fourcc ''tfhd'') 0 flags, tfhd_track_id = track_id,
          tfhd_base_data_offset = base_data_offset, tfhd_sample_description_index = sample_description_index,
          tfhd_default_sample_duration = default_sample_duration, tfhd_default_sample_size = default_sample_size,
          tfhd_default_sample_flags = default_sample_flags\<rparr>)"

definition tfhd_demux :: "box_header \<Rightarrow> bytes \<Rightarrow> Tfhd io_result" where
  "tfhd_demux header = with_reader (
     bindE (full_header_demux header) (\<lambda>h.
     bindE read_u32 (\<lambda>track_id.
     bindE (read_if (has_flag h BASE_DATA_OFFSET_FLAG) read_u64) (\<lambda>base_data_offset.
     bindE (read_if (has_flag h SAMPLE_DESCRIPTION_INDEX_FLAG) read_u32) (\<lambda>sample_description_index.
     bindE (read_if (has_flag h DEFAULT_SAMPLE_DURATION_FLAG) read_u32) (\<lambda>default_sample_duration.
     bindE (read_if (has_flag h DEFAULT_SAMPLE_SIZE_FLAG) read_u32) (\<lambda>default_sample_size.
     bindE (read_if (has_flag h DEFAULT_SAMPLE_FLAGS_FLAG) (bindE read_u32 (\<lambda>x. ret (tsf_from x)))) (\<lambda>default_sample_flags.
     ret \<lparr>tfhd_header = h, tfhd_track_id = track_id, tfhd_base_data_offset = base_data_offset, tfhd_sample_description_index = sample_description_index, tfhd_default_sample_duration = default_sample_duration, tfhd_default_sample_size = default_sample_size, tfhd_default_sample_flags = default_sample_flags\<rparr>))))))))"

definition tfhd_primitive_size :: "Tfhd \<Rightarrow> nat" where
  "tfhd_primitive_size b = full_header_size (tfhd_header b) + 4 + (if (tfhd_base_data_offset b) = None then 0 else 8) + (if (tfhd_sample_description_index b) = None then 0 else 4) + (if (tfhd_default_sample_duration b) = None then 0 else 4) + (if (tfhd_default_sample_size b) = None then 0 else 4) + (if (tfhd_default_sample_flags b) = None then 0 else 4)"

definition tfhd_primitive_mux :: "Tfhd \<Rightarrow> (bytes, io_error, unit) prog" where
  "tfhd_primitive_mux b =
     bindE (full_header_mux (tfhd_header b)) (\<lambda>_.
     bindE (write_u32 (tfhd_track_id b)) (\<lambda>_.
     bindE (write_opt write_u64 (tfhd_base_data_offset b)) (\<lambda>_.
     bindE (write_opt write_u32 (tfhd_sample_description_index b)) (\<lambda>_.
     bindE (write_opt write_u32 (tfhd_default_sample_duration b)) (\<lambda>_.
     bindE (write_opt write_u32 (tfhd_default_sample_size b)) (\<lambda>_.
     write_opt (\<lambda>x. write_u32 (tsf_into x)) (tfhd_default_sample_flags b)))))))"

definition tfhd_validate :: "Tfhd \<Rightarrow> unit io_result" where
  "tfhd_validate b =
     require (fh_version (tfhd_header b) = 0) (
     require (\<not> (has_flag (tfhd_header b) BASE_DATA_OFFSET_FLAG \<and> (tfhd_base_data_offset b) = None)) (
     require (\<not> (\<not> has_flag (tfhd_header b) BASE_DATA_OFFSET_FLAG \<and> (tfhd_base_data_offset b) \<noteq> None)) (
     require (\<not> (has_flag (tfhd_header b) SAMPLE_DESCRIPTION_INDEX_FLAG \<and> (tfhd_sample_description_index b) = None)) (
     require (\<not> (\<not> has_flag (tfhd_header b) SAMPLE_DESCRIPTION_INDEX_FLAG \<and> (tfhd_sample_description_index b) \<noteq> None)) (
     require (\<not> (has_flag (tfhd_header b) DEFAULT_SAMPLE_DURATION_FLAG \<and> (tfhd_default_sample_duration b) = None)) (
     require (\<not> (\<not> has_flag (tfhd_header b) DEFAULT_SAMPLE_DURATION_FLAG \<and> (tfhd_default_sample_duration b) \<noteq> None)) (
     require (\<not> (has_flag (tfhd_header b) DEFAULT_SAMPLE_SIZE_FLAG \<and> (tfhd_default_sample_size b) = None)) (
     require (\<not> (\<not> has_flag (tfhd_header b) DEFAULT_SAMPLE_SIZE_FLAG \<and> (tfhd_default_sample_size b) \<noteq> None)) (
     require (\<not> (has_flag (tfhd_header b) DEFAULT_SAMPLE_FLAGS_FLAG \<and> (tfhd_default_sample_flags b) = None)) (
     require (\<not> (\<not> has_flag (tfhd_header b) DEFAULT_SAMPLE_FLAGS_FLAG \<and> (tfhd_default_sample_flags b) \<noteq> None)) (
     require (case_option True (\<lambda>f. tsf_validate f = Ok ()) (tfhd_default_sample_flags b)) (Ok ()))))))))))))"

definition tfhd_box :: "Tfhd box_type" where
  "tfhd_box = \<lparr>bt_name = fourcc ''tfhd'', bt_demux = tfhd_demux, bt_primitive_size = tfhd_primitive_size,
     bt_primitive_mux = tfhd_primitive_mux, bt_validate = tfhd_validate\<rparr>"

definition tfhd_wf :: "Tfhd \<Rightarrow> bool" where
  "tfhd_wf b \<longleftrightarrow> tfhd_validate b = Ok () \<and> full_header_ok (fourcc ''tfhd'') (tfhd_header b)"

lemmas tfhd_defs = tfhd_box_def tfhd_wf_def tfhd_demux_def tfhd_primitive_size_def tfhd_primitive_mux_def tfhd_validate_def

abbreviation tsf_bytes :: "TrunSampleFlag \<Rightarrow> bytes" where
  "tsf_bytes f \<equiv> be32 (tsf_into f)"

lemma read_opts:
  "present = (x \<noteq> None) \<Longrightarrow> read_if present read_u64 (curs pre (opt_bytes be64 x @ post))
     = (Ok x, curs (pre @ opt_bytes be64 x) post)"
  "present = (y \<noteq> None) \<Longrightarrow> read_if present read_u32 (curs pre (opt_bytes be32 y @ post))
     = (Ok y, curs (pre @ opt_bytes be32 y) post)"
  "present = (y \<noteq> None) \<Longrightarrow> read_if present read_u32 (curs pre (opt_bytes be32 y))
     = (Ok y, curs (pre @ opt_bytes be32 y) [])"
  "present = (z \<noteq> None) \<Longrightarrow> case_option True (\<lambda>f. tsf_validate f = Ok ()) z \<Longrightarrow>
     read_if present (bindE read_u32 (\<lambda>x. ret (tsf_from x))) (curs pre (opt_bytes tsf_bytes z @ post))
     = (Ok z, curs (pre @ opt_bytes tsf_bytes z) post)"
  "present = (z \<noteq> None) \<Longrightarrow> case_option True (\<lambda>f. tsf_validate f = Ok ()) z \<Longrightarrow>
     read_if present (bindE read_u32 (\<lambda>x. ret (tsf_from x))) (curs pre (opt_bytes tsf_bytes z))
     = (Ok z, curs (pre @ opt_bytes tsf_bytes z) [])"
  by (rule read_if_run; simp add: run_simps tsf_roundtrip)+

lemma write_opts:
  "write_opt write_u64 x out = (Ok (), out @ opt_bytes be64 x)"
  "write_opt write_u32 y out = (Ok (), out @ opt_bytes be32 y)"
  "write_opt (\<lambda>f. write_u32 (tsf_into f)) z out = (Ok (), out @ opt_bytes tsf_bytes z)"
  by (rule write_opt_run; simp add: run_simps)+

lemma length_opts:
  "length (opt_bytes be64 x) = (if x = None then 0 else 8)"
  "length (opt_bytes be32 y) = (if y = None then 0 else 4)"
  "length (opt_bytes tsf_bytes z) = (if z = None then 0 else 4)"
  by (simp_all add: length_opt_bytes)

lemmas opt_simps = read_opts write_opts length_opts

lemma tfhd_present:
  assumes "tfhd_validate b = Ok ()"
  shows "has_flag (tfhd_header b) BASE_DATA_OFFSET_FLAG = (tfhd_base_data_offset b \<noteq> None)"
    "has_flag (tfhd_header b) SAMPLE_DESCRIPTION_INDEX_FLAG = (tfhd_sample_description_index b \<noteq> None)"
    "has_flag (tfhd_header b) DEFAULT_SAMPLE_DURATION_FLAG = (tfhd_default_sample_duration b \<noteq> None)"
    "has_flag (tfhd_header b) DEFAULT_SAMPLE_SIZE_FLAG = (tfhd_default_sample_size b \<noteq> None)"
    "has_flag (tfhd_header b) DEFAULT_SAMPLE_FLAGS_FLAG = (tfhd_default_sample_flags b \<noteq> None)"
    "case_option True (\<lambda>f. tsf_validate f = Ok ()) (tfhd_default_sample_flags b)"
  using assms [unfolded tfhd_validate_def require_iff] by satx+

lemma tfhd_ok:
  assumes "tfhd_wf b"
  shows "\<exists>bs. box_ok tfhd_box b bs"
proof -
  have v: "tfhd_validate b = Ok ()" and h: "full_header_ok (fourcc ''tfhd'') (tfhd_header b)"
    using assms by (simp_all add: tfhd_wf_def)
  note present = tfhd_present [OF v]
  define bs where "bs = full_header_bytes (tfhd_header b) @ be32 (tfhd_track_id b)
     @ opt_bytes be64 (tfhd_base_data_offset b) @ opt_bytes be32 (tfhd_sample_description_index b)
     @ opt_bytes be32 (tfhd_default_sample_duration b) @ opt_bytes be32 (tfhd_default_sample_size b)
     @ opt_bytes tsf_bytes (tfhd_default_sample_flags b)"
  have "tfhd_primitive_mux b out = (Ok (), out @ bs)" for out
    using h by (simp add: tfhd_primitive_mux_def bs_def run_simps box_simps write_opts)
  moreover have "length bs = tfhd_primitive_size b"
    by (simp only: bs_def length_append length_opts length_be length_full_header_bytes tfhd_primitive_size_def add.assoc)
  moreover have "tfhd_demux \<lparr>bh_box_type = fourcc ''tfhd''\<rparr> bs = Ok b"
    unfolding tfhd_demux_def bs_def
    by (simp add: run_simps box_simps h read_opts present)
  ultimately show ?thesis using v by (auto simp: box_ok_def tfhd_box_def)
qed

interpretation tfhd: box_codec tfhd_box tfhd_wf
proof
  fix b assume "tfhd_wf b"
  then show "\<exists>bs. box_ok tfhd_box b bs"
    by (rule tfhd_ok)
qed (simp add: tfhd_defs)

section \<open>Track fragment run\<close>

definition FLAG_DATA_OFFSET :: u32 where "FLAG_DATA_OFFSET = 0x000001"
definition FLAG_FIRST_SAMPLE_FLAGS :: u32 where "FLAG_FIRST_SAMPLE_FLAGS = 0x000004"
definition FLAG_SAMPLE_DURATION :: u32 where "FLAG_SAMPLE_DURATION = 0x000100"
definition FLAG_SAMPLE_SIZE :: u32 where "FLAG_SAMPLE_SIZE = 0x000200"
definition FLAG_SAMPLE_FLAGS :: u32 where "FLAG_SAMPLE_FLAGS = 0x000400"
definition FLAG_SAMPLE_COMPOSITION_TIME_OFFSET :: u32 where "FLAG_SAMPLE_COMPOSITION_TIME_OFFSET = 0x000800"

record TrunSample =
  ts_duration :: "u32 option"
  ts_size :: "u32 option"
  ts_flags :: "TrunSampleFlag option"
  ts_composition_time_offset :: "i64 option"

definition read_trun_offset :: "u8 \<Rightarrow> (cursor, io_error, i64) prog" where
  "read_trun_offset version =
     (if version = 1 then bindE read_u32 (\<lambda>x. ret (i64_of_i32 x)) else bindE read_u32 (\<lambda>x. ret (ucast x)))"

definition read_trun_sample :: "full_box_header \<Rightarrow> (cursor, io_error, TrunSample) prog" where
  "read_trun_sample h =
     bindE (read_if (has_flag h FLAG_SAMPLE_DURATION) read_u32) (\<lambda>duration.
     bindE (read_if (has_flag h FLAG_SAMPLE_SIZE) read_u32) (\<lambda>sz.
     bindE (read_if (has_flag h FLAG_SAMPLE_FLAGS) (bindE read_u32 (\<lambda>x. ret (tsf_from x)))) (\<lambda>flags.
     bindE (read_if (has_flag h FLAG_SAMPLE_COMPOSITION_TIME_OFFSET)
              (read_trun_offset (fh_version h))) (\<lambda>composition_time_offset.
     ret \<lparr>ts_duration = duration, ts_size = sz, ts_flags = flags,
          ts_composition_time_offset = composition_time_offset\<rparr>))))"

definition trun_sample_size :: "full_box_header \<Rightarrow> nat" where
  "trun_sample_size h = (if has_flag h FLAG_SAMPLE_DURATION then 4 else 0)
     + (if has_flag h FLAG_SAMPLE_SIZE then 4 else 0) + (if has_flag h FLAG_SAMPLE_FLAGS then 4 else 0)
     + (if has_flag h FLAG_SAMPLE_COMPOSITION_TIME_OFFSET then 4 else 0)"

definition write_trun_sample :: "full_box_header \<Rightarrow> TrunSample \<Rightarrow> (bytes, io_error, unit) prog" where
  "write_trun_sample h sample =
     bindE (write_opt write_u32 (ts_duration sample)) (\<lambda>_.
     bindE (write_opt write_u32 (ts_size sample)) (\<lambda>_.
     bindE (write_opt (\<lambda>x. write_u32 (tsf_into x)) (ts_flags sample)) (\<lambda>_.
     write_opt (\<lambda>x. if fh_version h = 1 then write_u32 (ucast x) else write_u32 (ucast x))
       (ts_composition_time_offset sample))))"


record Trun =
  trun_header :: full_box_header
  trun_data_offset :: "i32 option"
  trun_first_sample_flags :: "TrunSampleFlag option"
  trun_samples :: "TrunSample list"

definition trun_new :: "TrunSample list \<Rightarrow> TrunSampleFlag option \<Rightarrow> Trun" where
  "trun_new samples first_sample_flags = 
     (let flags = (case samples of
            [] \<Rightarrow> FLAG_DATA_OFFSET
          | s # _ \<Rightarrow> FLAG_DATA_OFFSET OR flag_if (ts_duration s) FLAG_SAMPLE_DURATION
              OR flag_if (ts_size s) FLAG_SAMPLE_SIZE OR flag_if (ts_flags s) FLAG_SAMPLE_FLAGS
              OR flag_if (ts_composition_time_offset s) FLAG_SAMPLE_COMPOSITION_TIME_OFFSET);
          version = (if \<exists>s \<in> set samples. case_option False (\<lambda>x. sint x < 0) (ts_composition_time_offset s)
                     then 1 else 0)
      in \<lparr>trun_header = full_header_new (fourcc ''trun'') version flags, trun_data_offset = Some 0,
          trun_first_sample_flags = first_sample_flags, trun_samples = samples\<rparr>)"

definition trun_demux :: "box_header \<Rightarrow> bytes \<Rightarrow> Trun io_result" where
  "trun_demux header = with_reader (
     bindE (full_header_demux header) (\<lambda>h.
     bindE read_u32 (\<lambda>sample_count.
     bindE (read_if (has_flag h FLAG_DATA_OFFSET) read_u32) (\<lambda>data_offset.
     bindE (read_if (has_flag h FLAG_FIRST_SAMPLE_FLAGS) (bindE read_u32 (\<lambda>x. ret (tsf_from x)))) (\<lambda>first_sample_flags.
     bindE (repeat_m (unat sample_count) (read_trun_sample h)) (\<lambda>samples.
     ret \<lparr>trun_header = h, trun_data_offset = data_offset, trun_first_sample_flags = first_sample_flags, trun_samples = samples\<rparr>))))))"

definition trun_primitive_size :: "Trun \<Rightarrow> nat" where
  "trun_primitive_size b = full_header_size (trun_header b) + 4 + (if has_flag (trun_header b) FLAG_DATA_OFFSET then 4 else 0)
     + (if has_flag (trun_header b) FLAG_FIRST_SAMPLE_FLAGS then 4 else 0)
     + sum_list (map (\<lambda>_. trun_sample_size (trun_header b)) (trun_samples b))"

definition trun_primitive_mux :: "Trun \<Rightarrow> (bytes, io_error, unit) prog" where
  "trun_primitive_mux b =
     bindE (full_header_mux (trun_header b)) (\<lambda>_.
     bindE (write_count (trun_samples b)) (\<lambda>_.
     bindE (write_opt write_u32 (trun_data_offset b)) (\<lambda>_.
     bindE (write_opt (\<lambda>x. write_u32 (tsf_into x)) (trun_first_sample_flags b)) (\<lambda>_.
     for_m (trun_samples b) (write_trun_sample (trun_header b))))))"

definition trun_validate :: "Trun \<Rightarrow> unit io_result" where
  "trun_validate b =
     require (fh_version (trun_header b) \<le> 1) (
     require (\<not> (\<not> has_flag (trun_header b) FLAG_SAMPLE_COMPOSITION_TIME_OFFSET \<and> fh_version (trun_header b) = 1)) (
     require (\<not> (has_flag (trun_header b) FLAG_DATA_OFFSET \<and> (trun_data_offset b) = None)) (
     require (\<not> (\<not> has_flag (trun_header b) FLAG_DATA_OFFSET \<and> (trun_data_offset b) \<noteq> None)) (
     require (\<not> (has_flag (trun_header b) FLAG_FIRST_SAMPLE_FLAGS \<and> (trun_first_sample_flags b) = None)) (
     require (\<not> (\<not> has_flag (trun_header b) FLAG_FIRST_SAMPLE_FLAGS \<and> (trun_first_sample_flags b) \<noteq> None)) (
     require (\<not> (has_flag (trun_header b) FLAG_SAMPLE_DURATION \<and> (\<exists>s \<in> set (trun_samples b). ts_duration s = None))) (
     require (\<not> (\<not> has_flag (trun_header b) FLAG_SAMPLE_DURATION \<and> (\<exists>s \<in> set (trun_samples b). ts_duration s \<noteq> None))) (
     require (\<not> (has_flag (trun_header b) FLAG_SAMPLE_SIZE \<and> (\<exists>s \<in> set (trun_samples b). ts_size s = None))) (
     require (\<not> (\<not> has_flag (trun_header b) FLAG_SAMPLE_SIZE \<and> (\<exists>s \<in> set (trun_samples b). ts_size s \<noteq> None))) (
     require (\<not> (has_flag (trun_header b) FLAG_SAMPLE_FLAGS \<and> (\<exists>s \<in> set (trun_samples b). ts_flags s = None))) (
     require (\<not> (\<not> has_flag (trun_header b) FLAG_SAMPLE_FLAGS \<and> (\<exists>s \<in> set (trun_samples b). ts_flags s \<noteq> None))) (
     require (\<not> (has_flag (trun_header b) FLAG_SAMPLE_COMPOSITION_TIME_OFFSET \<and> (\<exists>s \<in> set (trun_samples b). ts_composition_time_offset s = None))) (
     require (\<not> (\<not> has_flag (trun_header b) FLAG_SAMPLE_COMPOSITION_TIME_OFFSET \<and> (\<exists>s \<in> set (trun_samples b). ts_composition_time_offset s \<noteq> None))) (
     require (has_flag (trun_header b) FLAG_SAMPLE_COMPOSITION_TIME_OFFSET \<longrightarrow>
       \<not> (fh_version (trun_header b) = 1 \<and> (\<exists>s \<in> set (trun_samples b). sint (the (ts_composition_time_offset s)) > 0x7FFFFFFF))) (
     require (has_flag (trun_header b) FLAG_SAMPLE_COMPOSITION_TIME_OFFSET \<longrightarrow>
       \<not> (fh_version (trun_header b) = 0 \<and> (\<exists>s \<in> set (trun_samples b). sint (the (ts_composition_time_offset s)) > 0xFFFFFFFF))) (
     require (case_option True (\<lambda>f. tsf_validate f = Ok ()) (trun_first_sample_flags b)) (
     require (\<forall>s \<in> set (trun_samples b). case_option True (\<lambda>f. tsf_validate f = Ok ()) (ts_flags s)) (Ok ()))))))))))))))))))"

definition trun_box :: "Trun box_type" where
  "trun_box = \<lparr>bt_name = fourcc ''trun'', bt_demux = trun_demux, bt_primitive_size = trun_primitive_size,
     bt_primitive_mux = trun_primitive_mux, bt_validate = trun_validate\<rparr>"

text \<open>The composition offset fits the 32 bits it is stored in; \<^verbatim>\<open>validate\<close> checks the upper limit only.\<close>

definition trun_offset_ok :: "u8 \<Rightarrow> TrunSample \<Rightarrow> bool" where
  "trun_offset_ok v s \<longleftrightarrow> (\<forall>x. ts_composition_time_offset s = Some x \<longrightarrow>
     (if v = 1 then i64_of_i32 (ucast x) = x else x \<le> 0xFFFFFFFF))"

definition trun_wf :: "Trun \<Rightarrow> bool" where
  "trun_wf b \<longleftrightarrow> trun_validate b = Ok () \<and> full_header_ok (fourcc ''trun'') (trun_header b) \<and> length (trun_samples b) \<le> u32_max \<and> (\<forall>s \<in> set (trun_samples b). trun_offset_ok (fh_version (trun_header b)) s)"

lemmas trun_defs = trun_box_def trun_wf_def trun_demux_def trun_primitive_size_def trun_primitive_mux_def trun_validate_def

abbreviation offset_bytes :: "i64 \<Rightarrow> bytes" where
  "offset_bytes x \<equiv> be32 (ucast x)"

definition trun_sample_bytes :: "TrunSample \<Rightarrow> bytes" where
  "trun_sample_bytes s = opt_bytes be32 (ts_duration s) @ opt_bytes be32 (ts_size s)
     @ opt_bytes tsf_bytes (ts_flags s) @ opt_bytes offset_bytes (ts_composition_time_offset s)"

text \<open>A sample that has the fields its run announces.\<close>

definition trun_sample_ok :: "full_box_header \<Rightarrow> TrunSample \<Rightarrow> bool" where
  "trun_sample_ok h s \<longleftrightarrow> has_flag h FLAG_SAMPLE_DURATION = (ts_duration s \<noteq> None)
     \<and> has_flag h FLAG_SAMPLE_SIZE = (ts_size s \<noteq> None) \<and> has_flag h FLAG_SAMPLE_FLAGS = (ts_flags s \<noteq> None)
     \<and> has_flag h FLAG_SAMPLE_COMPOSITION_TIME_OFFSET = (ts_composition_time_offset s \<noteq> None)
     \<and> case_option True (\<lambda>f. tsf_validate f = Ok ()) (ts_flags s) \<and> trun_offset_ok (fh_version h) s"

lemma length_offset_bytes: "length (opt_bytes offset_bytes x) = (if x = None then 0 else 4)"
  by (simp add: length_opt_bytes)

interpretation trun_sample: sized_codec "trun_sample_ok h" trun_sample_bytes "read_trun_sample h"
  "\<lambda>_. trun_sample_size h" for h
proof
  fix s pre post assume s: "trun_sample_ok h s"
  have off: "read_if (has_flag h FLAG_SAMPLE_COMPOSITION_TIME_OFFSET) (read_trun_offset (fh_version h))
         (curs p (opt_bytes offset_bytes (ts_composition_time_offset s) @ q))
      = (Ok (ts_composition_time_offset s), curs (p @ opt_bytes offset_bytes (ts_composition_time_offset s)) q)" for p q
    by (rule read_if_run) (use s in \<open>auto simp: trun_sample_ok_def trun_offset_ok_def read_trun_offset_def run_simps box_simps\<close>)
  have "has_flag h FLAG_SAMPLE_DURATION = (ts_duration s \<noteq> None)" "has_flag h FLAG_SAMPLE_SIZE = (ts_size s \<noteq> None)"
    "has_flag h FLAG_SAMPLE_FLAGS = (ts_flags s \<noteq> None)"
    "case_option True (\<lambda>f. tsf_validate f = Ok ()) (ts_flags s)"
    using s by (auto simp: trun_sample_ok_def)
  then show "read_trun_sample h (curs pre (trun_sample_bytes s @ post)) = (Ok s, curs (pre @ trun_sample_bytes s) post)"
    by (simp add: read_trun_sample_def trun_sample_bytes_def run_simps read_opts off)
next
  fix s assume "trun_sample_ok h s"
  then show "length (trun_sample_bytes s) = trun_sample_size h"
    by (simp add: trun_sample_bytes_def trun_sample_size_def trun_sample_ok_def length_opts length_offset_bytes)
qed

lemma write_trun_samples:
  "for_m xs (write_trun_sample h) out = (Ok (), out @ concat (map trun_sample_bytes xs))"
proof (rule for_m_write)
  fix s :: TrunSample and out
  have "write_opt (\<lambda>x. if fh_version h = 1 then write_u32 (ucast x) else write_u32 (ucast x)) z o'
      = (Ok (), o' @ opt_bytes offset_bytes z)" for z o'
    by (rule write_opt_run) (simp add: run_simps)
  then show "write_trun_sample h s out = (Ok (), out @ trun_sample_bytes s)"
    by (simp add: write_trun_sample_def trun_sample_bytes_def bindE_def write_opts)
qed

lemma flag_present:
  "\<lbrakk>\<not> (A \<and> (\<exists>s \<in> S. f s = None)); \<not> (\<not> A \<and> (\<exists>s \<in> S. f s \<noteq> None)); s \<in> S\<rbrakk> \<Longrightarrow> A = (f s \<noteq> None)"
  by auto

lemma trun_present:
  assumes "trun_validate b = Ok ()" "\<forall>s \<in> set (trun_samples b). trun_offset_ok (fh_version (trun_header b)) s"
  shows "has_flag (trun_header b) FLAG_DATA_OFFSET = (trun_data_offset b \<noteq> None)"
    "has_flag (trun_header b) FLAG_FIRST_SAMPLE_FLAGS = (trun_first_sample_flags b \<noteq> None)"
    "case_option True (\<lambda>f. tsf_validate f = Ok ()) (trun_first_sample_flags b)"
    "\<forall>s \<in> set (trun_samples b). trun_sample_ok (trun_header b) s"
proof -
  note v = assms(1) [unfolded trun_validate_def require_iff]
  show "has_flag (trun_header b) FLAG_DATA_OFFSET = (trun_data_offset b \<noteq> None)"
    "has_flag (trun_header b) FLAG_FIRST_SAMPLE_FLAGS = (trun_first_sample_flags b \<noteq> None)"
    "case_option True (\<lambda>f. tsf_validate f = Ok ()) (trun_first_sample_flags b)" using v by satx+
  show "\<forall>s \<in> set (trun_samples b). trun_sample_ok (trun_header b) s"
  proof
    fix s assume s: "s \<in> set (trun_samples b)"
    have "\<not> (has_flag (trun_header b) FLAG_SAMPLE_DURATION \<and> (\<exists>s \<in> set (trun_samples b). ts_duration s = None))"
      "\<not> (\<not> has_flag (trun_header b) FLAG_SAMPLE_DURATION \<and> (\<exists>s \<in> set (trun_samples b). ts_duration s \<noteq> None))" using v by satx+
    then have p1: "has_flag (trun_header b) FLAG_SAMPLE_DURATION = (ts_duration s \<noteq> None)" using s by (rule flag_present)
    have "\<not> (has_flag (trun_header b) FLAG_SAMPLE_SIZE \<and> (\<exists>s \<in> set (trun_samples b). ts_size s = None))"
      "\<not> (\<not> has_flag (trun_header b) FLAG_SAMPLE_SIZE \<and> (\<exists>s \<in> set (trun_samples b). ts_size s \<noteq> None))" using v by satx+
    then have p2: "has_flag (trun_header b) FLAG_SAMPLE_SIZE = (ts_size s \<noteq> None)" using s by (rule flag_present)
    have "\<not> (has_flag (trun_header b) FLAG_SAMPLE_FLAGS \<and> (\<exists>s \<in> set (trun_samples b). ts_flags s = None))"
      "\<not> (\<not> has_flag (trun_header b) FLAG_SAMPLE_FLAGS \<and> (\<exists>s \<in> set (trun_samples b). ts_flags s \<noteq> None))" using v by satx+
    then have p3: "has_flag (trun_header b) FLAG_SAMPLE_FLAGS = (ts_flags s \<noteq> None)" using s by (rule flag_present)
    have "\<not> (has_flag (trun_header b) FLAG_SAMPLE_COMPOSITION_TIME_OFFSET \<and> (\<exists>s \<in> set (trun_samples b). ts_composition_time_offset s = None))"
      "\<not> (\<not> has_flag (trun_header b) FLAG_SAMPLE_COMPOSITION_TIME_OFFSET \<and> (\<exists>s \<in> set (trun_samples b). ts_composition_time_offset s \<noteq> None))" using v by satx+
    then have p4: "has_flag (trun_header b) FLAG_SAMPLE_COMPOSITION_TIME_OFFSET = (ts_composition_time_offset s \<noteq> None)" using s by (rule flag_present)
    have "\<forall>s \<in> set (trun_samples b). case_option True (\<lambda>f. tsf_validate f = Ok ()) (ts_flags s)" using v by satx
    then show "trun_sample_ok (trun_header b) s" using assms(2) s p1 p2 p3 p4 by (simp add: trun_sample_ok_def)
  qed
qed

lemma trun_ok:
  assumes "trun_wf b"
  shows "\<exists>bs. box_ok trun_box b bs"
proof -
  have v: "trun_validate b = Ok ()" and h: "full_header_ok (fourcc ''trun'') (trun_header b)"
    and n: "length (trun_samples b) \<le> u32_max"
    and off: "\<forall>s \<in> set (trun_samples b). trun_offset_ok (fh_version (trun_header b)) s"
    using assms by (simp_all add: trun_wf_def)
  note present = trun_present [OF v off]
  define bs where "bs = full_header_bytes (trun_header b) @ be32 (word_of_nat (length (trun_samples b)))
     @ opt_bytes be32 (trun_data_offset b) @ opt_bytes tsf_bytes (trun_first_sample_flags b)
     @ concat (map trun_sample_bytes (trun_samples b))"
  have "trun_primitive_mux b out = (Ok (), out @ bs)" for out
    using h by (simp add: trun_primitive_mux_def bs_def run_simps box_simps write_opts write_trun_samples)
  moreover have "length bs = trun_primitive_size b"
    using present(1,2) trun_sample.length_concat_enc [OF present(4)]
    by (simp add: bs_def length_opts length_full_header_bytes trun_primitive_size_def)
  moreover have "trun_demux \<lparr>bh_box_type = fourcc ''trun''\<rparr> bs = Ok b"
    unfolding trun_demux_def bs_def
    by (simp add: run_simps box_simps h n read_opts present trun_sample.dec_repeat_last)
  ultimately show ?thesis using v by (auto simp: box_ok_def trun_box_def)
qed

interpretation trun: box_codec trun_box trun_wf
proof
  fix b assume "trun_wf b"
  then show "\<exists>bs. box_ok trun_box b bs"
    by (rule trun_ok)
qed (simp add: trun_defs)

section \<open>What the constructors promise\<close>

text \<open>Samples that all have the optional fields of the first one.\<close>

definition uniform_samples :: "TrunSample list \<Rightarrow> bool" where
  "uniform_samples samples \<longleftrightarrow> (\<forall>s \<in> set samples. \<forall>t \<in> set samples.
     (ts_duration s = None) = (ts_duration t = None) \<and> (ts_size s = None) = (ts_size t = None)
     \<and> (ts_flags s = None) = (ts_flags t = None)
     \<and> (ts_composition_time_offset s = None) = (ts_composition_time_offset t = None))"

definition valid_sample :: "TrunSample \<Rightarrow> bool" where
  "valid_sample s \<longleftrightarrow> case_option True (\<lambda>f. tsf_validate f = Ok ()) (ts_flags s)
     \<and> case_option True (\<lambda>x. - (2 ^ 31) \<le> sint x \<and> sint x < 2 ^ 31) (ts_composition_time_offset s)"

lemmas trun_flag_defs = FLAG_DATA_OFFSET_def FLAG_FIRST_SAMPLE_FLAGS_def FLAG_SAMPLE_DURATION_def
  FLAG_SAMPLE_SIZE_def FLAG_SAMPLE_FLAGS_def FLAG_SAMPLE_COMPOSITION_TIME_OFFSET_def

text \<open>The flags that \<^verbatim>\<open>Trun::new\<close> puts together can be read off one by one.\<close>

lemma trun_new_flags:
  fixes a b c d :: bool
  defines "f \<equiv> FLAG_DATA_OFFSET OR (if a then FLAG_SAMPLE_DURATION else 0) OR (if b then FLAG_SAMPLE_SIZE else 0)
     OR (if c then FLAG_SAMPLE_FLAGS else 0) OR (if d then FLAG_SAMPLE_COMPOSITION_TIME_OFFSET else 0)"
  shows "f AND FLAG_DATA_OFFSET \<noteq> 0" "f AND FLAG_FIRST_SAMPLE_FLAGS = 0" "(f AND FLAG_SAMPLE_DURATION \<noteq> 0) = a"
    "(f AND FLAG_SAMPLE_SIZE \<noteq> 0) = b" "(f AND FLAG_SAMPLE_FLAGS \<noteq> 0) = c"
    "(f AND FLAG_SAMPLE_COMPOSITION_TIME_OFFSET \<noteq> 0) = d" "f < 0x1000000"
  by (cases a; cases b; cases c; cases d; simp add: f_def trun_flag_defs)+

lemma sign_extend_ucast:
  assumes "- (2 ^ 31) \<le> sint x" "sint x < 2 ^ 31"
  shows "i64_of_i32 (ucast (x :: i64)) = x"
  unfolding i64_of_i32_def
proof (rule bit_word_eqI)
  fix n assume n: "n < LENGTH(64)"
  have "signed_take_bit 31 (sint x) = sint x" using assms by (simp add: signed_take_bit_int_eq_self)
  then have "bit (sint x) n = bit (sint x) (min n 31)"
    using bit_signed_take_bit_iff [of 31 "sint x" n] by (simp add: min.commute)
  moreover have "bit (sint x) m = bit x m" if "m < 64" for m
    using that by (cases "m = 63") (simp_all add: bit_sint_iff)
  ultimately have "bit x n = bit x (min n 31)" using n by simp
  with n show "bit (scast (ucast x :: i32) :: i64) n = bit x n"
    by (cases "n < 31") (simp_all add: bit_simps min_def)
qed

lemma sint_nonneg_u32:
  assumes "0 \<le> sint x" "sint x < 2 ^ 31"
  shows "(x :: i64) \<le> 0xFFFFFFFF"
proof -
  have "sint x < 2 ^ 64" using assms by simp
  then have "uint x = sint x" using assms by (simp add: uint_sint take_bit_int_eq_self)
  then show ?thesis using assms by (simp add: word_le_def)
qed

lemma trun_new_header:
  fixes samples first
  assumes u: "uniform_samples samples" and s: "s \<in> set samples"
  defines "h \<equiv> trun_header (trun_new samples first)"
  shows "has_flag h FLAG_SAMPLE_DURATION = (ts_duration s \<noteq> None)"
    "has_flag h FLAG_SAMPLE_SIZE = (ts_size s \<noteq> None)"
    "has_flag h FLAG_SAMPLE_FLAGS = (ts_flags s \<noteq> None)"
    "has_flag h FLAG_SAMPLE_COMPOSITION_TIME_OFFSET = (ts_composition_time_offset s \<noteq> None)"
proof -
  obtain t ts where samples: "samples = t # ts" using s by (cases samples) auto
  have "(ts_duration s = None) = (ts_duration t = None)" "(ts_size s = None) = (ts_size t = None)"
    "(ts_flags s = None) = (ts_flags t = None)"
    "(ts_composition_time_offset s = None) = (ts_composition_time_offset t = None)"
    using u s samples by (auto simp: uniform_samples_def)
  then show "has_flag h FLAG_SAMPLE_DURATION = (ts_duration s \<noteq> None)"
    "has_flag h FLAG_SAMPLE_SIZE = (ts_size s \<noteq> None)"
    "has_flag h FLAG_SAMPLE_FLAGS = (ts_flags s \<noteq> None)"
    "has_flag h FLAG_SAMPLE_COMPOSITION_TIME_OFFSET = (ts_composition_time_offset s \<noteq> None)"
    by (simp_all add: h_def trun_new_def samples full_header_new_def has_flag_def flag_if_def trun_new_flags)
qed

lemma trun_new_base:
  fixes samples first
  defines "b \<equiv> trun_new samples first"
  shows "has_flag (trun_header b) FLAG_DATA_OFFSET" "\<not> has_flag (trun_header b) FLAG_FIRST_SAMPLE_FLAGS"
    "full_header_ok (fourcc ''trun'') (trun_header b)" "trun_samples b = samples" "trun_data_offset b = Some 0"
    "trun_first_sample_flags b = first"
    "fh_version (trun_header b) = (if \<exists>s \<in> set samples. case_option False (\<lambda>x. sint x < 0) (ts_composition_time_offset s)
       then 1 else 0)"
proof -
  show "has_flag (trun_header b) FLAG_DATA_OFFSET" "\<not> has_flag (trun_header b) FLAG_FIRST_SAMPLE_FLAGS"
    "full_header_ok (fourcc ''trun'') (trun_header b)"
    using trun_new_flags(1,2,7) [of False False False False]
    by (cases samples; simp add: b_def trun_new_def full_header_new_def has_flag_def full_header_ok_def
        box_header_new_def flag_if_def trun_new_flags)+
qed (simp_all add: b_def trun_new_def full_header_new_def)

lemma trun_new_wf:
  assumes u: "uniform_samples samples" and v: "\<forall>s \<in> set samples. valid_sample s" and n: "length samples \<le> u32_max"
  shows "trun_wf (trun_new samples None)"
proof -
  let ?b = "trun_new samples None"
  let ?h = "trun_header ?b"
  note base = trun_new_base [of samples None] and hd = trun_new_header [OF u, of _ None]
  have off: "trun_offset_ok (fh_version ?h) s" if "s \<in> set samples" for s
    using v that unfolding trun_offset_ok_def base(7)
    by (fastforce simp: valid_sample_def not_less intro!: sign_extend_ucast sint_nonneg_u32 split: option.splits)
  have v1: "has_flag ?h FLAG_SAMPLE_COMPOSITION_TIME_OFFSET" if "fh_version ?h = 1"
    using that hd(4) unfolding base(7) by (fastforce split: if_splits option.splits)
  have some: "sint (the (ts_composition_time_offset s)) \<le> 0x7FFFFFFF"
    if "s \<in> set samples" "has_flag ?h FLAG_SAMPLE_COMPOSITION_TIME_OFFSET" for s
    using v that hd(4) by (fastforce simp: valid_sample_def)
  have over: "\<not> (\<exists>s \<in> set samples. sint (the (ts_composition_time_offset s)) > 0x7FFFFFFF)"
      "\<not> (\<exists>s \<in> set samples. sint (the (ts_composition_time_offset s)) > 0xFFFFFFFF)"
    if "has_flag ?h FLAG_SAMPLE_COMPOSITION_TIME_OFFSET"
    using some [OF _ that] by fastforce+
  have "fh_version ?h \<le> 1" by (simp add: base(7))
  then have "trun_validate ?b = Ok ()"
    unfolding trun_validate_def require_iff base(4-6)
    using base(1,2) hd v v1 over by (intro conjI) (auto simp: valid_sample_def)
  then show ?thesis using base off n by (simp add: trun_wf_def)
qed

text \<open>With at most \<open>2 ^ 32\<close> samples a run is small enough for its size field.\<close>

lemma trun_size_bound:
  assumes "length (trun_samples b) \<le> u32_max"
  shows "box_size trun_box b < 2 ^ 64"
proof -
  have "trun_sample_size (trun_header b) \<le> 16" by (simp add: trun_sample_size_def)
  then have "length (trun_samples b) * trun_sample_size (trun_header b) \<le> u32_max * 16"
    using assms by (rule mult_le_mono [rotated])
  then show ?thesis
    by (simp add: box_size_def Let_def trun_box_def trun_primitive_size_def full_header_size_def sum_list_triv u32_max_def)
qed

text \<open>A run built by \<^verbatim>\<open>Trun::new\<close> from samples that agree on which fields they have is written with
  exactly its announced size and read back unchanged from between any other bytes, negative composition
  offsets included; but a run built with flags for its first sample is refused by its own validation,
  because \<^verbatim>\<open>new\<close> does not set the flag that announces them, and nothing is written.\<close>

theorem trun_new_outcome:
  assumes "uniform_samples samples" "\<forall>s \<in> set samples. valid_sample s" "length samples \<le> u32_max"
  shows "(\<exists>bs hdr data. (\<forall>out. box_mux trun_box (trun_new samples None) out = (Ok (), out @ bs))
       \<and> length bs = box_size trun_box (trun_new samples None)
       \<and> (\<forall>pre post. box_header_demux (curs pre (bs @ post)) = (Ok (hdr, data), curs (pre @ bs) post))
       \<and> bh_box_type hdr = fourcc ''trun'' \<and> trun_demux hdr data = Ok (trun_new samples None))
     \<and> box_mux trun_box (trun_new samples (Some first)) out = (Err InvalidData, out)"
proof
  have "box_size trun_box (trun_new samples None) < 2 ^ 64"
    using assms(3) by (intro trun_size_bound) (simp add: trun_new_base)
  from trun.mux_demux [OF trun_new_wf [OF assms] this]
  show "\<exists>bs hdr data. (\<forall>out. box_mux trun_box (trun_new samples None) out = (Ok (), out @ bs))
       \<and> length bs = box_size trun_box (trun_new samples None)
       \<and> (\<forall>pre post. box_header_demux (curs pre (bs @ post)) = (Ok (hdr, data), curs (pre @ bs) post))
       \<and> bh_box_type hdr = fourcc ''trun'' \<and> trun_demux hdr data = Ok (trun_new samples None)"
    by (simp add: trun_box_def)
  have v: "trun_validate (trun_new samples (Some first)) \<noteq> Ok ()"
    unfolding trun_validate_def require_iff using trun_new_base [of samples "Some first"] by simp
  have "trun_validate b = Ok () \<or> trun_validate b = Err InvalidData" for b
    unfolding trun_validate_def require_def by simp
  then have "trun_validate (trun_new samples (Some first)) = Err InvalidData" using v by blast
  then show "box_mux trun_box (trun_new samples (Some first)) out = (Err InvalidData, out)"
    by (simp add: box_mux_def trun_box_def run_simps lift_result_def bindE_def)
qed

definition example_samples :: "TrunSample list" where
  "example_samples = [\<lparr>ts_duration = Some 10, ts_size = Some 7, ts_flags = None, ts_composition_time_offset = Some (- 5)\<rparr>,
     \<lparr>ts_duration = Some 11, ts_size = Some 9, ts_flags = None, ts_composition_time_offset = Some 3\<rparr>]"

theorem trun_new_outcome_witness:
  "(\<exists>bs hdr data. box_mux trun_box (trun_new example_samples None) [] = (Ok (), bs) \<and> length bs = 44
      \<and> trun_demux hdr data = Ok (trun_new example_samples None))
   \<and> box_mux trun_box (trun_new example_samples (Some (tsf_from 0))) [] = (Err InvalidData, [])"
proof -
  have ex: "uniform_samples example_samples" "\<forall>s \<in> set example_samples. valid_sample s"
      "length example_samples \<le> u32_max"
    by (simp_all add: example_samples_def uniform_samples_def valid_sample_def u32_max_def)
  have "box_size trun_box (trun_new example_samples None) = 44"
    by (simp add: box_size_def Let_def trun_box_def trun_primitive_size_def full_header_size_def trun_new_def
        example_samples_def trun_sample_size_def has_flag_def full_header_new_def flag_if_def trun_flag_defs u32_max_def)
  then show ?thesis
    using trun_new_outcome [OF ex, of "tsf_from 0" "[]"] by fastforce
qed

end
