(* ===== verification/Bit_Format.thy ===== *)
theory Bit_Format
  imports Exp_Golomb
begin

text \<open>
  Formats that mix bit fields, whole bytes and Exp-Golomb numbers: the readers of
  \<^verbatim>\<open>byteorder::ReadBytesExt\<close> on a \<^verbatim>\<open>BitReader\<close>, and a small calculus in which a parser is run against
  the list of bits it consumes and a printer against the list of bits it produces. The decoder
  configuration records and parameter sets of the video codecs are verified with it.
\<close>

named_theorems reads_intros \<open>rules that run a bit parser on its layout\<close>
named_theorems writes_intros \<open>rules that run a bit printer\<close>

section \<open>Whole integers from a bit reader\<close>

text \<open>\<^verbatim>\<open>Read::read_exact\<close>: calls of \<^verbatim>\<open>read\<close> until the buffer is full; a call that delivers nothing is the
  end of the input. Each other call delivers at least one byte, so as many rounds as bytes are enough.\<close>

fun br_read_exact_loop :: "nat \<Rightarrow> nat \<Rightarrow> (bit_reader, io_error, bytes) prog" where
  "br_read_exact_loop 0 n = (if n = 0 then ret [] else out_of_fuel)"
| "br_read_exact_loop (Suc fuel) n =
     (if n = 0 then ret []
      else bindE (br_read n) (\<lambda>xs.
        if xs = [] then fail UnexpectedEof
        else bindE (br_read_exact_loop fuel (n - length xs)) (\<lambda>ys. ret (xs @ ys))))"

definition br_read_exact :: "nat \<Rightarrow> (bit_reader, io_error, bytes) prog" where
  "br_read_exact n = br_read_exact_loop n n"

definition br_read_u8 :: "(bit_reader, io_error, u8) prog" where
  "br_read_u8 = bindE (br_read_exact 1) (\<lambda>bs. ret (hd bs))"

definition br_read_u16 :: "(bit_reader, io_error, u16) prog" where
  "br_read_u16 = bindE (br_read_exact 2) (\<lambda>bs. ret (of_be bs))"

definition br_read_u32 :: "(bit_reader, io_error, u32) prog" where
  "br_read_u32 = bindE (br_read_exact 4) (\<lambda>bs. ret (of_be bs))"

definition br_read_u32_le :: "(bit_reader, io_error, u32) prog" where
  "br_read_u32_le = bindE (br_read_exact 4) (\<lambda>bs. ret (of_be (rev bs)))"

definition br_read_u48_le :: "(bit_reader, io_error, u64) prog" where
  "br_read_u48_le = bindE (br_read_exact 6) (\<lambda>bs. ret (of_be (rev bs)))"

definition le48 :: "u64 \<Rightarrow> bytes" where "le48 w = rev (be_bytes 6 w)"

text \<open>\<^verbatim>\<open>read_bits(n)? as u8\<close> and \<^verbatim>\<open>as u16\<close>.\<close>

definition read_field8 :: "nat \<Rightarrow> (bit_reader, io_error, u8) prog" where
  "read_field8 n = bindE (read_bits n) (\<lambda>x. ret (ucast x))"

definition read_field16 :: "nat \<Rightarrow> (bit_reader, io_error, u16) prog" where
  "read_field16 n = bindE (read_bits n) (\<lambda>x. ret (ucast x))"

section \<open>The buffer behind a bit reader\<close>

definition holds_data :: "(bit_reader, 'e, 'a) prog \<Rightarrow> bool" where
  "holds_data m \<longleftrightarrow> (\<forall>r. cur_data (br_data (snd (m r))) = cur_data (br_data r))"

lemma holds_dataD: "holds_data m \<Longrightarrow> m r = (x, r') \<Longrightarrow> cur_data (br_data r') = cur_data (br_data r)"
  by (metis holds_data_def snd_conv)

lemma holds_data_pure: "holds_data (ret x)" "holds_data (fail e)" "holds_data panic" "holds_data out_of_fuel"
  by (simp_all add: holds_data_def run_simps)

lemma holds_data_bind: "holds_data m \<Longrightarrow> (\<And>x. holds_data (f x)) \<Longrightarrow> holds_data (bindE m f)"
  by (auto simp: holds_data_def bindE_def split: prod.splits result.splits) (metis snd_conv)+

lemma holds_data_read_bit: "holds_data read_bit"
  by (auto simp: holds_data_def read_bit_def update_byte_def on_br_data_def bindE_def read_exact_def
      split: prod.splits result.splits if_splits)

lemma holds_data_read_loop: "holds_data (read_bits_loop read_bit n acc)"
  by (induction n arbitrary: acc) (auto intro: holds_data_bind holds_data_pure holds_data_read_bit)

lemma holds_data_zeros_loop: "holds_data (leading_zeros_loop fuel z)"
  by (induction fuel arbitrary: z) (auto intro!: holds_data_bind holds_data_pure holds_data_read_bit)

lemma holds_data_golomb: "holds_data read_exp_golomb" "holds_data read_signed_exp_golomb"
proof -
  have "holds_data (bindE (leading_zeros_loop fuel 0) (\<lambda>leading_zeros. bindE (read_bits_loop read_bit leading_zeros 1)
       (\<lambda>result. if result = 0 then panic else ret (result - 1 :: u64))))" for fuel
    by (auto intro!: holds_data_bind holds_data_pure holds_data_read_loop holds_data_zeros_loop)
  then show eg: "holds_data read_exp_golomb" by (simp add: holds_data_def read_exp_golomb_def)
  show "holds_data read_signed_exp_golomb"
    unfolding read_signed_exp_golomb_def by (auto intro!: holds_data_bind holds_data_pure eg)
qed

lemma holds_data_repeat: "holds_data m \<Longrightarrow> holds_data (repeat_m n m)"
  by (induction n) (auto intro: holds_data_bind holds_data_pure)

lemma holds_data_br_read: "holds_data (br_read n)"
  using holds_data_repeat [OF holds_data_read_loop, of n 8 "0 :: u8"]
  by (auto simp: holds_data_def br_read_def on_br_data_def cursor_read_def Let_def split: prod.splits)

section \<open>Running a parser\<close>

definition reads_bits :: "(bit_reader, io_error, 'a) prog \<Rightarrow> bool list \<Rightarrow> 'a \<Rightarrow> bool" where
  "reads_bits m bits x \<longleftrightarrow> (\<forall>r rest. br_wf r \<and> br_bits r = bits @ rest \<longrightarrow>
     (\<exists>r'. m r = (Ok x, r') \<and> br_wf r' \<and> br_bits r' = rest \<and> cur_data (br_data r') = cur_data (br_data r)))"

lemma reads_bitsD:
  "reads_bits m bits x \<Longrightarrow> br_wf r \<Longrightarrow> br_bits r = bits @ rest \<Longrightarrow>
   \<exists>r'. m r = (Ok x, r') \<and> br_wf r' \<and> br_bits r' = rest \<and> cur_data (br_data r') = cur_data (br_data r)"
  unfolding reads_bits_def by blast

lemma reads_bind [reads_intros]:
  assumes "reads_bits m b1 x" "reads_bits (f x) b2 y"
  shows "reads_bits (bindE m f) (b1 @ b2) y"
  unfolding reads_bits_def
proof (intro allI impI)
  fix r rest assume r: "br_wf r \<and> br_bits r = (b1 @ b2) @ rest"
  with reads_bitsD [OF assms(1), of r "b2 @ rest"] obtain r1 where
    "m r = (Ok x, r1)" "br_wf r1" "br_bits r1 = b2 @ rest" "cur_data (br_data r1) = cur_data (br_data r)" by auto
  with reads_bitsD [OF assms(2), of r1 rest]
  show "\<exists>r'. bindE m f r = (Ok y, r') \<and> br_wf r' \<and> br_bits r' = rest \<and> cur_data (br_data r') = cur_data (br_data r)"
    by (auto simp: bindE_def)
qed

lemma reads_ret [reads_intros]: "reads_bits (ret x) [] x"
  by (simp add: reads_bits_def ret_def)

text \<open>The last step of a parser, and a step that consumes nothing.\<close>

lemma reads_bind_last: "reads_bits m b x \<Longrightarrow> reads_bits (f x) [] y \<Longrightarrow> reads_bits (bindE m f) b y"
  using reads_bind [of m b x f "[]" y] by simp

lemma reads_map: "reads_bits m b x \<Longrightarrow> g x = y \<Longrightarrow> reads_bits (bindE m (\<lambda>x. ret (g x))) b y"
  using reads_bind_last [of m b x "\<lambda>x. ret (g x)" y] reads_ret [of y] by auto

lemma reads_if [reads_intros]:
  "(c \<Longrightarrow> reads_bits m b x) \<Longrightarrow> (\<not> c \<Longrightarrow> reads_bits m' b' x) \<Longrightarrow>
   reads_bits (if c then m else m') (if c then b else b') x"
  by simp

lemma reads_read_bit [reads_intros]: "reads_bits read_bit [b] b"
  unfolding reads_bits_def using read_bit_Cons holds_dataD [OF holds_data_read_bit] by fastforce

lemma reads_field [reads_intros]:
  assumes "n \<le> 64" "take_bit n v = v"
  shows "reads_bits (read_bits n) (to_bits n v) v"
proof -
  have "holds_data (read_bits n)" by (simp add: read_bits_def holds_data_read_loop)
  then show ?thesis
    unfolding reads_bits_def using read_bits_run [OF _ assms(1), of _ v] assms(2) holds_dataD
    by fastforce
qed

text \<open>Skipped bits: the position that \<^verbatim>\<open>seek_bits\<close> returns is ignored.\<close>

lemma reads_skip_bind [reads_intros]:
  assumes "k = int (length b1)" "reads_bits m b2 y"
  shows "reads_bits (bindE (seek_bits k) (\<lambda>_. m)) (b1 @ b2) y"
  unfolding reads_bits_def
proof (intro allI impI)
  fix r rest assume r: "br_wf r \<and> br_bits r = (b1 @ b2) @ rest"
  let ?T = "int (br_position r) + k"
  have len: "length (br_bits r) = 8 * length (cur_data (br_data r)) - br_position r"
    using r br_bits_position [of r] by simp
  have hi: "?T \<le> 8 * int (length (cur_data (br_data r)))"
  proof (cases "br_position r \<le> 8 * length (cur_data (br_data r))")
    case True
    with len r assms(1) show ?thesis by simp
  next
    case False
    with r show ?thesis by (auto simp: br_position_def br_wf_def split: if_splits)
  qed
  from seek_bits_run [OF _ refl _ hi] r assms(1) obtain r1 where
    r1: "seek_bits k r = (Ok (nat ?T), r1)" "br_wf r1" "br_position r1 = nat ?T"
    "cur_data (br_data r1) = cur_data (br_data r)" by auto
  have "br_bits r1 = drop (length b1) (br_bits r)"
    using br_bits_position [OF r1(2)] br_bits_position [of r] r r1(3,4) assms(1)
    by (simp add: nat_add_distrib add.commute)
  with r have "br_bits r1 = b2 @ rest" by simp
  with reads_bitsD [OF assms(2) r1(2)] r1
  show "\<exists>r'. bindE (seek_bits k) (\<lambda>_. m) r = (Ok y, r') \<and> br_wf r' \<and> br_bits r' = rest
      \<and> cur_data (br_data r') = cur_data (br_data r)"
    by (auto simp: bindE_def)
qed

lemma reads_exact [reads_intros]:
  assumes "n = length xs"
  shows "reads_bits (br_read_exact n) (bits_of xs) xs"
  unfolding reads_bits_def
proof (intro allI impI)
  fix r rest assume r: "br_wf r \<and> br_bits r = bits_of xs @ rest"
  show "\<exists>r'. br_read_exact n r = (Ok xs, r') \<and> br_wf r' \<and> br_bits r' = rest \<and> cur_data (br_data r') = cur_data (br_data r)"
  proof (cases xs)
    case Nil
    with assms r show ?thesis by (simp add: br_read_exact_def ret_def)
  next
    case (Cons x ys)
    obtain r1 where r1: "br_read (length xs) r = (Ok xs, r1)" "br_wf r1" "br_bits r1 = rest"
      using br_read_run [of r xs rest] r by blast
    moreover have "br_read_exact_loop k 0 = ret []" for k by (cases k) auto
    ultimately show ?thesis
      using holds_dataD [OF holds_data_br_read r1(1)] Cons assms
      by (simp add: br_read_exact_def bindE_def ret_def)
  qed
qed

lemma length_le48 [simp]: "length (le48 w) = 6"
  by (simp add: le48_def)

lemma of_be_le48 [simp]: "of_be (rev (le48 w)) = take_bit 48 w"
  by (simp add: le48_def of_be_be_bytes)

lemma reads_ints [reads_intros]:
  "reads_bits br_read_u8 (byte_bits a) a"
  "reads_bits br_read_u16 (bits_of (be16 b)) b"
  "reads_bits br_read_u32 (bits_of (be32 c)) c"
  "reads_bits br_read_u32_le (bits_of (le32 c)) c"
  "take_bit 48 d = d \<Longrightarrow> reads_bits br_read_u48_le (bits_of (le48 d)) d"
  unfolding br_read_u8_def br_read_u16_def br_read_u32_def br_read_u32_le_def br_read_u48_le_def
  using reads_map [OF reads_exact [of 1 "[a]"], of hd a]
  by (auto intro!: reads_map [OF reads_exact])

lemma reads_golomb [reads_intros]:
  "v \<noteq> 0xFFFFFFFFFFFFFFFF \<Longrightarrow> reads_bits read_exp_golomb (eg_bits v) v"
  "i \<noteq> 0x8000000000000000 \<Longrightarrow> reads_bits read_signed_exp_golomb (eg_bits (zigzag i)) i"
  unfolding reads_bits_def
  using eg.rd_bits [of v] seg.rd_bits [of i] holds_data_golomb [THEN holds_dataD] by metis+

lemma reads_repeat [reads_intros]:
  assumes "\<And>x. x \<in> set xs \<Longrightarrow> reads_bits m (enc x) x" "n = length xs"
  shows "reads_bits (repeat_m n m) (concat (map enc xs)) xs"
  using assms
proof (induction xs arbitrary: n)
  case (Cons x xs)
  then have "reads_bits (bindE (repeat_m (length xs) m) (\<lambda>xs. ret (x # xs))) (concat (map enc xs)) (x # xs)"
    by (intro reads_bind_last [OF Cons.IH] reads_ret) auto
  with Cons.prems show ?case by (auto intro!: reads_bind [where x = x])
qed (simp add: reads_ret)

text \<open>Back to the cursor: a parser that consumes whole bytes leaves it right behind them.\<close>

lemma bits_of_inj: "bits_of xs = bits_of ys \<Longrightarrow> xs = ys"
  using bits_of_append_eq [of xs ys "[]"] by (auto dest: arg_cong [of _ _ length])

lemma reads_cursor:
  assumes "reads_bits m (bits_of bs) x"
  shows "\<exists>r'. m (br_new (curs pre (bs @ post))) = (Ok x, r') \<and> br_data r' = curs (pre @ bs) post \<and> br_is_aligned r'"
proof -
  let ?r = "br_new (curs pre (bs @ post))"
  have "br_wf ?r" "br_bits ?r = bits_of bs @ bits_of post"
    by (simp_all add: br_new_def br_wf_def br_bits_def)
  from reads_bitsD [OF assms this] obtain r' where r': "m ?r = (Ok x, r')" "br_wf r'" "br_bits r' = bits_of post"
    "cur_data (br_data r') = pre @ bs @ post" by (auto simp: br_new_def)
  have "8 + 8 * k - p = 8 * n \<Longrightarrow> p < 8 \<Longrightarrow> p = 0" for k p n :: nat by presburger
  with arg_cong [OF r'(3), of length] r'(2) have p: "br_bit_pos r' = 0"
    by (fastforce simp: br_bits_def br_wf_def split: if_splits)
  with r'(3) have rest: "cur_rest (br_data r') = post" by (simp add: br_bits_def bits_of_inj)
  have "length (cur_data (br_data r')) - cur_pos (br_data r') = length post"
    using arg_cong [OF rest, of length] by (simp only: cur_rest_def length_drop)
  moreover have "cur_pos (br_data r') \<le> length (cur_data (br_data r'))" using r'(2) by (simp add: br_wf_def)
  ultimately have "cur_pos (br_data r') = length (pre @ bs)" using r'(4) by simp
  with r'(4) have "br_data r' = curs (pre @ bs) post" by (simp add: curs_def)
  with r'(1) p show ?thesis by (simp add: br_is_aligned_def)
qed

lemma reads_slice:
  "reads_bits m bits x \<Longrightarrow> bits_of bs = bits @ rest \<Longrightarrow> fst (m (br_new_from_slice bs)) = Ok x"
  using reads_bitsD [of m bits x "br_new_from_slice bs" rest] by auto

section \<open>Running a printer\<close>

definition writes_bits :: "(bit_writer, io_error, unit) prog \<Rightarrow> bool list \<Rightarrow> bool" where
  "writes_bits m bits \<longleftrightarrow> (\<forall>w. bw_wf w \<longrightarrow> (\<exists>w'. m w = (Ok (), w') \<and> bw_wf w' \<and> bw_bits w' = bw_bits w @ bits))"

lemma writes_bind [writes_intros]:
  "writes_bits m b1 \<Longrightarrow> writes_bits m' b2 \<Longrightarrow> writes_bits (bindE m (\<lambda>_. m')) (b1 @ b2)"
  unfolding writes_bits_def bindE_def by fastforce

lemma writes_basic [writes_intros]:
  "writes_bits (ret ()) []"
  "writes_bits (write_bit b) [b]"
  "n \<le> 64 \<Longrightarrow> take_bit n v = v \<Longrightarrow> writes_bits (write_bits v n) (to_bits n v)"
  "writes_bits (bw_write bs) (bits_of bs)"
  unfolding writes_bits_def
  using write_bit_run write_bits_run bw_write_run by (auto simp: ret_def)

lemma writes_for [writes_intros]:
  "(\<And>x. x \<in> set xs \<Longrightarrow> writes_bits (f x) (enc x)) \<Longrightarrow> writes_bits (for_m xs f) (concat (map enc xs))"
  by (induction xs) (auto intro: writes_intros)

lemma writes_finish:
  assumes "writes_bits m (bits_of bs)"
  shows "\<exists>w. m (bw_new out) = (Ok (), w) \<and> bw_finish w = Ok (out @ bs) \<and> bw_bit_pos w = 0"
proof -
  from assms obtain w where w: "m (bw_new out) = (Ok (), w)" "bw_wf w" "bw_bits w = bits_of (out @ bs)"
    unfolding writes_bits_def by (metis bits_of_simps(3) bw_new_wf)
  have "8 * k + p = 8 * m + 8 * n \<Longrightarrow> p < 8 \<Longrightarrow> p = 0" for k p m n :: nat by presburger
  with arg_cong [OF w(3), of length] w(2) have p: "bw_bit_pos w = 0"
    by (simp add: bw_bits_def bw_wf_def min_def split: if_splits)
  from bw_finish_run [OF w(2)] obtain o' where "bw_finish w = Ok o'" "bits_of o' = bits_of (out @ bs)"
    using w(3) p by auto
  with w(1) p show ?thesis using bits_of_inj by blast
qed

text \<open>A \<^verbatim>\<open>BitWriter\<close> around a byte vector, finished at the end.\<close>

definition with_bit_writer :: "(bit_writer, io_error, unit) prog \<Rightarrow> (bytes, io_error, unit) prog" where
  "with_bit_writer m out = (case bindE m (\<lambda>_. bw_align) (bw_new out) of (x, w) \<Rightarrow> (x, bw_writer w))"

lemma with_bit_writer_run:
  assumes "writes_bits m (bits_of bs)"
  shows "with_bit_writer m out = (Ok (), out @ bs)"
proof -
  from writes_finish [OF assms, of out] obtain w where
    w: "m (bw_new out) = (Ok (), w)" "bw_finish w = Ok (out @ bs)" "bw_bit_pos w = 0" by blast
  then have "bw_align w = (Ok (), w)" by (simp add: bw_align_def bw_is_aligned_def)
  with w show ?thesis by (simp add: with_bit_writer_def bw_finish_def bindE_def)
qed

text \<open>A printer that is refused because a value does not fit its field.\<close>

definition rejects :: "(bit_writer, io_error, unit) prog \<Rightarrow> bool" where
  "rejects m \<longleftrightarrow> (\<forall>w. bw_wf w \<longrightarrow> (\<exists>w'. m w = (Err InvalidData, w')))"

lemma rejects_too_large: "n < 64 \<Longrightarrow> take_bit n v \<noteq> v \<Longrightarrow> rejects (bindE (write_bits v n) f)"
  by (simp add: rejects_def bindE_def write_bits_too_large)

lemma rejects_later: "writes_bits m b \<Longrightarrow> rejects m' \<Longrightarrow> rejects (bindE m (\<lambda>_. m'))"
  unfolding rejects_def writes_bits_def bindE_def by fastforce

lemma with_bit_writer_rejects: "rejects m \<Longrightarrow> fst (with_bit_writer m out) = Err InvalidData"
  unfolding rejects_def with_bit_writer_def bindE_def using bw_new_wf(1) [of out] by fastforce

text \<open>Fields that fill a byte.\<close>

lemma to_bits_append:
  "i + j \<le> LENGTH('w) \<Longrightarrow> to_bits i a @ to_bits j b = to_bits (i + j) (push_bit j a OR take_bit j (b :: 'w::len word))"
  by (rule nth_equalityI) (auto simp: nth_append to_bits_nth bit_simps add.commute [of j])

lemma to_bits_ucast: "n \<le> LENGTH('a) \<Longrightarrow> n \<le> LENGTH('b) \<Longrightarrow> to_bits n (ucast (x :: 'a::len word) :: 'b::len word) = to_bits n x"
  by (rule nth_equalityI) (auto simp: to_bits_nth bit_simps)

lemma small_field: "x < 2 ^ n \<Longrightarrow> take_bit n (ucast (x :: 'a::len word) :: 'b::len word) = ucast x"
  by (rule bit_word_eqI) (auto simp: bit_simps dest: bit_small)

text \<open>A list of bits whose length is a multiple of eight is a list of bytes.\<close>

lemma bit_of_bits: "length xs \<le> LENGTH('w) \<Longrightarrow> k < length xs \<Longrightarrow> bit (of_bits 0 xs :: 'w::len word) k = xs ! (length xs - 1 - k)"
proof (induction xs arbitrary: k rule: rev_induct)
  case (snoc x xs)
  then show ?case
    by (cases k) (auto simp: bit_simps nth_append bit_1_iff simp del: push_bit_Suc)
qed simp

lemma byte_of_bits: "length xs = 8 \<Longrightarrow> byte_bits (of_bits 0 xs) = xs"
  by (rule nth_equalityI) (simp_all add: bit_of_bits)

lemma bits_are_bytes: "length bits = 8 * n \<Longrightarrow> \<exists>bs. bits_of bs = bits \<and> length bs = n"
proof (induction n arbitrary: bits)
  case (Suc n)
  have "length (drop 8 bits) = 8 * n" using Suc.prems by simp
  then obtain bs where "bits_of bs = drop 8 bits" "length bs = n" using Suc.IH by blast
  moreover have "byte_bits (of_bits 0 (take 8 bits)) = take 8 bits" using Suc.prems by (intro byte_of_bits) simp
  ultimately show ?case by (intro exI [of _ "of_bits 0 (take 8 bits) # bs"]) simp
qed simp

lemma length_concat_times:
  "(\<And>x. x \<in> set xs \<Longrightarrow> length (f x) = 8 * g x) \<Longrightarrow> length (concat (map f xs)) = 8 * sum_list (map g xs)"
  by (induction xs) auto

lemma reads_field8: "x < 2 ^ n \<Longrightarrow> n \<le> 64 \<Longrightarrow> reads_bits (read_field8 n) (to_bits n (ucast x :: u64)) x"
  unfolding read_field8_def by (rule reads_map [OF reads_field]) (simp_all add: small_field ucast_ucast_id)

lemma reads_field16: "x < 2 ^ n \<Longrightarrow> n \<le> 64 \<Longrightarrow> reads_bits (read_field16 n) (to_bits n (ucast x :: u64)) x"
  unfolding read_field16_def by (rule reads_map [OF reads_field]) (simp_all add: small_field ucast_ucast_id)

lemma writes_field: "x < 2 ^ n \<Longrightarrow> n \<le> 64 \<Longrightarrow> writes_bits (write_bits (ucast x) n) (to_bits n (ucast x :: u64))"
  by (rule writes_basic) (simp_all add: small_field)

text \<open>An optional part behind a presence flag.\<close>

definition opt_bits :: "('a \<Rightarrow> bool list) \<Rightarrow> 'a option \<Rightarrow> bool list" where
  "opt_bits enc x = (case x of None \<Rightarrow> [False] | Some v \<Rightarrow> True # enc v)"

lemma reads_opt:
  assumes "\<And>v. x = Some v \<Longrightarrow> reads_bits m (enc v) y" "x = None \<Longrightarrow> reads_bits m' [] y"
  shows "reads_bits (bindE read_bit (\<lambda>f. if f then m else m')) (opt_bits enc x) y"
  using reads_bind [OF reads_read_bit [of "x \<noteq> None"], of "\<lambda>f. if f then m else m'"] assms
  by (cases x) (auto simp: opt_bits_def)

lemma reads_ignore: "reads_bits m b x \<Longrightarrow> reads_bits (bindE m (\<lambda>_. ret ())) b ()"
  by (rule reads_map) auto

lemma byte_field: "take_bit 8 (ucast (x :: u8) :: u64) = ucast x"
  by (rule bit_word_eqI) (auto simp: bit_simps dest: bit_imp_le_length)

end
