(* ===== verification/H264.thy ===== *)
theory H264
  imports Bit_Format
begin

text \<open>
  The crate \<^verbatim>\<open>scuffle-h264\<close> (\<^verbatim>\<open>crates/h264/src\<close>): the AVC decoder configuration record
  (\<^verbatim>\<open>config.rs\<close>) and the sequence parameter set (\<^verbatim>\<open>sps.rs\<close>). The record is read from a cursor byte by
  byte and written through a \<^verbatim>\<open>BitWriter\<close>; the parameter set is a bit stream behind emulation
  prevention bytes.
\<close>

section \<open>The decoder configuration record\<close>

record AvccExtendedConfig =
  axc_chroma_format :: u8
  axc_bit_depth_luma_minus8 :: u8
  axc_bit_depth_chroma_minus8 :: u8
  axc_sequence_parameter_set_ext :: "bytes list"

record AVCDecoderConfigurationRecord =
  avc_configuration_version :: u8
  avc_profile_indication :: u8
  avc_profile_compatibility :: u8
  avc_level_indication :: u8
  avc_length_size_minus_one :: u8
  avc_sps :: "bytes list"
  avc_pps :: "bytes list"
  avc_extended_config :: "AvccExtendedConfig option"

text \<open>One parameter set behind its 16-bit length, and a counted list of them.\<close>

definition read_parameter_set :: "(cursor, io_error, bytes) prog" where
  "read_parameter_set = bindE read_u16 (\<lambda>n. extract_bytes (unat n))"

definition cur_has_remaining :: "(cursor, 'e, bool) prog" where
  "cur_has_remaining c = (Ok (has_remaining c), c)"

definition avc_ext_demux :: "(cursor, io_error, AvccExtendedConfig) prog" where
  "avc_ext_demux =
     bindE read_u8 (\<lambda>chroma_format.
     bindE read_u8 (\<lambda>bit_depth_luma_minus8.
     bindE read_u8 (\<lambda>bit_depth_chroma_minus8.
     bindE read_u8 (\<lambda>number_of_sequence_parameter_set_ext.
     bindE (repeat_m (unat number_of_sequence_parameter_set_ext) read_parameter_set) (\<lambda>exts.
     ret \<lparr>axc_chroma_format = chroma_format AND 0b11,
          axc_bit_depth_luma_minus8 = bit_depth_luma_minus8 AND 0b111,
          axc_bit_depth_chroma_minus8 = bit_depth_chroma_minus8 AND 0b111,
          axc_sequence_parameter_set_ext = exts\<rparr>)))))"

definition avc_demux :: "(cursor, io_error, AVCDecoderConfigurationRecord) prog" where
  "avc_demux =
     bindE read_u8 (\<lambda>configuration_version.
     bindE read_u8 (\<lambda>profile_indication.
     bindE read_u8 (\<lambda>profile_compatibility.
     bindE read_u8 (\<lambda>level_indication.
     bindE read_u8 (\<lambda>length_size.
     bindE read_u8 (\<lambda>num_sps.
     bindE (repeat_m (unat (num_sps AND 0b11111)) read_parameter_set) (\<lambda>sps.
     bindE read_u8 (\<lambda>num_pps.
     bindE (repeat_m (unat num_pps) read_parameter_set) (\<lambda>pps.
     bindE (if profile_indication = 66 \<or> profile_indication = 77 \<or> profile_indication = 88 then ret None
            else bindE cur_has_remaining (\<lambda>more_data.
              if more_data then bindE avc_ext_demux (\<lambda>e. ret (Some e)) else ret None)) (\<lambda>extended_config.
     ret \<lparr>avc_configuration_version = configuration_version, avc_profile_indication = profile_indication,
          avc_profile_compatibility = profile_compatibility, avc_level_indication = level_indication,
          avc_length_size_minus_one = length_size AND 0b11, avc_sps = sps, avc_pps = pps,
          avc_extended_config = extended_config\<rparr>))))))))))"

definition parameter_sets_size :: "bytes list \<Rightarrow> nat" where
  "parameter_sets_size xs = sum_list (map (\<lambda>x. 2 + length x) xs)"

definition avc_size :: "AVCDecoderConfigurationRecord \<Rightarrow> nat" where
  "avc_size r = 1 + 1 + 1 + 1 + 1 + 1 + parameter_sets_size (avc_sps r) + 1 + parameter_sets_size (avc_pps r)
     + (case avc_extended_config r of
          Some config \<Rightarrow> 1 + 1 + 1 + 1 + parameter_sets_size (axc_sequence_parameter_set_ext config)
        | None \<Rightarrow> 0)"

definition write_parameter_set :: "bytes \<Rightarrow> (bit_writer, io_error, unit) prog" where
  "write_parameter_set x = bindE (bw_write (be16 (word_of_nat (length x)))) (\<lambda>_. bw_write x)"

definition avc_ext_mux :: "AvccExtendedConfig \<Rightarrow> (bit_writer, io_error, unit) prog" where
  "avc_ext_mux config =
     bindE (write_bits 0b111111 6) (\<lambda>_.
     bindE (write_bits (ucast (axc_chroma_format config)) 2) (\<lambda>_.
     bindE (write_bits 0b11111 5) (\<lambda>_.
     bindE (write_bits (ucast (axc_bit_depth_luma_minus8 config)) 3) (\<lambda>_.
     bindE (write_bits 0b11111 5) (\<lambda>_.
     bindE (write_bits (ucast (axc_bit_depth_chroma_minus8 config)) 3) (\<lambda>_.
     bindE (write_bits (word_of_nat (length (axc_sequence_parameter_set_ext config))) 8) (\<lambda>_.
     for_m (axc_sequence_parameter_set_ext config) write_parameter_set)))))))"

definition avc_mux :: "AVCDecoderConfigurationRecord \<Rightarrow> (bytes, io_error, unit) prog" where
  "avc_mux r = with_bit_writer (
     bindE (bw_write [avc_configuration_version r]) (\<lambda>_.
     bindE (bw_write [avc_profile_indication r]) (\<lambda>_.
     bindE (bw_write [avc_profile_compatibility r]) (\<lambda>_.
     bindE (bw_write [avc_level_indication r]) (\<lambda>_.
     bindE (write_bits 0b111111 6) (\<lambda>_.
     bindE (write_bits (ucast (avc_length_size_minus_one r)) 2) (\<lambda>_.
     bindE (write_bits 0b111 3) (\<lambda>_.
     bindE (write_bits (word_of_nat (length (avc_sps r))) 5) (\<lambda>_.
     bindE (for_m (avc_sps r) write_parameter_set) (\<lambda>_.
     bindE (write_bits (word_of_nat (length (avc_pps r))) 8) (\<lambda>_.
     bindE (for_m (avc_pps r) write_parameter_set) (\<lambda>_.
     case avc_extended_config r of Some config \<Rightarrow> avc_ext_mux config | None \<Rightarrow> ret ()))))))))))))"

section \<open>Its wire format\<close>

definition parameter_set_bytes :: "bytes \<Rightarrow> bytes" where
  "parameter_set_bytes x = be16 (word_of_nat (length x)) @ x"

definition parameter_sets_bytes :: "bytes list \<Rightarrow> bytes" where
  "parameter_sets_bytes xs = concat (map parameter_set_bytes xs)"

definition avc_ext_bytes :: "AvccExtendedConfig \<Rightarrow> bytes" where
  "avc_ext_bytes e = [0xFC OR axc_chroma_format e, 0xF8 OR axc_bit_depth_luma_minus8 e,
      0xF8 OR axc_bit_depth_chroma_minus8 e, word_of_nat (length (axc_sequence_parameter_set_ext e))]
     @ parameter_sets_bytes (axc_sequence_parameter_set_ext e)"

definition avc_bytes :: "AVCDecoderConfigurationRecord \<Rightarrow> bytes" where
  "avc_bytes r = [avc_configuration_version r, avc_profile_indication r, avc_profile_compatibility r,
      avc_level_indication r, 0xFC OR avc_length_size_minus_one r, 0xE0 OR word_of_nat (length (avc_sps r))]
     @ parameter_sets_bytes (avc_sps r) @ [word_of_nat (length (avc_pps r))] @ parameter_sets_bytes (avc_pps r)
     @ (case avc_extended_config r of Some e \<Rightarrow> avc_ext_bytes e | None \<Rightarrow> [])"

text \<open>Records whose fields fit the bits they are stored in.\<close>

definition parameter_sets_ok :: "bytes list \<Rightarrow> bool" where
  "parameter_sets_ok xs \<longleftrightarrow> (\<forall>x \<in> set xs. length x < 2 ^ 16)"

definition avc_ext_ok :: "AvccExtendedConfig \<Rightarrow> bool" where
  "avc_ext_ok e \<longleftrightarrow> axc_chroma_format e < 2 ^ 2 \<and> axc_bit_depth_luma_minus8 e < 2 ^ 3
     \<and> axc_bit_depth_chroma_minus8 e < 2 ^ 3 \<and> length (axc_sequence_parameter_set_ext e) < 2 ^ 8
     \<and> parameter_sets_ok (axc_sequence_parameter_set_ext e)"

definition avc_ok :: "AVCDecoderConfigurationRecord \<Rightarrow> bool" where
  "avc_ok r \<longleftrightarrow> avc_length_size_minus_one r < 2 ^ 2 \<and> length (avc_sps r) < 2 ^ 5 \<and> length (avc_pps r) < 2 ^ 8
     \<and> parameter_sets_ok (avc_sps r) \<and> parameter_sets_ok (avc_pps r)
     \<and> (\<forall>e. avc_extended_config r = Some e \<longrightarrow> avc_ext_ok e \<and> avc_profile_indication r \<notin> {66, 77, 88})"

interpretation parameter_set: sized_codec "\<lambda>x. length x < 2 ^ 16" parameter_set_bytes read_parameter_set "\<lambda>x. 2 + length x"
  by unfold_locales
     (simp_all add: read_parameter_set_def parameter_set_bytes_def run_simps unat_of_nat)

lemma read_parameter_sets:
  assumes "parameter_sets_ok xs" "n = length xs"
  shows "repeat_m n read_parameter_set (curs pre (parameter_sets_bytes xs @ post)) = (Ok xs, curs (pre @ parameter_sets_bytes xs) post)"
    "repeat_m n read_parameter_set (curs pre (parameter_sets_bytes xs)) = (Ok xs, curs (pre @ parameter_sets_bytes xs) [])"
  using assms parameter_set.dec_repeat [of xs] parameter_set.dec_repeat_last [of xs]
  by (simp_all add: parameter_sets_ok_def parameter_sets_bytes_def)

lemma length_parameter_sets: "parameter_sets_ok xs \<Longrightarrow> length (parameter_sets_bytes xs) = parameter_sets_size xs"
  using parameter_set.length_concat_enc [of xs]
  by (simp add: parameter_sets_ok_def parameter_sets_bytes_def parameter_sets_size_def)

lemma writes_parameter_sets: "writes_bits (for_m xs write_parameter_set) (bits_of (parameter_sets_bytes xs))"
proof -
  have "writes_bits (write_parameter_set x) (bits_of (parameter_set_bytes x))" for x
    unfolding write_parameter_set_def parameter_set_bytes_def bits_of_simps by (intro writes_intros)
  then have "writes_bits (for_m xs write_parameter_set) (concat (map (\<lambda>x. bits_of (parameter_set_bytes x)) xs))"
    by (intro writes_for)
  moreover have "concat (map (\<lambda>x. bits_of (parameter_set_bytes x)) xs) = bits_of (parameter_sets_bytes xs)"
    by (induction xs) (simp_all add: parameter_sets_bytes_def)
  ultimately show ?thesis by simp
qed

text \<open>Fields next to their reserved bits.\<close>

lemma reserved_bits:
  fixes x :: u8
  shows "to_bits 6 (0b111111 :: u64) @ to_bits 2 (ucast x :: u64) = byte_bits (0xFC OR x)"
    "to_bits 5 (0b11111 :: u64) @ to_bits 3 (ucast x :: u64) = byte_bits (0xF8 OR x)"
    "to_bits 3 (0b111 :: u64) @ to_bits 5 (ucast x :: u64) = byte_bits (0xE0 OR x)"
  by (simp_all add: to_bits_map byte_bits_def upt_rec bit_simps)

lemma masked_fields:
  fixes x :: u8
  shows "x < 2 ^ 2 \<Longrightarrow> (0xFC OR x) AND 0b11 = x" "x < 2 ^ 3 \<Longrightarrow> (0xF8 OR x) AND 0b111 = x"
    "x < 2 ^ 5 \<Longrightarrow> (0xE0 OR x) AND 0b11111 = x"
proof -
  have gen: "x < 2 ^ k \<Longrightarrow> (push_bit k y OR x) AND mask k = x" for k and y :: u8
    by (rule bit_word_eqI) (auto simp: bit_simps dest: bit_small)
  show "x < 2 ^ 2 \<Longrightarrow> (0xFC OR x) AND 0b11 = x" "x < 2 ^ 3 \<Longrightarrow> (0xF8 OR x) AND 0b111 = x"
    "x < 2 ^ 5 \<Longrightarrow> (0xE0 OR x) AND 0b11111 = x"
    using gen [of 2 "0x3F"] gen [of 3 "0x1F"] gen [of 5 7] by (simp_all add: mask_eq_exp_minus_1)
qed

text \<open>Counts.\<close>

lemma count_fields:
  "n < 2 ^ 5 \<Longrightarrow> (word_of_nat n :: u64) = ucast (word_of_nat n :: u8)"
  "n < 2 ^ 8 \<Longrightarrow> (word_of_nat n :: u64) = ucast (word_of_nat n :: u8)"
  "n < 2 ^ 8 \<Longrightarrow> unat (word_of_nat n :: u8) = n" "n < 2 ^ 5 \<Longrightarrow> unat (word_of_nat n :: u8) = n"
  "n < 2 ^ 5 \<Longrightarrow> (word_of_nat n :: u8) < 2 ^ 5"
  by (simp_all add: unat_of_nat word_unat_eq_iff unat_ucast_up word_less_nat_alt)

lemma writes_count8: "n < 2 ^ 8 \<Longrightarrow> writes_bits (write_bits (word_of_nat n) 8) (byte_bits (word_of_nat n))"
  using writes_basic(3) [of 8 "ucast (word_of_nat n :: u8) :: u64"]
    take_bit_ucast_small [of "word_of_nat n :: u8" 8, where 'b = 64]
  by (simp add: count_fields to_bits_ucast byte_bits_eq_to_bits)

lemma writes_reserved:
  fixes x :: u8
  shows "x < 2 ^ 2 \<Longrightarrow> writes_bits m b \<Longrightarrow>
      writes_bits (bindE (write_bits 0b111111 6) (\<lambda>_. bindE (write_bits (ucast x) 2) (\<lambda>_. m))) (byte_bits (0xFC OR x) @ b)"
    "x < 2 ^ 3 \<Longrightarrow> writes_bits m b \<Longrightarrow>
      writes_bits (bindE (write_bits 0b11111 5) (\<lambda>_. bindE (write_bits (ucast x) 3) (\<lambda>_. m))) (byte_bits (0xF8 OR x) @ b)"
    "x < 2 ^ 5 \<Longrightarrow> writes_bits m b \<Longrightarrow>
      writes_bits (bindE (write_bits 0b111 3) (\<lambda>_. bindE (write_bits (ucast x) 5) (\<lambda>_. m))) (byte_bits (0xE0 OR x) @ b)"
  unfolding reserved_bits [symmetric] append_assoc
  by (intro writes_intros small_field; simp add: take_bit_eq_mask mask_eq_exp_minus_1)+

lemma writes_ext:
  assumes "avc_ext_ok e"
  shows "writes_bits (avc_ext_mux e) (bits_of (avc_ext_bytes e))"
  unfolding avc_ext_mux_def avc_ext_bytes_def bits_of_simps append_assoc append_Nil
  using assms by (intro writes_reserved writes_bind writes_parameter_sets writes_count8) (simp_all add: avc_ext_ok_def)

lemma avc_mux_bytes:
  assumes "avc_ok r"
  shows "avc_mux r out = (Ok (), out @ avc_bytes r)"
  unfolding avc_mux_def
proof (rule with_bit_writer_run)
  have one: "writes_bits (bw_write [x]) (byte_bits x)" for x using writes_basic(4) [of "[x]"] by simp
  have n: "(word_of_nat (length (avc_sps r)) :: u64) = ucast (word_of_nat (length (avc_sps r)) :: u8)"
    using assms by (intro count_fields) (simp add: avc_ok_def)
  have ext: "writes_bits (case avc_extended_config r of Some config \<Rightarrow> avc_ext_mux config | None \<Rightarrow> ret ())
     (bits_of (case avc_extended_config r of Some e \<Rightarrow> avc_ext_bytes e | None \<Rightarrow> []))"
    using assms by (auto simp: avc_ok_def intro: writes_ext writes_intros split: option.splits)
  show "writes_bits (
     bindE (bw_write [avc_configuration_version r]) (\<lambda>_.
     bindE (bw_write [avc_profile_indication r]) (\<lambda>_.
     bindE (bw_write [avc_profile_compatibility r]) (\<lambda>_.
     bindE (bw_write [avc_level_indication r]) (\<lambda>_.
     bindE (write_bits 0b111111 6) (\<lambda>_.
     bindE (write_bits (ucast (avc_length_size_minus_one r)) 2) (\<lambda>_.
     bindE (write_bits 0b111 3) (\<lambda>_.
     bindE (write_bits (word_of_nat (length (avc_sps r))) 5) (\<lambda>_.
     bindE (for_m (avc_sps r) write_parameter_set) (\<lambda>_.
     bindE (write_bits (word_of_nat (length (avc_pps r))) 8) (\<lambda>_.
     bindE (for_m (avc_pps r) write_parameter_set) (\<lambda>_.
     case avc_extended_config r of Some config \<Rightarrow> avc_ext_mux config | None \<Rightarrow> ret ()))))))))))))
     (bits_of (avc_bytes r))"
    unfolding avc_bytes_def bits_of_simps append_assoc append_Nil n using assms
    by (intro writes_reserved writes_bind one writes_parameter_sets writes_count8 ext count_fields)
       (simp_all add: avc_ok_def)
qed

lemma cur_has_remaining_bind: "bindE cur_has_remaining f (curs pre post) = f (post \<noteq> []) (curs pre post)"
  by (simp add: bindE_def cur_has_remaining_def)

lemma avc_ext_demux_bytes:
  "avc_ext_ok e \<Longrightarrow> avc_ext_demux (curs pre (avc_ext_bytes e)) = (Ok e, curs (pre @ avc_ext_bytes e) [])"
  by (simp add: avc_ext_demux_def avc_ext_bytes_def avc_ext_ok_def run_simps read_parameter_sets masked_fields count_fields)

lemma avc_demux_bytes:
  assumes "avc_ok r"
  shows "avc_demux (curs pre (avc_bytes r)) = (Ok r, curs (pre @ avc_bytes r) [])"
proof -
  have m: "unat ((0xE0 OR word_of_nat (length (avc_sps r)) :: u8) AND 0b11111) = length (avc_sps r)"
    using assms masked_fields(3) [OF count_fields(5)] by (simp add: avc_ok_def count_fields)
  show ?thesis
  proof (cases "avc_extended_config r")
    case None
    with assms m show ?thesis
      by (simp add: avc_demux_def avc_bytes_def avc_ok_def run_simps read_parameter_sets masked_fields count_fields cur_has_remaining_bind bindE_assoc)
  next
    case (Some e)
    with assms have "avc_ext_ok e" "avc_profile_indication r \<notin> {66, 77, 88}" by (simp_all add: avc_ok_def)
    moreover have "avc_ext_bytes e \<noteq> []" by (simp add: avc_ext_bytes_def)
    ultimately show ?thesis using assms m Some
      by (simp add: avc_demux_def avc_bytes_def avc_ok_def run_simps read_parameter_sets masked_fields count_fields
          cur_has_remaining_bind bindE_assoc avc_ext_demux_bytes)
  qed
qed

lemma avc_mux_demux:
  assumes "avc_ok r"
  shows "\<exists>bs. (\<forall>out. avc_mux r out = (Ok (), out @ bs)) \<and> length bs = avc_size r
      \<and> (\<forall>pre. avc_demux (curs pre bs) = (Ok r, curs (pre @ bs) []))"
proof -
  have "length (avc_bytes r) = avc_size r"
    using assms by (auto simp: avc_bytes_def avc_ext_bytes_def avc_size_def avc_ok_def avc_ext_ok_def length_parameter_sets
        split: option.splits)
  with avc_mux_bytes [OF assms] avc_demux_bytes [OF assms] show ?thesis by blast
qed

text \<open>C23: every AVC decoder configuration record whose fields fit their bits is written with exactly the
  announced size and read back unchanged; a record with too many sequence parameter sets for its
  five-bit count is refused.\<close>

theorem avc_config_roundtrip:
  "(avc_ok r \<longrightarrow> (\<exists>bs. (\<forall>out. avc_mux r out = (Ok (), out @ bs)) \<and> length bs = avc_size r
      \<and> (\<forall>pre. avc_demux (curs pre bs) = (Ok r, curs (pre @ bs) []))))
   \<and> (32 \<le> length (avc_sps r) \<and> length (avc_sps r) < 2 ^ 64 \<and> avc_length_size_minus_one r < 2 ^ 2
      \<longrightarrow> fst (avc_mux r out) = Err InvalidData)"
proof (intro conjI impI)
  assume ok: "avc_ok r"
  from avc_mux_demux [OF ok] show "\<exists>bs. (\<forall>out. avc_mux r out = (Ok (), out @ bs)) \<and> length bs = avc_size r
      \<and> (\<forall>pre. avc_demux (curs pre bs) = (Ok r, curs (pre @ bs) []))" .
next
  assume a: "32 \<le> length (avc_sps r) \<and> length (avc_sps r) < 2 ^ 64 \<and> avc_length_size_minus_one r < 2 ^ 2"
  have "unat (word_of_nat (length (avc_sps r)) :: u64) = length (avc_sps r)"
    using a by (simp add: unat_of_nat)
  then have big: "take_bit 5 (word_of_nat (length (avc_sps r)) :: u64) \<noteq> word_of_nat (length (avc_sps r))"
    using a take_bit_int_less_exp by (auto simp: word_unat_eq_iff unsigned_take_bit_eq take_bit_nat_eq_self_iff)
  have c: "writes_bits (write_bits 0b111111 6) (to_bits 6 (0b111111 :: u64))" "writes_bits (write_bits 0b111 3) (to_bits 3 (0b111 :: u64))"
    "writes_bits (write_bits (ucast (avc_length_size_minus_one r)) 2) (to_bits 2 (ucast (avc_length_size_minus_one r) :: u64))"
    using a by (auto intro!: writes_basic(3) small_field [where n = 2] simp: take_bit_eq_mask mask_eq_exp_minus_1)
  show "fst (avc_mux r out) = Err InvalidData"
    unfolding avc_mux_def
    by (rule with_bit_writer_rejects) (intro rejects_later [OF writes_basic(4)] rejects_later [OF c(1)]
        rejects_later [OF c(2)] rejects_later [OF c(3)] rejects_too_large big; simp)
qed

definition example_avc :: AVCDecoderConfigurationRecord where
  "example_avc = \<lparr>avc_configuration_version = 1, avc_profile_indication = 100, avc_profile_compatibility = 0,
     avc_level_indication = 31, avc_length_size_minus_one = 3, avc_sps = [[0x67, 0x64]], avc_pps = [[0x68]],
     avc_extended_config = Some \<lparr>axc_chroma_format = 1, axc_bit_depth_luma_minus8 = 0,
       axc_bit_depth_chroma_minus8 = 0, axc_sequence_parameter_set_ext = []\<rparr>\<rparr>"

theorem avc_config_roundtrip_witness:
  "(\<exists>bs. (\<forall>out. avc_mux example_avc out = (Ok (), out @ bs)) \<and> length bs = 18
      \<and> (\<forall>pre. avc_demux (curs pre bs) = (Ok example_avc, curs (pre @ bs) [])))
   \<and> fst (avc_mux (example_avc\<lparr>avc_sps := replicate 32 []\<rparr>) []) = Err InvalidData"
proof -
  have "avc_ok example_avc" "avc_size example_avc = 18"
    by (simp_all add: example_avc_def avc_ok_def avc_ext_ok_def parameter_sets_ok_def avc_size_def parameter_sets_size_def)
  moreover have "32 \<le> length (avc_sps (example_avc\<lparr>avc_sps := replicate 32 []\<rparr>))
     \<and> length (avc_sps (example_avc\<lparr>avc_sps := replicate 32 []\<rparr>)) < 2 ^ 64
     \<and> avc_length_size_minus_one (example_avc\<lparr>avc_sps := replicate 32 []\<rparr>) < 2 ^ 2"
    by (simp add: example_avc_def)
  ultimately show ?thesis
    using avc_config_roundtrip [of example_avc] avc_config_roundtrip [of "example_avc\<lparr>avc_sps := replicate 32 []\<rparr>" "[]"]
    by simp
qed

end
