(* ===== verification/H264_Sps.thy ===== *)
theory H264_Sps
  imports Complex_Main H264
begin

text \<open>
  The H.264 sequence parameter set parser (\<^verbatim>\<open>crates/h264/src/sps.rs\<close>). Frame rates, which the code
  computes as the \<^verbatim>\<open>f64\<close> quotient of two integers that an \<^verbatim>\<open>f64\<close> holds exactly, are kept as the rational number
  before rounding. Sizes are computed in \<^verbatim>\<open>u64\<close> with overflow checks.
\<close>

section \<open>Emulation prevention\<close>

text \<open>The loop over \<^verbatim>\<open>data\<close>, on the part of it from index \<^verbatim>\<open>i\<close> on: it stops three bytes before the end.\<close>

fun strip_emulation :: "bytes \<Rightarrow> bytes" where
  "strip_emulation (a # b # c # d # rest) =
     (if a = 0 \<and> b = 0 \<and> c = 3 then 0 # 0 # strip_emulation (d # rest)
      else a # strip_emulation (b # c # d # rest))"
| "strip_emulation _ = []"

definition sps_payload :: "bytes \<Rightarrow> (io_error, bytes) result" where
  "sps_payload data = (if length data < 3 then Panic else Ok (strip_emulation data))"

section \<open>The parser\<close>

record SpsExtended =
  se_chroma_format_idc :: u64
  se_bit_depth_luma_minus8 :: u64
  se_bit_depth_chroma_minus8 :: u64

record ColorConfig =
  cc_full_range :: bool
  cc_color_primaries :: u8
  cc_transfer_characteristics :: u8
  cc_matrix_coefficients :: u8

record Sps =
  sps_profile_idc :: u8
  sps_level_idc :: u8
  sps_ext :: "SpsExtended option"
  sps_width :: u64
  sps_height :: u64
  sps_frame_rate :: rat
  sps_color_config :: "ColorConfig option"

text \<open>One scaling list: deltas are read until the scale becomes zero. The scale is an \<^verbatim>\<open>i64\<close>, and \<^verbatim>\<open>%\<close>
  truncates towards zero.\<close>

definition in_i64 :: "int \<Rightarrow> bool" where
  "in_i64 x \<longleftrightarrow> - (2 ^ 63) \<le> x \<and> x < 2 ^ 63"

fun scaling_list_loop :: "nat \<Rightarrow> int \<Rightarrow> (bit_reader, io_error, unit) prog" where
  "scaling_list_loop 0 next_scale = ret ()"
| "scaling_list_loop (Suc n) next_scale =
     bindE read_signed_exp_golomb (\<lambda>delta_scale.
     let sum = next_scale + sint delta_scale
     in if \<not> in_i64 sum \<or> \<not> in_i64 (sum + 256) then panic
        else let next_scale' = rust_rem (sum + 256) 256
             in if next_scale' = 0 then ret () else scaling_list_loop n next_scale')"

definition scaling_matrix :: "u64 \<Rightarrow> (bit_reader, io_error, unit) prog" where
  "scaling_matrix chroma_format_idc =
     for_m [0..<(if chroma_format_idc \<noteq> 3 then 8 else 12)] (\<lambda>i.
       bindE read_bit (\<lambda>present.
       if present then scaling_list_loop (if i < 6 then 16 else 64) 8 else ret ()))"

definition sps_ext_parse :: "(bit_reader, io_error, SpsExtended) prog" where
  "sps_ext_parse =
     bindE read_exp_golomb (\<lambda>chroma_format_idc.
     bindE (if chroma_format_idc = 3 then bindE read_bit (\<lambda>_. ret ()) else ret ()) (\<lambda>_.
     bindE read_exp_golomb (\<lambda>bit_depth_luma_minus8.
     bindE read_exp_golomb (\<lambda>bit_depth_chroma_minus8.
     bindE read_bit (\<lambda>_.
     bindE read_bit (\<lambda>seq_scaling_matrix_present_flag.
     bindE (if seq_scaling_matrix_present_flag then scaling_matrix chroma_format_idc else ret ()) (\<lambda>_.
     ret \<lparr>se_chroma_format_idc = chroma_format_idc, se_bit_depth_luma_minus8 = bit_depth_luma_minus8,
          se_bit_depth_chroma_minus8 = bit_depth_chroma_minus8\<rparr>)))))))"

definition skip_bits :: "int \<Rightarrow> (bit_reader, io_error, unit) prog" where
  "skip_bits n = bindE (seek_bits n) (\<lambda>_. ret ())"

definition has_sps_ext :: "u8 \<Rightarrow> bool" where
  "has_sps_ext profile_idc \<longleftrightarrow>
     profile_idc \<in> {100, 110, 122, 244, 44, 83, 86, 118, 128, 138, 139, 134, 135}"

definition sps_pic_order :: "(bit_reader, io_error, unit) prog" where
  "sps_pic_order =
     bindE read_exp_golomb (\<lambda>pic_order_cnt_type.
     if pic_order_cnt_type = 0 then bindE read_exp_golomb (\<lambda>_. ret ())
     else if pic_order_cnt_type = 1 then
       bindE (skip_bits 1) (\<lambda>_.
       bindE read_signed_exp_golomb (\<lambda>_.
       bindE read_signed_exp_golomb (\<lambda>_.
       bindE read_exp_golomb (\<lambda>num_ref_frames_in_pic_order_cnt_cycle.
       bindE (repeat_m (unat num_ref_frames_in_pic_order_cnt_cycle) read_signed_exp_golomb) (\<lambda>_.
       ret ())))))
     else ret ())"

definition sps_cropping :: "(bit_reader, io_error, u64 \<times> u64 \<times> u64 \<times> u64) prog" where
  "sps_cropping =
     bindE read_bit (\<lambda>frame_cropping_flag.
     if frame_cropping_flag then
       bindE read_exp_golomb (\<lambda>l.
       bindE read_exp_golomb (\<lambda>r.
       bindE read_exp_golomb (\<lambda>t.
       bindE read_exp_golomb (\<lambda>b.
       ret (l, r, t, b)))))
     else ret (0, 0, 0, 0))"

text \<open>\<^verbatim>\<open>full - a * 2 - b * 2\<close> in \<^verbatim>\<open>u64\<close>.\<close>

definition cropped :: "nat \<Rightarrow> u64 \<Rightarrow> u64 \<Rightarrow> ('s, 'e, u64) prog" where
  "cropped full a b =
     (if full < 2 ^ 64 \<and> unat a * 2 < 2 ^ 64 \<and> unat b * 2 < 2 ^ 64 \<and> unat a * 2 + unat b * 2 \<le> full
      then ret (word_of_nat (full - unat a * 2 - unat b * 2)) else panic)"

definition vui_aspect_ratio :: "(bit_reader, io_error, unit) prog" where
  "vui_aspect_ratio =
     bindE read_bit (\<lambda>aspect_ratio_info_present_flag.
     if aspect_ratio_info_present_flag then
       bindE br_read_u8 (\<lambda>aspect_ratio_idc.
       if aspect_ratio_idc = 255 then bindE (skip_bits 16) (\<lambda>_. skip_bits 16) else ret ())
     else ret ())"

definition vui_overscan :: "(bit_reader, io_error, unit) prog" where
  "vui_overscan = bindE read_bit (\<lambda>overscan_info_present_flag.
     if overscan_info_present_flag then skip_bits 1 else ret ())"

definition vui_video_signal :: "(bit_reader, io_error, ColorConfig option) prog" where
  "vui_video_signal =
     bindE read_bit (\<lambda>video_signal_type_present_flag.
     if video_signal_type_present_flag then
       bindE (skip_bits 3) (\<lambda>_.
       bindE read_bit (\<lambda>full_range.
       bindE read_bit (\<lambda>colour_description_present_flag.
       bindE (if colour_description_present_flag then
                bindE br_read_u8 (\<lambda>color_primaries.
                bindE br_read_u8 (\<lambda>transfer_characteristics.
                bindE br_read_u8 (\<lambda>matrix_coefficients.
                ret (color_primaries, transfer_characteristics, matrix_coefficients))))
              else ret (2, 2, 2)) (\<lambda>(color_primaries, transfer_characteristics, matrix_coefficients).
       ret (Some \<lparr>cc_full_range = full_range, cc_color_primaries = color_primaries,
         cc_transfer_characteristics = transfer_characteristics, cc_matrix_coefficients = matrix_coefficients\<rparr>)))))
     else ret None)"

definition vui_chroma_loc :: "(bit_reader, io_error, unit) prog" where
  "vui_chroma_loc = bindE read_bit (\<lambda>chroma_loc_info_present_flag.
     if chroma_loc_info_present_flag then bindE read_exp_golomb (\<lambda>_. bindE read_exp_golomb (\<lambda>_. ret ()))
     else ret ())"

definition sps_vui_timing :: "(bit_reader, io_error, rat) prog" where
  "sps_vui_timing =
     bindE read_bit (\<lambda>timing_info_present_flag.
     if timing_info_present_flag then
       bindE br_read_u32 (\<lambda>num_units_in_tick.
       bindE br_read_u32 (\<lambda>time_scale.
       if num_units_in_tick = 0 then fail InvalidData
       else ret (of_nat (unat time_scale) / (2 * of_nat (unat num_units_in_tick)))))
     else ret 0)"

definition sps_vui :: "(bit_reader, io_error, rat \<times> ColorConfig option) prog" where
  "sps_vui =
     bindE read_bit (\<lambda>vui_parameters_present_flag.
     if vui_parameters_present_flag then
       bindE vui_aspect_ratio (\<lambda>_.
       bindE vui_overscan (\<lambda>_.
       bindE vui_video_signal (\<lambda>color_config.
       bindE vui_chroma_loc (\<lambda>_.
       bindE sps_vui_timing (\<lambda>frame_rate.
       ret (frame_rate, color_config))))))
     else ret (0, None))"

definition sps_parse_bits :: "(bit_reader, io_error, Sps) prog" where
  "sps_parse_bits =
     bindE read_bit (\<lambda>forbidden_zero_bit.
     if forbidden_zero_bit then fail InvalidData else
     bindE (skip_bits 2) (\<lambda>_.
     bindE (read_bits 5) (\<lambda>nal_unit_type.
     if nal_unit_type \<noteq> 7 then fail InvalidData else
     bindE br_read_u8 (\<lambda>profile_idc.
     bindE (skip_bits 8) (\<lambda>_.
     bindE br_read_u8 (\<lambda>level_idc.
     bindE read_exp_golomb (\<lambda>_.
     bindE (if has_sps_ext profile_idc then bindE sps_ext_parse (\<lambda>e. ret (Some e)) else ret None) (\<lambda>ext.
     bindE read_exp_golomb (\<lambda>_.
     bindE sps_pic_order (\<lambda>_.
     bindE read_exp_golomb (\<lambda>_.
     bindE read_bit (\<lambda>_.
     bindE read_exp_golomb (\<lambda>pic_width_in_mbs_minus1.
     bindE read_exp_golomb (\<lambda>pic_height_in_map_units_minus1.
     bindE read_bit (\<lambda>frame_mbs_only_flag.
     bindE (if \<not> frame_mbs_only_flag then skip_bits 1 else ret ()) (\<lambda>_.
     bindE (skip_bits 1) (\<lambda>_.
     bindE sps_cropping (\<lambda>(l, r, t, b).
     bindE (cropped ((unat pic_width_in_mbs_minus1 + 1) * 16) r l) (\<lambda>width.
     bindE (cropped ((2 - (if frame_mbs_only_flag then 1 else 0)) * (unat pic_height_in_map_units_minus1 + 1) * 16) b t) (\<lambda>height.
     bindE sps_vui (\<lambda>(frame_rate, color_config).
     ret \<lparr>sps_profile_idc = profile_idc, sps_level_idc = level_idc, sps_ext = ext, sps_width = width,
          sps_height = height, sps_frame_rate = frame_rate, sps_color_config = color_config\<rparr>)))))))))))))))))))))"

definition sps_parse :: "bytes \<Rightarrow> (io_error, Sps) result" where
  "sps_parse data =
     (case sps_payload data of
        Ok vec \<Rightarrow> fst (sps_parse_bits (br_new_from_slice vec))
      | Err e \<Rightarrow> Err e | Panic \<Rightarrow> Panic | OutOfFuel \<Rightarrow> OutOfFuel)"

section \<open>The syntax of a parameter set\<close>

text \<open>The syntax tables of the standard (sections 7.3.2.1.1 and E.1.1, up to the timing information), as
  data: what a parameter set contains, and the bits that write it.\<close>

abbreviation ue :: "u64 \<Rightarrow> bool list" where "ue \<equiv> eg_bits"
abbreviation se :: "i64 \<Rightarrow> bool list" where "se v \<equiv> eg_bits (zigzag v)"
abbreviation ue_ok :: "u64 \<Rightarrow> bool" where "ue_ok v \<equiv> v \<noteq> 0xFFFFFFFFFFFFFFFF"
abbreviation se_ok :: "i64 \<Rightarrow> bool" where "se_ok v \<equiv> v \<noteq> 0x8000000000000000"

record ext_syntax =
  xs_chroma_format_idc :: u64
  xs_separate_colour_plane :: bool
  xs_bit_depth_luma_minus8 :: u64
  xs_bit_depth_chroma_minus8 :: u64
  xs_transform_bypass :: bool
  xs_scaling_lists :: "i64 list option list option"

definition ext_bits :: "ext_syntax \<Rightarrow> bool list" where
  "ext_bits x = ue (xs_chroma_format_idc x)
     @ (if xs_chroma_format_idc x = 3 then [xs_separate_colour_plane x] else [])
     @ ue (xs_bit_depth_luma_minus8 x) @ ue (xs_bit_depth_chroma_minus8 x) @ [xs_transform_bypass x]
     @ opt_bits (\<lambda>ls. concat (map (opt_bits (\<lambda>ds. concat (map se ds))) ls)) (xs_scaling_lists x)"

text \<open>A list of deltas ends where the scale becomes zero, or after its 16 or 64 entries.\<close>

fun deltas_ok :: "nat \<Rightarrow> int \<Rightarrow> i64 list \<Rightarrow> bool" where
  "deltas_ok 0 next_scale ds \<longleftrightarrow> ds = []"
| "deltas_ok (Suc n) next_scale [] \<longleftrightarrow> False"
| "deltas_ok (Suc n) next_scale (d # ds) \<longleftrightarrow> se_ok d \<and> in_i64 (next_scale + sint d) \<and> in_i64 (next_scale + sint d + 256)
     \<and> (let next' = rust_rem (next_scale + sint d + 256) 256
        in if next' = 0 then ds = [] else deltas_ok n next' ds)"

definition scaling_lists_ok :: "u64 \<Rightarrow> i64 list option list \<Rightarrow> bool" where
  "scaling_lists_ok chroma_format_idc ls \<longleftrightarrow> length ls = (if chroma_format_idc \<noteq> 3 then 8 else 12)
     \<and> (\<forall>i < length ls. \<forall>ds. ls ! i = Some ds \<longrightarrow> deltas_ok (if i < 6 then 16 else 64) 8 ds)"

definition ext_ok :: "ext_syntax \<Rightarrow> bool" where
  "ext_ok x \<longleftrightarrow> ue_ok (xs_chroma_format_idc x) \<and> xs_chroma_format_idc x \<le> 3 \<and> ue_ok (xs_bit_depth_luma_minus8 x) \<and> ue_ok (xs_bit_depth_chroma_minus8 x)
     \<and> (\<forall>ls. xs_scaling_lists x = Some ls \<longrightarrow> scaling_lists_ok (xs_chroma_format_idc x) ls)"

datatype pic_order_syntax = Poc0 u64 | Poc1 bool i64 i64 "i64 list" | PocOther u64

fun poc_bits :: "pic_order_syntax \<Rightarrow> bool list" where
  "poc_bits (Poc0 v) = ue 0 @ ue v"
| "poc_bits (Poc1 z a b refs) = ue 1 @ [z] @ se a @ se b @ ue (word_of_nat (length refs)) @ concat (map se refs)"
| "poc_bits (PocOther t) = ue t"

fun poc_ok :: "pic_order_syntax \<Rightarrow> bool" where
  "poc_ok (Poc0 v) \<longleftrightarrow> ue_ok v"
| "poc_ok (Poc1 z a b refs) \<longleftrightarrow> se_ok a \<and> se_ok b \<and> length refs < 2 ^ 64 - 1 \<and> (\<forall>r \<in> set refs. se_ok r)"
| "poc_ok (PocOther t) \<longleftrightarrow> ue_ok t \<and> t \<noteq> 0 \<and> t \<noteq> 1"

record vui_syntax =
  vs_aspect_ratio :: "(u8 \<times> u32) option"
  vs_overscan :: "bool option"
  vs_video_signal :: "(u64 \<times> bool \<times> (u8 \<times> u8 \<times> u8) option) option"
  vs_chroma_loc :: "(u64 \<times> u64) option"
  vs_timing :: "(u32 \<times> u32) option"

definition vui_bits :: "vui_syntax \<Rightarrow> bool list" where
  "vui_bits v =
     opt_bits (\<lambda>(idc, sar). byte_bits idc @ (if idc = 255 then bits_of (be32 sar) else [])) (vs_aspect_ratio v)
     @ opt_bits (\<lambda>b. [b]) (vs_overscan v)
     @ opt_bits (\<lambda>(fmt, full, desc). to_bits 3 fmt @ [full]
         @ opt_bits (\<lambda>(p, t, m). byte_bits p @ byte_bits t @ byte_bits m) desc) (vs_video_signal v)
     @ opt_bits (\<lambda>(t, b). ue t @ ue b) (vs_chroma_loc v)
     @ opt_bits (\<lambda>(u, t). bits_of (be32 u) @ bits_of (be32 t)) (vs_timing v)"

definition vui_ok :: "vui_syntax \<Rightarrow> bool" where
  "vui_ok v \<longleftrightarrow> (\<forall>t b. vs_chroma_loc v = Some (t, b) \<longrightarrow> ue_ok t \<and> ue_ok b)
     \<and> (\<forall>u t. vs_timing v = Some (u, t) \<longrightarrow> u \<noteq> 0)"

record sps_syntax =
  ss_nal_ref_idc :: u64
  ss_profile_idc :: u8
  ss_constraint_flags :: u8
  ss_level_idc :: u8
  ss_id :: u64
  ss_ext :: ext_syntax
  ss_log2_max_frame_num_minus4 :: u64
  ss_pic_order :: pic_order_syntax
  ss_max_num_ref_frames :: u64
  ss_gaps_allowed :: bool
  ss_pic_width_in_mbs_minus1 :: u64
  ss_pic_height_in_map_units_minus1 :: u64
  ss_frame_mbs_only :: bool
  ss_mb_adaptive :: bool
  ss_direct_8x8 :: bool
  ss_crop :: "(u64 \<times> u64 \<times> u64 \<times> u64) option"
  ss_vui :: "vui_syntax option"

definition sps_bits :: "sps_syntax \<Rightarrow> bool list" where
  "sps_bits s = [False] @ to_bits 2 (ss_nal_ref_idc s) @ to_bits 5 (7 :: u64) @ byte_bits (ss_profile_idc s)
     @ byte_bits (ss_constraint_flags s) @ byte_bits (ss_level_idc s) @ ue (ss_id s)
     @ (if has_sps_ext (ss_profile_idc s) then ext_bits (ss_ext s) else [])
     @ ue (ss_log2_max_frame_num_minus4 s) @ poc_bits (ss_pic_order s) @ ue (ss_max_num_ref_frames s)
     @ [ss_gaps_allowed s] @ ue (ss_pic_width_in_mbs_minus1 s) @ ue (ss_pic_height_in_map_units_minus1 s)
     @ [ss_frame_mbs_only s] @ (if \<not> ss_frame_mbs_only s then [ss_mb_adaptive s] else []) @ [ss_direct_8x8 s]
     @ opt_bits (\<lambda>(l, r, t, b). ue l @ ue r @ ue t @ ue b) (ss_crop s)
     @ opt_bits vui_bits (ss_vui s)"

section \<open>What a parameter set means\<close>

definition crop_of :: "sps_syntax \<Rightarrow> u64 \<times> u64 \<times> u64 \<times> u64" where
  "crop_of s = (case ss_crop s of Some c \<Rightarrow> c | None \<Rightarrow> (0, 0, 0, 0))"

text \<open>The cropping offsets count in units that depend on the chroma format and on interlacing (section 7.4.2.1.1 of the
  standard, \<^verbatim>\<open>CropUnitX\<close> and \<^verbatim>\<open>CropUnitY\<close>). The chroma format is 4:2:0 where the profile does not carry it; separately
  coded colour planes count as monochrome.\<close>

definition chroma_array_type :: "sps_syntax \<Rightarrow> u64" where
  "chroma_array_type s =
     (if has_sps_ext (ss_profile_idc s) then
        if xs_chroma_format_idc (ss_ext s) = 3 \<and> xs_separate_colour_plane (ss_ext s) then 0 else xs_chroma_format_idc (ss_ext s)
      else 1)"

definition crop_unit_x :: "sps_syntax \<Rightarrow> int" where
  "crop_unit_x s = (if chroma_array_type s = 1 \<or> chroma_array_type s = 2 then 2 else 1)"

definition crop_unit_y :: "sps_syntax \<Rightarrow> int" where
  "crop_unit_y s = (if chroma_array_type s = 1 then 2 else 1) * (2 - of_bool (ss_frame_mbs_only s))"

definition width_of :: "sps_syntax \<Rightarrow> int" where
  "width_of s = (case crop_of s of (l, r, t, b) \<Rightarrow>
     16 * (uint (ss_pic_width_in_mbs_minus1 s) + 1) - crop_unit_x s * (uint l + uint r))"

definition height_of :: "sps_syntax \<Rightarrow> int" where
  "height_of s = (case crop_of s of (l, r, t, b) \<Rightarrow>
     16 * (2 - of_bool (ss_frame_mbs_only s)) * (uint (ss_pic_height_in_map_units_minus1 s) + 1) - crop_unit_y s * (uint t + uint b))"

text \<open>The code takes both units to be 2. This is right for progressive 4:2:0 pictures; elsewhere it is right only where
  nothing is cropped.\<close>

definition coded_width :: "sps_syntax \<Rightarrow> int" where
  "coded_width s = (case crop_of s of (l, r, t, b) \<Rightarrow>
     16 * (uint (ss_pic_width_in_mbs_minus1 s) + 1) - 2 * uint l - 2 * uint r)"

definition coded_height :: "sps_syntax \<Rightarrow> int" where
  "coded_height s = (case crop_of s of (l, r, t, b) \<Rightarrow>
     16 * (2 - of_bool (ss_frame_mbs_only s)) * (uint (ss_pic_height_in_map_units_minus1 s) + 1) - 2 * uint t - 2 * uint b)"

definition crop_agrees :: "sps_syntax \<Rightarrow> bool" where
  "crop_agrees s \<longleftrightarrow> (case crop_of s of (l, r, t, b) \<Rightarrow>
     (crop_unit_x s = 2 \<or> l = 0 \<and> r = 0) \<and> (crop_unit_y s = 2 \<or> t = 0 \<and> b = 0))"

definition color_of :: "vui_syntax \<Rightarrow> ColorConfig option" where
  "color_of v = map_option (\<lambda>(fmt, full, desc). case desc of
       Some (p, t, m) \<Rightarrow> \<lparr>cc_full_range = full, cc_color_primaries = p, cc_transfer_characteristics = t, cc_matrix_coefficients = m\<rparr>
     | None \<Rightarrow> \<lparr>cc_full_range = full, cc_color_primaries = 2, cc_transfer_characteristics = 2, cc_matrix_coefficients = 2\<rparr>)
     (vs_video_signal v)"

definition frame_rate_of :: "vui_syntax \<Rightarrow> rat" where
  "frame_rate_of v = (case vs_timing v of Some (u, t) \<Rightarrow> of_nat (unat t) / (2 * of_nat (unat u)) | None \<Rightarrow> 0)"

definition ext_of :: "ext_syntax \<Rightarrow> SpsExtended" where
  "ext_of x = \<lparr>se_chroma_format_idc = xs_chroma_format_idc x, se_bit_depth_luma_minus8 = xs_bit_depth_luma_minus8 x,
     se_bit_depth_chroma_minus8 = xs_bit_depth_chroma_minus8 x\<rparr>"

definition sps_of :: "sps_syntax \<Rightarrow> Sps" where
  "sps_of s = \<lparr>sps_profile_idc = ss_profile_idc s, sps_level_idc = ss_level_idc s,
     sps_ext = (if has_sps_ext (ss_profile_idc s) then Some (ext_of (ss_ext s)) else None),
     sps_width = word_of_int (width_of s), sps_height = word_of_int (height_of s),
     sps_frame_rate = (case ss_vui s of Some v \<Rightarrow> frame_rate_of v | None \<Rightarrow> 0),
     sps_color_config = (case ss_vui s of Some v \<Rightarrow> color_of v | None \<Rightarrow> None)\<rparr>"

text \<open>What the parser makes of it: all of this, with the size computed in units of 2.\<close>

definition parsed_of :: "sps_syntax \<Rightarrow> Sps" where
  "parsed_of s = (sps_of s)\<lparr>sps_width := word_of_int (coded_width s), sps_height := word_of_int (coded_height s)\<rparr>"

text \<open>The numbers fit their codes, the macroblock counts are below \<open>2 ^ 32\<close> and the cropping, in units of 2, leaves a picture.\<close>

definition sps_ok :: "sps_syntax \<Rightarrow> bool" where
  "sps_ok s \<longleftrightarrow> ue_ok (ss_id s) \<and> (has_sps_ext (ss_profile_idc s) \<longrightarrow> ext_ok (ss_ext s))
     \<and> ue_ok (ss_log2_max_frame_num_minus4 s) \<and> poc_ok (ss_pic_order s) \<and> ue_ok (ss_max_num_ref_frames s)
     \<and> unat (ss_pic_width_in_mbs_minus1 s) < 2 ^ 32 \<and> unat (ss_pic_height_in_map_units_minus1 s) < 2 ^ 32
     \<and> (\<forall>v. ss_vui s = Some v \<longrightarrow> vui_ok v) \<and> 0 \<le> coded_width s \<and> 0 \<le> coded_height s"

section \<open>The parser follows the syntax\<close>

lemma reads_skip: "k = int (length b) \<Longrightarrow> reads_bits (skip_bits k) b ()"
  unfolding skip_bits_def using reads_skip_bind [OF _ reads_ret, of k b "()"] by simp

lemma reads_scaling_list: "deltas_ok n next_scale ds \<Longrightarrow> reads_bits (scaling_list_loop n next_scale) (concat (map se ds)) ()"
proof (induction n next_scale ds rule: deltas_ok.induct)
  case (3 n next_scale d ds)
  then show ?case
    by (auto simp: Let_def intro!: reads_bind [where x = d] reads_intros)
qed (auto intro: reads_intros)

lemma reads_scaling_matrix:
  assumes "scaling_lists_ok c ls"
  shows "reads_bits (scaling_matrix c) (concat (map (opt_bits (\<lambda>ds. concat (map se ds))) ls)) ()"
proof -
  let ?body = "\<lambda>i. bindE read_bit (\<lambda>present. if present then scaling_list_loop (if i < 6 then 16 else 64) 8 else ret ())"
  have "reads_bits (for_m [k..<k + length xs] ?body) (concat (map (opt_bits (\<lambda>ds. concat (map se ds))) xs)) ()"
    if "\<forall>i < length xs. \<forall>ds. xs ! i = Some ds \<longrightarrow> deltas_ok (if k + i < 6 then 16 else 64) 8 ds" for k xs
    using that
  proof (induction xs arbitrary: k)
    case (Cons x xs)
    have "reads_bits (?body k) (opt_bits (\<lambda>ds. concat (map se ds)) x) ()"
    proof (rule reads_opt)
      fix ds assume "x = Some ds"
      with Cons.prems [rule_format, of 0 ds]
      show "reads_bits (scaling_list_loop (if k < 6 then 16 else 64) 8) (concat (map se ds)) ()"
        by (intro reads_scaling_list) simp
    qed (rule reads_ret)
    moreover have "reads_bits (for_m [Suc k..<Suc k + length xs] ?body) (concat (map (opt_bits (\<lambda>ds. concat (map se ds))) xs)) ()"
    proof (rule Cons.IH, intro allI impI)
      fix i ds assume "i < length xs" "xs ! i = Some ds"
      with Cons.prems [rule_format, of "Suc i" ds] show "deltas_ok (if Suc k + i < 6 then 16 else 64) 8 ds" by simp
    qed
    ultimately have "reads_bits (bindE (?body k) (\<lambda>_. for_m [Suc k..<Suc k + length xs] ?body))
       (opt_bits (\<lambda>ds. concat (map se ds)) x @ concat (map (opt_bits (\<lambda>ds. concat (map se ds))) xs)) ()"
      by (rule reads_bind)
    moreover have "[k..<k + length (x # xs)] = k # [Suc k..<Suc k + length xs]"
      using upt_conv_Cons [of k "k + length (x # xs)"] by simp
    ultimately show ?case by (simp only: for_m.simps list.map concat.simps)
  qed (simp add: reads_ret)
  from this [of ls 0] assms show ?thesis by (simp add: scaling_matrix_def scaling_lists_ok_def)
qed

lemma reads_ext:
  assumes "ext_ok x"
  shows "reads_bits sps_ext_parse (ext_bits x) (ext_of x)"
proof -
  have sep: "reads_bits (if xs_chroma_format_idc x = 3 then bindE read_bit (\<lambda>_. ret ()) else ret ())
     (if xs_chroma_format_idc x = 3 then [xs_separate_colour_plane x] else []) ()"
    by (rule reads_if) (rule reads_ignore [OF reads_read_bit] reads_ret)+
  have scaling: "reads_bits (bindE read_bit (\<lambda>f. if f then scaling_matrix (xs_chroma_format_idc x) else ret ()))
     (opt_bits (\<lambda>ls. concat (map (opt_bits (\<lambda>ds. concat (map se ds))) ls)) (xs_scaling_lists x)) ()"
    by (rule reads_opt) (use assms in \<open>auto simp: ext_ok_def intro: reads_scaling_matrix reads_ret\<close>)
  show ?thesis
    unfolding sps_ext_parse_def ext_bits_def
    apply (rule reads_bind [OF reads_golomb(1)])
     apply (use assms in \<open>simp add: ext_ok_def\<close>)
    apply (rule reads_bind [OF sep])
    apply (rule reads_bind [OF reads_golomb(1)])
     apply (use assms in \<open>simp add: ext_ok_def\<close>)
    apply (rule reads_bind [OF reads_golomb(1)])
     apply (use assms in \<open>simp add: ext_ok_def\<close>)
    apply (rule reads_bind [OF reads_read_bit])
    apply (subst bindE_assoc [symmetric])
    apply (rule reads_bind_last [OF scaling])
    apply (simp add: ext_of_def reads_ret)
    done
qed

lemma reads_poc:
  assumes "poc_ok p"
  shows "reads_bits sps_pic_order (poc_bits p) ()"
proof (cases p)
  case (Poc0 v)
  with assms have "reads_bits (bindE read_exp_golomb (\<lambda>_. ret ())) (ue v) ()"
    by (intro reads_ignore [OF reads_golomb(1)]) simp
  then show ?thesis unfolding sps_pic_order_def Poc0 poc_bits.simps
    by (intro reads_bind [OF reads_golomb(1)]) simp_all
next
  case (Poc1 z a b refs)
  have n: "unat (word_of_nat (length refs) :: u64) = length refs" "ue_ok (word_of_nat (length refs))"
    using assms Poc1 by (auto simp: unat_of_nat word_unat_eq_iff)
  have "reads_bits (bindE (repeat_m (unat (word_of_nat (length refs) :: u64)) read_signed_exp_golomb) (\<lambda>_. ret ()))
      (concat (map se refs)) ()"
    by (rule reads_ignore [OF reads_repeat]) (use assms Poc1 n in \<open>auto intro: reads_golomb\<close>)
  then have "reads_bits (bindE (skip_bits 1) (\<lambda>_. bindE read_signed_exp_golomb (\<lambda>_. bindE read_signed_exp_golomb (\<lambda>_.
       bindE read_exp_golomb (\<lambda>num. bindE (repeat_m (unat num) read_signed_exp_golomb) (\<lambda>_. ret ()))))))
      ([z] @ se a @ se b @ ue (word_of_nat (length refs)) @ concat (map se refs)) ()"
    using assms Poc1 n by (intro reads_bind [OF reads_skip] reads_bind [OF reads_golomb(1)] reads_bind [OF reads_golomb(2)]) auto
  then show ?thesis unfolding sps_pic_order_def Poc1 poc_bits.simps
    by (intro reads_bind [OF reads_golomb(1)]) simp_all
next
  case (PocOther t)
  with assms show ?thesis unfolding sps_pic_order_def
    by (auto intro!: reads_bind_last [OF reads_golomb(1)] reads_ret)
qed

text \<open>The parts of the video usability information.\<close>

lemma reads_sar: "reads_bits (bindE (skip_bits 16) (\<lambda>_. skip_bits 16)) (bits_of (be32 sar)) ()"
proof -
  have "reads_bits (skip_bits 16) (bits_of (take 2 (be32 sar))) ()" "reads_bits (skip_bits 16) (bits_of (drop 2 (be32 sar))) ()"
    by (rule reads_skip; simp)+
  from reads_bind [OF this] show ?thesis by (simp flip: bits_of_simps(3))
qed

lemma reads_aspect_ratio:
  "reads_bits vui_aspect_ratio (opt_bits (\<lambda>(idc, sar). byte_bits idc @ (if idc = 255 then bits_of (be32 sar) else [])) x) ()"
  unfolding vui_aspect_ratio_def
proof (rule reads_opt)
  fix v :: "u8 \<times> u32"
  obtain idc sar where v: "v = (idc, sar)" by (cases v)
  show "reads_bits (bindE br_read_u8 (\<lambda>aspect_ratio_idc. if aspect_ratio_idc = 255
       then bindE (skip_bits 16) (\<lambda>_. skip_bits 16) else ret ()))
     (case v of (idc, sar) \<Rightarrow> byte_bits idc @ (if idc = 255 then bits_of (be32 sar) else [])) ()"
    unfolding v prod.case by (intro reads_bind [OF reads_ints(1)] reads_if reads_ret reads_sar)
qed (rule reads_ret)

lemma reads_overscan: "reads_bits vui_overscan (opt_bits (\<lambda>b. [b]) x) ()"
  unfolding vui_overscan_def by (rule reads_opt) (auto intro: reads_skip reads_ret)

lemma reads_chroma_loc:
  "(\<And>t b. x = Some (t, b) \<Longrightarrow> ue_ok t \<and> ue_ok b) \<Longrightarrow>
   reads_bits vui_chroma_loc (opt_bits (\<lambda>(t, b). ue t @ ue b) x) ()"
  unfolding vui_chroma_loc_def
  by (rule reads_opt) (auto intro!: reads_bind [OF reads_golomb(1)] reads_ignore reads_golomb reads_ret)

lemma reads_timing:
  "(\<And>u t. vs_timing v = Some (u, t) \<Longrightarrow> u \<noteq> 0) \<Longrightarrow>
   reads_bits sps_vui_timing (opt_bits (\<lambda>(u, t). bits_of (be32 u) @ bits_of (be32 t)) (vs_timing v)) (frame_rate_of v)"
  unfolding sps_vui_timing_def
  by (rule reads_opt) (auto simp: frame_rate_of_def intro!: reads_bind [OF reads_ints(3)] reads_bind_last [OF reads_ints(3)] reads_ret)

lemma reads_video_signal:
  "reads_bits vui_video_signal (opt_bits (\<lambda>(fmt, full, desc). to_bits 3 fmt @ [full]
         @ opt_bits (\<lambda>(p, t, m). byte_bits p @ byte_bits t @ byte_bits m) desc) (vs_video_signal v)) (color_of v)"
  unfolding vui_video_signal_def
proof (rule reads_opt)
  fix x assume x: "vs_video_signal v = Some x"
  obtain fmt full desc where x': "x = (fmt, full, desc)" by (cases x)
  let ?d = "case desc of Some d \<Rightarrow> d | None \<Rightarrow> (2, 2, 2)"
  have d: "reads_bits (bindE read_bit (\<lambda>f. if f then bindE br_read_u8 (\<lambda>p. bindE br_read_u8 (\<lambda>t. bindE br_read_u8 (\<lambda>m. ret (p, t, m))))
      else ret (2, 2, 2))) (opt_bits (\<lambda>(p, t, m). byte_bits p @ byte_bits t @ byte_bits m) desc) ?d"
    by (rule reads_opt) (auto intro!: reads_bind [OF reads_ints(1)] reads_bind_last [OF reads_ints(1)] reads_ret)
  show "reads_bits (bindE (skip_bits 3) (\<lambda>_. bindE read_bit (\<lambda>full_range. bindE read_bit (\<lambda>colour_description_present_flag.
       bindE (if colour_description_present_flag then
                bindE br_read_u8 (\<lambda>color_primaries.
                bindE br_read_u8 (\<lambda>transfer_characteristics.
                bindE br_read_u8 (\<lambda>matrix_coefficients.
                ret (color_primaries, transfer_characteristics, matrix_coefficients))))
              else ret (2, 2, 2)) (\<lambda>(color_primaries, transfer_characteristics, matrix_coefficients).
       ret (Some \<lparr>cc_full_range = full_range, cc_color_primaries = color_primaries,
         cc_transfer_characteristics = transfer_characteristics, cc_matrix_coefficients = matrix_coefficients\<rparr>))))))
     (case x of (fmt, full, desc) \<Rightarrow> to_bits 3 fmt @ [full]
         @ opt_bits (\<lambda>(p, t, m). byte_bits p @ byte_bits t @ byte_bits m) desc) (color_of v)"
    unfolding x' prod.case
    apply (rule reads_bind [OF reads_skip])
     apply simp
    apply (rule reads_bind [OF reads_read_bit])
    apply (subst bindE_assoc [symmetric])
    apply (rule reads_bind_last [OF d])
    apply (auto simp: color_of_def x x' reads_ret split: option.splits prod.splits)
    done
qed (simp add: color_of_def reads_ret)

lemma reads_vui:
  assumes "\<And>v. x = Some v \<Longrightarrow> vui_ok v"
  shows "reads_bits sps_vui (opt_bits vui_bits x)
     (case x of Some v \<Rightarrow> frame_rate_of v | None \<Rightarrow> 0, case x of Some v \<Rightarrow> color_of v | None \<Rightarrow> None)"
  unfolding sps_vui_def
proof (rule reads_opt)
  fix v assume x: "x = Some v"
  with assms have "vui_ok v" by simp
  then have "reads_bits vui_chroma_loc (opt_bits (\<lambda>(t, b). ue t @ ue b) (vs_chroma_loc v)) ()"
    "reads_bits sps_vui_timing (opt_bits (\<lambda>(u, t). bits_of (be32 u) @ bits_of (be32 t)) (vs_timing v)) (frame_rate_of v)"
    by (auto simp: vui_ok_def intro!: reads_chroma_loc reads_timing)
  then show "reads_bits (bindE vui_aspect_ratio (\<lambda>_. bindE vui_overscan (\<lambda>_. bindE vui_video_signal (\<lambda>color_config.
       bindE vui_chroma_loc (\<lambda>_. bindE sps_vui_timing (\<lambda>frame_rate. ret (frame_rate, color_config))))))) (vui_bits v)
     (case x of Some v \<Rightarrow> frame_rate_of v | None \<Rightarrow> 0, case x of Some v \<Rightarrow> color_of v | None \<Rightarrow> None)"
    unfolding vui_bits_def x option.case
    by (intro reads_bind [OF reads_aspect_ratio] reads_bind [OF reads_overscan] reads_bind [OF reads_video_signal]
        reads_bind [where m = vui_chroma_loc] reads_map [where m = sps_vui_timing]) simp_all
qed (simp add: reads_ret)

lemma reads_cropping:
  assumes "\<And>l r t b. ss_crop s = Some (l, r, t, b) \<Longrightarrow> ue_ok l \<and> ue_ok r \<and> ue_ok t \<and> ue_ok b"
  shows "reads_bits sps_cropping (opt_bits (\<lambda>(l, r, t, b). ue l @ ue r @ ue t @ ue b) (ss_crop s)) (crop_of s)"
  unfolding sps_cropping_def
  by (rule reads_opt) (use assms in \<open>auto simp: crop_of_def intro!: reads_bind [OF reads_golomb(1)]
      reads_bind_last [OF reads_golomb(1)] reads_ret\<close>)

text \<open>The size computed with overflow checks is the size of the cropped picture.\<close>

lemma reads_cropped:
  assumes "full < 2 ^ 64" "int full - 2 * int (unat a) - 2 * int (unat b) = n" "0 \<le> n"
  shows "reads_bits (cropped full a b) [] (word_of_int n)"
proof -
  have le: "unat a * 2 + unat b * 2 \<le> full" using assms(2,3) by linarith
  define m where "m = full - unat a * 2 - unat b * 2"
  have "int m = n" using assms(2) le unfolding m_def by linarith
  then have "(word_of_nat m :: u64) = word_of_int n" by (metis of_int_of_nat_eq)
  moreover have "(cropped full a b :: (bit_reader, io_error, u64) prog) = ret (word_of_nat m)"
    unfolding cropped_def m_def using le assms(1) by (intro if_P) linarith
  ultimately show ?thesis using reads_ret [of "word_of_int n :: u64"] by simp
qed

lemma ue_ok_bound: "2 * int (unat v) < 2 ^ 40 \<Longrightarrow> ue_ok v"
  by auto

lemma sps_dims:
  assumes "sps_ok s" "crop_of s = (l, r, t, b)"
  shows "reads_bits (cropped ((unat (ss_pic_width_in_mbs_minus1 s) + 1) * 16) r l) [] (word_of_int (coded_width s))"
    "reads_bits (cropped ((2 - (if ss_frame_mbs_only s then 1 else 0)) * (unat (ss_pic_height_in_map_units_minus1 s) + 1) * 16) b t) []
       (word_of_int (coded_height s))"
    "ue_ok l \<and> ue_ok r \<and> ue_ok t \<and> ue_ok b"
proof -
  define W where "W = unat (ss_pic_width_in_mbs_minus1 s)"
  define H where "H = unat (ss_pic_height_in_map_units_minus1 s)"
  define k :: nat where "k = (if ss_frame_mbs_only s then 1 else 2)"
  have ok: "W < 2 ^ 32" "H < 2 ^ 32" "0 \<le> coded_width s" "0 \<le> coded_height s"
    using assms(1) by (simp_all add: sps_ok_def W_def H_def)
  have w: "coded_width s = 16 * (int W + 1) - 2 * int (unat l) - 2 * int (unat r)"
    and h: "coded_height s = 16 * int k * (int H + 1) - 2 * int (unat t) - 2 * int (unat b)"
    by (simp_all add: coded_width_def coded_height_def assms(2) W_def H_def k_def)
  have k: "2 - (if ss_frame_mbs_only s then 1 else 0) = k" "k = 1 \<or> k = 2" by (simp_all add: k_def)
  have "(W + 1) * 16 < 2 ^ 64" using ok(1) by simp
  moreover have "int ((W + 1) * 16) - 2 * int (unat r) - 2 * int (unat l) = coded_width s" using w by simp
  ultimately show "reads_bits (cropped ((unat (ss_pic_width_in_mbs_minus1 s) + 1) * 16) r l) [] (word_of_int (coded_width s))"
    unfolding W_def [symmetric] using ok(3) by (intro reads_cropped)
  have "k * (H + 1) * 16 < 2 ^ 64" "int (k * (H + 1) * 16) - 2 * int (unat b) - 2 * int (unat t) = coded_height s"
    using ok(2) h k(2) by auto
  then show "reads_bits (cropped ((2 - (if ss_frame_mbs_only s then 1 else 0)) * (unat (ss_pic_height_in_map_units_minus1 s) + 1) * 16) b t) []
       (word_of_int (coded_height s))"
    unfolding H_def [symmetric] k(1) using ok(4) by (intro reads_cropped)
  have bound: "2 * x < 2 ^ 40 \<and> 2 * y < 2 ^ 40"
    if "F - 2 * x - 2 * y = n" "0 \<le> n" "0 \<le> x" "0 \<le> y" "F < 2 ^ 40" for F x y n :: int
    using that by linarith
  have "2 * int (unat l) < 2 ^ 40 \<and> 2 * int (unat r) < 2 ^ 40"
    by (rule bound [OF w [symmetric] ok(3)]) (use ok(1) in simp_all)
  moreover have "2 * int (unat t) < 2 ^ 40 \<and> 2 * int (unat b) < 2 ^ 40"
    by (rule bound [OF h [symmetric] ok(4)]) (use ok(2) k(2) in auto)
  ultimately show "ue_ok l \<and> ue_ok r \<and> ue_ok t \<and> ue_ok b" by (intro conjI ue_ok_bound; blast)
qed

lemma reads_nothing: "reads_bits m [] x \<Longrightarrow> reads_bits (f x) b y \<Longrightarrow> reads_bits (bindE m f) b y"
  using reads_bind [of m "[]" x f b y] by simp

lemma reads_sps:
  assumes ok: "sps_ok s"
  shows "reads_bits sps_parse_bits (sps_bits s) (parsed_of s)"
proof -
  obtain l r t b where c: "crop_of s = (l, r, t, b)" by (cases "crop_of s")
  note dims = sps_dims [OF ok c]
  have golomb: "ue_ok (ss_id s)" "ue_ok (ss_log2_max_frame_num_minus4 s)" "ue_ok (ss_max_num_ref_frames s)"
    "ue_ok (ss_pic_width_in_mbs_minus1 s)" "ue_ok (ss_pic_height_in_map_units_minus1 s)"
    using ok by (auto simp: sps_ok_def)
  have crop: "reads_bits sps_cropping (opt_bits (\<lambda>(l, r, t, b). ue l @ ue r @ ue t @ ue b) (ss_crop s)) (l, r, t, b)"
    using reads_cropping [of s] dims(3) c by (fastforce simp: crop_of_def)
  have ext: "reads_bits (if has_sps_ext (ss_profile_idc s) then bindE sps_ext_parse (\<lambda>e. ret (Some e)) else ret None)
      (if has_sps_ext (ss_profile_idc s) then ext_bits (ss_ext s) else [])
      (if has_sps_ext (ss_profile_idc s) then Some (ext_of (ss_ext s)) else None)"
    using ok by (auto simp: sps_ok_def intro: reads_map [OF reads_ext] reads_ret)
  have poc: "reads_bits sps_pic_order (poc_bits (ss_pic_order s)) ()"
    using ok by (simp add: sps_ok_def reads_poc)
  have adaptive: "reads_bits (if \<not> ss_frame_mbs_only s then skip_bits 1 else ret ())
      (if \<not> ss_frame_mbs_only s then [ss_mb_adaptive s] else []) ()"
    by (simp add: reads_skip reads_ret)
  have vui: "reads_bits sps_vui (opt_bits vui_bits (ss_vui s)) (sps_frame_rate (sps_of s), sps_color_config (sps_of s))"
    using reads_vui [of "ss_vui s"] ok by (simp add: sps_ok_def sps_of_def)
  have seven: "reads_bits (read_bits 5) (to_bits 5 (7 :: u64)) 7"
    by (rule reads_field) (simp_all add: take_bit_eq_mask mask_eq_exp_minus_1)
  have skip2: "reads_bits (skip_bits 2) (to_bits 2 (ss_nal_ref_idc s)) ()"
    and skip8: "reads_bits (skip_bits 8) (byte_bits (ss_constraint_flags s)) ()"
    and skip1: "reads_bits (skip_bits 1) [ss_direct_8x8 s] ()"
    by (rule reads_skip; simp)+
  show ?thesis
    unfolding sps_parse_bits_def sps_bits_def
    apply (rule reads_bind [OF reads_read_bit], simp only: if_False)
    apply (rule reads_bind [OF skip2], rule reads_bind [OF seven], simp only: if_False simp_thms)
    apply (rule reads_bind [OF reads_ints(1)], rule reads_bind [OF skip8], rule reads_bind [OF reads_ints(1)])
    apply (rule reads_bind [OF reads_golomb(1)], rule golomb)
    apply (rule reads_bind [OF ext], rule reads_bind [OF reads_golomb(1)], rule golomb)
    apply (rule reads_bind [OF poc], rule reads_bind [OF reads_golomb(1)], rule golomb)
    apply (rule reads_bind [OF reads_read_bit], rule reads_bind [OF reads_golomb(1)], rule golomb)
    apply (rule reads_bind [OF reads_golomb(1)], rule golomb)
    apply (rule reads_bind [OF reads_read_bit], rule reads_bind [OF adaptive], rule reads_bind [OF skip1])
    apply (rule reads_bind [OF crop], simp only: prod.case)
    apply (rule reads_nothing [OF dims(1)], rule reads_nothing [OF dims(2)], rule reads_bind_last [OF vui])
    apply (simp add: parsed_of_def sps_of_def reads_ret)
    done
qed

section \<open>Emulation prevention\<close>

text \<open>The encoder's side (section 7.4.1 of the standard): a byte 3 is inserted behind two zero bytes when the
  next byte is at most 3. The first argument counts the zero bytes just written.\<close>

fun escape :: "nat \<Rightarrow> bytes \<Rightarrow> bytes" where
  "escape z [] = []"
| "escape z (x # xs) =
     (if z = 2 \<and> x \<le> 3 then 3 # x # escape (if x = 0 then 1 else 0) xs
      else x # escape (if x = 0 then min 2 (z + 1) else 0) xs)"

lemma escape_resets: "x \<noteq> 0 \<Longrightarrow> z < 2 \<Longrightarrow> escape z (x # xs) = escape 0 (x # xs)"
  by simp

lemma length_escape: "length xs \<le> length (escape z xs)"
  by (induction z xs rule: escape.induct) auto

lemma escape_step:
  assumes "\<not> (\<exists>b r. a = 0 \<and> q = 0 # b # r \<and> b \<le> 3)"
  shows "escape 0 (a # q) = a # escape 0 q" "\<not> (a = 0 \<and> take 2 (escape 0 q) = [0, 3])"
proof -
  show "escape 0 (a # q) = a # escape 0 q"
  proof (cases "a = 0 \<and> (\<exists>r. q = 0 # r)")
    case True
    then obtain r where q: "a = 0" "q = 0 # r" by blast
    show ?thesis
    proof (cases r)
      case (Cons b r')
      with assms q have "\<not> b \<le> 3" by blast
      then have "b \<noteq> 0" by auto
      with \<open>\<not> b \<le> 3\<close> show ?thesis by (simp add: q Cons)
    qed (simp add: q)
  next
    case False
    then show ?thesis by (cases q) auto
  qed
  show "\<not> (a = 0 \<and> take 2 (escape 0 q) = [0, 3])"
  proof
    assume a: "a = 0 \<and> take 2 (escape 0 q) = [0, 3]"
    then obtain r where r: "q = 0 # r" by (cases q) auto
    with a obtain r' where "r = 3 # r'" by (cases r) auto
    with assms a r show False by simp
  qed
qed

text \<open>The bytes of the payload come back, except for at most three at the end.\<close>

lemma strip_escape: "\<exists>t. length t \<le> 3 \<and> q = strip_emulation (escape 0 q) @ t"
proof (induction q rule: length_induct)
  case (1 q)
  show ?case
  proof (cases "length (escape 0 q) \<le> 3")
    case True
    then have "strip_emulation (escape 0 q) = []"
      by (cases "escape 0 q" rule: strip_emulation.cases) auto
    moreover have "length q \<le> 3" using True length_escape [of q 0] by linarith
    ultimately show ?thesis by simp
  next
    case False
    then obtain a q1 where q: "q = a # q1" by (cases q) auto
    show ?thesis
    proof (cases "\<exists>b r. a = 0 \<and> q1 = 0 # b # r \<and> b \<le> 3")
      case True
      then obtain b r where br: "a = 0" "q1 = 0 # b # r" "b \<le> 3" by blast
      then have "escape 0 q = 0 # 0 # 3 # escape 0 (b # r)" by (simp add: q)
      then have "strip_emulation (escape 0 q) = 0 # 0 # strip_emulation (escape 0 (b # r))"
        by (cases "escape 0 (b # r)") auto
      moreover obtain t where "length t \<le> 3" "b # r = strip_emulation (escape 0 (b # r)) @ t"
        using "1.IH" [rule_format, of "b # r"] br q by auto
      ultimately show ?thesis using br q by (intro exI [of _ t]) (simp del: escape.simps)
    next
      case no: False
      note e = escape_step [OF no]
      have strip: "strip_emulation (x # ys) = x # strip_emulation ys"
        if "length ys > 2" "\<not> (x = 0 \<and> take 2 ys = [0, 3])" for x ys
        using that by (cases "x # ys" rule: strip_emulation.cases) auto
      have "strip_emulation (escape 0 q) = a # strip_emulation (escape 0 q1)"
        using strip [of "escape 0 q1" a] False e by (simp add: q)
      moreover obtain t where "length t \<le> 3" "q1 = strip_emulation (escape 0 q1) @ t"
        using "1.IH" [rule_format, of q1] q by auto
      ultimately show ?thesis using q by (intro exI [of _ t]) simp
    qed
  qed
qed

text \<open>A parser that stops at least three bytes before the end of the payload does not notice the lost ones.\<close>

lemma reads_escaped:
  assumes m: "reads_bits m bits x" and q: "bits_of q = bits @ rest" and r: "24 \<le> length rest"
  shows "fst (m (br_new_from_slice (strip_emulation (escape 0 q)))) = Ok x" "3 \<le> length (escape 0 q)"
proof -
  obtain t where t: "length t \<le> 3" "q = strip_emulation (escape 0 q) @ t" using strip_escape by blast
  let ?p = "strip_emulation (escape 0 q)"
  have "bits_of ?p @ bits_of t = bits @ rest" using q t(2) by (metis bits_of_simps(3))
  moreover have "length (bits_of t) \<le> length rest" using t(1) r by simp
  ultimately obtain rest' where "bits_of ?p = bits @ rest'"
    unfolding append_eq_append_conv2 by (metis append_Nil2 append_eq_append_conv_if append_self_conv2 le_antisym
        length_append le_add2 append_eq_append_conv)
  from reads_slice [OF m this] show "fst (m (br_new_from_slice ?p)) = Ok x" .
  show "3 \<le> length (escape 0 q)"
    using arg_cong [OF q, of length] r length_escape [of q 0] by simp
qed

text \<open>The smallest parameter set, as an example.\<close>

definition example_sps :: sps_syntax where
  "example_sps = \<lparr>ss_nal_ref_idc = 3, ss_profile_idc = 66, ss_constraint_flags = 0, ss_level_idc = 30, ss_id = 0,
     ss_ext = \<lparr>xs_chroma_format_idc = 0, xs_separate_colour_plane = False, xs_bit_depth_luma_minus8 = 0,
       xs_bit_depth_chroma_minus8 = 0, xs_transform_bypass = False, xs_scaling_lists = None\<rparr>,
     ss_log2_max_frame_num_minus4 = 0, ss_pic_order = Poc0 0, ss_max_num_ref_frames = 0, ss_gaps_allowed = False,
     ss_pic_width_in_mbs_minus1 = 0, ss_pic_height_in_map_units_minus1 = 0, ss_frame_mbs_only = True,
     ss_mb_adaptive = False, ss_direct_8x8 = False, ss_crop = None, ss_vui = None\<rparr>"

abbreviation example_sps_unit :: bytes where
  "example_sps_unit \<equiv> [0x67, 0x42, 0, 0x1E, 0xFB, 0x80, 0x80, 0x80, 0x80]"

lemma example_sps_facts:
  "sps_ok example_sps" "escape 0 example_sps_unit = example_sps_unit"
  "bits_of example_sps_unit = sps_bits example_sps @ ([False, False, False, False] @ bits_of [0x80, 0x80, 0x80])"
  "parsed_of example_sps = \<lparr>sps_profile_idc = 66, sps_level_idc = 30, sps_ext = None, sps_width = 16, sps_height = 16,
     sps_frame_rate = 0, sps_color_config = None\<rparr>"
proof -
  have ue0: "ue 0 = [True]" by (simp add: eg_bits_def eg_log.simps)
  have fields: "to_bits 2 (3 :: u64) = [True, True]" "to_bits 5 (7 :: u64) = [False, False, True, True, True]"
    by (simp_all add: to_bits_map upt_rec)
  show "sps_ok example_sps"
    by (simp add: sps_ok_def example_sps_def has_sps_ext_def coded_width_def coded_height_def crop_of_def)
  show "bits_of example_sps_unit = sps_bits example_sps @ ([False, False, False, False] @ bits_of [0x80, 0x80, 0x80])"
    by (simp add: sps_bits_def example_sps_def has_sps_ext_def opt_bits_def ue0 fields byte_bits_def upt_rec)
  show "escape 0 example_sps_unit = example_sps_unit" by simp
  show "parsed_of example_sps = \<lparr>sps_profile_idc = 66, sps_level_idc = 30, sps_ext = None, sps_width = 16, sps_height = 16,
     sps_frame_rate = 0, sps_color_config = None\<rparr>"
    by (simp add: parsed_of_def sps_of_def example_sps_def has_sps_ext_def coded_width_def coded_height_def crop_of_def)
qed

lemma sps_parse_escaped:
  assumes "sps_ok s" "bits_of q = sps_bits s @ rest" "24 \<le> length rest"
  shows "sps_parse (escape 0 q) = Ok (parsed_of s)"
  using reads_escaped [OF reads_sps [OF assms(1)] assms(2,3)] by (simp add: sps_parse_def sps_payload_def)

text \<open>The code's size is the standard's exactly where the crop units do not matter or are 2.\<close>

lemma word_of_int_near: "\<bar>a - b\<bar> < 2 ^ 64 \<Longrightarrow> (word_of_int a :: u64) = word_of_int b \<longleftrightarrow> a = b"
proof
  assume d: "\<bar>a - b\<bar> < 2 ^ 64" and "(word_of_int a :: u64) = word_of_int b"
  then have "a mod 2 ^ 64 = b mod 2 ^ 64" by (simp add: word_of_int_eq_iff take_bit_eq_mod)
  then have "2 ^ 64 dvd a - b" by (simp only: mod_eq_dvd_iff)
  with d show "a = b" using dvd_imp_le_int [of "a - b" "2 ^ 64"] by fastforce
qed simp

lemma parsed_agrees:
  assumes "sps_ok s"
  shows "parsed_of s = sps_of s \<longleftrightarrow> crop_agrees s"
proof -
  obtain l r t b where c: "crop_of s = (l, r, t, b)" by (cases "crop_of s")
  have units: "crop_unit_x s \<in> {1, 2}" "crop_unit_y s \<in> {1, 2, 4}"
    by (auto simp: crop_unit_x_def crop_unit_y_def)
  have small: "uint x < 2 ^ 32" if "unat x < 2 ^ 32" for x :: u64
    using that by (metis of_nat_less_iff of_nat_numeral of_nat_power uint_nat)
  have ok: "uint (ss_pic_width_in_mbs_minus1 s) < 2 ^ 32" "uint (ss_pic_height_in_map_units_minus1 s) < 2 ^ 32"
    "0 \<le> coded_width s" "0 \<le> coded_height s"
    using assms unfolding sps_ok_def by (blast intro: small)+
  have diff: "width_of s = coded_width s + (2 - crop_unit_x s) * (uint l + uint r)"
    "height_of s = coded_height s + (2 - crop_unit_y s) * (uint t + uint b)"
    by (simp_all add: width_of_def coded_width_def height_of_def coded_height_def c algebra_simps)
  have bound: "x + y < 2 ^ 40" if "0 \<le> 16 * k * (F + 1) - 2 * x - 2 * y" "F < 2 ^ 32" "k = 1 \<or> k = 2" for k F x y :: int
    using that by (elim disjE) simp_all
  have "uint l + uint r < 2 ^ 40"
    by (rule bound [of 1 "uint (ss_pic_width_in_mbs_minus1 s)"]) (use ok(1,3) in \<open>simp_all add: coded_width_def c\<close>)
  moreover have "uint t + uint b < 2 ^ 40"
    by (rule bound [of "2 - of_bool (ss_frame_mbs_only s)" "uint (ss_pic_height_in_map_units_minus1 s)"])
      (use ok(2,4) in \<open>simp_all add: coded_height_def c\<close>)
  ultimately have sums: "0 \<le> uint l + uint r" "uint l + uint r < 2 ^ 40" "0 \<le> uint t + uint b" "uint t + uint b < 2 ^ 40" by simp_all
  have close: "\<bar>x - (x + (2 - u) * y)\<bar> < 2 ^ 64 \<and> (x = x + (2 - u) * y \<longleftrightarrow> u = 2 \<or> y = 0)"
    if "u \<in> {1, 2, 4}" "0 \<le> y" "y < 2 ^ 40" for x u y :: int
    using that by (elim insertE) (simp_all add: algebra_simps)
  have w: "\<bar>coded_width s - width_of s\<bar> < 2 ^ 64 \<and> (coded_width s = width_of s \<longleftrightarrow> crop_unit_x s = 2 \<or> uint l + uint r = 0)"
    unfolding diff by (rule close) (use units sums in auto)
  have h: "\<bar>coded_height s - height_of s\<bar> < 2 ^ 64 \<and> (coded_height s = height_of s \<longleftrightarrow> crop_unit_y s = 2 \<or> uint t + uint b = 0)"
    unfolding diff by (rule close) (use units sums in auto)
  have zero: "uint x + uint y = 0 \<longleftrightarrow> x = 0 \<and> y = 0" for x y :: u64
    by (simp add: add_nonneg_eq_0_iff uint_0_iff)
  have "parsed_of s = sps_of s \<longleftrightarrow> coded_width s = width_of s \<and> coded_height s = height_of s"
    using word_of_int_near [OF conjunct1 [OF w]] word_of_int_near [OF conjunct1 [OF h]] by (simp add: parsed_of_def sps_of_def)
  also have "\<dots> \<longleftrightarrow> crop_agrees s"
    using conjunct2 [OF w] conjunct2 [OF h] by (simp only: crop_agrees_def c zero prod.case)
  finally show ?thesis .
qed

section \<open>Properties\<close>

text \<open>C24: the H.264 parameter set parser implements the syntax of the standard on every branch: for a parameter
  set with any combination of profile extension, scaling lists, picture order count type, cropping and
  usability information, whose numbers fit their codes and whose payload carries at least three more bytes, parsing the
  escaped unit returns the profile, level, frame rate and colour description it describes, and the coded picture
  size less twice the cropping offsets. This is the cropped size of the standard, and the result what the standard
  prescribes, exactly when \<open>crop_agrees\<close> holds: nothing is cropped, or the crop unit of the direction is 2. It is not 2 for
  interlaced 4:2:0 (height), 4:2:2 (progressive height), 4:4:4 and monochrome pictures. A unit of fewer than three bytes makes the parser panic.\<close>

theorem sps_parse_layout:
  "(sps_ok s \<and> bits_of q = sps_bits s @ rest \<and> 24 \<le> length rest \<longrightarrow>
      sps_parse (escape 0 q) = Ok (parsed_of s) \<and> (sps_parse (escape 0 q) = Ok (sps_of s) \<longleftrightarrow> crop_agrees s))
   \<and> (length data < 3 \<longrightarrow> sps_parse data = Panic)"
proof (intro conjI impI; (elim conjE)?)
  assume s: "sps_ok s" "bits_of q = sps_bits s @ rest" "24 \<le> length rest"
  then show parsed: "sps_parse (escape 0 q) = Ok (parsed_of s)" by (rule sps_parse_escaped)
  show "sps_parse (escape 0 q) = Ok (sps_of s) \<longleftrightarrow> crop_agrees s"
    unfolding parsed using parsed_agrees [OF s(1)] by simp
next
  assume "length data < 3"
  then show "sps_parse data = Panic" by (simp add: sps_parse_def sps_payload_def)
qed

text \<open>The second half at work: interlaced pictures of 1080 lines, coded in 1088 lines, are reported with 1084.\<close>

definition interlaced_sps :: sps_syntax where
  "interlaced_sps = example_sps\<lparr>ss_frame_mbs_only := False, ss_pic_height_in_map_units_minus1 := 33, ss_crop := Some (0, 0, 0, 2)\<rparr>"

theorem sps_parse_layout_witness:
  "sps_parse example_sps_unit = Ok \<lparr>sps_profile_idc = 66, sps_level_idc = 30,
     sps_ext = None, sps_width = 16, sps_height = 16, sps_frame_rate = 0, sps_color_config = None\<rparr>
   \<and> sps_parse example_sps_unit = Ok (sps_of example_sps) \<and> sps_parse [0x67] = Panic
   \<and> height_of interlaced_sps = 1080 \<and> coded_height interlaced_sps = 1084"
proof (intro conjI)
  note parse = sps_parse_layout [of example_sps example_sps_unit "[False, False, False, False] @ bits_of [0x80, 0x80, 0x80]" "[0x67]"]
  have "crop_agrees example_sps" by (simp add: crop_agrees_def crop_of_def example_sps_def)
  moreover have "24 \<le> length ([False, False, False, False] @ bits_of [0x80, 0x80, 0x80])" "length [0x67 :: u8] < 3" by simp_all
  ultimately have p: "sps_parse example_sps_unit = Ok (parsed_of example_sps)"
    "sps_parse example_sps_unit = Ok (sps_of example_sps)" "sps_parse [0x67] = Panic"
    using parse [unfolded example_sps_facts(2)] example_sps_facts(1,3) by blast+
  show "sps_parse example_sps_unit = Ok (sps_of example_sps)" "sps_parse [0x67] = Panic" by (fact p)+
  show "sps_parse example_sps_unit = Ok \<lparr>sps_profile_idc = 66, sps_level_idc = 30,
     sps_ext = None, sps_width = 16, sps_height = 16, sps_frame_rate = 0, sps_color_config = None\<rparr>"
    unfolding p(1) example_sps_facts(4) ..
  show "height_of interlaced_sps = 1080" "coded_height interlaced_sps = 1084"
    by (simp_all add: height_of_def coded_height_def crop_unit_y_def chroma_array_type_def interlaced_sps_def example_sps_def
        crop_of_def has_sps_ext_def)
qed

end
