(* ===== verification/H265.thy ===== *)
theory H265
  imports H264
begin

text \<open>
  The decoder configuration record of the crate \<^verbatim>\<open>scuffle-h265\<close> (\<^verbatim>\<open>crates/h265/src/config.rs\<close>), which is
  read through a \<^verbatim>\<open>BitReader\<close> and written through a \<^verbatim>\<open>BitWriter\<close>.
\<close>

section \<open>The record\<close>

datatype NaluType = Vps | Pps | HevcSps | UnknownNalu u8

definition nalu_type_from :: "u8 \<Rightarrow> NaluType" where
  "nalu_type_from value =
     (if value = 32 then Vps else if value = 33 then HevcSps else if value = 34 then Pps else UnknownNalu value)"

fun nalu_type_into :: "NaluType \<Rightarrow> u8" where
  "nalu_type_into Vps = 32"
| "nalu_type_into HevcSps = 33"
| "nalu_type_into Pps = 34"
| "nalu_type_into (UnknownNalu value) = value"

record NaluArray =
  na_array_completeness :: bool
  na_nal_unit_type :: NaluType
  na_nalus :: "bytes list"

record HEVCDecoderConfigurationRecord =
  hevc_configuration_version :: u8
  hevc_general_profile_space :: u8
  hevc_general_tier_flag :: bool
  hevc_general_profile_idc :: u8
  hevc_general_profile_compatibility_flags :: u32
  hevc_general_constraint_indicator_flags :: u64
  hevc_general_level_idc :: u8
  hevc_min_spatial_segmentation_idc :: u16
  hevc_parallelism_type :: u8
  hevc_chroma_format_idc :: u8
  hevc_bit_depth_luma_minus8 :: u8
  hevc_bit_depth_chroma_minus8 :: u8
  hevc_avg_frame_rate :: u16
  hevc_constant_frame_rate :: u8
  hevc_num_temporal_layers :: u8
  hevc_temporal_id_nested :: bool
  hevc_length_size_minus_one :: u8
  hevc_arrays :: "NaluArray list"

section \<open>Reading\<close>

definition br_read_nalu :: "(bit_reader, io_error, bytes) prog" where
  "br_read_nalu = bindE br_read_u16 (\<lambda>nal_unit_length. br_read_exact (unat nal_unit_length))"

definition read_nalu_array :: "(bit_reader, io_error, NaluArray) prog" where
  "read_nalu_array =
     bindE read_bit (\<lambda>array_completeness.
     bindE (seek_bits 1) (\<lambda>_.
     bindE (read_field8 6) (\<lambda>nal_unit_type.
     bindE br_read_u16 (\<lambda>num_nalus.
     bindE (repeat_m (unat num_nalus) br_read_nalu) (\<lambda>nalus.
     ret \<lparr>na_array_completeness = array_completeness, na_nal_unit_type = nalu_type_from nal_unit_type,
          na_nalus = nalus\<rparr>)))))"

definition hevc_demux_bits :: "(bit_reader, io_error, HEVCDecoderConfigurationRecord) prog" where
  "hevc_demux_bits =
     bindE br_read_u8 (\<lambda>configuration_version.
     bindE (read_field8 2) (\<lambda>general_profile_space.
     bindE read_bit (\<lambda>general_tier_flag.
     bindE (read_field8 5) (\<lambda>general_profile_idc.
     bindE br_read_u32_le (\<lambda>general_profile_compatibility_flags.
     bindE br_read_u48_le (\<lambda>general_constraint_indicator_flags.
     bindE br_read_u8 (\<lambda>general_level_idc.
     bindE (seek_bits 4) (\<lambda>_.
     bindE (read_field16 12) (\<lambda>min_spatial_segmentation_idc.
     bindE (seek_bits 6) (\<lambda>_.
     bindE (read_field8 2) (\<lambda>parallelism_type.
     bindE (seek_bits 6) (\<lambda>_.
     bindE (read_field8 2) (\<lambda>chroma_format_idc.
     bindE (seek_bits 5) (\<lambda>_.
     bindE (read_field8 3) (\<lambda>bit_depth_luma_minus8.
     bindE (seek_bits 5) (\<lambda>_.
     bindE (read_field8 3) (\<lambda>bit_depth_chroma_minus8.
     bindE br_read_u16 (\<lambda>avg_frame_rate.
     bindE (read_field8 2) (\<lambda>constant_frame_rate.
     bindE (read_field8 3) (\<lambda>num_temporal_layers.
     bindE read_bit (\<lambda>temporal_id_nested.
     bindE (read_field8 2) (\<lambda>length_size_minus_one.
     bindE br_read_u8 (\<lambda>num_of_arrays.
     bindE (repeat_m (unat num_of_arrays) read_nalu_array) (\<lambda>arrays.
     ret \<lparr>hevc_configuration_version = configuration_version, hevc_general_profile_space = general_profile_space,
          hevc_general_tier_flag = general_tier_flag, hevc_general_profile_idc = general_profile_idc,
          hevc_general_profile_compatibility_flags = general_profile_compatibility_flags,
          hevc_general_constraint_indicator_flags = general_constraint_indicator_flags,
          hevc_general_level_idc = general_level_idc,
          hevc_min_spatial_segmentation_idc = min_spatial_segmentation_idc,
          hevc_parallelism_type = parallelism_type, hevc_chroma_format_idc = chroma_format_idc,
          hevc_bit_depth_luma_minus8 = bit_depth_luma_minus8, hevc_bit_depth_chroma_minus8 = bit_depth_chroma_minus8,
          hevc_avg_frame_rate = avg_frame_rate, hevc_constant_frame_rate = constant_frame_rate,
          hevc_num_temporal_layers = num_temporal_layers, hevc_temporal_id_nested = temporal_id_nested,
          hevc_length_size_minus_one = length_size_minus_one, hevc_arrays = arrays\<rparr>))))))))))))))))))))))))"

definition hevc_demux :: "(cursor, io_error, HEVCDecoderConfigurationRecord) prog" where
  "hevc_demux c = (case hevc_demux_bits (br_new c) of (x, r) \<Rightarrow> (x, br_data r))"

section \<open>Writing\<close>

definition hevc_size :: "HEVCDecoderConfigurationRecord \<Rightarrow> nat" where
  "hevc_size r = 1 + 1 + 4 + 6 + 1 + 2 + 1 + 1 + 1 + 1 + 2 + 1 + 1
     + sum_list (map (\<lambda>array. 1 + 2 + sum_list (map (\<lambda>nalu. 2 + length nalu) (na_nalus array))) (hevc_arrays r))"

definition write_nalu_array :: "NaluArray \<Rightarrow> (bit_writer, io_error, unit) prog" where
  "write_nalu_array a =
     bindE (write_bit (na_array_completeness a)) (\<lambda>_.
     bindE (write_bits 0 1) (\<lambda>_.
     bindE (write_bits (ucast (nalu_type_into (na_nal_unit_type a))) 6) (\<lambda>_.
     bindE (bw_write (be16 (word_of_nat (length (na_nalus a))))) (\<lambda>_.
     for_m (na_nalus a) write_parameter_set))))"

definition hevc_mux :: "HEVCDecoderConfigurationRecord \<Rightarrow> (bytes, io_error, unit) prog" where
  "hevc_mux r = with_bit_writer (
     bindE (bw_write [hevc_configuration_version r]) (\<lambda>_.
     bindE (write_bits (ucast (hevc_general_profile_space r)) 2) (\<lambda>_.
     bindE (write_bit (hevc_general_tier_flag r)) (\<lambda>_.
     bindE (write_bits (ucast (hevc_general_profile_idc r)) 5) (\<lambda>_.
     bindE (bw_write (le32 (hevc_general_profile_compatibility_flags r))) (\<lambda>_.
     bindE (if hevc_general_constraint_indicator_flags r < 2 ^ 48
            then bw_write (le48 (hevc_general_constraint_indicator_flags r)) else panic) (\<lambda>_.
     bindE (bw_write [hevc_general_level_idc r]) (\<lambda>_.
     bindE (write_bits 0b1111 4) (\<lambda>_.
     bindE (write_bits (ucast (hevc_min_spatial_segmentation_idc r)) 12) (\<lambda>_.
     bindE (write_bits 0b111111 6) (\<lambda>_.
     bindE (write_bits (ucast (hevc_parallelism_type r)) 2) (\<lambda>_.
     bindE (write_bits 0b111111 6) (\<lambda>_.
     bindE (write_bits (ucast (hevc_chroma_format_idc r)) 2) (\<lambda>_.
     bindE (write_bits 0b11111 5) (\<lambda>_.
     bindE (write_bits (ucast (hevc_bit_depth_luma_minus8 r)) 3) (\<lambda>_.
     bindE (write_bits 0b11111 5) (\<lambda>_.
     bindE (write_bits (ucast (hevc_bit_depth_chroma_minus8 r)) 3) (\<lambda>_.
     bindE (bw_write (be16 (hevc_avg_frame_rate r))) (\<lambda>_.
     bindE (write_bits (ucast (hevc_constant_frame_rate r)) 2) (\<lambda>_.
     bindE (write_bits (ucast (hevc_num_temporal_layers r)) 3) (\<lambda>_.
     bindE (write_bit (hevc_temporal_id_nested r)) (\<lambda>_.
     bindE (write_bits (ucast (hevc_length_size_minus_one r)) 2) (\<lambda>_.
     bindE (bw_write [word_of_nat (length (hevc_arrays r))]) (\<lambda>_.
     for_m (hevc_arrays r) write_nalu_array))))))))))))))))))))))))"

section \<open>Its layout\<close>

definition nalu_array_bits :: "NaluArray \<Rightarrow> bool list" where
  "nalu_array_bits a = [na_array_completeness a] @ [False]
     @ to_bits 6 (ucast (nalu_type_into (na_nal_unit_type a)) :: u64)
     @ bits_of (be16 (word_of_nat (length (na_nalus a)))) @ bits_of (parameter_sets_bytes (na_nalus a))"

definition hevc_bits :: "HEVCDecoderConfigurationRecord \<Rightarrow> bool list" where
  "hevc_bits r = byte_bits (hevc_configuration_version r)
     @ to_bits 2 (ucast (hevc_general_profile_space r) :: u64) @ [hevc_general_tier_flag r]
     @ to_bits 5 (ucast (hevc_general_profile_idc r) :: u64)
     @ bits_of (le32 (hevc_general_profile_compatibility_flags r))
     @ bits_of (le48 (hevc_general_constraint_indicator_flags r)) @ byte_bits (hevc_general_level_idc r)
     @ to_bits 4 (0b1111 :: u64) @ to_bits 12 (ucast (hevc_min_spatial_segmentation_idc r) :: u64)
     @ to_bits 6 (0b111111 :: u64) @ to_bits 2 (ucast (hevc_parallelism_type r) :: u64)
     @ to_bits 6 (0b111111 :: u64) @ to_bits 2 (ucast (hevc_chroma_format_idc r) :: u64)
     @ to_bits 5 (0b11111 :: u64) @ to_bits 3 (ucast (hevc_bit_depth_luma_minus8 r) :: u64)
     @ to_bits 5 (0b11111 :: u64) @ to_bits 3 (ucast (hevc_bit_depth_chroma_minus8 r) :: u64)
     @ bits_of (be16 (hevc_avg_frame_rate r)) @ to_bits 2 (ucast (hevc_constant_frame_rate r) :: u64)
     @ to_bits 3 (ucast (hevc_num_temporal_layers r) :: u64) @ [hevc_temporal_id_nested r]
     @ to_bits 2 (ucast (hevc_length_size_minus_one r) :: u64)
     @ byte_bits (word_of_nat (length (hevc_arrays r))) @ concat (map nalu_array_bits (hevc_arrays r))"

definition nalu_array_ok :: "NaluArray \<Rightarrow> bool" where
  "nalu_array_ok a \<longleftrightarrow> nalu_type_into (na_nal_unit_type a) < 2 ^ 6
     \<and> nalu_type_from (nalu_type_into (na_nal_unit_type a)) = na_nal_unit_type a
     \<and> length (na_nalus a) < 2 ^ 16 \<and> parameter_sets_ok (na_nalus a)"

definition hevc_ok :: "HEVCDecoderConfigurationRecord \<Rightarrow> bool" where
  "hevc_ok r \<longleftrightarrow> hevc_general_profile_space r < 2 ^ 2 \<and> hevc_general_profile_idc r < 2 ^ 5
     \<and> hevc_general_constraint_indicator_flags r < 2 ^ 48 \<and> hevc_min_spatial_segmentation_idc r < 2 ^ 12
     \<and> hevc_parallelism_type r < 2 ^ 2 \<and> hevc_chroma_format_idc r < 2 ^ 2
     \<and> hevc_bit_depth_luma_minus8 r < 2 ^ 3 \<and> hevc_bit_depth_chroma_minus8 r < 2 ^ 3
     \<and> hevc_constant_frame_rate r < 2 ^ 2 \<and> hevc_num_temporal_layers r < 2 ^ 3
     \<and> hevc_length_size_minus_one r < 2 ^ 2 \<and> length (hevc_arrays r) < 2 ^ 8
     \<and> (\<forall>a \<in> set (hevc_arrays r). nalu_array_ok a)"

lemma reads_nalu:
  assumes "length x < 2 ^ 16"
  shows "reads_bits br_read_nalu (bits_of (parameter_set_bytes x)) x"
  unfolding br_read_nalu_def parameter_set_bytes_def bits_of_simps
  using assms by (intro reads_bind [OF reads_ints(2)] reads_exact) (simp add: unat_of_nat)

lemma bits_of_parameter_sets: "bits_of (parameter_sets_bytes xs) = concat (map (\<lambda>x. bits_of (parameter_set_bytes x)) xs)"
  by (induction xs) (simp_all add: parameter_sets_bytes_def)

lemma reads_nalu_array:
  assumes "nalu_array_ok a"
  shows "reads_bits read_nalu_array (nalu_array_bits a) a"
proof -
  have n: "unat (word_of_nat (length (na_nalus a)) :: u16) = length (na_nalus a)"
    using assms by (simp add: nalu_array_ok_def unat_of_nat)
  have nalus: "reads_bits (repeat_m (unat (word_of_nat (length (na_nalus a)) :: u16)) br_read_nalu)
      (concat (map (\<lambda>x. bits_of (parameter_set_bytes x)) (na_nalus a))) (na_nalus a)"
    by (rule reads_repeat) (use assms n in \<open>auto simp: nalu_array_ok_def parameter_sets_ok_def intro: reads_nalu\<close>)
  show ?thesis
    unfolding read_nalu_array_def nalu_array_bits_def bits_of_parameter_sets
    using assms by (intro reads_bind [OF reads_read_bit] reads_skip_bind reads_bind [OF reads_field8]
        reads_bind [OF reads_ints(2)] reads_map [OF nalus]) (simp_all add: nalu_array_ok_def)
qed

lemma below_48: "(x :: u64) < 2 ^ 48 \<Longrightarrow> take_bit 48 x = x"
  using small_field [of x 48, where 'b = 64] by simp

lemma reads_hevc:
  assumes "hevc_ok r"
  shows "reads_bits hevc_demux_bits (hevc_bits r) r"
proof -
  have n: "unat (word_of_nat (length (hevc_arrays r)) :: u8) = length (hevc_arrays r)"
    using assms by (simp add: hevc_ok_def unat_of_nat)
  have arrays: "reads_bits (repeat_m (unat (word_of_nat (length (hevc_arrays r)) :: u8)) read_nalu_array)
      (concat (map nalu_array_bits (hevc_arrays r))) (hevc_arrays r)"
    by (rule reads_repeat) (use assms n in \<open>auto simp: hevc_ok_def intro: reads_nalu_array\<close>)
  show ?thesis
    unfolding hevc_demux_bits_def hevc_bits_def
    using assms by (intro reads_bind [OF reads_read_bit] reads_skip_bind reads_bind [OF reads_field8]
        reads_bind [OF reads_field16] reads_bind [OF reads_ints(1)] reads_bind [OF reads_ints(2)]
        reads_bind [OF reads_ints(4)] reads_bind [OF reads_ints(5)] reads_map [OF arrays])
      (simp_all add: hevc_ok_def below_48)
qed

lemma writes_const:
  "writes_bits (write_bits 0b1111 4) (to_bits 4 (0b1111 :: u64))"
  "writes_bits (write_bits 0b111111 6) (to_bits 6 (0b111111 :: u64))"
  "writes_bits (write_bits 0b11111 5) (to_bits 5 (0b11111 :: u64))"
  "writes_bits (write_bits 0 1) [False]"
  using writes_basic(3) [of 4 "0b1111"] writes_basic(3) [of 6 "0b111111"] writes_basic(3) [of 5 "0b11111"]
    writes_basic(3) [of 1 0] by (simp_all add: take_bit_eq_mask mask_eq_exp_minus_1)

lemma writes_nalu_array:
  assumes "nalu_array_ok a"
  shows "writes_bits (write_nalu_array a) (nalu_array_bits a)"
  unfolding write_nalu_array_def nalu_array_bits_def
  using assms by (intro writes_bind writes_basic(2,4) writes_const writes_field writes_parameter_sets)
    (simp_all add: nalu_array_ok_def)

lemma writes_hevc:
  assumes "hevc_ok r" "bits_of bs = hevc_bits r"
  shows "hevc_mux r out = (Ok (), out @ bs)"
proof -
  have c: "(if hevc_general_constraint_indicator_flags r < 2 ^ 48
            then bw_write (le48 (hevc_general_constraint_indicator_flags r)) else panic)
      = bw_write (le48 (hevc_general_constraint_indicator_flags r))"
    using assms(1) by (simp add: hevc_ok_def)
  have one: "writes_bits (bw_write [x]) (byte_bits x)" for x using writes_basic(4) [of "[x]"] by simp
  have arrays: "writes_bits (for_m (hevc_arrays r) write_nalu_array) (concat (map nalu_array_bits (hevc_arrays r)))"
    using assms(1) by (intro writes_for writes_nalu_array) (simp add: hevc_ok_def)
  show ?thesis
    unfolding hevc_mux_def c
    apply (rule with_bit_writer_run)
    unfolding assms(2) hevc_bits_def
    using assms(1) by (intro writes_bind one writes_field writes_const writes_basic(2,4) arrays) (simp_all add: hevc_ok_def)
qed

lemma length_hevc_bits:
  assumes "hevc_ok r"
  shows "length (hevc_bits r) = 8 * hevc_size r"
proof -
  have arr: "length (nalu_array_bits a) = 8 * (1 + 2 + sum_list (map (\<lambda>nalu. 2 + length nalu) (na_nalus a)))"
    if "a \<in> set (hevc_arrays r)" for a
    using assms that length_parameter_sets [of "na_nalus a"]
    by (auto simp: nalu_array_bits_def hevc_ok_def nalu_array_ok_def parameter_sets_size_def)
  then have "length (concat (map nalu_array_bits (hevc_arrays r)))
      = 8 * sum_list (map (\<lambda>array. 1 + 2 + sum_list (map (\<lambda>nalu. 2 + length nalu) (na_nalus array))) (hevc_arrays r))"
    by (rule length_concat_times)
  then show ?thesis by (simp add: hevc_bits_def hevc_size_def)
qed

lemma hevc_mux_demux:
  assumes "hevc_ok r"
  shows "\<exists>bs. (\<forall>out. hevc_mux r out = (Ok (), out @ bs)) \<and> length bs = hevc_size r
     \<and> (\<forall>pre post. hevc_demux (curs pre (bs @ post)) = (Ok r, curs (pre @ bs) post))"
proof -
  from bits_are_bytes [OF length_hevc_bits [OF assms]] obtain bs where
    bs: "bits_of bs = hevc_bits r" "length bs = hevc_size r" by blast
  have "hevc_demux (curs pre (bs @ post)) = (Ok r, curs (pre @ bs) post)" for pre post
    using reads_cursor [of hevc_demux_bits bs r pre post] reads_hevc [OF assms] bs(1)
    by (auto simp: hevc_demux_def)
  with bs writes_hevc [OF assms bs(1)] show ?thesis by blast
qed

text \<open>C25: every HEVC decoder configuration record whose fields fit their bits is written with exactly the
  announced size, and reading it, in front of any other bytes, returns the same record and leaves the
  cursor right behind it.\<close>

theorem hevc_config_roundtrip:
  assumes "hevc_ok r"
  shows "\<exists>bs. (\<forall>out. hevc_mux r out = (Ok (), out @ bs)) \<and> length bs = hevc_size r
     \<and> (\<forall>pre post. hevc_demux (curs pre (bs @ post)) = (Ok r, curs (pre @ bs) post))"
  using assms by (rule hevc_mux_demux)

definition example_hevc :: HEVCDecoderConfigurationRecord where
  "example_hevc = \<lparr>hevc_configuration_version = 1, hevc_general_profile_space = 0, hevc_general_tier_flag = False,
     hevc_general_profile_idc = 1, hevc_general_profile_compatibility_flags = 0x60,
     hevc_general_constraint_indicator_flags = 0x90, hevc_general_level_idc = 93,
     hevc_min_spatial_segmentation_idc = 0, hevc_parallelism_type = 0, hevc_chroma_format_idc = 1,
     hevc_bit_depth_luma_minus8 = 0, hevc_bit_depth_chroma_minus8 = 0, hevc_avg_frame_rate = 0,
     hevc_constant_frame_rate = 0, hevc_num_temporal_layers = 1, hevc_temporal_id_nested = True,
     hevc_length_size_minus_one = 3, hevc_arrays = [\<lparr>na_array_completeness = True, na_nal_unit_type = HevcSps,
       na_nalus = [[0x42, 0x01]]\<rparr>]\<rparr>"

theorem hevc_config_roundtrip_witness:
  "\<exists>bs. (\<forall>out. hevc_mux example_hevc out = (Ok (), out @ bs)) \<and> length bs = 30
     \<and> (\<forall>pre post. hevc_demux (curs pre (bs @ post)) = (Ok example_hevc, curs (pre @ bs) post))"
proof -
  have "hevc_ok example_hevc" "hevc_size example_hevc = 30"
    by (simp_all add: hevc_ok_def hevc_size_def example_hevc_def nalu_array_ok_def nalu_type_from_def parameter_sets_ok_def)
  with hevc_config_roundtrip [of example_hevc] show ?thesis by simp
qed

end
