(* ===== verification/H265_Sps.thy ===== *)
theory H265_Sps
  imports H264_Sps
begin

text \<open>
  The H.265 sequence parameter set parser (\<^verbatim>\<open>crates/h265/src/sps.rs\<close>). It shares with the H.264 parser,
  statement by statement, the loop that removes emulation prevention bytes and the overscan, video signal and chroma
  location parts of the usability information, which are therefore not defined again.
\<close>

section \<open>The parser\<close>

record HevcSpsInfo =
  hsps_width :: u64
  hsps_height :: u64
  hsps_frame_rate :: rat
  hsps_color_config :: "ColorConfig option"

definition sub_layer_flags :: "nat \<Rightarrow> (bit_reader, io_error, bool list) prog" where
  "sub_layer_flags n = repeat_m n (bindE (skip_bits 1) (\<lambda>_. read_bit))"

definition sub_layer_levels :: "bool list \<Rightarrow> (bit_reader, io_error, unit) prog" where
  "sub_layer_levels flags = for_m flags (\<lambda>v.
     bindE (skip_bits (2 + 1 + 5 + 32 + 1 + 1 + 1 + 1 + 43 + 1)) (\<lambda>_.
     if v then skip_bits 8 else ret ()))"

definition profile_tier_level :: "nat \<Rightarrow> (bit_reader, io_error, unit) prog" where
  "profile_tier_level sps_max_sub_layers_minus1 =
     bindE (skip_bits (2 + 1 + 5 + 32 + 1 + 1 + 1 + 1 + 43 + 1 + 8)) (\<lambda>_.
     bindE (sub_layer_flags sps_max_sub_layers_minus1) (\<lambda>flags.
     bindE (if sps_max_sub_layers_minus1 > 0 \<and> sps_max_sub_layers_minus1 < 8
            then skip_bits (2 * (8 - int sps_max_sub_layers_minus1)) else ret ()) (\<lambda>_.
     sub_layer_levels flags)))"

definition conformance_window :: "(bit_reader, io_error, u64 \<times> u64 \<times> u64 \<times> u64) prog" where
  "conformance_window =
     bindE read_bit (\<lambda>conformance_window_flag.
     if conformance_window_flag then
       bindE read_exp_golomb (\<lambda>l.
       bindE read_exp_golomb (\<lambda>r.
       bindE read_exp_golomb (\<lambda>t.
       bindE read_exp_golomb (\<lambda>b.
       ret (l, r, t, b)))))
     else ret (0, 0, 0, 0))"

definition chroma_units :: "u64 \<Rightarrow> ('s, io_error, nat \<times> nat) prog" where
  "chroma_units chroma_format_idc =
     (if chroma_format_idc = 0 then ret (1, 1) else if chroma_format_idc = 1 then ret (2, 2)
      else if chroma_format_idc = 2 then ret (2, 1) else if chroma_format_idc = 3 then ret (1, 1)
      else fail InvalidData)"

text \<open>\<^verbatim>\<open>full - unit * (a + b)\<close> in \<^verbatim>\<open>u64\<close>.\<close>

definition windowed :: "u64 \<Rightarrow> nat \<Rightarrow> u64 \<Rightarrow> u64 \<Rightarrow> ('s, 'e, u64) prog" where
  "windowed full unit a b =
     (if unat a + unat b < 2 ^ 64 \<and> unit * (unat a + unat b) \<le> unat full
      then ret (word_of_nat (unat full - unit * (unat a + unat b))) else panic)"

text \<open>Numbers that are read and dropped.\<close>

definition drop_golombs :: "nat \<Rightarrow> (bit_reader, io_error, unit) prog" where
  "drop_golombs n = bindE (repeat_m n read_exp_golomb) (\<lambda>_. ret ())"

definition sub_layer_ordering :: "nat \<Rightarrow> (bit_reader, io_error, unit) prog" where
  "sub_layer_ordering sps_max_sub_layers_minus1 =
     bindE read_bit (\<lambda>sps_sub_layer_ordering_info_present_flag.
     if sps_sub_layer_ordering_info_present_flag
     then for_m [0..<sps_max_sub_layers_minus1 + 1] (\<lambda>_. drop_golombs 3)
     else ret ())"

fun coef_loop :: "nat \<Rightarrow> int \<Rightarrow> (bit_reader, io_error, unit) prog" where
  "coef_loop 0 next_coef = ret ()"
| "coef_loop (Suc n) next_coef =
     bindE read_signed_exp_golomb (\<lambda>delta.
     let sum = next_coef + sint delta
     in if \<not> in_i64 sum \<or> \<not> in_i64 (sum + 256) then panic
        else coef_loop n (rust_rem (sum + 256) 256))"

definition hevc_scaling_list :: "nat \<Rightarrow> (bit_reader, io_error, unit) prog" where
  "hevc_scaling_list size_id =
     bindE read_bit (\<lambda>scaling_list_pred_mode_flag.
     if \<not> scaling_list_pred_mode_flag then drop_golombs 1
     else
       let coef_num = min 64 (2 ^ (4 + 2 * size_id))
       in if size_id > 1 then
            bindE read_signed_exp_golomb (\<lambda>dc.
            if \<not> in_i64 (8 + sint dc) then panic else coef_loop coef_num (8 + sint dc))
          else coef_loop coef_num 8)"

text \<open>The matrices of one size: six of them, or two for the largest size.\<close>

definition hevc_scaling_lists :: "(bit_reader, io_error, unit) prog" where
  "hevc_scaling_lists =
     bindE read_bit (\<lambda>scaling_list_enabled_flag.
     if scaling_list_enabled_flag then
       bindE read_bit (\<lambda>sps_scaling_list_data_present_flag.
       if sps_scaling_list_data_present_flag then
         for_m [0..<4] (\<lambda>size_id.
           for_m (if size_id = 3 then [0, 3] else [0, 1, 2, 3, 4, 5 :: nat]) (\<lambda>matrix_id. hevc_scaling_list size_id))
       else ret ())
     else ret ())"

definition pcm_info :: "(bit_reader, io_error, unit) prog" where
  "pcm_info = bindE read_bit (\<lambda>pcm_enabled_flag.
     if pcm_enabled_flag then
       bindE (skip_bits 4) (\<lambda>_.
       bindE (skip_bits 4) (\<lambda>_.
       bindE (drop_golombs 2) (\<lambda>_.
       skip_bits 1)))
     else ret ())"

text \<open>Short-term reference picture sets (a vector longer than the address space allows is a panic): of the vector \<^verbatim>\<open>num_delta_pocs\<close> only the entry written last is
  read again, so that entry is carried from one round to the next.\<close>

fun inter_rps_loop :: "nat \<Rightarrow> nat \<Rightarrow> (bit_reader, io_error, nat) prog" where
  "inter_rps_loop 0 count = ret count"
| "inter_rps_loop (Suc n) count =
     bindE read_bit (\<lambda>used_by_curr_pic_flag.
     bindE (if \<not> used_by_curr_pic_flag then read_bit else ret False) (\<lambda>use_delta_flag.
     inter_rps_loop n (if used_by_curr_pic_flag \<or> use_delta_flag then count + 1 else count)))"

definition delta_poc :: "(bit_reader, io_error, unit) prog" where
  "delta_poc = bindE read_exp_golomb (\<lambda>_. skip_bits 1)"

definition explicit_rps :: "(bit_reader, io_error, nat) prog" where
  "explicit_rps =
     bindE read_exp_golomb (\<lambda>num_negative_pics.
     bindE read_exp_golomb (\<lambda>num_positive_pics.
     if unat num_negative_pics + unat num_positive_pics \<ge> 2 ^ 64 then panic else
     bindE (repeat_m (unat num_negative_pics) delta_poc) (\<lambda>_.
     bindE (repeat_m (unat num_positive_pics) delta_poc) (\<lambda>_.
     ret (unat num_negative_pics + unat num_positive_pics)))))"

definition rps_round :: "nat \<Rightarrow> nat \<Rightarrow> (bit_reader, io_error, nat) prog" where
  "rps_round st_rps_idx previous =
     bindE (if st_rps_idx \<noteq> 0 then read_bit else ret False) (\<lambda>inter.
     if inter then
       bindE (skip_bits 1) (\<lambda>_.
       bindE read_exp_golomb (\<lambda>_.
       inter_rps_loop previous 0))
     else explicit_rps)"

fun rps_loop :: "nat \<Rightarrow> nat \<Rightarrow> nat \<Rightarrow> (bit_reader, io_error, unit) prog" where
  "rps_loop 0 st_rps_idx previous = ret ()"
| "rps_loop (Suc n) st_rps_idx previous =
     bindE (rps_round st_rps_idx previous) (\<lambda>num. rps_loop n (st_rps_idx + 1) num)"

definition short_term_sets :: "(bit_reader, io_error, unit) prog" where
  "short_term_sets = bindE read_exp_golomb (\<lambda>num_short_term_ref_pic_sets.
     if 8 * unat num_short_term_ref_pic_sets \<ge> 2 ^ 63 then panic
     else rps_loop (unat num_short_term_ref_pic_sets) 0 0)"

definition long_term_pics :: "(bit_reader, io_error, unit) prog" where
  "long_term_pics = bindE read_bit (\<lambda>long_term_ref_pics_present_flag.
     if long_term_ref_pics_present_flag then
       bindE read_exp_golomb (\<lambda>num_long_term_ref_pics_sps.
       bindE (repeat_m (unat num_long_term_ref_pics_sps) delta_poc) (\<lambda>_. ret ()))
     else ret ())"

definition hevc_aspect_ratio :: "(bit_reader, io_error, unit) prog" where
  "hevc_aspect_ratio =
     bindE read_bit (\<lambda>aspect_ratio_info_present_flag.
     if aspect_ratio_info_present_flag then
       bindE (read_bits 8) (\<lambda>aspect_ratio_idc.
       if aspect_ratio_idc = 255 then bindE (skip_bits 16) (\<lambda>_. skip_bits 16) else ret ())
     else ret ())"

definition display_window :: "(bit_reader, io_error, unit) prog" where
  "display_window = bindE read_bit (\<lambda>default_display_window_flag.
     if default_display_window_flag then drop_golombs 4 else ret ())"

definition hevc_timing :: "(bit_reader, io_error, rat) prog" where
  "hevc_timing =
     bindE read_bit (\<lambda>vui_timing_info_present_flag.
     if vui_timing_info_present_flag then
       bindE (read_bits 32) (\<lambda>num_units_in_tick.
       bindE (read_bits 32) (\<lambda>time_scale.
       if num_units_in_tick = 0 then fail InvalidData
       else ret (of_nat (unat time_scale) / of_nat (unat num_units_in_tick))))
     else ret 0)"

definition hevc_vui :: "(bit_reader, io_error, rat \<times> ColorConfig option) prog" where
  "hevc_vui =
     bindE read_bit (\<lambda>vui_parameters_present_flag.
     if vui_parameters_present_flag then
       bindE hevc_aspect_ratio (\<lambda>_.
       bindE vui_overscan (\<lambda>_.
       bindE vui_video_signal (\<lambda>color_config.
       bindE vui_chroma_loc (\<lambda>_.
       bindE (skip_bits 1) (\<lambda>_.
       bindE (skip_bits 1) (\<lambda>_.
       bindE (skip_bits 1) (\<lambda>_.
       bindE display_window (\<lambda>_.
       bindE hevc_timing (\<lambda>frame_rate.
       ret (frame_rate, color_config))))))))))
     else ret (0, None))"

definition hevc_sps_parse_bits :: "(bit_reader, io_error, HevcSpsInfo) prog" where
  "hevc_sps_parse_bits =
     bindE read_bit (\<lambda>forbidden_zero_bit.
     if forbidden_zero_bit then fail InvalidData else
     bindE (read_bits 6) (\<lambda>nalu_type.
     if nalu_type \<noteq> 33 then fail InvalidData else
     bindE (skip_bits (6 + 3 + 4)) (\<lambda>_.
     bindE (read_bits 3) (\<lambda>sps_max_sub_layers_minus1.
     bindE (skip_bits 1) (\<lambda>_.
     bindE (profile_tier_level (unat sps_max_sub_layers_minus1)) (\<lambda>_.
     bindE read_exp_golomb (\<lambda>_.
     bindE read_exp_golomb (\<lambda>chroma_format_idc.
     bindE (if chroma_format_idc = 3 then bindE read_bit (\<lambda>_. ret ()) else ret ()) (\<lambda>_.
     bindE read_exp_golomb (\<lambda>pic_width_in_luma_samples.
     bindE read_exp_golomb (\<lambda>pic_height_in_luma_samples.
     bindE conformance_window (\<lambda>(l, r, t, b).
     bindE (chroma_units chroma_format_idc) (\<lambda>(sub_width_c, sub_height_c).
     bindE (windowed pic_width_in_luma_samples sub_width_c l r) (\<lambda>width.
     bindE (windowed pic_height_in_luma_samples sub_height_c t b) (\<lambda>height.
     bindE (drop_golombs 3) (\<lambda>_.
     bindE (sub_layer_ordering (unat sps_max_sub_layers_minus1)) (\<lambda>_.
     bindE (drop_golombs 6) (\<lambda>_.
     bindE hevc_scaling_lists (\<lambda>_.
     bindE (skip_bits 1) (\<lambda>_.
     bindE (skip_bits 1) (\<lambda>_.
     bindE pcm_info (\<lambda>_.
     bindE short_term_sets (\<lambda>_.
     bindE long_term_pics (\<lambda>_.
     bindE (skip_bits 1) (\<lambda>_.
     bindE (skip_bits 1) (\<lambda>_.
     bindE hevc_vui (\<lambda>(frame_rate, color_config).
     ret \<lparr>hsps_width = width, hsps_height = height, hsps_frame_rate = frame_rate,
          hsps_color_config = color_config\<rparr>)))))))))))))))))))))))))))"

definition hevc_sps_parse :: "bytes \<Rightarrow> (io_error, HevcSpsInfo) result" where
  "hevc_sps_parse data =
     (case sps_payload data of
        Ok vec \<Rightarrow> fst (hevc_sps_parse_bits (br_new_from_slice vec))
      | Err e \<Rightarrow> Err e | Panic \<Rightarrow> Panic | OutOfFuel \<Rightarrow> OutOfFuel)"

section \<open>The syntax of a parameter set\<close>

text \<open>Section 7.3.2.2 of the standard, for the parameter sets on which the parser follows it: every sub-layer carries its
  profile, the ordering information is present for every sub-layer, and reference picture sets are coded explicitly.
  (The parser skips 88 bits of profile also when the flag says that there are none, reads no ordering information
  when the flag says that there is one entry, and reads one flag too few of a predicted picture set.)\<close>

datatype coef_syntax = PredMatrix u64 | Coefs "i64 option" "i64 list"

fun coef_bits :: "coef_syntax \<Rightarrow> bool list" where
  "coef_bits (PredMatrix d) = [False] @ ue d"
| "coef_bits (Coefs dc ds) = [True] @ (case dc of Some d \<Rightarrow> se d | None \<Rightarrow> []) @ concat (map se ds)"

fun coefs_ok :: "int \<Rightarrow> i64 list \<Rightarrow> bool" where
  "coefs_ok next_coef [] \<longleftrightarrow> True"
| "coefs_ok next_coef (d # ds) \<longleftrightarrow> se_ok d \<and> in_i64 (next_coef + sint d) \<and> in_i64 (next_coef + sint d + 256)
     \<and> coefs_ok (rust_rem (next_coef + sint d + 256) 256) ds"

fun coef_ok :: "nat \<Rightarrow> coef_syntax \<Rightarrow> bool" where
  "coef_ok size_id (PredMatrix d) \<longleftrightarrow> ue_ok d"
| "coef_ok size_id (Coefs dc ds) \<longleftrightarrow> length ds = min 64 (2 ^ (4 + 2 * size_id)) \<and> (dc \<noteq> None) = (size_id > 1)
     \<and> (\<forall>d. dc = Some d \<longrightarrow> se_ok d \<and> in_i64 (8 + sint d))
     \<and> coefs_ok (case dc of Some d \<Rightarrow> 8 + sint d | None \<Rightarrow> 8) ds"

record hevc_vui_syntax =
  hv_aspect_ratio :: "(u8 \<times> u32) option"
  hv_overscan :: "bool option"
  hv_video_signal :: "(u64 \<times> bool \<times> (u8 \<times> u8 \<times> u8) option) option"
  hv_chroma_loc :: "(u64 \<times> u64) option"
  hv_flags :: "bool \<times> bool \<times> bool"
  hv_window :: "u64 list option"
  hv_timing :: "(u32 \<times> u32) option"

text \<open>The parts shared with the H.264 tables.\<close>

definition shared_vui :: "hevc_vui_syntax \<Rightarrow> vui_syntax" where
  "shared_vui v = \<lparr>vs_aspect_ratio = hv_aspect_ratio v, vs_overscan = hv_overscan v,
     vs_video_signal = hv_video_signal v, vs_chroma_loc = hv_chroma_loc v, vs_timing = None\<rparr>"

abbreviation ues :: "u64 list \<Rightarrow> bool list" where "ues xs \<equiv> concat (map ue xs)"

definition hevc_vui_bits :: "hevc_vui_syntax \<Rightarrow> bool list" where
  "hevc_vui_bits v =
     opt_bits (\<lambda>(idc, sar). byte_bits idc @ (if idc = 255 then bits_of (be32 sar) else [])) (hv_aspect_ratio v)
     @ opt_bits (\<lambda>b. [b]) (hv_overscan v)
     @ opt_bits (\<lambda>(fmt, full, desc). to_bits 3 fmt @ [full]
         @ opt_bits (\<lambda>(p, t, m). byte_bits p @ byte_bits t @ byte_bits m) desc) (hv_video_signal v)
     @ opt_bits (\<lambda>(t, b). ue t @ ue b) (hv_chroma_loc v)
     @ [fst (hv_flags v)] @ [fst (snd (hv_flags v))] @ [snd (snd (hv_flags v))]
     @ opt_bits ues (hv_window v)
     @ opt_bits (\<lambda>(u, t). to_bits 32 (ucast u :: u64) @ to_bits 32 (ucast t :: u64)) (hv_timing v)"

definition hevc_vui_ok :: "hevc_vui_syntax \<Rightarrow> bool" where
  "hevc_vui_ok v \<longleftrightarrow> (\<forall>t b. hv_chroma_loc v = Some (t, b) \<longrightarrow> ue_ok t \<and> ue_ok b)
     \<and> (\<forall>w. hv_window v = Some w \<longrightarrow> length w = 4 \<and> (\<forall>x \<in> set w. ue_ok x))
     \<and> (\<forall>u t. hv_timing v = Some (u, t) \<longrightarrow> u \<noteq> 0)"

record hevc_syntax =
  hs_ids :: u64
  hs_max_sub_layers_minus1 :: nat
  hs_nesting :: bool
  hs_profile :: "bool list"
  hs_sub_layers :: "(bool list \<times> u8 option) list"
  hs_reserved :: "bool list"
  hs_id :: u64
  hs_chroma_format_idc :: u64
  hs_separate :: bool
  hs_width :: u64
  hs_height :: u64
  hs_window :: "(u64 \<times> u64 \<times> u64 \<times> u64) option"
  hs_depths :: "u64 list"
  hs_ordering :: "u64 list list"
  hs_block_sizes :: "u64 list"
  hs_scaling :: "coef_syntax list option option"
  hs_amp :: bool
  hs_sao :: bool
  hs_pcm :: "(u8 \<times> u64 list \<times> bool) option"
  hs_rps :: "((u64 \<times> bool) list \<times> (u64 \<times> bool) list) list"
  hs_long_term :: "(u64 \<times> bool) list option"
  hs_mvp :: bool
  hs_smoothing :: bool
  hs_vui :: "hevc_vui_syntax option"

definition sub_layer_bits :: "(bool list \<times> u8 option) list \<Rightarrow> bool list \<Rightarrow> bool list" where
  "sub_layer_bits ls reserved = concat (map (\<lambda>(p, l). [True] @ [l \<noteq> None]) ls)
     @ (if ls \<noteq> [] then reserved else [])
     @ concat (map (\<lambda>(p, l). p @ (case l of Some x \<Rightarrow> byte_bits x | None \<Rightarrow> [])) ls)"

definition poc_entry_bits :: "u64 \<times> bool \<Rightarrow> bool list" where
  "poc_entry_bits x = ue (fst x) @ [snd x]"

definition rps_bits :: "nat \<Rightarrow> (u64 \<times> bool) list \<times> (u64 \<times> bool) list \<Rightarrow> bool list" where
  "rps_bits idx r = (if idx \<noteq> 0 then [False] else []) @ ue (word_of_nat (length (fst r))) @ ue (word_of_nat (length (snd r)))
     @ concat (map poc_entry_bits (fst r)) @ concat (map poc_entry_bits (snd r))"

fun rps_list_bits :: "nat \<Rightarrow> ((u64 \<times> bool) list \<times> (u64 \<times> bool) list) list \<Rightarrow> bool list" where
  "rps_list_bits idx [] = []"
| "rps_list_bits idx (r # rs) = rps_bits idx r @ rps_list_bits (idx + 1) rs"

definition hevc_sps_bits :: "hevc_syntax \<Rightarrow> bool list" where
  "hevc_sps_bits s = [False] @ to_bits 6 (33 :: u64) @ to_bits 13 (hs_ids s)
     @ to_bits 3 (word_of_nat (hs_max_sub_layers_minus1 s) :: u64) @ [hs_nesting s]
     @ (hs_profile s @ sub_layer_bits (hs_sub_layers s) (hs_reserved s))
     @ ue (hs_id s) @ ue (hs_chroma_format_idc s) @ (if hs_chroma_format_idc s = 3 then [hs_separate s] else [])
     @ ue (hs_width s) @ ue (hs_height s) @ opt_bits (\<lambda>(l, r, t, b). ue l @ ue r @ ue t @ ue b) (hs_window s)
     @ ues (hs_depths s) @ ([True] @ concat (map ues (hs_ordering s))) @ ues (hs_block_sizes s)
     @ opt_bits (opt_bits (\<lambda>cs. concat (map coef_bits cs))) (hs_scaling s)
     @ [hs_amp s] @ [hs_sao s]
     @ opt_bits (\<lambda>(depths, sizes, f). byte_bits depths @ ues sizes @ [f]) (hs_pcm s)
     @ (ue (word_of_nat (length (hs_rps s))) @ rps_list_bits 0 (hs_rps s))
     @ opt_bits (\<lambda>ps. ue (word_of_nat (length ps)) @ concat (map poc_entry_bits ps)) (hs_long_term s)
     @ [hs_mvp s] @ [hs_smoothing s] @ opt_bits hevc_vui_bits (hs_vui s)"

section \<open>What a parameter set means\<close>

definition chroma_unit_of :: "u64 \<Rightarrow> nat \<times> nat" where
  "chroma_unit_of c = (if c = 1 then (2, 2) else if c = 2 then (2, 1) else (1, 1))"

definition window_of :: "hevc_syntax \<Rightarrow> u64 \<times> u64 \<times> u64 \<times> u64" where
  "window_of s = (case hs_window s of Some w \<Rightarrow> w | None \<Rightarrow> (0, 0, 0, 0))"

definition hevc_width_of :: "hevc_syntax \<Rightarrow> int" where
  "hevc_width_of s = (case window_of s of (l, r, t, b) \<Rightarrow>
     int (unat (hs_width s)) - int (fst (chroma_unit_of (hs_chroma_format_idc s))) * (int (unat l) + int (unat r)))"

definition hevc_height_of :: "hevc_syntax \<Rightarrow> int" where
  "hevc_height_of s = (case window_of s of (l, r, t, b) \<Rightarrow>
     int (unat (hs_height s)) - int (snd (chroma_unit_of (hs_chroma_format_idc s))) * (int (unat t) + int (unat b)))"

definition hevc_rate_of :: "hevc_vui_syntax \<Rightarrow> rat" where
  "hevc_rate_of v = (case hv_timing v of Some (u, t) \<Rightarrow> of_nat (unat t) / of_nat (unat u) | None \<Rightarrow> 0)"

definition hevc_sps_of :: "hevc_syntax \<Rightarrow> HevcSpsInfo" where
  "hevc_sps_of s = \<lparr>hsps_width = word_of_int (hevc_width_of s), hsps_height = word_of_int (hevc_height_of s),
     hsps_frame_rate = (case hs_vui s of Some v \<Rightarrow> hevc_rate_of v | None \<Rightarrow> 0),
     hsps_color_config = (case hs_vui s of Some v \<Rightarrow> color_of (shared_vui v) | None \<Rightarrow> None)\<rparr>"

definition entries_ok :: "(u64 \<times> bool) list \<Rightarrow> bool" where
  "entries_ok ps \<longleftrightarrow> length ps < 2 ^ 32 \<and> (\<forall>p \<in> set ps. ue_ok (fst p))"

definition hevc_sps_ok :: "hevc_syntax \<Rightarrow> bool" where
  "hevc_sps_ok s \<longleftrightarrow> hs_max_sub_layers_minus1 s < 8 \<and> length (hs_profile s) = 96
     \<and> length (hs_sub_layers s) = hs_max_sub_layers_minus1 s \<and> (\<forall>x \<in> set (hs_sub_layers s). length (fst x) = 88)
     \<and> length (hs_reserved s) = 2 * (8 - hs_max_sub_layers_minus1 s)
     \<and> ue_ok (hs_id s) \<and> unat (hs_chroma_format_idc s) \<le> 3 \<and> ue_ok (hs_width s) \<and> ue_ok (hs_height s)
     \<and> (\<forall>l r t b. hs_window s = Some (l, r, t, b) \<longrightarrow> ue_ok l \<and> ue_ok r \<and> ue_ok t \<and> ue_ok b)
     \<and> 0 \<le> hevc_width_of s \<and> 0 \<le> hevc_height_of s
     \<and> length (hs_depths s) = 3 \<and> (\<forall>x \<in> set (hs_depths s). ue_ok x)
     \<and> length (hs_ordering s) = hs_max_sub_layers_minus1 s + 1
     \<and> (\<forall>xs \<in> set (hs_ordering s). length xs = 3 \<and> (\<forall>x \<in> set xs. ue_ok x))
     \<and> length (hs_block_sizes s) = 6 \<and> (\<forall>x \<in> set (hs_block_sizes s). ue_ok x)
     \<and> (\<forall>cs. hs_scaling s = Some (Some cs) \<longrightarrow>
          list_all2 coef_ok (replicate 6 0 @ replicate 6 1 @ replicate 6 2 @ replicate 2 3) cs)
     \<and> (\<forall>d xs f. hs_pcm s = Some (d, xs, f) \<longrightarrow> length xs = 2 \<and> (\<forall>x \<in> set xs. ue_ok x))
     \<and> length (hs_rps s) < 2 ^ 32 \<and> (\<forall>r \<in> set (hs_rps s). entries_ok (fst r) \<and> entries_ok (snd r))
     \<and> (\<forall>ps. hs_long_term s = Some ps \<longrightarrow> entries_ok ps)
     \<and> (\<forall>v. hs_vui s = Some v \<longrightarrow> hevc_vui_ok v)"

section \<open>The parser follows the syntax\<close>

lemma reads_for:
  assumes "list_all2 (\<lambda>x b. reads_bits (f x) b ()) xs bs"
  shows "reads_bits (for_m xs f) (concat bs) ()"
  using assms by (induction rule: list_all2_induct) (auto intro: reads_ret reads_bind [where x = "()"])

lemma reads_drop_golombs:
  "length xs = n \<Longrightarrow> (\<And>x. x \<in> set xs \<Longrightarrow> ue_ok x) \<Longrightarrow> reads_bits (drop_golombs n) (ues xs) ()"
  unfolding drop_golombs_def by (intro reads_ignore [OF reads_repeat] reads_golomb) auto

lemma reads_sub_layers:
  assumes "n = length ls" "n < 8" "\<forall>x \<in> set ls. length (fst x) = 88" "length reserved = 2 * (8 - n)" "length prof = 96"
  shows "reads_bits (profile_tier_level n) (prof @ sub_layer_bits ls reserved) ()"
proof -
  have flag: "reads_bits (bindE (skip_bits 1) (\<lambda>_. read_bit)) ([True] @ [x]) x" for x
    by (intro reads_bind [OF reads_skip] reads_read_bit) simp
  have flags: "reads_bits (sub_layer_flags n) (concat (map (\<lambda>(p, l). [True] @ [l \<noteq> None]) ls)) (map (\<lambda>(p, l). l \<noteq> None) ls)"
  proof -
    have "reads_bits (repeat_m n (bindE (skip_bits 1) (\<lambda>_. read_bit)))
        (concat (map (\<lambda>x. [True] @ [x]) (map (\<lambda>(p, l). l \<noteq> None) ls))) (map (\<lambda>(p, l). l \<noteq> None) ls)"
      by (rule reads_repeat [OF flag]) (simp add: assms(1))
    then show ?thesis by (simp add: sub_layer_flags_def comp_def case_prod_unfold)
  qed
  have res: "reads_bits (if n > 0 \<and> n < 8 then skip_bits (2 * (8 - int n)) else ret ()) (if ls \<noteq> [] then reserved else []) ()"
    using assms by (auto intro!: reads_skip simp: reads_ret of_nat_diff)
  have "reads_bits (bindE (skip_bits (2 + 1 + 5 + 32 + 1 + 1 + 1 + 1 + 43 + 1)) (\<lambda>_. if l \<noteq> None then skip_bits 8 else ret ()))
      (p @ (case l of Some x \<Rightarrow> byte_bits x | None \<Rightarrow> [])) ()" if "(p, l) \<in> set ls" for p l
    using assms(3) that by (intro reads_bind [OF reads_skip]) (auto intro: reads_skip simp: reads_ret split: option.splits)
  then have "reads_bits (sub_layer_levels (map (\<lambda>(p, l). l \<noteq> None) ls))
      (concat (map (\<lambda>(p, l). p @ (case l of Some x \<Rightarrow> byte_bits x | None \<Rightarrow> [])) ls)) ()"
    unfolding sub_layer_levels_def by (intro reads_for) (auto simp: list_all2_conv_all_nth nth_mem case_prod_unfold)
  then show ?thesis
    unfolding profile_tier_level_def sub_layer_bits_def using assms(5)
    by (intro reads_bind [OF reads_skip] reads_bind [OF flags] reads_bind [OF res]) simp_all
qed

lemma reads_coef_loop: "coefs_ok next_coef ds \<Longrightarrow> n = length ds \<Longrightarrow> reads_bits (coef_loop n next_coef) (concat (map se ds)) ()"
  by (induction next_coef ds arbitrary: n rule: coefs_ok.induct)
     (auto simp: Let_def reads_ret intro!: reads_bind [OF reads_golomb(2)])

lemma reads_coefs:
  assumes "coef_ok size_id c"
  shows "reads_bits (hevc_scaling_list size_id) (coef_bits c) ()"
proof (cases c)
  case (PredMatrix d)
  have "reads_bits (drop_golombs 1) (ue d) ()" using reads_drop_golombs [of "[d]" 1] assms PredMatrix by simp
  then show ?thesis unfolding hevc_scaling_list_def PredMatrix coef_bits.simps
    by (intro reads_bind [OF reads_read_bit]) (simp only: simp_thms if_True)
next
  case (Coefs dc ds)
  show ?thesis
  proof (cases dc)
    case None
    with assms Coefs have "reads_bits (coef_loop (min 64 (2 ^ (4 + 2 * size_id))) 8) (concat (map se ds)) ()" "\<not> size_id > 1"
      by (auto intro!: reads_coef_loop)
    then show ?thesis unfolding hevc_scaling_list_def Coefs None coef_bits.simps Let_def option.case append_Nil
      by (intro reads_bind [OF reads_read_bit]) (simp only: simp_thms if_False)
  next
    case (Some d)
    with assms Coefs have "reads_bits (coef_loop (min 64 (2 ^ (4 + 2 * size_id))) (8 + sint d)) (concat (map se ds)) ()"
      and d: "size_id > 1" "se_ok d" "in_i64 (8 + sint d)"
      by (auto intro!: reads_coef_loop)
    then have "reads_bits (bindE read_signed_exp_golomb (\<lambda>dc. if \<not> in_i64 (8 + sint dc) then panic
          else coef_loop (min 64 (2 ^ (4 + 2 * size_id))) (8 + sint dc))) (se d @ concat (map se ds)) ()"
      by (intro reads_bind [OF reads_golomb(2)]) (simp_all only: simp_thms if_False not_False_eq_True)
    then show ?thesis unfolding hevc_scaling_list_def Coefs Some coef_bits.simps Let_def option.case using d(1)
      by (intro reads_bind [OF reads_read_bit]) (simp only: simp_thms if_False if_True)
  qed
qed

lemma bindE_ret: "bindE (ret x) f = f x" "bindE m ret = m"
  by (rule ext, simp add: bindE_def ret_def split: prod.splits result.splits)+

text \<open>The nested loops visit the twenty matrices in order of size.\<close>

lemma scaling_loops:
  "for_m [0..<4] (\<lambda>size_id. for_m (if size_id = 3 then [0, 3] else [0, 1, 2, 3, 4, 5 :: nat]) (\<lambda>matrix_id. hevc_scaling_list size_id))
   = for_m (replicate 6 0 @ replicate 6 1 @ replicate 6 2 @ replicate 2 3) hevc_scaling_list"
proof -
  have "[0..<4] = [0, 1, 2, 3 :: nat]" by (simp add: upt_rec)
  then show ?thesis by (simp add: bindE_ret bindE_assoc numeral_eq_Suc)
qed

lemma reads_scaling:
  assumes "\<And>cs. x = Some (Some cs) \<Longrightarrow> list_all2 coef_ok (replicate 6 0 @ replicate 6 1 @ replicate 6 2 @ replicate 2 3) cs"
  shows "reads_bits hevc_scaling_lists (opt_bits (opt_bits (\<lambda>cs. concat (map coef_bits cs))) x) ()"
  unfolding hevc_scaling_lists_def scaling_loops
proof (rule reads_opt, rule reads_opt)
  fix y cs assume "x = Some y" "y = Some cs"
  with assms have "list_all2 (\<lambda>i b. reads_bits (hevc_scaling_list i) b ())
      (replicate 6 0 @ replicate 6 1 @ replicate 6 2 @ replicate 2 3) (map coef_bits cs)"
    by (auto simp: list.rel_map elim!: list_all2_mono intro: reads_coefs)
  then show "reads_bits (for_m (replicate 6 0 @ replicate 6 1 @ replicate 6 2 @ replicate 2 3) hevc_scaling_list)
      (concat (map coef_bits cs)) ()" by (rule reads_for)
qed (rule reads_ret)+

lemma reads_pcm:
  assumes "\<And>d xs f. x = Some (d, xs, f) \<Longrightarrow> length xs = 2 \<and> (\<forall>x \<in> set xs. ue_ok x)"
  shows "reads_bits pcm_info (opt_bits (\<lambda>(depths, sizes, f). byte_bits depths @ ues sizes @ [f]) x) ()"
  unfolding pcm_info_def
proof (rule reads_opt)
  fix v assume v: "x = Some v"
  obtain d xs f where x: "v = (d, xs, f)" by (cases v)
  have "reads_bits (bindE (skip_bits 4) (\<lambda>_. bindE (skip_bits 4) (\<lambda>_. bindE (drop_golombs 2) (\<lambda>_. skip_bits 1))))
      (take 4 (byte_bits d) @ drop 4 (byte_bits d) @ ues xs @ [f]) ()"
    using assms v x by (intro reads_bind [OF reads_skip] reads_bind [OF reads_drop_golombs] reads_skip) auto
  then show "reads_bits (bindE (skip_bits 4) (\<lambda>_. bindE (skip_bits 4) (\<lambda>_. bindE (drop_golombs 2) (\<lambda>_. skip_bits 1))))
      (case v of (depths, sizes, f) \<Rightarrow> byte_bits depths @ ues sizes @ [f]) ()"
    unfolding x prod.case append_assoc [symmetric] append_take_drop_id .
qed (rule reads_ret)

lemma reads_poc_entries:
  assumes "entries_ok ps" "n = length ps"
  shows "reads_bits (repeat_m n delta_poc) (concat (map poc_entry_bits ps)) (map (\<lambda>_. ()) ps)"
  using assms
proof (induction ps arbitrary: n)
  case (Cons p ps)
  have "reads_bits delta_poc (poc_entry_bits p) ()"
    unfolding delta_poc_def poc_entry_bits_def using Cons.prems
    by (intro reads_bind [OF reads_golomb(1)] reads_skip) (simp_all add: entries_ok_def)
  moreover have "reads_bits (repeat_m (length ps) delta_poc) (concat (map poc_entry_bits ps)) (map (\<lambda>_. ()) ps)"
    using Cons.prems by (intro Cons.IH) (simp_all add: entries_ok_def)
  ultimately show ?case using Cons.prems(2)
    by (simp add: reads_bind [where x = "()"] reads_map)
qed (simp add: reads_ret)

lemma count_ok: "n < 2 ^ 32 \<Longrightarrow> ue_ok (word_of_nat n)" "n < 2 ^ 32 \<Longrightarrow> unat (word_of_nat n :: u64) = n"
  by (auto simp: unat_of_nat dest: arg_cong [of _ _ unat])

lemma reads_rps:
  assumes "entries_ok (fst r)" "entries_ok (snd r)"
  shows "reads_bits (rps_round idx prev) (rps_bits idx r) (length (fst r) + length (snd r))"
proof -
  have n: "length (fst r) < 2 ^ 32" "length (snd r) < 2 ^ 32" using assms by (simp_all add: entries_ok_def)
  have "reads_bits explicit_rps (ue (word_of_nat (length (fst r))) @ ue (word_of_nat (length (snd r)))
      @ concat (map poc_entry_bits (fst r)) @ concat (map poc_entry_bits (snd r))) (length (fst r) + length (snd r))"
    unfolding explicit_rps_def
    apply (rule reads_bind [OF reads_golomb(1) [OF count_ok(1) [OF n(1)]]], rule reads_bind [OF reads_golomb(1) [OF count_ok(1) [OF n(2)]]])
    apply (simp only: count_ok(2) [OF n(1)] count_ok(2) [OF n(2)])
    apply (subst if_not_P)
     apply (use n in simp)
    apply (rule reads_bind [OF reads_poc_entries [OF assms(1) refl]], rule reads_bind_last [OF reads_poc_entries [OF assms(2) refl]])
    apply (rule reads_ret)
    done
  moreover have "reads_bits (if idx \<noteq> 0 then read_bit else ret False) (if idx \<noteq> 0 then [False] else []) False"
    by (simp add: reads_read_bit reads_ret)
  ultimately show ?thesis unfolding rps_round_def rps_bits_def
    by (intro reads_bind [where x = False]) (simp_all only: if_False)
qed

lemma reads_rps_list:
  "\<forall>r \<in> set rs. entries_ok (fst r) \<and> entries_ok (snd r) \<Longrightarrow> n = length rs \<Longrightarrow>
   reads_bits (rps_loop n idx prev) (rps_list_bits idx rs) ()"
  by (induction rs arbitrary: n idx prev) (auto intro!: reads_bind [OF reads_rps] simp: reads_ret)

lemma reads_short_term:
  assumes "length rs < 2 ^ 32" "\<forall>r \<in> set rs. entries_ok (fst r) \<and> entries_ok (snd r)"
  shows "reads_bits short_term_sets (ue (word_of_nat (length rs)) @ rps_list_bits 0 rs) ()"
proof -
  have small: "\<not> 2 ^ 63 \<le> 8 * length rs" using assms(1) by simp
  show ?thesis unfolding short_term_sets_def
    by (rule reads_bind [OF reads_golomb(1) [OF count_ok(1) [OF assms(1)]]])
       (simp only: count_ok(2) [OF assms(1)] small if_False reads_rps_list [OF assms(2) refl])
qed

lemma reads_long_term:
  assumes "\<And>ps. x = Some ps \<Longrightarrow> entries_ok ps"
  shows "reads_bits long_term_pics (opt_bits (\<lambda>ps. ue (word_of_nat (length ps)) @ concat (map poc_entry_bits ps)) x) ()"
  unfolding long_term_pics_def
proof (rule reads_opt)
  fix ps assume "x = Some ps"
  then have ps: "entries_ok ps" "length ps < 2 ^ 32" using assms by (auto simp: entries_ok_def)
  then show "reads_bits (bindE read_exp_golomb (\<lambda>n. bindE (repeat_m (unat n) delta_poc) (\<lambda>_. ret ())))
      (ue (word_of_nat (length ps)) @ concat (map poc_entry_bits ps)) ()"
    by (intro reads_bind [OF reads_golomb(1) [OF count_ok(1)]] reads_ignore [OF reads_poc_entries]) (simp_all only: count_ok(2))
qed (rule reads_ret)

lemma reads_hevc_aspect:
  "reads_bits hevc_aspect_ratio (opt_bits (\<lambda>(idc, sar). byte_bits idc @ (if idc = 255 then bits_of (be32 sar) else [])) x) ()"
  unfolding hevc_aspect_ratio_def
proof (rule reads_opt)
  fix v :: "u8 \<times> u32"
  obtain idc sar where v: "v = (idc, sar)" by (cases v)
  have byte: "reads_bits (read_bits 8) (byte_bits idc) (ucast idc)"
    using reads_field [of 8 "ucast idc :: u64"] byte_field [of idc] by (simp add: byte_bits_eq_to_bits to_bits_ucast)
  have "(ucast idc = (255 :: u64)) = (idc = 255)" by (auto simp: word_unat_eq_iff unat_ucast_up)
  then have skip: "reads_bits (if ucast idc = (255 :: u64) then bindE (skip_bits 16) (\<lambda>_. skip_bits 16) else ret ())
      (if idc = 255 then bits_of (be32 sar) else []) ()"
    using reads_sar [of sar] by (simp add: reads_ret)
  show "reads_bits (bindE (read_bits 8) (\<lambda>aspect_ratio_idc. if aspect_ratio_idc = 255
       then bindE (skip_bits 16) (\<lambda>_. skip_bits 16) else ret ()))
     (case v of (idc, sar) \<Rightarrow> byte_bits idc @ (if idc = 255 then bits_of (be32 sar) else [])) ()"
    unfolding v prod.case by (rule reads_bind [OF byte], rule skip)
qed (rule reads_ret)

lemma reads_hevc_timing:
  assumes "\<And>u t. hv_timing v = Some (u, t) \<Longrightarrow> u \<noteq> 0"
  shows "reads_bits hevc_timing (opt_bits (\<lambda>(u, t). to_bits 32 (ucast u :: u64) @ to_bits 32 (ucast t :: u64)) (hv_timing v)) (hevc_rate_of v)"
  unfolding hevc_timing_def
proof (rule reads_opt)
  fix x assume x: "hv_timing v = Some x"
  obtain u t where ut: "x = (u, t)" by (cases x)
  have f: "reads_bits (read_bits 32) (to_bits 32 (ucast w :: u64)) (ucast w)" for w :: u32
    by (rule reads_field) (simp, rule bit_word_eqI, auto simp: bit_simps dest: bit_imp_le_length)
  have "ucast u \<noteq> (0 :: u64)" using assms x ut by (auto simp: word_unat_eq_iff unat_ucast_up)
  then have "reads_bits (bindE (read_bits 32) (\<lambda>num_units_in_tick. bindE (read_bits 32) (\<lambda>time_scale.
       if num_units_in_tick = 0 then fail InvalidData else ret (of_nat (unat time_scale) / of_nat (unat num_units_in_tick)))))
      (to_bits 32 (ucast u :: u64) @ to_bits 32 (ucast t :: u64)) (hevc_rate_of v)"
    by (intro reads_bind [OF f] reads_bind_last [OF f]) (simp add: hevc_rate_of_def x ut unat_ucast_up reads_ret)
  then show "reads_bits (bindE (read_bits 32) (\<lambda>num_units_in_tick. bindE (read_bits 32) (\<lambda>time_scale.
       if num_units_in_tick = 0 then fail InvalidData else ret (of_nat (unat time_scale) / of_nat (unat num_units_in_tick)))))
      (case x of (u, t) \<Rightarrow> to_bits 32 (ucast u :: u64) @ to_bits 32 (ucast t :: u64)) (hevc_rate_of v)" by (simp add: ut)
qed (simp add: hevc_rate_of_def reads_ret)

lemma reads_hevc_vui:
  assumes "\<And>v. x = Some v \<Longrightarrow> hevc_vui_ok v"
  shows "reads_bits hevc_vui (opt_bits hevc_vui_bits x)
     (case x of Some v \<Rightarrow> hevc_rate_of v | None \<Rightarrow> 0, case x of Some v \<Rightarrow> color_of (shared_vui v) | None \<Rightarrow> None)"
  unfolding hevc_vui_def
proof (rule reads_opt)
  fix v assume x: "x = Some v"
  with assms have ok: "hevc_vui_ok v" by simp
  have sig: "reads_bits vui_video_signal (opt_bits (\<lambda>(fmt, full, desc). to_bits 3 fmt @ [full]
         @ opt_bits (\<lambda>(p, t, m). byte_bits p @ byte_bits t @ byte_bits m) desc) (hv_video_signal v)) (color_of (shared_vui v))"
    using reads_video_signal [of "shared_vui v"] by (simp add: shared_vui_def)
  have loc: "reads_bits vui_chroma_loc (opt_bits (\<lambda>(t, b). ue t @ ue b) (hv_chroma_loc v)) ()"
    using ok by (intro reads_chroma_loc) (auto simp: hevc_vui_ok_def)
  have win: "reads_bits display_window (opt_bits ues (hv_window v)) ()"
    unfolding display_window_def by (rule reads_opt) (use ok in \<open>auto simp: hevc_vui_ok_def reads_ret intro!: reads_drop_golombs\<close>)
  have tim: "reads_bits hevc_timing (opt_bits (\<lambda>(u, t). to_bits 32 (ucast u :: u64) @ to_bits 32 (ucast t :: u64)) (hv_timing v)) (hevc_rate_of v)"
    using ok by (intro reads_hevc_timing) (auto simp: hevc_vui_ok_def)
  show "reads_bits (bindE hevc_aspect_ratio (\<lambda>_. bindE vui_overscan (\<lambda>_. bindE vui_video_signal (\<lambda>color_config.
       bindE vui_chroma_loc (\<lambda>_. bindE (skip_bits 1) (\<lambda>_. bindE (skip_bits 1) (\<lambda>_. bindE (skip_bits 1) (\<lambda>_.
       bindE display_window (\<lambda>_. bindE hevc_timing (\<lambda>frame_rate. ret (frame_rate, color_config))))))))))) (hevc_vui_bits v)
     (case x of Some v \<Rightarrow> hevc_rate_of v | None \<Rightarrow> 0, case x of Some v \<Rightarrow> color_of (shared_vui v) | None \<Rightarrow> None)"
    unfolding hevc_vui_bits_def x option.case
    by (intro reads_bind [OF reads_hevc_aspect] reads_bind [OF reads_overscan] reads_bind [OF sig] reads_bind [OF loc]
        reads_bind [OF reads_skip] reads_bind [OF win] reads_map [OF tim]) simp_all
qed (simp add: reads_ret)

lemma reads_window:
  assumes "\<And>l r t b. hs_window s = Some (l, r, t, b) \<Longrightarrow> ue_ok l \<and> ue_ok r \<and> ue_ok t \<and> ue_ok b"
  shows "reads_bits conformance_window (opt_bits (\<lambda>(l, r, t, b). ue l @ ue r @ ue t @ ue b) (hs_window s)) (window_of s)"
  unfolding conformance_window_def
  by (rule reads_opt) (use assms in \<open>auto simp: window_of_def intro!: reads_bind [OF reads_golomb(1)]
      reads_bind_last [OF reads_golomb(1)] reads_ret\<close>)

lemma reads_chroma_units: "unat c \<le> 3 \<Longrightarrow> reads_bits (chroma_units c) [] (chroma_unit_of c)"
proof -
  assume "unat c \<le> 3"
  then have "unat c = 0 \<or> unat c = 1 \<or> unat c = 2 \<or> unat c = 3" by linarith
  then have "c = 0 \<or> c = 1 \<or> c = 2 \<or> c = 3" by (simp add: word_unat_eq_iff)
  then show ?thesis by (auto simp: chroma_units_def chroma_unit_of_def reads_ret)
qed

lemma reads_windowed:
  assumes "ue_ok full" "int (unat full) - int k * (int (unat a) + int (unat b)) = n" "0 \<le> n" "0 < k"
  shows "reads_bits (windowed full k a b) [] (word_of_int n)"
proof -
  have "int (k * (unat a + unat b)) \<le> int (unat full)" using assms(2,3) by simp
  then have le: "k * (unat a + unat b) \<le> unat full" by (simp only: of_nat_le_iff)
  moreover have "unat a + unat b \<le> k * (unat a + unat b)" using assms(4) by simp
  moreover have "unat full < 2 ^ 64" by (rule order_less_le_trans [OF unsigned_less]) simp
  ultimately have lt: "unat a + unat b < 2 ^ 64" by linarith
  define m where "m = unat full - k * (unat a + unat b)"
  have "int m = n" using assms(2) le unfolding m_def by (simp add: of_nat_diff)
  then have "(word_of_nat m :: u64) = word_of_int n" by (metis of_int_of_nat_eq)
  moreover have "(windowed full k a b :: (bit_reader, io_error, u64) prog) = ret (word_of_nat m)"
    unfolding windowed_def m_def using le lt by simp
  ultimately show ?thesis using reads_ret [of "word_of_int n :: u64"] by simp
qed

lemma reads_ordering:
  assumes "length xss = n + 1" "\<forall>xs \<in> set xss. length xs = 3 \<and> (\<forall>x \<in> set xs. ue_ok x)"
  shows "reads_bits (sub_layer_ordering n) ([True] @ concat (map ues xss)) ()"
proof -
  have "reads_bits (for_m [0..<n + 1] (\<lambda>_. drop_golombs 3)) (concat (map ues xss)) ()"
    by (rule reads_for) (use assms in \<open>auto simp: list_all2_conv_all_nth intro!: reads_drop_golombs\<close>)
  then show ?thesis unfolding sub_layer_ordering_def
    by (intro reads_bind [OF reads_read_bit]) (simp only: if_True)
qed

lemma reads_hevc_sps:
  assumes ok: "hevc_sps_ok s"
  shows "reads_bits hevc_sps_parse_bits (hevc_sps_bits s) (hevc_sps_of s)"
proof -
  obtain l r t b where w: "window_of s = (l, r, t, b)" by (cases "window_of s")
  obtain sw sh where u: "chroma_unit_of (hs_chroma_format_idc s) = (sw, sh)" by (cases "chroma_unit_of (hs_chroma_format_idc s)")
  define n where "n = hs_max_sub_layers_minus1 s"
  have n: "n < 8" "unat (word_of_nat n :: u64) = n"
    using ok by (auto simp: hevc_sps_ok_def n_def unat_of_nat)
  have c3: "unat (hs_chroma_format_idc s) \<le> 3" using ok by (simp add: hevc_sps_ok_def)
  have golomb: "ue_ok (hs_id s)" "ue_ok (hs_chroma_format_idc s)" "ue_ok (hs_width s)" "ue_ok (hs_height s)"
    using ok by (auto simp: hevc_sps_ok_def)
  have f33: "reads_bits (read_bits 6) (to_bits 6 (33 :: u64)) 33"
    by (rule reads_field) (simp_all add: take_bit_eq_mask mask_eq_exp_minus_1)
  have fn: "reads_bits (read_bits 3) (to_bits 3 (word_of_nat n :: u64)) (word_of_nat n)"
    by (rule reads_field) (use n in \<open>simp_all add: word_unat_eq_iff unsigned_take_bit_eq take_bit_nat_eq_self\<close>)
  have s13: "reads_bits (skip_bits (6 + 3 + 4)) (to_bits 13 (hs_ids s)) ()"
    and s1: "reads_bits (skip_bits 1) [x] ()" for x
    by (rule reads_skip; simp)+
  have ptl: "reads_bits (profile_tier_level n) (hs_profile s @ sub_layer_bits (hs_sub_layers s) (hs_reserved s)) ()"
    using ok by (intro reads_sub_layers) (simp_all add: hevc_sps_ok_def n_def)
  have sep: "reads_bits (if hs_chroma_format_idc s = 3 then bindE read_bit (\<lambda>_. ret ()) else ret ())
     (if hs_chroma_format_idc s = 3 then [hs_separate s] else []) ()"
    by (rule reads_if) (rule reads_ignore [OF reads_read_bit] reads_ret)+
  have win: "reads_bits conformance_window (opt_bits (\<lambda>(l, r, t, b). ue l @ ue r @ ue t @ ue b) (hs_window s)) (l, r, t, b)"
    using reads_window [of s] ok by (fastforce simp: hevc_sps_ok_def w)
  have un: "reads_bits (chroma_units (hs_chroma_format_idc s)) [] (sw, sh)"
    using reads_chroma_units [OF c3] by (simp add: u)
  have pos: "0 < sw" "0 < sh" using u by (auto simp: chroma_unit_of_def split: if_splits)
  have dw: "reads_bits (windowed (hs_width s) sw l r) [] (word_of_int (hevc_width_of s))"
    using ok golomb(3) pos by (intro reads_windowed) (simp_all add: hevc_sps_ok_def hevc_width_of_def w u)
  have dh: "reads_bits (windowed (hs_height s) sh t b) [] (word_of_int (hevc_height_of s))"
    using ok golomb(4) pos by (intro reads_windowed) (simp_all add: hevc_sps_ok_def hevc_height_of_def w u)
  have dep: "reads_bits (drop_golombs 3) (ues (hs_depths s)) ()" "reads_bits (drop_golombs 6) (ues (hs_block_sizes s)) ()"
    using ok by (auto simp: hevc_sps_ok_def intro!: reads_drop_golombs)
  have ord: "reads_bits (sub_layer_ordering n) ([True] @ concat (map ues (hs_ordering s))) ()"
    using ok by (intro reads_ordering) (simp_all add: hevc_sps_ok_def n_def)
  have sc: "reads_bits hevc_scaling_lists (opt_bits (opt_bits (\<lambda>cs. concat (map coef_bits cs))) (hs_scaling s)) ()"
    using ok by (intro reads_scaling) (simp add: hevc_sps_ok_def)
  have pcm: "reads_bits pcm_info (opt_bits (\<lambda>(depths, sizes, f). byte_bits depths @ ues sizes @ [f]) (hs_pcm s)) ()"
    using ok by (intro reads_pcm) (simp add: hevc_sps_ok_def)
  have st: "reads_bits short_term_sets (ue (word_of_nat (length (hs_rps s))) @ rps_list_bits 0 (hs_rps s)) ()"
    using ok by (intro reads_short_term) (simp_all add: hevc_sps_ok_def)
  have lt: "reads_bits long_term_pics (opt_bits (\<lambda>ps. ue (word_of_nat (length ps)) @ concat (map poc_entry_bits ps)) (hs_long_term s)) ()"
    using ok by (intro reads_long_term) (simp add: hevc_sps_ok_def)
  have vui: "reads_bits hevc_vui (opt_bits hevc_vui_bits (hs_vui s)) (hsps_frame_rate (hevc_sps_of s), hsps_color_config (hevc_sps_of s))"
    using reads_hevc_vui [of "hs_vui s"] ok by (simp add: hevc_sps_ok_def hevc_sps_of_def)
  show ?thesis
    unfolding hevc_sps_parse_bits_def hevc_sps_bits_def n_def [symmetric]
    apply (rule reads_bind [OF reads_read_bit], simp only: if_False)
    apply (rule reads_bind [OF f33], simp only: if_False simp_thms)
    apply (rule reads_bind [OF s13], rule reads_bind [OF fn], rule reads_bind [OF s1], simp only: n(2))
    apply (rule reads_bind [OF ptl], rule reads_bind [OF reads_golomb(1)], rule golomb)
    apply (rule reads_bind [OF reads_golomb(1)], rule golomb)
    apply (rule reads_bind [OF sep], rule reads_bind [OF reads_golomb(1)], rule golomb)
    apply (rule reads_bind [OF reads_golomb(1)], rule golomb)
    apply (rule reads_bind [OF win], simp only: prod.case)
    apply (rule reads_nothing [OF un], simp only: prod.case)
    apply (rule reads_nothing [OF dw], rule reads_nothing [OF dh])
    apply (rule reads_bind [OF dep(1)], rule reads_bind [OF ord], rule reads_bind [OF dep(2)], rule reads_bind [OF sc])
    apply (rule reads_bind [OF s1], rule reads_bind [OF s1], rule reads_bind [OF pcm], rule reads_bind [OF st])
    apply (rule reads_bind [OF lt], rule reads_bind [OF s1], rule reads_bind [OF s1], rule reads_bind_last [OF vui])
    apply (simp add: hevc_sps_of_def reads_ret)
    done
qed

section \<open>Properties\<close>

text \<open>C26: the H.265 parameter set parser implements the syntax of the standard: for a parameter set with any number of
  sub-layers, chroma format, conformance window, scaling matrices, pulse code modulation, explicit short-term and
  long-term reference pictures and usability information, whose payload carries at least three more bytes, parsing the
  escaped unit returns the picture size inside the window, the frame rate and the colour description it describes; and
  a unit of fewer than three bytes makes the parser panic.\<close>

theorem hevc_sps_parse_layout:
  "(hevc_sps_ok s \<and> bits_of q = hevc_sps_bits s @ rest \<and> 24 \<le> length rest \<longrightarrow> hevc_sps_parse (escape 0 q) = Ok (hevc_sps_of s))
   \<and> (length data < 3 \<longrightarrow> hevc_sps_parse data = Panic)"
proof (intro conjI impI; (elim conjE)?)
  assume ok: "hevc_sps_ok s" and q: "bits_of q = hevc_sps_bits s @ rest" and r: "24 \<le> length rest"
  from reads_escaped [OF reads_hevc_sps [OF ok] q r]
  show "hevc_sps_parse (escape 0 q) = Ok (hevc_sps_of s)" by (simp add: hevc_sps_parse_def sps_payload_def)
next
  assume "length data < 3"
  then show "hevc_sps_parse data = Panic" by (simp add: hevc_sps_parse_def sps_payload_def)
qed

definition example_hevc_sps :: hevc_syntax where
  "example_hevc_sps = \<lparr>hs_ids = 0x1011, hs_max_sub_layers_minus1 = 0, hs_nesting = True, hs_profile = replicate 96 True,
     hs_sub_layers = [], hs_reserved = replicate 16 False, hs_id = 0, hs_chroma_format_idc = 0, hs_separate = False,
     hs_width = 3, hs_height = 1, hs_window = None, hs_depths = [0, 0, 0], hs_ordering = [[0, 0, 0]],
     hs_block_sizes = [0, 0, 0, 0, 0, 0], hs_scaling = None, hs_amp = True, hs_sao = True, hs_pcm = None,
     hs_rps = [], hs_long_term = None, hs_mvp = True, hs_smoothing = True, hs_vui = None\<rparr>"

theorem hevc_sps_parse_layout_witness:
  "hevc_sps_parse [0x43, 0x1, 0x11, 0xFF, 0xFF, 0xFF, 0xFF, 0xFF, 0xFF, 0xFF, 0xFF, 0xFF, 0xFF, 0xFF, 0xFF, 0xC8, 0x9F, 0xFF, 0x6B, 0x0, 0x80, 0x80, 0x80]
     = Ok \<lparr>hsps_width = 3, hsps_height = 1, hsps_frame_rate = 0, hsps_color_config = None\<rparr>
   \<and> hevc_sps_parse [0x42] = Panic"
proof -
  let ?q = "[0x43, 0x1, 0x11, 0xFF, 0xFF, 0xFF, 0xFF, 0xFF, 0xFF, 0xFF, 0xFF, 0xFF, 0xFF, 0xFF, 0xFF, 0xC8, 0x9F, 0xFF, 0x6B, 0x0, 0x80, 0x80, 0x80] :: bytes"
  let ?rest = "replicate 7 False @ bits_of [0x80, 0x80, 0x80]"
  have ues: "ue 0 = [True]" "ue 1 = [False, True, False]" "ue 3 = [False, False, True, False, False]"
    by (simp_all add: eg_bits_def eg_log.simps to_bits_map upt_rec)
  have rep: "replicate (numeral k) x = x # replicate (pred_numeral k) x" for k and x :: bool by (simp add: numeral_eq_Suc)
  have fields: "to_bits 6 (33 :: u64) = [True, False, False, False, False, True]"
    "to_bits 13 (0x1011 :: u64) = [True, False, False, False, False, False, False, False, True, False, False, False, True]"
    "to_bits 3 (0 :: u64) = [False, False, False]"
    by (simp_all add: to_bits_map upt_rec)
  have "hevc_sps_ok example_hevc_sps"
    by (simp add: hevc_sps_ok_def example_hevc_sps_def hevc_width_of_def hevc_height_of_def window_of_def chroma_unit_of_def)
  moreover have "bits_of ?q = hevc_sps_bits example_hevc_sps @ ?rest"
    by (simp add: hevc_sps_bits_def example_hevc_sps_def sub_layer_bits_def opt_bits_def ues fields rep byte_bits_def upt_rec)
  moreover have "escape 0 ?q = ?q" by simp
  moreover have "hevc_sps_of example_hevc_sps = \<lparr>hsps_width = 3, hsps_height = 1, hsps_frame_rate = 0, hsps_color_config = None\<rparr>"
    by (simp add: hevc_sps_of_def example_hevc_sps_def hevc_width_of_def hevc_height_of_def window_of_def chroma_unit_of_def)
  ultimately show ?thesis
    using hevc_sps_parse_layout [of example_hevc_sps ?q ?rest "[0x42]"] by simp
qed

end
