(* ===== verification/Av1.thy ===== *)
theory Av1
  imports Bit_Format
begin

text \<open>
  The configuration record, the unit headers and the variable-length integers of the crate
  \<^verbatim>\<open>scuffle-av1\<close> (\<^verbatim>\<open>crates/av1/src/config.rs\<close>, \<^verbatim>\<open>obu/mod.rs\<close>, \<^verbatim>\<open>obu/utils.rs\<close>).
\<close>

section \<open>The codec configuration record\<close>

record AV1CodecConfigurationRecord =
  av1_seq_profile :: u8
  av1_seq_level_idx_0 :: u8
  av1_seq_tier_0 :: bool
  av1_high_bitdepth :: bool
  av1_twelve_bit :: bool
  av1_monochrome :: bool
  av1_chroma_subsampling_x :: bool
  av1_chroma_subsampling_y :: bool
  av1_chroma_sample_position :: u8
  av1_hdr_wcg_idc :: u8
  av1_initial_presentation_delay_minus_one :: "u8 option"
  av1_config_obu :: bytes

definition av1_demux_bits :: "(bit_reader, io_error, AV1CodecConfigurationRecord) prog" where
  "av1_demux_bits =
     bindE read_bit (\<lambda>marker.
     if \<not> marker then fail InvalidData else
     bindE (read_field8 7) (\<lambda>version.
     if version \<noteq> 1 then fail InvalidData else
     bindE (read_field8 3) (\<lambda>seq_profile.
     bindE (read_field8 5) (\<lambda>seq_level_idx_0.
     bindE read_bit (\<lambda>seq_tier_0.
     bindE read_bit (\<lambda>high_bitdepth.
     bindE read_bit (\<lambda>twelve_bit.
     bindE read_bit (\<lambda>monochrome.
     bindE read_bit (\<lambda>chroma_subsampling_x.
     bindE read_bit (\<lambda>chroma_subsampling_y.
     bindE (read_field8 2) (\<lambda>chroma_sample_position.
     bindE (read_field8 2) (\<lambda>hdr_wcg_idc.
     bindE (seek_bits 1) (\<lambda>_.
     bindE (bindE read_bit (\<lambda>present.
       if present then bindE (read_field8 4) (\<lambda>d. ret (Some d))
       else bindE (seek_bits 4) (\<lambda>_. ret None))) (\<lambda>initial_presentation_delay_minus_one.
     ret \<lparr>av1_seq_profile = seq_profile, av1_seq_level_idx_0 = seq_level_idx_0, av1_seq_tier_0 = seq_tier_0,
          av1_high_bitdepth = high_bitdepth, av1_twelve_bit = twelve_bit, av1_monochrome = monochrome,
          av1_chroma_subsampling_x = chroma_subsampling_x, av1_chroma_subsampling_y = chroma_subsampling_y,
          av1_chroma_sample_position = chroma_sample_position, av1_hdr_wcg_idc = hdr_wcg_idc,
          av1_initial_presentation_delay_minus_one = initial_presentation_delay_minus_one,
          av1_config_obu = []\<rparr>))))))))))))))"

text \<open>Behind the bit fields the reader must be aligned; the rest of the buffer is the configuration unit.\<close>

definition av1_demux :: "(cursor, io_error, AV1CodecConfigurationRecord) prog" where
  "av1_demux c =
     (case bindE av1_demux_bits (\<lambda>rec r. if br_is_aligned r then (Ok rec, r) else (Err InvalidData, r)) (br_new c) of
        (x, r) \<Rightarrow> bindE (\<lambda>c. (x, c)) (\<lambda>rec. bindE extract_remaining (\<lambda>obu. ret (rec\<lparr>av1_config_obu := obu\<rparr>))) (br_data r))"

definition av1_size :: "AV1CodecConfigurationRecord \<Rightarrow> nat" where
  "av1_size r = 1 + 1 + 1 + 1 + length (av1_config_obu r)"

definition av1_fields_mux :: "AV1CodecConfigurationRecord \<Rightarrow> (bit_writer, io_error, unit) prog" where
  "av1_fields_mux r =
     bindE (write_bit True) (\<lambda>_.
     bindE (write_bits 1 7) (\<lambda>_.
     bindE (write_bits (ucast (av1_seq_profile r)) 3) (\<lambda>_.
     bindE (write_bits (ucast (av1_seq_level_idx_0 r)) 5) (\<lambda>_.
     bindE (write_bit (av1_seq_tier_0 r)) (\<lambda>_.
     bindE (write_bit (av1_high_bitdepth r)) (\<lambda>_.
     bindE (write_bit (av1_twelve_bit r)) (\<lambda>_.
     bindE (write_bit (av1_monochrome r)) (\<lambda>_.
     bindE (write_bit (av1_chroma_subsampling_x r)) (\<lambda>_.
     bindE (write_bit (av1_chroma_subsampling_y r)) (\<lambda>_.
     bindE (write_bits (ucast (av1_chroma_sample_position r)) 2) (\<lambda>_.
     bindE (write_bits 0 3) (\<lambda>_.
     case av1_initial_presentation_delay_minus_one r of
       Some d \<Rightarrow> bindE (write_bit True) (\<lambda>_. write_bits (ucast d) 4)
     | None \<Rightarrow> bindE (write_bit False) (\<lambda>_. write_bits 0 4)))))))))))))"

definition av1_mux :: "AV1CodecConfigurationRecord \<Rightarrow> (bytes, io_error, unit) prog" where
  "av1_mux r = bindE (with_bit_writer (av1_fields_mux r)) (\<lambda>_. write_all (av1_config_obu r))"

record AV1VideoDescriptor =
  avd_tag :: u8
  avd_length :: u8
  avd_codec_configuration_record :: AV1CodecConfigurationRecord

definition av1_descriptor_demux :: "(cursor, io_error, AV1VideoDescriptor) prog" where
  "av1_descriptor_demux =
     bindE read_u8 (\<lambda>tag.
     if tag \<noteq> 0x80 then fail InvalidData else
     bindE read_u8 (\<lambda>len.
     if len \<noteq> 4 then fail InvalidData else
     bindE av1_demux (\<lambda>rec.
     ret \<lparr>avd_tag = tag, avd_length = len, avd_codec_configuration_record = rec\<rparr>)))"

section \<open>Variable-length integers\<close>

fun leb128_loop :: "nat \<Rightarrow> nat \<Rightarrow> u64 \<Rightarrow> (bit_reader, io_error, u64) prog" where
  "leb128_loop 0 i result = ret result"
| "leb128_loop (Suc n) i result =
     bindE (read_bits 8) (\<lambda>byte.
     let result' = result OR push_bit (i * 7) (byte AND 0x7F)
     in if byte AND 0x80 = 0 then ret result' else leb128_loop n (i + 1) result')"

definition read_leb128 :: "(bit_reader, io_error, u64) prog" where
  "read_leb128 = leb128_loop 8 0 0"

text \<open>The count of leading zeros is a \<^verbatim>\<open>u8\<close>.\<close>

fun uvlc_zeros_loop :: "nat \<Rightarrow> nat \<Rightarrow> (bit_reader, io_error, nat) prog" where
  "uvlc_zeros_loop 0 z = out_of_fuel"
| "uvlc_zeros_loop (Suc fuel) z =
     bindE read_bit (\<lambda>b. if b then ret z else if z = 255 then panic else uvlc_zeros_loop fuel (z + 1))"

definition read_uvlc :: "(bit_reader, io_error, u64) prog" where
  "read_uvlc =
     bindE (uvlc_zeros_loop 256 0) (\<lambda>leading_zeros.
     if leading_zeros \<ge> 32 then ret (push_bit 32 1 - 1)
     else bindE (read_bits leading_zeros) (\<lambda>value. ret (value + push_bit leading_zeros 1 - 1)))"

section \<open>Unit headers\<close>

datatype ObuType = SequenceHeader | TemporalDelimiter | FrameHeader | TileGroup | ObuMetadata | ObuFrame
  | RedundantFrameHeader | TileList | Padding | Reserved u8

definition obu_type_from :: "u8 \<Rightarrow> ObuType" where
  "obu_type_from value =
     (if value = 1 then SequenceHeader else if value = 2 then TemporalDelimiter
      else if value = 3 then FrameHeader else if value = 4 then TileGroup
      else if value = 5 then ObuMetadata else if value = 6 then ObuFrame
      else if value = 7 then RedundantFrameHeader else if value = 8 then TileList
      else if value = 15 then Padding else Reserved value)"

fun obu_type_into :: "ObuType \<Rightarrow> u8" where
  "obu_type_into SequenceHeader = 1"
| "obu_type_into TemporalDelimiter = 2"
| "obu_type_into FrameHeader = 3"
| "obu_type_into TileGroup = 4"
| "obu_type_into ObuMetadata = 5"
| "obu_type_into ObuFrame = 6"
| "obu_type_into RedundantFrameHeader = 7"
| "obu_type_into TileList = 8"
| "obu_type_into Padding = 15"
| "obu_type_into (Reserved value) = value"

record ObuExtensionHeader =
  oe_temporal_id :: u8
  oe_spatial_id :: u8

record ObuHeader =
  obu_type :: ObuType
  obu_size :: "u64 option"
  obu_extension_header :: "ObuExtensionHeader option"

definition obu_header_parse_bits :: "(bit_reader, io_error, ObuHeader) prog" where
  "obu_header_parse_bits =
     bindE read_bit (\<lambda>forbidden_bit.
     if forbidden_bit then fail InvalidData else
     bindE (read_field8 4) (\<lambda>type.
     bindE read_bit (\<lambda>extension_flag.
     bindE read_bit (\<lambda>has_size_field.
     bindE read_bit (\<lambda>_.
     bindE (if extension_flag then
              bindE (read_field8 3) (\<lambda>temporal_id.
              bindE (read_field8 2) (\<lambda>spatial_id.
              bindE (read_bits 3) (\<lambda>_.
              ret (Some \<lparr>oe_temporal_id = temporal_id, oe_spatial_id = spatial_id\<rparr>))))
            else ret None) (\<lambda>extension_header.
     bindE (if has_size_field then bindE read_leb128 (\<lambda>n. ret (Some n)) else ret None) (\<lambda>size_field.
     ret \<lparr>obu_type = obu_type_from type, obu_size = size_field, obu_extension_header = extension_header\<rparr>)))))))"

definition obu_header_parse :: "(cursor, io_error, ObuHeader) prog" where
  "obu_header_parse c =
     (case bindE obu_header_parse_bits (\<lambda>h r. if br_is_aligned r then (Ok h, r) else (Err InvalidData, r)) (br_new c) of
        (x, r) \<Rightarrow> (x, br_data r))"

section \<open>The configuration record round trip\<close>

text \<open>The bits of the record with the colour information \<open>hdr\<close> in its reserved place.\<close>

definition av1_bits :: "u8 \<Rightarrow> AV1CodecConfigurationRecord \<Rightarrow> bool list" where
  "av1_bits hdr r = [True] @ to_bits 7 (ucast (1 :: u8) :: u64) @ to_bits 3 (ucast (av1_seq_profile r) :: u64)
     @ to_bits 5 (ucast (av1_seq_level_idx_0 r) :: u64) @ [av1_seq_tier_0 r] @ [av1_high_bitdepth r]
     @ [av1_twelve_bit r] @ [av1_monochrome r] @ [av1_chroma_subsampling_x r] @ [av1_chroma_subsampling_y r]
     @ to_bits 2 (ucast (av1_chroma_sample_position r) :: u64) @ to_bits 2 (ucast hdr :: u64) @ [False]
     @ (case av1_initial_presentation_delay_minus_one r of
          Some d \<Rightarrow> [True] @ to_bits 4 (ucast d :: u64)
        | None \<Rightarrow> [False] @ to_bits 4 (0 :: u64))"

definition av1_ok :: "AV1CodecConfigurationRecord \<Rightarrow> bool" where
  "av1_ok r \<longleftrightarrow> av1_seq_profile r < 2 ^ 3 \<and> av1_seq_level_idx_0 r < 2 ^ 5 \<and> av1_chroma_sample_position r < 2 ^ 2
     \<and> av1_hdr_wcg_idc r < 2 ^ 2 \<and> (\<forall>d. av1_initial_presentation_delay_minus_one r = Some d \<longrightarrow> d < 2 ^ 4)"

lemma reads_av1:
  assumes "av1_ok r" "hdr < 2 ^ 2"
  shows "reads_bits av1_demux_bits (av1_bits hdr r) (r\<lparr>av1_hdr_wcg_idc := hdr, av1_config_obu := []\<rparr>)"
proof -
  have delay: "reads_bits (bindE read_bit (\<lambda>present. if present then bindE (read_field8 4) (\<lambda>d. ret (Some d))
       else bindE (seek_bits 4) (\<lambda>_. ret None)))
     (case av1_initial_presentation_delay_minus_one r of
          Some d \<Rightarrow> [True] @ to_bits 4 (ucast d :: u64)
        | None \<Rightarrow> [False] @ to_bits 4 (0 :: u64)) (av1_initial_presentation_delay_minus_one r)"
  proof (cases "av1_initial_presentation_delay_minus_one r")
    case None
    have "reads_bits (bindE (seek_bits 4) (\<lambda>_. ret None)) (to_bits 4 (0 :: u64) @ []) None"
      by (intro reads_skip_bind reads_ret) simp
    then show ?thesis unfolding None option.case
      by (intro reads_bind [OF reads_read_bit]) (simp only: if_False append_Nil2)
  next
    case (Some d)
    with assms(1) have "d < 2 ^ 4" by (simp add: av1_ok_def)
    then have "reads_bits (bindE (read_field8 4) (\<lambda>d. ret (Some d))) (to_bits 4 (ucast d :: u64)) (Some d)"
      by (intro reads_map [OF reads_field8]) simp_all
    then show ?thesis unfolding Some option.case
      by (intro reads_bind [OF reads_read_bit]) (simp only: if_True)
  qed
  have ok: "av1_seq_profile r < 2 ^ 3" "av1_seq_level_idx_0 r < 2 ^ 5" "av1_chroma_sample_position r < 2 ^ 2"
    using assms(1) by (simp_all add: av1_ok_def)
  show ?thesis
    unfolding av1_demux_bits_def av1_bits_def
    apply (rule reads_bind [OF reads_read_bit], simp only: simp_thms if_False)
    apply (rule reads_bind [OF reads_field8 [of 1]], simp, simp, simp only: simp_thms if_False)
    apply (intro reads_bind [OF reads_read_bit] reads_skip_bind reads_bind [OF reads_field8] reads_bind_last [OF delay])
             apply (use ok assms(2) in \<open>simp_all add: reads_ret\<close>)
    apply (cases r, simp add: reads_ret)
    done
qed

lemma writes_av1:
  assumes "av1_ok r" "bits_of bs = av1_bits 0 r"
  shows "av1_mux r out = (Ok (), out @ bs @ av1_config_obu r)"
proof -
  have const: "writes_bits (write_bits 1 7) (to_bits 7 (ucast (1 :: u8) :: u64))"
    "writes_bits (write_bits 0 3) (to_bits 2 (ucast (0 :: u8) :: u64) @ [False])"
    "writes_bits (write_bits 0 4) (to_bits 4 (0 :: u64))"
    using writes_basic(3) [of 7 1] writes_basic(3) [of 3 0] writes_basic(3) [of 4 0]
    by (simp_all add: take_bit_eq_mask mask_eq_exp_minus_1 to_bits_0 numeral_eq_Suc)
  have delay: "writes_bits (case av1_initial_presentation_delay_minus_one r of
         Some d \<Rightarrow> bindE (write_bit True) (\<lambda>_. write_bits (ucast d) 4)
       | None \<Rightarrow> bindE (write_bit False) (\<lambda>_. write_bits 0 4))
     (case av1_initial_presentation_delay_minus_one r of
          Some d \<Rightarrow> [True] @ to_bits 4 (ucast d :: u64)
        | None \<Rightarrow> [False] @ to_bits 4 (0 :: u64))"
    using assms(1) writes_bind [OF writes_basic(2) const(3), of False]
    by (auto simp: av1_ok_def split: option.splits intro!: writes_bind [where ?b1.0 = "[True]", simplified] writes_basic(2) writes_field)
  have ok: "av1_seq_profile r < 2 ^ 3" "av1_seq_level_idx_0 r < 2 ^ 5" "av1_chroma_sample_position r < 2 ^ 2"
    using assms(1) by (simp_all add: av1_ok_def)
  have bits: "av1_bits 0 r = [True] @ to_bits 7 (ucast (1 :: u8) :: u64) @ to_bits 3 (ucast (av1_seq_profile r) :: u64)
     @ to_bits 5 (ucast (av1_seq_level_idx_0 r) :: u64) @ [av1_seq_tier_0 r] @ [av1_high_bitdepth r]
     @ [av1_twelve_bit r] @ [av1_monochrome r] @ [av1_chroma_subsampling_x r] @ [av1_chroma_subsampling_y r]
     @ to_bits 2 (ucast (av1_chroma_sample_position r) :: u64) @ (to_bits 2 (ucast (0 :: u8) :: u64) @ [False])
     @ (case av1_initial_presentation_delay_minus_one r of
          Some d \<Rightarrow> [True] @ to_bits 4 (ucast d :: u64)
        | None \<Rightarrow> [False] @ to_bits 4 (0 :: u64))"
    by (simp only: av1_bits_def append_assoc)
  have "with_bit_writer (av1_fields_mux r) out = (Ok (), out @ bs)"
    apply (rule with_bit_writer_run)
    unfolding assms(2) bits av1_fields_mux_def
    by (intro writes_bind writes_basic(2) const writes_field ok delay) simp_all
  then show ?thesis by (simp add: av1_mux_def bindE_def write_run)
qed

lemma length_av1_bits: "length (av1_bits hdr r) = 8 * 4"
  by (simp add: av1_bits_def split: option.splits)

lemma av1_mux_demux:
  assumes "av1_ok r"
  shows "\<exists>bs. (\<forall>out. av1_mux r out = (Ok (), out @ bs)) \<and> length bs = av1_size r
     \<and> (\<forall>pre. av1_demux (curs pre bs) = (Ok (r\<lparr>av1_hdr_wcg_idc := 0\<rparr>), curs (pre @ bs) []))
     \<and> fst (av1_descriptor_demux (curs [] (0x80 # 4 # bs)))
        = Ok \<lparr>avd_tag = 0x80, avd_length = 4, avd_codec_configuration_record = r\<lparr>av1_hdr_wcg_idc := 0\<rparr>\<rparr>"
proof -
  from bits_are_bytes [OF length_av1_bits] obtain bs where bs: "bits_of bs = av1_bits 0 r" "length bs = 4" by blast
  have rd: "av1_demux (curs pre (bs @ av1_config_obu r)) = (Ok (r\<lparr>av1_hdr_wcg_idc := 0\<rparr>), curs (pre @ bs @ av1_config_obu r) [])" for pre
  proof -
    from reads_cursor [of av1_demux_bits bs _ pre "av1_config_obu r"] reads_av1 [OF assms, of 0] bs(1)
    obtain r' where "av1_demux_bits (br_new (curs pre (bs @ av1_config_obu r)))
        = (Ok (r\<lparr>av1_hdr_wcg_idc := 0, av1_config_obu := []\<rparr>), r')" "br_data r' = curs (pre @ bs) (av1_config_obu r)"
      "br_is_aligned r'" by fastforce
    then show ?thesis by (cases r) (simp add: av1_demux_def bindE_def extract_remaining_curs ret_def)
  qed
  then have "fst (av1_descriptor_demux (curs [] (0x80 # 4 # bs @ av1_config_obu r)))
        = Ok \<lparr>avd_tag = 0x80, avd_length = 4, avd_codec_configuration_record = r\<lparr>av1_hdr_wcg_idc := 0\<rparr>\<rparr>"
    by (simp add: av1_descriptor_demux_def run_simps)
  with rd writes_av1 [OF assms bs(1)] bs(2) show ?thesis
    by (intro exI [of _ "bs @ av1_config_obu r"]) (simp add: av1_size_def)
qed

text \<open>C27: an AV1 configuration record whose fields fit their bits is written with its announced size and read
  back with every field but one, also inside a video descriptor: the HDR and wide colour gamut indication,
  which the reader takes from two bits, is written as zero.\<close>

theorem av1_config_roundtrip:
  assumes "av1_ok r"
  shows "\<exists>bs. (\<forall>out. av1_mux r out = (Ok (), out @ bs)) \<and> length bs = av1_size r
     \<and> (\<forall>pre. av1_demux (curs pre bs) = (Ok (r\<lparr>av1_hdr_wcg_idc := 0\<rparr>), curs (pre @ bs) []))
     \<and> fst (av1_descriptor_demux (curs [] (0x80 # 4 # bs)))
        = Ok \<lparr>avd_tag = 0x80, avd_length = 4, avd_codec_configuration_record = r\<lparr>av1_hdr_wcg_idc := 0\<rparr>\<rparr>"
  using assms by (rule av1_mux_demux)

section \<open>Variable-length integers\<close>

text \<open>The value of a little-endian base 128 number, and its encodings: every byte but the last has its
  high bit set.\<close>

fun leb_value :: "bytes \<Rightarrow> nat" where
  "leb_value [] = 0"
| "leb_value (b # bs) = unat b mod 128 + 128 * leb_value bs"

fun leb_ok :: "bytes \<Rightarrow> bool" where
  "leb_ok [] \<longleftrightarrow> False"
| "leb_ok (b # bs) \<longleftrightarrow> (if bs = [] then \<not> bit b 7 else bit b 7 \<and> leb_ok bs)"

lemma reads_byte: "reads_bits (read_bits 8) (byte_bits b) (ucast b)"
  using reads_field [of 8 "ucast b :: u64"] byte_field [of b] by (simp add: byte_bits_eq_to_bits to_bits_ucast)

lemma leb_step:
  fixes acc :: u64 and b :: u8
  assumes "unat acc < 2 ^ (i * 7)" "i < 8"
  shows "unat (acc OR push_bit (i * 7) (ucast b AND 0x7F)) = unat acc + (unat b mod 128) * 2 ^ (i * 7)"
proof -
  let ?x = "ucast b AND 0x7F :: u64"
  have x: "?x = take_bit 7 (ucast b)" by (simp add: take_bit_eq_mask mask_eq_exp_minus_1)
  have ux: "unat ?x = unat b mod 128"
    unfolding x by (simp add: unsigned_take_bit_eq unat_ucast_up take_bit_nat_def)
  have "unat b mod 128 \<le> 127" by (simp add: less_Suc_eq_le [symmetric])
  moreover have p: "(2 :: nat) ^ (i * 7) \<le> 2 ^ 49" using assms(2) by (intro power_increasing) auto
  ultimately have le: "(unat b mod 128) * 2 ^ (i * 7) \<le> 127 * 2 ^ 49" by (rule mult_le_mono)
  have "push_bit (i * 7) ?x = word_of_nat ((unat b mod 128) * 2 ^ (i * 7))"
    by (simp add: push_bit_eq_mult ux [symmetric])
  then have up: "unat (push_bit (i * 7) ?x) = (unat b mod 128) * 2 ^ (i * 7)"
    using le by (simp add: unat_of_nat del: of_nat_mult of_nat_power)
  have "acc AND push_bit (i * 7) ?x = 0"
  proof (rule bit_word_eqI)
    fix n assume "n < LENGTH(64)"
    have "take_bit (i * 7) acc = acc"
      using assms(1) by (simp add: word_unat_eq_iff unsigned_take_bit_eq take_bit_nat_eq_self)
    then have "bit acc n \<Longrightarrow> n < i * 7" by (metis bit_take_bit_iff)
    then show "bit (acc AND push_bit (i * 7) ?x) n = bit (0 :: u64) n" by (auto simp: bit_simps)
  qed
  then have "acc OR push_bit (i * 7) ?x = acc + push_bit (i * 7) ?x" by (simp add: disjunctive_add_eq_or)
  moreover have "unat acc + unat (push_bit (i * 7) ?x) < 2 ^ 64" using assms(1) p le up by simp
  ultimately show ?thesis using up by (simp add: unat_plus_if')
qed

lemma reads_leb_loop:
  assumes "leb_ok bs" "length bs \<le> n" "i + n = 8" "unat acc < 2 ^ (i * 7)"
  shows "reads_bits (leb128_loop n i acc) (bits_of bs) (word_of_nat (unat acc + leb_value bs * 2 ^ (i * 7)))"
  using assms
proof (induction bs arbitrary: n i acc)
  case (Cons b bs)
  then obtain m where n: "n = Suc m" by (cases n) auto
  let ?acc = "acc OR push_bit (i * 7) (ucast b AND 0x7F)"
  have i: "i < 8" using Cons.prems n by simp
  note step = leb_step [OF Cons.prems(4) i, of b]
  have "unat b mod 128 \<le> 127" by (simp add: less_Suc_eq_le [symmetric])
  then have "(unat b mod 128) * 2 ^ (i * 7) \<le> 127 * 2 ^ (i * 7)" by (rule mult_le_mono1)
  moreover have "(2 :: nat) ^ ((i + 1) * 7) = 128 * 2 ^ (i * 7)" by (simp add: power_add)
  ultimately have bound: "unat ?acc < 2 ^ ((i + 1) * 7)" unfolding step using Cons.prems(4) by linarith
  have stop: "(ucast b AND 0x80 = (0 :: u64)) = (\<not> bit b 7)"
  proof -
    have "(0x80 :: u64) = push_bit 7 1" by simp
    then have "(ucast b AND 0x80 = (0 :: u64)) = (\<not> bit (ucast b :: u64) 7)"
      by (metis and_exp_eq_0_iff_not_bit push_bit_of_1)
    then show ?thesis by (simp add: bit_simps)
  qed
  show ?case
  proof (cases "bs = []")
    case True
    with Cons.prems have "\<not> bit b 7" by simp
    then have "reads_bits (leb128_loop n i acc) (byte_bits b) ?acc"
      unfolding n leb128_loop.simps Let_def
      by (intro reads_bind_last [OF reads_byte]) (simp add: stop reads_ret)
    moreover have sum: "unat acc + leb_value (b # bs) * 2 ^ (i * 7) = unat ?acc" unfolding step using True by simp
    moreover have "?acc = word_of_nat (unat ?acc)" by simp
    ultimately show ?thesis unfolding sum using True by (simp only: bits_of_simps append_Nil2)
  next
    case False
    with Cons.prems have "bit b 7" "leb_ok bs" by auto
    have "reads_bits (leb128_loop m (i + 1) ?acc) (bits_of bs) (word_of_nat (unat ?acc + leb_value bs * 2 ^ ((i + 1) * 7)))"
      using Cons.prems n \<open>leb_ok bs\<close> bound by (intro Cons.IH) simp_all
    moreover have "unat ?acc + leb_value bs * 2 ^ ((i + 1) * 7) = unat acc + leb_value (b # bs) * 2 ^ (i * 7)"
      unfolding step by (simp add: power_add algebra_simps)
    ultimately have "reads_bits (leb128_loop m (i + 1) ?acc) (bits_of bs) (word_of_nat (unat acc + leb_value (b # bs) * 2 ^ (i * 7)))"
      by (simp only:)
    then show ?thesis
      unfolding n leb128_loop.simps Let_def bits_of_simps
      using \<open>bit b 7\<close> by (intro reads_bind [OF reads_byte]) (simp only: stop if_False simp_thms)
  qed
qed simp

lemma reads_leb: "leb_ok bs \<Longrightarrow> length bs \<le> 8 \<Longrightarrow> reads_bits read_leb128 (bits_of bs) (word_of_nat (leb_value bs))"
  using reads_leb_loop [of bs 8 0 0] by (simp add: read_leb128_def)

text \<open>The other code is the Exp-Golomb code, up to 32 bits.\<close>

lemma reads_uvlc_zeros:
  "k < fuel \<Longrightarrow> z + k \<le> 255 \<Longrightarrow> reads_bits (uvlc_zeros_loop fuel z) (replicate k False @ [True]) (z + k)"
proof (induction k arbitrary: fuel z)
  case 0
  then obtain f where "fuel = Suc f" by (cases fuel) auto
  then show ?case by (auto intro!: reads_bind_last [OF reads_read_bit] reads_ret)
next
  case (Suc k)
  then obtain f where f: "fuel = Suc f" by (cases fuel) auto
  have "reads_bits (uvlc_zeros_loop f (z + 1)) (replicate k False @ [True]) (z + 1 + k)"
    using Suc.prems f by (intro Suc.IH) auto
  with Suc.prems show ?case
    using reads_bind [OF reads_read_bit [of False], of "\<lambda>b. if b then ret z else if z = 255 then panic else uvlc_zeros_loop f (z + 1)"]
    by (simp add: f)
qed

lemma reads_uvlc:
  assumes "unat v < 2 ^ 32 - 1"
  shows "reads_bits read_uvlc (eg_bits v) v"
proof -
  define n where "n = v + 1"
  define z where "z = eg_log n"
  have un: "unat n = unat v + 1" using assms by (simp add: n_def unat_plus_if')
  then have n0: "n \<noteq> 0" by auto
  note top = eg_log_bit [OF n0]
  have "take_bit 32 n = n"
    using assms un by (simp add: word_unat_eq_iff unsigned_take_bit_eq take_bit_nat_eq_self)
  then have z32: "z < 32" using top unfolding z_def by (metis bit_take_bit_iff)
  have bits: "eg_bits v = (replicate z False @ [True]) @ to_bits z (take_bit z n)"
    using to_bits_eg_log [OF n0]
    by (auto simp: eg_bits_def n_def [symmetric] z_def [symmetric] to_bits_nth bit_simps simp del: to_bits.simps intro!: nth_equalityI)
  have "push_bit z 1 AND take_bit z n = 0" by (rule bit_word_eqI) (auto simp: bit_simps bit_1_iff)
  moreover have "push_bit z 1 OR take_bit z n = n"
    using top by (intro bit_word_eqI) (auto simp: bit_simps bit_1_iff z_def [symmetric] le_less)
  ultimately have "n = push_bit z 1 + take_bit z n" by (simp add: disjunctive_add_eq_or)
  then have "take_bit z n + push_bit z 1 - 1 = v" by (simp add: n_def algebra_simps)
  then have "reads_bits (bindE (read_bits z) (\<lambda>value. ret (value + push_bit z 1 - 1))) (to_bits z (take_bit z n)) v"
    using z32 by (intro reads_map [OF reads_field]) simp_all
  moreover have "reads_bits (uvlc_zeros_loop 256 0) (replicate z False @ [True]) z"
    using reads_uvlc_zeros [of z 256 0] z32 by simp
  ultimately show ?thesis
    unfolding read_uvlc_def bits using z32 by (intro reads_bind [where x = z]) (simp_all only: not_le [symmetric] if_False simp_thms)
qed

section \<open>Unit headers\<close>

definition obu_header_bits :: "bool \<Rightarrow> u64 \<Rightarrow> bytes \<Rightarrow> ObuHeader \<Rightarrow> bool list" where
  "obu_header_bits reserved reserved3 leb h = [False] @ to_bits 4 (ucast (obu_type_into (obu_type h)) :: u64)
     @ [obu_extension_header h \<noteq> None] @ [obu_size h \<noteq> None] @ [reserved]
     @ (case obu_extension_header h of None \<Rightarrow> []
        | Some e \<Rightarrow> to_bits 3 (ucast (oe_temporal_id e) :: u64) @ to_bits 2 (ucast (oe_spatial_id e) :: u64) @ to_bits 3 reserved3)
     @ (if obu_size h = None then [] else bits_of leb)"

definition obu_header_ok :: "bytes \<Rightarrow> ObuHeader \<Rightarrow> bool" where
  "obu_header_ok leb h \<longleftrightarrow> obu_type_into (obu_type h) < 2 ^ 4 \<and> obu_type_from (obu_type_into (obu_type h)) = obu_type h
     \<and> (\<forall>e. obu_extension_header h = Some e \<longrightarrow> oe_temporal_id e < 2 ^ 3 \<and> oe_spatial_id e < 2 ^ 2)
     \<and> (\<forall>n. obu_size h = Some n \<longrightarrow> leb_ok leb \<and> length leb \<le> 8 \<and> n = word_of_nat (leb_value leb))"

lemma reads_obu_header:
  assumes ok: "obu_header_ok leb h" and r3: "take_bit 3 reserved3 = reserved3"
  shows "reads_bits obu_header_parse_bits (obu_header_bits reserved reserved3 leb h) h"
proof -
  have surj: "reads_bits (ret (Some \<lparr>oe_temporal_id = oe_temporal_id e, oe_spatial_id = oe_spatial_id e\<rparr>)) [] (Some e)" for e
    using reads_ret [of "Some e"] by (cases e) simp
  have ext: "reads_bits (if obu_extension_header h \<noteq> None then
              bindE (read_field8 3) (\<lambda>temporal_id.
              bindE (read_field8 2) (\<lambda>spatial_id.
              bindE (read_bits 3) (\<lambda>_.
              ret (Some \<lparr>oe_temporal_id = temporal_id, oe_spatial_id = spatial_id\<rparr>))))
            else ret None)
     (case obu_extension_header h of None \<Rightarrow> []
        | Some e \<Rightarrow> to_bits 3 (ucast (oe_temporal_id e) :: u64) @ to_bits 2 (ucast (oe_spatial_id e) :: u64) @ to_bits 3 reserved3)
     (obu_extension_header h)"
    using ok r3 surj by (auto simp: obu_header_ok_def reads_ret split: option.splits
        intro!: reads_bind [OF reads_field8] reads_bind_last [OF reads_field])
  have size: "reads_bits (if obu_size h \<noteq> None then bindE read_leb128 (\<lambda>n. ret (Some n)) else ret None)
     (if obu_size h = None then [] else bits_of leb) (obu_size h)"
    using ok by (auto simp: obu_header_ok_def reads_ret intro!: reads_map [OF reads_leb])
  have t: "obu_type_into (obu_type h) < 2 ^ 4" using ok by (simp add: obu_header_ok_def)
  show ?thesis
    unfolding obu_header_parse_bits_def obu_header_bits_def
    apply (rule reads_bind [OF reads_read_bit], simp only: if_False)
    apply (rule reads_bind [OF reads_field8 [OF t]], simp)
    apply (intro reads_bind [OF reads_read_bit] reads_bind [OF ext] reads_bind_last [OF size])
    apply (use ok in \<open>cases h, simp add: obu_header_ok_def reads_ret\<close>)
    done
qed

text \<open>C28: a unit header in its bit layout, with or without an extension and with a size in any of its variable-length
  encodings of up to eight bytes, is parsed into exactly its fields, and the reader stops behind it; and the two
  variable-length codes of the format are decoded to the value they stand for.\<close>

theorem obu_header_layout:
  "(obu_header_ok leb h \<and> take_bit 3 reserved3 = reserved3 \<and> bits_of bs = obu_header_bits reserved reserved3 leb h
      \<longrightarrow> obu_header_parse (curs pre (bs @ post)) = (Ok h, curs (pre @ bs) post))
   \<and> (leb_ok xs \<and> length xs \<le> 8 \<longrightarrow> fst (read_leb128 (br_new_from_slice (xs @ post))) = Ok (word_of_nat (leb_value xs)))
   \<and> (unat v < 2 ^ 32 - 1 \<and> bits_of ys = eg_bits v @ rest \<longrightarrow> fst (read_uvlc (br_new_from_slice ys)) = Ok v)"
proof (intro conjI impI; elim conjE)
  assume "obu_header_ok leb h" "take_bit 3 reserved3 = reserved3" "bits_of bs = obu_header_bits reserved reserved3 leb h"
  with reads_cursor [of obu_header_parse_bits bs h pre post] reads_obu_header [of leb h reserved3 reserved]
  show "obu_header_parse (curs pre (bs @ post)) = (Ok h, curs (pre @ bs) post)"
    by (auto simp: obu_header_parse_def bindE_def)
next
  assume "leb_ok xs" "length xs \<le> 8"
  from reads_slice [OF reads_leb [OF this]]
  show "fst (read_leb128 (br_new_from_slice (xs @ post))) = Ok (word_of_nat (leb_value xs))" by simp
next
  assume "unat v < 2 ^ 32 - 1" "bits_of ys = eg_bits v @ rest"
  from reads_slice [OF reads_uvlc [OF this(1)] this(2)] show "fst (read_uvlc (br_new_from_slice ys)) = Ok v" .
qed

theorem obu_header_layout_witness:
  "obu_header_parse (curs [] [0x0A, 0x8F, 0x01, 0xAA])
     = (Ok \<lparr>obu_type = SequenceHeader, obu_size = Some 143, obu_extension_header = None\<rparr>, curs [0x0A, 0x8F, 0x01] [0xAA])
   \<and> fst (read_leb128 (br_new_from_slice [0x8F, 0x01])) = Ok 143
   \<and> fst (read_uvlc (br_new_from_slice [0x80])) = Ok 0"
proof -
  let ?h = "\<lparr>obu_type = SequenceHeader, obu_size = Some 143, obu_extension_header = None\<rparr>"
  have leb: "leb_ok [0x8F, 0x01]" "leb_value [0x8F, 0x01] = 143" by simp_all
  have "obu_header_ok [0x8F, 0x01] ?h" by (simp add: obu_header_ok_def obu_type_from_def)
  moreover have "bits_of [0x0A, 0x8F, 0x01] = obu_header_bits False 0 [0x8F, 0x01] ?h"
    by (simp add: obu_header_bits_def byte_bits_def to_bits_map upt_rec)
  moreover have "bits_of [0x80] = eg_bits 0 @ drop 1 (byte_bits 0x80)"
    by (simp add: eg_bits_def eg_log.simps byte_bits_def upt_rec)
  ultimately show ?thesis
    using obu_header_layout [of "[0x8F, 0x01]" ?h 0 "[0x0A, 0x8F, 0x01]" False "[]" "[0xAA]" "[0x8F, 0x01]" 0 "[0x80]"
        "drop 1 (byte_bits 0x80)"]
      obu_header_layout [of "[0x8F, 0x01]" ?h 0 "[0x0A, 0x8F, 0x01]" False "[]" "[]" "[0x8F, 0x01]" 0 "[0x80]"
        "drop 1 (byte_bits 0x80)"] leb by simp
qed

definition example_av1 :: AV1CodecConfigurationRecord where
  "example_av1 = \<lparr>av1_seq_profile = 0, av1_seq_level_idx_0 = 13, av1_seq_tier_0 = False, av1_high_bitdepth = False,
     av1_twelve_bit = False, av1_monochrome = False, av1_chroma_subsampling_x = True, av1_chroma_subsampling_y = True,
     av1_chroma_sample_position = 0, av1_hdr_wcg_idc = 2, av1_initial_presentation_delay_minus_one = Some 15,
     av1_config_obu = [10, 15]\<rparr>"

theorem av1_config_roundtrip_witness:
  "\<exists>bs. (\<forall>out. av1_mux example_av1 out = (Ok (), out @ bs)) \<and> length bs = 6
     \<and> (\<forall>pre. av1_demux (curs pre bs) = (Ok (example_av1\<lparr>av1_hdr_wcg_idc := 0\<rparr>), curs (pre @ bs) []))"
proof -
  have "av1_ok example_av1" "av1_size example_av1 = 6"
    by (simp_all add: av1_ok_def av1_size_def example_av1_def)
  with av1_config_roundtrip [of example_av1] show ?thesis by auto
qed

end
