(* ===== verification/Av1_Seq.thy ===== *)
theory Av1_Seq
  imports Av1
begin

text \<open>
  The AV1 sequence header (\<^verbatim>\<open>crates/av1/src/obu/seq.rs\<close>): the parser, and the bits of a header as the inverse
  printer against which it is verified.
\<close>

section \<open>The data\<close>

record TimingInfo =
  ti_num_units_in_display_tick :: u32
  ti_time_scale :: u32
  ti_num_ticks_per_picture :: "u64 option"

record DecoderModelInfo =
  dm_buffer_delay_length :: u8
  dm_num_units_in_decoding_tick :: u32
  dm_buffer_removal_time_length :: u8
  dm_frame_presentation_time_length :: u8

record OperatingParametersInfo =
  op_decoder_buffer_delay :: u64
  op_encoder_buffer_delay :: u64
  op_low_delay_mode_flag :: bool

record OperatingPoint =
  opt_idc :: u16
  opt_seq_level_idx :: u8
  opt_seq_tier :: bool
  opt_operating_parameters_info :: "OperatingParametersInfo option"
  opt_initial_display_delay :: "u8 option"

record FrameIds =
  fi_delta_frame_id_length :: u8
  fi_additional_frame_id_length :: u8

record Av1ColorConfig =
  acc_bit_depth :: int
  acc_mono_chrome :: bool
  acc_num_planes :: u8
  acc_color_primaries :: u8
  acc_transfer_characteristics :: u8
  acc_matrix_coefficients :: u8
  acc_full_color_range :: bool
  acc_subsampling_x :: bool
  acc_subsampling_y :: bool
  acc_chroma_sample_position :: u8
  acc_separate_uv_delta_q :: bool

record ColorRangeAndSubsampling =
  crs_color_range :: bool
  crs_subsampling_x :: bool
  crs_subsampling_y :: bool

record SequenceHeaderObu =
  sh_header :: ObuHeader
  sh_seq_profile :: u8
  sh_still_picture :: bool
  sh_reduced_still_picture_header :: bool
  sh_timing_info :: "TimingInfo option"
  sh_decoder_model_info :: "DecoderModelInfo option"
  sh_operating_points :: "OperatingPoint list"
  sh_max_frame_width :: u64
  sh_max_frame_height :: u64
  sh_frame_ids :: "FrameIds option"
  sh_use_128x128_superblock :: bool
  sh_enable_filter_intra :: bool
  sh_enable_intra_edge_filter :: bool
  sh_enable_interintra_compound :: bool
  sh_enable_masked_compound :: bool
  sh_enable_warped_motion :: bool
  sh_enable_dual_filter :: bool
  sh_enable_order_hint :: bool
  sh_enable_jnt_comp :: bool
  sh_enable_ref_frame_mvs :: bool
  sh_seq_force_screen_content_tools :: u8
  sh_seq_force_integer_mv :: u8
  sh_order_hint_bits :: u8
  sh_enable_superres :: bool
  sh_enable_cdef :: bool
  sh_enable_restoration :: bool
  sh_color_config :: Av1ColorConfig
  sh_film_grain_params_present :: bool

section \<open>The parser\<close>

text \<open>\<^verbatim>\<open>if bit_reader.read_bit()? { Some(..) } else { None }\<close>.\<close>

definition read_flagged :: "(bit_reader, io_error, 'a) prog \<Rightarrow> (bit_reader, io_error, 'a option) prog" where
  "read_flagged m = bindE read_bit (\<lambda>present. if present then bindE m (\<lambda>x. ret (Some x)) else ret None)"

definition timing_info_parse :: "(bit_reader, io_error, TimingInfo) prog" where
  "timing_info_parse =
     bindE br_read_u32 (\<lambda>num_units_in_display_tick.
     bindE br_read_u32 (\<lambda>time_scale.
     bindE (read_flagged (bindE read_uvlc (\<lambda>n. if n = 0xFFFFFFFFFFFFFFFF then panic else ret (n + 1)))) (\<lambda>num_ticks_per_picture.
     ret \<lparr>ti_num_units_in_display_tick = num_units_in_display_tick, ti_time_scale = time_scale,
          ti_num_ticks_per_picture = num_ticks_per_picture\<rparr>)))"

text \<open>A field stored minus \<open>k\<close>.\<close>

definition read_field8_plus :: "nat \<Rightarrow> u8 \<Rightarrow> (bit_reader, io_error, u8) prog" where
  "read_field8_plus n k = bindE (read_field8 n) (\<lambda>x. ret (x + k))"

definition decoder_model_info_parse :: "(bit_reader, io_error, DecoderModelInfo) prog" where
  "decoder_model_info_parse =
     bindE (read_field8_plus 5 1) (\<lambda>buffer_delay_length.
     bindE br_read_u32 (\<lambda>num_units_in_decoding_tick.
     bindE (read_field8_plus 5 1) (\<lambda>buffer_removal_time_length.
     bindE (read_field8_plus 5 1) (\<lambda>frame_presentation_time_length.
     ret \<lparr>dm_buffer_delay_length = buffer_delay_length, dm_num_units_in_decoding_tick = num_units_in_decoding_tick,
          dm_buffer_removal_time_length = buffer_removal_time_length,
          dm_frame_presentation_time_length = frame_presentation_time_length\<rparr>))))"

definition operating_parameters_parse :: "u8 \<Rightarrow> (bit_reader, io_error, OperatingParametersInfo) prog" where
  "operating_parameters_parse delay_bit_length =
     bindE (read_bits (unat delay_bit_length)) (\<lambda>decoder_buffer_delay.
     bindE (read_bits (unat delay_bit_length)) (\<lambda>encoder_buffer_delay.
     bindE read_bit (\<lambda>low_delay_mode_flag.
     ret \<lparr>op_decoder_buffer_delay = decoder_buffer_delay, op_encoder_buffer_delay = encoder_buffer_delay,
          op_low_delay_mode_flag = low_delay_mode_flag\<rparr>)))"

definition operating_point_parse :: "DecoderModelInfo option \<Rightarrow> bool \<Rightarrow> (bit_reader, io_error, OperatingPoint) prog" where
  "operating_point_parse decoder_model_info initial_display_delay_present_flag =
     bindE (read_field16 12) (\<lambda>idc.
     bindE (read_field8 5) (\<lambda>seq_level_idx.
     bindE (if seq_level_idx > 7 then read_bit else ret False) (\<lambda>seq_tier.
     bindE (case decoder_model_info of
              Some d \<Rightarrow> read_flagged (operating_parameters_parse (dm_buffer_delay_length d))
            | None \<Rightarrow> ret None) (\<lambda>operating_parameters_info.
     bindE (if initial_display_delay_present_flag then read_flagged (read_field8_plus 4 1) else ret None) (\<lambda>initial_display_delay.
     ret \<lparr>opt_idc = idc, opt_seq_level_idx = seq_level_idx, opt_seq_tier = seq_tier,
          opt_operating_parameters_info = operating_parameters_info,
          opt_initial_display_delay = initial_display_delay\<rparr>)))))"

definition operating_points_parse ::
  "bool \<Rightarrow> (bit_reader, io_error, TimingInfo option \<times> DecoderModelInfo option \<times> OperatingPoint list) prog" where
  "operating_points_parse reduced_still_picture_header =
     (if reduced_still_picture_header then
        bindE (read_field8 5) (\<lambda>seq_level_idx.
        ret (None, None, [\<lparr>opt_idc = 0, opt_seq_level_idx = seq_level_idx, opt_seq_tier = False,
             opt_operating_parameters_info = None, opt_initial_display_delay = None\<rparr>]))
      else
        bindE (bindE read_bit (\<lambda>timing_info_present_flag.
          if timing_info_present_flag then
            bindE timing_info_parse (\<lambda>t.
            bindE (read_flagged decoder_model_info_parse) (\<lambda>d. ret (Some t, d)))
          else ret (None, None))) (\<lambda>(timing_info, decoder_model_info).
        bindE read_bit (\<lambda>initial_display_delay_present_flag.
        bindE (read_field8 5) (\<lambda>operating_points_cnt_minus_1.
        bindE (repeat_m (unat (operating_points_cnt_minus_1 + 1))
          (operating_point_parse decoder_model_info initial_display_delay_present_flag)) (\<lambda>operating_points.
        ret (timing_info, decoder_model_info, operating_points))))))"

definition color_range_parse :: "u8 \<Rightarrow> u8 \<Rightarrow> u8 \<Rightarrow> u8 \<Rightarrow> int \<Rightarrow> (bit_reader, io_error, ColorRangeAndSubsampling) prog" where
  "color_range_parse seq_profile color_primaries transfer_characteristics matrix_coefficients bit_depth =
     (if color_primaries = 1 \<and> transfer_characteristics = 13 \<and> matrix_coefficients = 0
      then ret \<lparr>crs_color_range = True, crs_subsampling_x = False, crs_subsampling_y = False\<rparr>
      else
        bindE read_bit (\<lambda>color_range.
        bindE (if seq_profile = 0 then ret (True, True)
               else if seq_profile = 1 then ret (False, False)
               else if bit_depth = 12 then
                 bindE read_bit (\<lambda>x. if x then bindE read_bit (\<lambda>y. ret (x, y)) else ret (x, False))
               else ret (True, False)) (\<lambda>(subsampling_x, subsampling_y).
        ret \<lparr>crs_color_range = color_range, crs_subsampling_x = subsampling_x, crs_subsampling_y = subsampling_y\<rparr>)))"

definition color_config_parse :: "u8 \<Rightarrow> (bit_reader, io_error, Av1ColorConfig) prog" where
  "color_config_parse seq_profile =
     bindE read_bit (\<lambda>high_bitdepth.
     bindE (if seq_profile = 2 \<and> high_bitdepth then bindE read_bit (\<lambda>twelve. ret (if twelve then 12 else 10))
            else ret (if high_bitdepth then 10 else 8)) (\<lambda>bit_depth.
     bindE (if seq_profile = 1 then ret False else read_bit) (\<lambda>mono_chrome.
     bindE (bindE read_bit (\<lambda>color_description_present_flag.
       if color_description_present_flag then
         bindE (read_field8 8) (\<lambda>p. bindE (read_field8 8) (\<lambda>t. bindE (read_field8 8) (\<lambda>m. ret (p, t, m))))
       else ret (2, 2, 2))) (\<lambda>(color_primaries, transfer_characteristics, matrix_coefficients).
     if mono_chrome then
       bindE read_bit (\<lambda>full_color_range.
       ret \<lparr>acc_bit_depth = bit_depth, acc_mono_chrome = mono_chrome, acc_num_planes = 1,
            acc_color_primaries = color_primaries, acc_transfer_characteristics = transfer_characteristics,
            acc_matrix_coefficients = matrix_coefficients, acc_full_color_range = full_color_range,
            acc_subsampling_x = True, acc_subsampling_y = True, acc_chroma_sample_position = 0,
            acc_separate_uv_delta_q = False\<rparr>)
     else
       bindE (color_range_parse seq_profile color_primaries transfer_characteristics matrix_coefficients bit_depth) (\<lambda>c.
       bindE (if crs_subsampling_x c \<and> crs_subsampling_y c then read_field8 2 else ret 0) (\<lambda>chroma_sample_position.
       bindE read_bit (\<lambda>separate_uv_delta_q.
       ret \<lparr>acc_bit_depth = bit_depth, acc_mono_chrome = mono_chrome, acc_num_planes = 3,
            acc_color_primaries = color_primaries, acc_transfer_characteristics = transfer_characteristics,
            acc_matrix_coefficients = matrix_coefficients, acc_full_color_range = crs_color_range c,
            acc_subsampling_x = crs_subsampling_x c, acc_subsampling_y = crs_subsampling_y c,
            acc_chroma_sample_position = chroma_sample_position,
            acc_separate_uv_delta_q = separate_uv_delta_q\<rparr>)))))))"

text \<open>The ten local variables that depend on whether the header is reduced.\<close>

record coding_tools =
  ct_interintra_compound :: bool
  ct_masked_compound :: bool
  ct_warped_motion :: bool
  ct_dual_filter :: bool
  ct_order_hint :: bool
  ct_jnt_comp :: bool
  ct_ref_frame_mvs :: bool
  ct_force_screen_content_tools :: u8
  ct_force_integer_mv :: u8
  ct_order_hint_bits :: u8

definition coding_tools_parse :: "bool \<Rightarrow> (bit_reader, io_error, coding_tools) prog" where
  "coding_tools_parse reduced_still_picture_header =
     (if \<not> reduced_still_picture_header then
        bindE read_bit (\<lambda>enable_interintra_compound.
        bindE read_bit (\<lambda>enable_masked_compound.
        bindE read_bit (\<lambda>enable_warped_motion.
        bindE read_bit (\<lambda>enable_dual_filter.
        bindE read_bit (\<lambda>enable_order_hint.
        bindE (if enable_order_hint then bindE read_bit (\<lambda>j. bindE read_bit (\<lambda>r. ret (j, r)))
               else ret (False, False)) (\<lambda>(enable_jnt_comp, enable_ref_frame_mvs).
        bindE (bindE read_bit (\<lambda>sel. if sel then ret 2 else read_field8 1)) (\<lambda>seq_force_screen_content_tools.
        bindE (if seq_force_screen_content_tools = 0 then ret 2
               else bindE read_bit (\<lambda>sel. if sel then ret 2 else read_field8 1)) (\<lambda>seq_force_integer_mv.
        bindE (if enable_order_hint then read_field8_plus 3 1 else ret 0) (\<lambda>order_hint_bits.
        ret \<lparr>ct_interintra_compound = enable_interintra_compound, ct_masked_compound = enable_masked_compound,
             ct_warped_motion = enable_warped_motion, ct_dual_filter = enable_dual_filter,
             ct_order_hint = enable_order_hint, ct_jnt_comp = enable_jnt_comp,
             ct_ref_frame_mvs = enable_ref_frame_mvs,
             ct_force_screen_content_tools = seq_force_screen_content_tools,
             ct_force_integer_mv = seq_force_integer_mv, ct_order_hint_bits = order_hint_bits\<rparr>)))))))))
      else
        ret \<lparr>ct_interintra_compound = False, ct_masked_compound = False, ct_warped_motion = False,
             ct_dual_filter = False, ct_order_hint = False, ct_jnt_comp = False, ct_ref_frame_mvs = False,
             ct_force_screen_content_tools = 2, ct_force_integer_mv = 2, ct_order_hint_bits = 0\<rparr>)"

definition frame_ids_parse :: "bool \<Rightarrow> (bit_reader, io_error, FrameIds option) prog" where
  "frame_ids_parse reduced_still_picture_header =
     (if reduced_still_picture_header then ret None
      else read_flagged (
        bindE (read_field8_plus 4 2) (\<lambda>delta_frame_id_length.
        bindE (read_field8_plus 3 1) (\<lambda>additional_frame_id_length.
        ret \<lparr>fi_delta_frame_id_length = delta_frame_id_length,
             fi_additional_frame_id_length = additional_frame_id_length\<rparr>))))"

definition sequence_header_parse_bits :: "ObuHeader \<Rightarrow> (bit_reader, io_error, SequenceHeaderObu) prog" where
  "sequence_header_parse_bits header =
     bindE (read_field8 3) (\<lambda>seq_profile.
     bindE read_bit (\<lambda>still_picture.
     bindE read_bit (\<lambda>reduced_still_picture_header.
     if \<not> still_picture \<and> reduced_still_picture_header then fail InvalidData else
     bindE (operating_points_parse reduced_still_picture_header) (\<lambda>(timing_info, decoder_model_info, operating_points).
     bindE (read_field8_plus 4 1) (\<lambda>frame_width_bits.
     bindE (read_field8_plus 4 1) (\<lambda>frame_height_bits.
     bindE (read_bits (unat frame_width_bits)) (\<lambda>max_frame_width.
     bindE (read_bits (unat frame_height_bits)) (\<lambda>max_frame_height.
     bindE (frame_ids_parse reduced_still_picture_header) (\<lambda>frame_ids.
     bindE read_bit (\<lambda>use_128x128_superblock.
     bindE read_bit (\<lambda>enable_filter_intra.
     bindE read_bit (\<lambda>enable_intra_edge_filter.
     bindE (coding_tools_parse reduced_still_picture_header) (\<lambda>tools.
     bindE read_bit (\<lambda>enable_superres.
     bindE read_bit (\<lambda>enable_cdef.
     bindE read_bit (\<lambda>enable_restoration.
     bindE (color_config_parse seq_profile) (\<lambda>color_config.
     bindE read_bit (\<lambda>film_grain_params_present.
     ret \<lparr>sh_header = header, sh_seq_profile = seq_profile, sh_still_picture = still_picture,
        sh_reduced_still_picture_header = reduced_still_picture_header, sh_timing_info = timing_info,
        sh_decoder_model_info = decoder_model_info, sh_operating_points = operating_points,
        sh_max_frame_width = max_frame_width + 1, sh_max_frame_height = max_frame_height + 1,
        sh_frame_ids = frame_ids, sh_use_128x128_superblock = use_128x128_superblock,
        sh_enable_filter_intra = enable_filter_intra, sh_enable_intra_edge_filter = enable_intra_edge_filter,
        sh_enable_interintra_compound = ct_interintra_compound tools,
        sh_enable_masked_compound = ct_masked_compound tools, sh_enable_warped_motion = ct_warped_motion tools,
        sh_enable_dual_filter = ct_dual_filter tools, sh_enable_order_hint = ct_order_hint tools,
        sh_enable_jnt_comp = ct_jnt_comp tools, sh_enable_ref_frame_mvs = ct_ref_frame_mvs tools,
        sh_seq_force_screen_content_tools = ct_force_screen_content_tools tools,
        sh_seq_force_integer_mv = ct_force_integer_mv tools, sh_order_hint_bits = ct_order_hint_bits tools,
        sh_enable_superres = enable_superres, sh_enable_cdef = enable_cdef,
        sh_enable_restoration = enable_restoration, sh_color_config = color_config,
        sh_film_grain_params_present = film_grain_params_present\<rparr>))))))))))))))))))"

definition sequence_header_parse :: "ObuHeader \<Rightarrow> (cursor, io_error, SequenceHeaderObu) prog" where
  "sequence_header_parse header c = (case sequence_header_parse_bits header (br_new c) of (x, r) \<Rightarrow> (x, br_data r))"

section \<open>The layout of a header\<close>

definition timing_info_bits :: "TimingInfo \<Rightarrow> bool list" where
  "timing_info_bits t = bits_of (be32 (ti_num_units_in_display_tick t)) @ bits_of (be32 (ti_time_scale t))
     @ opt_bits (\<lambda>n. eg_bits (n - 1)) (ti_num_ticks_per_picture t)"

definition timing_info_ok :: "TimingInfo \<Rightarrow> bool" where
  "timing_info_ok t \<longleftrightarrow> (\<forall>n. ti_num_ticks_per_picture t = Some n \<longrightarrow> unat (n - 1) < 2 ^ 32 - 1)"

definition minus_bits :: "nat \<Rightarrow> u8 \<Rightarrow> u8 \<Rightarrow> bool list" where
  "minus_bits n k x = to_bits n (ucast (x - k) :: u64)"

definition decoder_model_bits :: "DecoderModelInfo \<Rightarrow> bool list" where
  "decoder_model_bits d = minus_bits 5 1 (dm_buffer_delay_length d) @ bits_of (be32 (dm_num_units_in_decoding_tick d))
     @ minus_bits 5 1 (dm_buffer_removal_time_length d) @ minus_bits 5 1 (dm_frame_presentation_time_length d)"

definition decoder_model_ok :: "DecoderModelInfo \<Rightarrow> bool" where
  "decoder_model_ok d \<longleftrightarrow> dm_buffer_delay_length d - 1 < 2 ^ 5 \<and> dm_buffer_removal_time_length d - 1 < 2 ^ 5
     \<and> dm_frame_presentation_time_length d - 1 < 2 ^ 5"

definition operating_parameters_bits :: "nat \<Rightarrow> OperatingParametersInfo \<Rightarrow> bool list" where
  "operating_parameters_bits n p = to_bits n (op_decoder_buffer_delay p) @ to_bits n (op_encoder_buffer_delay p)
     @ [op_low_delay_mode_flag p]"

definition operating_point_bits :: "DecoderModelInfo option \<Rightarrow> bool \<Rightarrow> OperatingPoint \<Rightarrow> bool list" where
  "operating_point_bits dm delay_flag p = to_bits 12 (ucast (opt_idc p) :: u64)
     @ to_bits 5 (ucast (opt_seq_level_idx p) :: u64) @ (if opt_seq_level_idx p > 7 then [opt_seq_tier p] else [])
     @ (case dm of Some d \<Rightarrow> opt_bits (operating_parameters_bits (unat (dm_buffer_delay_length d))) (opt_operating_parameters_info p)
        | None \<Rightarrow> [])
     @ (if delay_flag then opt_bits (minus_bits 4 1) (opt_initial_display_delay p) else [])"

definition operating_point_ok :: "DecoderModelInfo option \<Rightarrow> bool \<Rightarrow> OperatingPoint \<Rightarrow> bool" where
  "operating_point_ok dm delay_flag p \<longleftrightarrow> opt_idc p < 2 ^ 12 \<and> opt_seq_level_idx p < 2 ^ 5
     \<and> (opt_seq_tier p \<longrightarrow> opt_seq_level_idx p > 7)
     \<and> (\<forall>i. opt_operating_parameters_info p = Some i \<longrightarrow> (\<exists>d. dm = Some d
          \<and> take_bit (unat (dm_buffer_delay_length d)) (op_decoder_buffer_delay i) = op_decoder_buffer_delay i
          \<and> take_bit (unat (dm_buffer_delay_length d)) (op_encoder_buffer_delay i) = op_encoder_buffer_delay i))
     \<and> (\<forall>x. opt_initial_display_delay p = Some x \<longrightarrow> delay_flag \<and> x - 1 < 2 ^ 4)"

lemma reads_flagged:
  "(\<And>v. x = Some v \<Longrightarrow> reads_bits m (enc v) v) \<Longrightarrow> reads_bits (read_flagged m) (opt_bits enc x) x"
  unfolding read_flagged_def by (rule reads_opt) (auto intro: reads_map reads_ret)

lemma reads_minus: "x - k < 2 ^ n \<Longrightarrow> n \<le> 64 \<Longrightarrow> reads_bits (read_field8_plus n k) (minus_bits n k x) x"
  unfolding read_field8_plus_def minus_bits_def by (rule reads_map [OF reads_field8]) simp_all

lemma reads_timing_info:
  assumes "timing_info_ok t"
  shows "reads_bits timing_info_parse (timing_info_bits t) t"
proof -
  have "reads_bits (bindE read_uvlc (\<lambda>n. if n = 0xFFFFFFFFFFFFFFFF then panic else ret (n + 1))) (eg_bits (n - 1)) n"
    if "ti_num_ticks_per_picture t = Some n" for n
  proof -
    have "unat (n - 1) < 2 ^ 32 - 1" using assms that by (simp add: timing_info_ok_def)
    moreover from this have "n - 1 \<noteq> 0xFFFFFFFFFFFFFFFF" by (auto dest: arg_cong [of _ _ unat])
    ultimately show ?thesis by (intro reads_bind_last [OF reads_uvlc]) (simp_all add: reads_ret)
  qed
  then have ticks: "reads_bits (read_flagged (bindE read_uvlc (\<lambda>n. if n = 0xFFFFFFFFFFFFFFFF then panic else ret (n + 1))))
      (opt_bits (\<lambda>n. eg_bits (n - 1)) (ti_num_ticks_per_picture t)) (ti_num_ticks_per_picture t)"
    by (intro reads_flagged)
  show ?thesis unfolding timing_info_parse_def timing_info_bits_def
    by (intro reads_bind [OF reads_ints(3)] reads_map [OF ticks]) simp
qed

lemma reads_decoder_model:
  "decoder_model_ok d \<Longrightarrow> reads_bits decoder_model_info_parse (decoder_model_bits d) d"
  unfolding decoder_model_info_parse_def decoder_model_bits_def
  by (intro reads_bind [OF reads_minus] reads_bind [OF reads_ints(3)] reads_map [OF reads_minus])
     (simp_all add: decoder_model_ok_def)

lemma reads_operating_parameters:
  "unat n \<le> 64 \<Longrightarrow> take_bit (unat n) (op_decoder_buffer_delay p) = op_decoder_buffer_delay p \<Longrightarrow>
   take_bit (unat n) (op_encoder_buffer_delay p) = op_encoder_buffer_delay p \<Longrightarrow>
   reads_bits (operating_parameters_parse n) (operating_parameters_bits (unat n) p) p"
  unfolding operating_parameters_parse_def operating_parameters_bits_def
  by (intro reads_bind [OF reads_field] reads_map [OF reads_read_bit]) simp_all

lemma delay_length: "(x :: u8) - 1 < 2 ^ 5 \<Longrightarrow> unat x \<le> 64"
proof -
  assume "x - 1 < 2 ^ 5"
  then have "unat (x - 1) < 32" by (simp add: word_less_nat_alt)
  then show ?thesis by (cases "x = 0") (simp_all add: unat_minus_one)
qed

lemma reads_operating_point:
  assumes "operating_point_ok dm delay_flag p" "\<And>d. dm = Some d \<Longrightarrow> decoder_model_ok d"
  shows "reads_bits (operating_point_parse dm delay_flag) (operating_point_bits dm delay_flag p) p"
proof -
  have tier: "reads_bits (if opt_seq_level_idx p > 7 then read_bit else ret False)
      (if opt_seq_level_idx p > 7 then [opt_seq_tier p] else []) (opt_seq_tier p)"
    using assms(1) by (auto simp: operating_point_ok_def intro: reads_read_bit reads_ret)
  have params: "reads_bits (case dm of Some d \<Rightarrow> read_flagged (operating_parameters_parse (dm_buffer_delay_length d)) | None \<Rightarrow> ret None)
      (case dm of Some d \<Rightarrow> opt_bits (operating_parameters_bits (unat (dm_buffer_delay_length d))) (opt_operating_parameters_info p)
        | None \<Rightarrow> []) (opt_operating_parameters_info p)"
  proof (cases dm)
    case None
    with assms(1) show ?thesis by (cases "opt_operating_parameters_info p") (auto simp: operating_point_ok_def reads_ret)
  next
    case (Some d)
    then have "unat (dm_buffer_delay_length d) \<le> 64" using assms(2) by (auto simp: decoder_model_ok_def intro: delay_length)
    with assms(1) Some show ?thesis
      by (auto simp: operating_point_ok_def intro!: reads_flagged reads_operating_parameters)
  qed
  have delay: "reads_bits (if delay_flag then read_flagged (read_field8_plus 4 1) else ret None)
      (if delay_flag then opt_bits (minus_bits 4 1) (opt_initial_display_delay p) else []) (opt_initial_display_delay p)"
    using assms(1) by (cases "opt_initial_display_delay p")
      (auto simp: operating_point_ok_def reads_ret intro!: reads_flagged reads_minus)
  have ok: "opt_idc p < 2 ^ 12" "opt_seq_level_idx p < 2 ^ 5" using assms(1) by (simp_all add: operating_point_ok_def)
  show ?thesis unfolding operating_point_parse_def operating_point_bits_def
    by (intro reads_bind [OF reads_field16 [OF ok(1)]] reads_bind [OF reads_field8 [OF ok(2)]] reads_bind [OF tier]
        reads_bind [OF params] reads_map [OF delay]) simp_all
qed

definition operating_points_bits ::
  "bool \<Rightarrow> bool \<Rightarrow> TimingInfo option \<Rightarrow> DecoderModelInfo option \<Rightarrow> OperatingPoint list \<Rightarrow> bool list" where
  "operating_points_bits reduced delay_flag ti dm ps =
     (if reduced then to_bits 5 (ucast (opt_seq_level_idx (hd ps)) :: u64)
      else opt_bits (\<lambda>t. timing_info_bits t @ opt_bits decoder_model_bits dm) ti @ [delay_flag]
        @ to_bits 5 (ucast (word_of_nat (length ps) - 1 :: u8) :: u64)
        @ concat (map (operating_point_bits dm delay_flag) ps))"

definition operating_points_ok ::
  "bool \<Rightarrow> bool \<Rightarrow> TimingInfo option \<Rightarrow> DecoderModelInfo option \<Rightarrow> OperatingPoint list \<Rightarrow> bool" where
  "operating_points_ok reduced delay_flag ti dm ps \<longleftrightarrow>
     (if reduced then ti = None \<and> dm = None \<and> (\<exists>l. l < 2 ^ 5 \<and> ps = [\<lparr>opt_idc = 0, opt_seq_level_idx = l, opt_seq_tier = False,
             opt_operating_parameters_info = None, opt_initial_display_delay = None\<rparr>])
      else (\<forall>t. ti = Some t \<longrightarrow> timing_info_ok t) \<and> (\<forall>d. dm = Some d \<longrightarrow> decoder_model_ok d)
        \<and> (ti = None \<longrightarrow> dm = None) \<and> 1 \<le> length ps \<and> length ps \<le> 32
        \<and> (\<forall>p \<in> set ps. operating_point_ok dm delay_flag p))"

lemma reads_operating_points:
  assumes "operating_points_ok reduced delay_flag ti dm ps"
  shows "reads_bits (operating_points_parse reduced) (operating_points_bits reduced delay_flag ti dm ps) (ti, dm, ps)"
proof (cases reduced)
  case True
  with assms obtain l where l: "l < 2 ^ 5" "ti = None" "dm = None"
    "ps = [\<lparr>opt_idc = 0, opt_seq_level_idx = l, opt_seq_tier = False,
             opt_operating_parameters_info = None, opt_initial_display_delay = None\<rparr>]"
    unfolding operating_points_ok_def by auto
  with True show ?thesis
    unfolding operating_points_parse_def operating_points_bits_def
    by (simp only: if_True list.sel OperatingPoint.simps) (intro reads_map [OF reads_field8 [of l]]; simp)
next
  case False
  with assms have ok: "\<And>t. ti = Some t \<Longrightarrow> timing_info_ok t" "\<And>d. dm = Some d \<Longrightarrow> decoder_model_ok d"
    "ti = None \<Longrightarrow> dm = None" "1 \<le> length ps" "length ps \<le> 32" "\<And>p. p \<in> set ps \<Longrightarrow> operating_point_ok dm delay_flag p"
    unfolding operating_points_ok_def by auto
  have timing: "reads_bits (bindE read_bit (\<lambda>timing_info_present_flag.
          if timing_info_present_flag then
            bindE timing_info_parse (\<lambda>t. bindE (read_flagged decoder_model_info_parse) (\<lambda>d. ret (Some t, d)))
          else ret (None, None)))
      (opt_bits (\<lambda>t. timing_info_bits t @ opt_bits decoder_model_bits dm) ti) (ti, dm)"
  proof (rule reads_opt)
    fix t assume t: "ti = Some t"
    have "reads_bits (read_flagged decoder_model_info_parse) (opt_bits decoder_model_bits dm) dm"
      using ok(2) by (intro reads_flagged reads_decoder_model)
    then show "reads_bits (bindE timing_info_parse (\<lambda>t. bindE (read_flagged decoder_model_info_parse) (\<lambda>d. ret (Some t, d))))
       (timing_info_bits t @ opt_bits decoder_model_bits dm) (ti, dm)"
      using t ok(1) by (intro reads_bind [OF reads_timing_info] reads_map) simp_all
  qed (use ok(3) in \<open>simp add: reads_ret\<close>)
  let ?n = "word_of_nat (length ps) - 1 :: u8"
  have n: "unat (?n + 1) = length ps" "?n < 2 ^ 5"
  proof -
    show "unat (?n + 1) = length ps" using ok(5) by (simp add: unat_of_nat)
    have "?n = word_of_nat (length ps - 1)" using ok(4) by (simp add: of_nat_diff)
    then show "?n < 2 ^ 5" using ok(5) by (simp add: word_less_nat_alt unat_of_nat del: of_nat_diff)
  qed
  have pts: "reads_bits (repeat_m (unat (?n + 1)) (operating_point_parse dm delay_flag))
      (concat (map (operating_point_bits dm delay_flag) ps)) ps"
    by (rule reads_repeat) (use ok n in \<open>auto intro!: reads_operating_point\<close>)
  show ?thesis
    unfolding operating_points_parse_def operating_points_bits_def if_not_P [OF False]
    apply (rule reads_bind [OF timing], simp only: prod.case)
    apply (rule reads_bind [OF reads_read_bit], rule reads_bind [OF reads_field8 [OF n(2)]], simp)
    apply (rule reads_map [OF pts], simp)
    done
qed

definition color_range_bits :: "u8 \<Rightarrow> Av1ColorConfig \<Rightarrow> bool list" where
  "color_range_bits prof c =
     (if acc_color_primaries c = 1 \<and> acc_transfer_characteristics c = 13 \<and> acc_matrix_coefficients c = 0 then []
      else [acc_full_color_range c]
        @ (if prof = 0 then [] else if prof = 1 then []
           else if acc_bit_depth c = 12 then [acc_subsampling_x c] @ (if acc_subsampling_x c then [acc_subsampling_y c] else [])
           else []))"

definition color_config_bits :: "u8 \<Rightarrow> bool \<Rightarrow> Av1ColorConfig \<Rightarrow> bool list" where
  "color_config_bits prof desc c = [acc_bit_depth c \<noteq> 8]
     @ (if prof = 2 \<and> acc_bit_depth c \<noteq> 8 then [acc_bit_depth c = 12] else [])
     @ (if prof = 1 then [] else [acc_mono_chrome c])
     @ (if desc then [True] @ to_bits 8 (ucast (acc_color_primaries c) :: u64)
          @ to_bits 8 (ucast (acc_transfer_characteristics c) :: u64) @ to_bits 8 (ucast (acc_matrix_coefficients c) :: u64)
        else [False])
     @ (if acc_mono_chrome c then [acc_full_color_range c]
        else color_range_bits prof c
          @ (if acc_subsampling_x c \<and> acc_subsampling_y c then to_bits 2 (ucast (acc_chroma_sample_position c) :: u64) else [])
          @ [acc_separate_uv_delta_q c])"

definition color_config_ok :: "u8 \<Rightarrow> bool \<Rightarrow> Av1ColorConfig \<Rightarrow> bool" where
  "color_config_ok prof desc c \<longleftrightarrow> acc_bit_depth c \<in> {8, 10, 12} \<and> (acc_bit_depth c = 12 \<longrightarrow> prof = 2)
     \<and> (prof = 1 \<longrightarrow> \<not> acc_mono_chrome c)
     \<and> (\<not> desc \<longrightarrow> acc_color_primaries c = 2 \<and> acc_transfer_characteristics c = 2 \<and> acc_matrix_coefficients c = 2)
     \<and> (if acc_mono_chrome c
        then acc_num_planes c = 1 \<and> acc_subsampling_x c \<and> acc_subsampling_y c \<and> acc_chroma_sample_position c = 0
          \<and> \<not> acc_separate_uv_delta_q c
        else acc_num_planes c = 3
          \<and> (if acc_color_primaries c = 1 \<and> acc_transfer_characteristics c = 13 \<and> acc_matrix_coefficients c = 0
             then acc_full_color_range c \<and> \<not> acc_subsampling_x c \<and> \<not> acc_subsampling_y c
             else if prof = 0 then acc_subsampling_x c \<and> acc_subsampling_y c
             else if prof = 1 then \<not> acc_subsampling_x c \<and> \<not> acc_subsampling_y c
             else if acc_bit_depth c = 12 then acc_subsampling_y c \<longrightarrow> acc_subsampling_x c
             else acc_subsampling_x c \<and> \<not> acc_subsampling_y c)
          \<and> (if acc_subsampling_x c \<and> acc_subsampling_y c then acc_chroma_sample_position c < 2 ^ 2
             else acc_chroma_sample_position c = 0))"

lemma reads_color_range:
  assumes "color_config_ok prof desc c" "\<not> acc_mono_chrome c"
  shows "reads_bits (color_range_parse prof (acc_color_primaries c) (acc_transfer_characteristics c) (acc_matrix_coefficients c)
      (acc_bit_depth c)) (color_range_bits prof c)
     \<lparr>crs_color_range = acc_full_color_range c, crs_subsampling_x = acc_subsampling_x c, crs_subsampling_y = acc_subsampling_y c\<rparr>"
proof (cases "acc_color_primaries c = 1 \<and> acc_transfer_characteristics c = 13 \<and> acc_matrix_coefficients c = 0")
  case True
  with assms show ?thesis by (simp add: color_range_parse_def color_range_bits_def color_config_ok_def reads_ret)
next
  case False
  have sub: "reads_bits (if prof = 0 then ret (True, True) else if prof = 1 then ret (False, False)
       else if acc_bit_depth c = 12 then bindE read_bit (\<lambda>x. if x then bindE read_bit (\<lambda>y. ret (x, y)) else ret (x, False))
       else ret (True, False))
     (if prof = 0 then [] else if prof = 1 then []
           else if acc_bit_depth c = 12 then [acc_subsampling_x c] @ (if acc_subsampling_x c then [acc_subsampling_y c] else [])
           else []) (acc_subsampling_x c, acc_subsampling_y c)"
  proof (cases "prof = 0 \<or> prof = 1 \<or> acc_bit_depth c \<noteq> 12")
    case True
    with assms False show ?thesis by (auto simp: color_config_ok_def reads_ret split: if_splits)
  next
    case dep: False
    then have "acc_subsampling_y c \<longrightarrow> acc_subsampling_x c" using assms False by (auto simp: color_config_ok_def split: if_splits)
    then have "reads_bits (if acc_subsampling_x c then bindE read_bit (\<lambda>y. ret (acc_subsampling_x c, y)) else ret (acc_subsampling_x c, False))
       (if acc_subsampling_x c then [acc_subsampling_y c] else []) (acc_subsampling_x c, acc_subsampling_y c)"
      by (auto intro!: reads_bind_last [OF reads_read_bit] reads_ret simp: reads_ret)
    then have "reads_bits (bindE read_bit (\<lambda>x. if x then bindE read_bit (\<lambda>y. ret (x, y)) else ret (x, False)))
       ([acc_subsampling_x c] @ (if acc_subsampling_x c then [acc_subsampling_y c] else [])) (acc_subsampling_x c, acc_subsampling_y c)"
      by (rule reads_bind [OF reads_read_bit])
    with dep show ?thesis by (auto split: if_splits)
  qed
  show ?thesis
    unfolding color_range_parse_def color_range_bits_def if_not_P [OF False]
    apply (rule reads_bind [OF reads_read_bit])
    apply (rule reads_bind_last [OF sub], simp add: reads_ret)
    done
qed

lemma reads_byte8: "reads_bits (read_field8 8) (to_bits 8 (ucast (x :: u8) :: u64)) x"
  unfolding read_field8_def by (intro reads_map [OF reads_field]) (simp_all add: ucast_ucast_id byte_field)

lemma reads_color_config:
  assumes "color_config_ok prof desc c"
  shows "reads_bits (color_config_parse prof) (color_config_bits prof desc c) c"
proof -
  have depth: "reads_bits (if prof = 2 \<and> acc_bit_depth c \<noteq> 8 then bindE read_bit (\<lambda>twelve. ret (if twelve then 12 else 10))
            else ret (if acc_bit_depth c \<noteq> 8 then 10 else 8))
      (if prof = 2 \<and> acc_bit_depth c \<noteq> 8 then [acc_bit_depth c = 12] else []) (acc_bit_depth c)"
    using assms by (auto simp: color_config_ok_def intro!: reads_map [OF reads_read_bit] reads_ret)
  have mono: "reads_bits (if prof = 1 then ret False else read_bit) (if prof = 1 then [] else [acc_mono_chrome c]) (acc_mono_chrome c)"
    using assms by (auto simp: color_config_ok_def intro: reads_read_bit reads_ret)
  let ?ptm = "(acc_color_primaries c, acc_transfer_characteristics c, acc_matrix_coefficients c)"
  have ptm: "reads_bits (bindE read_bit (\<lambda>f. if f then
         bindE (read_field8 8) (\<lambda>p. bindE (read_field8 8) (\<lambda>t. bindE (read_field8 8) (\<lambda>m. ret (p, t, m)))) else ret (2, 2, 2)))
      (if desc then [True] @ to_bits 8 (ucast (acc_color_primaries c) :: u64)
          @ to_bits 8 (ucast (acc_transfer_characteristics c) :: u64) @ to_bits 8 (ucast (acc_matrix_coefficients c) :: u64)
        else [False]) ?ptm"
  proof (cases desc)
    case True
    have "reads_bits (bindE (read_field8 8) (\<lambda>p. bindE (read_field8 8) (\<lambda>t. bindE (read_field8 8) (\<lambda>m. ret (p, t, m)))))
       (to_bits 8 (ucast (acc_color_primaries c) :: u64)
          @ to_bits 8 (ucast (acc_transfer_characteristics c) :: u64) @ to_bits 8 (ucast (acc_matrix_coefficients c) :: u64)) ?ptm"
      by (intro reads_bind [OF reads_byte8] reads_map [OF reads_byte8]) simp
    with True show ?thesis by (simp only: if_True) (rule reads_bind [OF reads_read_bit], simp only: if_True)
  next
    case False
    with assms show ?thesis
      by (simp only: if_False) (rule reads_bind_last [OF reads_read_bit], simp add: color_config_ok_def reads_ret)
  qed
  have pos: "reads_bits (if acc_subsampling_x c \<and> acc_subsampling_y c then read_field8 2 else ret 0)
      (if acc_subsampling_x c \<and> acc_subsampling_y c then to_bits 2 (ucast (acc_chroma_sample_position c) :: u64) else [])
      (acc_chroma_sample_position c)" if "\<not> acc_mono_chrome c"
    using assms that by (auto simp: color_config_ok_def reads_ret intro!: reads_field8)
  show ?thesis
    unfolding color_config_parse_def color_config_bits_def
    apply (rule reads_bind [OF reads_read_bit], rule reads_bind [OF depth], rule reads_bind [OF mono], rule reads_bind [OF ptm])
    apply (simp only: prod.case)
    apply (rule reads_if)
     apply (rule reads_map [OF reads_read_bit])
     apply (use assms in \<open>cases c, simp add: color_config_ok_def\<close>)
    apply (rule reads_bind [OF reads_color_range [OF assms]], assumption)
    apply (simp only: ColorRangeAndSubsampling.simps)
    apply (rule reads_bind [OF pos], assumption)
    apply (rule reads_map [OF reads_read_bit])
    apply (use assms in \<open>cases c, simp add: color_config_ok_def\<close>)
    done
qed

definition coding_tools_of :: "SequenceHeaderObu \<Rightarrow> coding_tools" where
  "coding_tools_of s = \<lparr>ct_interintra_compound = sh_enable_interintra_compound s, ct_masked_compound = sh_enable_masked_compound s,
     ct_warped_motion = sh_enable_warped_motion s, ct_dual_filter = sh_enable_dual_filter s, ct_order_hint = sh_enable_order_hint s,
     ct_jnt_comp = sh_enable_jnt_comp s, ct_ref_frame_mvs = sh_enable_ref_frame_mvs s,
     ct_force_screen_content_tools = sh_seq_force_screen_content_tools s, ct_force_integer_mv = sh_seq_force_integer_mv s,
     ct_order_hint_bits = sh_order_hint_bits s\<rparr>"

definition select_bits :: "u8 \<Rightarrow> bool list" where
  "select_bits v = (if v = 2 then [True] else [False] @ to_bits 1 (ucast v :: u64))"

definition coding_tools_bits :: "bool \<Rightarrow> coding_tools \<Rightarrow> bool list" where
  "coding_tools_bits reduced t =
     (if \<not> reduced then [ct_interintra_compound t] @ [ct_masked_compound t] @ [ct_warped_motion t] @ [ct_dual_filter t]
        @ [ct_order_hint t] @ (if ct_order_hint t then [ct_jnt_comp t] @ [ct_ref_frame_mvs t] else [])
        @ select_bits (ct_force_screen_content_tools t)
        @ (if ct_force_screen_content_tools t = 0 then [] else select_bits (ct_force_integer_mv t))
        @ (if ct_order_hint t then minus_bits 3 1 (ct_order_hint_bits t) else [])
      else [])"

definition coding_tools_ok :: "bool \<Rightarrow> coding_tools \<Rightarrow> bool" where
  "coding_tools_ok reduced t \<longleftrightarrow>
     (if \<not> reduced then (\<not> ct_order_hint t \<longrightarrow> \<not> ct_jnt_comp t \<and> \<not> ct_ref_frame_mvs t \<and> ct_order_hint_bits t = 0)
        \<and> (ct_order_hint t \<longrightarrow> ct_order_hint_bits t - 1 < 2 ^ 3)
        \<and> ct_force_screen_content_tools t \<in> {0, 1, 2}
        \<and> ct_force_integer_mv t \<in> (if ct_force_screen_content_tools t = 0 then {2} else {0, 1, 2})
      else t = \<lparr>ct_interintra_compound = False, ct_masked_compound = False, ct_warped_motion = False,
             ct_dual_filter = False, ct_order_hint = False, ct_jnt_comp = False, ct_ref_frame_mvs = False,
             ct_force_screen_content_tools = 2, ct_force_integer_mv = 2, ct_order_hint_bits = 0\<rparr>)"

lemma reads_select: "v \<in> {0, 1, 2} \<Longrightarrow> reads_bits (bindE read_bit (\<lambda>sel. if sel then ret 2 else read_field8 1)) (select_bits v) v"
proof (cases "v = 2")
  case True
  then show ?thesis by (auto simp: select_bits_def intro!: reads_bind_last [OF reads_read_bit] reads_ret)
next
  case False
  assume "v \<in> {0, 1, 2}"
  with False have "v < 2 ^ 1" by auto
  then have "reads_bits (read_field8 1) (to_bits 1 (ucast v :: u64)) v" by (rule reads_field8) simp
  with False show ?thesis unfolding select_bits_def if_not_P [OF False]
    by (intro reads_bind [OF reads_read_bit]) (simp only: if_False)
qed

lemma reads_coding_tools:
  assumes "coding_tools_ok reduced t"
  shows "reads_bits (coding_tools_parse reduced) (coding_tools_bits reduced t) t"
proof (cases reduced)
  case True
  with assms show ?thesis by (simp add: coding_tools_parse_def coding_tools_bits_def coding_tools_ok_def reads_ret)
next
  case False
  have hint: "reads_bits (if ct_order_hint t then bindE read_bit (\<lambda>j. bindE read_bit (\<lambda>r. ret (j, r))) else ret (False, False))
      (if ct_order_hint t then [ct_jnt_comp t] @ [ct_ref_frame_mvs t] else []) (ct_jnt_comp t, ct_ref_frame_mvs t)"
  proof (cases "ct_order_hint t")
    case True
    have "reads_bits (bindE read_bit (\<lambda>j. bindE read_bit (\<lambda>r. ret (j, r)))) ([ct_jnt_comp t] @ [ct_ref_frame_mvs t])
        (ct_jnt_comp t, ct_ref_frame_mvs t)"
      by (intro reads_bind [OF reads_read_bit] reads_map [OF reads_read_bit]) simp
    with True show ?thesis by (simp only: if_True)
  qed (use assms False in \<open>simp add: coding_tools_ok_def reads_ret\<close>)
  have sct: "reads_bits (bindE read_bit (\<lambda>sel. if sel then ret 2 else read_field8 1))
      (select_bits (ct_force_screen_content_tools t)) (ct_force_screen_content_tools t)"
    using assms False by (intro reads_select) (simp add: coding_tools_ok_def)
  have mv: "reads_bits (if ct_force_screen_content_tools t = 0 then ret 2
         else bindE read_bit (\<lambda>sel. if sel then ret 2 else read_field8 1))
      (if ct_force_screen_content_tools t = 0 then [] else select_bits (ct_force_integer_mv t)) (ct_force_integer_mv t)"
    using assms False reads_select [of "ct_force_integer_mv t"] by (auto simp: coding_tools_ok_def reads_ret)
  have ohb: "reads_bits (if ct_order_hint t then read_field8_plus 3 1 else ret 0)
      (if ct_order_hint t then minus_bits 3 1 (ct_order_hint_bits t) else []) (ct_order_hint_bits t)"
    using assms False by (auto simp: coding_tools_ok_def reads_ret intro!: reads_minus)
  show ?thesis
    unfolding coding_tools_parse_def coding_tools_bits_def if_P [OF False]
    apply (intro reads_bind [OF reads_read_bit])
    apply (rule reads_bind [OF hint], simp only: prod.case)
    apply (rule reads_bind [OF sct], rule reads_bind [OF mv], rule reads_map [OF ohb], simp)
    done
qed

definition frame_ids_bits :: "FrameIds \<Rightarrow> bool list" where
  "frame_ids_bits f = minus_bits 4 2 (fi_delta_frame_id_length f) @ minus_bits 3 1 (fi_additional_frame_id_length f)"

definition frame_ids_ok :: "bool \<Rightarrow> FrameIds option \<Rightarrow> bool" where
  "frame_ids_ok reduced x \<longleftrightarrow> (\<forall>f. x = Some f \<longrightarrow> \<not> reduced \<and> fi_delta_frame_id_length f - 2 < 2 ^ 4
     \<and> fi_additional_frame_id_length f - 1 < 2 ^ 3)"

lemma reads_frame_ids:
  assumes "frame_ids_ok reduced x"
  shows "reads_bits (frame_ids_parse reduced) (if reduced then [] else opt_bits frame_ids_bits x) x"
proof (cases reduced)
  case True
  with assms show ?thesis by (cases x) (simp_all add: frame_ids_parse_def frame_ids_ok_def reads_ret)
next
  case False
  have "reads_bits (bindE (read_field8_plus 4 2) (\<lambda>delta_frame_id_length. bindE (read_field8_plus 3 1) (\<lambda>additional_frame_id_length.
        ret \<lparr>fi_delta_frame_id_length = delta_frame_id_length, fi_additional_frame_id_length = additional_frame_id_length\<rparr>)))
      (frame_ids_bits f) f" if "x = Some f" for f
    unfolding frame_ids_bits_def using assms that
    by (intro reads_bind [OF reads_minus] reads_map [OF reads_minus]) (simp_all add: frame_ids_ok_def)
  with False show ?thesis by (auto simp: frame_ids_parse_def intro!: reads_flagged)
qed

text \<open>The choices of the encoder that the parsed header does not record: whether display delays are present, the
  number of bits of the frame sizes, and whether the colour description is present.\<close>

record header_choices =
  hc_delay_flag :: bool
  hc_width_bits :: u8
  hc_height_bits :: u8
  hc_color_description :: bool

definition sequence_header_bits :: "header_choices \<Rightarrow> SequenceHeaderObu \<Rightarrow> bool list" where
  "sequence_header_bits k s =
     (let reduced = sh_reduced_still_picture_header s in
      to_bits 3 (ucast (sh_seq_profile s) :: u64) @ [sh_still_picture s] @ [reduced]
      @ operating_points_bits reduced (hc_delay_flag k) (sh_timing_info s) (sh_decoder_model_info s) (sh_operating_points s)
      @ minus_bits 4 1 (hc_width_bits k) @ minus_bits 4 1 (hc_height_bits k)
      @ to_bits (unat (hc_width_bits k)) (sh_max_frame_width s - 1) @ to_bits (unat (hc_height_bits k)) (sh_max_frame_height s - 1)
      @ (if reduced then [] else opt_bits frame_ids_bits (sh_frame_ids s))
      @ [sh_use_128x128_superblock s] @ [sh_enable_filter_intra s] @ [sh_enable_intra_edge_filter s]
      @ coding_tools_bits reduced (coding_tools_of s)
      @ [sh_enable_superres s] @ [sh_enable_cdef s] @ [sh_enable_restoration s]
      @ color_config_bits (sh_seq_profile s) (hc_color_description k) (sh_color_config s)
      @ [sh_film_grain_params_present s])"

definition sequence_header_ok :: "header_choices \<Rightarrow> SequenceHeaderObu \<Rightarrow> bool" where
  "sequence_header_ok k s \<longleftrightarrow> sh_seq_profile s < 2 ^ 3
     \<and> (sh_reduced_still_picture_header s \<longrightarrow> sh_still_picture s)
     \<and> operating_points_ok (sh_reduced_still_picture_header s) (hc_delay_flag k) (sh_timing_info s)
          (sh_decoder_model_info s) (sh_operating_points s)
     \<and> hc_width_bits k - 1 < 2 ^ 4 \<and> hc_height_bits k - 1 < 2 ^ 4
     \<and> take_bit (unat (hc_width_bits k)) (sh_max_frame_width s - 1) = sh_max_frame_width s - 1
     \<and> take_bit (unat (hc_height_bits k)) (sh_max_frame_height s - 1) = sh_max_frame_height s - 1
     \<and> frame_ids_ok (sh_reduced_still_picture_header s) (sh_frame_ids s)
     \<and> coding_tools_ok (sh_reduced_still_picture_header s) (coding_tools_of s)
     \<and> color_config_ok (sh_seq_profile s) (hc_color_description k) (sh_color_config s)"

lemma reads_sequence_header:
  assumes ok: "sequence_header_ok k s"
  shows "reads_bits (sequence_header_parse_bits (sh_header s)) (sequence_header_bits k s) s"
proof -
  note o = ok [unfolded sequence_header_ok_def]
  have pts: "reads_bits (operating_points_parse (sh_reduced_still_picture_header s))
      (operating_points_bits (sh_reduced_still_picture_header s) (hc_delay_flag k) (sh_timing_info s) (sh_decoder_model_info s)
        (sh_operating_points s)) (sh_timing_info s, sh_decoder_model_info s, sh_operating_points s)"
    using o by (intro reads_operating_points) simp
  have w: "reads_bits (read_field8_plus 4 1) (minus_bits 4 1 (hc_width_bits k)) (hc_width_bits k)"
    "reads_bits (read_field8_plus 4 1) (minus_bits 4 1 (hc_height_bits k)) (hc_height_bits k)"
    using o by (auto intro!: reads_minus)
  have n64: "unat x \<le> 64" if "x - 1 < 2 ^ 4" for x :: u8
    using that by (intro delay_length) (auto elim: order.strict_trans)
  have size: "reads_bits (read_bits (unat (hc_width_bits k))) (to_bits (unat (hc_width_bits k)) (sh_max_frame_width s - 1)) (sh_max_frame_width s - 1)"
    "reads_bits (read_bits (unat (hc_height_bits k))) (to_bits (unat (hc_height_bits k)) (sh_max_frame_height s - 1)) (sh_max_frame_height s - 1)"
    using o by (auto intro!: reads_field n64)
  have ids: "reads_bits (frame_ids_parse (sh_reduced_still_picture_header s))
      (if sh_reduced_still_picture_header s then [] else opt_bits frame_ids_bits (sh_frame_ids s)) (sh_frame_ids s)"
    using o by (intro reads_frame_ids) simp
  have tools: "reads_bits (coding_tools_parse (sh_reduced_still_picture_header s))
      (coding_tools_bits (sh_reduced_still_picture_header s) (coding_tools_of s)) (coding_tools_of s)"
    using o by (intro reads_coding_tools) simp
  have col: "reads_bits (color_config_parse (sh_seq_profile s))
      (color_config_bits (sh_seq_profile s) (hc_color_description k) (sh_color_config s)) (sh_color_config s)"
    using o by (intro reads_color_config) simp
  have prof: "sh_seq_profile s < 2 ^ 3" and still: "(\<not> sh_still_picture s \<and> sh_reduced_still_picture_header s) = False"
    using o by auto
  show ?thesis
    unfolding sequence_header_parse_bits_def sequence_header_bits_def Let_def
    apply (rule reads_bind [OF reads_field8 [OF prof]], simp)
    apply (rule reads_bind [OF reads_read_bit], rule reads_bind [OF reads_read_bit])
    apply (simp only: still if_False)
    apply (rule reads_bind [OF pts], simp only: prod.case)
    apply (rule reads_bind [OF w(1)], rule reads_bind [OF w(2)], rule reads_bind [OF size(1)], rule reads_bind [OF size(2)])
    apply (rule reads_bind [OF ids])
    apply (rule reads_bind [OF reads_read_bit], rule reads_bind [OF reads_read_bit], rule reads_bind [OF reads_read_bit])
    apply (rule reads_bind [OF tools])
    apply (rule reads_bind [OF reads_read_bit], rule reads_bind [OF reads_read_bit], rule reads_bind [OF reads_read_bit])
    apply (rule reads_bind [OF col], rule reads_map [OF reads_read_bit])
    apply (cases s, simp add: coding_tools_of_def)
    done
qed

text \<open>C29: an AV1 sequence header in the bit layout of the specification, reduced or not, with any combination of timing
  information, decoder model, operating points, frame identifiers, coding tools and colour configuration, is parsed
  into exactly the header it describes.\<close>

theorem sequence_header_layout:
  assumes "sequence_header_ok k s" "bits_of bs = sequence_header_bits k s @ rest"
  shows "fst (sequence_header_parse (sh_header s) (curs [] bs)) = Ok s"
  using reads_slice [OF reads_sequence_header [OF assms(1)] assms(2)]
  by (auto simp: sequence_header_parse_def br_new_from_slice_def cursor_new_curs split: prod.splits)

definition example_sequence_header :: SequenceHeaderObu where
  "example_sequence_header = \<lparr>sh_header = \<lparr>obu_type = SequenceHeader, obu_size = Some 5, obu_extension_header = None\<rparr>,
     sh_seq_profile = 0, sh_still_picture = True, sh_reduced_still_picture_header = True, sh_timing_info = None,
     sh_decoder_model_info = None, sh_operating_points = [\<lparr>opt_idc = 0, opt_seq_level_idx = 5, opt_seq_tier = False,
       opt_operating_parameters_info = None, opt_initial_display_delay = None\<rparr>],
     sh_max_frame_width = 2, sh_max_frame_height = 1, sh_frame_ids = None, sh_use_128x128_superblock = False,
     sh_enable_filter_intra = True, sh_enable_intra_edge_filter = False, sh_enable_interintra_compound = False,
     sh_enable_masked_compound = False, sh_enable_warped_motion = False, sh_enable_dual_filter = False,
     sh_enable_order_hint = False, sh_enable_jnt_comp = False, sh_enable_ref_frame_mvs = False,
     sh_seq_force_screen_content_tools = 2, sh_seq_force_integer_mv = 2, sh_order_hint_bits = 0,
     sh_enable_superres = False, sh_enable_cdef = True, sh_enable_restoration = False,
     sh_color_config = \<lparr>acc_bit_depth = 8, acc_mono_chrome = False, acc_num_planes = 3, acc_color_primaries = 2,
       acc_transfer_characteristics = 2, acc_matrix_coefficients = 2, acc_full_color_range = False,
       acc_subsampling_x = True, acc_subsampling_y = True, acc_chroma_sample_position = 1, acc_separate_uv_delta_q = False\<rparr>,
     sh_film_grain_params_present = False\<rparr>"

theorem sequence_header_layout_witness:
  "fst (sequence_header_parse (sh_header example_sequence_header) (curs [] [0x19, 0x40, 0x24, 0x81, 0]))
     = Ok example_sequence_header"
proof -
  let ?k = "\<lparr>hc_delay_flag = False, hc_width_bits = 1, hc_height_bits = 1, hc_color_description = False\<rparr>"
  have "sequence_header_ok ?k example_sequence_header"
    by (simp add: sequence_header_ok_def example_sequence_header_def operating_points_ok_def frame_ids_ok_def
        coding_tools_ok_def coding_tools_of_def color_config_ok_def)
  moreover have "bits_of [0x19, 0x40, 0x24, 0x81, 0] = sequence_header_bits ?k example_sequence_header @ [False, False, False, False, False, False]"
    by (simp add: sequence_header_bits_def example_sequence_header_def operating_points_bits_def minus_bits_def
        coding_tools_bits_def color_config_bits_def color_range_bits_def byte_bits_def to_bits_map upt_rec)
  ultimately show ?thesis by (rule sequence_header_layout)
qed

end
