(* ===== verification/Totality.thy ===== *)
theory Totality
  imports H265 Av1
begin

text \<open>
  Parsers return (\<open>halts\<close> of the prelude):
  the rules below follow the structure of a parser, so that a client with a loop of its own has to argue only
  about that loop. The configuration record readers of the codec crates are instances.
\<close>

section \<open>Cursors\<close>

lemma halts_cursor [halts_intros]:
  "halts (read_exact n)" "halts (extract_bytes n)" "halts extract_remaining" "halts cur_has_remaining"
  by (auto simp: halts_def read_exact_def extract_bytes_def extract_remaining_def cur_has_remaining_def
      split: prod.splits result.splits)

lemma halts_read_ints [halts_intros]:
  "halts read_u8" "halts read_u16" "halts read_u24" "halts read_u32" "halts read_u64" "halts read_u32_le"
  unfolding read_u8_def read_u16_def read_u24_def read_u32_def read_u64_def read_u32_le_def
  by (intro halts_intros)+

section \<open>Bit readers\<close>

lemma halts_on_data: "halts m \<Longrightarrow> halts (on_br_data m)"
  by (auto simp: halts_def on_br_data_def split: prod.splits) (metis fst_conv)

lemma halts_read_bit [halts_intros]: "halts read_bit"
proof -
  have "halts update_byte"
    unfolding update_byte_def by (intro halts_bind halts_on_data halts_cursor) (simp add: halts_def)
  then show ?thesis unfolding read_bit_def by (intro halts_bind) (auto simp: halts_def)
qed

lemma halts_read_loop [halts_intros]: "halts (read_bits_loop read_bit n acc)"
  by (induction n arbitrary: acc) (auto intro!: halts_intros)

lemma halts_read_bits [halts_intros]: "halts (read_bits n)" "halts (read_field8 n)" "halts (read_field16 n)"
  unfolding read_bits_def read_field8_def read_field16_def by (intro halts_intros)+

lemma halts_br_read [halts_intros]: "halts (br_read n)"
proof (rule haltsI)
  fix r
  have "halts (on_br_data (cursor_read n))" by (rule halts_on_data) (simp add: halts_def cursor_read_def Let_def)
  moreover have "halts (repeat_m n (read_bits_loop read_bit 8 (0 :: u8)))" by (intro halts_intros)
  ultimately show "fst (br_read n r) \<noteq> OutOfFuel" by (simp add: br_read_def halts_def)
qed

lemma halts_br_read_exact [halts_intros]: "halts (br_read_exact n)"
proof -
  have "halts (br_read_exact_loop fuel n)" if "n \<le> fuel" for fuel n
    using that
  proof (induction fuel arbitrary: n)
    case (Suc fuel)
    have "n - length xs \<le> fuel" if "xs \<noteq> []" for xs :: bytes
      using Suc.prems that by (cases xs) auto
    then show ?case using Suc.IH by (auto intro!: halts_intros)
  qed (simp add: halts_intros)
  then show ?thesis by (simp add: br_read_exact_def)
qed

lemma halts_br_ints [halts_intros]:
  "halts br_read_u8" "halts br_read_u16" "halts br_read_u32" "halts br_read_u32_le" "halts br_read_u48_le"
  unfolding br_read_u8_def br_read_u16_def br_read_u32_def br_read_u32_le_def br_read_u48_le_def
  by (intro halts_intros)+

lemma halts_seek_bits [halts_intros]: "halts (seek_bits k)"
proof (rule haltsI)
  fix r
  have byte: "halts update_byte"
    unfolding update_byte_def by (intro halts_bind halts_on_data halts_cursor) (simp add: halts_def)
  have seek: "halts (on_br_data (cursor_seek w))" for w
    by (rule halts_on_data) (simp add: halts_def cursor_seek_def Let_def)
  have last: "halts (\<lambda>r. if br_is_aligned r then (Ok (pos * 8), r)
      else bindE update_byte (\<lambda>_ r'. (Ok (pos * 8 + br_bit_pos r'), r')) r)" for pos
    using haltsD [OF halts_bind [OF byte], of "\<lambda>_ r'. (Ok (pos * 8 + br_bit_pos r'), r')"] by (simp add: halts_def)
  show "fst (seek_bits k r) \<noteq> OutOfFuel"
  proof (cases "k = 0")
    case False
    then show ?thesis unfolding seek_bits_def Let_def
      by (simp only: if_False) (intro haltsD halts_bind seek last, simp add: halts_def)
  qed (simp add: seek_bits_def bit_stream_position_def Let_def)
qed

section \<open>Configuration records\<close>

lemma halts_avc_demux [halts_intros]: "halts avc_demux"
  unfolding avc_demux_def avc_ext_demux_def read_parameter_set_def by (intro halts_intros)

lemma halts_hevc_demux [halts_intros]: "halts hevc_demux"
proof -
  have "halts hevc_demux_bits"
    unfolding hevc_demux_bits_def read_nalu_array_def br_read_nalu_def by (intro halts_intros)
  then show ?thesis by (auto simp: halts_def hevc_demux_def split: prod.splits) (metis fst_conv)
qed

lemma halts_av1_demux [halts_intros]: "halts av1_demux"
proof (rule haltsI)
  fix c
  have "halts av1_demux_bits" unfolding av1_demux_bits_def by (intro halts_intros)
  then have "fst (bindE av1_demux_bits (\<lambda>rec r. if br_is_aligned r then (Ok rec, r) else (Err InvalidData, r)) (br_new c)) \<noteq> OutOfFuel"
    by (intro haltsD halts_bind) (auto simp: halts_def)
  moreover have "fst (bindE extract_remaining (\<lambda>obu. ret (rec\<lparr>av1_config_obu := obu\<rparr>)) c') \<noteq> (OutOfFuel :: AV1CodecConfigurationRecord io_result)"
    for rec :: AV1CodecConfigurationRecord and c'
    by (intro haltsD halts_intros)
  ultimately show "fst (av1_demux c) \<noteq> OutOfFuel"
    by (auto simp: av1_demux_def bindE_def [of "\<lambda>c. (_, c)"] split: prod.splits result.splits)
qed

lemma halts_av1_descriptor [halts_intros]: "halts av1_descriptor_demux"
  unfolding av1_descriptor_demux_def by (intro halts_intros)

end
