(* ===== verification/Flv.thy ===== *)
theory Flv
  imports Totality Amf0
begin

text \<open>
  The FLV demuxer (\<^verbatim>\<open>crates/flv/src\<close>): file header, tags, and the audio, video and script bodies of tags, on top
  of the configuration record readers of the codec crates and of the AMF0 decoder. The types made by
  \<^verbatim>\<open>nutype_enum!\<close> are transparent wrappers of an integer (or of four bytes) with named constants, and are
  modelled as such. The demuxer is read-only; what it reads is specified by the inductive layout
  predicates below.
\<close>

section \<open>Audio\<close>

text \<open>\<^verbatim>\<open>aac.rs\<close>\<close>

type_synonym AacPacketType = u8

definition AacPacketType_SequenceHeader :: AacPacketType where "AacPacketType_SequenceHeader = 0"
definition AacPacketType_Raw :: AacPacketType where "AacPacketType_Raw = 1"

datatype AacPacket = AacSequenceHeader bytes | AacRaw bytes | AacUnknown AacPacketType bytes

definition aac_packet_new :: "AacPacketType \<Rightarrow> bytes \<Rightarrow> AacPacket" where
  "aac_packet_new aac_packet_type data =
     (if aac_packet_type = AacPacketType_Raw then AacRaw data
      else if aac_packet_type = AacPacketType_SequenceHeader then AacSequenceHeader data
      else AacUnknown aac_packet_type data)"

text \<open>\<^verbatim>\<open>audio.rs\<close>\<close>

type_synonym SoundFormat = u8
type_synonym SoundRate = u8
type_synonym SoundSize = u8
type_synonym SoundType = u8

definition SoundFormat_Aac :: SoundFormat where "SoundFormat_Aac = 10"
definition SoundSize_Bit8 :: SoundSize where "SoundSize_Bit8 = 0"
definition SoundSize_Bit16 :: SoundSize where "SoundSize_Bit16 = 1"
definition SoundType_Mono :: SoundType where "SoundType_Mono = 0"
definition SoundType_Stereo :: SoundType where "SoundType_Stereo = 1"

datatype AudioDataBody = AudioAac AacPacket | AudioUnknown SoundFormat bytes

record FlvAudioData =
  ad_sound_rate :: SoundRate
  ad_sound_size :: SoundSize
  ad_sound_type :: SoundType
  ad_body :: AudioDataBody

definition audio_body_demux :: "SoundFormat \<Rightarrow> (cursor, io_error, AudioDataBody) prog" where
  "audio_body_demux sound_format =
     (if sound_format = SoundFormat_Aac then
        bindE read_u8 (\<lambda>aac_packet_type.
        bindE extract_remaining (\<lambda>data.
        ret (AudioAac (aac_packet_new aac_packet_type data))))
      else bindE extract_remaining (\<lambda>data. ret (AudioUnknown sound_format data)))"

definition audio_data_demux :: "(cursor, io_error, FlvAudioData) prog" where
  "audio_data_demux =
     bindE read_u8 (\<lambda>byte.
     let sound_format = drop_bit 4 byte;
         sound_rate = drop_bit 2 byte AND 0b11;
         sound_size = drop_bit 1 byte AND 0b1;
         sound_type = byte AND 0b1
     in bindE (audio_body_demux sound_format) (\<lambda>body.
        ret \<lparr>ad_sound_rate = sound_rate, ad_sound_size = sound_size, ad_sound_type = sound_type, ad_body = body\<rparr>))"

section \<open>Video\<close>

text \<open>\<^verbatim>\<open>avc.rs\<close>\<close>

type_synonym AvcPacketType = u8

definition AvcPacketType_SeqHdr :: AvcPacketType where "AvcPacketType_SeqHdr = 0"
definition AvcPacketType_Nalu :: AvcPacketType where "AvcPacketType_Nalu = 1"
definition AvcPacketType_EndOfSequence :: AvcPacketType where "AvcPacketType_EndOfSequence = 2"

datatype AvcPacket =
    AvcNalu u32 bytes
  | AvcSequenceHeader AVCDecoderConfigurationRecord
  | AvcEndOfSequence
  | AvcUnknown AvcPacketType u32 bytes

definition avc_packet_demux :: "(cursor, io_error, AvcPacket) prog" where
  "avc_packet_demux =
     bindE read_u8 (\<lambda>avc_packet_type.
     bindE read_u24 (\<lambda>composition_time.
     if avc_packet_type = AvcPacketType_SeqHdr then bindE avc_demux (\<lambda>r. ret (AvcSequenceHeader r))
     else if avc_packet_type = AvcPacketType_Nalu then
       bindE extract_remaining (\<lambda>data. ret (AvcNalu composition_time data))
     else if avc_packet_type = AvcPacketType_EndOfSequence then ret AvcEndOfSequence
     else bindE extract_remaining (\<lambda>data. ret (AvcUnknown avc_packet_type composition_time data))))"

text \<open>\<^verbatim>\<open>hevc.rs\<close> and \<^verbatim>\<open>av1.rs\<close>\<close>

datatype HevcPacket = HevcSequenceStart HEVCDecoderConfigurationRecord | HevcNalu "i32 option" bytes

datatype Av1Packet = Av1SequenceStart AV1CodecConfigurationRecord | Av1Raw bytes

text \<open>\<^verbatim>\<open>video.rs\<close>\<close>

type_synonym FrameType = u8
type_synonym VideoCodecId = u8
type_synonym CommandPacket = u8
type_synonym EnhancedPacketType = u8
type_synonym VideoFourCC = bytes

definition FrameType_VideoInfoOrCommandFrame :: FrameType where "FrameType_VideoInfoOrCommandFrame = 5"
definition FrameType_Keyframe :: FrameType where "FrameType_Keyframe = 1"
definition VideoCodecId_Avc :: VideoCodecId where "VideoCodecId_Avc = 7"
definition VideoFourCC_Av1 :: VideoFourCC where "VideoFourCC_Av1 = [0x61, 0x76, 0x30, 0x31]"
definition VideoFourCC_Hevc :: VideoFourCC where "VideoFourCC_Hevc = [0x68, 0x76, 0x63, 0x31]"
definition EnhancedPacketType_SequenceStart :: EnhancedPacketType where "EnhancedPacketType_SequenceStart = 0"
definition EnhancedPacketType_CodedFrames :: EnhancedPacketType where "EnhancedPacketType_CodedFrames = 1"
definition EnhancedPacketType_SequenceEnd :: EnhancedPacketType where "EnhancedPacketType_SequenceEnd = 2"
definition EnhancedPacketType_CodedFramesX :: EnhancedPacketType where "EnhancedPacketType_CodedFramesX = 3"
definition EnhancedPacketType_Metadata :: EnhancedPacketType where "EnhancedPacketType_Metadata = 4"
definition EnhancedPacketType_Mpeg2SequenceStart :: EnhancedPacketType where "EnhancedPacketType_Mpeg2SequenceStart = 5"

datatype EnhancedPacket =
    EnhMetadata VideoFourCC bytes
  | EnhSequenceEnd VideoFourCC
  | EnhAv1 Av1Packet
  | EnhHevc HevcPacket
  | EnhUnknown EnhancedPacketType VideoFourCC bytes

datatype VideoTagBody =
    VideoAvc AvcPacket
  | VideoEnhanced EnhancedPacket
  | VideoCommand CommandPacket
  | VideoUnknown VideoCodecId bytes

datatype VideoPacketType = CodecId VideoCodecId | Enhanced EnhancedPacketType

definition video_packet_type_new :: "u8 \<Rightarrow> bool \<Rightarrow> VideoPacketType" where
  "video_packet_type_new byte enhanced = (if enhanced then Enhanced byte else CodecId byte)"

text \<open>\<^verbatim>\<open>read_i24\<close>: three bytes, sign-extended.\<close>

definition read_i24 :: "(cursor, io_error, i32) prog" where
  "read_i24 = bindE read_u24 (\<lambda>x. ret (signed_take_bit 23 x))"

text \<open>The second match of the enhanced branch, on codec and packet type.\<close>

definition enhanced_body_demux :: "VideoFourCC \<Rightarrow> EnhancedPacketType \<Rightarrow> (cursor, io_error, EnhancedPacket) prog" where
  "enhanced_body_demux video_codec packet_type =
     (if video_codec = VideoFourCC_Av1 \<and> packet_type = EnhancedPacketType_SequenceStart then
        bindE av1_demux (\<lambda>r. ret (EnhAv1 (Av1SequenceStart r)))
      else if video_codec = VideoFourCC_Av1 \<and> packet_type = EnhancedPacketType_Mpeg2SequenceStart then
        bindE av1_descriptor_demux (\<lambda>d. ret (EnhAv1 (Av1SequenceStart (avd_codec_configuration_record d))))
      else if video_codec = VideoFourCC_Av1 \<and> packet_type = EnhancedPacketType_CodedFrames then
        bindE extract_remaining (\<lambda>data. ret (EnhAv1 (Av1Raw data)))
      else if video_codec = VideoFourCC_Hevc \<and> packet_type = EnhancedPacketType_SequenceStart then
        bindE hevc_demux (\<lambda>r. ret (EnhHevc (HevcSequenceStart r)))
      else if video_codec = VideoFourCC_Hevc \<and> packet_type = EnhancedPacketType_CodedFrames then
        bindE read_i24 (\<lambda>composition_time.
        bindE extract_remaining (\<lambda>data. ret (EnhHevc (HevcNalu (Some composition_time) data))))
      else if video_codec = VideoFourCC_Hevc \<and> packet_type = EnhancedPacketType_CodedFramesX then
        bindE extract_remaining (\<lambda>data. ret (EnhHevc (HevcNalu None data)))
      else bindE extract_remaining (\<lambda>data. ret (EnhUnknown packet_type video_codec data)))"

fun video_body_demux :: "VideoPacketType \<Rightarrow> (cursor, io_error, VideoTagBody) prog" where
  "video_body_demux (CodecId codec_id) =
     (if codec_id = VideoCodecId_Avc then bindE avc_packet_demux (\<lambda>p. ret (VideoAvc p))
      else bindE extract_remaining (\<lambda>data. ret (VideoUnknown codec_id data)))"
| "video_body_demux (Enhanced packet_type) =
     bindE (read_exact 4) (\<lambda>video_codec.
     if packet_type = EnhancedPacketType_SequenceEnd then ret (VideoEnhanced (EnhSequenceEnd video_codec))
     else if packet_type = EnhancedPacketType_Metadata then
       bindE extract_remaining (\<lambda>data. ret (VideoEnhanced (EnhMetadata video_codec data)))
     else bindE (enhanced_body_demux video_codec packet_type) (\<lambda>p. ret (VideoEnhanced p)))"

record VideoTagHeader =
  vt_frame_type :: FrameType
  vt_body :: VideoTagBody

definition video_tag_demux :: "(cursor, io_error, VideoTagHeader) prog" where
  "video_tag_demux =
     bindE read_u8 (\<lambda>byte.
     let enhanced = (byte AND 0b10000000 \<noteq> 0);
         frame_type = drop_bit 4 byte AND 0b0111;
         packet_type_byte = byte AND 0b00001111
     in bindE (if frame_type = FrameType_VideoInfoOrCommandFrame
               then bindE read_u8 (\<lambda>command_packet. ret (VideoCommand command_packet))
               else video_body_demux (video_packet_type_new packet_type_byte enhanced)) (\<lambda>body.
        ret \<lparr>vt_frame_type = frame_type, vt_body = body\<rparr>))"

section \<open>Script data\<close>

record ScriptData =
  sc_name :: bytes
  sc_data :: "Amf0Value list"

text \<open>Every error of the AMF0 decoder becomes invalid data; a panic stays a panic.\<close>

definition script_data_demux :: "(cursor, io_error, ScriptData) prog" where
  "script_data_demux =
     bindE extract_remaining (\<lambda>buf.
     lift_result (
       case amf0_decode_with_type MString (cursor_new buf) of
         (Ok (Amf0String name), amf0_reader) \<Rightarrow>
           (case amf0_decode_all amf0_reader of
              (Ok data, _) \<Rightarrow> Ok \<lparr>sc_name = name, sc_data = data\<rparr>
            | (Err _, _) \<Rightarrow> Err InvalidData | (Panic, _) \<Rightarrow> Panic | (OutOfFuel, _) \<Rightarrow> OutOfFuel)
       | (Panic, _) \<Rightarrow> Panic
       | (OutOfFuel, _) \<Rightarrow> OutOfFuel
       | _ \<Rightarrow> Err InvalidData))"

section \<open>Tags, header and file\<close>

type_synonym FlvTagType = u8

definition FlvTagType_Audio :: FlvTagType where "FlvTagType_Audio = 8"
definition FlvTagType_Video :: FlvTagType where "FlvTagType_Video = 9"
definition FlvTagType_ScriptData :: FlvTagType where "FlvTagType_ScriptData = 18"

datatype FlvTagData =
    TagAudio FlvAudioData
  | TagVideo VideoTagHeader
  | TagScriptData ScriptData
  | TagUnknown FlvTagType bytes

definition flv_tag_data_demux :: "FlvTagType \<Rightarrow> (cursor, io_error, FlvTagData) prog" where
  "flv_tag_data_demux tag_type =
     (if tag_type = FlvTagType_Audio then bindE audio_data_demux (\<lambda>x. ret (TagAudio x))
      else if tag_type = FlvTagType_Video then bindE video_tag_demux (\<lambda>x. ret (TagVideo x))
      else if tag_type = FlvTagType_ScriptData then bindE script_data_demux (\<lambda>x. ret (TagScriptData x))
      else bindE extract_remaining (\<lambda>data. ret (TagUnknown tag_type data)))"

record FlvTag =
  ft_timestamp_ms :: u32
  ft_stream_id :: u32
  ft_data :: FlvTagData

definition flv_tag_demux :: "(cursor, io_error, FlvTag) prog" where
  "flv_tag_demux =
     bindE read_u8 (\<lambda>tag_type.
     bindE read_u24 (\<lambda>data_size.
     bindE read_u24 (\<lambda>low.
     bindE read_u8 (\<lambda>high.
     bindE read_u24 (\<lambda>stream_id.
     bindE (extract_bytes (unat data_size)) (\<lambda>data.
     bindE (lift_result (fst (flv_tag_data_demux tag_type (cursor_new data)))) (\<lambda>tag_data.
     ret \<lparr>ft_timestamp_ms = low OR push_bit 24 (ucast high), ft_stream_id = stream_id, ft_data = tag_data\<rparr>)))))))"

record FlvHeader =
  fh_flv_version :: u8
  fh_has_audio :: bool
  fh_has_video :: bool
  fh_extra :: bytes

definition cur_position :: "(cursor, 'e, nat) prog" where
  "cur_position c = (Ok (cur_pos c), c)"

definition flv_header_demux :: "(cursor, io_error, FlvHeader) prog" where
  "flv_header_demux =
     bindE cur_position (\<lambda>start.
     bindE read_u24 (\<lambda>signature.
     if signature \<noteq> of_be [0, 0x46, 0x4C, 0x56] then fail InvalidData else
     bindE read_u8 (\<lambda>version.
     bindE read_u8 (\<lambda>flags.
     bindE read_u32 (\<lambda>offset.
     bindE cur_position (\<lambda>end_pos.
     if unat offset < end_pos - start then fail InvalidData else
     bindE (extract_bytes (unat offset - (end_pos - start))) (\<lambda>extra.
     ret \<lparr>fh_flv_version = version, fh_has_audio = (flags AND 0b00000100 \<noteq> 0),
          fh_has_video = (flags AND 0b00000001 \<noteq> 0), fh_extra = extra\<rparr>)))))))"

record FlvFile =
  ff_header :: FlvHeader
  ff_tags :: "FlvTag list"

fun flv_tags_loop :: "nat \<Rightarrow> (cursor, io_error, FlvTag list) prog" where
  "flv_tags_loop 0 = out_of_fuel"
| "flv_tags_loop (Suc fuel) =
     bindE cur_has_remaining (\<lambda>remaining.
     if \<not> remaining then ret [] else
     bindE read_u32 (\<lambda>previous_tag_size.
     bindE cur_has_remaining (\<lambda>remaining.
     if \<not> remaining then ret [] else
     bindE flv_tag_demux (\<lambda>tag.
     bindE (flv_tags_loop fuel) (\<lambda>tags. ret (tag # tags))))))"

text \<open>Every round of the loop consumes at least four bytes, so one round per byte is enough.\<close>

definition flv_file_demux :: "(cursor, io_error, FlvFile) prog" where
  "flv_file_demux =
     bindE flv_header_demux (\<lambda>header c.
       bindE (flv_tags_loop (cur_remaining c + 1)) (\<lambda>tags. ret \<lparr>ff_header = header, ff_tags = tags\<rparr>) c)"

section \<open>What the bytes of a tag mean\<close>

text \<open>The bytes that a muxer of the codec crates produces.\<close>

definition muxed :: "(bytes, io_error, unit) prog \<Rightarrow> bytes" where
  "muxed m = snd (m [])"

inductive audio_body_layout :: "SoundFormat \<Rightarrow> AudioDataBody \<Rightarrow> bytes \<Rightarrow> bool" where
  aac_header: "audio_body_layout 10 (AudioAac (AacSequenceHeader d)) (0 # d)"
| aac_raw: "audio_body_layout 10 (AudioAac (AacRaw d)) (1 # d)"
| aac_unknown: "1 < t \<Longrightarrow> audio_body_layout 10 (AudioAac (AacUnknown t d)) (t # d)"
| other_audio: "f \<noteq> 10 \<Longrightarrow> audio_body_layout f (AudioUnknown f d) d"

text \<open>The reader of an end of sequence ignores what follows.\<close>

inductive avc_packet_layout :: "AvcPacket \<Rightarrow> bytes \<Rightarrow> bool" where
  avc_header: "avc_ok r \<Longrightarrow> avc_packet_layout (AvcSequenceHeader r) (0 # be24 ct @ muxed (avc_mux r))"
| avc_nalu: "ct < 0x1000000 \<Longrightarrow> avc_packet_layout (AvcNalu ct d) (1 # be24 ct @ d)"
| avc_end: "avc_packet_layout AvcEndOfSequence (2 # be24 ct @ d)"
| avc_unknown: "2 < t \<Longrightarrow> ct < 0x1000000 \<Longrightarrow> avc_packet_layout (AvcUnknown t ct d) (t # be24 ct @ d)"

text \<open>Composition times of HEVC frames are signed 24-bit numbers.\<close>

inductive enhanced_layout :: "EnhancedPacketType \<Rightarrow> VideoFourCC \<Rightarrow> EnhancedPacket \<Rightarrow> bytes \<Rightarrow> bool" where
  enh_end: "enhanced_layout 2 cc (EnhSequenceEnd cc) d"
| enh_metadata: "enhanced_layout 4 cc (EnhMetadata cc d) d"
| enh_av1_start: "av1_ok r \<Longrightarrow> av1_hdr_wcg_idc r = 0 \<Longrightarrow>
     enhanced_layout 0 VideoFourCC_Av1 (EnhAv1 (Av1SequenceStart r)) (muxed (av1_mux r))"
| enh_av1_descriptor: "av1_ok r \<Longrightarrow> av1_hdr_wcg_idc r = 0 \<Longrightarrow>
     enhanced_layout 5 VideoFourCC_Av1 (EnhAv1 (Av1SequenceStart r)) (0x80 # 4 # muxed (av1_mux r))"
| enh_av1_frames: "enhanced_layout 1 VideoFourCC_Av1 (EnhAv1 (Av1Raw d)) d"
| enh_hevc_start: "hevc_ok r \<Longrightarrow> enhanced_layout 0 VideoFourCC_Hevc (EnhHevc (HevcSequenceStart r)) (muxed (hevc_mux r) @ d)"
| enh_hevc_frames: "signed_take_bit 23 ct = ct \<Longrightarrow>
     enhanced_layout 1 VideoFourCC_Hevc (EnhHevc (HevcNalu (Some ct) d)) (be24 ct @ d)"
| enh_hevc_framesx: "enhanced_layout 3 VideoFourCC_Hevc (EnhHevc (HevcNalu None d)) d"
| enh_unknown: "\<not> (cc = VideoFourCC_Av1 \<and> t \<in> {0, 1, 5}) \<Longrightarrow> \<not> (cc = VideoFourCC_Hevc \<and> t \<in> {0, 1, 3}) \<Longrightarrow> t \<notin> {2, 4} \<Longrightarrow>
     enhanced_layout t cc (EnhUnknown t cc d) d"

text \<open>The first byte of a video tag: the high bit marks enhanced packets, then three bits of frame type and
  four bits of codec id or packet type.\<close>

abbreviation enhanced_bit :: "u8 \<Rightarrow> bool" where "enhanced_bit b \<equiv> b AND 0b10000000 \<noteq> 0"
abbreviation frame_bits :: "u8 \<Rightarrow> FrameType" where "frame_bits b \<equiv> drop_bit 4 b AND 0b0111"
abbreviation packet_bits :: "u8 \<Rightarrow> u8" where "packet_bits b \<equiv> b AND 0b00001111"

inductive video_layout :: "VideoTagHeader \<Rightarrow> bytes \<Rightarrow> bool" where
  video_command: "frame_bits b = 5 \<Longrightarrow> video_layout \<lparr>vt_frame_type = 5, vt_body = VideoCommand c\<rparr> (b # c # d)"
| video_avc: "frame_bits b \<noteq> 5 \<Longrightarrow> \<not> enhanced_bit b \<Longrightarrow> packet_bits b = 7 \<Longrightarrow> avc_packet_layout p bs \<Longrightarrow>
     video_layout \<lparr>vt_frame_type = frame_bits b, vt_body = VideoAvc p\<rparr> (b # bs)"
| video_other: "frame_bits b \<noteq> 5 \<Longrightarrow> \<not> enhanced_bit b \<Longrightarrow> packet_bits b \<noteq> 7 \<Longrightarrow>
     video_layout \<lparr>vt_frame_type = frame_bits b, vt_body = VideoUnknown (packet_bits b) bs\<rparr> (b # bs)"
| video_enhanced: "frame_bits b \<noteq> 5 \<Longrightarrow> enhanced_bit b \<Longrightarrow> length cc = 4 \<Longrightarrow> enhanced_layout (packet_bits b) cc p bs \<Longrightarrow>
     video_layout \<lparr>vt_frame_type = frame_bits b, vt_body = VideoEnhanced p\<rparr> (b # cc @ bs)"

inductive tag_data_layout :: "FlvTagType \<Rightarrow> FlvTagData \<Rightarrow> bytes \<Rightarrow> bool" where
  tag_audio: "audio_body_layout (drop_bit 4 b) body bs \<Longrightarrow>
     tag_data_layout 8 (TagAudio \<lparr>ad_sound_rate = drop_bit 2 b AND 0b11, ad_sound_size = drop_bit 1 b AND 0b1,
       ad_sound_type = b AND 0b1, ad_body = body\<rparr>) (b # bs)"
| tag_video: "video_layout v bs \<Longrightarrow> tag_data_layout 9 (TagVideo v) bs"
| tag_script: "amf0_wf (Amf0String name) \<Longrightarrow> \<forall>v \<in> set vs. amf0_wf v \<Longrightarrow>
     tag_data_layout 18 (TagScriptData \<lparr>sc_name = name, sc_data = vs\<rparr>)
       (amf0_enc (Amf0String name) @ concat (map amf0_enc vs))"
| tag_other: "t \<notin> {8, 9, 18} \<Longrightarrow> tag_data_layout t (TagUnknown t d) d"

section \<open>The demuxer reads the layout\<close>

lemmas flv_constants =
  AacPacketType_SequenceHeader_def AacPacketType_Raw_def SoundFormat_Aac_def
  AvcPacketType_SeqHdr_def AvcPacketType_Nalu_def AvcPacketType_EndOfSequence_def
  FrameType_VideoInfoOrCommandFrame_def VideoCodecId_Avc_def
  EnhancedPacketType_SequenceStart_def EnhancedPacketType_CodedFrames_def EnhancedPacketType_SequenceEnd_def
  EnhancedPacketType_CodedFramesX_def EnhancedPacketType_Metadata_def EnhancedPacketType_Mpeg2SequenceStart_def
  FlvTagType_Audio_def FlvTagType_Video_def FlvTagType_ScriptData_def

lemma fourcc_distinct: "VideoFourCC_Av1 \<noteq> VideoFourCC_Hevc" "VideoFourCC_Hevc \<noteq> VideoFourCC_Av1"
  by (simp_all add: VideoFourCC_Av1_def VideoFourCC_Hevc_def)

lemma audio_body_reads:
  "audio_body_layout f body bs \<Longrightarrow> audio_body_demux f (curs pre bs) = (Ok body, curs (pre @ bs) [])"
  by (induction rule: audio_body_layout.induct)
     (auto simp: audio_body_demux_def aac_packet_new_def flv_constants run_simps)

lemma avc_muxed: "avc_ok r \<Longrightarrow> muxed (avc_mux r) = avc_bytes r"
  by (simp add: muxed_def avc_mux_bytes)

lemma avc_packet_reads: "avc_packet_layout p bs \<Longrightarrow> fst (avc_packet_demux (curs pre bs)) = Ok p"
proof (induction rule: avc_packet_layout.induct)
  case (avc_header r ct)
  then show ?case
    using avc_demux_bytes [of r "pre @ 0 # be24 ct"]
    by (simp add: avc_packet_demux_def flv_constants run_simps avc_muxed)
next
  case (avc_unknown t ct d)
  then have "t \<noteq> 0" "t \<noteq> 1" "t \<noteq> 2" by auto
  with avc_unknown(2) show ?case by (simp add: avc_packet_demux_def flv_constants run_simps take_bit_24_id)
qed (simp_all add: avc_packet_demux_def flv_constants run_simps take_bit_24_id)

lemma hevc_muxed_reads: "hevc_ok r \<Longrightarrow> hevc_demux (curs pre (muxed (hevc_mux r) @ post)) = (Ok r, curs (pre @ muxed (hevc_mux r)) post)"
  using hevc_mux_demux [of r] by (auto simp: muxed_def)

lemma av1_muxed_reads:
  assumes "av1_ok r" "av1_hdr_wcg_idc r = 0"
  shows "av1_demux (curs pre (muxed (av1_mux r))) = (Ok r, curs (pre @ muxed (av1_mux r)) [])"
proof -
  have "r\<lparr>av1_hdr_wcg_idc := 0\<rparr> = r" using assms(2) by (cases r) simp
  then show ?thesis using av1_mux_demux [OF assms(1)] by (auto simp: muxed_def)
qed

lemma fst_bind_ret: "fst (m c) = Ok x \<Longrightarrow> fst (bindE m (\<lambda>x. ret (f x)) c) = Ok (f x)"
  by (cases "m c") (simp add: bindE_def ret_def)

lemma enhanced_body_reads:
  assumes "enhanced_layout t cc p bs" "t \<noteq> 2" "t \<noteq> 4"
  shows "fst (enhanced_body_demux cc t (curs pre bs)) = Ok p"
  using assms(1)
proof cases
  case (enh_hevc_frames ct d)
  have "signed_take_bit 23 (take_bit 24 ct) = ct"
    using enh_hevc_frames(5) signed_take_bit_take_bit [of 23 24 ct] by simp
  then show ?thesis unfolding enh_hevc_frames
    by (simp add: run_simps enhanced_body_demux_def flv_constants fourcc_distinct read_i24_def)
next
  case enh_unknown
  then show ?thesis by (auto simp: run_simps enhanced_body_demux_def flv_constants)
qed (use assms in \<open>simp_all add: run_simps enhanced_body_demux_def flv_constants fourcc_distinct hevc_muxed_reads
      av1_muxed_reads av1_descriptor_demux_def\<close>)

lemma enhanced_reads:
  assumes "enhanced_layout t cc p bs" "length cc = 4"
  shows "fst (video_body_demux (Enhanced t) (curs pre (cc @ bs))) = Ok (VideoEnhanced p)"
proof -
  have rd: "bindE (read_exact 4) f (curs pre (cc @ bs)) = f cc (curs (pre @ cc) bs)" for f :: "bytes \<Rightarrow> (cursor, io_error, VideoTagBody) prog"
    using assms(2) by (simp add: bindE_def read_exact_curs)
  show ?thesis
  proof (cases "t = 2 \<or> t = 4")
    case True
    with assms(1) show ?thesis
      by (auto simp: rd run_simps flv_constants elim: enhanced_layout.cases)
  next
    case False
    then show ?thesis using enhanced_body_reads [OF assms(1)] by (simp add: rd flv_constants fst_bind_ret)
  qed
qed

lemma video_tag_run:
  "video_tag_demux (curs pre (b # bs)) =
     bindE (if frame_bits b = 5 then bindE read_u8 (\<lambda>c. ret (VideoCommand c))
            else video_body_demux (if enhanced_bit b then Enhanced (packet_bits b) else CodecId (packet_bits b)))
       (\<lambda>body. ret \<lparr>vt_frame_type = frame_bits b, vt_body = body\<rparr>) (curs (pre @ [b]) bs)"
  unfolding video_tag_demux_def bindE_Ok [where m = read_u8, OF read_u8_curs [of pre b bs]] Let_def flv_constants
    video_packet_type_new_def ..

lemma video_reads:
  assumes "video_layout v bs"
  shows "fst (video_tag_demux (curs pre bs)) = Ok v"
  using assms
proof cases
  case (video_command b c d)
  show ?thesis unfolding video_command(1,2) video_tag_run video_command(3) by (simp add: run_simps)
next
  case (video_avc b p bs')
  show ?thesis unfolding video_avc(1,2) video_tag_run if_not_P [OF video_avc(3)] if_not_P [OF video_avc(4)] video_avc(5)
    using avc_packet_reads [OF video_avc(6)] by (intro fst_bind_ret) (simp add: flv_constants fst_bind_ret)
next
  case (video_other b bs')
  have "fst (video_body_demux (CodecId (packet_bits b)) (curs (pre @ [b]) bs')) = Ok (VideoUnknown (packet_bits b) bs')"
    unfolding video_body_demux.simps flv_constants if_not_P [OF video_other(5)] by (rule fst_bind_ret) (simp add: run_simps)
  then show ?thesis unfolding video_other(1,2) video_tag_run if_not_P [OF video_other(3)] if_not_P [OF video_other(4)]
    by (rule fst_bind_ret)
next
  case (video_enhanced b cc p bs')
  show ?thesis unfolding video_enhanced(1,2) video_tag_run if_not_P [OF video_enhanced(3)] if_P [OF video_enhanced(4)]
    by (intro fst_bind_ret enhanced_reads video_enhanced)
qed

lemma script_reads:
  assumes "amf0_wf (Amf0String name)" "\<forall>v \<in> set vs. amf0_wf v"
  shows "fst (script_data_demux (cursor_new (amf0_enc (Amf0String name) @ concat (map amf0_enc vs))))
     = Ok \<lparr>sc_name = name, sc_data = vs\<rparr>"
proof -
  let ?n = "amf0_enc (Amf0String name)" and ?d = "concat (map amf0_enc vs)"
  have "amf0_decode_with_type MString (cursor_new (?n @ ?d)) = (Ok (Amf0String name), curs ?n ?d)"
    using amf0_decode_with_type_enc [OF assms(1), of MString "[]" ?d] by (simp add: cursor_new_curs)
  moreover have "amf0_decode_all (curs ?n ?d) = (Ok vs, curs (?n @ ?d) [])"
    unfolding amf0_decode_all_def by (rule decode_all_enc) (use assms(2) in simp_all)
  moreover have "(extract_remaining :: (cursor, io_error, bytes) prog) (cursor_new (?n @ ?d)) = (Ok (?n @ ?d), curs (?n @ ?d) [])"
    by (simp add: cursor_new_curs extract_remaining_curs)
  ultimately show ?thesis by (simp add: script_data_demux_def bindE_def lift_result_def del: amf0_enc.simps)
qed

lemma tag_data_reads: "tag_data_layout t x bs \<Longrightarrow> fst (flv_tag_data_demux t (cursor_new bs)) = Ok x"
proof (induction rule: tag_data_layout.induct)
  case (tag_audio b body bs)
  then show ?case
    by (simp add: flv_tag_data_demux_def flv_constants audio_data_demux_def Let_def cursor_new_curs run_simps audio_body_reads)
next
  case (tag_video v bs)
  then show ?case by (simp add: flv_tag_data_demux_def flv_constants fst_bind_ret video_reads cursor_new_curs)
next
  case (tag_script name vs)
  then show ?case by (simp add: flv_tag_data_demux_def flv_constants fst_bind_ret script_reads del: amf0_enc.simps amf0_wf.simps)
qed (simp add: flv_tag_data_demux_def flv_constants cursor_new_curs run_simps)

section \<open>Files\<close>

text \<open>A file as it is stored: the header fields and the tags with their previous tag size, which the
  demuxer ignores, type, time stamp, stream id and body.\<close>

record raw_tag =
  rt_previous_size :: u32
  rt_type :: FlvTagType
  rt_timestamp :: u32
  rt_stream_id :: u32
  rt_body :: bytes

definition raw_tag_bytes :: "raw_tag \<Rightarrow> bytes" where
  "raw_tag_bytes t = be32 (rt_previous_size t) @ [rt_type t] @ be24 (word_of_nat (length (rt_body t)))
     @ be24 (rt_timestamp t) @ [ucast (drop_bit 24 (rt_timestamp t))] @ be24 (rt_stream_id t) @ rt_body t"

definition raw_tag_ok :: "raw_tag \<Rightarrow> bool" where
  "raw_tag_ok t \<longleftrightarrow> length (rt_body t) < 2 ^ 24 \<and> rt_stream_id t < 0x1000000"

definition flv_header_bytes :: "u8 \<Rightarrow> u8 \<Rightarrow> bytes \<Rightarrow> bytes" where
  "flv_header_bytes version flags extra =
     [0x46, 0x4C, 0x56, version, flags] @ be32 (word_of_nat (9 + length extra)) @ extra"

text \<open>What a tag is decoded to, from its own bytes alone.\<close>

definition raw_tag_result :: "raw_tag \<Rightarrow> FlvTag io_result" where
  "raw_tag_result t = rbind (fst (flv_tag_data_demux (rt_type t) (cursor_new (rt_body t))))
     (\<lambda>d. Ok \<lparr>ft_timestamp_ms = rt_timestamp t, ft_stream_id = rt_stream_id t, ft_data = d\<rparr>)"

fun collect :: "('e, 'a) result list \<Rightarrow> ('e, 'a list) result" where
  "collect [] = Ok []"
| "collect (r # rs) = rbind r (\<lambda>x. rbind (collect rs) (\<lambda>xs. Ok (x # xs)))"

lemma timestamp_parts: "take_bit 24 t OR push_bit 24 (ucast (ucast (drop_bit 24 t) :: u8)) = (t :: u32)"
  by (rule bit_word_eqI) (auto simp: bit_simps)

lemma flv_tag_run:
  assumes "raw_tag_ok t"
  shows "fst (bindE flv_tag_demux f (curs pre (drop 4 (raw_tag_bytes t) @ post)))
     = rbind (raw_tag_result t) (\<lambda>tag. fst (f tag (curs (pre @ drop 4 (raw_tag_bytes t)) post)))"
proof -
  have len: "unat (take_bit 24 (word_of_nat (length (rt_body t)) :: u32)) = length (rt_body t)"
    using assms by (simp add: raw_tag_ok_def unsigned_take_bit_eq unat_of_nat take_bit_nat_eq_self)
  have "rt_stream_id t < 0x1000000" using assms by (simp add: raw_tag_ok_def)
  then have "bindE flv_tag_demux f (curs pre (drop 4 (raw_tag_bytes t) @ post))
    = bindE (lift_result (raw_tag_result t)) f (curs (pre @ drop 4 (raw_tag_bytes t)) post)"
    by (cases "fst (flv_tag_data_demux (rt_type t) (cursor_new (rt_body t)))")
      (simp_all add: flv_tag_demux_def raw_tag_bytes_def raw_tag_result_def run_simps bindE_assoc len timestamp_parts
        take_bit_24_id)
  then show ?thesis by (cases "raw_tag_result t") (simp_all add: run_simps)
qed

text \<open>A tag takes at least fifteen bytes with its previous tag size.\<close>

lemma length_raw_tag: "length (raw_tag_bytes t) = 15 + length (rt_body t)"
  by (simp add: raw_tag_bytes_def)

lemma raw_tag_split: "raw_tag_bytes t = be32 (rt_previous_size t) @ drop 4 (raw_tag_bytes t)"
  by (simp add: raw_tag_bytes_def)

lemma flv_tags_run:
  assumes "\<forall>t \<in> set ts. raw_tag_ok t" "tail = [] \<or> (\<exists>z. tail = be32 z)" "length ts < fuel"
  shows "fst (flv_tags_loop fuel (curs pre (concat (map raw_tag_bytes ts) @ tail))) = collect (map raw_tag_result ts)"
  using assms
proof (induction ts arbitrary: fuel pre)
  case Nil
  then obtain f where "fuel = Suc f" by (cases fuel) auto
  with Nil.prems show ?case
    by (auto simp: cur_has_remaining_bind run_simps)
next
  case (Cons t ts)
  then obtain f where f: "fuel = Suc f" by (cases fuel) auto
  let ?b = "raw_tag_bytes t" and ?rest = "concat (map raw_tag_bytes ts) @ tail"
  have ne: "drop 4 ?b @ ?rest \<noteq> []" using length_raw_tag [of t] by auto
  have "flv_tags_loop (Suc f) (curs pre (?b @ ?rest))
      = bindE flv_tag_demux (\<lambda>tag. bindE (flv_tags_loop f) (\<lambda>tags. ret (tag # tags)))
          (curs (pre @ be32 (rt_previous_size t)) (drop 4 ?b @ ?rest))"
    using ne by (subst raw_tag_split) (simp add: cur_has_remaining_bind bindE_Ok [where m = read_u32, OF read_u32_curs])
  then have "fst (flv_tags_loop (Suc f) (curs pre (?b @ ?rest))) = rbind (raw_tag_result t) (\<lambda>tag.
      fst (bindE (flv_tags_loop f) (\<lambda>tags. ret (tag # tags)) (curs ((pre @ be32 (rt_previous_size t)) @ drop 4 ?b) ?rest)))"
    using Cons.prems(1) by (simp only: flv_tag_run list.set_intros)
  also have "\<dots> = rbind (raw_tag_result t) (\<lambda>x. rbind (collect (map raw_tag_result ts)) (\<lambda>xs. Ok (x # xs)))"
  proof -
    have "fst (bindE m (\<lambda>tags. ret (tag # tags)) c) = rbind (fst (m c)) (\<lambda>xs. Ok (tag # xs))"
      for m :: "(cursor, io_error, FlvTag list) prog" and tag c
      by (cases "m c"; cases "fst (m c)") (auto simp: bindE_def ret_def)
    then show ?thesis using Cons.IH [of f] Cons.prems f by simp
  qed
  finally show ?case by (simp add: f)
qed

lemma bind_position: "bindE cur_position f (curs pre post) = f (length pre) (curs pre post)"
  by (simp add: bindE_def cur_position_def)

lemma flv_header_run:
  assumes "9 + length extra < 2 ^ 32"
  shows "flv_header_demux (curs pre (flv_header_bytes version flags extra @ post))
    = (Ok \<lparr>fh_flv_version = version, fh_has_audio = (flags AND 0b00000100 \<noteq> 0),
          fh_has_video = (flags AND 0b00000001 \<noteq> 0), fh_extra = extra\<rparr>, curs (pre @ flv_header_bytes version flags extra) post)"
proof -
  have off: "unat (word_of_nat (9 + length extra) :: u32) = 9 + length extra"
    using assms by (simp add: unsigned_of_nat take_bit_nat_eq_self del: of_nat_add)
  have sig: "read_u24 (curs pre (0x46 # 0x4C # 0x56 # bs)) = (Ok (of_be [0x46, 0x4C, 0x56]), curs (pre @ [0x46, 0x4C, 0x56]) bs)" for bs
    using read_exact_curs [of "[0x46, 0x4C, 0x56]" 3 pre bs] by (simp add: read_u24_def bindE_def ret_def)
  have "(of_be [0x46, 0x4C, 0x56] :: u32) = of_be [0, 0x46, 0x4C, 0x56]" by (simp add: of_be_def)
  then show ?thesis
    by (simp add: flv_header_demux_def flv_header_bytes_def bind_position bindE_Ok [where m = read_u24, OF sig] run_simps off
        del: of_nat_add)
qed

section \<open>The demuxer returns\<close>

lemma consumes_extract: "cur_ok c \<Longrightarrow> consumes n (extract_bytes n) c"
  by (auto simp: consumes_def extract_bytes_def advances_def cur_ok_def cur_remaining_def)

lemma consumes_has_remaining: "cur_ok c \<Longrightarrow> consumes 0 cur_has_remaining c"
  by (simp add: consumes_def cur_has_remaining_def advances_def cur_ok_def)

lemma halts_script: "halts script_data_demux"
proof -
  have "(case amf0_decode_with_type MString (cursor_new buf) of
         (Ok (Amf0String name), amf0_reader) \<Rightarrow>
           (case amf0_decode_all amf0_reader of
              (Ok data, _) \<Rightarrow> Ok \<lparr>sc_name = name, sc_data = data\<rparr>
            | (Err _, _) \<Rightarrow> Err InvalidData | (Panic, _) \<Rightarrow> Panic | (OutOfFuel, _) \<Rightarrow> OutOfFuel)
       | (Panic, _) \<Rightarrow> Panic | (OutOfFuel, _) \<Rightarrow> OutOfFuel | _ \<Rightarrow> Err InvalidData) \<noteq> (OutOfFuel :: ScriptData io_result)" for buf
  proof -
    have "cur_ok (cursor_new buf)" by (simp add: cur_ok_def cursor_new_def)
    from consumes_decode_with_type [OF this, of MString] consumes_decode_all show ?thesis
      by (fastforce simp: consumes_def dest: advances_cur_ok split: prod.splits result.splits Amf0Value.splits)
  qed
  then show ?thesis unfolding script_data_demux_def by (intro halts_intros)
qed

lemma halts_tag_data: "halts (flv_tag_data_demux t)"
proof -
  have video: "halts (video_body_demux p)" for p
  proof (cases p)
    case (CodecId x1)
    then show ?thesis by (auto simp: avc_packet_demux_def intro!: halts_intros)
  next
    case (Enhanced x2)
    then show ?thesis by (auto simp: enhanced_body_demux_def read_i24_def intro!: halts_intros)
  qed
  show ?thesis
    unfolding flv_tag_data_demux_def audio_data_demux_def video_tag_demux_def audio_body_demux_def Let_def
    by (intro halts_intros halts_script video)
qed

lemma consumes_tag: "cur_ok c \<Longrightarrow> consumes 0 flv_tag_demux c"
  unfolding flv_tag_demux_def
  by (rule consumes_bindI consumes_reads consumes_extract consumes_lift consumes_ret haltsD [OF halts_tag_data] le0 | assumption)+

lemma consumes_tags: "cur_ok c \<Longrightarrow> cur_remaining c < fuel \<Longrightarrow> consumes 0 (flv_tags_loop fuel) c"
proof (induction fuel arbitrary: c)
  case (Suc fuel)
  have tag: "consumes 0 (bindE flv_tag_demux (\<lambda>tag. bindE (flv_tags_loop fuel) (\<lambda>tags. ret (tag # tags)))) c'"
    if c': "cur_ok c'" "cur_remaining c' < fuel" for c'
  proof (rule consumes_bindI [where j = 0 and k = 0, OF consumes_tag [OF c'(1)]])
    fix x c'' assume c'': "cur_ok c''" "advances 0 c' c''"
    with Suc.IH [of c''] c' advances_remaining [OF c''(2)]
    show "consumes 0 (bindE (flv_tags_loop fuel) (\<lambda>tags. ret (x # tags))) c''" by (intro consumes_map) simp
  qed simp
  have after: "consumes 0 (bindE cur_has_remaining (\<lambda>remaining. if \<not> remaining then ret [] else
     bindE flv_tag_demux (\<lambda>tag. bindE (flv_tags_loop fuel) (\<lambda>tags. ret (tag # tags))))) c'"
    if c': "cur_ok c'" "advances 4 c c'" for c'
  proof (rule consumes_bindI [where j = 0 and k = 0, OF consumes_has_remaining [OF c'(1)]])
    fix x c'' assume c'': "cur_ok c''" "advances 0 c' c''"
    with tag [of c''] advances_remaining [OF c'(2)] advances_remaining [OF c''(2)] Suc.prems(2)
    show "consumes 0 (if \<not> x then ret [] else bindE flv_tag_demux (\<lambda>tag. bindE (flv_tags_loop fuel) (\<lambda>tags. ret (tag # tags)))) c''"
      by (simp add: consumes_ret)
  qed simp
  have full: "consumes 0 (if \<not> x then ret [] else bindE read_u32 (\<lambda>_. bindE cur_has_remaining (\<lambda>remaining. if \<not> remaining then ret [] else
     bindE flv_tag_demux (\<lambda>tag. bindE (flv_tags_loop fuel) (\<lambda>tags. ret (tag # tags)))))) c" for x
    using Suc.prems(1) after
    by (auto intro!: consumes_ret consumes_bindI [where j = 4 and k = 0, OF consumes_reads(4)])
  have "flv_tags_loop (Suc fuel) c = (if \<not> has_remaining c then ret [] else bindE read_u32 (\<lambda>_. bindE cur_has_remaining (\<lambda>remaining. if \<not> remaining then ret [] else
     bindE flv_tag_demux (\<lambda>tag. bindE (flv_tags_loop fuel) (\<lambda>tags. ret (tag # tags)))))) c"
    by (simp add: bindE_def [of cur_has_remaining] cur_has_remaining_def)
  with full [of "has_remaining c"] show ?case by (simp add: consumes_def)
qed simp

lemma consumes_header: "cur_ok c \<Longrightarrow> consumes 0 flv_header_demux c"
proof -
  have pos: "cur_ok c' \<Longrightarrow> consumes 0 cur_position c'" for c'
    by (simp add: consumes_def cur_position_def advances_def cur_ok_def)
  have tail: "cur_ok c' \<Longrightarrow> consumes 0 (bindE (extract_bytes n) (\<lambda>extra. ret (f extra))) c'"
    for c' n and f :: "bytes \<Rightarrow> FlvHeader"
    by (rule consumes_mono [OF consumes_map [OF consumes_extract]]) simp_all
  have cond: "(b \<Longrightarrow> consumes 0 m c') \<Longrightarrow> (\<not> b \<Longrightarrow> consumes 0 m' c') \<Longrightarrow> consumes 0 (if b then m else m') c'"
    for b c' and m m' :: "(cursor, io_error, FlvHeader) prog" by simp
  show "cur_ok c \<Longrightarrow> consumes 0 flv_header_demux c"
    unfolding flv_header_demux_def
    by (rule consumes_bindI consumes_reads pos cond tail consumes_stop le0 | assumption)+
qed

section \<open>Properties\<close>


lemma file_tags_run:
  assumes "9 + length extra < 2 ^ 32" "\<forall>t \<in> set ts. raw_tag_ok t" "tail = [] \<or> (\<exists>z. tail = be32 z)"
  shows "fst (flv_file_demux (cursor_new (flv_header_bytes version flags extra @ concat (map raw_tag_bytes ts) @ tail)))
     = rbind (collect (map raw_tag_result ts)) (\<lambda>tags. Ok \<lparr>ff_header =
         \<lparr>fh_flv_version = version, fh_has_audio = (flags AND 0b00000100 \<noteq> 0),
          fh_has_video = (flags AND 0b00000001 \<noteq> 0), fh_extra = extra\<rparr>, ff_tags = tags\<rparr>)"
proof -
  let ?h = "flv_header_bytes version flags extra" and ?r = "concat (map raw_tag_bytes ts) @ tail"
  have "length ts \<le> length (concat (map raw_tag_bytes ts))"
    by (induction ts) (auto simp: length_raw_tag)
  then have loop: "fst (flv_tags_loop (length ?r + 1) (curs ?h ?r)) = collect (map raw_tag_result ts)"
    using assms(2,3) by (intro flv_tags_run) simp_all
  have "fst (bindE m (\<lambda>tags. ret (g tags)) c) = rbind (fst (m c)) (\<lambda>tags. Ok (g tags))"
    for m :: "(cursor, io_error, FlvTag list) prog" and g :: "FlvTag list \<Rightarrow> FlvFile" and c
    by (cases "m c"; cases "fst (m c)") (auto simp: bindE_def ret_def)
  then show ?thesis
    using flv_header_run [OF assms(1), of "[]" version flags ?r] loop
    by (simp add: flv_file_demux_def cursor_new_curs bindE_def [of flv_header_demux] del: flv_tags_loop.simps)
qed

text \<open>A script tag whose name is cut off makes the demuxer panic, as it makes the AMF0 decoder.\<close>

lemma truncated_script_panics:
  assumes "length s < unat n"
  shows "fst (flv_tag_data_demux FlvTagType_ScriptData (cursor_new (2 # be16 n @ s))) = Panic"
proof -
  have "fst (amf0_decode_with_type MString (cursor_new (2 # be16 n @ s))) = Panic"
    using amf0_truncated_string_with_type [OF assms, of "[]"] by (simp add: cursor_new_curs)
  then obtain c where "amf0_decode_with_type MString (cursor_new (2 # be16 n @ s)) = (Panic, c)" by (metis prod.collapse)
  then show ?thesis
    by (simp add: flv_tag_data_demux_def flv_constants script_data_demux_def cursor_new_curs extract_remaining_curs bindE_def lift_result_def)
qed

text \<open>C30: demuxing a file returns its header and, in order, what each tag's own bytes decode to: previous tag sizes
  are ignored, a trailing one is accepted, a tag never reads into its neighbour, time stamps are put together from
  their two parts, and the first tag that is refused decides the outcome.\<close>

theorem flv_file_demux_tags:
  assumes "9 + length extra < 2 ^ 32" "\<forall>t \<in> set ts. raw_tag_ok t" "tail = [] \<or> (\<exists>z. tail = be32 z)"
  shows "fst (flv_file_demux (cursor_new (flv_header_bytes version flags extra @ concat (map raw_tag_bytes ts) @ tail)))
     = rbind (collect (map raw_tag_result ts)) (\<lambda>tags. Ok \<lparr>ff_header =
         \<lparr>fh_flv_version = version, fh_has_audio = (flags AND 0b00000100 \<noteq> 0),
          fh_has_video = (flags AND 0b00000001 \<noteq> 0), fh_extra = extra\<rparr>, ff_tags = tags\<rparr>)"
  using assms by (rule file_tags_run)

text \<open>C32: demuxing ends on every input, with a file, an error or a panic: no sequence of tags, however malformed, makes the tag
  loop run forever. A file whose signature is not FLV, or whose data offset points into the header, is refused; a file with a
  script tag whose name is announced longer than the tag makes the demuxer panic.\<close>

theorem flv_file_demux_ends:
  "(cur_pos c \<le> length (cur_data c) \<longrightarrow> fst (flv_file_demux c) \<noteq> OutOfFuel)
   \<and> (sig \<noteq> [0x46, 0x4C, 0x56] \<and> length sig = 3 \<longrightarrow> fst (flv_file_demux (cursor_new (sig @ rest))) = Err InvalidData)
   \<and> (offset < 9 \<longrightarrow> fst (flv_file_demux (cursor_new ([0x46, 0x4C, 0x56, version, flags] @ be32 offset @ rest))) = Err InvalidData)
   \<and> (length s < unat n \<longrightarrow> fst (flv_file_demux (cursor_new (flv_header_bytes version flags []
        @ raw_tag_bytes \<lparr>rt_previous_size = previous, rt_type = FlvTagType_ScriptData, rt_timestamp = ts, rt_stream_id = 0,
             rt_body = 2 # be16 n @ s\<rparr>))) = Panic)"
proof (intro conjI impI)
  assume "cur_pos c \<le> length (cur_data c)"
  then have ok: "cur_ok c" by (simp add: cur_ok_def)
  have "consumes 0 (\<lambda>c'. bindE (flv_tags_loop (cur_remaining c' + 1)) (\<lambda>tags. ret \<lparr>ff_header = h, ff_tags = tags\<rparr>) c') c'"
    if "cur_ok c'" for c' h
    using consumes_map [OF consumes_tags [OF that, of "cur_remaining c' + 1"], of "\<lambda>tags. \<lparr>ff_header = h, ff_tags = tags\<rparr>"]
    by (simp add: consumes_def del: flv_tags_loop.simps)
  then have "consumes 0 flv_file_demux c"
    unfolding flv_file_demux_def by (intro consumes_bindI [where j = 0 and k = 0, OF consumes_header [OF ok]]) simp_all
  then show "fst (flv_file_demux c) \<noteq> OutOfFuel" by (auto simp: consumes_def split: prod.splits)
next
  assume a: "sig \<noteq> [0x46, 0x4C, 0x56] \<and> length sig = 3"
  then obtain x y z where sig: "sig = [x, y, z]" by (auto simp: length_Suc_conv numeral_eq_Suc)
  have "read_u24 (curs [] (sig @ rest)) = (Ok (of_be sig), curs sig rest)"
    using a read_exact_curs [of sig 3 "[]" rest] by (simp add: read_u24_def bindE_def ret_def)
  moreover have "(of_be sig :: u32) \<noteq> of_be [0, 0x46, 0x4C, 0x56]"
  proof
    assume "(of_be sig :: u32) = of_be [0, 0x46, 0x4C, 0x56]"
    moreover have "(of_be [0, 0x46, 0x4C, 0x56] :: u32) = of_be [0x46, 0x4C, 0x56]" by (simp add: of_be_def)
    ultimately have "be_bytes 3 (of_be sig :: u32) = be_bytes 3 (of_be [0x46, 0x4C, 0x56] :: u32)" by simp
    moreover have "be_bytes 3 (of_be bs :: u32) = bs" if "length bs = 3" for bs
      using be_bytes_of_be [of bs, where 'a = 32] that by simp
    ultimately show False using a by (metis length_Cons list.size(3) numeral_3_eq_3)
  qed
  ultimately show "fst (flv_file_demux (cursor_new (sig @ rest))) = Err InvalidData"
    by (simp add: flv_file_demux_def flv_header_demux_def cursor_new_curs bind_position bindE_assoc bindE_Ok [where m = read_u24] run_simps)
next
  assume a: "offset < 9"
  have sig: "read_u24 (curs [] (0x46 # 0x4C # 0x56 # bs)) = (Ok (of_be [0, 0x46, 0x4C, 0x56]), curs [0x46, 0x4C, 0x56] bs)" for bs
    using read_exact_curs [of "[0x46, 0x4C, 0x56]" 3 "[]" bs] by (simp add: read_u24_def bindE_def ret_def of_be_def)
  have "unat offset < 9" using a by (simp add: word_less_nat_alt)
  then show "fst (flv_file_demux (cursor_new ([0x46, 0x4C, 0x56, version, flags] @ be32 offset @ rest))) = Err InvalidData"
    by (simp add: flv_file_demux_def flv_header_demux_def cursor_new_curs bind_position bindE_assoc bindE_Ok [where m = read_u24, OF sig] run_simps)
next
  assume a: "length s < unat n"
  let ?t = "\<lparr>rt_previous_size = previous, rt_type = FlvTagType_ScriptData, rt_timestamp = ts, rt_stream_id = 0, rt_body = 2 # be16 n @ s\<rparr>"
  have "unat n < 2 ^ 16" using unsigned_less [of n, where 'a = nat] by simp
  then have "raw_tag_ok ?t" using a by (simp add: raw_tag_ok_def)
  moreover have "raw_tag_result ?t = Panic" using truncated_script_panics [OF a] by (simp add: raw_tag_result_def)
  ultimately show "fst (flv_file_demux (cursor_new (flv_header_bytes version flags [] @ raw_tag_bytes ?t))) = Panic"
    using file_tags_run [of "[]" "[?t]" "[]" version flags] by simp
qed


theorem flv_file_demux_tags_witness:
  "fst (flv_file_demux (cursor_new ([0x46, 0x4C, 0x56, 1, 5] @ be32 9
      @ be32 0 @ [8] @ be24 4 @ be24 0x10 @ [1] @ be24 0 @ [0xAF, 1, 0x21, 0x10]
      @ be32 15 @ [21] @ be24 1 @ be24 0 @ [0] @ be24 0 @ [7] @ be32 12)))
   = Ok \<lparr>ff_header = \<lparr>fh_flv_version = 1, fh_has_audio = True, fh_has_video = True, fh_extra = []\<rparr>,
       ff_tags = [\<lparr>ft_timestamp_ms = 0x1000010, ft_stream_id = 0, ft_data = TagAudio \<lparr>ad_sound_rate = 3, ad_sound_size = 1,
            ad_sound_type = 1, ad_body = AudioAac (AacRaw [0x21, 0x10])\<rparr>\<rparr>,
          \<lparr>ft_timestamp_ms = 0, ft_stream_id = 0, ft_data = TagUnknown 21 [7]\<rparr>]\<rparr>"
proof -
  let ?a = "\<lparr>rt_previous_size = 0, rt_type = 8, rt_timestamp = 0x1000010, rt_stream_id = 0, rt_body = [0xAF, 1, 0x21, 0x10]\<rparr>"
  let ?b = "\<lparr>rt_previous_size = 15, rt_type = 21, rt_timestamp = 0, rt_stream_id = 0, rt_body = [7]\<rparr>"
  have "audio_body_layout (drop_bit 4 (0xAF :: u8)) (AudioAac (AacRaw [0x21, 0x10])) (1 # [0x21, 0x10])"
    using aac_raw by simp
  from tag_data_reads [OF tag_audio [OF this]]
  have "raw_tag_result ?a = Ok \<lparr>ft_timestamp_ms = 0x1000010, ft_stream_id = 0, ft_data = TagAudio \<lparr>ad_sound_rate = 3,
      ad_sound_size = 1, ad_sound_type = 1, ad_body = AudioAac (AacRaw [0x21, 0x10])\<rparr>\<rparr>"
    by (simp add: raw_tag_result_def)
  moreover have "raw_tag_result ?b = Ok \<lparr>ft_timestamp_ms = 0, ft_stream_id = 0, ft_data = TagUnknown 21 [7]\<rparr>"
    using tag_data_reads [OF tag_other [of 21 "[7]"]] by (simp add: raw_tag_result_def)
  moreover have "be24 0x1000010 = be24 0x10" by (simp add: be_eval)
  ultimately show ?thesis
    using flv_file_demux_tags [of "[]" "[?a, ?b]" "be32 12" 1 5]
    by (auto simp: raw_tag_ok_def raw_tag_bytes_def flv_header_bytes_def)
qed

theorem flv_file_demux_ends_witness:
  "fst (flv_file_demux (cursor_new [0x46, 0x4C])) \<noteq> OutOfFuel
   \<and> fst (flv_file_demux (cursor_new ([0x46, 0x4C, 0x57] @ []))) = Err InvalidData
   \<and> fst (flv_file_demux (cursor_new ([0x46, 0x4C, 0x56, 1, 5] @ be32 8 @ []))) = Err InvalidData
   \<and> fst (flv_file_demux (cursor_new (flv_header_bytes 1 5 []
        @ raw_tag_bytes \<lparr>rt_previous_size = 0, rt_type = FlvTagType_ScriptData, rt_timestamp = 0, rt_stream_id = 0,
             rt_body = 2 # be16 0xFFFF @ []\<rparr>))) = Panic"
proof -
  have "length ([] :: bytes) < unat (0xFFFF :: u16)" "(8 :: u32) < 9" "length [0x46, 0x4C, 0x57 :: u8] = 3"
    "[0x46, 0x4C, 0x57] \<noteq> [0x46, 0x4C, 0x56 :: u8]" "cur_pos (cursor_new [0x46, 0x4C]) \<le> length (cur_data (cursor_new [0x46, 0x4C]))"
    by (simp_all add: cursor_new_def)
  with flv_file_demux_ends [where c = "cursor_new [0x46, 0x4C]" and sig = "[0x46, 0x4C, 0x57]" and rest = "[]" and offset = 8
      and version = 1 and flags = 5 and s = "[]" and n = "0xFFFF" and previous = 0 and ts = 0] show ?thesis by blast
qed

end
