(* ===== verification/Mp4_Nested.thy ===== *)
theory Mp4_Nested
  imports Mp4_Fragment
begin

text \<open>
  Boxes within boxes. The containers of the MP4 library and the descriptors of \<^verbatim>\<open>esds\<close> read their children with
  a loop that sorts them by kind: single children (the last one of a kind wins), repeated ones, and a vector of
  the children that are none of these. The recursion through the type of all boxes is cut by fuel, one unit
  per level of nesting; \<open>item_ok\<close> says that an item is written, measured and read back in the same way with every
  amount of fuel from a given one on, and the locale \<open>nested_level\<close> derives what a container needs of its
  children.
\<close>

named_theorems child_simps \<open>how the children of a container are sorted\<close>

section \<open>Sorting children\<close>

text \<open>A variable that is overwritten by every child of its kind.\<close>

fun last_of :: "('a \<Rightarrow> 'b option) \<Rightarrow> 'a list \<Rightarrow> 'b option" where
  "last_of f [] = None"
| "last_of f (x # xs) = (case last_of f xs of Some y \<Rightarrow> Some y | None \<Rightarrow> f x)"

text \<open>A vector to which every child of its kind is pushed, and the one of the remaining children.\<close>

definition all_of :: "('a \<Rightarrow> 'b option) \<Rightarrow> 'a list \<Rightarrow> 'b list" where
  "all_of f xs = List.map_filter f xs"

definition none_of :: "('a \<Rightarrow> bool) list \<Rightarrow> 'a list \<Rightarrow> 'a list" where
  "none_of ps xs = filter (\<lambda>x. list_all (\<lambda>p. \<not> p x) ps) xs"

definition is_kind :: "('a \<Rightarrow> 'b option) \<Rightarrow> 'a \<Rightarrow> bool" where
  "is_kind f x \<longleftrightarrow> f x \<noteq> None"

lemma is_kind_simps [child_simps]: "f x = None \<Longrightarrow> \<not> is_kind f x" "f x = Some y \<Longrightarrow> is_kind f x"
  by (simp_all add: is_kind_def)

text \<open>\<^verbatim>\<open>ok_or_else(InvalidData)?\<close> on the child that is required.\<close>

definition required :: "'a option \<Rightarrow> 'a io_result" where
  "required x = (case x of Some y \<Rightarrow> Ok y | None \<Rightarrow> Err InvalidData)"

lemma required_Some [child_simps]: "required (Some y) = Ok y"
  by (simp add: required_def)

definition opt_list :: "'a option \<Rightarrow> 'a list" where
  "opt_list x = (case x of Some y \<Rightarrow> [y] | None \<Rightarrow> [])"

lemma opt_list_simps [simp]: "opt_list None = []" "opt_list (Some y) = [y]"
  by (simp_all add: opt_list_def)

lemma last_of_append [child_simps]:
  "last_of f (xs @ ys) = (case last_of f ys of Some y \<Rightarrow> Some y | None \<Rightarrow> last_of f xs)"
  by (induction xs) (auto split: option.splits)

lemma last_of_none: "(\<And>x. x \<in> set xs \<Longrightarrow> f x = None) \<Longrightarrow> last_of f xs = None"
  by (induction xs) auto

lemma last_of_other [child_simps]: "(\<And>x. f (C x) = None) \<Longrightarrow> last_of f (map C xs) = None"
  by (rule last_of_none) auto

lemma last_of_opt [child_simps]: "(\<And>x. f (C x) = Some x) \<Longrightarrow> last_of f (map C (opt_list y)) = y"
  by (cases y) auto

lemma all_of_append [child_simps]: "all_of f (xs @ ys) = all_of f xs @ all_of f ys"
  by (induction xs) (auto simp: all_of_def List.map_filter_simps split: option.splits)

lemma all_of_Cons [child_simps]: "all_of f (x # xs) = opt_list (f x) @ all_of f xs"
  by (auto simp: all_of_def List.map_filter_simps split: option.splits)

lemma all_of_Nil [child_simps]: "all_of f [] = []"
  by (simp add: all_of_def List.map_filter_simps)

lemma all_of_none: "(\<And>x. x \<in> set xs \<Longrightarrow> f x = None) \<Longrightarrow> all_of f xs = []"
  by (induction xs) (auto simp: child_simps)

lemma all_of_other [child_simps]: "(\<And>x. f (C x) = None) \<Longrightarrow> all_of f (map C xs) = []"
  by (rule all_of_none) auto

lemma all_of_same [child_simps]: "(\<And>x. f (C x) = Some x) \<Longrightarrow> all_of f (map C xs) = xs"
  by (induction xs) (auto simp: child_simps)

lemma none_of_append [child_simps]: "none_of ps (xs @ ys) = none_of ps xs @ none_of ps ys"
  by (simp add: none_of_def)

lemma none_of_Cons [child_simps]:
  "none_of ps (x # xs) = (if list_all (\<lambda>p. \<not> p x) ps then x # none_of ps xs else none_of ps xs)"
  by (simp add: none_of_def)

lemma none_of_Nil [child_simps]: "none_of ps [] = []"
  by (simp add: none_of_def)

lemma none_of_kind [child_simps]: "(\<And>x. list_ex (\<lambda>p. p (C x)) ps) \<Longrightarrow> none_of ps (map C xs) = []"
  by (induction xs) (auto simp: child_simps list_ex_iff list_all_iff)

text \<open>The remaining children are of none of the kinds.\<close>

definition others :: "('a \<Rightarrow> bool) list \<Rightarrow> 'a list \<Rightarrow> bool" where
  "others ps xs \<longleftrightarrow> list_all (\<lambda>x. list_all (\<lambda>p. \<not> p x) ps) xs"

lemma none_of_others [child_simps]: "others ps xs \<Longrightarrow> none_of ps xs = xs"
  by (induction xs) (auto simp: others_def none_of_def)

lemma others_member: "others ps xs \<Longrightarrow> p \<in> set ps \<Longrightarrow> x \<in> set xs \<Longrightarrow> \<not> p x"
  by (auto simp: others_def list_all_iff)

lemma last_of_others: "others ps xs \<Longrightarrow> is_kind f \<in> set ps \<Longrightarrow> last_of f xs = None"
  by (rule last_of_none) (auto simp: is_kind_def dest: others_member)

lemma all_of_others: "others ps xs \<Longrightarrow> is_kind f \<in> set ps \<Longrightarrow> all_of f xs = []"
  by (rule all_of_none) (auto simp: is_kind_def dest: others_member)

section \<open>Items that nest\<close>

definition item_ok :: "(nat \<Rightarrow> (cursor, io_error, 'a) prog) \<Rightarrow> (nat \<Rightarrow> 'a \<Rightarrow> nat)
    \<Rightarrow> (nat \<Rightarrow> 'a \<Rightarrow> (bytes, io_error, unit) prog) \<Rightarrow> nat \<Rightarrow> 'a \<Rightarrow> bytes \<Rightarrow> bool" where
  "item_ok demux sz mux n x bs \<longleftrightarrow> bs \<noteq> [] \<and> (\<forall>k \<ge> n. sz k x = length bs \<and> (\<forall>out. mux k x out = (Ok (), out @ bs))
     \<and> (\<forall>pre post. demux k (curs pre (bs @ post)) = (Ok x, curs (pre @ bs) post)))"

lemma item_ok_mono: "item_ok demux sz mux n x bs \<Longrightarrow> n \<le> m \<Longrightarrow> item_ok demux sz mux m x bs"
  by (simp add: item_ok_def)

lemma item_ok_SucI:
  assumes "bs \<noteq> []" "\<And>k. n \<le> k \<Longrightarrow> sz (Suc k) x = length bs"
    and "\<And>k out. n \<le> k \<Longrightarrow> mux (Suc k) x out = (Ok (), out @ bs)"
    and "\<And>k pre post. n \<le> k \<Longrightarrow> demux (Suc k) (curs pre (bs @ post)) = (Ok x, curs (pre @ bs) post)"
  shows "item_ok demux sz mux (Suc n) x bs"
  unfolding item_ok_def
proof (intro conjI allI impI)
  fix k assume "Suc n \<le> k"
  then obtain j where "k = Suc j" "n \<le> j" by (cases k) auto
  then show "sz k x = length bs" "\<And>out. mux k x out = (Ok (), out @ bs)"
    "\<And>pre post. demux k (curs pre (bs @ post)) = (Ok x, curs (pre @ bs) post)"
    using assms by simp_all
qed (rule assms(1))

locale nested_level =
  fixes demux :: "nat \<Rightarrow> (cursor, io_error, 'a) prog"
    and sz :: "nat \<Rightarrow> 'a \<Rightarrow> nat"
    and mux :: "nat \<Rightarrow> 'a \<Rightarrow> (bytes, io_error, unit) prog"
    and n :: nat
    and wf :: "'a \<Rightarrow> bool"
  assumes wf_item: "wf x \<Longrightarrow> \<exists>bs. item_ok demux sz mux n x bs"
begin

definition enc :: "'a \<Rightarrow> bytes" where
  "enc x = snd (mux n x [])"

lemma enc_item: "wf x \<Longrightarrow> item_ok demux sz mux n x (enc x)"
  using wf_item [of x] by (auto simp: enc_def item_ok_def)

lemma mux_enc: "wf x \<Longrightarrow> n \<le> k \<Longrightarrow> mux k x out = (Ok (), out @ enc x)"
  using enc_item [of x] by (simp add: item_ok_def)

lemma sz_enc: "wf x \<Longrightarrow> n \<le> k \<Longrightarrow> sz k x = length (enc x)"
  using enc_item [of x] by (simp add: item_ok_def)

lemma demux_enc: "wf x \<Longrightarrow> n \<le> k \<Longrightarrow> demux k (curs pre (enc x @ post)) = (Ok x, curs (pre @ enc x) post)"
  using enc_item [of x] by (simp add: item_ok_def)

lemma enc_nonempty: "wf x \<Longrightarrow> enc x \<noteq> []"
  using enc_item [of x] by (simp add: item_ok_def)

definition encs :: "'a list \<Rightarrow> bytes" where
  "encs xs = concat (map enc xs)"

lemma encs_simps:
  "encs [] = []" "encs (x # xs) = enc x @ encs xs" "encs (xs @ ys) = encs xs @ encs ys"
  by (simp_all add: encs_def)

lemma for_encs: "list_all wf xs \<Longrightarrow> n \<le> k \<Longrightarrow> for_m xs (mux k) out = (Ok (), out @ encs xs)"
  unfolding encs_def by (rule for_m_write) (auto simp: mux_enc list_all_iff)

lemma sum_encs: "list_all wf xs \<Longrightarrow> n \<le> k \<Longrightarrow> sum_list (map (sz k) xs) = length (encs xs)"
  by (induction xs) (auto simp: encs_simps sz_enc)

text \<open>The loop over the children, and the loop over a counted number of them.\<close>

lemma read_encs:
  assumes "list_all wf xs" "n \<le> k"
  shows "read_while 0 (demux k) (curs pre (encs xs)) = (Ok xs, curs (pre @ encs xs) [])"
  unfolding encs_def
  by (rule read_while_codec) (use assms in \<open>auto simp: demux_enc enc_nonempty list_all_iff\<close>)

lemma repeat_encs:
  assumes "list_all wf xs" "n \<le> k"
  shows "repeat_m (length xs) (demux k) (curs pre (encs xs)) = (Ok xs, curs (pre @ encs xs) [])"
  unfolding encs_def
  by (rule repeat_m_codec(2)) (use assms in \<open>auto simp: demux_enc list_all_iff\<close>)

text \<open>Children of one kind, written by the operations of that kind.\<close>

lemma for_kind:
  assumes "list_all wf (map C xs)" "n \<le> k" "\<And>x. m x = mux k (C x)"
  shows "for_m xs m out = (Ok (), out @ encs (map C xs))"
  using assms by (induction xs arbitrary: out) (auto simp: encs_simps run_simps mux_enc)

lemma sum_kind:
  assumes "list_all wf (map C xs)" "n \<le> k" "\<And>x. s x = sz k (C x)"
  shows "sum_list (map s xs) = length (encs (map C xs))"
  using assms by (induction xs) (auto simp: encs_simps sz_enc)

lemma opt_kind:
  assumes "list_all wf (map C (opt_list x))" "n \<le> k"
  shows "(\<And>x. m x = mux k (C x)) \<Longrightarrow> write_opt m x out = (Ok (), out @ encs (map C (opt_list x)))"
    "(\<And>x. s x = sz k (C x)) \<Longrightarrow> case_option 0 s x = length (encs (map C (opt_list x)))"
  using assms by (cases x; simp add: write_opt_def run_simps encs_simps mux_enc sz_enc)+

end

end
