(* ===== verification/Mp4_Esds.thy ===== *)
theory Mp4_Esds
  imports Mp4_Nested
begin

text \<open>
  The elementary stream descriptors of the \<^verbatim>\<open>esds\<close> box (\<^verbatim>\<open>crates/mp4/src/boxes/types/esds\<close>): descriptor headers
  with their variable-length sizes, the trait \<^verbatim>\<open>DescriptorType\<close>, the four descriptors the code knows, and the box. The
  writer puts the least significant group of a size first and the reader takes the most significant one first:
  descriptors of fewer than 128 bytes are read back, larger ones are not.
\<close>

section \<open>Headers\<close>

datatype DescriptorTag = ESDescrTag | DecoderConfigDescrTag | DecSpecificInfoTag | SLConfigDescrTag | UnknownDescrTag u8

definition descriptor_tag_from :: "u8 \<Rightarrow> DescriptorTag" where
  "descriptor_tag_from tag =
     (if tag = 0x03 then ESDescrTag else if tag = 0x04 then DecoderConfigDescrTag
      else if tag = 0x05 then DecSpecificInfoTag else if tag = 0x06 then SLConfigDescrTag
      else UnknownDescrTag tag)"

fun descriptor_tag_into :: "DescriptorTag \<Rightarrow> u8" where
  "descriptor_tag_into ESDescrTag = 0x03"
| "descriptor_tag_into DecoderConfigDescrTag = 0x04"
| "descriptor_tag_into DecSpecificInfoTag = 0x05"
| "descriptor_tag_into SLConfigDescrTag = 0x06"
| "descriptor_tag_into (UnknownDescrTag tag) = tag"

record DescriptorHeader =
  dh_tag :: DescriptorTag

definition descriptor_header_new :: "DescriptorTag \<Rightarrow> DescriptorHeader" where
  "descriptor_header_new tag = \<lparr>dh_tag = tag\<rparr>"

text \<open>The loop of \<^verbatim>\<open>parse\<close> over the groups of a size; it reads a byte per round.\<close>

fun desc_size_loop :: "nat \<Rightarrow> u32 \<Rightarrow> (cursor, io_error, u32) prog" where
  "desc_size_loop 0 n = out_of_fuel"
| "desc_size_loop (Suc fuel) n = bindE read_u8 (\<lambda>byte.
     let n = push_bit 7 n OR ucast (byte AND 0x7F) in
     if byte AND 0x80 = 0 then ret n else desc_size_loop fuel n)"

definition read_desc_size :: "(cursor, io_error, u32) prog" where
  "read_desc_size c = desc_size_loop (cur_remaining c + 1) 0 c"

definition descriptor_header_parse :: "(cursor, io_error, DescriptorHeader \<times> bytes) prog" where
  "descriptor_header_parse =
     bindE read_u8 (\<lambda>tag.
     bindE read_desc_size (\<lambda>n.
     bindE (extract_bytes (unat n)) (\<lambda>data.
     ret (\<lparr>dh_tag = descriptor_tag_from tag\<rparr>, data))))"

section \<open>The trait\<close>

record 'd descriptor_type =
  dt_tag :: DescriptorTag
  dt_demux :: "DescriptorHeader \<Rightarrow> bytes \<Rightarrow> 'd io_result"
  dt_primitive_size :: "'d \<Rightarrow> nat"
  dt_primitive_mux :: "'d \<Rightarrow> (bytes, io_error, unit) prog"

lemma unat_drop_bit_7: "unat (drop_bit 7 (n :: u32)) = unat n div 128"
proof -
  have "unat n < 2 ^ LENGTH(32)" by (rule unsigned_less)
  then show ?thesis unfolding unsigned_drop_bit_eq by (simp add: drop_bit_eq_div take_bit_nat_eq_self)
qed

lemma drop_bit_7_less:
  assumes "drop_bit 7 (n :: u32) \<noteq> 0"
  shows "unat (drop_bit 7 n) < unat n"
proof -
  have "unat (drop_bit 7 n) \<noteq> 0" using assms by (subst unsigned_eq_0_iff)
  then have "0 < unat n" unfolding unat_drop_bit_7 by (cases "unat n") auto
  then show ?thesis unfolding unat_drop_bit_7 by (rule div_less_dividend [rotated]) simp
qed

function size_bytes_required :: "u32 \<Rightarrow> nat" where
  "size_bytes_required n = (let n = drop_bit 7 n in if n = 0 then 1 else Suc (size_bytes_required n))"
  by pat_completeness auto
termination by (relation "measure unat") (auto intro: drop_bit_7_less)

function write_desc_size :: "u32 \<Rightarrow> (bytes, io_error, unit) prog" where
  "write_desc_size n =
     (let byte = ucast (n AND 0x7F); n = drop_bit 7 n in
      if n = 0 then write_u8 byte
      else bindE (write_u8 (byte OR 0x80)) (\<lambda>_. write_desc_size n))"
  by pat_completeness auto
termination by (relation "measure unat") (auto intro: drop_bit_7_less)

declare size_bytes_required.simps [simp del] write_desc_size.simps [simp del]

definition desc_size :: "'d descriptor_type \<Rightarrow> 'd \<Rightarrow> nat" where
  "desc_size dt d =
     (let primitive_size = dt_primitive_size dt d
      in primitive_size + 1 + size_bytes_required (word_of_nat primitive_size))"

definition desc_mux :: "'d descriptor_type \<Rightarrow> 'd \<Rightarrow> (bytes, io_error, unit) prog" where
  "desc_mux dt d =
     bindE (write_u8 (descriptor_tag_into (dt_tag dt))) (\<lambda>_.
     bindE (write_desc_size (word_of_nat (dt_primitive_size dt d))) (\<lambda>_.
     dt_primitive_mux dt d))"

section \<open>The descriptors\<close>

record DecoderSpecificInfoDescriptor =
  dsi_header :: DescriptorHeader
  dsi_data :: bytes

definition dsi_type :: "DecoderSpecificInfoDescriptor descriptor_type" where
  "dsi_type = \<lparr>dt_tag = DecSpecificInfoTag,
     dt_demux = (\<lambda>header data. Ok \<lparr>dsi_header = header, dsi_data = data\<rparr>),
     dt_primitive_size = (\<lambda>d. length (dsi_data d)),
     dt_primitive_mux = (\<lambda>d. write_all (dsi_data d))\<rparr>"

record SLConfigDescriptor =
  slc_header :: DescriptorHeader
  slc_predefined :: u8
  slc_data :: bytes

definition slc_demux :: "DescriptorHeader \<Rightarrow> bytes \<Rightarrow> SLConfigDescriptor io_result" where
  "slc_demux header data =
     (case data of [] \<Rightarrow> Err InvalidData
      | predefined # rest \<Rightarrow> Ok \<lparr>slc_header = header, slc_predefined = predefined, slc_data = rest\<rparr>)"

definition slc_type :: "SLConfigDescriptor descriptor_type" where
  "slc_type = \<lparr>dt_tag = SLConfigDescrTag, dt_demux = slc_demux,
     dt_primitive_size = (\<lambda>d. 1 + length (slc_data d)),
     dt_primitive_mux = (\<lambda>d. bindE (write_u8 (slc_predefined d)) (\<lambda>_. write_all (slc_data d)))\<rparr>"

datatype 'd DecoderConfigDescriptor = DecoderConfigDescriptor
  (dcd_header: DescriptorHeader)
  (dcd_object_type_indication: u8)
  (dcd_stream_type: u8)
  (dcd_up_stream: bool)
  (dcd_reserved: u8)
  (dcd_buffer_size_db: u32)
  (dcd_max_bitrate: u32)
  (dcd_avg_bitrate: u32)
  (dcd_decoder_specific_info: "DecoderSpecificInfoDescriptor option")
  (dcd_unknown: "'d list")

datatype 'd EsDescriptor = EsDescriptor
  (esd_header: DescriptorHeader)
  (esd_es_id: u16)
  (esd_stream_priority: u8)
  (esd_depends_on_es_id: "u16 option")
  (esd_url: "bytes option")
  (esd_ocr_es_id: "u16 option")
  (esd_decoder_config: "'d DecoderConfigDescriptor option")
  (esd_sl_config: "SLConfigDescriptor option")
  (esd_unknown: "'d list")

datatype DynDescriptor =
    EsD "DynDescriptor EsDescriptor"
  | DecoderConfigD "DynDescriptor DecoderConfigDescriptor"
  | DecoderSpecificInfoD DecoderSpecificInfoDescriptor
  | SLConfigD SLConfigDescriptor
  | UnknownD DescriptorHeader bytes

definition decoder_config_new :: "u8 \<Rightarrow> u8 \<Rightarrow> u32 \<Rightarrow> u32 \<Rightarrow> DecoderSpecificInfoDescriptor option
    \<Rightarrow> 'd DecoderConfigDescriptor" where
  "decoder_config_new object_type_indication stream_type max_bitrate avg_bitrate decoder_specific_info =
     DecoderConfigDescriptor (descriptor_header_new DecoderConfigDescrTag) object_type_indication stream_type
       False 1 0 max_bitrate avg_bitrate decoder_specific_info []"

definition es_new :: "u16 \<Rightarrow> u8 \<Rightarrow> u16 option \<Rightarrow> bytes option \<Rightarrow> u16 option
    \<Rightarrow> 'd DecoderConfigDescriptor option \<Rightarrow> SLConfigDescriptor option \<Rightarrow> 'd EsDescriptor" where
  "es_new es_id stream_priority depends_on_es_id url ocr_es_id decoder_config sl_config =
     EsDescriptor (descriptor_header_new ESDescrTag) es_id stream_priority depends_on_es_id url ocr_es_id
       decoder_config sl_config []"

fun as_es :: "DynDescriptor \<Rightarrow> DynDescriptor EsDescriptor option" where
  "as_es (EsD d) = Some d" | "as_es _ = None"

fun as_decoder_config :: "DynDescriptor \<Rightarrow> DynDescriptor DecoderConfigDescriptor option" where
  "as_decoder_config (DecoderConfigD d) = Some d" | "as_decoder_config _ = None"

fun as_dsi :: "DynDescriptor \<Rightarrow> DecoderSpecificInfoDescriptor option" where
  "as_dsi (DecoderSpecificInfoD d) = Some d" | "as_dsi _ = None"

fun as_slc :: "DynDescriptor \<Rightarrow> SLConfigDescriptor option" where
  "as_slc (SLConfigD d) = Some d" | "as_slc _ = None"

text \<open>The operations on \<^verbatim>\<open>DynDescriptor\<close> that the descriptors with children call.\<close>

record desc_ops =
  dd_demux :: "(cursor, io_error, DynDescriptor) prog"
  dd_size :: "DynDescriptor \<Rightarrow> nat"
  dd_mux :: "DynDescriptor \<Rightarrow> (bytes, io_error, unit) prog"

definition dcd_demux :: "desc_ops \<Rightarrow> DescriptorHeader \<Rightarrow> bytes \<Rightarrow> DynDescriptor DecoderConfigDescriptor io_result" where
  "dcd_demux ops header = with_reader (
     bindE read_u8 (\<lambda>object_type_indication.
     bindE read_u8 (\<lambda>byte.
     bindE read_u24 (\<lambda>buffer_size_db.
     bindE read_u32 (\<lambda>max_bitrate.
     bindE read_u32 (\<lambda>avg_bitrate.
     bindE (read_while 0 (dd_demux ops)) (\<lambda>ds.
     ret (DecoderConfigDescriptor header object_type_indication (drop_bit 2 byte) (byte AND 2 \<noteq> 0) (byte AND 1)
       buffer_size_db max_bitrate avg_bitrate (last_of as_dsi ds) (none_of [is_kind as_dsi] ds)))))))))"

definition dcd_primitive_size :: "desc_ops \<Rightarrow> DynDescriptor DecoderConfigDescriptor \<Rightarrow> nat" where
  "dcd_primitive_size ops d = 1 + 1 + 3 + 4 + 4
     + case_option 0 (desc_size dsi_type) (dcd_decoder_specific_info d)
     + sum_list (map (dd_size ops) (dcd_unknown d))"

definition dcd_primitive_mux :: "desc_ops \<Rightarrow> DynDescriptor DecoderConfigDescriptor \<Rightarrow> (bytes, io_error, unit) prog" where
  "dcd_primitive_mux ops d =
     bindE (write_u8 (dcd_object_type_indication d)) (\<lambda>_.
     bindE (write_u8 (push_bit 2 (dcd_stream_type d) OR push_bit 1 (of_bool (dcd_up_stream d)) OR dcd_reserved d)) (\<lambda>_.
     bindE (write_u24 (dcd_buffer_size_db d)) (\<lambda>_.
     bindE (write_u32 (dcd_max_bitrate d)) (\<lambda>_.
     bindE (write_u32 (dcd_avg_bitrate d)) (\<lambda>_.
     bindE (write_opt (desc_mux dsi_type) (dcd_decoder_specific_info d)) (\<lambda>_.
     for_m (dcd_unknown d) (dd_mux ops)))))))"

definition dcd_type :: "desc_ops \<Rightarrow> DynDescriptor DecoderConfigDescriptor descriptor_type" where
  "dcd_type ops = \<lparr>dt_tag = DecoderConfigDescrTag, dt_demux = dcd_demux ops,
     dt_primitive_size = dcd_primitive_size ops, dt_primitive_mux = dcd_primitive_mux ops\<rparr>"

text \<open>\<^verbatim>\<open>c as u8\<close> for every character of a UTF-8 string: the low byte of each code point.\<close>

fun chars_as_u8 :: "bytes \<Rightarrow> bytes" where
  "chars_as_u8 (c # d # e # f # s) =
     (if c < 0x80 then c # chars_as_u8 (d # e # f # s)
      else if c < 0xE0 then (push_bit 6 c OR (d AND 0x3F)) # chars_as_u8 (e # f # s)
      else if c < 0xF0 then (push_bit 6 d OR (e AND 0x3F)) # chars_as_u8 (f # s)
      else (push_bit 6 e OR (f AND 0x3F)) # chars_as_u8 s)"
| "chars_as_u8 [c, d, e] =
     (if c < 0x80 then c # chars_as_u8 [d, e]
      else if c < 0xE0 then (push_bit 6 c OR (d AND 0x3F)) # chars_as_u8 [e]
      else [push_bit 6 d OR (e AND 0x3F)])"
| "chars_as_u8 [c, d] = (if c < 0x80 then c # chars_as_u8 [d] else [push_bit 6 c OR (d AND 0x3F)])"
| "chars_as_u8 [c] = [c]"
| "chars_as_u8 [] = []"

definition read_latin1 :: "nat \<Rightarrow> (cursor, io_error, bytes) prog" where
  "read_latin1 n = bindE (repeat_m n read_u8) (\<lambda>cs. ret (concat (map char_utf8 cs)))"

definition esd_demux :: "desc_ops \<Rightarrow> DescriptorHeader \<Rightarrow> bytes \<Rightarrow> DynDescriptor EsDescriptor io_result" where
  "esd_demux ops header = with_reader (
     bindE read_u16 (\<lambda>es_id.
     bindE read_u8 (\<lambda>flag.
     bindE (read_if (flag AND 0x80 \<noteq> 0) read_u16) (\<lambda>depends_on_es_id.
     bindE (read_if (flag AND 0x40 \<noteq> 0) (bindE read_u8 (\<lambda>n. read_latin1 (unat n)))) (\<lambda>url.
     bindE (read_if (flag AND 0x20 \<noteq> 0) read_u16) (\<lambda>ocr_es_id.
     bindE (read_while 0 (dd_demux ops)) (\<lambda>ds.
     ret (EsDescriptor header es_id (flag AND 0x1F) depends_on_es_id url ocr_es_id
       (last_of as_decoder_config ds) (last_of as_slc ds)
       (none_of [is_kind as_decoder_config, is_kind as_slc] ds)))))))))"

definition esd_primitive_size :: "desc_ops \<Rightarrow> DynDescriptor EsDescriptor \<Rightarrow> nat" where
  "esd_primitive_size ops d = 2 + 1
     + (if esd_depends_on_es_id d \<noteq> None then 2 else 0)
     + (case esd_url d of Some url \<Rightarrow> 1 + length url | None \<Rightarrow> 0)
     + (if esd_ocr_es_id d \<noteq> None then 2 else 0)
     + case_option 0 (desc_size (dcd_type ops)) (esd_decoder_config d)
     + case_option 0 (desc_size slc_type) (esd_sl_config d)
     + sum_list (map (dd_size ops) (esd_unknown d))"

definition esd_primitive_mux :: "desc_ops \<Rightarrow> DynDescriptor EsDescriptor \<Rightarrow> (bytes, io_error, unit) prog" where
  "esd_primitive_mux ops d =
     bindE (write_u16 (esd_es_id d)) (\<lambda>_.
     bindE (write_u8 ((esd_stream_priority d AND 0x1F)
              OR (if esd_depends_on_es_id d \<noteq> None then 0x80 else 0)
              OR (if esd_url d \<noteq> None then 0x40 else 0)
              OR (if esd_ocr_es_id d \<noteq> None then 0x20 else 0))) (\<lambda>_.
     bindE (write_opt write_u16 (esd_depends_on_es_id d)) (\<lambda>_.
     bindE (write_opt (\<lambda>url. bindE (write_u8 (word_of_nat (length url))) (\<lambda>_. write_all (chars_as_u8 url)))
              (esd_url d)) (\<lambda>_.
     bindE (write_opt write_u16 (esd_ocr_es_id d)) (\<lambda>_.
     bindE (write_opt (desc_mux (dcd_type ops)) (esd_decoder_config d)) (\<lambda>_.
     bindE (write_opt (desc_mux slc_type) (esd_sl_config d)) (\<lambda>_.
     for_m (esd_unknown d) (dd_mux ops))))))))"

definition esd_type :: "desc_ops \<Rightarrow> DynDescriptor EsDescriptor descriptor_type" where
  "esd_type ops = \<lparr>dt_tag = ESDescrTag, dt_demux = esd_demux ops,
     dt_primitive_size = esd_primitive_size ops, dt_primitive_mux = esd_primitive_mux ops\<rparr>"

section \<open>All descriptors\<close>

fun map_ok :: "('a \<Rightarrow> 'b) \<Rightarrow> ('e, 'a) result \<Rightarrow> ('e, 'b) result" where
  "map_ok f (Ok x) = Ok (f x)"
| "map_ok f (Err e) = Err e"
| "map_ok f Panic = Panic"
| "map_ok f OutOfFuel = OutOfFuel"

definition dyn_descriptor_demux :: "desc_ops \<Rightarrow> (cursor, io_error, DynDescriptor) prog" where
  "dyn_descriptor_demux ops =
     bindE descriptor_header_parse (\<lambda>(header, data).
     lift_result (case dh_tag header of
         ESDescrTag \<Rightarrow> map_ok EsD (dt_demux (esd_type ops) header data)
       | DecoderConfigDescrTag \<Rightarrow> map_ok DecoderConfigD (dt_demux (dcd_type ops) header data)
       | DecSpecificInfoTag \<Rightarrow> map_ok DecoderSpecificInfoD (dt_demux dsi_type header data)
       | SLConfigDescrTag \<Rightarrow> map_ok SLConfigD (dt_demux slc_type header data)
       | UnknownDescrTag _ \<Rightarrow> Ok (UnknownD header data)))"

fun dyn_descriptor_size :: "desc_ops \<Rightarrow> DynDescriptor \<Rightarrow> nat" where
  "dyn_descriptor_size ops (EsD d) = desc_size (esd_type ops) d"
| "dyn_descriptor_size ops (DecoderConfigD d) = desc_size (dcd_type ops) d"
| "dyn_descriptor_size ops (DecoderSpecificInfoD d) = desc_size dsi_type d"
| "dyn_descriptor_size ops (SLConfigD d) = desc_size slc_type d"
| "dyn_descriptor_size ops (UnknownD header data) =
     1 + size_bytes_required (word_of_nat (length data)) + length data"

fun dyn_descriptor_mux :: "desc_ops \<Rightarrow> DynDescriptor \<Rightarrow> (bytes, io_error, unit) prog" where
  "dyn_descriptor_mux ops (EsD d) = desc_mux (esd_type ops) d"
| "dyn_descriptor_mux ops (DecoderConfigD d) = desc_mux (dcd_type ops) d"
| "dyn_descriptor_mux ops (DecoderSpecificInfoD d) = desc_mux dsi_type d"
| "dyn_descriptor_mux ops (SLConfigD d) = desc_mux slc_type d"
| "dyn_descriptor_mux ops (UnknownD header data) =
     bindE (write_u8 (descriptor_tag_into (dh_tag header))) (\<lambda>_.
     bindE (write_desc_size (word_of_nat (length data))) (\<lambda>_.
     write_all data))"

text \<open>The knot: a unit of fuel per level of nesting.\<close>

fun desc_ops_at :: "nat \<Rightarrow> desc_ops" where
  "desc_ops_at 0 = \<lparr>dd_demux = out_of_fuel, dd_size = (\<lambda>_. 0), dd_mux = (\<lambda>_. out_of_fuel)\<rparr>"
| "desc_ops_at (Suc n) = \<lparr>dd_demux = dyn_descriptor_demux (desc_ops_at n),
     dd_size = dyn_descriptor_size (desc_ops_at n), dd_mux = dyn_descriptor_mux (desc_ops_at n)\<rparr>"


section \<open>The box\<close>

record Esds =
  esds_header :: full_box_header
  esds_es_descriptor :: "DynDescriptor EsDescriptor"
  esds_unknown :: "DynDescriptor list"

definition esds_new :: "DynDescriptor EsDescriptor \<Rightarrow> Esds" where
  "esds_new es_descriptor = \<lparr>esds_header = full_header_new (fourcc ''esds'') 0 0,
     esds_es_descriptor = es_descriptor, esds_unknown = []\<rparr>"

definition esds_demux :: "desc_ops \<Rightarrow> box_header \<Rightarrow> bytes \<Rightarrow> Esds io_result" where
  "esds_demux ops header = with_reader (
     bindE (full_header_demux header) (\<lambda>h.
     bindE (read_while 0 (dd_demux ops)) (\<lambda>ds.
     bindE (lift_result (required (last_of as_es ds))) (\<lambda>es_descriptor.
     ret \<lparr>esds_header = h, esds_es_descriptor = es_descriptor, esds_unknown = none_of [is_kind as_es] ds\<rparr>))))"

definition esds_primitive_size :: "desc_ops \<Rightarrow> Esds \<Rightarrow> nat" where
  "esds_primitive_size ops b = full_header_size (esds_header b) + desc_size (esd_type ops) (esds_es_descriptor b)"

definition esds_primitive_mux :: "desc_ops \<Rightarrow> Esds \<Rightarrow> (bytes, io_error, unit) prog" where
  "esds_primitive_mux ops b =
     bindE (full_header_mux (esds_header b)) (\<lambda>_. desc_mux (esd_type ops) (esds_es_descriptor b))"

definition esds_box :: "desc_ops \<Rightarrow> Esds box_type" where
  "esds_box ops = \<lparr>bt_name = fourcc ''esds'', bt_demux = esds_demux ops, bt_primitive_size = esds_primitive_size ops,
     bt_primitive_mux = esds_primitive_mux ops, bt_validate = no_validate\<rparr>"

section \<open>Small descriptors\<close>

definition descriptor_bytes :: "DescriptorTag \<Rightarrow> bytes \<Rightarrow> bytes" where
  "descriptor_bytes tag body = descriptor_tag_into tag # word_of_nat (length body) # body"

definition known_tag :: "DescriptorTag \<Rightarrow> bool" where
  "known_tag tag \<longleftrightarrow> descriptor_tag_from (descriptor_tag_into tag) = tag"

lemma small_size:
  assumes "k < 128"
  shows "size_bytes_required (word_of_nat k) = 1"
    "write_desc_size (word_of_nat k) out = (Ok (), out @ [word_of_nat k])"
proof -
  have drop: "drop_bit 7 (word_of_nat k :: u32) = 0"
    using assms by (simp add: word_unat_eq_iff unat_drop_bit_7 unat_of_nat)
  moreover have "ucast ((word_of_nat k :: u32) AND 0x7F) = (word_of_nat k :: u8)"
  proof -
    have "(word_of_nat k :: u32) < 2 ^ 7" using assms by (simp add: word_less_nat_alt unat_of_nat)
    from less_mask_eq [OF this] have "(word_of_nat k :: u32) AND 0x7F = word_of_nat k" by (simp add: mask_eq_exp_minus_1)
    then show ?thesis using assms by (simp add: word_unat_eq_iff unat_of_nat unat_ucast_small)
  qed
  ultimately show "size_bytes_required (word_of_nat k) = 1"
    "write_desc_size (word_of_nat k) out = (Ok (), out @ [word_of_nat k])"
    by (simp_all add: size_bytes_required.simps write_desc_size.simps run_simps Let_def)
qed

lemma small_byte: "k < 128 \<Longrightarrow> (word_of_nat k :: u8) AND 0x80 = 0"
  "k < 128 \<Longrightarrow> unat (ucast ((word_of_nat k :: u8) AND 0x7F) :: u32) = k"
proof -
  assume k: "k < 128"
  then have small: "(word_of_nat k :: u8) < 2 ^ 7" by (simp add: word_less_nat_alt unat_of_nat)
  from less_mask_eq [OF this] have "(word_of_nat k :: u8) AND 0x7F = word_of_nat k" by (simp add: mask_eq_exp_minus_1)
  then show "unat (ucast ((word_of_nat k :: u8) AND 0x7F) :: u32) = k"
    using k by (simp add: unat_of_nat unat_ucast_small)
  show "(word_of_nat k :: u8) AND 0x80 = 0"
    using bit_small [OF small, of 7] bit_iff_and_push_bit_not_eq_0 [of "word_of_nat k :: u8" 7] by auto
qed

lemma descriptor_header_parse_run:
  assumes "known_tag tag" "length body < 128"
  shows "descriptor_header_parse (curs pre (descriptor_bytes tag body @ post))
     = (Ok (\<lparr>dh_tag = tag\<rparr>, body), curs (pre @ descriptor_bytes tag body) post)"
proof -
  let ?n = "word_of_nat (length body) :: u8"
  have "read_desc_size (curs p (?n # r)) = (Ok (ucast (?n AND 0x7F)), curs (p @ [?n]) r)" for p r
    using small_byte(1) [OF assms(2)] by (simp add: read_desc_size_def run_simps Let_def)
  with small_byte(2) [OF assms(2)] assms(1) show ?thesis
    by (simp add: descriptor_header_parse_def descriptor_bytes_def run_simps known_tag_def)
qed

section \<open>What a descriptor promises\<close>

definition desc_ok :: "'d descriptor_type \<Rightarrow> 'd \<Rightarrow> bytes \<Rightarrow> bool" where
  "desc_ok dt d bs \<longleftrightarrow> (\<forall>out. dt_primitive_mux dt d out = (Ok (), out @ bs)) \<and> length bs = dt_primitive_size dt d
     \<and> length bs < 128 \<and> dt_demux dt \<lparr>dh_tag = dt_tag dt\<rparr> bs = Ok d"

lemma desc_ok_run:
  assumes "desc_ok dt d bs"
  shows "desc_mux dt d out = (Ok (), out @ descriptor_bytes (dt_tag dt) bs)"
    "desc_size dt d = length (descriptor_bytes (dt_tag dt) bs)"
  using assms
  by (auto simp: desc_ok_def desc_mux_def desc_size_def descriptor_bytes_def run_simps small_size Let_def)

text \<open>The operations on all descriptors with one more unit of fuel.\<close>

definition parse_descriptor :: "nat \<Rightarrow> DescriptorHeader \<Rightarrow> bytes \<Rightarrow> DynDescriptor io_result" where
  "parse_descriptor k header data = (case dh_tag header of
         ESDescrTag \<Rightarrow> map_ok EsD (dt_demux (esd_type (desc_ops_at k)) header data)
       | DecoderConfigDescrTag \<Rightarrow> map_ok DecoderConfigD (dt_demux (dcd_type (desc_ops_at k)) header data)
       | DecSpecificInfoTag \<Rightarrow> map_ok DecoderSpecificInfoD (dt_demux dsi_type header data)
       | SLConfigDescrTag \<Rightarrow> map_ok SLConfigD (dt_demux slc_type header data)
       | UnknownDescrTag _ \<Rightarrow> Ok (UnknownD header data))"

abbreviation descriptor_demux :: "nat \<Rightarrow> (cursor, io_error, DynDescriptor) prog" where
  "descriptor_demux k \<equiv> dd_demux (desc_ops_at k)"

abbreviation descriptor_size :: "nat \<Rightarrow> DynDescriptor \<Rightarrow> nat" where
  "descriptor_size k \<equiv> dd_size (desc_ops_at k)"

abbreviation descriptor_mux :: "nat \<Rightarrow> DynDescriptor \<Rightarrow> (bytes, io_error, unit) prog" where
  "descriptor_mux k \<equiv> dd_mux (desc_ops_at k)"

abbreviation descriptor_ok :: "nat \<Rightarrow> DynDescriptor \<Rightarrow> bytes \<Rightarrow> bool" where
  "descriptor_ok \<equiv> item_ok descriptor_demux descriptor_size descriptor_mux"

lemma descriptor_demux_Suc:
  "descriptor_demux (Suc k) = bindE descriptor_header_parse (\<lambda>(header, data). lift_result (parse_descriptor k header data))"
  by (simp add: dyn_descriptor_demux_def parse_descriptor_def)

text \<open>A descriptor behind its header is an item.\<close>

lemma descriptor_item:
  assumes ok: "\<And>k. n \<le> k \<Longrightarrow> desc_ok (dt k) d bs" and tag: "\<And>k. dt_tag (dt k) = tag" "known_tag tag"
    and ops: "\<And>k. descriptor_mux (Suc k) (C d) = desc_mux (dt k) d" "\<And>k. descriptor_size (Suc k) (C d) = desc_size (dt k) d"
    and parse: "\<And>k data. parse_descriptor k \<lparr>dh_tag = tag\<rparr> data = map_ok C (dt_demux (dt k) \<lparr>dh_tag = tag\<rparr> data)"
  shows "\<exists>bs. descriptor_ok (Suc n) (C d) bs"
proof -
  have "descriptor_ok (Suc n) (C d) (descriptor_bytes tag bs)"
  proof (rule item_ok_SucI)
    fix k assume k: "n \<le> k"
    show "descriptor_size (Suc k) (C d) = length (descriptor_bytes tag bs)"
      "descriptor_mux (Suc k) (C d) out = (Ok (), out @ descriptor_bytes tag bs)" for out
      unfolding ops using desc_ok_run [OF ok [OF k]] by (simp_all add: tag)
    from ok [OF k] have len: "length bs < 128" and dec: "dt_demux (dt k) \<lparr>dh_tag = tag\<rparr> bs = Ok d"
      by (simp_all add: desc_ok_def tag)
    with parse have "parse_descriptor k \<lparr>dh_tag = tag\<rparr> bs = Ok (C d)" by simp
    then show "descriptor_demux (Suc k) (curs pre (descriptor_bytes tag bs @ post))
        = (Ok (C d), curs (pre @ descriptor_bytes tag bs) post)" for pre post
      unfolding descriptor_demux_Suc by (simp add: descriptor_header_parse_run [OF tag(2) len] run_simps)
  qed (simp add: descriptor_bytes_def)
  then show ?thesis by blast
qed

locale descriptor_codec =
  fixes dt :: "'d descriptor_type" and wf :: "'d \<Rightarrow> bool"
  assumes known: "known_tag (dt_tag dt)" and wf_ok: "wf d \<Longrightarrow> \<exists>bs. desc_ok dt d bs"
begin

lemma item:
  assumes "wf d" and ops: "\<And>k. descriptor_mux (Suc k) (C d) = desc_mux dt d" "\<And>k. descriptor_size (Suc k) (C d) = desc_size dt d"
    and parse: "\<And>k data. parse_descriptor k \<lparr>dh_tag = dt_tag dt\<rparr> data = map_ok C (dt_demux dt \<lparr>dh_tag = dt_tag dt\<rparr> data)"
  shows "\<exists>bs. descriptor_ok (Suc n) (C d) bs"
proof -
  obtain bs where "desc_ok dt d bs" using wf_ok [OF assms(1)] by blast
  then show ?thesis by (rule descriptor_item [where dt = "\<lambda>_. dt", OF _ refl known ops parse])
qed

end

definition dsi_wf :: "DecoderSpecificInfoDescriptor \<Rightarrow> bool" where
  "dsi_wf d \<longleftrightarrow> dsi_header d = \<lparr>dh_tag = DecSpecificInfoTag\<rparr> \<and> length (dsi_data d) < 128"

interpretation dsi: descriptor_codec dsi_type dsi_wf
proof
  fix d assume "dsi_wf d"
  then show "\<exists>bs. desc_ok dsi_type d bs"
    by (cases d) (auto simp: desc_ok_def dsi_type_def dsi_wf_def run_simps)
qed (simp add: dsi_type_def known_tag_def descriptor_tag_from_def)

definition slc_wf :: "SLConfigDescriptor \<Rightarrow> bool" where
  "slc_wf d \<longleftrightarrow> slc_header d = \<lparr>dh_tag = SLConfigDescrTag\<rparr> \<and> length (slc_data d) < 127"

interpretation slc: descriptor_codec slc_type slc_wf
proof
  fix d assume "slc_wf d"
  then show "\<exists>bs. desc_ok slc_type d bs"
    by (cases d) (auto simp: desc_ok_def slc_type_def slc_demux_def slc_wf_def run_simps
        intro!: exI [of _ "slc_predefined d # slc_data d"])
qed (simp add: slc_type_def known_tag_def descriptor_tag_from_def)

section \<open>Descriptors with children\<close>

lemma byte_flags:
  "(w AND 0x80 \<noteq> 0) = bit (w :: u8) 7" "(w AND 0x40 \<noteq> 0) = bit (w :: u8) 6" "(w AND 0x20 \<noteq> 0) = bit (w :: u8) 5"
  "(w AND 2 \<noteq> 0) = bit (w :: u8) 1"
  by (simp_all add: bit_iff_and_push_bit_not_eq_0)

lemma mask_id: "w < 32 \<Longrightarrow> w AND 0x1F = (w :: u8)" "w < 2 \<Longrightarrow> w AND 1 = (w :: u8)"
  using less_mask_eq [of w 5] less_mask_eq [of w 1] by (simp_all add: mask_eq_exp_minus_1)

lemma esd_flags:
  assumes "p < 32"
  shows "bit ((p AND 0x1F) OR (if a then 0x80 else 0) OR (if b then 0x40 else 0) OR (if c then 0x20 else 0) :: u8) 7 = a"
   "bit ((p AND 0x1F) OR (if a then 0x80 else 0) OR (if b then 0x40 else 0) OR (if c then 0x20 else 0) :: u8) 6 = b"
   "bit ((p AND 0x1F) OR (if a then 0x80 else 0) OR (if b then 0x40 else 0) OR (if c then 0x20 else 0) :: u8) 5 = c"
   "((p AND 0x1F) OR (if a then 0x80 else 0) OR (if b then 0x40 else 0) OR (if c then 0x20 else 0) :: u8) AND 0x1F = p"
  using bit_small [of p 5 7] bit_small [of p 5 6] bit_small [of p 5 5] assms by (auto simp: bit_simps bit.conj_disj_distrib2 mask_id(1) [OF assms])

lemma dcd_byte:
  assumes "s < 64" "r < (2 :: u8)"
  shows "drop_bit 2 (push_bit 2 s OR push_bit 1 (of_bool u) OR r) = (s :: u8)"
    "bit (push_bit 2 s OR push_bit 1 (of_bool u) OR r) 1 = u"
    "(push_bit 2 s OR push_bit 1 (of_bool u) OR r) AND 1 = r"
proof -
  have s: "bit s i \<Longrightarrow> i < 6" and r: "bit r i \<Longrightarrow> i < 1" for i 
    using bit_small [of s 6] bit_small [of r 1] assms by auto
  show  "drop_bit 2 (push_bit 2 s OR push_bit 1 (of_bool u) OR r) = (s :: u8)"
    by (rule bit_word_eqI) (auto simp: bit_simps dest: s r)
  show "bit (push_bit 2 s OR push_bit 1 (of_bool u) OR r) 1 = u"
    by (auto simp: bit_simps dest: s r)
  show "(push_bit 2 s OR push_bit 1 (of_bool u) OR r) AND 1 = r"
    by (rule bit_word_eqI) (auto simp: bit_simps dest: s r)
qed

definition dcd_children :: "DynDescriptor DecoderConfigDescriptor \<Rightarrow> DynDescriptor list" where
  "dcd_children d = map DecoderSpecificInfoD (opt_list (dcd_decoder_specific_info d)) @ dcd_unknown d"

definition dcd_fields_ok :: "'d DecoderConfigDescriptor \<Rightarrow> bool" where
  "dcd_fields_ok d \<longleftrightarrow> dcd_header d = \<lparr>dh_tag = DecoderConfigDescrTag\<rparr> \<and> dcd_stream_type d < 64
     \<and> dcd_reserved d < 2 \<and> dcd_buffer_size_db d < 0x1000000"

definition esd_children :: "DynDescriptor EsDescriptor \<Rightarrow> DynDescriptor list" where
  "esd_children d = map DecoderConfigD (opt_list (esd_decoder_config d))
     @ map SLConfigD (opt_list (esd_sl_config d)) @ esd_unknown d"

definition esd_fields_ok :: "'d EsDescriptor \<Rightarrow> bool" where
  "esd_fields_ok d \<longleftrightarrow> esd_header d = \<lparr>dh_tag = ESDescrTag\<rparr> \<and> esd_stream_priority d < 32
     \<and> case_option True (\<lambda>url. list_all (\<lambda>c. c < 0x80) url \<and> length url < 256) (esd_url d)"

text \<open>Well-formed descriptors of at most the given depth.\<close>

fun desc_wf :: "nat \<Rightarrow> DynDescriptor \<Rightarrow> bool" where
  "desc_wf 0 d = False"
| "desc_wf (Suc n) (EsD d) \<longleftrightarrow> esd_fields_ok d \<and> list_all (desc_wf n) (esd_children d)
     \<and> others [is_kind as_decoder_config, is_kind as_slc] (esd_unknown d)
     \<and> esd_primitive_size (desc_ops_at n) d < 128"
| "desc_wf (Suc n) (DecoderConfigD d) \<longleftrightarrow> dcd_fields_ok d \<and> list_all (desc_wf n) (dcd_children d)
     \<and> others [is_kind as_dsi] (dcd_unknown d) \<and> dcd_primitive_size (desc_ops_at n) d < 128"
| "desc_wf (Suc n) (DecoderSpecificInfoD d) \<longleftrightarrow> dsi_wf d"
| "desc_wf (Suc n) (SLConfigD d) \<longleftrightarrow> slc_wf d"
| "desc_wf (Suc n) (UnknownD h data) \<longleftrightarrow> length data < 128
     \<and> (\<exists>t. h = \<lparr>dh_tag = UnknownDescrTag t\<rparr> \<and> known_tag (UnknownDescrTag t))"

text \<open>An ASCII URL is written byte by byte.\<close>

lemma chars_as_u8_ascii: "list_all (\<lambda>c. c < 0x80) s \<Longrightarrow> chars_as_u8 s = s"
  by (induction s rule: chars_as_u8.induct) auto

lemma char_utf8_ascii: "list_all (\<lambda>c. c < 0x80) s \<Longrightarrow> concat (map char_utf8 s) = s"
  by (induction s) (auto simp: char_utf8_def)

definition url_bytes :: "bytes \<Rightarrow> bytes" where
  "url_bytes url = word_of_nat (length url) # url"

lemma url_run:
  assumes "case_option True (\<lambda>url. list_all (\<lambda>c. c < 0x80) url \<and> length url < 256) u"
  shows "write_opt (\<lambda>url. bindE (write_u8 (word_of_nat (length url))) (\<lambda>_. write_all (chars_as_u8 url))) u out
     = (Ok (), out @ opt_bytes url_bytes u)"
    "read_if (u \<noteq> None) (bindE read_u8 (\<lambda>n. read_latin1 (unat n))) (curs pre (opt_bytes url_bytes u @ post))
     = (Ok u, curs (pre @ opt_bytes url_bytes u) post)"
    "length (opt_bytes url_bytes u) = (case u of Some url \<Rightarrow> 1 + length url | None \<Rightarrow> 0)"
proof -
  have latin1: "read_latin1 (length s) (curs p (s @ r)) = (Ok s, curs (p @ s) r)" if "list_all (\<lambda>c. c < 0x80) s" for s p r
    using u8c.dec_repeat [of s p r] that by (simp add: read_latin1_def run_simps char_utf8_ascii concat_map_singleton)
  show "write_opt (\<lambda>url. bindE (write_u8 (word_of_nat (length url))) (\<lambda>_. write_all (chars_as_u8 url))) u out
     = (Ok (), out @ opt_bytes url_bytes u)"
    "length (opt_bytes url_bytes u) = (case u of Some url \<Rightarrow> 1 + length url | None \<Rightarrow> 0)"
    using assms by (cases u; simp add: write_opt_def opt_bytes_def url_bytes_def run_simps chars_as_u8_ascii)+
  show "read_if (u \<noteq> None) (bindE read_u8 (\<lambda>n. read_latin1 (unat n))) (curs pre (opt_bytes url_bytes u @ post))
     = (Ok u, curs (pre @ opt_bytes url_bytes u) post)"
    by (rule read_if_run(1)) (use assms in \<open>auto simp: url_bytes_def run_simps latin1 unat_of_nat\<close>)
qed

lemma u16_opt_run:
  "write_opt write_u16 x out = (Ok (), out @ opt_bytes be16 x)"
  "read_if (x \<noteq> None) read_u16 (curs pre (opt_bytes be16 x @ post)) = (Ok x, curs (pre @ opt_bytes be16 x) post)"
  "length (opt_bytes be16 x) = (if x \<noteq> None then 2 else 0)"
  by (rule write_opt_run read_if_run(1); simp add: run_simps)+ (simp add: length_opt_bytes)

locale descriptor_level = nested_level descriptor_demux descriptor_size descriptor_mux n "desc_wf n"
  for n :: nat
begin

lemma dcd_ok:
  assumes wf: "desc_wf (Suc n) (DecoderConfigD d)" and k: "n \<le> k"
  shows "desc_ok (dcd_type (desc_ops_at k)) d ([dcd_object_type_indication d,
     push_bit 2 (dcd_stream_type d) OR push_bit 1 (of_bool (dcd_up_stream d)) OR dcd_reserved d]
     @ be24 (dcd_buffer_size_db d) @ be32 (dcd_max_bitrate d) @ be32 (dcd_avg_bitrate d) @ encs (dcd_children d))"
    (is "desc_ok _ _ ?bs")
proof -
  have fields: "dcd_fields_ok d" and children: "list_all (desc_wf n) (dcd_children d)"
    and others: "others [is_kind as_dsi] (dcd_unknown d)" using wf by simp_all
  have info: "list_all (desc_wf n) (map DecoderSpecificInfoD (opt_list (dcd_decoder_specific_info d)))"
    and unknown: "list_all (desc_wf n) (dcd_unknown d)" using children by (simp_all add: dcd_children_def)
  have Suc: "n \<le> Suc k" using k by simp
  note info_run = opt_kind [OF info Suc]
  have mux: "dcd_primitive_mux (desc_ops_at k) d out = (Ok (), out @ ?bs)" for out
    using fields by (simp add: dcd_primitive_mux_def run_simps info_run(1) for_encs [OF unknown k] dcd_children_def
        encs_simps dcd_fields_ok_def)
  have sz: "length ?bs = dcd_primitive_size (desc_ops_at k) d" if "n \<le> k" for k
    using opt_kind(2) [OF info, of "Suc k" "desc_size dsi_type"] sum_encs [OF unknown that] that
    by (simp add: dcd_primitive_size_def dcd_children_def encs_simps)
  have none: "last_of as_dsi (dcd_unknown d) = None"
    by (rule last_of_others [OF others]) simp
  have sorted: "last_of as_dsi (dcd_children d) = dcd_decoder_specific_info d"
    "none_of [is_kind as_dsi] (dcd_children d) = dcd_unknown d"
    by (simp_all add: dcd_children_def child_simps none others split: option.splits)
  have "dcd_demux (desc_ops_at k) \<lparr>dh_tag = DecoderConfigDescrTag\<rparr> ?bs = Ok d"
    using fields dcd_byte [of "dcd_stream_type d" "dcd_reserved d" "dcd_up_stream d"]
    by (simp add: dcd_demux_def with_reader_def cursor_new_curs run_simps read_encs [OF children k] take_bit_24_id
        dcd_fields_ok_def byte_flags sorted) (cases d; simp)
  with mux sz [OF k] sz [OF order_refl] wf show ?thesis by (simp add: desc_ok_def dcd_type_def)
qed

lemma esd_ok:
  assumes wf: "desc_wf (Suc n) (EsD d)" and k: "n \<le> k"
  shows "desc_ok (esd_type (desc_ops_at k)) d (be16 (esd_es_id d) @ [(esd_stream_priority d AND 0x1F)
              OR (if esd_depends_on_es_id d \<noteq> None then 0x80 else 0)
              OR (if esd_url d \<noteq> None then 0x40 else 0)
              OR (if esd_ocr_es_id d \<noteq> None then 0x20 else 0)]
     @ opt_bytes be16 (esd_depends_on_es_id d) @ opt_bytes url_bytes (esd_url d) @ opt_bytes be16 (esd_ocr_es_id d)
     @ encs (esd_children d))"
    (is "desc_ok _ _ ?bs")
proof -
  have fields: "esd_fields_ok d" and children: "list_all (desc_wf n) (esd_children d)"
    and others: "others [is_kind as_decoder_config, is_kind as_slc] (esd_unknown d)" using wf by simp_all
  have dc: "list_all (desc_wf n) (map DecoderConfigD (opt_list (esd_decoder_config d)))"
    and sl: "list_all (desc_wf n) (map SLConfigD (opt_list (esd_sl_config d)))"
    and unknown: "list_all (desc_wf n) (esd_unknown d)" using children by (simp_all add: esd_children_def)
  have Suc: "n \<le> Suc k" using k by simp
  have p: "esd_stream_priority d < 32"
    and url: "case_option True (\<lambda>url. list_all (\<lambda>c. c < 0x80) url \<and> length url < 256) (esd_url d)"
    using fields by (simp_all add: esd_fields_ok_def)
  have mux: "esd_primitive_mux (desc_ops_at k) d out = (Ok (), out @ ?bs)" for out
    by (simp add: esd_primitive_mux_def run_simps opt_kind(1) [OF dc Suc] opt_kind(1) [OF sl Suc]
        for_encs [OF unknown k] esd_children_def encs_simps url_run(1) [OF url] u16_opt_run(1))
  have sz: "length ?bs = esd_primitive_size (desc_ops_at k) d" if "n \<le> k" for k
    using opt_kind(2) [OF dc, of "Suc k" "desc_size (dcd_type (desc_ops_at k))"]
      opt_kind(2) [OF sl, of "Suc k" "desc_size slc_type"] sum_encs [OF unknown that] that
    by (simp only: esd_primitive_size_def esd_children_def encs_simps url_run(3) [OF url] u16_opt_run(3)
        length_append length_be length_Cons list.size) simp
  have none: "last_of as_decoder_config (esd_unknown d) = None" "last_of as_slc (esd_unknown d) = None"
    by (rule last_of_others [OF others]; simp)+
  have sorted: "last_of as_decoder_config (esd_children d) = esd_decoder_config d"
    "last_of as_slc (esd_children d) = esd_sl_config d"
    "none_of [is_kind as_decoder_config, is_kind as_slc] (esd_children d) = esd_unknown d"
    by (simp_all add: esd_children_def child_simps none others split: option.splits)
  have "esd_demux (desc_ops_at k) \<lparr>dh_tag = ESDescrTag\<rparr> ?bs = Ok d"
    using fields unfolding esd_demux_def
    by (simp add: with_reader_def cursor_new_curs run_simps byte_flags esd_flags [OF p] url_run(2) [OF url]
        u16_opt_run(2) read_encs [OF children k] sorted esd_fields_ok_def del: not_None_eq) (cases d; simp)
  with mux sz [OF k] sz [OF order_refl] wf show ?thesis by (simp add: desc_ok_def esd_type_def)
qed

text \<open>One more level.\<close>

lemma next_level:
  assumes wf: "desc_wf (Suc n) d"
  shows "\<exists>bs. descriptor_ok (Suc n) d bs"
proof (cases d)
  case (EsD e)
  show ?thesis unfolding EsD
    by (rule descriptor_item [where dt = "\<lambda>k. esd_type (desc_ops_at k)" and tag = ESDescrTag and C = EsD, OF esd_ok [OF wf [unfolded EsD]]])
      (simp_all add: esd_type_def known_tag_def descriptor_tag_from_def parse_descriptor_def)
next
  case (DecoderConfigD c)
  show ?thesis unfolding DecoderConfigD
    by (rule descriptor_item [where dt = "\<lambda>k. dcd_type (desc_ops_at k)" and tag = DecoderConfigDescrTag and C = DecoderConfigD, OF dcd_ok [OF wf [unfolded DecoderConfigD]]])
      (simp_all add: dcd_type_def known_tag_def descriptor_tag_from_def parse_descriptor_def)
next
  case (DecoderSpecificInfoD c)
  show ?thesis unfolding DecoderSpecificInfoD
    by (rule dsi.item) (use wf DecoderSpecificInfoD in \<open>simp_all add: dsi_type_def parse_descriptor_def\<close>)
next
  case (SLConfigD c)
  show ?thesis unfolding SLConfigD
    by (rule slc.item) (use wf SLConfigD in \<open>simp_all add: slc_type_def parse_descriptor_def\<close>)
next
  case (UnknownD h data)
  with wf obtain t where t: "h = \<lparr>dh_tag = UnknownDescrTag t\<rparr>" "known_tag (UnknownDescrTag t)" "length data < 128" by auto
  have "descriptor_ok (Suc n) d (descriptor_bytes (UnknownDescrTag t) data)"
  proof (rule item_ok_SucI)
    fix k assume "n \<le> k"
    show "descriptor_size (Suc k) d = length (descriptor_bytes (UnknownDescrTag t) data)"
      "descriptor_mux (Suc k) d out = (Ok (), out @ descriptor_bytes (UnknownDescrTag t) data)" for out
      using t by (simp_all add: UnknownD descriptor_bytes_def small_size run_simps)
    show "descriptor_demux (Suc k) (curs pre (descriptor_bytes (UnknownDescrTag t) data @ post))
        = (Ok d, curs (pre @ descriptor_bytes (UnknownDescrTag t) data) post)" for pre post
      unfolding descriptor_demux_Suc
      by (simp add: descriptor_header_parse_run [OF t(2,3)] run_simps parse_descriptor_def UnknownD t(1))
  qed (simp add: descriptor_bytes_def)
  then show ?thesis by blast
qed

end

lemma descriptor_levels: "descriptor_level n"
proof (induction n)
  case 0
  show ?case by unfold_locales simp
next
  case (Suc n)
  show ?case by unfold_locales (rule descriptor_level.next_level [OF Suc])
qed

interpretation descriptors: descriptor_level n for n
  by (rule descriptor_levels)

section \<open>Reading the box back\<close>

definition esds_wf :: "nat \<Rightarrow> Esds \<Rightarrow> bool" where
  "esds_wf n b \<longleftrightarrow> full_header_ok (fourcc ''esds'') (esds_header b) \<and> desc_wf n (EsD (esds_es_descriptor b))
     \<and> esds_unknown b = []"

lemma esds_ok:
  assumes "esds_wf n b" "n \<le> k"
  shows "box_ok (esds_box (desc_ops_at k)) b (full_header_bytes (esds_header b) @ descriptors.enc n (EsD (esds_es_descriptor b)))"
proof -
  have h: "full_header_ok (fourcc ''esds'') (esds_header b)" and d: "desc_wf n (EsD (esds_es_descriptor b))"
    and u: "esds_unknown b = []" using assms(1) by (simp_all add: esds_wf_def)
  have Suc: "n \<le> Suc k" using assms(2) by simp
  show ?thesis
    using h u descriptors.mux_enc [OF d Suc] descriptors.sz_enc [OF d Suc]
      descriptors.read_encs [of n "[EsD (esds_es_descriptor b)]" k "full_header_bytes (esds_header b)"] d assms(2)
    by (cases b) (simp add: box_ok_def esds_box_def esds_primitive_mux_def esds_primitive_size_def esds_demux_def
        run_simps box_simps child_simps descriptors.encs_simps)
qed

interpretation esds: box_codec "esds_box (desc_ops_at k)" "esds_wf k" for k
proof
  fix b assume "esds_wf k b"
  from esds_ok [OF this order_refl] show "\<exists>bs. box_ok (esds_box (desc_ops_at k)) b bs" by blast
qed (simp add: esds_box_def)

end
