(* ===== verification/Mp4_Samples.thy ===== *)
theory Mp4_Samples
  imports Mp4_Esds Mp4_Headers H265 Av1
begin

text \<open>
  Sample descriptions (\<^verbatim>\<open>crates/mp4/src/boxes/types\<close>): the configuration boxes \<^verbatim>\<open>avcC\<close>, \<^verbatim>\<open>hvcC\<close> and \<^verbatim>\<open>av1C\<close>, which hold
  the records of the codec crates, and the sample entries of \<^verbatim>\<open>stsd.rs\<close>, generic in their audio or video
  extension.
\<close>

section \<open>Configuration boxes\<close>

record AvcC =
  avcc_header :: box_header
  avcc_avc_decoder_configuration_record :: AVCDecoderConfigurationRecord

definition avcc_new :: "AVCDecoderConfigurationRecord \<Rightarrow> AvcC" where
  "avcc_new r = \<lparr>avcc_header = box_header_new (fourcc ''avcC''), avcc_avc_decoder_configuration_record = r\<rparr>"

definition avcc_demux :: "box_header \<Rightarrow> bytes \<Rightarrow> AvcC io_result" where
  "avcc_demux header = with_reader (
     bindE avc_demux (\<lambda>r. ret \<lparr>avcc_header = header, avcc_avc_decoder_configuration_record = r\<rparr>))"

definition avcc_box :: "AvcC box_type" where
  "avcc_box = \<lparr>bt_name = fourcc ''avcC'', bt_demux = avcc_demux,
     bt_primitive_size = (\<lambda>b. avc_size (avcc_avc_decoder_configuration_record b)),
     bt_primitive_mux = (\<lambda>b. avc_mux (avcc_avc_decoder_configuration_record b)), bt_validate = no_validate\<rparr>"

definition avcc_wf :: "AvcC \<Rightarrow> bool" where
  "avcc_wf b \<longleftrightarrow> avcc_header b = \<lparr>bh_box_type = fourcc ''avcC''\<rparr> \<and> avc_ok (avcc_avc_decoder_configuration_record b)"

interpretation avcc: box_codec avcc_box avcc_wf
proof
  fix b assume "avcc_wf b"
  then show "\<exists>bs. box_ok avcc_box b bs"
    using avc_mux_demux [of "avcc_avc_decoder_configuration_record b"]
    by (cases b) (auto simp: avcc_wf_def box_ok_def avcc_box_def avcc_demux_def reader_simps run_simps)
qed (simp add: avcc_box_def)

record HvcC =
  hvcc_header :: box_header
  hvcc_hevc_config :: HEVCDecoderConfigurationRecord

definition hvcc_new :: "HEVCDecoderConfigurationRecord \<Rightarrow> HvcC" where
  "hvcc_new r = \<lparr>hvcc_header = box_header_new (fourcc ''hvcC''), hvcc_hevc_config = r\<rparr>"

definition hvcc_demux :: "box_header \<Rightarrow> bytes \<Rightarrow> HvcC io_result" where
  "hvcc_demux header = with_reader (bindE hevc_demux (\<lambda>r. ret \<lparr>hvcc_header = header, hvcc_hevc_config = r\<rparr>))"

definition hvcc_box :: "HvcC box_type" where
  "hvcc_box = \<lparr>bt_name = fourcc ''hvcC'', bt_demux = hvcc_demux,
     bt_primitive_size = (\<lambda>b. hevc_size (hvcc_hevc_config b)),
     bt_primitive_mux = (\<lambda>b. hevc_mux (hvcc_hevc_config b)), bt_validate = no_validate\<rparr>"

definition hvcc_wf :: "HvcC \<Rightarrow> bool" where
  "hvcc_wf b \<longleftrightarrow> hvcc_header b = \<lparr>bh_box_type = fourcc ''hvcC''\<rparr> \<and> hevc_ok (hvcc_hevc_config b)"

interpretation hvcc: box_codec hvcc_box hvcc_wf
proof
  fix b assume wf: "hvcc_wf b"
  then obtain bs where bs: "\<And>out. hevc_mux (hvcc_hevc_config b) out = (Ok (), out @ bs)"
      "length bs = hevc_size (hvcc_hevc_config b)"
      "\<And>pre post. hevc_demux (curs pre (bs @ post)) = (Ok (hvcc_hevc_config b), curs (pre @ bs) post)"
    using hevc_mux_demux [of "hvcc_hevc_config b"] by (auto simp: hvcc_wf_def)
  then have "box_ok hvcc_box b bs"
    using wf bs(3) [of "[]" "[]"]
    by (cases b) (auto simp: hvcc_wf_def box_ok_def hvcc_box_def hvcc_demux_def reader_simps run_simps)
  then show "\<exists>bs. box_ok hvcc_box b bs" by blast
qed (simp add: hvcc_box_def)

record Av1C =
  av1c_header :: box_header
  av1c_av1_config :: AV1CodecConfigurationRecord

definition av1c_new :: "AV1CodecConfigurationRecord \<Rightarrow> Av1C" where
  "av1c_new r = \<lparr>av1c_header = box_header_new (fourcc ''av1C''), av1c_av1_config = r\<rparr>"

definition av1c_demux :: "box_header \<Rightarrow> bytes \<Rightarrow> Av1C io_result" where
  "av1c_demux header = with_reader (bindE av1_demux (\<lambda>r. ret \<lparr>av1c_header = header, av1c_av1_config = r\<rparr>))"

definition av1c_box :: "Av1C box_type" where
  "av1c_box = \<lparr>bt_name = fourcc ''av1C'', bt_demux = av1c_demux,
     bt_primitive_size = (\<lambda>b. av1_size (av1c_av1_config b)),
     bt_primitive_mux = (\<lambda>b. av1_mux (av1c_av1_config b)), bt_validate = no_validate\<rparr>"

text \<open>\<^verbatim>\<open>hdr_wcg_idc\<close> is not written (see \<open>av1_config_roundtrip\<close>).\<close>

definition av1c_wf :: "Av1C \<Rightarrow> bool" where
  "av1c_wf b \<longleftrightarrow> av1c_header b = \<lparr>bh_box_type = fourcc ''av1C''\<rparr> \<and> av1_ok (av1c_av1_config b)
     \<and> av1_hdr_wcg_idc (av1c_av1_config b) = 0"

interpretation av1c: box_codec av1c_box av1c_wf
proof
  fix b assume wf: "av1c_wf b"
  then have "av1c_av1_config b\<lparr>av1_hdr_wcg_idc := 0\<rparr> = av1c_av1_config b" by (simp add: av1c_wf_def)
  with wf show "\<exists>bs. box_ok av1c_box b bs"
    using av1_mux_demux [of "av1c_av1_config b"]
    by (cases b) (auto simp: av1c_wf_def box_ok_def av1c_box_def av1c_demux_def reader_simps run_simps)
qed (simp add: av1c_box_def)

section \<open>Sample entries\<close>

text \<open>The trait \<^verbatim>\<open>SampleEntryExtension\<close> as a record of its operations.\<close>

record 'e sample_entry_extension =
  ext_demux :: "(cursor, io_error, 'e) prog"
  ext_size :: "'e \<Rightarrow> nat"
  ext_mux :: "'e \<Rightarrow> (bytes, io_error, unit) prog"
  ext_validate :: "'e \<Rightarrow> unit io_result"

record 'e SampleEntry =
  se_reserved :: bytes
  se_data_reference_index :: u16
  se_extension :: 'e

definition sample_entry_new :: "'e \<Rightarrow> 'e SampleEntry" where
  "sample_entry_new extension = \<lparr>se_reserved = replicate 6 0, se_data_reference_index = 1, se_extension = extension\<rparr>"

definition sample_entry_demux :: "'e sample_entry_extension \<Rightarrow> (cursor, io_error, 'e SampleEntry) prog" where
  "sample_entry_demux ext =
     bindE (read_exact 6) (\<lambda>reserved.
     bindE read_u16 (\<lambda>data_reference_index.
     bindE (ext_demux ext) (\<lambda>extension.
     ret \<lparr>se_reserved = reserved, se_data_reference_index = data_reference_index, se_extension = extension\<rparr>)))"

definition sample_entry_size :: "'e sample_entry_extension \<Rightarrow> 'e SampleEntry \<Rightarrow> nat" where
  "sample_entry_size ext e = 6 + 2 + ext_size ext (se_extension e)"

definition sample_entry_validate :: "'e sample_entry_extension \<Rightarrow> 'e SampleEntry \<Rightarrow> unit io_result" where
  "sample_entry_validate ext e = require (se_reserved e = replicate 6 0) (ext_validate ext (se_extension e))"

definition sample_entry_mux :: "'e sample_entry_extension \<Rightarrow> 'e SampleEntry \<Rightarrow> (bytes, io_error, unit) prog" where
  "sample_entry_mux ext e =
     bindE (lift_result (sample_entry_validate ext e)) (\<lambda>_.
     bindE (write_all (se_reserved e)) (\<lambda>_.
     bindE (write_u16 (se_data_reference_index e)) (\<lambda>_.
     ext_mux ext (se_extension e))))"

record AudioSampleEntry =
  ase_reserved :: "u32 list"
  ase_channel_count :: u16
  ase_sample_size :: u16
  ase_pre_defined :: u16
  ase_reserved2 :: u16
  ase_sample_rate :: u32

definition audio_sample_entry_new :: "u16 \<Rightarrow> u16 \<Rightarrow> u32 \<Rightarrow> AudioSampleEntry" where
  "audio_sample_entry_new channel_count sample_size sample_rate =
     \<lparr>ase_reserved = [0, 0], ase_channel_count = channel_count, ase_sample_size = sample_size,
      ase_pre_defined = 0, ase_reserved2 = 0, ase_sample_rate = sample_rate\<rparr>"

definition ase_demux :: "(cursor, io_error, AudioSampleEntry) prog" where
  "ase_demux =
     bindE (read_u32s 2) (\<lambda>reserved.
     bindE read_u16 (\<lambda>channel_count.
     bindE read_u16 (\<lambda>sample_size.
     bindE read_u16 (\<lambda>pre_defined.
     bindE read_u16 (\<lambda>reserved2.
     bindE read_u32 (\<lambda>sample_rate.
     ret \<lparr>ase_reserved = reserved, ase_channel_count = channel_count, ase_sample_size = sample_size,
          ase_pre_defined = pre_defined, ase_reserved2 = reserved2, ase_sample_rate = drop_bit 16 sample_rate\<rparr>))))))"

definition ase_mux :: "AudioSampleEntry \<Rightarrow> (bytes, io_error, unit) prog" where
  "ase_mux e =
     bindE (write_u32s (ase_reserved e)) (\<lambda>_.
     bindE (write_u16 (ase_channel_count e)) (\<lambda>_.
     bindE (write_u16 (ase_sample_size e)) (\<lambda>_.
     bindE (write_u16 (ase_pre_defined e)) (\<lambda>_.
     bindE (write_u16 (ase_reserved2 e)) (\<lambda>_.
     write_u32 (push_bit 16 (ase_sample_rate e)))))))"

definition ase_validate :: "AudioSampleEntry \<Rightarrow> unit io_result" where
  "ase_validate e =
     require (ase_reserved e = [0, 0]) (
     require (ase_pre_defined e = 0) (
     require (ase_reserved2 e = 0) (Ok ())))"

definition audio_ext :: "AudioSampleEntry sample_entry_extension" where
  "audio_ext = \<lparr>ext_demux = ase_demux, ext_size = (\<lambda>_. 4 + 4 + 2 + 2 + 2 + 2 + 4), ext_mux = ase_mux,
     ext_validate = ase_validate\<rparr>"

record VisualSampleEntry =
  vse_pre_defined :: u16
  vse_reserved :: u16
  vse_pre_defined2 :: "u32 list"
  vse_width :: u16
  vse_height :: u16
  vse_horizresolution :: u32
  vse_vertresolution :: u32
  vse_reserved2 :: u32
  vse_frame_count :: u16
  vse_compressorname :: bytes
  vse_depth :: u16
  vse_pre_defined3 :: i16
  vse_clap :: "Clap option"
  vse_colr :: "Colr option"
  vse_pasp :: "Pasp option"

definition visual_sample_entry_new :: "u16 \<Rightarrow> u16 \<Rightarrow> Colr option \<Rightarrow> VisualSampleEntry" where
  "visual_sample_entry_new width height colr =
     \<lparr>vse_pre_defined = 0, vse_reserved = 0, vse_pre_defined2 = [0, 0, 0], vse_width = width, vse_height = height,
      vse_horizresolution = 0x00480000, vse_vertresolution = 0x00480000, vse_reserved2 = 0, vse_frame_count = 1,
      vse_compressorname = replicate 32 0, vse_depth = 0x0018, vse_pre_defined3 = -1, vse_clap = None,
      vse_colr = colr, vse_pasp = Some pasp_new\<rparr>"

definition vse_demux :: "(cursor, io_error, VisualSampleEntry) prog" where
  "vse_demux =
     bindE read_u16 (\<lambda>pre_defined.
     bindE read_u16 (\<lambda>reserved.
     bindE (read_u32s 3) (\<lambda>pre_defined2.
     bindE read_u16 (\<lambda>width.
     bindE read_u16 (\<lambda>height.
     bindE read_u32 (\<lambda>horizresolution.
     bindE read_u32 (\<lambda>vertresolution.
     bindE read_u32 (\<lambda>reserved2.
     bindE read_u16 (\<lambda>frame_count.
     bindE (read_exact 32) (\<lambda>compressorname.
     bindE read_u16 (\<lambda>depth.
     bindE read_u16 (\<lambda>pre_defined3.
     ret \<lparr>vse_pre_defined = pre_defined, vse_reserved = reserved, vse_pre_defined2 = pre_defined2, vse_width = width,
          vse_height = height, vse_horizresolution = horizresolution, vse_vertresolution = vertresolution,
          vse_reserved2 = reserved2, vse_frame_count = frame_count, vse_compressorname = compressorname,
          vse_depth = depth, vse_pre_defined3 = pre_defined3, vse_clap = None, vse_colr = None,
          vse_pasp = None\<rparr>))))))))))))"

definition vse_size :: "VisualSampleEntry \<Rightarrow> nat" where
  "vse_size e = 2 + 2 + 4 + 4 + 4 + 2 + 2 + 4 + 4 + 4 + 2 + 32 + 2 + 2
     + case_option 0 (box_size clap_box) (vse_clap e) + case_option 0 (box_size pasp_box) (vse_pasp e)
     + case_option 0 (box_size colr_box) (vse_colr e)"

text \<open>\<^verbatim>\<open>unwrap\<close> of a write.\<close>

definition unwrap_m :: "('s, 'e, 'a) prog \<Rightarrow> ('s, 'e, 'a) prog" where
  "unwrap_m m s = (case m s of (Err _, s') \<Rightarrow> (Panic, s') | r \<Rightarrow> r)"

lemma unwrap_m_Ok [run_simps]: "m s = (Ok x, s') \<Longrightarrow> unwrap_m m s = (Ok x, s')"
  by (simp add: unwrap_m_def)

definition vse_fields_mux :: "VisualSampleEntry \<Rightarrow> (bytes, io_error, unit) prog" where
  "vse_fields_mux e =
     bindE (write_u16 (vse_pre_defined e)) (\<lambda>_.
     bindE (write_u16 (vse_reserved e)) (\<lambda>_.
     bindE (write_u32s (vse_pre_defined2 e)) (\<lambda>_.
     bindE (write_u16 (vse_width e)) (\<lambda>_.
     bindE (write_u16 (vse_height e)) (\<lambda>_.
     bindE (write_u32 (vse_horizresolution e)) (\<lambda>_.
     bindE (write_u32 (vse_vertresolution e)) (\<lambda>_.
     bindE (write_u32 (vse_reserved2 e)) (\<lambda>_.
     bindE (write_u16 (vse_frame_count e)) (\<lambda>_.
     bindE (write_all (vse_compressorname e)) (\<lambda>_.
     bindE (write_u16 (vse_depth e)) (\<lambda>_.
     write_u16 (vse_pre_defined3 e))))))))))))"

definition vse_mux :: "VisualSampleEntry \<Rightarrow> (bytes, io_error, unit) prog" where
  "vse_mux e =
     bindE (vse_fields_mux e) (\<lambda>_.
     bindE (write_opt (\<lambda>b. unwrap_m (box_mux clap_box b)) (vse_clap e)) (\<lambda>_.
     bindE (write_opt (\<lambda>b. unwrap_m (box_mux pasp_box b)) (vse_pasp e)) (\<lambda>_.
     write_opt (\<lambda>b. unwrap_m (box_mux colr_box b)) (vse_colr e))))"

definition vse_validate :: "VisualSampleEntry \<Rightarrow> unit io_result" where
  "vse_validate e =
     require (vse_pre_defined e = 0) (
     require (vse_reserved e = 0) (
     require (vse_pre_defined2 e = [0, 0, 0]) (
     require (vse_reserved2 e = 0) (
     require (vse_pre_defined3 e = -1) (Ok ())))))"

definition visual_ext :: "VisualSampleEntry sample_entry_extension" where
  "visual_ext = \<lparr>ext_demux = vse_demux, ext_size = vse_size, ext_mux = vse_mux, ext_validate = vse_validate\<rparr>"

section \<open>Reading sample entries back\<close>

text \<open>A sampling frequency of 16 bits survives the shift.\<close>

definition audio_entry_wf :: "AudioSampleEntry SampleEntry \<Rightarrow> bool" where
  "audio_entry_wf e \<longleftrightarrow> sample_entry_validate audio_ext e = Ok () \<and> ase_sample_rate (se_extension e) < 2 ^ 16"

definition audio_entry_bytes :: "AudioSampleEntry SampleEntry \<Rightarrow> bytes" where
  "audio_entry_bytes e = replicate 6 0 @ be16 (se_data_reference_index e) @ be32s [0, 0]
     @ be16 (ase_channel_count (se_extension e)) @ be16 (ase_sample_size (se_extension e)) @ be16 0 @ be16 0
     @ be32 (push_bit 16 (ase_sample_rate (se_extension e)))"

lemma sample_rate_shift: "x < 2 ^ 16 \<Longrightarrow> drop_bit 16 (push_bit 16 (x :: u32)) = x"
  using bit_small [of x 16] by (intro bit_word_eqI) (auto simp: bit_simps)

lemma read_reserved: "read_exact 6 (curs pre (replicate 6 0 @ post)) = (Ok (replicate 6 0), curs (pre @ replicate 6 0) post)"
  by (rule read_exact_curs) simp

lemma audio_entry_run:
  assumes "audio_entry_wf e"
  shows "sample_entry_mux audio_ext e out = (Ok (), out @ audio_entry_bytes e)"
    "length (audio_entry_bytes e) = sample_entry_size audio_ext e"
    "sample_entry_demux audio_ext (curs pre (audio_entry_bytes e @ post)) = (Ok e, curs (pre @ audio_entry_bytes e) post)"
  using assms
  by (simp add: audio_entry_wf_def sample_entry_mux_def sample_entry_validate_def audio_ext_def ase_mux_def
      audio_entry_bytes_def sample_entry_size_def ase_validate_def run_simps box_simps)
    (simp add: audio_entry_bytes_def sample_entry_size_def audio_ext_def box_simps,
     use assms in \<open>cases e, cases "se_extension e"; simp add: audio_entry_wf_def sample_entry_validate_def ase_validate_def
       sample_entry_demux_def audio_ext_def ase_demux_def audio_entry_bytes_def run_simps box_simps read_reserved
       sample_rate_shift\<close>)

text \<open>The fields of a visual sample entry; the boxes that follow them are children of the codec box.\<close>

definition vse_plain :: "VisualSampleEntry \<Rightarrow> VisualSampleEntry" where
  "vse_plain e = e\<lparr>vse_clap := None, vse_colr := None, vse_pasp := None\<rparr>"

definition visual_entry_wf :: "VisualSampleEntry SampleEntry \<Rightarrow> bool" where
  "visual_entry_wf e \<longleftrightarrow> sample_entry_validate visual_ext e = Ok ()
     \<and> length (vse_compressorname (se_extension e)) = 32"

definition visual_entry_bytes :: "VisualSampleEntry SampleEntry \<Rightarrow> bytes" where
  "visual_entry_bytes e = (let x = se_extension e in
     replicate 6 0 @ be16 (se_data_reference_index e) @ be16 0 @ be16 0 @ be32s [0, 0, 0]
     @ be16 (vse_width x) @ be16 (vse_height x) @ be32 (vse_horizresolution x) @ be32 (vse_vertresolution x)
     @ be32 0 @ be16 (vse_frame_count x) @ vse_compressorname x @ be16 (vse_depth x) @ be16 (-1))"

lemma visual_entry_mux:
  assumes "visual_entry_wf e"
  shows "sample_entry_mux visual_ext e out =
     bindE (write_opt (\<lambda>b. unwrap_m (box_mux clap_box b)) (vse_clap (se_extension e))) (\<lambda>_.
     bindE (write_opt (\<lambda>b. unwrap_m (box_mux pasp_box b)) (vse_pasp (se_extension e))) (\<lambda>_.
     write_opt (\<lambda>b. unwrap_m (box_mux colr_box b)) (vse_colr (se_extension e)))) (out @ visual_entry_bytes e)"
  using assms
  by (simp add: visual_entry_wf_def sample_entry_validate_def vse_validate_def sample_entry_mux_def visual_ext_def
      vse_mux_def vse_fields_mux_def visual_entry_bytes_def Let_def run_simps box_simps)

lemma visual_entry_size:
  assumes "visual_entry_wf e"
  shows "sample_entry_size visual_ext e = length (visual_entry_bytes e)
     + case_option 0 (box_size clap_box) (vse_clap (se_extension e)) + case_option 0 (box_size pasp_box) (vse_pasp (se_extension e))
     + case_option 0 (box_size colr_box) (vse_colr (se_extension e))"
  using assms by (simp add: visual_entry_wf_def visual_entry_bytes_def Let_def sample_entry_size_def visual_ext_def vse_size_def
      box_simps)

lemma visual_entry_demux:
  assumes "visual_entry_wf e"
  shows "sample_entry_demux visual_ext (curs pre (visual_entry_bytes e @ post))
     = (Ok (e\<lparr>se_extension := vse_plain (se_extension e)\<rparr>), curs (pre @ visual_entry_bytes e) post)"
proof -
  have name: "read_exact 32 (curs p (vse_compressorname (se_extension e) @ r))
     = (Ok (vse_compressorname (se_extension e)), curs (p @ vse_compressorname (se_extension e)) r)" for p r
    using assms by (intro read_exact_curs) (simp add: visual_entry_wf_def)
  show ?thesis
    using assms name
    by (cases e, cases "se_extension e") (simp add: visual_entry_wf_def sample_entry_validate_def vse_validate_def
        sample_entry_demux_def visual_ext_def vse_demux_def visual_entry_bytes_def vse_plain_def Let_def run_simps
        box_simps read_reserved)
qed

end
