(* ===== verification/Mp4_Tree.thy ===== *)
theory Mp4_Tree
  imports Mp4_Samples Mp4_Tables
begin

text \<open>
  The tree of MP4 boxes (\<^verbatim>\<open>crates/mp4/src/boxes/macros.rs\<close>, \<^verbatim>\<open>mod.rs\<close> and the containers of \<^verbatim>\<open>types\<close>). The containers are
  polymorphic in the type of the children they do not know by kind; \<open>DynBox\<close> closes the recursion. The operations of a
  container take the operations on \<^verbatim>\<open>DynBox\<close> as an argument, and \<open>dyn_ops_at\<close> ties the knot with one unit of fuel per
  level of nesting. The table \<open>variants\<close> is the list given to \<^verbatim>\<open>impl_box!\<close>.
\<close>

section \<open>Containers and boxes\<close>

datatype 'd Stsd = Stsd
  (stsd_header: full_box_header)
  (stsd_entries: "'d list")

datatype 'd Dref = Dref
  (dref_header: full_box_header)
  (dref_entries: "'d list")

datatype 'd Dinf = Dinf
  (dinf_header: box_header)
  (dinf_dref: "'d Dref")
  (dinf_unknown: "'d list")

datatype 'd Stbl = Stbl
  (stbl_header: box_header)
  (stbl_stsd: "'d Stsd")
  (stbl_stts: Stts)
  (stbl_ctts: "Ctts option")
  (stbl_stsc: Stsc)
  (stbl_stsz: "Stsz option")
  (stbl_stz2: "Stz2 option")
  (stbl_stco: Stco)
  (stbl_co64: "Co64 option")
  (stbl_stss: "Stss option")
  (stbl_stsh: "Stsh option")
  (stbl_padb: "Padb option")
  (stbl_stdp: "Stdp option")
  (stbl_sdtp: "Sdtp option")
  (stbl_sbgp: "Sbgp option")
  (stbl_subs: "Subs option")
  (stbl_unknown: "'d list")

datatype 'd Minf = Minf
  (minf_header: box_header)
  (minf_vmhd: "Vmhd option")
  (minf_smhd: "Smhd option")
  (minf_hmhd: "Hmhd option")
  (minf_nmhd: "Nmhd option")
  (minf_dinf: "'d Dinf")
  (minf_stbl: "'d Stbl")
  (minf_unknown: "'d list")

datatype 'd Mdia = Mdia
  (mdia_header: box_header)
  (mdia_mdhd: Mdhd)
  (mdia_hdlr: Hdlr)
  (mdia_minf: "'d Minf")
  (mdia_unknown: "'d list")

datatype 'd Edts = Edts
  (edts_header: box_header)
  (edts_elst: "Elst option")
  (edts_unknown: "'d list")

datatype 'd Trak = Trak
  (trak_header: box_header)
  (trak_tkhd: Tkhd)
  (trak_edts: "('d Edts) option")
  (trak_mdia: "'d Mdia")
  (trak_unknown: "'d list")

datatype 'd Mvex = Mvex
  (mvex_header: box_header)
  (mvex_trex: "Trex list")
  (mvex_mehd: "Mehd option")
  (mvex_unknown: "'d list")

datatype 'd Moov = Moov
  (moov_header: box_header)
  (moov_mvhd: Mvhd)
  (moov_traks: "('d Trak) list")
  (moov_mvex: "('d Mvex) option")
  (moov_unknown: "'d list")

datatype 'd Traf = Traf
  (traf_header: box_header)
  (traf_tfhd: Tfhd)
  (traf_trun: "Trun option")
  (traf_sbgp: "Sbgp option")
  (traf_subs: "Subs option")
  (traf_tfdt: "Tfdt option")
  (traf_unknown: "'d list")

datatype 'd Moof = Moof
  (moof_header: box_header)
  (moof_mfhd: Mfhd)
  (moof_traf: "('d Traf) list")
  (moof_unknown: "'d list")

datatype 'd Avc1 = Avc1
  (avc1_header: box_header)
  (avc1_visual_sample_entry: "VisualSampleEntry SampleEntry")
  (avc1_avcc: AvcC)
  (avc1_btrt: "Btrt option")
  (avc1_unknown: "'d list")

datatype 'd Hev1 = Hev1
  (hev1_header: box_header)
  (hev1_visual_sample_entry: "VisualSampleEntry SampleEntry")
  (hev1_hvcc: HvcC)
  (hev1_btrt: "Btrt option")
  (hev1_unknown: "'d list")

datatype 'd Av01 = Av01
  (av01_header: box_header)
  (av01_visual_sample_entry: "VisualSampleEntry SampleEntry")
  (av01_av1c: Av1C)
  (av01_btrt: "Btrt option")
  (av01_unknown: "'d list")

datatype 'd Mp4a = Mp4a
  (mp4a_header: box_header)
  (mp4a_audio_sample_entry: "AudioSampleEntry SampleEntry")
  (mp4a_esds: Esds)
  (mp4a_btrt: "Btrt option")
  (mp4a_unknown: "'d list")

datatype 'd Opus = Opus
  (opus_header: box_header)
  (opus_audio_sample_entry: "AudioSampleEntry SampleEntry")
  (opus_btrt: "Btrt option")
  (opus_unknown: "'d list")

datatype (plugins del: size code quickcheck_random quickcheck_exhaustive quickcheck_bounded_forall
    quickcheck_full_exhaustive quickcheck_narrowing transfer lifting) DynBox =
    BFtyp Ftyp
  | BMoov "DynBox Moov"
  | BMvhd Mvhd
  | BMvex "DynBox Mvex"
  | BTrak "DynBox Trak"
  | BTrex Trex
  | BMehd Mehd
  | BMdia "DynBox Mdia"
  | BTkhd Tkhd
  | BEdts "DynBox Edts"
  | BElst Elst
  | BMdhd Mdhd
  | BMinf "DynBox Minf"
  | BHdlr Hdlr
  | BDinf "DynBox Dinf"
  | BStbl "DynBox Stbl"
  | BHmhd Hmhd
  | BNmhd Nmhd
  | BSmhd Smhd
  | BVmhd Vmhd
  | BDref "DynBox Dref"
  | BStsd "DynBox Stsd"
  | BStsz Stsz
  | BStsc Stsc
  | BStco Stco
  | BCo64 Co64
  | BStts Stts
  | BStss Stss
  | BStz2 Stz2
  | BStsh Stsh
  | BCtts Ctts
  | BStdp Stdp
  | BSbgp Sbgp
  | BSubs Subs
  | BPadb Padb
  | BSdtp Sdtp
  | BUrl Url
  | BAvc1 "DynBox Avc1"
  | BClap Clap
  | BPasp Pasp
  | BAvcC AvcC
  | BBtrt Btrt
  | BMp4a "DynBox Mp4a"
  | BEsds Esds
  | BMoof "DynBox Moof"
  | BMfhd Mfhd
  | BTraf "DynBox Traf"
  | BTfhd Tfhd
  | BTfdt Tfdt
  | BTrun Trun
  | BMdat Mdat
  | BAv01 "DynBox Av01"
  | BAv1C Av1C
  | BColr Colr
  | BHev1 "DynBox Hev1"
  | BHvcC HvcC
  | BOpus "DynBox Opus"
  | BUnknown box_header bytes

text \<open>The functions that \<^verbatim>\<open>as_fn!\<close> makes, for the kinds that a container looks for.\<close>

definition as_mvhd :: "DynBox \<Rightarrow> Mvhd option" where
  "as_mvhd b = (case b of BMvhd x \<Rightarrow> Some x | _ \<Rightarrow> None)"

definition as_mvex :: "DynBox \<Rightarrow> (DynBox Mvex) option" where
  "as_mvex b = (case b of BMvex x \<Rightarrow> Some x | _ \<Rightarrow> None)"

definition as_trak :: "DynBox \<Rightarrow> (DynBox Trak) option" where
  "as_trak b = (case b of BTrak x \<Rightarrow> Some x | _ \<Rightarrow> None)"

definition as_trex :: "DynBox \<Rightarrow> Trex option" where
  "as_trex b = (case b of BTrex x \<Rightarrow> Some x | _ \<Rightarrow> None)"

definition as_mehd :: "DynBox \<Rightarrow> Mehd option" where
  "as_mehd b = (case b of BMehd x \<Rightarrow> Some x | _ \<Rightarrow> None)"

definition as_mdia :: "DynBox \<Rightarrow> (DynBox Mdia) option" where
  "as_mdia b = (case b of BMdia x \<Rightarrow> Some x | _ \<Rightarrow> None)"

definition as_tkhd :: "DynBox \<Rightarrow> Tkhd option" where
  "as_tkhd b = (case b of BTkhd x \<Rightarrow> Some x | _ \<Rightarrow> None)"

definition as_edts :: "DynBox \<Rightarrow> (DynBox Edts) option" where
  "as_edts b = (case b of BEdts x \<Rightarrow> Some x | _ \<Rightarrow> None)"

definition as_elst :: "DynBox \<Rightarrow> Elst option" where
  "as_elst b = (case b of BElst x \<Rightarrow> Some x | _ \<Rightarrow> None)"

definition as_mdhd :: "DynBox \<Rightarrow> Mdhd option" where
  "as_mdhd b = (case b of BMdhd x \<Rightarrow> Some x | _ \<Rightarrow> None)"

definition as_minf :: "DynBox \<Rightarrow> (DynBox Minf) option" where
  "as_minf b = (case b of BMinf x \<Rightarrow> Some x | _ \<Rightarrow> None)"

definition as_hdlr :: "DynBox \<Rightarrow> Hdlr option" where
  "as_hdlr b = (case b of BHdlr x \<Rightarrow> Some x | _ \<Rightarrow> None)"

definition as_dinf :: "DynBox \<Rightarrow> (DynBox Dinf) option" where
  "as_dinf b = (case b of BDinf x \<Rightarrow> Some x | _ \<Rightarrow> None)"

definition as_stbl :: "DynBox \<Rightarrow> (DynBox Stbl) option" where
  "as_stbl b = (case b of BStbl x \<Rightarrow> Some x | _ \<Rightarrow> None)"

definition as_hmhd :: "DynBox \<Rightarrow> Hmhd option" where
  "as_hmhd b = (case b of BHmhd x \<Rightarrow> Some x | _ \<Rightarrow> None)"

definition as_nmhd :: "DynBox \<Rightarrow> Nmhd option" where
  "as_nmhd b = (case b of BNmhd x \<Rightarrow> Some x | _ \<Rightarrow> None)"

definition as_smhd :: "DynBox \<Rightarrow> Smhd option" where
  "as_smhd b = (case b of BSmhd x \<Rightarrow> Some x | _ \<Rightarrow> None)"

definition as_vmhd :: "DynBox \<Rightarrow> Vmhd option" where
  "as_vmhd b = (case b of BVmhd x \<Rightarrow> Some x | _ \<Rightarrow> None)"

definition as_dref :: "DynBox \<Rightarrow> (DynBox Dref) option" where
  "as_dref b = (case b of BDref x \<Rightarrow> Some x | _ \<Rightarrow> None)"

definition as_stsd :: "DynBox \<Rightarrow> (DynBox Stsd) option" where
  "as_stsd b = (case b of BStsd x \<Rightarrow> Some x | _ \<Rightarrow> None)"

definition as_stsz :: "DynBox \<Rightarrow> Stsz option" where
  "as_stsz b = (case b of BStsz x \<Rightarrow> Some x | _ \<Rightarrow> None)"

definition as_stsc :: "DynBox \<Rightarrow> Stsc option" where
  "as_stsc b = (case b of BStsc x \<Rightarrow> Some x | _ \<Rightarrow> None)"

definition as_stco :: "DynBox \<Rightarrow> Stco option" where
  "as_stco b = (case b of BStco x \<Rightarrow> Some x | _ \<Rightarrow> None)"

definition as_co64 :: "DynBox \<Rightarrow> Co64 option" where
  "as_co64 b = (case b of BCo64 x \<Rightarrow> Some x | _ \<Rightarrow> None)"

definition as_stts :: "DynBox \<Rightarrow> Stts option" where
  "as_stts b = (case b of BStts x \<Rightarrow> Some x | _ \<Rightarrow> None)"

definition as_stss :: "DynBox \<Rightarrow> Stss option" where
  "as_stss b = (case b of BStss x \<Rightarrow> Some x | _ \<Rightarrow> None)"

definition as_stz2 :: "DynBox \<Rightarrow> Stz2 option" where
  "as_stz2 b = (case b of BStz2 x \<Rightarrow> Some x | _ \<Rightarrow> None)"

definition as_stsh :: "DynBox \<Rightarrow> Stsh option" where
  "as_stsh b = (case b of BStsh x \<Rightarrow> Some x | _ \<Rightarrow> None)"

definition as_ctts :: "DynBox \<Rightarrow> Ctts option" where
  "as_ctts b = (case b of BCtts x \<Rightarrow> Some x | _ \<Rightarrow> None)"

definition as_stdp :: "DynBox \<Rightarrow> Stdp option" where
  "as_stdp b = (case b of BStdp x \<Rightarrow> Some x | _ \<Rightarrow> None)"

definition as_sbgp :: "DynBox \<Rightarrow> Sbgp option" where
  "as_sbgp b = (case b of BSbgp x \<Rightarrow> Some x | _ \<Rightarrow> None)"

definition as_subs :: "DynBox \<Rightarrow> Subs option" where
  "as_subs b = (case b of BSubs x \<Rightarrow> Some x | _ \<Rightarrow> None)"

definition as_padb :: "DynBox \<Rightarrow> Padb option" where
  "as_padb b = (case b of BPadb x \<Rightarrow> Some x | _ \<Rightarrow> None)"

definition as_sdtp :: "DynBox \<Rightarrow> Sdtp option" where
  "as_sdtp b = (case b of BSdtp x \<Rightarrow> Some x | _ \<Rightarrow> None)"

definition as_clap :: "DynBox \<Rightarrow> Clap option" where
  "as_clap b = (case b of BClap x \<Rightarrow> Some x | _ \<Rightarrow> None)"

definition as_pasp :: "DynBox \<Rightarrow> Pasp option" where
  "as_pasp b = (case b of BPasp x \<Rightarrow> Some x | _ \<Rightarrow> None)"

definition as_avcc :: "DynBox \<Rightarrow> AvcC option" where
  "as_avcc b = (case b of BAvcC x \<Rightarrow> Some x | _ \<Rightarrow> None)"

definition as_btrt :: "DynBox \<Rightarrow> Btrt option" where
  "as_btrt b = (case b of BBtrt x \<Rightarrow> Some x | _ \<Rightarrow> None)"

definition as_esds :: "DynBox \<Rightarrow> Esds option" where
  "as_esds b = (case b of BEsds x \<Rightarrow> Some x | _ \<Rightarrow> None)"

definition as_mfhd :: "DynBox \<Rightarrow> Mfhd option" where
  "as_mfhd b = (case b of BMfhd x \<Rightarrow> Some x | _ \<Rightarrow> None)"

definition as_traf :: "DynBox \<Rightarrow> (DynBox Traf) option" where
  "as_traf b = (case b of BTraf x \<Rightarrow> Some x | _ \<Rightarrow> None)"

definition as_tfhd :: "DynBox \<Rightarrow> Tfhd option" where
  "as_tfhd b = (case b of BTfhd x \<Rightarrow> Some x | _ \<Rightarrow> None)"

definition as_tfdt :: "DynBox \<Rightarrow> Tfdt option" where
  "as_tfdt b = (case b of BTfdt x \<Rightarrow> Some x | _ \<Rightarrow> None)"

definition as_trun :: "DynBox \<Rightarrow> Trun option" where
  "as_trun b = (case b of BTrun x \<Rightarrow> Some x | _ \<Rightarrow> None)"

definition as_av1c :: "DynBox \<Rightarrow> Av1C option" where
  "as_av1c b = (case b of BAv1C x \<Rightarrow> Some x | _ \<Rightarrow> None)"

definition as_colr :: "DynBox \<Rightarrow> Colr option" where
  "as_colr b = (case b of BColr x \<Rightarrow> Some x | _ \<Rightarrow> None)"

definition as_hvcc :: "DynBox \<Rightarrow> HvcC option" where
  "as_hvcc b = (case b of BHvcC x \<Rightarrow> Some x | _ \<Rightarrow> None)"

lemmas as_defs = as_mvhd_def as_mvex_def as_trak_def as_trex_def as_mehd_def as_mdia_def as_tkhd_def as_edts_def as_elst_def as_mdhd_def as_minf_def as_hdlr_def as_dinf_def as_stbl_def as_hmhd_def as_nmhd_def as_smhd_def as_vmhd_def as_dref_def as_stsd_def as_stsz_def as_stsc_def as_stco_def as_co64_def as_stts_def as_stss_def as_stz2_def as_stsh_def as_ctts_def as_stdp_def as_sbgp_def as_subs_def as_padb_def as_sdtp_def as_clap_def as_pasp_def as_avcc_def as_btrt_def as_esds_def as_mfhd_def as_traf_def as_tfhd_def as_tfdt_def as_trun_def as_av1c_def as_colr_def as_hvcc_def

text \<open>The operations on \<^verbatim>\<open>DynBox\<close> that containers call, and those on descriptors.\<close>

record dyn_ops =
  d_demux :: "(cursor, io_error, DynBox) prog"
  d_size :: "DynBox \<Rightarrow> nat"
  d_mux :: "DynBox \<Rightarrow> (bytes, io_error, unit) prog"
  d_desc :: desc_ops

definition unwrap_option :: "'a option \<Rightarrow> ('e, 'a) result" where
  "unwrap_option x = (case x of Some y \<Rightarrow> Ok y | None \<Rightarrow> Panic)"

lemma unwrap_option_Some [child_simps]: "unwrap_option (Some y) = Ok y"
  by (simp add: unwrap_option_def)

section \<open>Sample descriptions and data references\<close>

text \<open>Sample description box.\<close>

definition stsd_new :: "'d list \<Rightarrow> 'd Stsd" where
  "stsd_new entries = Stsd (full_header_new (fourcc ''stsd'') 0 0) entries"

definition stsd_demux :: "dyn_ops \<Rightarrow> box_header \<Rightarrow> bytes \<Rightarrow> DynBox Stsd io_result" where
  "stsd_demux ops header = with_reader (
     bindE (full_header_demux header) (\<lambda>h.
     bindE read_u32 (\<lambda>entry_count.
     bindE (repeat_m (unat entry_count) (d_demux ops)) (\<lambda>entries.
     ret (Stsd h entries)))))"

definition stsd_primitive_size :: "dyn_ops \<Rightarrow> DynBox Stsd \<Rightarrow> nat" where
  "stsd_primitive_size ops b = full_header_size (stsd_header b) + 4 + sum_list (map (d_size ops) (stsd_entries b))"

definition stsd_primitive_mux :: "dyn_ops \<Rightarrow> DynBox Stsd \<Rightarrow> (bytes, io_error, unit) prog" where
  "stsd_primitive_mux ops b =
     bindE (full_header_mux (stsd_header b)) (\<lambda>_.
     bindE (write_count (stsd_entries b)) (\<lambda>_.
     for_m (stsd_entries b) (d_mux ops)))"

definition stsd_validate :: "'d Stsd \<Rightarrow> unit io_result" where
  "stsd_validate b = require (fh_flags (stsd_header b) = 0) (require (fh_version (stsd_header b) = 0) (Ok ()))"

definition stsd_box :: "dyn_ops \<Rightarrow> DynBox Stsd box_type" where
  "stsd_box ops = \<lparr>bt_name = fourcc ''stsd'', bt_demux = stsd_demux ops, bt_primitive_size = stsd_primitive_size ops,
     bt_primitive_mux = stsd_primitive_mux ops, bt_validate = stsd_validate\<rparr>"

text \<open>Data reference box.\<close>

definition dref_new :: "DynBox Dref" where
  "dref_new = Dref (full_header_new (fourcc ''dref'') 0 0) [BUrl url_new]"

definition dref_demux :: "dyn_ops \<Rightarrow> box_header \<Rightarrow> bytes \<Rightarrow> DynBox Dref io_result" where
  "dref_demux ops header = with_reader (
     bindE (full_header_demux header) (\<lambda>h.
     bindE read_u32 (\<lambda>entry_count.
     bindE (repeat_m (unat entry_count) (d_demux ops)) (\<lambda>entries.
     ret (Dref h entries)))))"

definition dref_primitive_size :: "dyn_ops \<Rightarrow> DynBox Dref \<Rightarrow> nat" where
  "dref_primitive_size ops b = full_header_size (dref_header b) + 4 + sum_list (map (d_size ops) (dref_entries b))"

definition dref_primitive_mux :: "dyn_ops \<Rightarrow> DynBox Dref \<Rightarrow> (bytes, io_error, unit) prog" where
  "dref_primitive_mux ops b =
     bindE (full_header_mux (dref_header b)) (\<lambda>_.
     bindE (write_count (dref_entries b)) (\<lambda>_.
     for_m (dref_entries b) (d_mux ops)))"

definition dref_validate :: "'d Dref \<Rightarrow> unit io_result" where
  "dref_validate b = require (fh_version (dref_header b) = 0) (require (fh_flags (dref_header b) = 0) (Ok ()))"

definition dref_box :: "dyn_ops \<Rightarrow> DynBox Dref box_type" where
  "dref_box ops = \<lparr>bt_name = fourcc ''dref'', bt_demux = dref_demux ops, bt_primitive_size = dref_primitive_size ops,
     bt_primitive_mux = dref_primitive_mux ops, bt_validate = dref_validate\<rparr>"

section \<open>Sample tables and media\<close>

text \<open>Data information box.\<close>

definition dinf_new :: "DynBox Dinf" where
  "dinf_new = Dinf (box_header_new (fourcc ''dinf'')) dref_new []"

definition dinf_demux :: "dyn_ops \<Rightarrow> box_header \<Rightarrow> bytes \<Rightarrow> DynBox Dinf io_result" where
  "dinf_demux ops header = with_reader (
     bindE (read_while 0 (d_demux ops)) (\<lambda>bs.
     bindE (lift_result (unwrap_option (last_of as_dref bs))) (\<lambda>dref.
     ret (Dinf header dref
       (none_of [is_kind as_dref] bs)))))"

definition dinf_primitive_size :: "dyn_ops \<Rightarrow> DynBox Dinf \<Rightarrow> nat" where
  "dinf_primitive_size ops b = box_size (dref_box ops) (dinf_dref b)
     + sum_list (map (d_size ops) (dinf_unknown b))"

definition dinf_primitive_mux :: "dyn_ops \<Rightarrow> DynBox Dinf \<Rightarrow> (bytes, io_error, unit) prog" where
  "dinf_primitive_mux ops b =
     bindE (box_mux (dref_box ops) (dinf_dref b)) (\<lambda>_.
     for_m (dinf_unknown b) (d_mux ops))"

definition dinf_box :: "dyn_ops \<Rightarrow> DynBox Dinf box_type" where
  "dinf_box ops = \<lparr>bt_name = fourcc ''dinf'', bt_demux = dinf_demux ops, bt_primitive_size = dinf_primitive_size ops,
     bt_primitive_mux = dinf_primitive_mux ops, bt_validate = no_validate\<rparr>"

text \<open>Sample table box.\<close>

definition stbl_new :: "'d Stsd \<Rightarrow> Stts \<Rightarrow> Stsc \<Rightarrow> Stco \<Rightarrow> Stsz option \<Rightarrow> 'd Stbl" where
  "stbl_new stsd stts stsc stco stsz =
     Stbl (box_header_new (fourcc ''stbl'')) stsd stts None stsc stsz None stco None None None None None None None None []"

definition stbl_demux :: "dyn_ops \<Rightarrow> box_header \<Rightarrow> bytes \<Rightarrow> DynBox Stbl io_result" where
  "stbl_demux ops header = with_reader (
     bindE (read_while 0 (d_demux ops)) (\<lambda>bs.
     bindE (lift_result (required (last_of as_stsd bs))) (\<lambda>stsd.
     bindE (lift_result (required (last_of as_stts bs))) (\<lambda>stts.
     bindE (lift_result (required (last_of as_stsc bs))) (\<lambda>stsc.
     bindE (lift_result (required (last_of as_stco bs))) (\<lambda>stco.
     ret (Stbl header stsd stts (last_of as_ctts bs) stsc (last_of as_stsz bs) (last_of as_stz2 bs) stco (last_of as_co64 bs) (last_of as_stss bs) (last_of as_stsh bs) (last_of as_padb bs) (last_of as_stdp bs) (last_of as_sdtp bs) (last_of as_sbgp bs) (last_of as_subs bs)
       (none_of [is_kind as_stsd, is_kind as_stts, is_kind as_ctts, is_kind as_stsc, is_kind as_stsz, is_kind as_stz2, is_kind as_stco, is_kind as_co64, is_kind as_stss, is_kind as_stsh, is_kind as_padb, is_kind as_stdp, is_kind as_sdtp, is_kind as_sbgp, is_kind as_subs] bs))))))))"

definition stbl_primitive_size :: "dyn_ops \<Rightarrow> DynBox Stbl \<Rightarrow> nat" where
  "stbl_primitive_size ops b = box_size (stsd_box ops) (stbl_stsd b)
     + box_size stts_box (stbl_stts b)
     + case_option 0 (box_size ctts_box) (stbl_ctts b)
     + box_size stsc_box (stbl_stsc b)
     + case_option 0 (box_size stsz_box) (stbl_stsz b)
     + case_option 0 (box_size stz2_box) (stbl_stz2 b)
     + box_size stco_box (stbl_stco b)
     + case_option 0 (box_size co64_box) (stbl_co64 b)
     + case_option 0 (box_size stss_box) (stbl_stss b)
     + case_option 0 (box_size stsh_box) (stbl_stsh b)
     + case_option 0 (box_size padb_box) (stbl_padb b)
     + case_option 0 (box_size stdp_box) (stbl_stdp b)
     + case_option 0 (box_size sdtp_box) (stbl_sdtp b)
     + case_option 0 (box_size sbgp_box) (stbl_sbgp b)
     + case_option 0 (box_size subs_box) (stbl_subs b)
     + sum_list (map (d_size ops) (stbl_unknown b))"

definition stbl_primitive_mux :: "dyn_ops \<Rightarrow> DynBox Stbl \<Rightarrow> (bytes, io_error, unit) prog" where
  "stbl_primitive_mux ops b =
     bindE (box_mux (stsd_box ops) (stbl_stsd b)) (\<lambda>_.
     bindE (box_mux stts_box (stbl_stts b)) (\<lambda>_.
     bindE (write_opt (box_mux ctts_box) (stbl_ctts b)) (\<lambda>_.
     bindE (box_mux stsc_box (stbl_stsc b)) (\<lambda>_.
     bindE (write_opt (box_mux stsz_box) (stbl_stsz b)) (\<lambda>_.
     bindE (write_opt (box_mux stz2_box) (stbl_stz2 b)) (\<lambda>_.
     bindE (box_mux stco_box (stbl_stco b)) (\<lambda>_.
     bindE (write_opt (box_mux co64_box) (stbl_co64 b)) (\<lambda>_.
     bindE (write_opt (box_mux stss_box) (stbl_stss b)) (\<lambda>_.
     bindE (write_opt (box_mux stsh_box) (stbl_stsh b)) (\<lambda>_.
     bindE (write_opt (box_mux padb_box) (stbl_padb b)) (\<lambda>_.
     bindE (write_opt (box_mux stdp_box) (stbl_stdp b)) (\<lambda>_.
     bindE (write_opt (box_mux sdtp_box) (stbl_sdtp b)) (\<lambda>_.
     bindE (write_opt (box_mux sbgp_box) (stbl_sbgp b)) (\<lambda>_.
     bindE (write_opt (box_mux subs_box) (stbl_subs b)) (\<lambda>_.
     for_m (stbl_unknown b) (d_mux ops))))))))))))))))"

definition stbl_box :: "dyn_ops \<Rightarrow> DynBox Stbl box_type" where
  "stbl_box ops = \<lparr>bt_name = fourcc ''stbl'', bt_demux = stbl_demux ops, bt_primitive_size = stbl_primitive_size ops,
     bt_primitive_mux = stbl_primitive_mux ops, bt_validate = no_validate\<rparr>"

text \<open>Media information box.\<close>

definition minf_new :: "DynBox Stbl \<Rightarrow> Vmhd option \<Rightarrow> Smhd option \<Rightarrow> DynBox Minf" where
  "minf_new stbl vmhd smhd = Minf (box_header_new (fourcc ''minf'')) vmhd smhd None None dinf_new stbl []"

definition minf_demux :: "dyn_ops \<Rightarrow> box_header \<Rightarrow> bytes \<Rightarrow> DynBox Minf io_result" where
  "minf_demux ops header = with_reader (
     bindE (read_while 0 (d_demux ops)) (\<lambda>bs.
     bindE (lift_result (required (last_of as_dinf bs))) (\<lambda>dinf.
     bindE (lift_result (required (last_of as_stbl bs))) (\<lambda>stbl.
     ret (Minf header (last_of as_vmhd bs) (last_of as_smhd bs) (last_of as_hmhd bs) (last_of as_nmhd bs) dinf stbl
       (none_of [is_kind as_vmhd, is_kind as_smhd, is_kind as_hmhd, is_kind as_nmhd, is_kind as_dinf, is_kind as_stbl] bs))))))"

definition minf_primitive_size :: "dyn_ops \<Rightarrow> DynBox Minf \<Rightarrow> nat" where
  "minf_primitive_size ops b = case_option 0 (box_size vmhd_box) (minf_vmhd b)
     + case_option 0 (box_size smhd_box) (minf_smhd b)
     + case_option 0 (box_size hmhd_box) (minf_hmhd b)
     + case_option 0 (box_size nmhd_box) (minf_nmhd b)
     + box_size (dinf_box ops) (minf_dinf b)
     + box_size (stbl_box ops) (minf_stbl b)
     + sum_list (map (d_size ops) (minf_unknown b))"

definition minf_primitive_mux :: "dyn_ops \<Rightarrow> DynBox Minf \<Rightarrow> (bytes, io_error, unit) prog" where
  "minf_primitive_mux ops b =
     bindE (write_opt (box_mux vmhd_box) (minf_vmhd b)) (\<lambda>_.
     bindE (write_opt (box_mux smhd_box) (minf_smhd b)) (\<lambda>_.
     bindE (write_opt (box_mux hmhd_box) (minf_hmhd b)) (\<lambda>_.
     bindE (write_opt (box_mux nmhd_box) (minf_nmhd b)) (\<lambda>_.
     bindE (box_mux (dinf_box ops) (minf_dinf b)) (\<lambda>_.
     bindE (box_mux (stbl_box ops) (minf_stbl b)) (\<lambda>_.
     for_m (minf_unknown b) (d_mux ops)))))))"

definition minf_box :: "dyn_ops \<Rightarrow> DynBox Minf box_type" where
  "minf_box ops = \<lparr>bt_name = fourcc ''minf'', bt_demux = minf_demux ops, bt_primitive_size = minf_primitive_size ops,
     bt_primitive_mux = minf_primitive_mux ops, bt_validate = no_validate\<rparr>"

text \<open>Media box.\<close>

definition mdia_new :: "Mdhd \<Rightarrow> Hdlr \<Rightarrow> 'd Minf \<Rightarrow> 'd Mdia" where
  "mdia_new mdhd hdlr minf = Mdia (box_header_new (fourcc ''mdia'')) mdhd hdlr minf []"

definition mdia_demux :: "dyn_ops \<Rightarrow> box_header \<Rightarrow> bytes \<Rightarrow> DynBox Mdia io_result" where
  "mdia_demux ops header = with_reader (
     bindE (read_while 0 (d_demux ops)) (\<lambda>bs.
     bindE (lift_result (required (last_of as_mdhd bs))) (\<lambda>mdhd.
     bindE (lift_result (required (last_of as_hdlr bs))) (\<lambda>hdlr.
     bindE (lift_result (required (last_of as_minf bs))) (\<lambda>minf.
     ret (Mdia header mdhd hdlr minf
       (none_of [is_kind as_mdhd, is_kind as_hdlr, is_kind as_minf] bs)))))))"

definition mdia_primitive_size :: "dyn_ops \<Rightarrow> DynBox Mdia \<Rightarrow> nat" where
  "mdia_primitive_size ops b = box_size mdhd_box (mdia_mdhd b)
     + box_size hdlr_box (mdia_hdlr b)
     + box_size (minf_box ops) (mdia_minf b)
     + sum_list (map (d_size ops) (mdia_unknown b))"

definition mdia_primitive_mux :: "dyn_ops \<Rightarrow> DynBox Mdia \<Rightarrow> (bytes, io_error, unit) prog" where
  "mdia_primitive_mux ops b =
     bindE (box_mux mdhd_box (mdia_mdhd b)) (\<lambda>_.
     bindE (box_mux hdlr_box (mdia_hdlr b)) (\<lambda>_.
     bindE (box_mux (minf_box ops) (mdia_minf b)) (\<lambda>_.
     for_m (mdia_unknown b) (d_mux ops))))"

definition mdia_box :: "dyn_ops \<Rightarrow> DynBox Mdia box_type" where
  "mdia_box ops = \<lparr>bt_name = fourcc ''mdia'', bt_demux = mdia_demux ops, bt_primitive_size = mdia_primitive_size ops,
     bt_primitive_mux = mdia_primitive_mux ops, bt_validate = no_validate\<rparr>"

text \<open>Edit box.\<close>

definition edts_new :: "Elst option \<Rightarrow> 'd Edts" where
  "edts_new elst = Edts (box_header_new (fourcc ''edts'')) elst []"

definition edts_demux :: "dyn_ops \<Rightarrow> box_header \<Rightarrow> bytes \<Rightarrow> DynBox Edts io_result" where
  "edts_demux ops header = with_reader (
     bindE (read_while 0 (d_demux ops)) (\<lambda>bs.
     ret (Edts header (last_of as_elst bs)
       (none_of [is_kind as_elst] bs))))"

definition edts_primitive_size :: "dyn_ops \<Rightarrow> DynBox Edts \<Rightarrow> nat" where
  "edts_primitive_size ops b = case_option 0 (box_size elst_box) (edts_elst b)
     + sum_list (map (d_size ops) (edts_unknown b))"

definition edts_primitive_mux :: "dyn_ops \<Rightarrow> DynBox Edts \<Rightarrow> (bytes, io_error, unit) prog" where
  "edts_primitive_mux ops b =
     bindE (write_opt (box_mux elst_box) (edts_elst b)) (\<lambda>_.
     for_m (edts_unknown b) (d_mux ops))"

definition edts_box :: "dyn_ops \<Rightarrow> DynBox Edts box_type" where
  "edts_box ops = \<lparr>bt_name = fourcc ''edts'', bt_demux = edts_demux ops, bt_primitive_size = edts_primitive_size ops,
     bt_primitive_mux = edts_primitive_mux ops, bt_validate = no_validate\<rparr>"

section \<open>Movies\<close>

text \<open>Track box.\<close>

definition trak_new :: "Tkhd \<Rightarrow> 'd Edts option \<Rightarrow> 'd Mdia \<Rightarrow> 'd Trak" where
  "trak_new tkhd edts mdia = Trak (box_header_new (fourcc ''trak'')) tkhd edts mdia []"

definition trak_demux :: "dyn_ops \<Rightarrow> box_header \<Rightarrow> bytes \<Rightarrow> DynBox Trak io_result" where
  "trak_demux ops header = with_reader (
     bindE (read_while 0 (d_demux ops)) (\<lambda>bs.
     bindE (lift_result (required (last_of as_tkhd bs))) (\<lambda>tkhd.
     bindE (lift_result (required (last_of as_mdia bs))) (\<lambda>mdia.
     ret (Trak header tkhd (last_of as_edts bs) mdia
       (none_of [is_kind as_tkhd, is_kind as_edts, is_kind as_mdia] bs))))))"

definition trak_primitive_size :: "dyn_ops \<Rightarrow> DynBox Trak \<Rightarrow> nat" where
  "trak_primitive_size ops b = box_size tkhd_box (trak_tkhd b)
     + case_option 0 (box_size (edts_box ops)) (trak_edts b)
     + box_size (mdia_box ops) (trak_mdia b)
     + sum_list (map (d_size ops) (trak_unknown b))"

definition trak_primitive_mux :: "dyn_ops \<Rightarrow> DynBox Trak \<Rightarrow> (bytes, io_error, unit) prog" where
  "trak_primitive_mux ops b =
     bindE (box_mux tkhd_box (trak_tkhd b)) (\<lambda>_.
     bindE (write_opt (box_mux (edts_box ops)) (trak_edts b)) (\<lambda>_.
     bindE (box_mux (mdia_box ops) (trak_mdia b)) (\<lambda>_.
     for_m (trak_unknown b) (d_mux ops))))"

definition trak_box :: "dyn_ops \<Rightarrow> DynBox Trak box_type" where
  "trak_box ops = \<lparr>bt_name = fourcc ''trak'', bt_demux = trak_demux ops, bt_primitive_size = trak_primitive_size ops,
     bt_primitive_mux = trak_primitive_mux ops, bt_validate = no_validate\<rparr>"

text \<open>Movie extends box.\<close>

definition mvex_new :: "Trex list \<Rightarrow> Mehd option \<Rightarrow> 'd Mvex" where
  "mvex_new trex mehd = Mvex (box_header_new (fourcc ''mvex'')) trex mehd []"

definition mvex_demux :: "dyn_ops \<Rightarrow> box_header \<Rightarrow> bytes \<Rightarrow> DynBox Mvex io_result" where
  "mvex_demux ops header = with_reader (
     bindE (read_while 0 (d_demux ops)) (\<lambda>bs.
     ret (Mvex header (all_of as_trex bs) (last_of as_mehd bs)
       (none_of [is_kind as_trex, is_kind as_mehd] bs))))"

definition mvex_primitive_size :: "dyn_ops \<Rightarrow> DynBox Mvex \<Rightarrow> nat" where
  "mvex_primitive_size ops b = sum_list (map (box_size trex_box) (mvex_trex b))
     + case_option 0 (box_size mehd_box) (mvex_mehd b)
     + sum_list (map (d_size ops) (mvex_unknown b))"

definition mvex_primitive_mux :: "dyn_ops \<Rightarrow> DynBox Mvex \<Rightarrow> (bytes, io_error, unit) prog" where
  "mvex_primitive_mux ops b =
     bindE (for_m (mvex_trex b) (box_mux trex_box)) (\<lambda>_.
     bindE (write_opt (box_mux mehd_box) (mvex_mehd b)) (\<lambda>_.
     for_m (mvex_unknown b) (d_mux ops)))"

definition mvex_box :: "dyn_ops \<Rightarrow> DynBox Mvex box_type" where
  "mvex_box ops = \<lparr>bt_name = fourcc ''mvex'', bt_demux = mvex_demux ops, bt_primitive_size = mvex_primitive_size ops,
     bt_primitive_mux = mvex_primitive_mux ops, bt_validate = no_validate\<rparr>"

text \<open>Movie box.\<close>

definition moov_new :: "Mvhd \<Rightarrow> 'd Trak list \<Rightarrow> 'd Mvex option \<Rightarrow> 'd Moov" where
  "moov_new mvhd traks mvex = Moov (box_header_new (fourcc ''moov'')) mvhd traks mvex []"

definition moov_demux :: "dyn_ops \<Rightarrow> box_header \<Rightarrow> bytes \<Rightarrow> DynBox Moov io_result" where
  "moov_demux ops header = with_reader (
     bindE (read_while 0 (d_demux ops)) (\<lambda>bs.
     bindE (lift_result (required (last_of as_mvhd bs))) (\<lambda>mvhd.
     ret (Moov header mvhd (all_of as_trak bs) (last_of as_mvex bs)
       (none_of [is_kind as_mvhd, is_kind as_trak, is_kind as_mvex] bs)))))"

definition moov_primitive_size :: "dyn_ops \<Rightarrow> DynBox Moov \<Rightarrow> nat" where
  "moov_primitive_size ops b = box_size mvhd_box (moov_mvhd b)
     + sum_list (map (box_size (trak_box ops)) (moov_traks b))
     + case_option 0 (box_size (mvex_box ops)) (moov_mvex b)
     + sum_list (map (d_size ops) (moov_unknown b))"

definition moov_primitive_mux :: "dyn_ops \<Rightarrow> DynBox Moov \<Rightarrow> (bytes, io_error, unit) prog" where
  "moov_primitive_mux ops b =
     bindE (box_mux mvhd_box (moov_mvhd b)) (\<lambda>_.
     bindE (for_m (moov_traks b) (box_mux (trak_box ops))) (\<lambda>_.
     bindE (write_opt (box_mux (mvex_box ops)) (moov_mvex b)) (\<lambda>_.
     for_m (moov_unknown b) (d_mux ops))))"

definition moov_box :: "dyn_ops \<Rightarrow> DynBox Moov box_type" where
  "moov_box ops = \<lparr>bt_name = fourcc ''moov'', bt_demux = moov_demux ops, bt_primitive_size = moov_primitive_size ops,
     bt_primitive_mux = moov_primitive_mux ops, bt_validate = no_validate\<rparr>"

section \<open>Fragments\<close>

text \<open>Track fragment box.\<close>

definition traf_new :: "Tfhd \<Rightarrow> Trun option \<Rightarrow> Tfdt option \<Rightarrow> 'd Traf" where
  "traf_new tfhd trun tfdt = Traf (box_header_new (fourcc ''traf'')) tfhd trun None None tfdt []"

definition traf_demux :: "dyn_ops \<Rightarrow> box_header \<Rightarrow> bytes \<Rightarrow> DynBox Traf io_result" where
  "traf_demux ops header = with_reader (
     bindE (read_while 0 (d_demux ops)) (\<lambda>bs.
     bindE (lift_result (required (last_of as_tfhd bs))) (\<lambda>tfhd.
     ret (Traf header tfhd (last_of as_trun bs) (last_of as_sbgp bs) (last_of as_subs bs) (last_of as_tfdt bs)
       (none_of [is_kind as_tfhd, is_kind as_trun, is_kind as_sbgp, is_kind as_subs, is_kind as_tfdt] bs)))))"

definition traf_primitive_size :: "dyn_ops \<Rightarrow> DynBox Traf \<Rightarrow> nat" where
  "traf_primitive_size ops b = box_size tfhd_box (traf_tfhd b)
     + case_option 0 (box_size trun_box) (traf_trun b)
     + case_option 0 (box_size sbgp_box) (traf_sbgp b)
     + case_option 0 (box_size subs_box) (traf_subs b)
     + case_option 0 (box_size tfdt_box) (traf_tfdt b)
     + sum_list (map (d_size ops) (traf_unknown b))"

definition traf_primitive_mux :: "dyn_ops \<Rightarrow> DynBox Traf \<Rightarrow> (bytes, io_error, unit) prog" where
  "traf_primitive_mux ops b =
     bindE (box_mux tfhd_box (traf_tfhd b)) (\<lambda>_.
     bindE (write_opt (box_mux sbgp_box) (traf_sbgp b)) (\<lambda>_.
     bindE (write_opt (box_mux subs_box) (traf_subs b)) (\<lambda>_.
     bindE (write_opt (box_mux tfdt_box) (traf_tfdt b)) (\<lambda>_.
     bindE (for_m (traf_unknown b) (d_mux ops)) (\<lambda>_.
     write_opt (box_mux trun_box) (traf_trun b))))))"

definition traf_box :: "dyn_ops \<Rightarrow> DynBox Traf box_type" where
  "traf_box ops = \<lparr>bt_name = fourcc ''traf'', bt_demux = traf_demux ops, bt_primitive_size = traf_primitive_size ops,
     bt_primitive_mux = traf_primitive_mux ops, bt_validate = no_validate\<rparr>"

text \<open>Movie fragment box.\<close>

definition moof_new :: "Mfhd \<Rightarrow> 'd Traf list \<Rightarrow> 'd Moof" where
  "moof_new mfhd traf = Moof (box_header_new (fourcc ''moof'')) mfhd traf []"

definition moof_demux :: "dyn_ops \<Rightarrow> box_header \<Rightarrow> bytes \<Rightarrow> DynBox Moof io_result" where
  "moof_demux ops header = with_reader (
     bindE (read_while 0 (d_demux ops)) (\<lambda>bs.
     bindE (lift_result (required (last_of as_mfhd bs))) (\<lambda>mfhd.
     ret (Moof header mfhd (all_of as_traf bs)
       (none_of [is_kind as_mfhd, is_kind as_traf] bs)))))"

definition moof_primitive_size :: "dyn_ops \<Rightarrow> DynBox Moof \<Rightarrow> nat" where
  "moof_primitive_size ops b = box_size mfhd_box (moof_mfhd b)
     + sum_list (map (box_size (traf_box ops)) (moof_traf b))
     + sum_list (map (d_size ops) (moof_unknown b))"

definition moof_primitive_mux :: "dyn_ops \<Rightarrow> DynBox Moof \<Rightarrow> (bytes, io_error, unit) prog" where
  "moof_primitive_mux ops b =
     bindE (box_mux mfhd_box (moof_mfhd b)) (\<lambda>_.
     bindE (for_m (moof_traf b) (box_mux (traf_box ops))) (\<lambda>_.
     for_m (moof_unknown b) (d_mux ops)))"

definition moof_box :: "dyn_ops \<Rightarrow> DynBox Moof box_type" where
  "moof_box ops = \<lparr>bt_name = fourcc ''moof'', bt_demux = moof_demux ops, bt_primitive_size = moof_primitive_size ops,
     bt_primitive_mux = moof_primitive_mux ops, bt_validate = no_validate\<rparr>"

section \<open>Codec boxes\<close>

text \<open>The boxes that complete a visual sample entry.\<close>

definition attach_boxes :: "VisualSampleEntry SampleEntry \<Rightarrow> DynBox list \<Rightarrow> VisualSampleEntry SampleEntry" where
  "attach_boxes entry bs = entry\<lparr>se_extension := (se_extension entry)\<lparr>vse_clap := last_of as_clap bs,
     vse_pasp := last_of as_pasp bs, vse_colr := last_of as_colr bs\<rparr>\<rparr>"

text \<open>AVC sample entry box.\<close>

definition avc1_new :: "VisualSampleEntry SampleEntry \<Rightarrow> AvcC \<Rightarrow> Btrt option \<Rightarrow> 'd Avc1" where
  "avc1_new entry avcc btrt = Avc1 (box_header_new (fourcc ''avc1'')) entry avcc btrt []"

definition avc1_demux :: "dyn_ops \<Rightarrow> box_header \<Rightarrow> bytes \<Rightarrow> DynBox Avc1 io_result" where
  "avc1_demux ops header = with_reader (
     bindE (sample_entry_demux visual_ext) (\<lambda>entry.
     bindE (read_while 0 (d_demux ops)) (\<lambda>bs.
     bindE (lift_result (required (last_of as_avcc bs))) (\<lambda>avcc.
     ret (Avc1 header (attach_boxes entry bs) avcc (last_of as_btrt bs)
       (none_of [is_kind as_avcc, is_kind as_btrt, is_kind as_clap, is_kind as_pasp, is_kind as_colr] bs))))))"

definition avc1_primitive_size :: "dyn_ops \<Rightarrow> DynBox Avc1 \<Rightarrow> nat" where
  "avc1_primitive_size ops b = sample_entry_size visual_ext (avc1_visual_sample_entry b)
     + box_size avcc_box (avc1_avcc b)
     + case_option 0 (box_size btrt_box) (avc1_btrt b)
     + sum_list (map (d_size ops) (avc1_unknown b))"

definition avc1_primitive_mux :: "dyn_ops \<Rightarrow> DynBox Avc1 \<Rightarrow> (bytes, io_error, unit) prog" where
  "avc1_primitive_mux ops b =
     bindE (sample_entry_mux visual_ext (avc1_visual_sample_entry b)) (\<lambda>_.
     bindE (box_mux avcc_box (avc1_avcc b)) (\<lambda>_.
     bindE (write_opt (box_mux btrt_box) (avc1_btrt b)) (\<lambda>_.
     for_m (avc1_unknown b) (d_mux ops))))"

definition avc1_box :: "dyn_ops \<Rightarrow> DynBox Avc1 box_type" where
  "avc1_box ops = \<lparr>bt_name = fourcc ''avc1'', bt_demux = avc1_demux ops, bt_primitive_size = avc1_primitive_size ops,
     bt_primitive_mux = avc1_primitive_mux ops, bt_validate = no_validate\<rparr>"

text \<open>HEVC sample entry box.\<close>

definition hev1_new :: "VisualSampleEntry SampleEntry \<Rightarrow> HvcC \<Rightarrow> Btrt option \<Rightarrow> 'd Hev1" where
  "hev1_new entry hvcc btrt = Hev1 (box_header_new (fourcc ''hev1'')) entry hvcc btrt []"

definition hev1_demux :: "dyn_ops \<Rightarrow> box_header \<Rightarrow> bytes \<Rightarrow> DynBox Hev1 io_result" where
  "hev1_demux ops header = with_reader (
     bindE (sample_entry_demux visual_ext) (\<lambda>entry.
     bindE (read_while 0 (d_demux ops)) (\<lambda>bs.
     bindE (lift_result (required (last_of as_hvcc bs))) (\<lambda>hvcc.
     ret (Hev1 header (attach_boxes entry bs) hvcc (last_of as_btrt bs)
       (none_of [is_kind as_hvcc, is_kind as_btrt, is_kind as_clap, is_kind as_pasp, is_kind as_colr] bs))))))"

definition hev1_primitive_size :: "dyn_ops \<Rightarrow> DynBox Hev1 \<Rightarrow> nat" where
  "hev1_primitive_size ops b = sample_entry_size visual_ext (hev1_visual_sample_entry b)
     + box_size hvcc_box (hev1_hvcc b)
     + case_option 0 (box_size btrt_box) (hev1_btrt b)
     + sum_list (map (d_size ops) (hev1_unknown b))"

definition hev1_primitive_mux :: "dyn_ops \<Rightarrow> DynBox Hev1 \<Rightarrow> (bytes, io_error, unit) prog" where
  "hev1_primitive_mux ops b =
     bindE (sample_entry_mux visual_ext (hev1_visual_sample_entry b)) (\<lambda>_.
     bindE (box_mux hvcc_box (hev1_hvcc b)) (\<lambda>_.
     bindE (write_opt (box_mux btrt_box) (hev1_btrt b)) (\<lambda>_.
     for_m (hev1_unknown b) (d_mux ops))))"

definition hev1_box :: "dyn_ops \<Rightarrow> DynBox Hev1 box_type" where
  "hev1_box ops = \<lparr>bt_name = fourcc ''hev1'', bt_demux = hev1_demux ops, bt_primitive_size = hev1_primitive_size ops,
     bt_primitive_mux = hev1_primitive_mux ops, bt_validate = no_validate\<rparr>"

text \<open>AV1 sample entry box.\<close>

definition av01_new :: "VisualSampleEntry SampleEntry \<Rightarrow> Av1C \<Rightarrow> Btrt option \<Rightarrow> 'd Av01" where
  "av01_new entry av1c btrt = Av01 (box_header_new (fourcc ''av01'')) entry av1c btrt []"

definition av01_demux :: "dyn_ops \<Rightarrow> box_header \<Rightarrow> bytes \<Rightarrow> DynBox Av01 io_result" where
  "av01_demux ops header = with_reader (
     bindE (sample_entry_demux visual_ext) (\<lambda>entry.
     bindE (read_while 0 (d_demux ops)) (\<lambda>bs.
     bindE (lift_result (required (last_of as_av1c bs))) (\<lambda>av1c.
     ret (Av01 header (attach_boxes entry bs) av1c (last_of as_btrt bs)
       (none_of [is_kind as_av1c, is_kind as_btrt, is_kind as_clap, is_kind as_pasp, is_kind as_colr] bs))))))"

definition av01_primitive_size :: "dyn_ops \<Rightarrow> DynBox Av01 \<Rightarrow> nat" where
  "av01_primitive_size ops b = sample_entry_size visual_ext (av01_visual_sample_entry b)
     + box_size av1c_box (av01_av1c b)
     + case_option 0 (box_size btrt_box) (av01_btrt b)
     + sum_list (map (d_size ops) (av01_unknown b))"

definition av01_primitive_mux :: "dyn_ops \<Rightarrow> DynBox Av01 \<Rightarrow> (bytes, io_error, unit) prog" where
  "av01_primitive_mux ops b =
     bindE (sample_entry_mux visual_ext (av01_visual_sample_entry b)) (\<lambda>_.
     bindE (box_mux av1c_box (av01_av1c b)) (\<lambda>_.
     bindE (write_opt (box_mux btrt_box) (av01_btrt b)) (\<lambda>_.
     for_m (av01_unknown b) (d_mux ops))))"

definition av01_box :: "dyn_ops \<Rightarrow> DynBox Av01 box_type" where
  "av01_box ops = \<lparr>bt_name = fourcc ''av01'', bt_demux = av01_demux ops, bt_primitive_size = av01_primitive_size ops,
     bt_primitive_mux = av01_primitive_mux ops, bt_validate = no_validate\<rparr>"

text \<open>AAC sample entry box.\<close>

definition mp4a_new :: "AudioSampleEntry SampleEntry \<Rightarrow> Esds \<Rightarrow> Btrt option \<Rightarrow> 'd Mp4a" where
  "mp4a_new entry esds btrt = Mp4a (box_header_new (fourcc ''mp4a'')) entry esds btrt []"

definition mp4a_demux :: "dyn_ops \<Rightarrow> box_header \<Rightarrow> bytes \<Rightarrow> DynBox Mp4a io_result" where
  "mp4a_demux ops header = with_reader (
     bindE (sample_entry_demux audio_ext) (\<lambda>entry.
     bindE (read_while 0 (d_demux ops)) (\<lambda>bs.
     bindE (lift_result (required (last_of as_esds bs))) (\<lambda>esds.
     ret (Mp4a header entry esds (last_of as_btrt bs)
       (none_of [is_kind as_esds, is_kind as_btrt] bs))))))"

definition mp4a_primitive_size :: "dyn_ops \<Rightarrow> DynBox Mp4a \<Rightarrow> nat" where
  "mp4a_primitive_size ops b = sample_entry_size audio_ext (mp4a_audio_sample_entry b)
     + case_option 0 (box_size btrt_box) (mp4a_btrt b)
     + box_size (esds_box (d_desc ops)) (mp4a_esds b)
     + sum_list (map (d_size ops) (mp4a_unknown b))"

definition mp4a_primitive_mux :: "dyn_ops \<Rightarrow> DynBox Mp4a \<Rightarrow> (bytes, io_error, unit) prog" where
  "mp4a_primitive_mux ops b =
     bindE (sample_entry_mux audio_ext (mp4a_audio_sample_entry b)) (\<lambda>_.
     bindE (box_mux (esds_box (d_desc ops)) (mp4a_esds b)) (\<lambda>_.
     bindE (write_opt (box_mux btrt_box) (mp4a_btrt b)) (\<lambda>_.
     for_m (mp4a_unknown b) (d_mux ops))))"

definition mp4a_box :: "dyn_ops \<Rightarrow> DynBox Mp4a box_type" where
  "mp4a_box ops = \<lparr>bt_name = fourcc ''mp4a'', bt_demux = mp4a_demux ops, bt_primitive_size = mp4a_primitive_size ops,
     bt_primitive_mux = mp4a_primitive_mux ops, bt_validate = no_validate\<rparr>"

text \<open>Opus sample entry box.\<close>

definition opus_new :: "AudioSampleEntry SampleEntry \<Rightarrow> Btrt option \<Rightarrow> 'd Opus" where
  "opus_new entry btrt = Opus (box_header_new (fourcc ''Opus'')) entry btrt []"

definition opus_demux :: "dyn_ops \<Rightarrow> box_header \<Rightarrow> bytes \<Rightarrow> DynBox Opus io_result" where
  "opus_demux ops header = with_reader (
     bindE (sample_entry_demux audio_ext) (\<lambda>entry.
     bindE (read_while 0 (d_demux ops)) (\<lambda>bs.
     ret (Opus header entry (last_of as_btrt bs)
       (none_of [is_kind as_btrt] bs)))))"

definition opus_primitive_size :: "dyn_ops \<Rightarrow> DynBox Opus \<Rightarrow> nat" where
  "opus_primitive_size ops b = sample_entry_size audio_ext (opus_audio_sample_entry b)
     + case_option 0 (box_size btrt_box) (opus_btrt b)
     + sum_list (map (d_size ops) (opus_unknown b))"

definition opus_primitive_mux :: "dyn_ops \<Rightarrow> DynBox Opus \<Rightarrow> (bytes, io_error, unit) prog" where
  "opus_primitive_mux ops b =
     bindE (sample_entry_mux audio_ext (opus_audio_sample_entry b)) (\<lambda>_.
     bindE (write_opt (box_mux btrt_box) (opus_btrt b)) (\<lambda>_.
     for_m (opus_unknown b) (d_mux ops)))"

definition opus_box :: "dyn_ops \<Rightarrow> DynBox Opus box_type" where
  "opus_box ops = \<lparr>bt_name = fourcc ''Opus'', bt_demux = opus_demux ops, bt_primitive_size = opus_primitive_size ops,
     bt_primitive_mux = opus_primitive_mux ops, bt_validate = no_validate\<rparr>"

section \<open>All boxes\<close>

definition variant :: "'b box_type \<Rightarrow> ('b \<Rightarrow> DynBox) \<Rightarrow> bytes \<times> (box_header \<Rightarrow> bytes \<Rightarrow> DynBox io_result)" where
  "variant bt C = (bt_name bt, \<lambda>header data. map_ok C (bt_demux bt header data))"

definition variants :: "dyn_ops \<Rightarrow> (bytes \<times> (box_header \<Rightarrow> bytes \<Rightarrow> DynBox io_result)) list" where
  "variants ops = [variant ftyp_box BFtyp,
     variant (moov_box ops) BMoov,
     variant mvhd_box BMvhd,
     variant (mvex_box ops) BMvex,
     variant (trak_box ops) BTrak,
     variant trex_box BTrex,
     variant mehd_box BMehd,
     variant (mdia_box ops) BMdia,
     variant tkhd_box BTkhd,
     variant (edts_box ops) BEdts,
     variant elst_box BElst,
     variant mdhd_box BMdhd,
     variant (minf_box ops) BMinf,
     variant hdlr_box BHdlr,
     variant (dinf_box ops) BDinf,
     variant (stbl_box ops) BStbl,
     variant hmhd_box BHmhd,
     variant nmhd_box BNmhd,
     variant smhd_box BSmhd,
     variant vmhd_box BVmhd,
     variant (dref_box ops) BDref,
     variant (stsd_box ops) BStsd,
     variant stsz_box BStsz,
     variant stsc_box BStsc,
     variant stco_box BStco,
     variant co64_box BCo64,
     variant stts_box BStts,
     variant stss_box BStss,
     variant stz2_box BStz2,
     variant stsh_box BStsh,
     variant ctts_box BCtts,
     variant stdp_box BStdp,
     variant sbgp_box BSbgp,
     variant subs_box BSubs,
     variant padb_box BPadb,
     variant sdtp_box BSdtp,
     variant url_box BUrl,
     variant (avc1_box ops) BAvc1,
     variant clap_box BClap,
     variant pasp_box BPasp,
     variant avcc_box BAvcC,
     variant btrt_box BBtrt,
     variant (mp4a_box ops) BMp4a,
     variant (esds_box (d_desc ops)) BEsds,
     variant (moof_box ops) BMoof,
     variant mfhd_box BMfhd,
     variant (traf_box ops) BTraf,
     variant tfhd_box BTfhd,
     variant tfdt_box BTfdt,
     variant trun_box BTrun,
     variant mdat_box BMdat,
     variant (av01_box ops) BAv01,
     variant av1c_box BAv1C,
     variant colr_box BColr,
     variant (hev1_box ops) BHev1,
     variant hvcc_box BHvcC,
     variant (opus_box ops) BOpus]"

definition dyn_box_demux :: "dyn_ops \<Rightarrow> (cursor, io_error, DynBox) prog" where
  "dyn_box_demux ops =
     bindE box_header_demux (\<lambda>(header, data).
     lift_result (case map_of (variants ops) (bh_box_type header) of
         Some demux \<Rightarrow> demux header data
       | None \<Rightarrow> Ok (BUnknown header data)))"

definition dyn_box_size :: "dyn_ops \<Rightarrow> DynBox \<Rightarrow> nat" where
  "dyn_box_size ops b = (case b of
       BFtyp x \<Rightarrow> box_size ftyp_box x
     | BMoov x \<Rightarrow> box_size (moov_box ops) x
     | BMvhd x \<Rightarrow> box_size mvhd_box x
     | BMvex x \<Rightarrow> box_size (mvex_box ops) x
     | BTrak x \<Rightarrow> box_size (trak_box ops) x
     | BTrex x \<Rightarrow> box_size trex_box x
     | BMehd x \<Rightarrow> box_size mehd_box x
     | BMdia x \<Rightarrow> box_size (mdia_box ops) x
     | BTkhd x \<Rightarrow> box_size tkhd_box x
     | BEdts x \<Rightarrow> box_size (edts_box ops) x
     | BElst x \<Rightarrow> box_size elst_box x
     | BMdhd x \<Rightarrow> box_size mdhd_box x
     | BMinf x \<Rightarrow> box_size (minf_box ops) x
     | BHdlr x \<Rightarrow> box_size hdlr_box x
     | BDinf x \<Rightarrow> box_size (dinf_box ops) x
     | BStbl x \<Rightarrow> box_size (stbl_box ops) x
     | BHmhd x \<Rightarrow> box_size hmhd_box x
     | BNmhd x \<Rightarrow> box_size nmhd_box x
     | BSmhd x \<Rightarrow> box_size smhd_box x
     | BVmhd x \<Rightarrow> box_size vmhd_box x
     | BDref x \<Rightarrow> box_size (dref_box ops) x
     | BStsd x \<Rightarrow> box_size (stsd_box ops) x
     | BStsz x \<Rightarrow> box_size stsz_box x
     | BStsc x \<Rightarrow> box_size stsc_box x
     | BStco x \<Rightarrow> box_size stco_box x
     | BCo64 x \<Rightarrow> box_size co64_box x
     | BStts x \<Rightarrow> box_size stts_box x
     | BStss x \<Rightarrow> box_size stss_box x
     | BStz2 x \<Rightarrow> box_size stz2_box x
     | BStsh x \<Rightarrow> box_size stsh_box x
     | BCtts x \<Rightarrow> box_size ctts_box x
     | BStdp x \<Rightarrow> box_size stdp_box x
     | BSbgp x \<Rightarrow> box_size sbgp_box x
     | BSubs x \<Rightarrow> box_size subs_box x
     | BPadb x \<Rightarrow> box_size padb_box x
     | BSdtp x \<Rightarrow> box_size sdtp_box x
     | BUrl x \<Rightarrow> box_size url_box x
     | BAvc1 x \<Rightarrow> box_size (avc1_box ops) x
     | BClap x \<Rightarrow> box_size clap_box x
     | BPasp x \<Rightarrow> box_size pasp_box x
     | BAvcC x \<Rightarrow> box_size avcc_box x
     | BBtrt x \<Rightarrow> box_size btrt_box x
     | BMp4a x \<Rightarrow> box_size (mp4a_box ops) x
     | BEsds x \<Rightarrow> box_size (esds_box (d_desc ops)) x
     | BMoof x \<Rightarrow> box_size (moof_box ops) x
     | BMfhd x \<Rightarrow> box_size mfhd_box x
     | BTraf x \<Rightarrow> box_size (traf_box ops) x
     | BTfhd x \<Rightarrow> box_size tfhd_box x
     | BTfdt x \<Rightarrow> box_size tfdt_box x
     | BTrun x \<Rightarrow> box_size trun_box x
     | BMdat x \<Rightarrow> box_size mdat_box x
     | BAv01 x \<Rightarrow> box_size (av01_box ops) x
     | BAv1C x \<Rightarrow> box_size av1c_box x
     | BColr x \<Rightarrow> box_size colr_box x
     | BHev1 x \<Rightarrow> box_size (hev1_box ops) x
     | BHvcC x \<Rightarrow> box_size hvcc_box x
     | BOpus x \<Rightarrow> box_size (opus_box ops) x
     | BUnknown _ data \<Rightarrow> (let n = length data + 8 in if n > u32_max then n + 8 else n))"

text \<open>A box of unknown type is written with its data length plus 8 even when the length takes 64 bits.\<close>

definition write_unknown :: "box_header \<Rightarrow> bytes \<Rightarrow> (bytes, io_error, unit) prog" where
  "write_unknown header data =
     (let n = length data + 8 in
      bindE (if n > u32_max then write_u32 1 else write_u32 (word_of_nat n)) (\<lambda>_.
      bindE (write_all (bh_box_type header)) (\<lambda>_.
      bindE (if n > u32_max then write_u64 (word_of_nat n) else ret ()) (\<lambda>_.
      write_all data))))"

definition dyn_box_mux :: "dyn_ops \<Rightarrow> DynBox \<Rightarrow> (bytes, io_error, unit) prog" where
  "dyn_box_mux ops b = (case b of
       BFtyp x \<Rightarrow> box_mux ftyp_box x
     | BMoov x \<Rightarrow> box_mux (moov_box ops) x
     | BMvhd x \<Rightarrow> box_mux mvhd_box x
     | BMvex x \<Rightarrow> box_mux (mvex_box ops) x
     | BTrak x \<Rightarrow> box_mux (trak_box ops) x
     | BTrex x \<Rightarrow> box_mux trex_box x
     | BMehd x \<Rightarrow> box_mux mehd_box x
     | BMdia x \<Rightarrow> box_mux (mdia_box ops) x
     | BTkhd x \<Rightarrow> box_mux tkhd_box x
     | BEdts x \<Rightarrow> box_mux (edts_box ops) x
     | BElst x \<Rightarrow> box_mux elst_box x
     | BMdhd x \<Rightarrow> box_mux mdhd_box x
     | BMinf x \<Rightarrow> box_mux (minf_box ops) x
     | BHdlr x \<Rightarrow> box_mux hdlr_box x
     | BDinf x \<Rightarrow> box_mux (dinf_box ops) x
     | BStbl x \<Rightarrow> box_mux (stbl_box ops) x
     | BHmhd x \<Rightarrow> box_mux hmhd_box x
     | BNmhd x \<Rightarrow> box_mux nmhd_box x
     | BSmhd x \<Rightarrow> box_mux smhd_box x
     | BVmhd x \<Rightarrow> box_mux vmhd_box x
     | BDref x \<Rightarrow> box_mux (dref_box ops) x
     | BStsd x \<Rightarrow> box_mux (stsd_box ops) x
     | BStsz x \<Rightarrow> box_mux stsz_box x
     | BStsc x \<Rightarrow> box_mux stsc_box x
     | BStco x \<Rightarrow> box_mux stco_box x
     | BCo64 x \<Rightarrow> box_mux co64_box x
     | BStts x \<Rightarrow> box_mux stts_box x
     | BStss x \<Rightarrow> box_mux stss_box x
     | BStz2 x \<Rightarrow> box_mux stz2_box x
     | BStsh x \<Rightarrow> box_mux stsh_box x
     | BCtts x \<Rightarrow> box_mux ctts_box x
     | BStdp x \<Rightarrow> box_mux stdp_box x
     | BSbgp x \<Rightarrow> box_mux sbgp_box x
     | BSubs x \<Rightarrow> box_mux subs_box x
     | BPadb x \<Rightarrow> box_mux padb_box x
     | BSdtp x \<Rightarrow> box_mux sdtp_box x
     | BUrl x \<Rightarrow> box_mux url_box x
     | BAvc1 x \<Rightarrow> box_mux (avc1_box ops) x
     | BClap x \<Rightarrow> box_mux clap_box x
     | BPasp x \<Rightarrow> box_mux pasp_box x
     | BAvcC x \<Rightarrow> box_mux avcc_box x
     | BBtrt x \<Rightarrow> box_mux btrt_box x
     | BMp4a x \<Rightarrow> box_mux (mp4a_box ops) x
     | BEsds x \<Rightarrow> box_mux (esds_box (d_desc ops)) x
     | BMoof x \<Rightarrow> box_mux (moof_box ops) x
     | BMfhd x \<Rightarrow> box_mux mfhd_box x
     | BTraf x \<Rightarrow> box_mux (traf_box ops) x
     | BTfhd x \<Rightarrow> box_mux tfhd_box x
     | BTfdt x \<Rightarrow> box_mux tfdt_box x
     | BTrun x \<Rightarrow> box_mux trun_box x
     | BMdat x \<Rightarrow> box_mux mdat_box x
     | BAv01 x \<Rightarrow> box_mux (av01_box ops) x
     | BAv1C x \<Rightarrow> box_mux av1c_box x
     | BColr x \<Rightarrow> box_mux colr_box x
     | BHev1 x \<Rightarrow> box_mux (hev1_box ops) x
     | BHvcC x \<Rightarrow> box_mux hvcc_box x
     | BOpus x \<Rightarrow> box_mux (opus_box ops) x
     | BUnknown header data \<Rightarrow> write_unknown header data)"

fun dyn_ops_at :: "nat \<Rightarrow> dyn_ops" where
  "dyn_ops_at 0 = \<lparr>d_demux = out_of_fuel, d_size = (\<lambda>_. 0), d_mux = (\<lambda>_. out_of_fuel), d_desc = desc_ops_at 0\<rparr>"
| "dyn_ops_at (Suc n) = \<lparr>d_demux = dyn_box_demux (dyn_ops_at n), d_size = dyn_box_size (dyn_ops_at n),
     d_mux = dyn_box_mux (dyn_ops_at n), d_desc = desc_ops_at (Suc n)\<rparr>"

end

