(* ===== verification/Mp4_Roundtrip.thy ===== *)
theory Mp4_Roundtrip
  imports Mp4_Tree
begin

text \<open>
  Trees of boxes are read back. \<open>dyn_wf n\<close> describes the boxes that nest at most \<open>n\<close> levels deep and whose parts are
  well-formed; the locale \<open>box_level\<close> shows for every container that it is written, measured and read back when its
  children are, and the levels follow by induction.
\<close>

section \<open>The operations at a level\<close>

abbreviation tree_demux :: "nat \<Rightarrow> (cursor, io_error, DynBox) prog" where
  "tree_demux k \<equiv> d_demux (dyn_ops_at k)"

abbreviation tree_size :: "nat \<Rightarrow> DynBox \<Rightarrow> nat" where
  "tree_size k \<equiv> d_size (dyn_ops_at k)"

abbreviation tree_mux :: "nat \<Rightarrow> DynBox \<Rightarrow> (bytes, io_error, unit) prog" where
  "tree_mux k \<equiv> d_mux (dyn_ops_at k)"

abbreviation tree_ok :: "nat \<Rightarrow> DynBox \<Rightarrow> bytes \<Rightarrow> bool" where
  "tree_ok \<equiv> item_ok tree_demux tree_size tree_mux"

lemma d_desc_at [simp]: "d_desc (dyn_ops_at k) = desc_ops_at k"
  by (cases k) simp_all

lemma tree_mux_Suc:
  "tree_mux (Suc k) (BFtyp x0) = box_mux ftyp_box x0"
  "tree_mux (Suc k) (BMoov x1) = box_mux (moov_box (dyn_ops_at k)) x1"
  "tree_mux (Suc k) (BMvhd x2) = box_mux mvhd_box x2"
  "tree_mux (Suc k) (BMvex x3) = box_mux (mvex_box (dyn_ops_at k)) x3"
  "tree_mux (Suc k) (BTrak x4) = box_mux (trak_box (dyn_ops_at k)) x4"
  "tree_mux (Suc k) (BTrex x5) = box_mux trex_box x5"
  "tree_mux (Suc k) (BMehd x6) = box_mux mehd_box x6"
  "tree_mux (Suc k) (BMdia x7) = box_mux (mdia_box (dyn_ops_at k)) x7"
  "tree_mux (Suc k) (BTkhd x8) = box_mux tkhd_box x8"
  "tree_mux (Suc k) (BEdts x9) = box_mux (edts_box (dyn_ops_at k)) x9"
  "tree_mux (Suc k) (BElst x10) = box_mux elst_box x10"
  "tree_mux (Suc k) (BMdhd x11) = box_mux mdhd_box x11"
  "tree_mux (Suc k) (BMinf x12) = box_mux (minf_box (dyn_ops_at k)) x12"
  "tree_mux (Suc k) (BHdlr x13) = box_mux hdlr_box x13"
  "tree_mux (Suc k) (BDinf x14) = box_mux (dinf_box (dyn_ops_at k)) x14"
  "tree_mux (Suc k) (BStbl x15) = box_mux (stbl_box (dyn_ops_at k)) x15"
  "tree_mux (Suc k) (BHmhd x16) = box_mux hmhd_box x16"
  "tree_mux (Suc k) (BNmhd x17) = box_mux nmhd_box x17"
  "tree_mux (Suc k) (BSmhd x18) = box_mux smhd_box x18"
  "tree_mux (Suc k) (BVmhd x19) = box_mux vmhd_box x19"
  "tree_mux (Suc k) (BDref x20) = box_mux (dref_box (dyn_ops_at k)) x20"
  "tree_mux (Suc k) (BStsd x21) = box_mux (stsd_box (dyn_ops_at k)) x21"
  "tree_mux (Suc k) (BStsz x22) = box_mux stsz_box x22"
  "tree_mux (Suc k) (BStsc x23) = box_mux stsc_box x23"
  "tree_mux (Suc k) (BStco x24) = box_mux stco_box x24"
  "tree_mux (Suc k) (BCo64 x25) = box_mux co64_box x25"
  "tree_mux (Suc k) (BStts x26) = box_mux stts_box x26"
  "tree_mux (Suc k) (BStss x27) = box_mux stss_box x27"
  "tree_mux (Suc k) (BStz2 x28) = box_mux stz2_box x28"
  "tree_mux (Suc k) (BStsh x29) = box_mux stsh_box x29"
  "tree_mux (Suc k) (BCtts x30) = box_mux ctts_box x30"
  "tree_mux (Suc k) (BStdp x31) = box_mux stdp_box x31"
  "tree_mux (Suc k) (BSbgp x32) = box_mux sbgp_box x32"
  "tree_mux (Suc k) (BSubs x33) = box_mux subs_box x33"
  "tree_mux (Suc k) (BPadb x34) = box_mux padb_box x34"
  "tree_mux (Suc k) (BSdtp x35) = box_mux sdtp_box x35"
  "tree_mux (Suc k) (BUrl x36) = box_mux url_box x36"
  "tree_mux (Suc k) (BAvc1 x37) = box_mux (avc1_box (dyn_ops_at k)) x37"
  "tree_mux (Suc k) (BClap x38) = box_mux clap_box x38"
  "tree_mux (Suc k) (BPasp x39) = box_mux pasp_box x39"
  "tree_mux (Suc k) (BAvcC x40) = box_mux avcc_box x40"
  "tree_mux (Suc k) (BBtrt x41) = box_mux btrt_box x41"
  "tree_mux (Suc k) (BMp4a x42) = box_mux (mp4a_box (dyn_ops_at k)) x42"
  "tree_mux (Suc k) (BEsds x43) = box_mux (esds_box (desc_ops_at k)) x43"
  "tree_mux (Suc k) (BMoof x44) = box_mux (moof_box (dyn_ops_at k)) x44"
  "tree_mux (Suc k) (BMfhd x45) = box_mux mfhd_box x45"
  "tree_mux (Suc k) (BTraf x46) = box_mux (traf_box (dyn_ops_at k)) x46"
  "tree_mux (Suc k) (BTfhd x47) = box_mux tfhd_box x47"
  "tree_mux (Suc k) (BTfdt x48) = box_mux tfdt_box x48"
  "tree_mux (Suc k) (BTrun x49) = box_mux trun_box x49"
  "tree_mux (Suc k) (BMdat x50) = box_mux mdat_box x50"
  "tree_mux (Suc k) (BAv01 x51) = box_mux (av01_box (dyn_ops_at k)) x51"
  "tree_mux (Suc k) (BAv1C x52) = box_mux av1c_box x52"
  "tree_mux (Suc k) (BColr x53) = box_mux colr_box x53"
  "tree_mux (Suc k) (BHev1 x54) = box_mux (hev1_box (dyn_ops_at k)) x54"
  "tree_mux (Suc k) (BHvcC x55) = box_mux hvcc_box x55"
  "tree_mux (Suc k) (BOpus x56) = box_mux (opus_box (dyn_ops_at k)) x56"
  by (simp_all add: dyn_box_mux_def)

lemma tree_size_Suc:
  "tree_size (Suc k) (BFtyp x0) = box_size ftyp_box x0"
  "tree_size (Suc k) (BMoov x1) = box_size (moov_box (dyn_ops_at k)) x1"
  "tree_size (Suc k) (BMvhd x2) = box_size mvhd_box x2"
  "tree_size (Suc k) (BMvex x3) = box_size (mvex_box (dyn_ops_at k)) x3"
  "tree_size (Suc k) (BTrak x4) = box_size (trak_box (dyn_ops_at k)) x4"
  "tree_size (Suc k) (BTrex x5) = box_size trex_box x5"
  "tree_size (Suc k) (BMehd x6) = box_size mehd_box x6"
  "tree_size (Suc k) (BMdia x7) = box_size (mdia_box (dyn_ops_at k)) x7"
  "tree_size (Suc k) (BTkhd x8) = box_size tkhd_box x8"
  "tree_size (Suc k) (BEdts x9) = box_size (edts_box (dyn_ops_at k)) x9"
  "tree_size (Suc k) (BElst x10) = box_size elst_box x10"
  "tree_size (Suc k) (BMdhd x11) = box_size mdhd_box x11"
  "tree_size (Suc k) (BMinf x12) = box_size (minf_box (dyn_ops_at k)) x12"
  "tree_size (Suc k) (BHdlr x13) = box_size hdlr_box x13"
  "tree_size (Suc k) (BDinf x14) = box_size (dinf_box (dyn_ops_at k)) x14"
  "tree_size (Suc k) (BStbl x15) = box_size (stbl_box (dyn_ops_at k)) x15"
  "tree_size (Suc k) (BHmhd x16) = box_size hmhd_box x16"
  "tree_size (Suc k) (BNmhd x17) = box_size nmhd_box x17"
  "tree_size (Suc k) (BSmhd x18) = box_size smhd_box x18"
  "tree_size (Suc k) (BVmhd x19) = box_size vmhd_box x19"
  "tree_size (Suc k) (BDref x20) = box_size (dref_box (dyn_ops_at k)) x20"
  "tree_size (Suc k) (BStsd x21) = box_size (stsd_box (dyn_ops_at k)) x21"
  "tree_size (Suc k) (BStsz x22) = box_size stsz_box x22"
  "tree_size (Suc k) (BStsc x23) = box_size stsc_box x23"
  "tree_size (Suc k) (BStco x24) = box_size stco_box x24"
  "tree_size (Suc k) (BCo64 x25) = box_size co64_box x25"
  "tree_size (Suc k) (BStts x26) = box_size stts_box x26"
  "tree_size (Suc k) (BStss x27) = box_size stss_box x27"
  "tree_size (Suc k) (BStz2 x28) = box_size stz2_box x28"
  "tree_size (Suc k) (BStsh x29) = box_size stsh_box x29"
  "tree_size (Suc k) (BCtts x30) = box_size ctts_box x30"
  "tree_size (Suc k) (BStdp x31) = box_size stdp_box x31"
  "tree_size (Suc k) (BSbgp x32) = box_size sbgp_box x32"
  "tree_size (Suc k) (BSubs x33) = box_size subs_box x33"
  "tree_size (Suc k) (BPadb x34) = box_size padb_box x34"
  "tree_size (Suc k) (BSdtp x35) = box_size sdtp_box x35"
  "tree_size (Suc k) (BUrl x36) = box_size url_box x36"
  "tree_size (Suc k) (BAvc1 x37) = box_size (avc1_box (dyn_ops_at k)) x37"
  "tree_size (Suc k) (BClap x38) = box_size clap_box x38"
  "tree_size (Suc k) (BPasp x39) = box_size pasp_box x39"
  "tree_size (Suc k) (BAvcC x40) = box_size avcc_box x40"
  "tree_size (Suc k) (BBtrt x41) = box_size btrt_box x41"
  "tree_size (Suc k) (BMp4a x42) = box_size (mp4a_box (dyn_ops_at k)) x42"
  "tree_size (Suc k) (BEsds x43) = box_size (esds_box (desc_ops_at k)) x43"
  "tree_size (Suc k) (BMoof x44) = box_size (moof_box (dyn_ops_at k)) x44"
  "tree_size (Suc k) (BMfhd x45) = box_size mfhd_box x45"
  "tree_size (Suc k) (BTraf x46) = box_size (traf_box (dyn_ops_at k)) x46"
  "tree_size (Suc k) (BTfhd x47) = box_size tfhd_box x47"
  "tree_size (Suc k) (BTfdt x48) = box_size tfdt_box x48"
  "tree_size (Suc k) (BTrun x49) = box_size trun_box x49"
  "tree_size (Suc k) (BMdat x50) = box_size mdat_box x50"
  "tree_size (Suc k) (BAv01 x51) = box_size (av01_box (dyn_ops_at k)) x51"
  "tree_size (Suc k) (BAv1C x52) = box_size av1c_box x52"
  "tree_size (Suc k) (BColr x53) = box_size colr_box x53"
  "tree_size (Suc k) (BHev1 x54) = box_size (hev1_box (dyn_ops_at k)) x54"
  "tree_size (Suc k) (BHvcC x55) = box_size hvcc_box x55"
  "tree_size (Suc k) (BOpus x56) = box_size (opus_box (dyn_ops_at k)) x56"
  by (simp_all add: dyn_box_size_def)

lemmas tree_Suc = tree_mux_Suc tree_size_Suc

section \<open>The table of variants\<close>

lemma of_char_u8_inject: "(of_char c :: u8) = of_char d \<longleftrightarrow> c = d"
proof
  have nat: "unat (of_char e :: u8) = (of_char e :: nat)" for e
    using unat_of_nat [where 'a = 8, of "of_char e :: nat"] nat_of_char_less_256 [of e]
    by (simp add: of_nat_of_char)
  assume "(of_char c :: u8) = of_char d"
  then have "(of_char c :: nat) = of_char d" using nat by metis
  then show "c = d" by simp
qed simp

lemma fourcc_inject [simp]: "fourcc s = fourcc t \<longleftrightarrow> s = t"
  unfolding fourcc_def by (rule inj_map_eq_map) (simp add: inj_def of_char_u8_inject)

lemma variant_names: "map fst (variants ops) = map fourcc [''ftyp'', ''moov'', ''mvhd'', ''mvex'', ''trak'', ''trex'', ''mehd'', ''mdia'', ''tkhd'', ''edts'', ''elst'', ''mdhd'', ''minf'', ''hdlr'', ''dinf'', ''stbl'', ''hmhd'', ''nmhd'', ''smhd'', ''vmhd'', ''dref'', ''stsd'', ''stsz'', ''stsc'', ''stco'', ''co64'', ''stts'', ''stss'', ''stz2'', ''stsh'', ''ctts'', ''stdp'', ''sbgp'', ''subs'', ''padb'', ''sdtp'', ''url '', ''avc1'', ''clap'', ''pasp'', ''avcC'', ''btrt'', ''mp4a'', ''esds'', ''moof'', ''mfhd'', ''traf'', ''tfhd'', ''tfdt'', ''trun'', ''mdat'', ''av01'', ''av1C'', ''colr'', ''hev1'', ''hvcC'', ''Opus'']"
  by (simp add: variants_def variant_def ftyp_box_def moov_box_def mvhd_box_def mvex_box_def trak_box_def trex_box_def mehd_box_def mdia_box_def tkhd_box_def edts_box_def elst_box_def mdhd_box_def minf_box_def hdlr_box_def dinf_box_def stbl_box_def hmhd_box_def nmhd_box_def smhd_box_def vmhd_box_def dref_box_def stsd_box_def stsz_box_def stsc_box_def stco_box_def co64_box_def stts_box_def stss_box_def stz2_box_def stsh_box_def ctts_box_def stdp_box_def sbgp_box_def subs_box_def padb_box_def sdtp_box_def url_box_def avc1_box_def clap_box_def pasp_box_def avcc_box_def btrt_box_def mp4a_box_def esds_box_def moof_box_def mfhd_box_def traf_box_def tfhd_box_def tfdt_box_def trun_box_def mdat_box_def av01_box_def av1c_box_def colr_box_def hev1_box_def hvcc_box_def opus_box_def)

lemma variants_distinct: "distinct (map fst (variants ops))"
  unfolding variant_names by simp

lemma variant_lookup:
  assumes "variant bt C \<in> set (variants ops)"
  shows "map_of (variants ops) (bt_name bt) = Some (\<lambda>header data. map_ok C (bt_demux bt header data))"
  using assms variants_distinct [of ops] by (simp add: variant_def)

lemma box_bytes_nonempty: "box_bytes name body \<noteq> []"
  by (auto simp: box_bytes_def Let_def dest: arg_cong [of _ _ length])

text \<open>A box behind its header is an item.\<close>

lemma box_item:
  assumes ok: "\<And>k. n \<le> k \<Longrightarrow> box_ok (bt k) x bs" and name: "\<And>k. bt_name (bt k) = name" "length name = 4"
    and ops: "\<And>k. tree_mux (Suc k) (C x) = box_mux (bt k) x" "\<And>k. tree_size (Suc k) (C x) = box_size (bt k) x"
    and mem: "\<And>k. variant (bt k) C \<in> set (variants (dyn_ops_at k))"
    and fits: "tree_size (Suc n) (C x) < 2 ^ 64"
  shows "\<exists>bs. tree_ok (Suc n) (C x) bs"
proof -
  have body: "body_fits bs" using box_ok_fits [OF ok [OF order_refl]] fits by (simp only: ops)
  have "tree_ok (Suc n) (C x) (box_bytes name bs)"
  proof (rule item_ok_SucI [OF box_bytes_nonempty])
    fix k assume k: "n \<le> k"
    have "length (bt_name (bt k)) = 4" by (simp add: name)
    from box_ok_size [OF ok [OF k] this] box_ok_mux [OF ok [OF k]]
    show "tree_size (Suc k) (C x) = length (box_bytes name bs)"
      "tree_mux (Suc k) (C x) out = (Ok (), out @ box_bytes name bs)" for out
      unfolding ops by (simp_all add: name)
    have "bt_demux (bt k) \<lparr>bh_box_type = name\<rparr> bs = Ok x" using ok [OF k] by (simp add: box_ok_def name)
    then show "tree_demux (Suc k) (curs pre (box_bytes name bs @ post)) = (Ok (C x), curs (pre @ box_bytes name bs) post)"
      for pre post
      using variant_lookup [OF mem, of k] box_bytes_demux [OF name(2) body, of pre post]
      by (simp add: dyn_box_demux_def run_simps name)
  qed
  then show ?thesis by blast
qed

lemma leaf_item:
  assumes codec: "box_codec bt P" and "P x"
    and ops: "\<And>k. tree_mux (Suc k) (C x) = box_mux bt x" "\<And>k. tree_size (Suc k) (C x) = box_size bt x"
    and mem: "\<And>k. variant bt C \<in> set (variants (dyn_ops_at k))" and fits: "tree_size (Suc n) (C x) < 2 ^ 64"
  shows "\<exists>bs. tree_ok (Suc n) (C x) bs"
proof -
  obtain bs where "box_ok bt x bs" using box_codec.wf_ok [OF codec \<open>P x\<close>] by blast
  then show ?thesis
    by (rule box_item [where bt = "\<lambda>_. bt", OF _ refl box_codec.name_length [OF codec] ops mem fits])
qed

section \<open>Well-formed trees\<close>

definition stsd_wf :: "('d \<Rightarrow> bool) \<Rightarrow> 'd Stsd \<Rightarrow> bool" where
  "stsd_wf w b \<longleftrightarrow> stsd_validate b = Ok () \<and> full_header_ok (fourcc ''stsd'') (stsd_header b)
     \<and> length (stsd_entries b) \<le> u32_max \<and> list_all w (stsd_entries b)"

definition dref_wf :: "('d \<Rightarrow> bool) \<Rightarrow> 'd Dref \<Rightarrow> bool" where
  "dref_wf w b \<longleftrightarrow> dref_validate b = Ok () \<and> full_header_ok (fourcc ''dref'') (dref_header b)
     \<and> length (dref_entries b) \<le> u32_max \<and> list_all w (dref_entries b)"

definition dinf_children :: "DynBox Dinf \<Rightarrow> DynBox list" where
  "dinf_children b = [BDref (dinf_dref b)]
     @ dinf_unknown b"

definition dinf_wf :: "(DynBox \<Rightarrow> bool) \<Rightarrow> DynBox Dinf \<Rightarrow> bool" where
  "dinf_wf w b \<longleftrightarrow> dinf_header b = \<lparr>bh_box_type = fourcc ''dinf''\<rparr> \<and> list_all w (dinf_children b)
     \<and> others [is_kind as_dref] (dinf_unknown b)"

definition stbl_children :: "DynBox Stbl \<Rightarrow> DynBox list" where
  "stbl_children b = [BStsd (stbl_stsd b)]
     @ [BStts (stbl_stts b)]
     @ map BCtts (opt_list (stbl_ctts b))
     @ [BStsc (stbl_stsc b)]
     @ map BStsz (opt_list (stbl_stsz b))
     @ map BStz2 (opt_list (stbl_stz2 b))
     @ [BStco (stbl_stco b)]
     @ map BCo64 (opt_list (stbl_co64 b))
     @ map BStss (opt_list (stbl_stss b))
     @ map BStsh (opt_list (stbl_stsh b))
     @ map BPadb (opt_list (stbl_padb b))
     @ map BStdp (opt_list (stbl_stdp b))
     @ map BSdtp (opt_list (stbl_sdtp b))
     @ map BSbgp (opt_list (stbl_sbgp b))
     @ map BSubs (opt_list (stbl_subs b))
     @ stbl_unknown b"

definition stbl_wf :: "(DynBox \<Rightarrow> bool) \<Rightarrow> DynBox Stbl \<Rightarrow> bool" where
  "stbl_wf w b \<longleftrightarrow> stbl_header b = \<lparr>bh_box_type = fourcc ''stbl''\<rparr> \<and> list_all w (stbl_children b)
     \<and> others [is_kind as_stsd, is_kind as_stts, is_kind as_ctts, is_kind as_stsc, is_kind as_stsz, is_kind as_stz2, is_kind as_stco, is_kind as_co64, is_kind as_stss, is_kind as_stsh, is_kind as_padb, is_kind as_stdp, is_kind as_sdtp, is_kind as_sbgp, is_kind as_subs] (stbl_unknown b)"

definition minf_children :: "DynBox Minf \<Rightarrow> DynBox list" where
  "minf_children b = map BVmhd (opt_list (minf_vmhd b))
     @ map BSmhd (opt_list (minf_smhd b))
     @ map BHmhd (opt_list (minf_hmhd b))
     @ map BNmhd (opt_list (minf_nmhd b))
     @ [BDinf (minf_dinf b)]
     @ [BStbl (minf_stbl b)]
     @ minf_unknown b"

definition minf_wf :: "(DynBox \<Rightarrow> bool) \<Rightarrow> DynBox Minf \<Rightarrow> bool" where
  "minf_wf w b \<longleftrightarrow> minf_header b = \<lparr>bh_box_type = fourcc ''minf''\<rparr> \<and> list_all w (minf_children b)
     \<and> others [is_kind as_vmhd, is_kind as_smhd, is_kind as_hmhd, is_kind as_nmhd, is_kind as_dinf, is_kind as_stbl] (minf_unknown b)"

definition mdia_children :: "DynBox Mdia \<Rightarrow> DynBox list" where
  "mdia_children b = [BMdhd (mdia_mdhd b)]
     @ [BHdlr (mdia_hdlr b)]
     @ [BMinf (mdia_minf b)]
     @ mdia_unknown b"

definition mdia_wf :: "(DynBox \<Rightarrow> bool) \<Rightarrow> DynBox Mdia \<Rightarrow> bool" where
  "mdia_wf w b \<longleftrightarrow> mdia_header b = \<lparr>bh_box_type = fourcc ''mdia''\<rparr> \<and> list_all w (mdia_children b)
     \<and> others [is_kind as_mdhd, is_kind as_hdlr, is_kind as_minf] (mdia_unknown b)"

definition edts_children :: "DynBox Edts \<Rightarrow> DynBox list" where
  "edts_children b = map BElst (opt_list (edts_elst b))
     @ edts_unknown b"

definition edts_wf :: "(DynBox \<Rightarrow> bool) \<Rightarrow> DynBox Edts \<Rightarrow> bool" where
  "edts_wf w b \<longleftrightarrow> edts_header b = \<lparr>bh_box_type = fourcc ''edts''\<rparr> \<and> list_all w (edts_children b)
     \<and> others [is_kind as_elst] (edts_unknown b)"

definition trak_children :: "DynBox Trak \<Rightarrow> DynBox list" where
  "trak_children b = [BTkhd (trak_tkhd b)]
     @ map BEdts (opt_list (trak_edts b))
     @ [BMdia (trak_mdia b)]
     @ trak_unknown b"

definition trak_wf :: "(DynBox \<Rightarrow> bool) \<Rightarrow> DynBox Trak \<Rightarrow> bool" where
  "trak_wf w b \<longleftrightarrow> trak_header b = \<lparr>bh_box_type = fourcc ''trak''\<rparr> \<and> list_all w (trak_children b)
     \<and> others [is_kind as_tkhd, is_kind as_edts, is_kind as_mdia] (trak_unknown b)"

definition mvex_children :: "DynBox Mvex \<Rightarrow> DynBox list" where
  "mvex_children b = map BTrex (mvex_trex b)
     @ map BMehd (opt_list (mvex_mehd b))
     @ mvex_unknown b"

definition mvex_wf :: "(DynBox \<Rightarrow> bool) \<Rightarrow> DynBox Mvex \<Rightarrow> bool" where
  "mvex_wf w b \<longleftrightarrow> mvex_header b = \<lparr>bh_box_type = fourcc ''mvex''\<rparr> \<and> list_all w (mvex_children b)
     \<and> others [is_kind as_trex, is_kind as_mehd] (mvex_unknown b)"

definition moov_children :: "DynBox Moov \<Rightarrow> DynBox list" where
  "moov_children b = [BMvhd (moov_mvhd b)]
     @ map BTrak (moov_traks b)
     @ map BMvex (opt_list (moov_mvex b))
     @ moov_unknown b"

definition moov_wf :: "(DynBox \<Rightarrow> bool) \<Rightarrow> DynBox Moov \<Rightarrow> bool" where
  "moov_wf w b \<longleftrightarrow> moov_header b = \<lparr>bh_box_type = fourcc ''moov''\<rparr> \<and> list_all w (moov_children b)
     \<and> others [is_kind as_mvhd, is_kind as_trak, is_kind as_mvex] (moov_unknown b)"

definition traf_children :: "DynBox Traf \<Rightarrow> DynBox list" where
  "traf_children b = [BTfhd (traf_tfhd b)]
     @ map BSbgp (opt_list (traf_sbgp b))
     @ map BSubs (opt_list (traf_subs b))
     @ map BTfdt (opt_list (traf_tfdt b))
     @ traf_unknown b
     @ map BTrun (opt_list (traf_trun b))"

definition traf_wf :: "(DynBox \<Rightarrow> bool) \<Rightarrow> DynBox Traf \<Rightarrow> bool" where
  "traf_wf w b \<longleftrightarrow> traf_header b = \<lparr>bh_box_type = fourcc ''traf''\<rparr> \<and> list_all w (traf_children b)
     \<and> others [is_kind as_tfhd, is_kind as_trun, is_kind as_sbgp, is_kind as_subs, is_kind as_tfdt] (traf_unknown b)"

definition moof_children :: "DynBox Moof \<Rightarrow> DynBox list" where
  "moof_children b = [BMfhd (moof_mfhd b)]
     @ map BTraf (moof_traf b)
     @ moof_unknown b"

definition moof_wf :: "(DynBox \<Rightarrow> bool) \<Rightarrow> DynBox Moof \<Rightarrow> bool" where
  "moof_wf w b \<longleftrightarrow> moof_header b = \<lparr>bh_box_type = fourcc ''moof''\<rparr> \<and> list_all w (moof_children b)
     \<and> others [is_kind as_mfhd, is_kind as_traf] (moof_unknown b)"

definition avc1_children :: "DynBox Avc1 \<Rightarrow> DynBox list" where
  "avc1_children b = map BClap (opt_list (vse_clap (se_extension (avc1_visual_sample_entry b))))
     @ map BPasp (opt_list (vse_pasp (se_extension (avc1_visual_sample_entry b))))
     @ map BColr (opt_list (vse_colr (se_extension (avc1_visual_sample_entry b))))
     @ [BAvcC (avc1_avcc b)]
     @ map BBtrt (opt_list (avc1_btrt b))
     @ avc1_unknown b"

definition avc1_wf :: "(DynBox \<Rightarrow> bool) \<Rightarrow> DynBox Avc1 \<Rightarrow> bool" where
  "avc1_wf w b \<longleftrightarrow> avc1_header b = \<lparr>bh_box_type = fourcc ''avc1''\<rparr>
     \<and> visual_entry_wf (avc1_visual_sample_entry b) \<and> list_all w (avc1_children b)
     \<and> others [is_kind as_avcc, is_kind as_btrt, is_kind as_clap, is_kind as_pasp, is_kind as_colr] (avc1_unknown b)"

definition hev1_children :: "DynBox Hev1 \<Rightarrow> DynBox list" where
  "hev1_children b = map BClap (opt_list (vse_clap (se_extension (hev1_visual_sample_entry b))))
     @ map BPasp (opt_list (vse_pasp (se_extension (hev1_visual_sample_entry b))))
     @ map BColr (opt_list (vse_colr (se_extension (hev1_visual_sample_entry b))))
     @ [BHvcC (hev1_hvcc b)]
     @ map BBtrt (opt_list (hev1_btrt b))
     @ hev1_unknown b"

definition hev1_wf :: "(DynBox \<Rightarrow> bool) \<Rightarrow> DynBox Hev1 \<Rightarrow> bool" where
  "hev1_wf w b \<longleftrightarrow> hev1_header b = \<lparr>bh_box_type = fourcc ''hev1''\<rparr>
     \<and> visual_entry_wf (hev1_visual_sample_entry b) \<and> list_all w (hev1_children b)
     \<and> others [is_kind as_hvcc, is_kind as_btrt, is_kind as_clap, is_kind as_pasp, is_kind as_colr] (hev1_unknown b)"

definition av01_children :: "DynBox Av01 \<Rightarrow> DynBox list" where
  "av01_children b = map BClap (opt_list (vse_clap (se_extension (av01_visual_sample_entry b))))
     @ map BPasp (opt_list (vse_pasp (se_extension (av01_visual_sample_entry b))))
     @ map BColr (opt_list (vse_colr (se_extension (av01_visual_sample_entry b))))
     @ [BAv1C (av01_av1c b)]
     @ map BBtrt (opt_list (av01_btrt b))
     @ av01_unknown b"

definition av01_wf :: "(DynBox \<Rightarrow> bool) \<Rightarrow> DynBox Av01 \<Rightarrow> bool" where
  "av01_wf w b \<longleftrightarrow> av01_header b = \<lparr>bh_box_type = fourcc ''av01''\<rparr>
     \<and> visual_entry_wf (av01_visual_sample_entry b) \<and> list_all w (av01_children b)
     \<and> others [is_kind as_av1c, is_kind as_btrt, is_kind as_clap, is_kind as_pasp, is_kind as_colr] (av01_unknown b)"

definition mp4a_children :: "DynBox Mp4a \<Rightarrow> DynBox list" where
  "mp4a_children b = [BEsds (mp4a_esds b)]
     @ map BBtrt (opt_list (mp4a_btrt b))
     @ mp4a_unknown b"

definition mp4a_wf :: "(DynBox \<Rightarrow> bool) \<Rightarrow> DynBox Mp4a \<Rightarrow> bool" where
  "mp4a_wf w b \<longleftrightarrow> mp4a_header b = \<lparr>bh_box_type = fourcc ''mp4a''\<rparr>
     \<and> audio_entry_wf (mp4a_audio_sample_entry b) \<and> list_all w (mp4a_children b)
     \<and> others [is_kind as_esds, is_kind as_btrt] (mp4a_unknown b)"

definition opus_children :: "DynBox Opus \<Rightarrow> DynBox list" where
  "opus_children b = map BBtrt (opt_list (opus_btrt b))
     @ opus_unknown b"

definition opus_wf :: "(DynBox \<Rightarrow> bool) \<Rightarrow> DynBox Opus \<Rightarrow> bool" where
  "opus_wf w b \<longleftrightarrow> opus_header b = \<lparr>bh_box_type = fourcc ''Opus''\<rparr>
     \<and> audio_entry_wf (opus_audio_sample_entry b) \<and> list_all w (opus_children b)
     \<and> others [is_kind as_btrt] (opus_unknown b)"

definition unknown_wf :: "box_header \<Rightarrow> bytes \<Rightarrow> bool" where
  "unknown_wf header data \<longleftrightarrow> length (bh_box_type header) = 4 \<and> length data + 8 \<le> u32_max
     \<and> list_all (\<lambda>s. bh_box_type header \<noteq> fourcc s) [''ftyp'', ''moov'', ''mvhd'', ''mvex'', ''trak'', ''trex'', ''mehd'', ''mdia'', ''tkhd'', ''edts'', ''elst'', ''mdhd'', ''minf'', ''hdlr'', ''dinf'', ''stbl'', ''hmhd'', ''nmhd'', ''smhd'', ''vmhd'', ''dref'', ''stsd'', ''stsz'', ''stsc'', ''stco'', ''co64'', ''stts'', ''stss'', ''stz2'', ''stsh'', ''ctts'', ''stdp'', ''sbgp'', ''subs'', ''padb'', ''sdtp'', ''url '', ''avc1'', ''clap'', ''pasp'', ''avcC'', ''btrt'', ''mp4a'', ''esds'', ''moof'', ''mfhd'', ''traf'', ''tfhd'', ''tfdt'', ''trun'', ''mdat'', ''av01'', ''av1C'', ''colr'', ''hev1'', ''hvcC'', ''Opus'']"

fun dyn_wf :: "nat \<Rightarrow> DynBox \<Rightarrow> bool" where
  "dyn_wf 0 b \<longleftrightarrow> False"
| "dyn_wf (Suc n) b \<longleftrightarrow> tree_size (Suc n) b < 2 ^ 64 \<and> (case b of
       BFtyp x \<Rightarrow> ftyp_wf x
     | BMoov x \<Rightarrow> moov_wf (dyn_wf n) x
     | BMvhd x \<Rightarrow> mvhd_wf x
     | BMvex x \<Rightarrow> mvex_wf (dyn_wf n) x
     | BTrak x \<Rightarrow> trak_wf (dyn_wf n) x
     | BTrex x \<Rightarrow> trex_wf x
     | BMehd x \<Rightarrow> mehd_wf x
     | BMdia x \<Rightarrow> mdia_wf (dyn_wf n) x
     | BTkhd x \<Rightarrow> tkhd_wf x
     | BEdts x \<Rightarrow> edts_wf (dyn_wf n) x
     | BElst x \<Rightarrow> elst_wf x
     | BMdhd x \<Rightarrow> mdhd_wf x
     | BMinf x \<Rightarrow> minf_wf (dyn_wf n) x
     | BHdlr x \<Rightarrow> hdlr_wf x
     | BDinf x \<Rightarrow> dinf_wf (dyn_wf n) x
     | BStbl x \<Rightarrow> stbl_wf (dyn_wf n) x
     | BHmhd x \<Rightarrow> hmhd_wf x
     | BNmhd x \<Rightarrow> nmhd_wf x
     | BSmhd x \<Rightarrow> smhd_wf x
     | BVmhd x \<Rightarrow> vmhd_wf x
     | BDref x \<Rightarrow> dref_wf (dyn_wf n) x
     | BStsd x \<Rightarrow> stsd_wf (dyn_wf n) x
     | BStsz x \<Rightarrow> stsz_wf x
     | BStsc x \<Rightarrow> stsc_wf x
     | BStco x \<Rightarrow> stco_wf x
     | BCo64 x \<Rightarrow> co64_wf x
     | BStts x \<Rightarrow> stts_wf x
     | BStss x \<Rightarrow> stss_wf x
     | BStz2 x \<Rightarrow> stz2_wf x
     | BStsh x \<Rightarrow> stsh_wf x
     | BCtts x \<Rightarrow> ctts_wf x
     | BStdp x \<Rightarrow> stdp_wf x
     | BSbgp x \<Rightarrow> sbgp_wf x
     | BSubs x \<Rightarrow> subs_wf x
     | BPadb x \<Rightarrow> padb_wf x
     | BSdtp x \<Rightarrow> sdtp_wf x
     | BUrl x \<Rightarrow> url_wf x
     | BAvc1 x \<Rightarrow> avc1_wf (dyn_wf n) x
     | BClap x \<Rightarrow> clap_wf x
     | BPasp x \<Rightarrow> pasp_wf x
     | BAvcC x \<Rightarrow> avcc_wf x
     | BBtrt x \<Rightarrow> btrt_wf x
     | BMp4a x \<Rightarrow> mp4a_wf (dyn_wf n) x
     | BEsds x \<Rightarrow> esds_wf n x
     | BMoof x \<Rightarrow> moof_wf (dyn_wf n) x
     | BMfhd x \<Rightarrow> mfhd_wf x
     | BTraf x \<Rightarrow> traf_wf (dyn_wf n) x
     | BTfhd x \<Rightarrow> tfhd_wf x
     | BTfdt x \<Rightarrow> tfdt_wf x
     | BTrun x \<Rightarrow> trun_wf x
     | BMdat x \<Rightarrow> mdat_wf x
     | BAv01 x \<Rightarrow> av01_wf (dyn_wf n) x
     | BAv1C x \<Rightarrow> av1c_wf x
     | BColr x \<Rightarrow> colr_wf x
     | BHev1 x \<Rightarrow> hev1_wf (dyn_wf n) x
     | BHvcC x \<Rightarrow> hvcc_wf x
     | BOpus x \<Rightarrow> opus_wf (dyn_wf n) x
     | BUnknown header data \<Rightarrow> unknown_wf header data)"

declare dyn_wf.simps(2) [simp del]

lemma unknown_item:
  assumes "unknown_wf header data"
  shows "\<exists>bs. tree_ok (Suc n) (BUnknown header data) bs"
proof -
  have name: "length (bh_box_type header) = 4" and len: "length data + 8 \<le> u32_max"
    and new: "bh_box_type header \<notin> fst ` set (variants ops)" for ops
    using assms unfolding unknown_wf_def image_set variant_names by (auto simp: list_all_iff)
  have fits: "body_fits data" using len by (simp add: u32_max_def)
  have "tree_ok (Suc n) (BUnknown header data) (box_bytes (bh_box_type header) data)"
  proof (rule item_ok_SucI [OF box_bytes_nonempty])
    fix k
    show "tree_size (Suc k) (BUnknown header data) = length (box_bytes (bh_box_type header) data)"
      "tree_mux (Suc k) (BUnknown header data) out = (Ok (), out @ box_bytes (bh_box_type header) data)" for out
      using len name by (simp_all add: dyn_box_size_def dyn_box_mux_def write_unknown_def box_bytes_def Let_def run_simps)
    have "map_of (variants ops) (bh_box_type header) = None" for ops using new by (simp add: map_of_eq_None_iff)
    then show "tree_demux (Suc k) (curs pre (box_bytes (bh_box_type header) data @ post))
        = (Ok (BUnknown header data), curs (pre @ box_bytes (bh_box_type header) data) post)" for pre post
      by (simp add: box_bytes_demux [OF name fits] dyn_box_demux_def run_simps)
  qed
  then show ?thesis by blast
qed

section \<open>One level\<close>

locale box_level = nested_level tree_demux tree_size tree_mux n "dyn_wf n"
  for n :: nat
begin

text \<open>Children of each kind.\<close>

lemma kind_mux:
  "dyn_wf n (BDref x0) \<Longrightarrow> n \<le> k \<Longrightarrow> box_mux (dref_box (dyn_ops_at k)) x0 out = (Ok (), out @ enc (BDref x0))"
  "dyn_wf n (BStsd x1) \<Longrightarrow> n \<le> k \<Longrightarrow> box_mux (stsd_box (dyn_ops_at k)) x1 out = (Ok (), out @ enc (BStsd x1))"
  "dyn_wf n (BStts x2) \<Longrightarrow> box_mux stts_box x2 out = (Ok (), out @ enc (BStts x2))"
  "dyn_wf n (BStsc x3) \<Longrightarrow> box_mux stsc_box x3 out = (Ok (), out @ enc (BStsc x3))"
  "dyn_wf n (BStco x4) \<Longrightarrow> box_mux stco_box x4 out = (Ok (), out @ enc (BStco x4))"
  "dyn_wf n (BDinf x5) \<Longrightarrow> n \<le> k \<Longrightarrow> box_mux (dinf_box (dyn_ops_at k)) x5 out = (Ok (), out @ enc (BDinf x5))"
  "dyn_wf n (BStbl x6) \<Longrightarrow> n \<le> k \<Longrightarrow> box_mux (stbl_box (dyn_ops_at k)) x6 out = (Ok (), out @ enc (BStbl x6))"
  "dyn_wf n (BMdhd x7) \<Longrightarrow> box_mux mdhd_box x7 out = (Ok (), out @ enc (BMdhd x7))"
  "dyn_wf n (BHdlr x8) \<Longrightarrow> box_mux hdlr_box x8 out = (Ok (), out @ enc (BHdlr x8))"
  "dyn_wf n (BMinf x9) \<Longrightarrow> n \<le> k \<Longrightarrow> box_mux (minf_box (dyn_ops_at k)) x9 out = (Ok (), out @ enc (BMinf x9))"
  "dyn_wf n (BTkhd x10) \<Longrightarrow> box_mux tkhd_box x10 out = (Ok (), out @ enc (BTkhd x10))"
  "dyn_wf n (BMdia x11) \<Longrightarrow> n \<le> k \<Longrightarrow> box_mux (mdia_box (dyn_ops_at k)) x11 out = (Ok (), out @ enc (BMdia x11))"
  "dyn_wf n (BMvhd x12) \<Longrightarrow> box_mux mvhd_box x12 out = (Ok (), out @ enc (BMvhd x12))"
  "dyn_wf n (BTfhd x13) \<Longrightarrow> box_mux tfhd_box x13 out = (Ok (), out @ enc (BTfhd x13))"
  "dyn_wf n (BMfhd x14) \<Longrightarrow> box_mux mfhd_box x14 out = (Ok (), out @ enc (BMfhd x14))"
  "dyn_wf n (BAvcC x15) \<Longrightarrow> box_mux avcc_box x15 out = (Ok (), out @ enc (BAvcC x15))"
  "dyn_wf n (BHvcC x16) \<Longrightarrow> box_mux hvcc_box x16 out = (Ok (), out @ enc (BHvcC x16))"
  "dyn_wf n (BAv1C x17) \<Longrightarrow> box_mux av1c_box x17 out = (Ok (), out @ enc (BAv1C x17))"
  "dyn_wf n (BEsds x18) \<Longrightarrow> n \<le> k \<Longrightarrow> box_mux (esds_box (desc_ops_at k)) x18 out = (Ok (), out @ enc (BEsds x18))"
  using mux_enc [of "BDref x0" "Suc k" out]
    mux_enc [of "BStsd x1" "Suc k" out]
    mux_enc [of "BStts x2" "Suc n" out]
    mux_enc [of "BStsc x3" "Suc n" out]
    mux_enc [of "BStco x4" "Suc n" out]
    mux_enc [of "BDinf x5" "Suc k" out]
    mux_enc [of "BStbl x6" "Suc k" out]
    mux_enc [of "BMdhd x7" "Suc n" out]
    mux_enc [of "BHdlr x8" "Suc n" out]
    mux_enc [of "BMinf x9" "Suc k" out]
    mux_enc [of "BTkhd x10" "Suc n" out]
    mux_enc [of "BMdia x11" "Suc k" out]
    mux_enc [of "BMvhd x12" "Suc n" out]
    mux_enc [of "BTfhd x13" "Suc n" out]
    mux_enc [of "BMfhd x14" "Suc n" out]
    mux_enc [of "BAvcC x15" "Suc n" out]
    mux_enc [of "BHvcC x16" "Suc n" out]
    mux_enc [of "BAv1C x17" "Suc n" out]
    mux_enc [of "BEsds x18" "Suc k" out]
  by (simp_all only: tree_Suc le_SucI order_refl)

lemma kind_size:
  "dyn_wf n (BDref x0) \<Longrightarrow> n \<le> k \<Longrightarrow> box_size (dref_box (dyn_ops_at k)) x0 = length (enc (BDref x0))"
  "dyn_wf n (BStsd x1) \<Longrightarrow> n \<le> k \<Longrightarrow> box_size (stsd_box (dyn_ops_at k)) x1 = length (enc (BStsd x1))"
  "dyn_wf n (BStts x2) \<Longrightarrow> box_size stts_box x2 = length (enc (BStts x2))"
  "dyn_wf n (BStsc x3) \<Longrightarrow> box_size stsc_box x3 = length (enc (BStsc x3))"
  "dyn_wf n (BStco x4) \<Longrightarrow> box_size stco_box x4 = length (enc (BStco x4))"
  "dyn_wf n (BDinf x5) \<Longrightarrow> n \<le> k \<Longrightarrow> box_size (dinf_box (dyn_ops_at k)) x5 = length (enc (BDinf x5))"
  "dyn_wf n (BStbl x6) \<Longrightarrow> n \<le> k \<Longrightarrow> box_size (stbl_box (dyn_ops_at k)) x6 = length (enc (BStbl x6))"
  "dyn_wf n (BMdhd x7) \<Longrightarrow> box_size mdhd_box x7 = length (enc (BMdhd x7))"
  "dyn_wf n (BHdlr x8) \<Longrightarrow> box_size hdlr_box x8 = length (enc (BHdlr x8))"
  "dyn_wf n (BMinf x9) \<Longrightarrow> n \<le> k \<Longrightarrow> box_size (minf_box (dyn_ops_at k)) x9 = length (enc (BMinf x9))"
  "dyn_wf n (BTkhd x10) \<Longrightarrow> box_size tkhd_box x10 = length (enc (BTkhd x10))"
  "dyn_wf n (BMdia x11) \<Longrightarrow> n \<le> k \<Longrightarrow> box_size (mdia_box (dyn_ops_at k)) x11 = length (enc (BMdia x11))"
  "dyn_wf n (BMvhd x12) \<Longrightarrow> box_size mvhd_box x12 = length (enc (BMvhd x12))"
  "dyn_wf n (BTfhd x13) \<Longrightarrow> box_size tfhd_box x13 = length (enc (BTfhd x13))"
  "dyn_wf n (BMfhd x14) \<Longrightarrow> box_size mfhd_box x14 = length (enc (BMfhd x14))"
  "dyn_wf n (BAvcC x15) \<Longrightarrow> box_size avcc_box x15 = length (enc (BAvcC x15))"
  "dyn_wf n (BHvcC x16) \<Longrightarrow> box_size hvcc_box x16 = length (enc (BHvcC x16))"
  "dyn_wf n (BAv1C x17) \<Longrightarrow> box_size av1c_box x17 = length (enc (BAv1C x17))"
  "dyn_wf n (BEsds x18) \<Longrightarrow> n \<le> k \<Longrightarrow> box_size (esds_box (desc_ops_at k)) x18 = length (enc (BEsds x18))"
  using sz_enc [of "BDref x0" "Suc k"]
    sz_enc [of "BStsd x1" "Suc k"]
    sz_enc [of "BStts x2" "Suc n"]
    sz_enc [of "BStsc x3" "Suc n"]
    sz_enc [of "BStco x4" "Suc n"]
    sz_enc [of "BDinf x5" "Suc k"]
    sz_enc [of "BStbl x6" "Suc k"]
    sz_enc [of "BMdhd x7" "Suc n"]
    sz_enc [of "BHdlr x8" "Suc n"]
    sz_enc [of "BMinf x9" "Suc k"]
    sz_enc [of "BTkhd x10" "Suc n"]
    sz_enc [of "BMdia x11" "Suc k"]
    sz_enc [of "BMvhd x12" "Suc n"]
    sz_enc [of "BTfhd x13" "Suc n"]
    sz_enc [of "BMfhd x14" "Suc n"]
    sz_enc [of "BAvcC x15" "Suc n"]
    sz_enc [of "BHvcC x16" "Suc n"]
    sz_enc [of "BAv1C x17" "Suc n"]
    sz_enc [of "BEsds x18" "Suc k"]
  by (simp_all only: tree_Suc le_SucI order_refl)

lemma opt_mux:
  "list_all (dyn_wf n) (map BCtts (opt_list y0)) \<Longrightarrow> write_opt (box_mux ctts_box) y0 out
     = (Ok (), out @ encs (map BCtts (opt_list y0)))"
  "list_all (dyn_wf n) (map BStsz (opt_list y1)) \<Longrightarrow> write_opt (box_mux stsz_box) y1 out
     = (Ok (), out @ encs (map BStsz (opt_list y1)))"
  "list_all (dyn_wf n) (map BStz2 (opt_list y2)) \<Longrightarrow> write_opt (box_mux stz2_box) y2 out
     = (Ok (), out @ encs (map BStz2 (opt_list y2)))"
  "list_all (dyn_wf n) (map BCo64 (opt_list y3)) \<Longrightarrow> write_opt (box_mux co64_box) y3 out
     = (Ok (), out @ encs (map BCo64 (opt_list y3)))"
  "list_all (dyn_wf n) (map BStss (opt_list y4)) \<Longrightarrow> write_opt (box_mux stss_box) y4 out
     = (Ok (), out @ encs (map BStss (opt_list y4)))"
  "list_all (dyn_wf n) (map BStsh (opt_list y5)) \<Longrightarrow> write_opt (box_mux stsh_box) y5 out
     = (Ok (), out @ encs (map BStsh (opt_list y5)))"
  "list_all (dyn_wf n) (map BPadb (opt_list y6)) \<Longrightarrow> write_opt (box_mux padb_box) y6 out
     = (Ok (), out @ encs (map BPadb (opt_list y6)))"
  "list_all (dyn_wf n) (map BStdp (opt_list y7)) \<Longrightarrow> write_opt (box_mux stdp_box) y7 out
     = (Ok (), out @ encs (map BStdp (opt_list y7)))"
  "list_all (dyn_wf n) (map BSdtp (opt_list y8)) \<Longrightarrow> write_opt (box_mux sdtp_box) y8 out
     = (Ok (), out @ encs (map BSdtp (opt_list y8)))"
  "list_all (dyn_wf n) (map BSbgp (opt_list y9)) \<Longrightarrow> write_opt (box_mux sbgp_box) y9 out
     = (Ok (), out @ encs (map BSbgp (opt_list y9)))"
  "list_all (dyn_wf n) (map BSubs (opt_list y10)) \<Longrightarrow> write_opt (box_mux subs_box) y10 out
     = (Ok (), out @ encs (map BSubs (opt_list y10)))"
  "list_all (dyn_wf n) (map BVmhd (opt_list y11)) \<Longrightarrow> write_opt (box_mux vmhd_box) y11 out
     = (Ok (), out @ encs (map BVmhd (opt_list y11)))"
  "list_all (dyn_wf n) (map BSmhd (opt_list y12)) \<Longrightarrow> write_opt (box_mux smhd_box) y12 out
     = (Ok (), out @ encs (map BSmhd (opt_list y12)))"
  "list_all (dyn_wf n) (map BHmhd (opt_list y13)) \<Longrightarrow> write_opt (box_mux hmhd_box) y13 out
     = (Ok (), out @ encs (map BHmhd (opt_list y13)))"
  "list_all (dyn_wf n) (map BNmhd (opt_list y14)) \<Longrightarrow> write_opt (box_mux nmhd_box) y14 out
     = (Ok (), out @ encs (map BNmhd (opt_list y14)))"
  "list_all (dyn_wf n) (map BElst (opt_list y15)) \<Longrightarrow> write_opt (box_mux elst_box) y15 out
     = (Ok (), out @ encs (map BElst (opt_list y15)))"
  "list_all (dyn_wf n) (map BEdts (opt_list y16)) \<Longrightarrow> n \<le> k \<Longrightarrow> write_opt (box_mux (edts_box (dyn_ops_at k))) y16 out
     = (Ok (), out @ encs (map BEdts (opt_list y16)))"
  "list_all (dyn_wf n) (map BMehd (opt_list y17)) \<Longrightarrow> write_opt (box_mux mehd_box) y17 out
     = (Ok (), out @ encs (map BMehd (opt_list y17)))"
  "list_all (dyn_wf n) (map BMvex (opt_list y18)) \<Longrightarrow> n \<le> k \<Longrightarrow> write_opt (box_mux (mvex_box (dyn_ops_at k))) y18 out
     = (Ok (), out @ encs (map BMvex (opt_list y18)))"
  "list_all (dyn_wf n) (map BTrun (opt_list y19)) \<Longrightarrow> write_opt (box_mux trun_box) y19 out
     = (Ok (), out @ encs (map BTrun (opt_list y19)))"
  "list_all (dyn_wf n) (map BTfdt (opt_list y20)) \<Longrightarrow> write_opt (box_mux tfdt_box) y20 out
     = (Ok (), out @ encs (map BTfdt (opt_list y20)))"
  "list_all (dyn_wf n) (map BBtrt (opt_list y21)) \<Longrightarrow> write_opt (box_mux btrt_box) y21 out
     = (Ok (), out @ encs (map BBtrt (opt_list y21)))"
  "list_all (dyn_wf n) (map BClap (opt_list y22)) \<Longrightarrow> write_opt (box_mux clap_box) y22 out
     = (Ok (), out @ encs (map BClap (opt_list y22)))"
  "list_all (dyn_wf n) (map BPasp (opt_list y23)) \<Longrightarrow> write_opt (box_mux pasp_box) y23 out
     = (Ok (), out @ encs (map BPasp (opt_list y23)))"
  "list_all (dyn_wf n) (map BColr (opt_list y24)) \<Longrightarrow> write_opt (box_mux colr_box) y24 out
     = (Ok (), out @ encs (map BColr (opt_list y24)))"
  by ((rule opt_kind(1) [where k = "Suc n"]; simp only: tree_Suc le_SucI order_refl),
    (rule opt_kind(1) [where k = "Suc n"]; simp only: tree_Suc le_SucI order_refl),
    (rule opt_kind(1) [where k = "Suc n"]; simp only: tree_Suc le_SucI order_refl),
    (rule opt_kind(1) [where k = "Suc n"]; simp only: tree_Suc le_SucI order_refl),
    (rule opt_kind(1) [where k = "Suc n"]; simp only: tree_Suc le_SucI order_refl),
    (rule opt_kind(1) [where k = "Suc n"]; simp only: tree_Suc le_SucI order_refl),
    (rule opt_kind(1) [where k = "Suc n"]; simp only: tree_Suc le_SucI order_refl),
    (rule opt_kind(1) [where k = "Suc n"]; simp only: tree_Suc le_SucI order_refl),
    (rule opt_kind(1) [where k = "Suc n"]; simp only: tree_Suc le_SucI order_refl),
    (rule opt_kind(1) [where k = "Suc n"]; simp only: tree_Suc le_SucI order_refl),
    (rule opt_kind(1) [where k = "Suc n"]; simp only: tree_Suc le_SucI order_refl),
    (rule opt_kind(1) [where k = "Suc n"]; simp only: tree_Suc le_SucI order_refl),
    (rule opt_kind(1) [where k = "Suc n"]; simp only: tree_Suc le_SucI order_refl),
    (rule opt_kind(1) [where k = "Suc n"]; simp only: tree_Suc le_SucI order_refl),
    (rule opt_kind(1) [where k = "Suc n"]; simp only: tree_Suc le_SucI order_refl),
    (rule opt_kind(1) [where k = "Suc n"]; simp only: tree_Suc le_SucI order_refl),
    (rule opt_kind(1) [where k = "Suc k"]; simp only: tree_Suc le_SucI order_refl),
    (rule opt_kind(1) [where k = "Suc n"]; simp only: tree_Suc le_SucI order_refl),
    (rule opt_kind(1) [where k = "Suc k"]; simp only: tree_Suc le_SucI order_refl),
    (rule opt_kind(1) [where k = "Suc n"]; simp only: tree_Suc le_SucI order_refl),
    (rule opt_kind(1) [where k = "Suc n"]; simp only: tree_Suc le_SucI order_refl),
    (rule opt_kind(1) [where k = "Suc n"]; simp only: tree_Suc le_SucI order_refl),
    (rule opt_kind(1) [where k = "Suc n"]; simp only: tree_Suc le_SucI order_refl),
    (rule opt_kind(1) [where k = "Suc n"]; simp only: tree_Suc le_SucI order_refl),
    (rule opt_kind(1) [where k = "Suc n"]; simp only: tree_Suc le_SucI order_refl))

lemma opt_size:
  "list_all (dyn_wf n) (map BCtts (opt_list y0)) \<Longrightarrow> case_option 0 (box_size ctts_box) y0
     = length (encs (map BCtts (opt_list y0)))"
  "list_all (dyn_wf n) (map BStsz (opt_list y1)) \<Longrightarrow> case_option 0 (box_size stsz_box) y1
     = length (encs (map BStsz (opt_list y1)))"
  "list_all (dyn_wf n) (map BStz2 (opt_list y2)) \<Longrightarrow> case_option 0 (box_size stz2_box) y2
     = length (encs (map BStz2 (opt_list y2)))"
  "list_all (dyn_wf n) (map BCo64 (opt_list y3)) \<Longrightarrow> case_option 0 (box_size co64_box) y3
     = length (encs (map BCo64 (opt_list y3)))"
  "list_all (dyn_wf n) (map BStss (opt_list y4)) \<Longrightarrow> case_option 0 (box_size stss_box) y4
     = length (encs (map BStss (opt_list y4)))"
  "list_all (dyn_wf n) (map BStsh (opt_list y5)) \<Longrightarrow> case_option 0 (box_size stsh_box) y5
     = length (encs (map BStsh (opt_list y5)))"
  "list_all (dyn_wf n) (map BPadb (opt_list y6)) \<Longrightarrow> case_option 0 (box_size padb_box) y6
     = length (encs (map BPadb (opt_list y6)))"
  "list_all (dyn_wf n) (map BStdp (opt_list y7)) \<Longrightarrow> case_option 0 (box_size stdp_box) y7
     = length (encs (map BStdp (opt_list y7)))"
  "list_all (dyn_wf n) (map BSdtp (opt_list y8)) \<Longrightarrow> case_option 0 (box_size sdtp_box) y8
     = length (encs (map BSdtp (opt_list y8)))"
  "list_all (dyn_wf n) (map BSbgp (opt_list y9)) \<Longrightarrow> case_option 0 (box_size sbgp_box) y9
     = length (encs (map BSbgp (opt_list y9)))"
  "list_all (dyn_wf n) (map BSubs (opt_list y10)) \<Longrightarrow> case_option 0 (box_size subs_box) y10
     = length (encs (map BSubs (opt_list y10)))"
  "list_all (dyn_wf n) (map BVmhd (opt_list y11)) \<Longrightarrow> case_option 0 (box_size vmhd_box) y11
     = length (encs (map BVmhd (opt_list y11)))"
  "list_all (dyn_wf n) (map BSmhd (opt_list y12)) \<Longrightarrow> case_option 0 (box_size smhd_box) y12
     = length (encs (map BSmhd (opt_list y12)))"
  "list_all (dyn_wf n) (map BHmhd (opt_list y13)) \<Longrightarrow> case_option 0 (box_size hmhd_box) y13
     = length (encs (map BHmhd (opt_list y13)))"
  "list_all (dyn_wf n) (map BNmhd (opt_list y14)) \<Longrightarrow> case_option 0 (box_size nmhd_box) y14
     = length (encs (map BNmhd (opt_list y14)))"
  "list_all (dyn_wf n) (map BElst (opt_list y15)) \<Longrightarrow> case_option 0 (box_size elst_box) y15
     = length (encs (map BElst (opt_list y15)))"
  "list_all (dyn_wf n) (map BEdts (opt_list y16)) \<Longrightarrow> n \<le> k \<Longrightarrow> case_option 0 (box_size (edts_box (dyn_ops_at k))) y16
     = length (encs (map BEdts (opt_list y16)))"
  "list_all (dyn_wf n) (map BMehd (opt_list y17)) \<Longrightarrow> case_option 0 (box_size mehd_box) y17
     = length (encs (map BMehd (opt_list y17)))"
  "list_all (dyn_wf n) (map BMvex (opt_list y18)) \<Longrightarrow> n \<le> k \<Longrightarrow> case_option 0 (box_size (mvex_box (dyn_ops_at k))) y18
     = length (encs (map BMvex (opt_list y18)))"
  "list_all (dyn_wf n) (map BTrun (opt_list y19)) \<Longrightarrow> case_option 0 (box_size trun_box) y19
     = length (encs (map BTrun (opt_list y19)))"
  "list_all (dyn_wf n) (map BTfdt (opt_list y20)) \<Longrightarrow> case_option 0 (box_size tfdt_box) y20
     = length (encs (map BTfdt (opt_list y20)))"
  "list_all (dyn_wf n) (map BBtrt (opt_list y21)) \<Longrightarrow> case_option 0 (box_size btrt_box) y21
     = length (encs (map BBtrt (opt_list y21)))"
  "list_all (dyn_wf n) (map BClap (opt_list y22)) \<Longrightarrow> case_option 0 (box_size clap_box) y22
     = length (encs (map BClap (opt_list y22)))"
  "list_all (dyn_wf n) (map BPasp (opt_list y23)) \<Longrightarrow> case_option 0 (box_size pasp_box) y23
     = length (encs (map BPasp (opt_list y23)))"
  "list_all (dyn_wf n) (map BColr (opt_list y24)) \<Longrightarrow> case_option 0 (box_size colr_box) y24
     = length (encs (map BColr (opt_list y24)))"
  by ((rule opt_kind(2) [where k = "Suc n"]; simp only: tree_Suc le_SucI order_refl),
    (rule opt_kind(2) [where k = "Suc n"]; simp only: tree_Suc le_SucI order_refl),
    (rule opt_kind(2) [where k = "Suc n"]; simp only: tree_Suc le_SucI order_refl),
    (rule opt_kind(2) [where k = "Suc n"]; simp only: tree_Suc le_SucI order_refl),
    (rule opt_kind(2) [where k = "Suc n"]; simp only: tree_Suc le_SucI order_refl),
    (rule opt_kind(2) [where k = "Suc n"]; simp only: tree_Suc le_SucI order_refl),
    (rule opt_kind(2) [where k = "Suc n"]; simp only: tree_Suc le_SucI order_refl),
    (rule opt_kind(2) [where k = "Suc n"]; simp only: tree_Suc le_SucI order_refl),
    (rule opt_kind(2) [where k = "Suc n"]; simp only: tree_Suc le_SucI order_refl),
    (rule opt_kind(2) [where k = "Suc n"]; simp only: tree_Suc le_SucI order_refl),
    (rule opt_kind(2) [where k = "Suc n"]; simp only: tree_Suc le_SucI order_refl),
    (rule opt_kind(2) [where k = "Suc n"]; simp only: tree_Suc le_SucI order_refl),
    (rule opt_kind(2) [where k = "Suc n"]; simp only: tree_Suc le_SucI order_refl),
    (rule opt_kind(2) [where k = "Suc n"]; simp only: tree_Suc le_SucI order_refl),
    (rule opt_kind(2) [where k = "Suc n"]; simp only: tree_Suc le_SucI order_refl),
    (rule opt_kind(2) [where k = "Suc n"]; simp only: tree_Suc le_SucI order_refl),
    (rule opt_kind(2) [where k = "Suc k"]; simp only: tree_Suc le_SucI order_refl),
    (rule opt_kind(2) [where k = "Suc n"]; simp only: tree_Suc le_SucI order_refl),
    (rule opt_kind(2) [where k = "Suc k"]; simp only: tree_Suc le_SucI order_refl),
    (rule opt_kind(2) [where k = "Suc n"]; simp only: tree_Suc le_SucI order_refl),
    (rule opt_kind(2) [where k = "Suc n"]; simp only: tree_Suc le_SucI order_refl),
    (rule opt_kind(2) [where k = "Suc n"]; simp only: tree_Suc le_SucI order_refl),
    (rule opt_kind(2) [where k = "Suc n"]; simp only: tree_Suc le_SucI order_refl),
    (rule opt_kind(2) [where k = "Suc n"]; simp only: tree_Suc le_SucI order_refl),
    (rule opt_kind(2) [where k = "Suc n"]; simp only: tree_Suc le_SucI order_refl))

lemma vec_mux:
  "list_all (dyn_wf n) (map BTrex ys0) \<Longrightarrow> for_m ys0 (box_mux trex_box) out = (Ok (), out @ encs (map BTrex ys0))"
  "list_all (dyn_wf n) (map BTrak ys1) \<Longrightarrow> n \<le> k \<Longrightarrow> for_m ys1 (box_mux (trak_box (dyn_ops_at k))) out = (Ok (), out @ encs (map BTrak ys1))"
  "list_all (dyn_wf n) (map BTraf ys2) \<Longrightarrow> n \<le> k \<Longrightarrow> for_m ys2 (box_mux (traf_box (dyn_ops_at k))) out = (Ok (), out @ encs (map BTraf ys2))"
  by ((rule for_kind [where k = "Suc n"]; simp only: tree_Suc le_SucI order_refl),
    (rule for_kind [where k = "Suc k"]; simp only: tree_Suc le_SucI order_refl),
    (rule for_kind [where k = "Suc k"]; simp only: tree_Suc le_SucI order_refl))

lemma vec_size:
  "list_all (dyn_wf n) (map BTrex ys0) \<Longrightarrow> sum_list (map (box_size trex_box) ys0) = length (encs (map BTrex ys0))"
  "list_all (dyn_wf n) (map BTrak ys1) \<Longrightarrow> n \<le> k \<Longrightarrow> sum_list (map (box_size (trak_box (dyn_ops_at k))) ys1) = length (encs (map BTrak ys1))"
  "list_all (dyn_wf n) (map BTraf ys2) \<Longrightarrow> n \<le> k \<Longrightarrow> sum_list (map (box_size (traf_box (dyn_ops_at k))) ys2) = length (encs (map BTraf ys2))"
  by ((rule sum_kind [where k = "Suc n"]; simp only: tree_Suc le_SucI order_refl),
    (rule sum_kind [where k = "Suc k"]; simp only: tree_Suc le_SucI order_refl),
    (rule sum_kind [where k = "Suc k"]; simp only: tree_Suc le_SucI order_refl))

lemmas mux_kinds = kind_mux opt_mux vec_mux
lemmas size_kinds = kind_size opt_size vec_size

lemma opt_unwrap: "write_opt m x out = (Ok (), t) \<Longrightarrow> write_opt (\<lambda>b. unwrap_m (m b)) x out = (Ok (), t)"
  by (cases x) (simp_all add: write_opt_def unwrap_m_def ret_def)

lemma visual_entry_children:
  assumes "visual_entry_wf e" "list_all (dyn_wf n) (map BClap (opt_list (vse_clap (se_extension e))))"
    "list_all (dyn_wf n) (map BPasp (opt_list (vse_pasp (se_extension e))))"
    "list_all (dyn_wf n) (map BColr (opt_list (vse_colr (se_extension e))))"
  shows "sample_entry_mux visual_ext e out = (Ok (), out @ visual_entry_bytes e
     @ encs (map BClap (opt_list (vse_clap (se_extension e)))) @ encs (map BPasp (opt_list (vse_pasp (se_extension e))))
     @ encs (map BColr (opt_list (vse_colr (se_extension e)))))"
  using assms by (simp add: visual_entry_mux run_simps opt_unwrap [OF opt_mux(23)] opt_unwrap [OF opt_mux(24)]
      opt_unwrap [OF opt_mux(25)])

lemma stsd_ok:
  assumes wf: "stsd_wf (dyn_wf n) b" and k: "n \<le> k"
  shows "box_ok (stsd_box (dyn_ops_at k)) b (full_header_bytes (stsd_header b) @ be32 (word_of_nat (length (stsd_entries b)))
     @ encs (stsd_entries b))" (is "box_ok _ _ ?bs")
proof -
  have h: "full_header_ok (fourcc ''stsd'') (stsd_header b)" and v: "stsd_validate b = Ok ()"
    and len: "length (stsd_entries b) \<le> u32_max" and entries: "list_all (dyn_wf n) (stsd_entries b)"
    using wf by (simp_all add: stsd_wf_def)
  have "stsd_primitive_mux (dyn_ops_at k) b out = (Ok (), out @ ?bs)" for out
    using for_encs [OF entries k] h by (simp add: stsd_primitive_mux_def run_simps box_simps)
  moreover have "stsd_primitive_size (dyn_ops_at k) b = length ?bs"
    using sum_encs [OF entries k] by (simp add: stsd_primitive_size_def box_simps)
  moreover have "stsd_demux (dyn_ops_at k) \<lparr>bh_box_type = fourcc ''stsd''\<rparr> ?bs = Ok b"
    using repeat_encs [OF entries k] h by (simp add: stsd_demux_def run_simps box_simps len)
  ultimately show ?thesis using v by (simp add: box_ok_def stsd_box_def)
qed

lemma dref_ok:
  assumes wf: "dref_wf (dyn_wf n) b" and k: "n \<le> k"
  shows "box_ok (dref_box (dyn_ops_at k)) b (full_header_bytes (dref_header b) @ be32 (word_of_nat (length (dref_entries b)))
     @ encs (dref_entries b))" (is "box_ok _ _ ?bs")
proof -
  have h: "full_header_ok (fourcc ''dref'') (dref_header b)" and v: "dref_validate b = Ok ()"
    and len: "length (dref_entries b) \<le> u32_max" and entries: "list_all (dyn_wf n) (dref_entries b)"
    using wf by (simp_all add: dref_wf_def)
  have "dref_primitive_mux (dyn_ops_at k) b out = (Ok (), out @ ?bs)" for out
    using for_encs [OF entries k] h by (simp add: dref_primitive_mux_def run_simps box_simps)
  moreover have "dref_primitive_size (dyn_ops_at k) b = length ?bs"
    using sum_encs [OF entries k] by (simp add: dref_primitive_size_def box_simps)
  moreover have "dref_demux (dyn_ops_at k) \<lparr>bh_box_type = fourcc ''dref''\<rparr> ?bs = Ok b"
    using repeat_encs [OF entries k] h by (simp add: dref_demux_def run_simps box_simps len)
  ultimately show ?thesis using v by (simp add: box_ok_def dref_box_def)
qed

lemma dinf_ok:
  assumes wf: "dinf_wf (dyn_wf n) b" and k: "n \<le> k"
  shows "box_ok (dinf_box (dyn_ops_at k)) b (encs (dinf_children b))"
proof -
  have h: "dinf_header b = \<lparr>bh_box_type = fourcc ''dinf''\<rparr>" and children: "list_all (dyn_wf n) (dinf_children b)"
    and others: "others [is_kind as_dref] (dinf_unknown b)"
    using wf by (simp_all add: dinf_wf_def)
  have mux: "dinf_primitive_mux (dyn_ops_at k) b out = (Ok (), out @ encs (dinf_children b))" for out
    using children k by (simp add: dinf_primitive_mux_def dinf_children_def encs_simps run_simps mux_kinds for_encs)
  have sz: "dinf_primitive_size (dyn_ops_at k) b = length (encs (dinf_children b))"
    using children k by (simp add: dinf_primitive_size_def dinf_children_def encs_simps size_kinds sum_encs)
  have none: "last_of as_dref (dinf_unknown b) = None"
    by (rule last_of_others [OF others] all_of_others [OF others]; simp)+
  have sorted: "last_of as_dref (dinf_children b) = Some (dinf_dref b)"
    "none_of [is_kind as_dref] (dinf_children b) = dinf_unknown b"
    by (simp_all add: dinf_children_def child_simps as_defs none others split: option.splits)
  have "dinf_demux (dyn_ops_at k) \<lparr>bh_box_type = fourcc ''dinf''\<rparr> (encs (dinf_children b)) = Ok b"
    using h by (simp add: dinf_demux_def reader_simps run_simps read_encs [OF children k] sorted child_simps) (cases b; simp)
  with mux sz show ?thesis by (simp add: box_ok_def dinf_box_def)
qed

lemma stbl_ok:
  assumes wf: "stbl_wf (dyn_wf n) b" and k: "n \<le> k"
  shows "box_ok (stbl_box (dyn_ops_at k)) b (encs (stbl_children b))"
proof -
  have h: "stbl_header b = \<lparr>bh_box_type = fourcc ''stbl''\<rparr>" and children: "list_all (dyn_wf n) (stbl_children b)"
    and others: "others [is_kind as_stsd, is_kind as_stts, is_kind as_ctts, is_kind as_stsc, is_kind as_stsz, is_kind as_stz2, is_kind as_stco, is_kind as_co64, is_kind as_stss, is_kind as_stsh, is_kind as_padb, is_kind as_stdp, is_kind as_sdtp, is_kind as_sbgp, is_kind as_subs] (stbl_unknown b)"
    using wf by (simp_all add: stbl_wf_def)
  have mux: "stbl_primitive_mux (dyn_ops_at k) b out = (Ok (), out @ encs (stbl_children b))" for out
    using children k by (simp add: stbl_primitive_mux_def stbl_children_def encs_simps run_simps mux_kinds for_encs)
  have sz: "stbl_primitive_size (dyn_ops_at k) b = length (encs (stbl_children b))"
    using children k by (simp add: stbl_primitive_size_def stbl_children_def encs_simps size_kinds sum_encs)
  have none: "last_of as_stsd (stbl_unknown b) = None" "last_of as_stts (stbl_unknown b) = None" "last_of as_ctts (stbl_unknown b) = None" "last_of as_stsc (stbl_unknown b) = None" "last_of as_stsz (stbl_unknown b) = None" "last_of as_stz2 (stbl_unknown b) = None" "last_of as_stco (stbl_unknown b) = None" "last_of as_co64 (stbl_unknown b) = None" "last_of as_stss (stbl_unknown b) = None" "last_of as_stsh (stbl_unknown b) = None" "last_of as_padb (stbl_unknown b) = None" "last_of as_stdp (stbl_unknown b) = None" "last_of as_sdtp (stbl_unknown b) = None" "last_of as_sbgp (stbl_unknown b) = None" "last_of as_subs (stbl_unknown b) = None"
    by (rule last_of_others [OF others] all_of_others [OF others]; simp)+
  have sorted: "last_of as_stsd (stbl_children b) = Some (stbl_stsd b)"
    "last_of as_stts (stbl_children b) = Some (stbl_stts b)"
    "last_of as_ctts (stbl_children b) = stbl_ctts b"
    "last_of as_stsc (stbl_children b) = Some (stbl_stsc b)"
    "last_of as_stsz (stbl_children b) = stbl_stsz b"
    "last_of as_stz2 (stbl_children b) = stbl_stz2 b"
    "last_of as_stco (stbl_children b) = Some (stbl_stco b)"
    "last_of as_co64 (stbl_children b) = stbl_co64 b"
    "last_of as_stss (stbl_children b) = stbl_stss b"
    "last_of as_stsh (stbl_children b) = stbl_stsh b"
    "last_of as_padb (stbl_children b) = stbl_padb b"
    "last_of as_stdp (stbl_children b) = stbl_stdp b"
    "last_of as_sdtp (stbl_children b) = stbl_sdtp b"
    "last_of as_sbgp (stbl_children b) = stbl_sbgp b"
    "last_of as_subs (stbl_children b) = stbl_subs b"
    "none_of [is_kind as_stsd, is_kind as_stts, is_kind as_ctts, is_kind as_stsc, is_kind as_stsz, is_kind as_stz2, is_kind as_stco, is_kind as_co64, is_kind as_stss, is_kind as_stsh, is_kind as_padb, is_kind as_stdp, is_kind as_sdtp, is_kind as_sbgp, is_kind as_subs] (stbl_children b) = stbl_unknown b"
    by (simp_all add: stbl_children_def child_simps as_defs none others split: option.splits)
  have "stbl_demux (dyn_ops_at k) \<lparr>bh_box_type = fourcc ''stbl''\<rparr> (encs (stbl_children b)) = Ok b"
    using h by (simp add: stbl_demux_def reader_simps run_simps read_encs [OF children k] sorted child_simps) (cases b; simp)
  with mux sz show ?thesis by (simp add: box_ok_def stbl_box_def)
qed

lemma minf_ok:
  assumes wf: "minf_wf (dyn_wf n) b" and k: "n \<le> k"
  shows "box_ok (minf_box (dyn_ops_at k)) b (encs (minf_children b))"
proof -
  have h: "minf_header b = \<lparr>bh_box_type = fourcc ''minf''\<rparr>" and children: "list_all (dyn_wf n) (minf_children b)"
    and others: "others [is_kind as_vmhd, is_kind as_smhd, is_kind as_hmhd, is_kind as_nmhd, is_kind as_dinf, is_kind as_stbl] (minf_unknown b)"
    using wf by (simp_all add: minf_wf_def)
  have mux: "minf_primitive_mux (dyn_ops_at k) b out = (Ok (), out @ encs (minf_children b))" for out
    using children k by (simp add: minf_primitive_mux_def minf_children_def encs_simps run_simps mux_kinds for_encs)
  have sz: "minf_primitive_size (dyn_ops_at k) b = length (encs (minf_children b))"
    using children k by (simp add: minf_primitive_size_def minf_children_def encs_simps size_kinds sum_encs)
  have none: "last_of as_vmhd (minf_unknown b) = None" "last_of as_smhd (minf_unknown b) = None" "last_of as_hmhd (minf_unknown b) = None" "last_of as_nmhd (minf_unknown b) = None" "last_of as_dinf (minf_unknown b) = None" "last_of as_stbl (minf_unknown b) = None"
    by (rule last_of_others [OF others] all_of_others [OF others]; simp)+
  have sorted: "last_of as_vmhd (minf_children b) = minf_vmhd b"
    "last_of as_smhd (minf_children b) = minf_smhd b"
    "last_of as_hmhd (minf_children b) = minf_hmhd b"
    "last_of as_nmhd (minf_children b) = minf_nmhd b"
    "last_of as_dinf (minf_children b) = Some (minf_dinf b)"
    "last_of as_stbl (minf_children b) = Some (minf_stbl b)"
    "none_of [is_kind as_vmhd, is_kind as_smhd, is_kind as_hmhd, is_kind as_nmhd, is_kind as_dinf, is_kind as_stbl] (minf_children b) = minf_unknown b"
    by (simp_all add: minf_children_def child_simps as_defs none others split: option.splits)
  have "minf_demux (dyn_ops_at k) \<lparr>bh_box_type = fourcc ''minf''\<rparr> (encs (minf_children b)) = Ok b"
    using h by (simp add: minf_demux_def reader_simps run_simps read_encs [OF children k] sorted child_simps) (cases b; simp)
  with mux sz show ?thesis by (simp add: box_ok_def minf_box_def)
qed

lemma mdia_ok:
  assumes wf: "mdia_wf (dyn_wf n) b" and k: "n \<le> k"
  shows "box_ok (mdia_box (dyn_ops_at k)) b (encs (mdia_children b))"
proof -
  have h: "mdia_header b = \<lparr>bh_box_type = fourcc ''mdia''\<rparr>" and children: "list_all (dyn_wf n) (mdia_children b)"
    and others: "others [is_kind as_mdhd, is_kind as_hdlr, is_kind as_minf] (mdia_unknown b)"
    using wf by (simp_all add: mdia_wf_def)
  have mux: "mdia_primitive_mux (dyn_ops_at k) b out = (Ok (), out @ encs (mdia_children b))" for out
    using children k by (simp add: mdia_primitive_mux_def mdia_children_def encs_simps run_simps mux_kinds for_encs)
  have sz: "mdia_primitive_size (dyn_ops_at k) b = length (encs (mdia_children b))"
    using children k by (simp add: mdia_primitive_size_def mdia_children_def encs_simps size_kinds sum_encs)
  have none: "last_of as_mdhd (mdia_unknown b) = None" "last_of as_hdlr (mdia_unknown b) = None" "last_of as_minf (mdia_unknown b) = None"
    by (rule last_of_others [OF others] all_of_others [OF others]; simp)+
  have sorted: "last_of as_mdhd (mdia_children b) = Some (mdia_mdhd b)"
    "last_of as_hdlr (mdia_children b) = Some (mdia_hdlr b)"
    "last_of as_minf (mdia_children b) = Some (mdia_minf b)"
    "none_of [is_kind as_mdhd, is_kind as_hdlr, is_kind as_minf] (mdia_children b) = mdia_unknown b"
    by (simp_all add: mdia_children_def child_simps as_defs none others split: option.splits)
  have "mdia_demux (dyn_ops_at k) \<lparr>bh_box_type = fourcc ''mdia''\<rparr> (encs (mdia_children b)) = Ok b"
    using h by (simp add: mdia_demux_def reader_simps run_simps read_encs [OF children k] sorted child_simps) (cases b; simp)
  with mux sz show ?thesis by (simp add: box_ok_def mdia_box_def)
qed

lemma edts_ok:
  assumes wf: "edts_wf (dyn_wf n) b" and k: "n \<le> k"
  shows "box_ok (edts_box (dyn_ops_at k)) b (encs (edts_children b))"
proof -
  have h: "edts_header b = \<lparr>bh_box_type = fourcc ''edts''\<rparr>" and children: "list_all (dyn_wf n) (edts_children b)"
    and others: "others [is_kind as_elst] (edts_unknown b)"
    using wf by (simp_all add: edts_wf_def)
  have mux: "edts_primitive_mux (dyn_ops_at k) b out = (Ok (), out @ encs (edts_children b))" for out
    using children k by (simp add: edts_primitive_mux_def edts_children_def encs_simps run_simps mux_kinds for_encs)
  have sz: "edts_primitive_size (dyn_ops_at k) b = length (encs (edts_children b))"
    using children k by (simp add: edts_primitive_size_def edts_children_def encs_simps size_kinds sum_encs)
  have none: "last_of as_elst (edts_unknown b) = None"
    by (rule last_of_others [OF others] all_of_others [OF others]; simp)+
  have sorted: "last_of as_elst (edts_children b) = edts_elst b"
    "none_of [is_kind as_elst] (edts_children b) = edts_unknown b"
    by (simp_all add: edts_children_def child_simps as_defs none others split: option.splits)
  have "edts_demux (dyn_ops_at k) \<lparr>bh_box_type = fourcc ''edts''\<rparr> (encs (edts_children b)) = Ok b"
    using h by (simp add: edts_demux_def reader_simps run_simps read_encs [OF children k] sorted child_simps) (cases b; simp)
  with mux sz show ?thesis by (simp add: box_ok_def edts_box_def)
qed

lemma trak_ok:
  assumes wf: "trak_wf (dyn_wf n) b" and k: "n \<le> k"
  shows "box_ok (trak_box (dyn_ops_at k)) b (encs (trak_children b))"
proof -
  have h: "trak_header b = \<lparr>bh_box_type = fourcc ''trak''\<rparr>" and children: "list_all (dyn_wf n) (trak_children b)"
    and others: "others [is_kind as_tkhd, is_kind as_edts, is_kind as_mdia] (trak_unknown b)"
    using wf by (simp_all add: trak_wf_def)
  have mux: "trak_primitive_mux (dyn_ops_at k) b out = (Ok (), out @ encs (trak_children b))" for out
    using children k by (simp add: trak_primitive_mux_def trak_children_def encs_simps run_simps mux_kinds for_encs)
  have sz: "trak_primitive_size (dyn_ops_at k) b = length (encs (trak_children b))"
    using children k by (simp add: trak_primitive_size_def trak_children_def encs_simps size_kinds sum_encs)
  have none: "last_of as_tkhd (trak_unknown b) = None" "last_of as_edts (trak_unknown b) = None" "last_of as_mdia (trak_unknown b) = None"
    by (rule last_of_others [OF others] all_of_others [OF others]; simp)+
  have sorted: "last_of as_tkhd (trak_children b) = Some (trak_tkhd b)"
    "last_of as_edts (trak_children b) = trak_edts b"
    "last_of as_mdia (trak_children b) = Some (trak_mdia b)"
    "none_of [is_kind as_tkhd, is_kind as_edts, is_kind as_mdia] (trak_children b) = trak_unknown b"
    by (simp_all add: trak_children_def child_simps as_defs none others split: option.splits)
  have "trak_demux (dyn_ops_at k) \<lparr>bh_box_type = fourcc ''trak''\<rparr> (encs (trak_children b)) = Ok b"
    using h by (simp add: trak_demux_def reader_simps run_simps read_encs [OF children k] sorted child_simps) (cases b; simp)
  with mux sz show ?thesis by (simp add: box_ok_def trak_box_def)
qed

lemma mvex_ok:
  assumes wf: "mvex_wf (dyn_wf n) b" and k: "n \<le> k"
  shows "box_ok (mvex_box (dyn_ops_at k)) b (encs (mvex_children b))"
proof -
  have h: "mvex_header b = \<lparr>bh_box_type = fourcc ''mvex''\<rparr>" and children: "list_all (dyn_wf n) (mvex_children b)"
    and others: "others [is_kind as_trex, is_kind as_mehd] (mvex_unknown b)"
    using wf by (simp_all add: mvex_wf_def)
  have mux: "mvex_primitive_mux (dyn_ops_at k) b out = (Ok (), out @ encs (mvex_children b))" for out
    using children k by (simp add: mvex_primitive_mux_def mvex_children_def encs_simps run_simps mux_kinds for_encs)
  have sz: "mvex_primitive_size (dyn_ops_at k) b = length (encs (mvex_children b))"
    using children k by (simp add: mvex_primitive_size_def mvex_children_def encs_simps size_kinds sum_encs)
  have none: "all_of as_trex (mvex_unknown b) = []" "last_of as_mehd (mvex_unknown b) = None"
    by (rule last_of_others [OF others] all_of_others [OF others]; simp)+
  have sorted: "all_of as_trex (mvex_children b) = mvex_trex b"
    "last_of as_mehd (mvex_children b) = mvex_mehd b"
    "none_of [is_kind as_trex, is_kind as_mehd] (mvex_children b) = mvex_unknown b"
    by (simp_all add: mvex_children_def child_simps as_defs none others split: option.splits)
  have "mvex_demux (dyn_ops_at k) \<lparr>bh_box_type = fourcc ''mvex''\<rparr> (encs (mvex_children b)) = Ok b"
    using h by (simp add: mvex_demux_def reader_simps run_simps read_encs [OF children k] sorted child_simps) (cases b; simp)
  with mux sz show ?thesis by (simp add: box_ok_def mvex_box_def)
qed

lemma moov_ok:
  assumes wf: "moov_wf (dyn_wf n) b" and k: "n \<le> k"
  shows "box_ok (moov_box (dyn_ops_at k)) b (encs (moov_children b))"
proof -
  have h: "moov_header b = \<lparr>bh_box_type = fourcc ''moov''\<rparr>" and children: "list_all (dyn_wf n) (moov_children b)"
    and others: "others [is_kind as_mvhd, is_kind as_trak, is_kind as_mvex] (moov_unknown b)"
    using wf by (simp_all add: moov_wf_def)
  have mux: "moov_primitive_mux (dyn_ops_at k) b out = (Ok (), out @ encs (moov_children b))" for out
    using children k by (simp add: moov_primitive_mux_def moov_children_def encs_simps run_simps mux_kinds for_encs)
  have sz: "moov_primitive_size (dyn_ops_at k) b = length (encs (moov_children b))"
    using children k by (simp add: moov_primitive_size_def moov_children_def encs_simps size_kinds sum_encs)
  have none: "last_of as_mvhd (moov_unknown b) = None" "all_of as_trak (moov_unknown b) = []" "last_of as_mvex (moov_unknown b) = None"
    by (rule last_of_others [OF others] all_of_others [OF others]; simp)+
  have sorted: "last_of as_mvhd (moov_children b) = Some (moov_mvhd b)"
    "all_of as_trak (moov_children b) = moov_traks b"
    "last_of as_mvex (moov_children b) = moov_mvex b"
    "none_of [is_kind as_mvhd, is_kind as_trak, is_kind as_mvex] (moov_children b) = moov_unknown b"
    by (simp_all add: moov_children_def child_simps as_defs none others split: option.splits)
  have "moov_demux (dyn_ops_at k) \<lparr>bh_box_type = fourcc ''moov''\<rparr> (encs (moov_children b)) = Ok b"
    using h by (simp add: moov_demux_def reader_simps run_simps read_encs [OF children k] sorted child_simps) (cases b; simp)
  with mux sz show ?thesis by (simp add: box_ok_def moov_box_def)
qed

lemma traf_ok:
  assumes wf: "traf_wf (dyn_wf n) b" and k: "n \<le> k"
  shows "box_ok (traf_box (dyn_ops_at k)) b (encs (traf_children b))"
proof -
  have h: "traf_header b = \<lparr>bh_box_type = fourcc ''traf''\<rparr>" and children: "list_all (dyn_wf n) (traf_children b)"
    and others: "others [is_kind as_tfhd, is_kind as_trun, is_kind as_sbgp, is_kind as_subs, is_kind as_tfdt] (traf_unknown b)"
    using wf by (simp_all add: traf_wf_def)
  have mux: "traf_primitive_mux (dyn_ops_at k) b out = (Ok (), out @ encs (traf_children b))" for out
    using children k by (simp add: traf_primitive_mux_def traf_children_def encs_simps run_simps mux_kinds for_encs)
  have sz: "traf_primitive_size (dyn_ops_at k) b = length (encs (traf_children b))"
    using children k by (simp add: traf_primitive_size_def traf_children_def encs_simps size_kinds sum_encs)
  have none: "last_of as_tfhd (traf_unknown b) = None" "last_of as_trun (traf_unknown b) = None" "last_of as_sbgp (traf_unknown b) = None" "last_of as_subs (traf_unknown b) = None" "last_of as_tfdt (traf_unknown b) = None"
    by (rule last_of_others [OF others] all_of_others [OF others]; simp)+
  have sorted: "last_of as_tfhd (traf_children b) = Some (traf_tfhd b)"
    "last_of as_trun (traf_children b) = traf_trun b"
    "last_of as_sbgp (traf_children b) = traf_sbgp b"
    "last_of as_subs (traf_children b) = traf_subs b"
    "last_of as_tfdt (traf_children b) = traf_tfdt b"
    "none_of [is_kind as_tfhd, is_kind as_trun, is_kind as_sbgp, is_kind as_subs, is_kind as_tfdt] (traf_children b) = traf_unknown b"
    by (simp_all add: traf_children_def child_simps as_defs none others split: option.splits)
  have "traf_demux (dyn_ops_at k) \<lparr>bh_box_type = fourcc ''traf''\<rparr> (encs (traf_children b)) = Ok b"
    using h by (simp add: traf_demux_def reader_simps run_simps read_encs [OF children k] sorted child_simps) (cases b; simp)
  with mux sz show ?thesis by (simp add: box_ok_def traf_box_def)
qed

lemma moof_ok:
  assumes wf: "moof_wf (dyn_wf n) b" and k: "n \<le> k"
  shows "box_ok (moof_box (dyn_ops_at k)) b (encs (moof_children b))"
proof -
  have h: "moof_header b = \<lparr>bh_box_type = fourcc ''moof''\<rparr>" and children: "list_all (dyn_wf n) (moof_children b)"
    and others: "others [is_kind as_mfhd, is_kind as_traf] (moof_unknown b)"
    using wf by (simp_all add: moof_wf_def)
  have mux: "moof_primitive_mux (dyn_ops_at k) b out = (Ok (), out @ encs (moof_children b))" for out
    using children k by (simp add: moof_primitive_mux_def moof_children_def encs_simps run_simps mux_kinds for_encs)
  have sz: "moof_primitive_size (dyn_ops_at k) b = length (encs (moof_children b))"
    using children k by (simp add: moof_primitive_size_def moof_children_def encs_simps size_kinds sum_encs)
  have none: "last_of as_mfhd (moof_unknown b) = None" "all_of as_traf (moof_unknown b) = []"
    by (rule last_of_others [OF others] all_of_others [OF others]; simp)+
  have sorted: "last_of as_mfhd (moof_children b) = Some (moof_mfhd b)"
    "all_of as_traf (moof_children b) = moof_traf b"
    "none_of [is_kind as_mfhd, is_kind as_traf] (moof_children b) = moof_unknown b"
    by (simp_all add: moof_children_def child_simps as_defs none others split: option.splits)
  have "moof_demux (dyn_ops_at k) \<lparr>bh_box_type = fourcc ''moof''\<rparr> (encs (moof_children b)) = Ok b"
    using h by (simp add: moof_demux_def reader_simps run_simps read_encs [OF children k] sorted child_simps) (cases b; simp)
  with mux sz show ?thesis by (simp add: box_ok_def moof_box_def)
qed

lemma avc1_ok:
  assumes wf: "avc1_wf (dyn_wf n) b" and k: "n \<le> k"
  shows "box_ok (avc1_box (dyn_ops_at k)) b (visual_entry_bytes (avc1_visual_sample_entry b) @ encs (avc1_children b))"
proof -
  have h: "avc1_header b = \<lparr>bh_box_type = fourcc ''avc1''\<rparr>" and children: "list_all (dyn_wf n) (avc1_children b)"
    and others: "others [is_kind as_avcc, is_kind as_btrt, is_kind as_clap, is_kind as_pasp, is_kind as_colr] (avc1_unknown b)"
    and entry: "visual_entry_wf (avc1_visual_sample_entry b)"
    using wf by (simp_all add: avc1_wf_def)
  have mux: "avc1_primitive_mux (dyn_ops_at k) b out = (Ok (), out @ visual_entry_bytes (avc1_visual_sample_entry b) @ encs (avc1_children b))" for out
    using children k by (simp add: avc1_primitive_mux_def avc1_children_def encs_simps run_simps mux_kinds for_encs visual_entry_children [OF entry])
  have sz: "avc1_primitive_size (dyn_ops_at k) b = length (visual_entry_bytes (avc1_visual_sample_entry b) @ encs (avc1_children b))"
    using children k by (simp add: avc1_primitive_size_def avc1_children_def encs_simps size_kinds sum_encs visual_entry_size [OF entry])
  have none: "last_of as_avcc (avc1_unknown b) = None" "last_of as_btrt (avc1_unknown b) = None" "last_of as_clap (avc1_unknown b) = None" "last_of as_pasp (avc1_unknown b) = None" "last_of as_colr (avc1_unknown b) = None"
    by (rule last_of_others [OF others] all_of_others [OF others]; simp)+
  have sorted: "last_of as_avcc (avc1_children b) = Some (avc1_avcc b)"
    "last_of as_btrt (avc1_children b) = avc1_btrt b"
    "last_of as_clap (avc1_children b) = vse_clap (se_extension (avc1_visual_sample_entry b))"
    "last_of as_pasp (avc1_children b) = vse_pasp (se_extension (avc1_visual_sample_entry b))"
    "last_of as_colr (avc1_children b) = vse_colr (se_extension (avc1_visual_sample_entry b))"
    "none_of [is_kind as_avcc, is_kind as_btrt, is_kind as_clap, is_kind as_pasp, is_kind as_colr] (avc1_children b) = avc1_unknown b"
    by (simp_all add: avc1_children_def child_simps as_defs none others split: option.splits)
  have "avc1_demux (dyn_ops_at k) \<lparr>bh_box_type = fourcc ''avc1''\<rparr> (visual_entry_bytes (avc1_visual_sample_entry b) @ encs (avc1_children b)) = Ok b"
    using h by (simp add: avc1_demux_def reader_simps run_simps read_encs [OF children k] sorted child_simps visual_entry_demux [OF entry] attach_boxes_def) (cases b; simp add: vse_plain_def)
  with mux sz show ?thesis by (simp add: box_ok_def avc1_box_def)
qed

lemma hev1_ok:
  assumes wf: "hev1_wf (dyn_wf n) b" and k: "n \<le> k"
  shows "box_ok (hev1_box (dyn_ops_at k)) b (visual_entry_bytes (hev1_visual_sample_entry b) @ encs (hev1_children b))"
proof -
  have h: "hev1_header b = \<lparr>bh_box_type = fourcc ''hev1''\<rparr>" and children: "list_all (dyn_wf n) (hev1_children b)"
    and others: "others [is_kind as_hvcc, is_kind as_btrt, is_kind as_clap, is_kind as_pasp, is_kind as_colr] (hev1_unknown b)"
    and entry: "visual_entry_wf (hev1_visual_sample_entry b)"
    using wf by (simp_all add: hev1_wf_def)
  have mux: "hev1_primitive_mux (dyn_ops_at k) b out = (Ok (), out @ visual_entry_bytes (hev1_visual_sample_entry b) @ encs (hev1_children b))" for out
    using children k by (simp add: hev1_primitive_mux_def hev1_children_def encs_simps run_simps mux_kinds for_encs visual_entry_children [OF entry])
  have sz: "hev1_primitive_size (dyn_ops_at k) b = length (visual_entry_bytes (hev1_visual_sample_entry b) @ encs (hev1_children b))"
    using children k by (simp add: hev1_primitive_size_def hev1_children_def encs_simps size_kinds sum_encs visual_entry_size [OF entry])
  have none: "last_of as_hvcc (hev1_unknown b) = None" "last_of as_btrt (hev1_unknown b) = None" "last_of as_clap (hev1_unknown b) = None" "last_of as_pasp (hev1_unknown b) = None" "last_of as_colr (hev1_unknown b) = None"
    by (rule last_of_others [OF others] all_of_others [OF others]; simp)+
  have sorted: "last_of as_hvcc (hev1_children b) = Some (hev1_hvcc b)"
    "last_of as_btrt (hev1_children b) = hev1_btrt b"
    "last_of as_clap (hev1_children b) = vse_clap (se_extension (hev1_visual_sample_entry b))"
    "last_of as_pasp (hev1_children b) = vse_pasp (se_extension (hev1_visual_sample_entry b))"
    "last_of as_colr (hev1_children b) = vse_colr (se_extension (hev1_visual_sample_entry b))"
    "none_of [is_kind as_hvcc, is_kind as_btrt, is_kind as_clap, is_kind as_pasp, is_kind as_colr] (hev1_children b) = hev1_unknown b"
    by (simp_all add: hev1_children_def child_simps as_defs none others split: option.splits)
  have "hev1_demux (dyn_ops_at k) \<lparr>bh_box_type = fourcc ''hev1''\<rparr> (visual_entry_bytes (hev1_visual_sample_entry b) @ encs (hev1_children b)) = Ok b"
    using h by (simp add: hev1_demux_def reader_simps run_simps read_encs [OF children k] sorted child_simps visual_entry_demux [OF entry] attach_boxes_def) (cases b; simp add: vse_plain_def)
  with mux sz show ?thesis by (simp add: box_ok_def hev1_box_def)
qed

lemma av01_ok:
  assumes wf: "av01_wf (dyn_wf n) b" and k: "n \<le> k"
  shows "box_ok (av01_box (dyn_ops_at k)) b (visual_entry_bytes (av01_visual_sample_entry b) @ encs (av01_children b))"
proof -
  have h: "av01_header b = \<lparr>bh_box_type = fourcc ''av01''\<rparr>" and children: "list_all (dyn_wf n) (av01_children b)"
    and others: "others [is_kind as_av1c, is_kind as_btrt, is_kind as_clap, is_kind as_pasp, is_kind as_colr] (av01_unknown b)"
    and entry: "visual_entry_wf (av01_visual_sample_entry b)"
    using wf by (simp_all add: av01_wf_def)
  have mux: "av01_primitive_mux (dyn_ops_at k) b out = (Ok (), out @ visual_entry_bytes (av01_visual_sample_entry b) @ encs (av01_children b))" for out
    using children k by (simp add: av01_primitive_mux_def av01_children_def encs_simps run_simps mux_kinds for_encs visual_entry_children [OF entry])
  have sz: "av01_primitive_size (dyn_ops_at k) b = length (visual_entry_bytes (av01_visual_sample_entry b) @ encs (av01_children b))"
    using children k by (simp add: av01_primitive_size_def av01_children_def encs_simps size_kinds sum_encs visual_entry_size [OF entry])
  have none: "last_of as_av1c (av01_unknown b) = None" "last_of as_btrt (av01_unknown b) = None" "last_of as_clap (av01_unknown b) = None" "last_of as_pasp (av01_unknown b) = None" "last_of as_colr (av01_unknown b) = None"
    by (rule last_of_others [OF others] all_of_others [OF others]; simp)+
  have sorted: "last_of as_av1c (av01_children b) = Some (av01_av1c b)"
    "last_of as_btrt (av01_children b) = av01_btrt b"
    "last_of as_clap (av01_children b) = vse_clap (se_extension (av01_visual_sample_entry b))"
    "last_of as_pasp (av01_children b) = vse_pasp (se_extension (av01_visual_sample_entry b))"
    "last_of as_colr (av01_children b) = vse_colr (se_extension (av01_visual_sample_entry b))"
    "none_of [is_kind as_av1c, is_kind as_btrt, is_kind as_clap, is_kind as_pasp, is_kind as_colr] (av01_children b) = av01_unknown b"
    by (simp_all add: av01_children_def child_simps as_defs none others split: option.splits)
  have "av01_demux (dyn_ops_at k) \<lparr>bh_box_type = fourcc ''av01''\<rparr> (visual_entry_bytes (av01_visual_sample_entry b) @ encs (av01_children b)) = Ok b"
    using h by (simp add: av01_demux_def reader_simps run_simps read_encs [OF children k] sorted child_simps visual_entry_demux [OF entry] attach_boxes_def) (cases b; simp add: vse_plain_def)
  with mux sz show ?thesis by (simp add: box_ok_def av01_box_def)
qed

lemma mp4a_ok:
  assumes wf: "mp4a_wf (dyn_wf n) b" and k: "n \<le> k"
  shows "box_ok (mp4a_box (dyn_ops_at k)) b (audio_entry_bytes (mp4a_audio_sample_entry b) @ encs (mp4a_children b))"
proof -
  have h: "mp4a_header b = \<lparr>bh_box_type = fourcc ''mp4a''\<rparr>" and children: "list_all (dyn_wf n) (mp4a_children b)"
    and others: "others [is_kind as_esds, is_kind as_btrt] (mp4a_unknown b)"
    and entry: "audio_entry_wf (mp4a_audio_sample_entry b)"
    using wf by (simp_all add: mp4a_wf_def)
  have mux: "mp4a_primitive_mux (dyn_ops_at k) b out = (Ok (), out @ audio_entry_bytes (mp4a_audio_sample_entry b) @ encs (mp4a_children b))" for out
    using children k by (simp add: mp4a_primitive_mux_def mp4a_children_def encs_simps run_simps mux_kinds for_encs audio_entry_run(1) [OF entry])
  have sz: "mp4a_primitive_size (dyn_ops_at k) b = length (audio_entry_bytes (mp4a_audio_sample_entry b) @ encs (mp4a_children b))"
    using children k by (simp add: mp4a_primitive_size_def mp4a_children_def encs_simps size_kinds sum_encs audio_entry_run(2) [OF entry, symmetric])
  have none: "last_of as_esds (mp4a_unknown b) = None" "last_of as_btrt (mp4a_unknown b) = None"
    by (rule last_of_others [OF others] all_of_others [OF others]; simp)+
  have sorted: "last_of as_esds (mp4a_children b) = Some (mp4a_esds b)"
    "last_of as_btrt (mp4a_children b) = mp4a_btrt b"
    "none_of [is_kind as_esds, is_kind as_btrt] (mp4a_children b) = mp4a_unknown b"
    by (simp_all add: mp4a_children_def child_simps as_defs none others split: option.splits)
  have "mp4a_demux (dyn_ops_at k) \<lparr>bh_box_type = fourcc ''mp4a''\<rparr> (audio_entry_bytes (mp4a_audio_sample_entry b) @ encs (mp4a_children b)) = Ok b"
    using h by (simp add: mp4a_demux_def reader_simps run_simps read_encs [OF children k] sorted child_simps audio_entry_run(3) [OF entry]) (cases b; simp)
  with mux sz show ?thesis by (simp add: box_ok_def mp4a_box_def)
qed

lemma opus_ok:
  assumes wf: "opus_wf (dyn_wf n) b" and k: "n \<le> k"
  shows "box_ok (opus_box (dyn_ops_at k)) b (audio_entry_bytes (opus_audio_sample_entry b) @ encs (opus_children b))"
proof -
  have h: "opus_header b = \<lparr>bh_box_type = fourcc ''Opus''\<rparr>" and children: "list_all (dyn_wf n) (opus_children b)"
    and others: "others [is_kind as_btrt] (opus_unknown b)"
    and entry: "audio_entry_wf (opus_audio_sample_entry b)"
    using wf by (simp_all add: opus_wf_def)
  have mux: "opus_primitive_mux (dyn_ops_at k) b out = (Ok (), out @ audio_entry_bytes (opus_audio_sample_entry b) @ encs (opus_children b))" for out
    using children k by (simp add: opus_primitive_mux_def opus_children_def encs_simps run_simps mux_kinds for_encs audio_entry_run(1) [OF entry])
  have sz: "opus_primitive_size (dyn_ops_at k) b = length (audio_entry_bytes (opus_audio_sample_entry b) @ encs (opus_children b))"
    using children k by (simp add: opus_primitive_size_def opus_children_def encs_simps size_kinds sum_encs audio_entry_run(2) [OF entry, symmetric])
  have none: "last_of as_btrt (opus_unknown b) = None"
    by (rule last_of_others [OF others] all_of_others [OF others]; simp)+
  have sorted: "last_of as_btrt (opus_children b) = opus_btrt b"
    "none_of [is_kind as_btrt] (opus_children b) = opus_unknown b"
    by (simp_all add: opus_children_def child_simps as_defs none others split: option.splits)
  have "opus_demux (dyn_ops_at k) \<lparr>bh_box_type = fourcc ''Opus''\<rparr> (audio_entry_bytes (opus_audio_sample_entry b) @ encs (opus_children b)) = Ok b"
    using h by (simp add: opus_demux_def reader_simps run_simps read_encs [OF children k] sorted child_simps audio_entry_run(3) [OF entry]) (cases b; simp)
  with mux sz show ?thesis by (simp add: box_ok_def opus_box_def)
qed

text \<open>One more level.\<close>

lemma next_level:
  assumes wf: "dyn_wf (Suc n) b"
  shows "\<exists>bs. tree_ok (Suc n) b bs"
proof -
  have fits: "tree_size (Suc n) b < 2 ^ 64" using wf by (simp only: dyn_wf.simps)
  show ?thesis
  proof (cases b)
    case (BFtyp x)
    have "ftyp_wf x" using wf by (simp add: BFtyp dyn_wf.simps)
    then show ?thesis unfolding BFtyp
      by (rule leaf_item [OF ftyp.box_codec_axioms, where C = BFtyp])
        (use fits in \<open>simp_all only: BFtyp tree_Suc, simp_all add: variants_def\<close>)
  next
    case (BMoov x)
    have "moov_wf (dyn_wf n) x" using wf by (simp add: BMoov dyn_wf.simps)
    then show ?thesis unfolding BMoov
      by (rule box_item [where bt = "\<lambda>k. moov_box (dyn_ops_at k)" and C = BMoov and name = "fourcc ''moov''", OF moov_ok])
        (use fits in \<open>simp_all only: BMoov tree_Suc, simp_all add: moov_box_def variants_def\<close>)
  next
    case (BMvhd x)
    have "mvhd_wf x" using wf by (simp add: BMvhd dyn_wf.simps)
    then show ?thesis unfolding BMvhd
      by (rule leaf_item [OF mvhd.box_codec_axioms, where C = BMvhd])
        (use fits in \<open>simp_all only: BMvhd tree_Suc, simp_all add: variants_def\<close>)
  next
    case (BMvex x)
    have "mvex_wf (dyn_wf n) x" using wf by (simp add: BMvex dyn_wf.simps)
    then show ?thesis unfolding BMvex
      by (rule box_item [where bt = "\<lambda>k. mvex_box (dyn_ops_at k)" and C = BMvex and name = "fourcc ''mvex''", OF mvex_ok])
        (use fits in \<open>simp_all only: BMvex tree_Suc, simp_all add: mvex_box_def variants_def\<close>)
  next
    case (BTrak x)
    have "trak_wf (dyn_wf n) x" using wf by (simp add: BTrak dyn_wf.simps)
    then show ?thesis unfolding BTrak
      by (rule box_item [where bt = "\<lambda>k. trak_box (dyn_ops_at k)" and C = BTrak and name = "fourcc ''trak''", OF trak_ok])
        (use fits in \<open>simp_all only: BTrak tree_Suc, simp_all add: trak_box_def variants_def\<close>)
  next
    case (BTrex x)
    have "trex_wf x" using wf by (simp add: BTrex dyn_wf.simps)
    then show ?thesis unfolding BTrex
      by (rule leaf_item [OF trex.box_codec_axioms, where C = BTrex])
        (use fits in \<open>simp_all only: BTrex tree_Suc, simp_all add: variants_def\<close>)
  next
    case (BMehd x)
    have "mehd_wf x" using wf by (simp add: BMehd dyn_wf.simps)
    then show ?thesis unfolding BMehd
      by (rule leaf_item [OF mehd.box_codec_axioms, where C = BMehd])
        (use fits in \<open>simp_all only: BMehd tree_Suc, simp_all add: variants_def\<close>)
  next
    case (BMdia x)
    have "mdia_wf (dyn_wf n) x" using wf by (simp add: BMdia dyn_wf.simps)
    then show ?thesis unfolding BMdia
      by (rule box_item [where bt = "\<lambda>k. mdia_box (dyn_ops_at k)" and C = BMdia and name = "fourcc ''mdia''", OF mdia_ok])
        (use fits in \<open>simp_all only: BMdia tree_Suc, simp_all add: mdia_box_def variants_def\<close>)
  next
    case (BTkhd x)
    have "tkhd_wf x" using wf by (simp add: BTkhd dyn_wf.simps)
    then show ?thesis unfolding BTkhd
      by (rule leaf_item [OF tkhd.box_codec_axioms, where C = BTkhd])
        (use fits in \<open>simp_all only: BTkhd tree_Suc, simp_all add: variants_def\<close>)
  next
    case (BEdts x)
    have "edts_wf (dyn_wf n) x" using wf by (simp add: BEdts dyn_wf.simps)
    then show ?thesis unfolding BEdts
      by (rule box_item [where bt = "\<lambda>k. edts_box (dyn_ops_at k)" and C = BEdts and name = "fourcc ''edts''", OF edts_ok])
        (use fits in \<open>simp_all only: BEdts tree_Suc, simp_all add: edts_box_def variants_def\<close>)
  next
    case (BElst x)
    have "elst_wf x" using wf by (simp add: BElst dyn_wf.simps)
    then show ?thesis unfolding BElst
      by (rule leaf_item [OF elst.box_codec_axioms, where C = BElst])
        (use fits in \<open>simp_all only: BElst tree_Suc, simp_all add: variants_def\<close>)
  next
    case (BMdhd x)
    have "mdhd_wf x" using wf by (simp add: BMdhd dyn_wf.simps)
    then show ?thesis unfolding BMdhd
      by (rule leaf_item [OF mdhd.box_codec_axioms, where C = BMdhd])
        (use fits in \<open>simp_all only: BMdhd tree_Suc, simp_all add: variants_def\<close>)
  next
    case (BMinf x)
    have "minf_wf (dyn_wf n) x" using wf by (simp add: BMinf dyn_wf.simps)
    then show ?thesis unfolding BMinf
      by (rule box_item [where bt = "\<lambda>k. minf_box (dyn_ops_at k)" and C = BMinf and name = "fourcc ''minf''", OF minf_ok])
        (use fits in \<open>simp_all only: BMinf tree_Suc, simp_all add: minf_box_def variants_def\<close>)
  next
    case (BHdlr x)
    have "hdlr_wf x" using wf by (simp add: BHdlr dyn_wf.simps)
    then show ?thesis unfolding BHdlr
      by (rule leaf_item [OF hdlr.box_codec_axioms, where C = BHdlr])
        (use fits in \<open>simp_all only: BHdlr tree_Suc, simp_all add: variants_def\<close>)
  next
    case (BDinf x)
    have "dinf_wf (dyn_wf n) x" using wf by (simp add: BDinf dyn_wf.simps)
    then show ?thesis unfolding BDinf
      by (rule box_item [where bt = "\<lambda>k. dinf_box (dyn_ops_at k)" and C = BDinf and name = "fourcc ''dinf''", OF dinf_ok])
        (use fits in \<open>simp_all only: BDinf tree_Suc, simp_all add: dinf_box_def variants_def\<close>)
  next
    case (BStbl x)
    have "stbl_wf (dyn_wf n) x" using wf by (simp add: BStbl dyn_wf.simps)
    then show ?thesis unfolding BStbl
      by (rule box_item [where bt = "\<lambda>k. stbl_box (dyn_ops_at k)" and C = BStbl and name = "fourcc ''stbl''", OF stbl_ok])
        (use fits in \<open>simp_all only: BStbl tree_Suc, simp_all add: stbl_box_def variants_def\<close>)
  next
    case (BHmhd x)
    have "hmhd_wf x" using wf by (simp add: BHmhd dyn_wf.simps)
    then show ?thesis unfolding BHmhd
      by (rule leaf_item [OF hmhd.box_codec_axioms, where C = BHmhd])
        (use fits in \<open>simp_all only: BHmhd tree_Suc, simp_all add: variants_def\<close>)
  next
    case (BNmhd x)
    have "nmhd_wf x" using wf by (simp add: BNmhd dyn_wf.simps)
    then show ?thesis unfolding BNmhd
      by (rule leaf_item [OF nmhd.box_codec_axioms, where C = BNmhd])
        (use fits in \<open>simp_all only: BNmhd tree_Suc, simp_all add: variants_def\<close>)
  next
    case (BSmhd x)
    have "smhd_wf x" using wf by (simp add: BSmhd dyn_wf.simps)
    then show ?thesis unfolding BSmhd
      by (rule leaf_item [OF smhd.box_codec_axioms, where C = BSmhd])
        (use fits in \<open>simp_all only: BSmhd tree_Suc, simp_all add: variants_def\<close>)
  next
    case (BVmhd x)
    have "vmhd_wf x" using wf by (simp add: BVmhd dyn_wf.simps)
    then show ?thesis unfolding BVmhd
      by (rule leaf_item [OF vmhd.box_codec_axioms, where C = BVmhd])
        (use fits in \<open>simp_all only: BVmhd tree_Suc, simp_all add: variants_def\<close>)
  next
    case (BDref x)
    have "dref_wf (dyn_wf n) x" using wf by (simp add: BDref dyn_wf.simps)
    then show ?thesis unfolding BDref
      by (rule box_item [where bt = "\<lambda>k. dref_box (dyn_ops_at k)" and C = BDref and name = "fourcc ''dref''", OF dref_ok])
        (use fits in \<open>simp_all only: BDref tree_Suc, simp_all add: dref_box_def variants_def\<close>)
  next
    case (BStsd x)
    have "stsd_wf (dyn_wf n) x" using wf by (simp add: BStsd dyn_wf.simps)
    then show ?thesis unfolding BStsd
      by (rule box_item [where bt = "\<lambda>k. stsd_box (dyn_ops_at k)" and C = BStsd and name = "fourcc ''stsd''", OF stsd_ok])
        (use fits in \<open>simp_all only: BStsd tree_Suc, simp_all add: stsd_box_def variants_def\<close>)
  next
    case (BStsz x)
    have "stsz_wf x" using wf by (simp add: BStsz dyn_wf.simps)
    then show ?thesis unfolding BStsz
      by (rule leaf_item [OF stsz.box_codec_axioms, where C = BStsz])
        (use fits in \<open>simp_all only: BStsz tree_Suc, simp_all add: variants_def\<close>)
  next
    case (BStsc x)
    have "stsc_wf x" using wf by (simp add: BStsc dyn_wf.simps)
    then show ?thesis unfolding BStsc
      by (rule leaf_item [OF stsc.box_codec_axioms, where C = BStsc])
        (use fits in \<open>simp_all only: BStsc tree_Suc, simp_all add: variants_def\<close>)
  next
    case (BStco x)
    have "stco_wf x" using wf by (simp add: BStco dyn_wf.simps)
    then show ?thesis unfolding BStco
      by (rule leaf_item [OF stco.box_codec_axioms, where C = BStco])
        (use fits in \<open>simp_all only: BStco tree_Suc, simp_all add: variants_def\<close>)
  next
    case (BCo64 x)
    have "co64_wf x" using wf by (simp add: BCo64 dyn_wf.simps)
    then show ?thesis unfolding BCo64
      by (rule leaf_item [OF co64.box_codec_axioms, where C = BCo64])
        (use fits in \<open>simp_all only: BCo64 tree_Suc, simp_all add: variants_def\<close>)
  next
    case (BStts x)
    have "stts_wf x" using wf by (simp add: BStts dyn_wf.simps)
    then show ?thesis unfolding BStts
      by (rule leaf_item [OF stts.box_codec_axioms, where C = BStts])
        (use fits in \<open>simp_all only: BStts tree_Suc, simp_all add: variants_def\<close>)
  next
    case (BStss x)
    have "stss_wf x" using wf by (simp add: BStss dyn_wf.simps)
    then show ?thesis unfolding BStss
      by (rule leaf_item [OF stss.box_codec_axioms, where C = BStss])
        (use fits in \<open>simp_all only: BStss tree_Suc, simp_all add: variants_def\<close>)
  next
    case (BStz2 x)
    have "stz2_wf x" using wf by (simp add: BStz2 dyn_wf.simps)
    then show ?thesis unfolding BStz2
      by (rule leaf_item [OF stz2.box_codec_axioms, where C = BStz2])
        (use fits in \<open>simp_all only: BStz2 tree_Suc, simp_all add: variants_def\<close>)
  next
    case (BStsh x)
    have "stsh_wf x" using wf by (simp add: BStsh dyn_wf.simps)
    then show ?thesis unfolding BStsh
      by (rule leaf_item [OF stsh.box_codec_axioms, where C = BStsh])
        (use fits in \<open>simp_all only: BStsh tree_Suc, simp_all add: variants_def\<close>)
  next
    case (BCtts x)
    have "ctts_wf x" using wf by (simp add: BCtts dyn_wf.simps)
    then show ?thesis unfolding BCtts
      by (rule leaf_item [OF ctts.box_codec_axioms, where C = BCtts])
        (use fits in \<open>simp_all only: BCtts tree_Suc, simp_all add: variants_def\<close>)
  next
    case (BStdp x)
    have "stdp_wf x" using wf by (simp add: BStdp dyn_wf.simps)
    then show ?thesis unfolding BStdp
      by (rule leaf_item [OF stdp.box_codec_axioms, where C = BStdp])
        (use fits in \<open>simp_all only: BStdp tree_Suc, simp_all add: variants_def\<close>)
  next
    case (BSbgp x)
    have "sbgp_wf x" using wf by (simp add: BSbgp dyn_wf.simps)
    then show ?thesis unfolding BSbgp
      by (rule leaf_item [OF sbgp.box_codec_axioms, where C = BSbgp])
        (use fits in \<open>simp_all only: BSbgp tree_Suc, simp_all add: variants_def\<close>)
  next
    case (BSubs x)
    have "subs_wf x" using wf by (simp add: BSubs dyn_wf.simps)
    then show ?thesis unfolding BSubs
      by (rule leaf_item [OF subs.box_codec_axioms, where C = BSubs])
        (use fits in \<open>simp_all only: BSubs tree_Suc, simp_all add: variants_def\<close>)
  next
    case (BPadb x)
    have "padb_wf x" using wf by (simp add: BPadb dyn_wf.simps)
    then show ?thesis unfolding BPadb
      by (rule leaf_item [OF padb.box_codec_axioms, where C = BPadb])
        (use fits in \<open>simp_all only: BPadb tree_Suc, simp_all add: variants_def\<close>)
  next
    case (BSdtp x)
    have "sdtp_wf x" using wf by (simp add: BSdtp dyn_wf.simps)
    then show ?thesis unfolding BSdtp
      by (rule leaf_item [OF sdtp.box_codec_axioms, where C = BSdtp])
        (use fits in \<open>simp_all only: BSdtp tree_Suc, simp_all add: variants_def\<close>)
  next
    case (BUrl x)
    have "url_wf x" using wf by (simp add: BUrl dyn_wf.simps)
    then show ?thesis unfolding BUrl
      by (rule leaf_item [OF url.box_codec_axioms, where C = BUrl])
        (use fits in \<open>simp_all only: BUrl tree_Suc, simp_all add: variants_def\<close>)
  next
    case (BAvc1 x)
    have "avc1_wf (dyn_wf n) x" using wf by (simp add: BAvc1 dyn_wf.simps)
    then show ?thesis unfolding BAvc1
      by (rule box_item [where bt = "\<lambda>k. avc1_box (dyn_ops_at k)" and C = BAvc1 and name = "fourcc ''avc1''", OF avc1_ok])
        (use fits in \<open>simp_all only: BAvc1 tree_Suc, simp_all add: avc1_box_def variants_def\<close>)
  next
    case (BClap x)
    have "clap_wf x" using wf by (simp add: BClap dyn_wf.simps)
    then show ?thesis unfolding BClap
      by (rule leaf_item [OF clap.box_codec_axioms, where C = BClap])
        (use fits in \<open>simp_all only: BClap tree_Suc, simp_all add: variants_def\<close>)
  next
    case (BPasp x)
    have "pasp_wf x" using wf by (simp add: BPasp dyn_wf.simps)
    then show ?thesis unfolding BPasp
      by (rule leaf_item [OF pasp.box_codec_axioms, where C = BPasp])
        (use fits in \<open>simp_all only: BPasp tree_Suc, simp_all add: variants_def\<close>)
  next
    case (BAvcC x)
    have "avcc_wf x" using wf by (simp add: BAvcC dyn_wf.simps)
    then show ?thesis unfolding BAvcC
      by (rule leaf_item [OF avcc.box_codec_axioms, where C = BAvcC])
        (use fits in \<open>simp_all only: BAvcC tree_Suc, simp_all add: variants_def\<close>)
  next
    case (BBtrt x)
    have "btrt_wf x" using wf by (simp add: BBtrt dyn_wf.simps)
    then show ?thesis unfolding BBtrt
      by (rule leaf_item [OF btrt.box_codec_axioms, where C = BBtrt])
        (use fits in \<open>simp_all only: BBtrt tree_Suc, simp_all add: variants_def\<close>)
  next
    case (BMp4a x)
    have "mp4a_wf (dyn_wf n) x" using wf by (simp add: BMp4a dyn_wf.simps)
    then show ?thesis unfolding BMp4a
      by (rule box_item [where bt = "\<lambda>k. mp4a_box (dyn_ops_at k)" and C = BMp4a and name = "fourcc ''mp4a''", OF mp4a_ok])
        (use fits in \<open>simp_all only: BMp4a tree_Suc, simp_all add: mp4a_box_def variants_def\<close>)
  next
    case (BEsds x)
    have "esds_wf n x" using wf by (simp add: BEsds dyn_wf.simps)
    then show ?thesis unfolding BEsds
      by (rule box_item [where bt = "\<lambda>k. esds_box (desc_ops_at k)" and C = BEsds and name = "fourcc ''esds''", OF esds_ok])
        (use fits in \<open>simp_all only: BEsds tree_Suc, simp_all add: esds_box_def variants_def\<close>)
  next
    case (BMoof x)
    have "moof_wf (dyn_wf n) x" using wf by (simp add: BMoof dyn_wf.simps)
    then show ?thesis unfolding BMoof
      by (rule box_item [where bt = "\<lambda>k. moof_box (dyn_ops_at k)" and C = BMoof and name = "fourcc ''moof''", OF moof_ok])
        (use fits in \<open>simp_all only: BMoof tree_Suc, simp_all add: moof_box_def variants_def\<close>)
  next
    case (BMfhd x)
    have "mfhd_wf x" using wf by (simp add: BMfhd dyn_wf.simps)
    then show ?thesis unfolding BMfhd
      by (rule leaf_item [OF mfhd.box_codec_axioms, where C = BMfhd])
        (use fits in \<open>simp_all only: BMfhd tree_Suc, simp_all add: variants_def\<close>)
  next
    case (BTraf x)
    have "traf_wf (dyn_wf n) x" using wf by (simp add: BTraf dyn_wf.simps)
    then show ?thesis unfolding BTraf
      by (rule box_item [where bt = "\<lambda>k. traf_box (dyn_ops_at k)" and C = BTraf and name = "fourcc ''traf''", OF traf_ok])
        (use fits in \<open>simp_all only: BTraf tree_Suc, simp_all add: traf_box_def variants_def\<close>)
  next
    case (BTfhd x)
    have "tfhd_wf x" using wf by (simp add: BTfhd dyn_wf.simps)
    then show ?thesis unfolding BTfhd
      by (rule leaf_item [OF tfhd.box_codec_axioms, where C = BTfhd])
        (use fits in \<open>simp_all only: BTfhd tree_Suc, simp_all add: variants_def\<close>)
  next
    case (BTfdt x)
    have "tfdt_wf x" using wf by (simp add: BTfdt dyn_wf.simps)
    then show ?thesis unfolding BTfdt
      by (rule leaf_item [OF tfdt.box_codec_axioms, where C = BTfdt])
        (use fits in \<open>simp_all only: BTfdt tree_Suc, simp_all add: variants_def\<close>)
  next
    case (BTrun x)
    have "trun_wf x" using wf by (simp add: BTrun dyn_wf.simps)
    then show ?thesis unfolding BTrun
      by (rule leaf_item [OF trun.box_codec_axioms, where C = BTrun])
        (use fits in \<open>simp_all only: BTrun tree_Suc, simp_all add: variants_def\<close>)
  next
    case (BMdat x)
    have "mdat_wf x" using wf by (simp add: BMdat dyn_wf.simps)
    then show ?thesis unfolding BMdat
      by (rule leaf_item [OF mdat.box_codec_axioms, where C = BMdat])
        (use fits in \<open>simp_all only: BMdat tree_Suc, simp_all add: variants_def\<close>)
  next
    case (BAv01 x)
    have "av01_wf (dyn_wf n) x" using wf by (simp add: BAv01 dyn_wf.simps)
    then show ?thesis unfolding BAv01
      by (rule box_item [where bt = "\<lambda>k. av01_box (dyn_ops_at k)" and C = BAv01 and name = "fourcc ''av01''", OF av01_ok])
        (use fits in \<open>simp_all only: BAv01 tree_Suc, simp_all add: av01_box_def variants_def\<close>)
  next
    case (BAv1C x)
    have "av1c_wf x" using wf by (simp add: BAv1C dyn_wf.simps)
    then show ?thesis unfolding BAv1C
      by (rule leaf_item [OF av1c.box_codec_axioms, where C = BAv1C])
        (use fits in \<open>simp_all only: BAv1C tree_Suc, simp_all add: variants_def\<close>)
  next
    case (BColr x)
    have "colr_wf x" using wf by (simp add: BColr dyn_wf.simps)
    then show ?thesis unfolding BColr
      by (rule leaf_item [OF colr.box_codec_axioms, where C = BColr])
        (use fits in \<open>simp_all only: BColr tree_Suc, simp_all add: variants_def\<close>)
  next
    case (BHev1 x)
    have "hev1_wf (dyn_wf n) x" using wf by (simp add: BHev1 dyn_wf.simps)
    then show ?thesis unfolding BHev1
      by (rule box_item [where bt = "\<lambda>k. hev1_box (dyn_ops_at k)" and C = BHev1 and name = "fourcc ''hev1''", OF hev1_ok])
        (use fits in \<open>simp_all only: BHev1 tree_Suc, simp_all add: hev1_box_def variants_def\<close>)
  next
    case (BHvcC x)
    have "hvcc_wf x" using wf by (simp add: BHvcC dyn_wf.simps)
    then show ?thesis unfolding BHvcC
      by (rule leaf_item [OF hvcc.box_codec_axioms, where C = BHvcC])
        (use fits in \<open>simp_all only: BHvcC tree_Suc, simp_all add: variants_def\<close>)
  next
    case (BOpus x)
    have "opus_wf (dyn_wf n) x" using wf by (simp add: BOpus dyn_wf.simps)
    then show ?thesis unfolding BOpus
      by (rule box_item [where bt = "\<lambda>k. opus_box (dyn_ops_at k)" and C = BOpus and name = "fourcc ''Opus''", OF opus_ok])
        (use fits in \<open>simp_all only: BOpus tree_Suc, simp_all add: opus_box_def variants_def\<close>)
  next
    case (BUnknown header data)
    then show ?thesis using wf unknown_item [of header data n] by (simp add: dyn_wf.simps)
  qed
qed

end

lemma box_levels: "box_level n"
proof (induction n)
  case 0
  show ?case by unfold_locales simp
next
  case (Suc n)
  show ?case by unfold_locales (rule box_level.next_level [OF Suc])
qed

interpretation boxes: box_level n for n
  by (rule box_levels)

section \<open>The round trip\<close>

text \<open>C33: every well-formed tree of boxes, of all 57 kinds the library knows and of unknown kinds, is written with exactly its
  announced size and read back unchanged, whatever bytes stand in front of it and behind it.\<close>

theorem mp4_tree_roundtrip:
  assumes "dyn_wf n b"
  shows "\<exists>bs. \<forall>k \<ge> n. d_size (dyn_ops_at k) b = length bs \<and> (\<forall>out. d_mux (dyn_ops_at k) b out = (Ok (), out @ bs))
     \<and> (\<forall>pre post. d_demux (dyn_ops_at k) (curs pre (bs @ post)) = (Ok b, curs (pre @ bs) post))"
  using boxes.wf_item [OF assms] by (auto simp: item_ok_def)

definition example_tree :: DynBox where
  "example_tree = BMoof (Moof (box_header_new (fourcc ''moof'')) (mfhd_new 1)
     [traf_new (tfhd_new 1 None None (Some 1024) None None) None (Some (tfdt_new 7))]
     [BUnknown (box_header_new (fourcc ''free'')) [1, 2, 3]])"

lemma example_tree_wf: "dyn_wf 3 example_tree"
proof -
  have "dyn_wf (Suc (Suc (Suc 0))) example_tree"
    by (simp add: example_tree_def dyn_wf.simps dyn_box_size_def box_size_def Let_def u32_max_def
        moof_box_def moof_primitive_size_def moof_wf_def moof_children_def traf_new_def traf_box_def traf_primitive_size_def
        traf_wf_def traf_children_def others_def is_kind_def as_defs box_header_new_def full_header_new_def
        mfhd_box_def mfhd_primitive_size_def mfhd_wf_def mfhd_validate_def mfhd_new_def full_header_size_def full_header_ok_def
        tfhd_box_def tfhd_primitive_size_def tfhd_wf_def tfhd_validate_def tfhd_new_def has_flag_def flag_if_def
        BASE_DATA_OFFSET_FLAG_def SAMPLE_DESCRIPTION_INDEX_FLAG_def DEFAULT_SAMPLE_DURATION_FLAG_def
        DEFAULT_SAMPLE_SIZE_FLAG_def DEFAULT_SAMPLE_FLAGS_FLAG_def DEFAULT_BASE_IS_MOOF_FLAG_def
        tfdt_box_def tfdt_primitive_size_def tfdt_wf_def tfdt_validate_def tfdt_new_def unknown_wf_def)
  then show ?thesis by (simp add: numeral_eq_Suc)
qed

theorem mp4_tree_roundtrip_witness:
  "\<exists>bs. d_mux (dyn_ops_at 3) example_tree [] = (Ok (), bs)
     \<and> fst (d_demux (dyn_ops_at 3) (cursor_new bs)) = Ok example_tree"
proof -
  obtain bs where bs: "\<And>out. d_mux (dyn_ops_at 3) example_tree out = (Ok (), out @ bs)"
      "\<And>pre post. d_demux (dyn_ops_at 3) (curs pre (bs @ post)) = (Ok example_tree, curs (pre @ bs) post)"
    using mp4_tree_roundtrip [OF example_tree_wf] by blast
  then show ?thesis using bs(1) [of "[]"] bs(2) [of "[]" "[]"] by (auto simp: cursor_new_curs)
qed

end

