(* ===== verification/Mp4_Traf.thy ===== *)
theory Mp4_Traf
  imports Mp4_Roundtrip
begin

text \<open>
  Track fragments (\<^verbatim>\<open>crates/mp4/src/boxes/types/traf.rs\<close>): \<^verbatim>\<open>optimize\<close>, which moves values that all samples of a run share
  into the defaults of the track fragment header, \<^verbatim>\<open>duration\<close> and \<^verbatim>\<open>contains_keyframe\<close>. The meaning of a fragment is the
  list of effective values of its samples.
\<close>

section \<open>Optimising a fragment\<close>

text \<open>The steps of \<^verbatim>\<open>optimize\<close>. Flags, when the samples behind the first one agree on them:\<close>

definition optimize_flags :: "Tfhd \<Rightarrow> Trun \<Rightarrow> Tfhd \<times> Trun" where
  "optimize_flags tfhd trun = (case trun_samples trun of
       first_sample # second # rest \<Rightarrow>
         if tfhd_default_sample_flags tfhd = None \<and> list_all (\<lambda>s. ts_flags s = ts_flags second) rest
         then (tfhd\<lparr>tfhd_default_sample_flags := ts_flags second\<rparr>,
           trun\<lparr>trun_first_sample_flags := (if ts_flags first_sample \<noteq> ts_flags second then ts_flags first_sample
                  else trun_first_sample_flags trun),
                trun_samples := map (ts_flags_update (\<lambda>_. None)) (trun_samples trun)\<rparr>)
         else (tfhd, trun)
     | _ \<Rightarrow> (tfhd, trun))"

text \<open>Composition time offsets, when all of them are zero:\<close>

definition optimize_offsets :: "Trun \<Rightarrow> Trun" where
  "optimize_offsets trun =
     (if list_all (\<lambda>s. ts_composition_time_offset s = Some 0) (trun_samples trun)
      then trun\<lparr>trun_samples := map (ts_composition_time_offset_update (\<lambda>_. None)) (trun_samples trun)\<rparr>
      else trun)"

text \<open>Durations and sizes, when all samples agree on them:\<close>

definition optimize_duration :: "Tfhd \<Rightarrow> Trun \<Rightarrow> Tfhd \<times> Trun" where
  "optimize_duration tfhd trun =
     (let d = ts_duration (hd (trun_samples trun)) in
      if tfhd_default_sample_duration tfhd = None \<and> list_all (\<lambda>s. ts_duration s = d) (tl (trun_samples trun))
      then (tfhd\<lparr>tfhd_default_sample_duration := d\<rparr>,
            trun\<lparr>trun_samples := map (ts_duration_update (\<lambda>_. None)) (trun_samples trun)\<rparr>)
      else (tfhd, trun))"

definition optimize_size :: "Tfhd \<Rightarrow> Trun \<Rightarrow> Tfhd \<times> Trun" where
  "optimize_size tfhd trun =
     (let d = ts_size (hd (trun_samples trun)) in
      if tfhd_default_sample_size tfhd = None \<and> list_all (\<lambda>s. ts_size s = d) (tl (trun_samples trun))
      then (tfhd\<lparr>tfhd_default_sample_size := d\<rparr>,
            trun\<lparr>trun_samples := map (ts_size_update (\<lambda>_. None)) (trun_samples trun)\<rparr>)
      else (tfhd, trun))"

text \<open>The flags of the two headers, recomputed:\<close>

definition trun_flags :: "Trun \<Rightarrow> u32" where
  "trun_flags trun =
     (let s = hd (trun_samples trun) in
      flag_if (trun_data_offset trun) FLAG_DATA_OFFSET OR flag_if (trun_first_sample_flags trun) FLAG_FIRST_SAMPLE_FLAGS
      OR flag_if (ts_duration s) FLAG_SAMPLE_DURATION OR flag_if (ts_size s) FLAG_SAMPLE_SIZE
      OR flag_if (ts_flags s) FLAG_SAMPLE_FLAGS
      OR flag_if (ts_composition_time_offset s) FLAG_SAMPLE_COMPOSITION_TIME_OFFSET)"

definition tfhd_flags :: "Tfhd \<Rightarrow> u32" where
  "tfhd_flags tfhd =
     flag_if (tfhd_base_data_offset tfhd) BASE_DATA_OFFSET_FLAG
      OR flag_if (tfhd_default_sample_duration tfhd) DEFAULT_SAMPLE_DURATION_FLAG
      OR flag_if (tfhd_default_sample_flags tfhd) DEFAULT_SAMPLE_FLAGS_FLAG
      OR flag_if (tfhd_default_sample_size tfhd) DEFAULT_SAMPLE_SIZE_FLAG
      OR (fh_flags (tfhd_header tfhd) AND DEFAULT_BASE_IS_MOOF_FLAG)"

definition optimize_values :: "Tfhd \<Rightarrow> Trun \<Rightarrow> Tfhd \<times> Trun" where
  "optimize_values tfhd trun =
     (let (tfhd, trun) = optimize_flags tfhd trun;
          trun = optimize_offsets trun;
          (tfhd, trun) = optimize_duration tfhd trun
      in optimize_size tfhd trun)"

definition optimize_run :: "Tfhd \<Rightarrow> Trun \<Rightarrow> Tfhd \<times> Trun" where
  "optimize_run tfhd trun =
     (let (tfhd, trun) = optimize_values tfhd trun
      in (tfhd\<lparr>tfhd_header := (tfhd_header tfhd)\<lparr>fh_flags := tfhd_flags tfhd\<rparr>\<rparr>,
          trun\<lparr>trun_header := (trun_header trun)\<lparr>fh_flags := trun_flags trun\<rparr>\<rparr>))"

definition traf_optimize :: "'d Traf \<Rightarrow> 'd Traf" where
  "traf_optimize t = (case traf_trun t of
       None \<Rightarrow> t
     | Some trun \<Rightarrow>
         if trun_samples trun = [] then t
         else let (tfhd, trun) = optimize_run (traf_tfhd t) trun
              in Traf (traf_header t) tfhd (Some trun) (traf_sbgp t) (traf_subs t) (traf_tfdt t) (traf_unknown t))"

section \<open>Duration and key frames\<close>

text \<open>Durations are added with overflow checks.\<close>

definition u32_add :: "u32 \<Rightarrow> u32 \<Rightarrow> ('e, u32) result" where
  "u32_add a b = (if unat a + unat b < 2 ^ 32 then Ok (a + b) else Panic)"

fun add_durations :: "u32 \<Rightarrow> u32 option list \<Rightarrow> ('e, u32) result" where
  "add_durations acc [] = Ok acc"
| "add_durations acc (None # ds) = add_durations acc ds"
| "add_durations acc (Some d # ds) = rbind (u32_add acc d) (\<lambda>acc. add_durations acc ds)"

definition or_default :: "'a option \<Rightarrow> 'a option \<Rightarrow> 'a option" where
  "or_default x y = (case x of Some v \<Rightarrow> Some v | None \<Rightarrow> y)"

definition traf_duration :: "'d Traf \<Rightarrow> u32 io_result" where
  "traf_duration t = (case traf_trun t of
       Some trun \<Rightarrow> add_durations 0 (map (\<lambda>s. or_default (ts_duration s) (tfhd_default_sample_duration (traf_tfhd t)))
          (trun_samples trun))
     | None \<Rightarrow> Ok 0)"

definition is_key :: "TrunSampleFlag option \<Rightarrow> bool" where
  "is_key x = (case x of Some f \<Rightarrow> tsf_sample_depends_on f = 2 | None \<Rightarrow> False)"

definition traf_contains_keyframe :: "'d Traf \<Rightarrow> bool" where
  "traf_contains_keyframe t = (case traf_trun t of
       Some trun \<Rightarrow> is_key (trun_first_sample_flags trun)
         \<or> list_ex (\<lambda>s. is_key (or_default (ts_flags s) (tfhd_default_sample_flags (traf_tfhd t)))) (trun_samples trun)
     | None \<Rightarrow> False)"

section \<open>The meaning of a fragment\<close>

definition effective_flags :: "Tfhd \<Rightarrow> Trun \<Rightarrow> TrunSampleFlag option list" where
  "effective_flags tfhd trun = (case trun_samples trun of
       [] \<Rightarrow> []
     | s # ss \<Rightarrow> or_default (trun_first_sample_flags trun) (or_default (ts_flags s) (tfhd_default_sample_flags tfhd))
         # map (\<lambda>s. or_default (ts_flags s) (tfhd_default_sample_flags tfhd)) ss)"

definition effective_values :: "Tfhd \<Rightarrow> Trun \<Rightarrow> (u32 option \<times> u32 option \<times> i64) list" where
  "effective_values tfhd trun = map (\<lambda>s. (or_default (ts_duration s) (tfhd_default_sample_duration tfhd),
      or_default (ts_size s) (tfhd_default_sample_size tfhd),
      case ts_composition_time_offset s of Some x \<Rightarrow> x | None \<Rightarrow> 0)) (trun_samples trun)"

text \<open>What does not depend on the flags of the headers in the validity of a run.\<close>

definition run_sample_ok :: "u8 \<Rightarrow> TrunSample \<Rightarrow> bool" where
  "run_sample_ok v s \<longleftrightarrow> case_option True (\<lambda>f. tsf_validate f = Ok ()) (ts_flags s) \<and> trun_offset_ok v s
     \<and> case_option True (\<lambda>x. sint x \<le> (if v = 1 then 0x7FFFFFFF else 0xFFFFFFFF)) (ts_composition_time_offset s)"

definition run_ok :: "Tfhd \<Rightarrow> Trun \<Rightarrow> bool" where
  "run_ok tfhd trun \<longleftrightarrow>
     trun_samples trun \<noteq> [] \<and> length (trun_samples trun) \<le> u32_max \<and> uniform_samples (trun_samples trun)
     \<and> (\<forall>s \<in> set (trun_samples trun). run_sample_ok (fh_version (trun_header trun)) s)
     \<and> case_option True (\<lambda>f. tsf_validate f = Ok ()) (trun_first_sample_flags trun)
     \<and> case_option True (\<lambda>f. tsf_validate f = Ok ()) (tfhd_default_sample_flags tfhd)
     \<and> fh_header (trun_header trun) = \<lparr>bh_box_type = fourcc ''trun''\<rparr>
     \<and> fh_header (tfhd_header tfhd) = \<lparr>bh_box_type = fourcc ''tfhd''\<rparr>
     \<and> fh_version (tfhd_header tfhd) = 0 \<and> tfhd_sample_description_index tfhd = None
     \<and> (fh_version (trun_header trun) = 0
        \<or> fh_version (trun_header trun) = 1
          \<and> (\<exists>s \<in> set (trun_samples trun). ts_composition_time_offset s \<noteq> Some 0)
          \<and> (\<forall>s \<in> set (trun_samples trun). ts_composition_time_offset s \<noteq> None))"

text \<open>The number of bytes of the optional fields.\<close>

definition opt4 :: "'a option \<Rightarrow> nat" where
  "opt4 x = (if x = None then 0 else 4)"

definition fields_size :: "Tfhd \<Rightarrow> Trun \<Rightarrow> nat" where
  "fields_size tfhd trun = opt4 (tfhd_default_sample_duration tfhd) + opt4 (tfhd_default_sample_size tfhd)
     + opt4 (tfhd_default_sample_flags tfhd) + opt4 (trun_first_sample_flags trun)
     + (let s = hd (trun_samples trun); n = length (trun_samples trun) in
         n * opt4 (ts_duration s) + n * opt4 (ts_size s) + n * opt4 (ts_flags s) + n * opt4 (ts_composition_time_offset s))"

text \<open>A step changes the representation only.\<close>

definition run_key :: "Tfhd \<Rightarrow> Trun \<Rightarrow> bool" where
  "run_key tfhd trun \<longleftrightarrow> is_key (trun_first_sample_flags trun)
     \<or> list_ex (\<lambda>s. is_key (or_default (ts_flags s) (tfhd_default_sample_flags tfhd))) (trun_samples trun)"

definition same_meaning :: "Tfhd \<times> Trun \<Rightarrow> Tfhd \<times> Trun \<Rightarrow> bool" where
  "same_meaning = (\<lambda>(tfhd, trun) (tfhd', trun').
     run_ok tfhd' trun' \<and> effective_flags tfhd' trun' = effective_flags tfhd trun
     \<and> effective_values tfhd' trun' = effective_values tfhd trun \<and> run_key tfhd' trun' = run_key tfhd trun
     \<and> fields_size tfhd' trun' \<le> fields_size tfhd trun \<and> length (trun_samples trun') = length (trun_samples trun)
     \<and> trun_header trun' = trun_header trun \<and> trun_data_offset trun' = trun_data_offset trun
     \<and> tfhd_header tfhd' = tfhd_header tfhd \<and> tfhd_track_id tfhd' = tfhd_track_id tfhd
     \<and> tfhd_base_data_offset tfhd' = tfhd_base_data_offset tfhd)"

lemma same_meaning_refl: "run_ok tfhd trun \<Longrightarrow> same_meaning (tfhd, trun) (tfhd, trun)"
  by (simp add: same_meaning_def)

lemma same_meaning_trans: "same_meaning a b \<Longrightarrow> same_meaning b c \<Longrightarrow> same_meaning a c"
  by (auto simp: same_meaning_def)

lemma opt4_simps [simp]: "opt4 None = 0" "opt4 (Some x) = 4"
  by (simp_all add: opt4_def)

lemma or_default_simps [simp]: "or_default None y = y" "or_default (Some x) y = Some x" "or_default z None = z"
  by (simp_all add: or_default_def split: option.splits)

definition has_fields :: "bool \<times> bool \<times> bool \<times> bool \<Rightarrow> TrunSample \<Rightarrow> bool" where
  "has_fields = (\<lambda>(a, b, c, d) s. (ts_duration s = None) = a \<and> (ts_size s = None) = b \<and> (ts_flags s = None) = c
     \<and> (ts_composition_time_offset s = None) = d)"

lemma uniform_iff: "uniform_samples xs \<longleftrightarrow> (\<exists>f. \<forall>s \<in> set xs. has_fields f s)"
proof
  assume u: "uniform_samples xs"
  show "\<exists>f. \<forall>s \<in> set xs. has_fields f s"
  proof (cases xs)
    case (Cons t ts)
    let ?f = "(ts_duration t = None, ts_size t = None, ts_flags t = None, ts_composition_time_offset t = None)"
    have "has_fields ?f s" if "s \<in> set xs" for s
      using u [unfolded uniform_samples_def, rule_format, OF that, of t] Cons by (simp add: has_fields_def)
    then show ?thesis by blast
  qed simp
next
  assume "\<exists>f. \<forall>s \<in> set xs. has_fields f s"
  then obtain a b c d where f: "has_fields (a, b, c, d) s" if "s \<in> set xs" for s by (metis prod_cases4)
  show "uniform_samples xs" unfolding uniform_samples_def
  proof (intro ballI)
    fix s t assume "s \<in> set xs" "t \<in> set xs"
    with f [of s] f [of t] show "(ts_duration s = None) = (ts_duration t = None) \<and> (ts_size s = None) = (ts_size t = None)
     \<and> (ts_flags s = None) = (ts_flags t = None)
     \<and> (ts_composition_time_offset s = None) = (ts_composition_time_offset t = None)" by (simp add: has_fields_def)
  qed
qed

lemma uniform_update:
  assumes "uniform_samples xs"
  shows "uniform_samples (map (ts_duration_update (\<lambda>_. None)) xs)" "uniform_samples (map (ts_size_update (\<lambda>_. None)) xs)"
    "uniform_samples (map (ts_flags_update (\<lambda>_. None)) xs)"
    "uniform_samples (map (ts_composition_time_offset_update (\<lambda>_. None)) xs)"
proof -
  obtain a b c d where f: "\<forall>s \<in> set xs. has_fields (a, b, c, d) s" using assms by (auto simp: uniform_iff)
  show "uniform_samples (map (ts_duration_update (\<lambda>_. None)) xs)"
    unfolding uniform_iff using f by (intro exI [of _ "(True, b, c, d)"]) (simp add: has_fields_def)
  show "uniform_samples (map (ts_size_update (\<lambda>_. None)) xs)"
    unfolding uniform_iff using f by (intro exI [of _ "(a, True, c, d)"]) (simp add: has_fields_def)
  show "uniform_samples (map (ts_flags_update (\<lambda>_. None)) xs)"
    unfolding uniform_iff using f by (intro exI [of _ "(a, b, True, d)"]) (simp add: has_fields_def)
  show "uniform_samples (map (ts_composition_time_offset_update (\<lambda>_. None)) xs)"
    unfolding uniform_iff using f by (intro exI [of _ "(a, b, c, True)"]) (simp add: has_fields_def)
qed

lemma run_sample_ok_update:
  assumes "run_sample_ok v s"
  shows "run_sample_ok v (ts_duration_update (\<lambda>_. None) s)" "run_sample_ok v (ts_size_update (\<lambda>_. None) s)"
    "run_sample_ok v (ts_flags_update (\<lambda>_. None) s)" "run_sample_ok v (ts_composition_time_offset_update (\<lambda>_. None) s)"
  using assms by (simp_all add: run_sample_ok_def trun_offset_ok_def)

lemma optimize_duration_same:
  assumes "run_ok tfhd trun"
  shows "same_meaning (tfhd, trun) (optimize_duration tfhd trun)"
proof (cases "tfhd_default_sample_duration tfhd = None
    \<and> list_all (\<lambda>s. ts_duration s = ts_duration (hd (trun_samples trun))) (tl (trun_samples trun))")
  case True
  obtain s ss where ss: "trun_samples trun = s # ss" using assms by (cases "trun_samples trun") (auto simp: run_ok_def)
  have all: "or_default (ts_duration x) (tfhd_default_sample_duration tfhd) = ts_duration s" if "x \<in> set (s # ss)" for x
    using True that by (auto simp: ss list_all_iff)
  let ?tfhd = "tfhd\<lparr>tfhd_default_sample_duration := ts_duration s\<rparr>"
  let ?trun = "trun\<lparr>trun_samples := map (ts_duration_update (\<lambda>_. None)) (trun_samples trun)\<rparr>"
  have "run_ok ?tfhd ?trun" using assms by (simp add: run_ok_def uniform_update run_sample_ok_update)
  moreover have "effective_values ?tfhd ?trun = effective_values tfhd trun"
    using all by (auto simp: effective_values_def ss)
  moreover have "effective_flags ?tfhd ?trun = effective_flags tfhd trun" "run_key ?tfhd ?trun = run_key tfhd trun"
    by (simp_all add: effective_flags_def run_key_def ss list_ex_iff)
  moreover have "fields_size ?tfhd ?trun \<le> fields_size tfhd trun"
    using True by (cases "ts_duration s") (simp_all add: fields_size_def ss Let_def)
  ultimately show ?thesis using True by (simp add: optimize_duration_def same_meaning_def Let_def ss)
next
  case False
  then show ?thesis using same_meaning_refl [OF assms] by (auto simp: optimize_duration_def Let_def)
qed

lemma optimize_size_same:
  assumes "run_ok tfhd trun"
  shows "same_meaning (tfhd, trun) (optimize_size tfhd trun)"
proof (cases "tfhd_default_sample_size tfhd = None
    \<and> list_all (\<lambda>s. ts_size s = ts_size (hd (trun_samples trun))) (tl (trun_samples trun))")
  case True
  obtain s ss where ss: "trun_samples trun = s # ss" using assms by (cases "trun_samples trun") (auto simp: run_ok_def)
  have all: "or_default (ts_size x) (tfhd_default_sample_size tfhd) = ts_size s" if "x \<in> set (s # ss)" for x
    using True that by (auto simp: ss list_all_iff)
  let ?tfhd = "tfhd\<lparr>tfhd_default_sample_size := ts_size s\<rparr>"
  let ?trun = "trun\<lparr>trun_samples := map (ts_size_update (\<lambda>_. None)) (trun_samples trun)\<rparr>"
  have "run_ok ?tfhd ?trun" using assms by (simp add: run_ok_def uniform_update run_sample_ok_update)
  moreover have "effective_values ?tfhd ?trun = effective_values tfhd trun"
    using all by (auto simp: effective_values_def ss)
  moreover have "effective_flags ?tfhd ?trun = effective_flags tfhd trun" "run_key ?tfhd ?trun = run_key tfhd trun"
    by (simp_all add: effective_flags_def run_key_def ss list_ex_iff)
  moreover have "fields_size ?tfhd ?trun \<le> fields_size tfhd trun"
    using True by (cases "ts_size s") (simp_all add: fields_size_def ss Let_def)
  ultimately show ?thesis using True by (simp add: optimize_size_def same_meaning_def Let_def ss)
next
  case False
  then show ?thesis using same_meaning_refl [OF assms] by (auto simp: optimize_size_def Let_def)
qed

lemma optimize_offsets_same:
  assumes "run_ok tfhd trun"
  shows "same_meaning (tfhd, trun) (tfhd, optimize_offsets trun)"
proof (cases "list_all (\<lambda>s. ts_composition_time_offset s = Some 0) (trun_samples trun)")
  case True
  obtain s ss where ss: "trun_samples trun = s # ss" using assms by (cases "trun_samples trun") (auto simp: run_ok_def)
  let ?trun = "trun\<lparr>trun_samples := map (ts_composition_time_offset_update (\<lambda>_. None)) (trun_samples trun)\<rparr>"
  have "run_ok tfhd ?trun"
    using assms True by (auto simp: run_ok_def uniform_update list_all_iff intro: run_sample_ok_update)
  moreover have "effective_values tfhd ?trun = effective_values tfhd trun"
    using True by (auto simp: effective_values_def list_all_iff)
  moreover have "effective_flags tfhd ?trun = effective_flags tfhd trun" "run_key tfhd ?trun = run_key tfhd trun"
    by (simp_all add: effective_flags_def run_key_def ss list_ex_iff)
  moreover have "fields_size tfhd ?trun \<le> fields_size tfhd trun" by (simp add: fields_size_def ss Let_def)
  ultimately show ?thesis using True by (simp add: optimize_offsets_def same_meaning_def ss)
next
  case False
  then show ?thesis using same_meaning_refl [OF assms] by (simp add: optimize_offsets_def)
qed

text \<open>Runs that give the flags of their first sample do not give flags per sample.\<close>

definition exclusive_flags :: "Trun \<Rightarrow> bool" where
  "exclusive_flags trun \<longleftrightarrow> trun_first_sample_flags trun = None \<or> (\<forall>s \<in> set (trun_samples trun). ts_flags s = None)"

lemma uniform_flags: "uniform_samples xs \<Longrightarrow> s \<in> set xs \<Longrightarrow> t \<in> set xs \<Longrightarrow> ts_flags s = None \<Longrightarrow> ts_flags t = None"
  unfolding uniform_iff has_fields_def by auto

lemma optimize_flags_same:
  assumes ok: "run_ok tfhd trun" and ex: "exclusive_flags trun"
  shows "same_meaning (tfhd, trun) (optimize_flags tfhd trun)"
proof (cases "\<exists>s t ss. trun_samples trun = s # t # ss \<and> tfhd_default_sample_flags tfhd = None
    \<and> list_all (\<lambda>s. ts_flags s = ts_flags t) ss")
  case True
  then obtain s t ss where ss: "trun_samples trun = s # t # ss" and none: "tfhd_default_sample_flags tfhd = None"
    and all: "list_all (\<lambda>s. ts_flags s = ts_flags t) ss" by blast
  let ?tfhd = "tfhd\<lparr>tfhd_default_sample_flags := ts_flags t\<rparr>"
  let ?first = "if ts_flags s \<noteq> ts_flags t then ts_flags s else trun_first_sample_flags trun"
  let ?trun = "trun\<lparr>trun_first_sample_flags := ?first, trun_samples := map (ts_flags_update (\<lambda>_. None)) (trun_samples trun)\<rparr>"
  have step: "optimize_flags tfhd trun = (?tfhd, ?trun)" using none all by (simp add: optimize_flags_def ss)
  have valid: "case_option True (\<lambda>f. tsf_validate f = Ok ()) (ts_flags x)" if "x \<in> {s, t}" for x
    using ok that by (auto simp: run_ok_def run_sample_ok_def ss)
  have u: "ts_flags s = None \<longleftrightarrow> ts_flags t = None"
    using uniform_flags [of "trun_samples trun" s t] uniform_flags [of "trun_samples trun" t s] ok by (auto simp: run_ok_def ss)
  have ok': "run_ok ?tfhd ?trun"
    using ok valid [of s] valid [of t] unfolding run_ok_def
    by (auto simp: uniform_update intro: run_sample_ok_update)
  have tail: "map (\<lambda>x. or_default (ts_flags x) None) ss = map (\<lambda>_. ts_flags t) ss"
    using all by (auto simp: list_all_iff)
  have first: "ts_flags t \<noteq> None \<Longrightarrow> trun_first_sample_flags trun = None" using ex by (auto simp: exclusive_flags_def ss)
  have flags: "effective_flags ?tfhd ?trun = effective_flags tfhd trun"
    using tail u first by (cases "ts_flags t"; cases "ts_flags s") (auto simp: effective_flags_def ss none o_def)
  have key: "run_key ?tfhd ?trun = run_key tfhd trun"
    using all u first by (cases "ts_flags t"; cases "ts_flags s")
      (auto simp: run_key_def ss none list_ex_iff list_all_iff is_key_def)
  have size: "fields_size ?tfhd ?trun \<le> fields_size tfhd trun"
    using u first by (cases "ts_flags t"; cases "ts_flags s"; cases "trun_first_sample_flags trun")
      (auto simp: fields_size_def ss none Let_def)
  have "effective_values ?tfhd ?trun = effective_values tfhd trun" by (simp add: effective_values_def)
  then show ?thesis using ok' flags key size by (simp add: step same_meaning_def)
next
  case False
  then have "optimize_flags tfhd trun = (tfhd, trun)" by (auto simp: optimize_flags_def split: list.splits)
  then show ?thesis using same_meaning_refl [OF ok] by simp
qed

lemma optimize_values_same:
  assumes "run_ok tfhd trun" "exclusive_flags trun"
  shows "same_meaning (tfhd, trun) (optimize_values tfhd trun)"
proof -
  obtain tf1 tr1 where 1: "optimize_flags tfhd trun = (tf1, tr1)" by fastforce
  obtain tf2 tr2 where 2: "optimize_duration tf1 (optimize_offsets tr1) = (tf2, tr2)" by fastforce
  have m1: "same_meaning (tfhd, trun) (tf1, tr1)" using optimize_flags_same [OF assms] by (simp add: 1)
  moreover from this have m2: "same_meaning (tf1, tr1) (tf1, optimize_offsets tr1)"
    by (intro optimize_offsets_same) (simp add: same_meaning_def)
  moreover from this have m3: "same_meaning (tf1, optimize_offsets tr1) (tf2, tr2)"
    using optimize_duration_same [of tf1 "optimize_offsets tr1"] by (simp add: 2 same_meaning_def)
  moreover from this have "same_meaning (tf2, tr2) (optimize_size tf2 tr2)"
    by (intro optimize_size_same) (simp add: same_meaning_def)
  moreover have "optimize_values tfhd trun = optimize_size tf2 tr2" by (simp add: optimize_values_def 1 2 Let_def)
  ultimately show ?thesis by (metis same_meaning_trans)
qed

section \<open>Validity\<close>

lemmas tfhd_flag_defs = BASE_DATA_OFFSET_FLAG_def SAMPLE_DESCRIPTION_INDEX_FLAG_def DEFAULT_SAMPLE_DURATION_FLAG_def
  DEFAULT_SAMPLE_SIZE_FLAG_def DEFAULT_SAMPLE_FLAGS_FLAG_def DEFAULT_BASE_IS_MOOF_FLAG_def

lemma trun_flags_read:
  fixes a b c d e f :: bool
  defines "w \<equiv> (if a then FLAG_DATA_OFFSET else 0) OR (if b then FLAG_FIRST_SAMPLE_FLAGS else 0)
     OR (if c then FLAG_SAMPLE_DURATION else 0) OR (if d then FLAG_SAMPLE_SIZE else 0)
     OR (if e then FLAG_SAMPLE_FLAGS else 0) OR (if f then FLAG_SAMPLE_COMPOSITION_TIME_OFFSET else 0)"
  shows "(w AND FLAG_DATA_OFFSET \<noteq> 0) = a" "(w AND FLAG_FIRST_SAMPLE_FLAGS \<noteq> 0) = b" "(w AND FLAG_SAMPLE_DURATION \<noteq> 0) = c"
    "(w AND FLAG_SAMPLE_SIZE \<noteq> 0) = d" "(w AND FLAG_SAMPLE_FLAGS \<noteq> 0) = e"
    "(w AND FLAG_SAMPLE_COMPOSITION_TIME_OFFSET \<noteq> 0) = f" "w < 0x1000000"
  by (cases a; cases b; cases c; cases d; cases e; cases f; simp add: w_def trun_flag_defs)+

lemma and_single_bit: "(w :: u32) AND push_bit k 1 = (if bit w k then push_bit k 1 else 0)"
  by (rule bit_word_eqI) (auto simp: bit_simps)

lemma moof_flag: "(w :: u32) AND 0x020000 = (if bit w 17 then 0x020000 else 0)"
  using and_single_bit [of w 17] by simp

lemma tfhd_flags_read:
  fixes a c d e f :: bool
  defines "w \<equiv> (if a then BASE_DATA_OFFSET_FLAG else 0) OR (if c then DEFAULT_SAMPLE_DURATION_FLAG else 0)
     OR (if d then DEFAULT_SAMPLE_FLAGS_FLAG else 0) OR (if e then DEFAULT_SAMPLE_SIZE_FLAG else 0)
     OR (if f then 0x020000 else 0)"
  shows "(w AND BASE_DATA_OFFSET_FLAG \<noteq> 0) = a" "w AND SAMPLE_DESCRIPTION_INDEX_FLAG = 0" "(w AND DEFAULT_SAMPLE_DURATION_FLAG \<noteq> 0) = c"
    "(w AND DEFAULT_SAMPLE_FLAGS_FLAG \<noteq> 0) = d" "(w AND DEFAULT_SAMPLE_SIZE_FLAG \<noteq> 0) = e" "w < 0x1000000"
  by (cases a; cases c; cases d; cases e; cases f; simp add: w_def tfhd_flag_defs)+

text \<open>A run whose flags are computed from its fields is valid.\<close>

lemma tfhd_flags_valid:
  assumes "run_ok tfhd trun"
  shows "tfhd_wf (tfhd\<lparr>tfhd_header := (tfhd_header tfhd)\<lparr>fh_flags := tfhd_flags tfhd\<rparr>\<rparr>)"
proof -
  have flags: "tfhd_flags tfhd = (if tfhd_base_data_offset tfhd \<noteq> None then BASE_DATA_OFFSET_FLAG else 0)
      OR (if tfhd_default_sample_duration tfhd \<noteq> None then DEFAULT_SAMPLE_DURATION_FLAG else 0)
      OR (if tfhd_default_sample_flags tfhd \<noteq> None then DEFAULT_SAMPLE_FLAGS_FLAG else 0)
      OR (if tfhd_default_sample_size tfhd \<noteq> None then DEFAULT_SAMPLE_SIZE_FLAG else 0)
      OR (if bit (fh_flags (tfhd_header tfhd)) 17 then 0x020000 else 0)"
    unfolding tfhd_flags_def flag_if_def DEFAULT_BASE_IS_MOOF_FLAG_def moof_flag ..
  show ?thesis
    using assms unfolding tfhd_wf_def tfhd_validate_def require_iff has_flag_def run_ok_def full_header_ok_def
    by (simp add: flags tfhd_flags_read del: not_None_eq)
qed

lemma trun_flags_valid:
  assumes "run_ok tfhd trun"
  shows "trun_wf (trun\<lparr>trun_header := (trun_header trun)\<lparr>fh_flags := trun_flags trun\<rparr>\<rparr>)" (is "trun_wf ?b")
proof -
  obtain s ss where ss: "trun_samples trun = s # ss" using assms by (cases "trun_samples trun") (auto simp: run_ok_def)
  have flags: "has_flag (trun_header ?b) FLAG_DATA_OFFSET = (trun_data_offset trun \<noteq> None)"
    "has_flag (trun_header ?b) FLAG_FIRST_SAMPLE_FLAGS = (trun_first_sample_flags trun \<noteq> None)"
    "has_flag (trun_header ?b) FLAG_SAMPLE_DURATION = (ts_duration s \<noteq> None)"
    "has_flag (trun_header ?b) FLAG_SAMPLE_SIZE = (ts_size s \<noteq> None)"
    "has_flag (trun_header ?b) FLAG_SAMPLE_FLAGS = (ts_flags s \<noteq> None)"
    "has_flag (trun_header ?b) FLAG_SAMPLE_COMPOSITION_TIME_OFFSET = (ts_composition_time_offset s \<noteq> None)"
    "fh_flags (trun_header ?b) < 0x1000000"
    by (simp_all add: has_flag_def trun_flags_def flag_if_def ss Let_def trun_flags_read del: not_None_eq)
  have u: "(ts_duration x = None) = (ts_duration s = None)" "(ts_size x = None) = (ts_size s = None)"
    "(ts_flags x = None) = (ts_flags s = None)"
    "(ts_composition_time_offset x = None) = (ts_composition_time_offset s = None)" if "x \<in> set (trun_samples trun)" for x
    using assms that by (auto simp: run_ok_def uniform_samples_def ss)
  have samples: "run_sample_ok (fh_version (trun_header trun)) x" if "x \<in> set (trun_samples trun)" for x
    using assms that by (simp add: run_ok_def)
  have bounds: "sint (the (ts_composition_time_offset x)) \<le> (if fh_version (trun_header trun) = 1 then 0x7FFFFFFF else 0xFFFFFFFF)"
    if "ts_composition_time_offset s \<noteq> None" "x \<in> set (trun_samples trun)" for x
    using samples [OF that(2)] u(4) [OF that(2)] that(1) by (auto simp: run_sample_ok_def split: option.splits if_splits)
  have version: "fh_version (trun_header trun) = 0 \<or> fh_version (trun_header trun) = 1 \<and> ts_composition_time_offset s \<noteq> None"
    using assms by (auto simp: run_ok_def ss)
  have "trun_validate ?b = Ok ()"
    unfolding trun_validate_def require_iff flags
    using assms version u samples bounds
    by (intro conjI) (auto simp: run_ok_def run_sample_ok_def not_less)
  then show ?thesis using assms samples flags(7)
    by (simp add: trun_wf_def full_header_ok_def run_ok_def run_sample_ok_def)
qed

lemma wf_run_ok:
  assumes tfhd: "tfhd_wf tfhd" and trun: "trun_wf trun" and ne: "trun_samples trun \<noteq> []"
    and idx: "tfhd_sample_description_index tfhd = None"
    and version: "fh_version (trun_header trun) = 0 \<or> (\<exists>s \<in> set (trun_samples trun). ts_composition_time_offset s \<noteq> Some 0)"
  shows "run_ok tfhd trun"
proof -
  have v: "trun_validate trun = Ok ()" and off: "\<forall>s \<in> set (trun_samples trun). trun_offset_ok (fh_version (trun_header trun)) s"
    using trun by (simp_all add: trun_wf_def)
  note present = trun_present [OF v off] and v' = v [unfolded trun_validate_def require_iff]
  let ?h = "trun_header trun"
  have fields: "has_fields (\<not> has_flag ?h FLAG_SAMPLE_DURATION, \<not> has_flag ?h FLAG_SAMPLE_SIZE, \<not> has_flag ?h FLAG_SAMPLE_FLAGS,
      \<not> has_flag ?h FLAG_SAMPLE_COMPOSITION_TIME_OFFSET) s" if "s \<in> set (trun_samples trun)" for s
    using present(4) that by (auto simp: has_fields_def trun_sample_ok_def)
  then have "uniform_samples (trun_samples trun)" unfolding uniform_iff by blast
  moreover have "fh_version ?h \<le> 1" using v' by satx
  then have ver: "fh_version ?h = 0 \<or> fh_version ?h = 1" by (simp add: version_01)
  have "\<not> (\<not> has_flag ?h FLAG_SAMPLE_COMPOSITION_TIME_OFFSET \<and> fh_version ?h = 1)" using v' by satx
  then have "fh_version ?h = 1 \<longrightarrow> (\<forall>s \<in> set (trun_samples trun). ts_composition_time_offset s \<noteq> None)"
    using fields by (auto simp: has_fields_def)
  moreover have "run_sample_ok (fh_version ?h) s" if s: "s \<in> set (trun_samples trun)" for s
  proof -
    have "has_flag ?h FLAG_SAMPLE_COMPOSITION_TIME_OFFSET \<longrightarrow>
       \<not> (fh_version ?h = 1 \<and> (\<exists>s \<in> set (trun_samples trun). sint (the (ts_composition_time_offset s)) > 0x7FFFFFFF))"
      "has_flag ?h FLAG_SAMPLE_COMPOSITION_TIME_OFFSET \<longrightarrow>
       \<not> (fh_version ?h = 0 \<and> (\<exists>s \<in> set (trun_samples trun). sint (the (ts_composition_time_offset s)) > 0xFFFFFFFF))"
      using v' by satx+
    then have "case_option True (\<lambda>x. sint x \<le> (if fh_version ?h = 1 then 0x7FFFFFFF else 0xFFFFFFFF)) (ts_composition_time_offset s)"
      using fields [OF s] s ver by (cases "ts_composition_time_offset s") (force simp: has_fields_def)+
    then show ?thesis using present(4) s by (simp add: run_sample_ok_def trun_sample_ok_def)
  qed
  ultimately show ?thesis
    using ne idx ver version present(3) trun tfhd tfhd_present(6) [of tfhd]
    by (auto simp: run_ok_def trun_wf_def tfhd_wf_def full_header_ok_def tfhd_validate_def)
qed

text \<open>The size of a valid run in terms of its fields.\<close>

lemma run_size:
  assumes "run_ok tfhd trun" "tfhd_wf tfhd" "trun_wf trun"
  shows "tfhd_primitive_size tfhd + trun_primitive_size trun
     = 16 + (if tfhd_base_data_offset tfhd = None then 0 else 8) + opt4 (trun_data_offset trun) + fields_size tfhd trun"
proof -
  obtain s ss where ss: "trun_samples trun = s # ss" using assms(1) by (cases "trun_samples trun") (auto simp: run_ok_def)
  have v: "trun_validate trun = Ok ()" and off: "\<forall>s \<in> set (trun_samples trun). trun_offset_ok (fh_version (trun_header trun)) s"
    using assms(3) by (simp_all add: trun_wf_def)
  note present = trun_present [OF v off]
  have "trun_sample_ok (trun_header trun) s" using present(4) by (simp add: ss)
  then have "trun_sample_size (trun_header trun)
     = opt4 (ts_duration s) + opt4 (ts_size s) + opt4 (ts_flags s) + opt4 (ts_composition_time_offset s)"
    by (simp add: trun_sample_size_def trun_sample_ok_def opt4_def)
  then have "trun_primitive_size trun = 8 + opt4 (trun_data_offset trun) + opt4 (trun_first_sample_flags trun)
     + length (trun_samples trun) * (opt4 (ts_duration s) + opt4 (ts_size s) + opt4 (ts_flags s) + opt4 (ts_composition_time_offset s))"
    using present(1,2) by (simp add: trun_primitive_size_def box_simps sum_list_triv opt4_def)
  moreover have "tfhd_primitive_size tfhd = 8 + (if tfhd_base_data_offset tfhd = None then 0 else 8)
     + opt4 (tfhd_default_sample_duration tfhd) + opt4 (tfhd_default_sample_size tfhd) + opt4 (tfhd_default_sample_flags tfhd)"
    using assms(1) by (simp add: tfhd_primitive_size_def box_simps opt4_def run_ok_def)
  ultimately show ?thesis by (simp add: fields_size_def ss Let_def add_mult_distrib2)
qed

section \<open>The optimised fragment\<close>

lemma run_ok_flags:
  "run_ok (tfhd\<lparr>tfhd_header := (tfhd_header tfhd)\<lparr>fh_flags := x\<rparr>\<rparr>) (trun\<lparr>trun_header := (trun_header trun)\<lparr>fh_flags := y\<rparr>\<rparr>)
     = run_ok tfhd trun"
  by (simp add: run_ok_def)

lemma traf_duration_values:
  "traf_trun t = Some run \<Longrightarrow> traf_duration t = add_durations 0 (map fst (effective_values (traf_tfhd t) run))"
  by (simp add: traf_duration_def effective_values_def o_def)

lemma traf_keyframe_run: "traf_trun t = Some run \<Longrightarrow> traf_contains_keyframe t = run_key (traf_tfhd t) run"
  by (simp add: traf_contains_keyframe_def run_key_def)

text \<open>What \<^verbatim>\<open>optimize\<close> needs: valid boxes, no sample description index (whose flag it would drop), no version 1 run with nothing but
  zero offsets (whose offsets it would drop), and flags either for the first sample or for each sample.\<close>

definition optimizable :: "'d Traf \<Rightarrow> Trun \<Rightarrow> bool" where
  "optimizable t run \<longleftrightarrow> traf_trun t = Some run \<and> tfhd_wf (traf_tfhd t) \<and> trun_wf run \<and> trun_samples run \<noteq> []
     \<and> tfhd_sample_description_index (traf_tfhd t) = None \<and> exclusive_flags run
     \<and> (fh_version (trun_header run) = 0 \<or> list_ex (\<lambda>s. ts_composition_time_offset s \<noteq> Some 0) (trun_samples run))"

lemma traf_optimize_result:
  assumes opt: "optimizable t run"
  obtains tfhd' run' where "traf_optimize t
       = Traf (traf_header t) tfhd' (Some run') (traf_sbgp t) (traf_subs t) (traf_tfdt t) (traf_unknown t)"
    "tfhd_wf tfhd'" "trun_wf run'" "effective_values tfhd' run' = effective_values (traf_tfhd t) run"
    "effective_flags tfhd' run' = effective_flags (traf_tfhd t) run" "run_key tfhd' run' = run_key (traf_tfhd t) run"
    "tfhd_primitive_size tfhd' + trun_primitive_size run' \<le> tfhd_primitive_size (traf_tfhd t) + trun_primitive_size run"
    "tfhd_track_id tfhd' = tfhd_track_id (traf_tfhd t)" "trun_data_offset run' = trun_data_offset run"
proof -
  have ok: "run_ok (traf_tfhd t) run"
    using opt by (intro wf_run_ok) (auto simp: optimizable_def list_ex_iff)
  obtain tf tr where v: "optimize_values (traf_tfhd t) run = (tf, tr)" by fastforce
  have same: "same_meaning (traf_tfhd t, run) (tf, tr)"
    using optimize_values_same [OF ok] opt by (simp add: optimizable_def v)
  let ?tf = "tf\<lparr>tfhd_header := (tfhd_header tf)\<lparr>fh_flags := tfhd_flags tf\<rparr>\<rparr>"
  let ?tr = "tr\<lparr>trun_header := (trun_header tr)\<lparr>fh_flags := trun_flags tr\<rparr>\<rparr>"
  have ok': "run_ok tf tr" using same by (simp add: same_meaning_def)
  note wf' = tfhd_flags_valid [OF ok'] trun_flags_valid [OF ok']
  have "traf_optimize t = Traf (traf_header t) ?tf (Some ?tr) (traf_sbgp t) (traf_subs t) (traf_tfdt t) (traf_unknown t)"
    using opt by (simp add: traf_optimize_def optimizable_def optimize_run_def v)
  moreover have fs: "fields_size ?tf ?tr = fields_size tf tr"
    and "effective_values ?tf ?tr = effective_values tf tr" "effective_flags ?tf ?tr = effective_flags tf tr"
    "run_key ?tf ?tr = run_key tf tr"
    by (simp_all add: effective_values_def effective_flags_def run_key_def fields_size_def split: list.split)
  moreover have "tfhd_primitive_size ?tf + trun_primitive_size ?tr \<le> tfhd_primitive_size (traf_tfhd t) + trun_primitive_size run"
    using run_size [of ?tf ?tr] run_size [OF ok] wf' ok' opt same unfolding fs
    by (simp add: run_ok_flags optimizable_def same_meaning_def)
  ultimately show thesis using that [of ?tf ?tr] wf' same by (simp add: same_meaning_def)
qed

text \<open>C34: on a fragment that is \<open>optimizable\<close>, \<^verbatim>\<open>Traf::optimize\<close> changes the representation and not the meaning: every sample keeps its
  effective duration, size, composition offset and flags, \<^verbatim>\<open>duration\<close> and \<^verbatim>\<open>contains_keyframe\<close> answer the same, the two boxes still pass
  their validation and together never grow. Optimizable means: the fragment has a run with at least one sample, both boxes are valid,
  the header has no sample description index (the code rebuilds the flags without its bit, so that the box no longer passes its
  validation), a run of version 1 has some sample whose composition offset is not zero (with zeros only, the code drops the offsets
  that version 1 requires), and flags are given for the first sample or for each sample, not for both.
  The duration-is-empty bit of the header, which the code drops too, is not among what is compared.\<close>

theorem traf_optimize_equivalent:
  assumes "optimizable t run"
  shows "\<exists>tfhd' run'. traf_optimize t
       = Traf (traf_header t) tfhd' (Some run') (traf_sbgp t) (traf_subs t) (traf_tfdt t) (traf_unknown t)
     \<and> effective_values tfhd' run' = effective_values (traf_tfhd t) run
     \<and> effective_flags tfhd' run' = effective_flags (traf_tfhd t) run
     \<and> (traf_duration (traf_optimize t)) = traf_duration t
     \<and> traf_contains_keyframe (traf_optimize t) = traf_contains_keyframe t
     \<and> tfhd_validate tfhd' = Ok () \<and> trun_validate run' = Ok ()
     \<and> tfhd_primitive_size tfhd' + trun_primitive_size run' \<le> tfhd_primitive_size (traf_tfhd t) + trun_primitive_size run"
proof -
  from assms have t: "traf_trun t = Some run" by (simp add: optimizable_def)
  from assms obtain tfhd' run' where r: "traf_optimize t
       = Traf (traf_header t) tfhd' (Some run') (traf_sbgp t) (traf_subs t) (traf_tfdt t) (traf_unknown t)"
    "tfhd_wf tfhd'" "trun_wf run'" "effective_values tfhd' run' = effective_values (traf_tfhd t) run"
    "effective_flags tfhd' run' = effective_flags (traf_tfhd t) run" "run_key tfhd' run' = run_key (traf_tfhd t) run"
    "tfhd_primitive_size tfhd' + trun_primitive_size run' \<le> tfhd_primitive_size (traf_tfhd t) + trun_primitive_size run"
    by (rule traf_optimize_result)
  have "(traf_duration (traf_optimize t)) = traf_duration t"
    using traf_duration_values [OF t] traf_duration_values [of "traf_optimize t" run'] r(1,4) by simp
  moreover have "traf_contains_keyframe (traf_optimize t) = traf_contains_keyframe t"
    using traf_keyframe_run [OF t] traf_keyframe_run [of "traf_optimize t" run'] r(1,6) by simp
  ultimately show ?thesis using r by (auto simp: tfhd_wf_def trun_wf_def)
qed

definition example_fragment :: "DynBox Traf" where
  "example_fragment = traf_new (tfhd_new 1 None None None None None)
     (Some (trun_new [\<lparr>ts_duration = Some 10, ts_size = Some 7, ts_flags = Some (tsf_from 0x02000000), ts_composition_time_offset = Some 0\<rparr>,
        \<lparr>ts_duration = Some 10, ts_size = Some 9, ts_flags = Some (tsf_from 0x01010000), ts_composition_time_offset = Some 0\<rparr>] None))
     None"

theorem traf_optimize_equivalent_witness:
  "traf_contains_keyframe (traf_optimize example_fragment)
   \<and> (traf_duration (traf_optimize example_fragment)) = Ok 20"
proof -
  let ?run = "the (traf_trun example_fragment)"
  let ?samples = "trun_samples ?run"
  have tsf: "tsf_validate (tsf_from 0x02000000) = Ok ()" "tsf_validate (tsf_from 0x01010000) = Ok ()"
    "tsf_sample_depends_on (tsf_from 0x02000000) = 2"
    by (simp_all add: tsf_validate_def tsf_from_def)
  have run: "?run = trun_new ?samples None" "uniform_samples ?samples" "\<forall>s \<in> set ?samples. valid_sample s"
    by (simp_all add: example_fragment_def traf_new_def trun_new_base uniform_samples_def valid_sample_def tsf)
  have "trun_wf (trun_new ?samples None)"
    by (rule trun_new_wf) (use run in \<open>simp_all add: example_fragment_def traf_new_def trun_new_base u32_max_def\<close>)
  then have "trun_wf ?run" using run(1) by simp
  moreover have "tfhd_wf (traf_tfhd example_fragment)"
    by (simp add: example_fragment_def traf_new_def tfhd_wf_def tfhd_validate_def tfhd_new_def has_flag_def flag_if_def
        tfhd_flag_defs full_header_ok_def full_header_new_def box_header_new_def)
  ultimately have opt: "optimizable example_fragment ?run"
    by (simp add: optimizable_def example_fragment_def traf_new_def trun_new_base exclusive_flags_def tfhd_new_def)
  have "traf_contains_keyframe example_fragment"
    by (simp add: traf_contains_keyframe_def example_fragment_def traf_new_def trun_new_base is_key_def tsf)
  moreover have "(traf_duration example_fragment) = Ok 20"
    by (simp add: traf_duration_def example_fragment_def traf_new_def trun_new_base u32_add_def)
  ultimately show ?thesis using traf_optimize_equivalent [OF opt] by auto
qed

end
