(* ===== verification/Codec_String.thy ===== *)
theory Codec_String
  imports Aac Mp4_Box
begin

text \<open>
  The codec descriptions of \<^verbatim>\<open>crates/mp4/src/codec.rs\<close> and their text form, the \<^verbatim>\<open>codecs\<close> parameter of media types. Text is its
  UTF-8 bytes. Printing and parsing are written as in the source; what they use of the standard library is modelled first:
  formatting with a radix and a width, \<^verbatim>\<open>str::split\<close>, slices at character boundaries and \<^verbatim>\<open>from_str_radix\<close>. The error texts are
  represented by what they name.
\<close>

section \<open>Numbers in text\<close>

definition digit_char :: "nat \<Rightarrow> u8" where
  "digit_char d = word_of_nat (if d < 10 then 48 + d else 87 + d)"

text \<open>\<^verbatim>\<open>char::to_digit\<close>.\<close>

definition to_digit :: "nat \<Rightarrow> u8 \<Rightarrow> nat option" where
  "to_digit radix c =
     (let n = unat c;
          d = (if 48 \<le> n \<and> n \<le> 57 then n - 48 else if 97 \<le> n \<and> n \<le> 122 then n - 87
               else if 65 \<le> n \<and> n \<le> 90 then n - 55 else 36)
      in if d < radix then Some d else None)"

fun fmt_radix :: "nat \<Rightarrow> nat \<Rightarrow> bytes" where
  "fmt_radix radix n = (if n < radix \<or> radix < 2 then [digit_char n]
     else fmt_radix radix (n div radix) @ [digit_char (n mod radix)])"

declare fmt_radix.simps [simp del]

text \<open>\<^verbatim>\<open>{}\<close>, \<^verbatim>\<open>{:x}\<close>, \<^verbatim>\<open>{:02}\<close> and \<^verbatim>\<open>{:02x}\<close>.\<close>

abbreviation dec :: "'a::len word \<Rightarrow> bytes" where
  "dec n \<equiv> fmt_radix 10 (unat n)"

abbreviation hex :: "'a::len word \<Rightarrow> bytes" where
  "hex n \<equiv> fmt_radix 16 (unat n)"

definition pad2 :: "bytes \<Rightarrow> bytes" where
  "pad2 text = replicate (2 - length text) 48 @ text"

datatype IntErrorKind = IntEmpty | InvalidDigit | PosOverflow

fun parse_digits :: "nat \<Rightarrow> nat \<Rightarrow> nat \<Rightarrow> bytes \<Rightarrow> (IntErrorKind, nat) result" where
  "parse_digits radix limit acc [] = Ok acc"
| "parse_digits radix limit acc (c # cs) =
     (case to_digit radix c of
        None \<Rightarrow> Err InvalidDigit
      | Some d \<Rightarrow> if acc * radix + d < limit then parse_digits radix limit (acc * radix + d) cs else Err PosOverflow)"

text \<open>\<^verbatim>\<open>from_str_radix\<close> of an unsigned type: one leading plus sign is allowed, a sign alone and a minus sign are not digits.\<close>

definition from_str_radix :: "nat \<Rightarrow> bytes \<Rightarrow> (IntErrorKind, 'a::len word) result" where
  "from_str_radix radix src =
     rbind (if src = [] then Err IntEmpty
            else if src = [43] \<or> src = [45] then Err InvalidDigit
            else if List.hd src = 43 then parse_digits radix (2 ^ LENGTH('a)) 0 (tl src)
            else parse_digits radix (2 ^ LENGTH('a)) 0 src)
       (\<lambda>n. Ok (word_of_nat n))"

section \<open>Pieces of text\<close>

fun split_dots :: "bytes \<Rightarrow> bytes list" where
  "split_dots [] = [[]]"
| "split_dots (c # cs) = (if c = 46 then [] # split_dots cs
     else case split_dots cs of [] \<Rightarrow> [[c]] | part # parts \<Rightarrow> (c # part) # parts)"

definition is_char_boundary :: "bytes \<Rightarrow> nat \<Rightarrow> bool" where
  "is_char_boundary s i \<longleftrightarrow> i = 0 \<or> i = length s \<or> (i < length s \<and> \<not> (0x80 \<le> s ! i \<and> s ! i < 0xC0))"

definition str_slice :: "bytes \<Rightarrow> nat \<Rightarrow> nat \<Rightarrow> ('e, bytes) result" where
  "str_slice s a b = (if a \<le> b \<and> is_char_boundary s a \<and> is_char_boundary s b then Ok (take (b - a) (drop a s)) else Panic)"

definition part_at :: "bytes list \<Rightarrow> nat \<Rightarrow> ('e, bytes) result" where
  "part_at parts i = (if i < length parts then Ok (parts ! i) else Panic)"

section \<open>Codecs\<close>

datatype VideoCodec =
    CodecAvc u8 u8 u8
  | CodecHevc u8 u32 u8 u8 bool u64
  | CodecAv1 u8 u8 bool u8 bool bool bool u8 u8 u8 bool

datatype AudioCodec = CodecAac AudioObjectType | CodecOpus

datatype codec_error = EmptyCodec | MissingProfile | MissingObjectType | InvalidNumber string bytes IntErrorKind
  | InvalidValue string bytes | UnknownType bytes

definition flag_char :: "bool \<Rightarrow> bytes" where
  "flag_char b = (if b then [49] else [48])"

definition dots :: "bytes list \<Rightarrow> bytes" where
  "dots parts = (case parts of [] \<Rightarrow> [] | p # ps \<Rightarrow> p @ concat (map (\<lambda>q. 46 # q) ps))"

fun video_codec_fmt :: "VideoCodec \<Rightarrow> bytes" where
  "video_codec_fmt (CodecAvc profile constraint_set level) =
     dots [fourcc ''avc1'', pad2 (hex profile) @ pad2 (hex constraint_set) @ pad2 (hex level)]"
| "video_codec_fmt (CodecHevc general_profile_space profile_compatibility profile level tier constraint_indicator) =
     dots [fourcc ''hev1'',
       (if general_profile_space = 1 then fourcc ''A'' else if general_profile_space = 2 then fourcc ''B''
        else if general_profile_space = 3 then fourcc ''C'' else []) @ hex profile,
       hex profile_compatibility, (if tier then fourcc ''H'' else fourcc ''L'') @ hex level, hex constraint_indicator]"
| "video_codec_fmt (CodecAv1 profile level tier depth monochrome sub_sampling_x sub_sampling_y color_primaries
      transfer_characteristics matrix_coefficients full_range_flag) =
     dots [fourcc ''av01'', dec profile, dec level @ (if tier then fourcc ''H'' else fourcc ''M''), pad2 (dec depth),
       flag_char monochrome, flag_char sub_sampling_x @ flag_char sub_sampling_y @ flag_char monochrome,
       pad2 (dec color_primaries), pad2 (dec transfer_characteristics), pad2 (dec matrix_coefficients),
       flag_char full_range_flag]"

text \<open>A number in a part, with the part and the parse error in the error.\<close>

definition number_in :: "nat \<Rightarrow> string \<Rightarrow> bytes \<Rightarrow> bytes \<Rightarrow> (codec_error, 'a::len word) result" where
  "number_in radix what part text = map_err (InvalidNumber what part) (from_str_radix radix text)"

definition number_at :: "nat \<Rightarrow> string \<Rightarrow> bytes list \<Rightarrow> nat \<Rightarrow> (codec_error, 'a::len word) result" where
  "number_at radix what splits i = rbind (part_at splits i) (\<lambda>part. number_in radix what part part)"

definition choice_at :: "(bytes \<times> 'a) list \<Rightarrow> string \<Rightarrow> bytes list \<Rightarrow> nat \<Rightarrow> (codec_error, 'a) result" where
  "choice_at alternatives what splits i = rbind (part_at splits i) (\<lambda>part.
     case map_of alternatives part of Some x \<Rightarrow> Ok x | None \<Rightarrow> Err (InvalidValue what part))"

definition avc_from_str :: "bytes list \<Rightarrow> (codec_error, VideoCodec) result" where
  "avc_from_str splits =
     (if length splits < 2 then Err MissingProfile
      else let part = splits ! 1 in
        rbind (str_slice part 0 2) (\<lambda>a. rbind (number_in 16 ''profile'' part a) (\<lambda>profile.
        rbind (str_slice part 2 4) (\<lambda>b. rbind (number_in 16 ''constraint set'' part b) (\<lambda>constraint_set.
        rbind (str_slice part 4 6) (\<lambda>c. rbind (number_in 16 ''level'' part c) (\<lambda>level.
        Ok (CodecAvc profile constraint_set level))))))))"

definition hevc_from_str :: "bytes list \<Rightarrow> (codec_error, VideoCodec) result" where
  "hevc_from_str splits =
     (if length splits < 6 then Err MissingProfile
      else
        rbind (choice_at [(fourcc ''A'', 1), (fourcc ''B'', 2), (fourcc ''C'', 3)] ''general profile space'' splits 1)
          (\<lambda>general_profile_space.
        rbind (number_at 16 ''profile'' splits 2) (\<lambda>profile.
        rbind (number_at 16 ''profile compatibility'' splits 3) (\<lambda>profile_compatibility.
        rbind (choice_at [(fourcc ''H'', True), (fourcc ''L'', False)] ''tier'' splits 4) (\<lambda>tier.
        rbind (number_at 16 ''level'' splits 5) (\<lambda>level.
        rbind (number_at 16 ''constraint indicator'' splits 6) (\<lambda>constraint_indicator.
        Ok (CodecHevc general_profile_space profile_compatibility profile level tier constraint_indicator))))))))"

definition av1_from_str :: "bytes list \<Rightarrow> (codec_error, VideoCodec) result" where
  "av1_from_str splits =
     (let bit = choice_at [(fourcc ''1'', True), (fourcc ''0'', False)] in
      if length splits < 12 then Err MissingProfile
      else
        rbind (number_at 16 ''profile'' splits 1) (\<lambda>profile.
        rbind (number_at 16 ''level'' splits 2) (\<lambda>level.
        rbind (choice_at [(fourcc ''H'', True), (fourcc ''M'', False)] ''tier'' splits 3) (\<lambda>tier.
        rbind (number_at 10 ''depth'' splits 4) (\<lambda>depth.
        rbind (bit ''monochrome'' splits 5) (\<lambda>monochrome.
        rbind (bit ''sub_sampling_x'' splits 6) (\<lambda>sub_sampling_x.
        rbind (bit ''sub_sampling_y'' splits 7) (\<lambda>sub_sampling_y.
        rbind (number_at 10 ''color_primaries'' splits 8) (\<lambda>color_primaries.
        rbind (number_at 10 ''transfer_characteristics'' splits 9) (\<lambda>transfer_characteristics.
        rbind (number_at 10 ''matrix_coefficients'' splits 10) (\<lambda>matrix_coefficients.
        rbind (number_at 10 ''full_range_flag'' splits 11) (\<lambda>full_range_flag.
        Ok (CodecAv1 profile level tier depth monochrome sub_sampling_x sub_sampling_y color_primaries transfer_characteristics
          matrix_coefficients ((full_range_flag :: u8) = 1))))))))))))))"

definition video_codec_from_str :: "bytes \<Rightarrow> (codec_error, VideoCodec) result" where
  "video_codec_from_str s =
     (case split_dots s of
        [] \<Rightarrow> Err EmptyCodec
      | kind # rest \<Rightarrow>
          if kind = fourcc ''avc1'' then avc_from_str (kind # rest)
          else if kind = fourcc ''hev1'' then hevc_from_str (kind # rest)
          else if kind = fourcc ''av01'' then av1_from_str (kind # rest)
          else Err (UnknownType kind))"

fun audio_codec_fmt :: "AudioCodec \<Rightarrow> bytes" where
  "audio_codec_fmt (CodecAac object_type) = dots [fourcc ''mp4a'', fourcc ''40'', dec (aot_as_u16 object_type)]"
| "audio_codec_fmt CodecOpus = fourcc ''opus''"

definition audio_codec_from_str :: "bytes \<Rightarrow> (codec_error, AudioCodec) result" where
  "audio_codec_from_str s =
     (case split_dots s of
        [] \<Rightarrow> Err EmptyCodec
      | kind # rest \<Rightarrow>
          if kind = fourcc ''mp4a'' then
            if length (kind # rest) < 3 then Err MissingObjectType
            else rbind (number_at 10 ''object type'' (kind # rest) 2) (\<lambda>object_type. Ok (CodecAac (aot_from_u16 object_type)))
          else if kind = fourcc ''opus'' then Ok CodecOpus
          else Err (UnknownType kind))"

section \<open>Printed numbers are parsed back\<close>

text \<open>A number as digits of a radix between 2 and 16.\<close>

definition digits_ok :: "bytes \<Rightarrow> bool" where
  "digits_ok text \<longleftrightarrow> list_all (\<lambda>c. (48 \<le> unat c \<and> unat c \<le> 57) \<or> (97 \<le> unat c \<and> unat c \<le> 102)) text"

lemma digit_char: "d < 16 \<Longrightarrow> unat (digit_char d) = (if d < 10 then 48 + d else 87 + d)"
  by (simp add: digit_char_def unat_of_nat take_bit_nat_eq_self)

lemma to_digit_char: "d < radix \<Longrightarrow> radix \<le> 16 \<Longrightarrow> to_digit radix (digit_char d) = Some d"
  by (simp add: to_digit_def digit_char Let_def)

lemma fmt_digits_ok: "2 \<le> radix \<Longrightarrow> radix \<le> 16 \<Longrightarrow> digits_ok (fmt_radix radix n) \<and> fmt_radix radix n \<noteq> []"
proof (induction radix n rule: fmt_radix.induct)
  case (1 radix n)
  have "n mod radix < 16" using mod_less_divisor [of radix n] 1(2,3) by linarith
  then show ?case
    using 1 by (subst (1 2) fmt_radix.simps) (auto simp: digits_ok_def digit_char)
qed

lemma parse_digits_append:
  "parse_digits radix limit acc (xs @ ys) = rbind (parse_digits radix limit acc xs) (\<lambda>a. parse_digits radix limit a ys)"
  by (induction xs arbitrary: acc) (auto split: option.split)

lemma parse_fmt: "2 \<le> radix \<Longrightarrow> radix \<le> 16 \<Longrightarrow> n < limit \<Longrightarrow> parse_digits radix limit 0 (fmt_radix radix n) = Ok n"
proof (induction radix n rule: fmt_radix.induct)
  case (1 radix n)
  show ?case
  proof (cases "n < radix")
    case True
    then show ?thesis using 1 by (subst fmt_radix.simps) (simp add: to_digit_char)
  next
    case False
    then have "parse_digits radix limit 0 (fmt_radix radix (n div radix)) = Ok (n div radix)"
      using 1 by (intro 1(1)) (auto intro: le_less_trans [OF div_le_dividend])
    with False 1 show ?thesis
      by (subst fmt_radix.simps) (simp add: parse_digits_append to_digit_char)
  qed
qed

lemma parse_zeros: "2 \<le> radix \<Longrightarrow> 0 < limit \<Longrightarrow> parse_digits radix limit 0 (replicate k 48 @ xs) = parse_digits radix limit 0 xs"
  by (induction k) (simp_all add: to_digit_def Let_def)

lemma digits_ok_pad: "digits_ok xs \<Longrightarrow> digits_ok (pad2 xs)" "xs \<noteq> [] \<Longrightarrow> pad2 xs \<noteq> []"
  by (auto simp: digits_ok_def pad2_def list_all_iff)

lemma from_str_digits:
  assumes "digits_ok s" "s \<noteq> []"
  shows "from_str_radix radix s = rbind (parse_digits radix (2 ^ LENGTH('a)) 0 s) (\<lambda>n. Ok (word_of_nat n :: 'a::len word))"
proof -
  obtain c cs where c: "s = c # cs" using assms(2) by (cases s) auto
  then have "c \<noteq> 43" "c \<noteq> 45" using assms(1) by (auto simp: digits_ok_def)
  with c show ?thesis by (simp add: from_str_radix_def)
qed

lemma from_str_fmt:
  fixes n :: "'a::len word"
  assumes "2 \<le> radix" "radix \<le> 16"
  shows "from_str_radix radix (fmt_radix radix (unat n)) = Ok n" "from_str_radix radix (pad2 (fmt_radix radix (unat n))) = Ok n"
proof -
  note d = fmt_digits_ok [OF assms, of "unat n"]
  have p: "parse_digits radix (2 ^ LENGTH('a)) 0 (fmt_radix radix (unat n)) = Ok (unat n)"
    by (intro parse_fmt assms unsigned_less)
  with d show "from_str_radix radix (fmt_radix radix (unat n)) = Ok n" by (simp add: from_str_digits)
  have "parse_digits radix (2 ^ LENGTH('a)) 0 (pad2 (fmt_radix radix (unat n))) = Ok (unat n)"
    using p parse_zeros [OF assms(1)] unfolding pad2_def by simp
  with d show "from_str_radix radix (pad2 (fmt_radix radix (unat n))) = Ok n"
    by (simp add: from_str_digits digits_ok_pad)
qed

text \<open>A byte in hexadecimal has two digits with the padding.\<close>

lemma length_hex_byte: "length (pad2 (hex (n :: u8))) = 2"
proof -
  have n: "unat n < 256" using unsigned_less [of n, where 'a = nat] by simp
  show ?thesis
  proof (cases "unat n < 16")
    case False
    moreover have "unat n div 16 < 16" using n by simp
    ultimately have "fmt_radix 16 (unat n) = [digit_char (unat n div 16), digit_char (unat n mod 16)]"
      by (subst fmt_radix.simps, subst fmt_radix.simps) simp
    then show ?thesis by (simp add: pad2_def)
  qed (simp add: pad2_def fmt_radix.simps)
qed

section \<open>Printed text is split back\<close>

lemma split_dots_part:
  "46 \<notin> set xs \<Longrightarrow> split_dots xs = [xs]"
  "46 \<notin> set xs \<Longrightarrow> split_dots (xs @ 46 # ys) = xs # split_dots ys"
  by (induction xs) auto

lemma split_dots_dots: "parts \<noteq> [] \<Longrightarrow> \<forall>p \<in> set parts. 46 \<notin> set p \<Longrightarrow> split_dots (dots parts) = parts"
proof (induction parts rule: list_nonempty_induct)
  case (cons x xs)
  then have "dots (x # xs) = x @ 46 # dots xs" by (cases xs) (simp_all add: dots_def)
  with cons show ?case by (simp add: split_dots_part)
qed (simp add: dots_def split_dots_part)

lemma no_dot: "digits_ok xs \<Longrightarrow> 46 \<notin> set xs"
  by (auto simp: digits_ok_def list_all_iff)

lemma fmt_no_dot [simp]: "46 \<notin> set (hex n)" "46 \<notin> set (dec n)" "46 \<notin> set (pad2 (hex n))" "46 \<notin> set (pad2 (dec n))"
  using fmt_digits_ok [of 16 "unat n"] fmt_digits_ok [of 10 "unat n"] by (simp_all add: no_dot digits_ok_pad)

lemma flag_no_dot [simp]: "46 \<notin> set (flag_char b)"
  by (simp add: flag_char_def)

lemma boundary_digits: "digits_ok xs \<Longrightarrow> i \<le> length xs \<Longrightarrow> is_char_boundary xs i"
  unfolding is_char_boundary_def digits_ok_def list_all_length word_le_nat_alt
  by (cases "i < length xs") (auto dest: spec [of _ i])

lemma split_fmt:
  "split_dots (video_codec_fmt (CodecAvc profile constraint_set level)) =
     [fourcc ''avc1'', pad2 (hex profile) @ pad2 (hex constraint_set) @ pad2 (hex level)]"
  "\<exists>parts. split_dots (video_codec_fmt (CodecHevc space compatibility profile level tier constraint)) = fourcc ''hev1'' # parts
     \<and> length parts = 4"
  "\<exists>parts. split_dots (video_codec_fmt (CodecAv1 profile level tier depth monochrome x y cp tc mc full)) = fourcc ''av01'' # parts
     \<and> length parts = 9"
  "split_dots (audio_codec_fmt (CodecAac aot)) = [fourcc ''mp4a'', fourcc ''40'', dec (aot_as_u16 aot)]"
  "split_dots (audio_codec_fmt CodecOpus) = [fourcc ''opus'']"
  unfolding video_codec_fmt.simps audio_codec_fmt.simps
  by (subst split_dots_dots; simp add: fourcc_def)+ (simp add: fourcc_def)

lemma avc_parsed:
  "video_codec_from_str (video_codec_fmt (CodecAvc profile constraint_set level)) = Ok (CodecAvc profile constraint_set level)"
proof -
  let ?p = "pad2 (hex profile) @ pad2 (hex constraint_set) @ pad2 (hex level)"
  have d: "digits_ok ?p" "length ?p = 6"
    using fmt_digits_ok [of 16 "unat profile"] fmt_digits_ok [of 16 "unat constraint_set"] fmt_digits_ok [of 16 "unat level"]
      digits_ok_pad(1)
    by (auto simp: digits_ok_def length_hex_byte)
  have "str_slice ?p 0 2 = (Ok (pad2 (hex profile)) :: (codec_error, bytes) result)"
    "str_slice ?p 2 4 = (Ok (pad2 (hex constraint_set)) :: (codec_error, bytes) result)"
    "str_slice ?p 4 6 = (Ok (pad2 (hex level)) :: (codec_error, bytes) result)"
    using boundary_digits [OF d(1)] d(2) by (simp_all add: str_slice_def length_hex_byte)
  then have "avc_from_str [fourcc ''avc1'', ?p] = Ok (CodecAvc profile constraint_set level)"
    by (simp add: avc_from_str_def Let_def number_in_def from_str_fmt)
  then show ?thesis
    by (simp only: video_codec_from_str_def split_fmt(1) list.case simp_thms if_True)
qed

lemma aac_parsed: "audio_codec_from_str (audio_codec_fmt (CodecAac aot)) = Ok (CodecAac (aot_from_u16 (aot_as_u16 aot)))"
  using from_str_fmt(1) [of 10 "aot_as_u16 aot"]
  by (simp add: audio_codec_from_str_def split_fmt(4) number_at_def number_in_def part_at_def del: audio_codec_fmt.simps)

lemma kinds: "fourcc ''hev1'' \<noteq> fourcc ''avc1''" "fourcc ''av01'' \<noteq> fourcc ''avc1''" "fourcc ''av01'' \<noteq> fourcc ''hev1''"
  "fourcc ''opus'' \<noteq> fourcc ''mp4a''"
  by (simp_all add: fourcc_def)

section \<open>Texts with as many dots as the parser expects\<close>

definition hex_digits :: "bytes \<Rightarrow> bool" where
  "hex_digits text \<longleftrightarrow> list_all (\<lambda>c. to_digit 16 c \<noteq> None) text"

lemma hex_digit: "to_digit 16 c = Some d \<Longrightarrow> d < 16 \<and> c \<noteq> 43 \<and> c \<noteq> 46 \<and> c < 128"
  by (auto simp: to_digit_def Let_def word_less_nat_alt split: if_splits)

lemma hex_pair:
  assumes "hex_digits [a, b]"
  obtains n :: u8 where "from_str_radix 16 [a, b] = Ok n"
proof -
  obtain x y where xy: "to_digit 16 a = Some x" "to_digit 16 b = Some y" using assms by (auto simp: hex_digits_def)
  from hex_digit [OF xy(1)] hex_digit [OF xy(2)] have "x * 16 + y < 256" "x < 256" "a \<noteq> 43" by auto
  then have "from_str_radix 16 [a, b] = Ok (word_of_nat (x * 16 + y) :: u8)" by (simp add: from_str_radix_def xy)
  with that show thesis by blast
qed

lemma hex_boundary: "hex_digits xs \<Longrightarrow> i \<le> length xs \<Longrightarrow> is_char_boundary xs i"
  using hex_digit by (cases "i < length xs") (fastforce simp: is_char_boundary_def hex_digits_def list_all_length)+

text \<open>The part of an AVC text behind the first dot, by its length: a slice that is there holds two digits, the first that is not panics.\<close>

lemma avc_short:
  assumes hex: "hex_digits part" and short: "length part < 6"
  shows "avc_from_str [kind, part] = Panic"
proof -
  have slice: "str_slice part a b = (Panic :: (codec_error, bytes) result)" if "length part < b" for a b
    using that by (simp add: str_slice_def is_char_boundary_def)
  have pair: "\<exists>t (n :: u8). str_slice part a b = (Ok t :: (codec_error, bytes) result) \<and> number_in 16 what part t = Ok n"
    if a: "b = a + 2" "b \<le> length part" for a b what
  proof -
    define pick where "pick = take 2 (drop a part)"
    have "length pick = 2" using a by (simp add: pick_def)
    then obtain x y where xy: "pick = [x, y]" by (auto simp: numeral_2_eq_2 length_Suc_conv)
    have "set pick \<subseteq> set part" unfolding pick_def by (meson order_trans set_drop_subset set_take_subset)
    then have "hex_digits [x, y]" using hex unfolding xy by (auto simp: hex_digits_def list_all_iff)
    then obtain n :: u8 where "from_str_radix 16 [x, y] = Ok n" by (rule hex_pair)
    moreover have "str_slice part a b = (Ok [x, y] :: (codec_error, bytes) result)"
      using a xy hex_boundary [OF hex, of a] hex_boundary [OF hex, of b] by (simp add: str_slice_def pick_def)
    ultimately show ?thesis by (simp add: number_in_def)
  qed
  consider "length part < 2" | "2 \<le> length part" "length part < 4" | "4 \<le> length part" using short by linarith
  then show ?thesis
  proof cases
    case 1
    then show ?thesis using slice [of 2 0] by (simp add: avc_from_str_def)
  next
    case 2
    obtain t and n :: u8 where "str_slice part 0 2 = (Ok t :: (codec_error, bytes) result)" "number_in 16 ''profile'' part t = Ok n"
      using pair [of 2 0 "''profile''"] 2 by auto
    then show ?thesis using slice [of 4 2] 2 by (simp add: avc_from_str_def)
  next
    case 3
    obtain t and n :: u8 where "str_slice part 0 2 = (Ok t :: (codec_error, bytes) result)" "number_in 16 ''profile'' part t = Ok n"
      using pair [of 2 0 "''profile''"] 3 by auto
    moreover obtain t' and n' :: u8 where "str_slice part 2 4 = (Ok t' :: (codec_error, bytes) result)"
      "number_in 16 ''constraint set'' part t' = Ok n'"
      using pair [of 4 2 "''constraint set''"] 3 by auto
    ultimately show ?thesis using slice [of 6 4] short by (simp add: avc_from_str_def)
  qed
qed

lemma hex_no_dot: "hex_digits xs \<Longrightarrow> 46 \<notin> set xs"
  using hex_digit by (fastforce simp: hex_digits_def list_all_iff)

text \<open>The parts of an HEVC and of an AV1 text in the form the parser expects.\<close>

definition hevc_parts :: "u8 \<Rightarrow> u8 \<Rightarrow> u32 \<Rightarrow> bool \<Rightarrow> u8 \<Rightarrow> bytes list" where
  "hevc_parts space profile compatibility tier level =
     [fourcc ''hev1'', (if space = 1 then fourcc ''A'' else if space = 2 then fourcc ''B'' else fourcc ''C''),
      hex profile, hex compatibility, (if tier then fourcc ''H'' else fourcc ''L''), hex level]"

definition av1_parts :: "u8 \<Rightarrow> u8 \<Rightarrow> bool \<Rightarrow> u8 \<Rightarrow> bool \<Rightarrow> bool \<Rightarrow> bool \<Rightarrow> u8 \<Rightarrow> u8 \<Rightarrow> u8 \<Rightarrow> bool \<Rightarrow> bytes list" where
  "av1_parts profile level tier depth monochrome x y cp tc mc full =
     [fourcc ''av01'', hex profile, hex level, (if tier then fourcc ''H'' else fourcc ''M''), dec depth, flag_char monochrome,
      flag_char x, flag_char y, dec cp, dec tc, dec mc, flag_char full]"

lemma split_parts:
  "split_dots (dots (hevc_parts space profile compatibility tier level)) = hevc_parts space profile compatibility tier level"
  "split_dots (dots (hevc_parts space profile compatibility tier level @ [hex (constraint :: u64)]))
     = hevc_parts space profile compatibility tier level @ [hex constraint]"
  "split_dots (dots (av1_parts profile level tier depth monochrome x y cp tc mc full))
     = av1_parts profile level tier depth monochrome x y cp tc mc full"
  by (rule split_dots_dots; simp add: hevc_parts_def av1_parts_def fourcc_def)+

lemma hevc_parsed:
  assumes "1 \<le> space" "space \<le> 3"
  shows "hevc_from_str (hevc_parts space profile compatibility tier level) = Panic"
    "hevc_from_str (hevc_parts space profile compatibility tier level @ [hex constraint])
       = Ok (CodecHevc space compatibility profile level tier constraint)"
proof -
  have "space = 1 \<or> space = 2 \<or> space = 3" using assms by (auto simp: word_le_nat_alt word_unat_eq_iff)
  then show "hevc_from_str (hevc_parts space profile compatibility tier level) = Panic"
    "hevc_from_str (hevc_parts space profile compatibility tier level @ [hex constraint])
       = Ok (CodecHevc space compatibility profile level tier constraint)"
    by (auto simp: hevc_from_str_def hevc_parts_def choice_at_def number_at_def part_at_def number_in_def from_str_fmt fourcc_def)
qed

lemma av1_parsed:
  "av1_from_str (av1_parts profile level tier depth monochrome x y cp tc mc full)
     = Ok (CodecAv1 profile level tier depth monochrome x y cp tc mc full)"
proof -
  have bit: "choice_at [(fourcc ''1'', True), (fourcc ''0'', False)] what parts i = (Ok b :: (codec_error, bool) result)"
    if "i < length parts" "parts ! i = flag_char b" for b what parts i
    using that by (simp add: choice_at_def part_at_def flag_char_def fourcc_def)
  have full: "from_str_radix 10 (flag_char b) = (Ok (of_bool b) :: (IntErrorKind, u8) result)" for b
    by (simp add: flag_char_def from_str_radix_def to_digit_def)
  have tier: "choice_at [(fourcc ''H'', True), (fourcc ''M'', False)] what parts i = (Ok b :: (codec_error, bool) result)"
    if "i < length parts" "parts ! i = (if b then fourcc ''H'' else fourcc ''M'')" for b what parts i
    using that by (simp add: choice_at_def part_at_def fourcc_def split: if_splits)
  show ?thesis
    by (simp add: av1_from_str_def av1_parts_def Let_def bit tier number_at_def part_at_def number_in_def from_str_fmt full)
qed

section \<open>Property\<close>

text \<open>C40: the text of an AVC codec is parsed back to it. The text of an AAC codec is \<^verbatim>\<open>mp4a.40.\<close> and the number of the object type, 1 for main
  and 2 for low complexity; it is parsed back to the object type, except that the unknown types 1 and 2 become main and low
  complexity; the text of Opus is parsed back. The text of an HEVC or AV1 codec is always refused by the parser of the same
  type, which expects its parts separated by further dots: texts with those dots are parsed to the codec they name. An AVC
  text whose part behind the dot has fewer than six characters, all of them hexadecimal digits, makes the parser panic, and so does
  an HEVC text of exactly six valid parts, which lacks the constraint indicator.\<close>

theorem codec_strings:
  assumes short: "hex_digits part" "length part < 6" and space: "1 \<le> space" "space \<le> 3"
  shows "video_codec_from_str (video_codec_fmt (CodecAvc profile constraint_set level)) = Ok (CodecAvc profile constraint_set level)
   \<and> audio_codec_fmt (CodecAac AacMain) = fourcc ''mp4a.40.1'' \<and> audio_codec_fmt (CodecAac AacLowComplexity) = fourcc ''mp4a.40.2''
   \<and> audio_codec_fmt (CodecAac (UnknownAot v)) = fourcc ''mp4a.40.'' @ dec v
   \<and> audio_codec_from_str (audio_codec_fmt (CodecAac AacMain)) = Ok (CodecAac AacMain)
   \<and> audio_codec_from_str (audio_codec_fmt (CodecAac AacLowComplexity)) = Ok (CodecAac AacLowComplexity)
   \<and> audio_codec_from_str (audio_codec_fmt (CodecAac (UnknownAot v)))
       = Ok (CodecAac (if v = 1 then AacMain else if v = 2 then AacLowComplexity else UnknownAot v))
   \<and> audio_codec_from_str (audio_codec_fmt CodecOpus) = Ok CodecOpus
   \<and> video_codec_from_str (video_codec_fmt (CodecHevc g compatibility profile level tier constraint)) = Err MissingProfile
   \<and> video_codec_from_str (video_codec_fmt (CodecAv1 profile level tier depth monochrome x y cp tc mc full)) = Err MissingProfile
   \<and> video_codec_from_str (dots (hevc_parts space profile compatibility tier level @ [hex constraint]))
       = Ok (CodecHevc space compatibility profile level tier constraint)
   \<and> video_codec_from_str (dots (av1_parts profile level tier depth monochrome x y cp tc mc full))
       = Ok (CodecAv1 profile level tier depth monochrome x y cp tc mc full)
   \<and> video_codec_from_str (dots [fourcc ''avc1'', part]) = Panic
   \<and> video_codec_from_str (dots (hevc_parts space profile compatibility tier level)) = Panic"
proof (intro conjI)
  show "video_codec_from_str (video_codec_fmt (CodecAvc profile constraint_set level)) = Ok (CodecAvc profile constraint_set level)"
    by (rule avc_parsed)
  show "video_codec_from_str (video_codec_fmt (CodecHevc g compatibility profile level tier constraint)) = Err MissingProfile"
    using split_fmt(2) [of g compatibility profile level tier constraint]
    by (auto simp only: video_codec_from_str_def hevc_from_str_def list.case kinds) simp
  show "video_codec_from_str (video_codec_fmt (CodecAv1 profile level tier depth monochrome x y cp tc mc full)) = Err MissingProfile"
    using split_fmt(3) [of profile level tier depth monochrome x y cp tc mc full]
    by (auto simp only: video_codec_from_str_def av1_from_str_def Let_def list.case kinds) simp
  show "audio_codec_fmt (CodecAac AacMain) = fourcc ''mp4a.40.1''" "audio_codec_fmt (CodecAac AacLowComplexity) = fourcc ''mp4a.40.2''"
    "audio_codec_fmt (CodecAac (UnknownAot v)) = fourcc ''mp4a.40.'' @ dec v"
    by (simp_all add: dots_def fourcc_def fmt_radix.simps digit_char_def)
  show "audio_codec_from_str (audio_codec_fmt (CodecAac AacMain)) = Ok (CodecAac AacMain)"
    "audio_codec_from_str (audio_codec_fmt (CodecAac AacLowComplexity)) = Ok (CodecAac AacLowComplexity)"
    "audio_codec_from_str (audio_codec_fmt (CodecAac (UnknownAot v)))
       = Ok (CodecAac (if v = 1 then AacMain else if v = 2 then AacLowComplexity else UnknownAot v))"
    using aac_parsed [of AacMain] aac_parsed [of AacLowComplexity] aac_parsed [of "UnknownAot v"] by (simp_all add: aot_from_u16_def)
  show "audio_codec_from_str (audio_codec_fmt CodecOpus) = Ok CodecOpus"
    by (simp add: audio_codec_from_str_def split_fmt(5) kinds del: audio_codec_fmt.simps)
  have "split_dots (dots [fourcc ''avc1'', part]) = [fourcc ''avc1'', part]"
    using hex_no_dot [OF short(1)] by (intro split_dots_dots) (simp_all add: fourcc_def)
  then show "video_codec_from_str (dots [fourcc ''avc1'', part]) = Panic"
    by (simp add: video_codec_from_str_def avc_short [OF short])
  show "video_codec_from_str (dots (hevc_parts space profile compatibility tier level)) = Panic"
    using hevc_parsed(1) [OF space, of profile compatibility tier level]
    by (simp only: video_codec_from_str_def split_parts) (simp add: hevc_parts_def kinds)
  show "video_codec_from_str (dots (hevc_parts space profile compatibility tier level @ [hex constraint]))
       = Ok (CodecHevc space compatibility profile level tier constraint)"
    using hevc_parsed(2) [OF space, of profile compatibility tier level constraint]
    by (simp only: video_codec_from_str_def split_parts) (simp add: hevc_parts_def kinds)
  show "video_codec_from_str (dots (av1_parts profile level tier depth monochrome x y cp tc mc full))
       = Ok (CodecAv1 profile level tier depth monochrome x y cp tc mc full)"
    using av1_parsed [of profile level tier depth monochrome x y cp tc mc full]
    by (simp only: video_codec_from_str_def split_parts) (simp add: av1_parts_def kinds)
qed

theorem codec_strings_witness:
  "audio_codec_from_str (audio_codec_fmt (CodecAac (UnknownAot 5))) = Ok (CodecAac (UnknownAot 5))
   \<and> video_codec_from_str (dots [fourcc ''avc1'', fourcc ''4d'']) = Panic
   \<and> video_codec_from_str (dots (hevc_parts 1 1 6 False 93 @ [hex (0 :: u64)])) = Ok (CodecHevc 1 6 1 93 False 0)"
proof -
  have "hex_digits (fourcc ''4d'')" "length (fourcc ''4d'') < 6" "1 \<le> (1 :: u8)" "(1 :: u8) \<le> 3"
    by (simp_all add: hex_digits_def fourcc_def to_digit_def)
  note cs = codec_strings [OF this, of 1 0 93 5 0 6 False 0 8 False True True 1 1 1 False]
  then have "audio_codec_from_str (audio_codec_fmt (CodecAac (UnknownAot 5)))
     = Ok (CodecAac (if (5 :: u16) = 1 then AacMain else if (5 :: u16) = 2 then AacLowComplexity else UnknownAot 5))" by blast
  moreover from cs have "video_codec_from_str (dots [fourcc ''avc1'', fourcc ''4d'']) = Panic"
    "video_codec_from_str (dots (hevc_parts 1 1 6 False 93 @ [hex (0 :: u64)])) = Ok (CodecHevc 1 6 1 93 False 0)" by blast+
  ultimately show ?thesis by (simp del: audio_codec_fmt.simps)
qed

end
