(* ===== verification/Float64.thy ===== *)
theory Float64
  imports Prelude "HOL-Library.Log_Nat"
begin

text \<open>
  The double-precision arithmetic (\<^verbatim>\<open>f64\<close>) that the transmuxer uses for frame rates, durations and bit rates: IEEE 754
  numbers up to the payload of a NaN, operations that round the exact result to the nearest number (ties to even), and the
  saturating casts of Rust. Everything computes on exact rational numbers.
\<close>

section \<open>Numbers\<close>

text \<open>A finite number has a sign (\<open>True\<close> for negative) and a magnitude, so that zero keeps its sign.\<close>

datatype float64 = Finite bool rat | Infinite bool | NaN

definition floor_log2 :: "rat \<Rightarrow> int" where
  "floor_log2 x = (case quotient_of x of (p, q) \<Rightarrow>
     let k = bitlen p - bitlen q in if 2 powi k \<le> x then k else k - 1)"

definition round_half_even :: "rat \<Rightarrow> int" where
  "round_half_even y = (let n = \<lfloor>y\<rfloor>; d = y - of_int n
     in if d < 1 / 2 \<or> d = 1 / 2 \<and> even n then n else n + 1)"

text \<open>A magnitude is rounded to 53 significant bits, and to a multiple of the least positive number.\<close>

definition round_mag :: "rat \<Rightarrow> rat" where
  "round_mag x = (if x = 0 then 0 else
     let e = max (floor_log2 x - 52) (- 1074) in of_int (round_half_even (x / 2 powi e)) * 2 powi e)"

definition rounded :: "bool \<Rightarrow> rat \<Rightarrow> float64" where
  "rounded sign x = (let r = round_mag x in if r \<ge> 2 ^ 1024 then Infinite sign else Finite sign r)"

fun f64_value :: "float64 \<Rightarrow> rat" where
  "f64_value (Finite sign x) = (if sign then - x else x)"
| "f64_value _ = 0"

text \<open>\<^verbatim>\<open>f64::from_bits\<close>, the bit patterns that AMF0 carries.\<close>

definition f64_from_bits :: "f64 \<Rightarrow> float64" where
  "f64_from_bits w =
     (let sign = bit w 63; e = uint (drop_bit 52 w AND 0x7FF); m = uint (w AND 0xFFFFFFFFFFFFF)
      in if e = 0x7FF then (if m = 0 then Infinite sign else NaN)
         else if e = 0 then Finite sign (of_int m * 2 powi (- 1074))
         else Finite sign (of_int (2 ^ 52 + m) * 2 powi (e - 1075)))"

section \<open>Operations\<close>

fun f64_mul :: "float64 \<Rightarrow> float64 \<Rightarrow> float64" where
  "f64_mul NaN _ = NaN"
| "f64_mul _ NaN = NaN"
| "f64_mul (Infinite s) (Infinite t) = Infinite (s \<noteq> t)"
| "f64_mul (Infinite s) (Finite t y) = (if y = 0 then NaN else Infinite (s \<noteq> t))"
| "f64_mul (Finite s x) (Infinite t) = (if x = 0 then NaN else Infinite (s \<noteq> t))"
| "f64_mul (Finite s x) (Finite t y) = rounded (s \<noteq> t) (x * y)"

fun f64_div :: "float64 \<Rightarrow> float64 \<Rightarrow> float64" where
  "f64_div NaN _ = NaN"
| "f64_div _ NaN = NaN"
| "f64_div (Infinite s) (Infinite t) = NaN"
| "f64_div (Infinite s) (Finite t y) = Infinite (s \<noteq> t)"
| "f64_div (Finite s x) (Infinite t) = Finite (s \<noteq> t) 0"
| "f64_div (Finite s x) (Finite t y) =
     (if y = 0 then (if x = 0 then NaN else Infinite (s \<noteq> t)) else rounded (s \<noteq> t) (x / y))"

fun f64_neg :: "float64 \<Rightarrow> float64" where
  "f64_neg NaN = NaN"
| "f64_neg (Infinite s) = Infinite (\<not> s)"
| "f64_neg (Finite s x) = Finite (\<not> s) x"

fun f64_add :: "float64 \<Rightarrow> float64 \<Rightarrow> float64" where
  "f64_add NaN _ = NaN"
| "f64_add _ NaN = NaN"
| "f64_add (Infinite s) (Infinite t) = (if s = t then Infinite s else NaN)"
| "f64_add (Infinite s) (Finite _ _) = Infinite s"
| "f64_add (Finite _ _) (Infinite t) = Infinite t"
| "f64_add (Finite s x) (Finite t y) =
     (let v = f64_value (Finite s x) + f64_value (Finite t y)
      in if v = 0 then Finite (s \<and> t) 0 else rounded (v < 0) \<bar>v\<bar>)"

definition f64_sub :: "float64 \<Rightarrow> float64 \<Rightarrow> float64" where
  "f64_sub x y = f64_add x (f64_neg y)"

fun f64_abs :: "float64 \<Rightarrow> float64" where
  "f64_abs NaN = NaN"
| "f64_abs (Infinite _) = Infinite False"
| "f64_abs (Finite _ x) = Finite False x"

fun f64_floor :: "float64 \<Rightarrow> float64" where
  "f64_floor (Finite s x) = Finite s (of_int (if s then \<lceil>x\<rceil> else \<lfloor>x\<rfloor>))"
| "f64_floor x = x"

fun f64_le :: "float64 \<Rightarrow> float64 \<Rightarrow> bool" where
  "f64_le NaN _ \<longleftrightarrow> False"
| "f64_le _ NaN \<longleftrightarrow> False"
| "f64_le (Infinite s) (Infinite t) \<longleftrightarrow> s \<or> \<not> t"
| "f64_le (Infinite s) (Finite _ _) \<longleftrightarrow> s"
| "f64_le (Finite _ _) (Infinite t) \<longleftrightarrow> \<not> t"
| "f64_le (Finite s x) (Finite t y) \<longleftrightarrow> f64_value (Finite s x) \<le> f64_value (Finite t y)"

definition f64_eq :: "float64 \<Rightarrow> float64 \<Rightarrow> bool" where
  "f64_eq x y \<longleftrightarrow> f64_le x y \<and> f64_le y x"

text \<open>Conversions: integers of 32 bits and literals are exact, \<open>f64_of_rat\<close> is the quotient of two such integers, and the
  casts to integers truncate and saturate, with 0 for NaN.\<close>

definition f64_of_int :: "int \<Rightarrow> float64" where
  "f64_of_int n = Finite (n < 0) (of_int \<bar>n\<bar>)"

definition f64_of_rat :: "rat \<Rightarrow> float64" where
  "f64_of_rat x = rounded (x < 0) \<bar>x\<bar>"

fun saturate :: "int \<Rightarrow> int \<Rightarrow> float64 \<Rightarrow> int" where
  "saturate lo hi NaN = 0"
| "saturate lo hi (Infinite s) = (if s then lo else hi)"
| "saturate lo hi (Finite s x) = max lo (min hi (if s then - \<lfloor>x\<rfloor> else \<lfloor>x\<rfloor>))"

definition f64_as_u32 :: "float64 \<Rightarrow> u32" where
  "f64_as_u32 x = word_of_int (saturate 0 (2 ^ 32 - 1) x)"

definition f64_as_i32 :: "float64 \<Rightarrow> i32" where
  "f64_as_i32 x = word_of_int (saturate (- (2 ^ 31)) (2 ^ 31 - 1) x)"

section \<open>Integers are exact\<close>

lemma floor_log2_int:
  assumes "0 < n" "n < 2 ^ 53"
  shows "floor_log2 (of_int n) \<le> 52"
proof -
  have "quotient_of (of_int n) = (n, 1)" by (simp add: of_int_rat quotient_of_Fract)
  moreover have "bitlen n \<le> 53"
  proof -
    have "2 ^ nat (bitlen n - 1) \<le> n" using bitlen_bounds [OF assms(1)] by simp
    with assms(2) have "(2 :: int) ^ nat (bitlen n - 1) < 2 ^ 53" by linarith
    then have "nat (bitlen n - 1) < 53" by (simp only: power_strict_increasing_iff)
    then show ?thesis by linarith
  qed
  moreover have "bitlen 1 = 1" by (simp add: bitlen_def floorlog_def)
  ultimately show ?thesis by (simp add: floor_log2_def Let_def)
qed

lemma round_half_even_int [simp]: "round_half_even (of_int n) = n"
  by (simp add: round_half_even_def)

lemma round_mag_int:
  assumes "0 \<le> n" "n < 2 ^ 53"
  shows "round_mag (of_int n) = of_int n"
proof (cases "n = 0")
  case False
  with assms have "floor_log2 (of_int n) \<le> 52" by (intro floor_log2_int) auto
  then obtain k where k: "max (floor_log2 (of_int n) - 52) (- 1074) = - int k"
    by (intro that [of "nat (- max (floor_log2 (of_int n) - 52) (- 1074))"]) simp
  have "(of_int n :: rat) / 2 powi (- int k) = of_int (n * 2 ^ k)"
    by (simp add: power_int_minus divide_inverse)
  then have "round_half_even (of_int n / 2 powi (- int k)) = n * 2 ^ k" by (simp only: round_half_even_int)
  then show ?thesis using False by (simp add: round_mag_def k Let_def power_int_minus)
qed (simp add: round_mag_def)

lemma rounded_int: "0 \<le> n \<Longrightarrow> n < 2 ^ 53 \<Longrightarrow> rounded s (of_int n) = Finite s (of_int n)"
proof -
  assume n: "0 \<le> n" "n < 2 ^ 53"
  from n(2) have "n < 2 ^ 1024" by (rule order_less_le_trans) simp
  then have "(of_int n :: rat) < of_int (2 ^ 1024)" by (simp only: of_int_less_iff)
  then show ?thesis using n by (simp add: rounded_def round_mag_int Let_def)
qed

text \<open>Products of integers below \<open>2 ^ 53\<close>.\<close>

lemma f64_mul_int:
  assumes "0 \<le> a" "0 \<le> b" "a * b < 2 ^ 53"
  shows "f64_mul (f64_of_int a) (f64_of_int b) = f64_of_int (a * b)"
  using rounded_int [of "a * b" False] assms by (simp add: f64_of_int_def not_less)

lemma f64_as_u32_int: "0 \<le> n \<Longrightarrow> n < 2 ^ 32 \<Longrightarrow> f64_as_u32 (f64_of_int n) = word_of_int n"
  by (simp add: f64_as_u32_def f64_of_int_def)

lemma f64_as_i32_bounds: "- (2 ^ 31) \<le> sint (f64_as_i32 x) \<and> sint (f64_as_i32 x) < 2 ^ 31"
  using sint_ge [of "f64_as_i32 x"] sint_lt [of "f64_as_i32 x"] by simp

end
