(* ===== verification/Transmuxer.thy ===== *)
theory Transmuxer
  imports Float64 Codec_String Flv Aac H264_Sps H265_Sps Av1_Seq Mp4_Traf
begin

text \<open>
  The crate \<^verbatim>\<open>transmuxer\<close> (\<^verbatim>\<open>crates/transmuxer/src\<close>): FLV tags go in, fragmented MP4 comes out. The state is the record
  \<open>Transmuxer\<close>, the operations are programs over it. The initialisation segment is written once both sequence headers are
  queued; afterwards every audio or video tag becomes a media segment, a \<^verbatim>\<open>moof\<close> box with one track fragment followed by an
  \<^verbatim>\<open>mdat\<close> box. The boxes it writes contain no unknown boxes, so that the depth \<open>segment_depth\<close> at which the operations of
  \<^verbatim>\<open>DynBox\<close> are taken is enough for any of them.
\<close>

section \<open>Settings, results and errors\<close>

datatype VideoSequenceHeader =
    SeqAvc AVCDecoderConfigurationRecord
  | SeqHevc HEVCDecoderConfigurationRecord
  | SeqAv1 AV1CodecConfigurationRecord

text \<open>The only audio sequence header is that of AAC, its bytes.\<close>

datatype AudioSequenceHeaderData = SeqAac bytes

record AudioSequenceHeader =
  ash_sound_size :: SoundSize
  ash_sound_type :: SoundType
  ash_data :: AudioSequenceHeaderData

record VideoSettings =
  vs_width :: u32
  vs_height :: u32
  vs_framerate :: float64
  vs_bitrate :: u32
  vs_codec :: VideoCodec
  vs_timescale :: u32

record AudioSettings =
  as_sample_rate :: u32
  as_channels :: u8
  as_bitrate :: u32
  as_codec :: AudioCodec
  as_timescale :: u32

datatype MediaType = MediaVideo | MediaAudio

record MediaSegment =
  ms_data :: bytes
  ms_ty :: MediaType
  ms_keyframe :: bool
  ms_timestamp :: u64

datatype TransmuxResult = InitSegment VideoSettings AudioSettings bytes | Media MediaSegment

fun into_bytes :: "TransmuxResult \<Rightarrow> bytes" where
  "into_bytes (InitSegment _ _ data) = data"
| "into_bytes (Media m) = ms_data m"

datatype TransmuxError =
    InvalidVideoDimensions | InvalidVideoFrameRate | InvalidAudioSampleRate | InvalidAudioChannels
  | InvalidAudioSampleSize | InvalidHEVCDecoderConfigurationRecord | InvalidAv1DecoderConfigurationRecord
  | InvalidAVCDecoderConfigurationRecord | NoSequenceHeaders | TransmuxIO io_error

text \<open>The conversion of the \<^verbatim>\<open>?\<close> operator.\<close>

abbreviation io :: "('a, io_error, 'b) prog \<Rightarrow> ('a, TransmuxError, 'b) prog" where
  "io \<equiv> map_errE TransmuxIO"

abbreviation io_r :: "'b io_result \<Rightarrow> (TransmuxError, 'b) result" where
  "io_r \<equiv> map_err TransmuxIO"

section \<open>Samples and sample entries of the codecs\<close>

definition sample_flags :: "bool \<Rightarrow> TrunSampleFlag" where
  "sample_flags key = \<lparr>tsf_reserved = 0, tsf_is_leading = 0, tsf_sample_depends_on = (if key then 2 else 1),
     tsf_sample_is_depended_on = 0, tsf_sample_has_redundancy = 0, tsf_sample_padding_value = 0,
     tsf_sample_is_non_sync_sample = (\<not> key), tsf_sample_degradation_priority = 0\<rparr>"

definition aac_trun_sample :: "bytes \<Rightarrow> (TransmuxError, TrunSample \<times> u32) result" where
  "aac_trun_sample data = Ok (\<lparr>ts_duration = Some 1024, ts_size = Some (word_of_nat (length data)),
     ts_flags = Some (sample_flags True), ts_composition_time_offset = None\<rparr>, 1024)"

definition avc_trun_sample :: "FrameType \<Rightarrow> u32 \<Rightarrow> u32 \<Rightarrow> bytes \<Rightarrow> (TransmuxError, TrunSample) result" where
  "avc_trun_sample frame_type composition_time duration data = Ok \<lparr>ts_duration = Some duration,
     ts_size = Some (word_of_nat (length data)), ts_flags = Some (sample_flags (frame_type = FrameType_Keyframe)),
     ts_composition_time_offset = Some (ucast composition_time)\<rparr>"

definition hevc_trun_sample :: "FrameType \<Rightarrow> i32 \<Rightarrow> u32 \<Rightarrow> bytes \<Rightarrow> (TransmuxError, TrunSample) result" where
  "hevc_trun_sample frame_type composition_time duration data = Ok \<lparr>ts_duration = Some duration,
     ts_size = Some (word_of_nat (length data)), ts_flags = Some (sample_flags (frame_type = FrameType_Keyframe)),
     ts_composition_time_offset = Some (scast composition_time)\<rparr>"

definition av1_trun_sample :: "FrameType \<Rightarrow> u32 \<Rightarrow> bytes \<Rightarrow> (TransmuxError, TrunSample) result" where
  "av1_trun_sample frame_type duration data = Ok \<lparr>ts_duration = Some duration,
     ts_size = Some (word_of_nat (length data)), ts_flags = Some (sample_flags (frame_type = FrameType_Keyframe)),
     ts_composition_time_offset = None\<rparr>"

definition aac_channels :: "SoundType \<Rightarrow> (TransmuxError, 'a::len word) result" where
  "aac_channels sound_type = (if sound_type = SoundType_Mono then Ok 1 else if sound_type = SoundType_Stereo then Ok 2
     else Err InvalidAudioChannels)"

definition aac_sample_size :: "SoundSize \<Rightarrow> (TransmuxError, u16) result" where
  "aac_sample_size sound_size = (if sound_size = SoundSize_Bit8 then Ok 8 else if sound_size = SoundSize_Bit16 then Ok 16
     else Err InvalidAudioSampleSize)"

definition aac_esds :: "bytes \<Rightarrow> Esds" where
  "aac_esds data = esds_new (es_new 2 0 (Some 0) None (Some 0)
     (Some (decoder_config_new 0x40 0x05 0 0
        (Some \<lparr>dsi_header = descriptor_header_new DecSpecificInfoTag, dsi_data = data\<rparr>)))
     None)"

definition aac_stsd_entry :: "SoundSize \<Rightarrow> SoundType \<Rightarrow> bytes \<Rightarrow> (TransmuxError, DynBox \<times> PartialAudioSpecificConfig) result" where
  "aac_stsd_entry sound_size sound_type data =
     rbind (io_r (asc_parse data)) (\<lambda>aac_config.
     rbind (aac_channels sound_type) (\<lambda>channels.
     rbind (aac_sample_size sound_size) (\<lambda>sample_size.
     Ok (BMp4a (mp4a_new (sample_entry_new (audio_sample_entry_new channels sample_size (asc_sampling_frequency aac_config)))
           (aac_esds data) None), aac_config))))"

definition nclx :: "ColorConfig \<Rightarrow> Colr" where
  "nclx c = colr_new (Nclx (ucast (cc_color_primaries c)) (ucast (cc_transfer_characteristics c))
     (ucast (cc_matrix_coefficients c)) (cc_full_range c))"

definition avc_stsd_entry :: "AVCDecoderConfigurationRecord \<Rightarrow> (TransmuxError, DynBox \<times> Sps) result" where
  "avc_stsd_entry config =
     (case avc_sps config of
        [] \<Rightarrow> Err InvalidAVCDecoderConfigurationRecord
      | unit # _ \<Rightarrow>
          rbind (io_r (sps_parse unit)) (\<lambda>sps.
          Ok (BAvc1 (avc1_new (sample_entry_new (visual_sample_entry_new (ucast (sps_width sps)) (ucast (sps_height sps))
                (map_option nclx (sps_color_config sps)))) (avcc_new config) None), sps)))"

definition first_sps :: "HEVCDecoderConfigurationRecord \<Rightarrow> bytes option" where
  "first_sps config = (case find (\<lambda>a. na_nal_unit_type a = HevcSps) (hevc_arrays config) of
     Some a \<Rightarrow> (case na_nalus a of unit # _ \<Rightarrow> Some unit | [] \<Rightarrow> None) | None \<Rightarrow> None)"

definition hevc_stsd_entry :: "HEVCDecoderConfigurationRecord \<Rightarrow> (TransmuxError, DynBox \<times> HevcSpsInfo) result" where
  "hevc_stsd_entry config =
     (case first_sps config of
        None \<Rightarrow> Err InvalidHEVCDecoderConfigurationRecord
      | Some unit \<Rightarrow>
          rbind (io_r (hevc_sps_parse unit)) (\<lambda>sps.
          Ok (BHev1 (hev1_new (sample_entry_new (visual_sample_entry_new (ucast (hsps_width sps)) (ucast (hsps_height sps))
                (map_option nclx (hsps_color_config sps)))) (hvcc_new config) None), sps)))"

text \<open>The size of the unit is a \<^verbatim>\<open>u64\<close>; a unit without a size takes the rest of the configuration.\<close>

definition av1_sequence_obu :: "bytes \<Rightarrow> (TransmuxError, SequenceHeaderObu) result" where
  "av1_sequence_obu config_obu = fst (
     bindE (io obu_header_parse) (\<lambda>header.
     bindE (\<lambda>c. io (extract_bytes (case obu_size header of Some n \<Rightarrow> unat n | None \<Rightarrow> cur_remaining c)) c) (\<lambda>data.
     if obu_type header \<noteq> SequenceHeader then fail InvalidAv1DecoderConfigurationRecord
     else lift_result (io_r (fst (sequence_header_parse header (cursor_new data)))))) (cursor_new config_obu))"

definition av1_nclx :: "Av1ColorConfig \<Rightarrow> Colr" where
  "av1_nclx c = colr_new (Nclx (ucast (acc_color_primaries c)) (ucast (acc_transfer_characteristics c))
     (ucast (acc_matrix_coefficients c)) (acc_full_color_range c))"

definition av1_stsd_entry :: "AV1CodecConfigurationRecord \<Rightarrow> (TransmuxError, DynBox \<times> SequenceHeaderObu) result" where
  "av1_stsd_entry config =
     rbind (av1_sequence_obu (av1_config_obu config)) (\<lambda>seq_obu.
     Ok (BAv01 (av01_new (sample_entry_new (visual_sample_entry_new (ucast (sh_max_frame_width seq_obu))
           (ucast (sh_max_frame_height seq_obu)) (Some (av1_nclx (sh_color_config seq_obu))))) (av1c_new config) None), seq_obu))"

section \<open>The transmuxer\<close>

record Transmuxer =
  tm_audio_duration :: u64
  tm_video_duration :: u64
  tm_sequence_number :: u32
  tm_last_video_timestamp :: u32
  tm_settings :: "(VideoSettings \<times> AudioSettings) option"
  tm_tags :: "FlvTag list"

definition transmuxer_new :: Transmuxer where
  "transmuxer_new = \<lparr>tm_audio_duration = 0, tm_video_duration = 0, tm_sequence_number = 1, tm_last_video_timestamp = 0,
     tm_settings = None, tm_tags = []\<rparr>"

definition add_tag :: "FlvTag \<Rightarrow> Transmuxer \<Rightarrow> Transmuxer" where
  "add_tag tag tm = tm\<lparr>tm_tags := tm_tags tm @ [tag]\<rparr>"

text \<open>\<^verbatim>\<open>demux\<close>: every tag is preceded by the size of the one before. Tags read before an error stay queued. A round of the
  loop reads at least four bytes, so the number of bytes is enough fuel.\<close>

fun transmux_demux_loop :: "nat \<Rightarrow> cursor \<Rightarrow> (Transmuxer, TransmuxError, unit) prog" where
  "transmux_demux_loop 0 c tm = (OutOfFuel, tm)"
| "transmux_demux_loop (Suc fuel) c tm =
     (if \<not> has_remaining c then (Ok (), tm)
      else case io read_u32 c of
        (Err e, _) \<Rightarrow> (Err e, tm) | (Panic, _) \<Rightarrow> (Panic, tm) | (OutOfFuel, _) \<Rightarrow> (OutOfFuel, tm)
      | (Ok _, c') \<Rightarrow>
          (if \<not> has_remaining c' then (Ok (), tm)
           else case io flv_tag_demux c' of
             (Err e, _) \<Rightarrow> (Err e, tm) | (Panic, _) \<Rightarrow> (Panic, tm) | (OutOfFuel, _) \<Rightarrow> (OutOfFuel, tm)
           | (Ok tag, c'') \<Rightarrow> transmux_demux_loop fuel c'' (add_tag tag tm)))"

definition transmux_demux :: "bytes \<Rightarrow> (Transmuxer, TransmuxError, unit) prog" where
  "transmux_demux data = transmux_demux_loop (length data + 1) (cursor_new data)"

subsection \<open>The initialisation segment\<close>

record Tags =
  tags_video_sequence_header :: "VideoSequenceHeader option"
  tags_audio_sequence_header :: "AudioSequenceHeader option"
  tags_scriptdata_tag :: "(bytes \<times> Amf0Value) list option"

fun as_object :: "Amf0Value \<Rightarrow> (bytes \<times> Amf0Value) list option" where
  "as_object (Amf0Object props) = Some props"
| "as_object _ = None"

text \<open>What one tag adds to the tags found; a later tag of a kind replaces an earlier one.\<close>

definition find_tag :: "FlvTag \<Rightarrow> Tags \<Rightarrow> Tags" where
  "find_tag tag t = (case ft_data tag of
       TagVideo v \<Rightarrow> (case vt_body v of
           VideoAvc (AvcSequenceHeader config) \<Rightarrow> t\<lparr>tags_video_sequence_header := Some (SeqAvc config)\<rparr>
         | VideoEnhanced (EnhAv1 (Av1SequenceStart config)) \<Rightarrow> t\<lparr>tags_video_sequence_header := Some (SeqAv1 config)\<rparr>
         | VideoEnhanced (EnhHevc (HevcSequenceStart config)) \<Rightarrow> t\<lparr>tags_video_sequence_header := Some (SeqHevc config)\<rparr>
         | _ \<Rightarrow> t)
     | TagAudio a \<Rightarrow> (case ad_body a of
           AudioAac (AacSequenceHeader data) \<Rightarrow> t\<lparr>tags_audio_sequence_header :=
             Some \<lparr>ash_sound_size = ad_sound_size a, ash_sound_type = ad_sound_type a, ash_data = SeqAac data\<rparr>\<rparr>
         | _ \<Rightarrow> t)
     | TagScriptData sd \<Rightarrow>
         (if sc_name sd = fourcc ''@setDataFrame'' \<or> sc_name sd = fourcc ''onMetaData'' then
            (case find (\<lambda>v. as_object v \<noteq> None) (sc_data sd) of
               Some (Amf0Object meta_object) \<Rightarrow> t\<lparr>tags_scriptdata_tag := Some meta_object\<rparr>
             | _ \<Rightarrow> t)
          else t)
     | _ \<Rightarrow> t)"

definition tags_complete :: "Tags \<Rightarrow> bool" where
  "tags_complete t \<longleftrightarrow> tags_video_sequence_header t \<noteq> None \<and> tags_audio_sequence_header t \<noteq> None
     \<and> tags_scriptdata_tag t \<noteq> None"

fun find_tags_loop :: "FlvTag list \<Rightarrow> Tags \<Rightarrow> Tags" where
  "find_tags_loop [] t = t"
| "find_tags_loop (tag # tags) t = (if tags_complete t then t else find_tags_loop tags (find_tag tag t))"

definition find_tags :: "Transmuxer \<Rightarrow> Tags" where
  "find_tags tm = find_tags_loop (tm_tags tm) \<lparr>tags_video_sequence_header = None, tags_audio_sequence_header = None,
     tags_scriptdata_tag = None\<rparr>"

text \<open>The metadata object becomes a \<^verbatim>\<open>HashMap\<close>: of several properties of a name the last one stays.\<close>

definition meta_number :: "(bytes \<times> Amf0Value) list option \<Rightarrow> string \<Rightarrow> float64 option" where
  "meta_number script name = (case script of None \<Rightarrow> None | Some props \<Rightarrow>
     (case map_of (rev props) (fourcc name) of Some (Amf0Number v) \<Rightarrow> Some (f64_from_bits v) | _ \<Rightarrow> None))"

definition meta_bitrate :: "(bytes \<times> Amf0Value) list option \<Rightarrow> string \<Rightarrow> u32" where
  "meta_bitrate script name = (case meta_number script name of
     Some v \<Rightarrow> f64_as_u32 (f64_mul v (f64_of_int 1024)) | None \<Rightarrow> 0)"

text \<open>What the video sequence header gives: sample entry, brand, codec, width, height and frame rate.\<close>

definition video_entry :: "VideoSequenceHeader \<Rightarrow> float64
    \<Rightarrow> (TransmuxError, DynBox \<times> FourCC \<times> VideoCodec \<times> u32 \<times> u32 \<times> float64) result" where
  "video_entry header video_fps = (case header of
       SeqAvc config \<Rightarrow>
         rbind (avc_stsd_entry config) (\<lambda>(entry, sps).
         let rate = f64_of_rat (sps_frame_rate sps)
         in Ok (entry, FccAvc1,
              CodecAvc (avc_profile_indication config) (avc_profile_compatibility config) (avc_level_indication config),
              ucast (sps_width sps), ucast (sps_height sps),
              if f64_eq rate (f64_of_int 0) then video_fps else rate))
     | SeqAv1 config \<Rightarrow>
         rbind (av1_stsd_entry config) (\<lambda>(entry, seq_obu).
         case sh_operating_points seq_obu of
           [] \<Rightarrow> Panic
         | op_point # _ \<Rightarrow>
             let cc = sh_color_config seq_obu
             in Ok (entry, FccAv01,
                  CodecAv1 (sh_seq_profile seq_obu) (opt_seq_level_idx op_point) (opt_seq_tier op_point)
                    (word_of_int (acc_bit_depth cc)) (acc_mono_chrome cc) (acc_subsampling_x cc) (acc_subsampling_y cc)
                    (acc_color_primaries cc) (acc_transfer_characteristics cc) (acc_matrix_coefficients cc)
                    (acc_full_color_range cc),
                  ucast (sh_max_frame_width seq_obu), ucast (sh_max_frame_height seq_obu), video_fps))
     | SeqHevc config \<Rightarrow>
         rbind (hevc_stsd_entry config) (\<lambda>(entry, sps).
         let rate = f64_of_rat (hsps_frame_rate sps)
         in Ok (entry, FccHev1,
              CodecHevc (hevc_general_profile_space config) (hevc_general_profile_compatibility_flags config)
                (hevc_general_profile_idc config) (hevc_general_level_idc config) (hevc_general_tier_flag config)
                (hevc_general_constraint_indicator_flags config),
              ucast (hsps_width sps), ucast (hsps_height sps),
              if f64_eq rate (f64_of_int 0) then video_fps else rate)))"

definition segment_depth :: nat where
  "segment_depth = 12"

abbreviation segment_ops :: dyn_ops where
  "segment_ops \<equiv> dyn_ops_at segment_depth"

text \<open>A track of the initialisation segment, without samples.\<close>

definition init_track :: "Tkhd \<Rightarrow> u32 \<Rightarrow> HandlerType \<Rightarrow> string \<Rightarrow> DynBox \<Rightarrow> Vmhd option \<Rightarrow> Smhd option \<Rightarrow> DynBox Trak" where
  "init_track tkhd timescale handler name entry vmhd smhd =
     trak_new tkhd None (mdia_new (mdhd_new 0 0 timescale 0) (hdlr_new handler (fourcc name))
       (minf_new (stbl_new (stsd_new [entry]) (stts_new []) (stsc_new []) (stco_new []) (Some (stsz_new 0 []))) vmhd smhd))"

definition init_moov :: "fixed_env \<Rightarrow> u32 \<Rightarrow> u32 \<Rightarrow> u32 \<Rightarrow> DynBox \<Rightarrow> u32 \<Rightarrow> DynBox \<Rightarrow> DynBox Moov io_result" where
  "init_moov fx video_width video_height video_timescale video_stsd_entry audio_sample_rate audio_stsd_entry =
     rbind (mvhd_new fx 0 0 1000 0 1) (\<lambda>mvhd.
     rbind (tkhd_new fx 0 0 1 0 (Some (video_width, video_height))) (\<lambda>video_tkhd.
     rbind (tkhd_new fx 0 0 2 0 None) (\<lambda>audio_tkhd.
     Ok (moov_new mvhd
       [init_track video_tkhd video_timescale Vide ''VideoHandler'' video_stsd_entry (Some vmhd_new) None,
        init_track audio_tkhd audio_sample_rate Soun ''SoundHandler'' audio_stsd_entry None (Some smhd_new)]
       (Some (mvex_new [trex_new 1, trex_new 2] None))))))"

definition init_sequence :: "fixed_env \<Rightarrow> Transmuxer \<Rightarrow> (bytes, TransmuxError, (VideoSettings \<times> AudioSettings) option) prog" where
  "init_sequence fx tm =
     (let tags = find_tags tm; script = tags_scriptdata_tag tags in
      case (tags_video_sequence_header tags, tags_audio_sequence_header tags) of
        (Some video_sequence_header, Some audio_sequence_header) \<Rightarrow>
          bindE (lift_result (video_entry video_sequence_header
              (case meta_number script ''framerate'' of Some v \<Rightarrow> v | None \<Rightarrow> f64_of_int 0)))
            (\<lambda>(video_stsd_entry, brand, video_codec, video_width, video_height, video_fps).
          case ash_data audio_sequence_header of SeqAac data \<Rightarrow>
          bindE (lift_result (aac_stsd_entry (ash_sound_size audio_sequence_header) (ash_sound_type audio_sequence_header) data))
            (\<lambda>(audio_stsd_entry, config).
          bindE (lift_result (aac_channels (ash_sound_type audio_sequence_header))) (\<lambda>audio_channels.
          let audio_sample_rate = asc_sampling_frequency config in
          if f64_eq video_fps (f64_of_int 0) then fail InvalidVideoFrameRate
          else if video_width = 0 \<or> video_height = 0 then fail InvalidVideoDimensions
          else if audio_sample_rate = 0 then fail InvalidAudioSampleRate
          else
            let video_timescale = f64_as_u32 (f64_mul (f64_of_int 1000) video_fps) in
            bindE (io (box_mux ftyp_box (ftyp_new Iso5 512 [Iso5, Iso6, brand, Mp41]))) (\<lambda>_.
            bindE (lift_result (io_r (init_moov fx video_width video_height video_timescale video_stsd_entry
                audio_sample_rate audio_stsd_entry))) (\<lambda>moov.
            bindE (io (box_mux (moov_box segment_ops) moov)) (\<lambda>_.
            ret (Some
              (\<lparr>vs_width = video_width, vs_height = video_height, vs_framerate = video_fps,
                vs_bitrate = meta_bitrate script ''videodatarate'', vs_codec = video_codec, vs_timescale = video_timescale\<rparr>,
               \<lparr>as_sample_rate = audio_sample_rate, as_channels = audio_channels,
                as_bitrate = meta_bitrate script ''audiodatarate'', as_codec = CodecAac (asc_audio_object_type config),
                as_timescale = audio_sample_rate\<rparr>)))))))) 
      | _ \<Rightarrow> ret None)"

subsection \<open>Media segments\<close>

text \<open>The duration of a video frame in units of the video timescale. A frame within a millisecond of the expected time
  lasts exactly 1000 units.\<close>

definition frame_duration :: "VideoSettings \<Rightarrow> u32 \<Rightarrow> u32 \<Rightarrow> u32" where
  "frame_duration vs last_video_timestamp timestamp_ms =
     (if last_video_timestamp = 0 \<or> timestamp_ms = 0 \<or> timestamp_ms < last_video_timestamp then 1000
      else let delta = f64_sub (f64_of_int (uint timestamp_ms)) (f64_of_int (uint last_video_timestamp));
               expected_delta = f64_div (f64_of_int 1000) (vs_framerate vs)
           in if f64_le (f64_abs (f64_sub delta expected_delta)) (f64_of_int 1) then 1000
              else f64_as_u32 (f64_mul delta (vs_framerate vs)))"

definition composition_units :: "VideoSettings \<Rightarrow> int \<Rightarrow> float64" where
  "composition_units vs composition_time =
     f64_mul (f64_floor (f64_div (f64_mul (f64_of_int composition_time) (vs_framerate vs)) (f64_of_int 1000))) (f64_of_int 1000)"

record media_sample =
  sm_sample :: TrunSample
  sm_data :: bytes
  sm_duration :: u32
  sm_audio :: bool
  sm_keyframe :: bool

definition video_sample :: "FrameType \<Rightarrow> bytes \<Rightarrow> u32 \<Rightarrow> TrunSample \<Rightarrow> media_sample" where
  "video_sample frame_type data duration sample = \<lparr>sm_sample = sample, sm_data = data, sm_duration = duration,
     sm_audio = False, sm_keyframe = (frame_type = FrameType_Keyframe)\<rparr>"

text \<open>The sample a tag carries; tags of other kinds are skipped.\<close>

definition tag_sample :: "VideoSettings \<Rightarrow> u32 \<Rightarrow> FlvTag \<Rightarrow> (TransmuxError, media_sample) result option" where
  "tag_sample vs duration tag = (case ft_data tag of
       TagAudio a \<Rightarrow> (case ad_body a of
           AudioAac (AacRaw data) \<Rightarrow> Some (rbind (aac_trun_sample data) (\<lambda>(sample, total).
             Ok \<lparr>sm_sample = sample, sm_data = data, sm_duration = total, sm_audio = True, sm_keyframe = False\<rparr>))
         | _ \<Rightarrow> None)
     | TagVideo v \<Rightarrow> (let frame_type = vt_frame_type v in case vt_body v of
           VideoAvc (AvcNalu composition_time data) \<Rightarrow>
             Some (rbind (avc_trun_sample frame_type (f64_as_u32 (composition_units vs (uint composition_time))) duration data)
               (\<lambda>sample. Ok (video_sample frame_type data duration sample)))
         | VideoEnhanced (EnhAv1 (Av1Raw data)) \<Rightarrow>
             Some (rbind (av1_trun_sample frame_type duration data) (\<lambda>sample. Ok (video_sample frame_type data duration sample)))
         | VideoEnhanced (EnhHevc (HevcNalu composition_time data)) \<Rightarrow>
             Some (rbind (hevc_trun_sample frame_type
                 (f64_as_i32 (composition_units vs (sint (case composition_time of Some t \<Rightarrow> t | None \<Rightarrow> 0)))) duration data)
               (\<lambda>sample. Ok (video_sample frame_type data duration sample)))
         | _ \<Rightarrow> None)
     | _ \<Rightarrow> None)"

definition media_traf :: "u32 \<Rightarrow> u64 \<Rightarrow> TrunSample \<Rightarrow> DynBox Traf" where
  "media_traf track_id base_time sample = traf_optimize (traf_new (tfhd_new track_id None None None None None)
     (Some (trun_new [sample] None)) (Some (tfdt_new base_time)))"

text \<open>The data offset of the first run: the size of the fragment, as \<^verbatim>\<open>i32\<close>, and the header of the data box.\<close>

definition set_data_offset :: "nat \<Rightarrow> DynBox Moof \<Rightarrow> DynBox Moof io_result" where
  "set_data_offset moof_size moof =
     (let off = word_of_nat moof_size :: i32 in
      if sint off + 8 \<ge> 2 ^ 31 then Panic
      else case moof_traf moof of
        [] \<Rightarrow> Panic
      | traf # trafs \<Rightarrow> (case traf_trun traf of
          None \<Rightarrow> Panic
        | Some trun \<Rightarrow> Ok (Moof (moof_header moof) (moof_mfhd moof)
            (Traf (traf_header traf) (traf_tfhd traf) (Some (trun\<lparr>trun_data_offset := Some (off + 8)\<rparr>)) (traf_sbgp traf)
               (traf_subs traf) (traf_tfdt traf) (traf_unknown traf) # trafs) (moof_unknown moof))))"

definition media_moof :: "Transmuxer \<Rightarrow> media_sample \<Rightarrow> DynBox Moof io_result" where
  "media_moof tm sm =
     (let (main_duration, main_id) = (if sm_audio sm then (tm_audio_duration tm, 2) else (tm_video_duration tm, 1));
          moof = moof_new (mfhd_new (tm_sequence_number tm)) [media_traf main_id main_duration (sm_sample sm)]
      in set_data_offset (box_size (moof_box segment_ops) moof) moof)"

definition write_media :: "Transmuxer \<Rightarrow> media_sample \<Rightarrow> (bytes, TransmuxError, unit) prog" where
  "write_media tm sm =
     bindE (lift_result (io_r (media_moof tm sm))) (\<lambda>moof.
     bindE (io (box_mux (moof_box segment_ops) moof)) (\<lambda>_.
     io (box_mux mdat_box (mdat_new [sm_data sm]))))"

text \<open>The segment of a sample, and the state behind it. Counters that overflow panic.\<close>

definition emit_segment :: "FlvTag \<Rightarrow> media_sample \<Rightarrow> (Transmuxer, TransmuxError, TransmuxResult option) prog" where
  "emit_segment tag sm tm =
     (case write_media tm sm [] of
        (Err e, _) \<Rightarrow> (Err e, tm) | (Panic, _) \<Rightarrow> (Panic, tm) | (OutOfFuel, _) \<Rightarrow> (OutOfFuel, tm)
      | (Ok _, data) \<Rightarrow>
          if unat (tm_sequence_number tm) + 1 \<ge> 2 ^ 32 then (Panic, tm)
          else
            let tm' = tm\<lparr>tm_sequence_number := tm_sequence_number tm + 1\<rparr>; total = ucast (sm_duration sm) :: u64 in
            if sm_audio sm then
              if unat (tm_audio_duration tm) + unat total \<ge> 2 ^ 64 then (Panic, tm')
              else let d = tm_audio_duration tm + total
                   in (Ok (Some (Media \<lparr>ms_data = data, ms_ty = MediaAudio, ms_keyframe = False, ms_timestamp = d - total\<rparr>)),
                       tm'\<lparr>tm_audio_duration := d\<rparr>)
            else
              if unat (tm_video_duration tm) + unat total \<ge> 2 ^ 64 then (Panic, tm')
              else let d = tm_video_duration tm + total
                   in (Ok (Some (Media \<lparr>ms_data = data, ms_ty = MediaVideo, ms_keyframe = sm_keyframe sm,
                          ms_timestamp = d - total\<rparr>)),
                       tm'\<lparr>tm_video_duration := d, tm_last_video_timestamp := ft_timestamp_ms tag\<rparr>))"

text \<open>The loop pops tags until one becomes a segment.\<close>

fun mux_loop :: "VideoSettings \<Rightarrow> FlvTag list \<Rightarrow> (Transmuxer, TransmuxError, TransmuxResult option) prog" where
  "mux_loop vs [] tm = (Ok None, tm\<lparr>tm_tags := []\<rparr>)"
| "mux_loop vs (tag # tags) tm =
     (let tm' = tm\<lparr>tm_tags := tags\<rparr> in
      case tag_sample vs (frame_duration vs (tm_last_video_timestamp tm') (ft_timestamp_ms tag)) tag of
        None \<Rightarrow> mux_loop vs tags tm'
      | Some r \<Rightarrow> bindE (lift_result r) (emit_segment tag) tm')"

definition transmux_mux :: "fixed_env \<Rightarrow> (Transmuxer, TransmuxError, TransmuxResult option) prog" where
  "transmux_mux fx tm =
     (case tm_settings tm of
        None \<Rightarrow>
          (case init_sequence fx tm [] of
             (Err e, _) \<Rightarrow> (Err e, tm) | (Panic, _) \<Rightarrow> (Panic, tm) | (OutOfFuel, _) \<Rightarrow> (OutOfFuel, tm)
           | (Ok None, _) \<Rightarrow> (if length (tm_tags tm) > 30 then (Err NoSequenceHeaders, tm) else (Ok None, tm))
           | (Ok (Some (video_settings, audio_settings)), writer) \<Rightarrow>
               (Ok (Some (InitSegment video_settings audio_settings writer)),
                tm\<lparr>tm_settings := Some (video_settings, audio_settings)\<rparr>))
      | Some (video_settings, _) \<Rightarrow> mux_loop video_settings (tm_tags tm) tm)"

end
