(* ===== verification/Transmux_Media.thy ===== *)
theory Transmux_Media
  imports Transmuxer
begin

text \<open>
  Media segments of the transmuxer: every audio or video tag becomes a segment that reads back as a fragment box and a data
  box, with the data offset at the payload, the sequence number and the base time of the state.
\<close>

section \<open>Samples\<close>

text \<open>The samples that the codecs make: all fields but the composition offset are present, and the offset is an unsigned or a
  signed 32-bit number.\<close>

definition offset_fits :: "i64 option \<Rightarrow> bool" where
  "offset_fits off \<longleftrightarrow> off = None \<or> (\<exists>w :: u32. off = Some (ucast w)) \<or> (\<exists>i :: i32. off = Some (scast i))"

definition sample_fits :: "media_sample \<Rightarrow> bool" where
  "sample_fits sm \<longleftrightarrow> ts_duration (sm_sample sm) = Some (sm_duration sm)
     \<and> ts_size (sm_sample sm) = Some (word_of_nat (length (sm_data sm)))
     \<and> ts_flags (sm_sample sm) = Some (sample_flags (sm_audio sm \<or> sm_keyframe sm))
     \<and> offset_fits (ts_composition_time_offset (sm_sample sm))"

lemma offset_fits_simps [simp]: "offset_fits None" "offset_fits (Some (ucast (w :: u32)))" "offset_fits (Some (scast (i :: i32)))"
  by (auto simp: offset_fits_def)

lemmas trun_sample_defs = aac_trun_sample_def avc_trun_sample_def hevc_trun_sample_def av1_trun_sample_def

lemma tag_sample_fits:
  assumes "tag_sample vs d tag = Some r"
  shows "\<exists>sm. r = Ok sm \<and> sample_fits sm"
proof (cases "ft_data tag")
  case (TagAudio a)
  show ?thesis
  proof (cases "ad_body a")
    case (AudioAac p)
    then show ?thesis using assms TagAudio
      by (cases p; clarsimp simp: tag_sample_def trun_sample_defs sample_fits_def)
  qed (use assms TagAudio in \<open>simp add: tag_sample_def\<close>)
next
  case (TagVideo v)
  show ?thesis
  proof (cases "vt_body v")
    case (VideoAvc p)
    then show ?thesis using assms TagVideo
      by (cases p; clarsimp simp: tag_sample_def Let_def trun_sample_defs sample_fits_def video_sample_def)
  next
    case (VideoEnhanced e)
    note body = this
    show ?thesis
    proof (cases e)
      case (EnhAv1 p)
      then show ?thesis using assms TagVideo body
        by (cases p; clarsimp simp: tag_sample_def Let_def trun_sample_defs sample_fits_def video_sample_def)
    next
      case (EnhHevc p)
      then show ?thesis using assms TagVideo body
        by (cases p; clarsimp simp: tag_sample_def Let_def trun_sample_defs sample_fits_def video_sample_def)
    qed (use assms TagVideo body in \<open>simp_all add: tag_sample_def Let_def\<close>)
  qed (use assms TagVideo in \<open>simp_all add: tag_sample_def Let_def\<close>)
qed (use assms in \<open>simp_all add: tag_sample_def Let_def\<close>)

lemma sample_flags_valid [simp]: "tsf_validate (sample_flags key) = Ok ()"
  by (simp add: sample_flags_def tsf_validate_def)

section \<open>The run of one sample\<close>

lemma sint_ucast_32: "sint (ucast (w :: u32) :: i64) = uint w"
proof -
  have "uint w < 2 ^ 32" using uint_lt2p [of w] by simp
  then have "uint w < 2 ^ 63" by (rule order_less_trans) simp
  moreover have "- (2 ^ 63) \<le> uint w" by (rule order_trans [OF _ uint_ge_0]) simp
  ultimately have "signed_take_bit 63 (uint w) = uint w" by (intro signed_take_bit_int_eq_self)
  then show ?thesis by (simp add: sint_uint uint_up_ucast is_up)
qed

lemma sint_scast_32: "sint (scast (i :: i32) :: i64) = sint i"
  by (rule sint_up_scast) (simp add: is_up)

lemma single_run_wf:
  assumes "sample_fits sm"
  shows "trun_wf (trun_new [sm_sample sm] None)"
    and "fh_version (trun_header (trun_new [sm_sample sm] None)) = 0
      \<or> ts_composition_time_offset (sm_sample sm) \<noteq> Some 0"
proof -
  let ?s = "sm_sample sm" and ?b = "trun_new [sm_sample sm] None"
  let ?h = "trun_header ?b"
  have u: "uniform_samples [?s]" by (simp add: uniform_samples_def)
  note base = trun_new_base [of "[?s]" None] and hd = trun_new_header [OF u, of ?s None, simplified]
  have i32: "- (2 ^ 31) \<le> sint i" "sint i < 2 ^ 31" for i :: i32
    using sint_ge [of i] sint_lt [of i] by simp_all
  have x: "trun_offset_ok (fh_version ?h) ?s \<and> sint x \<le> (if fh_version ?h = 1 then 0x7FFFFFFF else 0xFFFFFFFF)"
    if "ts_composition_time_offset ?s = Some x" for x
  proof (cases "sint x < 0")
    case True
    with that assms obtain i :: i32 where "x = scast i"
      by (auto simp: sample_fits_def offset_fits_def sint_ucast_32)
    then have "- (2 ^ 31) \<le> sint x" "sint x < 2 ^ 31" using i32 by (simp_all only: sint_scast_32)
    then show ?thesis using that True by (auto simp: base(7) trun_offset_ok_def intro!: sign_extend_ucast)
  next
    case False
    have "sint x < 2 ^ 32" using that assms i32 uint_lt2p [where 'a = 32]
      by (auto simp: sample_fits_def offset_fits_def sint_ucast_32 sint_scast_32 intro: order_less_trans [of _ "2 ^ 31"])
    moreover from this False have "uint x = sint x" by (simp add: uint_sint take_bit_int_eq_self)
    ultimately have "x \<le> 0xFFFFFFFF" "sint x \<le> 0xFFFFFFFF" by (simp_all add: word_le_def)
    then show ?thesis using that False by (auto simp: base(7) trun_offset_ok_def)
  qed
  have off: "trun_offset_ok (fh_version ?h) ?s" using x by (auto simp: trun_offset_ok_def)
  have "trun_validate ?b = Ok ()"
    unfolding trun_validate_def require_iff base(4-6)
    using base(1,2,7) hd assms x by (intro conjI) (auto simp: sample_fits_def)
  then show "trun_wf ?b" using base off by (simp add: trun_wf_def u32_max_def)
  show "fh_version ?h = 0 \<or> ts_composition_time_offset ?s \<noteq> Some 0"
    unfolding base(7) by auto
qed

section \<open>The fragment of one sample\<close>

lemma media_traf_result:
  assumes fits: "sample_fits sm"
  obtains tfhd run where "media_traf track base (sm_sample sm) = Traf (box_header_new (fourcc ''traf'')) tfhd (Some run) None None (Some (tfdt_new base)) []"
    "tfhd_wf tfhd" "trun_wf run" "tfhd_track_id tfhd = track" "trun_data_offset run = Some 0"
    "effective_values tfhd run = [(Some (sm_duration sm), Some (word_of_nat (length (sm_data sm))),
       case ts_composition_time_offset (sm_sample sm) of Some x \<Rightarrow> x | None \<Rightarrow> 0)]"
    "effective_flags tfhd run = [Some (sample_flags (sm_audio sm \<or> sm_keyframe sm))]"
    "tfhd_primitive_size tfhd + trun_primitive_size run \<le> 36"
proof -
  let ?tfhd = "tfhd_new track None None None None None" and ?run = "trun_new [sm_sample sm] None"
  let ?t = "traf_new ?tfhd (Some ?run) (Some (tfdt_new base)) :: DynBox Traf"
  have tf: "tfhd_wf ?tfhd" "tfhd_primitive_size ?tfhd = 8" "tfhd_track_id ?tfhd = track"
    by (simp_all add: tfhd_wf_def tfhd_validate_def tfhd_new_def has_flag_def flag_if_def tfhd_flag_defs full_header_ok_def
        full_header_new_def box_header_new_def tfhd_primitive_size_def full_header_size_def)
  have opt: "optimizable ?t ?run"
    using tf single_run_wf [OF fits]
    by (auto simp: optimizable_def traf_new_def trun_new_base exclusive_flags_def tfhd_new_def)
  have "trun_primitive_size ?run \<le> 28"
    by (simp add: trun_primitive_size_def trun_new_base full_header_size_def trun_sample_size_def)
  with tf fits show thesis
    by (rule_tac traf_optimize_result [OF opt], rule_tac that)
      (auto simp: media_traf_def traf_new_def trun_new_base effective_values_def effective_flags_def sample_fits_def tfhd_new_def
        or_default_def)
qed

text \<open>Where the data of a run starts does not matter for its validity and size.\<close>

lemma trun_offset_irrelevant:
  assumes "trun_wf run" "trun_data_offset run = Some x"
  shows "trun_wf (run\<lparr>trun_data_offset := Some y\<rparr>)" "box_size trun_box (run\<lparr>trun_data_offset := Some y\<rparr>) = box_size trun_box run"
    "effective_values tfhd (run\<lparr>trun_data_offset := Some y\<rparr>) = effective_values tfhd run"
    "effective_flags tfhd (run\<lparr>trun_data_offset := Some y\<rparr>) = effective_flags tfhd run"
  using assms by (simp_all add: trun_wf_def trun_validate_def box_size_def trun_box_def trun_primitive_size_def
      effective_values_def effective_flags_def split: list.split)

abbreviation fragment_traf :: "Tfhd \<Rightarrow> Trun \<Rightarrow> u64 \<Rightarrow> DynBox Traf" where
  "fragment_traf tfhd run base \<equiv> Traf (box_header_new (fourcc ''traf'')) tfhd (Some run) None None (Some (tfdt_new base)) []"

abbreviation fragment :: "u32 \<Rightarrow> Tfhd \<Rightarrow> Trun \<Rightarrow> u64 \<Rightarrow> DynBox Moof" where
  "fragment sq tfhd run base \<equiv> moof_new (mfhd_new sq) [fragment_traf tfhd run base]"

lemma small_box: "bt_primitive_size bt b \<le> n \<Longrightarrow> n < 1000 \<Longrightarrow> box_size bt b = bt_primitive_size bt b + 8"
  by (simp add: box_size_def Let_def u32_max_def)

lemma fragment_sizes:
  assumes "tfhd_primitive_size tfhd + trun_primitive_size run \<le> 36"
  shows "box_size tfhd_box tfhd = tfhd_primitive_size tfhd + 8" "box_size trun_box run = trun_primitive_size run + 8"
    "box_size tfdt_box (tfdt_new base) \<le> 20" "box_size mfhd_box (mfhd_new sq) = 16"
    "box_size (traf_box ops) (fragment_traf tfhd run base) \<le> 80"
    "box_size (moof_box ops) (fragment sq tfhd run base) \<le> 104"
proof -
  show tf: "box_size tfhd_box tfhd = tfhd_primitive_size tfhd + 8" "box_size trun_box run = trun_primitive_size run + 8"
    using assms small_box [of tfhd_box tfhd 36] small_box [of trun_box run 36] by (simp_all add: tfhd_box_def trun_box_def)
  show td: "box_size tfdt_box (tfdt_new base) \<le> 20" and m: "box_size mfhd_box (mfhd_new sq) = 16"
    by (simp_all add: box_size_def Let_def u32_max_def tfdt_box_def mfhd_box_def tfdt_primitive_size_def mfhd_primitive_size_def
        full_header_size_def)
  have "traf_primitive_size ops (fragment_traf tfhd run base) \<le> 72"
    using assms td by (simp add: traf_primitive_size_def tf)
  then show t: "box_size (traf_box ops) (fragment_traf tfhd run base) \<le> 80"
    using small_box [of "traf_box ops" "fragment_traf tfhd run base" 72] by (simp add: traf_box_def)
  have "moof_primitive_size ops (fragment sq tfhd run base) \<le> 96"
    using t m by (simp add: moof_primitive_size_def moof_new_def)
  then show "box_size (moof_box ops) (fragment sq tfhd run base) \<le> 104"
    using small_box [of "moof_box ops" "fragment sq tfhd run base" 96] by (simp add: moof_box_def)
qed

text \<open>A box is well-formed when it is small and its parts are.\<close>

lemma dyn_wf_SucI:
  "box_size tfhd_box tfhd < 2 ^ 64 \<Longrightarrow> tfhd_wf tfhd \<Longrightarrow> dyn_wf (Suc n) (BTfhd tfhd)"
  "box_size trun_box trun < 2 ^ 64 \<Longrightarrow> trun_wf trun \<Longrightarrow> dyn_wf (Suc n) (BTrun trun)"
  "box_size tfdt_box tfdt < 2 ^ 64 \<Longrightarrow> tfdt_wf tfdt \<Longrightarrow> dyn_wf (Suc n) (BTfdt tfdt)"
  "box_size mfhd_box mfhd < 2 ^ 64 \<Longrightarrow> mfhd_wf mfhd \<Longrightarrow> dyn_wf (Suc n) (BMfhd mfhd)"
  "box_size (traf_box (dyn_ops_at n)) traf < 2 ^ 64 \<Longrightarrow> traf_wf (dyn_wf n) traf \<Longrightarrow> dyn_wf (Suc n) (BTraf traf)"
  "box_size (moof_box (dyn_ops_at n)) moof < 2 ^ 64 \<Longrightarrow> moof_wf (dyn_wf n) moof \<Longrightarrow> dyn_wf (Suc n) (BMoof moof)"
  by (simp_all only: dyn_wf.simps tree_Suc DynBox.case simp_thms)

lemma fragment_wf:
  assumes "tfhd_wf tfhd" "trun_wf run" "tfhd_primitive_size tfhd + trun_primitive_size run \<le> 36"
  shows "dyn_wf 3 (BMoof (fragment sq tfhd run base))"
proof -
  have small: "x < 2 ^ 64" if "x \<le> 104" for x :: nat using that by simp
  note sizes = fragment_sizes [OF assms(3)]
  have leaves: "mfhd_wf (mfhd_new sq)" "tfdt_wf (tfdt_new base)"
    by (auto simp: mfhd_wf_def mfhd_validate_def mfhd_new_def tfdt_wf_def tfdt_validate_def tfdt_new_def full_header_ok_def
        full_header_new_def box_header_new_def not_less)
  have "dyn_wf (Suc 0) (BTfhd tfhd)" "dyn_wf (Suc 0) (BTrun run)" "dyn_wf (Suc 0) (BTfdt (tfdt_new base))"
    using assms leaves sizes(3) [of base] by (intro dyn_wf_SucI small; simp add: sizes(1,2))+
  then have "traf_wf (dyn_wf (Suc 0)) (fragment_traf tfhd run base)"
    by (simp add: traf_wf_def traf_children_def box_header_new_def others_def del: dyn_wf.simps)
  then have "dyn_wf (Suc (Suc 0)) (BTraf (fragment_traf tfhd run base))" "dyn_wf (Suc (Suc 0)) (BMfhd (mfhd_new sq))"
    using leaves sizes(5) by (intro dyn_wf_SucI small; simp add: sizes(4) order_trans [OF sizes(5)])+
  then have "moof_wf (dyn_wf (Suc (Suc 0))) (fragment sq tfhd run base)"
    by (simp add: moof_wf_def moof_children_def moof_new_def box_header_new_def others_def del: dyn_wf.simps)
  then show ?thesis unfolding numeral_3_eq_3 by (intro dyn_wf_SucI small sizes)
qed

text \<open>The track of a sample, and where it stands.\<close>

definition track_of :: "media_sample \<Rightarrow> u32" where
  "track_of sm = (if sm_audio sm then 2 else 1)"

definition track_time :: "Transmuxer \<Rightarrow> media_sample \<Rightarrow> u64" where
  "track_time tm sm = (if sm_audio sm then tm_audio_duration tm else tm_video_duration tm)"

definition sample_values :: "media_sample \<Rightarrow> u32 option \<times> u32 option \<times> i64" where
  "sample_values sm = (Some (sm_duration sm), Some (word_of_nat (length (sm_data sm))),
     case ts_composition_time_offset (sm_sample sm) of Some x \<Rightarrow> x | None \<Rightarrow> 0)"

lemma media_moof_result:
  assumes fits: "sample_fits sm"
  obtains tfhd run bs where "media_moof tm sm = Ok (fragment (tm_sequence_number tm) tfhd run (track_time tm sm))"
    "tree_ok 3 (BMoof (fragment (tm_sequence_number tm) tfhd run (track_time tm sm))) bs" "length bs \<le> 104"
    "trun_data_offset run = Some (word_of_nat (length bs + 8))" "tfhd_track_id tfhd = track_of sm"
    "effective_values tfhd run = [sample_values sm]"
    "effective_flags tfhd run = [Some (sample_flags (sm_audio sm \<or> sm_keyframe sm))]"
proof -
  define sq where "sq = tm_sequence_number tm"
  define base where "base = track_time tm sm"
  obtain tfhd run where r: "media_traf (track_of sm) base (sm_sample sm) = fragment_traf tfhd run base"
    "tfhd_wf tfhd" "trun_wf run" "tfhd_track_id tfhd = track_of sm" "trun_data_offset run = Some 0"
    "effective_values tfhd run = [sample_values sm]"
    "effective_flags tfhd run = [Some (sample_flags (sm_audio sm \<or> sm_keyframe sm))]"
    "tfhd_primitive_size tfhd + trun_primitive_size run \<le> 36"
    unfolding sample_values_def by (rule media_traf_result [OF fits])
  define n where "n = box_size (moof_box segment_ops) (fragment sq tfhd run base)"
  define run' where "run' = run\<lparr>trun_data_offset := Some (word_of_nat n + 8)\<rparr>"
  note run' = trun_offset_irrelevant [OF r(3,5), where y = "word_of_nat n + 8", folded run'_def]
  have n: "n \<le> 104" unfolding n_def by (rule fragment_sizes(6) [OF r(8)])
  have same: "box_size (moof_box segment_ops) (fragment sq tfhd run' base) = n"
    unfolding n_def box_size_def moof_box_def traf_box_def box_type.select_convs moof_primitive_size_def traf_primitive_size_def
    by (simp add: moof_new_def run'(2) [unfolded box_size_def])
  have "trun_primitive_size run' = trun_primitive_size run"
    by (simp add: run'_def trun_primitive_size_def)
  then have "dyn_wf 3 (BMoof (fragment sq tfhd run' base))" by (intro fragment_wf r run') (simp add: r)
  then obtain bs where bs: "tree_ok 3 (BMoof (fragment sq tfhd run' base)) bs" using boxes.wf_item by blast
  then have "tree_size (Suc segment_depth) (BMoof (fragment sq tfhd run' base)) = length bs"
    unfolding item_ok_def by (simp add: segment_depth_def)
  then have len: "length bs = n" using same by (simp only: tree_Suc)
  have "sint (word_of_nat n :: i32) = int n" using n by (simp add: signed_of_nat signed_take_bit_int_eq_self)
  then have "media_moof tm sm = Ok (fragment sq tfhd run' base)"
    using r(1) n by (simp add: media_moof_def Let_def base_def track_of_def track_time_def sq_def run'_def n_def set_data_offset_def moof_new_def split: if_splits)
  then show thesis
    using that [of tfhd run' bs] bs len n r run' by (simp add: sq_def base_def run'_def)
qed

section \<open>Media segments\<close>

text \<open>\<open>plays data sq base sm\<close>: the bytes are a fragment with sequence number \<open>sq\<close> and base time \<open>base\<close> on the track of the
  sample, followed by the data of the sample, at the offset that the run announces; the fragment gives the sample its
  duration, size, composition offset and flags.\<close>

definition plays :: "bytes \<Rightarrow> u32 \<Rightarrow> u64 \<Rightarrow> media_sample \<Rightarrow> bool" where
  "plays data sq base sm \<longleftrightarrow> (\<exists>tfhd run moof mdat off. data = moof @ mdat
     \<and> d_demux segment_ops (curs [] data) = (Ok (BMoof (fragment sq tfhd run base)), curs moof mdat)
     \<and> d_demux segment_ops (curs moof mdat) = (Ok (BMdat (mdat_new [sm_data sm])), curs data [])
     \<and> tfhd_track_id tfhd = track_of sm \<and> effective_values tfhd run = [sample_values sm]
     \<and> effective_flags tfhd run = [Some (sample_flags (sm_audio sm \<or> sm_keyframe sm))]
     \<and> trun_data_offset run = Some off \<and> drop (unat off) data = sm_data sm)"

lemma mdat_item:
  assumes "length data + 8 \<le> u32_max"
  shows "tree_ok 1 (BMdat (mdat_new [data])) (box_bytes (fourcc ''mdat'') data)"
    "length (box_bytes (fourcc ''mdat'') data) = length data + 8" "drop 8 (box_bytes (fourcc ''mdat'') data) = data"
    "box_mux mdat_box (mdat_new [data]) out = (Ok (), out @ box_bytes (fourcc ''mdat'') data)"
proof -
  let ?b = "mdat_new [data]"
  have wf: "mdat_wf ?b" by (simp add: mdat_wf_def mdat_new_def box_header_new_def)
  have body: "box_ok mdat_box ?b data"
    by (simp add: box_ok_def mdat_defs mdat_new_def box_header_new_def run_simps box_simps)
  show mux: "box_mux mdat_box ?b out = (Ok (), out @ box_bytes (fourcc ''mdat'') data)" for out
    using box_ok_mux [OF body] by (simp add: mdat_box_def)
  show "length (box_bytes (fourcc ''mdat'') data) = length data + 8" "drop 8 (box_bytes (fourcc ''mdat'') data) = data"
    using assms by (simp_all add: box_bytes_def Let_def)
  have "box_size mdat_box ?b < 2 ^ 64"
    using assms by (simp add: box_size_def Let_def mdat_box_def mdat_primitive_size_def mdat_new_def u32_max_def)
  then have "dyn_wf 1 (BMdat ?b)"
    unfolding One_nat_def dyn_wf.simps by (simp only: tree_Suc DynBox.case wf simp_thms)
  then obtain bs where bs: "tree_ok 1 (BMdat ?b) bs" using boxes.wf_item by blast
  then have "tree_mux (Suc 0) (BMdat ?b) [] = (Ok (), [] @ bs)" by (simp add: item_ok_def del: dyn_ops_at.simps)
  then have "bs = box_bytes (fourcc ''mdat'') data" by (simp only: tree_Suc mux) simp
  with bs show "tree_ok 1 (BMdat ?b) (box_bytes (fourcc ''mdat'') data)" by simp
qed

lemma write_media_plays:
  assumes fits: "sample_fits sm" and len: "length (sm_data sm) + 8 \<le> u32_max"
  shows "\<exists>data. write_media tm sm [] = (Ok (), data) \<and> plays data (tm_sequence_number tm) (track_time tm sm) sm"
proof -
  obtain tfhd run bs where m: "media_moof tm sm = Ok (fragment (tm_sequence_number tm) tfhd run (track_time tm sm))"
    "tree_ok 3 (BMoof (fragment (tm_sequence_number tm) tfhd run (track_time tm sm))) bs" "length bs \<le> 104"
    "trun_data_offset run = Some (word_of_nat (length bs + 8))" "tfhd_track_id tfhd = track_of sm"
    "effective_values tfhd run = [sample_values sm]"
    "effective_flags tfhd run = [Some (sample_flags (sm_audio sm \<or> sm_keyframe sm))]"
    by (rule media_moof_result [OF fits])
  let ?moof = "fragment (tm_sequence_number tm) tfhd run (track_time tm sm)"
  define mdat where "mdat = box_bytes (fourcc ''mdat'') (sm_data sm)"
  note md = mdat_item [OF len, folded mdat_def]
  have "tree_mux (Suc segment_depth) (BMoof ?moof) [] = (Ok (), bs)"
    using m(2) by (simp add: item_ok_def segment_depth_def del: dyn_ops_at.simps)
  then have "box_mux (moof_box segment_ops) ?moof [] = (Ok (), bs)" by (simp only: tree_Suc)
  then have wr: "write_media tm sm [] = (Ok (), bs @ mdat)"
    by (simp add: write_media_def m(1) md(4) bindE_def lift_result_def map_errE_def)
  have "tree_demux k (curs pre (bs @ post)) = (Ok (BMoof ?moof), curs (pre @ bs) post)" if "3 \<le> k" for k pre post
    using m(2) that unfolding item_ok_def by blast
  from this [of segment_depth "[]" mdat] have "d_demux segment_ops (curs [] (bs @ mdat)) = (Ok (BMoof ?moof), curs bs mdat)"
    by (simp add: segment_depth_def del: dyn_ops_at.simps)
  moreover have "tree_demux k (curs pre (mdat @ post)) = (Ok (BMdat (mdat_new [sm_data sm])), curs (pre @ mdat) post)"
    if "1 \<le> k" for k pre post
    using md(1) that unfolding item_ok_def by blast
  from this [of segment_depth bs "[]"]
  have "d_demux segment_ops (curs bs mdat) = (Ok (BMdat (mdat_new [sm_data sm])), curs (bs @ mdat) [])"
    by (simp add: segment_depth_def del: dyn_ops_at.simps)
  moreover have "unat (word_of_nat (length bs + 8) :: i32) = length bs + 8"
    using m(3) by (simp add: unat_of_nat take_bit_nat_eq_self del: of_nat_add)
  ultimately have "plays (bs @ mdat) (tm_sequence_number tm) (track_time tm sm) sm"
    unfolding plays_def using m(4-7) md(3)
    by (intro exI [of _ tfhd] exI [of _ run] exI [of _ bs] exI [of _ mdat] exI [of _ "word_of_nat (length bs + 8)"]) simp
  with wr show ?thesis by blast
qed

section \<open>One call\<close>

text \<open>The bytes of a tag that becomes a segment.\<close>

definition media_payload :: "FlvTag \<Rightarrow> bytes option" where
  "media_payload tag = (case ft_data tag of
       TagAudio a \<Rightarrow> (case ad_body a of AudioAac (AacRaw data) \<Rightarrow> Some data | _ \<Rightarrow> None)
     | TagVideo v \<Rightarrow> (case vt_body v of
           VideoAvc (AvcNalu _ data) \<Rightarrow> Some data
         | VideoEnhanced (EnhAv1 (Av1Raw data)) \<Rightarrow> Some data
         | VideoEnhanced (EnhHevc (HevcNalu _ data)) \<Rightarrow> Some data
         | _ \<Rightarrow> None)
     | _ \<Rightarrow> None)"

lemma tag_sample_payload:
  "map_option (map_ok sm_data) (tag_sample vs d tag) = map_option Ok (media_payload tag)"
  unfolding tag_sample_def media_payload_def Let_def trun_sample_defs
  by (simp add: video_sample_def split: FlvTagData.split AudioDataBody.split AacPacket.split VideoTagBody.split AvcPacket.split
        EnhancedPacket.split Av1Packet.split HevcPacket.split)

lemma tag_sample_None: "media_payload tag = None \<Longrightarrow> tag_sample vs d tag = None"
  using tag_sample_payload [of vs d tag] by simp

lemma tag_sample_Some:
  assumes "media_payload tag = Some data"
  obtains sm where "tag_sample vs d tag = Some (Ok sm)" "sm_data sm = data" "sample_fits sm"
proof -
  obtain r where r: "tag_sample vs d tag = Some r"
    using tag_sample_payload [of vs d tag] assms by (cases "tag_sample vs d tag") auto
  with tag_sample_fits obtain sm where "r = Ok sm" "sample_fits sm" by blast
  then show thesis using that tag_sample_payload [of vs d tag] assms r by simp
qed

text \<open>The state behind a segment.\<close>

definition advance :: "FlvTag \<Rightarrow> media_sample \<Rightarrow> Transmuxer \<Rightarrow> Transmuxer" where
  "advance tag sm tm =
     (let tm' = tm\<lparr>tm_sequence_number := tm_sequence_number tm + 1\<rparr>; d = track_time tm sm + ucast (sm_duration sm)
      in if sm_audio sm then tm'\<lparr>tm_audio_duration := d\<rparr>
         else tm'\<lparr>tm_video_duration := d, tm_last_video_timestamp := ft_timestamp_ms tag\<rparr>)"

definition segment_of :: "bytes \<Rightarrow> u64 \<Rightarrow> media_sample \<Rightarrow> MediaSegment" where
  "segment_of data base sm = \<lparr>ms_data = data, ms_ty = (if sm_audio sm then MediaAudio else MediaVideo),
     ms_keyframe = (\<not> sm_audio sm \<and> sm_keyframe sm), ms_timestamp = base\<rparr>"

definition counters_fit :: "Transmuxer \<Rightarrow> media_sample \<Rightarrow> bool" where
  "counters_fit tm sm \<longleftrightarrow> unat (tm_sequence_number tm) + 1 < 2 ^ 32
     \<and> unat (track_time tm sm) + unat (sm_duration sm) < 2 ^ 64"

lemma emit_segment_outcome:
  assumes "sample_fits sm" "length (sm_data sm) + 8 \<le> u32_max"
  shows "\<exists>data. plays data (tm_sequence_number tm) (track_time tm sm) sm \<and>
    (if counters_fit tm sm then emit_segment tag sm tm = (Ok (Some (Media (segment_of data (track_time tm sm) sm))), advance tag sm tm)
     else fst (emit_segment tag sm tm) = Panic)"
proof -
  obtain data where "write_media tm sm [] = (Ok (), data)" "plays data (tm_sequence_number tm) (track_time tm sm) sm"
    using write_media_plays [OF assms] by blast
  moreover have "unat (ucast (sm_duration sm) :: u64) = unat (sm_duration sm)"
    by (rule unat_ucast_up) simp
  ultimately show ?thesis
    by (intro exI [of _ data])
      (simp add: emit_segment_def counters_fit_def advance_def segment_of_def track_time_def Let_def not_less)
qed

lemma mux_loop_tags [simp]: "mux_loop vs tags (tm\<lparr>tm_tags := xs\<rparr>) = mux_loop vs tags tm"
  by (cases tags) simp_all

lemma mux_loop_skip:
  "\<forall>t \<in> set skipped. media_payload t = None \<Longrightarrow> mux_loop vs (skipped @ tags) tm = mux_loop vs tags tm"
  by (induction skipped) (simp_all add: Let_def tag_sample_None)

lemma mux_loop_emit:
  assumes "media_payload tag = Some data" "length data + 8 \<le> u32_max"
  obtains sm where "sm_data sm = data" "sample_fits sm"
    "tag_sample vs (frame_duration vs (tm_last_video_timestamp tm) (ft_timestamp_ms tag)) tag = Some (Ok sm)"
    "mux_loop vs (tag # rest) tm = emit_segment tag sm (tm\<lparr>tm_tags := rest\<rparr>)"
proof -
  obtain sm where sm: "tag_sample vs (frame_duration vs (tm_last_video_timestamp tm) (ft_timestamp_ms tag)) tag = Some (Ok sm)"
    "sm_data sm = data" "sample_fits sm"
    using tag_sample_Some [OF assms(1)] by blast
  then have "mux_loop vs (tag # rest) tm = emit_segment tag sm (tm\<lparr>tm_tags := rest\<rparr>)"
    by (simp add: bindE_def lift_result_def)
  with sm that show thesis by blast
qed

text \<open>C8: a call of \<^verbatim>\<open>mux\<close> skips tags that carry no media and turns the first audio or video tag into a media segment: a
  fragment box with the next sequence number and the track's base time, one sample with the duration, size, composition
  offset and flags of the tag, and a data offset at which the payload stands; the state advances by exactly that sample.\<close>

theorem transmux_media_segment:
  assumes "tm_settings tm = Some (vs, aus)" "tm_tags tm = skipped @ tag # rest" "\<forall>t \<in> set skipped. media_payload t = None"
    and "media_payload tag = Some payload" "length payload + 8 \<le> u32_max"
    and "unat (tm_sequence_number tm) + 1 < 2 ^ 32" "unat (tm_audio_duration tm) < 2 ^ 63" "unat (tm_video_duration tm) < 2 ^ 63"
  shows "\<exists>sm data. tag_sample vs (frame_duration vs (tm_last_video_timestamp tm) (ft_timestamp_ms tag)) tag = Some (Ok sm)
     \<and> sm_data sm = payload \<and> plays data (tm_sequence_number tm) (track_time tm sm) sm
     \<and> transmux_mux fx tm = (Ok (Some (Media (segment_of data (track_time tm sm) sm))), (advance tag sm tm)\<lparr>tm_tags := rest\<rparr>)"
proof -
  obtain sm where sm: "sm_data sm = payload" "sample_fits sm"
    "tag_sample vs (frame_duration vs (tm_last_video_timestamp tm) (ft_timestamp_ms tag)) tag = Some (Ok sm)"
    "mux_loop vs (tag # rest) tm = emit_segment tag sm (tm\<lparr>tm_tags := rest\<rparr>)"
    using assms(4,5) by (rule mux_loop_emit)
  have tt: "track_time (tm\<lparr>tm_tags := rest\<rparr>) sm = track_time tm sm" by (simp add: track_time_def)
  have "unat (sm_duration sm) < 2 ^ 32" using unsigned_less [of "sm_duration sm", where 'a = nat] by simp
  then have "counters_fit (tm\<lparr>tm_tags := rest\<rparr>) sm"
    using assms(6-8) by (simp add: counters_fit_def tt) (simp add: track_time_def)
  moreover have "advance tag sm (tm\<lparr>tm_tags := rest\<rparr>) = (advance tag sm tm)\<lparr>tm_tags := rest\<rparr>"
    by (simp add: advance_def Let_def track_time_def)
  moreover have "transmux_mux fx tm = emit_segment tag sm (tm\<lparr>tm_tags := rest\<rparr>)"
    using assms(1,2) mux_loop_skip [OF assms(3)] sm(4) by (simp add: transmux_mux_def del: mux_loop.simps)
  ultimately show ?thesis
    using emit_segment_outcome [OF sm(2), of "tm\<lparr>tm_tags := rest\<rparr>" tag] sm assms(5) tt by auto
qed

text \<open>An example: a fixed-point library that wraps nothing, the sequence headers of a small stream, its metadata and a frame.\<close>

definition example_fixed :: fixed_env where
  "example_fixed = \<lparr>from_num_i32 = \<lambda>n. if - (2 ^ 15) \<le> n \<and> n < 2 ^ 15 then Ok (word_of_int (n * 2 ^ 16)) else Panic,
     from_num_i16 = \<lambda>n. if - (2 ^ 7) \<le> n \<and> n < 2 ^ 7 then Ok (word_of_int (n * 2 ^ 8)) else Panic\<rparr>"

lemma example_fixed_ok: "fixed_env_ok example_fixed"
  by (simp add: fixed_env_ok_def example_fixed_def)

definition example_avc :: AVCDecoderConfigurationRecord where
  "example_avc = \<lparr>avc_configuration_version = 1, avc_profile_indication = 66, avc_profile_compatibility = 0, avc_level_indication = 30,
     avc_length_size_minus_one = 3, avc_sps = [example_sps_unit], avc_pps = [[0x68]], avc_extended_config = None\<rparr>"

definition example_tag :: "u32 \<Rightarrow> FlvTagData \<Rightarrow> FlvTag" where
  "example_tag timestamp data = \<lparr>ft_timestamp_ms = timestamp, ft_stream_id = 0, ft_data = data\<rparr>"

definition example_video :: "AvcPacket \<Rightarrow> FlvTagData" where
  "example_video packet = TagVideo \<lparr>vt_frame_type = FrameType_Keyframe, vt_body = VideoAvc packet\<rparr>"

definition example_metadata :: FlvTagData where
  "example_metadata = TagScriptData \<lparr>sc_name = fourcc ''onMetaData'',
     sc_data = [Amf0Object [(fourcc ''framerate'', Amf0Number 0x403E000000000000)]]\<rparr>"

definition example_audio :: "AacPacket \<Rightarrow> FlvTagData" where
  "example_audio packet = TagAudio \<lparr>ad_sound_rate = 3, ad_sound_size = SoundSize_Bit16, ad_sound_type = SoundType_Stereo,
     ad_body = AudioAac packet\<rparr>"

definition example_vs :: VideoSettings where
  "example_vs = \<lparr>vs_width = 16, vs_height = 16, vs_framerate = f64_of_int 30, vs_bitrate = 0, vs_codec = CodecAvc 66 0 30,
     vs_timescale = 30000\<rparr>"

definition example_aus :: AudioSettings where
  "example_aus = \<lparr>as_sample_rate = 44100, as_channels = 2, as_bitrate = 0, as_codec = CodecAac AacLowComplexity,
     as_timescale = 44100\<rparr>"

definition example_playing :: Transmuxer where
  "example_playing = \<lparr>tm_audio_duration = 0, tm_video_duration = 5, tm_sequence_number = 7, tm_last_video_timestamp = 0,
     tm_settings = Some (example_vs, example_aus),
     tm_tags = [example_tag 0 example_metadata, example_tag 40 (example_video (AvcNalu 0 [1, 2, 3]))]\<rparr>"

theorem transmux_media_segment_witness:
  "\<exists>sm data. sm_data sm = [1, 2, 3] \<and> sm_duration sm = 1000 \<and> plays data 7 5 sm
     \<and> transmux_mux example_fixed example_playing = (Ok (Some (Media (segment_of data 5 sm))),
         example_playing\<lparr>tm_sequence_number := 8, tm_video_duration := 1005, tm_last_video_timestamp := 40, tm_tags := []\<rparr>)"
proof -
  let ?tag = "example_tag 40 (example_video (AvcNalu 0 [1, 2, 3]))"
  have tags: "tm_settings example_playing = Some (example_vs, example_aus)"
    "tm_tags example_playing = [example_tag 0 example_metadata] @ ?tag # []" by (simp_all add: example_playing_def)
  have skip: "\<forall>t \<in> set [example_tag 0 example_metadata]. media_payload t = None"
    by (simp add: media_payload_def example_tag_def example_metadata_def)
  have payload: "media_payload ?tag = Some [1, 2, 3]" by (simp add: media_payload_def example_tag_def example_video_def)
  obtain sm data where *: "tag_sample example_vs (frame_duration example_vs (tm_last_video_timestamp example_playing)
      (ft_timestamp_ms ?tag)) ?tag = Some (Ok sm)" "sm_data sm = [1, 2, 3]"
    "plays data (tm_sequence_number example_playing) (track_time example_playing sm) sm"
    "transmux_mux example_fixed example_playing = (Ok (Some (Media (segment_of data (track_time example_playing sm) sm))),
      (advance ?tag sm example_playing)\<lparr>tm_tags := []\<rparr>)"
    using transmux_media_segment [OF tags skip payload, of example_fixed] by (auto simp: u32_max_def example_playing_def)
  have "sm_audio sm = False" "sm_duration sm = 1000"
    using *(1) by (auto simp: tag_sample_def frame_duration_def example_tag_def example_video_def example_playing_def avc_trun_sample_def
        video_sample_def)
  with * show ?thesis
    by (intro exI [of _ sm] exI [of _ data])
      (simp add: track_time_def advance_def Let_def example_playing_def example_tag_def)
qed

end
