(* ===== verification/Transmux_Init.thy ===== *)
theory Transmux_Init
  imports Transmux_Media
begin

text \<open>
  The initialisation segment of the transmuxer reads back as a brand box and a movie box with a video and an audio track whose
  sample descriptions are those of the sequence headers.
\<close>

section \<open>Boxes without samples\<close>

lemma box_wf_SucI:
  "box_size mvhd_box mvhd < 2 ^ 64 \<Longrightarrow> mvhd_wf mvhd \<Longrightarrow> dyn_wf (Suc n) (BMvhd mvhd)"
  "box_size tkhd_box tkhd < 2 ^ 64 \<Longrightarrow> tkhd_wf tkhd \<Longrightarrow> dyn_wf (Suc n) (BTkhd tkhd)"
  "box_size mdhd_box mdhd < 2 ^ 64 \<Longrightarrow> mdhd_wf mdhd \<Longrightarrow> dyn_wf (Suc n) (BMdhd mdhd)"
  "box_size hdlr_box hdlr < 2 ^ 64 \<Longrightarrow> hdlr_wf hdlr \<Longrightarrow> dyn_wf (Suc n) (BHdlr hdlr)"
  "box_size vmhd_box vmhd < 2 ^ 64 \<Longrightarrow> vmhd_wf vmhd \<Longrightarrow> dyn_wf (Suc n) (BVmhd vmhd)"
  "box_size smhd_box smhd < 2 ^ 64 \<Longrightarrow> smhd_wf smhd \<Longrightarrow> dyn_wf (Suc n) (BSmhd smhd)"
  "box_size url_box url < 2 ^ 64 \<Longrightarrow> url_wf url \<Longrightarrow> dyn_wf (Suc n) (BUrl url)"
  "box_size stts_box stts < 2 ^ 64 \<Longrightarrow> stts_wf stts \<Longrightarrow> dyn_wf (Suc n) (BStts stts)"
  "box_size stsc_box stsc < 2 ^ 64 \<Longrightarrow> stsc_wf stsc \<Longrightarrow> dyn_wf (Suc n) (BStsc stsc)"
  "box_size stco_box stco < 2 ^ 64 \<Longrightarrow> stco_wf stco \<Longrightarrow> dyn_wf (Suc n) (BStco stco)"
  "box_size stsz_box stsz < 2 ^ 64 \<Longrightarrow> stsz_wf stsz \<Longrightarrow> dyn_wf (Suc n) (BStsz stsz)"
  "box_size trex_box trex < 2 ^ 64 \<Longrightarrow> trex_wf trex \<Longrightarrow> dyn_wf (Suc n) (BTrex trex)"
  "box_size ftyp_box ftyp < 2 ^ 64 \<Longrightarrow> ftyp_wf ftyp \<Longrightarrow> dyn_wf (Suc n) (BFtyp ftyp)"
  "box_size avcc_box avcc < 2 ^ 64 \<Longrightarrow> avcc_wf avcc \<Longrightarrow> dyn_wf (Suc n) (BAvcC avcc)"
  "box_size hvcc_box hvcc < 2 ^ 64 \<Longrightarrow> hvcc_wf hvcc \<Longrightarrow> dyn_wf (Suc n) (BHvcC hvcc)"
  "box_size av1c_box av1c < 2 ^ 64 \<Longrightarrow> av1c_wf av1c \<Longrightarrow> dyn_wf (Suc n) (BAv1C av1c)"
  "box_size colr_box colr < 2 ^ 64 \<Longrightarrow> colr_wf colr \<Longrightarrow> dyn_wf (Suc n) (BColr colr)"
  "box_size pasp_box pasp < 2 ^ 64 \<Longrightarrow> pasp_wf pasp \<Longrightarrow> dyn_wf (Suc n) (BPasp pasp)"
  "box_size (esds_box (desc_ops_at n)) esds < 2 ^ 64 \<Longrightarrow> esds_wf n esds \<Longrightarrow> dyn_wf (Suc n) (BEsds esds)"
  "box_size (moov_box (dyn_ops_at n)) moov < 2 ^ 64 \<Longrightarrow> moov_wf (dyn_wf n) moov \<Longrightarrow> dyn_wf (Suc n) (BMoov moov)"
  "box_size (mvex_box (dyn_ops_at n)) mvex < 2 ^ 64 \<Longrightarrow> mvex_wf (dyn_wf n) mvex \<Longrightarrow> dyn_wf (Suc n) (BMvex mvex)"
  "box_size (trak_box (dyn_ops_at n)) trak < 2 ^ 64 \<Longrightarrow> trak_wf (dyn_wf n) trak \<Longrightarrow> dyn_wf (Suc n) (BTrak trak)"
  "box_size (mdia_box (dyn_ops_at n)) mdia < 2 ^ 64 \<Longrightarrow> mdia_wf (dyn_wf n) mdia \<Longrightarrow> dyn_wf (Suc n) (BMdia mdia)"
  "box_size (minf_box (dyn_ops_at n)) minf < 2 ^ 64 \<Longrightarrow> minf_wf (dyn_wf n) minf \<Longrightarrow> dyn_wf (Suc n) (BMinf minf)"
  "box_size (dinf_box (dyn_ops_at n)) dinf < 2 ^ 64 \<Longrightarrow> dinf_wf (dyn_wf n) dinf \<Longrightarrow> dyn_wf (Suc n) (BDinf dinf)"
  "box_size (dref_box (dyn_ops_at n)) dref < 2 ^ 64 \<Longrightarrow> dref_wf (dyn_wf n) dref \<Longrightarrow> dyn_wf (Suc n) (BDref dref)"
  "box_size (stbl_box (dyn_ops_at n)) stbl < 2 ^ 64 \<Longrightarrow> stbl_wf (dyn_wf n) stbl \<Longrightarrow> dyn_wf (Suc n) (BStbl stbl)"
  "box_size (stsd_box (dyn_ops_at n)) stsd < 2 ^ 64 \<Longrightarrow> stsd_wf (dyn_wf n) stsd \<Longrightarrow> dyn_wf (Suc n) (BStsd stsd)"
  "box_size (avc1_box (dyn_ops_at n)) avc1 < 2 ^ 64 \<Longrightarrow> avc1_wf (dyn_wf n) avc1 \<Longrightarrow> dyn_wf (Suc n) (BAvc1 avc1)"
  "box_size (hev1_box (dyn_ops_at n)) hev1 < 2 ^ 64 \<Longrightarrow> hev1_wf (dyn_wf n) hev1 \<Longrightarrow> dyn_wf (Suc n) (BHev1 hev1)"
  "box_size (av01_box (dyn_ops_at n)) av01 < 2 ^ 64 \<Longrightarrow> av01_wf (dyn_wf n) av01 \<Longrightarrow> dyn_wf (Suc n) (BAv01 av01)"
  "box_size (mp4a_box (dyn_ops_at n)) mp4a < 2 ^ 64 \<Longrightarrow> mp4a_wf (dyn_wf n) mp4a \<Longrightarrow> dyn_wf (Suc n) (BMp4a mp4a)"
  by (simp_all only: dyn_wf.simps tree_Suc DynBox.case simp_thms)

lemma box_size_le: "box_size bt b \<le> bt_primitive_size bt b + 16"
  by (simp add: box_size_def Let_def)

lemma small_box_eq: "bt_primitive_size bt b = n \<Longrightarrow> n < 1000 \<Longrightarrow> box_size bt b = n + 8"
  by (simp add: box_size_def Let_def u32_max_def)

lemma empty_tables:
  "stts_wf (stts_new [])" "stsc_wf (stsc_new [])" "stco_wf (stco_new [])" "stsz_wf (stsz_new 0 [])"
  "box_size stts_box (stts_new []) = 16" "box_size stsc_box (stsc_new []) = 16" "box_size stco_box (stco_new []) = 16"
  "box_size stsz_box (stsz_new 0 []) = 20"
  by (simp_all add: stts_defs stsc_defs stco_defs stsz_defs stts_new_def stsc_new_def stco_new_def stsz_new_def full_header_ok_def box_header_new_def
      box_size_def full_header_size_def full_header_new_def u32_max_def)

lemma media_headers:
  "vmhd_wf vmhd_new" "smhd_wf smhd_new" "trex_wf (trex_new t)" "mdhd_wf (mdhd_new 0 0 t 0)"
  "box_size vmhd_box vmhd_new = 20" "box_size smhd_box smhd_new = 16" "box_size trex_box (trex_new t) = 32"
  "box_size mdhd_box (mdhd_new 0 0 t 0) = 32"
  by (simp_all add: vmhd_defs smhd_defs trex_defs mdhd_defs vmhd_new_def smhd_new_def trex_new_def mdhd_new_def full_header_ok_def box_header_new_def
      box_size_def full_header_size_def full_header_new_def u32_max_def OP_COLOR_SIZE_def)

lemma handlers:
  "hdlr_wf (hdlr_new Vide (fourcc ''VideoHandler''))" "hdlr_wf (hdlr_new Soun (fourcc ''SoundHandler''))"
  "box_size hdlr_box (hdlr_new Vide (fourcc ''VideoHandler'')) = 45" "box_size hdlr_box (hdlr_new Soun (fourcc ''SoundHandler'')) = 45"
  by (simp_all add: hdlr_defs hdlr_new_def full_header_ok_def box_header_new_def handler_ok_def handler_from_def ascii_def fourcc_def
      box_size_def full_header_size_def full_header_new_def u32_max_def)

lemma data_reference:
  "dyn_wf (Suc (Suc (Suc n))) (BDinf dinf_new)" "box_size (dinf_box (dyn_ops_at (Suc (Suc k)))) dinf_new = 36"
proof -
  have url: "url_wf url_new" "box_size url_box url_new = 12"
    by (simp_all add: url_defs url_new_def full_header_ok_def box_header_new_def full_header_new_def box_size_def
        full_header_size_def u32_max_def)
  then have u: "dyn_wf (Suc n) (BUrl url_new)" by (intro box_wf_SucI) simp_all
  have dref: "box_size (dref_box (dyn_ops_at (Suc k))) dref_new = 28" for k
    using small_box_eq [of "dref_box (dyn_ops_at (Suc k))" dref_new 20] url(2)
    by (simp add: dref_box_def dref_primitive_size_def dref_new_def full_header_size_def tree_size_Suc del: dyn_ops_at.simps)
  have "dref_wf (dyn_wf (Suc n)) dref_new"
    using u by (simp add: dref_wf_def dref_validate_def dref_new_def full_header_ok_def full_header_new_def box_header_new_def
        u32_max_def del: dyn_wf.simps)
  then have d: "dyn_wf (Suc (Suc n)) (BDref dref_new)" by (intro box_wf_SucI) (simp_all add: dref del: dyn_ops_at.simps dyn_wf.simps)
  have dinf: "box_size (dinf_box (dyn_ops_at (Suc (Suc k)))) dinf_new = 36" for k
    using dref [of "Suc k"] small_box_eq [of "dinf_box (dyn_ops_at (Suc (Suc k)))" dinf_new 28]
    by (simp add: dinf_box_def dinf_new_def dinf_primitive_size_def del: dyn_ops_at.simps)
  have "dinf_wf (dyn_wf (Suc (Suc n))) dinf_new"
    using d by (simp add: dinf_wf_def dinf_children_def dinf_new_def box_header_new_def others_def del: dyn_wf.simps)
  then show "dyn_wf (Suc (Suc (Suc n))) (BDinf dinf_new)"
    by (intro box_wf_SucI) (simp_all add: dinf del: dyn_ops_at.simps dyn_wf.simps)
  show "box_size (dinf_box (dyn_ops_at (Suc (Suc k)))) dinf_new = 36" by (rule dinf)
qed

section \<open>A track\<close>

abbreviation init_stbl :: "DynBox \<Rightarrow> DynBox Stbl" where
  "init_stbl entry \<equiv> stbl_new (stsd_new [entry]) (stts_new []) (stsc_new []) (stco_new []) (Some (stsz_new 0 []))"

text \<open>The sizes of a track around a sample entry of at most \<open>E\<close> bytes.\<close>

lemma track_sizes:
  assumes "\<And>k. m \<le> k \<Longrightarrow> d_size (dyn_ops_at k) entry \<le> E" "Suc (Suc 0) \<le> k" "m \<le> k"
    and "case_option 0 (box_size vmhd_box) vmhd + case_option 0 (box_size smhd_box) smhd \<le> 20"
    and "box_size hdlr_box hdlr = 45" "box_size tkhd_box tkhd \<le> 120"
  shows "box_size (stsd_box (dyn_ops_at k)) (stsd_new [entry]) \<le> E + 24"
    "box_size (stbl_box (dyn_ops_at k)) (init_stbl entry) \<le> E + 108"
    "box_size (minf_box (dyn_ops_at k)) (minf_new (init_stbl entry) vmhd smhd) \<le> E + 180"
    "box_size (mdia_box (dyn_ops_at k)) (mdia_new (mdhd_new 0 0 t 0) hdlr (minf_new (init_stbl entry) vmhd smhd)) \<le> E + 273"
    "box_size (trak_box (dyn_ops_at k)) (trak_new tkhd None (mdia_new (mdhd_new 0 0 t 0) hdlr (minf_new (init_stbl entry) vmhd smhd))) \<le> E + 409"
proof -
  have dinf: "box_size (dinf_box (dyn_ops_at k)) dinf_new = 36"
  proof -
    obtain j where "k = Suc (Suc j)" using assms(2) by (metis Suc_le_D Suc_le_mono)
    then show ?thesis using data_reference(2) by simp
  qed
  show stsd: "box_size (stsd_box (dyn_ops_at k)) (stsd_new [entry]) \<le> E + 24"
    using box_size_le [of "stsd_box (dyn_ops_at k)" "stsd_new [entry]"] assms(1) [OF assms(3)]
    by (simp add: stsd_box_def stsd_primitive_size_def stsd_new_def full_header_size_def)
  show stbl: "box_size (stbl_box (dyn_ops_at k)) (init_stbl entry) \<le> E + 108"
    using box_size_le [of "stbl_box (dyn_ops_at k)" "init_stbl entry"] stsd
    by (simp add: stbl_box_def stbl_primitive_size_def stbl_new_def empty_tables)
  show minf: "box_size (minf_box (dyn_ops_at k)) (minf_new (init_stbl entry) vmhd smhd) \<le> E + 180"
    using box_size_le [of "minf_box (dyn_ops_at k)" "minf_new (init_stbl entry) vmhd smhd"] stbl assms(4) dinf
    by (simp add: minf_box_def minf_primitive_size_def minf_new_def)
  show mdia: "box_size (mdia_box (dyn_ops_at k)) (mdia_new (mdhd_new 0 0 t 0) hdlr (minf_new (init_stbl entry) vmhd smhd)) \<le> E + 273"
    using box_size_le [of "mdia_box (dyn_ops_at k)" "mdia_new (mdhd_new 0 0 t 0) hdlr (minf_new (init_stbl entry) vmhd smhd)"] minf assms(5)
    by (simp add: mdia_box_def mdia_primitive_size_def mdia_new_def media_headers)
  show "box_size (trak_box (dyn_ops_at k)) (trak_new tkhd None (mdia_new (mdhd_new 0 0 t 0) hdlr (minf_new (init_stbl entry) vmhd smhd))) \<le> E + 409"
    using box_size_le [of "trak_box (dyn_ops_at k)" "trak_new tkhd None (mdia_new (mdhd_new 0 0 t 0) hdlr (minf_new (init_stbl entry) vmhd smhd))"]
      mdia assms(6)
    by (simp add: trak_box_def trak_primitive_size_def trak_new_def)
qed

lemma track_wf:
  assumes entry: "dyn_wf (Suc n) entry" and E: "\<And>k. Suc n \<le> k \<Longrightarrow> d_size (dyn_ops_at k) entry \<le> E" "E < 2 ^ 40" and n: "1 \<le> n"
    and media: "case_option True vmhd_wf vmhd" "case_option True smhd_wf smhd"
      "case_option 0 (box_size vmhd_box) vmhd + case_option 0 (box_size smhd_box) smhd \<le> 20"
    and hdlr: "hdlr_wf hdlr" "box_size hdlr_box hdlr = 45" and tkhd: "tkhd_wf tkhd" "box_size tkhd_box tkhd \<le> 120"
  shows "dyn_wf (n + 6) (BTrak (trak_new tkhd None (mdia_new (mdhd_new 0 0 t 0) hdlr (minf_new (init_stbl entry) vmhd smhd))))"
proof -
  let ?minf = "minf_new (init_stbl entry) vmhd smhd"
  let ?mdia = "mdia_new (mdhd_new 0 0 t 0) hdlr ?minf"
  let ?trak = "trak_new tkhd None ?mdia"
  have n2: "Suc (Suc 0) \<le> Suc n" using n by simp
  note sizes = track_sizes [OF E(1) _ _ media(3) hdlr(2) tkhd(2)]
  have small: "x < 2 ^ 64" if "x \<le> E + c" "c \<le> 409" for x c using that E(2) by simp
  define m where "m = Suc n"
  have m: "Suc n \<le> m" "Suc (Suc 0) \<le> m" "dyn_wf m entry" using n2 entry by (simp_all add: m_def)
  have leaves: "dyn_wf (Suc k) (BStts (stts_new []))" "dyn_wf (Suc k) (BStsc (stsc_new []))" "dyn_wf (Suc k) (BStco (stco_new []))"
    "dyn_wf (Suc k) (BStsz (stsz_new 0 []))" "dyn_wf (Suc k) (BMdhd (mdhd_new 0 0 t 0))" "dyn_wf (Suc k) (BHdlr hdlr)"
    "dyn_wf (Suc k) (BTkhd tkhd)" for k
    using hdlr tkhd by (intro box_wf_SucI; simp add: empty_tables media_headers)+
  have "stsd_wf (dyn_wf m) (stsd_new [entry])"
    using m(3) by (simp add: stsd_wf_def stsd_validate_def stsd_new_def full_header_ok_def full_header_new_def box_header_new_def u32_max_def)
  then have "dyn_wf (Suc m) (BStsd (stsd_new [entry]))"
    using m by (intro box_wf_SucI small [OF sizes(1) [of m]]) simp_all
  then have "stbl_wf (dyn_wf (Suc m)) (init_stbl entry)"
    using leaves by (simp add: stbl_wf_def stbl_children_def stbl_new_def box_header_new_def others_def del: dyn_wf.simps)
  then have stbl: "dyn_wf (Suc (Suc m)) (BStbl (init_stbl entry))"
    using m by (intro box_wf_SucI small [OF sizes(2) [of m]]) simp_all
  have "dyn_wf (Suc (Suc m)) (BDinf dinf_new)" unfolding m_def by (rule data_reference)
  moreover have "list_all (dyn_wf (Suc (Suc m))) (map BVmhd (opt_list vmhd) @ map BSmhd (opt_list smhd))"
    using media by (auto intro!: box_wf_SucI split: option.splits)
  ultimately have "minf_wf (dyn_wf (Suc (Suc m))) ?minf"
    using stbl by (simp add: minf_wf_def minf_children_def minf_new_def box_header_new_def others_def del: dyn_wf.simps)
  then have "dyn_wf (Suc (Suc (Suc m))) (BMinf ?minf)"
    using m by (intro box_wf_SucI small [OF sizes(3) [of m]]) simp_all
  then have "mdia_wf (dyn_wf (Suc (Suc (Suc m)))) ?mdia"
    using leaves by (simp add: mdia_wf_def mdia_children_def mdia_new_def box_header_new_def others_def del: dyn_wf.simps)
  then have "dyn_wf (Suc (Suc (Suc (Suc m)))) (BMdia ?mdia)"
    using m by (intro box_wf_SucI small [OF sizes(4) [of m]]) simp_all
  then have "trak_wf (dyn_wf (Suc (Suc (Suc (Suc m))))) ?trak"
    using leaves by (simp add: trak_wf_def trak_children_def trak_new_def box_header_new_def others_def del: dyn_wf.simps)
  then have "dyn_wf (Suc (Suc (Suc (Suc (Suc m))))) (BTrak ?trak)"
    using m by (intro box_wf_SucI small [OF sizes(5) [of m]]) simp_all
  then show ?thesis by (simp add: m_def eval_nat_numeral del: dyn_wf.simps)
qed

section \<open>The movie box\<close>

lemma header_sizes: "box_size tkhd_box tkhd \<le> 120" "box_size mvhd_box mvhd \<le> 136"
  using box_size_le [of tkhd_box tkhd] box_size_le [of mvhd_box mvhd]
  by (auto simp: tkhd_box_def mvhd_box_def tkhd_primitive_size_def mvhd_primitive_size_def full_header_size_def split: if_splits)

text \<open>A sample entry the segment can hold.\<close>

definition entry_fits :: "DynBox \<Rightarrow> bool" where
  "entry_fits entry \<longleftrightarrow> dyn_wf 5 entry \<and> tree_size 5 entry < 2 ^ 39"

lemma entry_size:
  assumes "entry_fits entry" "5 \<le> k"
  shows "d_size (dyn_ops_at k) entry = tree_size 5 entry"
proof -
  obtain bs where "tree_ok 5 entry bs" using assms(1) boxes.wf_item unfolding entry_fits_def by blast
  then show ?thesis using assms(2) unfolding item_ok_def by simp
qed

lemma init_track_wf:
  assumes "entry_fits entry" "tkhd_wf tkhd"
  shows "dyn_wf 10 (BTrak (init_track tkhd t Vide ''VideoHandler'' entry (Some vmhd_new) None))"
    "dyn_wf 10 (BTrak (init_track tkhd t Soun ''SoundHandler'' entry None (Some smhd_new)))"
    "10 \<le> k \<Longrightarrow> box_size (trak_box (dyn_ops_at k)) (init_track tkhd t Vide ''VideoHandler'' entry (Some vmhd_new) None) < 2 ^ 40"
    "10 \<le> k \<Longrightarrow> box_size (trak_box (dyn_ops_at k)) (init_track tkhd t Soun ''SoundHandler'' entry None (Some smhd_new)) < 2 ^ 40"
proof -
  let ?E = "tree_size 5 entry"
  have E: "d_size (dyn_ops_at k) entry \<le> ?E" if "Suc 4 \<le> k" for k
    using entry_size [OF assms(1), of k] that by linarith
  have E39: "?E < 2 ^ 39" using assms(1) unfolding entry_fits_def by blast
  have "(5 :: nat) = Suc 4" by simp
  then have entry: "dyn_wf (Suc 4) entry" using assms(1) unfolding entry_fits_def by metis
  from E39 have E40: "?E < 2 ^ 40" by simp
  have v: "dyn_wf (4 + 6) (BTrak (init_track tkhd t Vide ''VideoHandler'' entry (Some vmhd_new) None))"
    unfolding init_track_def using assms(2)
    by (intro track_wf [OF entry E E40]) (simp_all add: handlers media_headers header_sizes)
  have a: "dyn_wf (4 + 6) (BTrak (init_track tkhd t Soun ''SoundHandler'' entry None (Some smhd_new)))"
    unfolding init_track_def using assms(2)
    by (intro track_wf [OF entry E E40]) (simp_all add: handlers media_headers header_sizes)
  have ten: "4 + 6 = (10 :: nat)" by simp
  from v a show "dyn_wf 10 (BTrak (init_track tkhd t Vide ''VideoHandler'' entry (Some vmhd_new) None))"
    "dyn_wf 10 (BTrak (init_track tkhd t Soun ''SoundHandler'' entry None (Some smhd_new)))"
    unfolding ten by this+
  have small: "x < 2 ^ 40" if "x \<le> ?E + 409" for x using that E39 by simp
  assume k: "10 \<le> k"
  show "box_size (trak_box (dyn_ops_at k)) (init_track tkhd t Vide ''VideoHandler'' entry (Some vmhd_new) None) < 2 ^ 40"
    "box_size (trak_box (dyn_ops_at k)) (init_track tkhd t Soun ''SoundHandler'' entry None (Some smhd_new)) < 2 ^ 40"
    unfolding init_track_def using k
    by (intro small track_sizes(5) [where m = "Suc 4", OF E]; simp add: handlers media_headers header_sizes)+
qed

lemma init_moov_result:
  assumes fx: "fixed_env_ok fx" and wh: "unat w < 2 ^ 15" "unat h < 2 ^ 15" and entries: "entry_fits ventry" "entry_fits aentry"
  obtains moov mvhd vt aut where "init_moov fx w h vts ventry ats aentry = Ok moov" "dyn_wf 11 (BMoov moov)"
    "moov = moov_new mvhd [init_track vt vts Vide ''VideoHandler'' ventry (Some vmhd_new) None,
        init_track aut ats Soun ''SoundHandler'' aentry None (Some smhd_new)] (Some (mvex_new [trex_new 1, trex_new 2] None))"
    "tkhd_track_id vt = 1" "tkhd_track_id aut = 2"
proof -
  obtain mvhd where mvhd: "mvhd_new fx 0 0 1000 0 1 = Ok mvhd" "mvhd_wf mvhd" using mvhd_new_wf [OF fx, where c = 0 and m = 0 and d = 0 and t = 1000 and n = 1] by auto
  obtain vt where vt: "tkhd_new fx 0 0 1 0 (Some (w, h)) = Ok vt" "tkhd_wf vt" "tkhd_track_id vt = 1"
    using tkhd_new_wf [OF fx, where t = 1 and wh = "Some (w, h)" and c = 0 and m = 0 and d = 0] wh by auto
  obtain aut where aut: "tkhd_new fx 0 0 2 0 None = Ok aut" "tkhd_wf aut" "tkhd_track_id aut = 2"
    using tkhd_new_wf [OF fx, where t = 2 and wh = None and c = 0 and m = 0 and d = 0] by auto
  let ?mvex = "mvex_new [trex_new 1, trex_new 2] None :: DynBox Mvex"
  let ?traks = "[init_track vt vts Vide ''VideoHandler'' ventry (Some vmhd_new) None,
        init_track aut ats Soun ''SoundHandler'' aentry None (Some smhd_new)]"
  let ?moov = "moov_new mvhd ?traks (Some ?mvex)"
  have mvex: "box_size (mvex_box (dyn_ops_at k)) ?mvex = 72" for k
    using small_box_eq [of "mvex_box (dyn_ops_at k)" ?mvex 64]
    by (simp add: mvex_box_def mvex_primitive_size_def mvex_new_def media_headers)
  have ten: "Suc 9 = 10" "Suc 10 = 11" "Suc 8 = 9" by simp_all
  have "dyn_wf (Suc 8) (BTrex (trex_new i))" for i by (intro box_wf_SucI) (simp_all add: media_headers)
  then have "mvex_wf (dyn_wf 9) ?mvex"
    unfolding ten by (simp add: mvex_wf_def mvex_children_def mvex_new_def box_header_new_def others_def del: dyn_wf.simps)
  then have "dyn_wf (Suc 9) (BMvex ?mvex)" by (intro box_wf_SucI) (simp_all add: mvex del: dyn_wf.simps dyn_ops_at.simps)
  moreover have "dyn_wf (Suc 9) (BMvhd mvhd)"
    using mvhd header_sizes(2) [of mvhd] by (intro box_wf_SucI) simp_all
  ultimately have "moov_wf (dyn_wf 10) ?moov"
    unfolding ten using init_track_wf(1) [OF entries(1) vt(2)] init_track_wf(2) [OF entries(2) aut(2)]
    by (simp add: moov_wf_def moov_children_def moov_new_def box_header_new_def others_def del: dyn_wf.simps)
  moreover have "box_size (moov_box (dyn_ops_at 10)) ?moov < 2 ^ 64"
    using box_size_le [of "moov_box (dyn_ops_at 10)" ?moov] header_sizes(2) [of mvhd] mvex [of 10]
      init_track_wf(3) [OF entries(1) vt(2), of 10 vts] init_track_wf(4) [OF entries(2) aut(2), of 10 ats]
    by (simp add: moov_box_def moov_primitive_size_def moov_new_def del: dyn_ops_at.simps)
  ultimately have "dyn_wf 11 (BMoov ?moov)" using box_wf_SucI(20) [of 10 ?moov] unfolding ten by blast
  with mvhd vt aut show thesis using that [of ?moov mvhd vt aut] by (simp add: init_moov_def)
qed

section \<open>The sample entries of the codecs\<close>

lemma rbind_Ok: "rbind r f = Ok y \<longleftrightarrow> (\<exists>x. r = Ok x \<and> f x = Ok y)"
  by (cases r) simp_all

lemma map_err_Ok: "map_err g r = Ok x \<longleftrightarrow> r = Ok x"
  by (cases r) simp_all

lemma aac_esds_wf:
  assumes "length data \<le> 100"
  shows "esds_wf (Suc (Suc (Suc k))) (aac_esds data)" "box_size (esds_box (desc_ops_at j)) (aac_esds data) \<le> 160"
proof -
  let ?dsi = "\<lparr>dsi_header = descriptor_header_new DecSpecificInfoTag, dsi_data = data\<rparr>"
  let ?dcd = "decoder_config_new 0x40 0x05 0 0 (Some ?dsi) :: DynDescriptor DecoderConfigDescriptor"
  let ?esd = "es_new 2 0 (Some 0) None (Some 0) (Some ?dcd) None :: DynDescriptor EsDescriptor"
  have dsi: "desc_size dsi_type ?dsi = length data + 2"
    using assms small_size(1) [of "length data"] by (simp add: desc_size_def dsi_type_def)
  have dcd: "dcd_primitive_size ops ?dcd = length data + 15" for ops
    by (simp add: dcd_primitive_size_def decoder_config_new_def dsi)
  then have dcd': "desc_size (dcd_type ops) ?dcd = length data + 17" for ops
    using assms small_size(1) [of "length data + 15"] by (simp add: desc_size_def dcd_type_def)
  have esd: "esd_primitive_size ops ?esd = length data + 24" for ops
    by (simp add: esd_primitive_size_def es_new_def dcd')
  have d1: "desc_wf (Suc k) (DecoderSpecificInfoD ?dsi)" for k
    using assms by (simp add: dsi_wf_def descriptor_header_new_def)
  have d2: "desc_wf (Suc (Suc k)) (DecoderConfigD ?dcd)" for k
    using d1 [of k] assms by (simp add: dcd del: desc_wf.simps(4))
      (simp add: dcd_fields_ok_def dcd_children_def decoder_config_new_def descriptor_header_new_def others_def)
  have "desc_wf (Suc (Suc (Suc k))) (EsD ?esd)" for k
    using d2 [of k] assms by (simp add: esd del: desc_wf.simps(3))
      (simp add: esd_fields_ok_def esd_children_def es_new_def descriptor_header_new_def others_def)
  then show "esds_wf (Suc (Suc (Suc k))) (aac_esds data)"
    by (simp add: esds_wf_def aac_esds_def esds_new_def full_header_ok_def full_header_new_def box_header_new_def del: desc_wf.simps)
  have "desc_size (esd_type ops) ?esd = length data + 26" for ops
    using assms small_size(1) [of "length data + 24"] by (simp add: desc_size_def esd_type_def esd)
  then show "box_size (esds_box (desc_ops_at j)) (aac_esds data) \<le> 160"
    using box_size_le [of "esds_box (desc_ops_at j)" "aac_esds data"] assms
    by (simp add: esds_box_def esds_primitive_size_def aac_esds_def esds_new_def full_header_size_def)
qed

lemma aac_entry_fits:
  assumes "aac_stsd_entry ss st data = Ok (entry, config)" "length data \<le> 100" "asc_sampling_frequency config < 2 ^ 16"
  shows "entry_fits entry"
proof -
  from assms(1) obtain ch sz where entry: "entry = BMp4a (mp4a_new (sample_entry_new (audio_sample_entry_new ch sz (asc_sampling_frequency config)))
      (aac_esds data) None)"
    by (auto simp: aac_stsd_entry_def rbind_Ok)
  let ?mp4a = "mp4a_new (sample_entry_new (audio_sample_entry_new ch sz (asc_sampling_frequency config))) (aac_esds data) None :: DynBox Mp4a"
  have five: "(5 :: nat) = Suc 4" "(4 :: nat) = Suc 3" "(3 :: nat) = Suc (Suc (Suc 0))" by simp_all
  have "esds_wf 3 (aac_esds data)" unfolding five(3) by (rule aac_esds_wf(1) [OF assms(2)])
  moreover have "box_size (esds_box (desc_ops_at 3)) (aac_esds data) < 2 ^ 64"
    by (rule order_le_less_trans [OF aac_esds_wf(2) [OF assms(2)]]) simp
  ultimately have "dyn_wf (Suc 3) (BEsds (aac_esds data))" by (intro box_wf_SucI)
  then have wf: "mp4a_wf (dyn_wf 4) ?mp4a"
    using assms(3) unfolding five(2)
    by (simp add: mp4a_wf_def mp4a_children_def mp4a_new_def box_header_new_def others_def audio_entry_wf_def sample_entry_validate_def
        audio_ext_def ase_validate_def sample_entry_new_def audio_sample_entry_new_def del: dyn_wf.simps)
  have sz: "box_size (mp4a_box (dyn_ops_at k)) ?mp4a \<le> 300" for k
    using box_size_le [of "mp4a_box (dyn_ops_at k)" ?mp4a] aac_esds_wf(2) [OF assms(2), of k]
    by (simp add: mp4a_box_def mp4a_primitive_size_def mp4a_new_def sample_entry_size_def audio_ext_def del: dyn_ops_at.simps)
  have "dyn_wf (Suc 4) (BMp4a ?mp4a)"
    using wf order_le_less_trans [OF sz] by (intro box_wf_SucI) simp_all
  moreover have "tree_size (Suc 4) (BMp4a ?mp4a) < 2 ^ 39"
    unfolding tree_Suc by (rule order_le_less_trans [OF sz]) simp
  ultimately show ?thesis unfolding entry_fits_def entry five(1) by blast
qed

text \<open>What the three video codecs share.\<close>

definition nclx_option :: "Colr option \<Rightarrow> bool" where
  "nclx_option colr \<longleftrightarrow> (\<forall>c. colr = Some c \<longrightarrow> (\<exists>p t m f. c = colr_new (Nclx p t m f)))"

lemma nclx_options [simp]: "nclx_option (map_option nclx c)" "nclx_option (Some (av1_nclx d))"
  by (auto simp: nclx_option_def nclx_def av1_nclx_def)

abbreviation visual_entry :: "u16 \<Rightarrow> u16 \<Rightarrow> Colr option \<Rightarrow> VisualSampleEntry SampleEntry" where
  "visual_entry w h colr \<equiv> sample_entry_new (visual_sample_entry_new w h colr)"

lemma visual_parts:
  assumes "nclx_option colr"
  shows "visual_entry_wf (visual_entry w h colr)" "vse_clap (se_extension (visual_entry w h colr)) = None"
    "vse_pasp (se_extension (visual_entry w h colr)) = Some pasp_new" "vse_colr (se_extension (visual_entry w h colr)) = colr"
    "dyn_wf (Suc n) (BPasp pasp_new)" "list_all (dyn_wf (Suc n)) (map BColr (opt_list colr))"
    "sample_entry_size visual_ext (visual_entry w h colr) \<le> 200"
proof -
  have pasp: "pasp_wf pasp_new" "box_size pasp_box pasp_new \<le> 30"
    using box_size_le [of pasp_box pasp_new] by (simp_all add: pasp_defs pasp_new_def box_header_new_def)
  have colr: "colr_wf c \<and> box_size colr_box c \<le> 30" if "colr = Some c" for c
    using assms that box_size_le [of colr_box c] by (auto simp: nclx_option_def colr_defs colr_new_def box_header_new_def)
  show "visual_entry_wf (visual_entry w h colr)" "vse_clap (se_extension (visual_entry w h colr)) = None"
    "vse_pasp (se_extension (visual_entry w h colr)) = Some pasp_new" "vse_colr (se_extension (visual_entry w h colr)) = colr"
    by (simp_all add: visual_entry_wf_def sample_entry_validate_def visual_ext_def vse_validate_def sample_entry_new_def
        visual_sample_entry_new_def)
  show "dyn_wf (Suc n) (BPasp pasp_new)" using pasp by (intro box_wf_SucI) simp_all
  show "list_all (dyn_wf (Suc n)) (map BColr (opt_list colr))"
  proof (cases colr)
    case (Some c)
    then have "dyn_wf (Suc n) (BColr c)" using colr by (intro box_wf_SucI) fastforce+
    with Some show ?thesis by simp
  qed simp
  have "vse_size (visual_sample_entry_new w h colr) \<le> 190"
    using pasp(2) colr by (cases colr) (simp_all add: vse_size_def visual_sample_entry_new_def)
  then show "sample_entry_size visual_ext (visual_entry w h colr) \<le> 200"
    by (simp add: sample_entry_size_def visual_ext_def sample_entry_new_def)
qed

text \<open>The video sequence headers whose configuration records survive the round trip.\<close>

definition header_fits :: "VideoSequenceHeader \<Rightarrow> bool" where
  "header_fits header = (case header of
       SeqAvc c \<Rightarrow> avc_ok c \<and> avc_size c < 2 ^ 38
     | SeqHevc c \<Rightarrow> hevc_ok c \<and> hevc_size c < 2 ^ 38
     | SeqAv1 c \<Rightarrow> av1_ok c \<and> av1_hdr_wcg_idc c = 0 \<and> av1_size c < 2 ^ 38)"

lemma config_boxes:
  "avc_ok a \<Longrightarrow> avc_size a < 2 ^ 38 \<Longrightarrow> dyn_wf (Suc n) (BAvcC (avcc_new a)) \<and> box_size avcc_box (avcc_new a) < 2 ^ 38 + 16"
  "hevc_ok h \<Longrightarrow> hevc_size h < 2 ^ 38 \<Longrightarrow> dyn_wf (Suc n) (BHvcC (hvcc_new h)) \<and> box_size hvcc_box (hvcc_new h) < 2 ^ 38 + 16"
  "av1_ok v \<Longrightarrow> av1_hdr_wcg_idc v = 0 \<Longrightarrow> av1_size v < 2 ^ 38 \<Longrightarrow>
     dyn_wf (Suc n) (BAv1C (av1c_new v)) \<and> box_size av1c_box (av1c_new v) < 2 ^ 38 + 16"
  using box_size_le [of avcc_box "avcc_new a"] box_size_le [of hvcc_box "hvcc_new h"] box_size_le [of av1c_box "av1c_new v"]
  by (auto intro!: box_wf_SucI simp: avcc_box_def avcc_new_def avcc_wf_def hvcc_box_def hvcc_new_def hvcc_wf_def av1c_box_def
      av1c_new_def av1c_wf_def box_header_new_def)

lemma coded_entry_fits:
  assumes "nclx_option colr"
  shows "avc_ok a \<Longrightarrow> avc_size a < 2 ^ 38 \<Longrightarrow> entry_fits (BAvc1 (avc1_new (visual_entry w h colr) (avcc_new a) None))"
    "hevc_ok c \<Longrightarrow> hevc_size c < 2 ^ 38 \<Longrightarrow> entry_fits (BHev1 (hev1_new (visual_entry w h colr) (hvcc_new c) None))"
    "av1_ok v \<Longrightarrow> av1_hdr_wcg_idc v = 0 \<Longrightarrow> av1_size v < 2 ^ 38 \<Longrightarrow>
       entry_fits (BAv01 (av01_new (visual_entry w h colr) (av1c_new v) None))"
proof -
  note parts = visual_parts [OF assms]
  have five: "(5 :: nat) = Suc 4" "(4 :: nat) = Suc 3" by simp_all
  have fits: "entry_fits x" if "dyn_wf (Suc 4) x" "tree_size (Suc 4) x < 2 ^ 39" for x
    unfolding entry_fits_def five(1) using that by blast
  note shared = parts(1-4) [of w h] parts(5,6) [of 3] parts(7) [of w h]
  show "entry_fits (BAvc1 (avc1_new (visual_entry w h colr) (avcc_new a) None))" if "avc_ok a" "avc_size a < 2 ^ 38"
  proof -
    note c = config_boxes(1) [OF that, of 3]
    let ?x = "avc1_new (visual_entry w h colr) (avcc_new a) None :: DynBox Avc1"
    have "avc1_wf (dyn_wf (Suc 3)) ?x"
      using c shared by (simp add: avc1_wf_def avc1_children_def avc1_new_def box_header_new_def others_def del: dyn_wf.simps)
    moreover have sz: "box_size (avc1_box (dyn_ops_at k)) ?x < 2 ^ 39" for k
      using box_size_le [of "avc1_box (dyn_ops_at k)" ?x] c shared
      by (simp add: avc1_box_def avc1_primitive_size_def avc1_new_def del: dyn_ops_at.simps)
    moreover have "box_size (avc1_box (dyn_ops_at k)) ?x < 2 ^ 64" for k by (rule less_trans [OF sz]) simp
    ultimately show ?thesis by (intro fits box_wf_SucI) (simp_all only: tree_Suc five(2))
  qed
  show "entry_fits (BHev1 (hev1_new (visual_entry w h colr) (hvcc_new c) None))" if "hevc_ok c" "hevc_size c < 2 ^ 38"
  proof -
    note c = config_boxes(2) [OF that, of 3]
    let ?x = "hev1_new (visual_entry w h colr) (hvcc_new c) None :: DynBox Hev1"
    have "hev1_wf (dyn_wf (Suc 3)) ?x"
      using c shared by (simp add: hev1_wf_def hev1_children_def hev1_new_def box_header_new_def others_def del: dyn_wf.simps)
    moreover have sz: "box_size (hev1_box (dyn_ops_at k)) ?x < 2 ^ 39" for k
      using box_size_le [of "hev1_box (dyn_ops_at k)" ?x] c shared
      by (simp add: hev1_box_def hev1_primitive_size_def hev1_new_def del: dyn_ops_at.simps)
    moreover have "box_size (hev1_box (dyn_ops_at k)) ?x < 2 ^ 64" for k by (rule less_trans [OF sz]) simp
    ultimately show ?thesis by (intro fits box_wf_SucI) (simp_all only: tree_Suc five(2))
  qed
  show "entry_fits (BAv01 (av01_new (visual_entry w h colr) (av1c_new v) None))" if "av1_ok v" "av1_hdr_wcg_idc v = 0" "av1_size v < 2 ^ 38"
  proof -
    note c = config_boxes(3) [OF that, of 3]
    let ?x = "av01_new (visual_entry w h colr) (av1c_new v) None :: DynBox Av01"
    have "av01_wf (dyn_wf (Suc 3)) ?x"
      using c shared by (simp add: av01_wf_def av01_children_def av01_new_def box_header_new_def others_def del: dyn_wf.simps)
    moreover have sz: "box_size (av01_box (dyn_ops_at k)) ?x < 2 ^ 39" for k
      using box_size_le [of "av01_box (dyn_ops_at k)" ?x] c shared
      by (simp add: av01_box_def av01_primitive_size_def av01_new_def del: dyn_ops_at.simps)
    moreover have "box_size (av01_box (dyn_ops_at k)) ?x < 2 ^ 64" for k by (rule less_trans [OF sz]) simp
    ultimately show ?thesis by (intro fits box_wf_SucI) (simp_all only: tree_Suc five(2))
  qed
qed

lemma brands: "fourcc_ok Iso5" "fourcc_ok Iso6" "fourcc_ok Mp41" "fourcc_ok FccAvc1" "fourcc_ok FccHev1" "fourcc_ok FccAv01"
  by (simp_all add: fourcc_ok_def fourcc_from_def fourcc_def)

lemma video_entry_fits:
  assumes "header_fits header" "video_entry header rate = Ok (entry, brand, rest)"
  shows "entry_fits entry \<and> fourcc_ok brand"
proof (cases header)
  case (SeqAvc config)
  then show ?thesis using assms
    by (auto simp: video_entry_def header_fits_def avc_stsd_entry_def rbind_Ok Let_def brands coded_entry_fits split: list.splits)
next
  case (SeqHevc config)
  then show ?thesis using assms
    by (auto simp: video_entry_def header_fits_def hevc_stsd_entry_def rbind_Ok Let_def brands coded_entry_fits split: option.splits)
next
  case (SeqAv1 config)
  then show ?thesis using assms
    by (auto simp: video_entry_def header_fits_def av1_stsd_entry_def rbind_Ok Let_def brands coded_entry_fits neq_Nil_conv split: list.splits)
qed

lemma ftyp_wf_new:
  assumes "fourcc_ok brand"
  shows "dyn_wf 1 (BFtyp (ftyp_new Iso5 512 [Iso5, Iso6, brand, Mp41]))"
proof -
  let ?b = "ftyp_new Iso5 512 [Iso5, Iso6, brand, Mp41]"
  have "ftyp_wf ?b" using assms brands by (simp add: ftyp_wf_def ftyp_new_def box_header_new_def)
  moreover have "box_size ftyp_box ?b < 2 ^ 64"
    using box_size_le [of ftyp_box ?b] by (simp add: ftyp_box_def ftyp_primitive_size_def ftyp_new_def)
  ultimately show ?thesis unfolding One_nat_def by (intro box_wf_SucI)
qed

section \<open>The initialisation segment\<close>

text \<open>A well-formed box is written the same way and read back at every depth from its own on.\<close>

lemma tree_at:
  assumes "dyn_wf n b" "n \<le> segment_depth"
  obtains bs where "\<And>out. tree_mux (Suc segment_depth) b out = (Ok (), out @ bs)"
    "\<And>pre post. d_demux segment_ops (curs pre (bs @ post)) = (Ok b, curs (pre @ bs) post)"
proof -
  obtain bs where bs: "tree_ok n b bs" using assms(1) boxes.wf_item by blast
  then have "tree_mux (Suc segment_depth) b out = (Ok (), out @ bs)" for out
    using assms(2) by (simp add: item_ok_def del: dyn_ops_at.simps)
  moreover have "d_demux segment_ops (curs pre (bs @ post)) = (Ok b, curs (pre @ bs) post)" for pre post
    using bs assms(2) by (simp add: item_ok_def del: dyn_ops_at.simps)
  ultimately show thesis by (rule that)
qed

text \<open>The frame rate of the metadata.\<close>

abbreviation meta_rate :: "Tags \<Rightarrow> float64" where
  "meta_rate tags \<equiv> (case meta_number (tags_scriptdata_tag tags) ''framerate'' of Some v \<Rightarrow> v | None \<Rightarrow> f64_of_int 0)"

abbreviation init_video_settings :: "Tags \<Rightarrow> VideoCodec \<Rightarrow> u32 \<Rightarrow> u32 \<Rightarrow> float64 \<Rightarrow> VideoSettings" where
  "init_video_settings tags codec w h rate \<equiv> \<lparr>vs_width = w, vs_height = h, vs_framerate = rate,
     vs_bitrate = meta_bitrate (tags_scriptdata_tag tags) ''videodatarate'', vs_codec = codec,
     vs_timescale = f64_as_u32 (f64_mul (f64_of_int 1000) rate)\<rparr>"

abbreviation init_audio_settings :: "Tags \<Rightarrow> PartialAudioSpecificConfig \<Rightarrow> u8 \<Rightarrow> AudioSettings" where
  "init_audio_settings tags config channels \<equiv> \<lparr>as_sample_rate = asc_sampling_frequency config, as_channels = channels,
     as_bitrate = meta_bitrate (tags_scriptdata_tag tags) ''audiodatarate'', as_codec = CodecAac (asc_audio_object_type config),
     as_timescale = asc_sampling_frequency config\<rparr>"

text \<open>What a reader finds in an initialisation segment.\<close>

definition describes :: "bytes \<Rightarrow> FourCC \<Rightarrow> VideoSettings \<Rightarrow> DynBox \<Rightarrow> AudioSettings \<Rightarrow> DynBox \<Rightarrow> bool" where
  "describes data brand vs ventry aus aentry \<longleftrightarrow> (\<exists>ftyp moov mvhd vt aut. data = ftyp @ moov
     \<and> d_demux segment_ops (curs [] data) = (Ok (BFtyp (ftyp_new Iso5 512 [Iso5, Iso6, brand, Mp41])), curs ftyp moov)
     \<and> d_demux segment_ops (curs ftyp moov) = (Ok (BMoov (moov_new mvhd
         [init_track vt (vs_timescale vs) Vide ''VideoHandler'' ventry (Some vmhd_new) None,
          init_track aut (as_timescale aus) Soun ''SoundHandler'' aentry None (Some smhd_new)]
         (Some (mvex_new [trex_new 1, trex_new 2] None)))), curs data [])
     \<and> tkhd_track_id vt = 1 \<and> tkhd_track_id aut = 2)"

lemma init_sequence_result:
  assumes "fixed_env_ok fx"
    and "tags_video_sequence_header (find_tags tm) = Some header" "header_fits header"
    and "tags_audio_sequence_header (find_tags tm) = Some \<lparr>ash_sound_size = ss, ash_sound_type = st, ash_data = SeqAac asc\<rparr>"
    and "video_entry header (meta_rate (find_tags tm)) = Ok (ventry, brand, codec, w, h, rate)"
    and "aac_stsd_entry ss st asc = Ok (aentry, config)" "aac_channels st = Ok channels" "length asc \<le> 100"
    and "\<not> f64_eq rate (f64_of_int 0)" "w \<noteq> 0" "h \<noteq> 0" "unat w < 2 ^ 15" "unat h < 2 ^ 15"
    and "asc_sampling_frequency config \<noteq> 0" "asc_sampling_frequency config < 2 ^ 16"
  shows "\<exists>data. init_sequence fx tm [] = (Ok (Some (init_video_settings (find_tags tm) codec w h rate,
         init_audio_settings (find_tags tm) config channels)), data)
     \<and> describes data brand (init_video_settings (find_tags tm) codec w h rate) ventry (init_audio_settings (find_tags tm) config channels) aentry"
proof -
  let ?vts = "f64_as_u32 (f64_mul (f64_of_int 1000) rate)" and ?ats = "asc_sampling_frequency config"
  let ?ftyp = "ftyp_new Iso5 512 [Iso5, Iso6, brand, Mp41]"
  have fits: "entry_fits ventry" "fourcc_ok brand" "entry_fits aentry"
    using video_entry_fits [OF assms(3,5)] aac_entry_fits [OF assms(6,8,15)] by simp_all
  obtain moov mvhd vt aut where moov: "init_moov fx w h ?vts ventry ?ats aentry = Ok moov" "dyn_wf 11 (BMoov moov)"
    "moov = moov_new mvhd [init_track vt ?vts Vide ''VideoHandler'' ventry (Some vmhd_new) None,
        init_track aut ?ats Soun ''SoundHandler'' aentry None (Some smhd_new)] (Some (mvex_new [trex_new 1, trex_new 2] None))"
    "tkhd_track_id vt = 1" "tkhd_track_id aut = 2"
    by (rule init_moov_result [OF assms(1,12,13) fits(1,3)])
  obtain b1 where b1: "\<And>out. tree_mux (Suc segment_depth) (BFtyp ?ftyp) out = (Ok (), out @ b1)"
    "\<And>pre post. d_demux segment_ops (curs pre (b1 @ post)) = (Ok (BFtyp ?ftyp), curs (pre @ b1) post)"
    by (rule tree_at [OF ftyp_wf_new [OF fits(2)]]) (simp_all add: segment_depth_def)
  obtain b2 where b2: "\<And>out. tree_mux (Suc segment_depth) (BMoov moov) out = (Ok (), out @ b2)"
    "\<And>pre post. d_demux segment_ops (curs pre (b2 @ post)) = (Ok (BMoov moov), curs (pre @ b2) post)"
    by (rule tree_at [OF moov(2)]) (simp_all add: segment_depth_def)
  have "init_sequence fx tm [] = (Ok (Some (init_video_settings (find_tags tm) codec w h rate,
      init_audio_settings (find_tags tm) config channels)), b1 @ b2)"
    using b1(1) b2(1) assms(2,4-7,9-11,14) unfolding tree_Suc
    by (simp add: init_sequence_def Let_def bindE_def lift_result_def ret_def map_errE_def moov(1))
  moreover have "describes (b1 @ b2) brand (init_video_settings (find_tags tm) codec w h rate) ventry
      (init_audio_settings (find_tags tm) config channels) aentry"
    unfolding describes_def using b1(2) [of "[]" b2] b2(2) [of b1 "[]"] moov(3-5)
    by (intro exI [of _ b1] exI [of _ b2] exI [of _ mvhd] exI [of _ vt] exI [of _ aut]) simp
  ultimately show ?thesis by blast
qed

text \<open>C9: once both sequence headers are queued, \<^verbatim>\<open>mux\<close> writes an initialisation segment that reads back as a brand box and a
  movie box with a video track 1 and an audio track 2, whose sample descriptions are the entries built from the sequence
  headers and whose time scales are those of the settings handed out and kept; the queue and the counters stay. This holds
  for headers that the boxes can carry: the fields of the video configuration fit their widths (for AV1 without \<^verbatim>\<open>hdr_wcg_idc\<close>, which is not
  written), the picture is neither empty nor \<open>2 ^ 15\<close> or more wide or high and its frame rate is not zero, the AAC configuration has at most 100 bytes
  and parses, and its sampling frequency is not zero and below \<open>2 ^ 16\<close>: the sample entry keeps the rate in 16 bits, so that
  88.2 and 96 kHz are truncated by the code.\<close>

theorem init_segment_roundtrip:
  assumes "fixed_env_ok fx" "tm_settings tm = None"
    and "tags_video_sequence_header (find_tags tm) = Some header" "header_fits header"
    and "tags_audio_sequence_header (find_tags tm) = Some \<lparr>ash_sound_size = ss, ash_sound_type = st, ash_data = SeqAac asc\<rparr>"
    and "video_entry header (meta_rate (find_tags tm)) = Ok (ventry, brand, codec, w, h, rate)"
    and "aac_stsd_entry ss st asc = Ok (aentry, config)" "aac_channels st = Ok channels" "length asc \<le> 100"
    and "\<not> f64_eq rate (f64_of_int 0)" "w \<noteq> 0" "h \<noteq> 0" "unat w < 2 ^ 15" "unat h < 2 ^ 15"
    and "asc_sampling_frequency config \<noteq> 0" "asc_sampling_frequency config < 2 ^ 16"
  shows "\<exists>data. transmux_mux fx tm = (Ok (Some (InitSegment (init_video_settings (find_tags tm) codec w h rate)
         (init_audio_settings (find_tags tm) config channels) data)),
       tm\<lparr>tm_settings := Some (init_video_settings (find_tags tm) codec w h rate, init_audio_settings (find_tags tm) config channels)\<rparr>)
     \<and> describes data brand (init_video_settings (find_tags tm) codec w h rate) ventry (init_audio_settings (find_tags tm) config channels) aentry"
  using init_sequence_result [OF assms(1,3-)] by (auto simp: transmux_mux_def assms(2))

section \<open>An example\<close>

definition example_ready :: Transmuxer where
  "example_ready = transmuxer_new\<lparr>tm_tags := [example_tag 0 example_metadata, example_tag 0 (example_video (AvcSequenceHeader example_avc)),
     example_tag 0 (example_audio (AacSequenceHeader [0x12, 0x10]))]\<rparr>"

definition example_video_entry :: DynBox where
  "example_video_entry = BAvc1 (avc1_new (visual_entry 16 16 None) (avcc_new example_avc) None)"

definition example_audio_entry :: DynBox where
  "example_audio_entry = BMp4a (mp4a_new (sample_entry_new (audio_sample_entry_new 2 16 44100)) (aac_esds [0x12, 0x10]) None)"

definition example_asc :: PartialAudioSpecificConfig where
  "example_asc = \<lparr>asc_audio_object_type = AacLowComplexity, asc_sampling_frequency = 44100, asc_channel_configuration = 2\<rparr>"

lemma example_tags:
  "find_tags example_ready = \<lparr>tags_video_sequence_header = Some (SeqAvc example_avc),
     tags_audio_sequence_header = Some \<lparr>ash_sound_size = SoundSize_Bit16, ash_sound_type = SoundType_Stereo, ash_data = SeqAac [0x12, 0x10]\<rparr>,
     tags_scriptdata_tag = Some [(fourcc ''framerate'', Amf0Number 0x403E000000000000)]\<rparr>"
  by (simp add: find_tags_def find_tag_def tags_complete_def example_ready_def example_tag_def example_metadata_def
      example_video_def example_audio_def)

lemma example_rate: "meta_rate (find_tags example_ready) = f64_of_int 30"
proof -
  have "f64_from_bits 0x403E000000000000 = f64_of_int 30" by code_simp
  then show ?thesis by (simp add: example_tags meta_number_def)
qed

lemma example_entries:
  "video_entry (SeqAvc example_avc) (f64_of_int 30) = Ok (example_video_entry, FccAvc1, CodecAvc 66 0 30, 16, 16, f64_of_int 30)"
  "aac_stsd_entry SoundSize_Bit16 SoundType_Stereo [0x12, 0x10] = Ok (example_audio_entry, example_asc)"
  "header_fits (SeqAvc example_avc)"
proof -
  have "sps_parse example_sps_unit = Ok (parsed_of example_sps)"
    using sps_parse_escaped [OF example_sps_facts(1,3)] unfolding example_sps_facts(2) by simp
  moreover have "f64_eq (f64_of_rat 0) (f64_of_int 0)" by code_simp
  ultimately show "video_entry (SeqAvc example_avc) (f64_of_int 30) =
      Ok (example_video_entry, FccAvc1, CodecAvc 66 0 30, 16, 16, f64_of_int 30)"
    by (simp add: video_entry_def avc_stsd_entry_def example_avc_def example_sps_facts(4) example_video_entry_def)
  have "asc_parse [0x12, 0x10] = Ok example_asc" unfolding example_asc_def by code_simp
  then show "aac_stsd_entry SoundSize_Bit16 SoundType_Stereo [0x12, 0x10] = Ok (example_audio_entry, example_asc)"
    by (simp add: aac_stsd_entry_def aac_channels_def aac_sample_size_def SoundSize_Bit16_def SoundSize_Bit8_def
        SoundType_Stereo_def SoundType_Mono_def example_audio_entry_def example_asc_def)
  show "header_fits (SeqAvc example_avc)"
    by (simp add: header_fits_def avc_ok_def example_avc_def parameter_sets_ok_def avc_size_def parameter_sets_size_def)
qed

lemma example_rates: "\<not> f64_eq (f64_of_int 30) (f64_of_int 0)" "f64_as_u32 (f64_mul (f64_of_int 1000) (f64_of_int 30)) = 30000"
  by code_simp+

lemma example_settings:
  "init_video_settings (find_tags example_ready) (CodecAvc 66 0 30) 16 16 (f64_of_int 30) = example_vs"
  "init_audio_settings (find_tags example_ready) example_asc 2 = example_aus"
  by (simp_all add: example_vs_def example_aus_def example_tags meta_bitrate_def meta_number_def example_asc_def example_rates fourcc_def)

lemma example_init_facts:
  "tags_video_sequence_header (find_tags example_ready) = Some (SeqAvc example_avc)"
  "tags_audio_sequence_header (find_tags example_ready) =
     Some \<lparr>ash_sound_size = SoundSize_Bit16, ash_sound_type = SoundType_Stereo, ash_data = SeqAac [0x12, 0x10]\<rparr>"
  "video_entry (SeqAvc example_avc) (meta_rate (find_tags example_ready)) =
     Ok (example_video_entry, FccAvc1, CodecAvc 66 0 30, 16, 16, f64_of_int 30)"
  "aac_channels SoundType_Stereo = Ok 2" "asc_sampling_frequency example_asc = 44100"
  unfolding example_rate by (simp_all add: example_tags example_entries aac_channels_def SoundType_Stereo_def SoundType_Mono_def example_asc_def)

theorem init_segment_roundtrip_witness:
  "\<exists>data. transmux_mux example_fixed example_ready = (Ok (Some (InitSegment example_vs example_aus data)),
       example_ready\<lparr>tm_settings := Some (example_vs, example_aus)\<rparr>)
     \<and> describes data FccAvc1 example_vs example_video_entry example_aus example_audio_entry"
proof -
  have "tm_settings example_ready = None" by (simp add: example_ready_def transmuxer_new_def)
  from init_segment_roundtrip [OF example_fixed_ok this example_init_facts(1) example_entries(3) example_init_facts(2,3)
      example_entries(2) example_init_facts(4)]
  show ?thesis unfolding example_settings by (simp add: example_rates example_init_facts(5))
qed

end
