(* ===== verification/Transmux_Timeline.thy ===== *)
theory Transmux_Timeline
  imports Transmux_Init
begin

text \<open>
  A client feeds FLV data or tags to the transmuxer and asks it for segments, in any order. \<open>transmux_step\<close> is one such call
  and \<open>transmux_uses\<close> the states and outputs that calls lead to from a new transmuxer. The invariant: the output is nothing,
  or one initialisation segment followed by media segments that are numbered from 1 and whose times on each track are
  the sums of the durations before them.
\<close>

section \<open>Tags read from FLV data are small\<close>

text \<open>What a reader returns from data of at most \<open>N\<close> bytes, and readers that stay on their data.\<close>

definition gives :: "nat \<Rightarrow> (cursor, 'e, 'a) prog \<Rightarrow> ('a \<Rightarrow> bool) \<Rightarrow> bool" where
  "gives N m Q \<longleftrightarrow> (\<forall>c x c'. length (cur_data c) \<le> N \<longrightarrow> m c = (Ok x, c') \<longrightarrow> Q x)"

definition stays :: "(cursor, 'e, 'a) prog \<Rightarrow> bool" where
  "stays m \<longleftrightarrow> (\<forall>c. cur_data (snd (m c)) = cur_data c)"

lemma gives_bind: "stays m \<Longrightarrow> (\<And>x. gives N (f x) Q) \<Longrightarrow> gives N (bindE m f) Q"
  unfolding gives_def stays_def by (metis bindE_OkE snd_conv)

lemma gives_ret: "gives N m P \<Longrightarrow> (\<And>x. P x \<Longrightarrow> Q (g x)) \<Longrightarrow> gives N (bindE m (\<lambda>x. ret (g x))) Q"
  unfolding gives_def by (auto simp: ret_def elim!: bindE_OkE)

lemma gives_any: "(\<And>x. Q (g x)) \<Longrightarrow> gives N (bindE m (\<lambda>x. ret (g x))) Q"
  by (rule gives_ret [where P = "\<lambda>_. True"]) (auto simp: gives_def)

lemma gives_pure: "Q x \<Longrightarrow> gives N (ret x) Q"
  by (simp add: gives_def ret_def)

lemma gives_remaining: "gives N extract_remaining (\<lambda>bs. length bs \<le> N)"
  by (auto simp: gives_def extract_remaining_def extract_bytes_def cur_remaining_def)

lemma stays_map: "stays m \<Longrightarrow> stays (bindE m (\<lambda>x. ret (g x)))"
  unfolding stays_def by (auto simp: bindE_def ret_def split: prod.split result.split) (metis snd_conv)+

lemma stays_readers: "stays (read_exact n)" "stays read_u8" "stays read_u24" "stays read_i24"
proof -
  show r: "stays (read_exact n)" for n by (simp add: stays_def read_exact_def)
  show "stays read_u8" "stays read_u24" "stays read_i24"
    unfolding read_u8_def read_u24_def read_i24_def by (intro stays_map r)+
qed

lemma gives_if: "gives N m Q \<Longrightarrow> gives N m' Q \<Longrightarrow> gives N (if b then m else m') Q"
  by simp

text \<open>The payload of tag data.\<close>

abbreviation payload_of :: "FlvTagData \<Rightarrow> bytes option" where
  "payload_of d \<equiv> media_payload \<lparr>ft_timestamp_ms = 0, ft_stream_id = 0, ft_data = d\<rparr>"

lemma media_payload_data: "media_payload tag = payload_of (ft_data tag)"
  by (simp add: media_payload_def)

abbreviation small_data :: "nat \<Rightarrow> FlvTagData \<Rightarrow> bool" where
  "small_data N d \<equiv> (\<forall>bs. payload_of d = Some bs \<longrightarrow> length bs \<le> N)"

lemmas gives_rules = gives_ret [OF gives_remaining] gives_any gives_pure gives_if gives_bind stays_readers

abbreviation small_video :: "nat \<Rightarrow> VideoTagBody \<Rightarrow> bool" where
  "small_video N body \<equiv> \<forall>f. small_data N (TagVideo \<lparr>vt_frame_type = f, vt_body = body\<rparr>)"

lemma gives_avc: "gives N avc_packet_demux (\<lambda>p. small_video N (VideoAvc p))"
  unfolding avc_packet_demux_def by (intro gives_rules) (simp_all add: media_payload_def)

lemma gives_enhanced: "gives N (enhanced_body_demux c t) (\<lambda>p. small_video N (VideoEnhanced p))"
  unfolding enhanced_body_demux_def by (intro gives_rules) (simp_all add: media_payload_def)

lemma gives_video_body: "gives N (video_body_demux t) (small_video N)"
proof (cases t)
  case (CodecId c)
  have "gives N (bindE avc_packet_demux (\<lambda>p. ret (VideoAvc p))) (small_video N)" by (rule gives_ret [OF gives_avc])
  then show ?thesis unfolding CodecId video_body_demux.simps
    by (intro gives_if gives_ret [OF gives_remaining]) (simp_all add: media_payload_def)
next
  case (Enhanced t)
  have e: "gives N (bindE (enhanced_body_demux c t) (\<lambda>p. ret (VideoEnhanced p))) (small_video N)" for c
    by (rule gives_ret [OF gives_enhanced])
  show ?thesis unfolding Enhanced video_body_demux.simps
    by (rule gives_bind [OF stays_readers(1)], intro gives_if gives_pure e gives_ret [OF gives_remaining])
      (simp_all add: media_payload_def)
qed

lemma gives_tag_data: "gives N (flv_tag_data_demux t) (small_data N)"
proof -
  have b: "gives N (audio_body_demux f) (\<lambda>b. \<forall>r s u. small_data N (TagAudio \<lparr>ad_sound_rate = r, ad_sound_size = s, ad_sound_type = u, ad_body = b\<rparr>))" for f
    unfolding audio_body_demux_def
    by (intro gives_rules) (auto simp: media_payload_def aac_packet_new_def split: AacPacket.splits)
  have a: "gives N audio_data_demux (\<lambda>x. small_data N (TagAudio x))"
    unfolding audio_data_demux_def Let_def by (rule gives_bind [OF stays_readers(2)], rule gives_ret [OF b]) auto
  have c: "gives N (bindE read_u8 (\<lambda>p. ret (VideoCommand p))) (small_video N)"
    by (rule gives_any) (simp add: media_payload_def)
  have v: "gives N video_tag_demux (\<lambda>x. small_data N (TagVideo x))"
    unfolding video_tag_demux_def Let_def
    by (rule gives_bind [OF stays_readers(2)], rule gives_ret [OF gives_if [OF c gives_video_body]]) auto
  show ?thesis
    unfolding flv_tag_data_demux_def
    by (intro gives_if gives_ret [OF a] gives_ret [OF v] gives_any) (simp_all add: media_payload_def)
qed

text \<open>The size field of a tag has 24 bits.\<close>

lemma read_u24_small: "read_u24 c = (Ok x, c') \<Longrightarrow> unat x < 2 ^ 24"
proof -
  assume "read_u24 c = (Ok x, c')"
  then obtain bs :: bytes where "x = of_be bs" "length bs \<le> 3"
    by (auto simp: read_u24_def read_exact_def ret_def elim!: bindE_OkE split: if_splits)
  then have "take_bit 24 x = x" by (intro bit_word_eqI) (auto simp: bit_simps dest: of_be_bound)
  then have "unat x = take_bit 24 (unat x)" by (metis unsigned_take_bit_eq)
  then show ?thesis by (metis take_bit_nat_less_exp)
qed

definition small_tag :: "FlvTag \<Rightarrow> bool" where
  "small_tag tag \<longleftrightarrow> (\<forall>bs. media_payload tag = Some bs \<longrightarrow> length bs + 8 \<le> u32_max)"

lemma flv_tag_small:
  assumes "flv_tag_demux c = (Ok tag, c')"
  shows "small_tag tag"
proof -
  from assms obtain t n c1 c2 c3 c4 data where n: "read_u24 c1 = (Ok n, c2)"
    and data: "extract_bytes (unat n) c3 = (Ok data, c4)"
    and tag: "fst (flv_tag_data_demux t (cursor_new data)) = Ok (ft_data tag)"
    by (auto simp: flv_tag_demux_def ret_def lift_result_def elim!: bindE_OkE)
  from data have len: "length data \<le> unat n" by (auto simp: extract_bytes_def split: if_splits)
  obtain c where "flv_tag_data_demux t (cursor_new data) = (Ok (ft_data tag), c)"
    using tag by (cases "flv_tag_data_demux t (cursor_new data)") auto
  moreover have "length (cur_data (cursor_new data)) \<le> length data" by (simp add: cursor_new_def)
  ultimately have "small_data (length data) (ft_data tag)"
    using gives_tag_data [of "length data" t] unfolding gives_def by blast
  moreover have "length data < 2 ^ 24" using read_u24_small [OF n] len by simp
  ultimately show ?thesis unfolding small_tag_def media_payload_data [of tag] by (fastforce simp: u32_max_def)
qed

section \<open>Feeding\<close>

text \<open>Whatever \<^verbatim>\<open>demux\<close> answers, it only adds tags, all of them small.\<close>

lemma demux_loop_tags:
  "transmux_demux_loop fuel c tm = (r, tm') \<Longrightarrow> \<exists>ts. tm' = tm\<lparr>tm_tags := tm_tags tm @ ts\<rparr> \<and> (\<forall>t \<in> set ts. small_tag t)"
proof (induction fuel c tm rule: transmux_demux_loop.induct)
  case (2 fuel c tm)
  have same: "\<exists>ts. tm = tm\<lparr>tm_tags := tm_tags tm @ ts\<rparr> \<and> (\<forall>t \<in> set ts. small_tag t)" by (rule exI [of _ "[]"]) simp
  show ?case
  proof (cases "tm' = tm")
    case False
    with 2(2) obtain x c' tag c'' where c: "has_remaining c" "io read_u32 c = (Ok x, c')" "has_remaining c'"
      "io flv_tag_demux c' = (Ok tag, c'')" and rec: "transmux_demux_loop fuel c'' (add_tag tag tm) = (r, tm')"
      by (auto split: if_splits prod.splits result.splits)
    have "small_tag tag"
      using c(4) flv_tag_small by (auto simp: map_errE_def split: prod.splits result.splits elim!: map_err.elims)
    moreover obtain ts where "tm' = (add_tag tag tm)\<lparr>tm_tags := tm_tags (add_tag tag tm) @ ts\<rparr>" "\<forall>t \<in> set ts. small_tag t"
      using 2(1) [OF _ c(2) [symmetric] refl _ c(4) [symmetric] refl rec] c(1,3) by blast
    ultimately show ?thesis by (intro exI [of _ "tag # ts"]) (simp add: add_tag_def)
  qed (use same in simp)
qed (auto intro: exI [of _ "[]"])

lemma transmux_demux_tags:
  "transmux_demux data tm = (r, tm') \<Longrightarrow> \<exists>ts. tm' = tm\<lparr>tm_tags := tm_tags tm @ ts\<rparr> \<and> (\<forall>t \<in> set ts. small_tag t)"
  unfolding transmux_demux_def by (rule demux_loop_tags)

section \<open>Uses of a transmuxer\<close>

datatype tm_op = Feed bytes | AddTag FlvTag | Mux

text \<open>One call and what it hands out; after an error the client may go on.\<close>

inductive transmux_step :: "fixed_env \<Rightarrow> Transmuxer \<Rightarrow> tm_op \<Rightarrow> TransmuxResult option \<Rightarrow> Transmuxer \<Rightarrow> bool" for fx where
  feed: "transmux_demux data tm = (r, tm') \<Longrightarrow> r = Ok () \<or> r = Err e \<Longrightarrow> transmux_step fx tm (Feed data) None tm'"
| add: "small_tag tag \<Longrightarrow> transmux_step fx tm (AddTag tag) None (add_tag tag tm)"
| mux: "transmux_mux fx tm = (Ok out, tm') \<Longrightarrow> transmux_step fx tm Mux out tm'"
| mux_error: "transmux_mux fx tm = (Err e, tm') \<Longrightarrow> transmux_step fx tm Mux None tm'"

inductive transmux_uses :: "fixed_env \<Rightarrow> Transmuxer \<Rightarrow> TransmuxResult list \<Rightarrow> bool" for fx where
  start: "transmux_uses fx transmuxer_new []"
| step: "transmux_uses fx tm outs \<Longrightarrow> transmux_step fx tm op out tm' \<Longrightarrow> transmux_uses fx tm' (outs @ opt_list out)"

text \<open>The time a track has reached after some samples.\<close>

definition track_duration :: "bool \<Rightarrow> media_sample list \<Rightarrow> nat" where
  "track_duration audio sms = sum_list (map (\<lambda>sm. unat (sm_duration sm)) (filter (\<lambda>sm. sm_audio sm = audio) sms))"

lemma track_duration_snoc [simp]:
  "track_duration audio [] = 0"
  "track_duration audio (sms @ [sm]) = track_duration audio sms + (if sm_audio sm = audio then unat (sm_duration sm) else 0)"
  by (simp_all add: track_duration_def)

text \<open>The segments of the samples, numbered from 1, each at the time its track has reached.\<close>

definition gapless :: "MediaSegment list \<Rightarrow> media_sample list \<Rightarrow> bool" where
  "gapless segs sms \<longleftrightarrow> length segs = length sms \<and> (\<forall>i < length segs.
     \<exists>t. unat t = track_duration (sm_audio (sms ! i)) (take i sms)
       \<and> plays (ms_data (segs ! i)) (word_of_nat (i + 1)) t (sms ! i) \<and> segs ! i = segment_of (ms_data (segs ! i)) t (sms ! i))"

lemma gapless_snoc:
  assumes "gapless segs sms" "unat t = track_duration (sm_audio sm) sms" "plays data (word_of_nat (length sms + 1)) t sm"
  shows "gapless (segs @ [segment_of data t sm]) (sms @ [sm])"
proof -
  have len: "length segs = length sms" using assms(1) by (simp add: gapless_def)
  show ?thesis unfolding gapless_def
  proof (intro conjI allI impI)
    fix i assume "i < length (segs @ [segment_of data t sm])"
    then consider "i < length segs" | "i = length segs" by fastforce
    then show "\<exists>u. unat u = track_duration (sm_audio ((sms @ [sm]) ! i)) (take i (sms @ [sm]))
       \<and> plays (ms_data ((segs @ [segment_of data t sm]) ! i)) (word_of_nat (i + 1)) u ((sms @ [sm]) ! i)
       \<and> (segs @ [segment_of data t sm]) ! i = segment_of (ms_data ((segs @ [segment_of data t sm]) ! i)) u ((sms @ [sm]) ! i)"
    proof cases
      case 1
      then show ?thesis using assms(1) len unfolding gapless_def by (simp add: nth_append)
    next
      case 2
      then show ?thesis using assms(2,3) len by (intro exI [of _ t]) (simp add: nth_append segment_of_def)
    qed
  qed (simp add: len)
qed

definition timeline :: "Transmuxer \<Rightarrow> TransmuxResult list \<Rightarrow> media_sample list \<Rightarrow> bool" where
  "timeline tm outs sms \<longleftrightarrow>
     (if tm_settings tm = None then outs = [] \<and> sms = []
      else \<exists>segs data. outs = (case tm_settings tm of Some (vs, aus) \<Rightarrow> InitSegment vs aus data) # map Media segs \<and> gapless segs sms)
     \<and> unat (tm_sequence_number tm) = length sms + 1
     \<and> unat (tm_audio_duration tm) = track_duration True sms \<and> unat (tm_video_duration tm) = track_duration False sms"

lemma mux_loop_outcome:
  assumes small: "\<forall>t \<in> set tags. small_tag t" and mux: "mux_loop vs tags tm = (r, tm')"
  obtains "r = Panic" | "r = Ok None" "tm' = tm\<lparr>tm_tags := []\<rparr>"
  | skipped tag rest sm data where "tags = skipped @ tag # rest" "counters_fit tm sm"
      "plays data (tm_sequence_number tm) (track_time tm sm) sm"
      "r = Ok (Some (Media (segment_of data (track_time tm sm) sm)))" "tm' = (advance tag sm tm)\<lparr>tm_tags := rest\<rparr>"
proof (cases "\<exists>t \<in> set tags. media_payload t \<noteq> None")
  case False
  then have "mux_loop vs (tags @ []) tm = mux_loop vs [] tm" by (intro mux_loop_skip) simp
  then show thesis using mux that(2) by simp
next
  case True
  then obtain skipped tag rest bs where t: "tags = skipped @ tag # rest" "media_payload tag = Some bs"
    "\<forall>t \<in> set skipped. media_payload t = None"
    using split_list_first_prop [of tags "\<lambda>t. media_payload t \<noteq> None"] by blast
  have len: "length bs + 8 \<le> u32_max" using small t(1,2) by (simp add: small_tag_def)
  from t(2) len obtain sm where sm: "sm_data sm = bs" "sample_fits sm"
    "mux_loop vs (tag # rest) tm = emit_segment tag sm (tm\<lparr>tm_tags := rest\<rparr>)"
    by (rule mux_loop_emit)
  with mux t have emit: "emit_segment tag sm (tm\<lparr>tm_tags := rest\<rparr>) = (r, tm')"
    by (simp only: mux_loop_skip [OF t(3)])
  have same: "track_time (tm\<lparr>tm_tags := rest\<rparr>) sm = track_time tm sm" "counters_fit (tm\<lparr>tm_tags := rest\<rparr>) sm = counters_fit tm sm"
    "advance tag sm (tm\<lparr>tm_tags := rest\<rparr>) = (advance tag sm tm)\<lparr>tm_tags := rest\<rparr>"
    by (simp_all add: track_time_def counters_fit_def advance_def Let_def)
  obtain data where "plays data (tm_sequence_number tm) (track_time tm sm) sm"
    "if counters_fit tm sm then (r, tm') = (Ok (Some (Media (segment_of data (track_time tm sm) sm))), (advance tag sm tm)\<lparr>tm_tags := rest\<rparr>)
     else r = Panic"
    using emit_segment_outcome [OF sm(2), of "tm\<lparr>tm_tags := rest\<rparr>" tag] len unfolding sm(1) emit same by (auto split: if_splits)
  then show thesis using that(1) that(3) [OF t(1)] by (cases "counters_fit tm sm") auto
qed

text \<open>Without settings, \<^verbatim>\<open>mux\<close> changes nothing or writes the initialisation segment.\<close>

lemma mux_init_outcome:
  assumes "tm_settings tm = None" "transmux_mux fx tm = (r, tm')"
  obtains "r = Panic \<or> r = OutOfFuel" | e where "r = Err e" "tm' = tm" | "r = Ok None" "tm' = tm"
  | vs aus data where "r = Ok (Some (InitSegment vs aus data))" "tm' = tm\<lparr>tm_settings := Some (vs, aus)\<rparr>"
  using assms by (auto simp: transmux_mux_def split: prod.splits result.splits option.splits if_splits)

lemma timeline_cong:
  "tm_settings tm' = tm_settings tm \<Longrightarrow> tm_sequence_number tm' = tm_sequence_number tm
   \<Longrightarrow> tm_audio_duration tm' = tm_audio_duration tm \<Longrightarrow> tm_video_duration tm' = tm_video_duration tm
   \<Longrightarrow> timeline tm' outs sms = timeline tm outs sms"
  by (simp add: timeline_def)

lemma timeline_media:
  assumes tl: "timeline tm outs sms" and set: "tm_settings tm = Some (vs, aus)" and fit: "counters_fit tm sm"
    and plays: "plays data (tm_sequence_number tm) (track_time tm sm) sm"
  shows "timeline (advance tag sm tm) (outs @ [Media (segment_of data (track_time tm sm) sm)]) (sms @ [sm])"
proof -
  from tl set obtain segs d where outs: "outs = InitSegment vs aus d # map Media segs" and g: "gapless segs sms"
    and n: "unat (tm_sequence_number tm) = length sms + 1"
    and a: "unat (tm_audio_duration tm) = track_duration True sms" and v: "unat (tm_video_duration tm) = track_duration False sms"
    by (auto simp: timeline_def)
  have "tm_sequence_number tm = word_of_nat (length sms + 1)" using n by (metis of_nat_unat ucast_id)
  moreover have t: "unat (track_time tm sm) = track_duration (sm_audio sm) sms" using a v by (simp add: track_time_def)
  ultimately have "gapless (segs @ [segment_of data (track_time tm sm) sm]) (sms @ [sm])"
    using plays by (intro gapless_snoc [OF g]) simp_all
  moreover have "unat (tm_sequence_number tm + 1) = length sms + 2"
    using fit n by (simp add: counters_fit_def unat_word_ariths)
  moreover have "unat (track_time tm sm + ucast (sm_duration sm)) = unat (track_time tm sm) + unat (sm_duration sm)"
    using fit by (simp add: counters_fit_def unat_word_ariths unat_ucast_up)
  ultimately show ?thesis
    using set outs t a v
    by (auto simp: timeline_def advance_def Let_def intro!: exI [of _ "segs @ [segment_of data (track_time tm sm) sm]"])
qed

lemma mux_timeline:
  assumes tl: "timeline tm outs sms" and small: "\<forall>t \<in> set (tm_tags tm). small_tag t"
    and mux: "transmux_mux fx tm = (r, tm')" and r: "r = Ok out \<or> r = Err e \<and> out = None"
  shows "(\<exists>sms. timeline tm' (outs @ opt_list out) sms) \<and> (\<forall>t \<in> set (tm_tags tm'). small_tag t)"
proof (cases "tm_settings tm")
  case None
  then show ?thesis using mux
  proof (cases rule: mux_init_outcome)
    case (4 vs aus data)
    then have "timeline tm' [InitSegment vs aus data] []"
      using tl None by (auto simp: timeline_def gapless_def intro!: exI [of _ "[]"])
    then show ?thesis using 4 tl None small r by (auto simp: timeline_def)
  qed (use r tl small in auto)
next
  case (Some p)
  then obtain vs aus where set: "tm_settings tm = Some (vs, aus)" by (cases p) auto
  then have "mux_loop vs (tm_tags tm) tm = (r, tm')" using mux by (simp add: transmux_mux_def)
  with small show ?thesis
  proof (cases rule: mux_loop_outcome)
    case 2
    then show ?thesis using r tl timeline_cong [of tm' tm] by auto
  next
    case (3 skipped tag rest sm data)
    have "timeline tm' (outs @ opt_list out) (sms @ [sm])"
      using 3 r timeline_media [OF tl set 3(2,3), of tag] timeline_cong [of tm' "advance tag sm tm"] by auto
    then show ?thesis using 3 small by auto
  qed (use r in auto)
qed

text \<open>C7: whatever a client does with a new transmuxer, its outputs are one initialisation segment followed by media segments that
  are numbered 1, 2, 3, ..., that each play one sample, and whose times on each track follow each other without gap
  or overlap; the counters of the state are the number of segments and the two total durations.\<close>

theorem transmux_timeline:
  assumes "transmux_uses fx tm outs"
  shows "(\<exists>sms. timeline tm outs sms) \<and> (\<forall>t \<in> set (tm_tags tm). small_tag t)"
  using assms
proof (induction rule: transmux_uses.induct)
  case start
  have "timeline transmuxer_new [] []" by (simp add: timeline_def transmuxer_new_def)
  then show ?case by (auto simp: transmuxer_new_def)
next
  case (step tm outs op out tm')
  then obtain sms where tl: "timeline tm outs sms" and small: "\<forall>t \<in> set (tm_tags tm). small_tag t" by blast
  from step.hyps(2) show ?case
  proof cases
    case (feed data r e)
    then show ?thesis using transmux_demux_tags [OF feed(3)] tl small timeline_cong [of tm' tm] by fastforce
  next
    case (add tag)
    then show ?thesis using tl small timeline_cong [of tm' tm] by (auto simp: add_tag_def)
  next
    case mux
    then show ?thesis using mux_timeline [OF tl small mux(2)] by blast
  next
    case (mux_error e)
    then show ?thesis using mux_timeline [OF tl small mux_error(3)] by blast
  qed
qed

section \<open>An example\<close>

abbreviation example_frame :: FlvTag where
  "example_frame \<equiv> example_tag 40 (example_video (AvcNalu 0 [1, 2, 3]))"

definition example_started :: Transmuxer where
  "example_started = add_tag example_frame (example_ready\<lparr>tm_settings := Some (example_vs, example_aus)\<rparr>)"

lemma example_init_step:
  "\<exists>data. transmux_step example_fixed example_ready Mux (Some (InitSegment example_vs example_aus data))
     (example_ready\<lparr>tm_settings := Some (example_vs, example_aus)\<rparr>)"
proof -
  obtain data where "init_sequence example_fixed example_ready [] = (Ok (Some (example_vs, example_aus)), data)"
    using init_sequence_result [OF example_fixed_ok example_init_facts(1) example_entries(3) example_init_facts(2,3)
      example_entries(2) example_init_facts(4)] unfolding example_settings by (auto simp: example_rates example_init_facts(5))
  then show ?thesis
    by (intro exI [of _ data] transmux_step.mux) (simp add: transmux_mux_def example_ready_def transmuxer_new_def)
qed

lemma example_media_step:
  "\<exists>seg tm'. transmux_step example_fixed example_started Mux (Some (Media seg)) tm'"
proof -
  let ?skipped = "tm_tags example_ready"
  have skip: "\<forall>t \<in> set ?skipped. media_payload t = None"
    by (simp add: example_ready_def media_payload_def example_tag_def example_metadata_def example_video_def example_audio_def)
  have "media_payload example_frame = Some [1, 2, 3]" by (simp add: media_payload_def example_tag_def example_video_def)
  then obtain sm where sm: "sm_data sm = [1, 2, 3]" "sample_fits sm"
    "mux_loop example_vs (example_frame # []) example_started = emit_segment example_frame sm (example_started\<lparr>tm_tags := []\<rparr>)"
    by (rule mux_loop_emit) (simp_all add: u32_max_def)
  have "unat (sm_duration sm) < 2 ^ 32" using unsigned_less [of "sm_duration sm", where 'a = nat] by simp
  then have fit: "counters_fit (example_started\<lparr>tm_tags := []\<rparr>) sm"
    by (simp add: counters_fit_def track_time_def example_started_def add_tag_def example_ready_def transmuxer_new_def)
  have "transmux_mux example_fixed example_started = mux_loop example_vs (?skipped @ [example_frame]) example_started"
    by (simp add: transmux_mux_def example_started_def add_tag_def del: mux_loop.simps)
  then show ?thesis
    using emit_segment_outcome [OF sm(2), of "example_started\<lparr>tm_tags := []\<rparr>" example_frame] fit sm(1)
    unfolding mux_loop_skip [OF skip] sm(3) by (auto 0 4 simp: u32_max_def dest!: transmux_step.mux)
qed

lemma example_uses:
  "\<exists>data seg tm. transmux_uses example_fixed tm [InitSegment example_vs example_aus data, Media seg]"
proof -
  have small: "small_tag (example_tag 0 example_metadata)" "small_tag (example_tag 0 (example_video (AvcSequenceHeader example_avc)))"
    "small_tag (example_tag 0 (example_audio (AacSequenceHeader [0x12, 0x10])))" "small_tag example_frame"
    by (simp_all add: small_tag_def media_payload_def example_tag_def example_metadata_def example_video_def example_audio_def u32_max_def)
  have "transmux_uses example_fixed example_ready []"
    using step [OF step [OF step [OF start add [OF small(1)]] add [OF small(2)]] add [OF small(3)], of example_fixed]
    by (simp add: add_tag_def example_ready_def transmuxer_new_def)
  from step [OF this] example_init_step obtain data where
    "transmux_uses example_fixed (example_ready\<lparr>tm_settings := Some (example_vs, example_aus)\<rparr>) [InitSegment example_vs example_aus data]"
    by fastforce
  from step [OF this add [OF small(4)]]
  have "transmux_uses example_fixed example_started [InitSegment example_vs example_aus data]" by (simp add: example_started_def)
  from step [OF this] example_media_step show ?thesis by fastforce
qed

theorem transmux_timeline_witness:
  "\<exists>data seg tm sms. transmux_uses example_fixed tm [InitSegment example_vs example_aus data, Media seg]
     \<and> timeline tm [InitSegment example_vs example_aus data, Media seg] sms"
  using example_uses transmux_timeline by blast

end
