(* ===== verification/Batching.thy ===== *)
theory Batching
  imports Prelude "HOL-Library.Multiset"
begin

text \<open>
  Request batching (\<^verbatim>\<open>crates/batching/src/batch.rs\<close>). Clients push requests into the current batch under a lock; a full batch is
  spawned as a task at once, a batch that has waited for the delay by the timer loop. A task takes a ticket of a semaphore,
  runs the executor and answers each request on its channel.

  The code between two suspension points runs under the lock or on its own data, so that a run is an interleaving of such
  sections: \<open>batcher_step\<close>. The semaphore is that of \<^verbatim>\<open>tokio\<close> and a parameter, with what its documentation says in
  \<open>semaphore_ok\<close>; the executor is the parameter \<open>exec\<close>, which gives for the requests of a batch and a position the response sent,
  or \<open>None\<close> where the channel is dropped without one. Time is counted in units of the clock and may pass between any two
  sections; a sleep ends at its time or later. The timer loop is a task of its own: its first sleep begins when the task is first
  polled, and every later one when the loop comes back to it, so that the beginning of a sleep is a section too.
\<close>

section \<open>State\<close>

record 's semaphore =
  sem_new :: "nat \<Rightarrow> 's"
  sem_acquire :: "'s \<Rightarrow> 's option"
  sem_release :: "'s \<Rightarrow> 's"

text \<open>Every acquisition takes one of the permits, a drop of the ticket gives it back, and no permit is refused while there is one.\<close>

definition semaphore_ok :: "'s semaphore \<Rightarrow> ('s \<Rightarrow> nat) \<Rightarrow> bool" where
  "semaphore_ok sem permits \<longleftrightarrow> (\<forall>n. permits (sem_new sem n) = n)
     \<and> (\<forall>s. case sem_acquire sem s of None \<Rightarrow> permits s = 0 | Some s' \<Rightarrow> permits s = Suc (permits s'))
     \<and> (\<forall>s. permits (sem_release sem s) = Suc (permits s))"

text \<open>A request with the number of its response channel.\<close>

type_synonym 'r item = "'r \<times> nat"

record 'r Batch =
  bt_items :: "'r item list"
  bt_created_at :: nat

record BatcherBuilder =
  bb_batch_size :: nat
  bb_concurrency :: nat
  bb_delay :: nat

text \<open>The timer loop is about to sleep for a time (\<^verbatim>\<open>delay_delta\<close>), or sleeps until a time.\<close>

datatype timer = SleepNext nat | SleepUntil nat

text \<open>The first five fields are those of the source; the others are the tasks that wait for a ticket, that run and that are
  done, the channels that are resolved, the clock and the timer loop, with the time at which it looked at the current batch
  last (or was spawned) and the time that passed from there to the beginning of its sleep.\<close>

record ('r, 'p, 's) Batcher =
  b_semaphore :: 's
  b_current :: "'r Batch option"
  b_batch_size :: nat
  b_delay :: nat
  b_next :: nat
  b_spawned :: "'r Batch list"
  b_running :: "'r Batch list"
  b_done :: "'r Batch list"
  b_channels :: "nat \<rightharpoonup> 'p option"
  b_now :: nat
  b_timer :: timer
  b_looked :: nat
  b_late :: nat

section \<open>Operations\<close>

definition builder_new :: BatcherBuilder where
  "builder_new = \<lparr>bb_batch_size = 1000, bb_concurrency = 50, bb_delay = 5\<rparr>"

definition with_batch_size :: "nat \<Rightarrow> BatcherBuilder \<Rightarrow> BatcherBuilder" where
  "with_batch_size n b = b\<lparr>bb_batch_size := n\<rparr>"

definition with_concurrency :: "nat \<Rightarrow> BatcherBuilder \<Rightarrow> BatcherBuilder" where
  "with_concurrency n b = b\<lparr>bb_concurrency := n\<rparr>"

definition with_delay :: "nat \<Rightarrow> BatcherBuilder \<Rightarrow> BatcherBuilder" where
  "with_delay d b = b\<lparr>bb_delay := d\<rparr>"

text \<open>A new batcher; the timer loop is spawned, and will begin with a sleep of the delay.\<close>

definition batcher_new :: "'s semaphore \<Rightarrow> nat \<Rightarrow> nat \<Rightarrow> nat \<Rightarrow> ('r, 'p, 's) Batcher" where
  "batcher_new sem batch_size concurrency delay =
     \<lparr>b_semaphore = sem_new sem (max concurrency 1), b_current = None, b_batch_size = max batch_size 1, b_delay = delay,
      b_next = 0, b_spawned = [], b_running = [], b_done = [], b_channels = Map.empty, b_now = 0,
      b_timer = SleepNext delay, b_looked = 0, b_late = 0\<rparr>"

definition builder_build :: "'s semaphore \<Rightarrow> BatcherBuilder \<Rightarrow> ('r, 'p, 's) Batcher" where
  "builder_build sem b = batcher_new sem (bb_batch_size b) (bb_concurrency b) (bb_delay b)"

definition batch_new :: "nat \<Rightarrow> 'r Batch" where
  "batch_new now = \<lparr>bt_items = [], bt_created_at = now\<rparr>"

text \<open>One round of the loop of \<^verbatim>\<open>execute_many\<close>: the request joins the current batch, which is spawned when it is full.\<close>

definition push_item :: "'r \<Rightarrow> ('r, 'p, 's) Batcher \<Rightarrow> ('r, 'p, 's) Batcher" where
  "push_item item b =
     (let batch = (case b_current b of None \<Rightarrow> batch_new (b_now b) | Some batch \<Rightarrow> batch);
          batch = batch\<lparr>bt_items := bt_items batch @ [(item, b_next b)]\<rparr>;
          b = b\<lparr>b_next := b_next b + 1\<rparr>
      in if length (bt_items batch) \<ge> b_batch_size b then b\<lparr>b_current := None, b_spawned := b_spawned b @ [batch]\<rparr>
         else b\<lparr>b_current := Some batch\<rparr>)"

fun execute_push :: "'r list \<Rightarrow> ('r, 'p, 's) Batcher \<Rightarrow> nat list \<times> ('r, 'p, 's) Batcher" where
  "execute_push [] b = ([], b)"
| "execute_push (item # items) b = (let (responses, b') = execute_push items (push_item item b) in (b_next b # responses, b'))"

text \<open>The end of \<^verbatim>\<open>execute_many\<close>: the responses are awaited in the order of the requests.\<close>

fun execute_await :: "nat list \<Rightarrow> ('r, 'p, 's) Batcher \<Rightarrow> 'p option list option" where
  "execute_await [] b = Some []"
| "execute_await (rx # rxs) b = (case b_channels b rx of None \<Rightarrow> None
     | Some r \<Rightarrow> map_option (\<lambda>rs. r # rs) (execute_await rxs b))"

definition execute_pop :: "'p option list \<Rightarrow> 'p option" where
  "execute_pop results = (if results = [] then None else last results)"

text \<open>The timer loop: the beginning of a sleep, and a round once the sleep has ended.\<close>

fun timer_sleep :: "('r, 'p, 's) Batcher \<Rightarrow> nat \<Rightarrow> ('r, 'p, 's) Batcher" where
  "timer_sleep b delay_delta = b\<lparr>b_timer := SleepUntil (b_now b + delay_delta), b_late := b_now b - b_looked b\<rparr>"

definition batch_loop :: "('r, 'p, 's) Batcher \<Rightarrow> ('r, 'p, 's) Batcher" where
  "batch_loop b =
     (case b_current b of
        None \<Rightarrow> b\<lparr>b_looked := b_now b, b_timer := SleepNext (b_delay b)\<rparr>
      | Some batch \<Rightarrow>
          let remaining = b_delay b - (b_now b - bt_created_at batch) in
          if remaining = 0
          then b\<lparr>b_current := None, b_spawned := b_spawned b @ [batch], b_looked := b_now b, b_timer := SleepNext (b_delay b)\<rparr>
          else b\<lparr>b_looked := b_now b, b_timer := SleepNext remaining\<rparr>)"

text \<open>A task takes its ticket and hands its items to the executor; when the executor returns, every channel is resolved and the
  ticket is dropped.\<close>

definition resolve :: "('r list \<Rightarrow> nat \<Rightarrow> 'p option) \<Rightarrow> 'r Batch \<Rightarrow> (nat \<rightharpoonup> 'p option) \<Rightarrow> (nat \<rightharpoonup> 'p option)" where
  "resolve exec batch channels = (let items = bt_items batch in
     foldl (\<lambda>ch i. ch(snd (items ! i) \<mapsto> exec (map fst items) i)) channels [0..<length items])"

datatype 'r batcher_op = Tick nat | Call "'r list" "nat list" | Sleep | Wake | Start | Finish

inductive batcher_step :: "'s semaphore \<Rightarrow> ('r list \<Rightarrow> nat \<Rightarrow> 'p option) \<Rightarrow> ('r, 'p, 's) Batcher \<Rightarrow> 'r batcher_op
    \<Rightarrow> ('r, 'p, 's) Batcher \<Rightarrow> bool" for sem exec where
  tick: "batcher_step sem exec b (Tick d) (b\<lparr>b_now := b_now b + d\<rparr>)"
| call: "execute_push reqs b = (rxs, b') \<Longrightarrow> batcher_step sem exec b (Call reqs rxs) b'"
| sleep: "b_timer b = SleepNext delay_delta \<Longrightarrow> batcher_step sem exec b Sleep (timer_sleep b delay_delta)"
| wake: "b_timer b = SleepUntil t \<Longrightarrow> t \<le> b_now b \<Longrightarrow> batcher_step sem exec b Wake (batch_loop b)"
| start: "b_spawned b = xs @ batch # ys \<Longrightarrow> sem_acquire sem (b_semaphore b) = Some s \<Longrightarrow>
    batcher_step sem exec b Start (b\<lparr>b_spawned := xs @ ys, b_running := b_running b @ [batch], b_semaphore := s\<rparr>)"
| finish: "b_running b = xs @ batch # ys \<Longrightarrow>
    batcher_step sem exec b Finish (b\<lparr>b_running := xs @ ys, b_done := b_done b @ [batch],
      b_channels := resolve exec batch (b_channels b), b_semaphore := sem_release sem (b_semaphore b)\<rparr>)"

text \<open>The calls of \<^verbatim>\<open>execute_many\<close> with their channels, in the order in which they took the lock.\<close>

fun calls_of :: "'r batcher_op \<Rightarrow> ('r list \<times> nat list) list" where
  "calls_of (Call reqs rxs) = [(reqs, rxs)]"
| "calls_of _ = []"

inductive batcher_run :: "'s semaphore \<Rightarrow> ('r list \<Rightarrow> nat \<Rightarrow> 'p option) \<Rightarrow> nat \<Rightarrow> nat \<Rightarrow> nat \<Rightarrow> ('r, 'p, 's) Batcher
    \<Rightarrow> ('r list \<times> nat list) list \<Rightarrow> bool" for sem exec batch_size concurrency delay where
  init: "batcher_run sem exec batch_size concurrency delay (batcher_new sem batch_size concurrency delay) []"
| step: "batcher_run sem exec batch_size concurrency delay b calls \<Longrightarrow> batcher_step sem exec b op b' \<Longrightarrow>
    batcher_run sem exec batch_size concurrency delay b' (calls @ calls_of op)"

section \<open>Invariant\<close>

definition batches :: "('r, 'p, 's) Batcher \<Rightarrow> 'r Batch list" where
  "batches b = b_done b @ b_running b @ b_spawned b @ (case b_current b of None \<Rightarrow> [] | Some batch \<Rightarrow> [batch])"

definition all_items :: "'r Batch list \<Rightarrow> 'r item list" where
  "all_items bs = concat (map bt_items bs)"

lemma all_items_simps [simp]: "all_items [] = []" "all_items (x # xs) = bt_items x @ all_items xs" "all_items (xs @ ys) = all_items xs @ all_items ys"
  by (simp_all add: all_items_def)

text \<open>The requests of the calls, each with its channel.\<close>

definition submitted :: "('r list \<times> nat list) list \<Rightarrow> 'r item list" where
  "submitted calls = concat (map (\<lambda>(reqs, rxs). zip reqs rxs) calls)"

lemma submitted_simps [simp]: "submitted [] = []" "submitted (xs @ ys) = submitted xs @ submitted ys" "submitted [(reqs, rxs)] = zip reqs rxs"
  by (simp_all add: submitted_def)

text \<open>Pushing only moves requests into batches, under fresh channels.\<close>

lemma push_item_items: "mset (all_items (batches (push_item r b))) = add_mset (r, b_next b) (mset (all_items (batches b)))"
  by (simp add: batches_def push_item_def Let_def batch_new_def split: option.split)

lemma push_item_keeps [simp]:
  "b_next (push_item r b) = Suc (b_next b)" "b_batch_size (push_item r b) = b_batch_size b" "b_done (push_item r b) = b_done b"
  "b_running (push_item r b) = b_running b" "b_channels (push_item r b) = b_channels b" "b_semaphore (push_item r b) = b_semaphore b"
  "b_delay (push_item r b) = b_delay b" "b_now (push_item r b) = b_now b" "b_timer (push_item r b) = b_timer b"
  "b_looked (push_item r b) = b_looked b" "b_late (push_item r b) = b_late b"
  by (simp_all add: push_item_def Let_def)

text \<open>Batches that wait or run have between one item and the batch size, the current one has room.\<close>

definition sizes_ok :: "('r, 'p, 's) Batcher \<Rightarrow> bool" where
  "sizes_ok b \<longleftrightarrow> 0 < b_batch_size b \<and> (\<forall>x \<in> set (batches b). bt_items x \<noteq> [] \<and> length (bt_items x) \<le> b_batch_size b)
     \<and> (\<forall>x. b_current b = Some x \<longrightarrow> length (bt_items x) < b_batch_size b)"

lemma push_item_sizes: "sizes_ok b \<Longrightarrow> sizes_ok (push_item r b)"
  by (auto simp: batches_def sizes_ok_def push_item_def Let_def batch_new_def not_less Suc_leI split: option.splits)

text \<open>The timer looks at the current batch before it is older than the delay and the time the loop took to begin its sleep.\<close>

definition timer_ok :: "nat \<Rightarrow> nat \<Rightarrow> timer \<Rightarrow> nat \<Rightarrow> nat \<Rightarrow> nat option \<Rightarrow> bool" where
  "timer_ok delay now tm looked late created \<longleftrightarrow> looked \<le> now \<and> (\<forall>c. created = Some c \<longrightarrow> c \<le> now)
     \<and> (case tm of
          SleepNext d \<Rightarrow> d \<le> delay \<and> (\<forall>c. created = Some c \<longrightarrow> looked + d \<le> c + delay)
        | SleepUntil t \<Rightarrow> t \<le> looked + late + delay \<and> (\<forall>c. created = Some c \<longrightarrow> t \<le> c + delay + late))"

lemma timer_ok_rules:
  "timer_ok delay now tm looked late created \<Longrightarrow> timer_ok delay (now + d) tm looked late created"
  "timer_ok delay now tm looked late created \<Longrightarrow> timer_ok delay now tm looked late None"
  "timer_ok delay now tm looked late created \<Longrightarrow> timer_ok delay now tm looked late (Some now)"
  "timer_ok delay now (SleepNext d) looked late created \<Longrightarrow> timer_ok delay now (SleepUntil (now + d)) looked (now - looked) created"
  "timer_ok delay now (SleepNext delay) now late None"
  unfolding timer_ok_def by (fastforce split: timer.splits)+

lemma timer_ok_look:
  "timer_ok delay now tm looked late (Some c) \<Longrightarrow> \<not> delay \<le> now - c \<Longrightarrow>
   timer_ok delay now (SleepNext (delay - (now - c))) now late (Some c)"
  unfolding timer_ok_def by (elim conjE) simp

definition deadline_ok :: "('r, 'p, 's) Batcher \<Rightarrow> bool" where
  "deadline_ok b \<longleftrightarrow> timer_ok (b_delay b) (b_now b) (b_timer b) (b_looked b) (b_late b) (map_option bt_created_at (b_current b))"

lemma push_item_deadline: "deadline_ok b \<Longrightarrow> deadline_ok (push_item r b)"
  by (auto simp: deadline_ok_def push_item_def Let_def batch_new_def timer_ok_rules split: option.splits)

lemma batch_loop_deadline: "deadline_ok b \<Longrightarrow> deadline_ok (batch_loop b)"
  by (auto simp: deadline_ok_def batch_loop_def Let_def timer_ok_rules intro: timer_ok_look split: option.splits)

lemma execute_push_outcome:
  assumes "execute_push reqs b = (rxs, b')"
  shows "rxs = [b_next b..<b_next b + length reqs] \<and> b_next b' = b_next b + length reqs
     \<and> mset (all_items (batches b')) = mset (zip reqs rxs) + mset (all_items (batches b))
     \<and> (sizes_ok b \<longrightarrow> sizes_ok b') \<and> (deadline_ok b \<longrightarrow> deadline_ok b')
     \<and> b_batch_size b' = b_batch_size b \<and> b_done b' = b_done b \<and> b_running b' = b_running b \<and> b_channels b' = b_channels b
     \<and> b_semaphore b' = b_semaphore b \<and> b_delay b' = b_delay b"
  using assms
proof (induction reqs arbitrary: b rxs)
  case (Cons r reqs)
  then obtain rs where rs: "execute_push reqs (push_item r b) = (rs, b')" "rxs = b_next b # rs"
    by (auto split: prod.splits)
  have upt: "[b_next b..<b_next b + length (r # reqs)] = b_next b # [Suc (b_next b)..<Suc (b_next b) + length reqs]"
    by (simp add: upt_rec)
  from Cons.IH [OF rs(1)] rs(2) show ?case unfolding upt
    by (auto simp: push_item_items push_item_sizes push_item_deadline)
qed simp

text \<open>What resolving does to the channels.\<close>

lemma resolve_loop:
  "(\<forall>i<n. snd (items ! i) \<noteq> rx) \<Longrightarrow> foldl (\<lambda>ch i. ch(snd (items ! i) \<mapsto> f i)) ch [0..<n] rx = ch rx"
  "i < n \<Longrightarrow> inj_on (\<lambda>i. snd (items ! i)) {..<n} \<Longrightarrow>
     foldl (\<lambda>ch i. ch(snd (items ! i) \<mapsto> f i)) ch [0..<n] (snd (items ! i)) = Some (f i)"
proof (induction n)
  case (Suc n)
  {
    case 1
    then show ?case using Suc(1) by auto
  next
    case 2
    have "inj_on (\<lambda>i. snd (items ! i)) {..<n}" using 2(2) by (rule inj_on_subset) auto
    then show ?case using 2 Suc(2) inj_onD [OF 2(2), of i n] by (cases "i = n") auto
  }
qed auto

lemma resolve_channels:
  assumes "distinct (map snd (bt_items batch))"
  shows "i < length (bt_items batch) \<Longrightarrow>
      resolve exec batch ch (snd (bt_items batch ! i)) = Some (exec (map fst (bt_items batch)) i)"
    "rx \<notin> snd ` set (bt_items batch) \<Longrightarrow> resolve exec batch ch rx = ch rx"
proof -
  have "inj_on (\<lambda>i. snd (bt_items batch ! i)) {..<length (bt_items batch)}"
    using assms by (auto simp: distinct_conv_nth inj_on_def)
  then show "i < length (bt_items batch) \<Longrightarrow>
      resolve exec batch ch (snd (bt_items batch ! i)) = Some (exec (map fst (bt_items batch)) i)"
    unfolding resolve_def Let_def by (intro resolve_loop(2))
  show "rx \<notin> snd ` set (bt_items batch) \<Longrightarrow> resolve exec batch ch rx = ch rx"
    unfolding resolve_def Let_def by (intro resolve_loop(1)) (auto simp: image_iff)
qed

text \<open>The invariant of a run: the requests of all calls are spread over the batches, on distinct channels; the channels
  of the batches that are done, and only those, hold what the executor answered; a running batch holds a ticket each.\<close>

definition answered :: "('r list \<Rightarrow> nat \<Rightarrow> 'p option) \<Rightarrow> (nat \<rightharpoonup> 'p option) \<Rightarrow> 'r Batch \<Rightarrow> bool" where
  "answered exec channels x \<longleftrightarrow>
     (\<forall>i < length (bt_items x). channels (snd (bt_items x ! i)) = Some (exec (map fst (bt_items x)) i))"

definition batcher_inv :: "('r list \<Rightarrow> nat \<Rightarrow> 'p option) \<Rightarrow> ('s \<Rightarrow> nat) \<Rightarrow> nat \<Rightarrow> ('r, 'p, 's) Batcher
    \<Rightarrow> ('r list \<times> nat list) list \<Rightarrow> bool" where
  "batcher_inv exec permits concurrency b calls \<longleftrightarrow>
     sizes_ok b \<and> deadline_ok b
     \<and> permits (b_semaphore b) + length (b_running b) = max concurrency 1
     \<and> (\<forall>(reqs, rxs) \<in> set calls. length rxs = length reqs)
     \<and> mset (all_items (batches b)) = mset (submitted calls)
     \<and> distinct (map snd (submitted calls)) \<and> (\<forall>rx \<in> snd ` set (submitted calls). rx < b_next b)
     \<and> (\<forall>x \<in> set (b_done b). answered exec (b_channels b) x) \<and> dom (b_channels b) = snd ` set (all_items (b_done b))"

lemma batches_distinct:
  assumes "mset (all_items (batches b)) = mset (submitted calls)" "distinct (map snd (submitted calls))"
  shows "distinct (map snd (all_items (batches b)))" "set (all_items (batches b)) = set (submitted calls)"
proof -
  show "set (all_items (batches b)) = set (submitted calls)" using assms(1) by (rule mset_eq_setD)
  have "mset (map snd (all_items (batches b))) = mset (map snd (submitted calls))" using assms(1) by simp
  with assms(2) show "distinct (map snd (all_items (batches b)))" by (rule mset_eq_imp_distinct_iff [THEN iffD2, rotated])
qed

text \<open>Sections that only move batches keep the invariant.\<close>

lemma all_items_mset: "mset xs = mset ys \<Longrightarrow> mset (all_items xs) = mset (all_items ys)"
proof -
  have "mset (all_items xs) = \<Sum>\<^sub># (image_mset (\<lambda>x. mset (bt_items x)) (mset xs))" for xs :: "'r Batch list"
    by (induction xs) simp_all
  then show "mset xs = mset ys \<Longrightarrow> mset (all_items xs) = mset (all_items ys)" by metis
qed

lemma moved_inv:
  assumes inv: "batcher_inv exec permits k b calls" and moved: "mset (batches b') = mset (batches b)"
    and same: "b_batch_size b' = b_batch_size b" "b_next b' = b_next b" "b_current b' = b_current b \<or> b_current b' = None"
    and "deadline_ok b'" "permits (b_semaphore b') + length (b_running b') = permits (b_semaphore b) + length (b_running b)"
    and "\<forall>x \<in> set (b_done b'). answered exec (b_channels b') x" "dom (b_channels b') = snd ` set (all_items (b_done b'))"
  shows "batcher_inv exec permits k b' calls"
proof -
  have "set (batches b') = set (batches b)" using moved by (rule mset_eq_setD)
  then have "sizes_ok b'" using inv same unfolding batcher_inv_def sizes_ok_def by fastforce
  then show ?thesis using assms(1,4,6-) all_items_mset [OF moved] unfolding batcher_inv_def by metis
qed

lemma inv_parts:
  assumes "batcher_inv exec permits k b calls"
  shows "deadline_ok b" "\<And>x. x \<in> set (b_done b) \<Longrightarrow> answered exec (b_channels b) x"
    "dom (b_channels b) = snd ` set (all_items (b_done b))" "distinct (map snd (all_items (batches b)))"
    "set (all_items (batches b)) = set (submitted calls)"
proof -
  from assms have "mset (all_items (batches b)) = mset (submitted calls)" "distinct (map snd (submitted calls))"
    by (simp_all only: batcher_inv_def)
  then show "distinct (map snd (all_items (batches b)))" "set (all_items (batches b)) = set (submitted calls)"
    by (rule batches_distinct)+
  show "deadline_ok b" "\<And>x. x \<in> set (b_done b) \<Longrightarrow> answered exec (b_channels b) x"
    "dom (b_channels b) = snd ` set (all_items (b_done b))"
    using assms by (simp_all only: batcher_inv_def)
qed

lemma call_inv:
  assumes "batcher_inv exec permits k b calls" "execute_push reqs b = (rxs, b')"
  shows "batcher_inv exec permits k b' (calls @ [(reqs, rxs)])"
proof -
  note push = execute_push_outcome [OF assms(2)]
  have inv: "distinct (map snd (submitted calls))" "\<And>rx. rx \<in> snd ` set (submitted calls) \<Longrightarrow> rx < b_next b"
    using assms(1) unfolding batcher_inv_def by blast+
  have "length rxs = length reqs" using push by simp
  then have zip: "map snd (zip reqs rxs) = rxs" by simp
  then have fresh: "snd ` set (zip reqs rxs) = {b_next b..<b_next b + length reqs}"
    using push by (metis atLeastLessThan_upt list.set_map)
  have "distinct rxs" "set rxs = {b_next b..<b_next b + length reqs}" using push by simp_all
  moreover from this(2) have "snd ` set (submitted calls) \<inter> set rxs = {}" using inv(2) by fastforce
  ultimately have "distinct (map snd (submitted (calls @ [(reqs, rxs)])))"
    using inv(1) zip by (simp only: submitted_simps map_append distinct_append set_map)
  moreover have "rx < b_next b'" if "rx \<in> snd ` set (submitted (calls @ [(reqs, rxs)]))" for rx
    using that push fresh inv(2) [of rx] by (simp only: submitted_simps set_append image_Un Un_iff atLeastLessThan_iff) linarith
  ultimately show ?thesis using assms(1) push \<open>length rxs = length reqs\<close> by (simp add: batcher_inv_def)
qed

lemma wake_inv:
  assumes "batcher_inv exec permits k b calls"
  shows "batcher_inv exec permits k (batch_loop b) calls"
proof (rule moved_inv [OF assms])
  show "mset (batches (batch_loop b)) = mset (batches b)"
    by (simp add: batches_def batch_loop_def Let_def split: option.split)
  show "deadline_ok (batch_loop b)"
    by (rule batch_loop_deadline [OF inv_parts(1) [OF assms]])
qed (use inv_parts [OF assms] in \<open>simp_all add: batch_loop_def Let_def split: option.split\<close>)

lemma start_inv:
  assumes inv: "batcher_inv exec permits k b calls" and sem: "semaphore_ok sem permits"
    and start: "b_spawned b = xs @ batch # ys" "sem_acquire sem (b_semaphore b) = Some s"
  shows "batcher_inv exec permits k (b\<lparr>b_spawned := xs @ ys, b_running := b_running b @ [batch], b_semaphore := s\<rparr>) calls"
proof (rule moved_inv [OF inv])
  have "permits (b_semaphore b) = Suc (permits s)"
    using sem start(2) by (auto simp: semaphore_ok_def dest!: spec [of _ "b_semaphore b"])
  then show "permits (b_semaphore (b\<lparr>b_spawned := xs @ ys, b_running := b_running b @ [batch], b_semaphore := s\<rparr>))
      + length (b_running (b\<lparr>b_spawned := xs @ ys, b_running := b_running b @ [batch], b_semaphore := s\<rparr>))
    = permits (b_semaphore b) + length (b_running b)" by simp
qed (use inv_parts [OF inv] start(1) in \<open>simp_all add: batches_def deadline_ok_def\<close>)

lemma finish_inv:
  assumes inv: "batcher_inv exec permits k b calls" and sem: "semaphore_ok sem permits" and run: "b_running b = xs @ batch # ys"
  shows "batcher_inv exec permits k (b\<lparr>b_running := xs @ ys, b_done := b_done b @ [batch],
      b_channels := resolve exec batch (b_channels b), b_semaphore := sem_release sem (b_semaphore b)\<rparr>) calls"
    (is "batcher_inv _ _ _ ?b _")
proof (rule moved_inv [OF inv])
  have d: "distinct (map snd (bt_items batch))" "snd ` set (all_items (b_done b)) \<inter> snd ` set (bt_items batch) = {}"
    using inv_parts(4) [OF inv] run by (simp_all add: batches_def) blast
  note ch = resolve_channels [OF d(1), of _ exec "b_channels b"]
  have "answered exec (resolve exec batch (b_channels b)) x" if x: "x \<in> set (b_done b)" for x
  proof -
    have "snd (bt_items x ! i) \<notin> snd ` set (bt_items batch)" if "i < length (bt_items x)" for i
    proof -
      have "bt_items x ! i \<in> set (all_items (b_done b))" using x that nth_mem by (fastforce simp: all_items_def)
      then show ?thesis using d(2) by blast
    qed
    then show ?thesis using inv_parts(2) [OF inv x] ch(2) by (simp add: answered_def)
  qed
  moreover have "answered exec (resolve exec batch (b_channels b)) batch" using ch(1) by (simp add: answered_def)
  ultimately show "\<forall>x \<in> set (b_done ?b). answered exec (b_channels ?b) x" by simp
  have "rx \<in> dom (resolve exec batch (b_channels b)) \<longleftrightarrow> rx \<in> dom (b_channels b) \<union> snd ` set (bt_items batch)" for rx
  proof (cases "rx \<in> snd ` set (bt_items batch)")
    case True
    then obtain i where "i < length (bt_items batch)" "rx = snd (bt_items batch ! i)" by (metis imageE in_set_conv_nth)
    with ch(1) True show ?thesis by (simp add: domIff)
  qed (simp add: ch(2) domIff)
  then show "dom (b_channels ?b) = snd ` set (all_items (b_done ?b))"
    using inv_parts(3) [OF inv] by (simp add: image_Un set_eq_iff)
  show "permits (b_semaphore ?b) + length (b_running ?b) = permits (b_semaphore b) + length (b_running b)"
    using sem run by (simp add: semaphore_ok_def)
qed (use inv_parts(1) [OF inv] run in \<open>simp_all add: batches_def deadline_ok_def\<close>)

lemma batcher_run_inv:
  assumes "batcher_run sem exec n k delay b calls" "semaphore_ok sem permits"
  shows "batcher_inv exec permits k b calls" "b_batch_size b = max n 1" "b_delay b = delay"
proof -
  have "batcher_inv exec permits k b calls \<and> b_batch_size b = max n 1 \<and> b_delay b = delay"
    using assms(1)
  proof (induction rule: batcher_run.induct)
    case init
    have "permits (sem_new sem (max k 1)) = max k 1" using assms(2) by (simp add: semaphore_ok_def)
    then show ?case by (simp add: batcher_inv_def batcher_new_def batches_def sizes_ok_def deadline_ok_def timer_ok_rules)
  next
    case (step b calls op b')
    then have IH: "batcher_inv exec permits k b calls" "b_batch_size b = max n 1" "b_delay b = delay" by simp_all
    from step.hyps(2) show ?case
    proof cases
      case (tick d)
      have "batcher_inv exec permits k b' calls"
        by (rule moved_inv [OF IH(1)]) (use inv_parts [OF IH(1)] tick in \<open>simp_all add: batches_def deadline_ok_def timer_ok_rules\<close>)
      then show ?thesis using IH tick by simp
    next
      case (call reqs rxs)
      then show ?thesis using call_inv [OF IH(1) call(2)] execute_push_outcome [OF call(2)] IH by simp
    next
      case (sleep d)
      have "batcher_inv exec permits k b' calls"
        by (rule moved_inv [OF IH(1)]) (use inv_parts [OF IH(1)] sleep in \<open>simp_all add: batches_def deadline_ok_def timer_ok_rules\<close>)
      then show ?thesis using IH sleep by simp
    next
      case (wake t)
      then show ?thesis using wake_inv [OF IH(1)] IH by (simp add: batch_loop_def Let_def split: option.split)
    next
      case (start xs batch ys s)
      then show ?thesis using start_inv [OF IH(1) assms(2) start(3,4)] IH by simp
    next
      case (finish xs batch ys)
      then show ?thesis using finish_inv [OF IH(1) assms(2) finish(3)] IH by simp
    qed
  qed
  then show "batcher_inv exec permits k b calls" "b_batch_size b = max n 1" "b_delay b = delay" by simp_all
qed

section \<open>Properties\<close>

text \<open>C36: in every run of the batcher, at most as many batches run at once as the concurrency allows; every batch that waits, runs
  or is done has at least one request and at most the batch size; and while the timer sleeps, its sleep ends before the current
  batch is older than the delay and the time the timer loop took from its last look at the current batch (or from its spawning, for
  the first sleep) to the beginning of the sleep. While it is about to sleep, the time it will sleep for, counted from that look,
  ends before the batch is older than the delay; and the round after a sleep spawns a batch that is as old as the delay.\<close>

theorem batcher_bounds:
  assumes "semaphore_ok sem permits" "batcher_run sem exec batch_size concurrency delay b calls"
  shows "length (b_running b) \<le> max concurrency 1
     \<and> (\<forall>x \<in> set (batches b). 1 \<le> length (bt_items x) \<and> length (bt_items x) \<le> max batch_size 1)
     \<and> (\<forall>x. b_current b = Some x \<longrightarrow>
          (\<forall>t. b_timer b = SleepUntil t \<longrightarrow> t \<le> bt_created_at x + delay + b_late b)
          \<and> (\<forall>d. b_timer b = SleepNext d \<longrightarrow> b_looked b + d \<le> bt_created_at x + delay)
          \<and> (bt_created_at x + delay \<le> b_now b \<longrightarrow> x \<in> set (b_spawned (batch_loop b)) \<and> b_current (batch_loop b) = None))"
proof -
  note inv = batcher_run_inv [OF assms(2,1)]
  have "sizes_ok b" "permits (b_semaphore b) + length (b_running b) = max concurrency 1"
    using inv(1) unfolding batcher_inv_def by blast+
  moreover have "t \<le> bt_created_at x + delay + b_late b" if "b_current b = Some x" "b_timer b = SleepUntil t" for x t
    using inv_parts(1) [OF inv(1)] inv(3) that by (simp add: deadline_ok_def timer_ok_def)
  moreover have "b_looked b + d \<le> bt_created_at x + delay" if "b_current b = Some x" "b_timer b = SleepNext d" for x d
    using inv_parts(1) [OF inv(1)] inv(3) that by (simp add: deadline_ok_def timer_ok_def)
  moreover have "x \<in> set (b_spawned (batch_loop b)) \<and> b_current (batch_loop b) = None"
    if "b_current b = Some x" "bt_created_at x + delay \<le> b_now b" for x
    using that inv(3) by (simp add: batch_loop_def)
  ultimately show ?thesis using inv(2) unfolding sizes_ok_def
    by (auto simp del: max_Suc_Suc simp: Suc_le_eq)
qed

lemma execute_await_Some: "execute_await rxs b = Some results \<longleftrightarrow> map (b_channels b) rxs = map Some results"
proof (induction rxs arbitrary: results)
  case (Cons rx rxs)
  then show ?case by (cases results) (auto split: option.split)
qed auto

lemma answer_of:
  assumes "batcher_inv exec permits k b calls" "(r, rx) \<in> set (submitted calls)" "b_channels b rx = Some p"
  shows "\<exists>x \<in> set (b_done b). \<exists>j < length (bt_items x). bt_items x ! j = (r, rx) \<and> p = exec (map fst (bt_items x)) j"
proof -
  note inv = inv_parts [OF assms(1)]
  have "rx \<in> snd ` set (all_items (b_done b))" using inv(3) assms(3) by blast
  then obtain q where q: "(q, rx) \<in> set (all_items (b_done b))" by auto
  then have "(q, rx) \<in> set (all_items (batches b))" by (simp add: batches_def)
  moreover have "(r, rx) \<in> set (all_items (batches b))" using assms(2) inv(5) by blast
  ultimately have "q = r" using inv(4) by (metis (no_types, lifting) distinct_map fst_conv inj_onD snd_conv)
  with q obtain x where x: "x \<in> set (b_done b)" "(r, rx) \<in> set (bt_items x)" by (auto simp: all_items_def)
  then obtain j where j: "j < length (bt_items x)" "bt_items x ! j = (r, rx)" by (metis in_set_conv_nth)
  then have "b_channels b rx = Some (exec (map fst (bt_items x)) j)"
    using inv(2) [OF x(1)] unfolding answered_def by (metis snd_conv)
  with x(1) j assms(3) show ?thesis by auto
qed

text \<open>C35: whatever the interleaving, the results of \<^verbatim>\<open>execute_many\<close> are as many as the requests and in their order, and each is what the
  executor answered at the place of that request in the one batch it was executed in; no request is in two batches, none
  is lost, and once no batch waits or runs every call has its results.\<close>

theorem batcher_answers:
  assumes sem: "semaphore_ok sem permits" and run: "batcher_run sem exec batch_size concurrency delay b calls"
  shows "distinct (map snd (all_items (batches b))) \<and> mset (all_items (batches b)) = mset (submitted calls)
     \<and> (\<forall>(reqs, rxs) \<in> set calls.
         (batches b = b_done b \<longrightarrow> execute_await rxs b \<noteq> None)
         \<and> (\<forall>results. execute_await rxs b = Some results \<longrightarrow> length results = length reqs \<and>
              (\<forall>i < length reqs. \<exists>x \<in> set (b_done b). \<exists>j < length (bt_items x).
                 bt_items x ! j = (reqs ! i, rxs ! i) \<and> results ! i = exec (map fst (bt_items x)) j)))"
proof -
  note inv = batcher_run_inv(1) [OF run sem]
  note parts = inv_parts [OF inv]
  have len: "length rxs = length reqs" if "(reqs, rxs) \<in> set calls" for reqs rxs
    using inv that unfolding batcher_inv_def by blast
  have item: "(reqs ! i, rxs ! i) \<in> set (submitted calls)" if "(reqs, rxs) \<in> set calls" "i < length reqs" for reqs rxs i
  proof -
    have "(reqs ! i, rxs ! i) \<in> set (zip reqs rxs)" using that len [OF that(1)] by (auto simp: set_zip)
    then show ?thesis using that(1) by (auto simp: submitted_def)
  qed
  have "execute_await rxs b \<noteq> None" if call: "(reqs, rxs) \<in> set calls" and all: "batches b = b_done b" for reqs rxs
  proof -
    have "\<exists>p. b_channels b (rxs ! i) = Some p" if "i < length rxs" for i
      using item [OF call, of i] parts(3,5) all that len [OF call] by (metis domD image_eqI snd_conv)
    then have "map (b_channels b) rxs = map Some (map (\<lambda>rx. the (b_channels b rx)) rxs)"
      by (auto simp: list_eq_iff_nth_eq)
    then show ?thesis using execute_await_Some by (metis option.distinct(1))
  qed
  moreover have "length results = length reqs \<and> (\<forall>i < length reqs. \<exists>x \<in> set (b_done b). \<exists>j < length (bt_items x).
      bt_items x ! j = (reqs ! i, rxs ! i) \<and> results ! i = exec (map fst (bt_items x)) j)"
    if call: "(reqs, rxs) \<in> set calls" and res: "execute_await rxs b = Some results" for reqs rxs results
  proof -
    have eq: "map (b_channels b) rxs = map Some results" using res execute_await_Some by blast
    then have lr: "length results = length reqs" using len [OF call] by (metis length_map)
    have "b_channels b (rxs ! i) = Some (results ! i)" if "i < length reqs" for i
      using arg_cong [OF eq, of "\<lambda>xs. xs ! i"] that lr len [OF call] by simp
    then show ?thesis using lr answer_of [OF inv item [OF call]] by blast
  qed
  moreover have "mset (all_items (batches b)) = mset (submitted calls)" using inv by (simp only: batcher_inv_def)
  ultimately show ?thesis using parts(4) by blast
qed

section \<open>An example\<close>

definition counter_semaphore :: "nat semaphore" where
  "counter_semaphore = \<lparr>sem_new = \<lambda>n. n, sem_acquire = \<lambda>s. if s = 0 then None else Some (s - 1), sem_release = Suc\<rparr>"

lemma counter_semaphore_ok: "semaphore_ok counter_semaphore (\<lambda>n. n)"
  by (simp add: semaphore_ok_def counter_semaphore_def)

definition double_all :: "nat list \<Rightarrow> nat \<Rightarrow> nat option" where
  "double_all reqs i = (if reqs ! i = 0 then None else Some (2 * reqs ! i))"

text \<open>Three requests with batches of two and a concurrency of one: the first two are executed, the third waits for the timer.\<close>

definition example_batcher :: "(nat, nat, nat) Batcher" where
  "example_batcher = \<lparr>b_semaphore = 1, b_current = Some \<lparr>bt_items = [(7, 2)], bt_created_at = 0\<rparr>, b_batch_size = 2, b_delay = 5,
     b_next = 3, b_spawned = [], b_running = [], b_done = [\<lparr>bt_items = [(4, 0), (0, 1)], bt_created_at = 0\<rparr>],
     b_channels = [0 \<mapsto> Some 8, 1 \<mapsto> None], b_now = 0, b_timer = SleepUntil 5, b_looked = 0, b_late = 0\<rparr>"

lemma example_batcher_run: "batcher_run counter_semaphore double_all 2 1 5 example_batcher [([4, 0, 7], [0, 1, 2])]"
proof -
  let ?x = "\<lparr>bt_items = [(4, 0), (0, 1)], bt_created_at = 0\<rparr> :: nat Batch"
  let ?calls = "[([4, 0, 7], [0, 1, 2])] :: (nat list \<times> nat list) list"
  let ?run = "batcher_run counter_semaphore double_all 2 1 5"
  define b0 where "b0 = timer_sleep (batcher_new counter_semaphore 2 1 5 :: (nat, nat, nat) Batcher) 5"
  define b1 where "b1 = example_batcher\<lparr>b_spawned := [?x], b_done := [], b_channels := Map.empty\<rparr>"
  define b2 where "b2 = b1\<lparr>b_spawned := [] @ [], b_running := b_running b1 @ [?x], b_semaphore := 0\<rparr>"
  have "batcher_step counter_semaphore double_all (batcher_new counter_semaphore 2 1 5) Sleep b0"
    unfolding b0_def by (rule sleep) (simp add: batcher_new_def)
  from batcher_run.step [OF batcher_run.init this] have "?run b0 []" by simp
  moreover have "execute_push [4, 0, 7] b0 = ([0, 1, 2], b1)"
    by (simp add: b0_def push_item_def batcher_new_def batch_new_def b1_def example_batcher_def counter_semaphore_def)
  ultimately have "?run b1 ?calls"
    using batcher_run.step [of counter_semaphore double_all 2 1 5 b0 "[]" "Call [4, 0, 7] [0, 1, 2]" b1] by (simp add: call)
  moreover have "batcher_step counter_semaphore double_all b1 Start b2"
    unfolding b2_def by (rule start) (simp_all add: b1_def example_batcher_def counter_semaphore_def)
  ultimately have "?run b2 (?calls @ calls_of (Start :: nat batcher_op))" by (rule batcher_run.step)
  moreover have "batcher_step counter_semaphore double_all b2 Finish (b2\<lparr>b_running := [] @ [], b_done := b_done b2 @ [?x],
      b_channels := resolve double_all ?x (b_channels b2), b_semaphore := sem_release counter_semaphore (b_semaphore b2)\<rparr>)"
    by (rule finish) (simp add: b2_def b1_def example_batcher_def)
  moreover have "b2\<lparr>b_running := [] @ [], b_done := b_done b2 @ [?x], b_channels := resolve double_all ?x (b_channels b2),
      b_semaphore := sem_release counter_semaphore (b_semaphore b2)\<rparr> = example_batcher"
    by (simp add: b2_def b1_def example_batcher_def resolve_def double_all_def counter_semaphore_def upt_rec)
  ultimately show ?thesis using batcher_run.step [of counter_semaphore double_all 2 1 5 b2 ?calls Finish] by simp
qed

theorem batcher_bounds_witness:
  "length (b_running example_batcher) \<le> 1 \<and> list_all (\<lambda>x. 1 \<le> length (bt_items x) \<and> length (bt_items x) \<le> 2) (batches example_batcher)
   \<and> b_timer example_batcher = SleepUntil 5 \<and> 5 \<le> 0 + 5 + b_late example_batcher"
  using batcher_bounds [OF counter_semaphore_ok example_batcher_run]
  by (simp add: list_all_iff numeral_2_eq_2) (simp add: example_batcher_def)

theorem batcher_answers_witness:
  "execute_await [0, 1] example_batcher = Some [Some 8, None]
   \<and> mset (all_items (batches example_batcher)) = mset (submitted [([4, 0, 7], [0, 1, 2])])"
  using batcher_answers [OF counter_semaphore_ok example_batcher_run] by (simp add: example_batcher_def)

end
