(* ===== verification/Dataloader.thy ===== *)
theory Dataloader
  imports Batching
begin

text \<open>
  The data loader (\<^verbatim>\<open>crates/batching/src/dataloader.rs\<close>): as the batcher, but keys are gathered in a set, so that a key that several
  clients want is fetched once, and a batch has one result that all its clients read. The fetcher is the parameter \<open>fetch\<close>: the
  values of a set of keys, or nothing on an error. A run is an interleaving of the sections between suspension points.
\<close>

section \<open>State and operations\<close>

record 'k LBatch =
  lb_items :: "'k set"
  lb_result :: nat
  lb_created_at :: nat

text \<open>The part of a call that waits for one batch: the keys it put there, and the number of the result.\<close>

type_synonym 'k waiting = "'k set \<times> nat"

record ('k, 'v, 's) DataLoader =
  dl_semaphore :: 's
  dl_current :: "'k LBatch option"
  dl_batch_size :: nat
  dl_delay :: nat
  dl_next :: nat
  dl_spawned :: "'k LBatch list"
  dl_running :: "'k LBatch list"
  dl_done :: "'k LBatch list"
  dl_results :: "nat \<rightharpoonup> ('k \<rightharpoonup> 'v) option"
  dl_now :: nat
  dl_timer :: timer
  dl_looked :: nat
  dl_late :: nat

record DataLoaderBuilder =
  lbb_batch_size :: nat
  lbb_concurrency :: nat
  lbb_delay :: nat

definition loader_builder_new :: DataLoaderBuilder where
  "loader_builder_new = \<lparr>lbb_batch_size = 1000, lbb_concurrency = 50, lbb_delay = 5\<rparr>"

definition loader_with_batch_size :: "nat \<Rightarrow> DataLoaderBuilder \<Rightarrow> DataLoaderBuilder" where
  "loader_with_batch_size n b = b\<lparr>lbb_batch_size := n\<rparr>"

definition loader_with_concurrency :: "nat \<Rightarrow> DataLoaderBuilder \<Rightarrow> DataLoaderBuilder" where
  "loader_with_concurrency n b = b\<lparr>lbb_concurrency := n\<rparr>"

definition loader_with_delay :: "nat \<Rightarrow> DataLoaderBuilder \<Rightarrow> DataLoaderBuilder" where
  "loader_with_delay d b = b\<lparr>lbb_delay := d\<rparr>"

definition loader_new :: "'s semaphore \<Rightarrow> nat \<Rightarrow> nat \<Rightarrow> nat \<Rightarrow> ('k, 'v, 's) DataLoader" where
  "loader_new sem batch_size concurrency delay =
     \<lparr>dl_semaphore = sem_new sem (max concurrency 1), dl_current = None, dl_batch_size = max batch_size 1, dl_delay = delay,
      dl_next = 0, dl_spawned = [], dl_running = [], dl_done = [], dl_results = Map.empty, dl_now = 0,
      dl_timer = SleepNext delay, dl_looked = 0, dl_late = 0\<rparr>"

definition loader_build :: "'s semaphore \<Rightarrow> DataLoaderBuilder \<Rightarrow> ('k, 'v, 's) DataLoader" where
  "loader_build sem b = loader_new sem (lbb_batch_size b) (lbb_concurrency b) (lbb_delay b)"

definition lbatch_new :: "nat \<Rightarrow> nat \<Rightarrow> 'k LBatch" where
  "lbatch_new result now = \<lparr>lb_items = {}, lb_result = result, lb_created_at = now\<rparr>"

text \<open>The key joins the last of the waiting parts; there is one, since the first key of a call makes one.\<close>

fun add_key :: "'k \<Rightarrow> 'k waiting list \<Rightarrow> 'k waiting list" where
  "add_key key [] = []"
| "add_key key [(keys, result)] = [(insert key keys, result)]"
| "add_key key (w # ws) = w # add_key key ws"

text \<open>One round of the loop of \<^verbatim>\<open>load_many\<close>; the state is the flag \<^verbatim>\<open>new_batch\<close>, the waiting parts and the loader.\<close>

definition current_batch :: "bool \<Rightarrow> ('k, 'v, 's) DataLoader \<Rightarrow> 'k LBatch \<times> bool \<times> ('k, 'v, 's) DataLoader" where
  "current_batch new_batch b = (case dl_current b of
       None \<Rightarrow> (lbatch_new (dl_next b) (dl_now b), True, b\<lparr>dl_next := dl_next b + 1\<rparr>)
     | Some batch \<Rightarrow> (batch, new_batch, b))"

definition push_key :: "'k \<Rightarrow> bool \<times> 'k waiting list \<times> ('k, 'v, 's) DataLoader \<Rightarrow> bool \<times> 'k waiting list \<times> ('k, 'v, 's) DataLoader" where
  "push_key key = (\<lambda>(new_batch, waiters, b).
     let (batch, new_batch, b) = current_batch new_batch b;
         batch = batch\<lparr>lb_items := insert key (lb_items batch)\<rparr>;
         waiters = (if new_batch then waiters @ [({}, lb_result batch)] else waiters)
     in (False, add_key key waiters,
         if card (lb_items batch) \<ge> dl_batch_size b then b\<lparr>dl_current := None, dl_spawned := dl_spawned b @ [batch]\<rparr>
         else b\<lparr>dl_current := Some batch\<rparr>))"

fun load_loop :: "'k list \<Rightarrow> bool \<times> 'k waiting list \<times> ('k, 'v, 's) DataLoader \<Rightarrow> bool \<times> 'k waiting list \<times> ('k, 'v, 's) DataLoader" where
  "load_loop [] st = st"
| "load_loop (key # keys) st = load_loop keys (push_key key st)"

definition load_push :: "'k list \<Rightarrow> ('k, 'v, 's) DataLoader \<Rightarrow> 'k waiting list \<times> ('k, 'v, 's) DataLoader" where
  "load_push keys b = snd (load_loop keys (True, [], b))"

text \<open>\<^verbatim>\<open>BatchResult::wait\<close>, and the end of \<^verbatim>\<open>load_many\<close>: \<open>None\<close> while a result is awaited, an error as soon as a batch has none.\<close>

definition result_wait :: "nat \<Rightarrow> ('k, 'v, 's) DataLoader \<Rightarrow> (unit, 'k \<rightharpoonup> 'v) result option" where
  "result_wait result b = map_option (\<lambda>r. case r of None \<Rightarrow> Err () | Some values \<Rightarrow> Ok values) (dl_results b result)"

fun load_await :: "'k waiting list \<Rightarrow> ('k \<rightharpoonup> 'v) \<Rightarrow> ('k, 'v, 's) DataLoader \<Rightarrow> (unit, 'k \<rightharpoonup> 'v) result option" where
  "load_await [] results b = Some (Ok results)"
| "load_await ((keys, result) # ws) results b = (case result_wait result b of
       Some (Ok values) \<Rightarrow> load_await ws (results ++ (values |` keys)) b
     | r \<Rightarrow> r)"

text \<open>\<^verbatim>\<open>load\<close> takes the first value of the map for its one key, which has no other key.\<close>

definition load_one :: "'k \<Rightarrow> (unit, 'k \<rightharpoonup> 'v) result \<Rightarrow> (unit, 'v option) result" where
  "load_one key r = rbind r (\<lambda>values. Ok (values key))"

fun ltimer_sleep :: "('k, 'v, 's) DataLoader \<Rightarrow> nat \<Rightarrow> ('k, 'v, 's) DataLoader" where
  "ltimer_sleep b delay_delta = b\<lparr>dl_timer := SleepUntil (dl_now b + delay_delta), dl_late := dl_now b - dl_looked b\<rparr>"

definition lbatch_loop :: "('k, 'v, 's) DataLoader \<Rightarrow> ('k, 'v, 's) DataLoader" where
  "lbatch_loop b =
     (case dl_current b of
        None \<Rightarrow> b\<lparr>dl_looked := dl_now b, dl_timer := SleepNext (dl_delay b)\<rparr>
      | Some batch \<Rightarrow>
          let remaining = dl_delay b - (dl_now b - lb_created_at batch) in
          if remaining = 0
          then b\<lparr>dl_current := None, dl_spawned := dl_spawned b @ [batch], dl_looked := dl_now b, dl_timer := SleepNext (dl_delay b)\<rparr>
          else b\<lparr>dl_looked := dl_now b, dl_timer := SleepNext remaining\<rparr>)"

datatype 'k loader_op = LTick nat | LCall "'k list" "'k waiting list" | LSleep | LWake | LStart | LFinish

inductive loader_step :: "'s semaphore \<Rightarrow> ('k set \<Rightarrow> ('k \<rightharpoonup> 'v) option) \<Rightarrow> ('k, 'v, 's) DataLoader \<Rightarrow> 'k loader_op
    \<Rightarrow> ('k, 'v, 's) DataLoader \<Rightarrow> bool" for sem fetch where
  ltick: "loader_step sem fetch b (LTick d) (b\<lparr>dl_now := dl_now b + d\<rparr>)"
| lcall: "load_push keys b = (ws, b') \<Longrightarrow> loader_step sem fetch b (LCall keys ws) b'"
| lsleep: "dl_timer b = SleepNext delay_delta \<Longrightarrow> loader_step sem fetch b LSleep (ltimer_sleep b delay_delta)"
| lwake: "dl_timer b = SleepUntil t \<Longrightarrow> t \<le> dl_now b \<Longrightarrow> loader_step sem fetch b LWake (lbatch_loop b)"
| lstart: "dl_spawned b = xs @ batch # ys \<Longrightarrow> sem_acquire sem (dl_semaphore b) = Some s \<Longrightarrow>
    loader_step sem fetch b LStart (b\<lparr>dl_spawned := xs @ ys, dl_running := dl_running b @ [batch], dl_semaphore := s\<rparr>)"
| lfinish: "dl_running b = xs @ batch # ys \<Longrightarrow>
    loader_step sem fetch b LFinish (b\<lparr>dl_running := xs @ ys, dl_done := dl_done b @ [batch],
      dl_results := (dl_results b)(lb_result batch \<mapsto> fetch (lb_items batch)), dl_semaphore := sem_release sem (dl_semaphore b)\<rparr>)"

fun loads_of :: "'k loader_op \<Rightarrow> ('k list \<times> 'k waiting list) list" where
  "loads_of (LCall keys ws) = [(keys, ws)]"
| "loads_of _ = []"

inductive loader_run :: "'s semaphore \<Rightarrow> ('k set \<Rightarrow> ('k \<rightharpoonup> 'v) option) \<Rightarrow> nat \<Rightarrow> nat \<Rightarrow> nat \<Rightarrow> ('k, 'v, 's) DataLoader
    \<Rightarrow> ('k list \<times> 'k waiting list) list \<Rightarrow> bool" for sem fetch batch_size concurrency delay where
  linit: "loader_run sem fetch batch_size concurrency delay (loader_new sem batch_size concurrency delay) []"
| lstep: "loader_run sem fetch batch_size concurrency delay b calls \<Longrightarrow> loader_step sem fetch b op b' \<Longrightarrow>
    loader_run sem fetch batch_size concurrency delay b' (calls @ loads_of op)"

section \<open>Invariant\<close>

definition lbatches :: "('k, 'v, 's) DataLoader \<Rightarrow> 'k LBatch list" where
  "lbatches b = dl_done b @ dl_running b @ dl_spawned b @ (case dl_current b of None \<Rightarrow> [] | Some batch \<Rightarrow> [batch])"

definition lbatch_ok :: "nat \<Rightarrow> 'k LBatch \<Rightarrow> bool" where
  "lbatch_ok n x \<longleftrightarrow> finite (lb_items x) \<and> lb_items x \<noteq> {} \<and> card (lb_items x) \<le> n"

definition lsizes_ok :: "('k, 'v, 's) DataLoader \<Rightarrow> bool" where
  "lsizes_ok b \<longleftrightarrow> 0 < dl_batch_size b \<and> (\<forall>x \<in> set (lbatches b). lbatch_ok (dl_batch_size b) x)
     \<and> (\<forall>x. dl_current b = Some x \<longrightarrow> card (lb_items x) < dl_batch_size b)
     \<and> distinct (map lb_result (lbatches b)) \<and> (\<forall>x \<in> set (lbatches b). lb_result x < dl_next b)"

text \<open>A waiting part is served by the batch with its result, which has all its keys.\<close>

definition served :: "('k, 'v, 's) DataLoader \<Rightarrow> 'k waiting \<Rightarrow> bool" where
  "served b w \<longleftrightarrow> (\<exists>x \<in> set (lbatches b). lb_result x = snd w \<and> fst w \<subseteq> lb_items x)"

text \<open>The batches but the current one, and what a round does to the batches.\<close>

abbreviation old_batches :: "('k, 'v, 's) DataLoader \<Rightarrow> 'k LBatch list" where
  "old_batches b \<equiv> dl_done b @ dl_running b @ dl_spawned b"

abbreviation with_key :: "'k \<Rightarrow> 'k LBatch \<Rightarrow> 'k LBatch" where
  "with_key key x \<equiv> x\<lparr>lb_items := insert key (lb_items x)\<rparr>"

lemma lbatches_current: "lbatches b = old_batches b @ (case dl_current b of None \<Rightarrow> [] | Some x \<Rightarrow> [x])"
  by (simp add: lbatches_def)

lemma push_key_result:
  assumes "push_key key (nb, ws, b) = (nb', ws', b')"
  obtains x nb1 where "lbatches b' = old_batches b @ [with_key key x]" "\<not> nb'"
    "ws' = add_key key (if nb1 then ws @ [({}, lb_result x)] else ws)"
    "dl_current b = None \<and> x = lbatch_new (dl_next b) (dl_now b) \<and> nb1 \<and> dl_next b' = Suc (dl_next b)
     \<or> dl_current b = Some x \<and> nb1 = nb \<and> dl_next b' = dl_next b"
    "dl_current b' = (if card (lb_items (with_key key x)) \<ge> dl_batch_size b then None else Some (with_key key x))"
    "dl_done b' = dl_done b" "dl_running b' = dl_running b" "dl_semaphore b' = dl_semaphore b" "dl_results b' = dl_results b"
    "dl_batch_size b' = dl_batch_size b" "dl_now b' = dl_now b" "dl_timer b' = dl_timer b" "dl_delay b' = dl_delay b"
    "dl_looked b' = dl_looked b" "dl_late b' = dl_late b"
proof (cases "dl_current b")
  case None
  show thesis
    by (rule that [of "lbatch_new (dl_next b) (dl_now b)" True])
      (use assms None in \<open>auto simp: push_key_def current_batch_def Let_def lbatches_def lbatch_new_def split: if_splits\<close>)
next
  case (Some x)
  show thesis
    by (rule that [of x nb])
      (use assms Some in \<open>auto simp: push_key_def current_batch_def Let_def lbatches_def split: if_splits\<close>)
qed

lemma push_key_sizes:
  assumes "push_key key (nb, ws, b) = (nb', ws', b')" "lsizes_ok b"
  shows "lsizes_ok b'"
  using assms(1)
proof (cases rule: push_key_result)
  case (1 x nb1)
  have n: "0 < dl_batch_size b" and old: "\<forall>y \<in> set (old_batches b). lbatch_ok (dl_batch_size b) y \<and> lb_result y < dl_next b"
    "distinct (map lb_result (old_batches b))"
    using assms(2) unfolding lsizes_ok_def lbatches_current by auto
  have x: "finite (lb_items x)" "card (lb_items x) < dl_batch_size b" "lb_result x \<notin> lb_result ` set (old_batches b)"
    "lb_result x < dl_next b'" "dl_next b \<le> dl_next b'"
    using 1(4) assms(2) n old unfolding lsizes_ok_def lbatches_current by (auto simp: lbatch_new_def lbatch_ok_def)
  have c: "card (lb_items (with_key key x)) \<le> dl_batch_size b" using x(1,2) by (simp add: card_insert_if)
  have "\<forall>y \<in> set (lbatches b'). lbatch_ok (dl_batch_size b) y \<and> lb_result y < dl_next b'"
    unfolding 1(1) using old(1) x c by (auto simp: lbatch_ok_def intro: less_le_trans)
  moreover have "distinct (map lb_result (lbatches b'))" unfolding 1(1) using old(2) x(3) by (simp add: image_Un)
  ultimately show ?thesis using n 1(5,10) unfolding lsizes_ok_def by (simp split: if_splits)
qed

text \<open>The timer of the loader, as that of the batcher.\<close>

definition ldeadline_ok :: "('k, 'v, 's) DataLoader \<Rightarrow> bool" where
  "ldeadline_ok b \<longleftrightarrow> timer_ok (dl_delay b) (dl_now b) (dl_timer b) (dl_looked b) (dl_late b) (map_option lb_created_at (dl_current b))"

lemma push_key_deadline:
  assumes "push_key key (nb, ws, b) = (nb', ws', b')" "ldeadline_ok b"
  shows "ldeadline_ok b'"
  using assms(1)
proof (cases rule: push_key_result)
  case (1 x nb1)
  then show ?thesis using assms(2) by (auto simp: ldeadline_ok_def lbatch_new_def timer_ok_rules)
qed

text \<open>The state of the loop: the parts so far are served, and the last of them waits for the current batch.\<close>

definition loop_ok :: "bool \<Rightarrow> 'k waiting list \<Rightarrow> ('k, 'v, 's) DataLoader \<Rightarrow> bool" where
  "loop_ok nb ws b \<longleftrightarrow> (\<forall>w \<in> set ws. served b w)
     \<and> (nb \<or> ws \<noteq> [] \<and> (\<forall>x. dl_current b = Some x \<longrightarrow> snd (last ws) = lb_result x))"

lemma add_key_snoc: "add_key key (ws @ [(ks, r)]) = ws @ [(insert key ks, r)]"
proof (induction ws)
  case (Cons w ws)
  then show ?case by (cases "ws @ [(ks, r)]") simp_all
qed simp

lemma served_push:
  assumes "push_key key (nb, ws, b) = (nb', ws', b')" "served b w"
  shows "served b' w"
  using assms(1)
proof (cases rule: push_key_result)
  case (1 x nb1)
  from assms(2) obtain y where y: "y \<in> set (lbatches b)" "lb_result y = snd w" "fst w \<subseteq> lb_items y" by (auto simp: served_def)
  show ?thesis
  proof (cases "y \<in> set (old_batches b)")
    case True
    then show ?thesis using y unfolding served_def 1(1) by auto
  next
    case False
    then have "y = x" using y(1) 1(4) unfolding lbatches_current by auto
    then show ?thesis using y unfolding served_def 1(1) by (intro bexI [of _ "with_key key x"]) auto
  qed
qed

lemma push_key_loop:
  assumes push: "push_key key (nb, ws, b) = (nb', ws', b')" and ok: "lsizes_ok b" "loop_ok nb ws b"
  shows "loop_ok nb' ws' b' \<and> \<Union> (fst ` set ws') = insert key (\<Union> (fst ` set ws))"
  using push
proof (cases rule: push_key_result)
  case (1 x nb1)
  obtain ws0 ks where ws1: "(if nb1 then ws @ [({}, lb_result x)] else ws) = ws0 @ [(ks, lb_result x)]" and ks: "ks \<subseteq> lb_items x"
    and ws0: "set ws0 \<subseteq> set ws" "\<Union> (fst ` set ws0) \<union> ks = \<Union> (fst ` set ws)"
  proof (cases nb1)
    case True
    then show thesis using that [of ws "{}"] by simp
  next
    case False
    then have "ws \<noteq> []" and cur: "dl_current b = Some x" and last: "snd (last ws) = lb_result x" using 1(4) ok(2) by (auto simp: loop_ok_def)
    then obtain ws0 ks where ws: "ws = ws0 @ [(ks, lb_result x)]" by (metis append_butlast_last_id prod.collapse)
    then obtain y where y: "y \<in> set (lbatches b)" "lb_result y = lb_result x" "ks \<subseteq> lb_items y"
      using ok(2) by (auto simp: loop_ok_def served_def)
    moreover have "x \<in> set (lbatches b)" "distinct (map lb_result (lbatches b))"
      using cur ok(1) by (simp_all add: lbatches_current lsizes_ok_def)
    ultimately have "y = x" by (metis distinct_map inj_onD)
    then show thesis using that [of ws0 ks] ws False y by auto
  qed
  have ws': "ws' = ws0 @ [(insert key ks, lb_result x)]" using 1(3) unfolding ws1 add_key_snoc .
  have "served b' (insert key ks, lb_result x)"
    unfolding served_def 1(1) using ks by (intro bexI [of _ "with_key key x"]) auto
  moreover have "\<forall>w \<in> set ws0. served b' w" using ws0(1) ok(2) served_push [OF push] unfolding loop_ok_def by blast
  ultimately have "loop_ok nb' ws' b'" using 1(5) unfolding loop_ok_def ws' by (auto split: if_splits)
  moreover have "\<Union> (fst ` set ws') = insert key (\<Union> (fst ` set ws))" unfolding ws' using ws0(2) by auto
  ultimately show ?thesis by blast
qed

lemma load_loop_outcome:
  assumes "load_loop keys (nb, ws, b) = (nb', ws', b')" "lsizes_ok b" "ldeadline_ok b" "loop_ok nb ws b"
  shows "lsizes_ok b' \<and> ldeadline_ok b' \<and> loop_ok nb' ws' b' \<and> \<Union> (fst ` set ws') = set keys \<union> \<Union> (fst ` set ws)
     \<and> (\<forall>w. served b w \<longrightarrow> served b' w) \<and> dl_done b' = dl_done b \<and> dl_running b' = dl_running b \<and> dl_semaphore b' = dl_semaphore b
     \<and> dl_results b' = dl_results b \<and> dl_batch_size b' = dl_batch_size b \<and> dl_delay b' = dl_delay b"
  using assms
proof (induction keys arbitrary: nb ws b)
  case (Cons key keys)
  obtain nb1 ws1 b1 where push: "push_key key (nb, ws, b) = (nb1, ws1, b1)" by (metis prod_cases3)
  note IH = Cons.IH [of nb1 ws1 b1]
  have "dl_done b1 = dl_done b \<and> dl_running b1 = dl_running b \<and> dl_semaphore b1 = dl_semaphore b
     \<and> dl_results b1 = dl_results b \<and> dl_batch_size b1 = dl_batch_size b \<and> dl_delay b1 = dl_delay b"
    using push by (cases rule: push_key_result) simp
  then show ?case
    using IH Cons.prems push push_key_loop [OF push Cons.prems(2,4)] push_key_sizes [OF push] push_key_deadline [OF push] served_push [OF push]
    by simp
qed simp

lemma load_push_outcome:
  assumes "load_push keys b = (ws, b')" "lsizes_ok b" "ldeadline_ok b"
  shows "lsizes_ok b' \<and> ldeadline_ok b' \<and> (\<forall>w \<in> set ws. served b' w) \<and> \<Union> (fst ` set ws) = set keys
     \<and> (\<forall>w. served b w \<longrightarrow> served b' w) \<and> dl_done b' = dl_done b \<and> dl_running b' = dl_running b \<and> dl_semaphore b' = dl_semaphore b
     \<and> dl_results b' = dl_results b \<and> dl_batch_size b' = dl_batch_size b \<and> dl_delay b' = dl_delay b"
proof -
  obtain nb where "load_loop keys (True, [], b) = (nb, ws, b')" using assms(1) by (metis load_push_def prod.collapse snd_conv)
  from load_loop_outcome [OF this assms(2,3)] show ?thesis by (simp add: loop_ok_def)
qed

section \<open>Runs\<close>

definition loader_inv :: "('k set \<Rightarrow> ('k \<rightharpoonup> 'v) option) \<Rightarrow> ('s \<Rightarrow> nat) \<Rightarrow> nat \<Rightarrow> ('k, 'v, 's) DataLoader
    \<Rightarrow> ('k list \<times> 'k waiting list) list \<Rightarrow> bool" where
  "loader_inv fetch permits concurrency b calls \<longleftrightarrow>
     lsizes_ok b \<and> ldeadline_ok b \<and> permits (dl_semaphore b) + length (dl_running b) = max concurrency 1
     \<and> (\<forall>(keys, ws) \<in> set calls. \<Union> (fst ` set ws) = set keys \<and> (\<forall>w \<in> set ws. served b w))
     \<and> (\<forall>x \<in> set (dl_done b). dl_results b (lb_result x) = Some (fetch (lb_items x)))
     \<and> dom (dl_results b) = lb_result ` set (dl_done b)"

lemma loader_parts:
  assumes "loader_inv fetch permits k b calls"
  shows "lsizes_ok b" "ldeadline_ok b" "permits (dl_semaphore b) + length (dl_running b) = max k 1"
    "\<And>keys ws. (keys, ws) \<in> set calls \<Longrightarrow> \<Union> (fst ` set ws) = set keys \<and> (\<forall>w \<in> set ws. served b w)"
    "\<And>x. x \<in> set (dl_done b) \<Longrightarrow> dl_results b (lb_result x) = Some (fetch (lb_items x))"
    "dom (dl_results b) = lb_result ` set (dl_done b)" "distinct (map lb_result (lbatches b))"
proof -
  show sizes: "lsizes_ok b" and "ldeadline_ok b" "permits (dl_semaphore b) + length (dl_running b) = max k 1"
    "dom (dl_results b) = lb_result ` set (dl_done b)"
    "\<And>x. x \<in> set (dl_done b) \<Longrightarrow> dl_results b (lb_result x) = Some (fetch (lb_items x))"
    using assms by (simp_all only: loader_inv_def)
  from sizes show "distinct (map lb_result (lbatches b))" by (simp only: lsizes_ok_def)
  from assms have "\<forall>(keys, ws) \<in> set calls. \<Union> (fst ` set ws) = set keys \<and> (\<forall>w \<in> set ws. served b w)"
    unfolding loader_inv_def by (elim conjE)
  then show "\<And>keys ws. (keys, ws) \<in> set calls \<Longrightarrow> \<Union> (fst ` set ws) = set keys \<and> (\<forall>w \<in> set ws. served b w)" by blast
qed

lemma loader_moved:
  assumes inv: "loader_inv fetch permits k b calls" and moved: "mset (lbatches b') = mset (lbatches b)"
    and same: "dl_batch_size b' = dl_batch_size b" "dl_next b' = dl_next b" "dl_current b' = dl_current b \<or> dl_current b' = None"
    and new: "ldeadline_ok b'" "permits (dl_semaphore b') + length (dl_running b') = permits (dl_semaphore b) + length (dl_running b)"
      "\<forall>x \<in> set (dl_done b'). dl_results b' (lb_result x) = Some (fetch (lb_items x))"
      "dom (dl_results b') = lb_result ` set (dl_done b')"
  shows "loader_inv fetch permits k b' calls"
proof -
  note parts = loader_parts [OF inv]
  have set: "set (lbatches b') = set (lbatches b)" using moved by (rule mset_eq_setD)
  have "mset (map lb_result (lbatches b')) = mset (map lb_result (lbatches b))" using moved by simp
  then have "distinct (map lb_result (lbatches b'))" using parts(7) by (metis mset_eq_imp_distinct_iff)
  moreover have "\<forall>x. dl_current b' = Some x \<longrightarrow> card (lb_items x) < dl_batch_size b'"
    using parts(1) same by (auto simp: lsizes_ok_def)
  moreover have "\<forall>x \<in> set (lbatches b'). lbatch_ok (dl_batch_size b') x \<and> lb_result x < dl_next b'" "0 < dl_batch_size b'"
    using parts(1) same set by (auto simp: lsizes_ok_def)
  ultimately have "lsizes_ok b'" unfolding lsizes_ok_def by blast
  moreover have "served b' = served b" using set by (simp add: served_def fun_eq_iff)
  ultimately show ?thesis using parts(3,4) new unfolding loader_inv_def by auto
qed

lemma lcall_inv:
  assumes inv: "loader_inv fetch permits k b calls" and push: "load_push keys b = (ws, b')"
  shows "loader_inv fetch permits k b' (calls @ [(keys, ws)])"
proof -
  note parts = loader_parts [OF inv]
  note out = load_push_outcome [OF push parts(1,2)]
  have "\<forall>(keys, ws) \<in> set (calls @ [(keys, ws)]). \<Union> (fst ` set ws) = set keys \<and> (\<forall>w \<in> set ws. served b' w)"
    using parts(4) out by (simp add: split_beta) (metis prod.collapse)
  then show ?thesis using parts(3,5,6) out unfolding loader_inv_def by simp
qed

lemma lwake_inv:
  assumes "loader_inv fetch permits k b calls"
  shows "loader_inv fetch permits k (lbatch_loop b) calls"
proof (rule loader_moved [OF assms])
  show "mset (lbatches (lbatch_loop b)) = mset (lbatches b)"
    by (simp add: lbatches_def lbatch_loop_def Let_def split: option.split)
  show "ldeadline_ok (lbatch_loop b)"
    using loader_parts(2) [OF assms]
    by (auto simp: ldeadline_ok_def lbatch_loop_def Let_def timer_ok_rules intro: timer_ok_look split: option.splits)
qed (use loader_parts [OF assms] in \<open>simp_all add: lbatch_loop_def Let_def split: option.split\<close>)

lemma lstart_inv:
  assumes inv: "loader_inv fetch permits k b calls" and sem: "semaphore_ok sem permits"
    and start: "dl_spawned b = xs @ batch # ys" "sem_acquire sem (dl_semaphore b) = Some s"
  shows "loader_inv fetch permits k (b\<lparr>dl_spawned := xs @ ys, dl_running := dl_running b @ [batch], dl_semaphore := s\<rparr>) calls"
    (is "loader_inv _ _ _ ?b _")
proof (rule loader_moved [OF inv])
  have "permits (dl_semaphore b) = Suc (permits s)"
    using sem start(2) by (auto simp: semaphore_ok_def dest!: spec [of _ "dl_semaphore b"])
  then show "permits (dl_semaphore ?b) + length (dl_running ?b) = permits (dl_semaphore b) + length (dl_running b)" by simp
qed (use loader_parts [OF inv] start(1) in \<open>simp_all add: lbatches_def ldeadline_ok_def\<close>)

lemma lfinish_inv:
  assumes inv: "loader_inv fetch permits k b calls" and sem: "semaphore_ok sem permits" and run: "dl_running b = xs @ batch # ys"
  shows "loader_inv fetch permits k (b\<lparr>dl_running := xs @ ys, dl_done := dl_done b @ [batch],
      dl_results := (dl_results b)(lb_result batch \<mapsto> fetch (lb_items batch)), dl_semaphore := sem_release sem (dl_semaphore b)\<rparr>) calls"
    (is "loader_inv _ _ _ ?b _")
proof (rule loader_moved [OF inv])
  have "lb_result batch \<notin> lb_result ` set (dl_done b)"
    using loader_parts(7) [OF inv] run by (auto simp: lbatches_def)
  then show "\<forall>x \<in> set (dl_done ?b). dl_results ?b (lb_result x) = Some (fetch (lb_items x))"
    using loader_parts(5) [OF inv] by (auto simp: image_iff)
  show "dom (dl_results ?b) = lb_result ` set (dl_done ?b)" using loader_parts(6) [OF inv] by simp
  show "permits (dl_semaphore ?b) + length (dl_running ?b) = permits (dl_semaphore b) + length (dl_running b)"
    using sem run by (simp add: semaphore_ok_def)
qed (use loader_parts(2) [OF inv] run in \<open>simp_all add: lbatches_def ldeadline_ok_def\<close>)

lemma loader_run_inv:
  assumes "loader_run sem fetch n k delay b calls" "semaphore_ok sem permits"
  shows "loader_inv fetch permits k b calls \<and> dl_batch_size b = max n 1 \<and> dl_delay b = delay"
  using assms(1)
proof (induction rule: loader_run.induct)
  case linit
  have "permits (sem_new sem (max k 1)) = max k 1" using assms(2) by (simp add: semaphore_ok_def)
  then show ?case by (simp add: loader_inv_def loader_new_def lbatches_def lsizes_ok_def ldeadline_ok_def timer_ok_rules)
next
  case (lstep b calls op b')
  then have IH: "loader_inv fetch permits k b calls" "dl_batch_size b = max n 1" "dl_delay b = delay" by simp_all
  from lstep.hyps(2) show ?case
  proof cases
    case (ltick d)
    have "loader_inv fetch permits k b' calls"
      by (rule loader_moved [OF IH(1)]) (use loader_parts [OF IH(1)] ltick in \<open>simp_all add: lbatches_def ldeadline_ok_def timer_ok_rules\<close>)
    then show ?thesis using IH ltick by simp
  next
    case (lcall keys ws)
    then show ?thesis using lcall_inv [OF IH(1) lcall(2)] load_push_outcome [OF lcall(2) loader_parts(1,2) [OF IH(1)]] IH by simp
  next
    case (lsleep d)
    have "loader_inv fetch permits k b' calls"
      by (rule loader_moved [OF IH(1)]) (use loader_parts [OF IH(1)] lsleep in \<open>simp_all add: lbatches_def ldeadline_ok_def timer_ok_rules\<close>)
    then show ?thesis using IH lsleep by simp
  next
    case (lwake t)
    then show ?thesis using lwake_inv [OF IH(1)] IH by (simp add: lbatch_loop_def Let_def split: option.split)
  next
    case (lstart xs batch ys s)
    then show ?thesis using lstart_inv [OF IH(1) assms(2) lstart(3,4)] IH by simp
  next
    case (lfinish xs batch ys)
    then show ?thesis using lfinish_inv [OF IH(1) assms(2) lfinish(3)] IH by simp
  qed
qed

section \<open>Results\<close>

lemma load_await_Ok:
  assumes "load_await ws m0 b = Some (Ok m)"
  shows "(\<forall>w \<in> set ws. \<exists>v. dl_results b (snd w) = Some (Some v))
     \<and> (m k = m0 k \<and> (\<forall>w \<in> set ws. k \<in> fst w \<longrightarrow> (\<forall>v. dl_results b (snd w) = Some (Some v) \<longrightarrow> v k = None))
        \<or> (\<exists>w \<in> set ws. \<exists>v. k \<in> fst w \<and> dl_results b (snd w) = Some (Some v) \<and> m k = v k \<and> v k \<noteq> None))"
  using assms
proof (induction ws arbitrary: m0)
  case (Cons w ws)
  obtain ks r where w: "w = (ks, r)" by (cases w)
  with Cons.prems obtain v where v: "dl_results b r = Some (Some v)" "load_await ws (m0 ++ (v |` ks)) b = Some (Ok m)"
    by (auto simp: result_wait_def split: option.splits)
  have "(m0 ++ (v |` ks)) k = (if k \<in> ks \<and> v k \<noteq> None then v k else m0 k)"
    by (auto simp: map_add_def restrict_map_def split: option.splits)
  with Cons.IH [OF v(2)] v(1) w show ?case by (auto split: if_splits)
qed simp

lemma load_await_Err: "load_await ws m0 b = Some (Err e) \<Longrightarrow> \<exists>w \<in> set ws. dl_results b (snd w) = Some None"
  by (induction ws m0 b rule: load_await.induct) (auto simp: result_wait_def split: option.splits result.splits)

lemma load_await_ready: "(\<forall>w \<in> set ws. dl_results b (snd w) \<noteq> None) \<Longrightarrow> load_await ws m0 b \<noteq> None"
  by (induction ws m0 b rule: load_await.induct) (auto simp: result_wait_def split: option.splits result.splits)

lemma served_done:
  assumes "loader_inv fetch permits n b calls" "served b w" "dl_results b (snd w) = Some r"
  shows "\<exists>x \<in> set (dl_done b). lb_result x = snd w \<and> fst w \<subseteq> lb_items x \<and> fetch (lb_items x) = r"
proof -
  note parts = loader_parts [OF assms(1)]
  obtain x where x: "x \<in> set (lbatches b)" "lb_result x = snd w" "fst w \<subseteq> lb_items x" using assms(2) by (auto simp: served_def)
  obtain y where y: "y \<in> set (dl_done b)" "lb_result y = snd w" using assms(3) parts(6) by (metis domI imageE)
  then have "y \<in> set (lbatches b)" by (simp add: lbatches_def)
  then have "y = x" using x y parts(7) by (metis distinct_map inj_onD)
  then show ?thesis using x y parts(5) [OF y(1)] assms(3) by auto
qed

text \<open>C37: in every run of the data loader, batches hold between one key and the batch size and at most as many are fetched at once as
  the concurrency allows. The values \<^verbatim>\<open>load_many\<close> returns are for its own keys, and each is what the fetcher returned for that key in
  a batch that has it; an error means that the fetcher failed for a batch the call waited for; and once no batch waits or
  runs every call has its result.\<close>

theorem dataloader_loads:
  assumes sem: "semaphore_ok sem permits" and run: "loader_run sem fetch batch_size concurrency delay b calls"
  shows "length (dl_running b) \<le> max concurrency 1
     \<and> (\<forall>x \<in> set (lbatches b). 1 \<le> card (lb_items x) \<and> card (lb_items x) \<le> max batch_size 1)
     \<and> (\<forall>(keys, ws) \<in> set calls.
         (lbatches b = dl_done b \<longrightarrow> load_await ws Map.empty b \<noteq> None)
         \<and> (load_await ws Map.empty b = Some (Err ()) \<longrightarrow>
              (\<exists>w \<in> set ws. \<exists>x \<in> set (dl_done b). lb_result x = snd w \<and> fetch (lb_items x) = None))
         \<and> (\<forall>m. load_await ws Map.empty b = Some (Ok m) \<longrightarrow> dom m \<subseteq> set keys \<and>
              (\<forall>k \<in> set keys. \<exists>x \<in> set (dl_done b). \<exists>v. k \<in> lb_items x \<and> fetch (lb_items x) = Some v \<and> m k = v k)))"
proof -
  have inv: "loader_inv fetch permits concurrency b calls" "dl_batch_size b = max batch_size 1"
    using loader_run_inv [OF run sem] by simp_all
  note parts = loader_parts [OF inv(1)]
  have sizes: "1 \<le> card (lb_items x) \<and> card (lb_items x) \<le> max batch_size 1" if "x \<in> set (lbatches b)" for x
    using parts(1) that inv(2) by (auto simp: lsizes_ok_def lbatch_ok_def Suc_le_eq card_gt_0_iff)
  have ready: "load_await ws Map.empty b \<noteq> None" if call: "(keys, ws) \<in> set calls" and all: "lbatches b = dl_done b" for keys ws
  proof (rule load_await_ready, rule ballI)
    fix w assume "w \<in> set ws"
    then obtain x where "x \<in> set (dl_done b)" "lb_result x = snd w" using parts(4) [OF call] all by (auto simp: served_def)
    then show "dl_results b (snd w) \<noteq> None" using parts(5) by (metis option.distinct(1))
  qed
  have failed: "\<exists>w \<in> set ws. \<exists>x \<in> set (dl_done b). lb_result x = snd w \<and> fetch (lb_items x) = None"
    if call: "(keys, ws) \<in> set calls" and err: "load_await ws Map.empty b = Some (Err ())" for keys ws
  proof -
    obtain w where w: "w \<in> set ws" "dl_results b (snd w) = Some None" using load_await_Err [OF err] by blast
    then have "served b w" using parts(4) [OF call] by simp
    from served_done [OF inv(1) this w(2)] w(1) show ?thesis by auto
  qed
  have loaded: "dom m \<subseteq> set keys \<and> (\<forall>k \<in> set keys. \<exists>x \<in> set (dl_done b). \<exists>v. k \<in> lb_items x \<and> fetch (lb_items x) = Some v \<and> m k = v k)"
    if call: "(keys, ws) \<in> set calls" and ok: "load_await ws Map.empty b = Some (Ok m)" for keys ws m
  proof -
    have u: "\<Union> (fst ` set ws) = set keys" and sv: "\<forall>w \<in> set ws. served b w" using parts(4) [OF call] by simp_all
    have all: "\<forall>w \<in> set ws. \<exists>v. dl_results b (snd w) = Some (Some v)" using load_await_Ok [OF ok] by blast
    have w: "\<exists>w \<in> set ws. \<exists>v. k \<in> fst w \<and> dl_results b (snd w) = Some (Some v) \<and> m k = v k" if "k \<in> set keys" for k
    proof -
      from u that obtain w0 where w0: "w0 \<in> set ws" "k \<in> fst w0" by blast
      then obtain v0 where v0: "dl_results b (snd w0) = Some (Some v0)" using all by blast
      show ?thesis
      proof (cases "m k = None \<and> (\<forall>w \<in> set ws. k \<in> fst w \<longrightarrow> (\<forall>v. dl_results b (snd w) = Some (Some v) \<longrightarrow> v k = None))")
        case True
        then have "v0 k = None" "m k = None" using w0 v0 by blast+
        then have "m k = v0 k" by simp
        with w0 v0 show ?thesis by blast
      next
        case False
        then show ?thesis using load_await_Ok [OF ok, of k] by blast
      qed
    qed
    have "\<exists>x \<in> set (dl_done b). \<exists>v. k \<in> lb_items x \<and> fetch (lb_items x) = Some v \<and> m k = v k" if key: "k \<in> set keys" for k
    proof -
      obtain w v where wv: "w \<in> set ws" "k \<in> fst w" "dl_results b (snd w) = Some (Some v)" "m k = v k" using w [OF key] by blast
      then have "served b w" using sv by simp
      from served_done [OF inv(1) this wv(3)] wv show ?thesis by auto
    qed
    moreover have "k \<in> set keys" if "m k \<noteq> None" for k using load_await_Ok [OF ok, of k] that u by auto
    ultimately show ?thesis by blast
  qed
  have "length (dl_running b) \<le> max concurrency 1" using parts(3) by linarith
  with sizes ready failed loaded show ?thesis by blast
qed

section \<open>An example\<close>

definition odd_table :: "nat set \<Rightarrow> (nat \<rightharpoonup> nat) option" where
  "odd_table keys = Some (\<lambda>k. if k \<in> keys \<and> odd k then Some (10 * k) else None)"

definition example_loader :: "(nat, nat, nat) DataLoader" where
  "example_loader = \<lparr>dl_semaphore = 1, dl_current = None, dl_batch_size = 2, dl_delay = 5, dl_next = 1, dl_spawned = [], dl_running = [],
     dl_done = [\<lparr>lb_items = {2, 1}, lb_result = 0, lb_created_at = 0\<rparr>], dl_results = [0 \<mapsto> odd_table {2, 1}], dl_now = 0,
     dl_timer = SleepNext 5, dl_looked = 0, dl_late = 0\<rparr>"

lemma example_loader_run: "loader_run counter_semaphore odd_table 2 1 5 example_loader [([1, 2], [({2, 1}, 0)])]"
proof -
  let ?x = "\<lparr>lb_items = {2, 1}, lb_result = 0, lb_created_at = 0\<rparr> :: nat LBatch"
  let ?calls = "[([1, 2], [({2, 1}, 0)])] :: (nat list \<times> nat waiting list) list"
  let ?run = "loader_run counter_semaphore odd_table 2 1 5"
  define b1 where "b1 = example_loader\<lparr>dl_spawned := [?x], dl_done := [], dl_results := Map.empty\<rparr>"
  define b2 where "b2 = b1\<lparr>dl_spawned := [] @ [], dl_running := dl_running b1 @ [?x], dl_semaphore := 0\<rparr>"
  have "load_push [1, 2] (loader_new counter_semaphore 2 1 5) = ([({2, 1}, 0)], b1)"
    by (simp add: load_push_def push_key_def current_batch_def loader_new_def lbatch_new_def b1_def example_loader_def
        counter_semaphore_def)
  from lstep [OF linit lcall [OF this]] have "?run b1 ?calls" by simp
  moreover have "loader_step counter_semaphore odd_table b1 LStart b2"
    unfolding b2_def by (rule lstart) (simp_all add: b1_def example_loader_def counter_semaphore_def)
  ultimately have "?run b2 (?calls @ loads_of (LStart :: nat loader_op))" by (rule lstep)
  moreover have "loader_step counter_semaphore odd_table b2 LFinish (b2\<lparr>dl_running := [] @ [], dl_done := dl_done b2 @ [?x],
      dl_results := (dl_results b2)(lb_result ?x \<mapsto> odd_table (lb_items ?x)), dl_semaphore := sem_release counter_semaphore (dl_semaphore b2)\<rparr>)"
    by (rule lfinish) (simp add: b2_def b1_def example_loader_def)
  moreover have "b2\<lparr>dl_running := [] @ [], dl_done := dl_done b2 @ [?x],
      dl_results := (dl_results b2)(lb_result ?x \<mapsto> odd_table (lb_items ?x)), dl_semaphore := sem_release counter_semaphore (dl_semaphore b2)\<rparr>
      = example_loader"
    by (simp add: b2_def b1_def example_loader_def counter_semaphore_def)
  ultimately show ?thesis using lstep [of counter_semaphore odd_table 2 1 5 b2 ?calls LFinish] by simp
qed

theorem dataloader_loads_witness:
  "\<exists>m. load_await [({2, 1}, 0)] Map.empty example_loader = Some (Ok m) \<and> dom m \<subseteq> {1, 2} \<and> m 1 = Some 10 \<and> m 2 = None"
proof -
  obtain m where m: "load_await [({2, 1}, 0)] Map.empty example_loader = Some (Ok m)"
    by (simp add: result_wait_def example_loader_def odd_table_def)
  then have "dom m \<subseteq> {1, 2} \<and> m 1 = Some 10 \<and> m 2 = None"
    using dataloader_loads [OF counter_semaphore_ok example_loader_run]
    by (auto simp: odd_table_def example_loader_def)
  with m show ?thesis by blast
qed

end
