(* ===== verification/Contexts.thy ===== *)
theory Contexts
  imports Prelude
begin

text \<open>
  Contexts and handlers (\<^verbatim>\<open>crates/context/src/lib.rs\<close>): a handler hands out contexts, cancels them, and waits until all of them are
  dropped. The cancellation tokens of \<^verbatim>\<open>tokio-util\<close> and \<^verbatim>\<open>Notify\<close> of \<^verbatim>\<open>tokio\<close> are parameters, with what their documentation says in
  \<open>token_ok\<close> and \<open>notify_ok\<close>.

  The methods run concurrently. A step is one atomic access, as in \<^verbatim>\<open>fetch_sub\<close>, \<^verbatim>\<open>load\<close>, \<^verbatim>\<open>store\<close>, \<^verbatim>\<open>notified\<close> and \<^verbatim>\<open>cancel\<close>; what a call still has
  to do is a \<open>task\<close>.

  All atomic accesses of the source are \<^verbatim>\<open>Ordering::Relaxed\<close>. The read-modify-write accesses \<^verbatim>\<open>fetch_add\<close> and \<^verbatim>\<open>fetch_sub\<close> take effect on
  the latest value; but a \<^verbatim>\<open>load\<close> may return any value the variable has had so far, however old. This allows at least
  what the memory model of Rust allows for loads of values stored before. A tracker records whether one of its loads was stale.
\<close>

section \<open>Tokens and notifications\<close>

record 't token_env =
  tok_new :: "'t \<Rightarrow> nat \<times> 't"
  tok_child :: "nat \<Rightarrow> 't \<Rightarrow> nat \<times> 't"
  tok_cancel :: "nat \<Rightarrow> 't \<Rightarrow> 't"
  tok_cancelled :: "'t \<Rightarrow> nat \<Rightarrow> bool"

text \<open>A token is cancelled with every token it is a child of, directly or not; nothing makes a token a child afterwards or undoes a
  cancellation.\<close>

definition token_ok :: "'t token_env \<Rightarrow> ('t \<Rightarrow> nat \<Rightarrow> nat \<Rightarrow> bool) \<Rightarrow> bool" where
  "token_ok te covers \<longleftrightarrow>
     (\<forall>t i. covers t i i)
     \<and> (\<forall>t a b. covers t a b \<longrightarrow> covers (snd (tok_new te t)) a b \<and> (\<forall>i. covers (tok_cancel te i t) a b \<and> covers (snd (tok_child te i t)) a b))
     \<and> (\<forall>t i a. covers t a i \<longrightarrow> covers (snd (tok_child te i t)) a (fst (tok_child te i t)))
     \<and> (\<forall>t i j. covers t i j \<longrightarrow> tok_cancelled te (tok_cancel te i t) j)
     \<and> (\<forall>t j. tok_cancelled te t j \<longrightarrow> tok_cancelled te (snd (tok_new te t)) j
          \<and> (\<forall>i. tok_cancelled te (tok_cancel te i t) j \<and> tok_cancelled te (snd (tok_child te i t)) j))"

record 'n notify_env =
  nt_new :: 'n
  nt_notified :: "'n \<Rightarrow> nat \<times> 'n"
  nt_notify_waiters :: "'n \<Rightarrow> 'n"
  nt_ready :: "'n \<Rightarrow> nat \<Rightarrow> bool"

text \<open>A future of \<^verbatim>\<open>notified\<close> is not ready when it is made; \<^verbatim>\<open>notify_waiters\<close> makes ready all futures made before, and futures stay ready.\<close>

definition notify_ok :: "'n notify_env \<Rightarrow> ('n \<Rightarrow> nat set) \<Rightarrow> bool" where
  "notify_ok ne made \<longleftrightarrow>
     (\<forall>n. let (i, n') = nt_notified ne n in \<not> nt_ready ne n' i \<and> i \<notin> made n \<and> made n' = insert i (made n)
          \<and> (\<forall>j \<in> made n. nt_ready ne n' j = nt_ready ne n j))
     \<and> (\<forall>n. made (nt_notify_waiters ne n) = made n \<and> (\<forall>j \<in> made n. nt_ready ne (nt_notify_waiters ne n) j))"

section \<open>State\<close>

text \<open>The first three fields are those of the source; the others are the values the count had before, and whether a load was stale.\<close>

record 'n ContextTrackerInner =
  tr_stopped :: bool
  tr_active_count :: nat
  tr_notify :: 'n
  tr_counts :: "nat list"
  tr_stale :: bool

record Context =
  c_token :: nat
  c_tracker :: nat

record Handler =
  h_token :: nat
  h_tracker :: nat

text \<open>What calls still have to do: the rest of a drop after its \<^verbatim>\<open>fetch_sub\<close>, with the previous count; the rest of \<^verbatim>\<open>cancel\<close>; \<^verbatim>\<open>done\<close> waiting
  for its token; \<^verbatim>\<open>wait\<close> with its future before and after the look at the count. The flag of the last two records whether the
  tracker was stopped when the future was made.\<close>

datatype task = DropCheck nat nat | CancelToken nat | DoneToken nat nat | WaitCheck nat nat bool | Waiting nat nat bool

record ('t, 'n) world =
  w_tokens :: 't
  w_trackers :: "'n ContextTrackerInner list"
  w_contexts :: "Context list"
  w_handlers :: "Handler list"
  w_tasks :: "task list"

section \<open>Operations\<close>

definition tracker_new :: "'n notify_env \<Rightarrow> 'n ContextTrackerInner" where
  "tracker_new ne = \<lparr>tr_stopped = False, tr_active_count = 0, tr_notify = nt_new ne, tr_counts = [], tr_stale = False\<rparr>"

definition tracker_child :: "'n ContextTrackerInner \<Rightarrow> 'n ContextTrackerInner" where
  "tracker_child tr = tr\<lparr>tr_active_count := tr_active_count tr + 1, tr_counts := tr_active_count tr # tr_counts tr\<rparr>"

definition tracker_stop :: "'n ContextTrackerInner \<Rightarrow> 'n ContextTrackerInner" where
  "tracker_stop tr = tr\<lparr>tr_stopped := True\<rparr>"

definition tracker_sub :: "'n ContextTrackerInner \<Rightarrow> 'n ContextTrackerInner" where
  "tracker_sub tr = tr\<lparr>tr_active_count := tr_active_count tr - 1, tr_counts := tr_active_count tr # tr_counts tr\<rparr>"

text \<open>What a relaxed load may return: of the flag, which is only ever set, the initial value for ever and the other once it is
  stored; of the count, any value it has or had.\<close>

definition load_stopped :: "'n ContextTrackerInner \<Rightarrow> bool \<Rightarrow> bool" where
  "load_stopped tr stopped \<longleftrightarrow> stopped = False \<or> tr_stopped tr"

definition load_active_count :: "'n ContextTrackerInner \<Rightarrow> nat \<Rightarrow> bool" where
  "load_active_count tr k \<longleftrightarrow> k = tr_active_count tr \<or> k \<in> set (tr_counts tr)"

definition mark_stale :: "bool \<Rightarrow> 'n ContextTrackerInner \<Rightarrow> 'n ContextTrackerInner" where
  "mark_stale stale tr = tr\<lparr>tr_stale := tr_stale tr \<or> stale\<rparr>"

text \<open>The end of a drop, with what it loads from \<^verbatim>\<open>stopped\<close>: the last context of a stopped tracker notifies. The flag is
  not loaded by other drops.\<close>

definition tracker_drop_check :: "'n notify_env \<Rightarrow> nat \<Rightarrow> bool \<Rightarrow> 'n ContextTrackerInner \<Rightarrow> 'n ContextTrackerInner" where
  "tracker_drop_check ne prev_active_count stopped tr =
     (let tr = mark_stale (prev_active_count = 1 \<and> stopped \<noteq> tr_stopped tr) tr
      in if prev_active_count = 1 \<and> stopped then tr\<lparr>tr_notify := nt_notify_waiters ne (tr_notify tr)\<rparr> else tr)"

lemma tracker_drop_check_sel [simp]:
  "tr_active_count (tracker_drop_check ne prev stopped tr) = tr_active_count tr"
  "tr_stopped (tracker_drop_check ne prev stopped tr) = tr_stopped tr"
  "tr_stale (tracker_drop_check ne prev stopped tr) \<longleftrightarrow> tr_stale tr \<or> prev = 1 \<and> stopped \<noteq> tr_stopped tr"
  "tr_notify (tracker_drop_check ne prev stopped tr) = (if prev = 1 \<and> stopped then nt_notify_waiters ne (tr_notify tr) else tr_notify tr)"
  by (simp_all add: tracker_drop_check_def mark_stale_def Let_def)

lemma mark_stale_sel [simp]:
  "tr_active_count (mark_stale b tr) = tr_active_count tr" "tr_stopped (mark_stale b tr) = tr_stopped tr"
  "tr_notify (mark_stale b tr) = tr_notify tr" "tr_stale (mark_stale b tr) \<longleftrightarrow> tr_stale tr \<or> b"
  by (simp_all add: mark_stale_def)

abbreviation tracker :: "('t, 'n) world \<Rightarrow> nat \<Rightarrow> 'n ContextTrackerInner" where
  "tracker w i \<equiv> w_trackers w ! i"

definition on_tracker :: "nat \<Rightarrow> ('n ContextTrackerInner \<Rightarrow> 'n ContextTrackerInner) \<Rightarrow> ('t, 'n) world \<Rightarrow> ('t, 'n) world" where
  "on_tracker i f w = w\<lparr>w_trackers := (w_trackers w)[i := f (tracker w i)]\<rparr>"

definition handler_new :: "'t token_env \<Rightarrow> 'n notify_env \<Rightarrow> ('t, 'n) world \<Rightarrow> ('t, 'n) world" where
  "handler_new te ne w = (let (token, t) = tok_new te (w_tokens w) in
     w\<lparr>w_tokens := t, w_trackers := w_trackers w @ [tracker_new ne],
       w_handlers := w_handlers w @ [\<lparr>h_token = token, h_tracker = length (w_trackers w)\<rparr>]\<rparr>)"

definition handler_context :: "'t token_env \<Rightarrow> Handler \<Rightarrow> ('t, 'n) world \<Rightarrow> ('t, 'n) world" where
  "handler_context te h w = (let (token, t) = tok_child te (h_token h) (w_tokens w); w = on_tracker (h_tracker h) tracker_child w in
     w\<lparr>w_tokens := t, w_contexts := w_contexts w @ [\<lparr>c_token = token, c_tracker = h_tracker h\<rparr>]\<rparr>)"

definition context_clone :: "Context \<Rightarrow> ('t, 'n) world \<Rightarrow> ('t, 'n) world" where
  "context_clone c w = (let w = on_tracker (c_tracker c) tracker_child w in w\<lparr>w_contexts := w_contexts w @ [c]\<rparr>)"

definition context_new_child :: "'t token_env \<Rightarrow> 'n notify_env \<Rightarrow> Context \<Rightarrow> ('t, 'n) world \<Rightarrow> ('t, 'n) world" where
  "context_new_child te ne c w = (let (token, t) = tok_child te (c_token c) (w_tokens w); i = length (w_trackers w) in
     w\<lparr>w_tokens := t, w_trackers := w_trackers w @ [tracker_child (tracker_new ne)],
       w_contexts := w_contexts w @ [\<lparr>c_token = token, c_tracker = i\<rparr>],
       w_handlers := w_handlers w @ [\<lparr>h_token = token, h_tracker = i\<rparr>]\<rparr>)"

text \<open>The first part of \<^verbatim>\<open>wait\<close>: the future is made before the count is read.\<close>

definition tracker_wait :: "'n notify_env \<Rightarrow> nat \<Rightarrow> ('t, 'n) world \<Rightarrow> task \<times> ('t, 'n) world" where
  "tracker_wait ne i w = (let (fut, n) = nt_notified ne (tr_notify (tracker w i)) in
     (WaitCheck i fut (tr_stopped (tracker w i)), on_tracker i (\<lambda>tr. tr\<lparr>tr_notify := n\<rparr>) w))"

inductive ctx_step :: "'t token_env \<Rightarrow> 'n notify_env \<Rightarrow> ('t, 'n) world \<Rightarrow> ('t, 'n) world \<Rightarrow> bool" for te ne where
  new_handler: "ctx_step te ne w (handler_new te ne w)"
| new_context: "h \<in> set (w_handlers w) \<Longrightarrow> ctx_step te ne w (handler_context te h w)"
| clone: "c \<in> set (w_contexts w) \<Longrightarrow> ctx_step te ne w (context_clone c w)"
| new_child: "c \<in> set (w_contexts w) \<Longrightarrow> ctx_step te ne w (context_new_child te ne c w)"
| drop_context: "w_contexts w = xs @ c # ys \<Longrightarrow> ctx_step te ne w
    ((on_tracker (c_tracker c) tracker_sub w)\<lparr>w_contexts := xs @ ys,
       w_tasks := DropCheck (c_tracker c) (tr_active_count (tracker w (c_tracker c))) # w_tasks w\<rparr>)"
| drop_check: "w_tasks w = xs @ DropCheck i prev # ys \<Longrightarrow> load_stopped (tracker w i) stopped \<Longrightarrow>
    ctx_step te ne w ((on_tracker i (tracker_drop_check ne prev stopped) w)\<lparr>w_tasks := xs @ ys\<rparr>)"
| cancel: "h \<in> set (w_handlers w) \<Longrightarrow>
    ctx_step te ne w ((on_tracker (h_tracker h) tracker_stop w)\<lparr>w_tasks := CancelToken (h_token h) # w_tasks w\<rparr>)"
| cancel_token: "w_tasks w = xs @ CancelToken token # ys \<Longrightarrow>
    ctx_step te ne w (w\<lparr>w_tokens := tok_cancel te token (w_tokens w), w_tasks := xs @ ys\<rparr>)"
| drop_handler: "w_handlers w = xs @ h # ys \<Longrightarrow>
    ctx_step te ne w (w\<lparr>w_tokens := tok_cancel te (h_token h) (w_tokens w), w_handlers := xs @ ys\<rparr>)"
| done_call: "h \<in> set (w_handlers w) \<Longrightarrow> ctx_step te ne w (w\<lparr>w_tasks := DoneToken (h_token h) (h_tracker h) # w_tasks w\<rparr>)"
| done_token: "w_tasks w = xs @ DoneToken token i # ys \<Longrightarrow> tok_cancelled te (w_tokens w) token \<Longrightarrow> tracker_wait ne i w = (t, w') \<Longrightarrow>
    ctx_step te ne w (w'\<lparr>w_tasks := t # xs @ ys\<rparr>)"
| wait_call: "h \<in> set (w_handlers w) \<Longrightarrow> tracker_wait ne (h_tracker h) w = (t, w') \<Longrightarrow> ctx_step te ne w (w'\<lparr>w_tasks := t # w_tasks w\<rparr>)"
| wait_zero: "w_tasks w = xs @ WaitCheck i fut late # ys \<Longrightarrow> load_active_count (tracker w i) 0 \<Longrightarrow>
    ctx_step te ne w ((on_tracker i (mark_stale (tr_active_count (tracker w i) \<noteq> 0)) w)\<lparr>w_tasks := xs @ ys\<rparr>)"
| wait_more: "w_tasks w = xs @ WaitCheck i fut late # ys \<Longrightarrow> load_active_count (tracker w i) k \<Longrightarrow> k \<noteq> 0 \<Longrightarrow>
    ctx_step te ne w ((on_tracker i (mark_stale (tr_active_count (tracker w i) \<noteq> k)) w)\<lparr>w_tasks := Waiting i fut late # xs @ ys\<rparr>)"
| wait_ready: "w_tasks w = xs @ Waiting i fut late # ys \<Longrightarrow> nt_ready ne (tr_notify (tracker w i)) fut \<Longrightarrow>
    ctx_step te ne w (w\<lparr>w_tasks := xs @ ys\<rparr>)"

inductive ctx_run :: "'t token_env \<Rightarrow> 'n notify_env \<Rightarrow> 't \<Rightarrow> ('t, 'n) world \<Rightarrow> bool" for te ne t where
  ctx_init: "ctx_run te ne t \<lparr>w_tokens = t, w_trackers = [], w_contexts = [], w_handlers = [], w_tasks = []\<rparr>"
| ctx_next: "ctx_run te ne t w \<Longrightarrow> ctx_step te ne w w' \<Longrightarrow> ctx_run te ne t w'"

text \<open>A future or stream with a context (\<^verbatim>\<open>crates/context/src/ext.rs\<close>): how one poll of both is answered.\<close>

datatype 'a Poll = Ready 'a | Pending

fun future_with_context_poll :: "unit Poll \<Rightarrow> 'v Poll \<Rightarrow> 'v option Poll" where
  "future_with_context_poll ctx (Ready v) = Ready (Some v)"
| "future_with_context_poll (Ready _) Pending = Ready None"
| "future_with_context_poll Pending Pending = Pending"

fun stream_with_context_poll :: "unit Poll \<Rightarrow> 'v option Poll \<Rightarrow> 'v option Poll" where
  "stream_with_context_poll (Ready _) item = Ready None"
| "stream_with_context_poll Pending (Ready v) = Ready v"
| "stream_with_context_poll Pending Pending = Pending"

section \<open>Invariant\<close>

definition live :: "nat \<Rightarrow> Context list \<Rightarrow> nat" where
  "live i cs = length (filter (\<lambda>c. c_tracker c = i) cs)"

lemma live_simps [simp]: "live i [] = 0" "live i (c # cs) = (if c_tracker c = i then 1 else 0) + live i cs" "live i (xs @ ys) = live i xs + live i ys"
  by (simp_all add: live_def)

text \<open>A call that waits since the tracker was stopped is ready, or there is a context left, or the drop of the last one is under way,
  or a load of the tracker was stale.\<close>

definition wake_ok :: "'n notify_env \<Rightarrow> ('t, 'n) world \<Rightarrow> nat \<Rightarrow> nat \<Rightarrow> bool" where
  "wake_ok ne w i fut \<longleftrightarrow> nt_ready ne (tr_notify (tracker w i)) fut \<or> tr_active_count (tracker w i) \<noteq> 0 \<or> DropCheck i 1 \<in> set (w_tasks w)
     \<or> tr_stale (tracker w i)"

fun task_ok :: "'n notify_env \<Rightarrow> ('n \<Rightarrow> nat set) \<Rightarrow> ('t, 'n) world \<Rightarrow> task \<Rightarrow> bool" where
  "task_ok ne made w (DropCheck i prev) \<longleftrightarrow> i < length (w_trackers w)"
| "task_ok ne made w (CancelToken token) \<longleftrightarrow> True"
| "task_ok ne made w (DoneToken token i) \<longleftrightarrow> i < length (w_trackers w)"
| "task_ok ne made w (WaitCheck i fut late) \<longleftrightarrow> i < length (w_trackers w) \<and> fut \<in> made (tr_notify (tracker w i))
     \<and> (late \<longrightarrow> tr_stopped (tracker w i))"
| "task_ok ne made w (Waiting i fut late) \<longleftrightarrow> i < length (w_trackers w) \<and> fut \<in> made (tr_notify (tracker w i))
     \<and> (late \<longrightarrow> tr_stopped (tracker w i) \<and> wake_ok ne w i fut)"

definition ctx_inv :: "'n notify_env \<Rightarrow> ('n \<Rightarrow> nat set) \<Rightarrow> ('t, 'n) world \<Rightarrow> bool" where
  "ctx_inv ne made w \<longleftrightarrow> (\<forall>c \<in> set (w_contexts w). c_tracker c < length (w_trackers w))
     \<and> (\<forall>h \<in> set (w_handlers w). h_tracker h < length (w_trackers w)) \<and> (\<forall>x \<in> set (w_tasks w). task_ok ne made w x)
     \<and> (\<forall>i < length (w_trackers w). tr_active_count (tracker w i) = live i (w_contexts w))"

text \<open>What never goes back in a tracker.\<close>

definition grows :: "'n notify_env \<Rightarrow> ('n \<Rightarrow> nat set) \<Rightarrow> 'n ContextTrackerInner \<Rightarrow> 'n ContextTrackerInner \<Rightarrow> bool" where
  "grows ne made tr tr' \<longleftrightarrow> made (tr_notify tr) \<subseteq> made (tr_notify tr') \<and> (tr_stopped tr \<longrightarrow> tr_stopped tr') \<and> (tr_stale tr \<longrightarrow> tr_stale tr')
     \<and> (\<forall>j \<in> made (tr_notify tr). nt_ready ne (tr_notify tr) j \<longrightarrow> nt_ready ne (tr_notify tr') j)"

lemma grows_simps:
  "grows ne made tr tr" "grows ne made tr (tracker_child tr)" "grows ne made tr (tracker_stop tr)" "grows ne made tr (tracker_sub tr)"
  "grows ne made tr (tr\<lparr>tr_active_count := k\<rparr>)" "grows ne made tr (tr\<lparr>tr_active_count := k, tr_counts := ks\<rparr>)" "grows ne made tr (tr\<lparr>tr_stopped := True\<rparr>)"
  "grows ne made tr (mark_stale b tr)"
  by (simp_all add: grows_def tracker_child_def tracker_stop_def tracker_sub_def)

lemma grows_notify:
  assumes "notify_ok ne made"
  shows "grows ne made tr (tracker_drop_check ne prev stopped tr)"
    "nt_notified ne (tr_notify tr) = (fut, n) \<Longrightarrow> grows ne made tr (tr\<lparr>tr_notify := n\<rparr>) \<and> fut \<in> made n \<and> \<not> nt_ready ne n fut"
proof -
  show "grows ne made tr (tracker_drop_check ne prev stopped tr)" using assms by (simp add: grows_def notify_ok_def)
  assume "nt_notified ne (tr_notify tr) = (fut, n)"
  moreover have "let (i, n') = nt_notified ne (tr_notify tr) in \<not> nt_ready ne n' i \<and> i \<notin> made (tr_notify tr)
      \<and> made n' = insert i (made (tr_notify tr)) \<and> (\<forall>j \<in> made (tr_notify tr). nt_ready ne n' j = nt_ready ne (tr_notify tr) j)"
    using assms by (simp only: notify_ok_def)
  ultimately show "grows ne made tr (tr\<lparr>tr_notify := n\<rparr>) \<and> fut \<in> made n \<and> \<not> nt_ready ne n fut" by (auto simp: grows_def)
qed

text \<open>The steps keep the invariant when no count drops to zero without a drop under way, and no such drop ends without a
  notification.\<close>

lemma ctx_inv_step:
  assumes inv: "ctx_inv ne made w" and len: "length (w_trackers w) \<le> length (w_trackers w')"
    and grow: "\<And>i. i < length (w_trackers w) \<Longrightarrow> grows ne made (tracker w i) (tracker w' i)"
    and zero: "\<And>i. i < length (w_trackers w) \<Longrightarrow> tr_active_count (tracker w i) \<noteq> 0 \<Longrightarrow>
      tr_active_count (tracker w' i) \<noteq> 0 \<or> DropCheck i 1 \<in> set (w_tasks w')"
    and notify: "\<And>i. i < length (w_trackers w) \<Longrightarrow> DropCheck i 1 \<in> set (w_tasks w) \<Longrightarrow> tr_stopped (tracker w i) \<Longrightarrow>
      DropCheck i 1 \<in> set (w_tasks w') \<or> tr_stale (tracker w' i)
      \<or> (\<forall>j \<in> made (tr_notify (tracker w i)). nt_ready ne (tr_notify (tracker w' i)) j)"
    and tasks: "\<And>x. x \<in> set (w_tasks w') \<Longrightarrow> x \<notin> set (w_tasks w) \<Longrightarrow> task_ok ne made w' x"
    and contexts: "\<And>c. c \<in> set (w_contexts w') \<Longrightarrow> c_tracker c < length (w_trackers w')"
    and handlers: "\<And>h. h \<in> set (w_handlers w') \<Longrightarrow> h_tracker h < length (w_trackers w')"
    and count: "\<And>i. i < length (w_trackers w') \<Longrightarrow> tr_active_count (tracker w' i) = live i (w_contexts w')"
  shows "ctx_inv ne made w'"
proof -
  have "task_ok ne made w' x" if "x \<in> set (w_tasks w)" for x
  proof -
    have old: "task_ok ne made w x" using inv that by (simp add: ctx_inv_def)
    have wake: "wake_ok ne w' i fut" if "wake_ok ne w i fut" "i < length (w_trackers w)" "fut \<in> made (tr_notify (tracker w i))"
        "tr_stopped (tracker w i)" for i fut
      using that grow [OF that(2)] zero [OF that(2)] notify [OF that(2)] unfolding wake_ok_def grows_def by blast
    show ?thesis
    proof (cases x)
      case (WaitCheck i fut late)
      then show ?thesis using old len grow [of i] by (auto simp: grows_def)
    next
      case (Waiting i fut late)
      then show ?thesis using old len grow [of i] wake [of i fut] by (auto simp: grows_def)
    qed (use old len in auto)
  qed
  then show ?thesis using tasks contexts handlers count unfolding ctx_inv_def by blast
qed

lemma on_tracker_simps [simp]:
  "length (w_trackers (on_tracker i f w)) = length (w_trackers w)" "w_contexts (on_tracker i f w) = w_contexts w"
  "w_handlers (on_tracker i f w) = w_handlers w" "w_tasks (on_tracker i f w) = w_tasks w" "w_tokens (on_tracker i f w) = w_tokens w"
  "j < length (w_trackers w) \<Longrightarrow> tracker (on_tracker i f w) j = (if i = j then f (tracker w j) else tracker w j)"
  by (simp_all add: on_tracker_def nth_list_update)

lemma inv_bounds:
  assumes "ctx_inv ne made w"
  shows "c \<in> set (w_contexts w) \<Longrightarrow> c_tracker c < length (w_trackers w)" "h \<in> set (w_handlers w) \<Longrightarrow> h_tracker h < length (w_trackers w)"
    "x \<in> set (w_tasks w) \<Longrightarrow> task_ok ne made w x" "i < length (w_trackers w) \<Longrightarrow> tr_active_count (tracker w i) = live i (w_contexts w)"
  using assms by (simp_all add: ctx_inv_def)

lemma create_inv:
  assumes inv: "ctx_inv ne made w"
  shows "ctx_inv ne made (handler_new te ne w)" "h \<in> set (w_handlers w) \<Longrightarrow> ctx_inv ne made (handler_context te h w)"
    "c \<in> set (w_contexts w) \<Longrightarrow> ctx_inv ne made (context_clone c w)"
    "c \<in> set (w_contexts w) \<Longrightarrow> ctx_inv ne made (context_new_child te ne c w)"
proof -
  note b = inv_bounds [OF inv]
  have none: "live (length (w_trackers w)) (w_contexts w) = 0"
    by (auto simp: live_def filter_empty_conv dest: b(1))
  show "ctx_inv ne made (handler_new te ne w)"
    by (rule ctx_inv_step [OF inv])
      (use b none in \<open>auto simp: handler_new_def Let_def split_beta nth_append grows_simps tracker_new_def less_Suc_eq dest: b(2)\<close>)
  show "ctx_inv ne made (handler_context te h w)" if "h \<in> set (w_handlers w)"
    by (rule ctx_inv_step [OF inv])
      (use b that in \<open>auto simp: handler_context_def Let_def split_beta grows_simps tracker_child_def dest: b(2)\<close>)
  show "ctx_inv ne made (context_clone c w)" if "c \<in> set (w_contexts w)"
    by (rule ctx_inv_step [OF inv])
      (use b that in \<open>auto simp: context_clone_def Let_def grows_simps tracker_child_def dest: b(1)\<close>)
  show "ctx_inv ne made (context_new_child te ne c w)" if "c \<in> set (w_contexts w)"
    by (rule ctx_inv_step [OF inv])
      (use b none that in \<open>auto simp: context_new_child_def Let_def split_beta nth_append grows_simps tracker_new_def tracker_child_def less_Suc_eq\<close>)
qed

lemma drop_inv:
  assumes inv: "ctx_inv ne made w" and ok: "notify_ok ne made"
  shows "w_contexts w = xs @ c # ys \<Longrightarrow> ctx_inv ne made ((on_tracker (c_tracker c) tracker_sub w)\<lparr>w_contexts := xs @ ys,
       w_tasks := DropCheck (c_tracker c) (tr_active_count (tracker w (c_tracker c))) # w_tasks w\<rparr>)"
    "w_tasks w = xs' @ DropCheck i prev # ys' \<Longrightarrow> ctx_inv ne made ((on_tracker i (tracker_drop_check ne prev stopped) w)\<lparr>w_tasks := xs' @ ys'\<rparr>)"
proof -
  note b = inv_bounds [OF inv]
  show "ctx_inv ne made ((on_tracker (c_tracker c) tracker_sub w)\<lparr>w_contexts := xs @ ys,
       w_tasks := DropCheck (c_tracker c) (tr_active_count (tracker w (c_tracker c))) # w_tasks w\<rparr>)" if cs: "w_contexts w = xs @ c # ys"
  proof -
    have c: "c_tracker c < length (w_trackers w)" using b(1) cs by simp
    have "tr_active_count (tracker w (c_tracker c)) = Suc (live (c_tracker c) (xs @ ys))" using b(4) [OF c] cs by simp
    then show ?thesis
      by (intro ctx_inv_step [OF inv]) (use b c cs in \<open>auto simp: grows_simps tracker_sub_def\<close>)
  qed
  show "ctx_inv ne made ((on_tracker i (tracker_drop_check ne prev stopped) w)\<lparr>w_tasks := xs' @ ys'\<rparr>)" if ts: "w_tasks w = xs' @ DropCheck i prev # ys'"
  proof -
    have i: "i < length (w_trackers w)" using b(3) [of "DropCheck i prev"] ts by simp
    have "tr_stale (tracker_drop_check ne 1 stopped (tracker w i))
        \<or> (\<forall>j \<in> made (tr_notify (tracker w i)). nt_ready ne (tr_notify (tracker_drop_check ne 1 stopped (tracker w i))) j)"
      if "tr_stopped (tracker w i)"
      using ok that by (simp add: notify_ok_def)
    then show ?thesis
      by (intro ctx_inv_step [OF inv]) (use b i ts in \<open>auto simp: grows_simps grows_notify [OF ok]\<close>)
  qed
qed

lemma wait_inv:
  assumes inv: "ctx_inv ne made w" and ok: "notify_ok ne made" and wait: "tracker_wait ne i w = (t, w')" and i: "i < length (w_trackers w)"
    and ts: "set ts \<subseteq> set (w_tasks w)" "\<And>j. DropCheck j 1 \<in> set (w_tasks w) \<Longrightarrow> DropCheck j 1 \<in> set ts"
  shows "ctx_inv ne made (w'\<lparr>w_tasks := t # ts\<rparr>)"
proof -
  note b = inv_bounds [OF inv]
  obtain fut n where n: "nt_notified ne (tr_notify (tracker w i)) = (fut, n)" by (cases "nt_notified ne (tr_notify (tracker w i))")
  note g = grows_notify(2) [OF ok n]
  have w': "w' = on_tracker i (\<lambda>tr. tr\<lparr>tr_notify := n\<rparr>) w" "t = WaitCheck i fut (tr_stopped (tracker w i))"
    using wait n by (simp_all add: tracker_wait_def)
  show ?thesis unfolding w'
    by (rule ctx_inv_step [OF inv]) (use b i g ts in \<open>auto simp: grows_simps\<close>)
qed

lemma ctx_step_inv:
  assumes inv: "ctx_inv ne made w" and ok: "notify_ok ne made" and step: "ctx_step te ne w w'"
  shows "ctx_inv ne made w'"
  using step
proof cases
  case (cancel h)
  then show ?thesis unfolding cancel
    by (intro ctx_inv_step [OF inv]) (use inv_bounds [OF inv] cancel in \<open>auto simp: grows_simps tracker_stop_def\<close>)
next
  case (done_token xs token i ys t w1)
  have "i < length (w_trackers w)" using inv_bounds(3) [OF inv, of "DoneToken token i"] done_token by simp
  then show ?thesis unfolding done_token(1) by (rule wait_inv [OF inv ok done_token(4)]) (use done_token(2) in auto)
next
  case (wait_call h t w1)
  show ?thesis unfolding wait_call(1) by (rule wait_inv [OF inv ok wait_call(3)]) (use inv_bounds(2) [OF inv wait_call(2)] in auto)
next
  case (wait_more xs i fut late ys k)
  have i: "task_ok ne made w (WaitCheck i fut late)" using inv_bounds(3) [OF inv, of "WaitCheck i fut late"] wait_more(2) by simp
  then have "task_ok ne made w' (Waiting i fut late)"
    unfolding wait_more(1) using wait_more(4) by (auto simp: wake_ok_def)
  then show ?thesis using i unfolding wait_more(1)
    by (intro ctx_inv_step [OF inv]) (use inv_bounds [OF inv] wait_more(2) in \<open>auto simp: grows_simps\<close>)
next
  case (cancel_token xs token ys)
  then show ?thesis unfolding cancel_token(1)
    by (intro ctx_inv_step [OF inv]) (use inv_bounds [OF inv] cancel_token in \<open>auto simp: grows_simps\<close>)
next
  case (drop_handler xs h ys)
  then show ?thesis unfolding drop_handler(1)
    by (intro ctx_inv_step [OF inv]) (use inv_bounds [OF inv] drop_handler in \<open>auto simp: grows_simps\<close>)
next
  case (done_call h)
  then show ?thesis unfolding done_call(1)
    by (intro ctx_inv_step [OF inv]) (use inv_bounds [OF inv] done_call in \<open>auto simp: grows_simps\<close>)
next
  case (wait_zero xs i fut late ys)
  have "i < length (w_trackers w)" using inv_bounds(3) [OF inv, of "WaitCheck i fut late"] wait_zero(2) by simp
  then show ?thesis unfolding wait_zero(1)
    by (intro ctx_inv_step [OF inv]) (use inv_bounds [OF inv] wait_zero in \<open>auto simp: grows_simps\<close>)
next
  case (wait_ready xs i fut late ys)
  then show ?thesis unfolding wait_ready(1)
    by (intro ctx_inv_step [OF inv]) (use inv_bounds [OF inv] wait_ready in \<open>auto simp: grows_simps\<close>)
qed (use create_inv [OF inv] drop_inv [OF inv ok] in \<open>simp_all\<close>)

lemma ctx_run_inv: "ctx_run te ne t w \<Longrightarrow> notify_ok ne made \<Longrightarrow> ctx_inv ne made w"
proof (induction rule: ctx_run.induct)
  case ctx_init
  show ?case by (simp add: ctx_inv_def)
qed (rule ctx_step_inv)






section \<open>Properties\<close>

definition tracker_at :: "bool \<Rightarrow> nat \<Rightarrow> 'n \<Rightarrow> nat list \<Rightarrow> bool \<Rightarrow> 'n ContextTrackerInner" where
  "tracker_at stopped count n counts stale =
     \<lparr>tr_stopped = stopped, tr_active_count = count, tr_notify = n, tr_counts = counts, tr_stale = stale\<rparr>"

text \<open>A run in which a wake-up is lost: the handler is shut down and waits, and the drop of the last context loads the old value of \<^verbatim>\<open>stopped\<close>.
  Nothing orders this load after the store: a context drops its token before its tracker, so that the drop may be past the last lock it
  shares with \<^verbatim>\<open>cancel\<close> when the flag is stored, and the accesses that follow are relaxed.\<close>

lemma lost_wake_run:
  assumes tok: "token_ok te covers" and ok: "notify_ok ne made"
  obtains w fut where "ctx_run te ne t w" "w_contexts w = []" "w_tasks w = [Waiting 0 fut True]" "length (w_trackers w) = 1"
    "tr_active_count (tracker w 0) = 0" "tr_stopped (tracker w 0)" "\<not> nt_ready ne (tr_notify (tracker w 0)) fut"
proof -
  obtain k0 t0 where k0: "tok_new te t = (k0, t0)" by (cases "tok_new te t")
  obtain k1 t1 where k1: "tok_child te k0 t0 = (k1, t1)" by (cases "tok_child te k0 t0")
  obtain fut n where n: "nt_notified ne (nt_new ne) = (fut, n)" by (cases "nt_notified ne (nt_new ne)")
  have fresh: "\<not> nt_ready ne n fut" using grows_notify(2) [OF ok, of "tracker_new ne" fut n] n by (simp add: tracker_new_def)
  let ?h = "\<lparr>h_token = k0, h_tracker = 0\<rparr>" and ?c = "\<lparr>c_token = k1, c_tracker = 0\<rparr>"
  let ?w = "\<lambda>t tr cs ts. \<lparr>w_tokens = t, w_trackers = [tr], w_contexts = cs, w_handlers = [?h], w_tasks = ts\<rparr>"
  let ?n0 = "nt_new ne" and ?t = "tok_cancel te k0 t1"
  note defs = handler_new_def handler_context_def on_tracker_def tracker_new_def tracker_child_def tracker_sub_def tracker_at_def
    tracker_stop_def tracker_drop_check_def tracker_wait_def mark_stale_def load_stopped_def load_active_count_def Let_def
  have "ctx_run te ne t (?w t0 (tracker_at False 0 ?n0 [] False) [] [])"
    using ctx_next [OF ctx_init new_handler, of te ne t] k0 by (simp add: defs)
  from ctx_next [OF this new_context, of ?h] have "ctx_run te ne t (?w t1 (tracker_at False 1 ?n0 [0] False) [?c] [])"
    using k1 by (simp add: defs)
  from ctx_next [OF this cancel, of ?h] have "ctx_run te ne t (?w t1 (tracker_at True 1 ?n0 [0] False) [?c] [CancelToken k0])" by (simp add: defs)
  from ctx_next [OF this cancel_token, of "[]" k0 "[]"] have "ctx_run te ne t (?w ?t (tracker_at True 1 ?n0 [0] False) [?c] [])" by simp
  from ctx_next [OF this done_call, of ?h] have run: "ctx_run te ne t (?w ?t (tracker_at True 1 ?n0 [0] False) [?c] [DoneToken k0 0])" by simp
  have "tok_cancelled te ?t k0" using tok unfolding token_ok_def by blast
  with ctx_next [OF run done_token, of "[]" k0 0 "[]"] n
  have "ctx_run te ne t (?w ?t (tracker_at True 1 n [0] False) [?c] [WaitCheck 0 fut True])" by (simp add: defs)
  from ctx_next [OF this wait_more, of "[]" 0 fut True "[]" 1]
  have "ctx_run te ne t (?w ?t (tracker_at True 1 n [0] False) [?c] [Waiting 0 fut True])" by (simp add: defs)
  from ctx_next [OF this drop_context, of "[]" ?c "[]"]
  have "ctx_run te ne t (?w ?t (tracker_at True 0 n [1, 0] False) [] [DropCheck 0 1, Waiting 0 fut True])" by (simp add: defs)
  from ctx_next [OF this drop_check, of "[]" 0 1 "[Waiting 0 fut True]" False]
  have "ctx_run te ne t (?w ?t (tracker_at True 0 n [1, 0] True) [] [Waiting 0 fut True])" by (simp add: defs)
  from that [OF this, of fut] fresh show thesis by (simp add: tracker_at_def)
qed

text \<open>C38: in every execution with relaxed loads, the count of a tracker is the number of its live contexts; and a wake-up of a shutdown is
  lost only through a stale load: a call that began to wait after its handler was stopped is ready as soon as all contexts of the
  handler are dropped and no drop is under way, unless a load of \<^verbatim>\<open>stopped\<close> in a drop or of \<^verbatim>\<open>active_count\<close> in \<^verbatim>\<open>wait\<close> returned an old value. The
  orderings of the source do not exclude that: there is an execution in which the handler is stopped, its shutdown waits, every context
  is dropped and every other call has returned, and the shutdown is not woken.\<close>

theorem shutdown_wakes:
  assumes "token_ok te covers" "notify_ok ne made"
  shows "(\<forall>w. ctx_run te ne t w \<longrightarrow>
        (\<forall>i < length (w_trackers w). tr_active_count (tracker w i) = length (filter (\<lambda>c. c_tracker c = i) (w_contexts w)))
        \<and> (\<forall>i fut. Waiting i fut True \<in> set (w_tasks w) \<and> (\<forall>c \<in> set (w_contexts w). c_tracker c \<noteq> i)
             \<and> DropCheck i 1 \<notin> set (w_tasks w) \<and> \<not> tr_stale (tracker w i) \<longrightarrow> nt_ready ne (tr_notify (tracker w i)) fut))
     \<and> (\<exists>w fut. ctx_run te ne t w \<and> w_contexts w = [] \<and> w_tasks w = [Waiting 0 fut True] \<and> tr_active_count (tracker w 0) = 0
          \<and> tr_stopped (tracker w 0) \<and> \<not> nt_ready ne (tr_notify (tracker w 0)) fut)"
proof (intro conjI allI impI)
  fix w i assume run: "ctx_run te ne t w"
  note b = inv_bounds [OF ctx_run_inv [OF run assms(2)]]
  show "tr_active_count (tracker w i) = length (filter (\<lambda>c. c_tracker c = i) (w_contexts w))" if "i < length (w_trackers w)"
    using b(4) [OF that] by (simp add: live_def)
  fix fut
  assume asm: "Waiting i fut True \<in> set (w_tasks w) \<and> (\<forall>c \<in> set (w_contexts w). c_tracker c \<noteq> i)
     \<and> DropCheck i 1 \<notin> set (w_tasks w) \<and> \<not> tr_stale (tracker w i)"
  then have i: "i < length (w_trackers w)" "wake_ok ne w i fut" using b(3) [of "Waiting i fut True"] by simp_all
  have "tr_active_count (tracker w i) = 0" using b(4) [OF i(1)] asm by (auto simp: live_def filter_empty_conv)
  then show "nt_ready ne (tr_notify (tracker w i)) fut" using i(2) asm by (simp add: wake_ok_def)
next
  from lost_wake_run [OF assms]
  show "\<exists>w fut. ctx_run te ne t w \<and> w_contexts w = [] \<and> w_tasks w = [Waiting 0 fut True] \<and> tr_active_count (tracker w 0) = 0
          \<and> tr_stopped (tracker w 0) \<and> \<not> nt_ready ne (tr_notify (tracker w 0)) fut" by metis
qed



section \<open>An example\<close>

text \<open>Tokens as a forest with a set of cancelled ones, notifications as the number of futures made and the set of those ready.\<close>

definition forest_tokens :: "(nat \<times> (nat \<times> nat) set \<times> nat set) token_env" where
  "forest_tokens = \<lparr>tok_new = \<lambda>(n, anc, can). (n, (Suc n, anc, can)),
     tok_child = \<lambda>i (n, anc, can). (n, (Suc n, anc \<union> {(a, n) | a. a = i \<or> (a, i) \<in> anc}, if i \<in> can then insert n can else can)),
     tok_cancel = \<lambda>i (n, anc, can). (n, anc, can \<union> {j. j = i \<or> (i, j) \<in> anc}),
     tok_cancelled = \<lambda>(n, anc, can) j. j \<in> can\<rparr>"

lemma forest_tokens_ok: "token_ok forest_tokens (\<lambda>(n, anc, can) a b. a = b \<or> (a, b) \<in> anc)"
  by (auto simp: token_ok_def forest_tokens_def)

definition set_notify :: "(nat \<times> nat set) notify_env" where
  "set_notify = \<lparr>nt_new = (0, {}), nt_notified = \<lambda>(n, ready). (n, (Suc n, ready - {n})), nt_notify_waiters = \<lambda>(n, ready). (n, {..<n}),
     nt_ready = \<lambda>(n, ready) i. i \<in> ready\<rparr>"

lemma set_notify_ok: "notify_ok set_notify (\<lambda>(n, ready). {..<n})"
  by (auto simp: notify_ok_def set_notify_def)

text \<open>A handler with one context is cancelled and waits; then the context is dropped.\<close>

definition example_world :: "(nat \<times> (nat \<times> nat) set \<times> nat set, nat \<times> nat set) world" where
  "example_world = \<lparr>w_tokens = (2, {(0, 1)}, {0, 1}), w_trackers = [tracker_at True 0 (1, {0}) [1, 0] False],
     w_contexts = [], w_handlers = [\<lparr>h_token = 0, h_tracker = 0\<rparr>], w_tasks = [Waiting 0 0 True]\<rparr>"

lemma example_world_run: "ctx_run forest_tokens set_notify (0, {}, {}) example_world"
proof -
  let ?h = "\<lparr>h_token = 0, h_tracker = 0\<rparr>" and ?c = "\<lparr>c_token = 1, c_tracker = 0\<rparr>"
  let ?w = "\<lambda>t trs cs hs ts. \<lparr>w_tokens = t, w_trackers = trs, w_contexts = cs, w_handlers = hs, w_tasks = ts\<rparr>"
  let ?run = "ctx_run forest_tokens set_notify (0, {}, {})"
  note defs = handler_new_def handler_context_def on_tracker_def tracker_new_def tracker_child_def tracker_sub_def tracker_at_def
    tracker_stop_def tracker_drop_check_def tracker_wait_def mark_stale_def load_stopped_def load_active_count_def Let_def forest_tokens_def set_notify_def
  have "?run (?w (1, {}, {}) [tracker_at False 0 (0, {}) [] False] [] [?h] [])"
    using ctx_next [OF ctx_init new_handler, of forest_tokens set_notify "(0, {}, {})"] by (simp add: defs)
  from ctx_next [OF this new_context, of ?h] have "?run (?w (2, {(0, 1)}, {}) [tracker_at False 1 (0, {}) [0] False] [?c] [?h] [])"
    by (simp add: defs numeral_2_eq_2)
  from ctx_next [OF this cancel, of ?h] have "?run (?w (2, {(0, 1)}, {}) [tracker_at True 1 (0, {}) [0] False] [?c] [?h] [CancelToken 0])" by (simp add: defs)
  from ctx_next [OF this cancel_token, of "[]" 0 "[]"]
  have "?run (?w (2, {(0, 1)}, {j. j = 0 \<or> j = 1}) [tracker_at True 1 (0, {}) [0] False] [?c] [?h] [])" by (simp add: defs)
  moreover have "{j. j = 0 \<or> j = 1} = {0, 1 :: nat}" by auto
  ultimately have "?run (?w (2, {(0, 1)}, {0, 1}) [tracker_at True 1 (0, {}) [0] False] [?c] [?h] [])" by simp
  from ctx_next [OF this done_call, of ?h] have "?run (?w (2, {(0, 1)}, {0, 1}) [tracker_at True 1 (0, {}) [0] False] [?c] [?h] [DoneToken 0 0])" by simp
  from ctx_next [OF this done_token, of "[]" 0 0 "[]"]
  have "?run (?w (2, {(0, 1)}, {0, 1}) [tracker_at True 1 (1, {}) [0] False] [?c] [?h] [WaitCheck 0 0 True])" by (simp add: defs)
  from ctx_next [OF this wait_more, of "[]" 0 0 True "[]" 1]
  have "?run (?w (2, {(0, 1)}, {0, 1}) [tracker_at True 1 (1, {}) [0] False] [?c] [?h] [Waiting 0 0 True])" by (simp add: defs)
  from ctx_next [OF this drop_context, of "[]" ?c "[]"]
  have "?run (?w (2, {(0, 1)}, {0, 1}) [tracker_at True 0 (1, {}) [1, 0] False] [] [?h] [DropCheck 0 1, Waiting 0 0 True])" by (simp add: defs)
  from ctx_next [OF this drop_check, of "[]" 0 1 "[Waiting 0 0 True]" True] show ?thesis
    by (simp add: defs example_world_def lessThan_Suc)
qed

theorem shutdown_wakes_witness:
  "nt_ready set_notify (tr_notify (tracker example_world 0)) 0 \<and> tr_active_count (tracker example_world 0) = 0
   \<and> (\<exists>w fut. ctx_run forest_tokens set_notify (0, {}, {}) w \<and> w_contexts w = [] \<and> w_tasks w = [Waiting 0 fut True]
        \<and> \<not> nt_ready set_notify (tr_notify (tracker w 0)) fut)"
proof -
  note wakes = shutdown_wakes [OF forest_tokens_ok set_notify_ok, of "(0, {}, {})"]
  have "length (w_trackers example_world) = 1" "w_contexts example_world = []" "w_tasks example_world = [Waiting 0 0 True]"
    "\<not> tr_stale (tracker example_world 0)"
    by (simp_all add: example_world_def tracker_at_def)
  then have "nt_ready set_notify (tr_notify (tracker example_world 0)) 0 \<and> tr_active_count (tracker example_world 0) = 0"
    using conjunct1 [OF wakes, rule_format, OF example_world_run] by simp
  with conjunct2 [OF wakes] show ?thesis by blast
qed


end
